(* ===== verification/Prelude.thy ===== *)
theory Prelude
  imports Main "HOL-Library.Word"
begin

text \<open>
  Shared vocabulary of the development.

  \<^item> \<^bold>\<open>Faults.\<close> A call that does not return normally is a value of type \<open>fault\<close>: a failed
    \<^verbatim>\<open>furi_check\<close> or \<^verbatim>\<open>furi_assert\<close> (both end in \<^verbatim>\<open>__furi_abort\<close>, which never
    returns, \<^verbatim>\<open>core/furi/check.c\<close>), an access outside an array, a use of a null pointer, a
    division by zero. \<open>'a res\<close> is the sum of faults and results; \<open>bindE\<close> sequences two
    fallible steps.
  \<^item> \<^bold>\<open>Machine integers.\<close> \<open>u8\<close>, \<open>u16\<close>, \<open>u32\<close>, \<open>u64\<close> are words of the C widths.
  \<^item> \<^bold>\<open>Arrays.\<close> C arrays are lists with checked access (\<open>arr_get\<close>, \<open>arr_set\<close>).

  The collection \<open>res_simps\<close> holds the rewrite rules of the fault monad; the components add
  nothing to it and use it everywhere.
\<close>

named_theorems res_simps \<open>evaluation rules of the fault monad\<close>
named_theorems arr_simps \<open>evaluation rules of checked array access\<close>

section \<open>Machine integers\<close>

type_synonym u8 = "8 word"
type_synonym u16 = "16 word"
type_synonym u32 = "32 word"
type_synonym u64 = "64 word"

section \<open>Faults\<close>

datatype fault =
    Check_Failed
  | Assert_Failed
  | Out_Of_Bounds
  | Null_Pointer
  | Div_Zero

type_synonym 'a res = "fault + 'a"

definition bindE :: "'a res \<Rightarrow> ('a \<Rightarrow> 'b res) \<Rightarrow> 'b res" where
  "bindE m f = (case m of Inl e \<Rightarrow> Inl e | Inr x \<Rightarrow> f x)"

text \<open>
  \<^verbatim>\<open>furi_check(e)\<close> is always compiled in; \<^verbatim>\<open>furi_assert(e)\<close> only when \<^verbatim>\<open>NDEBUG\<close> is not
  defined. \<open>dbg\<close> is the build: true for the debug build (the default of
  \<^verbatim>\<open>make/toolchain.mk\<close>, \<^verbatim>\<open>DEBUG ?= 1\<close>), false for the release build.
\<close>

definition furi_check :: "bool \<Rightarrow> 'a res \<Rightarrow> 'a res" where
  "furi_check e k = (if e then k else Inl Check_Failed)"

definition furi_assert :: "bool \<Rightarrow> bool \<Rightarrow> 'a res \<Rightarrow> 'a res" where
  "furi_assert dbg e k = (if dbg then (if e then k else Inl Assert_Failed) else k)"

lemma bindE_Inl [simp, res_simps]: "bindE (Inl e) f = Inl e"
  by (simp add: bindE_def)

lemma bindE_Inr [simp, res_simps]: "bindE (Inr x) f = f x"
  by (simp add: bindE_def)

lemma bindE_assoc: "bindE (bindE m f) g = bindE m (\<lambda>x. bindE (f x) g)"
  by (cases m) simp_all

lemma bindE_eq_Inr: "bindE m f = Inr y \<longleftrightarrow> (\<exists>x. m = Inr x \<and> f x = Inr y)"
  by (cases m) simp_all

lemma bindE_eq_Inl: "bindE m f = Inl e \<longleftrightarrow> m = Inl e \<or> (\<exists>x. m = Inr x \<and> f x = Inl e)"
  by (cases m) simp_all

lemma bindE_cong [fundef_cong]:
  assumes "m = n" and "\<And>x. n = Inr x \<Longrightarrow> f x = g x"
  shows "bindE m f = bindE n g"
  using assms by (cases n) simp_all

lemma bindE_InrE [elim]:
  assumes "bindE m f = Inr y"
  obtains x where "m = Inr x" and "f x = Inr y"
  using assms by (auto simp: bindE_eq_Inr)

lemma bindE_if [res_simps]:
  "bindE (if c then m else n) f = (if c then bindE m f else bindE n f)"
  by simp

lemma furi_check_True [simp, res_simps]: "furi_check True k = k"
  by (simp add: furi_check_def)

lemma furi_check_False [simp, res_simps]: "furi_check False k = Inl Check_Failed"
  by (simp add: furi_check_def)

lemma furi_check_eq_Inr: "furi_check e k = Inr y \<longleftrightarrow> e \<and> k = Inr y"
  by (simp add: furi_check_def)

lemma furi_assert_True [simp, res_simps]: "furi_assert dbg True k = k"
  by (simp add: furi_assert_def)

lemma furi_assert_debug [simp, res_simps]: "furi_assert True False k = Inl Assert_Failed"
  by (simp add: furi_assert_def)

lemma furi_assert_release [simp, res_simps]: "furi_assert False e k = k"
  by (simp add: furi_assert_def)

lemma furi_assert_eq_Inr: "furi_assert dbg e k = Inr y \<longleftrightarrow> (dbg \<longrightarrow> e) \<and> k = Inr y"
  by (simp add: furi_assert_def)

section \<open>Arrays\<close>

definition arr_get :: "'a list \<Rightarrow> nat \<Rightarrow> 'a res" where
  "arr_get xs i = (if i < length xs then Inr (xs ! i) else Inl Out_Of_Bounds)"

definition arr_set :: "'a list \<Rightarrow> nat \<Rightarrow> 'a \<Rightarrow> 'a list res" where
  "arr_set xs i v = (if i < length xs then Inr (xs[i := v]) else Inl Out_Of_Bounds)"

lemma arr_get_in [simp, arr_simps]: "i < length xs \<Longrightarrow> arr_get xs i = Inr (xs ! i)"
  by (simp add: arr_get_def)

lemma arr_get_out [simp, arr_simps]: "length xs \<le> i \<Longrightarrow> arr_get xs i = Inl Out_Of_Bounds"
  by (simp add: arr_get_def)

lemma arr_get_eq_Inr: "arr_get xs i = Inr v \<longleftrightarrow> i < length xs \<and> xs ! i = v"
  by (auto simp: arr_get_def)

lemma arr_set_in [simp, arr_simps]: "i < length xs \<Longrightarrow> arr_set xs i v = Inr (xs[i := v])"
  by (simp add: arr_set_def)

lemma arr_set_out [simp, arr_simps]: "length xs \<le> i \<Longrightarrow> arr_set xs i v = Inl Out_Of_Bounds"
  by (simp add: arr_set_def)

lemma arr_set_eq_Inr: "arr_set xs i v = Inr ys \<longleftrightarrow> i < length xs \<and> ys = xs[i := v]"
  by (auto simp: arr_set_def)

section \<open>Clamping\<close>

text \<open>\<^verbatim>\<open>CLAMP(x, upper, lower)\<close> of \<^verbatim>\<open>core/furi/common_defines.h\<close>.\<close>

definition clamp :: "int \<Rightarrow> int \<Rightarrow> int \<Rightarrow> int" where
  "clamp x upper lower = min upper (max x lower)"

lemma clamp_within: "lo \<le> hi \<Longrightarrow> lo \<le> clamp x hi lo \<and> clamp x hi lo \<le> hi"
  by (simp add: clamp_def)

section \<open>Running a fallible step over a list of inputs\<close>

text \<open>
  \<open>runE f s xs\<close> feeds the inputs one by one, collecting the outputs; the first fault stops the
  run. It is the event loop of every component that consumes a stream.
\<close>

fun runE :: "('s \<Rightarrow> 'i \<Rightarrow> ('o \<times> 's) res) \<Rightarrow> 's \<Rightarrow> 'i list \<Rightarrow> ('o list \<times> 's) res" where
  "runE f s [] = Inr ([], s)"
| "runE f s (x # xs) =
     bindE (f s x) (\<lambda>(o1, s1). bindE (runE f s1 xs) (\<lambda>(os, s2). Inr (o1 # os, s2)))"

lemma runE_append:
  "runE f s (xs @ ys) =
     bindE (runE f s xs) (\<lambda>(os1, s1). bindE (runE f s1 ys) (\<lambda>(os2, s2). Inr (os1 @ os2, s2)))"
proof (induction xs arbitrary: s)
  case Nil
  show ?case by (cases "runE f s ys") auto
next
  case (Cons x xs)
  show ?case
    by (cases "f s x")
       (auto simp: Cons.IH bindE_assoc fun_eq_iff split: prod.splits intro!: arg_cong2 [of _ _ _ _ bindE])
qed

lemma runE_invariant:
  assumes "\<And>s x o1 s1. I s \<Longrightarrow> f s x = Inr (o1, s1) \<Longrightarrow> I s1"
    and "I s" and "runE f s xs = Inr (os, s')"
  shows "I s'"
  using assms(2,3)
proof (induction xs arbitrary: s os)
  case Nil
  then show ?case by simp
next
  case (Cons x xs)
  from Cons.prems(2) show ?case
    by (auto simp: bindE_eq_Inr split: prod.splits dest: assms(1) [OF Cons.prems(1)] Cons.IH)
qed

text \<open>If every step from a good state succeeds and stays good, no input faults.\<close>

lemma runE_total:
  assumes "\<And>s x. I s \<Longrightarrow> \<exists>o1 s1. f s x = Inr (o1, s1) \<and> I s1"
    and "I s"
  shows "\<exists>os s'. runE f s xs = Inr (os, s') \<and> I s'"
  using assms(2)
proof (induction xs arbitrary: s)
  case Nil
  then show ?case by simp
next
  case (Cons x xs)
  from assms(1) [OF Cons.prems] obtain o1 s1 where 1: "f s x = Inr (o1, s1)" "I s1"
    by blast
  from Cons.IH [OF 1(2)] obtain os s' where "runE f s1 xs = Inr (os, s')" "I s'"
    by blast
  with 1 show ?case by simp
qed

lemma runE_length: "runE f s xs = Inr (os, s') \<Longrightarrow> length os = length xs"
proof (induction xs arbitrary: s os)
  case (Cons x xs)
  then show ?case
    by (auto simp: bindE_eq_Inr split: prod.splits)
qed simp

section \<open>Lists\<close>

lemma filter_key_single:
  "distinct xs \<Longrightarrow> k \<in> set xs \<Longrightarrow> filter (\<lambda>j. j = k) xs = [k]"
proof (induction xs)
  case (Cons x xs)
  then show ?case
    by (cases "x = k") (auto simp: filter_empty_conv)
qed simp

lemma find_distinct_key:
  "distinct (map f xs) \<Longrightarrow> x \<in> set xs \<Longrightarrow> find (\<lambda>y. f y = f x) xs = Some x"
  by (induction xs) auto

section \<open>Moving around a ring\<close>

lemma ring_prev: "p < n \<Longrightarrow> (if p > 0 then p - 1 else n - 1) = (p + n - 1) mod (n :: nat)"
proof (cases "p > 0")
  case True
  assume "p < n"
  from True have "p + n - 1 = (p - 1) + n" by simp
  then have "(p + n - 1) mod n = (p - 1) mod n" by (simp only: mod_add_self2)
  with True \<open>p < n\<close> show ?thesis by simp
qed simp

lemma ring_next: "p < n \<Longrightarrow> (if p + 1 < n then p + 1 else 0) = (p + 1) mod (n :: nat)"
  by (cases "p + 1 = n") auto

section \<open>Dictionaries\<close>

text \<open>
  The dictionaries of M*LIB, as association lists in their iteration order; setting a key that
  is there keeps its place.
\<close>

fun dict_set :: "'k \<Rightarrow> 'v \<Rightarrow> ('k \<times> 'v) list \<Rightarrow> ('k \<times> 'v) list" where
  "dict_set k v [] = [(k, v)]"
| "dict_set k v ((k1, v1) # d) = (if k1 = k then (k, v) # d else (k1, v1) # dict_set k v d)"

definition dict_erase :: "'k \<Rightarrow> ('k \<times> 'v) list \<Rightarrow> ('k \<times> 'v) list" where
  "dict_erase k d = filter (\<lambda>(k1, _). k1 \<noteq> k) d"

lemma map_of_dict_set [simp]: "map_of (dict_set k v d) = (map_of d)(k \<mapsto> v)"
  by (induction d) auto

lemma map_of_dict_erase [simp]: "map_of (dict_erase k d) = (map_of d)(k := None)"
  by (induction d) (auto simp: dict_erase_def)

lemma keys_dict_set: "map fst (dict_set k v d) = map fst d @ (if k \<in> fst ` set d then [] else [k])"
  by (induction d) (auto simp: image_iff, fastforce+)

lemma dict_set_new: "map_of d k = None \<Longrightarrow> dict_set k v d = d @ [(k, v)]"
  by (induction d) (auto split: if_splits)

lemma distinct_dict_set: "distinct (map fst d) \<Longrightarrow> distinct (map fst (dict_set k v d))"
  by (auto simp: keys_dict_set)

lemma distinct_dict_erase: "distinct (map fst d) \<Longrightarrow> distinct (map fst (dict_erase k d))"
  by (simp add: dict_erase_def distinct_map_filter)

lemma set_distinct_map_of: "distinct (map fst d) \<Longrightarrow> (k, v) \<in> set d \<longleftrightarrow> map_of d k = Some v"
  by (metis map_of_eq_Some_iff)

section \<open>Words\<close>

unbundle bit_operations_syntax

text \<open>Two bytes of a 16-bit word, put together as the code does, low byte first.\<close>

definition u16_of_bytes :: "u8 \<Rightarrow> u8 \<Rightarrow> u16" where
  "u16_of_bytes lo hi = ucast lo OR push_bit 8 (ucast hi)"

lemma u16_of_bytes_lo [simp]: "(ucast (u16_of_bytes lo hi) :: u8) = lo"
  by (rule bit_word_eqI) (auto simp: u16_of_bytes_def bit_simps)

lemma u16_of_bytes_hi [simp]: "(ucast (drop_bit 8 (u16_of_bytes lo hi)) :: u8) = hi"
  by (rule bit_word_eqI) (auto simp: u16_of_bytes_def bit_simps dest: bit_imp_le_length)

lemma u16_of_bytes_split [simp]:
  "u16_of_bytes (ucast w) (ucast (drop_bit 8 w)) = w"
  by (rule bit_word_eqI) (auto simp: u16_of_bytes_def bit_simps)

lemma u16_of_bytes_eq_iff:
  "u16_of_bytes lo hi = w \<longleftrightarrow> lo = ucast w \<and> hi = ucast (drop_bit 8 w)"
  by (metis u16_of_bytes_lo u16_of_bytes_hi u16_of_bytes_split)

lemma ucast_u16_u32_inj: "(ucast (x :: u16) :: u32) = ucast y \<longleftrightarrow> x = y"
proof -
  have "(ucast (ucast z :: u32) :: u16) = z" for z :: u16
    by (rule bit_word_eqI) (auto simp: bit_simps)
  then show ?thesis by metis
qed

lemma unat_plus_if_fits:
  "unat a + unat b < 2 ^ LENGTH('a) \<Longrightarrow> unat (a + b) = unat a + unat (b :: 'a :: len word)"
  by (simp add: unat_word_ariths)

lemma unat_of_nat_small: "n < 2 ^ LENGTH('a) \<Longrightarrow> unat (of_nat n :: 'a :: len word) = n"
  by (simp add: unsigned_of_nat take_bit_nat_eq_self)

lemma unat_less_u32: "unat (w :: u32) < 2 ^ 32"
  using unsigned_less [of w] by simp

lemma unat_le_u8: "unat (w :: u8) \<le> 255"
proof -
  have "unat w < 2 ^ LENGTH(8)" by (rule unsigned_less)
  then show ?thesis by simp
qed

lemma word_of_nat_nonzero: "0 < n \<Longrightarrow> n < 2 ^ LENGTH('a) \<Longrightarrow> (of_nat n :: 'a :: len word) \<noteq> 0"
  by (metis less_irrefl unat_of_nat_small unsigned_0)

lemma inc_unat: "unat w < 255 \<Longrightarrow> unat (w + 1 :: u8) = unat w + 1"
  by (subst unat_plus_if_fits) simp_all

lemma dec_unat: "w \<noteq> 0 \<Longrightarrow> unat (w - 1 :: u8) = unat w - 1"
  by (rule unat_minus_one)

lemma unat_sub_small: "unat b \<le> unat a \<Longrightarrow> unat (a - b) = unat a - unat (b :: 'a :: len word)"
  by (rule unat_sub) (simp add: word_le_nat_alt)

lemma unat_u8_u32 [simp]: "unat (ucast (x :: u8) :: u32) = unat x"
proof -
  have "unat x < 2 ^ 32" using unat_le_u8 [of x] by simp
  then show ?thesis by (simp add: unsigned_ucast_eq take_bit_nat_eq_self)
qed

lemma unat_u32_u8: "unat (x :: u32) < 256 \<Longrightarrow> unat (ucast x :: u8) = unat x"
  by (simp add: unsigned_ucast_eq take_bit_nat_eq_self)

end
