(* ===== verification/Float32.thy ===== *)
theory Float32
  imports Complex_Main Prelude
begin

text \<open>
  Single-precision arithmetic as the source uses it: the tolerances of the infrared decoder and
  the experience formula of the dolphin are computed in C \<^verbatim>\<open>float\<close>. A value is the rational
  it denotes, and \<open>f32\<close> rounds a non-negative rational to the nearest number with a 24-bit
  significand, ties to even (IEEE 754 default mode; the exponent range is not bounded, none of
  the values here come near its ends). An operation of the code is the exact rational operation
  followed by \<open>f32\<close>.
\<close>

section \<open>Rounding\<close>

definition round_half_even :: "rat \<Rightarrow> int" where
  "round_half_even x =
     (let n = \<lfloor>x\<rfloor>; d = x - of_int n
      in if d < 1 / 2 then n
         else if 1 / 2 < d then n + 1
         else if even n then n else n + 1)"

text \<open>
  The significand of a positive value lies in \<open>[2 ^ 23, 2 ^ 24)\<close>: scale the value into it, round
  to an integer and scale back. The first argument bounds the number of scalings; 256 is more
  than the 149 binades below and the 127 above 1 that the format has.
\<close>

fun f32_scaled :: "nat \<Rightarrow> rat \<Rightarrow> rat" where
  "f32_scaled 0 x = of_int (round_half_even x)"
| "f32_scaled (Suc k) x =
     (if 2 ^ 24 \<le> x then 2 * f32_scaled k (x / 2)
      else if x < 2 ^ 23 then f32_scaled k (2 * x) / 2
      else of_int (round_half_even x))"

definition f32 :: "rat \<Rightarrow> rat" where
  "f32 x = f32_scaled 256 x"

text \<open>The evaluation rule: the fuel as a numeral, the bounds as numerals.\<close>

lemma f32_scaled_numeral:
  "f32_scaled (numeral k) x =
     (if 16777216 \<le> x then 2 * f32_scaled (pred_numeral k) (x / 2)
      else if x < 8388608 then f32_scaled (pred_numeral k) (2 * x) / 2
      else of_int (round_half_even x))"
  by (simp add: numeral_eq_Suc)

lemma floor_rat_numeral: "\<lfloor>numeral a / numeral b :: rat\<rfloor> = numeral a div numeral b"
  using floor_divide_of_int_eq [of "numeral a" "numeral b", where 'a = rat] by simp

lemmas f32_eval = f32_def f32_scaled_numeral round_half_even_def floor_rat_numeral Let_def

lemma round_half_even_of_int [simp]: "round_half_even (of_int n) = n"
  by (simp add: round_half_even_def Let_def)

lemma round_half_even_of_nat [simp]: "round_half_even (of_nat n) = int n"
  using round_half_even_of_int [of "int n"] by simp

lemma round_half_even_ge: "of_int n \<le> x \<Longrightarrow> n \<le> round_half_even x"
  by (auto simp: round_half_even_def Let_def le_floor_iff intro: order_trans [of n "\<lfloor>x\<rfloor>"])

text \<open>Integers of at most 24 bits are exact.\<close>

lemma f32_scaled_of_nat: "n < 2 ^ 24 \<Longrightarrow> f32_scaled k (of_nat n) = of_nat n"
proof (induction k arbitrary: n)
  case 0
  then show ?case by simp
next
  case (Suc k)
  have lt: "\<not> (2 ^ 24 :: rat) \<le> of_nat n"
    using Suc.prems of_nat_less_iff [of n "2 ^ 24", where 'a = rat] by simp
  show ?case
  proof (cases "(of_nat n :: rat) < 2 ^ 23")
    case True
    then have "(of_nat n :: rat) < of_nat (2 ^ 23)" by simp
    then have "n < 2 ^ 23" by (simp only: of_nat_less_iff)
    then have "f32_scaled k (of_nat (2 * n)) = (of_nat (2 * n) :: rat)"
      by (intro Suc.IH) simp
    with True lt show ?thesis by simp
  next
    case False
    with lt show ?thesis by simp
  qed
qed

lemma f32_of_nat: "n < 2 ^ 24 \<Longrightarrow> f32 (of_nat n) = of_nat n"
  by (simp add: f32_def f32_scaled_of_nat)

text \<open>Rounding never takes a value of at least \<open>2 ^ 23\<close> below that bound.\<close>

lemma f32_scaled_ge: "2 ^ 23 \<le> x \<Longrightarrow> 2 ^ 23 \<le> f32_scaled k x"
proof (induction k arbitrary: x)
  case 0
  then have "2 ^ 23 \<le> round_half_even x" by (intro round_half_even_ge) simp
  then have "(of_int (2 ^ 23) :: rat) \<le> of_int (round_half_even x)"
    by (simp only: of_int_le_iff)
  then show ?case by simp
next
  case (Suc k)
  show ?case
  proof (cases "2 ^ 24 \<le> x")
    case True
    then have "2 ^ 23 \<le> f32_scaled k (x / 2)" by (intro Suc.IH) simp
    with True show ?thesis by simp
  next
    case False
    have "2 ^ 23 \<le> round_half_even x"
      using Suc.prems by (intro round_half_even_ge) simp
    then have "(of_int (2 ^ 23) :: rat) \<le> of_int (round_half_even x)"
      by (simp only: of_int_le_iff)
    with False Suc.prems show ?thesis by simp
  qed
qed

lemma f32_of_nat_large: "2 ^ 24 \<le> n \<Longrightarrow> 2 ^ 23 \<le> f32 (of_nat n)"
  unfolding f32_def using of_nat_le_iff [of "2 ^ 24" n, where 'a = rat]
  by (intro f32_scaled_ge) simp

text \<open>
  Comparing a converted 32-bit integer with a bound up to \<open>2 ^ 23\<close> is the exact comparison,
  although the conversion itself rounds large integers.
\<close>

lemma f32_of_nat_less:
  assumes "q \<le> 2 ^ 23"
  shows "f32 (of_nat n) < q \<longleftrightarrow> of_nat n < q"
proof (cases "n < 2 ^ 24")
  case True
  then show ?thesis by (simp add: f32_of_nat)
next
  case False
  with f32_of_nat_large [of n] of_nat_le_iff [of "2 ^ 24" n, where 'a = rat] assms
  show ?thesis by simp
qed

lemma f32_of_nat_greater:
  assumes "q < 2 ^ 23"
  shows "q < f32 (of_nat n) \<longleftrightarrow> q < of_nat n"
proof (cases "n < 2 ^ 24")
  case True
  then show ?thesis by (simp add: f32_of_nat)
next
  case False
  with f32_of_nat_large [of n] of_nat_le_iff [of "2 ^ 24" n, where 'a = rat] assms
  show ?thesis by simp
qed

end
