(* ===== verification/IrdaDecoder.thy ===== *)
theory IrdaDecoder
  imports Float32
begin

unbundle bit_operations_syntax

text \<open>
  The common infrared decoder, \<^verbatim>\<open>lib/irda/irda_common_decoder.c\<close> and
  \<^verbatim>\<open>irda_common_decoder_i.h\<close>: a buffer of six pulse durations, a preamble detector, the
  pulse-distance-width demodulator and the three-state machine that drives the callbacks of a
  protocol.

  A protocol specification of the code carries function pointers that take the decoder, and the
  decoder points to its specification. Here the decoder does not hold the pointer: the
  specification is an argument, and its callbacks take the decoder.
  The counters \<^verbatim>\<open>timings_cnt\<close> (8 bit) and \<^verbatim>\<open>databit_cnt\<close> (16 bit) are naturals: each is the
  index of a checked array write before it is incremented, so it faults long before it could
  wrap. Elements at variable indices are accessed with bounds checks; \<open>timings ! 0\<close> to
  \<open>timings ! 5\<close> are the elements of a six-element array at constant indices.
\<close>

section \<open>Types\<close>

datatype irda_protocol_id = IrdaProtocolSamsung32 | IrdaProtocolNEC

record irda_message =
  msg_protocol :: irda_protocol_id
  msg_address :: u32
  msg_command :: u32
  msg_repeat :: bool

datatype decode_status = DecodeStatusError | DecodeStatusOk | DecodeStatusReady

datatype irda_common_state = WaitPreamble | Decode | ProcessRepeat

text \<open>\<open>preamble_tolerance\<close> is a C float: the rational it denotes.\<close>

record irda_timings =
  preamble_mark :: u16
  preamble_space :: u16
  bit1_mark :: u16
  bit1_space :: u16
  bit0_mark :: u16
  bit0_space :: u16
  preamble_tolerance :: rat
  bit_tolerance :: u32

record irda_decoder =
  state :: irda_common_state
  message :: irda_message
  timings :: "u32 list"
  timings_cnt :: nat
  level :: bool
  databit_cnt :: nat
  data :: "u8 list"

text \<open>
  \<^verbatim>\<open>IrdaCommonProtocolSpec\<close>: \<open>decode_repeat\<close> may be a null pointer (\<open>None\<close>).
\<close>

record irda_protocol_spec =
  spec_timings :: irda_timings
  databit_len :: nat
  decode :: "irda_decoder \<Rightarrow> (decode_status \<times> irda_decoder) res"
  interpret_msg :: "irda_decoder \<Rightarrow> (bool \<times> irda_decoder) res"
  decode_repeat :: "(irda_decoder \<Rightarrow> decode_status \<times> irda_decoder) option"

section \<open>Matching of durations\<close>

text \<open>The macros \<^verbatim>\<open>MATCH_BIT_TIMING\<close> (unsigned 32-bit) and \<^verbatim>\<open>MATCH_PREAMBLE_TIMING\<close> (float).\<close>

definition match_bit_timing :: "u32 \<Rightarrow> u16 \<Rightarrow> u32 \<Rightarrow> bool" where
  "match_bit_timing x v delta \<longleftrightarrow> x < ucast v + delta \<and> ucast v - delta < x"

definition match_preamble_timing :: "u32 \<Rightarrow> u16 \<Rightarrow> rat \<Rightarrow> bool" where
  "match_preamble_timing x v delta \<longleftrightarrow>
     f32 (of_nat (unat x)) < f32 (of_nat (unat v) * f32 (1 + delta)) \<and>
     f32 (of_nat (unat v) * f32 (1 - delta)) < f32 (of_nat (unat x))"

section \<open>The duration buffer\<close>

text \<open>\<^verbatim>\<open>for (int i = 0; i < len; ++i) array[i] = array[i + shift];\<close>\<close>

definition shift_left_array :: "'a list \<Rightarrow> nat \<Rightarrow> nat \<Rightarrow> 'a list res" where
  "shift_left_array array len shift =
     foldl (\<lambda>acc i. bindE acc (\<lambda>a. bindE (arr_get a (i + shift)) (\<lambda>v. arr_set a i v)))
       (Inr array) [0..<len]"

section \<open>Preamble\<close>

function irda_preamble_loop :: "irda_timings \<Rightarrow> irda_decoder \<Rightarrow> (bool \<times> irda_decoder) res" where
  "irda_preamble_loop tm d =
     (if 2 \<le> timings_cnt d then
        let result =
              match_preamble_timing (timings d ! 0) (preamble_mark tm) (preamble_tolerance tm) \<and>
              match_preamble_timing (timings d ! 1) (preamble_space tm) (preamble_tolerance tm);
            cnt = timings_cnt d - 2
        in bindE (shift_left_array (timings d) cnt 2) (\<lambda>t.
             if result then Inr (True, d\<lparr>timings := t, timings_cnt := cnt\<rparr>)
             else irda_preamble_loop tm (d\<lparr>timings := t, timings_cnt := cnt\<rparr>))
      else Inr (False, d))"
  by pat_completeness auto
termination
  by (relation "measure (\<lambda>(tm, d). timings_cnt d)") auto

declare irda_preamble_loop.simps [simp del]

definition irda_check_preamble :: "irda_timings \<Rightarrow> irda_decoder \<Rightarrow> (bool \<times> irda_decoder) res" where
  "irda_check_preamble tm d =
     (let start_level = ((of_bool (level d) + timings_cnt d + 1) mod 2 = 1)
      in bindE
           (if start_level \<and> 0 < timings_cnt d then
              bindE (shift_left_array (timings d) (timings_cnt d - 1) 1) (\<lambda>t.
                Inr (d\<lparr>timings := t, timings_cnt := timings_cnt d - 1\<rparr>))
            else Inr d)
           (irda_preamble_loop tm))"

section \<open>Pulse distance-width demodulation\<close>

text \<open>
  One data bit from the pair \<open>timings ! 0\<close>, \<open>timings ! 1\<close>: whether the pair is a bit, and the
  data bytes after it. A bit of weight 0 clears its byte first.
\<close>

definition pdwm_data_bit :: "irda_timings \<Rightarrow> irda_decoder \<Rightarrow> (bool \<times> u8 list) res" where
  "pdwm_data_bit tm d =
     (let index = databit_cnt d div 8;
          shift = databit_cnt d mod 8
      in bindE (if shift = 0 then arr_set (data d) index 0 else Inr (data d)) (\<lambda>data1.
           if match_bit_timing (timings d ! 0) (bit1_mark tm) (bit_tolerance tm) \<and>
              match_bit_timing (timings d ! 1) (bit1_space tm) (bit_tolerance tm) then
             bindE (arr_get data1 index) (\<lambda>b.
               bindE (arr_set data1 index (b OR push_bit shift 1)) (\<lambda>data2. Inr (True, data2)))
           else if match_bit_timing (timings d ! 0) (bit0_mark tm) (bit_tolerance tm) \<and>
              match_bit_timing (timings d ! 1) (bit0_space tm) (bit_tolerance tm) then
             bindE (arr_get data1 index) (\<lambda>_. Inr (True, data1))
           else Inr (False, data1)))"

function irda_common_decode_pdwm ::
    "irda_timings \<Rightarrow> nat \<Rightarrow> irda_decoder \<Rightarrow> (decode_status \<times> irda_decoder) res" where
  "irda_common_decode_pdwm tm len d =
     (if databit_cnt d = len \<and> timings_cnt d = 1 then
        (if match_bit_timing (timings d ! 0) (bit1_mark tm) (bit_tolerance tm)
         then Inr (DecodeStatusReady, d\<lparr>timings_cnt := 0\<rparr>)
         else Inr (DecodeStatusError, d))
      else if 2 \<le> timings_cnt d then
        bindE (pdwm_data_bit tm d) (\<lambda>(ok, data1).
          if ok then
            bindE (shift_left_array (timings d) (timings_cnt d - 2) 2) (\<lambda>t.
              irda_common_decode_pdwm tm len
                (d\<lparr>data := data1, databit_cnt := databit_cnt d + 1,
                   timings_cnt := timings_cnt d - 2, timings := t\<rparr>))
          else Inr (DecodeStatusError, d\<lparr>data := data1\<rparr>))
      else Inr (DecodeStatusOk, d))"
  by pat_completeness auto
termination
  by (relation "measure (\<lambda>(tm, len, d). timings_cnt d)") auto

declare irda_common_decode_pdwm.simps [simp del]

section \<open>The state machine\<close>

text \<open>
  The \<^verbatim>\<open>while(1)\<close> loop around the switch: a \<^verbatim>\<open>continue\<close> is the recursive call, always from
  the state \<open>WaitPreamble\<close>, in which the loop ends. The result is the message, if one is ready
  (the code returns a pointer to \<^verbatim>\<open>decoder->message\<close> or null).
\<close>

function irda_common_loop ::
    "irda_protocol_spec \<Rightarrow> irda_decoder \<Rightarrow> (irda_message option \<times> irda_decoder) res" where
  "irda_common_loop spec d =
     (case state d of
        WaitPreamble \<Rightarrow>
          bindE (irda_check_preamble (spec_timings spec) d) (\<lambda>(found, d1).
            Inr (None, if found then d1\<lparr>state := Decode, databit_cnt := 0\<rparr> else d1))
      | Decode \<Rightarrow>
          bindE (decode spec d) (\<lambda>(status, d1).
            case status of
              DecodeStatusReady \<Rightarrow>
                bindE (interpret_msg spec d1) (\<lambda>(ok, d2).
                  if ok then Inr (Some (message d2), d2\<lparr>state := ProcessRepeat\<rparr>)
                  else Inr (None, d2\<lparr>state := WaitPreamble\<rparr>))
            | DecodeStatusError \<Rightarrow> irda_common_loop spec (d1\<lparr>state := WaitPreamble\<rparr>)
            | DecodeStatusOk \<Rightarrow> Inr (None, d1))
      | ProcessRepeat \<Rightarrow>
          (case decode_repeat spec of
             None \<Rightarrow> irda_common_loop spec (d\<lparr>state := WaitPreamble\<rparr>)
           | Some f \<Rightarrow>
               (case f d of (status, d1) \<Rightarrow>
                  (case status of
                     DecodeStatusError \<Rightarrow> irda_common_loop spec (d1\<lparr>state := WaitPreamble\<rparr>)
                   | DecodeStatusReady \<Rightarrow>
                       (let d2 = d1\<lparr>message := (message d1)\<lparr>msg_repeat := True\<rparr>\<rparr>
                        in Inr (Some (message d2), d2))
                   | DecodeStatusOk \<Rightarrow> Inr (None, d1)))))"
  by pat_completeness auto
termination
  by (relation "measure (\<lambda>(spec, d). if state d = WaitPreamble then 0 else 1)") auto

declare irda_common_loop.simps [simp del]

definition irda_common_decode ::
    "bool \<Rightarrow> irda_protocol_spec \<Rightarrow> irda_decoder \<Rightarrow> bool \<times> u32 \<Rightarrow>
      (irda_message option \<times> irda_decoder) res" where
  "irda_common_decode dbg spec d = (\<lambda>(lvl, duration).
     bindE
       (if level d = lvl then furi_assert dbg False (Inr (d\<lparr>timings_cnt := 0\<rparr>)) else Inr d)
       (\<lambda>d1. bindE (arr_set (timings d1) (timings_cnt d1) duration) (\<lambda>t.
          let d2 = d1\<lparr>level := lvl, timings := t, timings_cnt := timings_cnt d1 + 1\<rparr>
          in furi_check (timings_cnt d2 \<le> 24) (irda_common_loop spec d2))))"

text \<open>
  \<^verbatim>\<open>irda_common_decoder_alloc\<close>: a zeroed decoder with one data byte per started group of
  eight data bits. A zeroed message has protocol 0, \<^verbatim>\<open>IrdaProtocolSamsung32\<close>.
\<close>

definition irda_common_decoder_alloc :: "irda_protocol_spec \<Rightarrow> irda_decoder" where
  "irda_common_decoder_alloc spec =
     \<lparr>state = WaitPreamble,
      message = \<lparr>msg_protocol = IrdaProtocolSamsung32, msg_address = 0, msg_command = 0,
                 msg_repeat = False\<rparr>,
      timings = replicate 6 0, timings_cnt = 0, level = False, databit_cnt = 0,
      data = replicate (databit_len spec div 8 + of_bool (databit_len spec mod 8 \<noteq> 0)) 0\<rparr>"

section \<open>The duration buffer: what a shift does\<close>

lemma shift_left_array_0 [simp]: "shift_left_array a 0 shift = Inr a"
  by (simp add: shift_left_array_def)

lemma shift_left_array_Suc:
  "shift_left_array a (Suc len) shift =
     bindE (shift_left_array a len shift)
       (\<lambda>b. bindE (arr_get b (len + shift)) (\<lambda>v. arr_set b len v))"
  by (simp add: shift_left_array_def)

lemma shift_left_array_eq:
  "len + shift \<le> length a \<Longrightarrow>
     shift_left_array a len shift = Inr (take len (drop shift a) @ drop len a)"
proof (induction len)
  case 0
  show ?case by simp
next
  case (Suc len)
  let ?b = "take len (drop shift a) @ drop len a"
  have "?b ! (len + shift) = a ! (len + shift)"
    using Suc.prems by (simp add: nth_append)
  moreover have "?b[len := a ! (len + shift)] = take (Suc len) (drop shift a) @ drop (Suc len) a"
    using Suc.prems
    by (intro nth_equalityI) (auto simp: nth_append nth_list_update less_Suc_eq add.commute)
  ultimately show ?case
    using Suc by (simp add: shift_left_array_Suc)
qed

lemma shift_left_array_length:
  "len + shift \<le> length a \<Longrightarrow> \<exists>b. shift_left_array a len shift = Inr b \<and> length b = length a"
  by (simp add: shift_left_array_eq)

section \<open>The preamble search stays inside the buffer\<close>

text \<open>The part of the decoder the search and the demodulator leave alone.\<close>

definition same_but_timings :: "irda_decoder \<Rightarrow> irda_decoder \<Rightarrow> bool" where
  "same_but_timings d d' \<longleftrightarrow> d' = d\<lparr>timings := timings d', timings_cnt := timings_cnt d'\<rparr>"

lemma same_but_timings_refl [simp]: "same_but_timings d d"
  by (simp add: same_but_timings_def)

lemma same_but_timings_of [simp]: "same_but_timings d (d\<lparr>timings := t, timings_cnt := c\<rparr>)"
  by (simp add: same_but_timings_def)

lemma same_but_timings_update:
  "same_but_timings (d\<lparr>timings := t, timings_cnt := c\<rparr>) d' \<longleftrightarrow> same_but_timings d d'"
  by (simp add: same_but_timings_def)

lemma same_but_timings_fields:
  assumes "same_but_timings d d'"
  shows "state d' = state d" and "message d' = message d" and "level d' = level d"
    and "databit_cnt d' = databit_cnt d" and "data d' = data d"
  using assms [unfolded same_but_timings_def, THEN arg_cong [where f = state]]
    assms [unfolded same_but_timings_def, THEN arg_cong [where f = message]]
    assms [unfolded same_but_timings_def, THEN arg_cong [where f = level]]
    assms [unfolded same_but_timings_def, THEN arg_cong [where f = databit_cnt]]
    assms [unfolded same_but_timings_def, THEN arg_cong [where f = data]]
  by simp_all

text \<open>What the search promises for a buffer of \<open>n\<close> durations.\<close>

definition preamble_result :: "nat \<Rightarrow> irda_decoder \<Rightarrow> (bool \<times> irda_decoder) res \<Rightarrow> bool" where
  "preamble_result n d r \<longleftrightarrow>
     (\<exists>found d'. r = Inr (found, d') \<and> same_but_timings d d' \<and>
        length (timings d') = length (timings d) \<and>
        (found \<longrightarrow> timings_cnt d' + 2 \<le> n) \<and> (\<not> found \<longrightarrow> timings_cnt d' \<le> 1))"

lemma preamble_resultI:
  assumes "r = Inr (found, d')" and "same_but_timings d d'"
    and "length (timings d') = length (timings d)"
    and "if found then timings_cnt d' + 2 \<le> n else timings_cnt d' \<le> 1"
  shows "preamble_result n d r"
  using assms unfolding preamble_result_def by (metis (full_types))

lemma preamble_result_step:
  assumes "preamble_result m (d\<lparr>timings := t, timings_cnt := c\<rparr>) r"
    and "length t = length (timings d)" and "m \<le> n"
  shows "preamble_result n d r"
  using assms unfolding preamble_result_def same_but_timings_update
  by (auto intro: le_trans)

lemma irda_preamble_loop_ok:
  "timings_cnt d \<le> length (timings d) \<Longrightarrow>
     preamble_result (timings_cnt d) d (irda_preamble_loop tm d)"
proof (induction tm d rule: irda_preamble_loop.induct)
  case (1 tm d)
  show ?case
  proof (cases "2 \<le> timings_cnt d")
    case False
    then show ?thesis
      by (auto simp: irda_preamble_loop.simps [of tm d] preamble_result_def)
  next
    case True
    let ?result =
      "match_preamble_timing (timings d ! 0) (preamble_mark tm) (preamble_tolerance tm) \<and>
       match_preamble_timing (timings d ! 1) (preamble_space tm) (preamble_tolerance tm)"
    have "timings_cnt d - 2 + 2 \<le> length (timings d)" using True "1.prems" by linarith
    then obtain t where t: "shift_left_array (timings d) (timings_cnt d - 2) 2 = Inr t"
      and len: "length t = length (timings d)"
      by (blast dest: shift_left_array_length)
    let ?d = "d\<lparr>timings := t, timings_cnt := timings_cnt d - 2\<rparr>"
    have eq: "irda_preamble_loop tm d =
        (if ?result then Inr (True, ?d) else irda_preamble_loop tm ?d)"
      using True t by (simp only: irda_preamble_loop.simps [of tm d] Let_def bindE_Inr if_True)
    show ?thesis
    proof (cases ?result)
      case found: True
      then have "irda_preamble_loop tm d = Inr (True, ?d)" unfolding eq by (rule if_P)
      then show ?thesis
        by (rule preamble_resultI) (use True len in simp_all)
    next
      case notfound: False
      then have "irda_preamble_loop tm d = irda_preamble_loop tm ?d" unfolding eq by (rule if_not_P)
      moreover have "preamble_result (timings_cnt ?d) ?d (irda_preamble_loop tm ?d)"
        using "1.prems" len by (intro "1.IH" [OF True refl refl t notfound]) simp
      ultimately show ?thesis
        using len by (auto intro: preamble_result_step)
    qed
  qed
qed

lemma irda_check_preamble_ok:
  assumes "timings_cnt d \<le> length (timings d)"
  shows "preamble_result (timings_cnt d) d (irda_check_preamble tm d)"
proof (cases "(of_bool (level d) + timings_cnt d + 1) mod 2 = 1 \<and> 0 < timings_cnt d")
  case True
  have "timings_cnt d - 1 + 1 \<le> length (timings d)" using True assms by linarith
  then obtain t where t: "shift_left_array (timings d) (timings_cnt d - 1) 1 = Inr t"
    and len: "length t = length (timings d)"
    by (blast dest: shift_left_array_length)
  let ?d = "d\<lparr>timings := t, timings_cnt := timings_cnt d - 1\<rparr>"
  have "irda_check_preamble tm d = irda_preamble_loop tm ?d"
    using True t by (simp add: irda_check_preamble_def Let_def)
  moreover have "preamble_result (timings_cnt ?d) ?d (irda_preamble_loop tm ?d)"
    using len assms by (intro irda_preamble_loop_ok) simp
  ultimately show ?thesis
    using len by (auto intro: preamble_result_step)
next
  case False
  then have "irda_check_preamble tm d = irda_preamble_loop tm d"
    by (auto simp: irda_check_preamble_def Let_def)
  then show ?thesis using irda_preamble_loop_ok [OF assms] by simp
qed

section \<open>The demodulator stays inside the data bytes\<close>

lemma pdwm_data_bit_ok:
  assumes "databit_cnt d div 8 < length (data d)"
  shows "\<exists>ok data1. pdwm_data_bit tm d = Inr (ok, data1) \<and> length data1 = length (data d)"
  using assms by (auto simp: pdwm_data_bit_def Let_def)

text \<open>
  Every data bit takes two durations, so \<open>databit_cnt + timings_cnt div 2\<close> bounds the bits a call
  can store.
\<close>

definition pdwm_result :: "nat \<Rightarrow> irda_decoder \<Rightarrow> (decode_status \<times> irda_decoder) res \<Rightarrow> bool" where
  "pdwm_result len d r \<longleftrightarrow>
     (\<exists>st d'. r = Inr (st, d') \<and> state d' = state d \<and> level d' = level d \<and>
        message d' = message d \<and>
        length (timings d') = length (timings d) \<and> length (data d') = length (data d) \<and>
        timings_cnt d' \<le> timings_cnt d \<and>
        databit_cnt d' + timings_cnt d' div 2 \<le> databit_cnt d + timings_cnt d div 2 \<and>
        (st = DecodeStatusReady \<longrightarrow> timings_cnt d' = 0) \<and>
        (st = DecodeStatusOk \<longrightarrow>
           timings_cnt d' \<le> 1 \<and> (databit_cnt d' = len \<longrightarrow> timings_cnt d' = 0)))"

lemma pdwm_result_step:
  assumes "pdwm_result len
      (d\<lparr>data := data1, databit_cnt := b, timings_cnt := c, timings := t\<rparr>) r"
    and "length data1 = length (data d)" and "length t = length (timings d)"
    and "c + 2 \<le> timings_cnt d" and "b \<le> databit_cnt d + 1"
  shows "pdwm_result len d r"
proof -
  have "b + c div 2 \<le> databit_cnt d + timings_cnt d div 2"
    using assms(4,5) div_le_mono [OF assms(4), of 2] by linarith
  with assms show ?thesis
    unfolding pdwm_result_def by (fastforce intro: le_trans)
qed

lemma irda_common_decode_pdwm_ok:
  assumes "length (timings d) = 6" and "timings_cnt d \<le> 6"
    and "databit_cnt d + timings_cnt d div 2 \<le> 8 * length (data d)"
  shows "pdwm_result len d (irda_common_decode_pdwm tm len d)"
  using assms
proof (induction tm len d rule: irda_common_decode_pdwm.induct)
  case (1 tm len d)
  show ?case
  proof (cases "2 \<le> timings_cnt d")
    case False
    then show ?thesis
      by (auto simp: irda_common_decode_pdwm.simps [of tm len d] pdwm_result_def)
  next
    case True
    then have no_stop: "\<not> (databit_cnt d = len \<and> timings_cnt d = 1)" by simp
    have "databit_cnt d + 1 \<le> 8 * length (data d)"
      using True "1.prems"(3) by linarith
    then have "databit_cnt d div 8 < length (data d)" by (simp add: less_mult_imp_div_less)
    then obtain ok data1 where bit: "pdwm_data_bit tm d = Inr (ok, data1)"
      and lend: "length data1 = length (data d)"
      by (blast dest: pdwm_data_bit_ok)
    have "timings_cnt d - 2 + 2 \<le> length (timings d)" using True "1.prems" by linarith
    then obtain t where t: "shift_left_array (timings d) (timings_cnt d - 2) 2 = Inr t"
      and lent: "length t = length (timings d)"
      by (blast dest: shift_left_array_length)
    let ?d = "d\<lparr>data := data1, databit_cnt := databit_cnt d + 1,
                timings_cnt := timings_cnt d - 2, timings := t\<rparr>"
    have eq: "irda_common_decode_pdwm tm len d =
        (if ok then irda_common_decode_pdwm tm len ?d
         else Inr (DecodeStatusError, d\<lparr>data := data1\<rparr>))"
      using True no_stop bit t
      by (simp only: irda_common_decode_pdwm.simps [of tm len d] bindE_Inr if_True if_False
          prod.case)
    show ?thesis
    proof (cases ok)
      case False
      with eq lend show ?thesis by (simp add: pdwm_result_def)
    next
      case ok: True
      have "pdwm_result len ?d (irda_common_decode_pdwm tm len ?d)"
        using True "1.prems" lend lent by (intro "1.IH" [OF no_stop True bit refl ok t]) auto
      with eq ok show ?thesis
        using True lend lent by (auto intro: pdwm_result_step)
    qed
  qed
qed

section \<open>The interface between the state machine and a protocol\<close>

text \<open>
  What holds between two calls of \<^verbatim>\<open>irda_common_decode\<close> for a protocol of \<open>n\<close> data bytes: the
  arrays keep their sizes and the buffer always has room for the next duration.
\<close>

definition irda_inv :: "nat \<Rightarrow> irda_decoder \<Rightarrow> bool" where
  "irda_inv n d \<longleftrightarrow> length (timings d) = 6 \<and> length (data d) = n \<and>
     (case state d of
        WaitPreamble \<Rightarrow> timings_cnt d \<le> 1
      | Decode \<Rightarrow> timings_cnt d \<le> 4 \<and> databit_cnt d + (timings_cnt d + 1) div 2 \<le> 8 * n
      | ProcessRepeat \<Rightarrow> timings_cnt d \<le> 5)"

text \<open>What the state machine needs of the three callbacks of a protocol.\<close>

locale irda_protocol =
  fixes spec :: irda_protocol_spec and n :: nat
  assumes len_bytes: "databit_len spec = 8 * n" and n_pos: "0 < n"
    and decode_ok:
      "length (timings d) = 6 \<Longrightarrow> length (data d) = n \<Longrightarrow> timings_cnt d \<le> 6 \<Longrightarrow>
       databit_cnt d + timings_cnt d div 2 \<le> 8 * n \<Longrightarrow>
       pdwm_result (8 * n) d (decode spec d)"
    and interpret_ok:
      "length (data d) = n \<Longrightarrow>
       \<exists>ok m. interpret_msg spec d = Inr (ok, d\<lparr>message := m\<rparr>)"
    and repeat_ok:
      "decode_repeat spec = Some f \<Longrightarrow> timings_cnt d \<le> 6 \<Longrightarrow> f d = (st, d') \<Longrightarrow>
       d' = d\<lparr>timings_cnt := timings_cnt d'\<rparr> \<and>
       (st = DecodeStatusReady \<longrightarrow> timings_cnt d' = 0) \<and>
       (st = DecodeStatusOk \<longrightarrow> timings_cnt d' \<le> 5) \<and>
       (st = DecodeStatusError \<longrightarrow> timings_cnt d' \<le> 6)"
begin

text \<open>The loop from the state \<open>WaitPreamble\<close>, entered with a full buffer at worst.\<close>

lemma loop_wait:
  assumes "state d = WaitPreamble" and "length (timings d) = 6" and "length (data d) = n"
    and "timings_cnt d \<le> 6"
  shows "\<exists>d'. irda_common_loop spec d = Inr (None, d') \<and> irda_inv n d' \<and> level d' = level d"
proof -
  from irda_check_preamble_ok [of d "spec_timings spec"] assms(2,4)
  obtain found d' where pre: "irda_check_preamble (spec_timings spec) d = Inr (found, d')"
    and same: "same_but_timings d d'" and len: "length (timings d') = 6"
    and cnt: "found \<longrightarrow> timings_cnt d' + 2 \<le> 6" "\<not> found \<longrightarrow> timings_cnt d' \<le> 1"
    by (auto simp: preamble_result_def intro: le_trans)
  have "(timings_cnt d' + 1) div 2 \<le> 8 * n" if found
    using that cnt(1) n_pos by linarith
  with pre same len cnt assms show ?thesis
    using same_but_timings_fields [OF same]
    by (cases found) (auto simp: irda_common_loop.simps [of spec d] irda_inv_def)
qed

lemma loop_decode:
  assumes "state d = Decode" and "length (timings d) = 6" and "length (data d) = n"
    and "timings_cnt d \<le> 6" and "databit_cnt d + timings_cnt d div 2 \<le> 8 * n"
  shows "\<exists>m d'. irda_common_loop spec d = Inr (m, d') \<and> irda_inv n d' \<and> level d' = level d"
proof -
  from decode_ok [OF assms(2,3,4,5)] obtain st d1
    where dec: "decode spec d = Inr (st, d1)" and st1: "state d1 = Decode" "level d1 = level d"
      and len: "length (timings d1) = 6" "length (data d1) = n"
      and cnt: "timings_cnt d1 \<le> 6"
        "databit_cnt d1 + timings_cnt d1 div 2 \<le> 8 * n"
      and ready: "st = DecodeStatusReady \<longrightarrow> timings_cnt d1 = 0"
      and ok: "st = DecodeStatusOk \<longrightarrow>
        timings_cnt d1 \<le> 1 \<and> (databit_cnt d1 = 8 * n \<longrightarrow> timings_cnt d1 = 0)"
    using assms(1-5) by (auto simp: pdwm_result_def)
  show ?thesis
  proof (cases st)
    case DecodeStatusError
    let ?d = "d1\<lparr>state := WaitPreamble\<rparr>"
    have "irda_common_loop spec d = irda_common_loop spec ?d"
      using assms(1) dec DecodeStatusError by (simp add: irda_common_loop.simps [of spec d])
    with loop_wait [of ?d] len cnt st1 show ?thesis by auto
  next
    case DecodeStatusOk
    have "databit_cnt d1 + (timings_cnt d1 + 1) div 2 \<le> 8 * n"
    proof (cases "timings_cnt d1 = 0")
      case True
      with cnt show ?thesis by simp
    next
      case False
      with ok DecodeStatusOk have "timings_cnt d1 = 1" "databit_cnt d1 \<noteq> 8 * n" by auto
      with cnt show ?thesis by simp
    qed
    with assms(1) dec DecodeStatusOk st1 len ok show ?thesis
      by (auto simp: irda_common_loop.simps [of spec d] irda_inv_def)
  next
    case DecodeStatusReady
    from interpret_ok [OF len(2)] obtain b m
      where "interpret_msg spec d1 = Inr (b, d1\<lparr>message := m\<rparr>)" by blast
    with assms(1) dec DecodeStatusReady st1 len ready show ?thesis
      by (cases b) (auto simp: irda_common_loop.simps [of spec d] irda_inv_def)
  qed
qed

lemma loop_repeat:
  assumes "state d = ProcessRepeat" and "length (timings d) = 6" and "length (data d) = n"
    and "timings_cnt d \<le> 6"
  shows "\<exists>m d'. irda_common_loop spec d = Inr (m, d') \<and> irda_inv n d' \<and> level d' = level d"
proof (cases "decode_repeat spec")
  case None
  let ?d = "d\<lparr>state := WaitPreamble\<rparr>"
  have "irda_common_loop spec d = irda_common_loop spec ?d"
    using assms(1) None by (simp add: irda_common_loop.simps [of spec d])
  with loop_wait [of ?d] assms show ?thesis by auto
next
  case (Some f)
  obtain st d1 where f: "f d = (st, d1)" by fastforce
  from repeat_ok [OF Some assms(4) f]
  have d1: "d1 = d\<lparr>timings_cnt := timings_cnt d1\<rparr>"
    and cnt: "st = DecodeStatusReady \<longrightarrow> timings_cnt d1 = 0"
      "st = DecodeStatusOk \<longrightarrow> timings_cnt d1 \<le> 5"
      "st = DecodeStatusError \<longrightarrow> timings_cnt d1 \<le> 6"
    by auto
  obtain c where c: "d1 = d\<lparr>timings_cnt := c\<rparr>" using d1 by blast
  show ?thesis
  proof (cases st)
    case DecodeStatusError
    let ?d = "d1\<lparr>state := WaitPreamble\<rparr>"
    have "irda_common_loop spec d = irda_common_loop spec ?d"
      using assms(1) Some f DecodeStatusError by (simp add: irda_common_loop.simps [of spec d])
    with loop_wait [of ?d] c assms cnt DecodeStatusError show ?thesis by auto
  qed (use assms Some f c cnt in
      \<open>auto simp: irda_common_loop.simps [of spec d] irda_inv_def Let_def\<close>)
qed

text \<open>
  The state machine is total on the invariant: no access leaves an array, no check fails, and
  the invariant holds again. In a debug build the level has to alternate; a release build
  takes any level.
\<close>

lemma decode_total:
  assumes "irda_inv n d" and "dbg \<longrightarrow> level d \<noteq> lvl"
  shows "\<exists>m d'. irda_common_decode dbg spec d (lvl, duration) = Inr (m, d') \<and>
           irda_inv n d' \<and> level d' = lvl"
proof -
  define d1 where "d1 = (if level d = lvl then d\<lparr>timings_cnt := 0\<rparr> else d)"
  have inv1: "irda_inv n d1" and lt: "timings_cnt d1 < 6"
    using assms(1) by (auto simp: d1_def irda_inv_def split: irda_common_state.splits)
  define d2 where "d2 = d1\<lparr>level := lvl, timings := (timings d1)[timings_cnt d1 := duration],
                     timings_cnt := timings_cnt d1 + 1\<rparr>"
  have "irda_common_decode dbg spec d (lvl, duration) = irda_common_loop spec d2"
    using assms lt inv1
    by (auto simp: irda_common_decode_def d1_def d2_def irda_inv_def Let_def)
  moreover have "length (timings d2) = 6" "length (data d2) = n" "timings_cnt d2 \<le> 6"
      "state d2 = state d1" "level d2 = lvl"
    using inv1 lt by (auto simp: d2_def irda_inv_def)
  moreover have "databit_cnt d2 + timings_cnt d2 div 2 \<le> 8 * n" if "state d1 = Decode"
    using inv1 that by (simp add: d2_def irda_inv_def)
  ultimately show ?thesis
    using loop_wait [of d2] loop_decode [of d2] loop_repeat [of d2]
    by (cases "state d1") auto
qed

lemma alloc_inv: "irda_inv n (irda_common_decoder_alloc spec)"
  by (simp add: irda_inv_def irda_common_decoder_alloc_def len_bytes)

end

end
