(* ===== verification/IrdaStream.thy ===== *)
theory IrdaStream
  imports IrdaDecoder
begin

unbundle bit_operations_syntax

text \<open>
  What the common decoder does with a stream of pulses: the preamble, the data bits and the
  stop mark of a pulse-distance-width code. The lemmas are proved once for any protocol that
  uses \<open>irda_common_decode_pdwm\<close> (the locale \<open>pdwm_receiver\<close>); the two protocols of the
  firmware interpret it in \<^verbatim>\<open>IrdaProtocols\<close>.
\<close>

section \<open>Runs and the messages they produce\<close>

definition hears :: "('s \<Rightarrow> 'i \<Rightarrow> ('m option \<times> 's) res) \<Rightarrow> 's \<Rightarrow> 'i list \<Rightarrow> 'm list \<Rightarrow> 's \<Rightarrow> bool" where
  "hears f d xs ms d' \<longleftrightarrow> (\<exists>os. runE f d xs = Inr (os, d') \<and> List.map_filter id os = ms)"

lemma hears_Nil [simp]: "hears f d [] ms d' \<longleftrightarrow> ms = [] \<and> d' = d"
  by (auto simp: hears_def List.map_filter_simps)

lemma hears_single: "f d x = Inr (m, d') \<Longrightarrow> hears f d [x] (case m of None \<Rightarrow> [] | Some y \<Rightarrow> [y]) d'"
  by (simp add: hears_def List.map_filter_simps split: option.splits)

lemma hears_append:
  "hears f d xs ms d1 \<Longrightarrow> hears f d1 ys ns d2 \<Longrightarrow> hears f d (xs @ ys) (ms @ ns) d2"
  by (auto simp: hears_def runE_append List.map_filter_def)

lemma hears_Cons:
  "f d x = Inr (m, d1) \<Longrightarrow> hears f d1 ys ns d2 \<Longrightarrow>
     hears f d (x # ys) ((case m of None \<Rightarrow> [] | Some y \<Rightarrow> [y]) @ ns) d2"
  using hears_append [OF hears_single, of f d x m d1 ys ns d2] by simp

lemma hears_Cons_None:
  "f d x = Inr (None, d1) \<Longrightarrow> hears f d1 ys ns d2 \<Longrightarrow> hears f d (x # ys) ns d2"
  using hears_Cons [of f d x None d1 ys ns d2] by simp

lemma hears_Cons_Some:
  "f d x = Inr (Some m, d1) \<Longrightarrow> hears f d1 ys ns d2 \<Longrightarrow> hears f d (x # ys) (m # ns) d2"
  using hears_Cons [of f d x "Some m" d1 ys ns d2] by simp

section \<open>A decoder whose messages carry their protocol\<close>

text \<open>
  One iteration of the loop of \<^verbatim>\<open>irda_decode\<close> (\<^verbatim>\<open>lib/irda/irda.c\<close>) for a decoder that has
  the first message: the protocol number is written through the returned pointer, so into the
  decoder's own message.
\<close>

definition tagged_decode ::
    "irda_protocol_id \<Rightarrow> bool \<Rightarrow> irda_protocol_spec \<Rightarrow> irda_decoder \<Rightarrow> bool \<times> u32 \<Rightarrow>
      (irda_message option \<times> irda_decoder) res" where
  "tagged_decode p dbg spec d x =
     bindE (irda_common_decode dbg spec d x) (\<lambda>(m, d1).
       case m of
         None \<Rightarrow> Inr (None, d1)
       | Some m1 \<Rightarrow>
           (let d2 = d1\<lparr>message := (message d1)\<lparr>msg_protocol := p\<rparr>\<rparr>
            in Inr (Some (message d2), d2)))"

section \<open>Data bits and data bytes\<close>

definition byte_of_bits :: "bool list \<Rightarrow> u8" where
  "byte_of_bits bs = horner_sum of_bool 2 bs"

definition bits_of_byte :: "u8 \<Rightarrow> bool list" where
  "bits_of_byte w = map (bit w) [0..<8]"

lemma bit_byte_of_bits: "bit (byte_of_bits bs) i \<longleftrightarrow> i < 8 \<and> i < length bs \<and> bs ! i"
  by (simp add: byte_of_bits_def bit_horner_sum_bit_word_iff)

lemma byte_of_bits_snoc_True:
  "length bs < 8 \<Longrightarrow> byte_of_bits (bs @ [True]) = byte_of_bits bs OR push_bit (length bs) 1"
  by (rule bit_word_eqI) (auto simp: bit_byte_of_bits bit_simps nth_append less_Suc_eq)

lemma byte_of_bits_snoc_False: "byte_of_bits (bs @ [False]) = byte_of_bits bs"
  by (rule bit_word_eqI) (auto simp: bit_byte_of_bits nth_append less_Suc_eq)

lemma byte_of_bits_Nil [simp]: "byte_of_bits [] = 0"
  by (simp add: byte_of_bits_def)

lemma byte_of_bits_of_byte [simp]: "byte_of_bits (bits_of_byte w) = w"
  by (rule bit_word_eqI) (auto simp: bit_byte_of_bits bits_of_byte_def)

lemma length_bits_of_byte [simp]: "length (bits_of_byte w) = 8"
  by (simp add: bits_of_byte_def)

text \<open>The bits received so far are in the data bytes, least significant bit first.\<close>

definition data_holds :: "u8 list \<Rightarrow> bool list \<Rightarrow> bool" where
  "data_holds ds bs \<longleftrightarrow>
     (\<forall>k. 8 * k < length bs \<longrightarrow> k < length ds \<and> ds ! k = byte_of_bits (take 8 (drop (8 * k) bs)))"

lemma data_holds_Nil [simp]: "data_holds ds []"
  by (simp add: data_holds_def)

lemma data_holds_bytes:
  assumes "data_holds ds (concat (map bits_of_byte ws))" and "k < length ws"
  shows "k < length ds" and "ds ! k = ws ! k"
proof -
  have len: "length (concat (map bits_of_byte ws)) = 8 * length ws"
    by (induction ws) auto
  have "take 8 (drop (8 * k) (concat (map bits_of_byte ws))) = bits_of_byte (ws ! k)"
    using assms(2)
  proof (induction ws arbitrary: k)
    case (Cons w ws)
    then show ?case by (cases k) auto
  qed simp
  moreover have "8 * k < length (concat (map bits_of_byte ws))" using assms(2) len by simp
  ultimately show "k < length ds" and "ds ! k = ws ! k"
    using assms(1) unfolding data_holds_def by auto
qed

text \<open>Storing one more bit, in terms of the byte it goes to.\<close>

lemma data_holds_snoc:
  assumes h: "data_holds ds bs" and lt: "length bs div 8 < length ds"
    and ds1: "ds1 = (if length bs mod 8 = 0 then ds[length bs div 8 := 0] else ds)"
    and ds2: "ds2 = (if b then ds1[length bs div 8 := ds1 ! (length bs div 8)
                              OR push_bit (length bs mod 8) 1] else ds1)"
  shows "data_holds ds2 (bs @ [b])"
  unfolding data_holds_def
proof (intro allI impI)
  fix k
  assume k: "8 * k < length (bs @ [b])"
  let ?q = "length bs div 8"
  let ?r = "length bs mod 8"
  let ?cur = "drop (8 * ?q) bs"
  have split: "length bs = 8 * ?q + ?r" by simp
  have lencur: "length ?cur = ?r" using split by (metis add_diff_cancel_left' length_drop)
  have len2: "length ds2 = length ds" by (simp add: ds1 ds2)
  show "k < length ds2 \<and> ds2 ! k = byte_of_bits (take 8 (drop (8 * k) (bs @ [b])))"
  proof (cases "k = ?q")
    case False
    have "8 * k \<le> length bs" using k by simp
    then have "k \<le> ?q" by linarith
    with False have kq: "k < ?q" by simp
    then have "8 * k + 8 \<le> length bs" using split by linarith
    then have "take 8 (drop (8 * k) (bs @ [b])) = take 8 (drop (8 * k) bs)" by simp
    moreover have "ds2 ! k = ds ! k" using kq by (simp add: ds1 ds2)
    moreover have "8 * k < length bs" using \<open>8 * k + 8 \<le> length bs\<close> by linarith
    ultimately show ?thesis using h len2 unfolding data_holds_def by metis
  next
    case True
    have r8: "?r < 8" by simp
    have "8 * ?q \<le> length bs" using split by linarith
    then have tk: "take 8 (drop (8 * k) (bs @ [b])) = ?cur @ [b]"
      using True lencur r8 by (simp add: take_all)
    have cur: "ds1 ! ?q = byte_of_bits ?cur"
    proof (cases "?r = 0")
      case True
      with lencur have "?cur = []" by simp
      with True lt show ?thesis by (simp add: ds1)
    next
      case False
      then have "8 * ?q < length bs" using split by linarith
      then have "ds ! ?q = byte_of_bits (take 8 ?cur)" using h unfolding data_holds_def by blast
      with False lencur r8 show ?thesis by (simp add: ds1 take_all)
    qed
    have "ds2 ! k = byte_of_bits (?cur @ [b])"
    proof (cases b)
      case b: True
      have "ds2 ! k = ds1 ! ?q OR push_bit ?r 1"
        using True lt b by (simp add: ds1 ds2)
      then show ?thesis
        using b cur byte_of_bits_snoc_True [of ?cur] lencur r8 by simp
    next
      case False
      with True cur show ?thesis by (simp add: ds2 byte_of_bits_snoc_False)
    qed
    with tk True lt len2 show ?thesis by simp
  qed
qed

section \<open>One pulse\<close>

lemma irda_common_decode_step:
  assumes "level d \<noteq> lvl" and "timings_cnt d < length (timings d)" and "length (timings d) = 6"
  shows "irda_common_decode dbg spec d (lvl, duration) =
    irda_common_loop spec
      (d\<lparr>level := lvl, timings := (timings d)[timings_cnt d := duration],
         timings_cnt := timings_cnt d + 1\<rparr>)"
  using assms by (simp add: irda_common_decode_def Let_def)

lemma tagged_decode_None:
  "irda_common_decode dbg spec d x = Inr (None, d') \<Longrightarrow> tagged_decode p dbg spec d x = Inr (None, d')"
  by (simp add: tagged_decode_def)

lemma tagged_decode_Some:
  "irda_common_decode dbg spec d x = Inr (Some m, d') \<Longrightarrow>
   tagged_decode p dbg spec d x =
     Inr (Some ((message d')\<lparr>msg_protocol := p\<rparr>), d'\<lparr>message := (message d')\<lparr>msg_protocol := p\<rparr>\<rparr>)"
  by (simp add: tagged_decode_def Let_def)

text \<open>
  Between two mark-space pairs the last level is high (the receiver's output while no carrier is
  present) and the buffer is empty.
\<close>

definition at_rest :: "nat \<Rightarrow> irda_common_state \<Rightarrow> irda_decoder \<Rightarrow> bool" where
  "at_rest n st d \<longleftrightarrow> state d = st \<and> timings_cnt d = 0 \<and> level d \<and>
     length (timings d) = 6 \<and> length (data d) = n"

definition receiving :: "nat \<Rightarrow> bool list \<Rightarrow> irda_decoder \<Rightarrow> bool" where
  "receiving n bs d \<longleftrightarrow>
     at_rest n Decode d \<and> databit_cnt d = length bs \<and> data_holds (data d) bs"

text \<open>
  After a message: the durations of the possible repeat code so far, the first one a space.
\<close>

definition repeating :: "nat \<Rightarrow> u32 list \<Rightarrow> irda_decoder \<Rightarrow> bool" where
  "repeating n xs d \<longleftrightarrow> state d = ProcessRepeat \<and> timings_cnt d = length xs \<and>
     level d = odd (length xs) \<and> length (timings d) = 6 \<and> length (data d) = n \<and>
     take (length xs) (timings d) = xs \<and> length xs \<le> 6"

lemma irda_preamble_loop_small:
  "timings_cnt d < 2 \<Longrightarrow> irda_preamble_loop tm d = Inr (False, d)"
  by (simp add: irda_preamble_loop.simps [of tm d])

lemma irda_preamble_loop_pair:
  assumes "timings_cnt d = 2"
  shows "irda_preamble_loop tm d =
    Inr (match_preamble_timing (timings d ! 0) (preamble_mark tm) (preamble_tolerance tm) \<and>
         match_preamble_timing (timings d ! 1) (preamble_space tm) (preamble_tolerance tm),
         d\<lparr>timings_cnt := 0\<rparr>)"
  using assms
  by (auto simp: irda_preamble_loop.simps [of tm d] irda_preamble_loop_small Let_def)

text \<open>The first edge after a reset: the idle time before it is dropped.\<close>

lemma first_space:
  assumes "state d = WaitPreamble" and "timings_cnt d = 0" and "\<not> level d"
    and "length (timings d) = 6" and "length (data d) = n"
  shows "\<exists>d'. irda_common_decode dbg spec d (True, t) = Inr (None, d') \<and>
           at_rest n WaitPreamble d'"
  using assms
  by (simp add: irda_common_decode_step irda_common_loop.simps [of spec "_ :: irda_decoder"]
      irda_check_preamble_def irda_preamble_loop_small Let_def at_rest_def)

lemma wait_mark:
  assumes "at_rest n WaitPreamble d"
  shows "irda_common_decode dbg spec d (False, m) =
    Inr (None, d\<lparr>level := False, timings := (timings d)[0 := m], timings_cnt := 1\<rparr>)"
  using assms
  by (simp add: at_rest_def irda_common_decode_step irda_check_preamble_def
      irda_common_loop.simps [of spec "_ :: irda_decoder"] irda_preamble_loop_small Let_def)

lemma wait_space:
  fixes m s :: u32
  assumes "at_rest n WaitPreamble d"
  defines "d1 \<equiv> d\<lparr>level := False, timings := (timings d)[0 := m], timings_cnt := 1\<rparr>"
  shows "\<exists>d'. irda_common_decode dbg spec d1 (True, s) = Inr (None, d') \<and>
    (if match_preamble_timing m (preamble_mark (spec_timings spec))
          (preamble_tolerance (spec_timings spec)) \<and>
        match_preamble_timing s (preamble_space (spec_timings spec))
          (preamble_tolerance (spec_timings spec))
     then receiving n [] d' else at_rest n WaitPreamble d')"
  using assms(1)
  by (simp add: d1_def at_rest_def receiving_def irda_common_decode_step irda_check_preamble_def
      irda_common_loop.simps [of spec "_ :: irda_decoder"] irda_preamble_loop_pair Let_def)

lemma hears_preamble_pair:
  assumes "at_rest n WaitPreamble d"
  shows "\<exists>d'. hears (tagged_decode p dbg spec) d [(False, m), (True, s)] [] d' \<and>
    (if match_preamble_timing m (preamble_mark (spec_timings spec))
          (preamble_tolerance (spec_timings spec)) \<and>
        match_preamble_timing s (preamble_space (spec_timings spec))
          (preamble_tolerance (spec_timings spec))
     then receiving n [] d' else at_rest n WaitPreamble d')"
proof -
  from wait_space [OF assms, where m = m and dbg = dbg and spec = spec and s = s] obtain d'
    where 2: "irda_common_decode dbg spec
        (d\<lparr>level := False, timings := (timings d)[0 := m], timings_cnt := 1\<rparr>) (True, s) =
        Inr (None, d')"
      and post: "if match_preamble_timing m (preamble_mark (spec_timings spec))
          (preamble_tolerance (spec_timings spec)) \<and>
        match_preamble_timing s (preamble_space (spec_timings spec))
          (preamble_tolerance (spec_timings spec))
     then receiving n [] d' else at_rest n WaitPreamble d'" by blast
  have "hears (tagged_decode p dbg spec) d [(False, m), (True, s)] [] d'"
    by (rule hears_Cons_None, rule tagged_decode_None, rule wait_mark [OF assms],
        rule hears_Cons_None, rule tagged_decode_None, rule 2, simp)
  with post show ?thesis by blast
qed

text \<open>A decoder that never sees its own preamble stays silent.\<close>

lemma hears_foreign:
  assumes "at_rest n WaitPreamble d"
    and "\<forall>(m, s) \<in> set ps.
      \<not> (match_preamble_timing m (preamble_mark (spec_timings spec))
          (preamble_tolerance (spec_timings spec)) \<and>
        match_preamble_timing s (preamble_space (spec_timings spec))
          (preamble_tolerance (spec_timings spec)))"
  shows "\<exists>d'. hears (tagged_decode p dbg spec) d
      (concat (map (\<lambda>(m, s). [(False, m), (True, s)]) ps)) [] d' \<and> at_rest n WaitPreamble d'"
  using assms
proof (induction ps arbitrary: d)
  case Nil
  then show ?case by simp
next
  case (Cons a ps)
  obtain m s where a: "a = (m, s)" by fastforce
  from hears_preamble_pair [OF Cons.prems(1), of p dbg spec m s] Cons.prems(2) a
  obtain d1 where d1: "hears (tagged_decode p dbg spec) d [(False, m), (True, s)] [] d1"
    and rest: "at_rest n WaitPreamble d1" by auto
  from Cons.IH [OF rest] Cons.prems(2) obtain d'
    where "hears (tagged_decode p dbg spec) d1
        (concat (map (\<lambda>(m, s). [(False, m), (True, s)]) ps)) [] d'"
      and "at_rest n WaitPreamble d'" by auto
  with hears_append [OF d1] a show ?case by fastforce
qed

section \<open>Repeat codes\<close>

lemma repeat_step:
  fixes t :: u32
  assumes "repeating n xs d" and "length xs < 6"
  defines "d2 \<equiv> d\<lparr>level := even (length xs), timings := (timings d)[length xs := t],
                 timings_cnt := Suc (length xs)\<rparr>"
  shows "irda_common_decode dbg spec d (even (length xs), t) = irda_common_loop spec d2"
    and "repeating n (xs @ [t]) d2" and "state d2 = ProcessRepeat" and "message d2 = message d"
    and "take (Suc (length xs)) (timings d2) = xs @ [t]"
  using assms(1,2)
  by (simp_all add: repeating_def irda_common_decode_step d2_def take_Suc_conv_app_nth)

text \<open>A duration the repeat decoder keeps waiting after.\<close>

lemma repeat_more:
  assumes "repeating n xs d" and "length xs < 6" and "decode_repeat spec = Some f"
    and "\<And>d2. timings_cnt d2 = Suc (length xs) \<Longrightarrow> f d2 = (DecodeStatusOk, d2)"
  shows "\<exists>d'. tagged_decode p dbg spec d (even (length xs), t) = Inr (None, d') \<and>
           repeating n (xs @ [t]) d' \<and> message d' = message d"
proof -
  let ?d2 = "d\<lparr>level := even (length xs), timings := (timings d)[length xs := t],
               timings_cnt := Suc (length xs)\<rparr>"
  note step = repeat_step(1) [OF assms(1,2), where dbg = dbg and spec = spec and t = t]
    repeat_step(2-5) [OF assms(1,2), where t = t]
  have "irda_common_loop spec ?d2 = Inr (None, ?d2)"
    using step(3) assms(3,4) by (simp add: irda_common_loop.simps [of spec ?d2])
  then have "tagged_decode p dbg spec d (even (length xs), t) = Inr (None, ?d2)"
    using step(1) by (simp add: tagged_decode_None)
  with step show ?thesis by blast
qed

text \<open>The last duration of a repeat code.\<close>

lemma repeat_done:
  assumes "repeating n xs d" and "length xs < 6" and "odd (length xs)"
    and "decode_repeat spec = Some f"
    and "\<And>d2. timings_cnt d2 = Suc (length xs) \<Longrightarrow>
          take (Suc (length xs)) (timings d2) = xs @ [t] \<Longrightarrow>
          f d2 = (DecodeStatusReady, d2\<lparr>timings_cnt := 0\<rparr>)"
  shows "\<exists>d'. tagged_decode p dbg spec d (False, t) =
             Inr (Some ((message d)\<lparr>msg_repeat := True, msg_protocol := p\<rparr>), d') \<and>
           repeating n [] d' \<and> message d' = (message d)\<lparr>msg_repeat := True, msg_protocol := p\<rparr>"
proof -
  let ?d2 = "d\<lparr>level := even (length xs), timings := (timings d)[length xs := t],
               timings_cnt := Suc (length xs)\<rparr>"
  note step = repeat_step(1) [OF assms(1,2), where dbg = dbg and spec = spec and t = t]
    repeat_step(2-5) [OF assms(1,2), where t = t]
  have "f ?d2 = (DecodeStatusReady, ?d2\<lparr>timings_cnt := 0\<rparr>)"
    using assms(5) [OF _ step(5)] by simp
  then have "irda_common_loop spec ?d2 =
      Inr (Some ((message d)\<lparr>msg_repeat := True\<rparr>),
           ?d2\<lparr>timings_cnt := 0, message := (message d)\<lparr>msg_repeat := True\<rparr>\<rparr>)"
    using step(3) assms(4) by (simp add: irda_common_loop.simps [of spec ?d2] Let_def)
  with step(1) assms(3) have "irda_common_decode dbg spec d (False, t) =
      Inr (Some ((message d)\<lparr>msg_repeat := True\<rparr>),
           ?d2\<lparr>timings_cnt := 0, message := (message d)\<lparr>msg_repeat := True\<rparr>\<rparr>)"
    by simp
  from tagged_decode_Some [OF this, of p] assms(1,3) show ?thesis
    by (simp add: repeating_def)
qed

section \<open>Receiving a pulse-distance-width code\<close>

text \<open>
  A protocol whose demodulator is the common one, together with the durations a sender uses:
  a one and a zero are told apart and a one's mark is accepted as the stop bit.
\<close>

locale pdwm_receiver = irda_protocol +
  fixes one_mark one_space zero_mark zero_space :: u32
  assumes decode_is:
      "decode spec = irda_common_decode_pdwm (spec_timings spec) (8 * n)"
    and one: "match_bit_timing one_mark (bit1_mark (spec_timings spec)) (bit_tolerance (spec_timings spec))"
      "match_bit_timing one_space (bit1_space (spec_timings spec)) (bit_tolerance (spec_timings spec))"
    and zero: "match_bit_timing zero_mark (bit0_mark (spec_timings spec)) (bit_tolerance (spec_timings spec))"
      "match_bit_timing zero_space (bit0_space (spec_timings spec)) (bit_tolerance (spec_timings spec))"
    and zero_not_one:
      "\<not> (match_bit_timing zero_mark (bit1_mark (spec_timings spec)) (bit_tolerance (spec_timings spec)) \<and>
          match_bit_timing zero_space (bit1_space (spec_timings spec)) (bit_tolerance (spec_timings spec)))"
begin

definition bit_pulses :: "bool \<Rightarrow> (bool \<times> u32) list" where
  "bit_pulses b = (if b then [(False, one_mark), (True, one_space)]
                   else [(False, zero_mark), (True, zero_space)])"

lemma receive_mark:
  assumes "receiving n bs d" and "length bs < 8 * n"
  shows "irda_common_decode dbg spec d (False, m) =
    Inr (None, d\<lparr>level := False, timings := (timings d)[0 := m], timings_cnt := 1\<rparr>)"
  using assms
  by (simp add: receiving_def at_rest_def irda_common_decode_step decode_is
      irda_common_loop.simps [of spec "_ :: irda_decoder"] irda_common_decode_pdwm.simps)

lemma receive_space:
  assumes r: "receiving n bs d" and lt: "length bs < 8 * n"
  shows "\<exists>d'. irda_common_decode dbg spec
      (d\<lparr>level := False, timings := (timings d)[0 := if b then one_mark else zero_mark],
         timings_cnt := 1\<rparr>) (True, if b then one_space else zero_space) = Inr (None, d') \<and>
    receiving n (bs @ [b]) d'"
proof -
  let ?q = "length bs div 8"
  define d2 where "d2 = d\<lparr>level := True, timings := (timings d)
      [0 := if b then one_mark else zero_mark, 1 := if b then one_space else zero_space],
      timings_cnt := 2\<rparr>"
  have q: "?q < n" using lt by (simp add: less_mult_imp_div_less mult.commute)
  define ds1 where "ds1 = (if length bs mod 8 = 0 then (data d)[?q := 0] else data d)"
  define ds2 where "ds2 = (if b then ds1[?q := ds1 ! ?q OR push_bit (length bs mod 8) 1] else ds1)"
  have hold: "data_holds ds2 (bs @ [b])"
    using r q by (intro data_holds_snoc [OF _ _ ds1_def ds2_def])
       (auto simp: receiving_def at_rest_def)
  have len: "length ds1 = n" "length ds2 = n"
    using r by (simp_all add: ds1_def ds2_def receiving_def at_rest_def)
  have bit: "pdwm_data_bit (spec_timings spec) d2 = Inr (True, ds2)"
    using r q one zero zero_not_one len
    by (cases b) (auto simp: pdwm_data_bit_def d2_def receiving_def at_rest_def ds1_def ds2_def
        Let_def)
  let ?d3 = "d2\<lparr>data := ds2, databit_cnt := length bs + 1, timings_cnt := 0\<rparr>"
  have "irda_common_decode_pdwm (spec_timings spec) (8 * n) d2 = Inr (DecodeStatusOk, ?d3)"
  proof -
    have "timings_cnt d2 = 2" "databit_cnt d2 = length bs" "d2\<lparr>timings := timings d2\<rparr> = d2"
      using r by (simp_all add: d2_def receiving_def at_rest_def)
    with bit show ?thesis
      by (simp add: irda_common_decode_pdwm.simps [of _ _ d2] irda_common_decode_pdwm.simps)
  qed
  moreover have "state d2 = Decode"
    using r by (simp add: d2_def receiving_def at_rest_def)
  ultimately have loop: "irda_common_loop spec d2 = Inr (None, ?d3)"
    by (simp add: irda_common_loop.simps [of spec d2] decode_is)
  have recv: "receiving n (bs @ [b]) ?d3"
    using r hold len by (simp add: receiving_def at_rest_def d2_def)
  have step: "irda_common_decode dbg spec
      (d\<lparr>level := False, timings := (timings d)[0 := if b then one_mark else zero_mark],
         timings_cnt := 1\<rparr>) (True, if b then one_space else zero_space) =
      irda_common_loop spec d2"
    using r by (simp add: receiving_def at_rest_def irda_common_decode_step d2_def numeral_2_eq_2)
  show ?thesis unfolding step using loop recv by blast
qed

lemma hears_bit:
  assumes "receiving n bs d" and "length bs < 8 * n"
  shows "\<exists>d'. hears (tagged_decode p dbg spec) d (bit_pulses b) [] d' \<and> receiving n (bs @ [b]) d'"
proof -
  from receive_space [OF assms, where b = b and dbg = dbg] obtain d'
    where 2: "irda_common_decode dbg spec
      (d\<lparr>level := False, timings := (timings d)[0 := if b then one_mark else zero_mark],
         timings_cnt := 1\<rparr>) (True, if b then one_space else zero_space) = Inr (None, d')"
      and post: "receiving n (bs @ [b]) d'" by blast
  have "bit_pulses b = [(False, if b then one_mark else zero_mark),
      (True, if b then one_space else zero_space)]"
    by (simp add: bit_pulses_def)
  moreover have "hears (tagged_decode p dbg spec) d [(False, if b then one_mark else zero_mark),
      (True, if b then one_space else zero_space)] [] d'"
    by (rule hears_Cons_None, rule tagged_decode_None, rule receive_mark [OF assms],
        rule hears_Cons_None, rule tagged_decode_None, rule 2, simp)
  ultimately show ?thesis using post by auto
qed

lemma hears_bits:
  assumes "receiving n bs d" and "length bs + length cs \<le> 8 * n"
  shows "\<exists>d'. hears (tagged_decode p dbg spec) d (concat (map bit_pulses cs)) [] d' \<and>
           receiving n (bs @ cs) d'"
  using assms
proof (induction cs arbitrary: bs d)
  case Nil
  then show ?case by simp
next
  case (Cons c cs)
  from hears_bit [OF Cons.prems(1), of p dbg c] Cons.prems(2) obtain d1
    where 1: "hears (tagged_decode p dbg spec) d (bit_pulses c) [] d1"
      and r1: "receiving n (bs @ [c]) d1" by auto
  from Cons.IH [OF r1] Cons.prems(2) obtain d2
    where 2: "hears (tagged_decode p dbg spec) d1 (concat (map bit_pulses cs)) [] d2"
      and r2: "receiving n (bs @ c # cs) d2" by auto
  from hears_append [OF 1 2] r2 show ?case by auto
qed

text \<open>The stop mark completes the message: the protocol interprets the data bytes.\<close>

lemma receive_stop:
  assumes r: "receiving n bs d" and len: "length bs = 8 * n"
    and m: "match_bit_timing m (bit1_mark (spec_timings spec)) (bit_tolerance (spec_timings spec))"
    and int: "interpret_msg spec (d\<lparr>level := False, timings := (timings d)[0 := m]\<rparr>) =
      Inr (True, d\<lparr>level := False, timings := (timings d)[0 := m], message := msg\<rparr>)"
  shows "\<exists>d'. tagged_decode p dbg spec d (False, m) = Inr (Some (msg\<lparr>msg_protocol := p\<rparr>), d') \<and>
           repeating n [] d' \<and> message d' = msg\<lparr>msg_protocol := p\<rparr>"
proof -
  define d1 where "d1 = d\<lparr>level := False, timings := (timings d)[0 := m], timings_cnt := 1\<rparr>"
  have d1: "state d1 = Decode" "timings_cnt d1 = 1" "databit_cnt d1 = 8 * n" "timings d1 ! 0 = m"
    "d1\<lparr>timings_cnt := 0\<rparr> = d\<lparr>level := False, timings := (timings d)[0 := m]\<rparr>"
    using r len by (simp_all add: d1_def receiving_def at_rest_def)
  have "irda_common_decode_pdwm (spec_timings spec) (8 * n) d1 =
      Inr (DecodeStatusReady, d1\<lparr>timings_cnt := 0\<rparr>)"
    using d1 m by (simp add: irda_common_decode_pdwm.simps)
  then have "irda_common_loop spec d1 = Inr (Some msg,
      d\<lparr>level := False, timings := (timings d)[0 := m], message := msg, state := ProcessRepeat\<rparr>)"
    using d1 int by (simp add: irda_common_loop.simps [of spec d1] decode_is)
  then have "irda_common_decode dbg spec d (False, m) = Inr (Some msg,
      d\<lparr>level := False, timings := (timings d)[0 := m], message := msg, state := ProcessRepeat\<rparr>)"
    using r by (simp add: receiving_def at_rest_def irda_common_decode_step d1_def)
  from tagged_decode_Some [OF this, of p] show ?thesis
    using r by (simp add: repeating_def receiving_def at_rest_def)
qed

text \<open>
  A whole message: preamble, data bytes and stop mark. The data bytes determine what the protocol
  reads, and the reported message does not depend on the decoder's past.
\<close>

lemma hears_message:
  assumes "at_rest n WaitPreamble d"
    and "match_preamble_timing pm (preamble_mark (spec_timings spec)) (preamble_tolerance (spec_timings spec))"
    and "match_preamble_timing ps (preamble_space (spec_timings spec)) (preamble_tolerance (spec_timings spec))"
    and ws: "length ws = n"
    and int: "\<And>d. data d = ws \<Longrightarrow> interpret_msg spec d = Inr (True, d\<lparr>message := f (message d)\<rparr>)"
    and f: "\<And>m. (f m)\<lparr>msg_protocol := p\<rparr> = msg"
  shows "\<exists>d'. hears (tagged_decode p dbg spec) d
      ([(False, pm), (True, ps)] @ concat (map bit_pulses (concat (map bits_of_byte ws))) @
       [(False, one_mark)]) [msg] d' \<and> repeating n [] d' \<and> message d' = msg"
proof -
  from hears_preamble_pair [OF assms(1), of p dbg spec pm ps] assms(2,3) obtain d1
    where 1: "hears (tagged_decode p dbg spec) d [(False, pm), (True, ps)] [] d1"
      and r1: "receiving n [] d1" by auto
  have len: "length (concat (map bits_of_byte ws)) = 8 * n"
    unfolding ws [symmetric] by (induction ws) auto
  from hears_bits [OF r1, of "concat (map bits_of_byte ws)" p dbg] len obtain d2
    where 2: "hears (tagged_decode p dbg spec) d1
        (concat (map bit_pulses (concat (map bits_of_byte ws)))) [] d2"
      and r2: "receiving n (concat (map bits_of_byte ws)) d2" by auto
  have "data d2 = ws"
    using r2 ws data_holds_bytes [of "data d2" ws]
    by (intro nth_equalityI) (auto simp: receiving_def at_rest_def)
  then have "interpret_msg spec (d2\<lparr>level := False, timings := (timings d2)[0 := one_mark]\<rparr>) =
      Inr (True, d2\<lparr>level := False, timings := (timings d2)[0 := one_mark],
                    message := f (message d2)\<rparr>)"
    using int [of "d2\<lparr>level := False, timings := (timings d2)[0 := one_mark]\<rparr>"] by simp
  from receive_stop [OF r2 len one(1) this, of p dbg] f obtain d3
    where 3: "tagged_decode p dbg spec d2 (False, one_mark) = Inr (Some msg, d3)"
      and r3: "repeating n [] d3" "message d3 = msg" by auto
  have "hears (tagged_decode p dbg spec) d2 [(False, one_mark)] [msg] d3"
    by (rule hears_Cons_Some, rule 3, simp)
  from hears_append [OF 1 hears_append [OF 2 this]] r3 show ?thesis by auto
qed

end

end
