(* ===== verification/IrdaProtocols.thy ===== *)
theory IrdaProtocols
  imports IrdaStream
begin

unbundle bit_operations_syntax

text \<open>
  The two protocols of the infrared library, \<^verbatim>\<open>lib/irda/nec\<close> and \<^verbatim>\<open>lib/irda/samsung\<close>: the
  constants of \<^verbatim>\<open>irda_protocol_defs_i.h\<close>, the callbacks of their decoders, and the encoders,
  which drive the carrier through \<^verbatim>\<open>api_hal_irda_pwm_set\<close>, \<^verbatim>\<open>api_hal_irda_pwm_stop\<close> and
  \<^verbatim>\<open>delay_us\<close>. An encoder returns the sequence of these calls. The decoders' specifications
  interpret the locales \<open>irda_protocol\<close> and \<open>pdwm_receiver\<close>.
\<close>

section \<open>NEC: decoder\<close>

text \<open>\<^verbatim>\<open>IRDA_NEC_PREAMBLE_TOLERANCE\<close> is 0.07, stored as a float.\<close>

definition nec_timings :: irda_timings where
  "nec_timings =
     \<lparr>preamble_mark = 9000, preamble_space = 4500, bit1_mark = 560, bit1_space = 1600,
      bit0_mark = 560, bit0_space = 560, preamble_tolerance = f32 (7 / 100), bit_tolerance = 120\<rparr>"

definition interpret_nec :: "irda_decoder \<Rightarrow> (bool \<times> irda_decoder) res" where
  "interpret_nec d =
     bindE (arr_get (data d) 0) (\<lambda>d0.
     bindE (arr_get (data d) 1) (\<lambda>d1.
     bindE (arr_get (data d) 2) (\<lambda>command.
     bindE (arr_get (data d) 3) (\<lambda>command_inverse.
       let address = (ucast d0 OR push_bit 8 (ucast d1) :: u16)
       in if command = NOT command_inverse then
            Inr (True, d\<lparr>message := (message d)\<lparr>msg_command := ucast command,
                                             msg_address := ucast address,
                                             msg_repeat := False\<rparr>\<rparr>)
          else Inr (False, d)))))"

definition decode_repeat_nec :: "irda_decoder \<Rightarrow> decode_status \<times> irda_decoder" where
  "decode_repeat_nec d =
     (if timings_cnt d < 4 then (DecodeStatusOk, d)
      else if 30000 < timings d ! 0 \<and> timings d ! 0 < 150000 \<and>
              match_preamble_timing (timings d ! 1) 9000 (preamble_tolerance nec_timings) \<and>
              match_preamble_timing (timings d ! 2) 2250 (preamble_tolerance nec_timings) \<and>
              match_bit_timing (timings d ! 3) (bit1_mark nec_timings) (bit_tolerance nec_timings)
      then (DecodeStatusReady, d\<lparr>timings_cnt := 0\<rparr>)
      else (DecodeStatusError, d))"

definition protocol_nec :: irda_protocol_spec where
  "protocol_nec =
     \<lparr>spec_timings = nec_timings, databit_len = 32,
      decode = irda_common_decode_pdwm nec_timings 32,
      interpret_msg = interpret_nec, decode_repeat = Some decode_repeat_nec\<rparr>"

section \<open>Samsung32: decoder\<close>

definition samsung_timings :: irda_timings where
  "samsung_timings =
     \<lparr>preamble_mark = 4500, preamble_space = 4500, bit1_mark = 550, bit1_space = 1650,
      bit0_mark = 550, bit0_space = 550, preamble_tolerance = f32 (7 / 100), bit_tolerance = 120\<rparr>"

definition interpret_samsung32 :: "irda_decoder \<Rightarrow> (bool \<times> irda_decoder) res" where
  "interpret_samsung32 d =
     bindE (arr_get (data d) 0) (\<lambda>address1.
     bindE (arr_get (data d) 1) (\<lambda>address2.
     bindE (arr_get (data d) 2) (\<lambda>command.
     bindE (arr_get (data d) 3) (\<lambda>command_inverse.
       if address1 = address2 \<and> command = NOT command_inverse then
         Inr (True, d\<lparr>message := (message d)\<lparr>msg_command := ucast command,
                                          msg_address := ucast address1,
                                          msg_repeat := False\<rparr>\<rparr>)
       else Inr (False, d)))))"

definition decode_repeat_samsung32 :: "irda_decoder \<Rightarrow> decode_status \<times> irda_decoder" where
  "decode_repeat_samsung32 d =
     (if timings_cnt d < 6 then (DecodeStatusOk, d)
      else if 30000 < timings d ! 0 \<and> timings d ! 0 < 150000 \<and>
              match_preamble_timing (timings d ! 1) 4500 (preamble_tolerance samsung_timings) \<and>
              match_preamble_timing (timings d ! 2) 4500 (preamble_tolerance samsung_timings) \<and>
              match_bit_timing (timings d ! 3) (bit1_mark samsung_timings) (bit_tolerance samsung_timings) \<and>
              match_bit_timing (timings d ! 4) (bit1_space samsung_timings) (bit_tolerance samsung_timings) \<and>
              match_bit_timing (timings d ! 5) (bit1_mark samsung_timings) (bit_tolerance samsung_timings)
      then (DecodeStatusReady, d\<lparr>timings_cnt := 0\<rparr>)
      else (DecodeStatusError, d))"

definition protocol_samsung32 :: irda_protocol_spec where
  "protocol_samsung32 =
     \<lparr>spec_timings = samsung_timings, databit_len = 32,
      decode = irda_common_decode_pdwm samsung_timings 32,
      interpret_msg = interpret_samsung32, decode_repeat = Some decode_repeat_samsung32\<rparr>"

section \<open>The tolerances, evaluated\<close>

lemma f32_tolerance: "f32 (7 / 100) = 9395241 / 134217728"
  by (simp add: f32_eval)

lemma f32_upper: "f32 (1 + 9395241 / 134217728) = 8975811 / 8388608"
  by (simp add: f32_eval)

lemma f32_lower: "f32 (1 - 9395241 / 134217728) = 15602811 / 16777216"
  by (simp add: f32_eval)

lemmas f32_bounds = f32_tolerance f32_upper f32_lower

lemma match_preamble_bounds:
  assumes "f32 (of_nat (unat v) * f32 (1 + delta)) = hi"
    and "f32 (of_nat (unat v) * f32 (1 - delta)) = lo"
    and "hi \<le> 2 ^ 23" and "lo < 2 ^ 23"
  shows "match_preamble_timing x v delta \<longleftrightarrow> lo < of_nat (unat x) \<and> of_nat (unat x) < hi"
  unfolding match_preamble_timing_def assms(1,2)
  using f32_of_nat_less [OF assms(3)] f32_of_nat_greater [OF assms(4)] by blast

text \<open>
  The intervals the floating-point macro accepts, as integers: 7 percent around 9000, 4500 and
  2250 microseconds. All bounds come out exact in single precision.
\<close>

lemma match_preamble_9000:
  "match_preamble_timing x 9000 (f32 (7 / 100)) \<longleftrightarrow> 8370 < unat x \<and> unat x < 9630"
proof -
  have "f32 (of_nat (unat (9000 :: u16)) * f32 (1 + f32 (7 / 100))) = 9630"
    "f32 (of_nat (unat (9000 :: u16)) * f32 (1 - f32 (7 / 100))) = 8370"
    by (simp_all only: f32_bounds) (simp_all add: f32_eval)
  from match_preamble_bounds [OF this]
  show ?thesis
    using of_nat_less_iff [of 8370 "unat x", where 'a = rat]
      of_nat_less_iff [of "unat x" 9630, where 'a = rat] by simp
qed

lemma match_preamble_4500:
  "match_preamble_timing x 4500 (f32 (7 / 100)) \<longleftrightarrow> 4185 < unat x \<and> unat x < 4815"
proof -
  have "f32 (of_nat (unat (4500 :: u16)) * f32 (1 + f32 (7 / 100))) = 4815"
    "f32 (of_nat (unat (4500 :: u16)) * f32 (1 - f32 (7 / 100))) = 4185"
    by (simp_all only: f32_bounds) (simp_all add: f32_eval)
  from match_preamble_bounds [OF this]
  show ?thesis
    using of_nat_less_iff [of 4185 "unat x", where 'a = rat]
      of_nat_less_iff [of "unat x" 4815, where 'a = rat] by simp
qed

lemma match_preamble_2250:
  "match_preamble_timing x 2250 (f32 (7 / 100)) \<longleftrightarrow> 2093 \<le> unat x \<and> unat x \<le> 2407"
proof -
  have "f32 (of_nat (unat (2250 :: u16)) * f32 (1 + f32 (7 / 100))) = 4815 / 2"
    "f32 (of_nat (unat (2250 :: u16)) * f32 (1 - f32 (7 / 100))) = 4185 / 2"
    by (simp_all only: f32_bounds) (simp_all add: f32_eval)
  from match_preamble_bounds [OF this]
  have "match_preamble_timing x 2250 (f32 (7 / 100)) \<longleftrightarrow>
      4185 / 2 < (of_nat (unat x) :: rat) \<and> of_nat (unat x) < (4815 / 2 :: rat)" by simp
  moreover have "(of_nat k :: rat) < 4815 / 2 \<longleftrightarrow> k \<le> 2407"
    "4185 / 2 < (of_nat k :: rat) \<longleftrightarrow> 2093 \<le> k" for k
    using of_nat_less_iff [of "2 * k" 4815, where 'a = rat]
      of_nat_less_iff [of 4185 "2 * k", where 'a = rat] by (simp_all, linarith+)
  ultimately show ?thesis by blast
qed

section \<open>Both protocols meet the interface of the state machine\<close>

lemma interpret_nec_ok:
  assumes "length (data d) = 4"
  shows "\<exists>ok m. interpret_nec d = Inr (ok, d\<lparr>message := m\<rparr>)"
proof (cases "data d ! 2 = NOT (data d ! 3)")
  case True
  with assms show ?thesis by (auto simp: interpret_nec_def Let_def)
next
  case False
  with assms have "interpret_nec d = Inr (False, d\<lparr>message := message d\<rparr>)"
    by (simp add: interpret_nec_def)
  then show ?thesis by blast
qed

lemma interpret_samsung32_ok:
  assumes "length (data d) = 4"
  shows "\<exists>ok m. interpret_samsung32 d = Inr (ok, d\<lparr>message := m\<rparr>)"
proof (cases "data d ! 0 = data d ! 1 \<and> data d ! 2 = NOT (data d ! 3)")
  case True
  with assms show ?thesis by (auto simp: interpret_samsung32_def)
next
  case False
  with assms have "interpret_samsung32 d = Inr (False, d\<lparr>message := message d\<rparr>)"
    by (auto simp: interpret_samsung32_def)
  then show ?thesis by blast
qed

text \<open>A repeat decoder only ever empties the buffer.\<close>

lemma decode_repeat_nec_cases:
  "decode_repeat_nec d = (st, d') \<Longrightarrow>
     (st = DecodeStatusOk \<and> d' = d \<and> timings_cnt d < 4) \<or>
     (st = DecodeStatusReady \<and> d' = d\<lparr>timings_cnt := 0\<rparr>) \<or>
     (st = DecodeStatusError \<and> d' = d)"
  by (auto simp: decode_repeat_nec_def split: if_splits)

lemma decode_repeat_samsung32_cases:
  "decode_repeat_samsung32 d = (st, d') \<Longrightarrow>
     (st = DecodeStatusOk \<and> d' = d \<and> timings_cnt d < 6) \<or>
     (st = DecodeStatusReady \<and> d' = d\<lparr>timings_cnt := 0\<rparr>) \<or>
     (st = DecodeStatusError \<and> d' = d)"
  by (auto simp: decode_repeat_samsung32_def split: if_splits)

interpretation nec: pdwm_receiver protocol_nec 4 560 1600 560 560
proof unfold_locales
  fix d :: irda_decoder assume "length (data d) = 4"
  then show "\<exists>ok m. interpret_msg protocol_nec d = Inr (ok, d\<lparr>message := m\<rparr>)"
    by (simp add: protocol_nec_def interpret_nec_ok)
next
  fix f :: "irda_decoder \<Rightarrow> decode_status \<times> irda_decoder" and d st d'
  assume "decode_repeat protocol_nec = Some f" "timings_cnt d \<le> 6" "f d = (st, d')"
  then have f: "decode_repeat_nec d = (st, d')" and "timings_cnt d \<le> 6"
    by (simp_all add: protocol_nec_def)
  with decode_repeat_nec_cases [OF f]
  show "d' = d\<lparr>timings_cnt := timings_cnt d'\<rparr> \<and>
       (st = DecodeStatusReady \<longrightarrow> timings_cnt d' = 0) \<and>
       (st = DecodeStatusOk \<longrightarrow> timings_cnt d' \<le> 5) \<and>
       (st = DecodeStatusError \<longrightarrow> timings_cnt d' \<le> 6)"
    by auto
qed (simp_all add: protocol_nec_def nec_timings_def irda_common_decode_pdwm_ok
    match_bit_timing_def)

interpretation samsung: pdwm_receiver protocol_samsung32 4 550 1650 550 550
proof unfold_locales
  fix d :: irda_decoder assume "length (data d) = 4"
  then show "\<exists>ok m. interpret_msg protocol_samsung32 d = Inr (ok, d\<lparr>message := m\<rparr>)"
    by (simp add: protocol_samsung32_def interpret_samsung32_ok)
next
  fix f :: "irda_decoder \<Rightarrow> decode_status \<times> irda_decoder" and d st d'
  assume "decode_repeat protocol_samsung32 = Some f" "timings_cnt d \<le> 6" "f d = (st, d')"
  then have f: "decode_repeat_samsung32 d = (st, d')" and "timings_cnt d \<le> 6"
    by (simp_all add: protocol_samsung32_def)
  with decode_repeat_samsung32_cases [OF f]
  show "d' = d\<lparr>timings_cnt := timings_cnt d'\<rparr> \<and>
       (st = DecodeStatusReady \<longrightarrow> timings_cnt d' = 0) \<and>
       (st = DecodeStatusOk \<longrightarrow> timings_cnt d' \<le> 5) \<and>
       (st = DecodeStatusError \<longrightarrow> timings_cnt d' \<le> 6)"
    by auto
qed (simp_all add: protocol_samsung32_def samsung_timings_def irda_common_decode_pdwm_ok
    match_bit_timing_def)

end
