(* ===== verification/Irda.thy ===== *)
theory Irda
  imports IrdaProtocols
begin

unbundle bit_operations_syntax

text \<open>
  The infrared library: the encoders (\<^verbatim>\<open>lib/irda/irda_encoder.c\<close>,
  \<^verbatim>\<open>nec/irda_encoder_nec.c\<close>, \<^verbatim>\<open>samsung/irda_encoder_samsung.c\<close>), the table of protocols and
  the public functions of \<^verbatim>\<open>irda.c\<close>. Sending is the sequence of hardware and kernel calls it
  makes; receiving runs all decoders side by side. The last section proves that what is sent
  is what is received.
\<close>

section \<open>Encoders\<close>

text \<open>The calls an encoder makes.\<close>

datatype irda_call =
    Pwm_Set rat u32
  | Pwm_Stop
  | Delay_Us u32
  | Kernel_Lock
  | Kernel_Unlock
  | Irq_Disable
  | Irq_Enable

text \<open>\<open>duty_cycle\<close> is a C float.\<close>

record irda_encoder_timings =
  enc_bit1_mark :: u32
  enc_bit1_space :: u32
  enc_bit0_mark :: u32
  enc_bit0_space :: u32
  enc_duty_cycle :: rat
  enc_carrier_frequency :: u32

definition irda_encode_mark :: "irda_encoder_timings \<Rightarrow> u32 \<Rightarrow> irda_call list" where
  "irda_encode_mark tm duration =
     [Pwm_Set (enc_duty_cycle tm) (enc_carrier_frequency tm), Delay_Us duration]"

definition irda_encode_space :: "irda_encoder_timings \<Rightarrow> u32 \<Rightarrow> irda_call list" where
  "irda_encode_space tm duration = [Pwm_Stop, Delay_Us duration]"

definition irda_encode_bit :: "irda_encoder_timings \<Rightarrow> bool \<Rightarrow> irda_call list" where
  "irda_encode_bit tm b =
     (if b then irda_encode_mark tm (enc_bit1_mark tm) @ irda_encode_space tm (enc_bit1_space tm)
      else irda_encode_mark tm (enc_bit0_mark tm) @ irda_encode_space tm (enc_bit0_space tm))"

definition irda_encode_byte :: "irda_encoder_timings \<Rightarrow> u8 \<Rightarrow> irda_call list" where
  "irda_encode_byte tm w =
     concat (map (\<lambda>i. irda_encode_bit tm (w AND push_bit i 1 \<noteq> 0)) [0..<8])"

subsection \<open>NEC\<close>

definition nec_encoder_timings :: irda_encoder_timings where
  "nec_encoder_timings =
     \<lparr>enc_bit1_mark = 560, enc_bit1_space = 1600, enc_bit0_mark = 560, enc_bit0_space = 560,
      enc_duty_cycle = f32 (33 / 100), enc_carrier_frequency = 38000\<rparr>"

definition irda_encode_nec_preamble :: "irda_call list" where
  "irda_encode_nec_preamble =
     irda_encode_mark nec_encoder_timings 9000 @ irda_encode_space nec_encoder_timings 4500"

definition irda_encode_nec_repeat :: "irda_call list" where
  "irda_encode_nec_repeat =
     irda_encode_space nec_encoder_timings 40000 @ irda_encode_mark nec_encoder_timings 9000 @
     irda_encode_space nec_encoder_timings 2250 @ irda_encode_bit nec_encoder_timings True"

definition irda_encoder_nec_encode :: "u32 \<Rightarrow> u32 \<Rightarrow> bool \<Rightarrow> irda_call list" where
  "irda_encoder_nec_encode addr cmd rep =
     (let address = ucast (addr AND 0xFF) :: u8;
          command = ucast (cmd AND 0xFF) :: u8;
          address_inverse = NOT address;
          command_inverse = NOT command
      in if \<not> rep then
           irda_encode_nec_preamble @
           irda_encode_byte nec_encoder_timings address @
           irda_encode_byte nec_encoder_timings address_inverse @
           irda_encode_byte nec_encoder_timings command @
           irda_encode_byte nec_encoder_timings command_inverse @
           irda_encode_bit nec_encoder_timings True
         else irda_encode_nec_repeat)"

subsection \<open>Samsung32\<close>

definition samsung_encoder_timings :: irda_encoder_timings where
  "samsung_encoder_timings =
     \<lparr>enc_bit1_mark = 550, enc_bit1_space = 1650, enc_bit0_mark = 550, enc_bit0_space = 550,
      enc_duty_cycle = f32 (33 / 100), enc_carrier_frequency = 38000\<rparr>"

definition irda_encode_samsung32_preamble :: "irda_call list" where
  "irda_encode_samsung32_preamble =
     irda_encode_mark samsung_encoder_timings 4500 @
     irda_encode_space samsung_encoder_timings 4500"

definition irda_encode_samsung32_repeat :: "irda_call list" where
  "irda_encode_samsung32_repeat =
     irda_encode_space samsung_encoder_timings 47000 @
     irda_encode_mark samsung_encoder_timings 4500 @
     irda_encode_space samsung_encoder_timings 4500 @
     irda_encode_bit samsung_encoder_timings True @
     irda_encode_bit samsung_encoder_timings True"

definition irda_encoder_samsung32_encode :: "u32 \<Rightarrow> u32 \<Rightarrow> bool \<Rightarrow> irda_call list" where
  "irda_encoder_samsung32_encode addr cmd rep =
     (let address = ucast (addr AND 0xFF) :: u8;
          command = ucast (cmd AND 0xFF) :: u8;
          command_inverse = NOT command
      in if \<not> rep then
           irda_encode_samsung32_preamble @
           irda_encode_byte samsung_encoder_timings address @
           irda_encode_byte samsung_encoder_timings address @
           irda_encode_byte samsung_encoder_timings command @
           irda_encode_byte samsung_encoder_timings command_inverse @
           irda_encode_bit samsung_encoder_timings True
         else irda_encode_samsung32_repeat)"

section \<open>The table of protocols\<close>

text \<open>
  \<^verbatim>\<open>irda_protocols[]\<close>: the index is the value of the enum. All decoders of the table are the
  common decoder with their own specification.
\<close>

record irda_protocol_implementation =
  impl_protocol :: irda_protocol_id
  impl_name :: string
  impl_decoder :: irda_protocol_spec
  impl_encode :: "u32 \<Rightarrow> u32 \<Rightarrow> bool \<Rightarrow> irda_call list"

definition irda_protocols :: "irda_protocol_implementation list" where
  "irda_protocols =
     [\<lparr>impl_protocol = IrdaProtocolSamsung32, impl_name = ''Samsung32'',
       impl_decoder = protocol_samsung32, impl_encode = irda_encoder_samsung32_encode\<rparr>,
      \<lparr>impl_protocol = IrdaProtocolNEC, impl_name = ''NEC'',
       impl_decoder = protocol_nec, impl_encode = irda_encoder_nec_encode\<rparr>]"

fun irda_protocol_index :: "irda_protocol_id \<Rightarrow> nat" where
  "irda_protocol_index IrdaProtocolSamsung32 = 0"
| "irda_protocol_index IrdaProtocolNEC = 1"

text \<open>
  \<^verbatim>\<open>irda_decode\<close>: every decoder of the handler gets the pulse; the first message wins, and its
  protocol is written through the pointer into the decoder that produced it.
\<close>

fun irda_decode_loop ::
    "bool \<Rightarrow> irda_protocol_implementation list \<Rightarrow> irda_decoder list \<Rightarrow> bool \<times> u32 \<Rightarrow>
      irda_message option \<Rightarrow> (irda_message option \<times> irda_decoder list) res" where
  "irda_decode_loop dbg (p # ps) (d # ds) x result =
     bindE (irda_common_decode dbg (impl_decoder p) d x) (\<lambda>(m, d1).
       case (result, m) of
         (None, Some m1) \<Rightarrow>
           (let d2 = d1\<lparr>message := (message d1)\<lparr>msg_protocol := impl_protocol p\<rparr>\<rparr>
            in bindE (irda_decode_loop dbg ps ds x (Some (message d2)))
                 (\<lambda>(r, ds1). Inr (r, d2 # ds1)))
       | _ \<Rightarrow> bindE (irda_decode_loop dbg ps ds x result) (\<lambda>(r, ds1). Inr (r, d1 # ds1)))"
| "irda_decode_loop dbg [] ds x result = Inr (result, ds)"
| "irda_decode_loop dbg (p # ps) [] x result = Inl Out_Of_Bounds"

definition irda_decode ::
    "bool \<Rightarrow> irda_decoder list \<Rightarrow> bool \<times> u32 \<Rightarrow> (irda_message option \<times> irda_decoder list) res" where
  "irda_decode dbg handler x = irda_decode_loop dbg irda_protocols handler x None"

definition irda_alloc_decoder :: "irda_decoder list" where
  "irda_alloc_decoder = map (\<lambda>p. irda_common_decoder_alloc (impl_decoder p)) irda_protocols"

definition irda_send :: "irda_message \<Rightarrow> int \<Rightarrow> irda_call list" where
  "irda_send m n_times =
     concat (map (\<lambda>i. [Kernel_Lock, Irq_Disable] @
       impl_encode (irda_protocols ! irda_protocol_index (msg_protocol m))
         (msg_address m) (msg_command m) (i \<noteq> 0) @
       [Irq_Enable, Kernel_Unlock]) [0..<nat n_times])"

definition irda_get_protocol_name :: "irda_protocol_id \<Rightarrow> string" where
  "irda_get_protocol_name p = impl_name (irda_protocols ! irda_protocol_index p)"

section \<open>From calls to pulses\<close>

text \<open>
  What a receiver's demodulator reports for a sequence of calls: the durations of its output
  level, low while the carrier is on. Two delays at the same level are one pulse.
\<close>

fun pulses :: "bool \<Rightarrow> irda_call list \<Rightarrow> (bool \<times> u32) list" where
  "pulses on [] = []"
| "pulses on (Pwm_Set _ _ # cs) = pulses True cs"
| "pulses on (Pwm_Stop # cs) = pulses False cs"
| "pulses on (Delay_Us t # cs) = (\<not> on, t) # pulses on cs"
| "pulses on (_ # cs) = pulses on cs"

fun merge_pulses :: "(bool \<times> u32) list \<Rightarrow> (bool \<times> u32) list" where
  "merge_pulses ((l1, t1) # (l2, t2) # ps) =
     (if l1 = l2 then merge_pulses ((l1, t1 + t2) # ps)
      else (l1, t1) # merge_pulses ((l2, t2) # ps))"
| "merge_pulses ps = ps"

definition demodulated :: "irda_call list \<Rightarrow> (bool \<times> u32) list" where
  "demodulated cs = merge_pulses (pulses False cs)"

section \<open>The pulses of a message\<close>

named_theorems pulse_simps \<open>the pulses of the encoders' building blocks\<close>

lemma pulses_mark [pulse_simps]:
  "pulses on (irda_encode_mark tm t @ cs) = (False, t) # pulses True cs"
  by (simp add: irda_encode_mark_def)

lemma pulses_space [pulse_simps]:
  "pulses on (irda_encode_space tm t @ cs) = (True, t) # pulses False cs"
  by (simp add: irda_encode_space_def)

definition pulse_of_bit :: "irda_encoder_timings \<Rightarrow> bool \<Rightarrow> (bool \<times> u32) list" where
  "pulse_of_bit tm b =
     (if b then [(False, enc_bit1_mark tm), (True, enc_bit1_space tm)]
      else [(False, enc_bit0_mark tm), (True, enc_bit0_space tm)])"

lemma pulses_bit [pulse_simps]:
  "pulses on (irda_encode_bit tm b @ cs) = pulse_of_bit tm b @ pulses False cs"
  by (simp add: irda_encode_bit_def pulse_of_bit_def pulse_simps)

lemma pulses_bits:
  "bs \<noteq> [] \<Longrightarrow> pulses on (concat (map (irda_encode_bit tm) bs) @ cs) =
     concat (map (pulse_of_bit tm) bs) @ pulses False cs"
proof (induction bs arbitrary: on)
  case (Cons b bs)
  then show ?case by (cases bs) (simp_all add: pulse_simps)
qed simp

lemma irda_encode_byte_eq:
  "irda_encode_byte tm w = concat (map (irda_encode_bit tm) (bits_of_byte w))"
proof -
  have "(w AND push_bit i 1 \<noteq> 0) = bit w i" for i
    by (simp add: push_bit_of_1 and_exp_eq_0_iff_not_bit)
  then show ?thesis by (simp add: irda_encode_byte_def bits_of_byte_def comp_def)
qed

lemma pulses_byte [pulse_simps]:
  "pulses on (irda_encode_byte tm w @ cs) =
     concat (map (pulse_of_bit tm) (bits_of_byte w)) @ pulses False cs"
  unfolding irda_encode_byte_eq by (rule pulses_bits) (simp add: bits_of_byte_def)

text \<open>Pulses that alternate stay apart.\<close>

lemma merge_pulses_pairs:
  "merge_pulses (concat (map (\<lambda>(m, s). [(False, m), (True, s)]) ps) @ (False, t) # rest) =
     concat (map (\<lambda>(m, s). [(False, m), (True, s)]) ps) @ merge_pulses ((False, t) # rest)"
proof (induction ps)
  case (Cons a ps)
  then show ?case by (cases ps) (auto split: prod.splits)
qed simp

section \<open>Two decoders side by side\<close>

lemma tagged_decode_None_iff:
  "tagged_decode p dbg spec d x = Inr (None, d1) \<longleftrightarrow>
     irda_common_decode dbg spec d x = Inr (None, d1)"
  by (auto simp: tagged_decode_def Let_def bindE_eq_Inr split: option.splits)

lemma irda_decode_nec_step:
  assumes "irda_common_decode dbg protocol_samsung32 ds x = Inr (None, ds1)"
    and "tagged_decode IrdaProtocolNEC dbg protocol_nec dn x = Inr (m, dn1)"
  shows "irda_decode dbg [ds, dn] x = Inr (m, [ds1, dn1])"
  using assms
  by (auto simp: irda_decode_def irda_protocols_def tagged_decode_def Let_def bindE_eq_Inr
      split: option.splits)

lemma irda_decode_samsung_step:
  assumes "tagged_decode IrdaProtocolSamsung32 dbg protocol_samsung32 ds x = Inr (m, ds1)"
    and "irda_common_decode dbg protocol_nec dn x = Inr (None, dn1)"
  shows "irda_decode dbg [ds, dn] x = Inr (m, [ds1, dn1])"
  using assms
  by (auto simp: irda_decode_def irda_protocols_def tagged_decode_def Let_def bindE_eq_Inr
      split: option.splits)

lemma runE_step_InrE:
  assumes "runE f s (x # xs) = Inr (os, s')"
  obtains o1 s1 os1 where "f s x = Inr (o1, s1)" and "runE f s1 xs = Inr (os1, s')"
    and "os = o1 # os1"
  using assms by (auto simp: bindE_eq_Inr split: prod.splits)

lemma hears_nec_only:
  assumes "hears (tagged_decode IrdaProtocolSamsung32 dbg protocol_samsung32) ds xs [] ds'"
    and "hears (tagged_decode IrdaProtocolNEC dbg protocol_nec) dn xs ms dn'"
  shows "hears (irda_decode dbg) [ds, dn] xs ms [ds', dn']"
proof -
  have "runE (irda_decode dbg) [ds, dn] xs = Inr (os2, [ds', dn'])"
    if "runE (tagged_decode IrdaProtocolSamsung32 dbg protocol_samsung32) ds xs = Inr (os1, ds')"
      and "List.map_filter id os1 = []"
      and "runE (tagged_decode IrdaProtocolNEC dbg protocol_nec) dn xs = Inr (os2, dn')" for os1 os2
    using that
  proof (induction xs arbitrary: ds dn os1 os2)
    case Nil
    then show ?case by simp
  next
    case (Cons x xs)
    from Cons.prems(1) obtain m1 ds1 os1' where
      s: "tagged_decode IrdaProtocolSamsung32 dbg protocol_samsung32 ds x = Inr (m1, ds1)"
      "runE (tagged_decode IrdaProtocolSamsung32 dbg protocol_samsung32) ds1 xs = Inr (os1', ds')"
      "os1 = m1 # os1'" by (rule runE_step_InrE)
    from Cons.prems(3) obtain m2 dn1 os2' where
      n: "tagged_decode IrdaProtocolNEC dbg protocol_nec dn x = Inr (m2, dn1)"
      "runE (tagged_decode IrdaProtocolNEC dbg protocol_nec) dn1 xs = Inr (os2', dn')"
      "os2 = m2 # os2'" by (rule runE_step_InrE)
    have none: "m1 = None" "List.map_filter id os1' = []"
      using Cons.prems(2) s(3) by (auto simp: List.map_filter_simps id_def split: option.splits)
    then have "irda_common_decode dbg protocol_samsung32 ds x = Inr (None, ds1)"
      using s(1) tagged_decode_None_iff by metis
    from irda_decode_nec_step [OF this n(1)] Cons.IH [OF s(2) none(2) n(2)] n(3)
    show ?case by simp
  qed
  with assms show ?thesis by (auto simp: hears_def)
qed

lemma hears_samsung_only:
  assumes "hears (tagged_decode IrdaProtocolSamsung32 dbg protocol_samsung32) ds xs ms ds'"
    and "hears (tagged_decode IrdaProtocolNEC dbg protocol_nec) dn xs [] dn'"
  shows "hears (irda_decode dbg) [ds, dn] xs ms [ds', dn']"
proof -
  have "runE (irda_decode dbg) [ds, dn] xs = Inr (os1, [ds', dn'])"
    if "runE (tagged_decode IrdaProtocolSamsung32 dbg protocol_samsung32) ds xs = Inr (os1, ds')"
      and "runE (tagged_decode IrdaProtocolNEC dbg protocol_nec) dn xs = Inr (os2, dn')"
      and "List.map_filter id os2 = []" for os1 os2
    using that
  proof (induction xs arbitrary: ds dn os1 os2)
    case Nil
    then show ?case by simp
  next
    case (Cons x xs)
    from Cons.prems(1) obtain m1 ds1 os1' where
      s: "tagged_decode IrdaProtocolSamsung32 dbg protocol_samsung32 ds x = Inr (m1, ds1)"
      "runE (tagged_decode IrdaProtocolSamsung32 dbg protocol_samsung32) ds1 xs = Inr (os1', ds')"
      "os1 = m1 # os1'" by (rule runE_step_InrE)
    from Cons.prems(2) obtain m2 dn1 os2' where
      n: "tagged_decode IrdaProtocolNEC dbg protocol_nec dn x = Inr (m2, dn1)"
      "runE (tagged_decode IrdaProtocolNEC dbg protocol_nec) dn1 xs = Inr (os2', dn')"
      "os2 = m2 # os2'" by (rule runE_step_InrE)
    have none: "m2 = None" "List.map_filter id os2' = []"
      using Cons.prems(3) n(3) by (auto simp: List.map_filter_simps id_def split: option.splits)
    then have "irda_common_decode dbg protocol_nec dn x = Inr (None, dn1)"
      using n(1) tagged_decode_None_iff by metis
    from irda_decode_samsung_step [OF s(1) this] Cons.IH [OF s(2) n(2) none(2)] s(3)
    show ?case by simp
  qed
  with assms show ?thesis by (auto simp: hears_def)
qed

section \<open>Sending NEC and receiving it\<close>

text \<open>The mark-space pairs of the first message and of \<open>k\<close> repeats; the last space of a message
  and the pause before a repeat are one pulse.\<close>

definition pair_pulses :: "(u32 \<times> u32) list \<Rightarrow> (bool \<times> u32) list" where
  "pair_pulses ps = concat (map (\<lambda>(m, s). [(False, m), (True, s)]) ps)"

lemma pair_pulses_simps [simp]:
  "pair_pulses [] = []"
  "pair_pulses ((m, s) # ps) = (False, m) # (True, s) # pair_pulses ps"
  "pair_pulses (ps @ qs) = pair_pulses ps @ pair_pulses qs"
  by (simp_all add: pair_pulses_def)

lemma merge_pair_pulses:
  "merge_pulses (pair_pulses ps @ (False, t) # rest) = pair_pulses ps @ merge_pulses ((False, t) # rest)"
  unfolding pair_pulses_def by (rule merge_pulses_pairs)

definition nec_bytes :: "u32 \<Rightarrow> u32 \<Rightarrow> u8 list" where
  "nec_bytes addr cmd =
     (let a = ucast (addr AND 0xFF); c = ucast (cmd AND 0xFF) in [a, NOT a, c, NOT c])"

definition nec_head :: "u32 \<Rightarrow> u32 \<Rightarrow> (u32 \<times> u32) list" where
  "nec_head addr cmd =
     (9000, 4500) # map (\<lambda>b. (560, if b then 1600 else 560))
       (concat (map bits_of_byte (nec_bytes addr cmd)))"

definition nec_repeats :: "nat \<Rightarrow> (bool \<times> u32) list" where
  "nec_repeats k = concat (replicate k [(True, 41600), (False, 9000), (True, 2250), (False, 560)])"

lemma nec_bit_pulses:
  "pulse_of_bit nec_encoder_timings = nec.bit_pulses"
  "nec.bit_pulses b = [(False, 560), (True, if b then 1600 else 560)]"
  by (simp_all add: fun_eq_iff pulse_of_bit_def nec_encoder_timings_def nec.bit_pulses_def)

lemma pair_pulses_bits:
  "pair_pulses (map (\<lambda>b. (560, if b then 1600 else 560)) bs) = concat (map nec.bit_pulses bs)"
  by (induction bs) (simp_all add: nec_bit_pulses(2))

lemma pulses_nec_first:
  "pulses on (irda_encoder_nec_encode addr cmd False @ cs) =
     pair_pulses (nec_head addr cmd) @ (False, 560) # (True, 1600) # pulses False cs"
  by (simp add: irda_encoder_nec_encode_def Let_def irda_encode_nec_preamble_def pulse_simps
      nec_head_def nec_bytes_def pair_pulses_bits nec_bit_pulses(1))
     (simp add: nec_bit_pulses(2))

lemma pulses_nec_repeat:
  "pulses on (irda_encoder_nec_encode addr cmd True @ cs) =
     (True, 40000) # (False, 9000) # (True, 2250) # (False, 560) # (True, 1600) # pulses False cs"
  by (simp add: irda_encoder_nec_encode_def Let_def irda_encode_nec_repeat_def pulse_simps
      nec_bit_pulses)

lemma irda_send_Suc:
  "irda_send m (int (Suc k)) =
     [Kernel_Lock, Irq_Disable] @
     impl_encode (irda_protocols ! irda_protocol_index (msg_protocol m))
       (msg_address m) (msg_command m) False @ [Irq_Enable, Kernel_Unlock] @
     concat (replicate k ([Kernel_Lock, Irq_Disable] @
       impl_encode (irda_protocols ! irda_protocol_index (msg_protocol m))
         (msg_address m) (msg_command m) True @ [Irq_Enable, Kernel_Unlock]))"
proof -
  have "concat (map (\<lambda>i. [Kernel_Lock, Irq_Disable] @ g (i \<noteq> 0) @ [Irq_Enable, Kernel_Unlock])
      [Suc 0..<Suc k]) =
    concat (replicate k ([Kernel_Lock, Irq_Disable] @ g True @ [Irq_Enable, Kernel_Unlock]))"
    for g :: "bool \<Rightarrow> irda_call list"
  proof -
    have "map (\<lambda>i. [Kernel_Lock, Irq_Disable] @ g (i \<noteq> 0) @ [Irq_Enable, Kernel_Unlock])
        [Suc 0..<Suc k] =
      map (\<lambda>i. [Kernel_Lock, Irq_Disable] @ g True @ [Irq_Enable, Kernel_Unlock]) [Suc 0..<Suc k]"
      by (rule map_cong) auto
    then show ?thesis by (simp only: map_replicate_const length_upt diff_Suc_Suc diff_zero)
  qed
  moreover have "[0..<Suc k] = 0 # [Suc 0..<Suc k]"
    by (simp add: upt_conv_Cons del: upt_Suc)
  ultimately show ?thesis
    unfolding irda_send_def nat_int by (simp del: upt_Suc)
qed

lemma demodulated_nec:
  assumes "msg_protocol m = IrdaProtocolNEC"
  shows "demodulated (irda_send m (int (Suc k))) =
    pair_pulses (nec_head (msg_address m) (msg_command m)) @ (False, 560) # nec_repeats k @ [(True, 1600)]"
proof -
  let ?R = "[(True, 40000), (False, 9000), (True, 2250), (False, 560), (True, 1600)]"
  have rep: "pulses on (concat (replicate k ([Kernel_Lock, Irq_Disable] @
      irda_encoder_nec_encode a c True @ [Irq_Enable, Kernel_Unlock]))) =
      concat (replicate k ?R)" for on a c
    by (induction k arbitrary: on) (simp_all add: pulses_nec_repeat)
  have merge: "merge_pulses ((True, 1600) # concat (replicate k ?R)) = nec_repeats k @ [(True, 1600)]"
    by (induction k) (simp_all add: nec_repeats_def)
  have "pulses False (irda_send m (int (Suc k))) =
      pair_pulses (nec_head (msg_address m) (msg_command m)) @
        (False, 560) # (True, 1600) # concat (replicate k ?R)"
    unfolding irda_send_Suc using assms rep [of False "msg_address m" "msg_command m"]
    by (simp add: irda_protocols_def pulses_nec_first)
  then show ?thesis
    using merge by (simp add: demodulated_def merge_pair_pulses)
qed

text \<open>What a receiver reports for an NEC message with the given address and command.\<close>

definition nec_received :: "u32 \<Rightarrow> u32 \<Rightarrow> irda_message" where
  "nec_received addr cmd =
     \<lparr>msg_protocol = IrdaProtocolNEC,
      msg_address = ucast (ucast (nec_bytes addr cmd ! 0) OR
                           push_bit 8 (ucast (nec_bytes addr cmd ! 1)) :: u16),
      msg_command = cmd AND 0xFF, msg_repeat = False\<rparr>"

lemma nec_received_eq:
  "nec_received addr cmd =
     \<lparr>msg_protocol = IrdaProtocolNEC, msg_address = (addr AND 0xFF) OR push_bit 8 (NOT addr AND 0xFF),
      msg_command = cmd AND 0xFF, msg_repeat = False\<rparr>"
proof -
  have "0xFF = (mask 8 :: u32)" by (simp add: mask_eq_exp_minus_1)
  then have "msg_address (nec_received addr cmd) = (addr AND 0xFF) OR push_bit 8 (NOT addr AND 0xFF)"
    unfolding nec_received_def nec_bytes_def Let_def irda_message.simps \<open>0xFF = mask 8\<close>
    by (intro bit_word_eqI) (auto simp: bit_simps)
  then show ?thesis by (simp add: nec_received_def)
qed

lemma ucast_low_byte: "(ucast (ucast (x AND 0xFF) :: u8) :: u32) = x AND 0xFF" for x :: u32
proof -
  have "0xFF = (mask 8 :: u32)" by (simp add: mask_eq_exp_minus_1)
  show ?thesis
    unfolding \<open>0xFF = mask 8\<close> by (rule bit_word_eqI) (auto simp add: bit_simps)
qed

lemma interpret_nec_bytes:
  assumes "data d = nec_bytes addr cmd"
  shows "interpret_msg protocol_nec d = Inr (True, d\<lparr>message := (message d)
    \<lparr>msg_command := cmd AND 0xFF, msg_address := msg_address (nec_received addr cmd),
     msg_repeat := False\<rparr>\<rparr>)"
  using assms
  by (simp add: protocol_nec_def interpret_nec_def nec_bytes_def nec_received_def Let_def
      ucast_low_byte)

lemma hears_nec_first:
  assumes "at_rest 4 WaitPreamble d"
  shows "\<exists>d'. hears (tagged_decode IrdaProtocolNEC dbg protocol_nec) d
      (pair_pulses (nec_head addr cmd) @ [(False, 560)]) [nec_received addr cmd] d' \<and>
    repeating 4 [] d' \<and> message d' = nec_received addr cmd"
proof -
  let ?f = "\<lambda>m. m\<lparr>msg_command := cmd AND 0xFF,
    msg_address := msg_address (nec_received addr cmd), msg_repeat := False\<rparr>"
  have "length (nec_bytes addr cmd) = 4" by (simp add: nec_bytes_def Let_def)
  moreover have "\<And>d. data d = nec_bytes addr cmd \<Longrightarrow>
      interpret_msg protocol_nec d = Inr (True, d\<lparr>message := ?f (message d)\<rparr>)"
    by (rule interpret_nec_bytes)
  ultimately have "\<lbrakk>match_preamble_timing 9000 (preamble_mark (spec_timings protocol_nec))
        (preamble_tolerance (spec_timings protocol_nec));
      match_preamble_timing 4500 (preamble_space (spec_timings protocol_nec))
        (preamble_tolerance (spec_timings protocol_nec));
      \<And>m. (?f m)\<lparr>msg_protocol := IrdaProtocolNEC\<rparr> = nec_received addr cmd\<rbrakk> \<Longrightarrow>
      \<exists>d'. hears (tagged_decode IrdaProtocolNEC dbg protocol_nec) d
        ([(False, 9000), (True, 4500)] @
         concat (map nec.bit_pulses (concat (map bits_of_byte (nec_bytes addr cmd)))) @
         [(False, 560)]) [nec_received addr cmd] d' \<and>
        repeating 4 [] d' \<and> message d' = nec_received addr cmd"
    by (intro nec.hears_message [OF assms, where f = ?f])
  then
  show ?thesis
    by (simp add: protocol_nec_def nec_timings_def match_preamble_9000 match_preamble_4500
        nec_received_def nec_head_def pair_pulses_bits)
qed

lemma decode_repeat_nec_wait: "timings_cnt d < 4 \<Longrightarrow> decode_repeat_nec d = (DecodeStatusOk, d)"
  by (simp add: decode_repeat_nec_def)

lemma take_eq_nth: "take n xs = ys \<Longrightarrow> i < length ys \<Longrightarrow> xs ! i = ys ! i"
  by auto

lemma hears_nec_repeat:
  assumes r: "repeating 4 [] d"
  shows "\<exists>d'. hears (tagged_decode IrdaProtocolNEC dbg protocol_nec) d
      [(True, 41600), (False, 9000), (True, 2250), (False, 560)]
      [(message d)\<lparr>msg_repeat := True, msg_protocol := IrdaProtocolNEC\<rparr>] d' \<and>
    repeating 4 [] d' \<and>
    message d' = (message d)\<lparr>msg_repeat := True, msg_protocol := IrdaProtocolNEC\<rparr>"
proof -
  let ?dec = "tagged_decode IrdaProtocolNEC dbg protocol_nec"
  have rep: "decode_repeat protocol_nec = Some decode_repeat_nec" by (simp add: protocol_nec_def)
  note more = repeat_more [OF _ _ rep decode_repeat_nec_wait, where dbg = dbg and p = IrdaProtocolNEC]
  from more [OF r, of 41600] obtain d1 where 1: "?dec d (True, 41600) = Inr (None, d1)"
    and r1: "repeating 4 [41600] d1" and m1: "message d1 = message d" by auto
  from more [OF r1, of 9000] obtain d2 where 2: "?dec d1 (False, 9000) = Inr (None, d2)"
    and r2: "repeating 4 [41600, 9000] d2" and m2: "message d2 = message d" using m1 by auto
  from more [OF r2, of 2250] obtain d3 where 3: "?dec d2 (True, 2250) = Inr (None, d3)"
    and r3: "repeating 4 [41600, 9000, 2250] d3" and m3: "message d3 = message d"
    using m2 by auto
  have ready: "decode_repeat_nec e = (DecodeStatusReady, e\<lparr>timings_cnt := 0\<rparr>)"
    if "timings_cnt e = Suc (length [41600, 9000, 2250 :: u32])"
      and "take (Suc (length [41600, 9000, 2250 :: u32])) (timings e) = [41600, 9000, 2250] @ [560]"
    for e
    using that(1) take_eq_nth [OF that(2), of 0] take_eq_nth [OF that(2), of 1]
      take_eq_nth [OF that(2), of 2] take_eq_nth [OF that(2), of 3]
    by (simp add: decode_repeat_nec_def nec_timings_def match_preamble_9000 match_preamble_2250
        match_bit_timing_def)
  from repeat_done [OF r3 _ _ rep ready, where p = IrdaProtocolNEC and dbg = dbg] m3 obtain d4
    where 4: "?dec d3 (False, 560) = Inr (Some ((message d)\<lparr>msg_repeat := True,
          msg_protocol := IrdaProtocolNEC\<rparr>), d4)"
      and r4: "repeating 4 [] d4"
      and m4: "message d4 = (message d)\<lparr>msg_repeat := True, msg_protocol := IrdaProtocolNEC\<rparr>"
    by auto
  have "hears ?dec d [(True, 41600), (False, 9000), (True, 2250), (False, 560)]
      [(message d)\<lparr>msg_repeat := True, msg_protocol := IrdaProtocolNEC\<rparr>] d4"
    by (rule hears_Cons_None, rule 1, rule hears_Cons_None, rule 2, rule hears_Cons_None, rule 3,
        rule hears_Cons_Some, rule 4, simp)
  with r4 m4 show ?thesis by blast
qed

lemma hears_nec_repeats:
  assumes "repeating 4 [] d" and "msg_protocol (message d) = IrdaProtocolNEC"
  shows "\<exists>d'. hears (tagged_decode IrdaProtocolNEC dbg protocol_nec) d (nec_repeats k)
      (replicate k ((message d)\<lparr>msg_repeat := True\<rparr>)) d' \<and> repeating 4 [] d'"
  using assms
proof (induction k arbitrary: d)
  case 0
  then show ?case by (auto simp: nec_repeats_def)
next
  case (Suc k)
  have id: "m\<lparr>msg_repeat := True, msg_protocol := IrdaProtocolNEC\<rparr> = m\<lparr>msg_repeat := True\<rparr>"
    if "msg_protocol m = IrdaProtocolNEC" for m :: irda_message
    using that by simp
  from hears_nec_repeat [OF Suc.prems(1), of dbg] id [OF Suc.prems(2)] obtain d1
    where 1: "hears (tagged_decode IrdaProtocolNEC dbg protocol_nec) d
        [(True, 41600), (False, 9000), (True, 2250), (False, 560)]
        [(message d)\<lparr>msg_repeat := True\<rparr>] d1"
      and r1: "repeating 4 [] d1" and m1: "message d1 = (message d)\<lparr>msg_repeat := True\<rparr>" by auto
  from Suc.IH [OF r1] Suc.prems(2) m1 obtain d2
    where 2: "hears (tagged_decode IrdaProtocolNEC dbg protocol_nec) d1 (nec_repeats k)
        (replicate k ((message d)\<lparr>msg_repeat := True\<rparr>)) d2"
      and r2: "repeating 4 [] d2" by auto
  from hears_append [OF 1 2] r2 show ?case by (auto simp: nec_repeats_def)
qed

text \<open>The pause after the last message reaches the decoder with the next edge.\<close>

lemma hears_last_space:
  assumes "repeating n [] d" and "decode_repeat spec = Some f"
    and "\<And>d2. timings_cnt d2 = Suc 0 \<Longrightarrow> f d2 = (DecodeStatusOk, d2)"
  shows "\<exists>d'. hears (tagged_decode p dbg spec) d [(True, t)] [] d'"
proof -
  from repeat_more [OF assms(1) _ assms(2), of p dbg t] assms(3) obtain d'
    where 1: "tagged_decode p dbg spec d (True, t) = Inr (None, d')" by auto
  have "hears (tagged_decode p dbg spec) d [(True, t)] [] d'"
    by (rule hears_Cons_None, rule 1, simp)
  then show ?thesis by blast
qed

lemma alloc_first_space:
  "\<exists>d'. hears (tagged_decode p dbg protocol_nec) (irda_common_decoder_alloc protocol_nec)
      [(True, t)] [] d' \<and> at_rest 4 WaitPreamble d'"
  "\<exists>d'. hears (tagged_decode p dbg protocol_samsung32) (irda_common_decoder_alloc protocol_samsung32)
      [(True, t)] [] d' \<and> at_rest 4 WaitPreamble d'"
proof -
  have "\<exists>d'. hears (tagged_decode p dbg spec) (irda_common_decoder_alloc spec) [(True, t)] [] d' \<and>
      at_rest 4 WaitPreamble d'" if "databit_len spec = 32" for spec
  proof -
    from first_space [of "irda_common_decoder_alloc spec" 4 dbg spec t] that obtain d'
      where 1: "irda_common_decode dbg spec (irda_common_decoder_alloc spec) (True, t) = Inr (None, d')"
        and 2: "at_rest 4 WaitPreamble d'" by (auto simp: irda_common_decoder_alloc_def)
    have "hears (tagged_decode p dbg spec) (irda_common_decoder_alloc spec) [(True, t)] [] d'"
      by (rule hears_Cons_None, rule tagged_decode_None, rule 1, simp)
    with 2 show ?thesis by blast
  qed
  then show "\<exists>d'. hears (tagged_decode p dbg protocol_nec) (irda_common_decoder_alloc protocol_nec)
      [(True, t)] [] d' \<and> at_rest 4 WaitPreamble d'"
    and "\<exists>d'. hears (tagged_decode p dbg protocol_samsung32) (irda_common_decoder_alloc protocol_samsung32)
      [(True, t)] [] d' \<and> at_rest 4 WaitPreamble d'"
    by (simp_all add: protocol_nec_def protocol_samsung32_def)
qed

text \<open>The pulses of an NEC transmission as mark-space pairs: none is a Samsung preamble.\<close>

definition nec_tail :: "nat \<Rightarrow> (u32 \<times> u32) list" where
  "nec_tail k = concat (replicate k [(560, 41600), (9000, 2250)]) @ [(560, 1600)]"

lemma nec_tail_pulses: "(False, 560) # nec_repeats k @ [(True, 1600)] = pair_pulses (nec_tail k)"
  by (induction k) (simp_all add: nec_repeats_def nec_tail_def)

lemma samsung_ignores_nec:
  assumes "at_rest 4 WaitPreamble d"
  shows "\<exists>d'. hears (tagged_decode p dbg protocol_samsung32) d
      (pair_pulses (nec_head a c @ nec_tail k)) [] d'"
proof -
  have "set (nec_tail k) \<subseteq> {(560, 41600), (9000, 2250), (560, 1600)}"
    by (induction k) (auto simp: nec_tail_def)
  then have marks: "m = 9000 \<or> m = 560" if "(m, s) \<in> set (nec_head a c @ nec_tail k)" for m s
    using that by (auto simp: nec_head_def)
  have "\<forall>(m, s) \<in> set (nec_head a c @ nec_tail k).
      \<not> (match_preamble_timing m (preamble_mark (spec_timings protocol_samsung32))
          (preamble_tolerance (spec_timings protocol_samsung32)) \<and>
        match_preamble_timing s (preamble_space (spec_timings protocol_samsung32))
          (preamble_tolerance (spec_timings protocol_samsung32)))"
    by (auto simp: protocol_samsung32_def samsung_timings_def match_preamble_4500 dest!: marks
        simp del: set_append)
  from hears_foreign [OF assms this, of p dbg] show ?thesis
    unfolding pair_pulses_def by blast
qed

lemma nec_roundtrip:
  assumes "msg_protocol m = IrdaProtocolNEC"
  shows "\<exists>h. hears (irda_decode dbg) irda_alloc_decoder
      ((True, idle) # demodulated (irda_send m (int (Suc k))))
      (nec_received (msg_address m) (msg_command m) #
       replicate k ((nec_received (msg_address m) (msg_command m))\<lparr>msg_repeat := True\<rparr>)) h"
proof -
  let ?a = "msg_address m" and ?c = "msg_command m"
  let ?nec = "tagged_decode IrdaProtocolNEC dbg protocol_nec"
  let ?msg = "nec_received ?a ?c"
  let ?xs = "(True, idle) # demodulated (irda_send m (int (Suc k)))"
  from alloc_first_space(1) [of IrdaProtocolNEC dbg idle] obtain n1
    where 1: "hears ?nec (irda_common_decoder_alloc protocol_nec) [(True, idle)] [] n1"
      and r1: "at_rest 4 WaitPreamble n1" by blast
  from hears_nec_first [OF r1, of dbg ?a ?c] obtain n2
    where 2: "hears ?nec n1 (pair_pulses (nec_head ?a ?c) @ [(False, 560)]) [?msg] n2"
      and r2: "repeating 4 [] n2" and m2: "message n2 = ?msg" by blast
  from hears_nec_repeats [OF r2, of dbg k] m2 obtain n3
    where 3: "hears ?nec n2 (nec_repeats k) (replicate k (?msg\<lparr>msg_repeat := True\<rparr>)) n3"
      and r3: "repeating 4 [] n3" by (auto simp: nec_received_def)
  from hears_last_space [OF r3, of protocol_nec decode_repeat_nec IrdaProtocolNEC dbg 1600]
  obtain n4 where 4: "hears ?nec n3 [(True, 1600)] [] n4"
    by (auto simp: protocol_nec_def decode_repeat_nec_def)
  have nec: "hears ?nec (irda_common_decoder_alloc protocol_nec) ?xs
      (?msg # replicate k (?msg\<lparr>msg_repeat := True\<rparr>)) n4"
    using hears_append [OF 1 hears_append [OF 2 hears_append [OF 3 4]]]
    by (simp add: demodulated_nec [OF assms] del: of_nat_Suc)
  from alloc_first_space(2) [of IrdaProtocolSamsung32 dbg idle] obtain s1
    where s1: "hears (tagged_decode IrdaProtocolSamsung32 dbg protocol_samsung32)
        (irda_common_decoder_alloc protocol_samsung32) [(True, idle)] [] s1"
      and q1: "at_rest 4 WaitPreamble s1" by blast
  from samsung_ignores_nec [OF q1] obtain s2
    where s2: "hears (tagged_decode IrdaProtocolSamsung32 dbg protocol_samsung32) s1
        (pair_pulses (nec_head ?a ?c @ nec_tail k)) [] s2" by blast
  have "hears (tagged_decode IrdaProtocolSamsung32 dbg protocol_samsung32)
      (irda_common_decoder_alloc protocol_samsung32) ?xs [] s2"
    using hears_append [OF s1 s2]
    by (simp add: demodulated_nec [OF assms] nec_tail_pulses del: of_nat_Suc)
  from hears_nec_only [OF this nec] show ?thesis
    by (auto simp: irda_alloc_decoder_def irda_protocols_def)
qed

section \<open>Sending Samsung32 and receiving it\<close>

definition samsung_bytes :: "u32 \<Rightarrow> u32 \<Rightarrow> u8 list" where
  "samsung_bytes addr cmd =
     (let a = ucast (addr AND 0xFF); c = ucast (cmd AND 0xFF) in [a, a, c, NOT c])"

definition samsung_head :: "u32 \<Rightarrow> u32 \<Rightarrow> (u32 \<times> u32) list" where
  "samsung_head addr cmd =
     (4500, 4500) # map (\<lambda>b. (550, if b then 1650 else 550))
       (concat (map bits_of_byte (samsung_bytes addr cmd)))"

definition samsung_repeats :: "nat \<Rightarrow> (bool \<times> u32) list" where
  "samsung_repeats k =
     concat (replicate k [(True, 48650), (False, 4500), (True, 4500), (False, 550), (True, 1650),
                          (False, 550)])"

definition samsung_tail :: "nat \<Rightarrow> (u32 \<times> u32) list" where
  "samsung_tail k = concat (replicate k [(550, 48650), (4500, 4500), (550, 1650)]) @ [(550, 1650)]"

definition samsung_received :: "u32 \<Rightarrow> u32 \<Rightarrow> irda_message" where
  "samsung_received addr cmd =
     \<lparr>msg_protocol = IrdaProtocolSamsung32, msg_address = addr AND 0xFF,
      msg_command = cmd AND 0xFF, msg_repeat = False\<rparr>"

lemma samsung_bit_pulses:
  "pulse_of_bit samsung_encoder_timings = samsung.bit_pulses"
  "samsung.bit_pulses b = [(False, 550), (True, if b then 1650 else 550)]"
  by (simp_all add: fun_eq_iff pulse_of_bit_def samsung_encoder_timings_def samsung.bit_pulses_def)

lemma pair_pulses_samsung_bits:
  "pair_pulses (map (\<lambda>b. (550, if b then 1650 else 550)) bs) = concat (map samsung.bit_pulses bs)"
  by (induction bs) (simp_all add: samsung_bit_pulses(2))

lemma pulses_samsung_first:
  "pulses on (irda_encoder_samsung32_encode addr cmd False @ cs) =
     pair_pulses (samsung_head addr cmd) @ (False, 550) # (True, 1650) # pulses False cs"
  by (simp add: irda_encoder_samsung32_encode_def Let_def irda_encode_samsung32_preamble_def
      pulse_simps samsung_head_def samsung_bytes_def pair_pulses_samsung_bits samsung_bit_pulses(1))
     (simp add: samsung_bit_pulses(2))

lemma pulses_samsung_repeat:
  "pulses on (irda_encoder_samsung32_encode addr cmd True @ cs) =
     (True, 47000) # (False, 4500) # (True, 4500) # (False, 550) # (True, 1650) # (False, 550) #
     (True, 1650) # pulses False cs"
  by (simp add: irda_encoder_samsung32_encode_def Let_def irda_encode_samsung32_repeat_def
      pulse_simps samsung_bit_pulses)

lemma demodulated_samsung:
  assumes "msg_protocol m = IrdaProtocolSamsung32"
  shows "demodulated (irda_send m (int (Suc k))) =
    pair_pulses (samsung_head (msg_address m) (msg_command m)) @ (False, 550) # samsung_repeats k @
    [(True, 1650)]"
proof -
  let ?R = "[(True, 47000), (False, 4500), (True, 4500), (False, 550), (True, 1650),
             (False, 550), (True, 1650)]"
  have rep: "pulses on (concat (replicate k ([Kernel_Lock, Irq_Disable] @
      irda_encoder_samsung32_encode a c True @ [Irq_Enable, Kernel_Unlock]))) =
      concat (replicate k ?R)" for on a c
    by (induction k arbitrary: on) (simp_all add: pulses_samsung_repeat)
  have merge: "merge_pulses ((True, 1650) # concat (replicate k ?R)) =
      samsung_repeats k @ [(True, 1650)]"
    by (induction k) (simp_all add: samsung_repeats_def)
  have "pulses False (irda_send m (int (Suc k))) =
      pair_pulses (samsung_head (msg_address m) (msg_command m)) @
        (False, 550) # (True, 1650) # concat (replicate k ?R)"
    unfolding irda_send_Suc using assms rep [of False "msg_address m" "msg_command m"]
    by (simp add: irda_protocols_def pulses_samsung_first)
  then show ?thesis
    using merge by (simp add: demodulated_def merge_pair_pulses)
qed

lemma interpret_samsung32_bytes:
  assumes "data d = samsung_bytes addr cmd"
  shows "interpret_msg protocol_samsung32 d = Inr (True, d\<lparr>message := (message d)
    \<lparr>msg_command := cmd AND 0xFF, msg_address := addr AND 0xFF, msg_repeat := False\<rparr>\<rparr>)"
  using assms
  by (simp add: protocol_samsung32_def interpret_samsung32_def samsung_bytes_def Let_def
      ucast_low_byte)

lemma hears_samsung_first:
  assumes "at_rest 4 WaitPreamble d"
  shows "\<exists>d'. hears (tagged_decode IrdaProtocolSamsung32 dbg protocol_samsung32) d
      (pair_pulses (samsung_head addr cmd) @ [(False, 550)]) [samsung_received addr cmd] d' \<and>
    repeating 4 [] d' \<and> message d' = samsung_received addr cmd"
proof -
  let ?f = "\<lambda>m. m\<lparr>msg_command := cmd AND 0xFF, msg_address := addr AND 0xFF,
    msg_repeat := False\<rparr>"
  have "length (samsung_bytes addr cmd) = 4" by (simp add: samsung_bytes_def Let_def)
  moreover have "\<And>d. data d = samsung_bytes addr cmd \<Longrightarrow>
      interpret_msg protocol_samsung32 d = Inr (True, d\<lparr>message := ?f (message d)\<rparr>)"
    by (rule interpret_samsung32_bytes)
  ultimately have "\<lbrakk>match_preamble_timing 4500 (preamble_mark (spec_timings protocol_samsung32))
        (preamble_tolerance (spec_timings protocol_samsung32));
      match_preamble_timing 4500 (preamble_space (spec_timings protocol_samsung32))
        (preamble_tolerance (spec_timings protocol_samsung32));
      \<And>m. (?f m)\<lparr>msg_protocol := IrdaProtocolSamsung32\<rparr> = samsung_received addr cmd\<rbrakk> \<Longrightarrow>
      \<exists>d'. hears (tagged_decode IrdaProtocolSamsung32 dbg protocol_samsung32) d
        ([(False, 4500), (True, 4500)] @
         concat (map samsung.bit_pulses (concat (map bits_of_byte (samsung_bytes addr cmd)))) @
         [(False, 550)]) [samsung_received addr cmd] d' \<and>
        repeating 4 [] d' \<and> message d' = samsung_received addr cmd"
    by (intro samsung.hears_message [OF assms, where f = ?f])
  then show ?thesis
    by (simp add: protocol_samsung32_def samsung_timings_def match_preamble_4500
        samsung_received_def samsung_head_def pair_pulses_samsung_bits)
qed

lemma decode_repeat_samsung32_wait:
  "timings_cnt d < 6 \<Longrightarrow> decode_repeat_samsung32 d = (DecodeStatusOk, d)"
  by (simp add: decode_repeat_samsung32_def)

lemma hears_samsung_repeat:
  assumes r: "repeating 4 [] d"
  shows "\<exists>d'. hears (tagged_decode IrdaProtocolSamsung32 dbg protocol_samsung32) d
      [(True, 48650), (False, 4500), (True, 4500), (False, 550), (True, 1650), (False, 550)]
      [(message d)\<lparr>msg_repeat := True, msg_protocol := IrdaProtocolSamsung32\<rparr>] d' \<and>
    repeating 4 [] d' \<and>
    message d' = (message d)\<lparr>msg_repeat := True, msg_protocol := IrdaProtocolSamsung32\<rparr>"
proof -
  let ?dec = "tagged_decode IrdaProtocolSamsung32 dbg protocol_samsung32"
  have rep: "decode_repeat protocol_samsung32 = Some decode_repeat_samsung32"
    by (simp add: protocol_samsung32_def)
  note more = repeat_more [OF _ _ rep decode_repeat_samsung32_wait, where dbg = dbg
      and p = IrdaProtocolSamsung32]
  from more [OF r, of 48650] obtain d1 where 1: "?dec d (True, 48650) = Inr (None, d1)"
    and r1: "repeating 4 [48650] d1" and m1: "message d1 = message d" by auto
  from more [OF r1, of 4500] obtain d2 where 2: "?dec d1 (False, 4500) = Inr (None, d2)"
    and r2: "repeating 4 [48650, 4500] d2" and m2: "message d2 = message d" using m1 by auto
  from more [OF r2, of 4500] obtain d3 where 3: "?dec d2 (True, 4500) = Inr (None, d3)"
    and r3: "repeating 4 [48650, 4500, 4500] d3" and m3: "message d3 = message d"
    using m2 by auto
  from more [OF r3, of 550] obtain d4 where 4: "?dec d3 (False, 550) = Inr (None, d4)"
    and r4: "repeating 4 [48650, 4500, 4500, 550] d4" and m4: "message d4 = message d"
    using m3 by auto
  from more [OF r4, of 1650] obtain d5 where 5: "?dec d4 (True, 1650) = Inr (None, d5)"
    and r5: "repeating 4 [48650, 4500, 4500, 550, 1650] d5" and m5: "message d5 = message d"
    using m4 by auto
  have ready: "decode_repeat_samsung32 e = (DecodeStatusReady, e\<lparr>timings_cnt := 0\<rparr>)"
    if "timings_cnt e = Suc (length [48650, 4500, 4500, 550, 1650 :: u32])"
      and "take (Suc (length [48650, 4500, 4500, 550, 1650 :: u32])) (timings e) =
        [48650, 4500, 4500, 550, 1650] @ [550]" for e
    using that(1) take_eq_nth [OF that(2), of 0] take_eq_nth [OF that(2), of 1]
      take_eq_nth [OF that(2), of 2] take_eq_nth [OF that(2), of 3]
      take_eq_nth [OF that(2), of 4] take_eq_nth [OF that(2), of 5]
    by (simp add: decode_repeat_samsung32_def samsung_timings_def match_preamble_4500
        match_bit_timing_def)
  from repeat_done [OF r5 _ _ rep ready, where p = IrdaProtocolSamsung32 and dbg = dbg] m5
  obtain d6 where 6: "?dec d5 (False, 550) = Inr (Some ((message d)\<lparr>msg_repeat := True,
          msg_protocol := IrdaProtocolSamsung32\<rparr>), d6)"
      and r6: "repeating 4 [] d6"
      and m6: "message d6 = (message d)\<lparr>msg_repeat := True, msg_protocol := IrdaProtocolSamsung32\<rparr>"
    by auto
  have "hears ?dec d
      [(True, 48650), (False, 4500), (True, 4500), (False, 550), (True, 1650), (False, 550)]
      [(message d)\<lparr>msg_repeat := True, msg_protocol := IrdaProtocolSamsung32\<rparr>] d6"
    by (rule hears_Cons_None, rule 1, rule hears_Cons_None, rule 2, rule hears_Cons_None, rule 3,
        rule hears_Cons_None, rule 4, rule hears_Cons_None, rule 5,
        rule hears_Cons_Some, rule 6, simp)
  with r6 m6 show ?thesis by blast
qed

lemma hears_samsung_repeats:
  assumes "repeating 4 [] d" and "msg_protocol (message d) = IrdaProtocolSamsung32"
  shows "\<exists>d'. hears (tagged_decode IrdaProtocolSamsung32 dbg protocol_samsung32) d
      (samsung_repeats k) (replicate k ((message d)\<lparr>msg_repeat := True\<rparr>)) d' \<and> repeating 4 [] d'"
  using assms
proof (induction k arbitrary: d)
  case 0
  then show ?case by (auto simp: samsung_repeats_def)
next
  case (Suc k)
  have id: "m\<lparr>msg_repeat := True, msg_protocol := IrdaProtocolSamsung32\<rparr> = m\<lparr>msg_repeat := True\<rparr>"
    if "msg_protocol m = IrdaProtocolSamsung32" for m :: irda_message
    using that by simp
  from hears_samsung_repeat [OF Suc.prems(1), of dbg] id [OF Suc.prems(2)] obtain d1
    where 1: "hears (tagged_decode IrdaProtocolSamsung32 dbg protocol_samsung32) d
        [(True, 48650), (False, 4500), (True, 4500), (False, 550), (True, 1650), (False, 550)]
        [(message d)\<lparr>msg_repeat := True\<rparr>] d1"
      and r1: "repeating 4 [] d1" and m1: "message d1 = (message d)\<lparr>msg_repeat := True\<rparr>" by auto
  from Suc.IH [OF r1] Suc.prems(2) m1 obtain d2
    where 2: "hears (tagged_decode IrdaProtocolSamsung32 dbg protocol_samsung32) d1
        (samsung_repeats k) (replicate k ((message d)\<lparr>msg_repeat := True\<rparr>)) d2"
      and r2: "repeating 4 [] d2" by auto
  from hears_append [OF 1 2] r2 show ?case by (auto simp: samsung_repeats_def)
qed

lemma samsung_tail_pulses:
  "(False, 550) # samsung_repeats k @ [(True, 1650)] = pair_pulses (samsung_tail k)"
  by (induction k) (simp_all add: samsung_repeats_def samsung_tail_def)

lemma nec_ignores_samsung:
  assumes "at_rest 4 WaitPreamble d"
  shows "\<exists>d'. hears (tagged_decode p dbg protocol_nec) d
      (pair_pulses (samsung_head a c @ samsung_tail k)) [] d'"
proof -
  have "set (samsung_tail k) \<subseteq> {(550, 48650), (4500, 4500), (550, 1650)}"
    by (induction k) (auto simp: samsung_tail_def)
  then have marks: "m = 4500 \<or> m = 550" if "(m, s) \<in> set (samsung_head a c @ samsung_tail k)" for m s
    using that by (auto simp: samsung_head_def)
  have "\<forall>(m, s) \<in> set (samsung_head a c @ samsung_tail k).
      \<not> (match_preamble_timing m (preamble_mark (spec_timings protocol_nec))
          (preamble_tolerance (spec_timings protocol_nec)) \<and>
        match_preamble_timing s (preamble_space (spec_timings protocol_nec))
          (preamble_tolerance (spec_timings protocol_nec)))"
    by (auto simp: protocol_nec_def nec_timings_def match_preamble_9000 dest!: marks
        simp del: set_append)
  from hears_foreign [OF assms this, of p dbg] show ?thesis
    unfolding pair_pulses_def by blast
qed

lemma samsung_roundtrip:
  assumes "msg_protocol m = IrdaProtocolSamsung32"
  shows "\<exists>h. hears (irda_decode dbg) irda_alloc_decoder
      ((True, idle) # demodulated (irda_send m (int (Suc k))))
      (samsung_received (msg_address m) (msg_command m) #
       replicate k ((samsung_received (msg_address m) (msg_command m))\<lparr>msg_repeat := True\<rparr>)) h"
proof -
  let ?a = "msg_address m" and ?c = "msg_command m"
  let ?sam = "tagged_decode IrdaProtocolSamsung32 dbg protocol_samsung32"
  let ?msg = "samsung_received ?a ?c"
  let ?xs = "(True, idle) # demodulated (irda_send m (int (Suc k)))"
  from alloc_first_space(2) [of IrdaProtocolSamsung32 dbg idle] obtain s1
    where 1: "hears ?sam (irda_common_decoder_alloc protocol_samsung32) [(True, idle)] [] s1"
      and r1: "at_rest 4 WaitPreamble s1" by blast
  from hears_samsung_first [OF r1, of dbg ?a ?c] obtain s2
    where 2: "hears ?sam s1 (pair_pulses (samsung_head ?a ?c) @ [(False, 550)]) [?msg] s2"
      and r2: "repeating 4 [] s2" and m2: "message s2 = ?msg" by blast
  from hears_samsung_repeats [OF r2, of dbg k] m2 obtain s3
    where 3: "hears ?sam s2 (samsung_repeats k) (replicate k (?msg\<lparr>msg_repeat := True\<rparr>)) s3"
      and r3: "repeating 4 [] s3" by (auto simp: samsung_received_def)
  from hears_last_space [OF r3, of protocol_samsung32 decode_repeat_samsung32
      IrdaProtocolSamsung32 dbg 1650]
  obtain s4 where 4: "hears ?sam s3 [(True, 1650)] [] s4"
    by (auto simp: protocol_samsung32_def decode_repeat_samsung32_def)
  have sam: "hears ?sam (irda_common_decoder_alloc protocol_samsung32) ?xs
      (?msg # replicate k (?msg\<lparr>msg_repeat := True\<rparr>)) s4"
    using hears_append [OF 1 hears_append [OF 2 hears_append [OF 3 4]]]
    by (simp add: demodulated_samsung [OF assms] del: of_nat_Suc)
  from alloc_first_space(1) [of IrdaProtocolNEC dbg idle] obtain n1
    where n1: "hears (tagged_decode IrdaProtocolNEC dbg protocol_nec)
        (irda_common_decoder_alloc protocol_nec) [(True, idle)] [] n1"
      and q1: "at_rest 4 WaitPreamble n1" by blast
  from nec_ignores_samsung [OF q1] obtain n2
    where n2: "hears (tagged_decode IrdaProtocolNEC dbg protocol_nec) n1
        (pair_pulses (samsung_head ?a ?c @ samsung_tail k)) [] n2" by blast
  have "hears (tagged_decode IrdaProtocolNEC dbg protocol_nec)
      (irda_common_decoder_alloc protocol_nec) ?xs [] n2"
    using hears_append [OF n1 n2]
    by (simp add: demodulated_samsung [OF assms] samsung_tail_pulses del: of_nat_Suc)
  from hears_samsung_only [OF sam this] show ?thesis
    by (auto simp: irda_alloc_decoder_def irda_protocols_def)
qed

section \<open>The handler as a whole\<close>

text \<open>Every decoder of the handler satisfies its invariant and has seen the same level last.\<close>

definition handler_inv :: "bool \<Rightarrow> irda_decoder list \<Rightarrow> bool" where
  "handler_inv l h \<longleftrightarrow>
     (\<exists>ds dn. h = [ds, dn] \<and> irda_inv 4 ds \<and> irda_inv 4 dn \<and> level ds = l \<and> level dn = l)"

lemma irda_inv_set_message [simp]: "irda_inv n (d\<lparr>message := m\<rparr>) = irda_inv n d"
  by (simp add: irda_inv_def split: irda_common_state.splits)

lemma handler_inv_alloc: "handler_inv False irda_alloc_decoder"
  using nec.alloc_inv samsung.alloc_inv
  by (simp add: handler_inv_def irda_alloc_decoder_def irda_protocols_def
      irda_common_decoder_alloc_def)

lemma irda_decode_total:
  assumes "handler_inv l h" and "dbg \<longrightarrow> lvl \<noteq> l"
  shows "\<exists>m h'. irda_decode dbg h (lvl, t) = Inr (m, h') \<and> handler_inv lvl h'"
proof -
  from assms(1) obtain ds dn where h: "h = [ds, dn]" and inv: "irda_inv 4 ds" "irda_inv 4 dn"
    and l: "level ds = l" "level dn = l" by (auto simp: handler_inv_def)
  from samsung.decode_total [OF inv(1), of dbg lvl t] assms(2) l obtain m1 ds1
    where 1: "irda_common_decode dbg protocol_samsung32 ds (lvl, t) = Inr (m1, ds1)"
      "irda_inv 4 ds1" "level ds1 = lvl" by auto
  from nec.decode_total [OF inv(2), of dbg lvl t] assms(2) l obtain m2 dn1
    where 2: "irda_common_decode dbg protocol_nec dn (lvl, t) = Inr (m2, dn1)"
      "irda_inv 4 dn1" "level dn1 = lvl" by auto
  show ?thesis
    using 1 2 h
    by (cases m1; cases m2) (auto simp: irda_decode_def irda_protocols_def handler_inv_def Let_def)
qed

fun alternates :: "bool \<Rightarrow> (bool \<times> u32) list \<Rightarrow> bool" where
  "alternates l [] = True"
| "alternates l ((l1, t) # xs) = (l1 \<noteq> l \<and> alternates l1 xs)"

lemma irda_run_total:
  assumes "handler_inv l h" and "dbg \<longrightarrow> alternates l xs"
  shows "\<exists>os h' l'. runE (irda_decode dbg) h xs = Inr (os, h') \<and> handler_inv l' h'"
  using assms
proof (induction xs arbitrary: h l)
  case Nil
  then show ?case by auto
next
  case (Cons x xs)
  obtain lvl t where x: "x = (lvl, t)" by fastforce
  from irda_decode_total [OF Cons.prems(1), of dbg lvl t] Cons.prems(2) x obtain m h1
    where 1: "irda_decode dbg h (lvl, t) = Inr (m, h1)" "handler_inv lvl h1" by auto
  from Cons.IH [OF 1(2)] Cons.prems(2) x obtain os h' l'
    where "runE (irda_decode dbg) h1 xs = Inr (os, h')" "handler_inv l' h'" by auto
  with 1 x show ?case by auto
qed

section \<open>Properties\<close>

text \<open>
  C1. What is sent as NEC is received as NEC. Sending a message \<open>k + 1\<close> times with
  \<open>irda_send\<close> and feeding the demodulated pulses, after any idle time, to a fresh handler with
  both decoders reports exactly \<open>k + 1\<close> messages, the first with \<open>repeat\<close> unset and the others
  with it set, all with the low byte of the command; the address is the low byte of the sent one
  in bits 0 to 7 and its complement in bits 8 to 15. No call faults, and the Samsung decoder
  stays silent.
\<close>

theorem irda_nec_send_receive:
  fixes addr cmd idle :: u32 and k :: nat
  assumes "m = \<lparr>msg_protocol = IrdaProtocolNEC, msg_address = addr, msg_command = cmd,
                 msg_repeat = r\<rparr>"
    and "first = \<lparr>msg_protocol = IrdaProtocolNEC,
                   msg_address = (addr AND 0xFF) OR push_bit 8 (NOT addr AND 0xFF),
                   msg_command = cmd AND 0xFF, msg_repeat = False\<rparr>"
  shows "\<exists>h. hears (irda_decode dbg) irda_alloc_decoder
      ((True, idle) # demodulated (irda_send m (int (Suc k))))
      (first # replicate k (first\<lparr>msg_repeat := True\<rparr>)) h"
proof -
  have "nec_received addr cmd = first"
    using assms(2) nec_received_eq by simp
  with nec_roundtrip [of m dbg idle k] assms(1) show ?thesis by simp
qed

theorem irda_nec_send_receive_witness:
  "\<exists>h. hears (irda_decode True) irda_alloc_decoder
      ((True, 5000) # demodulated (irda_send
        \<lparr>msg_protocol = IrdaProtocolNEC, msg_address = 0x34, msg_command = 0x1A, msg_repeat = False\<rparr>
        (int (Suc 1))))
      [\<lparr>msg_protocol = IrdaProtocolNEC, msg_address = 0xCB34, msg_command = 0x1A, msg_repeat = False\<rparr>,
       \<lparr>msg_protocol = IrdaProtocolNEC, msg_address = 0xCB34, msg_command = 0x1A, msg_repeat = True\<rparr>] h"
  using irda_nec_send_receive [OF refl refl, where dbg = True and idle = 5000 and
      addr = "0x34" and cmd = "0x1A" and r = False and k = 1] by simp

text \<open>
  What is sent as Samsung32 is received as Samsung32, with the low bytes of address and
  command, once as a message and \<open>k\<close> times as a repeat; the NEC decoder stays silent.
\<close>

theorem irda_samsung_send_receive:
  fixes addr cmd idle :: u32 and k :: nat
  assumes "m = \<lparr>msg_protocol = IrdaProtocolSamsung32, msg_address = addr, msg_command = cmd,
                 msg_repeat = r\<rparr>"
    and "first = \<lparr>msg_protocol = IrdaProtocolSamsung32, msg_address = addr AND 0xFF,
                   msg_command = cmd AND 0xFF, msg_repeat = False\<rparr>"
  shows "\<exists>h. hears (irda_decode dbg) irda_alloc_decoder
      ((True, idle) # demodulated (irda_send m (int (Suc k))))
      (first # replicate k (first\<lparr>msg_repeat := True\<rparr>)) h"
  using samsung_roundtrip [of m dbg idle k] assms by (simp add: samsung_received_def)

theorem irda_samsung_send_receive_witness:
  "\<exists>h. hears (irda_decode True) irda_alloc_decoder
      ((True, 5000) # demodulated (irda_send
        \<lparr>msg_protocol = IrdaProtocolSamsung32, msg_address = 7, msg_command = 0x102, msg_repeat = False\<rparr>
        (int (Suc 0))))
      [\<lparr>msg_protocol = IrdaProtocolSamsung32, msg_address = 7, msg_command = 2, msg_repeat = False\<rparr>] h"
  using irda_samsung_send_receive [OF refl refl, where dbg = True and idle = 5000 and
      addr = 7 and cmd = "0x102" and r = False and k = 0] by simp

text \<open>
  The receiver is memory safe and total. On every sequence of pulses with alternating levels
  (any sequence at all in a release build) the handler processes all of them: the duration
  buffer of six entries and the data bytes are never left, and no assertion or check fails.
\<close>

theorem irda_decode_never_faults:
  assumes "dbg \<longrightarrow> alternates False xs"
  shows "\<exists>os h. runE (irda_decode dbg) irda_alloc_decoder xs = Inr (os, h)"
  using irda_run_total [OF handler_inv_alloc assms] by blast

theorem irda_decode_never_faults_witness:
  "\<exists>os h. runE (irda_decode True) irda_alloc_decoder
     [(True, 100), (False, 9000), (True, 4500), (False, 0), (True, 0xFFFFFFFF)] = Inr (os, h)"
  by (rule irda_decode_never_faults) simp

text \<open>
  A received NEC message survives being sent again exactly if the high byte of its address
  is the complement of the low byte. The decoder accepts any 16-bit address, but the encoder
  sends the low byte and its complement only.
\<close>

theorem irda_nec_resend:
  fixes a :: u16 and c :: u8
  defines "m \<equiv> \<lparr>msg_protocol = IrdaProtocolNEC, msg_address = ucast a, msg_command = ucast c,
                 msg_repeat = False\<rparr>"
  shows "(\<exists>h. hears (irda_decode dbg) irda_alloc_decoder
            ((True, idle) # demodulated (irda_send m 1)) [m] h) \<longleftrightarrow>
         ucast (drop_bit 8 a) = NOT (ucast a :: u8)"
proof -
  from nec_roundtrip [of m dbg idle 0] obtain h
    where h: "hears (irda_decode dbg) irda_alloc_decoder
      ((True, idle) # demodulated (irda_send m 1)) [nec_received (ucast a) (ucast c)] h"
    by (auto simp: m_def)
  then have "(\<exists>h. hears (irda_decode dbg) irda_alloc_decoder
      ((True, idle) # demodulated (irda_send m 1)) [m] h) \<longleftrightarrow> nec_received (ucast a) (ucast c) = m"
    by (auto simp: hears_def)
  also have "\<dots> \<longleftrightarrow> msg_address (nec_received (ucast a) (ucast c)) = ucast a"
  proof -
    have "(ucast c :: u32) AND mask 8 = ucast c"
      by (rule bit_word_eqI) (auto simp: bit_simps dest: bit_imp_le_length)
    then show ?thesis by (simp add: nec_received_def m_def mask_eq_exp_minus_1)
  qed
  also have "\<dots> \<longleftrightarrow> ucast (drop_bit 8 a) = NOT (ucast a :: u8)"
  proof -
    have m8: "0xFF = (mask 8 :: u32)" by (simp add: mask_eq_exp_minus_1)
    have low: "(ucast (ucast a AND mask 8 :: u32) :: u8) = ucast a"
      by (rule bit_word_eqI) (auto simp: bit_simps)
    have "msg_address (nec_received (ucast a) (ucast c)) =
        ucast (u16_of_bytes (ucast a) (NOT (ucast a)))"
      unfolding nec_received_def nec_bytes_def Let_def irda_message.simps m8
      by (simp add: low u16_of_bytes_def)
    then show ?thesis by (auto simp: ucast_u16_u32_inj u16_of_bytes_eq_iff)
  qed
  finally show ?thesis .
qed

end
