(* ===== verification/PubSub.thy ===== *)
theory PubSub
  imports Prelude
begin

text \<open>
  Publish and subscribe, \<^verbatim>\<open>core/furi/pubsub.c\<close>. A publisher is a mutex and a list of
  subscriptions. The list is the M*LIB list of the code: a push puts the item where the
  iteration starts, so the head of the model's list is the latest subscription. An item is known
  by its address. The kernel's answers (was the mutex created, was it granted) are arguments of
  the operations; a callback is called by recording the call.
\<close>

section \<open>Types\<close>

type_synonym address = nat

record ('cb, 'ctx) pubsub_item =
  item_addr :: address
  item_cb :: 'cb
  item_ctx :: 'ctx

record ('cb, 'ctx) pubsub =
  items :: "('cb, 'ctx) pubsub_item list"

section \<open>Operations\<close>

definition init_pubsub :: "bool \<Rightarrow> ('cb, 'ctx) pubsub \<Rightarrow> bool \<times> ('cb, 'ctx) pubsub" where
  "init_pubsub created ps =
     (if \<not> created then (False, ps) else (True, ps\<lparr>items := []\<rparr>))"

definition delete_pubsub :: "bool \<Rightarrow> bool \<Rightarrow> ('cb, 'ctx) pubsub \<Rightarrow> bool \<times> ('cb, 'ctx) pubsub" where
  "delete_pubsub acquired deleted ps =
     (if acquired then (deleted, ps\<lparr>items := []\<rparr>) else (False, ps))"

definition subscribe_pubsub ::
    "bool \<Rightarrow> address \<Rightarrow> 'cb \<Rightarrow> 'ctx \<Rightarrow> ('cb, 'ctx) pubsub \<Rightarrow>
      address option \<times> ('cb, 'ctx) pubsub" where
  "subscribe_pubsub acquired addr cb ctx ps =
     (if acquired then
        (Some addr,
         ps\<lparr>items := \<lparr>item_addr = addr, item_cb = cb, item_ctx = ctx\<rparr> # items ps\<rparr>)
      else (None, ps))"

fun unsubscribe_loop ::
    "address \<Rightarrow> ('cb, 'ctx) pubsub_item list \<Rightarrow> bool \<times> ('cb, 'ctx) pubsub_item list" where
  "unsubscribe_loop a [] = (False, [])"
| "unsubscribe_loop a (i # is) =
     (if item_addr i = a then (True, is)
      else (case unsubscribe_loop a is of (r, is1) \<Rightarrow> (r, i # is1)))"

definition unsubscribe_pubsub ::
    "bool \<Rightarrow> address \<Rightarrow> ('cb, 'ctx) pubsub \<Rightarrow> bool \<times> ('cb, 'ctx) pubsub" where
  "unsubscribe_pubsub acquired a ps =
     (if acquired then
        (case unsubscribe_loop a (items ps) of (r, is) \<Rightarrow> (r, ps\<lparr>items := is\<rparr>))
      else (False, ps))"

text \<open>The calls made: the callback, the published argument and the subscriber's context.\<close>

definition notify_pubsub ::
    "bool \<Rightarrow> 'e \<Rightarrow> ('cb, 'ctx) pubsub \<Rightarrow> bool \<times> ('cb \<times> 'e \<times> 'ctx) list" where
  "notify_pubsub acquired arg ps =
     (if acquired then (True, map (\<lambda>i. (item_cb i, arg, item_ctx i)) (items ps))
      else (False, []))"

section \<open>Invariant: addresses are unique\<close>

definition pubsub_inv :: "('cb, 'ctx) pubsub \<Rightarrow> bool" where
  "pubsub_inv ps \<longleftrightarrow> distinct (map item_addr (items ps))"

definition subscribed :: "('cb, 'ctx) pubsub \<Rightarrow> address set" where
  "subscribed ps = item_addr ` set (items ps)"

lemma unsubscribe_loop_eq:
  "distinct (map item_addr is) \<Longrightarrow>
     unsubscribe_loop a is = (a \<in> item_addr ` set is, filter (\<lambda>i. item_addr i \<noteq> a) is)"
proof (induction "is")
  case Nil
  then show ?case by simp
next
  case (Cons i "is")
  show ?case
  proof (cases "item_addr i = a")
    case True
    with Cons.prems have "a \<notin> item_addr ` set is"
      by simp
    then have "\<forall>j\<in>set is. item_addr j \<noteq> a"
      by (metis rev_image_eqI)
    then have "filter (\<lambda>j. item_addr j \<noteq> a) is = is"
      by simp
    with True show ?thesis by auto
  next
    case False
    with Cons show ?thesis by auto
  qed
qed

lemma pubsub_inv_init [simp]: "pubsub_inv (snd (init_pubsub True ps))"
  by (simp add: init_pubsub_def pubsub_inv_def)

lemma pubsub_inv_subscribe:
  "pubsub_inv ps \<Longrightarrow> addr \<notin> subscribed ps \<Longrightarrow> pubsub_inv (snd (subscribe_pubsub acq addr cb ctx ps))"
  by (auto simp: subscribe_pubsub_def pubsub_inv_def subscribed_def)

lemma pubsub_inv_unsubscribe:
  "pubsub_inv ps \<Longrightarrow> pubsub_inv (snd (unsubscribe_pubsub acq a ps))"
  by (simp add: unsubscribe_pubsub_def pubsub_inv_def unsubscribe_loop_eq distinct_map_filter)

section \<open>The contract of an event bus\<close>

text \<open>
  What a client of the publisher relies on, whatever the implementation: subscriptions are a
  finite sequence of keys, each with a handler; publishing calls the handlers of exactly these;
  removing a key leaves the others alone.
\<close>

locale event_bus =
  fixes keys :: "'b \<Rightarrow> 'k list"
    and handler :: "'b \<Rightarrow> 'k \<Rightarrow> 'h"
    and add :: "'k \<Rightarrow> 'h \<Rightarrow> 'b \<Rightarrow> 'b"
    and remove :: "'k \<Rightarrow> 'b \<Rightarrow> 'b"
    and publish :: "'e \<Rightarrow> 'b \<Rightarrow> ('h \<times> 'e) list"
    and invar :: "'b \<Rightarrow> bool"
  assumes keys_distinct: "invar b \<Longrightarrow> distinct (keys b)"
    and publish_calls: "invar b \<Longrightarrow> publish e b = map (\<lambda>k. (handler b k, e)) (keys b)"
    and add_invar: "invar b \<Longrightarrow> k \<notin> set (keys b) \<Longrightarrow> invar (add k h b)"
    and keys_add: "invar b \<Longrightarrow> k \<notin> set (keys b) \<Longrightarrow> keys (add k h b) = k # keys b"
    and handler_add: "invar b \<Longrightarrow> k \<notin> set (keys b) \<Longrightarrow>
      handler (add k h b) j = (if j = k then h else handler b j)"
    and remove_invar: "invar b \<Longrightarrow> invar (remove k b)"
    and keys_remove: "invar b \<Longrightarrow> keys (remove k b) = filter (\<lambda>j. j \<noteq> k) (keys b)"
    and handler_remove: "invar b \<Longrightarrow> j \<noteq> k \<Longrightarrow> handler (remove k b) j = handler b j"
begin

text \<open>Every subscriber is called once per event.\<close>

lemma publish_length: "invar b \<Longrightarrow> length (publish e b) = length (keys b)"
  by (simp add: publish_calls)

lemma publish_add:
  assumes "invar b" and "k \<notin> set (keys b)"
  shows "publish e (add k h b) = (h, e) # publish e b"
proof -
  have "map (\<lambda>j. (handler (add k h b) j, e)) (keys b) = map (\<lambda>j. (handler b j, e)) (keys b)"
    using assms by (intro map_cong) (auto simp: handler_add)
  with assms show ?thesis
    by (simp add: publish_calls [OF add_invar] publish_calls keys_add handler_add)
qed

lemma publish_remove:
  assumes "invar b"
  shows "publish e (remove k b) = map (\<lambda>j. (handler b j, e)) (filter (\<lambda>j. j \<noteq> k) (keys b))"
  using assms
  by (auto simp: publish_calls [OF remove_invar] keys_remove handler_remove)

text \<open>Adding and removing a key is the identity on what is published.\<close>

lemma publish_add_remove:
  assumes "invar b" and "k \<notin> set (keys b)"
  shows "publish e (remove k (add k h b)) = publish e b"
proof -
  have inv: "invar (add k h b)" using assms by (rule add_invar)
  have "filter (\<lambda>j. j \<noteq> k) (keys (add k h b)) = keys b"
    using assms by (auto simp: keys_add intro: filter_True)
  moreover have "map (\<lambda>j. (handler (add k h b) j, e)) (keys b) = map (\<lambda>j. (handler b j, e)) (keys b)"
    using assms by (intro map_cong) (auto simp: handler_add)
  ultimately show ?thesis
    using assms by (simp add: publish_remove [OF inv] publish_calls)
qed

text \<open>
  A sequence of events reaches the handler of a key as the same sequence: nothing is lost,
  duplicated or reordered.
\<close>

lemma events_in_order:
  assumes "invar b" and "k \<in> set (keys b)" and "\<And>j. j \<in> set (keys b) \<Longrightarrow> handler b j = handler b k \<Longrightarrow> j = k"
  shows "map snd (filter (\<lambda>(h, _). h = handler b k) (concat (map (\<lambda>e. publish e b) es))) = es"
proof -
  have one: "filter (\<lambda>(h, _). h = handler b k) (publish e b) = [(handler b k, e)]" for e
  proof -
    have "filter (\<lambda>(h, _). h = handler b k) (publish e b) =
        map (\<lambda>j. (handler b j, e)) (filter (\<lambda>j. handler b j = handler b k) (keys b))"
      using assms(1) by (simp add: publish_calls filter_map comp_def)
    also have "filter (\<lambda>j. handler b j = handler b k) (keys b) = filter (\<lambda>j. j = k) (keys b)"
      using assms(3) by (intro filter_cong) auto
    also have "\<dots> = [k]"
      using assms(1,2) by (simp add: keys_distinct filter_key_single)
    finally show ?thesis by simp
  qed
  show ?thesis by (induction es) (simp_all add: one)
qed

end

section \<open>The publisher of the code is an event bus\<close>

definition bus_handler :: "('cb, 'ctx) pubsub \<Rightarrow> address \<Rightarrow> 'cb \<times> 'ctx" where
  "bus_handler ps a =
     (case find (\<lambda>i. item_addr i = a) (items ps) of
        Some i \<Rightarrow> (item_cb i, item_ctx i) | None \<Rightarrow> undefined)"

lemma bus_handler_item:
  "pubsub_inv ps \<Longrightarrow> i \<in> set (items ps) \<Longrightarrow> bus_handler ps (item_addr i) = (item_cb i, item_ctx i)"
  by (simp add: bus_handler_def pubsub_inv_def find_distinct_key)

definition bus_add where
  "bus_add a h ps = snd (subscribe_pubsub True a (fst h) (snd h) ps)"

definition bus_remove where
  "bus_remove a ps = snd (unsubscribe_pubsub True a ps)"

definition bus_publish where
  "bus_publish e ps = map (\<lambda>(cb, arg, ctx). ((cb, ctx), arg)) (snd (notify_pubsub True e ps))"

lemma items_bus_remove:
  "pubsub_inv ps \<Longrightarrow> items (bus_remove a ps) = filter (\<lambda>i. item_addr i \<noteq> a) (items ps)"
  by (simp add: bus_remove_def unsubscribe_pubsub_def unsubscribe_loop_eq pubsub_inv_def)

lemma items_bus_add:
  "items (bus_add a h ps) = \<lparr>item_addr = a, item_cb = fst h, item_ctx = snd h\<rparr> # items ps"
  by (simp add: bus_add_def subscribe_pubsub_def)

lemma find_filter_other:
  "j \<noteq> k \<Longrightarrow> find (\<lambda>i. f i = j) (filter (\<lambda>i. f i \<noteq> k) xs) = find (\<lambda>i. f i = j) xs"
  by (induction xs) auto

interpretation bus: event_bus
  "\<lambda>ps. map item_addr (items ps)" bus_handler bus_add bus_remove bus_publish pubsub_inv
proof unfold_locales
  fix ps :: "('a, 'b) pubsub"
  show "pubsub_inv ps \<Longrightarrow> distinct (map item_addr (items ps))"
    by (simp add: pubsub_inv_def)
next
  fix ps :: "('a, 'b) pubsub" and e :: 'c
  show "pubsub_inv ps \<Longrightarrow> bus_publish e ps = map (\<lambda>k. (bus_handler ps k, e)) (map item_addr (items ps))"
    by (simp add: bus_publish_def notify_pubsub_def bus_handler_item)
next
  fix ps :: "('a, 'b) pubsub" and k h
  show "pubsub_inv ps \<Longrightarrow> k \<notin> set (map item_addr (items ps)) \<Longrightarrow> pubsub_inv (bus_add k h ps)"
    by (simp add: bus_add_def pubsub_inv_subscribe subscribed_def)
next
  fix ps :: "('a, 'b) pubsub" and k h
  show "map item_addr (items (bus_add k h ps)) = k # map item_addr (items ps)"
    by (simp add: items_bus_add)
next
  fix ps :: "('a, 'b) pubsub" and k h j
  show "bus_handler (bus_add k h ps) j = (if j = k then h else bus_handler ps j)"
    by (auto simp: items_bus_add bus_handler_def)
next
  fix ps :: "('a, 'b) pubsub" and k
  show "pubsub_inv ps \<Longrightarrow> pubsub_inv (bus_remove k ps)"
    by (simp add: bus_remove_def pubsub_inv_unsubscribe)
next
  fix ps :: "('a, 'b) pubsub" and k
  show "pubsub_inv ps \<Longrightarrow>
      map item_addr (items (bus_remove k ps)) = filter (\<lambda>j. j \<noteq> k) (map item_addr (items ps))"
    by (simp add: items_bus_remove filter_map comp_def)
next
  fix ps :: "('a, 'b) pubsub" and j k
  show "pubsub_inv ps \<Longrightarrow> j \<noteq> k \<Longrightarrow> bus_handler (bus_remove k ps) j = bus_handler ps j"
    by (simp add: items_bus_remove bus_handler_def find_filter_other)
qed

section \<open>Histories of a publisher\<close>

datatype ('cb, 'ctx, 'e) bus_event =
    Subscribe address 'cb 'ctx
  | Unsubscribe address
  | Publish 'e

fun pubsub_step ::
    "('cb, 'ctx) pubsub \<Rightarrow> ('cb, 'ctx, 'e) bus_event \<Rightarrow>
      ('cb \<times> 'e \<times> 'ctx) list \<times> ('cb, 'ctx) pubsub" where
  "pubsub_step ps (Subscribe a cb ctx) = ([], snd (subscribe_pubsub True a cb ctx ps))"
| "pubsub_step ps (Unsubscribe a) = ([], snd (unsubscribe_pubsub True a ps))"
| "pubsub_step ps (Publish e) = (snd (notify_pubsub True e ps), ps)"

fun pubsub_run ::
    "('cb, 'ctx) pubsub \<Rightarrow> ('cb, 'ctx, 'e) bus_event list \<Rightarrow>
      ('cb \<times> 'e \<times> 'ctx) list \<times> ('cb, 'ctx) pubsub" where
  "pubsub_run ps [] = ([], ps)"
| "pubsub_run ps (x # xs) =
     (case pubsub_step ps x of (cs, ps1) \<Rightarrow>
        case pubsub_run ps1 xs of (cs1, ps2) \<Rightarrow> (cs @ cs1, ps2))"

text \<open>The heap never hands out the address of a live item.\<close>

fun fresh_history :: "address set \<Rightarrow> ('cb, 'ctx, 'e) bus_event list \<Rightarrow> bool" where
  "fresh_history live [] = True"
| "fresh_history live (Subscribe a cb ctx # xs) = (a \<notin> live \<and> fresh_history (insert a live) xs)"
| "fresh_history live (Unsubscribe a # xs) = fresh_history (live - {a}) xs"
| "fresh_history live (Publish e # xs) = fresh_history live xs"

text \<open>
  The specification: what a callback with a given context is told. \<open>S\<close> holds its live
  subscriptions; each published event reaches it once per live subscription.
\<close>

fun told :: "'cb \<Rightarrow> 'ctx \<Rightarrow> address set \<Rightarrow> ('cb, 'ctx, 'e) bus_event list \<Rightarrow> 'e list" where
  "told cb ctx S [] = []"
| "told cb ctx S (Subscribe a cb1 ctx1 # xs) =
     told cb ctx (if cb1 = cb \<and> ctx1 = ctx then insert a S else S) xs"
| "told cb ctx S (Unsubscribe a # xs) = told cb ctx (S - {a}) xs"
| "told cb ctx S (Publish e # xs) = replicate (card S) e @ told cb ctx S xs"

definition calls_of :: "'cb \<Rightarrow> 'ctx \<Rightarrow> ('cb \<times> 'e \<times> 'ctx) list \<Rightarrow> 'e list" where
  "calls_of cb ctx cs = map (\<lambda>(_, e, _). e) (filter (\<lambda>(cb1, _, ctx1). cb1 = cb \<and> ctx1 = ctx) cs)"

definition addrs_of :: "'cb \<Rightarrow> 'ctx \<Rightarrow> ('cb, 'ctx) pubsub \<Rightarrow> address set" where
  "addrs_of cb ctx ps = item_addr ` {i \<in> set (items ps). item_cb i = cb \<and> item_ctx i = ctx}"

lemma calls_of_append [simp]: "calls_of cb ctx (xs @ ys) = calls_of cb ctx xs @ calls_of cb ctx ys"
  by (simp add: calls_of_def)

lemma calls_of_Nil [simp]: "calls_of cb ctx [] = []"
  by (simp add: calls_of_def)

lemma addrs_of_subscribed: "addrs_of cb ctx ps \<subseteq> subscribed ps"
  by (auto simp: addrs_of_def subscribed_def)

lemma card_addrs_of:
  assumes "pubsub_inv ps"
  shows "card (addrs_of cb ctx ps) =
    length (filter (\<lambda>i. item_cb i = cb \<and> item_ctx i = ctx) (items ps))"
proof -
  let ?is = "filter (\<lambda>i. item_cb i = cb \<and> item_ctx i = ctx) (items ps)"
  have "distinct (map item_addr ?is)"
    using assms by (simp add: pubsub_inv_def distinct_map_filter)
  then have "card (set (map item_addr ?is)) = length (map item_addr ?is)"
    by (rule distinct_card)
  then show ?thesis by (simp add: addrs_of_def)
qed

lemma calls_of_notify:
  "pubsub_inv ps \<Longrightarrow> calls_of cb ctx (snd (notify_pubsub True e ps)) = replicate (card (addrs_of cb ctx ps)) e"
  by (simp add: calls_of_def notify_pubsub_def card_addrs_of filter_map comp_def map_replicate_const)

lemma subscribed_step:
  "subscribed (bus_add a (cb, ctx) ps) = insert a (subscribed ps)"
  "pubsub_inv ps \<Longrightarrow> subscribed (bus_remove a ps) = subscribed ps - {a}"
  by (auto simp: subscribed_def items_bus_add items_bus_remove)

lemma in_addrs_of:
  "x \<in> addrs_of cb ctx ps \<longleftrightarrow>
     (\<exists>i\<in>set (items ps). item_addr i = x \<and> item_cb i = cb \<and> item_ctx i = ctx)"
  by (auto simp: addrs_of_def)

lemma addrs_of_step:
  "addrs_of cb ctx (bus_add a (cb1, ctx1) ps) =
     (if cb1 = cb \<and> ctx1 = ctx then insert a (addrs_of cb ctx ps) else addrs_of cb ctx ps)"
  "pubsub_inv ps \<Longrightarrow> addrs_of cb ctx (bus_remove a ps) = addrs_of cb ctx ps - {a}"
  by (auto simp: set_eq_iff in_addrs_of items_bus_add items_bus_remove)

lemma pubsub_step_bus:
  "pubsub_step ps (Subscribe a cb ctx) = ([], bus_add a (cb, ctx) ps)"
  "pubsub_step ps (Unsubscribe a) = ([], bus_remove a ps)"
  by (simp_all add: bus_add_def bus_remove_def)

lemma pubsub_run_told:
  "pubsub_inv ps \<Longrightarrow> fresh_history (subscribed ps) xs \<Longrightarrow>
     calls_of cb ctx (fst (pubsub_run ps xs)) = told cb ctx (addrs_of cb ctx ps) xs"
proof (induction xs arbitrary: ps)
  case Nil
  then show ?case by simp
next
  case (Cons x xs)
  note IH = Cons.IH [of "snd (pubsub_step ps x)"]
  show ?case
  proof (cases x)
    case (Subscribe a cb1 ctx1)
    with Cons.prems have "pubsub_inv (bus_add a (cb1, ctx1) ps)"
      by (intro bus.add_invar) (auto simp: subscribed_def)
    with Cons.prems IH Subscribe show ?thesis
      by (simp add: pubsub_step_bus subscribed_step addrs_of_step split: prod.split
               del: pubsub_step.simps)
        (metis fst_conv)?
  next
    case (Unsubscribe a)
    with Cons.prems bus.remove_invar [of ps a] IH show ?thesis
      by (simp add: pubsub_step_bus subscribed_step addrs_of_step split: prod.split
               del: pubsub_step.simps)
        (metis fst_conv)?
  next
    case (Publish e)
    with Cons.prems IH show ?thesis
      by (simp add: calls_of_notify split: prod.split) (metis fst_conv)?
  qed
qed

section \<open>Properties\<close>

text \<open>
  C6. Delivery. Take any history of subscriptions, unsubscriptions and notifications of a
  publisher that starts empty. A callback is told exactly the events published while it was
  subscribed, once for each of its live subscriptions, in the order they were published.
\<close>

theorem pubsub_delivers:
  assumes "fresh_history {} xs"
  shows "calls_of cb ctx (fst (pubsub_run (snd (init_pubsub True ps)) xs)) = told cb ctx {} xs"
proof -
  let ?ps = "snd (init_pubsub True ps)"
  have "subscribed ?ps = {}" "addrs_of cb ctx ?ps = {}"
    by (simp_all add: init_pubsub_def subscribed_def addrs_of_def)
  with assms pubsub_run_told [of ?ps xs cb ctx] show ?thesis by simp
qed

theorem pubsub_delivers_witness:
  "calls_of ''cb'' (1 :: nat)
     (fst (pubsub_run (snd (init_pubsub True \<lparr>items = []\<rparr>))
        [Publish (0 :: nat), Subscribe 8 ''cb'' 1, Publish 5, Subscribe 16 ''cb'' 2, Publish 6,
         Unsubscribe 8, Publish 7])) = [5, 6]"
  by (subst pubsub_delivers) simp_all

text \<open>
  Subscribing and then unsubscribing with the returned handle succeeds and restores the
  publisher; in between, exactly one more call is made per event, before all others.
\<close>

theorem pubsub_subscribe_unsubscribe:
  assumes inv: "pubsub_inv ps" and fresh: "a \<notin> subscribed ps"
    and sub: "subscribe_pubsub acq a cb ctx ps = (Some h, ps1)"
  shows "unsubscribe_pubsub True h ps1 = (True, ps) \<and>
         notify_pubsub True e ps1 = (True, (cb, e, ctx) # snd (notify_pubsub True e ps))"
proof
  from sub have acq: "acq" and h: "h = a" and ps1: "ps1 = bus_add a (cb, ctx) ps"
    by (auto simp: subscribe_pubsub_def bus_add_def split: if_splits)
  have "unsubscribe_loop h (items ps1) = (True, items ps)"
    by (simp add: ps1 h items_bus_add)
  then show "unsubscribe_pubsub True h ps1 = (True, ps)"
    by (simp add: unsubscribe_pubsub_def ps1 bus_add_def subscribe_pubsub_def)
  show "notify_pubsub True e ps1 = (True, (cb, e, ctx) # snd (notify_pubsub True e ps))"
    by (simp add: notify_pubsub_def ps1 items_bus_add)
qed

theorem pubsub_subscribe_unsubscribe_witness:
  "unsubscribe_pubsub True 8
     \<lparr>items = [\<lparr>item_addr = 8, item_cb = ''a'', item_ctx = 1 :: nat\<rparr>,
               \<lparr>item_addr = 4, item_cb = ''b'', item_ctx = 2\<rparr>]\<rparr> =
   (True, \<lparr>items = [\<lparr>item_addr = 4, item_cb = ''b'', item_ctx = 2\<rparr>]\<rparr>)"
  by (rule pubsub_subscribe_unsubscribe [where acq = True and a = 8 and cb = "''a''" and ctx = 1,
        THEN conjunct1])
    (simp_all add: pubsub_inv_def subscribed_def subscribe_pubsub_def)

text \<open>
  Unsubscribing reports whether the handle was live and removes exactly it; a second
  unsubscription of the same handle returns false and changes nothing.
\<close>

theorem pubsub_unsubscribe_once:
  assumes "pubsub_inv ps" and "unsubscribe_pubsub True h ps = (r, ps1)"
  shows "(r \<longleftrightarrow> h \<in> subscribed ps) \<and> subscribed ps1 = subscribed ps - {h} \<and>
         unsubscribe_pubsub True h ps1 = (False, ps1)"
proof (intro conjI)
  from assms have r: "r = (h \<in> subscribed ps)" and ps1: "ps1 = bus_remove h ps"
    by (auto simp: unsubscribe_pubsub_def unsubscribe_loop_eq pubsub_inv_def subscribed_def
        bus_remove_def)
  show "r \<longleftrightarrow> h \<in> subscribed ps" by (rule r)
  have inv1: "pubsub_inv ps1" using assms(1) by (simp add: ps1 bus.remove_invar)
  show sub1: "subscribed ps1 = subscribed ps - {h}"
    using assms(1) by (simp add: ps1 subscribed_step)
  have "unsubscribe_loop h (items ps1) = (False, filter (\<lambda>i. item_addr i \<noteq> h) (items ps1))"
    using inv1 sub1 by (simp add: unsubscribe_loop_eq pubsub_inv_def subscribed_def)
  also have "filter (\<lambda>i. item_addr i \<noteq> h) (items ps1) = items ps1"
    using assms(1) by (simp add: ps1 items_bus_remove)
  finally show "unsubscribe_pubsub True h ps1 = (False, ps1)"
    by (simp add: unsubscribe_pubsub_def)
qed

theorem pubsub_unsubscribe_once_witness:
  "unsubscribe_pubsub True 8 \<lparr>items = [\<lparr>item_addr = 4, item_cb = ''b'', item_ctx = 2 :: nat\<rparr>]\<rparr> =
     (False, \<lparr>items = [\<lparr>item_addr = 4, item_cb = ''b'', item_ctx = 2\<rparr>]\<rparr>)"
  by (rule pubsub_unsubscribe_once [where r = True and
        ps = "\<lparr>items = [\<lparr>item_addr = 4, item_cb = ''b'', item_ctx = 2\<rparr>,
                        \<lparr>item_addr = 8, item_cb = ''c'', item_ctx = 3\<rparr>]\<rparr>",
        THEN conjunct2, THEN conjunct2])
    (simp_all add: pubsub_inv_def unsubscribe_pubsub_def)

end
