(* ===== verification/FuriRecord.thy ===== *)
theory FuriRecord
  imports Prelude
begin

text \<open>
  Records, \<^verbatim>\<open>core/furi/record.c\<close>: named pointers that a thread publishes and others open, waiting
  until they appear. The critical sections under the records mutex are functions on the record
  table and on the thread flags; what happens between them, in particular the window between
  registering as a holder and looking at the owner, is a step relation over all threads.

  Names are strings, thread ids and data pointers numbers; \<open>acq\<close> and \<open>rel\<close> are the kernel's
  answers to acquiring and releasing the mutex; \<open>dbg\<close> is the build.
\<close>

section \<open>Types\<close>

type_synonym thread = nat
type_synonym pointer = nat

record furi_record =
  rec_data :: "pointer option"
  rec_owner :: "thread option"
  rec_holders :: "thread set"

type_synonym record_table = "string \<Rightarrow> furi_record option"

text \<open>
  \<^verbatim>\<open>furi_record_data\<close> is null until \<^verbatim>\<open>furi_record_init\<close> ran. \<open>flags\<close> tells of which threads
  the flag \<^verbatim>\<open>FURI_RECORD_FLAG_UPDATED\<close> is pending.
\<close>

record record_state =
  table :: "record_table option"
  flags :: "thread set"

section \<open>Operations\<close>

definition furi_record_init :: "bool \<Rightarrow> record_state \<Rightarrow> record_state res" where
  "furi_record_init created st = furi_check created (Inr (st\<lparr>table := Some (\<lambda>_. None)\<rparr>))"

definition with_table :: "bool \<Rightarrow> record_state \<Rightarrow> (record_table \<Rightarrow> 'a res) \<Rightarrow> 'a res" where
  "with_table dbg st k =
     furi_assert dbg (table st \<noteq> None)
       (case table st of None \<Rightarrow> Inl Null_Pointer | Some m \<Rightarrow> k m)"

definition new_record :: furi_record where
  "new_record = \<lparr>rec_data = None, rec_owner = None, rec_holders = {}\<rparr>"

definition furi_record_get_or_create :: "string \<Rightarrow> record_table \<Rightarrow> furi_record \<times> record_table" where
  "furi_record_get_or_create name m =
     (case m name of
        Some r \<Rightarrow> (r, m)
      | None \<Rightarrow> (new_record, m(name \<mapsto> new_record)))"

definition furi_record_create ::
    "bool \<Rightarrow> bool \<Rightarrow> bool \<Rightarrow> thread \<Rightarrow> string \<Rightarrow> pointer \<Rightarrow> record_state \<Rightarrow> record_state res" where
  "furi_record_create dbg acq rel t name p st =
     with_table dbg st (\<lambda>m0.
       furi_check acq
         (case furi_record_get_or_create name m0 of (r, m) \<Rightarrow>
            let r1 = r\<lparr>rec_data := Some p, rec_owner := Some t\<rparr>;
                st1 = st\<lparr>table := Some (m(name \<mapsto> r1)), flags := flags st \<union> rec_holders r1\<rparr>
            in furi_check rel (Inr st1)))"

definition furi_record_destroy ::
    "bool \<Rightarrow> bool \<Rightarrow> bool \<Rightarrow> thread \<Rightarrow> string \<Rightarrow> record_state \<Rightarrow> (bool \<times> record_state) res" where
  "furi_record_destroy dbg acq rel t name st =
     with_table dbg st (\<lambda>m.
       furi_check acq
         (let (destroyed, st1) =
            (case m name of
               None \<Rightarrow> (False, st)
             | Some r \<Rightarrow>
                 if rec_owner r = Some t \<and> rec_holders r = {}
                 then (True, st\<lparr>table := Some (m(name := None))\<rparr>)
                 else (False, st))
          in furi_check rel (Inr (destroyed, st1))))"

text \<open>One turn of the loop of \<^verbatim>\<open>furi_record_open\<close>: the critical section.\<close>

definition furi_record_register ::
    "bool \<Rightarrow> bool \<Rightarrow> bool \<Rightarrow> thread \<Rightarrow> string \<Rightarrow> record_state \<Rightarrow> record_state res" where
  "furi_record_register dbg acq rel t name st =
     with_table dbg st (\<lambda>m0.
       furi_check acq
         (case furi_record_get_or_create name m0 of (r, m) \<Rightarrow>
            furi_check rel
              (Inr (st\<lparr>table := Some (m(name \<mapsto> r\<lparr>rec_holders := insert t (rec_holders r)\<rparr>))\<rparr>))))"

text \<open>
  The test after it, made without the mutex: the data if the owner has arrived, \<open>None\<close> if the
  thread has to wait for the flag.
\<close>

definition furi_record_arrived :: "string \<Rightarrow> record_state \<Rightarrow> pointer option option res" where
  "furi_record_arrived name st =
     (case table st of
        None \<Rightarrow> Inl Null_Pointer
      | Some m \<Rightarrow>
          (case m name of
             None \<Rightarrow> Inl Null_Pointer
           | Some r \<Rightarrow> Inr (if rec_owner r \<noteq> None then Some (rec_data r) else None)))"

definition furi_record_close ::
    "bool \<Rightarrow> bool \<Rightarrow> bool \<Rightarrow> thread \<Rightarrow> string \<Rightarrow> record_state \<Rightarrow> record_state res" where
  "furi_record_close dbg acq rel t name st =
     with_table dbg st (\<lambda>m.
       furi_check acq
         (case m name of
            None \<Rightarrow> Inl Null_Pointer
          | Some r \<Rightarrow>
              furi_check rel
                (Inr (st\<lparr>table := Some (m(name \<mapsto> r\<lparr>rec_holders := rec_holders r - {t}\<rparr>))\<rparr>))))"

section \<open>The threads\<close>

text \<open>
  Where a thread is: outside of the record functions, before the critical section of
  \<^verbatim>\<open>furi_record_open\<close>, between it and the test of the owner, or in \<^verbatim>\<open>osThreadFlagsWait\<close>.
\<close>

datatype record_pc = Idle | Registering string | Checking string | Waiting string

record record_system =
  shared :: record_state
  pc :: "thread \<Rightarrow> record_pc"

datatype record_event =
    Create thread string pointer
  | Destroy thread string bool
  | Open thread string
  | Register thread string
  | Wait thread string
  | Wake thread string
  | Opened thread string "pointer option"
  | Close thread string
  | Other_Set thread
  | Other_Clear thread

text \<open>
  The mutex is granted and released without error; the flag bit is also used by other parts of
  the firmware, which may set it at any time (\<open>Other_Set\<close>) and clear it while the thread is not
  in \<^verbatim>\<open>furi_record_open\<close> (\<open>Other_Clear\<close>).
\<close>

inductive record_step :: "bool \<Rightarrow> record_system \<Rightarrow> record_event \<Rightarrow> record_system \<Rightarrow> bool"
  for dbg where
  create: "pc s t = Idle \<Longrightarrow> furi_record_create dbg True True t n p (shared s) = Inr sh \<Longrightarrow>
     record_step dbg s (Create t n p) (s\<lparr>shared := sh\<rparr>)"
| destroy: "pc s t = Idle \<Longrightarrow> furi_record_destroy dbg True True t n (shared s) = Inr (b, sh) \<Longrightarrow>
     record_step dbg s (Destroy t n b) (s\<lparr>shared := sh\<rparr>)"
| open_call: "pc s t = Idle \<Longrightarrow>
     record_step dbg s (Open t n) (s\<lparr>pc := (pc s)(t := Registering n)\<rparr>)"
| register: "pc s t = Registering n \<Longrightarrow>
     furi_record_register dbg True True t n (shared s) = Inr sh \<Longrightarrow>
     record_step dbg s (Register t n) (s\<lparr>shared := sh, pc := (pc s)(t := Checking n)\<rparr>)"
| wait: "pc s t = Checking n \<Longrightarrow> furi_record_arrived n (shared s) = Inr None \<Longrightarrow>
     record_step dbg s (Wait t n) (s\<lparr>pc := (pc s)(t := Waiting n)\<rparr>)"
| wake: "pc s t = Waiting n \<Longrightarrow> t \<in> flags (shared s) \<Longrightarrow>
     record_step dbg s (Wake t n)
       (s\<lparr>shared := (shared s)\<lparr>flags := flags (shared s) - {t}\<rparr>, pc := (pc s)(t := Registering n)\<rparr>)"
| opened: "pc s t = Checking n \<Longrightarrow> furi_record_arrived n (shared s) = Inr (Some p) \<Longrightarrow>
     record_step dbg s (Opened t n p) (s\<lparr>pc := (pc s)(t := Idle)\<rparr>)"
| close: "pc s t = Idle \<Longrightarrow> furi_record_close dbg True True t n (shared s) = Inr sh \<Longrightarrow>
     record_step dbg s (Close t n) (s\<lparr>shared := sh\<rparr>)"
| other_set: "record_step dbg s (Other_Set t)
     (s\<lparr>shared := (shared s)\<lparr>flags := insert t (flags (shared s))\<rparr>\<rparr>)"
| other_clear: "pc s t = Idle \<Longrightarrow>
     record_step dbg s (Other_Clear t) (s\<lparr>shared := (shared s)\<lparr>flags := flags (shared s) - {t}\<rparr>\<rparr>)"

inductive record_run ::
    "bool \<Rightarrow> record_system \<Rightarrow> record_event list \<Rightarrow> record_system \<Rightarrow> bool" for dbg where
  run_nil: "record_run dbg s [] s"
| run_snoc: "record_run dbg s es s1 \<Longrightarrow> record_step dbg s1 e s2 \<Longrightarrow> record_run dbg s (es @ [e]) s2"

definition record_start :: "record_system \<Rightarrow> bool" where
  "record_start s \<longleftrightarrow> table (shared s) = Some (\<lambda>_. None) \<and> (\<forall>t. pc s t = Idle)"


section \<open>What the operations do to the table\<close>

definition holders :: "record_table \<Rightarrow> string \<Rightarrow> thread set" where
  "holders m n = (case m n of None \<Rightarrow> {} | Some r \<Rightarrow> rec_holders r)"

definition owner_of :: "record_table \<Rightarrow> string \<Rightarrow> thread option" where
  "owner_of m n = Option.bind (m n) rec_owner"

definition data_of :: "record_table \<Rightarrow> string \<Rightarrow> pointer option" where
  "data_of m n = Option.bind (m n) rec_data"

lemma holders_upd [simp]:
  "holders (m(n := x)) k = (if k = n then (case x of None \<Rightarrow> {} | Some r \<Rightarrow> rec_holders r) else holders m k)"
  by (simp add: holders_def)

lemma owner_of_upd [simp]:
  "owner_of (m(n := x)) k = (if k = n then Option.bind x rec_owner else owner_of m k)"
  by (simp add: owner_of_def)

lemma data_of_upd [simp]:
  "data_of (m(n := x)) k = (if k = n then Option.bind x rec_data else data_of m k)"
  by (simp add: data_of_def)

lemma furi_record_fields:
  "r\<lparr>rec_holders := H\<rparr> = \<lparr>rec_data = rec_data r, rec_owner = rec_owner r, rec_holders = H\<rparr>"
  "r\<lparr>rec_data := d, rec_owner := w\<rparr> =
     \<lparr>rec_data = d, rec_owner = w, rec_holders = rec_holders r\<rparr>" for r :: furi_record
  by (cases r, simp)+

lemma furi_record_create_eq:
  "table st = Some m \<Longrightarrow> furi_record_create dbg True True t n p st =
     Inr (st\<lparr>table := Some (m(n \<mapsto> \<lparr>rec_data = Some p, rec_owner = Some t, rec_holders = holders m n\<rparr>)),
             flags := flags st \<union> holders m n\<rparr>)"
  by (auto simp: furi_record_create_def with_table_def furi_record_get_or_create_def Let_def
      holders_def new_record_def furi_record_fields split: option.split)

lemma furi_record_destroy_eq:
  "table st = Some m \<Longrightarrow> furi_record_destroy dbg True True t n st =
     (if owner_of m n = Some t \<and> holders m n = {} then Inr (True, st\<lparr>table := Some (m(n := None))\<rparr>)
      else Inr (False, st))"
  by (auto simp: furi_record_destroy_def with_table_def Let_def holders_def owner_of_def
      split: option.split)

lemma furi_record_register_eq:
  "table st = Some m \<Longrightarrow> furi_record_register dbg True True t n st =
     Inr (st\<lparr>table := Some (m(n \<mapsto> \<lparr>rec_data = data_of m n, rec_owner = owner_of m n,
             rec_holders = insert t (holders m n)\<rparr>))\<rparr>)"
  by (auto simp: furi_record_register_def with_table_def furi_record_get_or_create_def
      holders_def data_of_def owner_of_def new_record_def furi_record_fields split: option.split)

lemma furi_record_arrived_eq:
  "table st = Some m \<Longrightarrow> furi_record_arrived n st =
     (if m n = None then Inl Null_Pointer
      else Inr (if owner_of m n \<noteq> None then Some (data_of m n) else None))"
  by (auto simp: furi_record_arrived_def owner_of_def data_of_def split: option.split)

lemma furi_record_close_eq:
  "table st = Some m \<Longrightarrow> furi_record_close dbg True True t n st =
     (if m n = None then Inl Null_Pointer
      else Inr (st\<lparr>table := Some (m(n \<mapsto> \<lparr>rec_data = data_of m n, rec_owner = owner_of m n,
             rec_holders = holders m n - {t}\<rparr>))\<rparr>))"
  by (auto simp: furi_record_close_def with_table_def holders_def data_of_def owner_of_def
      furi_record_fields split: option.split)

lemmas furi_record_eqs =
  furi_record_create_eq furi_record_destroy_eq furi_record_register_eq furi_record_arrived_eq
  furi_record_close_eq

section \<open>The invariant of the system\<close>

text \<open>Who published the record last, and what, according to the events so far.\<close>

fun published_step :: "string \<Rightarrow> (thread \<times> pointer) option \<Rightarrow> record_event \<Rightarrow> (thread \<times> pointer) option" where
  "published_step n acc (Create t n1 p) = (if n1 = n then Some (t, p) else acc)"
| "published_step n acc (Destroy t n1 b) = (if n1 = n \<and> b then None else acc)"
| "published_step n acc _ = acc"

definition published :: "string \<Rightarrow> record_event list \<Rightarrow> (thread \<times> pointer) option" where
  "published n es = foldl (published_step n) None es"

lemma published_snoc [simp]: "published n (es @ [e]) = published_step n (published n es) e"
  by (simp add: published_def)

lemma published_Nil [simp]: "published n [] = None"
  by (simp add: published_def)

fun busy_with :: "record_pc \<Rightarrow> string option" where
  "busy_with (Checking n) = Some n"
| "busy_with (Waiting n) = Some n"
| "busy_with _ = None"

definition table_inv :: "record_event list \<Rightarrow> record_table \<Rightarrow> bool" where
  "table_inv es m \<longleftrightarrow> (\<forall>n. owner_of m n = map_option fst (published n es) \<and>
     (owner_of m n \<noteq> None \<longrightarrow> data_of m n = map_option snd (published n es)))"

definition holder_inv :: "(thread \<Rightarrow> record_pc) \<Rightarrow> record_table \<Rightarrow> bool" where
  "holder_inv pcs m \<longleftrightarrow> (\<forall>t n. busy_with (pcs t) = Some n \<longrightarrow> t \<in> holders m n)"

definition flag_inv :: "(thread \<Rightarrow> record_pc) \<Rightarrow> record_table \<Rightarrow> thread set \<Rightarrow> bool" where
  "flag_inv pcs m fs \<longleftrightarrow> (\<forall>t n. pcs t = Waiting n \<and> owner_of m n \<noteq> None \<longrightarrow> t \<in> fs)"

definition system_inv :: "record_event list \<Rightarrow> record_system \<Rightarrow> bool" where
  "system_inv es s \<longleftrightarrow>
     (\<exists>m. table (shared s) = Some m \<and> table_inv es m \<and> holder_inv (pc s) m \<and>
        flag_inv (pc s) m (flags (shared s)))"

lemma holders_Some: "t \<in> holders m n \<Longrightarrow> \<exists>r. m n = Some r"
  by (auto simp: holders_def split: option.splits)

lemma system_inv_step:
  assumes "system_inv es s" and "record_step dbg s e s'"
  shows "system_inv (es @ [e]) s'"
proof -
  from assms(1) obtain m where m: "table (shared s) = Some m"
    and inv: "table_inv es m" "holder_inv (pc s) m" "flag_inv (pc s) m (flags (shared s))"
    by (auto simp: system_inv_def)
  note defs = system_inv_def table_inv_def holder_inv_def flag_inv_def
  from assms(2) show ?thesis
  proof cases
    case (create t n p sh)
    with m have "sh = (shared s)\<lparr>table := Some (m(n \<mapsto> \<lparr>rec_data = Some p, rec_owner = Some t,
        rec_holders = holders m n\<rparr>)), flags := flags (shared s) \<union> holders m n\<rparr>"
      by (simp add: furi_record_create_eq)
    with create inv show ?thesis by (fastforce simp: defs)
  next
    case (destroy t n b sh)
    show ?thesis
    proof (cases "owner_of m n = Some t \<and> holders m n = {}")
      case True
      with destroy m have "b" "sh = (shared s)\<lparr>table := Some (m(n := None))\<rparr>"
        by (simp_all add: furi_record_destroy_eq)
      with destroy inv True show ?thesis by (auto simp: defs) (metis empty_iff)
    next
      case False
      with destroy m have "\<not> b" "sh = shared s"
        by (auto simp: furi_record_destroy_eq split: if_splits)
      with destroy inv m show ?thesis by (auto simp: defs)
    qed
  next
    case (register t n sh)
    with m have "sh = (shared s)\<lparr>table := Some (m(n \<mapsto> \<lparr>rec_data = data_of m n,
        rec_owner = owner_of m n, rec_holders = insert t (holders m n)\<rparr>))\<rparr>"
      by (simp add: furi_record_register_eq)
    with register inv show ?thesis by (auto simp: defs)
  next
    case (wait t n)
    with m inv show ?thesis
      by (auto simp: defs furi_record_arrived_eq split: if_splits)
  next
    case (close t n sh)
    with m have "sh = (shared s)\<lparr>table := Some (m(n \<mapsto> \<lparr>rec_data = data_of m n,
        rec_owner = owner_of m n, rec_holders = holders m n - {t}\<rparr>))\<rparr>"
      by (auto simp: furi_record_close_eq split: if_splits)
    with close inv show ?thesis by (auto simp: defs)
  qed (use m inv in \<open>auto simp: defs\<close>)
qed

lemma system_inv_start: "record_start s \<Longrightarrow> system_inv [] s"
  by (simp add: record_start_def system_inv_def table_inv_def holder_inv_def flag_inv_def
      owner_of_def)

lemma system_inv_run: "record_run dbg s es s' \<Longrightarrow> record_start s \<Longrightarrow> system_inv es s'"
  by (induction rule: record_run.induct) (auto intro: system_inv_start system_inv_step)


section \<open>Progress of a thread that opens a record\<close>

lemma record_run_cons:
  "record_run dbg s1 es s2 \<Longrightarrow> record_step dbg s e s1 \<Longrightarrow> record_run dbg s (e # es) s2"
proof (induction rule: record_run.induct)
  case (run_nil s1)
  from record_run.run_snoc [OF record_run.run_nil this] show ?case by simp
next
  case (run_snoc s1 es s2 e1 s3)
  from record_run.run_snoc [OF run_snoc.IH [OF run_snoc.prems] run_snoc.hyps(2)] show ?case by simp
qed

lemma opened_from_checking:
  assumes inv: "system_inv es s" and m: "table (shared s) = Some m"
    and pc: "pc s t = Checking n" and owner: "owner_of m n \<noteq> None"
  shows "record_run dbg s [Opened t n (map_option snd (published n es))] (s\<lparr>pc := (pc s)(t := Idle)\<rparr>)"
proof -
  from inv m pc owner have "t \<in> holders m n" and "data_of m n = map_option snd (published n es)"
    by (auto simp: system_inv_def holder_inv_def table_inv_def)
  then have "furi_record_arrived n (shared s) = Inr (Some (map_option snd (published n es)))"
    using m owner holders_Some by (fastforce simp: furi_record_arrived_eq)
  from record_step.opened [OF pc this] show ?thesis
    by (rule record_run_cons [OF run_nil])
qed

lemma opened_from_registering:
  assumes inv: "system_inv es s" and m: "table (shared s) = Some m"
    and pc: "pc s t = Registering n" and owner: "owner_of m n \<noteq> None"
  shows "\<exists>s'. record_run dbg s [Register t n, Opened t n (map_option snd (published n es))] s' \<and>
    pc s' t = Idle"
proof -
  define s1 where "s1 = s\<lparr>shared := (shared s)\<lparr>table := Some (m(n \<mapsto> \<lparr>rec_data = data_of m n,
      rec_owner = owner_of m n, rec_holders = insert t (holders m n)\<rparr>))\<rparr>,
      pc := (pc s)(t := Checking n)\<rparr>"
  have st: "record_step dbg s (Register t n) s1"
    unfolding s1_def by (rule record_step.register [OF pc furi_record_register_eq [OF m]])
  have "record_run dbg s1 [Opened t n (map_option snd (published n es))] (s1\<lparr>pc := (pc s1)(t := Idle)\<rparr>)"
    using opened_from_checking [OF system_inv_step [OF inv st], where t = t and n = n] owner
    by (simp add: s1_def)
  from record_run_cons [OF this st] show ?thesis by fastforce
qed

lemma opened_from_waiting:
  assumes inv: "system_inv es s" and m: "table (shared s) = Some m"
    and pc: "pc s t = Waiting n" and owner: "owner_of m n \<noteq> None"
  shows "\<exists>s'. record_run dbg s
    [Wake t n, Register t n, Opened t n (map_option snd (published n es))] s' \<and> pc s' t = Idle"
proof -
  define s1 where "s1 = s\<lparr>shared := (shared s)\<lparr>flags := flags (shared s) - {t}\<rparr>,
      pc := (pc s)(t := Registering n)\<rparr>"
  from inv m pc owner have "t \<in> flags (shared s)" by (auto simp: system_inv_def flag_inv_def)
  from record_step.wake [OF pc this] have st: "record_step dbg s (Wake t n) s1"
    unfolding s1_def .
  from opened_from_registering [OF system_inv_step [OF inv st], of m t n dbg] m owner
  obtain s2 where "record_run dbg s1 [Register t n, Opened t n (map_option snd (published n es))] s2"
    and "pc s2 t = Idle"
    by (auto simp: s1_def)
  with record_run_cons [OF _ st] show ?thesis by blast
qed

section \<open>A held record\<close>

lemma held_step:
  assumes "record_step dbg s e s'" and "table (shared s) = Some m" and "t \<in> holders m n"
    and "e \<noteq> Close t n"
  shows "\<exists>m'. table (shared s') = Some m' \<and> t \<in> holders m' n"
  using assms(1)
proof cases
  case (destroy t1 n1 b sh)
  with assms show ?thesis
    by (cases "owner_of m n1 = Some t1 \<and> holders m n1 = {}")
      (auto simp: furi_record_destroy_eq split: if_splits)
qed (use assms in \<open>auto simp: furi_record_eqs split: if_splits\<close>)

lemma held_run:
  "record_run dbg s es s' \<Longrightarrow> table (shared s) = Some m \<Longrightarrow> t \<in> holders m n \<Longrightarrow> Close t n \<notin> set es \<Longrightarrow>
     \<exists>m'. table (shared s') = Some m' \<and> t \<in> holders m' n"
proof (induction rule: record_run.induct)
  case (run_snoc s es s1 e s2)
  then obtain m1 where "table (shared s1) = Some m1" "t \<in> holders m1 n" by auto
  with held_step [OF run_snoc.hyps(2)] run_snoc.prems(3) show ?case by auto
qed auto


section \<open>Properties\<close>

text \<open>
  C3. What \<^verbatim>\<open>furi_record_open\<close> returns. In every run of any number of threads, a thread that
  returns from opening a name gets the pointer of the latest \<^verbatim>\<open>furi_record_create\<close> of that
  name, made before and not undone by a successful destroy; it is then a holder of the record.
\<close>

theorem furi_record_open_returns_published:
  assumes "record_start s" and "record_run dbg s (es @ [Opened t n p]) s'"
  shows "\<exists>t1 p1 m. published n es = Some (t1, p1) \<and> p = Some p1 \<and>
           table (shared s') = Some m \<and> t \<in> holders m n"
proof -
  from assms(2) obtain s1 where run: "record_run dbg s es s1"
    and st: "record_step dbg s1 (Opened t n p) s'"
    by (cases rule: record_run.cases) auto
  from system_inv_run [OF run assms(1)] obtain m where m: "table (shared s1) = Some m"
    and inv: "table_inv es m" "holder_inv (pc s1) m"
    by (auto simp: system_inv_def)
  from st show ?thesis
  proof cases
    case opened
    with m inv show ?thesis
      by (auto simp: furi_record_arrived_eq table_inv_def holder_inv_def split: if_splits)
  qed
qed

text \<open>A run in which a consumer waits, the provider arrives and the consumer gets the pointer.\<close>

definition demo_start :: record_system where
  "demo_start = \<lparr>shared = \<lparr>table = Some (\<lambda>_. None), flags = {}\<rparr>, pc = (\<lambda>_. Idle)\<rparr>"

definition demo_waiting :: record_system where
  "demo_waiting = \<lparr>shared = \<lparr>table = Some [''gui'' \<mapsto> \<lparr>rec_data = None, rec_owner = None, rec_holders = {1}\<rparr>],
     flags = {}\<rparr>, pc = (\<lambda>_. Idle)(1 := Waiting ''gui'')\<rparr>"

definition demo_published :: record_system where
  "demo_published = \<lparr>shared = \<lparr>table = Some [''gui'' \<mapsto> \<lparr>rec_data = Some 64, rec_owner = Some 2, rec_holders = {1}\<rparr>],
     flags = {1}\<rparr>, pc = (\<lambda>_. Idle)(1 := Waiting ''gui'')\<rparr>"

lemma record_start_demo: "record_start demo_start"
  by (simp add: record_start_def demo_start_def)

lemma demo_run_waiting:
  "record_run False demo_start [Open 1 ''gui'', Register 1 ''gui'', Wait 1 ''gui''] demo_waiting"
proof -
  let ?s1 = "demo_start\<lparr>pc := (pc demo_start)(1 := Registering ''gui'')\<rparr>"
  let ?s2 = "demo_waiting\<lparr>pc := (pc demo_waiting)(1 := Checking ''gui'')\<rparr>"
  have "record_step False demo_start (Open 1 ''gui'') ?s1"
    by (rule record_step.open_call) (simp add: demo_start_def)
  moreover have "record_step False ?s1 (Register 1 ''gui'') ?s2"
  proof -
    have "record_step False ?s1 (Register 1 ''gui'')
        (?s1\<lparr>shared := shared ?s2, pc := (pc ?s1)(1 := Checking ''gui'')\<rparr>)"
      by (rule record_step.register)
        (simp_all add: demo_start_def demo_waiting_def furi_record_register_eq data_of_def owner_of_def holders_def)
    then show ?thesis by (simp add: demo_start_def demo_waiting_def)
  qed
  moreover have "record_step False ?s2 (Wait 1 ''gui'') demo_waiting"
  proof -
    have "record_step False ?s2 (Wait 1 ''gui'') (?s2\<lparr>pc := (pc ?s2)(1 := Waiting ''gui'')\<rparr>)"
      by (rule record_step.wait)
        (simp_all add: demo_waiting_def furi_record_arrived_eq owner_of_def)
    then show ?thesis by (simp add: demo_waiting_def)
  qed
  ultimately show ?thesis
    by (blast intro: record_run_cons run_nil)
qed

lemma demo_run_published:
  "record_run False demo_start
     [Open 1 ''gui'', Register 1 ''gui'', Wait 1 ''gui'', Create 2 ''gui'' 64] demo_published"
proof -
  have "record_step False demo_waiting (Create 2 ''gui'' 64) (demo_waiting\<lparr>shared := shared demo_published\<rparr>)"
    by (rule record_step.create)
      (simp_all add: demo_waiting_def demo_published_def furi_record_create_eq holders_def)
  then have "record_step False demo_waiting (Create 2 ''gui'' 64) demo_published"
    by (simp add: demo_waiting_def demo_published_def)
  from run_snoc [OF demo_run_waiting this] show ?thesis by simp
qed

text \<open>
  C26. No lost wakeup, and progress. Whenever a thread is inside \<^verbatim>\<open>furi_record_open\<close> and the
  record has been published, however the steps of the threads interleaved (also when the record
  was published between the registration of the thread and its test of the owner), the thread
  returns with the published pointer in at most three steps of its own, waiting for nobody.
\<close>

theorem furi_record_open_progress:
  assumes "record_start s" and "record_run dbg s es s1"
    and "pc s1 t \<in> {Registering n, Checking n, Waiting n}" and "published n es = Some (t1, p)"
  shows "\<exists>es1 s2. record_run dbg s1 (es1 @ [Opened t n (Some p)]) s2 \<and> pc s2 t = Idle \<and>
           set es1 \<subseteq> {Wake t n, Register t n} \<and> length es1 \<le> 2"
proof -
  note inv = system_inv_run [OF assms(2,1)]
  from inv obtain m where m: "table (shared s1) = Some m" and tab: "table_inv es m"
    by (auto simp: system_inv_def)
  from tab assms(4) have owner: "owner_of m n \<noteq> None"
    by (simp add: table_inv_def)
  consider "pc s1 t = Registering n" | "pc s1 t = Checking n" | "pc s1 t = Waiting n"
    using assms(3) by blast
  then show ?thesis
  proof cases
    case 1
    from opened_from_registering [OF inv m 1 owner] assms(4) obtain s2
      where "record_run dbg s1 ([Register t n] @ [Opened t n (Some p)]) s2" "pc s2 t = Idle"
      by auto
    then show ?thesis by (intro exI [of _ "[Register t n]"] exI [of _ s2]) simp
  next
    case 2
    from opened_from_checking [OF inv m 2 owner] assms(4) show ?thesis
      by (intro exI [of _ "[]"] exI [of _ "s1\<lparr>pc := (pc s1)(t := Idle)\<rparr>"]) simp
  next
    case 3
    from opened_from_waiting [OF inv m 3 owner] assms(4) obtain s2
      where "record_run dbg s1 ([Wake t n, Register t n] @ [Opened t n (Some p)]) s2" "pc s2 t = Idle"
      by auto
    then show ?thesis by (intro exI [of _ "[Wake t n, Register t n]"] exI [of _ s2]) simp
  qed
qed

theorem furi_record_open_progress_witness:
  "\<exists>es1 s2. record_run False demo_published (es1 @ [Opened 1 ''gui'' (Some 64)]) s2 \<and> pc s2 1 = Idle \<and>
     set es1 \<subseteq> {Wake 1 ''gui'', Register 1 ''gui''} \<and> length es1 \<le> 2"
  by (rule furi_record_open_progress [OF record_start_demo demo_run_published, where ?t1.0 = 2])
    (simp_all add: demo_published_def published_def)

text \<open>The consumer of the example gets the pointer of the provider.\<close>

lemma demo_run_opened:
  "\<exists>s'. record_run False demo_start
     ([Open 1 ''gui'', Register 1 ''gui'', Wait 1 ''gui'', Create 2 ''gui'' 64,
       Wake 1 ''gui'', Register 1 ''gui''] @ [Opened 1 ''gui'' (Some 64)]) s'"
proof -
  have append: "record_run dbg s (es @ es1) s2"
    if "record_run dbg s1 es1 s2" and "record_run dbg s es s1" for dbg s es s1 es1 s2
    using that
  proof (induction rule: record_run.induct)
    case (run_snoc s1 es1 s2 e s3)
    from record_run.run_snoc [OF run_snoc.IH [OF run_snoc.prems] run_snoc.hyps(2)]
    show ?case by simp
  qed simp
  have inv: "system_inv [Open 1 ''gui'', Register 1 ''gui'', Wait 1 ''gui'', Create 2 ''gui'' 64] demo_published"
    using system_inv_run [OF demo_run_published record_start_demo] .
  have "\<exists>s'. record_run False demo_published
      [Wake 1 ''gui'', Register 1 ''gui'', Opened 1 ''gui'' (Some 64)] s' \<and> pc s' 1 = Idle"
    using opened_from_waiting [OF inv, where t = 1 and n = "''gui''" and dbg = False]
    by (auto simp: demo_published_def published_def owner_of_def)
  then obtain s' where "record_run False demo_published
      [Wake 1 ''gui'', Register 1 ''gui'', Opened 1 ''gui'' (Some 64)] s'" by blast
  from append [OF this demo_run_published] show ?thesis by auto
qed

theorem furi_record_open_returns_published_witness:
  "\<exists>t1 p1. published ''gui'' [Open 1 ''gui'', Register 1 ''gui'', Wait 1 ''gui'', Create 2 ''gui'' 64,
       Wake 1 ''gui'', Register 1 ''gui''] = Some (t1, p1) \<and> Some 64 = Some p1"
proof -
  from demo_run_opened obtain s' where "record_run False demo_start
     ([Open 1 ''gui'', Register 1 ''gui'', Wait 1 ''gui'', Create 2 ''gui'' 64,
       Wake 1 ''gui'', Register 1 ''gui''] @ [Opened 1 ''gui'' (Some 64)]) s'" by blast
  from furi_record_open_returns_published [OF record_start_demo this] show ?thesis by blast
qed

text \<open>
  C25. A record in use cannot be destroyed. While a thread that holds a record has not closed
  it, no sequence of steps of any threads, destroy attempts of the owner included, removes the
  record, and closing it does not fault.
\<close>

theorem furi_record_held_not_destroyed:
  assumes "table (shared s) = Some m" and "t \<in> holders m n"
    and "record_run dbg s es s'" and "Close t n \<notin> set es"
  shows "(\<exists>m'. table (shared s') = Some m' \<and> m' n \<noteq> None) \<and>
     furi_record_destroy dbg True True t1 n (shared s') = Inr (False, shared s') \<and>
     (\<exists>sh. furi_record_close dbg True True t n (shared s') = Inr sh)"
proof -
  from held_run [OF assms(3,1,2,4)] obtain m' where m': "table (shared s') = Some m'" "t \<in> holders m' n"
    by blast
  then show ?thesis
    using holders_Some [OF m'(2)] by (auto simp: furi_record_destroy_eq furi_record_close_eq)
qed

theorem furi_record_held_not_destroyed_witness:
  "furi_record_destroy False True True 2 ''gui'' (shared demo_published) = Inr (False, shared demo_published)"
proof -
  have "record_step False demo_waiting (Create 2 ''gui'' 64) (demo_waiting\<lparr>shared := shared demo_published\<rparr>)"
    by (rule record_step.create)
      (simp_all add: demo_waiting_def demo_published_def furi_record_create_eq holders_def)
  then have "record_run False demo_waiting [Create 2 ''gui'' 64] demo_published"
    using record_run_cons [OF run_nil] by (simp add: demo_waiting_def demo_published_def)
  from furi_record_held_not_destroyed [OF _ _ this, where t = 1 and n = "''gui''" and ?t1.0 = 2]
  show ?thesis by (simp add: demo_waiting_def holders_def)
qed

text \<open>
  Holders are a set, not a count: after a thread opened the same record twice and closed it
  once, it is no holder any more, although one of its two uses is still open; the owner can
  destroy the record under it.
\<close>

theorem furi_record_nested_open:
  assumes "table st = Some m" and "owner_of m n = Some t1" and "holders m n \<subseteq> {t}"
    and "furi_record_register dbg True True t n st = Inr st1"
    and "furi_record_register dbg True True t n st1 = Inr st2"
    and "furi_record_close dbg True True t n st2 = Inr st3"
  shows "\<exists>st4 m4. furi_record_destroy dbg True True t1 n st3 = Inr (True, st4) \<and>
     table st4 = Some m4 \<and> m4 n = None"
proof -
  from assms(1,4,5,6) have "st3 = st\<lparr>table := Some (m(n \<mapsto> \<lparr>rec_data = data_of m n,
      rec_owner = owner_of m n, rec_holders = holders m n - {t}\<rparr>))\<rparr>"
    by (auto simp: furi_record_register_eq furi_record_close_eq owner_of_def data_of_def holders_def)
  with assms(2,3) show ?thesis
    by (subst furi_record_destroy_eq [OF _]) auto
qed

theorem furi_record_nested_open_witness:
  "\<exists>st4 m4. furi_record_destroy True True True 2 ''gui''
     \<lparr>table = Some [''gui'' \<mapsto> \<lparr>rec_data = Some 64, rec_owner = Some 2, rec_holders = {}\<rparr>], flags = {}\<rparr> =
       Inr (True, st4) \<and> table st4 = Some m4 \<and> m4 ''gui'' = None"
proof -
  let ?m = "\<lambda>H. [''gui'' \<mapsto> \<lparr>rec_data = Some 64, rec_owner = Some 2, rec_holders = H\<rparr>]"
  let ?st = "\<lambda>H. \<lparr>table = Some (?m H), flags = {}\<rparr>"
  have "furi_record_register True True True 1 ''gui'' (?st H) = Inr (?st (insert 1 H))" for H
    by (simp add: furi_record_register_eq owner_of_def data_of_def holders_def)
  moreover have "furi_record_close True True True 1 ''gui'' (?st {1}) = Inr (?st {})"
    by (simp add: furi_record_close_eq owner_of_def data_of_def holders_def)
  ultimately show ?thesis
    by (intro furi_record_nested_open [where t = 1 and st = "?st {}" and ?st1.0 = "?st {1}" and
          ?st2.0 = "?st {1}" and m = "?m {}"])
      (simp_all add: owner_of_def holders_def)
qed

end
