(* ===== verification/FuriMemory.thy ===== *)
theory FuriMemory
  imports Prelude
begin

text \<open>
  Memory of the furi core: the allocation functions of \<^verbatim>\<open>core/furi/memmgr.c\<close> and
  \<^verbatim>\<open>memmgr.h\<close>, and the value mutex of \<^verbatim>\<open>core/furi/valuemutex.c\<close>. A heap maps an address to the
  bytes of its block. The FreeRTOS allocator is not part of the sources: its answer is an
  argument, the address and the (uninitialised) bytes of a new block, or \<open>None\<close>. A copy that
  leaves a block is the fault \<open>Out_Of_Bounds\<close>.
\<close>

section \<open>Heap blocks\<close>

type_synonym heap = "nat \<Rightarrow> u8 list option"
type_synonym new_block = "(nat \<times> u8 list) option"

definition heap_copy :: "nat \<Rightarrow> nat \<Rightarrow> nat \<Rightarrow> heap \<Rightarrow> heap res" where
  "heap_copy dst src n h =
     (case (h dst, h src) of
        (Some d, Some s) \<Rightarrow>
          if n \<le> length d \<and> n \<le> length s then Inr (h(dst \<mapsto> take n s @ drop n d))
          else Inl Out_Of_Bounds
      | _ \<Rightarrow> Inl Out_Of_Bounds)"

definition heap_zero :: "nat \<Rightarrow> nat \<Rightarrow> heap \<Rightarrow> heap res" where
  "heap_zero p n h =
     (case h p of
        Some d \<Rightarrow> if n \<le> length d then Inr (h(p \<mapsto> replicate n 0 @ drop n d)) else Inl Out_Of_Bounds
      | None \<Rightarrow> Inl Out_Of_Bounds)"

definition mem_malloc :: "new_block \<Rightarrow> heap \<Rightarrow> nat option \<times> heap" where
  "mem_malloc ans h =
     (case ans of None \<Rightarrow> (None, h) | Some (p, junk) \<Rightarrow> (Some p, h(p \<mapsto> junk)))"

definition mem_free :: "nat option \<Rightarrow> heap \<Rightarrow> heap" where
  "mem_free p h = (case p of None \<Rightarrow> h | Some a \<Rightarrow> h(a := None))"

text \<open>\<open>alloc sz\<close> is the answer of the allocator to a request of that size.\<close>

definition furi_alloc :: "(u32 \<Rightarrow> new_block) \<Rightarrow> u32 \<Rightarrow> heap \<Rightarrow> (nat \<times> heap) res" where
  "furi_alloc alloc sz h =
     (case mem_malloc (alloc sz) h of
        (None, _) \<Rightarrow> Inl Check_Failed
      | (Some p, h1) \<Rightarrow> bindE (heap_zero p (unat sz) h1) (\<lambda>h2. Inr (p, h2)))"

definition mem_realloc ::
    "(u32 \<Rightarrow> new_block) \<Rightarrow> nat option \<Rightarrow> u32 \<Rightarrow> heap \<Rightarrow> (nat option \<times> heap) res" where
  "mem_realloc alloc ptr sz h =
     (if sz = 0 then Inr (None, mem_free ptr h)
      else
        (case mem_malloc (alloc sz) h of
           (None, h1) \<Rightarrow> Inr (None, h1)
         | (Some p, h1) \<Rightarrow>
             (case ptr of
                None \<Rightarrow> Inr (Some p, h1)
              | Some q \<Rightarrow>
                  bindE (heap_copy p q (unat sz) h1) (\<lambda>h2. Inr (Some p, mem_free (Some q) h2)))))"

definition mem_calloc :: "(u32 \<Rightarrow> new_block) \<Rightarrow> u32 \<Rightarrow> u32 \<Rightarrow> heap \<Rightarrow> (nat option \<times> heap) res" where
  "mem_calloc alloc count sz h =
     (case mem_malloc (alloc (count * sz)) h of
        (None, h1) \<Rightarrow> Inr (None, h1)
      | (Some p, h1) \<Rightarrow> bindE (heap_zero p (unat (count * sz)) h1) (\<lambda>h2. Inr (Some p, h2)))"

text \<open>Length of a C string in a block: the bytes before the first zero byte.\<close>

fun c_strlen :: "u8 list \<Rightarrow> nat res" where
  "c_strlen [] = Inl Out_Of_Bounds"
| "c_strlen (b # bs) = (if b = 0 then Inr 0 else bindE (c_strlen bs) (\<lambda>n. Inr (Suc n)))"

definition mem_strdup :: "(u32 \<Rightarrow> new_block) \<Rightarrow> nat option \<Rightarrow> heap \<Rightarrow> (nat option \<times> heap) res" where
  "mem_strdup alloc s h =
     (case s of
        None \<Rightarrow> Inr (None, h)
      | Some q \<Rightarrow>
          (case h q of
             None \<Rightarrow> Inl Out_Of_Bounds
           | Some bytes \<Rightarrow>
               bindE (c_strlen bytes) (\<lambda>n.
                 let siz = word_of_nat (n + 1) :: u32 in
                 (case mem_malloc (alloc siz) h of
                    (None, h1) \<Rightarrow> Inr (None, h1)
                  | (Some y, h1) \<Rightarrow>
                      bindE (heap_copy y q (unat siz) h1) (\<lambda>h2. Inr (Some y, h2))))))"

section \<open>The allocator's documented behaviour\<close>

text \<open>A block has at least the requested size and does not overlay a live block.\<close>

definition fresh_block :: "heap \<Rightarrow> u32 \<Rightarrow> new_block \<Rightarrow> bool" where
  "fresh_block h sz ans \<longleftrightarrow>
     (case ans of None \<Rightarrow> True | Some (p, junk) \<Rightarrow> h p = None \<and> unat sz \<le> length junk)"

lemma fresh_blockD: "fresh_block h sz (Some (p, junk)) \<Longrightarrow> h p = None \<and> unat sz \<le> length junk"
  by (simp add: fresh_block_def)

section \<open>Value mutex\<close>

text \<open>
  The kernel's answers to acquire and release are \<open>acq\<close> and \<open>rel\<close>; the calls made are recorded,
  with their success, so that who holds the mutex can be read off.
\<close>

datatype mutex_call = Mutex_Acquire bool | Mutex_Release bool | Mutex_Delete bool

record value_mutex =
  vm_value :: "nat option"
  vm_size :: nat

definition init_mutex :: "bool \<Rightarrow> nat option \<Rightarrow> nat \<Rightarrow> value_mutex \<Rightarrow> bool \<times> value_mutex" where
  "init_mutex created v sz vm =
     (if \<not> created then (False, vm) else (True, vm\<lparr>vm_value := v, vm_size := sz\<rparr>))"

definition delete_mutex :: "bool \<Rightarrow> bool \<Rightarrow> value_mutex \<Rightarrow> bool \<times> mutex_call list" where
  "delete_mutex acq del vm =
     (if acq then (del, [Mutex_Acquire True, Mutex_Delete del])
      else (False, [Mutex_Acquire False]))"

definition acquire_mutex :: "bool \<Rightarrow> value_mutex \<Rightarrow> nat option \<times> mutex_call list" where
  "acquire_mutex acq vm =
     (if acq then (vm_value vm, [Mutex_Acquire True]) else (None, [Mutex_Acquire False]))"

definition release_mutex :: "bool \<Rightarrow> value_mutex \<Rightarrow> nat option \<Rightarrow> bool \<times> mutex_call list" where
  "release_mutex rel vm v =
     (if v \<noteq> vm_value vm then (False, [])
      else if \<not> rel then (False, [Mutex_Release False])
      else (True, [Mutex_Release True]))"

definition read_mutex ::
    "bool \<Rightarrow> bool \<Rightarrow> value_mutex \<Rightarrow> nat \<Rightarrow> nat \<Rightarrow> heap \<Rightarrow> ((bool \<times> mutex_call list) \<times> heap) res" where
  "read_mutex acq rel vm buf len h =
     (case acquire_mutex acq vm of (v, cs) \<Rightarrow>
        (case v of
           None \<Rightarrow> Inr ((False, cs), h)
         | Some a \<Rightarrow>
             if vm_size vm < len then Inr ((False, cs), h)
             else
               bindE (heap_copy buf a (if 0 < len then len else vm_size vm) h) (\<lambda>h1.
                 case release_mutex rel vm v of (ok, cs1) \<Rightarrow>
                   if \<not> ok then Inr ((False, cs @ cs1), h1) else Inr ((True, cs @ cs1), h1))))"

definition write_mutex ::
    "bool \<Rightarrow> bool \<Rightarrow> value_mutex \<Rightarrow> nat \<Rightarrow> nat \<Rightarrow> heap \<Rightarrow> ((bool \<times> mutex_call list) \<times> heap) res" where
  "write_mutex acq rel vm buf len h =
     (case acquire_mutex acq vm of (v, cs) \<Rightarrow>
        (case v of
           None \<Rightarrow> Inr ((False, cs), h)
         | Some a \<Rightarrow>
             if vm_size vm < len then Inr ((False, cs), h)
             else
               bindE (heap_copy a buf (if 0 < len then len else vm_size vm) h) (\<lambda>h1.
                 case release_mutex rel vm v of (ok, cs1) \<Rightarrow>
                   if \<not> ok then Inr ((False, cs @ cs1), h1) else Inr ((True, cs @ cs1), h1))))"

text \<open>\<open>with_value_mutex\<close>: the body gets the pointer and the heap.\<close>

definition with_value_mutex ::
    "bool \<Rightarrow> bool \<Rightarrow> value_mutex \<Rightarrow> (nat \<Rightarrow> heap \<Rightarrow> heap res) \<Rightarrow> heap \<Rightarrow> (mutex_call list \<times> heap) res" where
  "with_value_mutex acq rel vm body h =
     (case acquire_mutex acq vm of (v, cs) \<Rightarrow>
        (case v of
           None \<Rightarrow> Inl Check_Failed
         | Some a \<Rightarrow> bindE (body a h) (\<lambda>h1. Inr (cs @ snd (release_mutex rel vm v), h1))))"

definition held_after :: "mutex_call list \<Rightarrow> bool" where
  "held_after cs \<longleftrightarrow> count_list cs (Mutex_Release True) < count_list cs (Mutex_Acquire True)"

lemma heap_copy_ok:
  "h dst = Some d \<Longrightarrow> h src = Some s \<Longrightarrow> n \<le> length d \<Longrightarrow> n \<le> length s \<Longrightarrow>
     heap_copy dst src n h = Inr (h(dst \<mapsto> take n s @ drop n d))"
  by (simp add: heap_copy_def)

lemma write_mutex_eq:
  assumes "vm_value vm = Some a" and "len \<le> vm_size vm"
    and "h a = Some v" and "h buf = Some b"
    and "vm_size vm \<le> length v" and "(if 0 < len then len else vm_size vm) \<le> length b"
  shows "write_mutex True True vm buf len h =
    Inr ((True, [Mutex_Acquire True, Mutex_Release True]),
         h(a \<mapsto> take (if 0 < len then len else vm_size vm) b @ drop (if 0 < len then len else vm_size vm) v))"
  using assms
  by (simp add: write_mutex_def acquire_mutex_def release_mutex_def heap_copy_ok)

lemma read_mutex_eq:
  assumes "vm_value vm = Some a" and "len \<le> vm_size vm"
    and "h a = Some v" and "h buf = Some b"
    and "vm_size vm \<le> length v" and "(if 0 < len then len else vm_size vm) \<le> length b"
  shows "read_mutex True True vm buf len h =
    Inr ((True, [Mutex_Acquire True, Mutex_Release True]),
         h(buf \<mapsto> take (if 0 < len then len else vm_size vm) v @ drop (if 0 < len then len else vm_size vm) b))"
  using assms
  by (simp add: read_mutex_def acquire_mutex_def release_mutex_def heap_copy_ok)

section \<open>Properties\<close>

text \<open>
  A value mutex is a shared variable: what one thread writes another reads. A write of
  \<open>len\<close> bytes and a read of as many succeed, put the writer's bytes into the reader's buffer,
  leave the rest of the value as it was, and release the mutex.
\<close>

theorem value_mutex_write_read:
  assumes "vm_value vm = Some a" and "len \<le> vm_size vm" and "0 < len"
    and "h a = Some v" and "h src = Some s" and "h dst = Some d" and "distinct [a, src, dst]"
    and "vm_size vm \<le> length v" and "len \<le> length s" and "len \<le> length d"
  shows "\<exists>h1 h2 cs1 cs2. write_mutex True True vm src len h = Inr ((True, cs1), h1) \<and>
     read_mutex True True vm dst len h1 = Inr ((True, cs2), h2) \<and>
     h2 dst = Some (take len s @ drop len d) \<and> h2 a = Some (take len s @ drop len v) \<and>
     h2 src = Some s \<and> \<not> held_after cs1 \<and> \<not> held_after cs2"
proof -
  let ?v = "take len s @ drop len v"
  have w: "write_mutex True True vm src len h =
      Inr ((True, [Mutex_Acquire True, Mutex_Release True]), h(a \<mapsto> ?v))"
    using assms by (simp add: write_mutex_eq)
  have "read_mutex True True vm dst len (h(a \<mapsto> ?v)) =
      Inr ((True, [Mutex_Acquire True, Mutex_Release True]),
        (h(a \<mapsto> ?v))(dst \<mapsto> take len s @ drop len d))"
    using assms by (subst read_mutex_eq [where v = ?v and b = d]) auto
  with w assms(7) show ?thesis
    by (intro exI) (auto simp: held_after_def assms)
qed

theorem value_mutex_write_read_witness:
  "\<exists>h1 h2 cs1 cs2.
     write_mutex True True \<lparr>vm_value = Some 10, vm_size = 4\<rparr> 20 2 [10 \<mapsto> [1, 2, 3, 4], 20 \<mapsto> [8, 9], 30 \<mapsto> [0, 0]] =
       Inr ((True, cs1), h1) \<and>
     read_mutex True True \<lparr>vm_value = Some 10, vm_size = 4\<rparr> 30 2 h1 = Inr ((True, cs2), h2) \<and>
     h2 30 = Some (take 2 [8, 9] @ drop 2 [0, 0]) \<and> h2 10 = Some (take 2 [8, 9] @ drop 2 [1, 2, 3, 4]) \<and>
     h2 20 = Some [8, 9] \<and> \<not> held_after cs1 \<and> \<not> held_after cs2"
  by (rule value_mutex_write_read) simp_all

text \<open>
  \<^verbatim>\<open>read_mutex\<close> and \<^verbatim>\<open>write_mutex\<close> with more bytes than the value has return false and
  touch no memory, but keep the mutex: the length test comes after the acquisition and returns
  without the release. With a value pointer and an allowed length the mutex is never kept.
\<close>

theorem value_mutex_kept_iff_too_long:
  assumes "vm_value vm = Some a" and "read_mutex True True vm buf len h = Inr ((ok, cs), h1)"
  shows "(held_after cs \<longleftrightarrow> vm_size vm < len) \<and> (ok \<longleftrightarrow> len \<le> vm_size vm) \<and>
    (vm_size vm < len \<longrightarrow> h1 = h \<and> write_mutex True True vm buf len h = Inr ((False, cs), h))"
  using assms
  by (auto simp: read_mutex_def write_mutex_def acquire_mutex_def release_mutex_def held_after_def
      bindE_eq_Inr split: if_splits)

theorem value_mutex_kept_iff_too_long_witness:
  "held_after [Mutex_Acquire True] \<longleftrightarrow> vm_size \<lparr>vm_value = Some 10, vm_size = 4\<rparr> < 8"
  by (rule value_mutex_kept_iff_too_long [where a = 10 and buf = 20 and ok = False and
        h = "[10 \<mapsto> [1, 2, 3, 4], 20 \<mapsto> replicate 8 0]" and
        ?h1.0 = "[10 \<mapsto> [1, 2, 3, 4], 20 \<mapsto> replicate 8 0]", THEN conjunct1])
    (simp_all add: read_mutex_def acquire_mutex_def)

text \<open>
  Growing a block with \<^verbatim>\<open>realloc\<close> reads past its end: the copy takes as many bytes as the
  new size. A call for a live block stays in bounds exactly if the allocator has no memory, the
  new size is 0, or the old block is at least as long as the new size.
\<close>

theorem mem_realloc_in_bounds_iff:
  assumes "h q = Some old" and "fresh_block h sz (alloc sz)"
  shows "(\<exists>r h1. mem_realloc alloc (Some q) sz h = Inr (r, h1)) \<longleftrightarrow>
     alloc sz = None \<or> sz = 0 \<or> unat sz \<le> length old"
  using assms
  by (auto simp: mem_realloc_def mem_malloc_def fresh_block_def heap_copy_def bindE_eq_Inr
      split: option.splits prod.splits if_splits)

theorem mem_realloc_in_bounds_iff_witness:
  "\<not> (\<exists>r h1. mem_realloc (\<lambda>n. Some (100, replicate (unat n) 0xA5)) (Some 8) 16 [8 \<mapsto> [1, 2, 3, 4]] = Inr (r, h1))"
  using mem_realloc_in_bounds_iff [where h = "[8 \<mapsto> [1, 2, 3, 4]]" and q = 8 and sz = 16 and
      old = "[1, 2, 3, 4]" and alloc = "\<lambda>n. Some (100, replicate (unat n) 0xA5)"]
  by (simp add: fresh_block_def)

end
