(* ===== verification/FuriThread.thy ===== *)
theory FuriThread
  imports Prelude
begin

text \<open>
  Threads, \<^verbatim>\<open>core/furi/thread.c\<close>: an instance with a state, set up while it is stopped, run by the
  kernel, stopped when its body returns or when it is terminated. Each operation returns the
  instance and the state-callback calls it makes. Callbacks, contexts and names are addresses
  (\<open>None\<close> is the null pointer); the kernel's answers are arguments.
\<close>

section \<open>Types\<close>

datatype furi_thread_state =
    FuriThreadStateStopped
  | FuriThreadStateStarting
  | FuriThreadStateRunning

record furi_thread =
  thread_state :: furi_thread_state
  thread_ret :: "32 word"
  thread_callback :: "nat option"
  thread_context :: "nat option"
  thread_state_callback :: "nat option"
  thread_state_context :: "nat option"
  thread_name :: "string option"
  thread_stack_size :: nat
  thread_id :: "nat option"

text \<open>A call of the state callback: function, reported state, context.\<close>

type_synonym state_call = "nat \<times> furi_thread_state \<times> nat option"

section \<open>Operations\<close>

definition furi_thread_set_state ::
    "furi_thread_state \<Rightarrow> furi_thread \<Rightarrow> state_call list \<times> furi_thread" where
  "furi_thread_set_state st th =
     ((case thread_state_callback th of None \<Rightarrow> [] | Some cb \<Rightarrow> [(cb, st, thread_state_context th)]),
      th\<lparr>thread_state := st\<rparr>)"

text \<open>
  \<^verbatim>\<open>furi_thread_body\<close> is cut where the application callback runs: \<open>thread_body_begin\<close> is what
  comes before it, \<open>thread_body_end\<close> what follows its return with \<open>ret\<close>.
\<close>

definition thread_body_begin :: "bool \<Rightarrow> furi_thread \<Rightarrow> (state_call list \<times> furi_thread) res" where
  "thread_body_begin dbg th =
     furi_assert dbg (thread_state th = FuriThreadStateStarting)
       (Inr (furi_thread_set_state FuriThreadStateRunning th))"

definition thread_body_end ::
    "bool \<Rightarrow> 32 word \<Rightarrow> furi_thread \<Rightarrow> (state_call list \<times> furi_thread) res" where
  "thread_body_end dbg ret th0 =
     (let th = th0\<lparr>thread_ret := ret\<rparr> in
      furi_assert dbg (thread_state th = FuriThreadStateRunning)
        (Inr (furi_thread_set_state FuriThreadStateStopped th)))"

definition furi_thread_alloc :: furi_thread where
  "furi_thread_alloc =
     \<lparr>thread_state = FuriThreadStateStopped, thread_ret = 0, thread_callback = None,
      thread_context = None, thread_state_callback = None, thread_state_context = None,
      thread_name = None, thread_stack_size = 0, thread_id = None\<rparr>"

definition furi_thread_free :: "bool \<Rightarrow> furi_thread \<Rightarrow> unit res" where
  "furi_thread_free dbg th =
     furi_assert dbg (thread_state th = FuriThreadStateStopped) (Inr ())"

text \<open>\<open>copied\<close> is the answer of \<^verbatim>\<open>strdup\<close>.\<close>

definition furi_thread_set_name :: "bool \<Rightarrow> string option \<Rightarrow> furi_thread \<Rightarrow> furi_thread res" where
  "furi_thread_set_name dbg copied th =
     furi_assert dbg (thread_state th = FuriThreadStateStopped) (Inr (th\<lparr>thread_name := copied\<rparr>))"

definition furi_thread_set_stack_size :: "bool \<Rightarrow> nat \<Rightarrow> furi_thread \<Rightarrow> furi_thread res" where
  "furi_thread_set_stack_size dbg n th =
     furi_assert dbg (thread_state th = FuriThreadStateStopped) (Inr (th\<lparr>thread_stack_size := n\<rparr>))"

definition furi_thread_set_callback :: "bool \<Rightarrow> nat option \<Rightarrow> furi_thread \<Rightarrow> furi_thread res" where
  "furi_thread_set_callback dbg cb th =
     furi_assert dbg (thread_state th = FuriThreadStateStopped) (Inr (th\<lparr>thread_callback := cb\<rparr>))"

definition furi_thread_set_context :: "bool \<Rightarrow> nat option \<Rightarrow> furi_thread \<Rightarrow> furi_thread res" where
  "furi_thread_set_context dbg c th =
     furi_assert dbg (thread_state th = FuriThreadStateStopped) (Inr (th\<lparr>thread_context := c\<rparr>))"

definition furi_thread_set_state_callback :: "bool \<Rightarrow> nat option \<Rightarrow> furi_thread \<Rightarrow> furi_thread res" where
  "furi_thread_set_state_callback dbg cb th =
     furi_assert dbg (thread_state th = FuriThreadStateStopped)
       (Inr (th\<lparr>thread_state_callback := cb\<rparr>))"

definition furi_thread_set_state_context :: "bool \<Rightarrow> nat option \<Rightarrow> furi_thread \<Rightarrow> furi_thread res" where
  "furi_thread_set_state_context dbg c th =
     furi_assert dbg (thread_state th = FuriThreadStateStopped)
       (Inr (th\<lparr>thread_state_context := c\<rparr>))"

definition furi_thread_get_state :: "furi_thread \<Rightarrow> furi_thread_state" where
  "furi_thread_get_state th = thread_state th"

text \<open>
  \<^verbatim>\<open>furi_thread_start\<close> is cut at \<^verbatim>\<open>osThreadNew\<close>, since the new thread may run before the call
  returns: \<open>thread_start_begin\<close> comes before it, \<open>thread_start_end\<close> gets its answer, the thread
  id or a null pointer.
\<close>

definition thread_start_begin :: "bool \<Rightarrow> furi_thread \<Rightarrow> (state_call list \<times> furi_thread) res" where
  "thread_start_begin dbg th =
     furi_assert dbg (thread_callback th \<noteq> None)
       (furi_assert dbg (thread_state th = FuriThreadStateStopped)
         (Inr (furi_thread_set_state FuriThreadStateStarting th)))"

definition thread_start_end ::
    "bool \<Rightarrow> nat option \<Rightarrow> furi_thread \<Rightarrow> ((bool \<times> state_call list) \<times> furi_thread) res" where
  "thread_start_end dbg new th0 =
     (let th = th0\<lparr>thread_id := new\<rparr> in
      if thread_id th \<noteq> None then Inr ((True, []), th)
      else
        furi_assert dbg (thread_state th = FuriThreadStateStarting)
          (case furi_thread_set_state FuriThreadStateStopped th of (cs, th1) \<Rightarrow>
             Inr ((False, cs), th1)))"

definition furi_thread_terminate :: "bool \<Rightarrow> furi_thread \<Rightarrow> (bool \<times> state_call list) \<times> furi_thread" where
  "furi_thread_terminate ok th =
     (if ok then
        (case furi_thread_set_state FuriThreadStateStopped th of (cs, th1) \<Rightarrow> ((ok, cs), th1))
      else ((ok, []), th))"

section \<open>The life of a thread\<close>

text \<open>
  The instance together with what the kernel knows: whether the kernel thread is alive, and
  whether its owner is inside \<^verbatim>\<open>osThreadNew\<close>. The kernel creates a thread or not; terminating
  succeeds exactly on a live thread (\<^verbatim>\<open>osThreadTerminate\<close> returns an error for a thread that is
  not active). The owner does not start a thread that is alive: the debug build asserts it, the
  release build relies on it.
\<close>

record thread_system =
  instance_of :: furi_thread
  alive :: bool
  starting :: bool

datatype thread_event =
    Start | Created nat | Not_Created | Begin | Finish "32 word" | Terminate | Setup "nat option" "nat option"

inductive thread_step ::
    "bool \<Rightarrow> thread_system \<Rightarrow> thread_event \<Rightarrow> state_call list \<Rightarrow> thread_system \<Rightarrow> bool"
  for dbg where
  start: "\<not> starting s \<Longrightarrow> \<not> alive s \<Longrightarrow> thread_start_begin dbg (instance_of s) = Inr (cs, th) \<Longrightarrow>
     thread_step dbg s Start cs (s\<lparr>instance_of := th, starting := True, alive := True\<rparr>)"
| created: "starting s \<Longrightarrow> thread_start_end dbg (Some i) (instance_of s) = Inr ((b, cs), th) \<Longrightarrow>
     thread_step dbg s (Created i) cs (s\<lparr>instance_of := th, starting := False\<rparr>)"
| not_created: "starting s \<Longrightarrow> alive s \<Longrightarrow> thread_state (instance_of s) = FuriThreadStateStarting \<Longrightarrow>
     thread_start_end dbg None (instance_of s) = Inr ((b, cs), th) \<Longrightarrow>
     thread_step dbg s Not_Created cs (s\<lparr>instance_of := th, starting := False, alive := False\<rparr>)"
| begin_body: "alive s \<Longrightarrow> thread_state (instance_of s) \<noteq> FuriThreadStateRunning \<Longrightarrow>
     thread_body_begin dbg (instance_of s) = Inr (cs, th) \<Longrightarrow>
     thread_step dbg s Begin cs (s\<lparr>instance_of := th\<rparr>)"
| finish: "alive s \<Longrightarrow> thread_state (instance_of s) = FuriThreadStateRunning \<Longrightarrow>
     thread_body_end dbg r (instance_of s) = Inr (cs, th) \<Longrightarrow>
     thread_step dbg s (Finish r) cs (s\<lparr>instance_of := th, alive := False\<rparr>)"
| terminate_live: "\<not> starting s \<Longrightarrow> furi_thread_terminate (alive s) (instance_of s) = ((b, cs), th) \<Longrightarrow>
     thread_step dbg s Terminate cs (s\<lparr>instance_of := th, alive := False\<rparr>)"
| set_up: "thread_state (instance_of s) = FuriThreadStateStopped \<Longrightarrow> \<not> starting s \<Longrightarrow>
     furi_thread_set_callback dbg cb (instance_of s) = Inr th1 \<Longrightarrow>
     furi_thread_set_context dbg c th1 = Inr th \<Longrightarrow>
     thread_step dbg s (Setup cb c) [] (s\<lparr>instance_of := th\<rparr>)"

inductive thread_run ::
    "bool \<Rightarrow> thread_system \<Rightarrow> thread_event list \<Rightarrow> state_call list \<Rightarrow> thread_system \<Rightarrow> bool" for dbg where
  thread_nil: "thread_run dbg s [] [] s"
| thread_snoc: "thread_run dbg s es cs s1 \<Longrightarrow> thread_step dbg s1 e cs1 s2 \<Longrightarrow>
    thread_run dbg s (es @ [e]) (cs @ cs1) s2"

text \<open>The life cycle, as the state callback sees it.\<close>

fun life_next :: "furi_thread_state \<Rightarrow> furi_thread_state \<Rightarrow> bool" where
  "life_next FuriThreadStateStopped x = (x = FuriThreadStateStarting)"
| "life_next FuriThreadStateStarting x = (x = FuriThreadStateRunning \<or> x = FuriThreadStateStopped)"
| "life_next FuriThreadStateRunning x = (x = FuriThreadStateStopped)"

fun life_path :: "furi_thread_state \<Rightarrow> furi_thread_state list \<Rightarrow> bool" where
  "life_path x [] = True"
| "life_path x (y # ys) = (life_next x y \<and> life_path y ys)"

definition thread_inv :: "thread_system \<Rightarrow> bool" where
  "thread_inv s \<longleftrightarrow> (alive s \<longleftrightarrow> thread_state (instance_of s) \<noteq> FuriThreadStateStopped)"

lemma life_path_append [simp]:
  "life_path x (ys @ zs) \<longleftrightarrow> life_path x ys \<and> life_path (last (x # ys)) zs"
  by (induction ys arbitrary: x) auto

lemmas thread_op_defs =
  thread_start_begin_def thread_start_end_def thread_body_begin_def thread_body_end_def
  furi_thread_terminate_def furi_thread_set_state_def furi_thread_set_callback_def
  furi_thread_set_context_def

lemma thread_inv_step: "thread_step dbg s e cs s' \<Longrightarrow> thread_inv s \<Longrightarrow> thread_inv s'"
  by (induction rule: thread_step.induct)
    (auto simp: thread_inv_def thread_op_defs furi_assert_eq_Inr Let_def split: if_splits)

text \<open>
  A step reports the new state, if it changes, to the state callback, and keeps that callback.
\<close>

lemma thread_step_report:
  assumes "thread_step dbg s e cs s'" and "thread_inv s"
    and "thread_state_callback (instance_of s) = Some f"
  shows "thread_state_callback (instance_of s') = Some f \<and>
     life_path (thread_state (instance_of s)) (map (\<lambda>(_, x, _). x) cs) \<and>
     thread_state (instance_of s') = last (thread_state (instance_of s) # map (\<lambda>(_, x, _). x) cs)"
  using assms
proof (induction rule: thread_step.induct)
  case (start s cs th)
  then show ?case
    by (auto simp: thread_inv_def thread_op_defs furi_assert_eq_Inr)
next
  case (created s i b cs th)
  then show ?case by (auto simp: thread_op_defs Let_def)
next
  case (not_created s b cs th)
  then show ?case
    by (auto simp: thread_inv_def thread_op_defs furi_assert_eq_Inr Let_def)
next
  case (begin_body s cs th)
  then show ?case
    by (cases "thread_state (instance_of s)")
      (auto simp: thread_inv_def thread_op_defs furi_assert_eq_Inr)
next
  case (finish s r cs th)
  then show ?case
    by (auto simp: thread_inv_def thread_op_defs furi_assert_eq_Inr Let_def)
next
  case (terminate_live s b cs th)
  then show ?case
    by (cases "thread_state (instance_of s)")
      (auto simp: thread_inv_def thread_op_defs split: if_splits)
next
  case (set_up s cb c th1 th)
  then show ?case by (auto simp: thread_op_defs furi_assert_eq_Inr)
qed

lemma thread_run_report:
  "thread_run dbg s es cs s' \<Longrightarrow> thread_inv s \<Longrightarrow> thread_state_callback (instance_of s) = Some f \<Longrightarrow>
     thread_inv s' \<and> thread_state_callback (instance_of s') = Some f \<and>
     life_path (thread_state (instance_of s)) (map (\<lambda>(_, x, _). x) cs) \<and>
     thread_state (instance_of s') = last (thread_state (instance_of s) # map (\<lambda>(_, x, _). x) cs)"
proof (induction rule: thread_run.induct)
  case (thread_snoc s es cs s1 e cs1 s2)
  then have "thread_inv s1" and cb: "thread_state_callback (instance_of s1) = Some f" by auto
  from thread_step_report [OF thread_snoc.hyps(2) this] thread_inv_step [OF thread_snoc.hyps(2)]
    thread_snoc show ?case
    by (auto simp: last_append split: if_splits)
qed simp

section \<open>Properties\<close>

text \<open>
  The state callback of a thread is told a path through the life cycle: Stopped, then
  Starting, then Running or back to Stopped, from Running only to Stopped; the last report is the
  state of the instance. This holds for every interleaving of the owner (start, set up,
  terminate) and the thread itself, also when the thread runs before \<^verbatim>\<open>osThreadNew\<close> returns or
  when no thread could be created.
\<close>

theorem furi_thread_life_cycle:
  assumes "thread_run dbg \<lparr>instance_of = furi_thread_alloc\<lparr>thread_state_callback := Some f\<rparr>,
             alive = False, starting = False\<rparr> es cs s'"
  shows "life_path FuriThreadStateStopped (map (\<lambda>(_, x, _). x) cs) \<and>
     thread_state (instance_of s') = last (FuriThreadStateStopped # map (\<lambda>(_, x, _). x) cs)"
  using thread_run_report [OF assms] by (simp add: thread_inv_def furi_thread_alloc_def)


definition demo_thread :: "furi_thread_state \<Rightarrow> nat option \<Rightarrow> furi_thread" where
  "demo_thread st i = furi_thread_alloc\<lparr>thread_state_callback := Some 5, thread_state := st,
     thread_callback := Some 9, thread_id := i\<rparr>"

theorem furi_thread_life_cycle_witness:
  "life_path FuriThreadStateStopped (map (\<lambda>(_, x, _). x)
     [(5 :: nat, FuriThreadStateStarting, None :: nat option), (5, FuriThreadStateRunning, None)])"
proof -
  let ?sys = "\<lambda>st i al ng. \<lparr>instance_of = demo_thread st i, alive = al, starting = ng\<rparr>"
  let ?s0 = "\<lparr>instance_of = furi_thread_alloc\<lparr>thread_state_callback := Some 5\<rparr>,
             alive = False, starting = False\<rparr>"
  have 0: "thread_step True ?s0 (Setup (Some 9) None) [] (?sys FuriThreadStateStopped None False False)"
    using thread_step.set_up [where s = ?s0 and dbg = True and cb = "Some 9" and c = None and
        th = "demo_thread FuriThreadStateStopped None" and ?th1.0 = "demo_thread FuriThreadStateStopped None"]
    by (simp add: furi_thread_alloc_def demo_thread_def thread_op_defs)
  have 1: "thread_step True (?sys FuriThreadStateStopped None False False) Start
      [(5, FuriThreadStateStarting, None)] (?sys FuriThreadStateStarting None True True)"
    using thread_step.start [where s = "?sys FuriThreadStateStopped None False False" and dbg = True and
        th = "demo_thread FuriThreadStateStarting None" and cs = "[(5, FuriThreadStateStarting, None)]"]
    by (simp add: furi_thread_alloc_def demo_thread_def thread_op_defs)
  have 2: "thread_step True (?sys FuriThreadStateStarting None True True) Begin
      [(5, FuriThreadStateRunning, None)] (?sys FuriThreadStateRunning None True True)"
    using thread_step.begin_body [where s = "?sys FuriThreadStateStarting None True True" and dbg = True and
        th = "demo_thread FuriThreadStateRunning None" and cs = "[(5, FuriThreadStateRunning, None)]"]
    by (simp add: furi_thread_alloc_def demo_thread_def thread_op_defs)
  from thread_snoc [OF thread_snoc [OF thread_snoc [OF thread_nil 0] 1] 2]
  have "thread_run True ?s0 [Setup (Some 9) None, Start, Begin]
     [(5, FuriThreadStateStarting, None), (5, FuriThreadStateRunning, None)]
     (?sys FuriThreadStateRunning None True True)" by simp
  from furi_thread_life_cycle [OF this] show ?thesis by blast
qed

end
