(* ===== verification/FuriStdout.thy ===== *)
theory FuriStdout
  imports Prelude
begin

text \<open>
  Standard output, \<^verbatim>\<open>core/furi/stdglue.c\<close>, and the log, \<^verbatim>\<open>core/furi/log.c\<close>. The glue keeps two
  dictionaries from thread ids to write callbacks: global outputs, which see the text of every
  other thread, and thread outputs, which see the text of their own thread. The dictionaries are
  association lists in their iteration order; setting a key keeps its place. Functions are
  addresses, writes are recorded.
\<close>

section \<open>Standard output\<close>

record stdglue =
  global_outputs :: "(nat \<times> nat) list"
  thread_outputs :: "(nat \<times> nat) list"

text \<open>What a write does: calls of a callback with the text, and bytes on the debug UART.\<close>

datatype stdout_call = Write_Callback nat "string option" | Uart string

text \<open>
  \<^verbatim>\<open>stdout_write\<close>: \<open>glue\<close> is the static pointer, \<open>running\<close> the kernel's state, \<open>self\<close> the thread id
  (null in an interrupt). \<^verbatim>\<open>data\<close> may be null, a request to flush. The UART gets the size
  truncated to 16 bits.
\<close>

definition stdout_write ::
    "bool \<Rightarrow> bool \<Rightarrow> bool \<Rightarrow> bool \<Rightarrow> nat option \<Rightarrow> stdglue option \<Rightarrow> string option \<Rightarrow>
      (nat \<times> stdout_call list) res" where
  "stdout_write dbg running acq rel self glue txt =
     furi_assert dbg (glue \<noteq> None)
       (bindE
         (case self of
            Some t \<Rightarrow>
              if running then
                (case glue of
                   None \<Rightarrow> Inl Null_Pointer
                 | Some g \<Rightarrow>
                     if acq then
                       (let globals = map (\<lambda>(_, cb). Write_Callback cb txt)
                              (filter (\<lambda>(k, _). t \<noteq> k) (global_outputs g));
                            own = (case map_of (thread_outputs g) t of
                              Some cb \<Rightarrow> [Write_Callback cb txt] | None \<Rightarrow> [])
                        in furi_check rel (Inr (globals @ own)))
                     else Inr [])
              else Inr []
          | None \<Rightarrow> Inr [])
         (\<lambda>calls.
            case txt of
              None \<Rightarrow> Inr (0, calls)
            | Some s \<Rightarrow> Inr (length s, calls @ [Uart (take (length s mod 2 ^ 16) s)])))"

definition furi_stdglue_init :: "bool \<Rightarrow> stdglue res" where
  "furi_stdglue_init created =
     furi_check created (Inr \<lparr>global_outputs = [], thread_outputs = []\<rparr>)"

definition furi_stdglue_set_global_stdout_callback ::
    "bool \<Rightarrow> bool \<Rightarrow> nat option \<Rightarrow> nat option \<Rightarrow> stdglue \<Rightarrow> (bool \<times> stdglue) res" where
  "furi_stdglue_set_global_stdout_callback acq rel self cb g =
     (case self of
        Some t \<Rightarrow>
          furi_check acq
            (let g1 = (case cb of
                 Some f \<Rightarrow> g\<lparr>global_outputs := dict_set t f (global_outputs g)\<rparr>
               | None \<Rightarrow> g\<lparr>global_outputs := dict_erase t (global_outputs g)\<rparr>)
             in furi_check rel (Inr (True, g1)))
      | None \<Rightarrow> Inr (False, g))"

definition furi_stdglue_set_thread_stdout_callback ::
    "bool \<Rightarrow> bool \<Rightarrow> nat option \<Rightarrow> nat option \<Rightarrow> stdglue \<Rightarrow> (bool \<times> stdglue) res" where
  "furi_stdglue_set_thread_stdout_callback acq rel self cb g =
     (case self of
        Some t \<Rightarrow>
          furi_check acq
            (let g1 = (case cb of
                 Some f \<Rightarrow> g\<lparr>thread_outputs := dict_set t f (thread_outputs g)\<rparr>
               | None \<Rightarrow> g\<lparr>thread_outputs := dict_erase t (thread_outputs g)\<rparr>)
             in furi_check rel (Inr (True, g1)))
      | None \<Rightarrow> Inr (False, g))"

definition stdglue_inv :: "stdglue \<Rightarrow> bool" where
  "stdglue_inv g \<longleftrightarrow> distinct (map fst (global_outputs g)) \<and> distinct (map fst (thread_outputs g))"

lemma stdglue_inv_init: "furi_stdglue_init True = Inr g \<Longrightarrow> stdglue_inv g"
  by (auto simp: furi_stdglue_init_def stdglue_inv_def)

lemma stdglue_inv_set_global:
  "stdglue_inv g \<Longrightarrow> furi_stdglue_set_global_stdout_callback acq rel self cb g = Inr (b, g1) \<Longrightarrow> stdglue_inv g1"
  by (auto simp: furi_stdglue_set_global_stdout_callback_def stdglue_inv_def furi_check_eq_Inr
      distinct_dict_set distinct_dict_erase split: option.splits)

lemma stdglue_inv_set_thread:
  "stdglue_inv g \<Longrightarrow> furi_stdglue_set_thread_stdout_callback acq rel self cb g = Inr (b, g1) \<Longrightarrow> stdglue_inv g1"
  by (auto simp: furi_stdglue_set_thread_stdout_callback_def stdglue_inv_def furi_check_eq_Inr
      distinct_dict_set distinct_dict_erase split: option.splits)

section \<open>The log\<close>

datatype furi_log_level = LOG_NONE | LOG_ERROR | LOG_WARN | LOG_INFO | LOG_DEBUG | LOG_VERBOSE

fun log_level_index :: "furi_log_level \<Rightarrow> nat" where
  "log_level_index LOG_NONE = 0"
| "log_level_index LOG_ERROR = 1"
| "log_level_index LOG_WARN = 2"
| "log_level_index LOG_INFO = 3"
| "log_level_index LOG_DEBUG = 4"
| "log_level_index LOG_VERBOSE = 5"

instantiation furi_log_level :: linorder
begin

definition less_eq_furi_log_level :: "furi_log_level \<Rightarrow> furi_log_level \<Rightarrow> bool" where
  "less_eq_furi_log_level a b \<longleftrightarrow> log_level_index a \<le> log_level_index b"

definition less_furi_log_level :: "furi_log_level \<Rightarrow> furi_log_level \<Rightarrow> bool" where
  "less_furi_log_level a b \<longleftrightarrow> log_level_index a < log_level_index b"

instance
proof
  fix a b :: furi_log_level
  show "a \<le> b \<Longrightarrow> b \<le> a \<Longrightarrow> a = b"
    by (cases a; cases b) (simp_all add: less_eq_furi_log_level_def)
qed (auto simp: less_eq_furi_log_level_def less_furi_log_level_def)

end

record furi_log =
  log_level :: furi_log_level
  log_print :: nat
  log_vprint :: nat
  log_timestamp :: nat

text \<open>
  \<open>printf\<close>, \<open>vprintf\<close> and \<open>tick\<close> are the addresses of the defaults. A message is two calls under
  the mutex: the timestamp through \<open>print\<close>, the text through \<open>vprint\<close>.
\<close>

datatype log_call =
    Log_Acquire | Log_Timestamp nat | Log_Print nat string | Log_VPrint nat string | Log_Release

definition furi_log_init :: "nat \<Rightarrow> nat \<Rightarrow> nat \<Rightarrow> furi_log" where
  "furi_log_init printf vprintf tick =
     \<lparr>log_level = LOG_INFO, log_print = printf, log_vprint = vprintf, log_timestamp = tick\<rparr>"

definition furi_log_print :: "furi_log_level \<Rightarrow> string \<Rightarrow> furi_log \<Rightarrow> log_call list" where
  "furi_log_print lvl fmt l =
     (if lvl \<le> log_level l then
        [Log_Acquire, Log_Timestamp (log_timestamp l), Log_Print (log_print l) ''%lu '',
         Log_VPrint (log_vprint l) fmt, Log_Release]
      else [])"

definition furi_log_set_level :: "furi_log_level \<Rightarrow> furi_log \<Rightarrow> furi_log" where
  "furi_log_set_level lvl l = l\<lparr>log_level := lvl\<rparr>"

definition furi_log_get_level :: "furi_log \<Rightarrow> furi_log_level" where
  "furi_log_get_level l = log_level l"

definition furi_log_set_print :: "bool \<Rightarrow> nat option \<Rightarrow> nat option \<Rightarrow> furi_log \<Rightarrow> furi_log res" where
  "furi_log_set_print dbg pr vpr l =
     furi_assert dbg (pr \<noteq> None)
       (furi_assert dbg (vpr \<noteq> None)
         (Inr (l\<lparr>log_print := (case pr of Some p \<Rightarrow> p | None \<Rightarrow> 0),
                 log_vprint := (case vpr of Some p \<Rightarrow> p | None \<Rightarrow> 0)\<rparr>)))"

definition furi_log_set_timestamp :: "bool \<Rightarrow> nat option \<Rightarrow> furi_log \<Rightarrow> furi_log res" where
  "furi_log_set_timestamp dbg ts l =
     furi_assert dbg (ts \<noteq> None)
       (Inr (l\<lparr>log_timestamp := (case ts of Some p \<Rightarrow> p | None \<Rightarrow> 0)\<rparr>))"

section \<open>Properties\<close>

text \<open>
  Who sees the text of a thread. A write in a running kernel reaches exactly the global
  callbacks of the other threads and the writer's own thread callback, each once, all of it, and
  the UART, which gets the length modulo 65536; the whole length is reported as consumed.
\<close>

theorem stdout_write_reaches:
  assumes "stdglue_inv g"
  shows "\<exists>cs. stdout_write dbg True True True (Some t) (Some g) (Some s) = Inr (length s, cs) \<and>
     (\<forall>f. count_list cs (Write_Callback f (Some s)) =
        card {k. k \<noteq> t \<and> map_of (global_outputs g) k = Some f} +
        (if map_of (thread_outputs g) t = Some f then 1 else 0)) \<and>
     filter (\<lambda>c. \<exists>u. c = Uart u) cs = [Uart (take (length s mod 65536) s)]"
proof -
  let ?gs = "map (\<lambda>(_, cb). Write_Callback cb (Some s)) (filter (\<lambda>(k, _). t \<noteq> k) (global_outputs g))"
  let ?own = "case map_of (thread_outputs g) t of Some cb \<Rightarrow> [Write_Callback cb (Some s)] | None \<Rightarrow> []"
  let ?cs = "(?gs @ ?own) @ [Uart (take (length s mod 65536) s)]"
  have "count_list ?gs (Write_Callback f (Some s)) =
      card {k. k \<noteq> t \<and> map_of (global_outputs g) k = Some f}" for f
  proof -
    let ?xs = "filter (\<lambda>(k, cb). k \<noteq> t \<and> cb = f) (global_outputs g)"
    have "distinct (map fst ?xs)"
      using assms by (simp add: stdglue_inv_def distinct_map_filter)
    then have "card (set (map fst ?xs)) = length ?xs"
      using distinct_card by fastforce
    moreover have "set (map fst ?xs) = {k. k \<noteq> t \<and> map_of (global_outputs g) k = Some f}"
      using assms by (auto simp: stdglue_inv_def set_distinct_map_of [symmetric] image_iff)
    moreover have "count_list ?gs (Write_Callback f (Some s)) = length ?xs"
    proof -
      have "count_list (map (\<lambda>(_, cb). Write_Callback cb (Some s)) (filter (\<lambda>(k, _). t \<noteq> k) xs))
          (Write_Callback f (Some s)) = length (filter (\<lambda>(k, cb). k \<noteq> t \<and> cb = f) xs)"
        for xs :: "(nat \<times> nat) list"
        by (induction xs) auto
      then show ?thesis .
    qed
    ultimately show ?thesis by simp
  qed
  then have "\<forall>f. count_list ?cs (Write_Callback f (Some s)) =
        card {k. k \<noteq> t \<and> map_of (global_outputs g) k = Some f} +
        (if map_of (thread_outputs g) t = Some f then 1 else 0)"
    by (auto split: option.split)
  moreover have "filter (\<lambda>c. \<exists>u. c = Uart u) ?cs = [Uart (take (length s mod 65536) s)]"
    by (auto simp: filter_empty_conv split: option.split)
  ultimately show ?thesis
    by (intro exI [of _ ?cs]) (simp add: stdout_write_def Let_def)
qed

theorem stdout_write_reaches_witness:
  "\<exists>cs. stdout_write True True True True (Some 1)
       (Some \<lparr>global_outputs = [(1, 10), (2, 20)], thread_outputs = [(1, 30)]\<rparr>) (Some ''hi'') = Inr (2, cs) \<and>
     filter (\<lambda>c. \<exists>u. c = Uart u) cs = [Uart ''hi'']"
  using stdout_write_reaches [where g = "\<lparr>global_outputs = [(1, 10), (2, 20)], thread_outputs = [(1, 30)]\<rparr>"
      and dbg = True and t = 1 and s = "''hi''"]
  by (auto simp: stdglue_inv_def)

end
