(* ===== verification/MString.thy ===== *)
theory MString
  imports Prelude
begin

text \<open>
  The documented behaviour of the string functions of M*LIB and of the C library that the
  firmware calls, on lists of characters.
\<close>

text \<open>\<^verbatim>\<open>string_search_char\<close>: the index of the first occurrence, \<open>None\<close> for \<^verbatim>\<open>STRING_FAILURE\<close>.\<close>

fun string_search_char :: "string \<Rightarrow> char \<Rightarrow> nat option" where
  "string_search_char [] c = None"
| "string_search_char (x # xs) c =
     (if x = c then Some 0 else map_option Suc (string_search_char xs c))"

definition is_blank :: "char \<Rightarrow> bool" where
  "is_blank c \<longleftrightarrow> c = CHR '' '' \<or> c = CHR 0x0A \<or> c = CHR 0x0D \<or> c = CHR 0x09"

text \<open>\<^verbatim>\<open>string_strim\<close> removes blanks at both ends, \<^verbatim>\<open>string_right\<close> keeps what starts at an index.\<close>

definition string_strim :: "string \<Rightarrow> string" where
  "string_strim s = rev (dropWhile is_blank (rev (dropWhile is_blank s)))"

definition string_right :: "string \<Rightarrow> nat \<Rightarrow> string" where
  "string_right s n = drop n s"

definition string_left :: "string \<Rightarrow> nat \<Rightarrow> string" where
  "string_left s n = take n s"

text \<open>\<^verbatim>\<open>%lu\<close> and \<^verbatim>\<open>%d\<close> of a number that is not negative.\<close>

fun decimal :: "nat \<Rightarrow> string" where
  "decimal n = (if n < 10 then [char_of (48 + n)] else decimal (n div 10) @ [char_of (48 + n mod 10)])"

declare decimal.simps [simp del]

lemma string_search_char_None: "string_search_char s c = None \<longleftrightarrow> c \<notin> set s"
  by (induction s) auto

lemma string_search_char_append:
  "c \<notin> set s \<Longrightarrow> string_search_char (s @ c # t) c = Some (length s)"
  by (induction s) auto

lemma string_search_char_Some:
  "string_search_char s c = Some n \<Longrightarrow>
     n < length s \<and> s ! n = c \<and> c \<notin> set (take n s)"
proof (induction s arbitrary: n)
  case (Cons x s)
  then show ?case by (cases n) (auto split: if_splits)
qed simp

lemma string_strim_word:
  assumes "s = [] \<or> \<not> is_blank (hd s) \<and> \<not> is_blank (last s)"
  shows "string_strim (CHR '' '' # s) = s"
proof (cases "s = []")
  case False
  with assms have h: "\<not> is_blank (hd s)" and l: "\<not> is_blank (hd (rev s))"
    by (auto simp: hd_rev)
  have 1: "dropWhile is_blank (CHR '' '' # s) = s"
    using h by (cases s) (simp_all add: is_blank_def)
  have "dropWhile is_blank (rev s) = rev s"
    using l by (cases "rev s") simp_all
  with 1 show ?thesis by (simp add: string_strim_def)
qed (simp add: string_strim_def is_blank_def)

end
