(* ===== verification/Input.thy ===== *)
theory Input
  imports MString
begin

text \<open>
  The input service, \<^verbatim>\<open>applications/input/input.c\<close>: polling of the pins with a debounce counter,
  press, release and short events from the polling loop, long and repeat events from a periodic
  timer per pin, and the command \<^verbatim>\<open>input_send\<close> of the command line. Publishing an event is
  recording it.
\<close>

section \<open>Types\<close>

datatype input_key =
  InputKeyUp | InputKeyDown | InputKeyRight | InputKeyLeft | InputKeyOk | InputKeyBack

datatype input_type =
  InputTypePress | InputTypeRelease | InputTypeShort | InputTypeLong | InputTypeRepeat

record input_event =
  ev_key :: input_key
  ev_type :: input_type

record input_pin =
  port_pin :: string
  pin_key :: input_key
  inverted :: bool

text \<open>\<open>press_timer\<close>: the period if the timer runs, \<open>None\<close> if it is stopped.\<close>

record input_pin_state =
  pin :: input_pin
  pin_state :: bool
  debounce :: u8
  press_timer :: "nat option"
  press_counter :: u8

definition INPUT_DEBOUNCE_TICKS :: u8 where
  "INPUT_DEBOUNCE_TICKS = 20"

definition INPUT_PRESS_TICKS :: nat where
  "INPUT_PRESS_TICKS = 200"

definition INPUT_LONG_PRESS_COUNTS :: u8 where
  "INPUT_LONG_PRESS_COUNTS = 4"

lemmas input_constants =
  INPUT_DEBOUNCE_TICKS_def INPUT_PRESS_TICKS_def INPUT_LONG_PRESS_COUNTS_def

definition input_pins :: "input_pin list" where
  "input_pins =
     [\<lparr>port_pin = ''BUTTON_UP'', pin_key = InputKeyUp, inverted = True\<rparr>,
      \<lparr>port_pin = ''BUTTON_DOWN'', pin_key = InputKeyDown, inverted = True\<rparr>,
      \<lparr>port_pin = ''BUTTON_RIGHT'', pin_key = InputKeyRight, inverted = True\<rparr>,
      \<lparr>port_pin = ''BUTTON_LEFT'', pin_key = InputKeyLeft, inverted = True\<rparr>,
      \<lparr>port_pin = ''BUTTON_OK'', pin_key = InputKeyOk, inverted = False\<rparr>,
      \<lparr>port_pin = ''BUTTON_BACK'', pin_key = InputKeyBack, inverted = True\<rparr>]"

section \<open>Operations\<close>

text \<open>The macro \<^verbatim>\<open>GPIO_Read\<close>: \<open>level\<close> is the answer of the HAL.\<close>

definition gpio_read :: "bool \<Rightarrow> input_pin \<Rightarrow> bool" where
  "gpio_read level p \<longleftrightarrow> level \<noteq> inverted p"

definition event_of :: "input_pin_state \<Rightarrow> input_type \<Rightarrow> input_event" where
  "event_of p ty = \<lparr>ev_key = pin_key (pin p), ev_type = ty\<rparr>"

definition input_press_timer_callback ::
    "input_pin_state \<Rightarrow> input_event list \<times> input_pin_state" where
  "input_press_timer_callback p0 =
     (let p = p0\<lparr>press_counter := press_counter p0 + 1\<rparr> in
      if press_counter p = INPUT_LONG_PRESS_COUNTS then ([event_of p InputTypeLong], p)
      else if press_counter p > INPUT_LONG_PRESS_COUNTS then
        ([event_of p InputTypeRepeat], p\<lparr>press_counter := press_counter p - 1\<rparr>)
      else ([], p))"

definition input_pin_init :: "bool \<Rightarrow> input_pin \<Rightarrow> input_pin_state" where
  "input_pin_init level p =
     \<lparr>pin = p, pin_state = gpio_read level p, debounce = INPUT_DEBOUNCE_TICKS div 2,
      press_timer = None, press_counter = 0\<rparr>"

text \<open>
  One turn of the polling loop for a pin: whether it is changing, the events, the new state.
\<close>

definition input_poll_pin ::
    "bool \<Rightarrow> input_pin_state \<Rightarrow> bool \<times> input_event list \<times> input_pin_state" where
  "input_poll_pin level p =
     (let st = gpio_read level (pin p) in
      if 0 < debounce p \<and> debounce p < INPUT_DEBOUNCE_TICKS then
        (True, [], p\<lparr>debounce := debounce p + (if st then 1 else - 1)\<rparr>)
      else if pin_state p \<noteq> st then
        (let p1 = p\<lparr>pin_state := st\<rparr>;
             e1 = event_of p1 (if pin_state p1 then InputTypePress else InputTypeRelease)
         in
         if st then (False, [e1], p1\<lparr>press_timer := Some INPUT_PRESS_TICKS\<rparr>)
         else
           (let p2 = p1\<lparr>press_timer := None\<rparr>;
                es = (if press_counter p2 < INPUT_LONG_PRESS_COUNTS
                      then [event_of p2 InputTypeShort] else [])
            in (False, e1 # es, p2\<lparr>press_counter := 0\<rparr>)))
      else (False, [], p))"

fun input_poll ::
    "bool list \<Rightarrow> input_pin_state list \<Rightarrow> bool \<times> input_event list \<times> input_pin_state list" where
  "input_poll (l # ls) (p # ps) =
     (case input_poll_pin l p of (c, es, p1) \<Rightarrow>
        case input_poll ls ps of (c1, es1, ps1) \<Rightarrow> (c \<or> c1, es @ es1, p1 # ps1))"
| "input_poll _ ps = (False, [], ps)"

text \<open>\<open>input_task_init\<close>: the set-up of the pins, with the levels read at start.\<close>

definition input_task_init :: "bool list \<Rightarrow> input_pin_state list" where
  "input_task_init levels = map2 input_pin_init levels input_pins"

section \<open>The command line\<close>

fun input_key_of_name :: "string \<Rightarrow> input_key option" where
  "input_key_of_name s =
     (if s = ''up'' then Some InputKeyUp
      else if s = ''down'' then Some InputKeyDown
      else if s = ''left'' then Some InputKeyLeft
      else if s = ''right'' then Some InputKeyRight
      else if s = ''ok'' then Some InputKeyOk
      else if s = ''back'' then Some InputKeyBack
      else None)"

fun input_type_of_name :: "string \<Rightarrow> input_type option" where
  "input_type_of_name s =
     (if s = ''press'' then Some InputTypePress
      else if s = ''release'' then Some InputTypeRelease
      else if s = ''short'' then Some InputTypeShort
      else if s = ''long'' then Some InputTypeLong
      else None)"

text \<open>The result is the message printed or the event published.\<close>

definition input_cli_send :: "string \<Rightarrow> string + input_event" where
  "input_cli_send args =
     (case string_search_char args CHR '' '' of
        None \<Rightarrow> Inl ''Invalid arguments. Use `input_send KEY TYPE`.''
      | Some ws \<Rightarrow>
          (let key_name = take ws args; rest = string_strim (string_right args ws) in
           case input_key_of_name key_name of
             None \<Rightarrow> Inl ''Invalid key name. Valid keys: `up`, `down`, `left`, `right`, `back`, `ok`.''
           | Some k \<Rightarrow>
               (case input_type_of_name rest of
                  None \<Rightarrow> Inl ''Ivalid type. Valid types: `press`, `release`, `short`, `long`.''
                | Some t \<Rightarrow> Inr \<lparr>ev_key = k, ev_type = t\<rparr>)))"

fun name_of_key :: "input_key \<Rightarrow> string" where
  "name_of_key InputKeyUp = ''up''"
| "name_of_key InputKeyDown = ''down''"
| "name_of_key InputKeyLeft = ''left''"
| "name_of_key InputKeyRight = ''right''"
| "name_of_key InputKeyOk = ''ok''"
| "name_of_key InputKeyBack = ''back''"

fun name_of_type :: "input_type \<Rightarrow> string" where
  "name_of_type InputTypePress = ''press''"
| "name_of_type InputTypeRelease = ''release''"
| "name_of_type InputTypeShort = ''short''"
| "name_of_type InputTypeLong = ''long''"
| "name_of_type InputTypeRepeat = ''repeat''"

section \<open>A pin over time\<close>

text \<open>
  What happens to a pin: the loop polls it at a level, or its timer, if it runs, expires.
\<close>

datatype pin_stimulus = Poll bool | Timer_Expired

fun pin_stim :: "input_pin_state \<Rightarrow> pin_stimulus \<Rightarrow> input_event list \<times> input_pin_state" where
  "pin_stim p (Poll l) = (case input_poll_pin l p of (_, es, p1) \<Rightarrow> (es, p1))"
| "pin_stim p Timer_Expired =
     (if press_timer p \<noteq> None then input_press_timer_callback p else ([], p))"

fun pin_run :: "input_pin_state \<Rightarrow> pin_stimulus list \<Rightarrow> input_event list \<times> input_pin_state" where
  "pin_run p [] = ([], p)"
| "pin_run p (x # xs) =
     (case pin_stim p x of (es, p1) \<Rightarrow> case pin_run p1 xs of (es1, p2) \<Rightarrow> (es @ es1, p2))"

text \<open>
  The protocol of a key: a press, then either nothing or one long event and any number of
  repeats, then a release, followed by a short event exactly if there was no long event. The
  states: released, pressed, held long, released after a short press with the short event due.
\<close>

datatype key_phase = Key_Up | Key_Down | Key_Held | Short_Due

fun key_next :: "key_phase \<Rightarrow> input_type \<Rightarrow> key_phase option" where
  "key_next Key_Up InputTypePress = Some Key_Down"
| "key_next Key_Down InputTypeLong = Some Key_Held"
| "key_next Key_Held InputTypeRepeat = Some Key_Held"
| "key_next Key_Held InputTypeRelease = Some Key_Up"
| "key_next Key_Down InputTypeRelease = Some Short_Due"
| "key_next Short_Due InputTypeShort = Some Key_Up"
| "key_next _ _ = None"

fun key_path :: "key_phase \<Rightarrow> input_type list \<Rightarrow> key_phase option" where
  "key_path x [] = Some x"
| "key_path x (t # ts) = (case key_next x t of None \<Rightarrow> None | Some y \<Rightarrow> key_path y ts)"

lemma key_path_append:
  "key_path x (ts @ us) = Option.bind (key_path x ts) (\<lambda>y. key_path y us)"
  by (induction ts arbitrary: x) (auto split: option.split)

definition phase_of :: "input_pin_state \<Rightarrow> key_phase" where
  "phase_of p = (if \<not> pin_state p then Key_Up
                 else if press_counter p < INPUT_LONG_PRESS_COUNTS then Key_Down else Key_Held)"

definition pin_inv :: "input_pin_state \<Rightarrow> bool" where
  "pin_inv p \<longleftrightarrow> press_counter p \<le> INPUT_LONG_PRESS_COUNTS \<and>
     (\<not> pin_state p \<longrightarrow> press_counter p = 0 \<and> press_timer p = None)"

lemma pin_inv_init: "pin_inv (input_pin_init l p)"
  by (simp add: pin_inv_def input_pin_init_def input_constants)

lemma poll_pin_path:
  assumes "pin_inv p" and "input_poll_pin l p = (c, es, p1)"
  shows "pin_inv p1 \<and> pin p1 = pin p \<and> (\<forall>e\<in>set es. ev_key e = pin_key (pin p)) \<and>
    key_path (phase_of p) (map ev_type es) = Some (phase_of p1)"
  using assms
  by (auto simp: input_poll_pin_def Let_def pin_inv_def phase_of_def event_of_def input_constants
      split: if_splits)

lemma u8_le_4:
  assumes "(c :: u8) \<le> 4"
  shows "c \<in> {0, 1, 2, 3, 4}"
proof -
  from assms have "unat c \<le> 4" by (simp add: word_le_nat_alt)
  then have "unat c = 0 \<or> unat c = 1 \<or> unat c = 2 \<or> unat c = 3 \<or> unat c = 4" by arith
  then show ?thesis by (auto simp: word_unat_eq_iff)
qed

lemma timer_path:
  assumes "pin_inv p" and "press_timer p \<noteq> None" and "input_press_timer_callback p = (es, p1)"
  shows "pin_inv p1 \<and> pin p1 = pin p \<and> (\<forall>e\<in>set es. ev_key e = pin_key (pin p)) \<and>
    key_path (phase_of p) (map ev_type es) = Some (phase_of p1)"
proof -
  from assms(1,2) have st: "pin_state p" and le: "press_counter p \<le> 4"
    by (auto simp: pin_inv_def input_constants)
  from st u8_le_4 [OF le] assms show ?thesis
    by (auto simp: input_press_timer_callback_def Let_def pin_inv_def phase_of_def event_of_def
        input_constants)
qed

lemma pin_run_path:
  "pin_inv p \<Longrightarrow> pin_run p xs = (es, p1) \<Longrightarrow>
     pin_inv p1 \<and> pin p1 = pin p \<and> (\<forall>e\<in>set es. ev_key e = pin_key (pin p)) \<and>
     key_path (phase_of p) (map ev_type es) = Some (phase_of p1)"
proof (induction xs arbitrary: p es)
  case (Cons x xs)
  obtain e1 q where 1: "pin_stim p x = (e1, q)" by force
  obtain e2 r where 2: "pin_run q xs = (e2, r)" by force
  have q: "pin_inv q \<and> pin q = pin p \<and> (\<forall>e\<in>set e1. ev_key e = pin_key (pin p)) \<and>
      key_path (phase_of p) (map ev_type e1) = Some (phase_of q)"
  proof (cases x)
    case (Poll l)
    with 1 poll_pin_path [OF Cons.prems(1), of l] show ?thesis by (auto split: prod.splits)
  next
    case Timer_Expired
    with 1 timer_path [OF Cons.prems(1)] Cons.prems(1) show ?thesis
      by (auto split: if_splits)
  qed
  from Cons.prems(2) 1 2 have es: "es = e1 @ e2" and r: "r = p1" by simp_all
  from q have "pin_inv q" ..
  note IH = Cons.IH [OF this 2 [unfolded r]]
  show ?case
    unfolding es using q IH by (simp add: key_path_append ball_Un)
qed simp

section \<open>Several pins\<close>

text \<open>The polling loop polls each pin once; its events are those of the pins.\<close>

lemma input_poll_eq:
  "length ls = length ps \<Longrightarrow>
     input_poll ls ps =
       (\<exists>(l, p)\<in>set (zip ls ps). fst (input_poll_pin l p),
        concat (map2 (\<lambda>l p. fst (snd (input_poll_pin l p))) ls ps),
        map2 (\<lambda>l p. snd (snd (input_poll_pin l p))) ls ps)"
  by (induction ls ps rule: list_induct2) (auto split: prod.splits)

section \<open>Properties\<close>

text \<open>
  C27. The events of a key follow the documented protocol. Whatever levels the polls read and
  whenever the timer expires, the events of a pin are: a press, then at most one long event and,
  after it, repeats, then a release, then a short event exactly if no long event came; then the
  next press. A pin that is down at start begins in the pressed phase.
\<close>

theorem input_key_protocol:
  assumes "pin_run (input_pin_init level p) xs = (es, p1)"
  shows "(\<forall>e\<in>set es. ev_key e = pin_key p) \<and>
     key_path (if gpio_read level p then Key_Down else Key_Up) (map ev_type es) = Some (phase_of p1)"
  using pin_run_path [OF pin_inv_init assms]
  by (auto simp: input_pin_init_def phase_of_def input_constants split: if_splits)

theorem input_key_protocol_witness:
  "key_path (if gpio_read False (input_pins ! 4) then Key_Down else Key_Up)
     (map ev_type [\<lparr>ev_key = InputKeyOk, ev_type = InputTypePress\<rparr>]) = Some Key_Down"
proof -
  let ?p0 = "input_pin_init False (input_pins ! 4)"
  have "pin_run ?p0 [Poll True, Poll True, Poll True, Poll True, Poll True, Poll True, Poll True,
      Poll True, Poll True, Poll True, Poll True] =
    ([\<lparr>ev_key = InputKeyOk, ev_type = InputTypePress\<rparr>],
     ?p0\<lparr>pin_state := True, debounce := 20, press_timer := Some 200\<rparr>)"
    by (simp add: input_poll_pin_def input_pin_init_def input_pins_def gpio_read_def input_constants
        event_of_def Let_def)
  from input_key_protocol [OF this, THEN conjunct2] show ?thesis
    by (simp add: phase_of_def input_pin_init_def input_constants)
qed

text \<open>
  Debouncing ends for good at the first saturation of the counter: once it has reached 0 or
  \<open>INPUT_DEBOUNCE_TICKS\<close> no poll changes it, and from then on every poll that reads a level
  different from the last one publishes a press or release at once.
\<close>

theorem input_debounce_inert:
  assumes "debounce p \<in> {0, INPUT_DEBOUNCE_TICKS}" and "pin_run p xs = (es, p1)"
  shows "debounce p1 = debounce p \<and>
     (gpio_read level (pin p1) \<noteq> pin_state p1 \<longrightarrow>
       (\<exists>es1 p2. input_poll_pin level p1 =
         (False, event_of p1 (if pin_state p1 then InputTypeRelease else InputTypePress) # es1, p2)))"
proof -
  have step: "debounce (snd (pin_stim q x)) = debounce q" if "debounce q \<in> {0, INPUT_DEBOUNCE_TICKS}" for q x
    using that
    by (cases x) (auto simp: input_poll_pin_def input_press_timer_callback_def Let_def input_constants)
  have deb: "debounce p1 = debounce p"
    using assms
  proof (induction xs arbitrary: p es)
    case (Cons x xs)
    obtain e1 q where 1: "pin_stim p x = (e1, q)" by force
    obtain e2 where 2: "pin_run q xs = (e2, p1)" using Cons.prems(2) 1 by (auto split: prod.splits)
    have "debounce q = debounce p" using step [OF Cons.prems(1), of x] 1 by simp
    with Cons.IH [of q e2] Cons.prems(1) 2 show ?case by simp
  qed simp
  with assms(1) have "debounce p1 \<in> {0, 20}" by (simp add: input_constants)
  with deb show ?thesis
    by (auto simp: input_poll_pin_def Let_def event_of_def input_constants)
qed

theorem input_debounce_inert_witness:
  "debounce (snd (pin_run ((input_pin_init False (input_pins ! 4))\<lparr>debounce := 0\<rparr>) [Poll True, Poll False])) = 0"
proof -
  let ?p = "(input_pin_init False (input_pins ! 4))\<lparr>debounce := 0\<rparr>"
  have "debounce ?p \<in> {0, INPUT_DEBOUNCE_TICKS}" by simp
  from input_debounce_inert [OF this prod.collapse [symmetric], THEN conjunct1]
  show ?thesis by (simp del: pin_run.simps)
qed

text \<open>
  \<^verbatim>\<open>input_send\<close> publishes an event exactly if its argument is a key name, blanks and the
  name of an event type other than repeat, blanks around the type ignored; the event is the one
  named. Anything else publishes nothing and prints one of three messages.
\<close>

theorem input_cli_send_iff:
  "input_cli_send args = Inr e \<longleftrightarrow>
     ev_type e \<noteq> InputTypeRepeat \<and>
     (\<exists>rest. args = name_of_key (ev_key e) @ CHR '' '' # rest \<and>
        string_strim (CHR '' '' # rest) = name_of_type (ev_type e))"
proof -
  have key: "input_key_of_name s = Some k \<longleftrightarrow> s = name_of_key k" for s k
    by (cases k) auto
  have ty: "input_type_of_name s = Some t \<longleftrightarrow> t \<noteq> InputTypeRepeat \<and> s = name_of_type t" for s t
    by (cases t) auto
  have blank: "CHR '' '' \<notin> set (name_of_key k)" for k
    by (cases k) auto
  show ?thesis
  proof
    assume *: "input_cli_send args = Inr e"
    then obtain ws where ws: "string_search_char args CHR '' '' = Some ws"
      and k: "input_key_of_name (take ws args) = Some (ev_key e)"
      and t: "input_type_of_name (string_strim (drop ws args)) = Some (ev_type e)"
      by (auto simp: input_cli_send_def string_right_def Let_def simp del: input_key_of_name.simps
          input_type_of_name.simps split: option.splits)
    from string_search_char_Some [OF ws] have "args = take ws args @ CHR '' '' # drop (Suc ws) args"
      by (metis id_take_nth_drop)
    moreover have "drop ws args = CHR '' '' # drop (Suc ws) args"
      using string_search_char_Some [OF ws] by (metis Cons_nth_drop_Suc)
    ultimately show "ev_type e \<noteq> InputTypeRepeat \<and>
       (\<exists>rest. args = name_of_key (ev_key e) @ CHR '' '' # rest \<and>
          string_strim (CHR '' '' # rest) = name_of_type (ev_type e))"
      using k t unfolding key ty by metis
  next
    assume "ev_type e \<noteq> InputTypeRepeat \<and>
     (\<exists>rest. args = name_of_key (ev_key e) @ CHR '' '' # rest \<and>
        string_strim (CHR '' '' # rest) = name_of_type (ev_type e))"
    then obtain rest where r: "args = name_of_key (ev_key e) @ CHR '' '' # rest"
      and t: "input_type_of_name (string_strim (CHR '' '' # rest)) = Some (ev_type e)"
      unfolding ty by blast
    have "string_search_char args CHR '' '' = Some (length (name_of_key (ev_key e)))"
      unfolding r by (rule string_search_char_append [OF blank])
    moreover have "input_key_of_name (name_of_key (ev_key e)) = Some (ev_key e)"
      by (simp only: key)
    ultimately show "input_cli_send args = Inr e"
      using t by (simp add: input_cli_send_def string_right_def Let_def r
          del: input_key_of_name.simps input_type_of_name.simps)
  qed
qed

end
