(* ===== verification/Flash.thy ===== *)
theory Flash
  imports Prelude
begin

text \<open>
  The flash of the STM32WB55 as the firmware uses it,
  \<^verbatim>\<open>firmware/targets/f6/api-hal/api-hal-flash.c\<close>, and the block device that
  \<^verbatim>\<open>applications/internal-storage/internal-storage.c\<close> makes of it for littlefs. Memory is a
  function from 32-bit addresses to bytes; a double word is its eight bytes, low byte first. The
  answers of the radio core (is the flash granted) and of the HAL (did the operation succeed) are
  arguments.
\<close>

type_synonym flash = "u32 \<Rightarrow> u8"

section \<open>Flash geometry and operations\<close>

definition API_HAL_FLASH_WRITE_BLOCK :: u32 where
  "API_HAL_FLASH_WRITE_BLOCK = 8"

definition API_HAL_FLASH_PAGE_SIZE :: u32 where
  "API_HAL_FLASH_PAGE_SIZE = 4096"

definition FLASH_BASE :: u32 where
  "FLASH_BASE = 0x08000000"

lemmas flash_constants =
  API_HAL_FLASH_WRITE_BLOCK_def API_HAL_FLASH_PAGE_SIZE_def FLASH_BASE_def

text \<open>\<open>free_start\<close> and \<open>free_end\<close> are the borders exported by the linker.\<close>

definition api_hal_flash_get_free_page_start_address :: "u32 \<Rightarrow> u32" where
  "api_hal_flash_get_free_page_start_address free_start =
     (let page_start = free_start - free_start mod API_HAL_FLASH_PAGE_SIZE in
      if page_start \<noteq> free_start then page_start + API_HAL_FLASH_PAGE_SIZE else page_start)"

definition api_hal_flash_get_free_page_count :: "u32 \<Rightarrow> u32 \<Rightarrow> u32" where
  "api_hal_flash_get_free_page_count free_start free_end =
     (free_end - api_hal_flash_get_free_page_start_address free_start) div API_HAL_FLASH_PAGE_SIZE"

definition flash_program :: "u32 \<Rightarrow> u8 list \<Rightarrow> flash \<Rightarrow> flash" where
  "flash_program address bytes m =
     (\<lambda>a. if unat (a - address) < length bytes then bytes ! unat (a - address) else m a)"

definition api_hal_flash_write_dword :: "bool \<Rightarrow> bool \<Rightarrow> u32 \<Rightarrow> u8 list \<Rightarrow> flash \<Rightarrow> bool \<times> flash" where
  "api_hal_flash_write_dword lock ok address bytes m =
     (if \<not> lock then (False, m)
      else if ok then (True, flash_program address bytes m) else (False, m))"

definition api_hal_flash_erase :: "bool \<Rightarrow> bool \<Rightarrow> u8 \<Rightarrow> u8 \<Rightarrow> flash \<Rightarrow> bool \<times> flash" where
  "api_hal_flash_erase lock ok page n_pages m =
     (if \<not> lock then (False, m)
      else if ok then
        (True, \<lambda>a. let k = unat ((a - FLASH_BASE) div API_HAL_FLASH_PAGE_SIZE)
                   in if unat page \<le> k \<and> k < unat page + unat n_pages then 0xFF else m a)
      else (False, m))"

section \<open>The block device\<close>

record storage_device =
  start_address :: u32
  start_page :: u32
  block_size :: u32
  prog_size :: u32
  block_count :: u32

definition storage_device_of :: "u32 \<Rightarrow> u32 \<Rightarrow> storage_device" where
  "storage_device_of free_start free_end =
     (let start = api_hal_flash_get_free_page_start_address free_start in
      \<lparr>start_address = start,
       start_page = (start - FLASH_BASE) div API_HAL_FLASH_PAGE_SIZE,
       block_size = API_HAL_FLASH_PAGE_SIZE,
       prog_size = API_HAL_FLASH_WRITE_BLOCK,
       block_count = api_hal_flash_get_free_page_count free_start free_end\<rparr>)"

definition device_address :: "storage_device \<Rightarrow> u32 \<Rightarrow> u32 \<Rightarrow> u32" where
  "device_address dev block off = start_address dev + block * block_size dev + off"

text \<open>\<^verbatim>\<open>internal_storage_device_read\<close>: the bytes copied into the buffer; it returns 0.\<close>

definition internal_storage_device_read :: "storage_device \<Rightarrow> u32 \<Rightarrow> u32 \<Rightarrow> u32 \<Rightarrow> flash \<Rightarrow> int \<times> u8 list" where
  "internal_storage_device_read dev block off sz m =
     (0, map (\<lambda>i. m (device_address dev block off + of_nat i)) [0..<unat sz])"

text \<open>
  The loop of \<^verbatim>\<open>internal_storage_device_prog\<close>. Each turn reads eight bytes of the buffer, a fault
  if fewer are left; \<open>hal\<close> gives the two answers for an address.
\<close>

function device_prog_loop ::
    "(u32 \<Rightarrow> bool \<times> bool) \<Rightarrow> u32 \<Rightarrow> u32 \<Rightarrow> u8 list \<Rightarrow> u32 \<Rightarrow> flash \<Rightarrow> (int \<times> flash) res" where
  "device_prog_loop hal prog address buf sz m =
     (if sz = 0 then Inr (0, m)
      else if length buf < 8 \<or> prog = 0 then Inl Out_Of_Bounds
      else
        (case api_hal_flash_write_dword (fst (hal address)) (snd (hal address)) address (take 8 buf) m of
           (ok, m1) \<Rightarrow>
             if \<not> ok then Inr (- 1, m1)
             else device_prog_loop hal prog (address + prog) (drop (unat prog) buf) (sz - prog) m1))"
  by auto
termination
  by (relation "measure (\<lambda>(_, _, _, buf, _, _). length buf)")
    (auto simp: unat_gt_0 api_hal_flash_write_dword_def split: if_splits intro!: diff_less)

declare device_prog_loop.simps [simp del]

definition internal_storage_device_prog ::
    "(u32 \<Rightarrow> bool \<times> bool) \<Rightarrow> storage_device \<Rightarrow> u32 \<Rightarrow> u32 \<Rightarrow> u8 list \<Rightarrow> u32 \<Rightarrow> flash \<Rightarrow> (int \<times> flash) res" where
  "internal_storage_device_prog hal dev block off buf sz m =
     device_prog_loop hal (prog_size dev) (device_address dev block off) buf sz m"

definition internal_storage_device_erase ::
    "bool \<Rightarrow> bool \<Rightarrow> storage_device \<Rightarrow> u32 \<Rightarrow> flash \<Rightarrow> int \<times> flash" where
  "internal_storage_device_erase lock ok dev block m =
     (case api_hal_flash_erase lock ok (ucast (start_page dev + block)) 1 m of
        (r, m1) \<Rightarrow> (if r then 0 else - 1, m1))"

definition internal_storage_device_sync :: int where
  "internal_storage_device_sync = 0"

section \<open>Programming a range\<close>

lemma flash_program_Nil [simp]: "flash_program a [] m = m"
  by (simp add: flash_program_def)

lemma unat_minus_offset:
  "unat (b - (a + of_nat k)) = unat (b - a) - k" if "k \<le> unat (b - a)" for a b :: u32
proof -
  have "b - (a + of_nat k) = of_nat (unat (b - a) - k)"
    using that by (simp add: of_nat_diff)
  moreover have "unat (b - a) - k < 2 ^ 32"
    using unat_less_u32 [of "b - a"] by simp
  ultimately show ?thesis by (simp add: unat_of_nat_small)
qed

lemma flash_program_append:
  assumes "length xs + length ys \<le> 2 ^ 32"
  shows "flash_program (a + of_nat (length xs)) ys (flash_program a xs m) = flash_program a (xs @ ys) m"
proof
  fix b :: u32
  show "flash_program (a + of_nat (length xs)) ys (flash_program a xs m) b = flash_program a (xs @ ys) m b"
  proof (cases "unat (b - a) < length xs")
    case True
    have "\<not> unat (b - (a + of_nat (length xs))) < length ys"
    proof -
      have "b - (a + of_nat (length xs)) = of_nat (2 ^ 32 + unat (b - a) - length xs)"
        using True assms by (simp add: of_nat_diff)
      moreover have "2 ^ 32 + unat (b - a) - length xs < 2 ^ 32" using True by simp
      ultimately have "unat (b - (a + of_nat (length xs))) = 2 ^ 32 + unat (b - a) - length xs"
        by (simp add: unat_of_nat_small)
      with assms show ?thesis by simp
    qed
    with True show ?thesis by (simp add: flash_program_def nth_append)
  next
    case False
    then have "unat (b - (a + of_nat (length xs))) = unat (b - a) - length xs"
      by (intro unat_minus_offset) simp
    with False show ?thesis by (auto simp: flash_program_def nth_append)
  qed
qed

lemma device_prog_loop_ok:
  assumes "\<And>a. hal a = (True, True)" and "8 dvd sz" and "sz \<le> length buf" and "sz < 2 ^ 32"
  shows "device_prog_loop hal 8 address buf (of_nat sz) m = Inr (0, flash_program address (take sz buf) m)"
  using assms(2-4)
proof (induction sz arbitrary: address buf m rule: less_induct)
  case (less sz)
  show ?case
  proof (cases "sz = 0")
    case True
    then show ?thesis by (simp add: device_prog_loop.simps)
  next
    case False
    with less.prems have ge: "8 \<le> sz" by (simp add: dvd_imp_le)
    have nz: "(of_nat sz :: u32) \<noteq> 0"
      using False less.prems(3) by (intro word_of_nat_nonzero) simp_all
    have "(of_nat sz :: u32) - 8 = of_nat (sz - 8)"
      using ge by (simp add: of_nat_diff)
    moreover have "device_prog_loop hal 8 (address + 8) (drop 8 buf) (of_nat (sz - 8)) (flash_program address (take 8 buf) m)
        = Inr (0, flash_program (address + 8) (take (sz - 8) (drop 8 buf)) (flash_program address (take 8 buf) m))"
      using less.prems ge by (intro less.IH) (auto simp: dvd_diff_nat)
    moreover have "flash_program (address + 8) (take (sz - 8) (drop 8 buf)) (flash_program address (take 8 buf) m)
        = flash_program address (take sz buf) m"
      using flash_program_append [of "take 8 buf" "take (sz - 8) (drop 8 buf)" address m] less.prems ge
      by (simp add: take_add [symmetric])
    ultimately show ?thesis
      using nz less.prems ge assms(1)
      by (subst device_prog_loop.simps) (simp add: api_hal_flash_write_dword_def)
  qed
qed

section \<open>Blocks lie in the free part of the flash\<close>

lemma page_start_ge:
  assumes "unat fs + 4095 < 2 ^ 32"
  shows "unat fs \<le> unat (api_hal_flash_get_free_page_start_address fs)"
proof -
  have m: "unat (fs mod 4096) = unat fs mod 4096" by (simp add: unat_mod)
  have le: "fs mod 4096 \<le> fs" by (simp add: word_le_nat_alt m)
  have p: "unat (fs - fs mod 4096) = unat fs - unat fs mod 4096"
    using le m by (simp add: unat_sub)
  show ?thesis
  proof (cases "fs - fs mod 4096 = fs")
    case True
    then show ?thesis
      by (simp add: api_hal_flash_get_free_page_start_address_def flash_constants Let_def)
  next
    case False
    have "unat fs - unat fs mod 4096 + 4096 < 2 ^ 32 \<or> unat fs mod 4096 = 0"
      using assms by linarith
    moreover have "unat fs mod 4096 \<noteq> 0"
      using False p by (metis diff_zero word_unat_eq_iff)
    ultimately have "unat (fs - fs mod 4096 + 4096) = unat fs - unat fs mod 4096 + 4096"
      using p by (subst unat_plus_if_fits) simp_all
    moreover have "unat fs mod 4096 < 4096" by simp
    ultimately show ?thesis
      using False by (simp add: api_hal_flash_get_free_page_start_address_def flash_constants Let_def)
  qed
qed

lemma device_address_bounds:
  assumes dev: "dev = storage_device_of fs fe"
    and start: "start_address dev \<le> fe" and block: "block < block_count dev"
    and off: "unat off + n \<le> 4096" and n: "0 < n"
  shows "unat (device_address dev block off) = unat (start_address dev) + 4096 * unat block + unat off"
    and "unat (device_address dev block off) + n \<le> unat fe"
proof -
  let ?S = "unat (start_address dev)"
  have "unat (block_count dev) = (unat fe - ?S) div 4096"
    using start by (simp add: dev storage_device_of_def Let_def api_hal_flash_get_free_page_count_def
        flash_constants unat_div unat_sub)
  with block have "unat block < (unat fe - ?S) div 4096"
    by (simp add: word_less_nat_alt)
  then have "4096 * (unat block + 1) \<le> unat fe - ?S"
    by (metis Suc_eq_plus1 Suc_leI less_eq_div_iff_mult_less_eq mult.commute zero_less_numeral)
  moreover have "?S \<le> unat fe" using start by (simp add: word_le_nat_alt)
  ultimately have fit: "?S + 4096 * unat block + 4096 \<le> unat fe" by simp
  have mult: "unat (block * 4096) = 4096 * unat block"
    using fit unat_less_u32 [of fe] by (subst unat_mult_lem [THEN iffD1]) simp_all
  have sum: "unat (start_address dev + block * 4096) = ?S + 4096 * unat block"
    using fit unat_less_u32 [of fe] by (subst unat_plus_if_fits) (simp_all add: mult)
  have bs: "block_size dev = 4096" by (simp add: dev storage_device_of_def Let_def flash_constants)
  show eq: "unat (device_address dev block off) = ?S + 4096 * unat block + unat off"
    unfolding device_address_def bs
    using fit off n unat_less_u32 [of fe] by (subst unat_plus_if_fits) (simp_all add: sum)
  show "unat (device_address dev block off) + n \<le> unat fe"
    using eq fit off by simp
qed

lemma flash_program_outside:
  assumes "unat a + length bytes \<le> 2 ^ 32" and "unat b < unat a \<or> unat a + length bytes \<le> unat b"
  shows "flash_program a bytes m b = m b"
proof -
  have "\<not> unat (b - a) < length bytes"
  proof (cases "a \<le> b")
    case True
    then show ?thesis using assms by (auto simp: unat_sub word_le_nat_alt)
  next
    case False
    then have "unat (b - a) = 2 ^ 32 + unat b - unat a"
      by (auto simp: unat_sub_if' word_le_nat_alt)
    then show ?thesis using assms False by (auto simp: word_le_nat_alt)
  qed
  then show ?thesis by (simp add: flash_program_def)
qed

section \<open>Properties\<close>

text \<open>
  C4. The block device of the internal storage. Programming a block inside the device, with the
  flash granted and working, succeeds; reading the same range gives the programmed bytes;
  reading any range of another block gives what it gave before; and no byte outside the free
  flash, that is no byte of the firmware, is changed.
\<close>

theorem internal_storage_device_prog_read:
  assumes dev: "dev = storage_device_of fs fe"
    and fs: "unat fs + 4095 < 2 ^ 32" and start: "start_address dev \<le> fe"
    and block: "block < block_count dev" and off: "unat off + sz \<le> 4096"
    and sz: "8 dvd sz" "0 < sz" "sz \<le> length buf" and hal: "\<And>a. hal a = (True, True)"
  shows "\<exists>m1. internal_storage_device_prog hal dev block off buf (of_nat sz) m = Inr (0, m1) \<and>
     internal_storage_device_read dev block off (of_nat sz) m1 = (0, take sz buf) \<and>
     (\<forall>block1 off1 n. block1 < block_count dev \<and> block1 \<noteq> block \<and> unat off1 + unat n \<le> 4096 \<longrightarrow>
        internal_storage_device_read dev block1 off1 n m1 = internal_storage_device_read dev block1 off1 n m) \<and>
     (\<forall>a. a < fs \<or> fe \<le> a \<longrightarrow> m1 a = m a)"
proof -
  let ?a = "device_address dev block off"
  let ?m1 = "flash_program ?a (take sz buf) m"
  note ab = device_address_bounds [OF dev start block off sz(2)]
  have sz32: "sz < 2 ^ 32" using off by simp
  have len: "length (take sz buf) = sz" using sz(3) by simp
  have ps: "prog_size dev = 8" by (simp add: dev storage_device_of_def Let_def flash_constants)
  have prog: "internal_storage_device_prog hal dev block off buf (of_nat sz) m = Inr (0, ?m1)"
    unfolding internal_storage_device_prog_def ps
    by (rule device_prog_loop_ok [OF hal sz(1,3) sz32])
  have fits: "unat ?a + length (take sz buf) \<le> 2 ^ 32"
    using ab(2) unat_less_u32 [of fe] len by simp
  have read: "internal_storage_device_read dev block off (of_nat sz) ?m1 = (0, take sz buf)"
  proof -
    have "unat (?a + of_nat i - ?a) = i" if "i < sz" for i
      using that sz32 by (simp add: unat_of_nat_small)
    then have "map (\<lambda>i. ?m1 (?a + of_nat i)) [0..<sz] = map (\<lambda>i. take sz buf ! i) [0..<sz]"
      using len by (intro map_cong) (auto simp: flash_program_def)
    also have "\<dots> = take sz buf" using len by (metis map_nth)
    finally show ?thesis
      using sz32 by (simp add: internal_storage_device_read_def unat_of_nat_small)
  qed
  have other: "internal_storage_device_read dev block1 off1 n ?m1 = internal_storage_device_read dev block1 off1 n m"
    if b1: "block1 < block_count dev" "block1 \<noteq> block" "unat off1 + unat n \<le> 4096" for block1 off1 n
  proof -
    have "?m1 (device_address dev block1 off1 + of_nat i) = m (device_address dev block1 off1 + of_nat i)"
      if i: "i < unat n" for i
    proof (rule flash_program_outside [OF fits])
      from i have "0 < unat n" by simp
      note bb = device_address_bounds [OF dev start b1(1,3) this]
      have "i < 2 ^ 32" using i unat_less_u32 [of n] by simp
      then have "unat (device_address dev block1 off1 + of_nat i) = unat (device_address dev block1 off1) + i"
        using bb(2) i unat_less_u32 [of fe] by (subst unat_plus_if_fits) (simp_all add: unat_of_nat_small)
      moreover have "unat block1 < unat block \<or> unat block < unat block1"
        using b1(2) by (metis linorder_neqE_nat word_unat_eq_iff)
      then have "4096 * unat block1 + 4096 \<le> 4096 * unat block \<or> 4096 * unat block + 4096 \<le> 4096 * unat block1"
        by auto
      ultimately show "unat (device_address dev block1 off1 + of_nat i) < unat ?a \<or>
          unat ?a + length (take sz buf) \<le> unat (device_address dev block1 off1 + of_nat i)"
        using ab(1) bb(1) i b1(3) off len by linarith
    qed
    then show ?thesis by (simp add: internal_storage_device_read_def)
  qed
  have out: "?m1 a = m a" if a: "a < fs \<or> fe \<le> a" for a
  proof (rule flash_program_outside [OF fits])
    have "start_address dev = api_hal_flash_get_free_page_start_address fs"
      by (simp add: dev storage_device_of_def Let_def)
    with page_start_ge [OF fs] have "unat fs \<le> unat ?a" using ab(1) by simp
    with a ab(2) len show "unat a < unat ?a \<or> unat ?a + length (take sz buf) \<le> unat a"
      by (auto simp: word_less_nat_alt word_le_nat_alt)
  qed
  from prog read other out show ?thesis by blast
qed

theorem internal_storage_device_prog_read_witness:
  "\<exists>m1. internal_storage_device_prog (\<lambda>_. (True, True)) (storage_device_of 0x08060010 0x080C0000) 2 16
       [1, 2, 3, 4, 5, 6, 7, 8] 8 (\<lambda>_. 0xFF) = Inr (0, m1) \<and>
     internal_storage_device_read (storage_device_of 0x08060010 0x080C0000) 2 16 8 m1 =
       (0, [1, 2, 3, 4, 5, 6, 7, 8])"
  using internal_storage_device_prog_read [OF refl, where fs = "0x08060010" and fe = "0x080C0000" and
      block = 2 and off = 16 and sz = 8 and buf = "[1, 2, 3, 4, 5, 6, 7, 8]" and
      hal = "\<lambda>_. (True, True)" and m = "\<lambda>_. 0xFF"]
  by (auto simp: storage_device_of_def api_hal_flash_get_free_page_start_address_def
      api_hal_flash_get_free_page_count_def flash_constants Let_def)

end
