(* ===== verification/InternalStorage.thy ===== *)
theory InternalStorage
  imports Flash
begin

text \<open>
  The internal storage service, \<^verbatim>\<open>applications/internal-storage/internal-storage.c\<close>: bringing the
  file system up, reading and writing a key (a file), and the queue through which other threads
  call the service. littlefs is a submodule: its functions are a record of parameters over an
  abstract file system state \<open>'l\<close> and file handle \<open>'f\<close>. The block device below it is theory
  \<open>Flash\<close>.
\<close>

section \<open>littlefs\<close>

datatype open_mode = Open_Read | Open_Write_Create_Truncate

record ('l, 'f) lfs_api =
  lfs_format :: "'l \<Rightarrow> int \<times> 'l"
  lfs_mount :: "'l \<Rightarrow> int \<times> 'l"
  lfs_file_open :: "string \<Rightarrow> open_mode \<Rightarrow> 'l \<Rightarrow> (int \<times> 'f) \<times> 'l"
  lfs_file_read :: "nat \<Rightarrow> 'f \<Rightarrow> 'l \<Rightarrow> (int \<times> u8 list \<times> 'f) \<times> 'l"
  lfs_file_write :: "u8 list \<Rightarrow> 'f \<Rightarrow> 'l \<Rightarrow> (int \<times> 'f) \<times> 'l"
  lfs_file_close :: "'f \<Rightarrow> 'l \<Rightarrow> int \<times> 'l"

section \<open>Start of the service\<close>

datatype internal_storage_state =
    InternalStorageStateInitializing
  | InternalStorageStateReady
  | InternalStorageStateBroken

text \<open>The calls that matter for the user's data, in order.\<close>

datatype storage_call = Call_Format | Call_Mount | Set_Boot_Flags u32

definition mount_or_break ::
    "('l, 'f) lfs_api \<Rightarrow> storage_call list \<Rightarrow> 'l \<Rightarrow> internal_storage_state \<times> storage_call list \<times> 'l" where
  "mount_or_break api cs l =
     (case lfs_mount api l of (err, l1) \<Rightarrow>
        ((if err = 0 then InternalStorageStateReady else InternalStorageStateBroken),
         cs @ [Call_Mount], l1))"

definition ApiHalBootFlagFactoryReset :: u32 where
  "ApiHalBootFlagFactoryReset = 1"

text \<open>\<open>storage_startup\<close>: \<^verbatim>\<open>internal_storage_task\<close> up to the publication of the record.\<close>

definition storage_startup ::
    "('l, 'f) lfs_api \<Rightarrow> u32 \<Rightarrow> 'l \<Rightarrow> internal_storage_state \<times> storage_call list \<times> 'l" where
  "storage_startup api boot_flags l =
     (if and boot_flags ApiHalBootFlagFactoryReset \<noteq> 0 then
        (case lfs_format api l of (err, l1) \<Rightarrow>
           if err = 0 then
             mount_or_break api
               [Call_Format, Set_Boot_Flags (and boot_flags (not ApiHalBootFlagFactoryReset))] l1
           else (InternalStorageStateBroken, [Call_Format], l1))
      else
        (case lfs_mount api l of (err, l1) \<Rightarrow>
           if err = 0 then (InternalStorageStateReady, [Call_Mount], l1)
           else
             (case lfs_format api l1 of (err1, l2) \<Rightarrow>
                if err1 = 0 then mount_or_break api [Call_Mount, Call_Format] l2
                else (InternalStorageStateBroken, [Call_Mount, Call_Format], l2))))"

section \<open>Reading and writing a key\<close>

record storage_key_data =
  key_name :: string
  key_buffer :: "u8 list"
  key_size :: nat
  key_ret :: int

definition storage_read_key ::
    "('l, 'f) lfs_api \<Rightarrow> storage_key_data \<Rightarrow> 'l \<Rightarrow> storage_key_data \<times> 'l" where
  "storage_read_key api d l =
     (case lfs_file_open api (key_name d) Open_Read l of ((ret, file), l1) \<Rightarrow>
        if ret = 0 then
          (case lfs_file_read api (key_size d) file l1 of ((ret1, bytes, file1), l2) \<Rightarrow>
             case lfs_file_close api file1 l2 of (_, l3) \<Rightarrow>
               (d\<lparr>key_buffer := bytes @ drop (length bytes) (key_buffer d), key_ret := ret1\<rparr>, l3))
        else (d\<lparr>key_ret := ret\<rparr>, l1))"

definition storage_write_key ::
    "('l, 'f) lfs_api \<Rightarrow> storage_key_data \<Rightarrow> 'l \<Rightarrow> storage_key_data \<times> 'l" where
  "storage_write_key api d l =
     (case lfs_file_open api (key_name d) Open_Write_Create_Truncate l of ((ret, file), l1) \<Rightarrow>
        if ret = 0 then
          (case lfs_file_write api (take (key_size d) (key_buffer d)) file l1 of ((ret1, file1), l2) \<Rightarrow>
             case lfs_file_close api file1 l2 of (_, l3) \<Rightarrow> (d\<lparr>key_ret := ret1\<rparr>, l3))
        else (d\<lparr>key_ret := ret\<rparr>, l1))"

section \<open>The queue of calls\<close>

text \<open>
  A command carries the caller's thread id, the function, and a pointer to data on the caller's
  stack; the data of a thread's call is \<open>frames t\<close>. \<open>flags\<close> holds the threads whose
  \<open>CALL_COMPLETE\<close> flag is pending. The service takes one command at a time, runs it on the frame
  of the caller and sets the caller's flag; the caller waits for the flag, clears it and returns
  what its frame holds.
\<close>

datatype storage_function = Read_Key | Write_Key

record storage_command =
  cmd_thread :: nat
  cmd_function :: storage_function

record 'l storage_system =
  queue :: "storage_command list"
  frames :: "nat \<Rightarrow> storage_key_data option"
  flags :: "nat set"
  lfs :: 'l

datatype storage_event =
    Storage_Call nat storage_function string "u8 list" nat
  | Storage_Serve nat storage_key_data
  | Storage_Return nat int "u8 list"

definition run_function ::
    "('l, 'f) lfs_api \<Rightarrow> storage_function \<Rightarrow> storage_key_data \<Rightarrow> 'l \<Rightarrow> storage_key_data \<times> 'l" where
  "run_function api fn d l =
     (case fn of Read_Key \<Rightarrow> storage_read_key api d l | Write_Key \<Rightarrow> storage_write_key api d l)"

text \<open>One turn of the service. The frame of a caller that has returned meanwhile is gone from its stack.\<close>

definition storage_serve ::
    "('l, 'f) lfs_api \<Rightarrow> storage_command \<Rightarrow> 'l storage_system \<Rightarrow> (storage_key_data \<times> 'l storage_system) res" where
  "storage_serve api c s =
     (case frames s (cmd_thread c) of
        None \<Rightarrow> Inl Out_Of_Bounds
      | Some d \<Rightarrow>
          (case run_function api (cmd_function c) d (lfs s) of
             (d1, l1) \<Rightarrow>
               Inr (d1, s\<lparr>frames := (frames s)(cmd_thread c \<mapsto> d1),
                         flags := insert (cmd_thread c) (flags s), lfs := l1\<rparr>)))"

definition storage_put ::
    "nat \<Rightarrow> storage_function \<Rightarrow> string \<Rightarrow> u8 list \<Rightarrow> nat \<Rightarrow> 'l storage_system \<Rightarrow> 'l storage_system" where
  "storage_put t fn key buf sz s =
     s\<lparr>frames := (frames s)(t \<mapsto> \<lparr>key_name = key, key_buffer = buf, key_size = sz, key_ret = 0\<rparr>),
       queue := queue s @ [\<lparr>cmd_thread = t, cmd_function = fn\<rparr>]\<rparr>"

definition storage_take :: "nat \<Rightarrow> 'l storage_system \<Rightarrow> 'l storage_system" where
  "storage_take t s = s\<lparr>frames := (frames s)(t := None), flags := flags s - {t}\<rparr>"

text \<open>
  A call as its thread sees it when no other thread calls meanwhile: the command is put into the
  queue; while the thread waits for its flag the service takes the commands in turn; a flag that is
  pending already ends the wait at once. \<open>caller\<close> is null outside of a thread.
\<close>

fun storage_wait ::
    "('l, 'f) lfs_api \<Rightarrow> nat \<Rightarrow> storage_command list \<Rightarrow> 'l storage_system \<Rightarrow> 'l storage_system res" where
  "storage_wait api t [] s = Inr s"
| "storage_wait api t (c # cs) s =
     (if t \<in> flags s then Inr s
      else bindE (storage_serve api c (s\<lparr>queue := cs\<rparr>)) (\<lambda>(_, s1). storage_wait api t cs s1))"

definition internal_storage_call ::
    "('l, 'f) lfs_api \<Rightarrow> storage_function \<Rightarrow> nat option \<Rightarrow> string \<Rightarrow> u8 list \<Rightarrow> nat \<Rightarrow> 'l storage_system \<Rightarrow>
      ((int \<times> u8 list) \<times> 'l storage_system) res" where
  "internal_storage_call api fn caller key buf sz s =
     (case caller of
        None \<Rightarrow> Inr ((- 1, buf), s)
      | Some t \<Rightarrow>
          (let s1 = storage_put t fn key buf sz s in
           bindE (storage_wait api t (queue s1) s1) (\<lambda>s2.
             case frames s2 t of
               None \<Rightarrow> Inl Out_Of_Bounds
             | Some d \<Rightarrow> Inr ((key_ret d, key_buffer d), storage_take t s2))))"

definition internal_storage_read_key ::
    "('l, 'f) lfs_api \<Rightarrow> nat option \<Rightarrow> string \<Rightarrow> u8 list \<Rightarrow> nat \<Rightarrow> 'l storage_system \<Rightarrow>
      ((int \<times> u8 list) \<times> 'l storage_system) res" where
  "internal_storage_read_key api = internal_storage_call api Read_Key"

definition internal_storage_write_key ::
    "('l, 'f) lfs_api \<Rightarrow> nat option \<Rightarrow> string \<Rightarrow> u8 list \<Rightarrow> nat \<Rightarrow> 'l storage_system \<Rightarrow>
      (int \<times> 'l storage_system) res" where
  "internal_storage_write_key api caller key buf sz s =
     bindE (internal_storage_call api Write_Key caller key buf sz s) (\<lambda>((r, _), s1). Inr (r, s1))"

text \<open>Every interleaving of any number of callers with the service, one step at a time.\<close>

inductive storage_step ::
    "('l, 'f) lfs_api \<Rightarrow> 'l storage_system \<Rightarrow> storage_event \<Rightarrow> 'l storage_system \<Rightarrow> bool"
  for api where
  call: "frames s t = None \<Longrightarrow> length (queue s) < 8 \<Longrightarrow>
     storage_step api s (Storage_Call t fn key buf sz) (storage_put t fn key buf sz s)"
| serve: "queue s = c # cs \<Longrightarrow> storage_serve api c (s\<lparr>queue := cs\<rparr>) = Inr (d1, s1) \<Longrightarrow>
     storage_step api s (Storage_Serve (cmd_thread c) d1) s1"
| return: "frames s t = Some d \<Longrightarrow> t \<in> flags s \<Longrightarrow>
     storage_step api s (Storage_Return t (key_ret d) (key_buffer d)) (storage_take t s)"

inductive_cases storage_returnE: "storage_step api s (Storage_Return t r b) s'"

inductive storage_run ::
    "('l, 'f) lfs_api \<Rightarrow> 'l storage_system \<Rightarrow> storage_event list \<Rightarrow> 'l storage_system \<Rightarrow> bool" for api where
  storage_nil: "storage_run api s [] s"
| storage_snoc: "storage_run api s es s1 \<Longrightarrow> storage_step api s1 e s2 \<Longrightarrow>
    storage_run api s (es @ [e]) s2"

text \<open>
  With no stale flag a thread is either idle, or its command is in the queue and its flag is
  clear, or its command was served and its flag is set.
\<close>

definition storage_inv :: "'l storage_system \<Rightarrow> bool" where
  "storage_inv s \<longleftrightarrow>
     distinct (map cmd_thread (queue s)) \<and>
     (\<forall>c\<in>set (queue s). frames s (cmd_thread c) \<noteq> None \<and> cmd_thread c \<notin> flags s) \<and>
     (\<forall>t\<in>flags s. frames s t \<noteq> None)"

lemma storage_inv_step: "storage_step api s e s' \<Longrightarrow> storage_inv s \<Longrightarrow> storage_inv s'"
proof (induction rule: storage_step.induct)
  case (call s t fn key buf sz)
  then show ?case by (fastforce simp: storage_inv_def storage_put_def)
next
  case (serve s c cs d1 s1)
  then have "\<forall>c1\<in>set cs. cmd_thread c1 \<noteq> cmd_thread c"
    by (auto simp: storage_inv_def) (metis image_eqI)
  with serve show ?case
    by (auto simp: storage_inv_def storage_serve_def split: option.splits prod.splits)
next
  case (return s t d)
  then show ?case by (fastforce simp: storage_inv_def storage_take_def)
qed

text \<open>The answer the service gave to the latest call of a thread, if it has given one.\<close>

fun answer_step :: "nat \<Rightarrow> storage_key_data option \<Rightarrow> storage_event \<Rightarrow> storage_key_data option" where
  "answer_step t a (Storage_Call t1 fn key buf sz) = (if t1 = t then None else a)"
| "answer_step t a (Storage_Serve t1 d) = (if t1 = t then Some d else a)"
| "answer_step t a (Storage_Return t1 r b) = a"

definition answer :: "nat \<Rightarrow> storage_event list \<Rightarrow> storage_key_data option" where
  "answer t es = foldl (answer_step t) None es"

lemma answer_snoc [simp]: "answer t (es @ [e]) = answer_step t (answer t es) e"
  by (simp add: answer_def)

definition served_inv :: "storage_event list \<Rightarrow> 'l storage_system \<Rightarrow> bool" where
  "served_inv es s \<longleftrightarrow> storage_inv s \<and> (\<forall>t\<in>flags s. answer t es = frames s t)"

lemma served_inv_step:
  assumes st: "storage_step api s e s'" and inv: "served_inv es s"
  shows "served_inv (es @ [e]) s'"
proof -
  have "storage_inv s'" using st inv by (auto simp: served_inv_def intro: storage_inv_step)
  moreover have "\<forall>t\<in>flags s'. answer t (es @ [e]) = frames s' t"
    using st
  proof cases
    case (call t fn key buf sz)
    with inv have "t \<notin> flags s" by (auto simp: served_inv_def storage_inv_def)
    with call inv show ?thesis by (auto simp: served_inv_def storage_put_def)
  qed (use inv in \<open>auto simp: served_inv_def storage_serve_def storage_take_def split: option.splits prod.splits\<close>)
  ultimately show ?thesis by (simp add: served_inv_def)
qed

lemma served_inv_run:
  "storage_run api s es s' \<Longrightarrow> served_inv [] s \<Longrightarrow> served_inv es s'"
  by (induction rule: storage_run.induct) (auto intro: served_inv_step)

text \<open>A call of one thread is one of the interleavings.\<close>

lemma wait_runs:
  assumes "storage_wait api t cs s = Inr s'" and "queue s = cs" and "t \<in> flags s \<or> t \<in> cmd_thread ` set cs"
  shows "\<exists>es. storage_run api s es s' \<and> t \<in> flags s'"
  using assms
proof (induction cs arbitrary: s)
  case Nil
  then show ?case by (auto intro: storage_nil)
next
  case (Cons c cs)
  show ?case
  proof (cases "t \<in> flags s")
    case True
    with Cons.prems show ?thesis by (auto intro: storage_nil)
  next
    case False
    with Cons.prems obtain d1 s1 where 1: "storage_serve api c (s\<lparr>queue := cs\<rparr>) = Inr (d1, s1)"
      and 2: "storage_wait api t cs s1 = Inr s'" by (auto simp: bindE_eq_Inr)
    from 1 False Cons.prems(3) have "queue s1 = cs" "t \<in> flags s1 \<or> t \<in> cmd_thread ` set cs"
      by (auto simp: storage_serve_def split: option.splits prod.splits)
    from Cons.IH [OF 2 this] obtain es where es: "storage_run api s1 es s'" "t \<in> flags s'" by blast
    have "storage_step api s (Storage_Serve (cmd_thread c) d1) s1"
      using storage_step.serve Cons.prems(2) 1 by blast
    with es(1) have "storage_run api s (Storage_Serve (cmd_thread c) d1 # es) s'"
    proof (induction rule: storage_run.induct)
      case (storage_nil s1)
      then show ?case using storage_snoc [OF storage_run.storage_nil] by fastforce
    next
      case (storage_snoc s1 es s2 e s3)
      from storage_run.storage_snoc [OF storage_snoc.IH [OF storage_snoc.prems] storage_snoc.hyps(2)]
      show ?case by simp
    qed
    with es(2) show ?thesis by blast
  qed
qed

lemma run_append: "storage_run api s1 es2 s2 \<Longrightarrow> storage_run api s es1 s1 \<Longrightarrow> storage_run api s (es1 @ es2) s2"
proof (induction rule: storage_run.induct)
  case (storage_snoc s1 es2 s2 e s3)
  from storage_run.storage_snoc [OF storage_snoc.IH [OF storage_snoc.prems] storage_snoc.hyps(2)]
  show ?case by simp
qed simp

lemma call_runs:
  assumes "internal_storage_call api fn (Some t) key buf sz s = Inr ((r, b), s')"
    and "frames s t = None" and "length (queue s) < 8"
  shows "\<exists>es. storage_run api s (Storage_Call t fn key buf sz # es @ [Storage_Return t r b]) s'"
proof -
  let ?s1 = "storage_put t fn key buf sz s"
  from assms(1) obtain s2 d where w: "storage_wait api t (queue ?s1) ?s1 = Inr s2"
    and d: "frames s2 t = Some d" and rb: "r = key_ret d" "b = key_buffer d" "s' = storage_take t s2"
    by (auto simp: internal_storage_call_def Let_def bindE_eq_Inr split: option.splits)
  have "t \<in> flags ?s1 \<or> t \<in> cmd_thread ` set (queue ?s1)" by (simp add: storage_put_def)
  from wait_runs [OF w refl this] obtain es where es: "storage_run api ?s1 es s2" "t \<in> flags s2" by blast
  have "storage_run api s [Storage_Call t fn key buf sz] ?s1"
    using storage_snoc [OF storage_nil storage_step.call [OF assms(2,3)]] by simp
  from run_append [OF es(1) this] have "storage_run api s (Storage_Call t fn key buf sz # es) s2" by simp
  from storage_snoc [OF this storage_step.return [OF d es(2)]] show ?thesis by (auto simp: rb)
qed

text \<open>With an idle service and no flag pending, a call is one turn of the service.\<close>

definition service_idle :: "'l storage_system \<Rightarrow> bool" where
  "service_idle s \<longleftrightarrow> queue s = []"

lemma idle_call:
  assumes "service_idle s" and "t \<notin> flags s"
    and "run_function api fn \<lparr>key_name = key, key_buffer = buf, key_size = sz, key_ret = 0\<rparr> (lfs s) = (d, l1)"
  shows "\<exists>s1. internal_storage_call api fn (Some t) key buf sz s = Inr ((key_ret d, key_buffer d), s1) \<and>
     lfs s1 = l1 \<and> service_idle s1 \<and> flags s1 = flags s"
  using assms
  by (auto simp: internal_storage_call_def service_idle_def storage_put_def storage_serve_def storage_take_def Let_def)

section \<open>The contract of the file system\<close>

text \<open>
  Documented behaviour of littlefs on a medium without read errors: \<open>files\<close> is the content of the
  file system; \<open>handle\<close> tells of a handle open for writing its name and the bytes written so
  far, and of one open for reading the bytes it delivers. Written bytes reach the file when the
  handle is closed without error.
\<close>

definition lfs_contract ::
    "('l, 'f) lfs_api \<Rightarrow> ('l \<Rightarrow> string \<Rightarrow> u8 list option) \<Rightarrow>
      ('f \<Rightarrow> (string \<times> u8 list) + u8 list) \<Rightarrow> bool" where
  "lfs_contract api files handle \<longleftrightarrow>
     (\<forall>k l f l1. lfs_file_open api k Open_Write_Create_Truncate l = ((0, f), l1) \<longrightarrow>
        handle f = Inl (k, []) \<and> (\<forall>j. j \<noteq> k \<longrightarrow> files l1 j = files l j)) \<and>
     (\<forall>k c bs f l r f1 l1. handle f = Inl (k, c) \<and> lfs_file_write api bs f l = ((r, f1), l1) \<and> 0 \<le> r \<longrightarrow>
        r = int (length bs) \<and> handle f1 = Inl (k, c @ bs) \<and> (\<forall>j. j \<noteq> k \<longrightarrow> files l1 j = files l j)) \<and>
     (\<forall>k c f l l1. handle f = Inl (k, c) \<and> lfs_file_close api f l = (0, l1) \<longrightarrow>
        files l1 = (files l)(k \<mapsto> c)) \<and>
     (\<forall>k l. files l k \<noteq> None \<longrightarrow> fst (fst (lfs_file_open api k Open_Read l)) = 0) \<and>
     (\<forall>k l f l1. lfs_file_open api k Open_Read l = ((0, f), l1) \<longrightarrow>
        files l k = (case handle f of Inl _ \<Rightarrow> None | Inr c \<Rightarrow> Some c) \<and> files l1 = files l) \<and>
     (\<forall>n c f l r bs f1 l1. handle f = Inr c \<and> lfs_file_read api n f l = ((r, bs, f1), l1) \<longrightarrow>
        r = int (length bs) \<and> bs = take n c \<and> (\<exists>c1. handle f1 = Inr c1) \<and> files l1 = files l) \<and>
     (\<forall>c f l. handle f = Inr c \<longrightarrow> files (snd (lfs_file_close api f l)) = files l)"

lemma lfs_contractD:
  assumes "lfs_contract api files handle"
  shows "lfs_file_open api k Open_Write_Create_Truncate l = ((0, f), l1) \<Longrightarrow>
      handle f = Inl (k, []) \<and> (\<forall>j. j \<noteq> k \<longrightarrow> files l1 j = files l j)"
    and "handle f = Inl (k, c) \<Longrightarrow> lfs_file_write api bs f l = ((r, f1), l1) \<Longrightarrow> 0 \<le> r \<Longrightarrow>
      r = int (length bs) \<and> handle f1 = Inl (k, c @ bs) \<and> (\<forall>j. j \<noteq> k \<longrightarrow> files l1 j = files l j)"
    and "handle f = Inl (k, c) \<Longrightarrow> lfs_file_close api f l = (0, l1) \<Longrightarrow> files l1 = (files l)(k \<mapsto> c)"
    and "files l k = Some c \<Longrightarrow> fst (fst (lfs_file_open api k Open_Read l)) = 0"
    and "lfs_file_open api k Open_Read l = ((0, f), l1) \<Longrightarrow> files l k = Some c \<Longrightarrow>
      handle f = Inr c \<and> files l1 = files l"
    and "handle f = Inr c \<Longrightarrow> lfs_file_read api n f l = ((r, bs, f1), l1) \<Longrightarrow>
      r = int (length bs) \<and> bs = take n c \<and> (\<exists>c1. handle f1 = Inr c1) \<and> files l1 = files l"
    and "handle f = Inr c \<Longrightarrow> files (snd (lfs_file_close api f l)) = files l"
proof -
  note c = assms [unfolded lfs_contract_def]
  note r1 = c [THEN conjunct2]
  note r2 = r1 [THEN conjunct2]
  note r3 = r2 [THEN conjunct2]
  note r4 = r3 [THEN conjunct2]
  note r5 = r4 [THEN conjunct2]
  show "lfs_file_open api k Open_Write_Create_Truncate l = ((0, f), l1) \<Longrightarrow>
      handle f = Inl (k, []) \<and> (\<forall>j. j \<noteq> k \<longrightarrow> files l1 j = files l j)"
    using c [THEN conjunct1] by blast
  show "handle f = Inl (k, c) \<Longrightarrow> lfs_file_write api bs f l = ((r, f1), l1) \<Longrightarrow> 0 \<le> r \<Longrightarrow>
      r = int (length bs) \<and> handle f1 = Inl (k, c @ bs) \<and> (\<forall>j. j \<noteq> k \<longrightarrow> files l1 j = files l j)"
    using r1 [THEN conjunct1] by blast
  show "handle f = Inl (k, c) \<Longrightarrow> lfs_file_close api f l = (0, l1) \<Longrightarrow> files l1 = (files l)(k \<mapsto> c)"
    using r2 [THEN conjunct1] by blast
  show "files l k = Some c \<Longrightarrow> fst (fst (lfs_file_open api k Open_Read l)) = 0"
    using r3 [THEN conjunct1] by simp
  show "handle f = Inr c \<and> files l1 = files l"
    if "lfs_file_open api k Open_Read l = ((0, f), l1)" "files l k = Some c"
  proof -
    from r4 [THEN conjunct1] that(1)
    have "files l k = (case handle f of Inl _ \<Rightarrow> None | Inr c \<Rightarrow> Some c) \<and> files l1 = files l" by blast
    with that(2) show ?thesis by (auto split: sum.splits)
  qed
  show "handle f = Inr c \<Longrightarrow> lfs_file_read api n f l = ((r, bs, f1), l1) \<Longrightarrow>
      r = int (length bs) \<and> bs = take n c \<and> (\<exists>c1. handle f1 = Inr c1) \<and> files l1 = files l"
    using r5 [THEN conjunct1] by blast
  show "handle f = Inr c \<Longrightarrow> files (snd (lfs_file_close api f l)) = files l"
    using r5 [THEN conjunct2] by blast
qed

lemma storage_write_key_files:
  assumes con: "lfs_contract api files handle"
    and close: "\<And>f l. fst (lfs_file_close api f l) = 0"
    and idle: "service_idle s" "t \<notin> flags s"
    and w: "internal_storage_write_key api (Some t) k buf sz s = Inr (r, s1)"
    and r: "0 \<le> r" and len: "0 < sz"  "sz \<le> length buf"
    and opened: "fst (fst (lfs_file_open api k Open_Write_Create_Truncate (lfs s))) = 0"
  shows "r = int sz \<and> files (lfs s1) = (files (lfs s))(k \<mapsto> take sz buf) \<and> service_idle s1 \<and> flags s1 = flags s"
proof -
  let ?l = "lfs s"
  let ?d = "\<lparr>key_name = k, key_buffer = buf, key_size = sz, key_ret = 0\<rparr>"
  obtain f la where 1: "lfs_file_open api k Open_Write_Create_Truncate ?l = ((0, f), la)"
    using opened by (metis prod.collapse)
  obtain r1 f1 lb where 2: "lfs_file_write api (take sz buf) f la = ((r1, f1), lb)"
    by (metis surj_pair)
  obtain lc where 3: "lfs_file_close api f1 lb = (0, lc)"
    using close by (metis prod.collapse)
  from 1 2 3 have "run_function api Write_Key ?d ?l = (?d\<lparr>key_ret := r1\<rparr>, lc)"
    by (simp add: run_function_def storage_write_key_def)
  from idle_call [OF idle this] obtain s2 where
    c: "internal_storage_call api Write_Key (Some t) k buf sz s = Inr ((r1, buf), s2)"
    and s2: "lfs s2 = lc" "service_idle s2" "flags s2 = flags s" by auto
  from w c have "r1 = r" "s1 = s2" by (simp_all add: internal_storage_write_key_def)
  with s2 have res: "r1 = r" "lfs s1 = lc" "service_idle s1" "flags s1 = flags s" by simp_all
  note o = lfs_contractD(1) [OF con 1]
  note wr = lfs_contractD(2) [OF con conjunct1 [OF o] 2]
  from wr r res have wr': "r = int (length (take sz buf))" "handle f1 = Inl (k, take sz buf)"
    "\<forall>j. j \<noteq> k \<longrightarrow> files lb j = files la j" by auto
  from lfs_contractD(3) [OF con wr'(2) 3] have "files lc = (files lb)(k \<mapsto> take sz buf)" .
  also have "\<dots> = (files ?l)(k \<mapsto> take sz buf)"
    using wr'(3) o by (auto simp: fun_eq_iff)
  finally show ?thesis using wr'(1) len res by simp
qed

lemma storage_read_key_files:
  assumes con: "lfs_contract api files handle" and c: "files (lfs s) k = Some c"
    and idle: "service_idle s" "t \<notin> flags s"
  shows "\<exists>s1. internal_storage_read_key api (Some t) k buf sz s =
       Inr ((int (length (take sz c)), take sz c @ drop (length (take sz c)) buf), s1) \<and>
     files (lfs s1) = files (lfs s) \<and> service_idle s1 \<and> flags s1 = flags s"
proof -
  let ?l = "lfs s"
  let ?d = "\<lparr>key_name = k, key_buffer = buf, key_size = sz, key_ret = 0\<rparr>"
  obtain f la where 1: "lfs_file_open api k Open_Read ?l = ((0, f), la)"
    using lfs_contractD(4) [OF con c] by (metis prod.collapse)
  obtain r1 bs f1 lb where 2: "lfs_file_read api sz f la = ((r1, bs, f1), lb)"
    by (metis surj_pair)
  obtain e lc where 3: "lfs_file_close api f1 lb = (e, lc)" by force
  from 1 2 3 have "run_function api Read_Key ?d ?l =
      (?d\<lparr>key_buffer := bs @ drop (length bs) buf, key_ret := r1\<rparr>, lc)"
    by (simp add: run_function_def storage_read_key_def)
  from idle_call [OF idle this] obtain s1 where
    s1: "internal_storage_read_key api (Some t) k buf sz s = Inr ((r1, bs @ drop (length bs) buf), s1)"
      "lfs s1 = lc" "service_idle s1" "flags s1 = flags s"
    by (auto simp: internal_storage_read_key_def)
  note o = lfs_contractD(5) [OF con 1 c]
  note rf = lfs_contractD(6) [OF con conjunct1 [OF o] 2]
  from rf obtain c1 where "handle f1 = Inr c1" by blast
  from lfs_contractD(7) [OF con this, of lb] 3 have "files lc = files lb" by simp
  with s1(2) o rf have "r1 = int (length (take sz c))" "bs = take sz c" "files (lfs s1) = files (lfs s)"
    by simp_all
  with s1 show ?thesis by simp
qed

section \<open>A file system in memory\<close>

text \<open>
  An instance of the contract, for the witnesses: files are a map, a handle is its name and the
  bytes written, or the bytes to read. \<open>closes\<close> is what closing a written file returns.
\<close>

definition mem_lfs ::
    "int \<Rightarrow> (string \<Rightarrow> u8 list option, (string \<times> u8 list) + u8 list) lfs_api" where
  "mem_lfs closes =
     \<lparr>lfs_format = (\<lambda>l. (0, \<lambda>_. None)),
      lfs_mount = (\<lambda>l. (0, l)),
      lfs_file_open = (\<lambda>k m l. case m of
          Open_Write_Create_Truncate \<Rightarrow> ((0, Inl (k, [])), l)
        | Open_Read \<Rightarrow> (case l k of None \<Rightarrow> ((- 2, Inr []), l) | Some c \<Rightarrow> ((0, Inr c), l))),
      lfs_file_read = (\<lambda>n f l. case f of
          Inl x \<Rightarrow> ((- 9, [], f), l) | Inr c \<Rightarrow> ((int (length (take n c)), take n c, Inr (drop n c)), l)),
      lfs_file_write = (\<lambda>bs f l. case f of
          Inl (k, c) \<Rightarrow> ((int (length bs), Inl (k, c @ bs)), l) | Inr c \<Rightarrow> ((- 9, f), l)),
      lfs_file_close = (\<lambda>f l. case f of
          Inl (k, c) \<Rightarrow> (closes, if closes = 0 then l(k \<mapsto> c) else l) | Inr c \<Rightarrow> (0, l))\<rparr>"

lemma mem_lfs_contract: "lfs_contract (mem_lfs closes) (\<lambda>l. l) (\<lambda>f. f)"
  unfolding lfs_contract_def mem_lfs_def
  by (intro conjI allI impI) (auto split: option.splits sum.splits prod.splits)

section \<open>Properties\<close>

text \<open>
  C28. A key keeps what was written to it. On a file system that works as documented, with the
  service idle and no completion flag of the calling threads pending (a pending flag ends the wait
  before the service has run, as a lemma below shows), when the file was opened and closed without
  error and a write of \<open>sz\<close> bytes is answered with a result that is not negative, the result is \<open>sz\<close>;
  a read of the key by any such thread then returns \<open>sz\<close> with those bytes in the buffer, and every
  other key is as before. Both calls go through the queue and the wait for the flag.
\<close>

theorem internal_storage_write_read:
  assumes con: "lfs_contract api files handle"
    and close: "\<And>f l. fst (lfs_file_close api f l) = 0"
    and opened: "fst (fst (lfs_file_open api k Open_Write_Create_Truncate (lfs s))) = 0"
    and len: "0 < sz" "sz \<le> length buf"
    and idle: "service_idle s" "t \<notin> flags s" "t1 \<notin> flags s"
    and w: "internal_storage_write_key api (Some t) k buf sz s = Inr (r, s1)" and r: "0 \<le> r"
  shows "r = int sz \<and>
     (\<exists>s2. internal_storage_read_key api (Some t1) k buf1 sz s1 = Inr ((int sz, take sz buf @ drop sz buf1), s2)) \<and>
     (\<forall>j. j \<noteq> k \<longrightarrow> files (lfs s1) j = files (lfs s) j)"
proof -
  from storage_write_key_files [OF con close idle(1,2) w r len opened]
  have f: "r = int sz" "files (lfs s1) = (files (lfs s))(k \<mapsto> take sz buf)" "service_idle s1" "flags s1 = flags s"
    by auto
  have "files (lfs s1) k = Some (take sz buf)" using f(2) by simp
  from storage_read_key_files [OF con this f(3), of t1 buf1 sz] f idle(3) len show ?thesis
    by (auto simp: min_absorb2)
qed

definition idle_storage :: "'l \<Rightarrow> 'l storage_system" where
  "idle_storage l = \<lparr>queue = [], frames = (\<lambda>_. None), flags = {}, lfs = l\<rparr>"

lemma idle_storage_simps [simp]:
  "service_idle (idle_storage l)" "flags (idle_storage l) = {}" "lfs (idle_storage l) = l"
  by (simp_all add: idle_storage_def service_idle_def)

theorem internal_storage_write_read_witness:
  "\<exists>s1 s2. internal_storage_write_key (mem_lfs 0) (Some 1) ''k'' [7, 8] 2 (idle_storage [''j'' \<mapsto> [1]]) =
       Inr (2, s1) \<and>
     internal_storage_read_key (mem_lfs 0) (Some 3) ''k'' [0, 0, 0] 2 s1 =
       Inr ((2, take 2 [7, 8] @ drop 2 [0, 0, 0]), s2)"
proof -
  have "\<exists>s1. internal_storage_write_key (mem_lfs 0) (Some 1) ''k'' [7, 8] 2 (idle_storage [''j'' \<mapsto> [1]]) =
       Inr (2, s1)"
    by (simp add: mem_lfs_def internal_storage_write_key_def internal_storage_call_def storage_put_def
        storage_serve_def run_function_def storage_write_key_def idle_storage_def Let_def)
  then obtain s1 where w: "internal_storage_write_key (mem_lfs 0) (Some 1) ''k'' [7, 8] 2
      (idle_storage [''j'' \<mapsto> [1]]) = Inr (2, s1)" by blast
  have "\<exists>s2. internal_storage_read_key (mem_lfs 0) (Some 3) ''k'' [0, 0, 0] 2 s1 =
       Inr ((int 2, take 2 [7, 8] @ drop 2 [0, 0, 0]), s2)"
    using internal_storage_write_read [OF mem_lfs_contract [of 0] _ _ _ _ _ _ _ w,
        where ?t1.0 = 3 and ?buf1.0 = "[0, 0, 0]"]
    by (simp add: mem_lfs_def split: sum.split)
  with w show ?thesis by auto
qed

text \<open>
  The answer of \<^verbatim>\<open>lfs_file_close\<close>, where littlefs commits the file, is dropped: whatever
  code \<open>c\<close> closing answers, for the same effect on the file system, the write returns the same
  number and leaves the same file system. A failed commit is reported as a successful write.
\<close>

lemma internal_storage_write_lost:
  "storage_write_key (api\<lparr>lfs_file_close := (\<lambda>f l. (c, snd (lfs_file_close api f l)))\<rparr>) d l =
   storage_write_key api d l"
  by (simp add: storage_write_key_def split: prod.split)

text \<open>
  Coming up never destroys data that can be mounted. Without a requested factory reset the
  file system is formatted only if mounting it failed first. With a requested reset it is
  formatted before it is mounted, and the request is cleared exactly if the format succeeded.
  The service is ready exactly if the last call, a mount, succeeded; it is never left
  initializing.
\<close>

theorem storage_startup_preserves:
  assumes "storage_startup api boot_flags l = (st, cs, l1)"
  shows "(and boot_flags ApiHalBootFlagFactoryReset = 0 \<longrightarrow>
        (fst (lfs_mount api l) = 0 \<longleftrightarrow> Call_Format \<notin> set cs) \<and> hd cs = Call_Mount \<and>
        (fst (lfs_mount api l) = 0 \<longrightarrow> st = InternalStorageStateReady \<and> l1 = snd (lfs_mount api l))) \<and>
     (and boot_flags ApiHalBootFlagFactoryReset \<noteq> 0 \<longrightarrow>
        hd cs = Call_Format \<and>
        (Set_Boot_Flags (and boot_flags (not ApiHalBootFlagFactoryReset)) \<in> set cs \<longleftrightarrow>
           fst (lfs_format api l) = 0)) \<and>
     st \<noteq> InternalStorageStateInitializing \<and>
     (st = InternalStorageStateReady \<longrightarrow> last cs = Call_Mount)"
  using assms
  by (auto simp: storage_startup_def mount_or_break_def split: prod.splits if_splits)

theorem storage_startup_preserves_witness:
  "Call_Format \<notin> set (fst (snd (storage_startup (mem_lfs 0) 0 [''dolphin_state'' \<mapsto> [1]])))"
  using storage_startup_preserves [where api = "mem_lfs 0" and boot_flags = 0 and
      l = "[''dolphin_state'' \<mapsto> [1]]" and st = InternalStorageStateReady and cs = "[Call_Mount]" and
      ?l1.0 = "[''dolphin_state'' \<mapsto> [1]]"]
  by (simp add: storage_startup_def mem_lfs_def)

text \<open>
  A caller gets the answer to its own call. With no completion flag pending at the start, in
  every interleaving of the callers and the service a call returns what the service computed for
  this call, never earlier.
\<close>

theorem storage_call_returns_answer:
  assumes "queue s = []" and "flags s = {}" and "\<forall>t. frames s t = None"
    and "storage_run api s (es @ [Storage_Return t r b]) s'"
  shows "\<exists>d. answer t es = Some d \<and> r = key_ret d \<and> b = key_buffer d"
proof -
  from assms(4) obtain s1 where run: "storage_run api s es s1"
    and st: "storage_step api s1 (Storage_Return t r b) s'"
    by (cases rule: storage_run.cases) auto
  have "served_inv [] s" using assms(1-3) by (simp add: served_inv_def storage_inv_def)
  with served_inv_run [OF run] have "served_inv es s1" .
  with st show ?thesis by (auto simp: served_inv_def elim!: storage_returnE)
qed

theorem storage_call_returns_answer_witness:
  "\<exists>d. answer 1 [Storage_Call 1 Read_Key ''k'' [0] 1,
       Storage_Serve 1 \<lparr>key_name = ''k'', key_buffer = [9], key_size = 1, key_ret = 1\<rparr>] = Some d \<and>
     1 = key_ret d \<and> [9] = key_buffer d"
proof -
  let ?l = "[''k'' \<mapsto> [9 :: u8]]"
  let ?s0 = "\<lparr>queue = [], frames = (\<lambda>_. None), flags = {}, lfs = ?l\<rparr>"
  let ?d0 = "\<lparr>key_name = ''k'', key_buffer = [0], key_size = 1, key_ret = 0\<rparr>"
  let ?d1 = "\<lparr>key_name = ''k'', key_buffer = [9], key_size = 1, key_ret = 1\<rparr>"
  let ?c = "\<lparr>cmd_thread = 1, cmd_function = Read_Key\<rparr>"
  let ?s1 = "?s0\<lparr>frames := [1 \<mapsto> ?d0], queue := [?c]\<rparr>"
  let ?s2 = "?s1\<lparr>queue := [], frames := [1 \<mapsto> ?d1], flags := {1}\<rparr>"
  let ?s3 = "?s2\<lparr>frames := (\<lambda>_. None), flags := {}\<rparr>"
  have rf: "run_function (mem_lfs 0) Read_Key ?d0 ?l = (?d1, ?l)"
    by (simp add: run_function_def storage_read_key_def mem_lfs_def)
  have 1: "storage_step (mem_lfs 0) ?s0 (Storage_Call 1 Read_Key ''k'' [0] 1) ?s1"
    using storage_step.call [where s = ?s0 and t = 1] by (simp add: storage_put_def)
  have 2: "storage_step (mem_lfs 0) ?s1 (Storage_Serve 1 ?d1) ?s2"
    using storage_step.serve [where s = ?s1 and c = ?c and cs = "[]" and ?d1.0 = ?d1 and ?s1.0 = ?s2 and
        api = "mem_lfs 0"] rf
    by (simp add: storage_serve_def)
  have 3: "storage_step (mem_lfs 0) ?s2 (Storage_Return 1 1 [9]) ?s3"
    using storage_step.return [where s = ?s2 and t = 1 and d = ?d1 and api = "mem_lfs 0"]
    by (simp add: storage_take_def)
  from storage_snoc [OF storage_snoc [OF storage_snoc [OF storage_nil 1] 2] 3]
  have "storage_run (mem_lfs 0) ?s0 ([Storage_Call 1 Read_Key ''k'' [0] 1, Storage_Serve 1 ?d1] @
      [Storage_Return 1 1 [9]]) ?s3"
    by simp
  from storage_call_returns_answer [OF _ _ _ this] show ?thesis by simp
qed

text \<open>
  A stale completion flag breaks this: if the flag of the calling thread is already pending
  (the record service and the input service set the same bit), the call can return 0 with the
  buffer untouched while its command, which points to the caller's frame, is still in the queue.
\<close>

theorem storage_stale_flag:
  assumes "t \<in> flags s" and "frames s t = None" and "length (queue s) < 8"
  shows "\<exists>s'. storage_run api s [Storage_Call t fn key buf sz, Storage_Return t 0 buf] s' \<and>
     \<lparr>cmd_thread = t, cmd_function = fn\<rparr> \<in> set (queue s') \<and> frames s' t = None"
proof -
  let ?d = "\<lparr>key_name = key, key_buffer = buf, key_size = sz, key_ret = 0\<rparr>"
  let ?s1 = "storage_put t fn key buf sz s"
  have 1: "storage_step api s (Storage_Call t fn key buf sz) ?s1"
    using assms(2,3) by (rule storage_step.call)
  have 2: "storage_step api ?s1 (Storage_Return t 0 buf) (storage_take t ?s1)"
    using storage_step.return [where s = ?s1 and t = t and d = ?d] assms(1) by (simp add: storage_put_def)
  from storage_snoc [OF storage_snoc [OF storage_nil 1] 2] show ?thesis
    by (fastforce simp: storage_put_def storage_take_def)
qed

theorem storage_stale_flag_witness:
  "\<exists>s'. storage_run (mem_lfs 0) \<lparr>queue = [], frames = (\<lambda>_. None), flags = {1}, lfs = (\<lambda>_. None)\<rparr>
      [Storage_Call 1 Read_Key ''k'' [0] 1, Storage_Return 1 0 [0]] s'"
  using storage_stale_flag [where t = 1 and fn = Read_Key and key = "''k''" and buf = "[0]" and sz = 1 and
      s = "\<lparr>queue = [], frames = (\<lambda>_. None), flags = {1}, lfs = (\<lambda>_. None)\<rparr>" and api = "mem_lfs 0"]
  by auto

text \<open>The same of the call as its thread sees it: it returns 0, and the file system is untouched.\<close>

lemma stale_flag_does_nothing:
  assumes "t \<in> flags s"
  shows "\<exists>s1. internal_storage_write_key api (Some t) key buf sz s = Inr (0, s1) \<and> lfs s1 = lfs s"
proof -
  have "storage_wait api t cs s0 = Inr s0" if "t \<in> flags s0" for cs s0
    using that by (cases cs) simp_all
  with assms show ?thesis
    by (simp add: internal_storage_write_key_def internal_storage_call_def storage_put_def storage_take_def Let_def)
qed

end
