(* ===== verification/DolphinState.thy ===== *)
theory DolphinState
  imports InternalStorage Float32
begin

text \<open>
  The saved state of the dolphin, \<^verbatim>\<open>applications/dolphin/dolphin_state.c\<close> and
  \<^verbatim>\<open>dolphin_deed.c\<close>: counters kept under a key of the internal storage, with a header and a
  checksum. The C structures have no padding; words are stored low byte first.
\<close>

section \<open>Types\<close>

record dolphin_store_data =
  limit_ibutton :: u32
  limit_nfc :: u32
  limit_ir :: u32
  limit_rfid :: u32
  store_flags :: u32
  icounter :: u32
  butthurt :: u32

record dolphin_store_header =
  magic :: u8
  version :: u8
  checksum :: u8
  header_flags :: u8
  timestamp :: u32

datatype dolphin_deed =
    DolphinDeedIButtonRead
  | DolphinDeedIButtonWrite
  | DolphinDeedIButtonEmulate
  | DolphinDeedWrong

record deed_weight =
  weight_icounter :: "32 word"
  limit_value :: u32
  limit_interval :: u32

section \<open>The bytes of the structures\<close>

definition u32_bytes :: "u32 \<Rightarrow> u8 list" where
  "u32_bytes w = [ucast w, ucast (drop_bit 8 w), ucast (drop_bit 16 w), ucast (drop_bit 24 w)]"

fun u32_of_bytes :: "u8 list \<Rightarrow> u32" where
  "u32_of_bytes (a # b # c # d # _) =
     or (ucast a) (or (push_bit 8 (ucast b)) (or (push_bit 16 (ucast c)) (push_bit 24 (ucast d))))"
| "u32_of_bytes _ = 0"

definition data_bytes :: "dolphin_store_data \<Rightarrow> u8 list" where
  "data_bytes d =
     u32_bytes (limit_ibutton d) @ u32_bytes (limit_nfc d) @ u32_bytes (limit_ir d) @
     u32_bytes (limit_rfid d) @ u32_bytes (store_flags d) @ u32_bytes (icounter d) @
     u32_bytes (butthurt d)"

definition data_of_bytes :: "u8 list \<Rightarrow> dolphin_store_data" where
  "data_of_bytes bs =
     \<lparr>limit_ibutton = u32_of_bytes bs, limit_nfc = u32_of_bytes (drop 4 bs),
      limit_ir = u32_of_bytes (drop 8 bs), limit_rfid = u32_of_bytes (drop 12 bs),
      store_flags = u32_of_bytes (drop 16 bs), icounter = u32_of_bytes (drop 20 bs),
      butthurt = u32_of_bytes (drop 24 bs)\<rparr>"

definition header_bytes :: "dolphin_store_header \<Rightarrow> u8 list" where
  "header_bytes h = [magic h, version h, checksum h, header_flags h] @ u32_bytes (timestamp h)"

definition header_of_bytes :: "u8 list \<Rightarrow> dolphin_store_header" where
  "header_of_bytes bs =
     \<lparr>magic = bs ! 0, version = bs ! 1, checksum = bs ! 2, header_flags = bs ! 3,
      timestamp = u32_of_bytes (drop 4 bs)\<rparr>"

definition store_size :: nat where
  "store_size = 36"

definition byte_sum :: "u8 list \<Rightarrow> u8" where
  "byte_sum bs = foldl (+) 0 bs"

section \<open>Operations\<close>

text \<open>\<open>caller\<close> is the id of the calling thread, \<open>s\<close> the internal storage with its queue and flags.\<close>

definition dolphin_state_save ::
    "('l, 'f) lfs_api \<Rightarrow> nat option \<Rightarrow> dolphin_store_data \<Rightarrow> 'l storage_system \<Rightarrow>
      (bool \<times> 'l storage_system) res" where
  "dolphin_state_save api caller d s =
     (let header = \<lparr>magic = 0xD0, version = 0x01, checksum = byte_sum (data_bytes d),
                    header_flags = 0, timestamp = 0\<rparr>
      in bindE (internal_storage_write_key api caller ''dolphin_state''
                  (header_bytes header @ data_bytes d) store_size s) (\<lambda>(ret, s1).
           Inr (if ret \<noteq> int store_size then (False, s1) else (True, s1))))"

text \<open>\<open>junk\<close>: the bytes of the uninitialised \<^verbatim>\<open>store\<close> on the stack.\<close>

definition dolphin_state_load ::
    "('l, 'f) lfs_api \<Rightarrow> nat option \<Rightarrow> u8 list \<Rightarrow> dolphin_store_data \<Rightarrow> 'l storage_system \<Rightarrow>
      ((bool \<times> dolphin_store_data) \<times> 'l storage_system) res" where
  "dolphin_state_load api caller junk d s =
     bindE (internal_storage_read_key api caller ''dolphin_state'' junk store_size s) (\<lambda>((ret, bytes), s1).
       Inr
         (if ret \<noteq> int store_size then ((False, d), s1)
          else
            (let header = header_of_bytes bytes; body = drop 8 bytes in
             if magic header = 0xD0 \<and> version header = 0x01 then
               (if checksum header = byte_sum (take 28 body)
                then ((True, data_of_bytes body), s1) else ((False, d), s1))
             else ((False, d), s1))))"

definition dolphin_state_clear :: "dolphin_store_data \<Rightarrow> dolphin_store_data" where
  "dolphin_state_clear d =
     \<lparr>limit_ibutton = 0, limit_nfc = 0, limit_ir = 0, limit_rfid = 0, store_flags = 0,
      icounter = 0, butthurt = 0\<rparr>"

text \<open>A store for the witnesses.\<close>

definition demo_store_data :: dolphin_store_data where
  "demo_store_data =
     \<lparr>limit_ibutton = 1, limit_nfc = 2, limit_ir = 3, limit_rfid = 4, store_flags = 5,
      icounter = 6, butthurt = 7\<rparr>"

fun dolphin_deed_weight :: "dolphin_deed \<Rightarrow> deed_weight" where
  "dolphin_deed_weight DolphinDeedIButtonRead =
     \<lparr>weight_icounter = 1, limit_value = 2, limit_interval = 60\<rparr>"
| "dolphin_deed_weight DolphinDeedIButtonWrite =
     \<lparr>weight_icounter = 1, limit_value = 2, limit_interval = 60\<rparr>"
| "dolphin_deed_weight DolphinDeedIButtonEmulate =
     \<lparr>weight_icounter = 1, limit_value = 2, limit_interval = 60\<rparr>"
| "dolphin_deed_weight DolphinDeedWrong =
     \<lparr>weight_icounter = - 1, limit_value = 2, limit_interval = 60\<rparr>"

text \<open>The sum is unsigned; it is then read as a signed number.\<close>

definition dolphin_state_on_deed :: "dolphin_deed \<Rightarrow> dolphin_store_data \<Rightarrow> dolphin_store_data" where
  "dolphin_state_on_deed deed d =
     (let ic = icounter d + weight_icounter (dolphin_deed_weight deed) in
      if 0 \<le> sint ic then d\<lparr>icounter := ic\<rparr> else d)"

definition dolphin_state_get_icounter :: "dolphin_store_data \<Rightarrow> u32" where
  "dolphin_state_get_icounter d = icounter d"

definition dolphin_state_get_butthurt :: "dolphin_store_data \<Rightarrow> u32" where
  "dolphin_state_get_butthurt d = butthurt d"

text \<open>\<open>sqrtf\<close> is the C library's. The conversion to an integer truncates.\<close>

definition dolphin_state_get_level :: "(rat \<Rightarrow> rat) \<Rightarrow> dolphin_store_data \<Rightarrow> u32" where
  "dolphin_state_get_level sqrtf d =
     word_of_int \<lfloor>f32 (1 / 2 + f32 (sqrtf (f32 (1 + f32 (8 * f32 (f32 (of_nat (unat (icounter d))) / 20)))) / 2))\<rfloor>"

text \<open>
  \<^verbatim>\<open>DOLPHIN_LVL_THRESHOLD * level * (level + 1) / 2\<close> in floats, minus the counter; a negative
  float has no unsigned value (undefined in C: \<open>None\<close>).
\<close>

definition dolphin_state_xp_to_levelup :: "u32 \<Rightarrow> bool \<Rightarrow> dolphin_store_data \<Rightarrow> u32 option" where
  "dolphin_state_xp_to_levelup level remaining d =
     (let l = of_nat (unat level); l1 = of_nat (unat (level + 1));
          total = f32 (f32 (f32 (20 * f32 l) * f32 l1) / 2);
          x = (if remaining then total - f32 (of_nat (unat (icounter d))) else total);
          y = (if 0 \<le> x then f32 x else x)
      in if -1 < y \<and> y < 2 ^ 32 then Some (word_of_int \<lfloor>y\<rfloor>) else None)"

section \<open>Bytes of a word\<close>

lemma u32_of_bytes_u32_bytes [simp]: "u32_of_bytes (u32_bytes w @ bs) = w"
proof -
  have aux: "24 + (n - 24) = n" if "\<not> n - 16 < 8" for n :: nat
    using that by arith
  show ?thesis
    unfolding u32_bytes_def
    by (simp, rule bit_word_eqI) (auto simp: bit_simps; rule ccontr, simp add: aux)
qed

lemma length_u32_bytes [simp]: "length (u32_bytes w) = 4"
  by (simp add: u32_bytes_def)

lemma length_data_bytes [simp]: "length (data_bytes d) = 28"
  by (simp add: data_bytes_def)

lemma drop_u32_bytes: "4 \<le> n \<Longrightarrow> drop n (u32_bytes w @ bs) = drop (n - 4) bs"
  by simp

lemma data_of_bytes_data_bytes [simp]: "data_of_bytes (data_bytes d) = d"
proof -
  have last: "u32_of_bytes (u32_bytes w) = w" for w
    using u32_of_bytes_u32_bytes [of w "[]"] by simp
  show ?thesis
    by (simp add: data_of_bytes_def data_bytes_def last)
qed

lemma byte_sum_eq: "byte_sum bs = sum_list bs"
proof -
  have "foldl (+) a bs = a + sum_list bs" for a :: u8
    by (induction bs arbitrary: a) (simp_all add: add.assoc)
  then show ?thesis by (simp add: byte_sum_def)
qed


lemma byte_sum_change:
  assumes "i < length bs" and "b \<noteq> bs ! i"
  shows "byte_sum (bs[i := b]) \<noteq> byte_sum bs"
proof -
  have "bs = take i bs @ bs ! i # drop (Suc i) bs" "bs[i := b] = take i bs @ b # drop (Suc i) bs"
    using assms(1) by (simp_all add: id_take_nth_drop [symmetric] upd_conv_take_nth_drop)
  then have "byte_sum (bs[i := b]) = sum_list (take i bs) + (b + sum_list (drop (Suc i) bs))"
    and "byte_sum bs = sum_list (take i bs) + (bs ! i + sum_list (drop (Suc i) bs))"
    by (metis byte_sum_eq sum_list.Cons sum_list_append)+
  with assms(2) show ?thesis by simp
qed

text \<open>The bytes of the file that a save writes.\<close>

definition stored :: "dolphin_store_data \<Rightarrow> u8 list" where
  "stored d = [0xD0, 0x01, byte_sum (data_bytes d), 0, 0, 0, 0, 0] @ data_bytes d"

lemma header_bytes_stored:
  "header_bytes \<lparr>magic = 0xD0, version = 0x01, checksum = byte_sum (data_bytes d),
     header_flags = 0, timestamp = 0\<rparr> @ data_bytes d = stored d"
  by (simp add: header_bytes_def stored_def u32_bytes_def)

lemma length_stored [simp]: "length (stored d) = 36"
  by (simp add: stored_def)

lemma dolphin_load_file:
  assumes con: "lfs_contract api files handle" and f: "files (lfs s) ''dolphin_state'' = Some c"
    and idle: "service_idle s" "t \<notin> flags s"
    and len: "length c = 36" and junk: "length junk = 36"
  shows "\<exists>s1. dolphin_state_load api (Some t) junk d s = Inr
    (if c ! 0 = 0xD0 \<and> c ! 1 = 0x01 \<and> c ! 2 = byte_sum (drop 8 c) then (True, data_of_bytes (drop 8 c))
     else (False, d), s1)"
proof -
  from storage_read_key_files [OF con f idle, of junk 36] len junk obtain s1 where
    "internal_storage_read_key api (Some t) ''dolphin_state'' junk 36 s = Inr ((36, c), s1)" by auto
  with len show ?thesis
    by (auto simp: dolphin_state_load_def store_size_def header_of_bytes_def Let_def)
qed

section \<open>Properties\<close>

text \<open>
  C29. A saved state is loaded back. On a file system that works as documented, with the storage
  service idle and no completion flag of the two calling threads pending, if saving reports success
  and the file was opened and closed without error, loading on any such thread, into any state,
  reports success and gives the saved state.
\<close>

theorem dolphin_save_load:
  assumes con: "lfs_contract api files handle"
    and close: "\<And>f l. fst (lfs_file_close api f l) = 0"
    and opened: "fst (fst (lfs_file_open api ''dolphin_state'' Open_Write_Create_Truncate (lfs s))) = 0"
    and idle: "service_idle s" "t \<notin> flags s" "t1 \<notin> flags s"
    and save: "dolphin_state_save api (Some t) d s = Inr (True, s1)" and junk: "length junk = store_size"
  shows "\<exists>s2. dolphin_state_load api (Some t1) junk d1 s1 = Inr ((True, d), s2)"
proof -
  from save have w: "internal_storage_write_key api (Some t) ''dolphin_state'' (stored d) 36 s = Inr (36, s1)"
    by (auto simp: dolphin_state_save_def header_bytes_stored Let_def store_size_def bindE_eq_Inr
        split: prod.splits if_splits)
  have w1: "36 = int 36 \<and> files (lfs s1) = (files (lfs s))(''dolphin_state'' \<mapsto> take 36 (stored d)) \<and>
      service_idle s1 \<and> flags s1 = flags s"
    by (rule storage_write_key_files [OF con close idle(1,2) w]) (simp_all add: opened)
  then have "files (lfs s1) ''dolphin_state'' = Some (stored d)" by simp
  from dolphin_load_file [OF con this, of t1 junk d1] w1 idle(3) junk show ?thesis
    by (simp add: store_size_def) (simp add: stored_def)
qed

theorem dolphin_save_load_witness:
  "\<exists>s1 s2. dolphin_state_save (mem_lfs 0) (Some 1) demo_store_data (idle_storage (\<lambda>_. None)) = Inr (True, s1) \<and>
     dolphin_state_load (mem_lfs 0) (Some 2) (replicate 36 0xAA) (dolphin_state_clear demo_store_data) s1 =
       Inr ((True, demo_store_data), s2)"
proof -
  have "\<exists>s1. dolphin_state_save (mem_lfs 0) (Some 1) demo_store_data (idle_storage (\<lambda>_. None)) = Inr (True, s1)"
    unfolding dolphin_state_save_def Let_def header_bytes_stored
    by (simp add: internal_storage_write_key_def internal_storage_call_def storage_put_def storage_serve_def
        run_function_def storage_write_key_def mem_lfs_def store_size_def idle_storage_def Let_def)
  then obtain s1 where
    w: "dolphin_state_save (mem_lfs 0) (Some 1) demo_store_data (idle_storage (\<lambda>_. None)) = Inr (True, s1)" by blast
  have "\<exists>s2. dolphin_state_load (mem_lfs 0) (Some 2) (replicate 36 0xAA) (dolphin_state_clear demo_store_data) s1 =
       Inr ((True, demo_store_data), s2)"
    by (rule dolphin_save_load [OF mem_lfs_contract _ _ _ _ _ w])
      (auto simp: mem_lfs_def store_size_def split: sum.split)
  with w show ?thesis by blast
qed

text \<open>
  Damage is detected. If a stored file has any one byte of the data, of the magic or of the
  version changed, loading reports failure and leaves the state alone; so does a file of another
  length.
\<close>

theorem dolphin_load_detects:
  assumes con: "lfs_contract api files handle" and junk: "length junk = store_size"
    and idle: "service_idle s" "t \<notin> flags s"
    and f: "files (lfs s) ''dolphin_state'' = Some ((stored d)[i := b])"
    and i: "i < store_size" "i \<notin> {2, 3, 4, 5, 6, 7}" and b: "b \<noteq> stored d ! i"
  shows "\<exists>s1. dolphin_state_load api (Some t) junk d1 s = Inr ((False, d1), s1)"
proof -
  let ?c = "(stored d)[i := b]"
  have load: "\<exists>s1. dolphin_state_load api (Some t) junk d1 s = Inr
      (if ?c ! 0 = 0xD0 \<and> ?c ! 1 = 0x01 \<and> ?c ! 2 = byte_sum (drop 8 ?c)
       then (True, data_of_bytes (drop 8 ?c)) else (False, d1), s1)"
    using junk by (intro dolphin_load_file [OF con, OF f idle]) (simp_all add: store_size_def)
  have "\<not> (?c ! 0 = 0xD0 \<and> ?c ! 1 = 0x01 \<and> ?c ! 2 = byte_sum (drop 8 ?c))"
  proof (cases "i < 8")
    case True
    with i have "i = 0 \<or> i = 1" by auto
    with b show ?thesis by (auto simp: stored_def)
  next
    case False
    have s8: "drop 8 (stored d) = data_bytes d" by (simp add: stored_def)
    have d: "drop 8 ?c = (data_bytes d)[i - 8 := b]"
      using False by (simp add: drop_update_swap s8)
    have "stored d ! i = drop 8 (stored d) ! (i - 8)"
      using False i by (simp add: nth_drop store_size_def)
    then have "b \<noteq> data_bytes d ! (i - 8)" using b s8 by simp
    moreover have "i - 8 < length (data_bytes d)" using i by (simp add: store_size_def)
    ultimately have "byte_sum ((data_bytes d)[i - 8 := b]) \<noteq> byte_sum (data_bytes d)"
      by (intro byte_sum_change) auto
    moreover have "?c ! 2 = byte_sum (data_bytes d)"
      using False by (simp add: nth_list_update) (simp add: stored_def)
    ultimately show ?thesis using d by simp
  qed
  then have "(if ?c ! 0 = 0xD0 \<and> ?c ! 1 = 0x01 \<and> ?c ! 2 = byte_sum (drop 8 ?c)
       then (True, data_of_bytes (drop 8 ?c)) else (False, d1)) = (False, d1)" by (rule if_not_P)
  with load show ?thesis by (simp only:)
qed

theorem dolphin_load_detects_witness:
  "\<exists>s1. dolphin_state_load (mem_lfs 0) (Some 1) (replicate 36 0) (dolphin_state_clear demo_store_data)
     (idle_storage [''dolphin_state'' \<mapsto> (stored (dolphin_state_clear demo_store_data))[30 := 1]]) =
   Inr ((False, dolphin_state_clear demo_store_data), s1)"
  by (rule dolphin_load_detects [OF mem_lfs_contract,
        where d = "dolphin_state_clear demo_store_data" and i = 30 and b = 1])
    (simp_all add: store_size_def stored_def dolphin_state_clear_def data_bytes_def u32_bytes_def)

text \<open>
  The experience counter never wraps. As long as it is below \<open>2 ^ 31\<close>, a deed adds one or
  subtracts one, except that it stays where it is at 0 and at \<open>2 ^ 31 - 1\<close>; so no sequence of
  deeds makes it negative or large.
\<close>

theorem dolphin_deed_counter:
  assumes "unat (icounter d) < 2 ^ 31"
  shows "unat (icounter (dolphin_state_on_deed deed d)) =
     (if deed = DolphinDeedWrong then unat (icounter d) - 1
      else min (unat (icounter d) + 1) (2 ^ 31 - 1))"
proof -
  let ?n = "unat (icounter d)"
  have ic: "icounter d = of_nat ?n" by simp
  have sgn: "0 \<le> sint (of_nat n :: u32) \<longleftrightarrow> n < 2 ^ 31" if "n < 2 ^ 32" for n
  proof -
    have "0 \<le> sint (of_nat n :: u32) \<longleftrightarrow> \<not> bit (of_nat n :: u32) 31"
      using bit_last_iff [of "of_nat n :: u32"] by (simp add: not_less [symmetric])
    also have "bit (of_nat n :: u32) 31 \<longleftrightarrow> bit n 31"
      by (simp add: bit_simps)
    also have "bit n 31 \<longleftrightarrow> 2 ^ 31 \<le> n"
    proof (cases "n < 2 ^ 31")
      case False
      then have "n div 2 ^ 31 = 1" using that by (intro div_nat_eqI) simp_all
      with False show ?thesis by (simp add: bit_iff_odd)
    qed (simp add: bit_iff_odd)
    finally show ?thesis by (simp add: not_le)
  qed
  show ?thesis
  proof (cases "deed = DolphinDeedWrong")
    case True
    show ?thesis
    proof (cases "?n = 0")
      case zero: True
      then have "icounter d = 0" by (simp add: unat_eq_0)
      with True show ?thesis by (simp add: dolphin_state_on_deed_def)
    next
      case False
      then have "icounter d + - 1 = of_nat (?n - 1)" by (simp add: of_nat_diff)
      moreover have "unat (of_nat (?n - 1) :: u32) = ?n - 1"
        using assms by (intro unat_of_nat_small) simp
      moreover have "?n - 1 < 2 ^ 31" using assms by simp
      ultimately show ?thesis
        using True sgn [of "?n - 1"] by (simp add: dolphin_state_on_deed_def Let_def)
    qed
  next
    case False
    then have w: "weight_icounter (dolphin_deed_weight deed) = 1" by (cases deed) auto
    define v where "v = icounter d + 1"
    have v: "v = of_nat (?n + 1)" by (simp add: v_def)
    have "unat v = ?n + 1" unfolding v using assms by (intro unat_of_nat_small) simp
    moreover have "0 \<le> sint v \<longleftrightarrow> ?n + 1 < 2 ^ 31"
      unfolding v using assms by (intro sgn) simp
    moreover have "dolphin_state_on_deed deed d = (if 0 \<le> sint v then d\<lparr>icounter := v\<rparr> else d)"
      by (simp only: dolphin_state_on_deed_def Let_def w v_def)
    ultimately show ?thesis using False assms by auto
  qed
qed

theorem dolphin_deed_counter_witness:
  "unat (icounter (dolphin_state_on_deed DolphinDeedIButtonRead (dolphin_state_clear demo_store_data))) = 1"
  using dolphin_deed_counter [of "dolphin_state_clear demo_store_data" DolphinDeedIButtonRead]
  by (simp add: dolphin_state_clear_def)

text \<open>
  Experience to the next level is exact up to level 914: although it is computed in floats,
  the threshold is \<open>10 * level * (level + 1)\<close>, and the remaining experience that minus the
  counter.
\<close>

theorem dolphin_xp_exact:
  assumes "unat level \<le> 914" and "unat (icounter d) \<le> 10 * unat level * (unat level + 1)"
  shows "dolphin_state_xp_to_levelup level remaining d =
     Some (of_nat (10 * unat level * (unat level + 1) - (if remaining then unat (icounter d) else 0)))"
proof -
  let ?l = "unat level" and ?c = "unat (icounter d)"
  have "?l * (?l + 1) \<le> 914 * 915" using assms(1) by (intro mult_le_mono) simp_all
  then have b: "20 * ?l * (?l + 1) < 2 ^ 24" by simp
  have l1: "unat (level + 1) = ?l + 1"
    using assms(1) by (subst unat_plus_if_fits) simp_all
  have "f32 (of_nat ?l) = of_nat ?l" using assms(1) by (intro f32_of_nat) simp
  moreover have "f32 (of_nat (20 * ?l)) = of_nat (20 * ?l)" using assms(1) by (intro f32_of_nat) simp
  moreover have "f32 (of_nat (?l + 1)) = of_nat (?l + 1)" using assms(1) by (intro f32_of_nat) simp
  moreover have "f32 (of_nat (20 * ?l * (?l + 1))) = of_nat (20 * ?l * (?l + 1))"
    using b by (rule f32_of_nat)
  moreover have "f32 (of_nat (10 * ?l * (?l + 1))) = of_nat (10 * ?l * (?l + 1))"
    using b by (intro f32_of_nat) simp
  moreover have "(of_nat (20 * ?l * (?l + 1)) :: rat) / 2 = of_nat (10 * ?l * (?l + 1))" by simp
  ultimately have total: "f32 (f32 (f32 (20 * f32 (of_nat ?l)) * f32 (of_nat (?l + 1))) / 2) =
      of_nat (10 * ?l * (?l + 1))"
    by (metis of_nat_mult of_nat_numeral)
  have c: "f32 (of_nat ?c) = of_nat ?c" using assms(2) b by (intro f32_of_nat) simp
  have diff: "(of_nat (10 * ?l * (?l + 1)) :: rat) - of_nat ?c = of_nat (10 * ?l * (?l + 1) - ?c)"
    using assms(2) by (simp only: of_nat_diff)
  have fl: "f32 (of_nat n) = of_nat n" "(of_nat n :: rat) < 2 ^ 32" if "n \<le> 10 * ?l * (?l + 1)" for n
  proof -
    have n: "n < 2 ^ 24" using that b by simp
    then show "f32 (of_nat n) = of_nat n" by (rule f32_of_nat)
    from n have "n < 2 ^ 32" by simp
    then have "(of_nat n :: rat) < of_nat (2 ^ 32)" by (simp only: of_nat_less_iff)
    then show "(of_nat n :: rat) < 2 ^ 32" by simp
  qed
  define m where "m = 10 * ?l * (?l + 1)"
  define cc where "cc = ?c"
  have pos: "0 \<le> (of_nat n :: rat)" "-1 < (of_nat n :: rat)" for n
    by (simp_all add: less_le_trans [of "-1" 0])
  note facts = total [folded m_def] diff [folded m_def cc_def] fl [folded m_def]
  have "dolphin_state_xp_to_levelup level remaining d =
      Some (word_of_int \<lfloor>of_nat (m - (if remaining then cc else 0)) :: rat\<rfloor>)"
    unfolding dolphin_state_xp_to_levelup_def l1 Let_def facts(1) cc_def [symmetric]
      c [folded cc_def] facts(2)
    using facts(3,4) [of "m - cc"] facts(3,4) [of m] by (simp add: pos)
  then show ?thesis by (simp add: m_def cc_def)
qed

theorem dolphin_xp_exact_witness:
  "dolphin_state_xp_to_levelup 3 True ((dolphin_state_clear demo_store_data)\<lparr>icounter := 100\<rparr>) = Some 20"
  using dolphin_xp_exact [of 3 "(dolphin_state_clear demo_store_data)\<lparr>icounter := 100\<rparr>" True] by simp

end
