(* ===== verification/Views.thy ===== *)
theory Views
  imports Input
begin

text \<open>
  Views, view ports and the view dispatcher: \<^verbatim>\<open>applications/gui/view.c\<close>,
  \<^verbatim>\<open>view_port.c\<close> and \<^verbatim>\<open>view_dispatcher.c\<close>. Views are known by their address, a store maps
  addresses to views. A callback is an address whose call is recorded, or, where the code uses
  its answer, the function from its arguments to the answer. Requests to the GUI (redraw, lock,
  adding and removing the port) are recorded too.
\<close>

section \<open>Views\<close>

definition VIEW_NONE :: u32 where "VIEW_NONE = 0xFFFFFFFF"
definition VIEW_IGNORE :: u32 where "VIEW_IGNORE = 0xFFFFFFFE"
definition VIEW_DESTROY :: u32 where "VIEW_DESTROY = 0xFFFFFFFA"

lemmas view_ids = VIEW_NONE_def VIEW_IGNORE_def VIEW_DESTROY_def

datatype view_orientation = ViewOrientationHorizontal | ViewOrientationVertical

datatype view_model_type = ViewModelTypeNone | ViewModelTypeLockFree | ViewModelTypeLocking

text \<open>
  \<open>model\<close> is the pointer of the structure; for a locking model it points to a mutex and to
  \<open>model_data\<close>.
\<close>

record view =
  draw_callback :: "nat option"
  input_callback :: "(input_event \<Rightarrow> nat option \<Rightarrow> bool) option"
  model_type :: view_model_type
  previous_callback :: "(nat option \<Rightarrow> u32) option"
  next_callback :: "(nat option \<Rightarrow> u32) option"
  enter_callback :: "nat option"
  exit_callback :: "nat option"
  orientation :: view_orientation
  update_callback :: "nat option"
  update_context :: "nat option"
  model :: "nat option"
  model_data :: "nat option"
  context_of :: "nat option"

datatype view_call =
    Model_Acquire
  | Model_Release
  | Model_Mutex_Delete
  | Free_Block nat
  | Draw_Callback nat "nat option"
  | Update_Callback nat nat "nat option"
  | View_Enter nat "nat option" "nat option"
  | View_Exit nat "nat option" "nat option"
  | View_Input nat input_event
  | View_Free nat
  | Gui_Lock
  | Gui_Unlock
  | Gui_Update
  | Gui_Add_Port nat
  | Gui_Remove_Port

definition view_alloc :: view where
  "view_alloc =
     \<lparr>draw_callback = None, input_callback = None, model_type = ViewModelTypeNone,
      previous_callback = None, next_callback = None, enter_callback = None, exit_callback = None,
      orientation = ViewOrientationHorizontal, update_callback = None, update_context = None,
      model = None, model_data = None, context_of = None\<rparr>"

definition view_set_draw_callback :: "bool \<Rightarrow> nat option \<Rightarrow> view \<Rightarrow> view res" where
  "view_set_draw_callback dbg cb v =
     furi_assert dbg (draw_callback v = None) (Inr (v\<lparr>draw_callback := cb\<rparr>))"

definition view_set_input_callback ::
    "bool \<Rightarrow> (input_event \<Rightarrow> nat option \<Rightarrow> bool) option \<Rightarrow> view \<Rightarrow> view res" where
  "view_set_input_callback dbg cb v =
     furi_assert dbg (input_callback v = None) (Inr (v\<lparr>input_callback := cb\<rparr>))"

definition view_set_previous_callback :: "(nat option \<Rightarrow> u32) option \<Rightarrow> view \<Rightarrow> view" where
  "view_set_previous_callback cb v = v\<lparr>previous_callback := cb\<rparr>"

definition view_set_next_callback :: "(nat option \<Rightarrow> u32) option \<Rightarrow> view \<Rightarrow> view" where
  "view_set_next_callback cb v = v\<lparr>next_callback := cb\<rparr>"

definition view_set_enter_callback :: "nat option \<Rightarrow> view \<Rightarrow> view" where
  "view_set_enter_callback cb v = v\<lparr>enter_callback := cb\<rparr>"

definition view_set_exit_callback :: "nat option \<Rightarrow> view \<Rightarrow> view" where
  "view_set_exit_callback cb v = v\<lparr>exit_callback := cb\<rparr>"

definition view_set_update_callback :: "nat option \<Rightarrow> view \<Rightarrow> view" where
  "view_set_update_callback cb v = v\<lparr>update_callback := cb\<rparr>"

definition view_set_update_callback_context :: "nat option \<Rightarrow> view \<Rightarrow> view" where
  "view_set_update_callback_context c v = v\<lparr>update_context := c\<rparr>"

definition view_set_context :: "bool \<Rightarrow> nat option \<Rightarrow> view \<Rightarrow> view res" where
  "view_set_context dbg c v = furi_assert dbg (c \<noteq> None) (Inr (v\<lparr>context_of := c\<rparr>))"

definition view_set_orientation :: "view_orientation \<Rightarrow> view \<Rightarrow> view" where
  "view_set_orientation o1 v = v\<lparr>orientation := o1\<rparr>"

text \<open>\<open>p\<close> and \<open>q\<close> are the blocks that \<^verbatim>\<open>furi_alloc\<close> returns, \<open>mx\<close> tells if a mutex was created.\<close>

definition view_allocate_model ::
    "bool \<Rightarrow> bool \<Rightarrow> nat \<Rightarrow> nat \<Rightarrow> view_model_type \<Rightarrow> nat \<Rightarrow> view \<Rightarrow> view res" where
  "view_allocate_model dbg mx p q ty sz v =
     furi_assert dbg (0 < sz)
      (furi_assert dbg (model_type v = ViewModelTypeNone)
       (furi_assert dbg (model v = None)
         (let v1 = v\<lparr>model_type := ty\<rparr> in
          case ty of
            ViewModelTypeLockFree \<Rightarrow> Inr (v1\<lparr>model := Some p\<rparr>)
          | ViewModelTypeLocking \<Rightarrow>
              furi_check mx (Inr (v1\<lparr>model := Some p, model_data := Some q\<rparr>))
          | ViewModelTypeNone \<Rightarrow> furi_assert dbg False (Inr v1))))"

definition view_free_model :: "bool \<Rightarrow> view \<Rightarrow> (view_call list \<times> view) res" where
  "view_free_model ok v =
     (case model_type v of
        ViewModelTypeNone \<Rightarrow> Inr ([], v)
      | ViewModelTypeLockFree \<Rightarrow>
          Inr ((case model v of None \<Rightarrow> [] | Some p \<Rightarrow> [Free_Block p]), v)
      | ViewModelTypeLocking \<Rightarrow>
          (case model v of
             None \<Rightarrow> Inl Null_Pointer
           | Some p \<Rightarrow>
               furi_check ok
                 (Inr (Model_Mutex_Delete #
                       (case model_data v of None \<Rightarrow> [] | Some q \<Rightarrow> [Free_Block q]) @ [Free_Block p],
                       v\<lparr>model := None\<rparr>))))"

definition view_get_model :: "bool \<Rightarrow> view \<Rightarrow> (view_call list \<times> nat option) res" where
  "view_get_model acq v =
     (if model_type v = ViewModelTypeLocking then
        (case model v of
           None \<Rightarrow> Inl Null_Pointer
         | Some _ \<Rightarrow> furi_check acq (Inr ([Model_Acquire], model_data v)))
      else Inr ([], model v))"

definition view_unlock_model :: "bool \<Rightarrow> view \<Rightarrow> view_call list res" where
  "view_unlock_model rel v =
     (if model_type v = ViewModelTypeLocking then
        (case model v of
           None \<Rightarrow> Inl Null_Pointer
         | Some _ \<Rightarrow> furi_check rel (Inr [Model_Release]))
      else Inr [])"

definition view_commit_model :: "bool \<Rightarrow> bool \<Rightarrow> nat \<Rightarrow> view \<Rightarrow> view_call list res" where
  "view_commit_model rel upd a v =
     bindE (view_unlock_model rel v) (\<lambda>cs.
       Inr (cs @ (if upd then
                    (case update_callback v of
                       None \<Rightarrow> [] | Some cb \<Rightarrow> [Update_Callback cb a (update_context v)])
                  else [])))"

definition view_draw :: "bool \<Rightarrow> bool \<Rightarrow> view \<Rightarrow> view_call list res" where
  "view_draw acq rel v =
     (case draw_callback v of
        None \<Rightarrow> Inr []
      | Some cb \<Rightarrow>
          bindE (view_get_model acq v) (\<lambda>(cs, d).
          bindE (view_unlock_model rel v) (\<lambda>cs1.
            Inr (cs @ [Draw_Callback cb d] @ cs1))))"

definition view_input :: "input_event \<Rightarrow> view \<Rightarrow> bool" where
  "view_input e v = (case input_callback v of Some cb \<Rightarrow> cb e (context_of v) | None \<Rightarrow> False)"

definition view_previous :: "view \<Rightarrow> u32" where
  "view_previous v =
     (case previous_callback v of Some cb \<Rightarrow> cb (context_of v) | None \<Rightarrow> VIEW_IGNORE)"

definition view_next :: "view \<Rightarrow> u32" where
  "view_next v = (case next_callback v of Some cb \<Rightarrow> cb (context_of v) | None \<Rightarrow> VIEW_IGNORE)"

text \<open>The address is recorded even if no callback is set.\<close>

definition view_enter :: "nat \<Rightarrow> view \<Rightarrow> view_call list" where
  "view_enter a v = [View_Enter a (enter_callback v) (context_of v)]"

definition view_exit :: "nat \<Rightarrow> view \<Rightarrow> view_call list" where
  "view_exit a v = [View_Exit a (exit_callback v) (context_of v)]"

section \<open>View ports\<close>

datatype port_orientation = ViewPortOrientationHorizontal | ViewPortOrientationVertical

record view_port =
  port_gui :: bool
  is_enabled :: bool
  port_orientation :: port_orientation
  port_width :: u8
  port_height :: u8
  port_draw :: "(nat \<times> nat) option"
  port_input :: "(nat \<times> nat) option"

definition view_port_alloc :: view_port where
  "view_port_alloc =
     \<lparr>port_gui = False, is_enabled = True, port_orientation = ViewPortOrientationHorizontal,
      port_width = 0, port_height = 0, port_draw = None, port_input = None\<rparr>"

definition view_port_free :: "view_port \<Rightarrow> unit res" where
  "view_port_free p = furi_check (\<not> port_gui p) (Inr ())"

definition view_port_set_width :: "u8 \<Rightarrow> view_port \<Rightarrow> view_port" where
  "view_port_set_width w p = p\<lparr>port_width := w\<rparr>"

definition view_port_get_width :: "view_port \<Rightarrow> u8" where
  "view_port_get_width p = port_width p"

definition view_port_set_height :: "u8 \<Rightarrow> view_port \<Rightarrow> view_port" where
  "view_port_set_height h p = p\<lparr>port_height := h\<rparr>"

definition view_port_get_height :: "view_port \<Rightarrow> u8" where
  "view_port_get_height p = port_height p"

definition view_port_enabled_set :: "bool \<Rightarrow> view_port \<Rightarrow> view_call list \<times> view_port" where
  "view_port_enabled_set enabled p =
     (if is_enabled p \<noteq> enabled then
        ((if port_gui p then [Gui_Update] else []), p\<lparr>is_enabled := enabled\<rparr>)
      else ([], p))"

definition view_port_is_enabled :: "view_port \<Rightarrow> bool" where
  "view_port_is_enabled p = is_enabled p"

definition view_port_draw_callback_set :: "(nat \<times> nat) option \<Rightarrow> view_port \<Rightarrow> view_port" where
  "view_port_draw_callback_set cb p = p\<lparr>port_draw := cb\<rparr>"

definition view_port_input_callback_set :: "(nat \<times> nat) option \<Rightarrow> view_port \<Rightarrow> view_port" where
  "view_port_input_callback_set cb p = p\<lparr>port_input := cb\<rparr>"

definition view_port_update :: "view_port \<Rightarrow> view_call list" where
  "view_port_update p = (if port_gui p \<and> is_enabled p then [Gui_Update] else [])"

definition view_port_gui_set :: "bool \<Rightarrow> view_port \<Rightarrow> view_port" where
  "view_port_gui_set g p = p\<lparr>port_gui := g\<rparr>"

definition view_port_set_orientation :: "port_orientation \<Rightarrow> view_port \<Rightarrow> view_port" where
  "view_port_set_orientation o1 p = p\<lparr>port_orientation := o1\<rparr>"

definition view_port_get_orientation :: "view_port \<Rightarrow> port_orientation" where
  "view_port_get_orientation p = port_orientation p"

end
