(* ===== verification/ViewDispatcher.thy ===== *)
theory ViewDispatcher
  imports Views
begin

text \<open>
  The view dispatcher, \<^verbatim>\<open>applications/gui/view_dispatcher.c\<close>: a set of views under ids, at most one
  of them current, one view port through which it is drawn and gets input, and an optional queue
  through which the input is handled on another thread. An operation returns the calls it makes
  and the new dispatcher; a fault is a failed check, a failed assertion or a null pointer.
  Putting a message into the queue never fails here (the code waits for room).
\<close>

section \<open>State\<close>

datatype dispatcher_message = Message_Input input_event | Message_Stop

text \<open>
  \<open>disp_store\<close> holds the views by address; \<open>disp_self\<close> and \<open>disp_update_fn\<close> are the addresses of
  the dispatcher and of \<^verbatim>\<open>view_dispatcher_update\<close>.
\<close>

record dispatcher =
  disp_queue :: "dispatcher_message list option"
  disp_gui :: bool
  disp_port :: view_port
  disp_views :: "(u32 \<times> nat) list"
  disp_current :: "nat option"
  disp_store :: "nat \<Rightarrow> view"
  disp_self :: nat
  disp_update_fn :: nat
  disp_freed :: bool

type_synonym 'a disp_res = "('a \<times> dispatcher) res"

section \<open>Operations\<close>

text \<open>\<open>draw\<close> and \<open>inp\<close> are the addresses of the two port callbacks.\<close>

definition view_dispatcher_alloc :: "nat \<Rightarrow> nat \<Rightarrow> nat \<Rightarrow> nat \<Rightarrow> (nat \<Rightarrow> view) \<Rightarrow> dispatcher" where
  "view_dispatcher_alloc draw inp upd self store =
     (let p1 = view_port_draw_callback_set (Some (draw, self)) view_port_alloc;
          p2 = view_port_input_callback_set (Some (inp, self)) p1;
          p3 = snd (view_port_enabled_set False p2)
      in \<lparr>disp_queue = None, disp_gui = False, disp_port = p3, disp_views = [],
          disp_current = None, disp_store = store, disp_self = self, disp_update_fn = upd,
          disp_freed = False\<rparr>)"

fun free_views :: "bool \<Rightarrow> (nat \<Rightarrow> view) \<Rightarrow> (u32 \<times> nat) list \<Rightarrow> view_call list res" where
  "free_views ok store [] = Inr []"
| "free_views ok store ((_, a) # vs) =
     bindE (view_free_model ok (store a)) (\<lambda>(cs, v).
     bindE (free_views ok (store(a := v)) vs) (\<lambda>cs1. Inr (cs @ View_Free a # cs1)))"

definition view_dispatcher_free :: "bool \<Rightarrow> dispatcher \<Rightarrow> view_call list disp_res" where
  "view_dispatcher_free ok d =
     (let cs = (if disp_gui d then [Gui_Remove_Port] else []);
          p = (if disp_gui d then view_port_gui_set False (disp_port d) else disp_port d)
      in bindE (free_views ok (disp_store d) (disp_views d)) (\<lambda>cs1.
         bindE (view_port_free p) (\<lambda>_.
           Inr (cs @ cs1, d\<lparr>disp_views := [], disp_port := p, disp_freed := True\<rparr>))))"

definition view_dispatcher_enable_queue :: "bool \<Rightarrow> dispatcher \<Rightarrow> dispatcher res" where
  "view_dispatcher_enable_queue dbg d =
     furi_assert dbg (disp_queue d = None) (Inr (d\<lparr>disp_queue := Some []\<rparr>))"

definition view_dispatcher_stop :: "bool \<Rightarrow> dispatcher \<Rightarrow> dispatcher res" where
  "view_dispatcher_stop dbg d =
     furi_assert dbg (disp_queue d \<noteq> None)
       (case disp_queue d of
          None \<Rightarrow> Inl Check_Failed
        | Some q \<Rightarrow> Inr (d\<lparr>disp_queue := Some (q @ [Message_Stop])\<rparr>))"

definition set_port :: "view_port \<Rightarrow> dispatcher \<Rightarrow> dispatcher" where
  "set_port p d = d\<lparr>disp_port := p\<rparr>"

definition view_dispatcher_set_current_view ::
    "bool \<Rightarrow> nat option \<Rightarrow> dispatcher \<Rightarrow> view_call list disp_res" where
  "view_dispatcher_set_current_view dbg v d =
     (let exits = (case disp_current d of
            Some c \<Rightarrow> view_exit c (disp_store d c) | None \<Rightarrow> []);
          d1 = d\<lparr>disp_current := v\<rparr>
      in case v of
           Some a \<Rightarrow>
             (let w = disp_store d1 a;
                  p1 = (if orientation w = ViewOrientationVertical
                        then view_port_set_orientation ViewPortOrientationVertical (disp_port d1)
                        else view_port_set_orientation ViewPortOrientationHorizontal (disp_port d1));
                  enters = view_enter a w
              in case view_port_enabled_set True p1 of (cs, p2) \<Rightarrow>
                   Inr (exits @ enters @ cs @ view_port_update p2, set_port p2 d1))
         | None \<Rightarrow>
             (case view_port_enabled_set False (disp_port d1) of (cs, p2) \<Rightarrow>
                let d2 = set_port p2 d1 in
                if disp_queue d2 \<noteq> None then
                  bindE (view_dispatcher_stop dbg d2) (\<lambda>d3. Inr (exits @ cs, d3))
                else Inr (exits @ cs, d2)))"

definition view_dispatcher_add_view ::
    "u32 \<Rightarrow> nat \<Rightarrow> dispatcher \<Rightarrow> view_call list disp_res" where
  "view_dispatcher_add_view i a d =
     furi_check (map_of (disp_views d) i = None)
       (let w = view_set_update_callback_context (Some (disp_self d))
              (view_set_update_callback (Some (disp_update_fn d)) (disp_store d a));
            d1 = d\<lparr>disp_views := dict_set i a (disp_views d), disp_store := (disp_store d)(a := w)\<rparr>
        in Inr ((if disp_gui d then [Gui_Lock, Gui_Unlock] else []), d1))"

definition view_dispatcher_remove_view ::
    "bool \<Rightarrow> u32 \<Rightarrow> dispatcher \<Rightarrow> view_call list disp_res" where
  "view_dispatcher_remove_view dbg i d =
     (case map_of (disp_views d) i of
        None \<Rightarrow> Inl Null_Pointer
      | Some a \<Rightarrow>
          bindE (if disp_current d = Some a then view_dispatcher_set_current_view dbg None d
                 else Inr ([], d)) (\<lambda>(cs, d1).
            let w = view_set_update_callback_context None
                  (view_set_update_callback None (disp_store d1 a));
                d2 = d1\<lparr>disp_views := dict_erase i (disp_views d1),
                        disp_store := (disp_store d1)(a := w)\<rparr>
            in Inr ((if disp_gui d then [Gui_Lock] else []) @ cs @
                    (if disp_gui d then [Gui_Unlock] else []), d2)))"

definition view_dispatcher_switch_to_view ::
    "bool \<Rightarrow> bool \<Rightarrow> u32 \<Rightarrow> dispatcher \<Rightarrow> view_call list disp_res" where
  "view_dispatcher_switch_to_view dbg ok i d =
     (if i = VIEW_NONE then view_dispatcher_set_current_view dbg None d
      else if i = VIEW_IGNORE then Inr ([], d)
      else if i = VIEW_DESTROY then view_dispatcher_free ok d
      else
        furi_check (map_of (disp_views d) i \<noteq> None)
          (view_dispatcher_set_current_view dbg (map_of (disp_views d) i) d))"

datatype dispatcher_type =
  ViewDispatcherTypeNone | ViewDispatcherTypeWindow | ViewDispatcherTypeFullscreen

text \<open>The layers by their numbers: none 0, main 3, fullscreen 4.\<close>

definition view_dispatcher_attach_to_gui ::
    "bool \<Rightarrow> dispatcher_type \<Rightarrow> dispatcher \<Rightarrow> view_call list disp_res" where
  "view_dispatcher_attach_to_gui dbg ty d =
     furi_assert dbg (\<not> disp_gui d)
       (let layer = (case ty of ViewDispatcherTypeNone \<Rightarrow> 0 | ViewDispatcherTypeFullscreen \<Rightarrow> 4
                     | ViewDispatcherTypeWindow \<Rightarrow> 3)
        in Inr ([Gui_Add_Port layer],
                d\<lparr>disp_port := view_port_gui_set True (disp_port d), disp_gui := True\<rparr>))"

definition view_dispatcher_draw_callback :: "bool \<Rightarrow> bool \<Rightarrow> dispatcher \<Rightarrow> view_call list res" where
  "view_dispatcher_draw_callback acq rel d =
     (case disp_current d of None \<Rightarrow> Inr [] | Some a \<Rightarrow> view_draw acq rel (disp_store d a))"

text \<open>
  With no current view the navigation callbacks are looked up through the null pointer: an
  assertion in a debug build, an invalid access in a release build.
\<close>

definition on_current :: "bool \<Rightarrow> (view \<Rightarrow> u32) \<Rightarrow> dispatcher \<Rightarrow> u32 res" where
  "on_current dbg f d =
     furi_assert dbg (disp_current d \<noteq> None)
       (case disp_current d of None \<Rightarrow> Inl Null_Pointer | Some a \<Rightarrow> Inr (f (disp_store d a)))"

definition view_dispatcher_handle_input ::
    "bool \<Rightarrow> bool \<Rightarrow> input_event \<Rightarrow> dispatcher \<Rightarrow> view_call list disp_res" where
  "view_dispatcher_handle_input dbg ok e d =
     (let inputs = (case disp_current d of Some a \<Rightarrow> [View_Input a e] | None \<Rightarrow> []);
          is_consumed = (case disp_current d of
            Some a \<Rightarrow> view_input e (disp_store d a) | None \<Rightarrow> False)
      in if \<not> is_consumed \<and> ev_type e = InputTypeShort then
           bindE (if ev_key e = InputKeyBack then on_current dbg view_previous d
                  else if ev_key e = InputKeyOk then on_current dbg view_next d
                  else Inr VIEW_IGNORE) (\<lambda>i.
           bindE (view_dispatcher_switch_to_view dbg ok i d) (\<lambda>(cs, d1). Inr (inputs @ cs, d1)))
         else Inr (inputs, d))"

definition view_dispatcher_input_callback ::
    "bool \<Rightarrow> bool \<Rightarrow> input_event \<Rightarrow> dispatcher \<Rightarrow> view_call list disp_res" where
  "view_dispatcher_input_callback dbg ok e d =
     (case disp_queue d of
        Some q \<Rightarrow> Inr ([], d\<lparr>disp_queue := Some (q @ [Message_Input e])\<rparr>)
      | None \<Rightarrow> view_dispatcher_handle_input dbg ok e d)"

text \<open>
  \<^verbatim>\<open>view_dispatcher_run\<close> on the messages queued: it handles input messages until a stop message
  (or an error of the kernel, the answer to a null queue); \<open>None\<close> if it ends up waiting for more. Handling may itself queue a stop message. The fuel bounds
  the number of messages handled.
\<close>

fun view_dispatcher_run ::
    "nat \<Rightarrow> bool \<Rightarrow> bool \<Rightarrow> dispatcher \<Rightarrow> (view_call list \<times> dispatcher) option res" where
  "view_dispatcher_run 0 dbg ok d = Inr None"
| "view_dispatcher_run (Suc n) dbg ok d =
     furi_assert dbg (disp_queue d \<noteq> None)
       (case disp_queue d of
          None \<Rightarrow> Inr (Some ([], d))
        | Some [] \<Rightarrow> Inr None
        | Some (Message_Stop # q) \<Rightarrow> Inr (Some ([], d\<lparr>disp_queue := Some q\<rparr>))
        | Some (Message_Input e # q) \<Rightarrow>
            bindE (view_dispatcher_handle_input dbg ok e (d\<lparr>disp_queue := Some q\<rparr>)) (\<lambda>(cs, d1).
            bindE (view_dispatcher_run n dbg ok d1) (\<lambda>r.
              Inr (map_option (\<lambda>(cs1, d2). (cs @ cs1, d2)) r))))"

definition view_dispatcher_update :: "nat \<Rightarrow> dispatcher \<Rightarrow> view_call list" where
  "view_dispatcher_update a d =
     (if disp_current d = Some a then view_port_update (disp_port d) else [])"

section \<open>The life cycle of views\<close>

datatype dispatcher_op =
    Op_Add u32 nat
  | Op_Remove u32
  | Op_Switch u32
  | Op_Input input_event
  | Op_Handle input_event
  | Op_Attach dispatcher_type
  | Op_Enable_Queue

fun dispatcher_step ::
    "bool \<Rightarrow> bool \<Rightarrow> dispatcher \<Rightarrow> dispatcher_op \<Rightarrow> (view_call list \<times> dispatcher) res" where
  "dispatcher_step dbg ok d (Op_Add i a) = view_dispatcher_add_view i a d"
| "dispatcher_step dbg ok d (Op_Remove i) = view_dispatcher_remove_view dbg i d"
| "dispatcher_step dbg ok d (Op_Switch i) = view_dispatcher_switch_to_view dbg ok i d"
| "dispatcher_step dbg ok d (Op_Input e) = view_dispatcher_input_callback dbg ok e d"
| "dispatcher_step dbg ok d (Op_Handle e) = view_dispatcher_handle_input dbg ok e d"
| "dispatcher_step dbg ok d (Op_Attach ty) = view_dispatcher_attach_to_gui dbg ty d"
| "dispatcher_step dbg ok d Op_Enable_Queue =
     bindE (view_dispatcher_enable_queue dbg d) (\<lambda>d1. Inr ([], d1))"

text \<open>
  Which view is entered after a sequence of calls; \<open>None\<close> if a view is entered while another is,
  left or sent input while it is not the entered one.
\<close>

fun entered :: "nat option \<Rightarrow> view_call list \<Rightarrow> nat option option" where
  "entered cur [] = Some cur"
| "entered cur (View_Enter a _ _ # cs) = (if cur = None then entered (Some a) cs else None)"
| "entered cur (View_Exit a _ _ # cs) = (if cur = Some a then entered None cs else None)"
| "entered cur (View_Input a _ # cs) = (if cur = Some a then entered cur cs else None)"
| "entered cur (_ # cs) = entered cur cs"

lemma entered_append:
  "entered cur (xs @ ys) = Option.bind (entered cur xs) (\<lambda>c. entered c ys)"
  by (induction cur xs rule: entered.induct) auto

definition silent :: "view_call list \<Rightarrow> bool" where
  "silent cs \<longleftrightarrow> (\<forall>cur. entered cur cs = Some cur)"

lemma silent_append: "silent xs \<Longrightarrow> silent ys \<Longrightarrow> silent (xs @ ys)"
  by (simp add: silent_def entered_append)

lemma silent_simps [simp]:
  "silent []" "silent (Gui_Update # cs) = silent cs" "silent (Gui_Lock # cs) = silent cs"
  "silent (Gui_Unlock # cs) = silent cs" "silent (Gui_Remove_Port # cs) = silent cs"
  "silent (Gui_Add_Port n # cs) = silent cs" "silent (View_Free a # cs) = silent cs"
  "silent (Free_Block b # cs) = silent cs" "silent (Model_Mutex_Delete # cs) = silent cs"
  by (simp_all add: silent_def)

lemma silent_entered: "silent cs \<Longrightarrow> entered cur cs = Some cur"
  by (simp add: silent_def)

lemma silent_free_model: "view_free_model ok v = Inr (cs, v1) \<Longrightarrow> silent cs"
  by (auto simp: view_free_model_def furi_check_eq_Inr split: view_model_type.splits option.splits)

lemma silent_free_views: "free_views ok store vs = Inr cs \<Longrightarrow> silent cs"
proof (induction ok store vs arbitrary: cs rule: free_views.induct)
  case (2 ok store i a vs)
  from "2.prems" obtain cs1 v cs2 where 1: "view_free_model ok (store a) = Inr (cs1, v)"
    and 2: "free_views ok (store(a := v)) vs = Inr cs2" and cs: "cs = cs1 @ View_Free a # cs2"
    by (auto simp: bindE_eq_Inr)
  from "2.IH" [OF 1 refl 2] silent_free_model [OF 1] show ?case
    by (simp add: cs silent_append)
qed simp

definition dispatcher_inv :: "dispatcher \<Rightarrow> bool" where
  "dispatcher_inv d \<longleftrightarrow> distinct (map fst (disp_views d)) \<and>
     (disp_freed d \<or>
      (is_enabled (disp_port d) \<longleftrightarrow> disp_current d \<noteq> None) \<and>
      (\<forall>a. disp_current d = Some a \<longrightarrow> a \<in> snd ` set (disp_views d)))"

text \<open>What one operation does to the entered view and to the invariant.\<close>

definition op_ok :: "dispatcher \<Rightarrow> view_call list disp_res \<Rightarrow> bool" where
  "op_ok d r \<longleftrightarrow> (\<forall>cs d1. r = Inr (cs, d1) \<longrightarrow>
     entered (disp_current d) cs = Some (disp_current d1) \<and> dispatcher_inv d1)"

lemma set_current_view_ok:
  assumes "\<forall>a. v = Some a \<longrightarrow> a \<in> snd ` set (disp_views d)"
    and "distinct (map fst (disp_views d))"
  shows "op_ok d (view_dispatcher_set_current_view dbg v d)"
  using assms
  by (cases v; cases "disp_current d")
    (auto simp: op_ok_def view_dispatcher_set_current_view_def Let_def view_exit_def view_enter_def
      view_port_enabled_set_def view_port_update_def view_dispatcher_stop_def set_port_def
      dispatcher_inv_def bindE_eq_Inr view_port_set_orientation_def furi_assert_def
      split: if_splits option.splits)


lemma op_ok_prefix:
  "op_ok d r \<Longrightarrow> entered (disp_current d) pre = Some (disp_current d) \<Longrightarrow> silent post \<Longrightarrow>
     op_ok d (bindE r (\<lambda>(cs, d1). Inr (pre @ cs @ post, d1)))"
  by (auto simp: op_ok_def bindE_eq_Inr entered_append silent_entered)

lemma dispatcher_inv_distinct: "dispatcher_inv d \<Longrightarrow> distinct (map fst (disp_views d))"
  by (simp add: dispatcher_inv_def)

lemma switch_to_view_ok:
  assumes "dispatcher_inv d"
  shows "op_ok d (view_dispatcher_switch_to_view dbg ok i d)"
proof -
  note dist = dispatcher_inv_distinct [OF assms]
  have none: "op_ok d (view_dispatcher_set_current_view dbg None d)"
    using dist by (intro set_current_view_ok) simp_all
  have ignore: "op_ok d (Inr ([], d))"
    using assms by (simp add: op_ok_def)
  have free: "op_ok d (view_dispatcher_free ok d)"
    by (auto simp: op_ok_def view_dispatcher_free_def Let_def bindE_eq_Inr entered_append
        silent_entered [OF silent_free_views] dispatcher_inv_def split: if_splits)
  have view: "op_ok d (furi_check (map_of (disp_views d) i \<noteq> None)
      (view_dispatcher_set_current_view dbg (map_of (disp_views d) i) d))"
  proof (cases "map_of (disp_views d) i")
    case (Some a)
    then have "a \<in> snd ` set (disp_views d)" by (force dest: map_of_SomeD)
    with set_current_view_ok [of "Some a" d dbg] Some dist show ?thesis by simp
  qed (simp add: op_ok_def)
  show ?thesis
    using none ignore free view by (simp add: view_dispatcher_switch_to_view_def)
qed

lemma handle_input_ok:
  assumes "dispatcher_inv d"
  shows "op_ok d (view_dispatcher_handle_input dbg ok e d)"
proof -
  let ?inputs = "case disp_current d of Some a \<Rightarrow> [View_Input a e] | None \<Rightarrow> []"
  have pre: "entered (disp_current d) ?inputs = Some (disp_current d)"
    by (cases "disp_current d") simp_all
  have plain: "op_ok d (Inr (?inputs, d))"
    using assms pre by (simp add: op_ok_def)
  have switch: "op_ok d (bindE (view_dispatcher_switch_to_view dbg ok i d) (\<lambda>(cs, d1). Inr (?inputs @ cs, d1)))" for i
    using op_ok_prefix [OF switch_to_view_ok [OF assms] pre silent_simps(1)] by simp
  have bind: "op_ok d (bindE m (\<lambda>i. f i))" if "\<And>i. op_ok d (f i)" for m :: "u32 res" and f
    using that by (cases m) (simp_all add: op_ok_def)
  show ?thesis
    unfolding view_dispatcher_handle_input_def Let_def
    using plain bind [OF switch] by simp
qed

lemma remove_view_ok:
  assumes inv: "dispatcher_inv d"
  shows "op_ok d (view_dispatcher_remove_view dbg i d)"
proof (cases "map_of (disp_views d) i")
  case None
  then show ?thesis by (simp add: view_dispatcher_remove_view_def op_ok_def)
next
  case (Some a)
  let ?m = "if disp_current d = Some a then view_dispatcher_set_current_view dbg None d else Inr ([], d)"
  have m: "op_ok d ?m"
    using set_current_view_ok [of None d dbg] inv dispatcher_inv_distinct [OF inv] by (auto simp: op_ok_def)
  show ?thesis
    unfolding op_ok_def
  proof (intro allI impI)
    fix cs d2
    assume "view_dispatcher_remove_view dbg i d = Inr (cs, d2)"
    then obtain cs1 d1 where 1: "?m = Inr (cs1, d1)"
      and cs: "cs = (if disp_gui d then [Gui_Lock] else []) @ cs1 @ (if disp_gui d then [Gui_Unlock] else [])"
      and d2: "disp_current d2 = disp_current d1" "disp_port d2 = disp_port d1"
        "disp_views d2 = dict_erase i (disp_views d1)" "disp_freed d2 = disp_freed d1"
      by (auto simp: view_dispatcher_remove_view_def Some bindE_eq_Inr Let_def)
    from m 1 have e: "entered (disp_current d) cs1 = Some (disp_current d1)" and inv1: "dispatcher_inv d1"
      by (auto simp: op_ok_def)
    have ne: "disp_current d1 \<noteq> Some a"
      using 1 by (auto simp: view_dispatcher_set_current_view_def Let_def set_port_def
          view_port_enabled_set_def view_dispatcher_stop_def furi_assert_def
          split: if_splits option.splits)
    have views: "disp_views d1 = disp_views d"
      using 1 by (auto simp: view_dispatcher_set_current_view_def Let_def set_port_def
          view_port_enabled_set_def view_dispatcher_stop_def furi_assert_def
          split: if_splits option.splits)
    have keep: "b \<in> snd ` set (dict_erase i (disp_views d))" if "b \<in> snd ` set (disp_views d)" "b \<noteq> a" for b
    proof -
      from that(1) obtain k where k: "(k, b) \<in> set (disp_views d)" by auto
      with dispatcher_inv_distinct [OF inv] have "map_of (disp_views d) k = Some b"
        by (rule map_of_is_SomeI)
      with Some that(2) have "k \<noteq> i" by auto
      with k show ?thesis by (force simp: dict_erase_def)
    qed
    show "entered (disp_current d) cs = Some (disp_current d2) \<and> dispatcher_inv d2"
    proof
      show "entered (disp_current d) cs = Some (disp_current d2)"
        using e by (simp add: cs d2 entered_append)
      have "b \<in> snd ` set (dict_erase i (disp_views d))" if "disp_current d1 = Some b" "\<not> disp_freed d1" for b
        using inv1 that ne keep [of b] by (auto simp: dispatcher_inv_def views)
      then show "dispatcher_inv d2"
        using inv1 unfolding dispatcher_inv_def d2 views by (auto simp: distinct_dict_erase)
    qed
  qed
qed


lemma add_view_ok: "dispatcher_inv d \<Longrightarrow> op_ok d (view_dispatcher_add_view i a d)"
  by (auto simp: op_ok_def view_dispatcher_add_view_def Let_def furi_check_eq_Inr dispatcher_inv_def
      distinct_dict_set dict_set_new)

lemma dispatcher_step_ok:
  assumes "dispatcher_inv d"
  shows "op_ok d (dispatcher_step dbg ok d op)"
proof (cases op)
  case (Op_Input e)
  show ?thesis
  proof (cases "disp_queue d")
    case None
    with Op_Input handle_input_ok [OF assms] show ?thesis
      by (simp add: view_dispatcher_input_callback_def)
  next
    case (Some q)
    with Op_Input assms show ?thesis
      by (simp add: view_dispatcher_input_callback_def op_ok_def dispatcher_inv_def)
  qed
next
  case (Op_Attach ty)
  with assms show ?thesis
    by (auto simp: view_dispatcher_attach_to_gui_def op_ok_def furi_assert_eq_Inr Let_def
        dispatcher_inv_def view_port_gui_set_def)
next
  case Op_Enable_Queue
  with assms show ?thesis
    by (auto simp: view_dispatcher_enable_queue_def op_ok_def furi_assert_eq_Inr bindE_eq_Inr
        dispatcher_inv_def)
qed (use assms add_view_ok remove_view_ok switch_to_view_ok handle_input_ok in simp_all)

lemma dispatcher_run_ok:
  "runE (dispatcher_step dbg ok) d ops = Inr (css, d1) \<Longrightarrow> dispatcher_inv d \<Longrightarrow>
     entered (disp_current d) (concat css) = Some (disp_current d1) \<and> dispatcher_inv d1"
proof (induction ops arbitrary: d css)
  case (Cons op ops)
  from Cons.prems(1) obtain cs d2 css1 where 1: "dispatcher_step dbg ok d op = Inr (cs, d2)"
    and 2: "runE (dispatcher_step dbg ok) d2 ops = Inr (css1, d1)" and css: "css = cs # css1"
    by (auto simp: bindE_eq_Inr split: prod.splits)
  from dispatcher_step_ok [OF Cons.prems(2), of dbg ok op] 1
  have "entered (disp_current d) cs = Some (disp_current d2)" "dispatcher_inv d2"
    by (auto simp: op_ok_def)
  with Cons.IH [OF 2] show ?case by (simp add: css entered_append)
qed simp

section \<open>Properties\<close>

text \<open>
  C5. Views are entered and left in turn. After any sequence of adding, removing and switching
  views, of input handled directly or through the queue, and of attaching to the GUI, the calls
  made show: no view is entered before the one entered last was left, a view is left and gets
  input only while it is the entered one, the entered view is the current one, it is registered,
  and the port is enabled exactly if there is one.
\<close>

theorem dispatcher_enter_exit:
  assumes "runE (dispatcher_step dbg ok) (view_dispatcher_alloc dr inp upd self store) ops = Inr (css, d)"
  shows "entered None (concat css) = Some (disp_current d) \<and>
     (\<not> disp_freed d \<longrightarrow> (is_enabled (disp_port d) \<longleftrightarrow> disp_current d \<noteq> None) \<and>
        (\<forall>a. disp_current d = Some a \<longrightarrow> a \<in> snd ` set (disp_views d)))"
proof -
  have "dispatcher_inv (view_dispatcher_alloc dr inp upd self store)"
    and "disp_current (view_dispatcher_alloc dr inp upd self store) = None"
    by (auto simp: dispatcher_inv_def view_dispatcher_alloc_def Let_def view_port_enabled_set_def
        view_port_alloc_def view_port_draw_callback_set_def view_port_input_callback_set_def)
  with dispatcher_run_ok [OF assms] show ?thesis by (auto simp: dispatcher_inv_def)
qed

theorem dispatcher_enter_exit_witness:
  "entered None (concat [[], [View_Enter 100 None None], [View_Exit 100 None None]]) = Some None"
proof -
  have "\<exists>d. runE (dispatcher_step True True) (view_dispatcher_alloc 1 2 3 4 (\<lambda>_. view_alloc))
      [Op_Add 7 100, Op_Switch 7, Op_Switch VIEW_NONE] =
    Inr ([[], [View_Enter 100 None None], [View_Exit 100 None None]], d) \<and> disp_current d = None"
    by (simp add: view_dispatcher_alloc_def view_dispatcher_add_view_def view_dispatcher_switch_to_view_def
        view_dispatcher_set_current_view_def view_ids Let_def view_enter_def view_exit_def
        view_port_enabled_set_def view_port_update_def view_port_alloc_def view_alloc_def set_port_def
        view_port_draw_callback_set_def view_port_input_callback_set_def view_port_set_orientation_def
        view_set_update_callback_def view_set_update_callback_context_def)
  then obtain d where "runE (dispatcher_step True True) (view_dispatcher_alloc 1 2 3 4 (\<lambda>_. view_alloc))
      [Op_Add 7 100, Op_Switch 7, Op_Switch VIEW_NONE] =
    Inr ([[], [View_Enter 100 None None], [View_Exit 100 None None]], d)" "disp_current d = None"
    by blast
  with dispatcher_enter_exit [OF this(1)] show ?thesis by (simp only: simp_thms)
qed

text \<open>
  Back or Ok without a view. When no view is current, a short press of Back or Ok that is not
  consumed makes the dispatcher follow a null pointer. With a queue this is reached by removing
  the current view while such a press is queued: the run then ends in the fault instead of at
  the stop message.
\<close>

theorem dispatcher_back_after_remove:
  assumes "disp_queue d = Some [Message_Input \<lparr>ev_key = k, ev_type = InputTypeShort\<rparr>]"
    and "k \<in> {InputKeyBack, InputKeyOk}"
    and "map_of (disp_views d) i = Some a" and "disp_current d = Some a"
  shows "\<exists>cs d1. view_dispatcher_remove_view dbg i d = Inr (cs, d1) \<and> disp_current d1 = None \<and>
     view_dispatcher_run (Suc n) dbg ok d1 = Inl (if dbg then Assert_Failed else Null_Pointer)"
  using assms
  by (auto simp: view_dispatcher_remove_view_def view_dispatcher_set_current_view_def Let_def set_port_def
      view_dispatcher_stop_def view_port_enabled_set_def view_dispatcher_handle_input_def on_current_def
      furi_assert_def split: prod.split)

theorem dispatcher_back_after_remove_witness:
  "\<exists>cs d1. view_dispatcher_remove_view False 7
      ((view_dispatcher_alloc 1 2 3 4 (\<lambda>_. view_alloc))
        \<lparr>disp_queue := Some [Message_Input \<lparr>ev_key = InputKeyBack, ev_type = InputTypeShort\<rparr>],
         disp_views := [(7, 100)], disp_current := Some 100\<rparr>) = Inr (cs, d1) \<and>
     disp_current d1 = None \<and> view_dispatcher_run (Suc 9) False True d1 = Inl (if False then Assert_Failed else Null_Pointer)"
  by (rule dispatcher_back_after_remove [where k = InputKeyBack]) simp_all

end
