(* ===== verification/Canvas.thy ===== *)
theory Canvas
  imports MString Float32 "HOL-Library.Signed_Division"
begin

text \<open>
  Drawing: \<^verbatim>\<open>applications/gui/canvas.c\<close>, \<^verbatim>\<open>icon.c\<close> and \<^verbatim>\<open>elements.c\<close>. The canvas is a drawing area
  inside the frame buffer of u8g2, a vendored library: its calls are recorded, and what it
  answers about fonts, and the generated icon data, is a record \<open>gfx\<close> of parameters. A drawing
  routine is a function from the canvas to the calls it makes and the new canvas. Coordinates
  are 8-bit and wrap as in the code.
\<close>

section \<open>Icons\<close>

record icon_data =
  icon_width :: u8
  icon_height :: u8
  frame_count :: u8
  frame_rate :: u8
  frames :: "nat list"

record icon =
  icon_data_of :: icon_data
  icon_frame :: u8
  icon_tick :: u32

definition icon_alloc :: "icon_data \<Rightarrow> icon" where
  "icon_alloc d = \<lparr>icon_data_of = d, icon_frame = 0, icon_tick = 0\<rparr>"

definition icon_next_frame :: "icon \<Rightarrow> icon res" where
  "icon_next_frame i =
     (if frame_count (icon_data_of i) = 0 then Inl Div_Zero
      else Inr (i\<lparr>icon_frame := of_nat ((unat (icon_frame i) + 1) mod unat (frame_count (icon_data_of i)))\<rparr>))"

text \<open>\<open>now\<close> is the kernel's tick count, \<open>freq\<close> its frequency. The result is the frame shown.\<close>

definition icon_get_data :: "u32 \<Rightarrow> u32 \<Rightarrow> icon \<Rightarrow> (nat \<times> icon) res" where
  "icon_get_data now freq i =
     bindE
       (if icon_tick i \<noteq> 0 then
          (if now < icon_tick i then icon_next_frame (i\<lparr>icon_tick := now\<rparr>)
           else if frame_rate (icon_data_of i) = 0 then Inl Div_Zero
           else if now - icon_tick i > freq div ucast (frame_rate (icon_data_of i))
           then icon_next_frame (i\<lparr>icon_tick := now\<rparr>)
           else Inr i)
        else Inr i)
       (\<lambda>i1. bindE (arr_get (frames (icon_data_of i1)) (unat (icon_frame i1))) (\<lambda>f. Inr (f, i1)))"

definition icon_get_width :: "icon \<Rightarrow> u8" where "icon_get_width i = icon_width (icon_data_of i)"
definition icon_get_height :: "icon \<Rightarrow> u8" where "icon_get_height i = icon_height (icon_data_of i)"
definition icon_is_animated :: "icon \<Rightarrow> bool" where
  "icon_is_animated i \<longleftrightarrow> frame_count (icon_data_of i) > 1"
definition icon_is_animating :: "icon \<Rightarrow> bool" where "icon_is_animating i \<longleftrightarrow> icon_tick i > 0"
definition icon_start_animation :: "u32 \<Rightarrow> icon \<Rightarrow> icon" where
  "icon_start_animation now i = i\<lparr>icon_tick := now\<rparr>"
definition icon_stop_animation :: "icon \<Rightarrow> icon" where
  "icon_stop_animation i = i\<lparr>icon_tick := 0, icon_frame := 0\<rparr>"
definition icon_get_current_frame :: "icon \<Rightarrow> u8" where "icon_get_current_frame i = icon_frame i"
definition icon_is_last_frame :: "icon \<Rightarrow> bool" where
  "icon_is_last_frame i \<longleftrightarrow>
     int (unat (frame_count (icon_data_of i))) - int (unat (icon_frame i)) \<le> 1"

section \<open>The canvas\<close>

datatype color = ColorWhite | ColorBlack
datatype font = FontPrimary | FontSecondary | FontGlyph | FontKeyboard
datatype align = AlignLeft | AlignRight | AlignTop | AlignBottom | AlignCenter
datatype canvas_orientation = CanvasOrientationHorizontal | CanvasOrientationVertical

record canvas =
  draw_color :: color
  canvas_font :: font
  canvas_orientation :: canvas_orientation
  offset_x :: u8
  offset_y :: u8
  canvas_w :: u8
  canvas_h :: u8

datatype u8g2_call =
    U_DrawStr u8 u8 string
  | U_DrawXBM u8 u8 u8 u8 nat
  | U_DrawPixel u8 u8
  | U_DrawBox u8 u8 u8 u8
  | U_DrawFrame u8 u8 u8 u8
  | U_DrawLine u8 u8 u8 u8
  | U_DrawCircle u8 u8 u8
  | U_DrawDisc u8 u8 u8
  | U_DrawGlyph u8 u8 u16
  | U_SetDrawColor color
  | U_SetFontMode u8
  | U_SetFont font
  | Fb_DrawColor color
  | U_SetBitmapMode bool
  | U_SetDisplayRotation canvas_orientation
  | U_ClearBuffer
  | U_SendBuffer
  | U_SetPowerSave bool
  | U_Setup
  | U_InitDisplay
  | U_SetContrast u8

record gfx =
  g_str_width :: "font \<Rightarrow> string \<Rightarrow> u16"
  g_ascent :: "font \<Rightarrow> u8"
  g_char_height :: "font \<Rightarrow> u8"
  g_icons :: "string \<Rightarrow> icon_data"

type_synonym 'call drawing = "canvas \<Rightarrow> ('call list \<times> canvas) res"
type_synonym draw = "u8g2_call drawing"

definition draw_seq :: "'call drawing \<Rightarrow> 'call drawing \<Rightarrow> 'call drawing" where
  "draw_seq a b c =
     bindE (a c) (\<lambda>(cs, c1). bindE (b c1) (\<lambda>(cs1, c2). Inr (cs @ cs1, c2)))"

definition draw_nothing :: "'call drawing" where
  "draw_nothing c = Inr ([], c)"

definition draws :: "'call drawing list \<Rightarrow> 'call drawing" where
  "draws ds = foldr draw_seq ds draw_nothing"

text \<open>\<open>col\<close> and \<open>fnt\<close> are what the set-up of u8g2 leaves in the frame buffer structure.\<close>

definition canvas_init :: "color \<Rightarrow> font \<Rightarrow> u8g2_call list \<times> canvas" where
  "canvas_init col fnt =
     ([U_Setup, U_InitDisplay, U_SetContrast 36, U_SetPowerSave False, U_SendBuffer],
      \<lparr>draw_color = col, canvas_font = fnt, canvas_orientation = CanvasOrientationHorizontal,
       offset_x = 0, offset_y = 0, canvas_w = 0, canvas_h = 0\<rparr>)"

definition canvas_set_color :: "color \<Rightarrow> draw" where
  "canvas_set_color col c = Inr ([U_SetDrawColor col], c\<lparr>draw_color := col\<rparr>)"

definition canvas_invert_color :: draw where
  "canvas_invert_color c =
     (let col = (if draw_color c = ColorWhite then ColorBlack else ColorWhite)
      in Inr ([Fb_DrawColor col], c\<lparr>draw_color := col\<rparr>))"

definition canvas_clear :: draw where
  "canvas_clear c = Inr ([U_ClearBuffer], c)"

definition canvas_set_font :: "font \<Rightarrow> draw" where
  "canvas_set_font f c = Inr ([U_SetFontMode 1, U_SetFont f], c\<lparr>canvas_font := f\<rparr>)"

definition canvas_reset :: draw where
  "canvas_reset = draws [canvas_clear, canvas_set_color ColorBlack, canvas_set_font FontSecondary]"

definition canvas_commit :: draw where
  "canvas_commit c = Inr ([U_SetPowerSave False, U_SendBuffer], c)"

text \<open>\<open>tw\<close> and \<open>th\<close> are the size of the frame buffer in tiles of 8 bytes.\<close>

definition canvas_get_buffer_size :: "u8 \<Rightarrow> u8 \<Rightarrow> nat" where
  "canvas_get_buffer_size tw th = unat tw * unat th * 8"

definition canvas_frame_set :: "u8 \<Rightarrow> u8 \<Rightarrow> u8 \<Rightarrow> u8 \<Rightarrow> draw" where
  "canvas_frame_set x y w h c =
     Inr ([], c\<lparr>offset_x := x, offset_y := y, canvas_w := w, canvas_h := h\<rparr>)"

definition canvas_width :: "canvas \<Rightarrow> u8" where "canvas_width c = canvas_w c"
definition canvas_height :: "canvas \<Rightarrow> u8" where "canvas_height c = canvas_h c"

definition canvas_current_font_height :: "gfx \<Rightarrow> canvas \<Rightarrow> u8" where
  "canvas_current_font_height g c = g_char_height g (canvas_font c)"

definition canvas_string_width :: "gfx \<Rightarrow> string \<Rightarrow> canvas \<Rightarrow> u16" where
  "canvas_string_width g s c = g_str_width g (canvas_font c) s"

definition canvas_draw_str :: "u8 \<Rightarrow> u8 \<Rightarrow> string \<Rightarrow> draw" where
  "canvas_draw_str x y s c = Inr ([U_DrawStr (x + offset_x c) (y + offset_y c) s], c)"

text \<open>The defaults of the two switches are failed checks: \<open>align_ok\<close> tells which cases remain.\<close>

definition align_ok :: "align \<Rightarrow> align \<Rightarrow> bool" where
  "align_ok h v \<longleftrightarrow> h \<in> {AlignLeft, AlignRight, AlignCenter} \<and> v \<in> {AlignTop, AlignBottom, AlignCenter}"

definition canvas_draw_str_aligned :: "gfx \<Rightarrow> u8 \<Rightarrow> u8 \<Rightarrow> align \<Rightarrow> align \<Rightarrow> string \<Rightarrow> draw" where
  "canvas_draw_str_aligned g x0 y0 h v s c =
     furi_check (align_ok h v)
        (let x = x0 + offset_x c; y = y0 + offset_y c; w = g_str_width g (canvas_font c) s;
             a = g_ascent g (canvas_font c);
             x1 = (if h = AlignRight then x - ucast w
                   else if h = AlignCenter then x - ucast (w div 2) else x);
             y1 = (if v = AlignTop then y + a
                   else if v = AlignCenter then y + a div 2 else y)
         in Inr ([U_DrawStr x1 y1 s], c))"

text \<open>Drawing an icon may advance its animation: the icon after it is returned too.\<close>

definition canvas_draw_icon ::
    "u32 \<Rightarrow> u32 \<Rightarrow> u8 \<Rightarrow> u8 \<Rightarrow> icon \<Rightarrow> canvas \<Rightarrow> (u8g2_call list \<times> icon \<times> canvas) res" where
  "canvas_draw_icon now freq x y i c =
     bindE (icon_get_data now freq i) (\<lambda>(f, i1).
       Inr ([U_DrawXBM (x + offset_x c) (y + offset_y c) (icon_get_width i) (icon_get_height i) f],
            i1, c))"

definition canvas_draw_icon_name :: "gfx \<Rightarrow> u8 \<Rightarrow> u8 \<Rightarrow> string \<Rightarrow> draw" where
  "canvas_draw_icon_name g x y name c =
     (let d = g_icons g name in
      bindE (arr_get (frames d) 0) (\<lambda>f.
        Inr ([U_DrawXBM (x + offset_x c) (y + offset_y c) (icon_width d) (icon_height d) f], c)))"

definition canvas_draw_dot :: "u8 \<Rightarrow> u8 \<Rightarrow> draw" where
  "canvas_draw_dot x y c = Inr ([U_DrawPixel (x + offset_x c) (y + offset_y c)], c)"

definition canvas_draw_box :: "u8 \<Rightarrow> u8 \<Rightarrow> u8 \<Rightarrow> u8 \<Rightarrow> draw" where
  "canvas_draw_box x y w h c = Inr ([U_DrawBox (x + offset_x c) (y + offset_y c) w h], c)"

definition canvas_draw_frame :: "u8 \<Rightarrow> u8 \<Rightarrow> u8 \<Rightarrow> u8 \<Rightarrow> draw" where
  "canvas_draw_frame x y w h c = Inr ([U_DrawFrame (x + offset_x c) (y + offset_y c) w h], c)"

definition canvas_draw_line :: "u8 \<Rightarrow> u8 \<Rightarrow> u8 \<Rightarrow> u8 \<Rightarrow> draw" where
  "canvas_draw_line x1 y1 x2 y2 c =
     Inr ([U_DrawLine (x1 + offset_x c) (y1 + offset_y c) (x2 + offset_x c) (y2 + offset_y c)], c)"

definition canvas_draw_circle :: "u8 \<Rightarrow> u8 \<Rightarrow> u8 \<Rightarrow> draw" where
  "canvas_draw_circle x y r c = Inr ([U_DrawCircle (x + offset_x c) (y + offset_y c) r], c)"

definition canvas_draw_disc :: "u8 \<Rightarrow> u8 \<Rightarrow> u8 \<Rightarrow> draw" where
  "canvas_draw_disc x y r c = Inr ([U_DrawDisc (x + offset_x c) (y + offset_y c) r], c)"

definition canvas_draw_xbm :: "u8 \<Rightarrow> u8 \<Rightarrow> u8 \<Rightarrow> u8 \<Rightarrow> nat \<Rightarrow> draw" where
  "canvas_draw_xbm x y w h b c = Inr ([U_DrawXBM (x + offset_x c) (y + offset_y c) w h b], c)"

definition canvas_draw_glyph :: "u8 \<Rightarrow> u8 \<Rightarrow> u16 \<Rightarrow> draw" where
  "canvas_draw_glyph x y ch c = Inr ([U_DrawGlyph (x + offset_x c) (y + offset_y c) ch], c)"

definition canvas_set_bitmap_mode :: "bool \<Rightarrow> draw" where
  "canvas_set_bitmap_mode alpha c = Inr ([U_SetBitmapMode alpha], c)"

definition canvas_get_orientation :: "canvas \<Rightarrow> canvas_orientation" where
  "canvas_get_orientation c = canvas_orientation c"

definition canvas_set_orientation :: "canvas_orientation \<Rightarrow> draw" where
  "canvas_set_orientation o1 c =
     (if canvas_orientation c \<noteq> o1 then Inr ([U_SetDisplayRotation o1], c\<lparr>canvas_orientation := o1\<rparr>)
      else Inr ([], c))"

section \<open>Elements\<close>

text \<open>
  The rows of a dotted line: the 8-bit counter of the loop goes up by two while it is below the
  bound, an \<^verbatim>\<open>int\<close>. \<open>None\<close> if it wraps and never gets there: after 128 turns it has repeated.
\<close>

fun dot_rows :: "nat \<Rightarrow> u8 \<Rightarrow> nat \<Rightarrow> u8 list option" where
  "dot_rows 0 i bound = None"
| "dot_rows (Suc n) i bound =
     (if unat i < bound then map_option ((#) i) (dot_rows n (i + 2) bound) else Some [])"

definition dotted_line :: "u8 \<Rightarrow> u8 \<Rightarrow> nat \<Rightarrow> draw option" where
  "dotted_line x y bound =
     map_option (\<lambda>rows. draws (map (\<lambda>i. canvas_draw_dot x i) rows)) (dot_rows 129 y bound)"

text \<open>Float values go to 8 bits by truncation; \<open>bind_draw\<close> passes on a loop that never ends.\<close>

definition elements_scrollbar_pos :: "u8 \<Rightarrow> u8 \<Rightarrow> u8 \<Rightarrow> u16 \<Rightarrow> u16 \<Rightarrow> draw option" where
  "elements_scrollbar_pos x y height pos cnt =
     map_option (\<lambda>dots.
       draws ([canvas_set_color ColorWhite, canvas_draw_box (x - 3) y 3 height,
               canvas_set_color ColorBlack, dots] @
         (if cnt \<noteq> 0 then
            (let block_h = f32 (of_nat (unat height) / of_nat (unat cnt));
                 by = f32 (of_nat (unat y) + f32 (block_h * of_nat (unat pos)))
             in [canvas_draw_box (x - 3) (word_of_int \<lfloor>by\<rfloor>) 3 (word_of_int \<lfloor>max block_h 1\<rfloor>)])
          else [])))
       (dotted_line (x - 2) y (unat height + unat y))"

definition elements_scrollbar :: "u8 \<Rightarrow> u8 \<Rightarrow> canvas \<Rightarrow> (u8g2_call list \<times> canvas) res option" where
  "elements_scrollbar pos cnt c =
     (let width = canvas_width c; height = canvas_height c in
      map_option (\<lambda>dots.
        draws ([canvas_set_color ColorWhite, canvas_draw_box (width - 3) 0 3 height,
                canvas_set_color ColorBlack, dots] @
          (if cnt \<noteq> 0 then
             (let block_h = word_of_int \<lfloor>f32 (of_nat (unat height) / of_nat (unat cnt))\<rfloor> :: u8
              in [canvas_draw_box (width - 3) (block_h * pos) 3 (max block_h 1)])
           else [])) c)
        (dotted_line (width - 2) 0 (unat height)))"

definition elements_frame :: "u8 \<Rightarrow> u8 \<Rightarrow> u8 \<Rightarrow> u8 \<Rightarrow> draw" where
  "elements_frame x y width height =
     draws
       [canvas_draw_line (x + 2) y (x + width - 2) y,
        canvas_draw_line (x + 1) (y + height - 1) (x + width) (y + height - 1),
        canvas_draw_line (x + 2) (y + height) (x + width - 1) (y + height),
        canvas_draw_line x (y + 2) x (y + height - 2),
        canvas_draw_line (x + width - 1) (y + 1) (x + width - 1) (y + height - 2),
        canvas_draw_line (x + width) (y + 2) (x + width) (y + height - 2),
        canvas_draw_dot (x + 1) (y + 1)]"

definition elements_button_left :: "gfx \<Rightarrow> string \<Rightarrow> draw" where
  "elements_button_left g s c =
     (let string_width = ucast (canvas_string_width g s c) :: u8;
          icon_off = icon_width (g_icons g ''I_ButtonLeft_4x7'') + 6;
          bw = string_width + 3 * 2 + icon_off;
          y = canvas_height c
      in draws
        [canvas_draw_box 0 (y - 13) bw 13,
         canvas_draw_line bw y bw (y - 13),
         canvas_draw_line (bw + 1) y (bw + 1) (y - 13 + 1),
         canvas_draw_line (bw + 2) y (bw + 2) (y - 13 + 2),
         canvas_invert_color,
         canvas_draw_icon_name g 3 (y - 13 + 3) ''I_ButtonLeft_4x7'',
         canvas_draw_str (3 + icon_off) (y - 3) s,
         canvas_invert_color] c)"

definition elements_button_right :: "gfx \<Rightarrow> string \<Rightarrow> draw" where
  "elements_button_right g s c =
     (let string_width = ucast (canvas_string_width g s c) :: u8;
          iw = icon_width (g_icons g ''I_ButtonRight_4x7'');
          bw = string_width + 3 * 2 + (iw + 6);
          x = canvas_width c; y = canvas_height c
      in draws
        [canvas_draw_box (x - bw) (y - 13) bw 13,
         canvas_draw_line (x - bw - 1) y (x - bw - 1) (y - 13),
         canvas_draw_line (x - bw - 2) y (x - bw - 2) (y - 13 + 1),
         canvas_draw_line (x - bw - 3) y (x - bw - 3) (y - 13 + 2),
         canvas_invert_color,
         canvas_draw_str (x - bw + 3) (y - 3) s,
         canvas_draw_icon_name g (x - 3 - iw) (y - 13 + 3) ''I_ButtonRight_4x7'',
         canvas_invert_color] c)"

definition elements_button_center :: "gfx \<Rightarrow> string \<Rightarrow> draw" where
  "elements_button_center g s c =
     (let string_width = ucast (canvas_string_width g s c) :: u8;
          icon_off = icon_width (g_icons g ''I_ButtonCenter_7x7'') + 6;
          bw = string_width + 3 * 2 + icon_off;
          x = word_of_int ((uint (canvas_width c) - uint bw) sdiv 2) :: u8;
          y = canvas_height c
      in draws
        [canvas_draw_box x (y - 13) bw 13,
         canvas_draw_line (x - 1) y (x - 1) (y - 13),
         canvas_draw_line (x - 2) y (x - 2) (y - 13 + 1),
         canvas_draw_line (x - 3) y (x - 3) (y - 13 + 2),
         canvas_draw_line (x + bw) y (x + bw) (y - 13),
         canvas_draw_line (x + bw + 1) y (x + bw + 1) (y - 13 + 1),
         canvas_draw_line (x + bw + 2) y (x + bw + 2) (y - 13 + 2),
         canvas_invert_color,
         canvas_draw_icon_name g (x + 3) (y - 13 + 3) ''I_ButtonCenter_7x7'',
         canvas_draw_str (x + 3 + icon_off) (y - 3) s,
         canvas_invert_color] c)"

text \<open>The loops over the lines of a text: what is before the next newline, then the rest.\<close>

abbreviation newline :: char where "newline \<equiv> CHR 0x0A"

function draw_lines :: "(u8 \<Rightarrow> string \<Rightarrow> draw) \<Rightarrow> u8 \<Rightarrow> u8 \<Rightarrow> string \<Rightarrow> draw list" where
  "draw_lines one fh y txt =
     (case string_search_char txt newline of
        None \<Rightarrow> [one y txt]
      | Some n \<Rightarrow> one y (take n txt) # draw_lines one fh (y + fh) (drop (n + 1) txt))"
  by pat_completeness auto
termination
  by (relation "measure (\<lambda>(_, _, _, txt). length txt)") (auto dest: string_search_char_Some)

declare draw_lines.simps [simp del]

text \<open>
  The loop that counts the newlines has an 8-bit index: \<open>None\<close> if it never meets the end of
  the text, which is so when none of its 256 values is the index of the end.
\<close>

fun newline_count :: "nat \<Rightarrow> string \<Rightarrow> u8 \<Rightarrow> u8 \<Rightarrow> u8 option" where
  "newline_count 0 txt i cnt = None"
| "newline_count (Suc n) txt i cnt =
     (if unat i < length txt
      then newline_count n txt (i + 1) (if txt ! unat i = newline then cnt + 1 else cnt)
      else Some cnt)"

definition elements_multiline_text_aligned ::
    "gfx \<Rightarrow> u8 \<Rightarrow> u8 \<Rightarrow> align \<Rightarrow> align \<Rightarrow> string \<Rightarrow> draw option" where
  "elements_multiline_text_aligned g x y0 h v txt =
     map_option (\<lambda>lines_count c.
       let fh = canvas_current_font_height g c + 2;
           y = (if v = AlignBottom then y0 - fh * lines_count
                else if v = AlignCenter then
                  y0 - of_nat (unat fh * unat lines_count div 2)
                else y0)
       in draws (draw_lines (\<lambda>y s. canvas_draw_str_aligned g x y h v s) fh y txt) c)
     (newline_count 257 txt 0 0)"

definition elements_multiline_text :: "gfx \<Rightarrow> u8 \<Rightarrow> u8 \<Rightarrow> string \<Rightarrow> draw" where
  "elements_multiline_text g x y txt c =
     draws (draw_lines (\<lambda>y s. canvas_draw_str x y s) (canvas_current_font_height g c) y txt) c"

text \<open>The widest suffix that starts a line, as the loop computes it, and the number of lines.\<close>

fun text_extent :: "(string \<Rightarrow> u16) \<Rightarrow> string \<Rightarrow> u8 \<Rightarrow> u16 \<Rightarrow> u8 \<times> u16" where
  "text_extent w [] n m = (n, m)"
| "text_extent w (ch # t) n m =
     (if ch = newline then text_extent w t (n + 1) (if w t > m then w t else m)
      else text_extent w t n m)"

definition elements_multiline_text_framed :: "gfx \<Rightarrow> u8 \<Rightarrow> u8 \<Rightarrow> string \<Rightarrow> draw" where
  "elements_multiline_text_framed g x y txt c =
     (let font_y = canvas_current_font_height g c;
          w = (\<lambda>s. canvas_string_width g s c);
          (n, str_width) = text_extent w txt 1 (w txt);
          fw = ucast str_width + 8; fh = font_y * n + 6
      in draws
        [canvas_set_color ColorWhite,
         canvas_draw_box x (y - font_y) fw fh,
         canvas_set_color ColorBlack,
         elements_multiline_text g (x + 4) (y + 1) txt,
         elements_frame x (y - font_y) fw fh] c)"

definition elements_slightly_rounded_frame :: "u8 \<Rightarrow> u8 \<Rightarrow> u8 \<Rightarrow> u8 \<Rightarrow> draw" where
  "elements_slightly_rounded_frame x y width height =
     draws
       [canvas_draw_frame x y width height,
        canvas_invert_color,
        canvas_draw_dot x y,
        canvas_draw_dot (x + width - 1) (y + height - 1),
        canvas_draw_dot (x + width - 1) y,
        canvas_draw_dot x (y + height - 1),
        canvas_invert_color]"

text \<open>
  The end position is computed in \<^verbatim>\<open>size_t\<close> and truncated to 8 bits. An empty string with a
  positive width is a division by zero.
\<close>

definition elements_string_fit_width :: "gfx \<Rightarrow> string \<Rightarrow> u8 \<Rightarrow> canvas \<Rightarrow> string res" where
  "elements_string_fit_width g s width c =
     (let len_px = unat (canvas_string_width g s c) in
      if unat width < len_px then
        (let s_len = length s in
         if s_len = 0 then Inl Div_Zero
         else
           (let end_pos = of_nat s_len -
                  of_nat ((len_px - unat width) div (len_px div s_len + 2) + 2) :: u32
            in Inr (take (unat (ucast end_pos :: u8)) s @ ''...'')))
      else Inr s)"

section \<open>Lemmas\<close>

lemma draws_Nil [simp]: "draws [] c = Inr ([], c)"
  by (simp add: draws_def draw_nothing_def)

lemma draws_Cons [simp]:
  "draws (d # ds) c =
     bindE (d c) (\<lambda>(cs, c1). bindE (draws ds c1) (\<lambda>(cs1, c2). Inr (cs @ cs1, c2)))"
  by (simp add: draws_def draw_seq_def)

lemma draws_append:
  "draws (ds @ es) c =
     bindE (draws ds c) (\<lambda>(cs, c1). bindE (draws es c1) (\<lambda>(cs1, c2). Inr (cs @ cs1, c2)))"
proof (induction ds arbitrary: c)
  case Nil
  show ?case by (cases "draws es c") auto
next
  case (Cons d ds)
  show ?case
    by (cases "d c")
       (auto simp: Cons.IH bindE_assoc fun_eq_iff split: prod.splits intro!: arg_cong2 [of _ _ _ _ bindE])
qed

text \<open>The strings among the calls, with their heights, and the heights of the boxes of a width.\<close>

fun texts_drawn :: "u8g2_call list \<Rightarrow> (u8 \<times> string) list" where
  "texts_drawn [] = []"
| "texts_drawn (U_DrawStr x y s # cs) = (y, s) # texts_drawn cs"
| "texts_drawn (_ # cs) = texts_drawn cs"

fun boxes_drawn :: "u8 \<Rightarrow> u8g2_call list \<Rightarrow> u8 list" where
  "boxes_drawn wd [] = []"
| "boxes_drawn wd (U_DrawBox x y w h # cs) = (if w = wd then [y] else []) @ boxes_drawn wd cs"
| "boxes_drawn wd (_ # cs) = boxes_drawn wd cs"

lemma texts_drawn_append [simp]: "texts_drawn (cs @ cs1) = texts_drawn cs @ texts_drawn cs1"
  by (induction cs rule: texts_drawn.induct) auto

lemma boxes_drawn_append [simp]: "boxes_drawn wd (cs @ cs1) = boxes_drawn wd cs @ boxes_drawn wd cs1"
  by (induction wd cs rule: boxes_drawn.induct) auto

definition same_area :: "canvas \<Rightarrow> canvas \<Rightarrow> bool" where
  "same_area c c1 \<longleftrightarrow>
     offset_x c1 = offset_x c \<and> offset_y c1 = offset_y c \<and> canvas_w c1 = canvas_w c \<and>
     canvas_h c1 = canvas_h c"

lemma same_area_refl [simp]: "same_area c c" by (simp add: same_area_def)

text \<open>The drawing routines that depend on nothing but the canvas.\<close>

lemmas canvas_prims =
  canvas_set_color_def canvas_clear_def canvas_set_font_def canvas_draw_box_def canvas_draw_dot_def
  canvas_draw_str_def canvas_draw_frame_def canvas_draw_line_def canvas_draw_glyph_def
  canvas_invert_color_def

text \<open>The lines of a text.\<close>

fun text_lines :: "string \<Rightarrow> string list" where
  "text_lines [] = [[]]"
| "text_lines (ch # t) =
     (if ch = newline then [] # text_lines t
      else (case text_lines t of l # ls \<Rightarrow> (ch # l) # ls | [] \<Rightarrow> [[ch]]))"

lemma text_lines_nonempty: "text_lines t \<noteq> []"
  by (induction t) (auto split: list.split)

lemma text_lines_none: "newline \<notin> set t \<Longrightarrow> text_lines t = [t]"
  by (induction t) auto

lemma text_lines_split: "newline \<notin> set s \<Longrightarrow> text_lines (s @ newline # t) = s # text_lines t"
  by (induction s) auto

lemma draw_lines_eq:
  "draw_lines one fh y tx =
     map (\<lambda>(k, l). one (y + of_nat k * fh) l) (enumerate 0 (text_lines tx))"
proof (induction one fh y tx rule: draw_lines.induct)
  case (1 one fh y tx)
  show ?case
  proof (cases "string_search_char tx newline")
    case None
    then have "text_lines tx = [tx]" by (simp add: string_search_char_None text_lines_none)
    with None show ?thesis by (simp add: draw_lines.simps)
  next
    case (Some n)
    from string_search_char_Some [OF Some] have n: "n < length tx" "tx ! n = newline" "newline \<notin> set (take n tx)"
      by auto
    then have "text_lines tx = take n tx # text_lines (drop (Suc n) tx)"
      by (metis id_take_nth_drop text_lines_split)
    moreover have "enumerate 1 ls = map (\<lambda>(k, l). (k + 1, l)) (enumerate 0 ls)" for ls :: "string list"
      by (auto simp: enumerate_Suc_eq [of 0, simplified] apfst_def map_prod_def)
    ultimately show ?thesis
      using "1.IH" [OF Some] Some
      by (subst draw_lines.simps) (auto simp: algebra_simps)
  qed
qed

lemma draws_strings:
  "draws (map (\<lambda>(k, l). canvas_draw_str x (f k) l) ls) c =
     Inr (map (\<lambda>(k, l). U_DrawStr (x + offset_x c) (f k + offset_y c) l) ls, c)"
  by (induction ls) (auto simp: canvas_draw_str_def split: prod.split)

text \<open>
  \<^verbatim>\<open>elements_multiline_text\<close> draws exactly the lines of its text, in order and without
  their newlines, each one font height (as wrapped 8-bit numbers) below the one before, and
  leaves the canvas as it was.
\<close>

theorem multiline_text_draws_lines:
  "elements_multiline_text g x y tx c =
     Inr (map (\<lambda>(k, l). U_DrawStr (x + offset_x c)
                          (y + of_nat k * canvas_current_font_height g c + offset_y c) l)
            (enumerate 0 (text_lines tx)), c)"
  by (simp add: elements_multiline_text_def draw_lines_eq draws_strings)

subsection \<open>Loops with 8-bit counters\<close>

lemma dot_rows_finishes:
  assumes "bound \<le> 254 \<or> (bound = 255 \<and> odd (unat i))" and "129 \<le> n + unat i div 2"
  shows "dot_rows n i bound \<noteq> None"
  using assms
proof (induction n arbitrary: i)
  case (Suc n)
  show ?case
  proof (cases "unat i < bound")
    case True
    with Suc.prems have less: "unat i + 2 \<le> 255" by presburger
    then have next_i: "unat (i + 2) = unat i + 2"
      by (subst unat_plus_if_fits) simp_all
    with Suc.prems less have "dot_rows n (i + 2) bound \<noteq> None"
      unfolding next_i by (intro Suc.IH; presburger?) (simp_all add: next_i)
    with True show ?thesis by simp
  qed simp
next
  case 0
  then show ?case using unat_le_u8 [of i] by simp
qed

lemma dot_rows_wide: "256 \<le> bound \<Longrightarrow> dot_rows n i bound = None"
proof (induction n arbitrary: i)
  case (Suc n)
  then show ?case using unat_le_u8 [of i] by simp
qed simp

lemma even_add_two: "even (unat (i + 2 :: u8)) = even (unat i)"
  by (simp add: unat_word_ariths dvd_mod_iff)

lemma dot_rows_parity: "even (unat i) \<Longrightarrow> dot_rows n i 255 = None"
proof (induction n arbitrary: i)
  case (Suc n)
  have "unat i < 255"
    using unat_le_u8 [of i] Suc.prems by (cases "unat i = 255") auto
  with Suc show ?case by (simp add: even_add_two)
qed simp

lemma dot_rows_iff:
  "dot_rows 129 y (unat height + unat y) \<noteq> None \<longleftrightarrow>
     unat y + unat height + unat height mod 2 \<le> 255"
proof -
  consider "256 \<le> unat height + unat y" | "unat height + unat y = 255" "even (unat y)"
    | "unat height + unat y \<le> 254 \<or> (unat height + unat y = 255 \<and> odd (unat y))"
    by linarith
  then show ?thesis
  proof cases
    case 1
    then show ?thesis by (simp add: dot_rows_wide del: dot_rows.simps)
  next
    case 2
    then have "dot_rows 129 y (unat height + unat y) = None" by (simp only: dot_rows_parity)
    moreover have "odd (unat height)" using 2 by presburger
    ultimately show ?thesis using 2 by (simp add: odd_iff_mod_2_eq_one)
  next
    case 3
    then have "dot_rows 129 y (unat height + unat y) \<noteq> None" by (intro dot_rows_finishes) auto
    moreover have "unat y + unat height + unat height mod 2 \<le> 255" using 3 by presburger
    ultimately show ?thesis by blast
  qed
qed

text \<open>
  The loop of \<^verbatim>\<open>elements_scrollbar_pos\<close> that draws the dots ends exactly if \<^verbatim>\<open>y + height\<close>,
  with an odd height rounded up, is at most 255; otherwise its 8-bit counter wraps below the bound
  and the routine never returns.
\<close>

theorem scrollbar_pos_returns_iff:
  "elements_scrollbar_pos x y height pos cnt \<noteq> None \<longleftrightarrow>
     unat y + unat height + unat height mod 2 \<le> 255"
  by (simp add: elements_scrollbar_pos_def dotted_line_def flip: dot_rows_iff)

lemma draws_dots:
  "draws (map (canvas_draw_dot x) ys) c = Inr (map (\<lambda>y. U_DrawPixel (x + offset_x c) (y + offset_y c)) ys, c)"
  by (induction ys) (auto simp: canvas_draw_dot_def)

lemma no_pixel_text [simp]:
  "texts_drawn (map (\<lambda>y. U_DrawPixel a (f y)) ys) = []"
  "boxes_drawn wd (map (\<lambda>y. U_DrawPixel a (f y)) ys) = []"
  by (induction ys) auto

text \<open>On any canvas lower than 255 pixels the scrollbar is drawn: no text, and boxes of width 3.\<close>

lemma scrollbar_drawn:
  assumes "canvas_h c \<noteq> 255"
  shows "\<exists>cs c1. elements_scrollbar pos cnt c = Some (Inr (cs, c1)) \<and> texts_drawn cs = [] \<and>
           (wd \<noteq> 3 \<longrightarrow> boxes_drawn wd cs = [])"
proof -
  have "unat (canvas_h c) \<noteq> 255"
  proof
    assume "unat (canvas_h c) = 255"
    then have "canvas_h c = 255" by (intro unsigned_word_eqI) simp
    with assms show False by simp
  qed
  then have "unat (canvas_h c) + unat (canvas_h c) mod 2 \<le> 255"
    using unat_le_u8 [of "canvas_h c"] by (cases "unat (canvas_h c) = 255") presburger+
  then obtain ys where "dot_rows 129 0 (unat (canvas_h c)) = Some ys"
    using dot_rows_iff [of 0 "canvas_h c"] by auto
  then show ?thesis
    by (auto simp: elements_scrollbar_def dotted_line_def canvas_height_def Let_def draws_dots
        canvas_set_color_def canvas_draw_box_def)
qed

lemma newline_count_finishes:
  "length tx \<le> 255 \<Longrightarrow> 256 \<le> n + unat i \<Longrightarrow> 0 < n \<Longrightarrow> newline_count n tx i cnt \<noteq> None"
proof (induction n arbitrary: i cnt)
  case (Suc n)
  show ?case
  proof (cases "unat i < length tx")
    case True
    then have "unat (i + 1) = unat i + 1"
      using Suc.prems by (subst unat_plus_if_fits) simp_all
    with True Suc show ?thesis by simp
  qed simp
qed simp

lemma newline_count_long: "256 \<le> length tx \<Longrightarrow> newline_count n tx i cnt = None"
proof (induction n arbitrary: i cnt)
  case (Suc n)
  then show ?case using unat_le_u8 [of i] by simp
qed simp

text \<open>
  \<^verbatim>\<open>elements_multiline_text_aligned\<close> never returns on a text of 256 characters or more: its
  8-bit index wraps to 0 before the end of the text. On every shorter text it returns.
\<close>

theorem multiline_text_aligned_returns_iff:
  "elements_multiline_text_aligned g x y h v tx \<noteq> None \<longleftrightarrow> length tx < 256"
proof (cases "length tx < 256")
  case True
  then have "newline_count 257 tx 0 0 \<noteq> None" by (intro newline_count_finishes) auto
  with True show ?thesis by (simp add: elements_multiline_text_aligned_def del: newline_count.simps)
next
  case False
  then have "newline_count 257 tx 0 0 = None" by (intro newline_count_long) simp
  with False show ?thesis by (simp add: elements_multiline_text_aligned_def del: newline_count.simps)
qed

end
