(* ===== verification/Gui.thy ===== *)
theory Gui
  imports Views Canvas
begin

text \<open>
  The GUI service, \<^verbatim>\<open>applications/gui/gui.c\<close>: five layers of view ports, a canvas, a mutex, a
  queue of input events and two thread flags. View ports are known by their address in
  \<open>gui_ports\<close>; an address with no port is a dangling pointer, whose use is a fault. The answers
  of the environment are in \<open>gui_env\<close>: those of the mutex, the drawing callbacks of the ports
  (which only draw) and the frame buffer. Every operation but the loop of the thread runs under
  the mutex, so operations are atomic.
\<close>

section \<open>State\<close>

datatype gui_layer =
    GuiLayerNone
  | GuiLayerStatusBarLeft
  | GuiLayerStatusBarRight
  | GuiLayerMain
  | GuiLayerFullscreen

definition gui_layers :: "gui_layer list" where
  "gui_layers =
     [GuiLayerNone, GuiLayerStatusBarLeft, GuiLayerStatusBarRight, GuiLayerMain, GuiLayerFullscreen]"

definition GUI_DISPLAY_WIDTH :: u8 where "GUI_DISPLAY_WIDTH = 128"
definition GUI_DISPLAY_HEIGHT :: u8 where "GUI_DISPLAY_HEIGHT = 64"
definition GUI_STATUS_BAR_X :: u8 where "GUI_STATUS_BAR_X = 0"
definition GUI_STATUS_BAR_Y :: u8 where "GUI_STATUS_BAR_Y = 0"
definition GUI_STATUS_BAR_WIDTH :: u8 where "GUI_STATUS_BAR_WIDTH = GUI_DISPLAY_WIDTH"
definition GUI_STATUS_BAR_HEIGHT :: u8 where "GUI_STATUS_BAR_HEIGHT = 13"
definition GUI_MAIN_X :: u8 where "GUI_MAIN_X = 0"
definition GUI_MAIN_Y :: u8 where "GUI_MAIN_Y = 9"
definition GUI_MAIN_WIDTH :: u8 where "GUI_MAIN_WIDTH = GUI_DISPLAY_WIDTH"
definition GUI_MAIN_HEIGHT :: u8 where "GUI_MAIN_HEIGHT = GUI_DISPLAY_HEIGHT - GUI_MAIN_Y"
definition GUI_THREAD_FLAG_DRAW :: u32 where "GUI_THREAD_FLAG_DRAW = 1"
definition GUI_THREAD_FLAG_INPUT :: u32 where "GUI_THREAD_FLAG_INPUT = 2"
definition GUI_THREAD_FLAG_ALL :: u32 where
  "GUI_THREAD_FLAG_ALL = GUI_THREAD_FLAG_DRAW OR GUI_THREAD_FLAG_INPUT"

record gui =
  thread_flags :: u32
  layers :: "gui_layer \<Rightarrow> nat list"
  gui_canvas :: canvas
  canvas_callback :: "nat option"
  canvas_callback_context :: "nat option"
  gui_input_queue :: "input_event list"
  gui_ports :: "nat \<Rightarrow> view_port option"

text \<open>A callback is an address and the address of its context.\<close>

datatype gui_call =
    Lock
  | Unlock
  | Canvas_Call u8g2_call
  | Port_Drawn nat "(nat \<times> nat) option" "u8g2_call list"
  | Port_Got_Input nat "(nat \<times> nat) option" input_event
  | Buffer_Committed nat "u8 list" "nat option"
  | Cli_Write "u8 list"
  | Cli_Getc

record gui_env =
  env_debug :: bool
  env_acquired :: bool
  env_released :: bool
  env_gfx :: gfx
  env_draw :: "nat \<times> nat \<Rightarrow> draw"
  env_buffer :: "u8 list"

text \<open>\<open>mx\<close> and \<open>ev\<close>: the mutex was created, the record of the input events was opened.\<close>

definition gui_alloc :: "bool \<Rightarrow> bool \<Rightarrow> canvas \<Rightarrow> gui res" where
  "gui_alloc mx ev c =
     furi_check mx (furi_check ev
       (Inr \<lparr>thread_flags = 0, layers = (\<lambda>_. []), gui_canvas = c, canvas_callback = None,
             canvas_callback_context = None, gui_input_queue = [], gui_ports = (\<lambda>_. None)\<rparr>))"

definition gui_lock :: "gui_env \<Rightarrow> gui_call list res" where
  "gui_lock env = furi_check (env_acquired env) (Inr [Lock])"

definition gui_unlock :: "gui_env \<Rightarrow> gui_call list res" where
  "gui_unlock env = furi_check (env_released env) (Inr [Unlock])"

text \<open>What is done between the two, with the calls it makes.\<close>

definition gui_locked :: "gui_env \<Rightarrow> (gui_call list \<times> 'a) res \<Rightarrow> (gui_call list \<times> 'a) res" where
  "gui_locked env m =
     bindE (gui_lock env) (\<lambda>l. bindE m (\<lambda>(cs, x). bindE (gui_unlock env) (\<lambda>u.
       Inr (l @ cs @ u, x))))"

definition gui_update :: "gui \<Rightarrow> gui" where
  "gui_update g = g\<lparr>thread_flags := thread_flags g OR GUI_THREAD_FLAG_DRAW\<rparr>"

text \<open>The queue holds 8 events; \<open>None\<close>: the caller waits for room.\<close>

definition gui_input_events_callback :: "input_event \<Rightarrow> gui \<Rightarrow> gui option" where
  "gui_input_events_callback e g =
     (if length (gui_input_queue g) < 8
      then Some (g\<lparr>gui_input_queue := gui_input_queue g @ [e],
                  thread_flags := thread_flags g OR GUI_THREAD_FLAG_INPUT\<rparr>)
      else None)"

section \<open>Ports\<close>

definition port_at :: "gui \<Rightarrow> nat \<Rightarrow> view_port res" where
  "port_at g a = (case gui_ports g a of None \<Rightarrow> Inl Null_Pointer | Some p \<Rightarrow> Inr p)"

definition view_port_draw :: "gui_env \<Rightarrow> gui \<Rightarrow> nat \<Rightarrow> gui_call drawing" where
  "view_port_draw env g a c =
     bindE (port_at g a) (\<lambda>p.
       furi_check (port_gui p)
         (case port_draw p of
            None \<Rightarrow> Inr ([Port_Drawn a None []], c)
          | Some f \<Rightarrow> bindE (env_draw env f c) (\<lambda>(cs, c1). Inr ([Port_Drawn a (Some f) cs], c1))))"

definition view_port_input :: "gui \<Rightarrow> nat \<Rightarrow> input_event \<Rightarrow> gui_call list res" where
  "view_port_input g a e =
     bindE (port_at g a) (\<lambda>p. furi_check (port_gui p) (Inr [Port_Got_Input a (port_input p) e]))"

definition gui_rotate_buttons :: "input_event \<Rightarrow> input_event" where
  "gui_rotate_buttons e =
     (case ev_key e of
        InputKeyUp \<Rightarrow> e\<lparr>ev_key := InputKeyRight\<rparr>
      | InputKeyDown \<Rightarrow> e\<lparr>ev_key := InputKeyLeft\<rparr>
      | InputKeyRight \<Rightarrow> e\<lparr>ev_key := InputKeyDown\<rparr>
      | InputKeyLeft \<Rightarrow> e\<lparr>ev_key := InputKeyUp\<rparr>
      | _ \<Rightarrow> e)"

text \<open>The array is searched from its end.\<close>

fun find_enabled :: "gui \<Rightarrow> nat list \<Rightarrow> nat option res" where
  "find_enabled g [] = Inr None"
| "find_enabled g (a # as) =
     bindE (port_at g a) (\<lambda>p. if view_port_is_enabled p then Inr (Some a) else find_enabled g as)"

definition gui_view_port_find_enabled :: "gui \<Rightarrow> nat list \<Rightarrow> nat option res" where
  "gui_view_port_find_enabled g as = find_enabled g (rev as)"

section \<open>Drawing\<close>

definition on_canvas :: "draw list \<Rightarrow> gui_call drawing" where
  "on_canvas ds c = bindE (draws ds c) (\<lambda>(cs, c1). Inr (map Canvas_Call cs, c1))"

definition gui_setup_fs_orientation :: "view_port \<Rightarrow> draw" where
  "gui_setup_fs_orientation p c =
     (case view_port_get_orientation p of
        ViewPortOrientationHorizontal \<Rightarrow>
          draws (canvas_frame_set 0 0 GUI_DISPLAY_WIDTH GUI_DISPLAY_HEIGHT #
                 (if canvas_get_orientation c \<noteq> CanvasOrientationHorizontal
                  then [canvas_set_orientation CanvasOrientationHorizontal] else [])) c
      | ViewPortOrientationVertical \<Rightarrow>
          draws (canvas_frame_set 0 0 GUI_DISPLAY_HEIGHT GUI_DISPLAY_WIDTH #
                 (if canvas_get_orientation c \<noteq> CanvasOrientationVertical
                  then [canvas_set_orientation CanvasOrientationVertical] else [])) c)"

definition gui_redraw_fs :: "gui_env \<Rightarrow> gui \<Rightarrow> canvas \<Rightarrow> (bool \<times> gui_call list \<times> canvas) res" where
  "gui_redraw_fs env g c =
     bindE (gui_view_port_find_enabled g (layers g GuiLayerFullscreen)) (\<lambda>r.
       case r of
         Some a \<Rightarrow>
           bindE (port_at g a) (\<lambda>p.
           bindE (draws [on_canvas [gui_setup_fs_orientation p], view_port_draw env g a] c) (\<lambda>(cs, c1).
             Inr (True, cs, c1)))
       | None \<Rightarrow> Inr (False, [], c))"

definition status_width :: "view_port \<Rightarrow> u8" where
  "status_width p = (if view_port_get_width p = 0 then 8 else view_port_get_width p)"

definition status_right_frame :: "u8 \<Rightarrow> u8 \<Rightarrow> draw list" where
  "status_right_frame x width =
     [canvas_frame_set (x - 3) GUI_STATUS_BAR_Y width GUI_STATUS_BAR_HEIGHT,
      canvas_set_color ColorWhite,
      canvas_draw_box 1 1 (width + 3) 11,
      canvas_set_color ColorBlack,
      canvas_draw_box 1 0 1 12,
      canvas_draw_box 0 1 1 11,
      canvas_draw_box 1 11 (width + 4) 2,
      canvas_draw_box 1 0 (width + 4) 1,
      canvas_draw_box (width + 4) 1 1 11,
      canvas_set_color ColorWhite,
      canvas_draw_dot (width + 4) 0,
      canvas_draw_dot (width + 4) 12,
      canvas_set_color ColorBlack,
      canvas_frame_set x (GUI_STATUS_BAR_Y + 2) width GUI_STATUS_BAR_HEIGHT]"

definition status_left_frame :: "u8 \<Rightarrow> u8 \<Rightarrow> draw list" where
  "status_left_frame x width =
     [canvas_frame_set x GUI_STATUS_BAR_Y width GUI_STATUS_BAR_HEIGHT,
      canvas_set_color ColorWhite,
      canvas_draw_box 1 1 (width + 3) 11,
      canvas_set_color ColorBlack] @
     (if x = 0 then [canvas_draw_box 1 0 1 12, canvas_draw_box 0 1 1 11] else []) @
     [canvas_draw_box 1 11 (width + 4) 2,
      canvas_draw_box 1 0 (width + 4) 1,
      canvas_draw_box (width + 4) 0 1 12,
      canvas_set_color ColorWhite,
      canvas_draw_dot (width + 4) 0,
      canvas_draw_dot (width + 4) 12,
      canvas_set_color ColorBlack,
      canvas_frame_set (x + 3) (GUI_STATUS_BAR_Y + 2) width GUI_STATUS_BAR_HEIGHT]"

text \<open>The two loops return the width used so far.\<close>

fun status_right ::
    "gui_env \<Rightarrow> gui \<Rightarrow> nat list \<Rightarrow> u8 \<Rightarrow> u8 \<Rightarrow> canvas \<Rightarrow> (u8 \<times> gui_call list \<times> canvas) res" where
  "status_right env g [] x x_used c = Inr (x_used, [], c)"
| "status_right env g (a # as) x x_used c =
     (if x_used < GUI_STATUS_BAR_WIDTH then
        bindE (port_at g a) (\<lambda>p.
          if view_port_is_enabled p then
            (let width = status_width p; x1 = x - (width + 2) in
             bindE (draws [on_canvas (status_right_frame x1 width), view_port_draw env g a] c)
               (\<lambda>(cs, c1). bindE (status_right env g as x1 (x_used + width) c1)
               (\<lambda>(u, cs1, c2). Inr (u, cs @ cs1, c2))))
          else status_right env g as x x_used c)
      else Inr (x_used, [], c))"

fun status_left ::
    "gui_env \<Rightarrow> gui \<Rightarrow> nat list \<Rightarrow> u8 \<Rightarrow> u8 \<Rightarrow> canvas \<Rightarrow> (u8 \<times> gui_call list \<times> canvas) res" where
  "status_left env g [] x x_used c = Inr (x_used, [], c)"
| "status_left env g (a # as) x x_used c =
     (if x_used < GUI_STATUS_BAR_WIDTH then
        bindE (port_at g a) (\<lambda>p.
          if view_port_is_enabled p then
            (let width = status_width p in
             bindE (draws [on_canvas (status_left_frame x width), view_port_draw env g a] c)
               (\<lambda>(cs, c1). bindE (status_left env g as (x + (width + 2)) (x_used + width) c1)
               (\<lambda>(u, cs1, c2). Inr (u, cs @ cs1, c2))))
          else status_left env g as x x_used c)
      else Inr (x_used, [], c))"

definition gui_redraw_status_bar :: "gui_env \<Rightarrow> gui \<Rightarrow> gui_call drawing" where
  "gui_redraw_status_bar env g c =
     bindE (on_canvas
              [canvas_set_orientation CanvasOrientationHorizontal,
               canvas_frame_set GUI_STATUS_BAR_X GUI_STATUS_BAR_Y GUI_DISPLAY_WIDTH
                 GUI_STATUS_BAR_HEIGHT,
               canvas_draw_icon_name (env_gfx env) 0 0 ''I_Background_128x11''] c) (\<lambda>(cs, c1).
     bindE (status_right env g (layers g GuiLayerStatusBarRight) GUI_DISPLAY_WIDTH 0 c1) (\<lambda>(u, cs1, c2).
     bindE (status_left env g (layers g GuiLayerStatusBarLeft) 0 u c2) (\<lambda>(_, cs2, c3).
       Inr (cs @ cs1 @ cs2, c3))))"

definition gui_redraw_window ::
    "gui_layer \<Rightarrow> gui_env \<Rightarrow> gui \<Rightarrow> canvas \<Rightarrow> (bool \<times> gui_call list \<times> canvas) res" where
  "gui_redraw_window l env g c =
     bindE (on_canvas
              [canvas_set_orientation CanvasOrientationHorizontal,
               canvas_frame_set GUI_MAIN_X GUI_MAIN_Y GUI_MAIN_WIDTH GUI_MAIN_HEIGHT] c) (\<lambda>(cs, c1).
     bindE (gui_view_port_find_enabled g (layers g l)) (\<lambda>r.
       case r of
         Some a \<Rightarrow> bindE (view_port_draw env g a c1) (\<lambda>(cs1, c2). Inr (True, cs @ cs1, c2))
       | None \<Rightarrow> Inr (False, cs, c1)))"

definition gui_redraw_normal :: "gui_env \<Rightarrow> gui \<Rightarrow> canvas \<Rightarrow> (bool \<times> gui_call list \<times> canvas) res" where
  "gui_redraw_normal = gui_redraw_window GuiLayerMain"

definition gui_redraw_none :: "gui_env \<Rightarrow> gui \<Rightarrow> canvas \<Rightarrow> (bool \<times> gui_call list \<times> canvas) res" where
  "gui_redraw_none = gui_redraw_window GuiLayerNone"

text \<open>What is drawn if no full screen port is.\<close>

definition gui_redraw_windows :: "gui_env \<Rightarrow> gui \<Rightarrow> gui_call drawing" where
  "gui_redraw_windows env g c =
     bindE (gui_redraw_normal env g c) (\<lambda>(done_normal, cs, c1).
     bindE (if done_normal then Inr (True, [], c1) else gui_redraw_none env g c1) (\<lambda>(_, cs1, c2).
     bindE (gui_redraw_status_bar env g c2) (\<lambda>(cs2, c3).
       Inr (cs @ cs1 @ cs2, c3))))"

definition gui_redraw :: "gui_env \<Rightarrow> gui \<Rightarrow> (gui_call list \<times> gui) res" where
  "gui_redraw env g =
     gui_locked env
       (bindE (on_canvas [canvas_reset] (gui_canvas g)) (\<lambda>(cs, c1).
        bindE (gui_redraw_fs env g c1) (\<lambda>(done_fs, cs1, c2).
        bindE (if done_fs then Inr ([], c2) else gui_redraw_windows env g c2) (\<lambda>(cs2, c3).
        bindE (on_canvas [canvas_commit] c3) (\<lambda>(cs3, c4).
          Inr (cs @ cs1 @ cs2 @ cs3 @
               (case canvas_callback g of
                  None \<Rightarrow> []
                | Some cb \<Rightarrow> [Buffer_Committed cb (env_buffer env) (canvas_callback_context g)]),
               g\<lparr>gui_canvas := c4\<rparr>))))))"

section \<open>Input\<close>

definition gui_input :: "gui_env \<Rightarrow> input_event \<Rightarrow> gui \<Rightarrow> (gui_call list \<times> gui) res" where
  "gui_input env e g =
     gui_locked env
       (bindE (gui_view_port_find_enabled g (layers g GuiLayerFullscreen)) (\<lambda>r1.
        bindE (if r1 = None then gui_view_port_find_enabled g (layers g GuiLayerMain)
               else Inr r1) (\<lambda>r2.
        bindE (if r2 = None then gui_view_port_find_enabled g (layers g GuiLayerNone)
               else Inr r2) (\<lambda>r3.
          case r3 of
            None \<Rightarrow> Inr ([], g)
          | Some a \<Rightarrow>
              bindE (port_at g a) (\<lambda>p.
              bindE (view_port_input g a
                       (if view_port_get_orientation p = ViewPortOrientationVertical
                        then gui_rotate_buttons e else e)) (\<lambda>cs. Inr (cs, g)))))))"

section \<open>The layers\<close>

definition set_port_gui :: "nat \<Rightarrow> bool \<Rightarrow> gui \<Rightarrow> gui res" where
  "set_port_gui a b g =
     bindE (port_at g a) (\<lambda>p. Inr (g\<lparr>gui_ports := (gui_ports g)(a \<mapsto> view_port_gui_set b p)\<rparr>))"

definition set_layer :: "gui_layer \<Rightarrow> nat list \<Rightarrow> gui \<Rightarrow> gui" where
  "set_layer l as g = g\<lparr>layers := (layers g)(l := as)\<rparr>"

text \<open>The loop that verifies that a port is not in a layer yet.\<close>

definition gui_not_added :: "gui \<Rightarrow> nat \<Rightarrow> bool" where
  "gui_not_added g a = list_all (\<lambda>l. list_all (\<lambda>b. b \<noteq> a) (layers g l)) gui_layers"

definition gui_add_view_port :: "gui_env \<Rightarrow> nat \<Rightarrow> gui_layer \<Rightarrow> gui \<Rightarrow> (gui_call list \<times> gui) res" where
  "gui_add_view_port env a l g =
     bindE (port_at g a) (\<lambda>p.
       furi_assert (env_debug env)
         (l = GuiLayerFullscreen \<or> port_orientation p \<noteq> ViewPortOrientationVertical)
         (bindE (gui_locked env
            (furi_assert (env_debug env) (gui_not_added g a)
              (bindE (set_port_gui a True (set_layer l (layers g l @ [a]) g)) (\<lambda>g1. Inr ([], g1)))))
          (\<lambda>(cs, g1). Inr (cs, gui_update g1))))"

definition remove_port :: "nat \<Rightarrow> nat list \<Rightarrow> nat list" where
  "remove_port a as = filter (\<lambda>b. b \<noteq> a) as"

definition gui_remove_view_port :: "gui_env \<Rightarrow> nat \<Rightarrow> gui \<Rightarrow> (gui_call list \<times> gui) res" where
  "gui_remove_view_port env a g =
     gui_locked env
       (bindE (set_port_gui a False g) (\<lambda>g1.
          Inr ([], foldl (\<lambda>h l. set_layer l (remove_port a (layers h l)) h) g1 gui_layers)))"

text \<open>
  The two operations that move a port: it is taken out of the layers; the layer it was in is
  remembered, and a second occurrence fails an assertion.
\<close>

fun take_out :: "bool \<Rightarrow> nat \<Rightarrow> gui_layer \<Rightarrow> nat list \<Rightarrow> gui_layer option \<Rightarrow>
    (nat list \<times> gui_layer option) res" where
  "take_out dbg a l [] found = Inr ([], found)"
| "take_out dbg a l (b # bs) found =
     (if b = a then furi_assert dbg (found = None) (take_out dbg a l bs (Some l))
      else bindE (take_out dbg a l bs found) (\<lambda>(cs, f). Inr (b # cs, f)))"

fun take_out_all :: "bool \<Rightarrow> nat \<Rightarrow> gui_layer list \<Rightarrow> gui_layer option \<Rightarrow> gui \<Rightarrow>
    (gui_layer option \<times> gui) res" where
  "take_out_all dbg a [] found g = Inr (found, g)"
| "take_out_all dbg a (l # ls) found g =
     bindE (take_out dbg a l (layers g l) found) (\<lambda>(bs, f). take_out_all dbg a ls f (set_layer l bs g))"

definition gui_move_view_port ::
    "(nat list \<Rightarrow> nat list) \<Rightarrow> gui_env \<Rightarrow> nat \<Rightarrow> gui \<Rightarrow> (gui_call list \<times> gui) res" where
  "gui_move_view_port put env a g =
     gui_locked env
       (bindE (take_out_all (env_debug env) a gui_layers None g) (\<lambda>(found, g1).
          furi_assert (env_debug env) (found \<noteq> None)
            (case found of
               None \<Rightarrow> Inl Out_Of_Bounds
             | Some l \<Rightarrow> Inr ([], set_layer l (put (layers g1 l)) g1))))"

definition gui_send_view_port_front :: "gui_env \<Rightarrow> nat \<Rightarrow> gui \<Rightarrow> (gui_call list \<times> gui) res" where
  "gui_send_view_port_front env a = gui_move_view_port (\<lambda>as. as @ [a]) env a"

definition gui_send_view_port_back :: "gui_env \<Rightarrow> nat \<Rightarrow> gui \<Rightarrow> (gui_call list \<times> gui) res" where
  "gui_send_view_port_back env a = gui_move_view_port (\<lambda>as. a # as) env a"

section \<open>Frame buffer and command line\<close>

definition gui_set_framebuffer_callback :: "nat option \<Rightarrow> gui \<Rightarrow> gui" where
  "gui_set_framebuffer_callback cb g = g\<lparr>canvas_callback := cb\<rparr>"

definition gui_set_framebuffer_callback_context :: "nat option \<Rightarrow> gui \<Rightarrow> gui" where
  "gui_set_framebuffer_callback_context x g = g\<lparr>canvas_callback_context := x\<rparr>"

definition gui_cli_screen_stream_callback :: "bool \<Rightarrow> u8 list \<Rightarrow> nat option \<Rightarrow> gui_call list res" where
  "gui_cli_screen_stream_callback dbg data x =
     furi_assert dbg (length data = 1024)
       (furi_assert dbg (x \<noteq> None)
         (case x of
            None \<Rightarrow> Inl Null_Pointer
          | Some _ \<Rightarrow> Inr [Cli_Write [0xF0, 0xE1, 0xD2, 0xC3], Cli_Write data]))"

text \<open>\<open>self\<close> and \<open>cb\<close> are the addresses of the GUI and of the callback.\<close>

definition gui_cli_screen_stream :: "nat \<Rightarrow> nat \<Rightarrow> gui_env \<Rightarrow> gui \<Rightarrow> (gui_call list \<times> gui) res" where
  "gui_cli_screen_stream self cb env g =
     (let g1 = gui_set_framebuffer_callback (Some cb)
                 (gui_set_framebuffer_callback_context (Some self) g)
      in bindE (gui_redraw env g1) (\<lambda>(cs, g2).
           Inr (cs @ [Cli_Getc],
                gui_set_framebuffer_callback_context None (gui_set_framebuffer_callback None g2))))"

section \<open>The thread\<close>

text \<open>The events that are in the queue when the thread comes to it.\<close>

fun gui_process_input :: "gui_env \<Rightarrow> input_event list \<Rightarrow> gui \<Rightarrow> (gui_call list \<times> gui) res" where
  "gui_process_input env [] g = Inr ([], g)"
| "gui_process_input env (e # es) g =
     bindE (gui_input env e (g\<lparr>gui_input_queue := es\<rparr>)) (\<lambda>(cs, g1).
     bindE (gui_process_input env es g1) (\<lambda>(cs1, g2). Inr (cs @ cs1, g2)))"

definition gui_task_input :: "gui_env \<Rightarrow> u32 \<Rightarrow> gui \<Rightarrow> (gui_call list \<times> gui) res" where
  "gui_task_input env flags g =
     (if flags AND GUI_THREAD_FLAG_INPUT \<noteq> 0 then gui_process_input env (gui_input_queue g) g
      else Inr ([], g))"

definition gui_task_draw :: "gui_env \<Rightarrow> u32 \<Rightarrow> gui \<Rightarrow> (gui_call list \<times> gui) res" where
  "gui_task_draw env flags g =
     (if flags AND GUI_THREAD_FLAG_DRAW \<noteq> 0
      then gui_redraw env (g\<lparr>thread_flags := thread_flags g AND NOT GUI_THREAD_FLAG_DRAW\<rparr>)
      else Inr ([], g))"

text \<open>One turn of the loop; with no flag set the thread waits.\<close>

definition gui_task_step :: "gui_env \<Rightarrow> gui \<Rightarrow> (gui_call list \<times> gui) res" where
  "gui_task_step env g =
     (let flags = thread_flags g AND GUI_THREAD_FLAG_ALL in
      bindE (gui_task_input env flags (g\<lparr>thread_flags := thread_flags g AND NOT flags\<rparr>)) (\<lambda>(cs, g1).
      bindE (gui_task_draw env flags g1) (\<lambda>(cs1, g2).
        Inr (cs @ cs1, g2))))"

end
