(* ===== verification/GuiSafety.thy ===== *)
theory GuiSafety
  imports Gui
begin

text \<open>
  The GUI under any sequence of the operations its clients have: allocating, freeing and changing
  view ports, adding them to layers, moving and removing them, input events and turns of the
  thread. The layers and the ports stay linked (\<open>gui_wf\<close>), so the thread never follows a
  dangling pointer; input and drawing go to one port, the focus.
\<close>

section \<open>The invariant\<close>

definition linked :: "(gui_layer \<Rightarrow> nat list) \<Rightarrow> (nat \<Rightarrow> view_port option) \<Rightarrow> bool" where
  "linked L P \<longleftrightarrow>
     (\<forall>l. distinct (L l)) \<and>
     (\<forall>l m a. a \<in> set (L l) \<longrightarrow> a \<in> set (L m) \<longrightarrow> l = m) \<and>
     (\<forall>a. (\<exists>l. a \<in> set (L l)) \<longleftrightarrow> (\<exists>p. P a = Some p \<and> port_gui p))"

definition gui_wf :: "gui \<Rightarrow> bool" where
  "gui_wf g \<longleftrightarrow> linked (layers g) (gui_ports g)"

lemma linked_port: "linked L P \<Longrightarrow> P a = Some p \<Longrightarrow> port_gui q = port_gui p \<Longrightarrow> linked L (P(a \<mapsto> q))"
  by (simp add: linked_def)

lemma linked_drop: "linked L P \<Longrightarrow> P a = Some p \<Longrightarrow> \<not> port_gui p \<Longrightarrow> linked L (P(a := None))"
  by (simp add: linked_def)

lemma linked_fresh: "linked L P \<Longrightarrow> P a = None \<Longrightarrow> \<not> port_gui q \<Longrightarrow> linked L (P(a \<mapsto> q))"
  by (simp add: linked_def)

lemma linked_add:
  "linked L P \<Longrightarrow> \<forall>m. a \<notin> set (L m) \<Longrightarrow> port_gui q \<Longrightarrow> linked (L(l := L l @ [a])) (P(a \<mapsto> q))"
  by (auto simp: linked_def)

lemma set_remove_port [simp]: "set (remove_port a as) = set as - {a}"
  by (auto simp: remove_port_def)

lemma distinct_remove_port [simp]: "distinct as \<Longrightarrow> distinct (remove_port a as)"
  by (simp add: remove_port_def)

lemma remove_port_absent: "a \<notin> set as \<Longrightarrow> remove_port a as = as"
  by (auto simp: remove_port_def filter_id_conv)

lemma linked_remove:
  "linked L P \<Longrightarrow> \<not> port_gui q \<Longrightarrow> linked (\<lambda>l. remove_port a (L l)) (P(a \<mapsto> q))"
  by (auto simp: linked_def)

lemma linked_move:
  "linked L P \<Longrightarrow> a \<in> set (L l) \<Longrightarrow> distinct as \<Longrightarrow> set as = set (L l) \<Longrightarrow> linked (L(l := as)) P"
  by (auto simp: linked_def split: if_splits)

lemma linked_unique: "linked L P \<Longrightarrow> a \<in> set (L l) \<Longrightarrow> a \<in> set (L m) \<Longrightarrow> m = l"
  by (auto simp: linked_def)

lemma linked_distinct: "linked L P \<Longrightarrow> distinct (L l)"
  by (simp add: linked_def)

lemma linked_at: "gui_wf g \<Longrightarrow> a \<in> set (layers g l) \<Longrightarrow> \<exists>p. gui_ports g a = Some p \<and> port_gui p"
  by (auto simp: gui_wf_def linked_def)

section \<open>Searching a layer\<close>

definition enabled_at :: "gui \<Rightarrow> nat \<Rightarrow> bool" where
  "enabled_at g a \<longleftrightarrow> (case gui_ports g a of None \<Rightarrow> False | Some p \<Rightarrow> is_enabled p)"

definition top_enabled :: "gui \<Rightarrow> gui_layer \<Rightarrow> nat option" where
  "top_enabled g l = find (enabled_at g) (rev (layers g l))"

lemma find_enabled_eq:
  "\<forall>a\<in>set as. gui_ports g a \<noteq> None \<Longrightarrow> find_enabled g as = Inr (find (enabled_at g) as)"
  by (induction as) (auto simp: port_at_def view_port_is_enabled_def enabled_at_def)

lemma layer_search:
  "gui_wf g \<Longrightarrow> gui_view_port_find_enabled g (layers g l) = Inr (top_enabled g l)"
  unfolding gui_view_port_find_enabled_def top_enabled_def
  by (rule find_enabled_eq) (auto dest: linked_at)

lemma top_enabled_in: "top_enabled g l = Some a \<Longrightarrow> a \<in> set (layers g l) \<and> enabled_at g a"
  by (auto simp: top_enabled_def find_Some_iff rev_nth)

text \<open>The port that has the input and is drawn in the window.\<close>

definition gui_focus :: "gui \<Rightarrow> nat option" where
  "gui_focus g =
     (case top_enabled g GuiLayerFullscreen of
        Some a \<Rightarrow> Some a
      | None \<Rightarrow>
          (case top_enabled g GuiLayerMain of
             Some a \<Rightarrow> Some a
           | None \<Rightarrow> top_enabled g GuiLayerNone))"

lemma focus_at:
  "gui_wf g \<Longrightarrow> gui_focus g = Some a \<Longrightarrow>
     \<exists>p. gui_ports g a = Some p \<and> port_gui p \<and> is_enabled p"
  by (auto simp: gui_focus_def enabled_at_def split: option.splits
      dest!: top_enabled_in dest: linked_at)

lemma gui_locked_ok [simp]:
  "env_acquired env \<Longrightarrow> env_released env \<Longrightarrow>
     gui_locked env m = bindE m (\<lambda>(cs, x). Inr (Lock # cs @ [Unlock], x))"
  by (simp add: gui_locked_def gui_lock_def gui_unlock_def)

lemma gui_locked_Inr:
  "gui_locked env m = Inr (t, x) \<Longrightarrow> \<exists>cs. m = Inr (cs, x) \<and> t = Lock # cs @ [Unlock]"
  by (auto simp: gui_locked_def gui_lock_def gui_unlock_def bindE_eq_Inr furi_check_eq_Inr
      split: prod.splits)

section \<open>Moving and removing\<close>

lemma take_out_absent [simp]: "a \<notin> set bs \<Longrightarrow> take_out dbg a l bs f = Inr (bs, f)"
  by (induction bs) auto

lemma take_out_there:
  "a \<in> set bs \<Longrightarrow> distinct bs \<Longrightarrow> take_out dbg a l bs None = Inr (remove_port a bs, Some l)"
proof (induction bs)
  case (Cons b bs)
  show ?case
  proof (cases "b = a")
    case True
    with Cons.prems have "a \<notin> set bs" by simp
    then have "remove_port a bs = bs" by (rule remove_port_absent)
    with True \<open>a \<notin> set bs\<close> show ?thesis by (simp add: remove_port_def)
  next
    case False
    with Cons show ?thesis by (simp add: remove_port_def)
  qed
qed simp

lemma set_layer_same [simp]: "set_layer l (layers g l) g = g"
  by (simp add: set_layer_def)

lemma layers_set_layer [simp]: "layers (set_layer l as g) = (layers g)(l := as)"
  by (simp add: set_layer_def)

lemma take_out_all_absent [simp]:
  "\<forall>l\<in>set ls. a \<notin> set (layers g l) \<Longrightarrow> take_out_all dbg a ls f g = Inr (f, g)"
  by (induction ls) auto

lemma take_out_all_there:
  assumes "distinct (layers g l)" and "a \<in> set (layers g l)"
    and "\<forall>m. m \<noteq> l \<longrightarrow> a \<notin> set (layers g m)" and "l \<in> set ls" and "distinct ls"
  shows "take_out_all dbg a ls None g = Inr (Some l, set_layer l (remove_port a (layers g l)) g)"
  using assms(4,5)
proof (induction ls)
  case (Cons m ls)
  show ?case
  proof (cases "m = l")
    case True
    with Cons.prems assms(3) have "\<forall>k\<in>set ls. a \<notin> set (layers (set_layer l (remove_port a (layers g l)) g) k)"
      by auto
    with True assms show ?thesis by (simp add: take_out_there)
  next
    case False
    with Cons assms(3) show ?thesis by simp
  qed
qed simp

lemma in_gui_layers [simp]: "l \<in> set gui_layers" "distinct gui_layers"
  by (cases l) (simp_all add: gui_layers_def)

lemma gui_move_view_port_eq:
  assumes "gui_wf g" and "a \<in> set (layers g l)" and "env_acquired env" and "env_released env"
  shows "gui_move_view_port put env a g =
           Inr ([Lock, Unlock], set_layer l (put (remove_port a (layers g l))) g)"
proof -
  have "take_out_all (env_debug env) a gui_layers None g =
          Inr (Some l, set_layer l (remove_port a (layers g l)) g)"
    using assms(1,2) by (intro take_out_all_there)
      (auto simp: gui_wf_def dest: linked_unique linked_distinct)
  with assms(3,4) show ?thesis
    by (simp add: gui_move_view_port_def set_layer_def)
qed

lemma gui_move_absent:
  assumes "\<forall>l. a \<notin> set (layers g l)"
  shows "gui_move_view_port put env a g \<noteq> Inr r"
proof
  assume "gui_move_view_port put env a g = Inr r"
  then show False
    using assms by (cases r) (auto simp: gui_move_view_port_def furi_assert_eq_Inr dest!: gui_locked_Inr)
qed

lemma gui_remove_layers:
  "foldl (\<lambda>h l. set_layer l (remove_port a (layers h l)) h) g gui_layers =
     g\<lparr>layers := (\<lambda>l. remove_port a (layers g l))\<rparr>"
proof -
  have "((((((layers g)(GuiLayerNone := remove_port a (layers g GuiLayerNone)))
      (GuiLayerStatusBarLeft := remove_port a (layers g GuiLayerStatusBarLeft)))
      (GuiLayerStatusBarRight := remove_port a (layers g GuiLayerStatusBarRight)))
      (GuiLayerMain := remove_port a (layers g GuiLayerMain)))
      (GuiLayerFullscreen := remove_port a (layers g GuiLayerFullscreen))) =
     (\<lambda>l. remove_port a (layers g l))"
    by (rule ext, rename_tac l, case_tac l) simp_all
  then show ?thesis by (simp add: gui_layers_def set_layer_def)
qed

section \<open>Sequences of operations\<close>

datatype gui_op =
    Op_Alloc nat
  | Op_Free nat
  | Op_Enabled nat bool
  | Op_Orientation nat port_orientation
  | Op_Width nat u8
  | Op_Draw_Callback nat "(nat \<times> nat) option"
  | Op_Input_Callback nat "(nat \<times> nat) option"
  | Op_Update nat
  | Op_Add nat gui_layer
  | Op_Remove nat
  | Op_Front nat
  | Op_Back nat
  | Op_Event input_event
  | Op_Task

definition put_port :: "nat \<Rightarrow> view_port \<Rightarrow> gui \<Rightarrow> gui" where
  "put_port a p g = g\<lparr>gui_ports := (gui_ports g)(a \<mapsto> p)\<rparr>"

definition change_port :: "nat \<Rightarrow> (view_port \<Rightarrow> view_call list \<times> view_port) \<Rightarrow> gui \<Rightarrow>
    (gui_call list \<times> gui) res" where
  "change_port a f g =
     bindE (port_at g a) (\<lambda>p. case f p of (cs, q) \<Rightarrow>
       Inr ([], if cs = [] then put_port a q g else gui_update (put_port a q g)))"

text \<open>
  A fresh port is put only where there is none: the heap returns a block not in use. An event
  that finds the queue full stays with its sender.
\<close>

fun gui_op_step :: "gui_env \<Rightarrow> gui \<Rightarrow> gui_op \<Rightarrow> (gui_call list \<times> gui) res" where
  "gui_op_step env g (Op_Alloc a) =
     Inr ([], if gui_ports g a = None then put_port a view_port_alloc g else g)"
| "gui_op_step env g (Op_Free a) =
     bindE (port_at g a) (\<lambda>p. bindE (view_port_free p) (\<lambda>_.
       Inr ([], g\<lparr>gui_ports := (gui_ports g)(a := None)\<rparr>)))"
| "gui_op_step env g (Op_Enabled a b) = change_port a (view_port_enabled_set b) g"
| "gui_op_step env g (Op_Orientation a r) = change_port a (\<lambda>p. ([], view_port_set_orientation r p)) g"
| "gui_op_step env g (Op_Width a w) = change_port a (\<lambda>p. ([], view_port_set_width w p)) g"
| "gui_op_step env g (Op_Draw_Callback a f) =
     change_port a (\<lambda>p. ([], view_port_draw_callback_set f p)) g"
| "gui_op_step env g (Op_Input_Callback a f) =
     change_port a (\<lambda>p. ([], view_port_input_callback_set f p)) g"
| "gui_op_step env g (Op_Update a) = change_port a (\<lambda>p. (view_port_update p, p)) g"
| "gui_op_step env g (Op_Add a l) = gui_add_view_port env a l g"
| "gui_op_step env g (Op_Remove a) = gui_remove_view_port env a g"
| "gui_op_step env g (Op_Front a) = gui_send_view_port_front env a g"
| "gui_op_step env g (Op_Back a) = gui_send_view_port_back env a g"
| "gui_op_step env g (Op_Event e) =
     Inr ([], case gui_input_events_callback e g of Some g1 \<Rightarrow> g1 | None \<Rightarrow> g)"
| "gui_op_step env g Op_Task = gui_task_step env g"

lemma linked_set_port [simp]: "layers (put_port a p g) = layers g" "gui_ports (put_port a p g) = (gui_ports g)(a \<mapsto> p)"
  by (simp_all add: put_port_def)

lemma update_parts [simp]: "layers (gui_update g) = layers g" "gui_ports (gui_update g) = gui_ports g"
  by (simp_all add: gui_update_def)

lemma change_port_wf:
  assumes "gui_wf g" and "change_port a f g = Inr (t, g')" and "\<And>p. port_gui (snd (f p)) = port_gui p"
  shows "gui_wf g'"
proof -
  from assms(2) obtain p cs q where "gui_ports g a = Some p" "f p = (cs, q)"
    "g' = (if cs = [] then put_port a q g else gui_update (put_port a q g))"
    by (auto simp: change_port_def port_at_def bindE_eq_Inr split: option.splits prod.splits)
  then show ?thesis
    using assms(1) assms(3) [of p] linked_port [of "layers g" "gui_ports g" a p q]
    by (auto simp: gui_wf_def)
qed

lemma gui_input_same: "gui_input env e g = Inr (t, g') \<Longrightarrow> g' = g"
  by (auto simp: gui_input_def bindE_eq_Inr split: option.splits if_splits dest!: gui_locked_Inr)

lemma gui_process_input_frame:
  "gui_process_input env es g = Inr (t, g') \<Longrightarrow>
     layers g' = layers g \<and> gui_ports g' = gui_ports g"
  by (induction es arbitrary: g t)
     (fastforce simp: bindE_eq_Inr split: prod.splits dest: gui_input_same)+

lemma gui_redraw_frame:
  "gui_redraw env g = Inr (t, g') \<Longrightarrow> layers g' = layers g \<and> gui_ports g' = gui_ports g"
  by (auto simp: gui_redraw_def bindE_eq_Inr split: prod.splits dest!: gui_locked_Inr)

lemma gui_task_input_frame:
  "gui_task_input env fl g = Inr (t, g') \<Longrightarrow> layers g' = layers g \<and> gui_ports g' = gui_ports g"
  by (auto simp: gui_task_input_def split: if_splits dest: gui_process_input_frame)

lemma gui_task_draw_frame:
  "gui_task_draw env fl g = Inr (t, g') \<Longrightarrow> layers g' = layers g \<and> gui_ports g' = gui_ports g"
  by (auto simp: gui_task_draw_def split: if_splits dest: gui_redraw_frame)

lemma gui_task_step_frame:
  "gui_task_step env g = Inr (t, g') \<Longrightarrow> layers g' = layers g \<and> gui_ports g' = gui_ports g"
  by (auto simp: gui_task_step_def Let_def bindE_eq_Inr split: prod.splits
      dest!: gui_task_input_frame gui_task_draw_frame)

lemma gui_task_step_wf: "gui_wf g \<Longrightarrow> gui_task_step env g = Inr (t, g') \<Longrightarrow> gui_wf g'"
  by (auto simp: gui_wf_def dest: gui_task_step_frame)

lemma gui_add_wf:
  assumes "gui_wf g" and "env_debug env" and "gui_add_view_port env a l g = Inr (t, g')"
  shows "gui_wf g'"
proof -
  from assms(2,3) obtain p where "gui_not_added g a" "gui_ports g a = Some p"
    "g' = gui_update (put_port a (view_port_gui_set True p) (set_layer l (layers g l @ [a]) g))"
    by (auto simp: gui_add_view_port_def set_port_gui_def port_at_def set_layer_def bindE_eq_Inr
        furi_assert_eq_Inr put_port_def split: option.splits prod.splits dest!: gui_locked_Inr)
  then show ?thesis
    using assms(1)
    by (auto simp: gui_wf_def gui_not_added_def list_all_iff view_port_gui_set_def set_layer_def
        intro!: linked_add)
qed

lemma gui_remove_wf:
  assumes "gui_wf g" and "gui_remove_view_port env a g = Inr (t, g')"
  shows "gui_wf g'"
  using assms
  by (auto simp: gui_remove_view_port_def set_port_gui_def port_at_def bindE_eq_Inr gui_wf_def
      gui_remove_layers view_port_gui_set_def split: option.splits dest!: gui_locked_Inr
      intro!: linked_remove)

lemma gui_locked_env:
  "gui_locked env m = Inr r \<Longrightarrow> env_acquired env \<and> env_released env"
  by (auto simp: gui_locked_def gui_lock_def gui_unlock_def bindE_eq_Inr furi_check_eq_Inr
      split: prod.splits)

lemma gui_move_wf:
  assumes "gui_wf g" and "gui_move_view_port put env a g = Inr (t, g')"
    and put: "\<And>as. a \<notin> set as \<Longrightarrow> distinct as \<Longrightarrow> distinct (put as) \<and> set (put as) = insert a (set as)"
  shows "gui_wf g'"
proof -
  from assms(2) gui_move_absent [of a g put env] obtain l where l: "a \<in> set (layers g l)"
    by blast
  from assms(2) have "env_acquired env \<and> env_released env"
    unfolding gui_move_view_port_def by (rule gui_locked_env)
  with assms(1,2) l have "g' = set_layer l (put (remove_port a (layers g l))) g"
    by (simp add: gui_move_view_port_eq)
  moreover have "distinct (layers g l)" using assms(1) by (simp add: gui_wf_def linked_distinct)
  ultimately show ?thesis
    using assms(1) l put [of "remove_port a (layers g l)"]
    by (auto simp: gui_wf_def set_layer_def intro!: linked_move [of _ _ a])
qed

lemma port_gui_enabled_set [simp]: "port_gui (snd (view_port_enabled_set b p)) = port_gui p"
  by (simp add: view_port_enabled_set_def)

lemma gui_op_step_wf:
  "gui_wf g \<Longrightarrow> env_debug env \<Longrightarrow> gui_op_step env g op = Inr (t, g') \<Longrightarrow> gui_wf g'"
proof (cases op)
  case (Op_Enabled a b)
  assume "gui_wf g" "gui_op_step env g op = Inr (t, g')"
  then show ?thesis unfolding Op_Enabled
    by (auto elim: change_port_wf)
next
  case (Op_Event e)
  assume "gui_wf g" "gui_op_step env g op = Inr (t, g')"
  then show ?thesis unfolding Op_Event
    by (auto simp: gui_wf_def gui_input_events_callback_def split: if_splits)
qed (auto simp: gui_wf_def port_at_def bindE_eq_Inr view_port_free_def furi_check_eq_Inr
      view_port_alloc_def gui_send_view_port_front_def gui_send_view_port_back_def
      view_port_set_orientation_def view_port_set_width_def view_port_draw_callback_set_def
      view_port_input_callback_set_def
      split: option.splits intro!: linked_fresh elim: linked_drop
      dest: gui_add_wf [unfolded gui_wf_def] gui_remove_wf [unfolded gui_wf_def]
        gui_task_step_wf [unfolded gui_wf_def]
        change_port_wf [unfolded gui_wf_def] gui_move_wf [unfolded gui_wf_def])

lemma gui_alloc_wf: "gui_alloc mx ev c = Inr g \<Longrightarrow> gui_wf g"
  by (auto simp: gui_alloc_def furi_check_eq_Inr gui_wf_def linked_def)

lemma gui_run_wf:
  "gui_wf g \<Longrightarrow> env_debug env \<Longrightarrow> runE (gui_op_step env) g ops = Inr (ts, g') \<Longrightarrow> gui_wf g'"
  by (rule runE_invariant [where I = gui_wf]) (auto dest: gui_op_step_wf)

text \<open>
  C2. In a debug build, whatever clients do to a new GUI (allocating, freeing and changing
  ports, adding, moving and removing them, input, turns of the thread), as long as nothing
  fails: every port is in at most one layer, once; a port that is in a layer exists and has its
  link to the GUI set, so that the thread follows no dangling pointer and fails no check; and a
  port with the link set is in a layer.
\<close>

theorem gui_layers_linked:
  assumes "env_debug env" and "gui_alloc True True c = Inr g0"
    and "runE (gui_op_step env) g0 ops = Inr (ts, g)"
  shows "(\<forall>l. distinct (layers g l)) \<and>
         (\<forall>l m a. a \<in> set (layers g l) \<longrightarrow> a \<in> set (layers g m) \<longrightarrow> l = m) \<and>
         (\<forall>a. (\<exists>l. a \<in> set (layers g l)) \<longleftrightarrow> (\<exists>p. gui_ports g a = Some p \<and> port_gui p))"
  using gui_run_wf [OF gui_alloc_wf [OF assms(2)] assms(1,3)]
  unfolding gui_wf_def linked_def .

text \<open>
  \<^verbatim>\<open>gui_send_view_port_front\<close> on a port of a layer succeeds, puts it last in that layer,
  keeps the other ports of the layer in their order and the other layers as they are; if the
  port is enabled it is now the one the layer shows.
\<close>

theorem send_front_shows_port:
  assumes "gui_wf g" and "a \<in> set (layers g l)" and "env_acquired env" and "env_released env"
  shows "\<exists>g'. gui_send_view_port_front env a g = Inr ([Lock, Unlock], g') \<and>
           layers g' = (layers g)(l := filter (\<lambda>b. b \<noteq> a) (layers g l) @ [a]) \<and>
           (enabled_at g a \<longrightarrow> top_enabled g' l = Some a)"
  using assms
  by (auto simp: gui_send_view_port_front_def gui_move_view_port_eq set_layer_def remove_port_def
      top_enabled_def enabled_at_def)

section \<open>Input\<close>

lemma gui_input_eq:
  assumes "gui_wf g" and "env_acquired env" and "env_released env"
  shows "gui_input env e g =
    Inr (Lock # (case gui_focus g of
                   None \<Rightarrow> []
                 | Some a \<Rightarrow>
                     [Port_Got_Input a (port_input (the (gui_ports g a)))
                        (if port_orientation (the (gui_ports g a)) = ViewPortOrientationVertical
                         then gui_rotate_buttons e else e)]) @ [Unlock], g)"
proof (cases "gui_focus g")
  case None
  with assms show ?thesis
    by (simp add: gui_input_def layer_search gui_focus_def split: option.splits)
next
  case (Some a)
  from focus_at [OF assms(1) Some] obtain p where p: "gui_ports g a = Some p" "port_gui p"
    by blast
  from assms Some have "gui_input env e g =
      bindE (view_port_input g a
        (if view_port_get_orientation p = ViewPortOrientationVertical then gui_rotate_buttons e else e))
        (\<lambda>cs. Inr (Lock # cs @ [Unlock], g))"
    by (auto simp: gui_input_def layer_search gui_focus_def p port_at_def bindE_assoc
        split: option.splits)
  with p Some show ?thesis
    by (simp add: view_port_input_def port_at_def view_port_get_orientation_def)
qed

text \<open>The input that ports get in a trace.\<close>

fun inputs_of :: "gui_call list \<Rightarrow> (nat \<times> input_event) list" where
  "inputs_of [] = []"
| "inputs_of (Port_Got_Input a f e # cs) = (a, e) # inputs_of cs"
| "inputs_of (_ # cs) = inputs_of cs"

fun drawn_in :: "gui_call list \<Rightarrow> nat list" where
  "drawn_in [] = []"
| "drawn_in (Port_Drawn a f cs1 # cs) = a # drawn_in cs"
| "drawn_in (_ # cs) = drawn_in cs"

lemma inputs_of_append [simp]: "inputs_of (cs @ cs1) = inputs_of cs @ inputs_of cs1"
  by (induction cs rule: inputs_of.induct) auto

lemma drawn_in_append [simp]: "drawn_in (cs @ cs1) = drawn_in cs @ drawn_in cs1"
  by (induction cs rule: drawn_in.induct) auto

lemma canvas_calls [simp]: "inputs_of (map Canvas_Call us) = []" "drawn_in (map Canvas_Call us) = []"
  by (induction us) simp_all

text \<open>
  What a vertical port gets for an arrow key: the device is held turned, so every arrow stands for the
  one a quarter further, clockwise.
\<close>

definition arrows :: "input_key list" where
  "arrows = [InputKeyUp, InputKeyRight, InputKeyDown, InputKeyLeft]"

definition quarter_turn :: "input_key \<Rightarrow> input_key" where
  "quarter_turn k = (case map_of (zip arrows (rotate1 arrows)) k of Some k' \<Rightarrow> k' | None \<Rightarrow> k)"

lemma rotate_buttons_turns: "gui_rotate_buttons e = e\<lparr>ev_key := quarter_turn (ev_key e)\<rparr>"
  by (cases "ev_key e") (simp_all add: gui_rotate_buttons_def quarter_turn_def arrows_def)

text \<open>What the port at the focus gets for an event.\<close>

definition focus_input :: "gui \<Rightarrow> input_event \<Rightarrow> (nat \<times> input_event) list" where
  "focus_input g e =
     (case gui_focus g of
        None \<Rightarrow> []
      | Some a \<Rightarrow>
          [(a, if port_orientation (the (gui_ports g a)) = ViewPortOrientationVertical
               then e\<lparr>ev_key := quarter_turn (ev_key e)\<rparr> else e)])"

lemma focus_cong:
  assumes "layers h = layers g" and "gui_ports h = gui_ports g"
  shows "gui_focus h = gui_focus g" and "focus_input h = focus_input g" and "gui_wf h = gui_wf g"
proof -
  have "enabled_at h = enabled_at g" by (simp add: fun_eq_iff enabled_at_def assms)
  then have "top_enabled h = top_enabled g" by (intro ext) (simp add: top_enabled_def assms)
  then show 1: "gui_focus h = gui_focus g" by (simp add: gui_focus_def cong: option.case_cong)
  show "focus_input h = focus_input g" by (intro ext, simp add: focus_input_def 1 assms cong: option.case_cong)
  show "gui_wf h = gui_wf g" by (simp add: gui_wf_def assms)
qed

lemma gui_input_delivers:
  assumes "gui_wf g" and "env_acquired env" and "env_released env"
  shows "\<exists>t. gui_input env e g = Inr (t, g) \<and> inputs_of t = focus_input g e"
  using assms by (simp add: gui_input_eq focus_input_def rotate_buttons_turns split: option.split)

lemma gui_process_input_eq:
  assumes "gui_wf g" and "env_acquired env" and "env_released env"
  shows "\<exists>t. gui_process_input env es g =
            Inr (t, if es = [] then g else g\<lparr>gui_input_queue := []\<rparr>) \<and>
          inputs_of t = concat (map (focus_input g) es)"
  using assms(1)
proof (induction es arbitrary: g)
  case (Cons e es)
  let ?h = "g\<lparr>gui_input_queue := es\<rparr>"
  have same: "gui_wf ?h = gui_wf g" "focus_input ?h = focus_input g" by (rule focus_cong; simp)+
  with Cons.IH [of ?h] Cons.prems obtain t where
    t: "gui_process_input env es ?h = Inr (t, if es = [] then ?h else ?h\<lparr>gui_input_queue := []\<rparr>)"
    "inputs_of t = concat (map (focus_input g) es)" by auto
  from same gui_input_delivers [of ?h env e] Cons.prems assms(2,3) obtain t0 where
    t0: "gui_input env e ?h = Inr (t0, ?h)" "inputs_of t0 = focus_input g e" by auto
  from t t0 show ?case by simp
qed simp

section \<open>Drawing\<close>

definition draw_ok :: "'call drawing \<Rightarrow> bool" where
  "draw_ok d \<longleftrightarrow> (\<forall>c. \<exists>cs c1. d c = Inr (cs, c1))"

lemma draw_okD: "draw_ok d \<Longrightarrow> \<exists>cs c1. d c = Inr (cs, c1)"
  by (simp add: draw_ok_def)

lemma draw_ok_draws: "list_all draw_ok ds \<Longrightarrow> draw_ok (draws ds)"
proof (induction ds)
  case (Cons d ds)
  show ?case unfolding draw_ok_def
  proof
    fix c
    from Cons.prems draw_okD [of d c] obtain cs c1 where 1: "d c = Inr (cs, c1)" by auto
    from Cons draw_okD [of "draws ds" c1] obtain cs1 c2 where "draws ds c1 = Inr (cs1, c2)" by auto
    with 1 show "\<exists>cs c2. draws (d # ds) c = Inr (cs, c2)" by simp
  qed
qed (simp add: draw_ok_def)

lemma draw_ok_prims [simp]:
  "draw_ok (canvas_frame_set x y w h)" "draw_ok (canvas_set_color col)"
  "draw_ok (canvas_draw_box x y w h)" "draw_ok (canvas_draw_dot x y)"
  "draw_ok (canvas_set_orientation r)" "draw_ok canvas_commit" "draw_ok canvas_clear"
  "draw_ok (canvas_set_font fn)"
  by (simp_all add: draw_ok_def canvas_frame_set_def canvas_set_color_def canvas_draw_box_def
      canvas_draw_dot_def canvas_set_orientation_def canvas_commit_def canvas_clear_def
      canvas_set_font_def)

lemma draw_ok_reset [simp]: "draw_ok canvas_reset"
  unfolding canvas_reset_def by (rule draw_ok_draws) simp

lemma draw_ok_icon_name: "frames (g_icons g name) \<noteq> [] \<Longrightarrow> draw_ok (canvas_draw_icon_name g x y name)"
  by (cases "frames (g_icons g name)") (simp_all add: draw_ok_def canvas_draw_icon_name_def Let_def)

lemma draw_ok_orientation [simp]: "draw_ok (gui_setup_fs_orientation p)"
proof -
  have "draw_ok (draws (if b then [canvas_frame_set x y w h] else [canvas_frame_set x y w h, canvas_set_orientation r]))"
    for b x y w h r by (rule draw_ok_draws) simp
  from this [of False] this [of True] show ?thesis
    by (auto simp: draw_ok_def gui_setup_fs_orientation_def simp del: draws_Cons split: port_orientation.split)
qed

lemma on_canvas_ok:
  "list_all draw_ok ds \<Longrightarrow> \<exists>cs c1. on_canvas ds c = Inr (map Canvas_Call cs, c1)"
  using draw_okD [OF draw_ok_draws [of ds], of c] by (auto simp: on_canvas_def)

definition env_ok :: "gui_env \<Rightarrow> bool" where
  "env_ok env \<longleftrightarrow> env_acquired env \<and> env_released env \<and> (\<forall>f. draw_ok (env_draw env f)) \<and>
     frames (g_icons (env_gfx env) ''I_Background_128x11'') \<noteq> []"

lemma view_port_draw_ok:
  assumes "env_ok env" and "gui_ports g a = Some p" and "port_gui p"
  shows "\<exists>cs c1. view_port_draw env g a c = Inr (cs, c1) \<and> drawn_in cs = [a]"
proof (cases "port_draw p")
  case (Some f)
  from assms(1) obtain cs c1 where "env_draw env f c = Inr (cs, c1)"
    using draw_okD by (metis env_ok_def)
  with Some assms(2,3) show ?thesis by (simp add: view_port_draw_def port_at_def)
qed (simp add: view_port_draw_def port_at_def assms)

lemma framed_port_ok:
  assumes "env_ok env" and "gui_ports g a = Some p" and "port_gui p" and "list_all draw_ok ds"
  shows "\<exists>cs c1. draws [on_canvas ds, view_port_draw env g a] c = Inr (cs, c1) \<and> drawn_in cs = [a]"
proof -
  from on_canvas_ok [OF assms(4)] obtain us c1 where "on_canvas ds c = Inr (map Canvas_Call us, c1)"
    by blast
  moreover from view_port_draw_ok [OF assms(1-3)] obtain cs c2 where
    "view_port_draw env g a c1 = Inr (cs, c2)" "drawn_in cs = [a]" by blast
  ultimately show ?thesis by simp
qed

lemma status_frames_ok: "list_all draw_ok (status_right_frame x w)" "list_all draw_ok (status_left_frame x w)"
  by (simp_all add: status_right_frame_def status_left_frame_def)

lemma status_right_ok:
  "env_ok env \<Longrightarrow> \<forall>a\<in>set as. \<exists>p. gui_ports g a = Some p \<and> port_gui p \<Longrightarrow>
     \<exists>u cs c1. status_right env g as x xu c = Inr (u, cs, c1) \<and> set (drawn_in cs) \<subseteq> set as"
proof (induction as arbitrary: x xu c)
  case (Cons a as)
  from Cons.prems obtain p where p: "gui_ports g a = Some p" "port_gui p" by auto
  let ?w = "status_width p"
  from framed_port_ok [OF Cons.prems(1) p status_frames_ok(1)] obtain cs c1 where
    1: "draws [on_canvas (status_right_frame (x - (?w + 2)) ?w), view_port_draw env g a] c = Inr (cs, c1)"
    "drawn_in cs = [a]" by blast
  from Cons obtain u cs1 c2 where "status_right env g as (x - (?w + 2)) (xu + ?w) c1 = Inr (u, cs1, c2)"
    "set (drawn_in cs1) \<subseteq> set as" by (metis list.set_intros(2))
  moreover from Cons obtain u' cs1' c2' where "status_right env g as x xu c = Inr (u', cs1', c2')"
    "set (drawn_in cs1') \<subseteq> set as" by (metis list.set_intros(2))
  ultimately show ?case
    using 1 by (auto simp: port_at_def p Let_def simp del: draws_Cons)
qed simp

lemma status_left_ok:
  "env_ok env \<Longrightarrow> \<forall>a\<in>set as. \<exists>p. gui_ports g a = Some p \<and> port_gui p \<Longrightarrow>
     \<exists>u cs c1. status_left env g as x xu c = Inr (u, cs, c1) \<and> set (drawn_in cs) \<subseteq> set as"
proof (induction as arbitrary: x xu c)
  case (Cons a as)
  from Cons.prems obtain p where p: "gui_ports g a = Some p" "port_gui p" by auto
  let ?w = "status_width p"
  from framed_port_ok [OF Cons.prems(1) p status_frames_ok(2)] obtain cs c1 where
    1: "draws [on_canvas (status_left_frame x ?w), view_port_draw env g a] c = Inr (cs, c1)"
    "drawn_in cs = [a]" by blast
  from Cons obtain u cs1 c2 where "status_left env g as (x + (?w + 2)) (xu + ?w) c1 = Inr (u, cs1, c2)"
    "set (drawn_in cs1) \<subseteq> set as" by (metis list.set_intros(2))
  moreover from Cons obtain u' cs1' c2' where "status_left env g as x xu c = Inr (u', cs1', c2')"
    "set (drawn_in cs1') \<subseteq> set as" by (metis list.set_intros(2))
  ultimately show ?case
    using 1 by (auto simp: port_at_def p Let_def simp del: draws_Cons)
qed simp

definition status_ports :: "gui \<Rightarrow> nat set" where
  "status_ports g = set (layers g GuiLayerStatusBarRight) \<union> set (layers g GuiLayerStatusBarLeft)"

lemma status_bar_ok:
  assumes "gui_wf g" and "env_ok env"
  shows "\<exists>cs c1. gui_redraw_status_bar env g c = Inr (cs, c1) \<and> set (drawn_in cs) \<subseteq> status_ports g"
proof -
  have linked_all: "\<forall>a\<in>set (layers g l). \<exists>p. gui_ports g a = Some p \<and> port_gui p" for l
    using assms(1) by (auto dest: linked_at)
  have "list_all draw_ok
      [canvas_set_orientation CanvasOrientationHorizontal,
       canvas_frame_set GUI_STATUS_BAR_X GUI_STATUS_BAR_Y GUI_DISPLAY_WIDTH GUI_STATUS_BAR_HEIGHT,
       canvas_draw_icon_name (env_gfx env) 0 0 ''I_Background_128x11'']"
    using assms(2) by (simp add: env_ok_def draw_ok_icon_name)
  from on_canvas_ok [OF this, of c] obtain us c1 where 1:
    "on_canvas
      [canvas_set_orientation CanvasOrientationHorizontal,
       canvas_frame_set GUI_STATUS_BAR_X GUI_STATUS_BAR_Y GUI_DISPLAY_WIDTH GUI_STATUS_BAR_HEIGHT,
       canvas_draw_icon_name (env_gfx env) 0 0 ''I_Background_128x11''] c = Inr (map Canvas_Call us, c1)"
    by blast
  from status_right_ok [OF assms(2) linked_all] obtain u cs1 c2 where 2:
    "status_right env g (layers g GuiLayerStatusBarRight) GUI_DISPLAY_WIDTH 0 c1 = Inr (u, cs1, c2)"
    "set (drawn_in cs1) \<subseteq> set (layers g GuiLayerStatusBarRight)" by blast
  from status_left_ok [OF assms(2) linked_all] obtain u1 cs2 c3 where 3:
    "status_left env g (layers g GuiLayerStatusBarLeft) 0 u c2 = Inr (u1, cs2, c3)"
    "set (drawn_in cs2) \<subseteq> set (layers g GuiLayerStatusBarLeft)" by blast
  from 1 2 3 show ?thesis
    by (auto simp: gui_redraw_status_bar_def status_ports_def)
qed

lemma window_ok:
  assumes "gui_wf g" and "env_ok env"
  shows "\<exists>cs c1. gui_redraw_window l env g c = Inr (top_enabled g l \<noteq> None, cs, c1) \<and>
           drawn_in cs = (case top_enabled g l of None \<Rightarrow> [] | Some a \<Rightarrow> [a])"
proof -
  have "list_all draw_ok
      [canvas_set_orientation CanvasOrientationHorizontal,
       canvas_frame_set GUI_MAIN_X GUI_MAIN_Y GUI_MAIN_WIDTH GUI_MAIN_HEIGHT]" by simp
  from on_canvas_ok [OF this, of c] obtain us c1 where 1:
    "on_canvas
      [canvas_set_orientation CanvasOrientationHorizontal,
       canvas_frame_set GUI_MAIN_X GUI_MAIN_Y GUI_MAIN_WIDTH GUI_MAIN_HEIGHT] c = Inr (map Canvas_Call us, c1)"
    by blast
  show ?thesis
  proof (cases "top_enabled g l")
    case None
    with 1 assms(1) show ?thesis by (simp add: gui_redraw_window_def layer_search)
  next
    case (Some a)
    with top_enabled_in [OF Some] linked_at [OF assms(1)] view_port_draw_ok [OF assms(2)]
    obtain cs c2 where "view_port_draw env g a c1 = Inr (cs, c2)" "drawn_in cs = [a]" by metis
    with 1 Some assms(1) show ?thesis by (simp add: gui_redraw_window_def layer_search)
  qed
qed

definition window_port :: "gui \<Rightarrow> nat list" where
  "window_port g =
     (case top_enabled g GuiLayerMain of
        Some a \<Rightarrow> [a]
      | None \<Rightarrow> (case top_enabled g GuiLayerNone of None \<Rightarrow> [] | Some a \<Rightarrow> [a]))"

lemma windows_ok:
  assumes "gui_wf g" and "env_ok env"
  shows "\<exists>cs c2 rest. gui_redraw_windows env g c = Inr (cs, c2) \<and>
           drawn_in cs = window_port g @ rest \<and> set rest \<subseteq> status_ports g"
proof -
  from window_ok [OF assms, of GuiLayerMain c] obtain csm cm where
    m: "gui_redraw_normal env g c = Inr (top_enabled g GuiLayerMain \<noteq> None, csm, cm)"
    "drawn_in csm = (case top_enabled g GuiLayerMain of None \<Rightarrow> [] | Some a \<Rightarrow> [a])"
    unfolding gui_redraw_normal_def by blast
  from window_ok [OF assms, of GuiLayerNone cm] obtain csn cn where
    n: "gui_redraw_none env g cm = Inr (top_enabled g GuiLayerNone \<noteq> None, csn, cn)"
    "drawn_in csn = (case top_enabled g GuiLayerNone of None \<Rightarrow> [] | Some a \<Rightarrow> [a])"
    unfolding gui_redraw_none_def by blast
  show ?thesis
  proof (cases "top_enabled g GuiLayerMain")
    case None
    from status_bar_ok [OF assms, of cn] obtain cs c2 where
      "gui_redraw_status_bar env g cn = Inr (cs, c2)" "set (drawn_in cs) \<subseteq> status_ports g" by blast
    with m n None show ?thesis by (simp add: gui_redraw_windows_def window_port_def)
  next
    case (Some a)
    from status_bar_ok [OF assms, of cm] obtain cs c2 where
      "gui_redraw_status_bar env g cm = Inr (cs, c2)" "set (drawn_in cs) \<subseteq> status_ports g" by blast
    with m Some show ?thesis by (simp add: gui_redraw_windows_def window_port_def)
  qed
qed

text \<open>A redraw does not fail, and draws the port at the focus first.\<close>

lemma redraw_focus_first:
  assumes "gui_wf g" and "env_ok env"
  shows "\<exists>t g' rest. gui_redraw env g = Inr (t, g') \<and>
           drawn_in t = (case gui_focus g of None \<Rightarrow> [] | Some a \<Rightarrow> [a]) @ rest \<and>
           set rest \<subseteq> (if top_enabled g GuiLayerFullscreen = None then status_ports g else {})"
proof -
  have locks: "env_acquired env" "env_released env" using assms(2) by (simp_all add: env_ok_def)
  obtain us c1 where 1: "on_canvas [canvas_reset] (gui_canvas g) = Inr (map Canvas_Call us, c1)"
    using on_canvas_ok [of "[canvas_reset]" "gui_canvas g"] by auto
  have commit: "on_canvas [canvas_commit] c = Inr (map Canvas_Call [U_SetPowerSave False, U_SendBuffer], c)" for c
    by (simp add: on_canvas_def canvas_commit_def)
  show ?thesis
  proof (cases "top_enabled g GuiLayerFullscreen")
    case (Some a)
    from top_enabled_in [OF Some] linked_at [OF assms(1)] obtain p where
      p: "gui_ports g a = Some p" "port_gui p" by metis
    from framed_port_ok [OF assms(2) p, of "[gui_setup_fs_orientation p]" c1] obtain cs c2 where
      "draws [on_canvas [gui_setup_fs_orientation p], view_port_draw env g a] c1 = Inr (cs, c2)"
      "drawn_in cs = [a]" by (auto simp del: draws_Cons)
    then have "gui_redraw_fs env g c1 = Inr (True, cs, c2)"
      by (simp add: gui_redraw_fs_def layer_search assms(1) Some port_at_def p del: draws_Cons)
    with \<open>drawn_in cs = [a]\<close> Some 1 locks show ?thesis
      by (simp add: gui_redraw_def gui_focus_def commit split: option.split)
  next
    case None
    then have fs: "gui_redraw_fs env g c1 = Inr (False, [], c1)"
      by (simp add: gui_redraw_fs_def layer_search assms(1))
    from windows_ok [OF assms, of c1] obtain cs c2 rest where
      "gui_redraw_windows env g c1 = Inr (cs, c2)"
      "drawn_in cs = window_port g @ rest" "set rest \<subseteq> status_ports g" by blast
    with fs None 1 locks show ?thesis
      by (auto simp: gui_redraw_def gui_focus_def window_port_def commit split: option.splits)
  qed
qed

text \<open>A redraw gives no input to any port, and leaves the queue.\<close>

definition no_input :: "gui_call list \<Rightarrow> bool" where
  "no_input cs \<longleftrightarrow> inputs_of cs = []"

lemma no_input_simps [simp]:
  "no_input []" "no_input (cs @ cs1) \<longleftrightarrow> no_input cs \<and> no_input cs1"
  "no_input (Lock # cs) \<longleftrightarrow> no_input cs" "no_input [Unlock]" "no_input (map Canvas_Call us)"
  "no_input [Buffer_Committed cb b x]" "no_input [Port_Drawn a f ds]"
  by (auto simp: no_input_def)

lemma on_canvas_no_input: "on_canvas ds c = Inr (cs, c1) \<Longrightarrow> no_input cs"
  by (auto simp: on_canvas_def bindE_eq_Inr)

lemma port_draw_no_input: "view_port_draw env g a c = Inr (cs, c1) \<Longrightarrow> no_input cs"
  by (auto simp: view_port_draw_def bindE_eq_Inr furi_check_eq_Inr split: option.splits)

lemma framed_no_input: "draws [on_canvas ds, view_port_draw env g a] c = Inr (cs, c1) \<Longrightarrow> no_input cs"
  by (auto simp: bindE_eq_Inr draws_def draw_seq_def draw_nothing_def
      dest!: on_canvas_no_input port_draw_no_input)

lemma status_right_no_input: "status_right env g as x xu c = Inr (u, cs, c1) \<Longrightarrow> no_input cs"
proof (induction as arbitrary: x xu c u cs c1)
  case (Cons a as)
  then show ?case
    by (auto simp: Let_def bindE_eq_Inr simp del: draws_Cons split: if_splits dest!: framed_no_input)
qed auto

lemma status_left_no_input: "status_left env g as x xu c = Inr (u, cs, c1) \<Longrightarrow> no_input cs"
proof (induction as arbitrary: x xu c u cs c1)
  case (Cons a as)
  then show ?case
    by (auto simp: Let_def bindE_eq_Inr simp del: draws_Cons split: if_splits dest!: framed_no_input)
qed auto

lemma status_bar_no_input: "gui_redraw_status_bar env g c = Inr (cs, c1) \<Longrightarrow> no_input cs"
  by (auto simp: gui_redraw_status_bar_def bindE_eq_Inr
      dest!: on_canvas_no_input status_right_no_input status_left_no_input)

lemma window_no_input: "gui_redraw_window l env g c = Inr (b, cs, c1) \<Longrightarrow> no_input cs"
  by (auto simp: gui_redraw_window_def bindE_eq_Inr split: option.splits
      dest!: on_canvas_no_input port_draw_no_input)

lemma windows_no_input: "gui_redraw_windows env g c = Inr (cs, c1) \<Longrightarrow> no_input cs"
  by (auto simp: gui_redraw_windows_def gui_redraw_normal_def gui_redraw_none_def bindE_eq_Inr
      split: if_splits dest!: window_no_input status_bar_no_input)

lemma fs_no_input: "gui_redraw_fs env g c = Inr (b, cs, c1) \<Longrightarrow> no_input cs"
  by (auto simp: gui_redraw_fs_def bindE_eq_Inr simp del: draws_Cons split: option.splits
      dest!: framed_no_input)

lemma redraw_no_input:
  assumes "gui_redraw env g = Inr (t, g')"
  shows "inputs_of t = [] \<and> gui_input_queue g' = gui_input_queue g"
proof -
  from assms obtain cs where t: "t = Lock # cs @ [Unlock]" and "no_input cs"
    and q: "gui_input_queue g' = gui_input_queue g"
    by (auto simp: gui_redraw_def bindE_eq_Inr dest!: gui_locked_Inr split: if_splits option.splits
        dest!: on_canvas_no_input fs_no_input windows_no_input)
  then show ?thesis by (simp add: no_input_def)
qed


text \<open>
  C14. A redraw never fails, on a canvas in any state, and draws first the port at the focus, the
  one that gets the input, if there is one; with an enabled full screen port nothing else is
  drawn, otherwise only ports of the status bar follow.
\<close>

theorem redraw_shows_focus:
  assumes "gui_wf g" and "env_ok env"
  shows "\<exists>t g' rest. gui_redraw env g = Inr (t, g') \<and>
           drawn_in t = (case gui_focus g of None \<Rightarrow> [] | Some a \<Rightarrow> [a]) @ rest \<and>
           set rest \<subseteq> (if top_enabled g GuiLayerFullscreen = None then status_ports g else {})"
  by (rule redraw_focus_first [OF assms])

section \<open>Examples\<close>

definition demo_canvas :: canvas where
  "demo_canvas = snd (canvas_init ColorBlack FontSecondary)"

definition demo_env :: gui_env where
  "demo_env =
     \<lparr>env_debug = True, env_acquired = True, env_released = True,
      env_gfx = \<lparr>g_str_width = (\<lambda>_ s. of_nat (length s)), g_ascent = (\<lambda>_. 8), g_char_height = (\<lambda>_. 10),
        g_icons = (\<lambda>_. \<lparr>icon_width = 4, icon_height = 7, frame_count = 1, frame_rate = 0, frames = [7]\<rparr>)\<rparr>,
      env_draw = (\<lambda>_ c. Inr ([U_DrawPixel 1 1], c)), env_buffer = []\<rparr>"

definition demo_ops :: "gui_op list" where
  "demo_ops = [Op_Alloc 1, Op_Alloc 2, Op_Add 1 GuiLayerMain, Op_Add 2 GuiLayerMain, Op_Front 1]"

definition demo_gui :: gui where
  "demo_gui =
     \<lparr>thread_flags = 3, layers = (\<lambda>_. [])(GuiLayerMain := [2, 1]), gui_canvas = demo_canvas,
      canvas_callback = None, canvas_callback_context = None,
      gui_input_queue = [\<lparr>ev_key = InputKeyOk, ev_type = InputTypePress\<rparr>],
      gui_ports = [1 \<mapsto> view_port_alloc\<lparr>port_gui := True\<rparr>, 2 \<mapsto> view_port_alloc\<lparr>port_gui := True\<rparr>]\<rparr>"

lemma demo_gui_wf: "gui_wf demo_gui"
  by (auto simp: gui_wf_def demo_gui_def linked_def)

lemma demo_env_ok: "env_ok demo_env"
  by (simp add: env_ok_def demo_env_def draw_ok_def)

lemma demo_run:
  "\<exists>g0 ts g. gui_alloc True True demo_canvas = Inr g0 \<and> runE (gui_op_step demo_env) g0 demo_ops = Inr (ts, g) \<and>
     layers g GuiLayerMain = [2, 1]"
  by (simp add: gui_alloc_def demo_ops_def gui_add_view_port_def port_at_def set_port_gui_def
      put_port_def view_port_alloc_def gui_not_added_def gui_layers_def demo_env_def
      gui_send_view_port_front_def gui_move_view_port_def set_layer_def view_port_gui_set_def
      gui_update_def)

theorem gui_layers_linked_witness:
  "\<exists>g0 ts g. runE (gui_op_step demo_env) g0 demo_ops = Inr (ts, g) \<and>
     layers g GuiLayerMain = [2, 1] \<and> (\<exists>p. gui_ports g 1 = Some p \<and> port_gui p)"
proof -
  obtain g0 ts g where 1: "gui_alloc True True demo_canvas = Inr g0"
    "runE (gui_op_step demo_env) g0 demo_ops = Inr (ts, g)" "layers g GuiLayerMain = [2, 1]"
    using demo_run by blast
  have "env_debug demo_env" by (simp add: demo_env_def)
  from gui_layers_linked [OF this 1(1,2)] 1(3) have "\<exists>p. gui_ports g 1 = Some p \<and> port_gui p"
    by (metis list.set_intros)
  with 1 show ?thesis by blast
qed

theorem send_front_shows_port_witness:
  "\<exists>g'. gui_send_view_port_front demo_env 2 demo_gui = Inr ([Lock, Unlock], g') \<and>
     layers g' GuiLayerMain = [1, 2] \<and> top_enabled g' GuiLayerMain = Some 2"
  using send_front_shows_port [OF demo_gui_wf, of 2 GuiLayerMain demo_env]
  by (auto simp: demo_gui_def demo_env_def enabled_at_def view_port_alloc_def)


theorem redraw_shows_focus_witness:
  "\<exists>t g'. gui_redraw demo_env demo_gui = Inr (t, g') \<and> drawn_in t = [1]"
  using redraw_shows_focus [OF demo_gui_wf demo_env_ok]
  by (auto simp: demo_gui_def gui_focus_def top_enabled_def enabled_at_def
      view_port_alloc_def status_ports_def)

end
