(* ===== verification/Cli.thy ===== *)
theory Cli
  imports MString "HOL-Library.List_Lexorder" "HOL-Library.Char_ord"
begin

text \<open>
  The command line: \<^verbatim>\<open>applications/cli/cli.c\<close> and the commands of \<^verbatim>\<open>cli_commands.c\<close> that have logic
  of their own. The virtual serial port is the environment: an answer of \<^verbatim>\<open>api_hal_vcp_rx\<close> is the
  number of characters received and what the variable of the caller holds afterwards (what it
  held before, if nothing was received). Output, and the calls of command callbacks, are a trace.
\<close>

section \<open>State\<close>

abbreviation cli_soh :: char where "cli_soh \<equiv> CHR 0x01"
abbreviation cli_etx :: char where "cli_etx \<equiv> CHR 0x03"
abbreviation cli_eot :: char where "cli_eot \<equiv> CHR 0x04"
abbreviation cli_bell :: char where "cli_bell \<equiv> CHR 0x07"
abbreviation cli_bs :: char where "cli_bs \<equiv> CHR 0x08"
abbreviation cli_tab :: char where "cli_tab \<equiv> CHR 0x09"
abbreviation cli_cr :: char where "cli_cr \<equiv> CHR 0x0D"
abbreviation cli_lf :: char where "cli_lf \<equiv> CHR 0x0A"
abbreviation cli_esc :: char where "cli_esc \<equiv> CHR 0x1B"
abbreviation cli_space :: char where "cli_space \<equiv> CHR 0x20"
abbreviation cli_del :: char where "cli_del \<equiv> CHR 0x7F"

record cli_command =
  cmd_callback :: nat
  cmd_context :: "nat option"

text \<open>The B+ tree of commands: an association list in the order of its keys.\<close>

record cli =
  commands :: "(string \<times> cli_command) list"
  line :: string

datatype led_light = Led_Red | Led_Green | Led_Blue | Led_Display

datatype cli_out =
    Put char
  | Print string
  | Print_Format string
  | Motd
  | Command_Called cli_command string
  | Set_Led led_light u8
  | Set_Vibro bool
  | Set_Pin string bool

fun tree_set :: "'k :: linorder \<Rightarrow> 'v \<Rightarrow> ('k \<times> 'v) list \<Rightarrow> ('k \<times> 'v) list" where
  "tree_set k v [] = [(k, v)]"
| "tree_set k v ((k1, v1) # t) =
     (if k = k1 then (k, v) # t
      else if k < k1 then (k, v) # (k1, v1) # t
      else (k1, v1) # tree_set k v t)"

definition tree_erase :: "'k \<Rightarrow> ('k \<times> 'v) list \<Rightarrow> ('k \<times> 'v) list" where
  "tree_erase k t = filter (\<lambda>(k1, _). k1 \<noteq> k) t"

definition cli_reset_state :: "cli \<Rightarrow> cli" where
  "cli_reset_state c = c\<lparr>line := []\<rparr>"

definition cli_alloc :: "bool \<Rightarrow> cli res" where
  "cli_alloc mx = furi_check mx (Inr (cli_reset_state \<lparr>commands = [], line = []\<rparr>))"

section \<open>Input and output\<close>

definition cli_putc :: "char \<Rightarrow> cli_out list" where
  "cli_putc c = [Put c]"

definition cli_nl :: "cli_out list" where
  "cli_nl = [Print [cli_cr, cli_lf]]"

definition cli_prompt :: "cli_out list" where
  "cli_prompt = [Print ([cli_cr, cli_lf] @ ''>: '')]"

definition cli_getc :: "nat \<times> char \<Rightarrow> cli \<Rightarrow> char \<times> cli" where
  "cli_getc rx c = (snd rx, if fst rx = 0 then cli_reset_state c else c)"

definition cli_cmd_interrupt_received :: "nat \<times> char \<Rightarrow> bool" where
  "cli_cmd_interrupt_received rx \<longleftrightarrow> snd rx = cli_etx"

definition cli_print_usage :: "string \<Rightarrow> string \<Rightarrow> string \<Rightarrow> cli_out list" where
  "cli_print_usage cmd usage arg =
     [Print (cmd @ '': illegal option -- '' @ arg @ [cli_cr, cli_lf] @ ''usage: '' @ cmd @ '' '' @ usage)]"

definition cli_motd :: "cli_out list" where
  "cli_motd = [Motd]"

section \<open>The line\<close>

definition cli_backspace :: "cli \<Rightarrow> cli_out list \<times> cli" where
  "cli_backspace c =
     (let s = length (line c) in
      if s > 0 then
        (cli_putc cli_bs @ cli_putc cli_space @ cli_putc cli_bs,
         c\<lparr>line := string_left (line c) (s - 1)\<rparr>)
      else (cli_putc cli_bell, c))"

text \<open>\<open>acq\<close> and \<open>rel\<close> are the answers of the mutex.\<close>

definition cli_enter :: "bool \<Rightarrow> bool \<Rightarrow> cli \<Rightarrow> (cli_out list \<times> cli) res" where
  "cli_enter acq rel c0 =
     (let c = c0\<lparr>line := string_strim (line c0)\<rparr> in
      if length (line c) = 0 then Inr (cli_prompt, c)
      else
        (let (command, args) =
           (case string_search_char (line c) cli_space of
              None \<Rightarrow> (line c, [])
            | Some ws \<Rightarrow> (take ws (line c), string_strim (string_right (line c) ws)))
         in furi_check acq (furi_check rel
              (case map_of (commands c) command of
                 Some cmd \<Rightarrow>
                   Inr (cli_nl @ [Command_Called cmd args] @ cli_prompt, cli_reset_state c)
               | None \<Rightarrow>
                   Inr (cli_nl @ [Print ''Command not found: '', Print_Format command] @ cli_prompt @
                        cli_putc cli_bell, cli_reset_state c)))))"

text \<open>
  One turn of the loop of the thread. \<open>rx\<close> is the answer to the first read; \<open>rx1\<close> the answer to
  the second read, made after an escape. After \<open>[\<close> the code reads a third character and does not look
  at it: that read takes its character from the host and leaves the line as it is.
\<close>

definition cli_process_input ::
    "bool \<Rightarrow> bool \<Rightarrow> nat \<times> char \<Rightarrow> nat \<times> char \<Rightarrow> cli \<Rightarrow> (cli_out list \<times> cli) res" where
  "cli_process_input acq rel rx rx1 c0 =
     (case cli_getc rx c0 of
        (ch, c) \<Rightarrow>
          if ch = cli_tab then Inr (cli_putc cli_bell, c)
          else if ch = cli_soh then Inr (cli_motd @ cli_prompt, c)
          else if ch = cli_eot then Inr ([], cli_reset_state c)
          else if ch = cli_esc then
            Inr (if fst rx1 \<noteq> 0 \<and> snd rx1 = CHR ''['' then [] else cli_putc cli_bell, c)
          else if ch = cli_bs \<or> ch = cli_del then Inr (cli_backspace c)
          else if ch = cli_cr then cli_enter acq rel c
          else if 0x20 \<le> (of_char ch :: nat) \<and> (of_char ch :: nat) < 0x7F then
            Inr (cli_putc ch, c\<lparr>line := line c @ [ch]\<rparr>)
          else Inr (cli_putc cli_bell, c))"

section \<open>Commands\<close>

text \<open>\<^verbatim>\<open>string_replace_str\<close> for one blank: its index, and the string after the replacement.\<close>

definition replace_blank :: "string \<Rightarrow> nat option \<times> string" where
  "replace_blank s =
     (case string_search_char s cli_space of
        None \<Rightarrow> (None, s)
      | Some i \<Rightarrow> (Some i, s[i := CHR ''_'']))"

lemma replace_blank_count:
  "replace_blank s = (Some i, s1) \<Longrightarrow> count_list s1 cli_space < count_list s cli_space"
proof -
  assume "replace_blank s = (Some i, s1)"
  then have i: "string_search_char s cli_space = Some i" "s1 = s[i := CHR ''_'']"
    by (auto simp: replace_blank_def split: option.splits)
  from string_search_char_Some [OF i(1)] have "i < length s" "s ! i = cli_space" by auto
  then have s: "s = take i s @ cli_space # drop (Suc i) s"
    by (metis id_take_nth_drop)
  have "count_list s cli_space = count_list (take i s @ cli_space # drop (Suc i) s) cli_space"
    by (rule arg_cong [OF s])
  moreover have "s1 = take i s @ CHR ''_'' # drop (Suc i) s"
    using i(2) \<open>i < length s\<close> by (simp add: upd_conv_take_nth_drop)
  ultimately show ?thesis by simp
qed

function replace_blanks :: "string \<Rightarrow> string" where
  "replace_blanks s = (case replace_blank s of (None, s1) \<Rightarrow> s1 | (Some i, s1) \<Rightarrow> replace_blanks s1)"
  by pat_completeness auto

termination
  by (relation "measure (\<lambda>s. count_list s cli_space)") (auto dest: replace_blank_count [OF sym])

declare replace_blanks.simps [simp del]

definition cli_add_command ::
    "bool \<Rightarrow> bool \<Rightarrow> string \<Rightarrow> nat \<Rightarrow> nat option \<Rightarrow> cli \<Rightarrow> cli res" where
  "cli_add_command acq rel name cb ctx c =
     (let name_str = replace_blanks (string_strim name) in
      furi_check acq (furi_check rel
        (Inr (c\<lparr>commands := tree_set name_str \<lparr>cmd_callback = cb, cmd_context = ctx\<rparr> (commands c)\<rparr>))))"

definition cli_delete_command :: "bool \<Rightarrow> bool \<Rightarrow> string \<Rightarrow> cli \<Rightarrow> cli res" where
  "cli_delete_command acq rel name c =
     (let name_str = replace_blanks (string_strim name) in
      furi_check acq (furi_check rel (Inr (c\<lparr>commands := tree_erase name_str (commands c)\<rparr>))))"

text \<open>
  The two columns of the help: the iterators start at the first command and at the middle one.
  Reading the second one at the end of the tree is invalid.
\<close>

definition pad30 :: "string \<Rightarrow> string" where
  "pad30 s = s @ replicate (30 - length s) cli_space"

fun help_rows :: "string list \<Rightarrow> nat \<Rightarrow> nat \<Rightarrow> nat \<Rightarrow> cli_out list res" where
  "help_rows keys i j 0 = Inr []"
| "help_rows keys i j (Suc n) =
     bindE (arr_get keys i) (\<lambda>k. bindE (arr_get keys j) (\<lambda>k1.
     bindE (help_rows keys (i + 1) (j + 1) n) (\<lambda>os.
       Inr ([Print [cli_cr, cli_lf], Print (pad30 k), Print_Format k1] @ os))))"

definition cli_command_help :: "bool \<Rightarrow> bool \<Rightarrow> string \<Rightarrow> cli \<Rightarrow> cli_out list res" where
  "cli_command_help acq rel args c =
     furi_check acq
       (let cmd_num = of_nat (length (commands c)) :: u8;
            mid = unat (cmd_num div 2 + cmd_num mod 2)
        in bindE (help_rows (map fst (commands c)) 0 mid mid) (\<lambda>rows.
           furi_check rel
             (Inr ([Print ''Commands we have:''] @ rows @
                   (if length args > 0
                    then cli_nl @ [Print ''Also I have no clue what '', Print [CHR 0x27],
                           Print_Format args, Print [CHR 0x27], Print '' is.'']
                    else [])))))"

text \<open>\<open>uid\<close> is the unique id of the chip.\<close>

definition hex_digit :: "nat \<Rightarrow> char" where
  "hex_digit n = (if n < 10 then char_of (48 + n) else char_of (55 + n))"

definition cli_command_uuid :: "u8 list \<Rightarrow> cli_out list" where
  "cli_command_uuid uid =
     [Print_Format (''UID:'' @
        concat (map (\<lambda>b. [hex_digit (unat b div 16), hex_digit (unat b mod 16)]) uid))]"

definition cli_command_vibro :: "string \<Rightarrow> cli_out list" where
  "cli_command_vibro args =
     (if args = ''0'' then [Set_Vibro False]
      else if args = ''1'' then [Set_Vibro True]
      else cli_print_usage ''vibro'' ''<1|0>'' args)"

text \<open>
  \<^verbatim>\<open>strtoul\<close> with base 0, as the C standard has it: blanks, a sign, a prefix that gives the
  base, digits; the value saturates and a minus sign negates it. The result is the value and
  what follows the number (everything, if there is none).
\<close>

definition digit_value :: "char \<Rightarrow> nat" where
  "digit_value ch =
     (let n = of_char ch :: nat in
      if 48 \<le> n \<and> n \<le> 57 then n - 48
      else if 97 \<le> n \<and> n \<le> 122 then n - 87
      else if 65 \<le> n \<and> n \<le> 90 then n - 55
      else 36)"

fun digits :: "nat \<Rightarrow> nat \<Rightarrow> string \<Rightarrow> nat \<times> string" where
  "digits b v [] = (v, [])"
| "digits b v (ch # s) =
     (if digit_value ch < b then digits b (v * b + digit_value ch) s else (v, ch # s))"

definition is_c_space :: "char \<Rightarrow> bool" where
  "is_c_space ch \<longleftrightarrow> ch = cli_space \<or> (9 \<le> (of_char ch :: nat) \<and> (of_char ch :: nat) \<le> 13)"

definition strtoul_base0 :: "string \<Rightarrow> u32 \<times> string" where
  "strtoul_base0 s0 =
     (let s1 = dropWhile is_c_space s0;
          neg = (s1 \<noteq> [] \<and> hd s1 = CHR ''-'');
          s2 = (if s1 \<noteq> [] \<and> (hd s1 = CHR ''-'' \<or> hd s1 = CHR ''+'') then tl s1 else s1);
          hex = (length s2 \<ge> 3 \<and> s2 ! 0 = CHR ''0'' \<and> s2 ! 1 \<in> {CHR ''x'', CHR ''X''} \<and>
                 digit_value (s2 ! 2) < 16);
          b = (if hex then 16 else if s2 \<noteq> [] \<and> hd s2 = CHR ''0'' then 8 else 10);
          s3 = (if hex then drop 2 s2 else s2)
      in if s3 = [] \<or> \<not> digit_value (hd s3) < b then (0, s0)
         else (case digits b 0 s3 of
                 (v, rest) \<Rightarrow>
                   (if v \<ge> 2 ^ 32 then - 1 else if neg then - of_nat v else of_nat v, rest)))"

definition cli_command_led :: "string \<Rightarrow> cli_out list" where
  "cli_command_led args0 =
     (let usage = cli_print_usage ''led'' ''<r|g|b|bl> <0-255>'' in
      case string_search_char args0 cli_space of
        None \<Rightarrow> usage args0
      | Some ws \<Rightarrow>
          (let light_name = take ws args0;
               args = string_strim (string_right args0 ws);
               light =
                 (if light_name = ''r'' then Some Led_Red
                  else if light_name = ''g'' then Some Led_Green
                  else if light_name = ''b'' then Some Led_Blue
                  else if light_name = ''bl'' then Some Led_Display
                  else None)
           in case light of
                None \<Rightarrow> usage args
              | Some l \<Rightarrow>
                  (case strtoul_base0 args of
                     (value, rest) \<Rightarrow>
                       if \<not> (value < 256 \<and> rest = []) then usage args
                       else [Set_Led l (ucast value)])))"

definition gpio_pin_names :: "string list" where
  "gpio_pin_names = [''PC0'', ''PC1'', ''PC3'', ''PB2'', ''PB3'', ''PA4'', ''PA6'', ''PA7'']"

definition cli_command_gpio_set :: "string \<Rightarrow> cli_out list" where
  "cli_command_gpio_set args0 =
     (case string_search_char args0 cli_space of
        None \<Rightarrow> cli_print_usage ''gpio_set'' ''<pin_name> <0|1>'' args0
      | Some ws \<Rightarrow>
          (let pin_name = take ws args0; args = string_strim (string_right args0 ws) in
           case find (\<lambda>n. pin_name = n) gpio_pin_names of
             None \<Rightarrow>
               Print ''Wrong pin name. Available pins: '' # map (\<lambda>n. Print (n @ '' '')) gpio_pin_names
           | Some pin \<Rightarrow>
               if args = ''0'' then [Set_Pin pin False]
               else if args = ''1'' then [Set_Pin pin True]
               else [Print ''Wrong 2nd argument. Use '', Print [CHR 0x22], Print ''1'', Print [CHR 0x22],
                     Print '' to set, '', Print [CHR 0x22], Print ''0'', Print [CHR 0x22], Print '' to reset'']))"

text \<open>The commands by their addresses, \<open>cb 0\<close> to \<open>cb 9\<close> in the order of their definitions.\<close>

definition builtin_commands :: "(string \<times> nat) list" where
  "builtin_commands =
     [(''help'', 0), (''?'', 0), (''version'', 1), (''!'', 1), (''uid'', 2), (''date'', 3), (''log'', 4),
      (''hw_info'', 5), (''vibro'', 6), (''led'', 7), (''gpio_set'', 8), (''os_info'', 9)]"

definition cli_commands_init :: "bool \<Rightarrow> bool \<Rightarrow> (nat \<Rightarrow> nat) \<Rightarrow> cli \<Rightarrow> cli res" where
  "cli_commands_init acq rel cb c =
     foldl (\<lambda>r (name, k). bindE r (cli_add_command acq rel name (cb k) None)) (Inr c) builtin_commands"

section \<open>The tree of commands\<close>

definition tree_wf :: "('k :: linorder \<times> 'v) list \<Rightarrow> bool" where
  "tree_wf t \<longleftrightarrow> sorted_wrt (<) (map fst t)"

lemma set_tree_set: "set (map fst (tree_set k v t)) = insert k (set (map fst t))"
proof (induction t)
  case (Cons a t)
  then show ?case by (cases a) auto
qed simp

lemma tree_set_wf: "tree_wf t \<Longrightarrow> tree_wf (tree_set k v t)"
proof (induction t)
  case (Cons a t)
  obtain k1 v1 where a: "a = (k1, v1)" by fastforce
  from Cons have "tree_wf (tree_set k v t)" by (simp add: tree_wf_def)
  then show ?case
    using Cons.prems set_tree_set [of k v t] by (auto simp: tree_wf_def a simp del: set_map)
qed (simp add: tree_wf_def)

lemma map_of_tree_set: "tree_wf t \<Longrightarrow> map_of (tree_set k v t) = (map_of t)(k \<mapsto> v)"
proof (induction t)
  case (Cons a t)
  obtain k1 v1 where a: "a = (k1, v1)" by fastforce
  have "k < k1 \<Longrightarrow> map_of t k = None"
    using Cons.prems by (auto simp: tree_wf_def a map_of_eq_None_iff)
  with Cons show ?case by (auto simp: a tree_wf_def fun_eq_iff)
qed simp

lemma map_of_tree_erase: "map_of (tree_erase k t) = (map_of t)(k := None)"
  by (induction t) (auto simp: tree_erase_def)

lemma tree_erase_wf: "tree_wf t \<Longrightarrow> tree_wf (tree_erase k t)"
  by (auto simp: tree_wf_def tree_erase_def sorted_wrt_map intro: sorted_wrt_filter)

section \<open>Names\<close>

definition underscored :: "string \<Rightarrow> string" where
  "underscored s = map (\<lambda>ch. if ch = cli_space then CHR ''_'' else ch) s"

lemma underscored_step: "string_search_char s cli_space = Some i \<Longrightarrow> underscored (s[i := CHR ''_'']) = underscored s"
  using string_search_char_Some [of s cli_space i]
  by (simp add: underscored_def map_update list_update_same_conv)

lemma replace_blanks_eq: "replace_blanks s = underscored s"
proof (induction s rule: replace_blanks.induct)
  case (1 s)
  show ?case
  proof (cases "string_search_char s cli_space")
    case None
    then have "underscored s = s"
      by (auto simp: string_search_char_None underscored_def intro!: map_idI)
    with None show ?thesis by (subst replace_blanks.simps) (simp add: replace_blank_def)
  next
    case (Some i)
    then have "replace_blank s = (Some i, s[i := CHR ''_''])" by (simp add: replace_blank_def)
    with 1 [OF sym [OF this] refl] show ?thesis
      by (subst replace_blanks.simps) (simp add: underscored_step [OF Some])
  qed
qed

section \<open>Blanks\<close>

definition lstrip :: "string \<Rightarrow> string" where "lstrip s = dropWhile is_blank s"
definition rstrip :: "string \<Rightarrow> string" where "rstrip s = rev (dropWhile is_blank (rev s))"

lemma strim_strips: "string_strim s = rstrip (lstrip s)"
  by (simp add: string_strim_def rstrip_def lstrip_def)

lemma lstrip_Nil: "lstrip s = [] \<longleftrightarrow> (\<forall>ch\<in>set s. is_blank ch)"
  by (simp add: lstrip_def)

lemma rstrip_Nil: "rstrip s = [] \<longleftrightarrow> (\<forall>ch\<in>set s. is_blank ch)"
  by (simp add: rstrip_def)

lemma set_lstrip_blank: "(\<forall>ch\<in>set (lstrip s). is_blank ch) \<longleftrightarrow> (\<forall>ch\<in>set s. is_blank ch)"
proof
  assume "\<forall>ch\<in>set (lstrip s). is_blank ch"
  then have "lstrip s = []" by (metis lstrip_def hd_dropWhile hd_in_set)
  then show "\<forall>ch\<in>set s. is_blank ch" by (simp add: lstrip_Nil)
qed (auto simp: lstrip_def dest: set_dropWhileD)

lemma strim_Nil: "string_strim s = [] \<longleftrightarrow> (\<forall>ch\<in>set s. is_blank ch)"
  by (simp add: strim_strips rstrip_Nil set_lstrip_blank)

lemma rstrip_word:
  assumes "w \<noteq> []" and "\<not> is_blank (last w)"
  shows "rstrip (w @ x) = w @ rstrip x"
proof (cases "\<forall>ch\<in>set x. is_blank ch")
  case True
  moreover have "dropWhile is_blank (rev w) = rev w"
    using assms by (cases w rule: rev_cases) auto
  moreover have "dropWhile is_blank (rev x @ rev w) = dropWhile is_blank (rev w)"
    using True by (intro dropWhile_append2) simp
  ultimately have "rstrip (w @ x) = w" by (simp add: rstrip_def)
  with True show ?thesis by (simp add: rstrip_Nil)
next
  case False
  then show ?thesis by (auto simp: rstrip_def dropWhile_append1)
qed

lemma lstrip_rstrip: "lstrip (rstrip s) = rstrip (lstrip s)"
proof (cases "\<forall>ch\<in>set s. is_blank ch")
  case False
  define u where "u = takeWhile is_blank s"
  define w where "w = dropWhile is_blank s"
  have s: "s = u @ w" by (simp add: u_def w_def)
  have w: "w \<noteq> []" "\<not> is_blank (hd w)"
    using False by (auto simp: w_def hd_dropWhile)
  then obtain a v where av: "w = a # v" "\<not> is_blank a" by (cases w) auto
  have "rstrip (u @ [a] @ v) = (u @ [a]) @ rstrip v"
    using av rstrip_word [of "u @ [a]" v] by simp
  moreover have "rstrip ([a] @ v) = [a] @ rstrip v"
    using av rstrip_word [of "[a]" v] by simp
  moreover have "\<forall>ch\<in>set u. is_blank ch" by (auto simp: u_def dest: set_takeWhileD)
  ultimately show ?thesis
    using s av by (simp add: lstrip_def dropWhile_append2)
next
  case True
  then have "rstrip s = []" "lstrip s = []" by (simp_all add: rstrip_Nil lstrip_Nil)
  then show ?thesis by (simp only:) (simp add: rstrip_def lstrip_def)
qed

lemma strim_command_line:
  assumes "w \<noteq> []" and "\<forall>ch\<in>set w. \<not> is_blank ch"
  shows "string_strim (w @ cli_space # args) =
           (if string_strim args = [] then w else w @ cli_space # rstrip args)"
proof -
  have blank: "is_blank cli_space" by (simp add: is_blank_def)
  have w: "\<not> is_blank (hd w)" "\<not> is_blank (last w)" using assms by auto
  then have "lstrip (w @ cli_space # args) = w @ cli_space # args"
    using assms(1) by (cases w) (simp_all add: lstrip_def)
  then have 1: "string_strim (w @ cli_space # args) = w @ rstrip (cli_space # args)"
    using w assms(1) by (simp add: strim_strips rstrip_word)
  show ?thesis
  proof (cases "\<forall>ch\<in>set args. is_blank ch")
    case True
    then have "rstrip (cli_space # args) = []" "string_strim args = []"
      using blank by (simp_all add: rstrip_Nil strim_Nil)
    with 1 show ?thesis by simp
  next
    case False
    then obtain u a v where uav: "args = u @ a # v" "\<not> is_blank a" by (metis split_list)
    then have "rstrip ((cli_space # u @ [a]) @ v) = (cli_space # u @ [a]) @ rstrip v"
      "rstrip ((u @ [a]) @ v) = (u @ [a]) @ rstrip v"
      by (intro rstrip_word; simp)+
    then have "rstrip (cli_space # args) = cli_space # rstrip args" using uav by simp
    moreover have "string_strim args \<noteq> []" using False by (simp add: strim_Nil)
    ultimately show ?thesis using 1 by simp
  qed
qed

section \<open>The line and the screen\<close>

text \<open>
  The specification of the line editor: what a key does to the text, and a terminal, the row to
  the right of the prompt and the cursor in it.
\<close>

definition printable :: "char \<Rightarrow> bool" where
  "printable ch \<longleftrightarrow> 0x20 \<le> (of_char ch :: nat) \<and> (of_char ch :: nat) < 0x7F"

definition edit_key :: "char \<Rightarrow> bool" where
  "edit_key ch \<longleftrightarrow> ch \<notin> {cli_soh, cli_eot, cli_esc, cli_cr}"

definition edit :: "char \<Rightarrow> string \<Rightarrow> string" where
  "edit ch l =
     (if ch = cli_bs \<or> ch = cli_del then butlast l else if printable ch then l @ [ch] else l)"

record screen =
  row :: string
  cursor :: nat

definition screen_put :: "char \<Rightarrow> screen \<Rightarrow> screen" where
  "screen_put ch t =
     (if ch = cli_bs then t\<lparr>cursor := cursor t - 1\<rparr>
      else if printable ch then
        \<lparr>row = take (cursor t) (row t) @ ch # drop (cursor t + 1) (row t), cursor = cursor t + 1\<rparr>
      else t)"

fun screen_out :: "cli_out \<Rightarrow> screen \<Rightarrow> screen" where
  "screen_out (Put ch) t = screen_put ch t"
| "screen_out _ t = t"

definition shows_line :: "screen \<Rightarrow> string \<Rightarrow> bool" where
  "shows_line t l \<longleftrightarrow>
     cursor t = length l \<and> (\<exists>n. row t = l @ replicate n cli_space)"

definition typed :: "cli \<Rightarrow> char \<Rightarrow> (cli_out list \<times> cli) res" where
  "typed c ch = cli_process_input True True (1, ch) (0, ch) c"

lemma printable_simps [simp]:
  "printable cli_space" "\<not> printable cli_bell" "\<not> printable cli_del" "\<not> printable cli_bs"
  "\<not> printable cli_tab" "\<not> printable cli_lf" "\<not> printable cli_cr" "\<not> printable cli_soh" "\<not> printable cli_eot" "\<not> printable cli_esc"
  by (simp_all add: printable_def)

lemma typed_printable:
  "printable ch \<Longrightarrow> typed c ch = Inr ([Put ch], c\<lparr>line := line c @ [ch]\<rparr>)"
proof -
  assume p: "printable ch"
  then have "ch \<notin> {cli_tab, cli_soh, cli_eot, cli_esc, cli_bs, cli_del, cli_cr}" by auto
  with p show ?thesis
    by (simp add: typed_def cli_process_input_def cli_getc_def cli_putc_def printable_def)
qed

lemma typed_backspace:
  "ch = cli_bs \<or> ch = cli_del \<Longrightarrow> typed c ch = Inr (cli_backspace c)"
  by (auto simp: typed_def cli_process_input_def cli_getc_def)

lemma typed_other:
  "edit_key ch \<Longrightarrow> ch \<noteq> cli_bs \<Longrightarrow> ch \<noteq> cli_del \<Longrightarrow> \<not> printable ch \<Longrightarrow>
     typed c ch = Inr ([Put cli_bell], c)"
  by (auto simp: typed_def cli_process_input_def cli_getc_def cli_putc_def edit_key_def printable_def)

lemma typed_cr: "typed c cli_cr = cli_enter True True c"
  by (simp add: typed_def cli_process_input_def cli_getc_def)

lemma screen_bell [simp]: "screen_put cli_bell t = t"
  by (simp add: screen_put_def)

lemma shows_printable:
  assumes "shows_line t l" and "printable ch"
  shows "shows_line (screen_put ch t) (l @ [ch])"
proof -
  from assms(1) obtain n where n: "cursor t = length l" "row t = l @ replicate n cli_space"
    by (auto simp: shows_line_def)
  have "ch \<noteq> cli_bs" using assms(2) by auto
  with n assms(2) show ?thesis
    by (auto simp: shows_line_def screen_put_def intro: exI [of _ "n - 1"])
qed

lemma shows_backspace:
  assumes "shows_line t l" and "l \<noteq> []"
  shows "shows_line (screen_put cli_bs (screen_put cli_space (screen_put cli_bs t))) (butlast l)"
proof -
  from assms(1) obtain n where n: "cursor t = length l" "row t = l @ replicate n cli_space"
    by (auto simp: shows_line_def)
  obtain k ch where l: "l = k @ [ch]" using assms(2) by (cases l rule: rev_cases) auto
  have "k @ cli_space # replicate n cli_space = k @ replicate (Suc n) cli_space" by simp
  with n l show ?thesis
    unfolding shows_line_def screen_put_def by (simp del: replicate_Suc)
qed

lemma typed_edit:
  assumes "edit_key ch" and "shows_line t (line c)"
  shows "\<exists>os. typed c ch = Inr (os, c\<lparr>line := edit ch (line c)\<rparr>) \<and>
           shows_line (fold screen_out os t) (edit ch (line c))"
proof -
  consider "ch = cli_bs \<or> ch = cli_del" | "printable ch"
    | "ch \<noteq> cli_bs" "ch \<noteq> cli_del" "\<not> printable ch" by blast
  then show ?thesis
  proof cases
    case 1
    show ?thesis
    proof (cases "line c = []")
      case True
      with 1 assms(2) show ?thesis
        by (simp add: typed_backspace cli_backspace_def cli_putc_def edit_def)
    next
      case False
      with 1 shows_backspace [OF assms(2)] show ?thesis
        by (simp add: typed_backspace cli_backspace_def cli_putc_def edit_def string_left_def
            butlast_conv_take)
    qed
  next
    case 2
    moreover from 2 have "ch \<noteq> cli_bs" "ch \<noteq> cli_del" by auto
    ultimately show ?thesis
      using shows_printable [OF assms(2)] by (simp add: typed_printable edit_def)
  next
    case 3
    with assms show ?thesis
      by (simp add: typed_other edit_def)
  qed
qed

text \<open>
  C17. The line editor refines the obvious one: for every sequence of keys other than the line
  control keys, the line the command will be read from is the text those keys edit, and the
  screen to the right of the prompt shows exactly this line with the cursor behind it.
\<close>

theorem cli_line_is_shown:
  assumes "list_all edit_key chs" and "shows_line t (line c)"
  shows "\<exists>os. runE typed c chs = Inr (os, c\<lparr>line := fold edit chs (line c)\<rparr>) \<and>
           shows_line (fold screen_out (concat os) t) (fold edit chs (line c))"
  using assms
proof (induction chs arbitrary: c t)
  case (Cons ch chs)
  from Cons.prems typed_edit [of ch t c] obtain os where
    1: "typed c ch = Inr (os, c\<lparr>line := edit ch (line c)\<rparr>)"
    "shows_line (fold screen_out os t) (edit ch (line c))" by auto
  with Cons.IH [of "fold screen_out os t" "c\<lparr>line := edit ch (line c)\<rparr>"] Cons.prems obtain os1 where
    "runE typed (c\<lparr>line := edit ch (line c)\<rparr>) chs =
       Inr (os1, c\<lparr>line := fold edit chs (edit ch (line c))\<rparr>)"
    "shows_line (fold screen_out (concat os1) (fold screen_out os t)) (fold edit chs (edit ch (line c)))"
    by auto
  with 1 show ?case by simp
qed simp

theorem cli_line_is_shown_witness:
  "\<exists>os. runE typed \<lparr>commands = [], line = []\<rparr> [CHR ''l'', CHR ''a'', cli_bs, CHR ''s'', cli_tab] =
     Inr (os, \<lparr>commands = [], line = ''ls''\<rparr>) \<and>
   shows_line (fold screen_out (concat os) \<lparr>row = [], cursor = 0\<rparr>) ''ls''"
  using cli_line_is_shown [of "[CHR ''l'', CHR ''a'', cli_bs, CHR ''s'', cli_tab]"
      "\<lparr>row = [], cursor = 0\<rparr>" "\<lparr>commands = [], line = []\<rparr>"]
  by (simp add: edit_key_def shows_line_def edit_def printable_def)

section \<open>From a line to its command\<close>

fun commands_called :: "cli_out list \<Rightarrow> (cli_command \<times> string) list" where
  "commands_called [] = []"
| "commands_called (Command_Called cmd args # os) = (cmd, args) # commands_called os"
| "commands_called (_ # os) = commands_called os"

lemma commands_called_append [simp]:
  "commands_called (xs @ ys) = commands_called xs @ commands_called ys"
  by (induction xs rule: commands_called.induct) auto

lemma type_text:
  "list_all printable s \<Longrightarrow>
     runE typed c s = Inr (map (\<lambda>ch. [Put ch]) s, c\<lparr>line := line c @ s\<rparr>)"
  by (induction s arbitrary: c) (simp_all add: typed_printable)

lemma puts_call_nothing [simp]: "commands_called (map Put s) = []"
  by (induction s) auto

lemma printable_not_blank: "printable ch \<Longrightarrow> ch \<noteq> cli_space \<Longrightarrow> \<not> is_blank ch"
  by (auto simp: is_blank_def)

lemma enter_command:
  assumes "w \<noteq> []" and "\<forall>ch\<in>set w. \<not> is_blank ch" and "line c = w @ cli_space # args"
    and "map_of (commands c) w = Some cmd"
  shows "cli_enter True True c = Inr (cli_nl @ [Command_Called cmd (string_strim args)] @ cli_prompt, c\<lparr>line := []\<rparr>)"
proof (cases "string_strim args = []")
  case True
  have "cli_space \<notin> set w" using assms(2) by (auto simp: is_blank_def)
  then have "string_search_char w cli_space = None" by (simp add: string_search_char_None)
  with True assms show ?thesis
    by (simp add: cli_enter_def strim_command_line cli_reset_state_def)
next
  case False
  have "cli_space \<notin> set w" using assms(2) by (auto simp: is_blank_def)
  then have "string_search_char (w @ cli_space # rstrip args) cli_space = Some (length w)"
    by (rule string_search_char_append)
  moreover have "string_strim (cli_space # rstrip args) = string_strim args"
  proof -
    have "rstrip (rstrip x) = rstrip x" for x
      by (simp add: rstrip_def)
    then show ?thesis
      by (simp add: strim_strips lstrip_rstrip lstrip_def is_blank_def flip: lstrip_def)
        (simp add: lstrip_def is_blank_def lstrip_rstrip [unfolded lstrip_def])
  qed
  ultimately show ?thesis
    using False assms
    by (simp add: cli_enter_def strim_command_line cli_reset_state_def string_right_def)
qed

text \<open>
  A command added under any name, blanks in it included, can be called: typing its name, with
  each inner blank as an underscore, then a blank and any text, then Return, calls the callback
  of the command exactly once, with the text without blanks at its ends as arguments; nothing
  else is called, and the line is empty again.
\<close>

theorem cli_added_command_called:
  assumes "tree_wf (commands c0)" and "cli_add_command True True name cb ctx c0 = Inr c"
    and "line c = []" and "list_all printable (string_strim name)" and "string_strim name \<noteq> []"
    and "list_all printable args"
  shows "\<exists>os. runE typed c (underscored (string_strim name) @ cli_space # args @ [cli_cr]) = Inr (os, c) \<and>
           commands_called (concat os) = [(\<lparr>cmd_callback = cb, cmd_context = ctx\<rparr>, string_strim args)]"
proof -
  let ?w = "underscored (string_strim name)"
  let ?c = "c\<lparr>line := ?w @ cli_space # args\<rparr>"
  have w: "?w \<noteq> []" "list_all printable ?w" "\<forall>ch\<in>set ?w. \<not> is_blank ch"
    using assms(4,5) by (auto simp: underscored_def list_all_iff printable_def is_blank_def)
  have cmd: "map_of (commands c) ?w = Some \<lparr>cmd_callback = cb, cmd_context = ctx\<rparr>"
    using assms(1,2) by (auto simp: cli_add_command_def replace_blanks_eq map_of_tree_set)
  have "runE typed c (?w @ cli_space # args) =
      Inr (map (\<lambda>ch. [Put ch]) (?w @ cli_space # args), ?c)"
    using w(2) assms(3,6) by (subst type_text) auto
  moreover have "typed ?c cli_cr =
      Inr (cli_nl @ [Command_Called \<lparr>cmd_callback = cb, cmd_context = ctx\<rparr> (string_strim args)] @
           cli_prompt, c)"
    using w(1,3) cmd assms(3) by (simp add: typed_cr enter_command)
  ultimately show ?thesis
    using runE_append [of typed c "?w @ cli_space # args" "[cli_cr]"]
    by (simp add: cli_nl_def cli_prompt_def)
qed

theorem cli_added_command_called_witness:
  "\<exists>os. runE typed \<lparr>commands = [(''my_led'', \<lparr>cmd_callback = 5, cmd_context = None\<rparr>)], line = []\<rparr>
        (''my_led'' @ cli_space # ''r 255 '' @ [cli_cr]) =
      Inr (os, \<lparr>commands = [(''my_led'', \<lparr>cmd_callback = 5, cmd_context = None\<rparr>)], line = []\<rparr>) \<and>
    commands_called (concat os) = [(\<lparr>cmd_callback = 5, cmd_context = None\<rparr>, ''r 255'')]"
  using cli_added_command_called [where ?c0.0 = "\<lparr>commands = [], line = []\<rparr>" and name = "''my led''" and
      cb = 5 and ctx = None and args = "''r 255 ''" and
      c = "\<lparr>commands = [(''my_led'', \<lparr>cmd_callback = 5, cmd_context = None\<rparr>)], line = []\<rparr>"]
  by (simp add: tree_wf_def cli_add_command_def replace_blanks_eq underscored_def string_strim_def
      is_blank_def printable_def)

section \<open>The help\<close>

lemma help_rows_all:
  "i + n \<le> length keys \<Longrightarrow> j + n \<le> length keys \<Longrightarrow>
     help_rows keys i j n =
       Inr (concat (map (\<lambda>k. [Print [cli_cr, cli_lf], Print (pad30 (keys ! (i + k))), Print_Format (keys ! (j + k))])
              [0..<n]))"
proof (induction n arbitrary: i j)
  case (Suc n)
  then show ?case
    by (simp add: map_upt_Suc del: upt_Suc)
qed simp

lemma help_rows_end:
  "i + n \<le> length keys \<Longrightarrow> j \<le> length keys \<Longrightarrow> length keys < j + n \<Longrightarrow>
     help_rows keys i j n = Inl Out_Of_Bounds"
proof (induction n arbitrary: i j)
  case (Suc n)
  then show ?case by (cases "j = length keys") simp_all
qed simp

text \<open>
  The help command works exactly if the number of commands is even: then it prints every
  command once, the first half in the left column and the second half in the right one. With an
  odd number, its second iterator is read past the end of the tree on the last row.
\<close>

theorem cli_help_needs_even:
  assumes "length (commands c) < 256"
  shows "cli_command_help True True [] c =
    (if even (length (commands c))
     then Inr (Print ''Commands we have:'' #
               concat (map (\<lambda>k. [Print [cli_cr, cli_lf],
                                 Print (pad30 (fst (commands c ! k))),
                                 Print_Format (fst (commands c ! (length (commands c) div 2 + k)))])
                         [0..<length (commands c) div 2]))
     else Inl Out_Of_Bounds)"
proof -
  let ?n = "length (commands c)"
  let ?w = "of_nat ?n :: u8"
  have n: "unat ?w = ?n" using assms by (intro unat_of_nat_small) simp
  have mid: "unat (?w div 2 + ?w mod 2) = ?n div 2 + ?n mod 2"
    using assms n by (subst unat_plus_if_fits) (simp_all add: unat_div unat_mod)
  have listing: "cli_command_help True True [] c =
      bindE (help_rows (map fst (commands c)) 0 (?n div 2 + ?n mod 2) (?n div 2 + ?n mod 2))
        (\<lambda>rows. Inr (Print ''Commands we have:'' # rows))"
    unfolding cli_command_help_def Let_def mid by simp
  show ?thesis
  proof (cases "even ?n")
    case True
    then obtain h where h: "?n = h + h" by (metis evenE mult_2)
    have "help_rows (map fst (commands c)) 0 h h =
        Inr (concat (map (\<lambda>k. [Print [cli_cr, cli_lf], Print (pad30 (map fst (commands c) ! (0 + k))),
                               Print_Format (map fst (commands c) ! (h + k))]) [0..<h]))"
      using h by (intro help_rows_all) simp_all
    also have "map (\<lambda>k. [Print [cli_cr, cli_lf], Print (pad30 (map fst (commands c) ! (0 + k))),
                           Print_Format (map fst (commands c) ! (h + k))]) [0..<h] =
        map (\<lambda>k. [Print [cli_cr, cli_lf], Print (pad30 (fst (commands c ! k))),
                 Print_Format (fst (commands c ! (h + k)))]) [0..<h]"
      using h by (intro map_cong) simp_all
    finally have "help_rows (map fst (commands c)) 0 h h =
        Inr (concat (map (\<lambda>k. [Print [cli_cr, cli_lf], Print (pad30 (fst (commands c ! k))),
                               Print_Format (fst (commands c ! (h + k)))]) [0..<h]))" .
    moreover have "?n div 2 = h" "?n mod 2 = 0" "even ?n" using h by simp_all
    ultimately show ?thesis by (simp add: listing)
  next
    case False
    then have "?n mod 2 = 1" "2 * (?n div 2) + 1 = ?n" by presburger+
    then have "help_rows (map fst (commands c)) 0 (?n div 2 + ?n mod 2) (?n div 2 + ?n mod 2) = Inl Out_Of_Bounds"
      by (intro help_rows_end) simp_all
    with False show ?thesis by (simp add: listing)
  qed
qed

theorem cli_help_needs_even_witness:
  "cli_command_help True True [] \<lparr>commands = [(''help'', \<lparr>cmd_callback = 0, cmd_context = None\<rparr>)], line = []\<rparr> =
     Inl Out_Of_Bounds"
  using cli_help_needs_even [of "\<lparr>commands = [(''help'', \<lparr>cmd_callback = 0, cmd_context = None\<rparr>)], line = []\<rparr>"]
  by simp

end
