(* ===== verification/ByteInput.thy ===== *)
theory ByteInput
  imports Canvas Input
begin

text \<open>
  The keyboard for bytes, \<^verbatim>\<open>applications/gui/modules/byte_input.c\<close>. The state is the model of its
  view; the buffer belongs to the caller and is a list of bytes, \<open>None\<close> for a null pointer.
  \<open>bi_row\<close> is the 8-bit signed row: -1 for the input line, 0 and 1 for the keyboard. Positions are
  computed in \<^verbatim>\<open>int\<close>, as the code does.
\<close>

section \<open>State\<close>

record byte_input_key =
  key_value :: u8
  key_x :: u8
  key_y :: u8

record byte_input =
  bi_header :: string
  bi_bytes :: "u8 list option"
  bi_count :: u8
  bi_input_callback :: "nat option"
  bi_changed_callback :: "nat option"
  bi_context :: "nat option"
  bi_high :: bool
  bi_byte :: u8
  bi_row :: int
  bi_column :: u8
  bi_first :: u8

datatype byte_input_call =
    Input_Callback nat "nat option" "u8 list option" u8
  | Changed_Callback nat "nat option" "u8 list option" u8

definition keyboard_origin_x :: u8 where "keyboard_origin_x = 7"
definition keyboard_origin_y :: u8 where "keyboard_origin_y = 31"
definition keyboard_row_count :: nat where "keyboard_row_count = 2"
definition enter_symbol :: u8 where "enter_symbol = 13"
definition backspace_symbol :: u8 where "backspace_symbol = 8"
definition max_drawable_bytes :: nat where "max_drawable_bytes = 8"

definition byte_key :: "char \<Rightarrow> u8 \<Rightarrow> u8 \<Rightarrow> byte_input_key" where
  "byte_key ch x y = \<lparr>key_value = of_char ch, key_x = x, key_y = y\<rparr>"

definition keyboard_keys_row_1 :: "byte_input_key list" where
  "keyboard_keys_row_1 =
     [byte_key CHR ''0'' 0 12, byte_key CHR ''1'' 11 12, byte_key CHR ''2'' 22 12,
      byte_key CHR ''3'' 33 12, byte_key CHR ''4'' 44 12, byte_key CHR ''5'' 55 12,
      byte_key CHR ''6'' 66 12, byte_key CHR ''7'' 77 12,
      \<lparr>key_value = backspace_symbol, key_x = 103, key_y = 4\<rparr>]"

definition keyboard_keys_row_2 :: "byte_input_key list" where
  "keyboard_keys_row_2 =
     [byte_key CHR ''8'' 0 26, byte_key CHR ''9'' 11 26, byte_key CHR ''A'' 22 26,
      byte_key CHR ''B'' 33 26, byte_key CHR ''C'' 44 26, byte_key CHR ''D'' 55 26,
      byte_key CHR ''E'' 66 26, byte_key CHR ''F'' 77 26,
      \<lparr>key_value = enter_symbol, key_x = 95, key_y = 17\<rparr>]"

definition byte_input_get_row_size :: "u8 \<Rightarrow> nat" where
  "byte_input_get_row_size r =
     (if unat r + 1 = 1 then length keyboard_keys_row_1
      else if unat r + 1 = 2 then length keyboard_keys_row_2 else 0)"

text \<open>\<open>None\<close> is the null pointer.\<close>

definition byte_input_get_row :: "u8 \<Rightarrow> byte_input_key list option" where
  "byte_input_get_row r =
     (if unat r + 1 = 1 then Some keyboard_keys_row_1
      else if unat r + 1 = 2 then Some keyboard_keys_row_2 else None)"

section \<open>Nibbles\<close>

definition byte_input_get_nibble_text :: "u8 \<Rightarrow> bool \<Rightarrow> u8" where
  "byte_input_get_nibble_text b high =
     (let n = (if high then drop_bit 4 b else b) AND 0x0F in
      if n AND 0x0F \<le> 9 then n + 48 else n - 0xA + 65)"

text \<open>The value is cleared for any other character.\<close>

definition char_nibble :: "u8 \<Rightarrow> u8" where
  "char_nibble v =
     (if 48 \<le> v \<and> v \<le> 57 then v - 48 else if 65 \<le> v \<and> v \<le> 70 then v - 65 + 10 else 0)"

definition byte_at :: "byte_input \<Rightarrow> u8 \<Rightarrow> u8 res" where
  "byte_at m i = (case bi_bytes m of None \<Rightarrow> Inl Null_Pointer | Some bs \<Rightarrow> arr_get bs (unat i))"

definition set_byte :: "u8 \<Rightarrow> u8 \<Rightarrow> byte_input \<Rightarrow> byte_input res" where
  "set_byte i b m =
     (case bi_bytes m of
        None \<Rightarrow> Inl Null_Pointer
      | Some bs \<Rightarrow> bindE (arr_set bs (unat i) b) (\<lambda>bs1. Inr (m\<lparr>bi_bytes := Some bs1\<rparr>)))"

definition byte_input_set_nibble :: "u8 \<Rightarrow> u8 \<Rightarrow> bool \<Rightarrow> byte_input \<Rightarrow> byte_input res" where
  "byte_input_set_nibble position value high m =
     (let v = char_nibble value in
      bindE (byte_at m position) (\<lambda>b.
        set_byte position
          (if high then (b AND 0x0F) OR push_bit 4 v else (b AND 0xF0) OR v) m))"

section \<open>Moving\<close>

definition byte_input_keyboard_selected :: "byte_input \<Rightarrow> bool" where
  "byte_input_keyboard_selected m \<longleftrightarrow> bi_row m \<ge> 0"

definition byte_input_transition_from_keyboard :: "byte_input \<Rightarrow> byte_input" where
  "byte_input_transition_from_keyboard m = m\<lparr>bi_row := bi_row m + 1, bi_high := True\<rparr>"

definition byte_input_inc_selected_byte :: "byte_input \<Rightarrow> byte_input" where
  "byte_input_inc_selected_byte m =
     (if uint (bi_byte m) < uint (bi_count m) - 1 then
        (let m1 = m\<lparr>bi_byte := bi_byte m + 1\<rparr> in
         if unat (bi_count m1) > max_drawable_bytes \<and>
            uint (bi_byte m1) - uint (bi_first m1) > int max_drawable_bytes - 2 \<and>
            uint (bi_first m1) < uint (bi_count m1) - int max_drawable_bytes
         then m1\<lparr>bi_first := bi_first m1 + 1\<rparr> else m1)
      else m)"

definition byte_input_dec_selected_byte :: "byte_input \<Rightarrow> byte_input" where
  "byte_input_dec_selected_byte m =
     (if bi_byte m > 0 then
        (let m1 = m\<lparr>bi_byte := bi_byte m - 1\<rparr> in
         if uint (bi_byte m1) - uint (bi_first m1) < 1 \<and> bi_first m1 > 0
         then m1\<lparr>bi_first := bi_first m1 - 1\<rparr> else m1)
      else m)"

definition byte_input_call_input_callback :: "byte_input \<Rightarrow> byte_input_call list" where
  "byte_input_call_input_callback m =
     (case bi_input_callback m of
        None \<Rightarrow> [] | Some cb \<Rightarrow> [Input_Callback cb (bi_context m) (bi_bytes m) (bi_count m)])"

definition byte_input_call_changed_callback :: "byte_input \<Rightarrow> byte_input_call list" where
  "byte_input_call_changed_callback m =
     (case bi_changed_callback m of
        None \<Rightarrow> [] | Some cb \<Rightarrow> [Changed_Callback cb (bi_context m) (bi_bytes m) (bi_count m)])"

section \<open>The buttons\<close>

definition byte_input_handle_up :: "byte_input \<Rightarrow> byte_input" where
  "byte_input_handle_up m = (if bi_row m > - 1 then m\<lparr>bi_row := bi_row m - 1\<rparr> else m)"

definition byte_input_handle_down :: "byte_input \<Rightarrow> byte_input" where
  "byte_input_handle_down m =
     (if byte_input_keyboard_selected m then
        (if bi_row m < int keyboard_row_count - 1 then m\<lparr>bi_row := bi_row m + 1\<rparr> else m)
      else byte_input_transition_from_keyboard m)"

definition byte_input_handle_left :: "byte_input \<Rightarrow> byte_input" where
  "byte_input_handle_left m =
     (if byte_input_keyboard_selected m then
        (if bi_column m > 0 then m\<lparr>bi_column := bi_column m - 1\<rparr>
         else m\<lparr>bi_column := of_nat (byte_input_get_row_size (word_of_int (bi_row m))) - 1\<rparr>)
      else byte_input_dec_selected_byte m)"

definition byte_input_handle_right :: "byte_input \<Rightarrow> byte_input" where
  "byte_input_handle_right m =
     (if byte_input_keyboard_selected m then
        (if uint (bi_column m) < int (byte_input_get_row_size (word_of_int (bi_row m))) - 1
         then m\<lparr>bi_column := bi_column m + 1\<rparr> else m\<lparr>bi_column := 0\<rparr>)
      else byte_input_inc_selected_byte m)"

definition byte_input_handle_ok :: "byte_input \<Rightarrow> (byte_input_call list \<times> byte_input) res" where
  "byte_input_handle_ok m =
     (if byte_input_keyboard_selected m then
        (case byte_input_get_row (word_of_int (bi_row m)) of
           None \<Rightarrow> Inl Null_Pointer
         | Some keys \<Rightarrow>
             bindE (arr_get keys (unat (bi_column m))) (\<lambda>key.
               let value = key_value key in
               if value = enter_symbol then Inr (byte_input_call_input_callback m, m)
               else if value = backspace_symbol then
                 bindE (set_byte (bi_byte m) 0 m) (\<lambda>m1.
                   let m2 = byte_input_dec_selected_byte (m1\<lparr>bi_high := True\<rparr>)
                   in Inr (byte_input_call_changed_callback m2, m2))
               else
                 bindE (byte_input_set_nibble (bi_byte m) value (bi_high m) m) (\<lambda>m1.
                   let m2 = (if bi_high m1 then m1\<lparr>bi_high := False\<rparr>
                             else (byte_input_inc_selected_byte m1)\<lparr>bi_high := True\<rparr>)
                   in Inr (byte_input_call_changed_callback m2, m2))))
      else Inr ([], byte_input_transition_from_keyboard m))"

text \<open>The result starts with whether the event was consumed.\<close>

definition byte_input_view_input_callback ::
    "input_event \<Rightarrow> byte_input \<Rightarrow> (bool \<times> byte_input_call list \<times> byte_input) res" where
  "byte_input_view_input_callback e m =
     (if ev_type e = InputTypeShort \<or> ev_type e = InputTypeRepeat then
        (case ev_key e of
           InputKeyLeft \<Rightarrow> Inr (True, [], byte_input_handle_left m)
         | InputKeyRight \<Rightarrow> Inr (True, [], byte_input_handle_right m)
         | InputKeyUp \<Rightarrow> Inr (True, [], byte_input_handle_up m)
         | InputKeyDown \<Rightarrow> Inr (True, [], byte_input_handle_down m)
         | InputKeyOk \<Rightarrow> bindE (byte_input_handle_ok m) (\<lambda>(cs, m1). Inr (True, cs, m1))
         | InputKeyBack \<Rightarrow> Inr (False, [], m))
      else Inr (False, [], m))"

definition byte_input_reset_model_input_data :: "byte_input \<Rightarrow> byte_input" where
  "byte_input_reset_model_input_data m =
     m\<lparr>bi_bytes := None, bi_count := 0, bi_high := True, bi_byte := 0, bi_row := 0, bi_column := 0,
       bi_first := 0\<rparr>"

definition byte_input_alloc :: byte_input where
  "byte_input_alloc =
     byte_input_reset_model_input_data
       \<lparr>bi_header = '''', bi_bytes = None, bi_count = 0, bi_input_callback = None,
        bi_changed_callback = None, bi_context = None, bi_high = False, bi_byte = 0, bi_row = 0,
        bi_column = 0, bi_first = 0\<rparr>"

definition byte_input_set_result_callback ::
    "nat option \<Rightarrow> nat option \<Rightarrow> nat option \<Rightarrow> u8 list option \<Rightarrow> u8 \<Rightarrow> byte_input \<Rightarrow> byte_input" where
  "byte_input_set_result_callback inp chg ctx bs cnt m =
     (byte_input_reset_model_input_data m)
       \<lparr>bi_input_callback := inp, bi_changed_callback := chg, bi_context := ctx, bi_bytes := bs,
        bi_count := cnt\<rparr>"

definition byte_input_set_header_text :: "string \<Rightarrow> byte_input \<Rightarrow> byte_input" where
  "byte_input_set_header_text t m = m\<lparr>bi_header := t\<rparr>"

section \<open>Drawing\<close>

definition draw_nibble :: "byte_input \<Rightarrow> u8 \<Rightarrow> bool \<Rightarrow> u8 \<Rightarrow> draw" where
  "draw_nibble m i high x c =
     bindE (byte_at m i) (\<lambda>b. canvas_draw_glyph x 25 (ucast (byte_input_get_nibble_text b high)) c)"

text \<open>The bytes in view, by their index: \<open>pos\<close> is the place on the screen.\<close>

definition visible_bytes :: "byte_input \<Rightarrow> (u8 \<times> u8) list" where
  "visible_bytes m =
     map (\<lambda>k. (bi_first m + of_nat k, of_nat k)) [0..<min (unat (bi_count m)) max_drawable_bytes]"

definition draw_scroll_marks :: "gfx \<Rightarrow> byte_input \<Rightarrow> draw list" where
  "draw_scroll_marks g m =
     (if uint (bi_count m) - uint (bi_first m) > int max_drawable_bytes
      then [canvas_draw_icon_name g 123 21 ''I_ButtonRightSmall_3x5''] else []) @
     (if bi_first m > 0 then [canvas_draw_icon_name g 1 21 ''I_ButtonLeftSmall_3x5''] else [])"

definition byte_input_draw_input :: "gfx \<Rightarrow> byte_input \<Rightarrow> draw" where
  "byte_input_draw_input g m =
     draws (elements_slightly_rounded_frame 1 14 126 15 #
       concat (map (\<lambda>(i, pos).
         if i = bi_byte m then
           canvas_draw_frame (3 + pos * 14) 16 15 11 #
           (if bi_high m then
              [draw_nibble m i False (3 + 8 + pos * 14),
               canvas_draw_box (3 + 1 + pos * 14) 17 7 9,
               canvas_invert_color,
               canvas_draw_line (3 + 14 + pos * 14) 19 (3 + 14 + pos * 14) 23,
               draw_nibble m i True (3 + 2 + pos * 14),
               canvas_invert_color]
            else
              [canvas_draw_box (3 + 7 + pos * 14) 17 7 9,
               draw_nibble m i True (3 + 2 + pos * 14),
               canvas_invert_color,
               canvas_draw_line (3 + pos * 14) 19 (3 + pos * 14) 23,
               draw_nibble m i False (3 + 8 + pos * 14),
               canvas_invert_color])
         else [draw_nibble m i True (3 + 2 + pos * 14), draw_nibble m i False (3 + 8 + pos * 14)])
         (visible_bytes m)) @
       draw_scroll_marks g m)"

definition byte_input_draw_input_selected :: "gfx \<Rightarrow> byte_input \<Rightarrow> draw" where
  "byte_input_draw_input_selected g m =
     draws ([canvas_draw_box 0 12 128 19, canvas_invert_color, elements_slightly_rounded_frame 1 14 126 15] @
       concat (map (\<lambda>(i, pos).
         if i = bi_byte m then
           [canvas_draw_box (3 + pos * 14) 16 15 11,
            canvas_invert_color,
            draw_nibble m i True (3 + 2 + pos * 14),
            draw_nibble m i False (3 + 8 + pos * 14),
            canvas_invert_color]
         else [draw_nibble m i True (3 + 2 + pos * 14), draw_nibble m i False (3 + 8 + pos * 14)])
         (visible_bytes m)) @
       draw_scroll_marks g m @ [canvas_invert_color])"

definition draw_key :: "gfx \<Rightarrow> byte_input \<Rightarrow> nat \<Rightarrow> nat \<Rightarrow> byte_input_key \<Rightarrow> draw list" where
  "draw_key g m row column key =
     (let x = keyboard_origin_x + key_x key; y = keyboard_origin_y + key_y key;
          selected = (bi_row m = int row \<and> unat (bi_column m) = column)
      in if key_value key = enter_symbol then
           [canvas_set_color ColorBlack,
            canvas_draw_icon_name g x y
              (if selected then ''I_KeySaveSelected_24x11'' else ''I_KeySave_24x11'')]
         else if key_value key = backspace_symbol then
           [canvas_set_color ColorBlack,
            canvas_draw_icon_name g x y
              (if selected then ''I_KeyBackspaceSelected_16x9'' else ''I_KeyBackspace_16x9'')]
         else
           (if selected then
              [canvas_set_color ColorBlack, canvas_draw_box (x - 3) (y - 10) 11 13,
               canvas_set_color ColorWhite]
            else if bi_row m = - 1 \<and> row = 0 \<and> unat (bi_column m) = column then
              [canvas_set_color ColorBlack, canvas_draw_frame (x - 3) (y - 10) 11 13]
            else [canvas_set_color ColorBlack]) @
           [canvas_draw_glyph x y (ucast (key_value key))])"

definition byte_input_view_draw_callback :: "gfx \<Rightarrow> byte_input \<Rightarrow> draw" where
  "byte_input_view_draw_callback g m =
     draws ([canvas_clear, canvas_set_color ColorBlack, canvas_draw_str 2 9 (bi_header m),
             canvas_set_font FontKeyboard,
             if bi_row m = - 1 then byte_input_draw_input_selected g m else byte_input_draw_input g m] @
       concat (map (\<lambda>row.
         (case byte_input_get_row (of_nat row) of
            None \<Rightarrow> []
          | Some keys \<Rightarrow> concat (map (\<lambda>(column, key). draw_key g m row column key) (enumerate 0 keys))))
         [0..<keyboard_row_count]))"

section \<open>The invariant\<close>

text \<open>The selected byte exists and is one of the at most eight that are shown.\<close>

definition window_ok :: "nat \<Rightarrow> nat \<Rightarrow> nat \<Rightarrow> bool" where
  "window_ok n b f \<longleftrightarrow> b < n \<and> f \<le> b \<and> b < f + 8 \<and> f + min n 8 \<le> n"

definition bi_wf :: "byte_input \<Rightarrow> bool" where
  "bi_wf m \<longleftrightarrow>
     (\<exists>bs. bi_bytes m = Some bs \<and> length bs = unat (bi_count m)) \<and>
     bi_row m \<in> {- 1, 0, 1} \<and> unat (bi_column m) < 9 \<and>
     window_ok (unat (bi_count m)) (unat (bi_byte m)) (unat (bi_first m))"

lemma row_size_9: "r \<in> {0, 1} \<Longrightarrow> byte_input_get_row_size (word_of_int r) = 9"
  by (auto simp: byte_input_get_row_size_def keyboard_keys_row_1_def keyboard_keys_row_2_def)

definition same_but_window :: "byte_input \<Rightarrow> byte_input \<Rightarrow> bool" where
  "same_but_window m m1 \<longleftrightarrow> (\<exists>b f. m1 = m\<lparr>bi_byte := b, bi_first := f\<rparr>)"

lemma same_but_window_parts:
  "same_but_window m m1 \<Longrightarrow>
     bi_bytes m1 = bi_bytes m \<and> bi_count m1 = bi_count m \<and> bi_row m1 = bi_row m \<and>
     bi_column m1 = bi_column m \<and> bi_high m1 = bi_high m \<and>
     bi_input_callback m1 = bi_input_callback m \<and> bi_changed_callback m1 = bi_changed_callback m \<and>
     bi_context m1 = bi_context m"
  by (auto simp: same_but_window_def)

lemma same_but_window_intros [simp]:
  "same_but_window m m"
  "same_but_window m (m\<lparr>bi_byte := b\<rparr>)"
  "same_but_window m (m\<lparr>bi_byte := b, bi_first := f\<rparr>)"
proof -
  have "m = m\<lparr>bi_byte := bi_byte m, bi_first := bi_first m\<rparr>"
    "m\<lparr>bi_byte := b\<rparr> = m\<lparr>bi_byte := b, bi_first := bi_first m\<rparr>" by simp_all
  then show "same_but_window m m" "same_but_window m (m\<lparr>bi_byte := b\<rparr>)"
    "same_but_window m (m\<lparr>bi_byte := b, bi_first := f\<rparr>)"
    unfolding same_but_window_def by blast+
qed

lemma inc_parts:
  fixes m
  defines "n \<equiv> unat (bi_count m)" and "b \<equiv> unat (bi_byte m)" and "f \<equiv> unat (bi_first m)"
    and "m1 \<equiv> byte_input_inc_selected_byte m"
  assumes "window_ok n b f"
  shows "same_but_window m m1 \<and> unat (bi_byte m1) = (if b + 1 < n then b + 1 else b) \<and>
    unat (bi_first m1) = (if b + 1 < n \<and> 8 < n \<and> 6 < b + 1 - f \<and> f < n - 8 then f + 1 else f)"
proof (cases "b + 1 < n")
  case True
  have n: "n \<le> 255" unfolding n_def by (rule unat_le_u8)
  have b1: "unat (bi_byte m + 1) = b + 1"
    using True n unfolding b_def by (intro inc_unat) simp
  have f1: "f < n \<Longrightarrow> unat (bi_first m + 1) = f + 1"
    using n unfolding f_def by (intro inc_unat) simp
  have c1: "uint (bi_byte m) < uint (bi_count m) - 1"
    using True unfolding uint_nat n_def b_def by arith
  have c2: "uint (bi_byte m + 1) - uint (bi_first m) > int max_drawable_bytes - 2 \<longleftrightarrow> 6 < b + 1 - f"
    using assms(5) unfolding uint_nat b1 max_drawable_bytes_def f_def window_ok_def by arith
  have c3: "uint (bi_first m) < uint (bi_count m) - int max_drawable_bytes \<longleftrightarrow> f < n - 8"
    unfolding uint_nat max_drawable_bytes_def f_def n_def by arith
  have "m1 = (if 8 < n \<and> 6 < b + 1 - f \<and> f < n - 8
              then m\<lparr>bi_byte := bi_byte m + 1, bi_first := bi_first m + 1\<rparr>
              else m\<lparr>bi_byte := bi_byte m + 1, bi_first := bi_first m\<rparr>)"
    using c1 c2 c3 unfolding m1_def byte_input_inc_selected_byte_def Let_def
    by (simp add: max_drawable_bytes_def n_def [symmetric])
  then show ?thesis
    using True b1 f1 by (auto simp: f_def)
next
  case False
  then have "\<not> uint (bi_byte m) < uint (bi_count m) - 1" unfolding uint_nat n_def b_def by arith
  then have "m1 = m" by (simp add: m1_def byte_input_inc_selected_byte_def)
  with False show ?thesis by (simp add: b_def f_def)
qed

lemma dec_parts:
  fixes m
  defines "b \<equiv> unat (bi_byte m)" and "f \<equiv> unat (bi_first m)"
    and "m1 \<equiv> byte_input_dec_selected_byte m"
  assumes "f \<le> b"
  shows "same_but_window m m1 \<and> unat (bi_byte m1) = b - 1 \<and>
    unat (bi_first m1) = (if 0 < b \<and> b - 1 \<le> f then f - 1 else f)"
proof (cases "bi_byte m = 0")
  case False
  have b1: "unat (bi_byte m - 1) = b - 1" using False unfolding b_def by (rule dec_unat)
  have b0: "0 < b" using False by (simp add: b_def unat_gt_0)
  have f0: "bi_first m > 0 \<longleftrightarrow> 0 < f" by (simp add: f_def word_gt_0 unat_gt_0)
  have f1: "0 < f \<Longrightarrow> unat (bi_first m - 1) = f - 1"
    unfolding f_def by (rule dec_unat) auto
  have c: "uint (bi_byte m - 1) - uint (bi_first m) < 1 \<longleftrightarrow> b - 1 \<le> f"
    using b0 unfolding uint_nat b1 f_def by arith
  have "m1 = (if b - 1 \<le> f \<and> 0 < f
              then m\<lparr>bi_byte := bi_byte m - 1, bi_first := bi_first m - 1\<rparr>
              else m\<lparr>bi_byte := bi_byte m - 1, bi_first := bi_first m\<rparr>)"
    using c f0 False unfolding m1_def byte_input_dec_selected_byte_def Let_def
    by (simp add: word_gt_0)
  then show ?thesis
    using b0 b1 f1 by (auto simp: f_def)
next
  case True
  then have "m1 = m" by (simp add: m1_def byte_input_dec_selected_byte_def)
  with True show ?thesis by (simp add: b_def f_def)
qed

lemma window_inc:
  "window_ok n b f \<Longrightarrow>
     window_ok n (if b + 1 < n then b + 1 else b)
       (if b + 1 < n \<and> 8 < n \<and> 6 < b + 1 - f \<and> f < n - 8 then f + 1 else f)"
  unfolding window_ok_def by (auto simp: min_def split: if_splits)

lemma window_dec:
  "window_ok n b f \<Longrightarrow> window_ok n (b - 1) (if 0 < b \<and> b - 1 \<le> f then f - 1 else f)"
  unfolding window_ok_def by (auto simp: min_def split: if_splits)

lemma bi_wf_moved:
  assumes "bi_wf m" and "same_but_window m m1"
    and "window_ok (unat (bi_count m)) (unat (bi_byte m1)) (unat (bi_first m1))"
  shows "bi_wf m1"
  using assms(1,3) same_but_window_parts [OF assms(2)] unfolding bi_wf_def by metis

lemma bi_wf_window: "bi_wf m \<Longrightarrow> window_ok (unat (bi_count m)) (unat (bi_byte m)) (unat (bi_first m))"
  by (simp add: bi_wf_def)

lemma inc_wf:
  assumes "bi_wf m"
  shows "bi_wf (byte_input_inc_selected_byte m)"
proof (rule bi_wf_moved [OF assms])
  note parts = inc_parts [OF bi_wf_window [OF assms]]
  from parts show "same_but_window m (byte_input_inc_selected_byte m)" by blast
  show "window_ok (unat (bi_count m)) (unat (bi_byte (byte_input_inc_selected_byte m)))
          (unat (bi_first (byte_input_inc_selected_byte m)))"
    using window_inc [OF bi_wf_window [OF assms]] parts by presburger
qed

lemma dec_wf:
  assumes "bi_wf m"
  shows "bi_wf (byte_input_dec_selected_byte m)"
proof (rule bi_wf_moved [OF assms])
  have "unat (bi_first m) \<le> unat (bi_byte m)"
    using bi_wf_window [OF assms] by (simp add: window_ok_def)
  note parts = dec_parts [OF this]
  from parts show "same_but_window m (byte_input_dec_selected_byte m)" by blast
  show "window_ok (unat (bi_count m)) (unat (bi_byte (byte_input_dec_selected_byte m)))
          (unat (bi_first (byte_input_dec_selected_byte m)))"
    using window_dec [OF bi_wf_window [OF assms]] parts by presburger
qed

section \<open>The abstract editor\<close>

text \<open>
  The specification: a row of hexadecimal digits and a position in it. Typing replaces the digit
  and moves on, to the first digit of the last byte from the very last digit; erasing clears the
  byte and moves to the byte before.
\<close>

datatype edit_op = Type_Nibble nat | Erase_Byte | Byte_Left | Byte_Right | To_High | No_Edit

fun edit_step :: "edit_op \<Rightarrow> nat list \<times> nat \<Rightarrow> nat list \<times> nat" where
  "edit_step (Type_Nibble d) (ns, p) =
     (ns[p := d], if p + 1 < length ns then p + 1 else length ns - 2)"
| "edit_step Erase_Byte (ns, p) = (ns[2 * (p div 2) := 0, 2 * (p div 2) + 1 := 0], 2 * (p div 2 - 1))"
| "edit_step Byte_Left (ns, p) = (ns, if 2 \<le> p then p - 2 else p)"
| "edit_step Byte_Right (ns, p) = (ns, if p + 2 < length ns then p + 2 else p)"
| "edit_step To_High (ns, p) = (ns, 2 * (p div 2))"
| "edit_step No_Edit e = e"

definition high_nibble :: "u8 \<Rightarrow> nat" where "high_nibble b = unat (drop_bit 4 b)"
definition low_nibble :: "u8 \<Rightarrow> nat" where "low_nibble b = unat (b AND 0x0F)"

definition nibbles_of :: "u8 list \<Rightarrow> nat list" where
  "nibbles_of bs = concat (map (\<lambda>b. [high_nibble b, low_nibble b]) bs)"

definition editor_of :: "byte_input \<Rightarrow> nat list \<times> nat" where
  "editor_of m =
     (nibbles_of (the (bi_bytes m)), 2 * unat (bi_byte m) + (if bi_high m then 0 else 1))"

text \<open>What an event means, by the key under the cursor.\<close>

definition meaning :: "input_event \<Rightarrow> byte_input \<Rightarrow> edit_op" where
  "meaning e m =
     (if ev_type e \<noteq> InputTypeShort \<and> ev_type e \<noteq> InputTypeRepeat then No_Edit
      else if bi_row m = - 1 then
        (case ev_key e of
           InputKeyLeft \<Rightarrow> Byte_Left | InputKeyRight \<Rightarrow> Byte_Right
         | InputKeyDown \<Rightarrow> To_High | InputKeyOk \<Rightarrow> To_High | _ \<Rightarrow> No_Edit)
      else if ev_key e = InputKeyOk then
        (if unat (bi_column m) < 8 then Type_Nibble (8 * nat (bi_row m) + unat (bi_column m))
         else if bi_row m = 0 then Erase_Byte else No_Edit)
      else No_Edit)"

subsection \<open>Bytes and their digits\<close>

lemma length_nibbles [simp]: "length (nibbles_of bs) = 2 * length bs"
  by (induction bs) (simp_all add: nibbles_of_def)

lemma nibbles_update:
  "i < length bs \<Longrightarrow>
     nibbles_of (bs[i := b]) = (nibbles_of bs)[2 * i := high_nibble b, 2 * i + 1 := low_nibble b]"
proof (induction bs arbitrary: i)
  case (Cons a bs)
  then show ?case by (cases i) (simp_all add: nibbles_of_def)
qed simp

lemma nibbles_nth:
  "i < length bs \<Longrightarrow>
     nibbles_of bs ! (2 * i) = high_nibble (bs ! i) \<and> nibbles_of bs ! (2 * i + 1) = low_nibble (bs ! i)"
proof (induction bs arbitrary: i)
  case (Cons a bs)
  then show ?case by (cases i) (simp_all add: nibbles_of_def)
qed simp

lemma nibbles_update_high:
  assumes "i < length bs" and "low_nibble b = low_nibble (bs ! i)"
  shows "nibbles_of (bs[i := b]) = (nibbles_of bs)[2 * i := high_nibble b]"
  using assms nibbles_nth [OF assms(1)]
  by (simp add: nibbles_update) (metis list_update_id list_update_swap n_not_Suc_n)

lemma nibbles_update_low:
  assumes "i < length bs" and "high_nibble b = high_nibble (bs ! i)"
  shows "nibbles_of (bs[i := b]) = (nibbles_of bs)[2 * i + 1 := low_nibble b]"
  using assms nibbles_nth [OF assms(1)]
  by (simp add: nibbles_update) (metis list_update_id)

lemma mask_0F: "(0x0F :: u8) = mask 4"
  by (simp add: mask_eq_exp_minus_1)

lemma set_high_digits:
  assumes "v < (16 :: u8)"
  shows "high_nibble ((b AND 0x0F) OR push_bit 4 v) = unat v \<and>
         low_nibble ((b AND 0x0F) OR push_bit 4 v) = low_nibble b"
proof -
  have v: "take_bit 4 v = v"
    using assms less_mask_eq [of v 4] by (simp add: take_bit_eq_mask)
  have "drop_bit 4 ((b AND 0x0F) OR push_bit 4 v) = v"
    by (subst v [symmetric], rule bit_word_eqI) (auto simp: mask_0F bit_simps)
  moreover have "((b AND 0x0F) OR push_bit 4 v) AND 0x0F = b AND 0x0F"
    by (rule bit_word_eqI) (auto simp: mask_0F bit_simps)
  ultimately show ?thesis by (simp add: high_nibble_def low_nibble_def)
qed

lemma set_low_digits:
  assumes "v < (16 :: u8)"
  shows "low_nibble ((b AND 0xF0) OR v) = unat v \<and> high_nibble ((b AND 0xF0) OR v) = high_nibble b"
proof -
  have v: "take_bit 4 v = v"
    using assms less_mask_eq [of v 4] by (simp add: take_bit_eq_mask)
  have F0: "(0xF0 :: u8) = NOT (mask 4)" by (simp add: mask_eq_exp_minus_1)
  have "((b AND 0xF0) OR v) AND 0x0F = v"
    by (subst (1 2) v [symmetric], rule bit_word_eqI) (auto simp: mask_0F F0 bit_simps)
  moreover have "drop_bit 4 ((b AND 0xF0) OR v) = drop_bit 4 b"
    by (subst v [symmetric], rule bit_word_eqI) (auto simp: F0 bit_simps dest: bit_imp_le_length)
  ultimately show ?thesis by (simp add: high_nibble_def low_nibble_def)
qed

subsection \<open>The buttons refine the editor\<close>

lemma key_at:
  assumes "bi_row m \<in> {0, 1}" and "unat (bi_column m) < 9"
  shows "\<exists>keys key. byte_input_get_row (word_of_int (bi_row m)) = Some keys \<and>
    arr_get keys (unat (bi_column m)) = Inr key \<and>
    (if unat (bi_column m) = 8
     then key_value key = (if bi_row m = 0 then backspace_symbol else enter_symbol)
     else key_value key \<noteq> backspace_symbol \<and> key_value key \<noteq> enter_symbol \<and>
          unat (char_nibble (key_value key)) = 8 * nat (bi_row m) + unat (bi_column m))"
proof -
  have "unat (bi_column m) \<in> {0, 1, 2, 3, 4, 5, 6, 7, 8}" using assms(2) by auto
  with assms(1) show ?thesis
    by (auto simp: byte_input_get_row_def keyboard_keys_row_1_def keyboard_keys_row_2_def byte_key_def
        backspace_symbol_def enter_symbol_def char_nibble_def of_char_def)
qed

definition same_calls :: "byte_input \<Rightarrow> byte_input \<Rightarrow> bool" where
  "same_calls m m1 \<longleftrightarrow>
     bi_input_callback m1 = bi_input_callback m \<and> bi_changed_callback m1 = bi_changed_callback m \<and>
     bi_context m1 = bi_context m \<and> bi_count m1 = bi_count m"

lemma editor_inc:
  assumes "bi_wf m"
  shows "editor_of ((byte_input_inc_selected_byte m)\<lparr>bi_high := h\<rparr>) =
    (nibbles_of (the (bi_bytes m)),
     2 * (if unat (bi_byte m) + 1 < unat (bi_count m) then unat (bi_byte m) + 1 else unat (bi_byte m)) +
     (if h then 0 else 1))"
  using inc_parts [OF bi_wf_window [OF assms]]
    same_but_window_parts [of m "byte_input_inc_selected_byte m"]
  by (simp add: editor_of_def)

lemma editor_dec:
  assumes "bi_wf m"
  shows "editor_of (byte_input_dec_selected_byte m) =
    (nibbles_of (the (bi_bytes m)), 2 * (unat (bi_byte m) - 1) + (if bi_high m then 0 else 1))"
proof -
  have "unat (bi_first m) \<le> unat (bi_byte m)"
    using bi_wf_window [OF assms] by (simp add: window_ok_def)
  from dec_parts [OF this] show ?thesis
    using same_but_window_parts [of m "byte_input_dec_selected_byte m"] by (simp add: editor_of_def)
qed

lemma bi_wf_bytes: "bi_wf m \<Longrightarrow> \<exists>bs. bi_bytes m = Some bs \<and> length bs = unat (bi_count m) \<and> unat (bi_byte m) < length bs"
  by (auto simp: bi_wf_def window_ok_def)

lemma bi_wf_update [simp]:
  "bi_wf (m\<lparr>bi_high := h\<rparr>) = bi_wf m"
  by (simp add: bi_wf_def)

lemma bi_wf_set_byte:
  "bi_wf m \<Longrightarrow> bi_bytes m = Some bs \<Longrightarrow> bi_wf (m\<lparr>bi_bytes := Some (bs[i := b])\<rparr>)"
  by (simp add: bi_wf_def)

lemma ok_digit:
  assumes "bi_wf m" and "bi_row m \<noteq> - 1" and "unat (bi_column m) < 8"
  shows "\<exists>cs m1. byte_input_handle_ok m = Inr (cs, m1) \<and> bi_wf m1 \<and>
    editor_of m1 = edit_step (Type_Nibble (8 * nat (bi_row m) + unat (bi_column m))) (editor_of m)"
proof -
  have rc: "bi_row m \<in> {0, 1}" "unat (bi_column m) < 9" using assms by (auto simp: bi_wf_def)
  from key_at [OF this] assms(3) obtain keys key where k:
    "byte_input_get_row (word_of_int (bi_row m)) = Some keys" "arr_get keys (unat (bi_column m)) = Inr key"
    "key_value key \<noteq> backspace_symbol" "key_value key \<noteq> enter_symbol"
    "unat (char_nibble (key_value key)) = 8 * nat (bi_row m) + unat (bi_column m)" by auto
  obtain bs where bs: "bi_bytes m = Some bs" "length bs = unat (bi_count m)" "unat (bi_byte m) < length bs"
    using bi_wf_bytes [OF assms(1)] by blast
  define v where "v = char_nibble (key_value key)"
  define i where "i = unat (bi_byte m)"
  define b where "b = (if bi_high m then (bs ! i AND 0x0F) OR push_bit 4 v else (bs ! i AND 0xF0) OR v)"
  define m1 where "m1 = m\<lparr>bi_bytes := Some (bs[i := b])\<rparr>"
  have set: "byte_input_set_nibble (bi_byte m) (key_value key) (bi_high m) m = Inr m1"
    using bs by (simp add: byte_input_set_nibble_def byte_at_def set_byte_def m1_def b_def v_def i_def)
  have v16: "v < 16" and vd: "unat v = 8 * nat (bi_row m) + unat (bi_column m)"
    using k(5) rc(1) assms(3) by (auto simp: v_def word_less_nat_alt)
  have wf1: "bi_wf m1" using assms(1) bs(1) unfolding m1_def by (rule bi_wf_set_byte)
  have kb: "byte_input_keyboard_selected m" using rc by (auto simp: byte_input_keyboard_selected_def)
  show ?thesis
  proof (cases "bi_high m")
    case True
    have "nibbles_of (bs[i := b]) = (nibbles_of bs)[2 * i := unat v]"
      using set_high_digits [OF v16, of "bs ! i"] bs True
      by (subst nibbles_update_high) (simp_all add: b_def i_def)
    moreover have "byte_input_handle_ok m =
        Inr (byte_input_call_changed_callback (m1\<lparr>bi_high := False\<rparr>), m1\<lparr>bi_high := False\<rparr>)"
      using kb k set True by (simp add: byte_input_handle_ok_def m1_def Let_def)
    ultimately show ?thesis
      using wf1 bs True vd by (simp add: editor_of_def m1_def i_def)
  next
    case False
    have "nibbles_of (bs[i := b]) = (nibbles_of bs)[2 * i + 1 := unat v]"
      using set_low_digits [OF v16, of "bs ! i"] bs False
      by (subst nibbles_update_low) (simp_all add: b_def i_def)
    moreover have "byte_input_handle_ok m =
        Inr (byte_input_call_changed_callback ((byte_input_inc_selected_byte m1)\<lparr>bi_high := True\<rparr>),
             (byte_input_inc_selected_byte m1)\<lparr>bi_high := True\<rparr>)"
      using kb k set False by (simp add: byte_input_handle_ok_def m1_def Let_def)
    moreover have "editor_of ((byte_input_inc_selected_byte m1)\<lparr>bi_high := True\<rparr>) =
        (nibbles_of (bs[i := b]), 2 * (if i + 1 < length bs then i + 1 else i))"
      using editor_inc [OF wf1, of True] bs by (simp add: m1_def i_def)
    ultimately show ?thesis
      using inc_wf [OF wf1] bs False vd by (auto simp: editor_of_def i_def)
  qed
qed

lemma ok_backspace:
  assumes "bi_wf m" and "bi_row m = 0" and "unat (bi_column m) = 8"
  shows "\<exists>cs m1. byte_input_handle_ok m = Inr (cs, m1) \<and> bi_wf m1 \<and>
    editor_of m1 = edit_step Erase_Byte (editor_of m)"
proof -
  from key_at [of m] assms obtain keys key where k:
    "byte_input_get_row (word_of_int (bi_row m)) = Some keys" "arr_get keys (unat (bi_column m)) = Inr key"
    "key_value key = backspace_symbol" by auto
  obtain bs where bs: "bi_bytes m = Some bs" "length bs = unat (bi_count m)" "unat (bi_byte m) < length bs"
    using bi_wf_bytes [OF assms(1)] by blast
  define i where "i = unat (bi_byte m)"
  define m1 where "m1 = m\<lparr>bi_bytes := Some (bs[i := 0])\<rparr>"
  have set: "set_byte (bi_byte m) 0 m = Inr m1" using bs by (simp add: set_byte_def m1_def i_def)
  have wf1: "bi_wf (m1\<lparr>bi_high := True\<rparr>)"
    using bi_wf_set_byte [OF assms(1) bs(1)] by (simp add: m1_def)
  have "byte_input_keyboard_selected m" using assms by (simp add: byte_input_keyboard_selected_def)
  moreover have "enter_symbol \<noteq> backspace_symbol" by (simp add: enter_symbol_def backspace_symbol_def)
  ultimately have "byte_input_handle_ok m =
      Inr (byte_input_call_changed_callback (byte_input_dec_selected_byte (m1\<lparr>bi_high := True\<rparr>)),
           byte_input_dec_selected_byte (m1\<lparr>bi_high := True\<rparr>))"
    using k set by (simp add: byte_input_handle_ok_def Let_def)
  moreover have "nibbles_of (bs[i := 0]) = (nibbles_of bs)[2 * i := 0, 2 * i + 1 := 0]"
    using bs by (simp add: nibbles_update i_def high_nibble_def low_nibble_def)
  ultimately show ?thesis
    using editor_dec [OF wf1] dec_wf [OF wf1] bs by (simp add: editor_of_def m1_def i_def)
qed

lemma ok_enter:
  assumes "bi_wf m" and "bi_row m = 1" and "unat (bi_column m) = 8"
  shows "byte_input_handle_ok m = Inr (byte_input_call_input_callback m, m)"
proof -
  from key_at [of m] assms obtain keys key where
    "byte_input_get_row (word_of_int (bi_row m)) = Some keys" "arr_get keys (unat (bi_column m)) = Inr key"
    "key_value key = enter_symbol" by auto
  then show ?thesis
    using assms by (simp add: byte_input_handle_ok_def byte_input_keyboard_selected_def Let_def)
qed

lemma editor_cong [simp]:
  "editor_of (m\<lparr>bi_row := r\<rparr>) = editor_of m" "editor_of (m\<lparr>bi_column := c\<rparr>) = editor_of m"
  by (simp_all add: editor_of_def)

lemma from_input_row:
  assumes "bi_wf m" and "bi_row m = - 1"
  shows "bi_wf (byte_input_transition_from_keyboard m) \<and>
    editor_of (byte_input_transition_from_keyboard m) = edit_step To_High (editor_of m)"
  using assms by (simp add: byte_input_transition_from_keyboard_def bi_wf_def editor_of_def)

lemma row_column_wf:
  assumes "bi_wf m"
  shows "r \<in> {- 1, 0, 1} \<Longrightarrow> bi_wf (m\<lparr>bi_row := r\<rparr>)" and "unat c < 9 \<Longrightarrow> bi_wf (m\<lparr>bi_column := c\<rparr>)"
  using assms by (simp_all add: bi_wf_def)

lemma up_refines:
  assumes "bi_wf m"
  shows "bi_wf (byte_input_handle_up m) \<and> editor_of (byte_input_handle_up m) = editor_of m"
  using assms row_column_wf(1) [OF assms, of "bi_row m - 1"]
  by (auto simp: byte_input_handle_up_def bi_wf_def)

lemma down_refines:
  assumes "bi_wf m"
  shows "bi_wf (byte_input_handle_down m) \<and>
    editor_of (byte_input_handle_down m) =
      edit_step (if bi_row m = - 1 then To_High else No_Edit) (editor_of m)"
proof (cases "bi_row m = - 1")
  case True
  then show ?thesis
    using from_input_row [OF assms]
    by (simp add: byte_input_handle_down_def byte_input_keyboard_selected_def)
next
  case False
  with assms have "bi_row m \<in> {0, 1}" by (simp add: bi_wf_def)
  with False row_column_wf(1) [OF assms, of "bi_row m + 1"] assms show ?thesis
    by (auto simp: byte_input_handle_down_def byte_input_keyboard_selected_def keyboard_row_count_def)
qed

lemma left_refines:
  assumes "bi_wf m"
  shows "bi_wf (byte_input_handle_left m) \<and>
    editor_of (byte_input_handle_left m) =
      edit_step (if bi_row m = - 1 then Byte_Left else No_Edit) (editor_of m)"
proof (cases "bi_row m = - 1")
  case True
  have "0 < unat (bi_byte m) \<longleftrightarrow> 2 \<le> 2 * unat (bi_byte m) + (if bi_high m then 0 else 1)" by auto
  with True show ?thesis
    using dec_wf [OF assms] editor_dec [OF assms]
    by (auto simp: byte_input_handle_left_def byte_input_keyboard_selected_def editor_of_def)
next
  case False
  with assms have "bi_row m \<in> {0, 1}" by (simp add: bi_wf_def)
  moreover have "unat (bi_column m - 1) < 9" if "bi_column m > 0"
    using that assms dec_unat [of "bi_column m"] by (auto simp: bi_wf_def word_gt_0)
  ultimately show ?thesis
    using False row_column_wf(2) [OF assms]
    by (auto simp: byte_input_handle_left_def byte_input_keyboard_selected_def row_size_9)
qed

lemma right_refines:
  assumes "bi_wf m"
  shows "bi_wf (byte_input_handle_right m) \<and>
    editor_of (byte_input_handle_right m) =
      edit_step (if bi_row m = - 1 then Byte_Right else No_Edit) (editor_of m)"
proof (cases "bi_row m = - 1")
  case True
  obtain bs where "bi_bytes m = Some bs" "length bs = unat (bi_count m)" "unat (bi_byte m) < length bs"
    using bi_wf_bytes [OF assms] by blast
  with True show ?thesis
    using inc_wf [OF assms] editor_inc [OF assms, of "bi_high m"]
      same_but_window_parts [of m "byte_input_inc_selected_byte m"] inc_parts [OF bi_wf_window [OF assms]]
    by (auto simp: byte_input_handle_right_def byte_input_keyboard_selected_def editor_of_def)
next
  case False
  with assms have "bi_row m \<in> {0, 1}" by (simp add: bi_wf_def)
  moreover have "unat (bi_column m + 1) < 9" if "uint (bi_column m) < 8"
  proof -
    from that have "unat (bi_column m) < 8" unfolding uint_nat by arith
    then show ?thesis by (simp add: inc_unat)
  qed
  ultimately show ?thesis
    using False row_column_wf(2) [OF assms]
    by (auto simp: byte_input_handle_right_def byte_input_keyboard_selected_def row_size_9)
qed

lemma ok_refines:
  assumes "bi_wf m" and "ev_type e = InputTypeShort \<or> ev_type e = InputTypeRepeat" and "ev_key e = InputKeyOk"
  shows "\<exists>cs m1. byte_input_handle_ok m = Inr (cs, m1) \<and> bi_wf m1 \<and>
    editor_of m1 = edit_step (meaning e m) (editor_of m)"
proof (cases "bi_row m = - 1")
  case True
  with assms show ?thesis
    using from_input_row [OF assms(1)]
    by (auto simp: byte_input_handle_ok_def byte_input_keyboard_selected_def meaning_def)
next
  case False
  then have rc: "bi_row m = 0 \<or> bi_row m = 1" "unat (bi_column m) < 8 \<or> unat (bi_column m) = 8"
    using assms(1) by (auto simp: bi_wf_def)
  with False assms ok_digit [OF assms(1) False] ok_backspace [OF assms(1)] ok_enter [OF assms(1)]
  show ?thesis by (auto simp: meaning_def)
qed

text \<open>
  C16. The byte keyboard refines the row of digits. On any state reached with a buffer of the
  announced size, every event is handled without a fault (no access outside the buffer or the key
  tables, no null pointer), has on the digits and the position exactly the effect the key under
  the cursor stands for, and leaves a state in which the selected byte exists and is among the
  bytes shown.
\<close>

theorem byte_input_refines_editor:
  assumes "bi_wf m"
  shows "\<exists>r cs m1. byte_input_view_input_callback e m = Inr (r, cs, m1) \<and> bi_wf m1 \<and>
           editor_of m1 = edit_step (meaning e m) (editor_of m)"
proof (cases "ev_type e = InputTypeShort \<or> ev_type e = InputTypeRepeat")
  case True
  show ?thesis
  proof (cases "ev_key e")
    case InputKeyOk
    with ok_refines [OF assms True] True show ?thesis
      by (auto simp: byte_input_view_input_callback_def)
  qed (use True assms up_refines [OF assms] down_refines [OF assms] left_refines [OF assms]
        right_refines [OF assms] in \<open>auto simp: byte_input_view_input_callback_def meaning_def\<close>)
next
  case False
  with assms show ?thesis by (auto simp: byte_input_view_input_callback_def meaning_def)
qed

definition demo_bytes :: byte_input where
  "demo_bytes = byte_input_set_result_callback (Some 1) None None (Some [0x12, 0x34]) 2 byte_input_alloc"

lemma fresh_wf:
  "length bs = unat n \<Longrightarrow> n \<noteq> 0 \<Longrightarrow> bi_wf (byte_input_set_result_callback inp chg ctx (Some bs) n m)"
  by (simp add: byte_input_set_result_callback_def byte_input_reset_model_input_data_def bi_wf_def
      window_ok_def unat_gt_0)

lemma demo_bytes_facts:
  "bi_wf demo_bytes" "editor_of demo_bytes = ([1, 2, 3, 4], 0)"
  "meaning \<lparr>ev_key = InputKeyOk, ev_type = InputTypeShort\<rparr> demo_bytes = Type_Nibble 0"
  unfolding demo_bytes_def
  by (rule fresh_wf, simp_all add: byte_input_set_result_callback_def meaning_def
      byte_input_reset_model_input_data_def editor_of_def nibbles_of_def high_nibble_def low_nibble_def)

theorem byte_input_refines_editor_witness:
  "\<exists>r cs m1. byte_input_view_input_callback \<lparr>ev_key = InputKeyOk, ev_type = InputTypeShort\<rparr> demo_bytes =
      Inr (r, cs, m1) \<and> editor_of m1 = ([0, 2, 3, 4], 1)"
  using byte_input_refines_editor [of demo_bytes "\<lparr>ev_key = InputKeyOk, ev_type = InputTypeShort\<rparr>"]
  by (auto simp: demo_bytes_facts)

section \<open>Every value can be entered\<close>

definition press :: "byte_input \<Rightarrow> input_key \<Rightarrow> (byte_input_call list \<times> byte_input) res" where
  "press m k =
     bindE (byte_input_view_input_callback \<lparr>ev_key = k, ev_type = InputTypeShort\<rparr> m) (\<lambda>(_, cs, m1).
       Inr (cs, m1))"

lemma press_simps:
  "press m InputKeyUp = Inr ([], byte_input_handle_up m)"
  "press m InputKeyDown = Inr ([], byte_input_handle_down m)"
  "press m InputKeyRight = Inr ([], byte_input_handle_right m)"
  "press m InputKeyOk = byte_input_handle_ok m"
  by (simp_all add: press_def byte_input_view_input_callback_def bindE_assoc split: prod.split)
    (cases "byte_input_handle_ok m", auto)

text \<open>Going right \<open>k\<close> times around the row of nine keys.\<close>

lemma go_right:
  assumes "bi_row m \<in> {0, 1}" and "unat (bi_column m) < 9"
  shows "\<exists>css. runE press m (replicate k InputKeyRight) =
      Inr (css, m\<lparr>bi_column := of_nat ((unat (bi_column m) + k) mod 9)\<rparr>) \<and> concat css = []"
  using assms
proof (induction k arbitrary: m)
  case 0
  then show ?case by simp
next
  case (Suc k)
  let ?c = "of_nat ((unat (bi_column m) + 1) mod 9) :: u8"
  have c: "unat ?c = (unat (bi_column m) + 1) mod 9"
    by (rule unat_of_nat_small) (simp add: less_trans [OF mod_less_divisor])
  have "byte_input_handle_right m = m\<lparr>bi_column := ?c\<rparr>"
  proof (cases "unat (bi_column m) < 8")
    case True
    then have "uint (bi_column m) < 9 - 1" unfolding uint_nat by arith
    moreover have "?c = bi_column m + 1" using True by (simp add: mod_less)
    ultimately show ?thesis
      using Suc.prems by (auto simp: byte_input_handle_right_def byte_input_keyboard_selected_def row_size_9)
  next
    case False
    then have "unat (bi_column m) = 8" using Suc.prems(2) by simp
    moreover from this have "\<not> uint (bi_column m) < 9 - 1" unfolding uint_nat by arith
    ultimately show ?thesis
      using Suc.prems by (auto simp: byte_input_handle_right_def byte_input_keyboard_selected_def row_size_9)
  qed
  then have 1: "press m InputKeyRight = Inr ([], m\<lparr>bi_column := ?c\<rparr>)" by (simp add: press_simps)
  have "((unat (bi_column m) + 1) mod 9 + k) mod 9 = (unat (bi_column m) + Suc k) mod 9"
    by (simp add: mod_add_left_eq)
  moreover from Suc.IH [of "m\<lparr>bi_column := ?c\<rparr>"] Suc.prems(1) c obtain css where
    "runE press (m\<lparr>bi_column := ?c\<rparr>) (replicate k InputKeyRight) =
       Inr (css, m\<lparr>bi_column := of_nat (((unat (bi_column m) + 1) mod 9 + k) mod 9)\<rparr>)" "concat css = []"
    by auto
  ultimately show ?case using 1 by simp
qed

lemma go_row:
  assumes "bi_row m \<in> {0, 1}" and "r \<in> {0, 1}"
  shows "\<exists>ks. runE press m ks = Inr (map (\<lambda>_. []) ks, m\<lparr>bi_row := r\<rparr>)"
proof -
  consider "r = bi_row m" | "bi_row m = 0" "r = 1" | "bi_row m = 1" "r = 0" using assms by auto
  then show ?thesis
  proof cases
    case 1
    then show ?thesis by (intro exI [of _ "[]"]) simp
  next
    case 2
    then have "byte_input_handle_down m = m\<lparr>bi_row := 1\<rparr>"
      by (simp add: byte_input_handle_down_def byte_input_keyboard_selected_def keyboard_row_count_def)
    with 2 show ?thesis by (intro exI [of _ "[InputKeyDown]"]) (simp add: press_simps)
  next
    case 3
    then have "byte_input_handle_up m = m\<lparr>bi_row := 0\<rparr>"
      by (simp add: byte_input_handle_up_def)
    with 3 show ?thesis by (intro exI [of _ "[InputKeyUp]"]) (simp add: press_simps)
  qed
qed

lemma go_key:
  assumes "bi_row m \<in> {0, 1}" and "unat (bi_column m) < 9" and "r \<in> {0, 1}" and "c < 9"
  shows "\<exists>ks css. runE press m ks = Inr (css, m\<lparr>bi_row := r, bi_column := of_nat c\<rparr>)"
proof -
  from go_row [OF assms(1,3)] obtain ks where
    1: "runE press m ks = Inr (map (\<lambda>_. []) ks, m\<lparr>bi_row := r\<rparr>)" by blast
  let ?m = "m\<lparr>bi_row := r\<rparr>"
  let ?k = "9 + c - unat (bi_column m)"
  from go_right [of ?m ?k] assms obtain css where
    2: "runE press ?m (replicate ?k InputKeyRight) =
      Inr (css, ?m\<lparr>bi_column := of_nat ((unat (bi_column ?m) + ?k) mod 9)\<rparr>)" by auto
  have "(unat (bi_column ?m) + ?k) mod 9 = c" using assms(2,4) by simp
  with 1 2 have "runE press m (ks @ replicate ?k InputKeyRight) =
      Inr (map (\<lambda>_. []) ks @ css, m\<lparr>bi_row := r, bi_column := of_nat c\<rparr>)"
    by (simp add: runE_append)
  then show ?thesis by blast
qed

definition on_keyboard :: "byte_input \<Rightarrow> bool" where
  "on_keyboard m \<longleftrightarrow> bi_wf m \<and> bi_row m \<noteq> - 1"

lemma on_keyboard_cell: "on_keyboard m \<Longrightarrow> bi_row m \<in> {0, 1} \<and> unat (bi_column m) < 9"
  by (auto simp: on_keyboard_def bi_wf_def)

definition same_frame :: "byte_input \<Rightarrow> byte_input \<Rightarrow> bool" where
  "same_frame m m1 \<longleftrightarrow> same_calls m m1 \<and> bi_row m1 = bi_row m"

lemma same_frame_trans: "same_frame m m1 \<Longrightarrow> same_frame m1 m2 \<Longrightarrow> same_frame m m2"
  by (simp add: same_frame_def same_calls_def)

lemma inc_dec_frame:
  "same_frame m (byte_input_inc_selected_byte m)" "same_frame m (byte_input_dec_selected_byte m)"
  by (simp_all add: same_frame_def same_calls_def byte_input_inc_selected_byte_def
      byte_input_dec_selected_byte_def Let_def)

lemma high_frame: "same_frame m m1 \<Longrightarrow> same_frame m (m1\<lparr>bi_high := h\<rparr>)"
  by (simp add: same_frame_def same_calls_def)

lemma set_frame:
  "set_byte i b m = Inr m1 \<Longrightarrow> same_frame m m1"
  "byte_input_set_nibble i v h m = Inr m1 \<Longrightarrow> same_frame m m1"
  by (auto simp: set_byte_def byte_input_set_nibble_def Let_def bindE_eq_Inr same_frame_def same_calls_def
      split: option.splits)

lemma ok_frame:
  assumes "byte_input_handle_ok m = Inr (cs, m1)" and "byte_input_keyboard_selected m"
  shows "same_frame m m1"
  using assms
  by (auto simp: byte_input_handle_ok_def Let_def bindE_eq_Inr split: option.splits if_splits
      dest!: set_frame intro: same_frame_trans inc_dec_frame high_frame)
    (simp_all add: same_frame_def same_calls_def)

lemma type_digit:
  assumes "on_keyboard m" and "d < 16"
  shows "\<exists>ks css m1. runE press m ks = Inr (css, m1) \<and> on_keyboard m1 \<and> same_calls m m1 \<and>
    editor_of m1 = edit_step (Type_Nibble d) (editor_of m)"
proof -
  let ?r = "int (d div 8)" and ?c = "d mod 8"
  let ?m = "m\<lparr>bi_row := ?r, bi_column := of_nat ?c\<rparr>"
  have "d div 8 = 0 \<or> d div 8 = 1" using assms(2) by arith
  then have r: "?r \<in> {0, 1}" by auto
  have c: "unat (of_nat ?c :: u8) = ?c" by (rule unat_of_nat_small) (simp add: less_trans [OF mod_less_divisor])
  have c9: "?c < 9" by (rule less_trans [OF mod_less_divisor]) simp_all
  have cell: "bi_row m \<in> {0, 1}" "unat (bi_column m) < 9" using on_keyboard_cell [OF assms(1)] by blast+
  from go_key [OF cell r c9] obtain ks css where 1: "runE press m ks = Inr (css, ?m)" by blast
  have wf: "bi_wf ?m" using assms(1) r c by (auto simp: on_keyboard_def bi_wf_def)
  from ok_digit [OF wf] r c obtain cs m1 where
    2: "byte_input_handle_ok ?m = Inr (cs, m1)" "bi_wf m1"
    "editor_of m1 = edit_step (Type_Nibble (8 * (d div 8) + d mod 8)) (editor_of ?m)"
    by (auto simp: nat_div_distrib)
  have "same_frame ?m m1"
    using ok_frame [OF 2(1)] r by (auto simp: byte_input_keyboard_selected_def)
  then have "on_keyboard m1" "same_calls m m1"
    using 2(2) r by (auto simp: on_keyboard_def same_frame_def same_calls_def)
  moreover have "runE press m (ks @ [InputKeyOk]) = Inr (css @ [cs], m1)"
    using 1 2(1) by (simp add: runE_append press_simps)
  moreover have "editor_of ?m = editor_of m" by (simp add: editor_of_def)
  with 2(3) have "editor_of m1 = edit_step (Type_Nibble d) (editor_of m)" by simp
  ultimately show ?thesis by blast
qed

lemma type_digits:
  assumes "on_keyboard m" and "list_all (\<lambda>d. d < 16) ds" and "editor_of m = (ns, p)"
    and "p + length ds \<le> length ns"
  shows "\<exists>ks css m1. runE press m ks = Inr (css, m1) \<and> on_keyboard m1 \<and> same_calls m m1 \<and>
    fst (editor_of m1) = take p ns @ ds @ drop (p + length ds) ns"
  using assms
proof (induction ds arbitrary: m ns p)
  case Nil
  then show ?case by (intro exI [of _ "[]"]) (auto simp: same_calls_def)
next
  case (Cons d ds)
  from type_digit [OF Cons.prems(1), of d] Cons.prems(2) obtain ks css m1 where
    1: "runE press m ks = Inr (css, m1)" "on_keyboard m1" "same_calls m m1"
    "editor_of m1 = edit_step (Type_Nibble d) (editor_of m)" by auto
  show ?case
  proof (cases "ds = []")
    case True
    have "fst (editor_of m1) = take p ns @ [d] @ drop (p + 1) ns"
      using 1(4) Cons.prems(3,4) True by (simp add: upd_conv_take_nth_drop)
    with 1(1-3) True show ?thesis by auto
  next
    case False
    then have "editor_of m1 = (ns[p := d], p + 1)"
      using 1(4) Cons.prems(3,4) by (cases ds) auto
    from Cons.IH [OF 1(2) _ this] Cons.prems(2,4) obtain ks1 css1 m2 where
      2: "runE press m1 ks1 = Inr (css1, m2)" "on_keyboard m2" "same_calls m1 m2"
      "fst (editor_of m2) = take (p + 1) (ns[p := d]) @ ds @ drop (p + 1 + length ds) (ns[p := d])"
      by auto
    have "take (p + 1) (ns[p := d]) = take p ns @ [d]"
      using Cons.prems(4) by (simp add: take_Suc_conv_app_nth)
    with 2(4) have "fst (editor_of m2) = take p ns @ (d # ds) @ drop (p + length (d # ds)) ns"
      by (simp add: drop_update_cancel)
    moreover have "runE press m (ks @ ks1) = Inr (css @ css1, m2)"
      using 1(1) 2(1) by (simp add: runE_append)
    ultimately show ?thesis using 1(3) 2(2,3) by (auto simp: same_calls_def)
  qed
qed

lemma nibble_bounds: "high_nibble b < 16" "low_nibble b < 16"
proof -
  have "unat (drop_bit 4 b) = unat b div 16" by (simp add: drop_bit_eq_div unat_div)
  then show "high_nibble b < 16" using unat_le_u8 [of b] by (simp add: high_nibble_def less_mult_imp_div_less)
  have "b AND 0x0F \<le> 0x0F" by (rule word_and_le1)
  then show "low_nibble b < 16" by (simp add: low_nibble_def word_le_nat_alt)
qed

lemma byte_of_nibbles:
  "high_nibble a = high_nibble b \<Longrightarrow> low_nibble a = low_nibble b \<Longrightarrow> a = b"
proof -
  assume "high_nibble a = high_nibble b" "low_nibble a = low_nibble b"
  then have h: "drop_bit 4 a = drop_bit 4 b" and l: "a AND mask 4 = b AND mask 4"
    by (auto simp: high_nibble_def low_nibble_def mask_0F intro: unsigned_word_eqI)
  have "a = push_bit 4 (drop_bit 4 a) OR (a AND mask 4)" for a :: u8
    by (rule bit_word_eqI) (auto simp: bit_simps)
  then show "a = b" using h l by metis
qed

lemma nibbles_inj: "length as = length bs \<Longrightarrow> nibbles_of as = nibbles_of bs \<Longrightarrow> as = bs"
  by (induction as bs rule: list_induct2) (auto simp: nibbles_of_def dest: byte_of_nibbles)

text \<open>
  Every value can be entered: with a new buffer of \<open>n > 0\<close> bytes, for every list of \<open>n\<close> bytes
  there is a sequence of button presses that puts these bytes into the buffer and ends with a
  call of the input callback on exactly them.
\<close>

theorem byte_input_any_value:
  assumes "length bs0 = unat n" and "length bs = unat n" and "n \<noteq> 0"
  shows "\<exists>ks css m1.
    runE press (byte_input_set_result_callback (Some cb) chg ctx (Some bs0) n m) ks =
      Inr (css @ [[Input_Callback cb ctx (Some bs) n]], m1) \<and> bi_bytes m1 = Some bs"
proof -
  let ?m = "byte_input_set_result_callback (Some cb) chg ctx (Some bs0) n m"
  have wf: "bi_wf ?m" using assms(1,3) by (rule fresh_wf)
  have on: "on_keyboard ?m" and ed: "editor_of ?m = (nibbles_of bs0, 0)"
    and calls: "bi_input_callback ?m = Some cb" "bi_context ?m = ctx" "bi_count ?m = n"
    using wf by (simp_all add: on_keyboard_def editor_of_def byte_input_set_result_callback_def
        byte_input_reset_model_input_data_def)
  have "list_all (\<lambda>d. d < 16) (nibbles_of bs)"
    by (auto simp: nibbles_of_def list_all_iff nibble_bounds)
  from type_digits [OF on this ed] assms(1,2) obtain ks css m1 where
    1: "runE press ?m ks = Inr (css, m1)" "on_keyboard m1" "same_calls ?m m1"
    "fst (editor_of m1) = nibbles_of bs" by auto
  from bi_wf_bytes [of m1] 1(2) obtain bs1 where b: "bi_bytes m1 = Some bs1" "length bs1 = unat (bi_count m1)"
    by (auto simp: on_keyboard_def)
  have bs1: "bs1 = bs"
    using 1(3,4) b calls assms(2) by (intro nibbles_inj) (simp_all add: editor_of_def same_calls_def)
  let ?m1 = "m1\<lparr>bi_row := 1, bi_column := 8\<rparr>"
  from go_key [of m1 1 8] on_keyboard_cell [OF 1(2)] obtain ks1 css1 where
    2: "runE press m1 ks1 = Inr (css1, ?m1)" by auto
  have "bi_wf ?m1" using 1(2) by (simp add: on_keyboard_def bi_wf_def)
  from ok_enter [OF this] have
    "press ?m1 InputKeyOk = Inr ([Input_Callback cb ctx (Some bs) n], ?m1)"
    using 1(3) calls b(1) bs1
    by (simp add: press_simps byte_input_call_input_callback_def same_calls_def)
  with 1(1) 2 have "runE press ?m (ks @ ks1 @ [InputKeyOk]) =
      Inr ((css @ css1) @ [[Input_Callback cb ctx (Some bs) n]], ?m1)"
    by (simp add: runE_append)
  moreover have "bi_bytes ?m1 = Some bs" using b(1) bs1 by simp
  ultimately show ?thesis by blast
qed

theorem byte_input_any_value_witness:
  "\<exists>ks css m1. runE press demo_bytes ks = Inr (css @ [[Input_Callback 1 None (Some [0xCA, 0xFE]) 2]], m1)"
  using byte_input_any_value [of "[0x12, 0x34]" 2 "[0xCA, 0xFE]" 1 None None byte_input_alloc]
  by (auto simp: demo_bytes_def)

end
