(* ===== verification/Submenu.thy ===== *)
theory Submenu
  imports Canvas Input
begin

text \<open>
  The list with a scrolling window, \<^verbatim>\<open>applications/gui/modules/submenu.c\<close>. The state is the model
  of its view. Sizes are \<^verbatim>\<open>size_t\<close>, 32 bits: \<open>item_count\<close> is the size of the array, and the
  subtractions from it wrap as in the code. Calls of item callbacks are recorded with their
  context and index.
\<close>

section \<open>State and operations\<close>

record submenu_item =
  si_label :: string
  si_index :: u32
  si_callback :: "nat option"
  si_context :: "nat option"

record submenu =
  sm_items :: "submenu_item list"
  sm_position :: u8
  sm_window :: u8

datatype submenu_call = Submenu_Callback nat "nat option" u32

definition submenu_size :: "submenu \<Rightarrow> u32" where
  "submenu_size m = of_nat (length (sm_items m))"

definition submenu_alloc :: submenu where
  "submenu_alloc = \<lparr>sm_items = [], sm_position = 0, sm_window = 0\<rparr>"

definition submenu_add_item ::
    "bool \<Rightarrow> string option \<Rightarrow> u32 \<Rightarrow> nat option \<Rightarrow> nat option \<Rightarrow> submenu \<Rightarrow> submenu res" where
  "submenu_add_item dbg label index cb ctx m =
     furi_assert dbg (label \<noteq> None)
       (case label of
          None \<Rightarrow> Inl Null_Pointer
        | Some l \<Rightarrow> Inr (m\<lparr>sm_items := sm_items m @
            [\<lparr>si_label = l, si_index = index, si_callback = cb, si_context = ctx\<rparr>]\<rparr>))"

definition submenu_clean :: "submenu \<Rightarrow> submenu" where
  "submenu_clean m = m\<lparr>sm_items := [], sm_position := 0, sm_window := 0\<rparr>"

text \<open>The loop over the items: how many come before the first with the index.\<close>

fun index_position :: "u32 \<Rightarrow> submenu_item list \<Rightarrow> u32" where
  "index_position index [] = 0"
| "index_position index (it # its) = (if index = si_index it then 0 else index_position index its + 1)"

definition submenu_set_selected_item :: "u32 \<Rightarrow> submenu \<Rightarrow> submenu" where
  "submenu_set_selected_item index m =
     (let position0 = index_position index (sm_items m);
          position = (if position0 \<ge> submenu_size m then 0 else position0);
          window0 = ucast position :: u8;
          window1 = (if window0 > 0 then window0 - 1 else window0);
          window =
            (if submenu_size m \<le> 4 then 0
             else if ucast window1 \<ge> submenu_size m - 4 then ucast (submenu_size m - 4) else window1)
      in m\<lparr>sm_position := ucast position, sm_window := window\<rparr>)"

definition submenu_process_up :: "submenu \<Rightarrow> submenu" where
  "submenu_process_up m =
     (if sm_position m > 0 then
        (let m1 = m\<lparr>sm_position := sm_position m - 1\<rparr> in
         if uint (sm_position m1) - uint (sm_window m1) < 1 \<and> sm_window m1 > 0
         then m1\<lparr>sm_window := sm_window m1 - 1\<rparr> else m1)
      else
        (let m1 = m\<lparr>sm_position := ucast (submenu_size m - 1)\<rparr> in
         if sm_position m1 > 3 then m1\<lparr>sm_window := sm_position m1 - 3\<rparr> else m1))"

definition submenu_process_down :: "submenu \<Rightarrow> submenu" where
  "submenu_process_down m =
     (if ucast (sm_position m) < submenu_size m - 1 then
        (let m1 = m\<lparr>sm_position := sm_position m + 1\<rparr> in
         if uint (sm_position m1) - uint (sm_window m1) > 2 \<and> ucast (sm_window m1) < submenu_size m1 - 4
         then m1\<lparr>sm_window := sm_window m1 + 1\<rparr> else m1)
      else m\<lparr>sm_position := 0, sm_window := 0\<rparr>)"

definition submenu_process_ok :: "submenu \<Rightarrow> submenu_call list" where
  "submenu_process_ok m =
     (if ucast (sm_position m) < submenu_size m then
        (let it = sm_items m ! unat (sm_position m) in
         case si_callback it of
           None \<Rightarrow> []
         | Some cb \<Rightarrow> [Submenu_Callback cb (si_context it) (si_index it)])
      else [])"

text \<open>The result starts with whether the event was consumed.\<close>

definition submenu_view_input_callback ::
    "input_event \<Rightarrow> submenu \<Rightarrow> bool \<times> submenu_call list \<times> submenu" where
  "submenu_view_input_callback e m =
     (if ev_type e = InputTypeShort then
        (case ev_key e of
           InputKeyUp \<Rightarrow> (True, [], submenu_process_up m)
         | InputKeyDown \<Rightarrow> (True, [], submenu_process_down m)
         | InputKeyOk \<Rightarrow> (True, submenu_process_ok m, m)
         | _ \<Rightarrow> (False, [], m))
      else (False, [], m))"

section \<open>Drawing\<close>

text \<open>Item number \<open>i\<close>: the 8-bit counter of the loop wraps, and so does the place on the screen.\<close>

definition submenu_draw_item :: "submenu \<Rightarrow> nat \<times> submenu_item \<Rightarrow> draw list" where
  "submenu_draw_item m = (\<lambda>(i, it).
     let position = of_nat i :: u8; item_position = position - sm_window m; y = item_position * 16 in
     if item_position < 4 then
       (if position = sm_position m then
          [canvas_set_color ColorBlack, canvas_draw_box 0 (y + 1) 123 (16 - 2),
           canvas_set_color ColorWhite, canvas_draw_dot 0 (y + 1), canvas_draw_dot 0 (y + 16 - 2),
           canvas_draw_dot (123 - 1) (y + 1), canvas_draw_dot (123 - 1) (y + 16 - 2)]
        else [canvas_set_color ColorBlack]) @
       [canvas_draw_str 6 (y + 16 - 4) (si_label it)]
     else [])"

text \<open>\<open>None\<close> is a scrollbar that is never finished, see \<open>dot_rows\<close>.\<close>

definition submenu_view_draw_callback ::
    "submenu \<Rightarrow> canvas \<Rightarrow> (u8g2_call list \<times> canvas) res option" where
  "submenu_view_draw_callback m c =
     (case draws ([canvas_clear, canvas_set_font FontSecondary] @
                  concat (map (submenu_draw_item m) (enumerate 0 (sm_items m)))) c of
        Inl e \<Rightarrow> Some (Inl e)
      | Inr (cs, c1) \<Rightarrow>
          map_option (\<lambda>r. bindE r (\<lambda>(cs1, c2). Inr (cs @ cs1, c2)))
            (elements_scrollbar (sm_position m) (of_nat (length (sm_items m))) c1))"

section \<open>The invariant\<close>

text \<open>The selected item exists and is among the at most four in the window.\<close>

definition window_fits :: "nat \<Rightarrow> nat \<Rightarrow> nat \<Rightarrow> bool" where
  "window_fits n p w \<longleftrightarrow> p < n \<and> w \<le> p \<and> p < w + 4 \<and> (w = 0 \<or> w + 4 \<le> n)"

definition submenu_wf :: "submenu \<Rightarrow> bool" where
  "submenu_wf m \<longleftrightarrow>
     length (sm_items m) \<le> 256 \<and>
     (if sm_items m = [] then sm_position m = 0 \<and> sm_window m = 0
      else window_fits (length (sm_items m)) (unat (sm_position m)) (unat (sm_window m)))"

text \<open>The selection as a ring: what a key does to the number of the selected item.\<close>

definition ring_step :: "nat \<Rightarrow> input_event \<Rightarrow> nat \<Rightarrow> nat" where
  "ring_step n e p =
     (if ev_type e = InputTypeShort \<and> ev_key e = InputKeyUp then (p + n - 1) mod n
      else if ev_type e = InputTypeShort \<and> ev_key e = InputKeyDown then (p + 1) mod n
      else p)"

lemma submenu_size_nat:
  "length (sm_items m) \<le> 256 \<Longrightarrow> unat (submenu_size m) = length (sm_items m)"
  by (simp add: submenu_size_def unat_of_nat_small)

lemma up_parts:
  fixes m
  defines "n \<equiv> length (sm_items m)" and "p \<equiv> unat (sm_position m)" and "w \<equiv> unat (sm_window m)"
    and "m1 \<equiv> submenu_process_up m"
  assumes fits: "window_fits n p w" and n: "n \<le> 256"
  shows "sm_items m1 = sm_items m \<and> unat (sm_position m1) = (if p > 0 then p - 1 else n - 1) \<and>
    unat (sm_window m1) =
      (if p > 0 then (if p - 1 \<le> w \<and> w > 0 then w - 1 else w) else n - 4)"
proof (cases "sm_position m = 0")
  case True
  have bounds: "0 < n" "w = 0" using fits True by (auto simp: window_fits_def p_def)
  have s: "unat (submenu_size m - 1) = n - 1"
    using bounds submenu_size_nat [of m] n unfolding n_def
    by (subst unat_sub_small) (auto simp: Suc_le_eq)
  have l: "unat (ucast (submenu_size m - 1) :: u8) = n - 1"
    using s n bounds by (simp add: unat_u32_u8)
  have c: "(3 :: u8) < ucast (submenu_size m - 1) \<longleftrightarrow> 3 < n - 1"
    unfolding word_less_nat_alt l by simp
  have l3: "3 < n - 1 \<Longrightarrow> unat (ucast (submenu_size m - 1) - 3 :: u8) = n - 4"
    using l by (subst unat_sub_small) auto
  have "m1 = (if 3 < n - 1
              then m\<lparr>sm_position := ucast (submenu_size m - 1),
                     sm_window := ucast (submenu_size m - 1) - 3\<rparr>
              else m\<lparr>sm_position := ucast (submenu_size m - 1)\<rparr>)"
    using True c by (simp add: m1_def submenu_process_up_def Let_def)
  then show ?thesis
    using True bounds l l3 by (auto simp: p_def w_def)
next
  case False
  have p1: "unat (sm_position m - 1) = p - 1" using False unfolding p_def by (rule dec_unat)
  have p0: "0 < p" using False by (simp add: p_def unat_gt_0)
  have w0: "sm_window m > 0 \<longleftrightarrow> 0 < w" by (simp add: w_def word_gt_0 unat_gt_0)
  have w1: "0 < w \<Longrightarrow> unat (sm_window m - 1) = w - 1"
    unfolding w_def by (rule dec_unat) auto
  have c: "uint (sm_position m - 1) - uint (sm_window m) < 1 \<longleftrightarrow> p - 1 \<le> w"
    using p0 unfolding uint_nat p1 w_def by arith
  have "m1 = (if p - 1 \<le> w \<and> 0 < w
              then m\<lparr>sm_position := sm_position m - 1, sm_window := sm_window m - 1\<rparr>
              else m\<lparr>sm_position := sm_position m - 1\<rparr>)"
    using c w0 False unfolding m1_def submenu_process_up_def Let_def by (simp add: word_gt_0)
  then show ?thesis
    using p0 p1 w1 by (auto simp: w_def)
qed

lemma down_parts:
  fixes m
  defines "n \<equiv> length (sm_items m)" and "p \<equiv> unat (sm_position m)" and "w \<equiv> unat (sm_window m)"
    and "m1 \<equiv> submenu_process_down m"
  assumes fits: "window_fits n p w" and n: "n \<le> 256"
  shows "sm_items m1 = sm_items m \<and> unat (sm_position m1) = (if p + 1 < n then p + 1 else 0) \<and>
    unat (sm_window m1) =
      (if p + 1 < n then (if w + 2 < p + 1 \<and> w + 4 < n then w + 1 else w) else 0)"
proof (cases "p + 1 < n")
  case True
  have sz: "unat (submenu_size m) = n" using submenu_size_nat [of m] n unfolding n_def by simp
  have s: "unat (submenu_size m - 1) = n - 1"
    using True sz by (subst unat_sub_small) auto
  have c: "ucast (sm_position m) < submenu_size m - 1"
    unfolding word_less_nat_alt s using True by (simp add: p_def)
  have p1: "unat (sm_position m + 1) = p + 1"
    using True n unfolding p_def by (intro inc_unat) simp
  have w1: "w + 4 < n \<Longrightarrow> unat (sm_window m + 1) = w + 1"
    using n unfolding w_def by (intro inc_unat) simp
  have c1: "uint (sm_position m + 1) - uint (sm_window m) > 2 \<longleftrightarrow> w + 2 < p + 1"
    unfolding uint_nat p1 w_def by arith
  have c2: "w + 2 < p + 1 \<Longrightarrow> ucast (sm_window m) < submenu_size m - 4 \<longleftrightarrow> w + 4 < n"
  proof -
    assume "w + 2 < p + 1"
    then have "4 \<le> n" using True by simp
    then have "unat (submenu_size m - 4) = n - 4" using sz by (subst unat_sub_small) auto
    then show ?thesis unfolding word_less_nat_alt by (simp add: w_def) arith
  qed
  have "m1 = (if w + 2 < p + 1 \<and> w + 4 < n
              then m\<lparr>sm_position := sm_position m + 1, sm_window := sm_window m + 1\<rparr>
              else m\<lparr>sm_position := sm_position m + 1\<rparr>)"
    using c c1 c2 unfolding m1_def submenu_process_down_def Let_def
    by (auto simp: submenu_size_def)
  then show ?thesis
    using True p1 w1 by (auto simp: w_def)
next
  case False
  have sz: "unat (submenu_size m) = n" using submenu_size_nat [of m] n unfolding n_def by simp
  have "0 < n" using fits by (simp add: window_fits_def)
  then have "unat (submenu_size m - 1) = n - 1"
    using sz by (subst unat_sub_small) auto
  then have "\<not> ucast (sm_position m) < submenu_size m - 1"
    using False by (simp add: word_less_nat_alt p_def)
  then have "m1 = m\<lparr>sm_position := 0, sm_window := 0\<rparr>"
    by (simp add: m1_def submenu_process_down_def)
  with False show ?thesis by simp
qed

lemma index_position_le: "unat (index_position index its) \<le> length its"
proof (induction its)
  case (Cons it its)
  have "unat (index_position index its + 1) \<le> unat (index_position index its) + unat (1 :: u32)"
    by (simp only: unat_word_ariths mod_less_eq_dividend)
  with Cons.IH show ?case by simp
qed simp

lemma index_position_first:
  "length its \<le> 256 \<Longrightarrow>
     unat (index_position index its) = length (takeWhile (\<lambda>it. si_index it \<noteq> index) its)"
proof (induction its)
  case (Cons it its)
  have "unat (index_position index its) \<le> length its" by (rule index_position_le)
  then have "unat (index_position index its + 1) = unat (index_position index its) + unat (1 :: u32)"
    using Cons.prems by (intro unat_plus_if_fits) simp
  then show ?case using Cons by auto
qed simp

text \<open>The item that is selected by an index: the first that has it, or the first of all.\<close>

definition selected_by :: "u32 \<Rightarrow> submenu_item list \<Rightarrow> nat" where
  "selected_by index its =
     (let k = length (takeWhile (\<lambda>it. si_index it \<noteq> index) its) in if k < length its then k else 0)"

lemma select_parts:
  fixes m index
  defines "n \<equiv> length (sm_items m)" and "k \<equiv> selected_by index (sm_items m)"
    and "m1 \<equiv> submenu_set_selected_item index m"
  assumes n: "n \<le> 256"
  shows "sm_items m1 = sm_items m \<and> unat (sm_position m1) = k \<and>
    unat (sm_window m1) = (if n \<le> 4 then 0 else min (k - 1) (n - 4))"
proof -
  define pos where "pos = (if index_position index (sm_items m) \<ge> submenu_size m then 0
    else index_position index (sm_items m))"
  define w1 :: u8 where "w1 = (if (ucast pos :: u8) > 0 then ucast pos - 1 else ucast pos)"
  have sz: "unat (submenu_size m) = n" using submenu_size_nat [of m] n unfolding n_def by simp
  have "index_position index (sm_items m) \<ge> submenu_size m \<longleftrightarrow>
      n \<le> length (takeWhile (\<lambda>it. si_index it \<noteq> index) (sm_items m))"
    unfolding word_le_nat_alt sz using index_position_first [of "sm_items m" index] n
    by (simp add: n_def)
  then have pos: "unat pos = k"
    using index_position_first [of "sm_items m" index] n
    unfolding pos_def k_def selected_by_def Let_def by (auto simp: n_def)
  have k: "k < n \<or> k = 0" unfolding k_def selected_by_def n_def by (simp add: Let_def)
  have p8: "unat (ucast pos :: u8) = k" using pos k n by (subst unat_u32_u8) auto
  have w1: "unat w1 = k - 1"
    using p8 unfolding w1_def by (auto simp: word_gt_0 unat_gt_0 dec_unat)
  have s4: "4 < n \<Longrightarrow> unat (submenu_size m - 4) = n - 4"
    using sz by (subst unat_sub_small) auto
  have s8: "4 < n \<Longrightarrow> unat (ucast (submenu_size m - 4) :: u8) = n - 4"
    using s4 n by (subst unat_u32_u8) auto
  have c4: "submenu_size m \<le> 4 \<longleftrightarrow> n \<le> 4" unfolding word_le_nat_alt sz by simp
  have c: "4 < n \<Longrightarrow> (ucast w1 :: u32) \<ge> submenu_size m - 4 \<longleftrightarrow> n - 4 \<le> k - 1"
    unfolding word_le_nat_alt by (simp add: w1 s4)
  have "m1 = m\<lparr>sm_position := ucast pos,
               sm_window := (if n \<le> 4 then 0 else if n - 4 \<le> k - 1 then ucast (submenu_size m - 4) else w1)\<rparr>"
    using c c4 unfolding m1_def submenu_set_selected_item_def Let_def pos_def [symmetric]
      w1_def [symmetric] by auto
  then show ?thesis using p8 s8 w1 by (auto simp: min_def)
qed

text \<open>What a client does, and what it may do: keys need an item to select.\<close>

datatype submenu_op =
    Sub_Add string u32 "nat option" "nat option"
  | Sub_Clean
  | Sub_Select u32
  | Sub_Key input_event

fun submenu_op_ok :: "submenu_op \<Rightarrow> submenu \<Rightarrow> bool" where
  "submenu_op_ok (Sub_Add _ _ _ _) m \<longleftrightarrow> length (sm_items m) < 256"
| "submenu_op_ok (Sub_Key _) m \<longleftrightarrow> sm_items m \<noteq> []"
| "submenu_op_ok _ m \<longleftrightarrow> True"

fun submenu_step :: "submenu \<Rightarrow> submenu_op \<Rightarrow> (submenu_call list \<times> submenu) res" where
  "submenu_step m (Sub_Add l i cb ctx) = bindE (submenu_add_item True (Some l) i cb ctx m) (\<lambda>m1. Inr ([], m1))"
| "submenu_step m Sub_Clean = Inr ([], submenu_clean m)"
| "submenu_step m (Sub_Select i) = Inr ([], submenu_set_selected_item i m)"
| "submenu_step m (Sub_Key e) = Inr (snd (submenu_view_input_callback e m))"

text \<open>The specification: the items and the number of the selected one.\<close>

definition list_of :: "submenu \<Rightarrow> submenu_item list \<times> nat" where
  "list_of m = (sm_items m, unat (sm_position m))"

definition item_call :: "submenu_item \<Rightarrow> submenu_call list" where
  "item_call it =
     (case si_callback it of None \<Rightarrow> [] | Some cb \<Rightarrow> [Submenu_Callback cb (si_context it) (si_index it)])"

fun list_step ::
    "submenu_item list \<times> nat \<Rightarrow> submenu_op \<Rightarrow> submenu_call list \<times> submenu_item list \<times> nat" where
  "list_step (its, p) (Sub_Add l i cb ctx) =
     ([], its @ [\<lparr>si_label = l, si_index = i, si_callback = cb, si_context = ctx\<rparr>], p)"
| "list_step (its, p) Sub_Clean = ([], [], 0)"
| "list_step (its, p) (Sub_Select i) = ([], its, selected_by i its)"
| "list_step (its, p) (Sub_Key e) =
     (if ev_type e = InputTypeShort \<and> ev_key e = InputKeyOk then item_call (its ! p) else [],
      its, ring_step (length its) e p)"

lemma window_fits_up:
  "window_fits n p w \<Longrightarrow>
     window_fits n (if p > 0 then p - 1 else n - 1)
       (if p > 0 then (if p - 1 \<le> w \<and> w > 0 then w - 1 else w) else n - 4)"
  by (auto simp: window_fits_def)

lemma window_fits_down:
  "window_fits n p w \<Longrightarrow>
     window_fits n (if p + 1 < n then p + 1 else 0)
       (if p + 1 < n then (if w + 2 < p + 1 \<and> w + 4 < n then w + 1 else w) else 0)"
  by (auto simp: window_fits_def)

lemma submenu_step_refines:
  assumes wf: "submenu_wf m" and ok: "submenu_op_ok op m"
  shows "\<exists>cs m1. submenu_step m op = Inr (cs, m1) \<and> submenu_wf m1 \<and>
    list_step (list_of m) op = (cs, list_of m1)"
proof (cases op)
  case (Sub_Add l i cb ctx)
  show ?thesis using wf ok
    by (auto simp: Sub_Add submenu_add_item_def submenu_wf_def list_of_def window_fits_def
        split: if_splits)
next
  case Sub_Clean
  then show ?thesis by (simp add: submenu_clean_def submenu_wf_def list_of_def)
next
  case (Sub_Select i)
  have n: "length (sm_items m) \<le> 256" using wf by (simp add: submenu_wf_def)
  have "selected_by i (sm_items m) < length (sm_items m) \<or> sm_items m = []"
    by (auto simp: selected_by_def Let_def)
  then show ?thesis
    using select_parts [OF n, of i] n
    by (auto simp: Sub_Select submenu_wf_def list_of_def window_fits_def selected_by_def Let_def
          unat_eq_0)
next
  case (Sub_Key e)
  have ne: "sm_items m \<noteq> []" using ok Sub_Key by simp
  then have n: "length (sm_items m) \<le> 256"
    and fits: "window_fits (length (sm_items m)) (unat (sm_position m)) (unat (sm_window m))"
    using wf by (auto simp: submenu_wf_def)
  have p: "unat (sm_position m) < length (sm_items m)" using fits by (simp add: window_fits_def)
  have "ucast (sm_position m) < submenu_size m"
    unfolding word_less_nat_alt using p submenu_size_nat [OF n] by simp
  then have "submenu_process_ok m = item_call (sm_items m ! unat (sm_position m))"
    by (simp add: submenu_process_ok_def item_call_def Let_def)
  moreover have "submenu_wf (submenu_process_up m)"
    using up_parts [OF fits n] window_fits_up [OF fits] n ne by (simp add: submenu_wf_def)
  moreover have "submenu_wf (submenu_process_down m)"
    using down_parts [OF fits n] window_fits_down [OF fits] n ne by (simp add: submenu_wf_def)
  moreover have "list_of (submenu_process_up m) =
      (sm_items m, (unat (sm_position m) + length (sm_items m) - 1) mod length (sm_items m))"
    using up_parts [OF fits n] ring_prev [OF p] by (simp add: list_of_def)
  moreover have "list_of (submenu_process_down m) =
      (sm_items m, (unat (sm_position m) + 1) mod length (sm_items m))"
    using down_parts [OF fits n] ring_next [OF p] by (simp add: list_of_def)
  ultimately show ?thesis
    using wf by (cases "ev_key e")
      (auto simp: Sub_Key submenu_view_input_callback_def ring_step_def list_of_def)
qed

section \<open>Every use of a submenu\<close>

fun list_run ::
    "submenu_item list \<times> nat \<Rightarrow> submenu_op list \<Rightarrow> submenu_call list list \<times> submenu_item list \<times> nat" where
  "list_run s [] = ([], s)"
| "list_run s (op # ops) =
     (case list_step s op of (cs, s1) \<Rightarrow> case list_run s1 ops of (css, s2) \<Rightarrow> (cs # css, s2))"

text \<open>The client adds at most 256 items and sends keys only when there is an item.\<close>

fun client_ok :: "nat \<Rightarrow> submenu_op list \<Rightarrow> bool" where
  "client_ok n [] \<longleftrightarrow> True"
| "client_ok n (Sub_Add _ _ _ _ # ops) \<longleftrightarrow> n < 256 \<and> client_ok (n + 1) ops"
| "client_ok n (Sub_Clean # ops) \<longleftrightarrow> client_ok 0 ops"
| "client_ok n (Sub_Select _ # ops) \<longleftrightarrow> client_ok n ops"
| "client_ok n (Sub_Key _ # ops) \<longleftrightarrow> 0 < n \<and> client_ok n ops"

lemma client_ok_step:
  "client_ok (length (fst s)) (op # ops) \<Longrightarrow> client_ok (length (fst (snd (list_step s op)))) ops"
  by (cases op; cases s) auto

lemma client_ok_op: "client_ok (length (sm_items m)) (op # ops) \<Longrightarrow> submenu_op_ok op m"
  by (cases op) auto

lemma submenu_run_refines:
  "submenu_wf m \<Longrightarrow> client_ok (length (sm_items m)) ops \<Longrightarrow>
     \<exists>css m1. runE submenu_step m ops = Inr (css, m1) \<and> submenu_wf m1 \<and>
       list_run (list_of m) ops = (css, list_of m1)"
proof (induction ops arbitrary: m)
  case (Cons op ops)
  from submenu_step_refines [OF Cons.prems(1) client_ok_op [OF Cons.prems(2)]]
  obtain cs m1 where 1: "submenu_step m op = Inr (cs, m1)" "submenu_wf m1"
    "list_step (list_of m) op = (cs, list_of m1)" by blast
  have "client_ok (length (sm_items m1)) ops"
    using client_ok_step [of "list_of m" op ops] Cons.prems(2) 1(3) by (simp add: list_of_def)
  from Cons.IH [OF 1(2) this] 1 show ?case by auto
qed simp

lemma submenu_wf_alloc: "submenu_wf submenu_alloc"
  by (simp add: submenu_wf_def submenu_alloc_def)

text \<open>
  A submenu is a list with a selected item. Whatever items are added, removed and selected by
  index, and whatever keys are pressed (as long as there is an item, and never more than 256),
  the calls of item callbacks, the items and the number of the selected one are those of the
  specification, in which up and down move around a ring, selecting by index takes the first item
  that has it or else the first of all, and Ok calls the selected item. The selected item stays
  among the four of the window.
\<close>

theorem submenu_refines_list:
  assumes "client_ok 0 ops"
  shows "\<exists>m. runE submenu_step submenu_alloc ops = Inr (fst (list_run ([], 0) ops), m) \<and>
    list_of m = snd (list_run ([], 0) ops) \<and> submenu_wf m"
  using submenu_run_refines [OF submenu_wf_alloc, of ops] assms
  by (fastforce simp: submenu_alloc_def list_of_def)

definition short_key :: "input_key \<Rightarrow> submenu_op" where
  "short_key k = Sub_Key \<lparr>ev_key = k, ev_type = InputTypeShort\<rparr>"

definition demo_submenu :: "submenu_op list" where
  "demo_submenu =
     [Sub_Add ''a'' 7 (Some 1) None, Sub_Add ''b'' 8 (Some 2) None, Sub_Add ''c'' 9 (Some 3) None,
      short_key InputKeyUp, short_key InputKeyOk, short_key InputKeyDown, short_key InputKeyDown,
      short_key InputKeyOk]"

theorem submenu_refines_list_witness:
  "\<exists>m. runE submenu_step submenu_alloc demo_submenu =
         Inr ([[], [], [], [], [Submenu_Callback 3 None 9], [], [], [Submenu_Callback 2 None 8]], m) \<and>
       unat (sm_position m) = 1"
proof -
  have "client_ok 0 demo_submenu"
    by (simp add: demo_submenu_def short_key_def)
  moreover have "fst (list_run ([], 0) demo_submenu) =
      [[], [], [], [], [Submenu_Callback 3 None 9], [], [], [Submenu_Callback 2 None 8]]"
    and "snd (snd (list_run ([], 0) demo_submenu)) = 1"
    by (simp_all add: demo_submenu_def short_key_def item_call_def ring_step_def)
  ultimately show ?thesis
    using submenu_refines_list [of demo_submenu] by (metis list_of_def snd_conv)
qed

section \<open>What is on the screen\<close>

definition item_texts :: "submenu \<Rightarrow> canvas \<Rightarrow> nat \<times> submenu_item \<Rightarrow> (u8 \<times> string) list" where
  "item_texts m c = (\<lambda>(i, it).
     let k = of_nat i - sm_window m :: u8 in
     if k < 4 then [(k * 16 + 12 + offset_y c, si_label it)] else [])"

definition item_boxes :: "submenu \<Rightarrow> canvas \<Rightarrow> nat \<times> submenu_item \<Rightarrow> u8 list" where
  "item_boxes m c = (\<lambda>(i, it).
     let k = of_nat i - sm_window m :: u8 in
     if k < 4 \<and> of_nat i = sm_position m then [k * 16 + 1 + offset_y c] else [])"

lemma draw_item:
  "\<exists>cs c1. draws (submenu_draw_item m x) c = Inr (cs, c1) \<and> same_area c c1 \<and>
     texts_drawn cs = item_texts m c x \<and> boxes_drawn 123 cs = item_boxes m c x"
  by (cases x)
     (auto simp: submenu_draw_item_def item_texts_def item_boxes_def canvas_prims same_area_def Let_def)

lemma draw_items:
  "\<exists>cs c1. draws (concat (map (submenu_draw_item m) xs)) c = Inr (cs, c1) \<and> same_area c c1 \<and>
     texts_drawn cs = concat (map (item_texts m c) xs) \<and>
     boxes_drawn 123 cs = concat (map (item_boxes m c) xs)"
proof (induction xs arbitrary: c)
  case (Cons x xs)
  from draw_item [of m x c] obtain cs c1 where 1:
    "draws (submenu_draw_item m x) c = Inr (cs, c1)" "same_area c c1"
    "texts_drawn cs = item_texts m c x" "boxes_drawn 123 cs = item_boxes m c x" by blast
  from Cons.IH [of c1] obtain cs1 c2 where 2:
    "draws (concat (map (submenu_draw_item m) xs)) c1 = Inr (cs1, c2)" "same_area c1 c2"
    "texts_drawn cs1 = concat (map (item_texts m c1) xs)"
    "boxes_drawn 123 cs1 = concat (map (item_boxes m c1) xs)" by blast
  have "item_texts m c1 = item_texts m c" "item_boxes m c1 = item_boxes m c"
    using 1(2) by (auto simp: item_texts_def item_boxes_def same_area_def fun_eq_iff Let_def)
  with 1 2 show ?case by (auto simp: draws_append same_area_def)
qed simp

lemma of_nat_u8_unat: "i < 256 \<Longrightarrow> unat (of_nat i :: u8) = i"
  by (simp add: unat_of_nat_small)

text \<open>The place on the screen, without the wrap: only the items of the window have one.\<close>

lemma window_place:
  assumes "i < 256" and "w + 4 \<le> 256" and "unat (wd :: u8) = w"
  shows "(of_nat i - wd < 4) \<longleftrightarrow> w \<le> i \<and> i < w + 4"
    and "w \<le> i \<Longrightarrow> of_nat i - wd = (of_nat (i - w) :: u8)"
proof -
  have wd: "wd = of_nat w" unfolding assms(3) [symmetric] by simp
  show sub: "of_nat i - wd = (of_nat (i - w) :: u8)" if "w \<le> i"
    using that by (simp add: wd of_nat_diff)
  show "(of_nat i - wd < 4) \<longleftrightarrow> w \<le> i \<and> i < w + 4"
  proof (cases "w \<le> i")
    case True
    have "unat (of_nat (i - w) :: u8) = i - w" using assms(1) by (intro of_nat_u8_unat) simp
    then show ?thesis using True by (simp add: sub word_less_nat_alt) arith
  next
    case False
    have "of_nat i - wd = (of_nat i + of_nat 256 - of_nat w :: u8)" by (simp add: wd)
    also have "\<dots> = of_nat (i + 256 - w)" using assms(2) by (simp add: of_nat_diff)
    finally have eq: "of_nat i - wd = of_nat (i + 256 - w)" .
    have "unat (of_nat i - wd) = i + 256 - w"
      unfolding eq using False assms(2) by (intro of_nat_u8_unat) simp
    then show ?thesis using False assms(2) by (simp add: word_less_nat_alt)
  qed
qed

lemma concat_map_none: "(\<And>x. x \<in> set xs \<Longrightarrow> f x = []) \<Longrightarrow> concat (map f xs) = []"
  by (induction xs) auto

lemma enumerate_window:
  assumes "\<And>i y. i < w \<Longrightarrow> f (i, y) = []" and "\<And>i y. w + 4 \<le> i \<Longrightarrow> i < length ys \<Longrightarrow> f (i, y) = []"
    and "w \<le> length ys"
  shows "concat (map f (enumerate 0 ys)) = concat (map f (enumerate w (take 4 (drop w ys))))"
proof -
  let ?l = "take w ys" and ?m = "take 4 (drop w ys)" and ?r = "drop 4 (drop w ys)"
  have "ys = ?l @ ?m @ ?r" by (simp only: append_take_drop_id)
  then have "enumerate 0 ys = enumerate 0 ?l @ enumerate w ?m @ enumerate (w + length ?m) ?r"
    using assms(3) by (metis add_0 enumerate_append_eq length_take min.absorb2)
  moreover have "concat (map f (enumerate 0 ?l)) = []"
    using assms(1) by (intro concat_map_none) (auto simp: in_set_enumerate_eq)
  moreover have "concat (map f (enumerate (w + length ?m) ?r)) = []"
    using assms(2) by (intro concat_map_none) (auto simp: in_set_enumerate_eq)
  ultimately show ?thesis by (simp only: map_append concat_append append_Nil append_Nil2)
qed

lemma enumerate_single:
  assumes "p < length ys" and "\<And>i y. i \<noteq> p \<Longrightarrow> i < length ys \<Longrightarrow> f (i, y) = []"
  shows "concat (map f (enumerate 0 ys)) = f (p, ys ! p)"
proof -
  let ?l = "take p ys" and ?r = "drop (Suc p) ys"
  have "ys = ?l @ [ys ! p] @ ?r" using assms(1) by (simp add: id_take_nth_drop)
  then have "enumerate 0 ys = enumerate 0 ?l @ enumerate p [ys ! p] @ enumerate (p + 1) ?r"
    using assms(1)
    by (metis One_nat_def add_0 enumerate_append_eq length_Cons length_take list.size(3) min.strict_order_iff min.commute)
  moreover have "concat (map f (enumerate 0 ?l)) = []"
    using assms by (intro concat_map_none) (auto simp: in_set_enumerate_eq)
  moreover have "concat (map f (enumerate (p + 1) ?r)) = []"
    using assms by (intro concat_map_none) (auto simp: in_set_enumerate_eq)
  ultimately show ?thesis
    by (simp only: map_append concat_append append_Nil append_Nil2) simp
qed

lemma enumerate_shift:
  assumes "\<And>k. k < length xs \<Longrightarrow> f (w + k, xs ! k) = [g (k, xs ! k)]"
  shows "concat (map f (enumerate w xs)) = map g (enumerate 0 xs)"
proof -
  have "map f (enumerate w xs) = map (\<lambda>x. [g x]) (enumerate 0 xs)"
    by (rule nth_equalityI) (auto simp: nth_enumerate_eq assms)
  then show ?thesis by simp
qed

text \<open>
  What a submenu shows: on any canvas lower than 255 pixels drawing succeeds, and the strings
  drawn are the labels of the items of the window, at most four and in order, each 16 pixels below
  the one before. Exactly one of them is highlighted, the selected item, although the counter of
  the drawing loop and all coordinates are 8 bits wide and there may be 256 items.
\<close>

theorem submenu_draws_window:
  fixes m c
  defines "p \<equiv> unat (sm_position m)" and "w \<equiv> unat (sm_window m)"
  assumes wf: "submenu_wf m" and ne: "sm_items m \<noteq> []" and h: "canvas_h c \<noteq> 255"
  shows "\<exists>cs c1. submenu_view_draw_callback m c = Some (Inr (cs, c1)) \<and>
    texts_drawn cs = map (\<lambda>(k, it). (of_nat k * 16 + 12 + offset_y c, si_label it))
                       (enumerate 0 (take 4 (drop w (sm_items m)))) \<and>
    boxes_drawn 123 cs = [of_nat (p - w) * 16 + 1 + offset_y c] \<and> w \<le> p \<and> p < w + 4"
proof -
  let ?n = "length (sm_items m)"
  have fits: "window_fits ?n p w" and n: "?n \<le> 256"
    using wf ne by (auto simp: submenu_wf_def p_def w_def)
  have w: "w + 4 \<le> 256" "w \<le> ?n" "p < ?n" "w \<le> p" "p < w + 4"
    using fits n by (auto simp: window_fits_def)
  have p: "sm_position m = of_nat p"
    unfolding p_def by simp
  have ww: "sm_window m = of_nat w" unfolding w_def by simp
  have "unat (sm_window m) = w" by (simp add: w_def)
  note place = window_place [OF _ w(1) this]
  from draw_items [of m "enumerate 0 (sm_items m)" "c\<lparr>canvas_font := FontSecondary\<rparr>"]
  obtain cs c1 where 1:
    "draws (concat (map (submenu_draw_item m) (enumerate 0 (sm_items m))))
       (c\<lparr>canvas_font := FontSecondary\<rparr>) = Inr (cs, c1)"
    "same_area (c\<lparr>canvas_font := FontSecondary\<rparr>) c1"
    "texts_drawn cs = concat (map (item_texts m (c\<lparr>canvas_font := FontSecondary\<rparr>)) (enumerate 0 (sm_items m)))"
    "boxes_drawn 123 cs = concat (map (item_boxes m (c\<lparr>canvas_font := FontSecondary\<rparr>)) (enumerate 0 (sm_items m)))"
    by blast
  have "canvas_h c1 \<noteq> 255" using 1(2) h by (simp add: same_area_def)
  from scrollbar_drawn [OF this, of "sm_position m" "of_nat ?n" 123] obtain cs1 c2 where 2:
    "elements_scrollbar (sm_position m) (of_nat ?n) c1 = Some (Inr (cs1, c2))"
    "texts_drawn cs1 = []" "boxes_drawn 123 cs1 = []" by auto
  have texts: "texts_drawn cs = map (\<lambda>(k, it). (of_nat k * 16 + 12 + offset_y c, si_label it))
      (enumerate 0 (take 4 (drop w (sm_items m))))"
    unfolding 1(3)
  proof (subst enumerate_window [where w = w])
    show "concat (map (item_texts m (c\<lparr>canvas_font := FontSecondary\<rparr>))
            (enumerate w (take 4 (drop w (sm_items m))))) =
          map (\<lambda>(k, it). (of_nat k * 16 + 12 + offset_y c, si_label it))
            (enumerate 0 (take 4 (drop w (sm_items m))))"
      using place n
      by (intro enumerate_shift)
        (auto simp: item_texts_def Let_def simp del: of_nat_add, simp add: ww algebra_simps)
  qed (use place n w in \<open>auto simp: item_texts_def Let_def\<close>)
  have "of_nat i = sm_position m \<longleftrightarrow> i = p" if "i < 256" for i
    using that w n unfolding p by (metis of_nat_u8_unat order.strict_trans2)
  then have boxes: "boxes_drawn 123 cs = [of_nat (p - w) * 16 + 1 + offset_y c]"
    unfolding 1(4) using place n w
    by (subst enumerate_single [where p = p]) (auto simp: item_boxes_def Let_def, simp add: ww)
  show ?thesis
    using 1(1) 2 texts boxes w
    by (auto simp: submenu_view_draw_callback_def canvas_clear_def canvas_set_font_def)
qed

theorem submenu_draws_window_witness:
  "\<exists>cs c1. submenu_view_draw_callback
       \<lparr>sm_items = map (\<lambda>l. \<lparr>si_label = l, si_index = 0, si_callback = None, si_context = None\<rparr>)
                    [''a'', ''b'', ''c'', ''d'', ''e'', ''f''],
        sm_position = 3, sm_window = 1\<rparr>
       \<lparr>draw_color = ColorBlack, canvas_font = FontPrimary, canvas_orientation = CanvasOrientationHorizontal,
        offset_x = 0, offset_y = 0, canvas_w = 128, canvas_h = 64\<rparr> = Some (Inr (cs, c1)) \<and>
     texts_drawn cs = [(12, ''b''), (28, ''c''), (44, ''d''), (60, ''e'')] \<and> boxes_drawn 123 cs = [33]"
  using submenu_draws_window [of
      "\<lparr>sm_items = map (\<lambda>l. \<lparr>si_label = l, si_index = 0, si_callback = None, si_context = None\<rparr>)
                    [''a'', ''b'', ''c'', ''d'', ''e'', ''f''],
        sm_position = 3, sm_window = 1\<rparr>"
      "\<lparr>draw_color = ColorBlack, canvas_font = FontPrimary, canvas_orientation = CanvasOrientationHorizontal,
        offset_x = 0, offset_y = 0, canvas_w = 128, canvas_h = 64\<rparr>"]
  by (simp add: submenu_wf_def window_fits_def)

text \<open>
  With no item the keys are not harmless: up stores the last position of an array of none. Items
  added afterwards are then not selected, and Ok does nothing, until a key moves the selection.
\<close>

lemma submenu_empty_up: "sm_position (submenu_process_up submenu_alloc) = 255"
  by code_simp

lemma submenu_empty_ok:
  assumes "submenu_add_item True (Some l) i cb ctx (submenu_process_up submenu_alloc) = Inr m"
  shows "submenu_process_ok m = []"
proof -
  have m: "sm_position m = 255" "length (sm_items m) = 1"
    using assms submenu_empty_up
    by (auto simp: submenu_add_item_def submenu_process_up_def submenu_alloc_def Let_def split: if_splits)
  then have "\<not> ucast (sm_position m) < submenu_size m"
    by (simp add: submenu_size_def word_less_nat_alt)
  then show ?thesis by (simp add: submenu_process_ok_def)
qed

end
