(* ===== verification/TextInput.thy ===== *)
theory TextInput
  imports Canvas Input
begin

text \<open>
  The keyboard for text, \<^verbatim>\<open>applications/gui/modules/text_input.c\<close>. The state is the model of its
  view; the buffer belongs to the caller and is an array of characters, \<open>None\<close> for a null
  pointer. Reading a string with no terminator, or writing behind the array, is out of bounds.
\<close>

section \<open>State\<close>

record text_input_key =
  tk_text :: char
  tk_x :: u8
  tk_y :: u8

record text_input =
  ti_header :: string
  ti_text :: "char list option"
  ti_max :: u8
  ti_callback :: "nat option"
  ti_context :: "nat option"
  ti_row :: u8
  ti_column :: u8

datatype text_input_call = Text_Callback nat "nat option" string

definition text_keyboard_origin_x :: u8 where "text_keyboard_origin_x = 1"
definition text_keyboard_origin_y :: u8 where "text_keyboard_origin_y = 29"
definition text_keyboard_row_count :: nat where "text_keyboard_row_count = 3"
definition ENTER_KEY :: char where "ENTER_KEY = CHR 0x0D"
definition BACKSPACE_KEY :: char where "BACKSPACE_KEY = CHR 0x08"

definition text_key :: "char \<times> u8 \<times> u8 \<Rightarrow> text_input_key" where
  "text_key = (\<lambda>(ch, x, y). \<lparr>tk_text = ch, tk_x = x, tk_y = y\<rparr>)"

definition text_keys_row_1 :: "text_input_key list" where
  "text_keys_row_1 = map text_key
     [(CHR ''q'', 1, 8), (CHR ''w'', 10, 8), (CHR ''e'', 19, 8), (CHR ''r'', 28, 8),
      (CHR ''t'', 37, 8), (CHR ''y'', 46, 8), (CHR ''u'', 55, 8), (CHR ''i'', 64, 8),
      (CHR ''o'', 73, 8), (CHR ''p'', 82, 8), (CHR ''7'', 91, 8), (CHR ''8'', 100, 8),
      (CHR ''9'', 109, 8), (CHR ''_'', 118, 8)]"

definition text_keys_row_2 :: "text_input_key list" where
  "text_keys_row_2 = map text_key
     [(CHR ''a'', 1, 20), (CHR ''s'', 10, 20), (CHR ''d'', 19, 20), (CHR ''f'', 28, 20),
      (CHR ''g'', 37, 20), (CHR ''h'', 46, 20), (CHR ''j'', 55, 20), (CHR ''k'', 64, 20),
      (CHR ''l'', 73, 20), (CHR ''4'', 82, 20), (CHR ''5'', 91, 20), (CHR ''6'', 100, 20),
      (BACKSPACE_KEY, 110, 12)]"

definition text_keys_row_3 :: "text_input_key list" where
  "text_keys_row_3 = map text_key
     [(CHR ''z'', 1, 32), (CHR ''x'', 10, 32), (CHR ''c'', 19, 32), (CHR ''v'', 28, 32),
      (CHR ''b'', 37, 32), (CHR ''n'', 46, 32), (CHR ''m'', 55, 32), (CHR ''0'', 64, 32),
      (CHR ''1'', 73, 32), (CHR ''2'', 82, 32), (CHR ''3'', 91, 32), (ENTER_KEY, 102, 23)]"

definition get_row_size :: "u8 \<Rightarrow> u8" where
  "get_row_size r =
     (if unat r + 1 = 1 then of_nat (length text_keys_row_1)
      else if unat r + 1 = 2 then of_nat (length text_keys_row_2)
      else if unat r + 1 = 3 then of_nat (length text_keys_row_3) else 0)"

text \<open>\<open>None\<close> is the null pointer.\<close>

definition get_row :: "u8 \<Rightarrow> text_input_key list option" where
  "get_row r =
     (if unat r + 1 = 1 then Some text_keys_row_1
      else if unat r + 1 = 2 then Some text_keys_row_2
      else if unat r + 1 = 3 then Some text_keys_row_3 else None)"

definition get_selected_char :: "text_input \<Rightarrow> char res" where
  "get_selected_char m =
     (case get_row (ti_row m) of
        None \<Rightarrow> Inl Null_Pointer
      | Some keys \<Rightarrow> bindE (arr_get keys (unat (ti_column m))) (\<lambda>k. Inr (tk_text k)))"

definition char_is_lowercase :: "char \<Rightarrow> bool" where
  "char_is_lowercase letter \<longleftrightarrow> 0x61 \<le> (of_char letter :: nat) \<and> (of_char letter :: nat) \<le> 0x7A"

definition char_to_uppercase :: "char \<Rightarrow> char" where
  "char_to_uppercase letter = char_of ((of_char letter :: nat) - 0x20)"

section \<open>Strings in an array\<close>

text \<open>The C string at the start of an array.\<close>

definition nul :: char where "nul = CHR 0x00"

definition c_string :: "char list \<Rightarrow> string res" where
  "c_string bs = (if nul \<in> set bs then Inr (takeWhile (\<lambda>ch. ch \<noteq> nul) bs) else Inl Out_Of_Bounds)"

definition text_buffer :: "text_input \<Rightarrow> char list res" where
  "text_buffer m = (case ti_text m of None \<Rightarrow> Inl Null_Pointer | Some bs \<Rightarrow> Inr bs)"

definition set_char :: "nat \<Rightarrow> char \<Rightarrow> text_input \<Rightarrow> text_input res" where
  "set_char i ch m =
     bindE (text_buffer m) (\<lambda>bs. bindE (arr_set bs i ch) (\<lambda>bs1. Inr (m\<lparr>ti_text := Some bs1\<rparr>)))"

section \<open>The buttons\<close>

definition text_input_handle_up :: "text_input \<Rightarrow> text_input" where
  "text_input_handle_up m = (if ti_row m > 0 then m\<lparr>ti_row := ti_row m - 1\<rparr> else m)"

definition text_input_handle_down :: "text_input \<Rightarrow> text_input" where
  "text_input_handle_down m =
     (if unat (ti_row m) < text_keyboard_row_count - 1 then
        (let m1 = m\<lparr>ti_row := ti_row m + 1\<rparr> in
         if uint (ti_column m1) > uint (get_row_size (ti_row m1)) - 1
         then m1\<lparr>ti_column := get_row_size (ti_row m1) - 1\<rparr> else m1)
      else m)"

definition text_input_handle_left :: "text_input \<Rightarrow> text_input" where
  "text_input_handle_left m =
     (if ti_column m > 0 then m\<lparr>ti_column := ti_column m - 1\<rparr>
      else m\<lparr>ti_column := get_row_size (ti_row m) - 1\<rparr>)"

definition text_input_handle_right :: "text_input \<Rightarrow> text_input" where
  "text_input_handle_right m =
     (if uint (ti_column m) < uint (get_row_size (ti_row m)) - 1
      then m\<lparr>ti_column := ti_column m + 1\<rparr> else m\<lparr>ti_column := 0\<rparr>)"

definition text_input_handle_ok :: "text_input \<Rightarrow> (text_input_call list \<times> text_input) res" where
  "text_input_handle_ok m =
     bindE (get_selected_char m) (\<lambda>selected.
     bindE (text_buffer m) (\<lambda>bs.
     bindE (c_string bs) (\<lambda>s.
       let text_length = of_nat (length s) :: u8 in
       if selected = ENTER_KEY then
         Inr (case ti_callback m of None \<Rightarrow> [] | Some cb \<Rightarrow> [Text_Callback cb (ti_context m) s], m)
       else if selected = BACKSPACE_KEY then
         (if text_length > 0
          then bindE (set_char (unat text_length - 1) nul m) (\<lambda>m1. Inr ([], m1)) else Inr ([], m))
       else if text_length < ti_max m then
         (let ch = (if text_length = 0 \<and> char_is_lowercase selected then char_to_uppercase selected
                    else selected)
          in bindE (set_char (unat text_length) ch m) (\<lambda>m1.
             bindE (set_char (unat text_length + 1) nul m1) (\<lambda>m2. Inr ([], m2))))
       else Inr ([], m))))"

text \<open>The result starts with whether the event was consumed.\<close>

definition text_input_view_input_callback ::
    "input_event \<Rightarrow> text_input \<Rightarrow> (bool \<times> text_input_call list \<times> text_input) res" where
  "text_input_view_input_callback e m =
     (if ev_type e = InputTypeShort \<or> ev_type e = InputTypeRepeat then
        (case ev_key e of
           InputKeyUp \<Rightarrow> Inr (True, [], text_input_handle_up m)
         | InputKeyDown \<Rightarrow> Inr (True, [], text_input_handle_down m)
         | InputKeyLeft \<Rightarrow> Inr (True, [], text_input_handle_left m)
         | InputKeyRight \<Rightarrow> Inr (True, [], text_input_handle_right m)
         | InputKeyOk \<Rightarrow> bindE (text_input_handle_ok m) (\<lambda>(cs, m1). Inr (True, cs, m1))
         | InputKeyBack \<Rightarrow> Inr (False, [], m))
      else Inr (False, [], m))"

definition text_input_alloc :: text_input where
  "text_input_alloc =
     \<lparr>ti_header = '''', ti_text = None, ti_max = 0, ti_callback = None, ti_context = None,
      ti_row = 0, ti_column = 0\<rparr>"

definition text_input_set_result_callback ::
    "nat option \<Rightarrow> nat option \<Rightarrow> char list option \<Rightarrow> u8 \<Rightarrow> text_input \<Rightarrow> text_input" where
  "text_input_set_result_callback cb ctx bs mx m =
     m\<lparr>ti_callback := cb, ti_context := ctx, ti_text := bs, ti_max := mx\<rparr>"

definition text_input_set_header_text :: "string \<Rightarrow> text_input \<Rightarrow> text_input" where
  "text_input_set_header_text t m = m\<lparr>ti_header := t\<rparr>"

section \<open>Drawing\<close>

text \<open>The pointer moves along the array until the string from it fits.\<close>

fun shown_text :: "gfx \<Rightarrow> canvas \<Rightarrow> u16 \<Rightarrow> char list \<Rightarrow> string res" where
  "shown_text g c needed [] = Inl Out_Of_Bounds"
| "shown_text g c needed (ch # bs) =
     bindE (c_string (ch # bs)) (\<lambda>s.
       if canvas_string_width g s c > needed then shown_text g c needed bs else Inr s)"

definition text_draw_key :: "gfx \<Rightarrow> text_input \<Rightarrow> u8 \<Rightarrow> nat \<Rightarrow> nat \<Rightarrow> text_input_key \<Rightarrow> draw list" where
  "text_draw_key g m text_length row column key =
     (let x = text_keyboard_origin_x + tk_x key; y = text_keyboard_origin_y + tk_y key;
          selected = (unat (ti_row m) = row \<and> unat (ti_column m) = column)
      in if tk_text key = ENTER_KEY then
           [canvas_set_color ColorBlack,
            canvas_draw_icon_name g x y
              (if selected then ''I_KeySaveSelected_24x11'' else ''I_KeySave_24x11'')]
         else if tk_text key = BACKSPACE_KEY then
           [canvas_set_color ColorBlack,
            canvas_draw_icon_name g x y
              (if selected then ''I_KeyBackspaceSelected_16x9'' else ''I_KeyBackspace_16x9'')]
         else
           (if selected then
              [canvas_set_color ColorBlack, canvas_draw_box (x - 1) (y - 8) 7 10,
               canvas_set_color ColorWhite]
            else [canvas_set_color ColorBlack]) @
           [canvas_draw_glyph x y
              (of_char (if text_length = 0 \<and> char_is_lowercase (tk_text key)
                        then char_to_uppercase (tk_text key) else tk_text key))])"

definition text_input_view_draw_callback :: "gfx \<Rightarrow> text_input \<Rightarrow> draw" where
  "text_input_view_draw_callback g m c =
     bindE (text_buffer m) (\<lambda>bs. bindE (c_string bs) (\<lambda>s.
       let text_length = of_nat (length s) :: u8; needed = canvas_width c - 4 - 7 - 4 in
       draws ([canvas_clear, canvas_set_color ColorBlack, canvas_draw_str 2 8 (ti_header m),
               elements_slightly_rounded_frame 1 12 122 15,
               (\<lambda>c1. bindE (shown_text g c1 (ucast needed) bs) (\<lambda>t.
                  draws [canvas_draw_str 4 22 t,
                         canvas_draw_str (4 + ucast (canvas_string_width g t c1) + 1) 22 ''|''] c1)),
               canvas_set_font FontKeyboard] @
              concat (map (\<lambda>row.
                case get_row (of_nat row) of
                  None \<Rightarrow> []
                | Some keys \<Rightarrow>
                    concat (map (\<lambda>(column, key). text_draw_key g m text_length row column key)
                      (enumerate 0 keys)))
                [0..<text_keyboard_row_count + 1])) c))"

section \<open>Strings and their arrays\<close>

lemma c_string_Inr:
  "c_string bs = Inr s \<longleftrightarrow> (\<exists>t. bs = s @ nul # t) \<and> nul \<notin> set s"
proof
  assume "c_string bs = Inr s"
  then have s: "s = takeWhile (\<lambda>ch. ch \<noteq> nul) bs" and "nul \<in> set bs"
    by (auto simp: c_string_def split: if_splits)
  then have "dropWhile (\<lambda>ch. ch \<noteq> nul) bs \<noteq> []" by (auto simp: dropWhile_eq_Nil_conv)
  then obtain x t where d: "dropWhile (\<lambda>ch. ch \<noteq> nul) bs = x # t" by (cases "dropWhile (\<lambda>ch. ch \<noteq> nul) bs") auto
  then have "x = nul \<and> bs = s @ x # t" unfolding s dropWhile_eq_Cons_conv by blast
  then have "bs = s @ nul # t" by blast
  moreover have "nul \<notin> set s" using s set_takeWhileD by fastforce
  ultimately show "(\<exists>t. bs = s @ nul # t) \<and> nul \<notin> set s" by blast
next
  assume "(\<exists>t. bs = s @ nul # t) \<and> nul \<notin> set s"
  then obtain t where t: "bs = s @ nul # t" "nul \<notin> set s" by blast
  then have "takeWhile (\<lambda>ch. ch \<noteq> nul) bs = s" by (auto simp: takeWhile_append)
  with t show "c_string bs = Inr s" by (simp add: c_string_def)
qed

lemma c_string_type:
  assumes "c_string bs = Inr s" and "length s + 1 < length bs" and "ch \<noteq> nul"
  shows "c_string (bs[length s := ch, length s + 1 := nul]) = Inr (s @ [ch])"
proof -
  obtain t where t: "bs = s @ nul # t" "nul \<notin> set s" using assms(1) by (auto simp: c_string_Inr)
  then obtain x t1 where "t = x # t1" using assms(2) by (cases t) auto
  then have "bs[length s := ch, length s + 1 := nul] = (s @ [ch]) @ nul # t1"
    by (simp add: t(1) list_update_append)
  then show ?thesis unfolding c_string_Inr using t(2) assms(3) by auto
qed

lemma c_string_erase:
  assumes "c_string bs = Inr s" and "s \<noteq> []"
  shows "c_string (bs[length s - 1 := nul]) = Inr (butlast s)"
proof -
  obtain t where t: "bs = s @ nul # t" "nul \<notin> set s" using assms(1) by (auto simp: c_string_Inr)
  obtain s1 x where s1: "s = s1 @ [x]" using assms(2) by (cases s rule: rev_cases) auto
  have "bs[length s - 1 := nul] = s1 @ nul # nul # t" by (simp add: t(1) s1 list_update_append)
  then show ?thesis unfolding c_string_Inr using t(2) s1 by auto
qed

lemma c_string_length: "c_string bs = Inr s \<Longrightarrow> length s < length bs"
  by (auto simp: c_string_Inr)

section \<open>The specification\<close>

text \<open>The keyboard by its letters, a string, and the row and column of the cursor.\<close>

definition keyboard :: "string list" where
  "keyboard = [''qwertyuiop789_'', ''asdfghjkl456'' @ [BACKSPACE_KEY], ''zxcvbnm0123'' @ [ENTER_KEY]]"

definition capital :: "string \<Rightarrow> char \<Rightarrow> char" where
  "capital s ch = (if s = [] \<and> char_is_lowercase ch then char_to_uppercase ch else ch)"

text \<open>A key, its effect on the string; \<open>mx\<close> is the announced length.\<close>

definition text_step :: "nat \<Rightarrow> char \<Rightarrow> string \<Rightarrow> string" where
  "text_step mx ch s =
     (if ch = ENTER_KEY then s
      else if ch = BACKSPACE_KEY then butlast s
      else if length s < mx then s @ [capital s ch] else s)"

definition moves :: "input_event \<Rightarrow> bool" where
  "moves e \<longleftrightarrow> ev_type e = InputTypeShort \<or> ev_type e = InputTypeRepeat"

definition cursor_step :: "input_event \<Rightarrow> nat \<times> nat \<Rightarrow> nat \<times> nat" where
  "cursor_step e = (\<lambda>(r, k).
     let len = length (keyboard ! r) in
     if \<not> moves e then (r, k)
     else case ev_key e of
       InputKeyUp \<Rightarrow> (r - 1, k)
     | InputKeyDown \<Rightarrow> if r < 2 then (r + 1, min k (length (keyboard ! (r + 1)) - 1)) else (r, k)
     | InputKeyLeft \<Rightarrow> (r, (k + len - 1) mod len)
     | InputKeyRight \<Rightarrow> (r, (k + 1) mod len)
     | _ \<Rightarrow> (r, k))"

text \<open>A text input with its string and cursor.\<close>

definition edits :: "text_input \<Rightarrow> string \<Rightarrow> nat \<times> nat \<Rightarrow> bool" where
  "edits m s rk \<longleftrightarrow>
     (\<exists>bs. ti_text m = Some bs \<and> c_string bs = Inr s) \<and> length s \<le> 255 \<and>
     rk = (unat (ti_row m), unat (ti_column m)) \<and> fst rk < 3 \<and> snd rk < length (keyboard ! fst rk)"

text \<open>The array has a place more than the announced length.\<close>

definition roomy :: "text_input \<Rightarrow> bool" where
  "roomy m \<longleftrightarrow> (\<exists>bs. ti_text m = Some bs \<and> unat (ti_max m) < length bs)"

definition same_client :: "text_input \<Rightarrow> text_input \<Rightarrow> bool" where
  "same_client m m1 \<longleftrightarrow>
     ti_callback m1 = ti_callback m \<and> ti_context m1 = ti_context m \<and> ti_max m1 = ti_max m \<and>
     map_option length (ti_text m1) = map_option length (ti_text m)"

lemma same_client_refl [simp]: "same_client m m"
  by (simp add: same_client_def)

lemma same_client_trans: "same_client m m1 \<Longrightarrow> same_client m1 m2 \<Longrightarrow> same_client m m2"
  by (simp add: same_client_def)

lemma same_client_roomy: "same_client m m1 \<Longrightarrow> roomy m1 \<longleftrightarrow> roomy m"
  by (cases "ti_text m"; cases "ti_text m1") (auto simp: same_client_def roomy_def)

lemma lt_3_cases: "(r :: nat) < 3 \<Longrightarrow> r = 0 \<or> r = 1 \<or> r = 2"
  by arith

lemma rows:
  assumes "unat w < 3"
  shows "\<exists>keys. get_row w = Some keys \<and> map tk_text keys = keyboard ! unat w"
    and "unat (get_row_size w) = length (keyboard ! unat w)"
    and "2 \<le> length (keyboard ! unat w)"
  using lt_3_cases [OF assms]
  by (auto simp: get_row_def get_row_size_def keyboard_def text_keys_row_1_def text_keys_row_2_def
      text_keys_row_3_def text_key_def unat_of_nat_small)

lemma row_le: "r < 3 \<Longrightarrow> length (keyboard ! r) \<le> 14"
  by (drule lt_3_cases) (auto simp: keyboard_def)

lemma row_up: "r < 3 \<Longrightarrow> k < length (keyboard ! r) \<Longrightarrow> k < length (keyboard ! (r - 1))"
  by (drule lt_3_cases) (auto simp: keyboard_def)

lemma keys_not_nul:
  assumes "r < 3" and "ch \<in> set (keyboard ! r)"
  shows "ch \<noteq> nul" and "capital s ch \<noteq> nul"
proof -
  have "\<forall>row \<in> set keyboard. \<forall>ch \<in> set row. ch \<noteq> nul \<and> char_to_uppercase ch \<noteq> nul \<or> \<not> char_is_lowercase ch \<and> ch \<noteq> nul"
    by code_simp
  moreover have "keyboard ! r \<in> set keyboard"
    using assms(1) by (intro nth_mem) (simp add: keyboard_def)
  ultimately show "ch \<noteq> nul" "capital s ch \<noteq> nul"
    using assms(2) by (auto simp: capital_def)
qed

lemma selected_char:
  assumes "edits m s (r, k)"
  shows "get_selected_char m = Inr (keyboard ! r ! k)"
proof -
  have rk: "r = unat (ti_row m)" "k = unat (ti_column m)" "r < 3" "k < length (keyboard ! r)"
    using assms by (auto simp: edits_def)
  from rows(1) [of "ti_row m"] rk obtain keys where
    "get_row (ti_row m) = Some keys" "map tk_text keys = keyboard ! r" by auto
  then show ?thesis using rk by (metis (mono_tags, lifting) arr_get_in bindE_Inr get_selected_char_def
    length_map nth_map option.case(2))
qed

section \<open>The buttons against the specification\<close>

lemma text_moves:
  assumes ed: "edits m s (r, k)" and mv: "moves e" and k: "ev_key e \<noteq> InputKeyOk"
  shows "\<exists>b m1. text_input_view_input_callback e m = Inr (b, [], m1) \<and> same_client m m1 \<and>
    edits m1 s (cursor_step e (r, k))"
proof -
  obtain bs where bs: "ti_text m = Some bs" "c_string bs = Inr s" "length s \<le> 255"
    and r: "r = unat (ti_row m)" "r < 3" and c: "k = unat (ti_column m)" "k < length (keyboard ! r)"
    using ed by (auto simp: edits_def)
  note sz = rows(2) [of "ti_row m"]
  have sz: "unat (get_row_size (ti_row m)) = length (keyboard ! r)" "2 \<le> length (keyboard ! r)"
    "length (keyboard ! r) \<le> 14"
    using rows(2,3) [of "ti_row m"] row_le [OF r(2)] r by simp_all
  have last: "unat (get_row_size (ti_row m) - 1) = length (keyboard ! r) - 1"
    using sz by (subst unat_sub_small) auto
  have frame: "edits (m\<lparr>ti_row := w, ti_column := x\<rparr>) s (r1, k1)"
    if "unat w = r1" "r1 < 3" "unat x = k1" "k1 < length (keyboard ! r1)" for w x r1 k1
    using bs that by (simp add: edits_def)
  have frame_row: "edits (m\<lparr>ti_row := w\<rparr>) s (r1, k1)"
    if "unat w = r1" "r1 < 3" "k = k1" "k1 < length (keyboard ! r1)" for w r1 k1
    using frame [of w r1 "ti_column m" k1] that c by simp
  have frame_column: "edits (m\<lparr>ti_column := x\<rparr>) s (r, k1)"
    if "unat x = k1" "k1 < length (keyboard ! r)" for x k1
    using frame [of "ti_row m" r x k1] that r by simp
  show ?thesis
  proof (cases "ev_key e")
    case InputKeyUp
    have "edits (text_input_handle_up m) s (r - 1, k)"
    proof (cases "ti_row m > 0")
      case True
      then have "unat (ti_row m - 1) = r - 1" unfolding r by (intro dec_unat) auto
      moreover have "r - 1 < 3" using r by simp
      ultimately show ?thesis
        using True frame_row [of "ti_row m - 1" "r - 1" k] row_up [OF r(2) c(2)]
        by (simp add: text_input_handle_up_def)
    next
      case False
      then have "ti_row m = 0" by (simp add: word_gt_0)
      then show ?thesis using ed r by (simp add: text_input_handle_up_def)
    qed
    then show ?thesis
      using mv InputKeyUp
      by (auto simp: text_input_view_input_callback_def moves_def cursor_step_def Let_def
          text_input_handle_up_def same_client_def)
  next
    case InputKeyDown
    have "edits (text_input_handle_down m) s
        (if r < 2 then (r + 1, min k (length (keyboard ! (r + 1)) - 1)) else (r, k))"
    proof (cases "r < 2")
      case True
      have r1: "unat (ti_row m + 1) = r + 1" using True unfolding r by (intro inc_unat) simp
      have sz1: "unat (get_row_size (ti_row m + 1)) = length (keyboard ! (r + 1))"
        "2 \<le> length (keyboard ! (r + 1))"
        using rows(2,3) [of "ti_row m + 1"] r1 True by simp_all
      have last1: "unat (get_row_size (ti_row m + 1) - 1) = length (keyboard ! (r + 1)) - 1"
        using sz1 by (subst unat_sub_small) auto
      have cmp: "uint (ti_column m) > uint (get_row_size (ti_row m + 1)) - 1 \<longleftrightarrow>
          length (keyboard ! (r + 1)) - 1 < k"
        unfolding uint_nat sz1(1) c(1) [symmetric] using sz1(2) by arith
      show ?thesis
      proof (cases "length (keyboard ! (r + 1)) - 1 < k")
        case past: True
        then show ?thesis
          using True cmp frame [OF r1 _ last1] sz1(2) r(1)
          by (simp add: text_input_handle_down_def text_keyboard_row_count_def Let_def)
      next
        case False
        then show ?thesis
          using True cmp frame_row [OF r1 _ refl] sz1(2) r(1)
          by (simp add: text_input_handle_down_def text_keyboard_row_count_def Let_def min_def)
      qed
    next
      case False
      then show ?thesis using ed r
        by (simp add: text_input_handle_down_def text_keyboard_row_count_def)
    qed
    then show ?thesis
      using mv InputKeyDown
      by (auto simp: text_input_view_input_callback_def moves_def cursor_step_def Let_def
          text_input_handle_down_def same_client_def)
  next
    case InputKeyLeft
    have "edits (text_input_handle_left m) s (r, (k + length (keyboard ! r) - 1) mod length (keyboard ! r))"
    proof (cases "ti_column m > 0")
      case True
      then have k0: "0 < k" using c by (simp add: word_gt_0 unat_gt_0)
      have "unat (ti_column m - 1) = k - 1" using True unfolding c by (intro dec_unat) auto
      then show ?thesis
        using True frame_column [of "ti_column m - 1" "k - 1"] c(2) k0 ring_prev [OF c(2)]
        by (simp add: text_input_handle_left_def)
    next
      case False
      then have "k = 0" using c by (simp add: word_gt_0)
      then show ?thesis
        using False frame_column [OF last] sz(2) by (simp add: text_input_handle_left_def)
    qed
    then show ?thesis
      using mv InputKeyLeft
      by (auto simp: text_input_view_input_callback_def moves_def cursor_step_def Let_def
          text_input_handle_left_def same_client_def)
  next
    case InputKeyRight
    have cmp: "uint (ti_column m) < uint (get_row_size (ti_row m)) - 1 \<longleftrightarrow> k + 1 < length (keyboard ! r)"
      unfolding uint_nat sz(1) c(1) [symmetric] by arith
    have "edits (text_input_handle_right m) s (r, (k + 1) mod length (keyboard ! r))"
    proof (cases "k + 1 < length (keyboard ! r)")
      case True
      then have "unat (ti_column m + 1) = k + 1" using sz(3) unfolding c by (intro inc_unat) simp
      then show ?thesis
        using True cmp frame_column [of "ti_column m + 1" "k + 1"]
        by (simp add: text_input_handle_right_def)
    next
      case False
      then have "k + 1 = length (keyboard ! r)" using c by simp
      then show ?thesis
        using False cmp frame_column [of 0 0, OF unsigned_0] sz(2)
        by (cases "keyboard ! r") (simp_all add: text_input_handle_right_def)
    qed
    then show ?thesis
      using mv InputKeyRight
      by (auto simp: text_input_view_input_callback_def moves_def cursor_step_def Let_def
          text_input_handle_right_def same_client_def)
  qed (use ed mv k in \<open>auto simp: text_input_view_input_callback_def moves_def cursor_step_def Let_def\<close>)
qed

lemma set_char_ok:
  "ti_text m = Some bs \<Longrightarrow> i < length bs \<Longrightarrow> set_char i ch m = Inr (m\<lparr>ti_text := Some (bs[i := ch])\<rparr>)"
  by (simp add: set_char_def text_buffer_def)

definition enter_calls :: "char \<Rightarrow> string \<Rightarrow> text_input \<Rightarrow> text_input_call list" where
  "enter_calls ch s m =
     (case ti_callback m of
        Some cb \<Rightarrow> if ch = ENTER_KEY then [Text_Callback cb (ti_context m) s] else []
      | None \<Rightarrow> [])"

text \<open>
  What Ok does as long as there is room for one more character and the terminator.
\<close>

lemma text_ok:
  assumes ed: "edits m s (r, k)" and bs: "ti_text m = Some bs"
    and room: "length s < unat (ti_max m) \<Longrightarrow> length s + 1 < length bs"
  defines "ch \<equiv> keyboard ! r ! k"
  shows "\<exists>m1. text_input_handle_ok m = Inr (enter_calls ch s m, m1) \<and> same_client m m1 \<and>
    edits m1 (text_step (unat (ti_max m)) ch s) (r, k)"
proof -
  have cs: "c_string bs = Inr s" and len: "length s \<le> 255" and r: "r < 3" "k < length (keyboard ! r)"
    and rk: "(r, k) = (unat (ti_row m), unat (ti_column m))"
    using ed bs by (auto simp: edits_def)
  have ch: "ch \<noteq> nul" "capital s ch \<noteq> nul"
    using keys_not_nul [OF r(1), of ch] r(2) by (auto simp: ch_def)
  have l8: "unat (of_nat (length s) :: u8) = length s" using len by (simp add: unat_of_nat_small)
  have l0: "(of_nat (length s) :: u8) = 0 \<longleftrightarrow> s = []"
    using unat_eq_0 [of "of_nat (length s) :: u8"] unfolding l8 length_0_conv by (rule sym)
  have lt: "(of_nat (length s) :: u8) < ti_max m \<longleftrightarrow> length s < unat (ti_max m)"
    unfolding word_less_nat_alt l8 by simp
  have sel: "get_selected_char m = Inr ch" using selected_char [OF ed] by (simp add: ch_def)
  have EB: "ENTER_KEY \<noteq> BACKSPACE_KEY" by (simp add: ENTER_KEY_def BACKSPACE_KEY_def)
  consider "ch = ENTER_KEY" | "ch = BACKSPACE_KEY" | "ch \<noteq> ENTER_KEY" "ch \<noteq> BACKSPACE_KEY" by blast
  then show ?thesis
  proof cases
    case 1
    then show ?thesis using ed cs bs sel
      by (auto simp: text_input_handle_ok_def text_buffer_def text_step_def enter_calls_def Let_def
          split: option.split)
  next
    case 2
    show ?thesis
    proof (cases "s = []")
      case True
      then show ?thesis using 2 EB ed cs bs sel
        by (auto simp: text_input_handle_ok_def text_buffer_def text_step_def enter_calls_def Let_def
            split: option.split)
    next
      case False
      let ?bs1 = "bs[length s - 1 := nul]"
      have "length s - 1 < length bs" using c_string_length [OF cs] by simp
      note set = set_char_ok [OF bs this, of nul]
      have "(of_nat (length s) :: u8) > 0" using False l0 by (simp add: word_gt_0)
      then have "text_input_handle_ok m = Inr (enter_calls ch s m, m\<lparr>ti_text := Some ?bs1\<rparr>)"
        using 2 EB cs bs sel set l8
        by (auto simp: text_input_handle_ok_def text_buffer_def enter_calls_def Let_def split: option.split)
      moreover have "edits (m\<lparr>ti_text := Some ?bs1\<rparr>) (butlast s) (r, k)"
        using c_string_erase [OF cs False] len r rk by (simp add: edits_def)
      ultimately show ?thesis using 2 EB bs by (auto simp: text_step_def same_client_def)
    qed
  next
    case 3
    show ?thesis
    proof (cases "length s < unat (ti_max m)")
      case True
      let ?c = "capital s ch"
      let ?bs1 = "bs[length s := ?c]" let ?bs2 = "?bs1[length s + 1 := nul]"
      note room1 = room [OF True]
      have set1: "set_char (length s) ?c m = Inr (m\<lparr>ti_text := Some ?bs1\<rparr>)"
        using room1 by (intro set_char_ok [OF bs]) simp
      have set2: "set_char (length s + 1) nul (m\<lparr>ti_text := Some ?bs1\<rparr>) = Inr (m\<lparr>ti_text := Some ?bs2\<rparr>)"
        using room1 set_char_ok [of "m\<lparr>ti_text := Some ?bs1\<rparr>" ?bs1 "length s + 1" nul] by simp
      have cap: "?c = (if (of_nat (length s) :: u8) = 0 \<and> char_is_lowercase ch then char_to_uppercase ch else ch)"
        using l0 by (simp add: capital_def)
      have "text_input_handle_ok m = Inr (enter_calls ch s m, m\<lparr>ti_text := Some ?bs2\<rparr>)"
        using 3 cs bs sel set1 set2 l8 lt True
        by (simp add: text_input_handle_ok_def text_buffer_def enter_calls_def Let_def cap [symmetric]
            split: option.split)
      moreover have "edits (m\<lparr>ti_text := Some ?bs2\<rparr>) (s @ [?c]) (r, k)"
        using c_string_type [OF cs room1 ch(2)] True unat_le_u8 [of "ti_max m"] r rk
        by (simp add: edits_def)
      ultimately show ?thesis using 3 bs True by (auto simp: text_step_def same_client_def)
    next
      case False
      then show ?thesis using 3 ed cs bs sel lt
        by (auto simp: text_input_handle_ok_def text_buffer_def text_step_def enter_calls_def Let_def
            split: option.split)
    qed
  qed
qed

section \<open>Every sequence of keys\<close>

definition text_event :: "text_input \<Rightarrow> input_event \<Rightarrow> (text_input_call list \<times> text_input) res" where
  "text_event m e = bindE (text_input_view_input_callback e m) (\<lambda>(_, cs, m1). Inr (cs, m1))"

text \<open>The specification: the strings handed over, and the string and cursor at the end.\<close>

fun editor_run ::
    "nat \<Rightarrow> string \<Rightarrow> nat \<times> nat \<Rightarrow> input_event list \<Rightarrow> string list \<times> string \<times> nat \<times> nat" where
  "editor_run mx s rk [] = ([], s, rk)"
| "editor_run mx s rk (e # es) =
     (let ch = keyboard ! fst rk ! snd rk; ok = (moves e \<and> ev_key e = InputKeyOk);
          s1 = (if ok then text_step mx ch s else s)
      in case editor_run mx s1 (cursor_step e rk) es of
           (out, r) \<Rightarrow> ((if ok \<and> ch = ENTER_KEY then [s] else []) @ out, r))"

definition handed :: "text_input \<Rightarrow> string list \<Rightarrow> text_input_call list" where
  "handed m out = (case ti_callback m of None \<Rightarrow> [] | Some cb \<Rightarrow> map (Text_Callback cb (ti_context m)) out)"

lemma handed_append [simp]: "handed m (a @ b) = handed m a @ handed m b"
  by (simp add: handed_def split: option.split)

lemma handed_Nil [simp]: "handed m [] = []"
  by (simp add: handed_def split: option.split)

lemma enter_calls_handed: "enter_calls ch s m = handed m (if ch = ENTER_KEY then [s] else [])"
  by (simp add: enter_calls_def handed_def split: option.split)

lemma handed_client: "same_client m m1 \<Longrightarrow> handed m1 out = handed m out"
  by (auto simp: same_client_def handed_def split: option.split)

lemma text_event_ok:
  assumes "edits m s rk" and bs: "ti_text m = Some bs"
    and "length s < unat (ti_max m) \<Longrightarrow> length s + 1 < length bs"
  defines "ch \<equiv> keyboard ! fst rk ! snd rk" and "ok \<equiv> \<lambda>e. moves e \<and> ev_key e = InputKeyOk"
  shows "\<exists>m1. text_event m e = Inr (handed m (if ok e \<and> ch = ENTER_KEY then [s] else []), m1) \<and>
    same_client m m1 \<and> edits m1 (if ok e then text_step (unat (ti_max m)) ch s else s) (cursor_step e rk)"
proof -
  obtain r k where rk: "rk = (r, k)" by (cases rk)
  consider "ok e" | "\<not> moves e" | "moves e" "ev_key e \<noteq> InputKeyOk" by (auto simp: ok_def)
  then show ?thesis
  proof cases
    case 1
    from text_ok [OF assms(1) [unfolded rk] assms(2,3)] obtain m1 where
      "text_input_handle_ok m = Inr (enter_calls ch s m, m1)" "same_client m m1"
      "edits m1 (text_step (unat (ti_max m)) ch s) (r, k)" unfolding ch_def rk by auto
    with 1 show ?thesis
      by (auto simp: ok_def moves_def text_event_def text_input_view_input_callback_def rk cursor_step_def
          Let_def enter_calls_handed)
  next
    case 2
    with assms(1) show ?thesis
      by (auto simp: ok_def moves_def text_event_def text_input_view_input_callback_def rk cursor_step_def
          Let_def)
  next
    case 3
    from text_moves [OF assms(1) [unfolded rk] this] 3 show ?thesis
      by (auto simp: text_event_def ok_def rk)
  qed
qed

lemma editor_run_refines:
  "edits m s rk \<Longrightarrow> roomy m \<Longrightarrow>
     \<exists>css m1. runE text_event m es = Inr (css, m1) \<and> same_client m m1 \<and>
       concat css = handed m (fst (editor_run (unat (ti_max m)) s rk es)) \<and>
       edits m1 (fst (snd (editor_run (unat (ti_max m)) s rk es)))
         (snd (snd (editor_run (unat (ti_max m)) s rk es)))"
proof (induction es arbitrary: m s rk)
  case (Cons e es)
  let ?ch = "keyboard ! fst rk ! snd rk" and ?ok = "moves e \<and> ev_key e = InputKeyOk"
  let ?s1 = "if ?ok then text_step (unat (ti_max m)) ?ch s else s"
  obtain bs where bs: "ti_text m = Some bs" "unat (ti_max m) < length bs"
    using Cons.prems(2) by (auto simp: roomy_def)
  then have "length s < unat (ti_max m) \<Longrightarrow> length s + 1 < length bs" by simp
  from text_event_ok [OF Cons.prems(1) bs(1) this, of e] obtain m1 where 1:
    "text_event m e = Inr (handed m (if ?ok \<and> ?ch = ENTER_KEY then [s] else []), m1)"
    "same_client m m1" "edits m1 ?s1 (cursor_step e rk)" by blast
  have mx: "ti_max m1 = ti_max m" using 1(2) by (simp add: same_client_def)
  have "roomy m1" using same_client_roomy [OF 1(2)] Cons.prems(2) by simp
  from Cons.IH [OF 1(3) this, unfolded mx] obtain css m2 where 2:
    "runE text_event m1 es = Inr (css, m2)" "same_client m1 m2"
    "concat css = handed m1 (fst (editor_run (unat (ti_max m)) ?s1 (cursor_step e rk) es))"
    "edits m2 (fst (snd (editor_run (unat (ti_max m)) ?s1 (cursor_step e rk) es)))
       (snd (snd (editor_run (unat (ti_max m)) ?s1 (cursor_step e rk) es)))" by blast
  show ?case
    using 1(1) 2 same_client_trans [OF 1(2) 2(2)] handed_client [OF 1(2)]
    by (simp add: Let_def case_prod_beta)
qed simp

text \<open>
  C15. The text keyboard is a text editor. As long as the array has one place more than the
  announced length, no sequence of keys faults; the cursor moves over the three rows of the
  keyboard (left and right around a row, down to the last key of a shorter one); Ok types the
  letter under it, capital if it is the first, unless the text has the announced length; the
  backspace key erases the last letter; and each press on the enter key hands over the text as it
  is then.
\<close>

theorem text_input_refines_editor:
  assumes "edits m s rk" and "roomy m"
  shows "\<exists>css m1. runE text_event m es = Inr (css, m1) \<and>
    concat css = handed m (fst (editor_run (unat (ti_max m)) s rk es)) \<and>
    (case snd (editor_run (unat (ti_max m)) s rk es) of (s1, rk1) \<Rightarrow> edits m1 s1 rk1)"
  using editor_run_refines [OF assms, of es] by (auto simp: case_prod_beta)

definition demo_text :: text_input where
  "demo_text = text_input_set_result_callback (Some 5) None (Some (replicate 4 nul)) 3 text_input_alloc"

definition key_events :: "input_key list \<Rightarrow> input_event list" where
  "key_events = map (\<lambda>k. \<lparr>ev_key = k, ev_type = InputTypeShort\<rparr>)"

theorem text_input_refines_editor_witness:
  "\<exists>css m1. runE text_event demo_text
      (key_events [InputKeyOk, InputKeyRight, InputKeyOk, InputKeyLeft, InputKeyDown, InputKeyDown,
                   InputKeyLeft, InputKeyOk]) = Inr (css, m1) \<and>
     concat css = [Text_Callback 5 None ''Qw''] \<and> edits m1 ''Qw'' (2, 11)"
proof -
  have "edits demo_text [] (0, 0)"
    by (simp add: edits_def demo_text_def text_input_set_result_callback_def text_input_alloc_def
        c_string_def keyboard_def numeral_eq_Suc)
  moreover have "roomy demo_text"
    by (simp add: roomy_def demo_text_def text_input_set_result_callback_def)
  moreover have "ti_callback demo_text = Some 5" "ti_context demo_text = None" "unat (ti_max demo_text) = 3"
    by (simp_all add: demo_text_def text_input_set_result_callback_def text_input_alloc_def)
  moreover have "editor_run 3 [] (0, 0)
      (key_events [InputKeyOk, InputKeyRight, InputKeyOk, InputKeyLeft, InputKeyDown, InputKeyDown,
                   InputKeyLeft, InputKeyOk]) = ([''Qw''], ''Qw'', (2, 11))"
    by code_simp
  ultimately show ?thesis
    using text_input_refines_editor [of demo_text "[]" "(0, 0)"
      "key_events [InputKeyOk, InputKeyRight, InputKeyOk, InputKeyLeft, InputKeyDown, InputKeyDown,
                   InputKeyLeft, InputKeyOk]"]
    by (simp add: handed_def)
qed

section \<open>The length of the array\<close>

text \<open>A client as the documentation describes it: an array of \<open>n\<close> zeros, announced as \<open>mx\<close> long.\<close>

definition text_client :: "nat option \<Rightarrow> nat \<Rightarrow> u8 \<Rightarrow> text_input" where
  "text_client cb n mx =
     text_input_set_result_callback cb None (Some (replicate n nul)) mx text_input_alloc"

definition ok_key :: input_event where
  "ok_key = \<lparr>ev_key = InputKeyOk, ev_type = InputTypeShort\<rparr>"

lemma text_client_edits: "0 < n \<Longrightarrow> edits (text_client cb n mx) [] (0, 0)"
  by (simp add: edits_def text_client_def text_input_set_result_callback_def text_input_alloc_def
      c_string_def keyboard_def)

lemma type_ok_keys:
  assumes "0 < n" and "k < n" and "n \<le> unat mx"
  shows "\<exists>css m1 s. runE text_event (text_client cb n mx) (replicate k ok_key) = Inr (css, m1) \<and>
    same_client (text_client cb n mx) m1 \<and> edits m1 s (0, 0) \<and> length s = k"
  using assms(2)
proof (induction k)
  case 0
  then show ?case using text_client_edits [OF assms(1)] by auto
next
  case (Suc k)
  then obtain css m1 s where 1: "runE text_event (text_client cb n mx) (replicate k ok_key) = Inr (css, m1)"
    "same_client (text_client cb n mx) m1" "edits m1 s (0, 0)" "length s = k" by auto
  obtain bs where bs: "ti_text m1 = Some bs" using 1(3) by (auto simp: edits_def)
  have mx: "ti_max m1 = mx" "length bs = n"
    using 1(2) bs
    by (auto simp: same_client_def text_client_def text_input_set_result_callback_def)
  have room: "length s < unat (ti_max m1) \<Longrightarrow> length s + 1 < length bs"
    using Suc.prems 1(4) mx by simp
  have key: "keyboard ! 0 ! 0 = CHR ''q''" by (simp add: keyboard_def)
  from text_event_ok [OF 1(3) bs room, of ok_key] obtain cs m2 where 2:
    "text_event m1 ok_key = Inr (cs, m2)" "same_client m1 m2"
    "edits m2 (text_step (unat (ti_max m1)) CHR ''q'' s) (0, 0)"
    by (auto simp: ok_key_def moves_def cursor_step_def Let_def key)
  have "length (text_step (unat (ti_max m1)) CHR ''q'' s) = Suc k"
    using 1(4) mx Suc.prems assms(3) by (simp add: text_step_def ENTER_KEY_def BACKSPACE_KEY_def)
  moreover have "replicate (Suc k) ok_key = replicate k ok_key @ [ok_key]"
    by (simp add: replicate_append_same)
  ultimately show ?case
    using 1(1) 2 same_client_trans [OF 1(2) 2(2)] by (auto simp: runE_append simp del: replicate_Suc)
qed

lemma type_overflows:
  assumes "edits m s (0, 0)" and "ti_text m = Some bs" and "length s + 1 = length bs"
    and "length bs \<le> unat (ti_max m)"
  shows "text_event m ok_key = Inl Out_Of_Bounds"
proof -
  have sel: "get_selected_char m = Inr CHR ''q''"
    using selected_char [OF assms(1)] by (simp add: keyboard_def)
  have cs: "c_string bs = Inr s" and len: "length s \<le> 255" using assms(1,2) by (auto simp: edits_def)
  have l8: "unat (of_nat (length s) :: u8) = length s" using len by (simp add: unat_of_nat_small)
  have "(of_nat (length s) :: u8) < ti_max m"
    unfolding word_less_nat_alt l8 using assms(3,4) by simp
  then show ?thesis
    using sel cs assms(2,3) l8
    by (simp add: text_event_def text_input_view_input_callback_def ok_key_def text_input_handle_ok_def
        text_buffer_def Let_def set_char_def ENTER_KEY_def BACKSPACE_KEY_def)
qed

text \<open>
  The announced length must be less than the length of the array: a client whose array is
  exactly as long as announced, as the header documents it, is overrun by one zero as soon as the
  user types that many letters; with one place more no sequence of keys writes outside the array.
\<close>

theorem text_input_in_bounds_iff:
  assumes "0 < n"
  shows "(\<forall>es. \<exists>css m. runE text_event (text_client cb n mx) es = Inr (css, m)) \<longleftrightarrow> unat mx < n"
proof
  assume "unat mx < n"
  then have "roomy (text_client cb n mx)"
    by (simp add: roomy_def text_client_def text_input_set_result_callback_def)
  from editor_run_refines [OF text_client_edits [OF assms] this]
  show "\<forall>es. \<exists>css m. runE text_event (text_client cb n mx) es = Inr (css, m)" by blast
next
  assume all: "\<forall>es. \<exists>css m. runE text_event (text_client cb n mx) es = Inr (css, m)"
  show "unat mx < n"
  proof (rule ccontr)
    assume "\<not> unat mx < n"
    then have mx: "n \<le> unat mx" by simp
    have "n - 1 < n" using assms by simp
    from type_ok_keys [OF assms this mx] obtain css m1 s where 1:
      "runE text_event (text_client cb n mx) (replicate (n - 1) ok_key) = Inr (css, m1)"
      "same_client (text_client cb n mx) m1" "edits m1 s (0, 0)" "length s = n - 1" by blast
    obtain bs where bs: "ti_text m1 = Some bs" using 1(3) by (auto simp: edits_def)
    have "length bs = n" "ti_max m1 = mx"
      using 1(2) bs by (auto simp: same_client_def text_client_def text_input_set_result_callback_def)
    then have "text_event m1 ok_key = Inl Out_Of_Bounds"
      using type_overflows [OF 1(3) bs] 1(4) assms mx by simp
    then have "runE text_event (text_client cb n mx) (replicate (n - 1) ok_key @ [ok_key]) = Inl Out_Of_Bounds"
      using 1(1) by (simp add: runE_append)
    then show False using all by (metis Inl_Inr_False)
  qed
qed

theorem text_input_in_bounds_iff_witness:
  "(\<forall>es. \<exists>css m. runE text_event (text_client None 4 3) es = Inr (css, m)) \<and>
   \<not> (\<forall>es. \<exists>css m. runE text_event (text_client None 4 4) es = Inr (css, m))"
  using text_input_in_bounds_iff [of 4 None 3] text_input_in_bounds_iff [of 4 None 4] by simp

end
