(* ===== verification/Menu.thy ===== *)
theory Menu
  imports Canvas Input
begin

text \<open>
  The main menu: \<^verbatim>\<open>applications/menu/menu.c\<close>, \<^verbatim>\<open>menu_item.c\<close> and \<^verbatim>\<open>menu_event.c\<close>. Items live in a
  heap, a function from addresses (items are never released); a pointer is \<open>None\<close> or the address
  of an item. The calls that leave the component (view port, GUI, callbacks of items) are a
  trace. \<open>dbg\<close> is the build, \<open>now\<close> the tick count and \<open>freq\<close> the tick frequency of the kernel.
\<close>

section \<open>Items\<close>

datatype menu_item_type = MenuItemTypeMenu | MenuItemTypeFunction

record menu_item =
  mi_type :: menu_item_type
  mi_label :: "string option"
  mi_icon :: "nat option"
  mi_position :: u32
  mi_parent :: "nat option"
  mi_data :: "nat list"
  mi_callback :: "nat option"
  mi_context :: "nat option"

record menu =
  mn_icon :: "nat option"
  mn_root :: "nat option"
  mn_settings :: "nat option"
  mn_current :: "nat option"
  mn_items :: "nat \<Rightarrow> menu_item"
  mn_icons :: "nat \<Rightarrow> icon"

datatype menu_call =
    Port_Enabled bool
  | Port_Update
  | Port_To_Back
  | Item_Callback nat "nat option"

text \<open>Every operation asserts its pointer and then follows it.\<close>

definition item_at :: "bool \<Rightarrow> nat option \<Rightarrow> nat res" where
  "item_at dbg p =
     furi_assert dbg (p \<noteq> None) (case p of None \<Rightarrow> Inl Null_Pointer | Some a \<Rightarrow> Inr a)"

definition menu_item_alloc_menu :: "string option \<Rightarrow> nat option \<Rightarrow> menu_item" where
  "menu_item_alloc_menu label ic =
     \<lparr>mi_type = MenuItemTypeMenu, mi_label = label, mi_icon = ic, mi_position = 0, mi_parent = None,
      mi_data = [], mi_callback = None, mi_context = None\<rparr>"

definition menu_item_alloc_function ::
    "string option \<Rightarrow> nat option \<Rightarrow> nat option \<Rightarrow> nat option \<Rightarrow> menu_item" where
  "menu_item_alloc_function label ic cb ctx =
     \<lparr>mi_type = MenuItemTypeFunction, mi_label = label, mi_icon = ic, mi_position = 0,
      mi_parent = None, mi_data = [], mi_callback = cb, mi_context = ctx\<rparr>"

definition menu_item_get_parent :: "bool \<Rightarrow> nat option \<Rightarrow> menu \<Rightarrow> nat option res" where
  "menu_item_get_parent dbg p m = bindE (item_at dbg p) (\<lambda>a. Inr (mi_parent (mn_items m a)))"

definition set_item :: "nat \<Rightarrow> menu_item \<Rightarrow> menu \<Rightarrow> menu" where
  "set_item a it m = m\<lparr>mn_items := (mn_items m)(a := it)\<rparr>"

definition menu_item_subitem_add :: "bool \<Rightarrow> nat option \<Rightarrow> nat option \<Rightarrow> menu \<Rightarrow> menu res" where
  "menu_item_subitem_add dbg p sub m =
     bindE (item_at dbg p) (\<lambda>a.
     furi_check (mi_type (mn_items m a) = MenuItemTypeMenu)
       (case sub of
          None \<Rightarrow> Inl Null_Pointer
        | Some b \<Rightarrow>
            (let m1 = set_item b ((mn_items m b)\<lparr>mi_parent := Some a\<rparr>) m
             in Inr (set_item a ((mn_items m1 a)\<lparr>mi_data := mi_data (mn_items m1 a) @ [b]\<rparr>) m1))))"

definition menu_item_get_type :: "bool \<Rightarrow> nat option \<Rightarrow> menu \<Rightarrow> menu_item_type res" where
  "menu_item_get_type dbg p m = bindE (item_at dbg p) (\<lambda>a. Inr (mi_type (mn_items m a)))"

definition menu_item_set_position :: "bool \<Rightarrow> nat option \<Rightarrow> u32 \<Rightarrow> menu \<Rightarrow> menu res" where
  "menu_item_set_position dbg p pos m =
     bindE (item_at dbg p) (\<lambda>a. Inr (set_item a ((mn_items m a)\<lparr>mi_position := pos\<rparr>) m))"

definition menu_item_get_position :: "bool \<Rightarrow> nat option \<Rightarrow> menu \<Rightarrow> u32 res" where
  "menu_item_get_position dbg p m = bindE (item_at dbg p) (\<lambda>a. Inr (mi_position (mn_items m a)))"

definition menu_item_set_label :: "bool \<Rightarrow> nat option \<Rightarrow> string option \<Rightarrow> menu \<Rightarrow> menu res" where
  "menu_item_set_label dbg p label m =
     bindE (item_at dbg p) (\<lambda>a. Inr (set_item a ((mn_items m a)\<lparr>mi_label := label\<rparr>) m))"

definition menu_item_get_label :: "bool \<Rightarrow> nat option \<Rightarrow> menu \<Rightarrow> string option res" where
  "menu_item_get_label dbg p m = bindE (item_at dbg p) (\<lambda>a. Inr (mi_label (mn_items m a)))"

definition menu_item_set_icon :: "bool \<Rightarrow> nat option \<Rightarrow> nat option \<Rightarrow> menu \<Rightarrow> menu res" where
  "menu_item_set_icon dbg p ic m =
     bindE (item_at dbg p) (\<lambda>a. Inr (set_item a ((mn_items m a)\<lparr>mi_icon := ic\<rparr>) m))"

definition menu_item_get_icon :: "bool \<Rightarrow> nat option \<Rightarrow> menu \<Rightarrow> nat option res" where
  "menu_item_get_icon dbg p m = bindE (item_at dbg p) (\<lambda>a. Inr (mi_icon (mn_items m a)))"

definition menu_item_get_subitems :: "bool \<Rightarrow> nat option \<Rightarrow> menu \<Rightarrow> nat list res" where
  "menu_item_get_subitems dbg p m =
     bindE (item_at dbg p) (\<lambda>a.
       furi_check (mi_type (mn_items m a) = MenuItemTypeMenu) (Inr (mi_data (mn_items m a))))"

definition menu_item_function_call :: "bool \<Rightarrow> nat option \<Rightarrow> menu \<Rightarrow> menu_call list res" where
  "menu_item_function_call dbg p m =
     bindE (item_at dbg p) (\<lambda>a.
       furi_check (mi_type (mn_items m a) = MenuItemTypeFunction)
         (Inr (case mi_callback (mn_items m a) of
                 None \<Rightarrow> [] | Some cb \<Rightarrow> [Item_Callback cb (mi_context (mn_items m a))])))"

section \<open>The menu\<close>

text \<open>\<^verbatim>\<open>menu_build_main\<close>: the root is a new item, at a fresh address.\<close>

definition menu_build_main :: "nat \<Rightarrow> menu \<Rightarrow> menu" where
  "menu_build_main a m = (set_item a (menu_item_alloc_menu None None) m)\<lparr>mn_root := Some a\<rparr>"

definition menu_item_add :: "bool \<Rightarrow> nat option \<Rightarrow> menu \<Rightarrow> menu res" where
  "menu_item_add dbg it m = menu_item_subitem_add dbg (mn_root m) it m"

definition menu_settings_item_add :: "bool \<Rightarrow> nat option \<Rightarrow> menu \<Rightarrow> menu res" where
  "menu_settings_item_add dbg it m = menu_item_subitem_add dbg (mn_settings m) it m"

definition menu_set_icon :: "u32 \<Rightarrow> nat option \<Rightarrow> menu \<Rightarrow> menu" where
  "menu_set_icon now ic m =
     (let m1 = (case mn_icon m of
                  None \<Rightarrow> m
                | Some i \<Rightarrow> m\<lparr>mn_icons := (mn_icons m)(i := icon_stop_animation (mn_icons m i))\<rparr>);
          m2 = m1\<lparr>mn_icon := ic\<rparr>
      in case ic of
           None \<Rightarrow> m2
         | Some i \<Rightarrow> m2\<lparr>mn_icons := (mn_icons m2)(i := icon_start_animation now (mn_icons m2 i))\<rparr>)"

definition menu_update :: "bool \<Rightarrow> u32 \<Rightarrow> menu \<Rightarrow> (menu_call list \<times> menu) res" where
  "menu_update dbg now m =
     bindE
       (if mn_current m \<noteq> None then
          bindE (menu_item_get_position dbg (mn_current m) m) (\<lambda>position.
          bindE (menu_item_get_subitems dbg (mn_current m) m) (\<lambda>items.
            if length items \<noteq> 0 then
              bindE (arr_get items (unat position)) (\<lambda>it.
              bindE (menu_item_get_icon dbg (Some it) m) (\<lambda>ic. Inr (menu_set_icon now ic m)))
            else Inr m))
        else Inr m)
       (\<lambda>m1. Inr ([Port_Update], m1))"

text \<open>The size of the array is a \<^verbatim>\<open>size_t\<close>.\<close>

definition menu_up :: "bool \<Rightarrow> u32 \<Rightarrow> menu \<Rightarrow> (menu_call list \<times> menu) res" where
  "menu_up dbg now m =
     bindE (menu_item_get_position dbg (mn_current m) m) (\<lambda>position.
     bindE (menu_item_get_subitems dbg (mn_current m) m) (\<lambda>items.
       let position1 = (if position = 0 then of_nat (length items) else position) in
     bindE (menu_item_set_position dbg (mn_current m) (position1 - 1) m) (\<lambda>m1. menu_update dbg now m1)))"

definition menu_down :: "bool \<Rightarrow> u32 \<Rightarrow> menu \<Rightarrow> (menu_call list \<times> menu) res" where
  "menu_down dbg now m =
     bindE (menu_item_get_position dbg (mn_current m) m) (\<lambda>position.
     bindE (menu_item_get_subitems dbg (mn_current m) m) (\<lambda>items.
       if length items = 0 then Inl Div_Zero
       else
         bindE (menu_item_set_position dbg (mn_current m) ((position + 1) mod of_nat (length items)) m)
           (\<lambda>m1. menu_update dbg now m1)))"

definition menu_ok :: "bool \<Rightarrow> u32 \<Rightarrow> menu \<Rightarrow> (menu_call list \<times> menu) res" where
  "menu_ok dbg now m =
     (if mn_current m = None then
        bindE (menu_item_set_position dbg (mn_root m) 0 (m\<lparr>mn_current := mn_root m\<rparr>)) (\<lambda>m1.
        bindE (menu_update dbg now m1) (\<lambda>(cs, m2). Inr (Port_Enabled True # cs, m2)))
      else
        bindE (menu_item_get_subitems dbg (mn_current m) m) (\<lambda>items.
          if length items = 0 then Inr ([], m)
          else
            bindE (menu_item_get_position dbg (mn_current m) m) (\<lambda>position.
            bindE (arr_get items (unat position)) (\<lambda>it.
            bindE (menu_item_get_type dbg (Some it) m) (\<lambda>type.
              case type of
                MenuItemTypeMenu \<Rightarrow>
                  bindE (menu_item_set_position dbg (Some it) 0 (m\<lparr>mn_current := Some it\<rparr>))
                    (\<lambda>m1. menu_update dbg now m1)
              | MenuItemTypeFunction \<Rightarrow>
                  bindE (menu_item_function_call dbg (Some it) m) (\<lambda>cs.
                    Inr (cs @ [Port_To_Back], m)))))))"

definition menu_exit :: "bool \<Rightarrow> u32 \<Rightarrow> menu \<Rightarrow> (menu_call list \<times> menu) res" where
  "menu_exit dbg now m =
     bindE (menu_update dbg now (m\<lparr>mn_current := None\<rparr>)) (\<lambda>(cs, m1).
       Inr (Port_Enabled False # cs, m1))"

definition menu_back :: "bool \<Rightarrow> u32 \<Rightarrow> menu \<Rightarrow> (menu_call list \<times> menu) res" where
  "menu_back dbg now m =
     bindE (menu_item_get_parent dbg (mn_current m) m) (\<lambda>parent.
       case parent of
         Some a \<Rightarrow> menu_update dbg now (m\<lparr>mn_current := Some a\<rparr>)
       | None \<Rightarrow> menu_exit dbg now m)"

section \<open>Messages\<close>

datatype menu_message =
    MenuMessageTypeUp
  | MenuMessageTypeDown
  | MenuMessageTypeLeft
  | MenuMessageTypeRight
  | MenuMessageTypeOk
  | MenuMessageTypeBack
  | MenuMessageTypeIdle
  | MenuMessageTypeUnknown

text \<open>What the input callback puts into the queue of the thread.\<close>

definition menu_event_input_callback :: "input_event \<Rightarrow> menu_message list" where
  "menu_event_input_callback e =
     (if ev_type e \<noteq> InputTypeShort then []
      else [case ev_key e of
              InputKeyUp \<Rightarrow> MenuMessageTypeUp
            | InputKeyDown \<Rightarrow> MenuMessageTypeDown
            | InputKeyRight \<Rightarrow> MenuMessageTypeRight
            | InputKeyLeft \<Rightarrow> MenuMessageTypeLeft
            | InputKeyOk \<Rightarrow> MenuMessageTypeOk
            | InputKeyBack \<Rightarrow> MenuMessageTypeBack])"

text \<open>One turn of the loop of the thread.\<close>

definition menu_task_step :: "bool \<Rightarrow> u32 \<Rightarrow> menu \<Rightarrow> menu_message \<Rightarrow> (menu_call list \<times> menu) res" where
  "menu_task_step dbg now m msg =
     (if mn_current m = None \<and> msg \<noteq> MenuMessageTypeOk then Inr ([], m)
      else case msg of
        MenuMessageTypeUp \<Rightarrow> menu_up dbg now m
      | MenuMessageTypeDown \<Rightarrow> menu_down dbg now m
      | MenuMessageTypeOk \<Rightarrow> menu_ok dbg now m
      | MenuMessageTypeLeft \<Rightarrow> menu_back dbg now m
      | MenuMessageTypeRight \<Rightarrow> menu_ok dbg now m
      | MenuMessageTypeBack \<Rightarrow> menu_back dbg now m
      | MenuMessageTypeIdle \<Rightarrow> menu_exit dbg now m
      | MenuMessageTypeUnknown \<Rightarrow> Inr ([], m))"

section \<open>Drawing\<close>

text \<open>A null label or icon is not drawn. Drawing an icon may move its animation.\<close>

definition draw_label :: "u8 \<Rightarrow> u8 \<Rightarrow> string option \<Rightarrow> draw" where
  "draw_label x y label = (case label of None \<Rightarrow> draw_nothing | Some l \<Rightarrow> canvas_draw_str x y l)"

definition menu_draw_line ::
    "bool \<Rightarrow> u32 \<Rightarrow> u32 \<Rightarrow> font \<Rightarrow> u32 \<Rightarrow> u8 \<Rightarrow> u8 \<Rightarrow> menu \<Rightarrow> canvas \<Rightarrow> (u8g2_call list \<times> menu \<times> canvas) res" where
  "menu_draw_line dbg now freq f k yi ys m c0 =
     bindE (canvas_set_font f c0) (\<lambda>(cs0, c1).
     bindE (menu_item_get_position dbg (mn_current m) m) (\<lambda>position.
     bindE (menu_item_get_subitems dbg (mn_current m) m) (\<lambda>items.
       let n = of_nat (length items) in
     bindE (if n = 0 then Inl Div_Zero else arr_get items (unat ((k + position + n - 1) mod n))) (\<lambda>it.
     bindE (menu_item_get_icon dbg (Some it) m) (\<lambda>ic.
     bindE (case ic of
              None \<Rightarrow> Inr ([], m, c1)
            | Some i \<Rightarrow>
                bindE (canvas_draw_icon now freq 4 yi (mn_icons m i) c1) (\<lambda>(cs, i1, c2).
                  Inr (cs, m\<lparr>mn_icons := (mn_icons m)(i := i1)\<rparr>, c2))) (\<lambda>(cs1, m1, c2).
     bindE (menu_item_get_label dbg (Some it) m1) (\<lambda>label.
     bindE (draw_label 22 ys label c2) (\<lambda>(cs2, c3). Inr (cs0 @ cs1 @ cs2, m1, c3)))))))))"

definition add_calls ::
    "u8g2_call list \<Rightarrow> menu \<Rightarrow> (u8g2_call list \<times> canvas) res option \<Rightarrow>
       (u8g2_call list \<times> menu \<times> canvas) res option" where
  "add_calls cs m r = map_option (\<lambda>r1. bindE r1 (\<lambda>(cs1, c). Inr (cs @ cs1, m, c))) r"

text \<open>
  \<open>acq\<close> tells whether the mutex of the menu was acquired in time. The result is \<open>None\<close> when the
  scrollbar is never finished.
\<close>

definition menu_view_port_callback ::
    "bool \<Rightarrow> bool \<Rightarrow> u32 \<Rightarrow> u32 \<Rightarrow> menu \<Rightarrow> canvas \<Rightarrow> (u8g2_call list \<times> menu \<times> canvas) res option" where
  "menu_view_port_callback dbg acq now freq m c =
     (if \<not> acq then Some (Inr ([], m, c))
      else if dbg \<and> mn_current m = None then Some (Inl Assert_Failed)
      else case bindE (menu_item_get_position dbg (mn_current m) m) (\<lambda>position.
                bindE (menu_item_get_subitems dbg (mn_current m) m) (\<lambda>items.
                  Inr (position, length items))) of
        Inl e \<Rightarrow> Some (Inl e)
      | Inr (position, n) \<Rightarrow>
          if n \<noteq> 0 then
            (case bindE (draws [canvas_clear, canvas_set_color ColorBlack] c) (\<lambda>(cs0, c0).
                  bindE (menu_draw_line dbg now freq FontSecondary 0 3 14 m c0) (\<lambda>(cs1, m1, c1).
                  bindE (menu_draw_line dbg now freq FontPrimary 1 25 36 m1 c1) (\<lambda>(cs2, m2, c2).
                  bindE (menu_draw_line dbg now freq FontSecondary 2 47 58 m2 c2) (\<lambda>(cs3, m3, c3).
                  bindE (elements_frame 0 21 (128 - 5) 21 c3) (\<lambda>(cs4, c4).
                    Inr (cs0 @ cs1 @ cs2 @ cs3 @ cs4, m3, c4)))))) of
               Inl e \<Rightarrow> Some (Inl e)
             | Inr (cs, m1, c1) \<Rightarrow>
                 add_calls cs m1 (elements_scrollbar (ucast position) (of_nat n) c1))
          else
            (case draws [canvas_clear, canvas_set_color ColorBlack, canvas_draw_str 2 32 ''Empty''] c of
               Inl e \<Rightarrow> Some (Inl e)
             | Inr (cs, c1) \<Rightarrow> add_calls cs m (elements_scrollbar 0 0 c1)))"

section \<open>The specification: a stack of menus\<close>

text \<open>
  The tree the clients have built: every menu has items (and fewer than \<open>2 ^ 31\<close>), whose parent
  it is; the root has no parent.
\<close>

definition menu_tree :: "(nat \<Rightarrow> menu_item) \<Rightarrow> nat \<Rightarrow> bool" where
  "menu_tree its r \<longleftrightarrow>
     mi_type (its r) = MenuItemTypeMenu \<and> mi_parent (its r) = None \<and>
     (\<forall>a. mi_type (its a) = MenuItemTypeMenu \<longrightarrow>
        mi_data (its a) \<noteq> [] \<and> length (mi_data (its a)) < 2 ^ 31 \<and>
        (\<forall>b \<in> set (mi_data (its a)). mi_parent (its b) = Some a))"

definition item_calls :: "menu_item \<Rightarrow> menu_call list" where
  "item_calls it = (case mi_callback it of None \<Rightarrow> [] | Some cb \<Rightarrow> [Item_Callback cb (mi_context it)])"

text \<open>The open menus, the current one first, and the selected position of every menu.\<close>

fun menu_spec ::
    "(nat \<Rightarrow> menu_item) \<Rightarrow> nat \<Rightarrow> nat list \<times> (nat \<Rightarrow> nat) \<Rightarrow> menu_message \<Rightarrow>
       menu_call list \<times> nat list \<times> (nat \<Rightarrow> nat)" where
  "menu_spec its r ([], pos) msg =
     (if msg = MenuMessageTypeOk then ([Port_Enabled True], [r], pos(r := 0)) else ([], [], pos))"
| "menu_spec its r (c # st, pos) msg =
     (let n = length (mi_data (its c)); sel = mi_data (its c) ! pos c;
          ok = (if mi_type (its sel) = MenuItemTypeMenu then ([], sel # c # st, pos(sel := 0))
                else (item_calls (its sel) @ [Port_To_Back], c # st, pos));
          back = (if st = [] then [Port_Enabled False] else [], st, pos)
      in case msg of
           MenuMessageTypeUp \<Rightarrow> ([], c # st, pos(c := (pos c + n - 1) mod n))
         | MenuMessageTypeDown \<Rightarrow> ([], c # st, pos(c := (pos c + 1) mod n))
         | MenuMessageTypeOk \<Rightarrow> ok
         | MenuMessageTypeRight \<Rightarrow> ok
         | MenuMessageTypeLeft \<Rightarrow> back
         | MenuMessageTypeBack \<Rightarrow> back
         | MenuMessageTypeIdle \<Rightarrow> ([Port_Enabled False], [], pos)
         | MenuMessageTypeUnknown \<Rightarrow> ([], c # st, pos))"

fun menu_path :: "(nat \<Rightarrow> menu_item) \<Rightarrow> nat \<Rightarrow> nat list \<Rightarrow> bool" where
  "menu_path its r [] \<longleftrightarrow> True"
| "menu_path its r [c] \<longleftrightarrow> c = r"
| "menu_path its r (c # p # st) \<longleftrightarrow>
     mi_type (its c) = MenuItemTypeMenu \<and> c \<in> set (mi_data (its p)) \<and> menu_path its r (p # st)"

definition first_of :: "nat list \<Rightarrow> nat option" where
  "first_of st = (case st of [] \<Rightarrow> None | c # _ \<Rightarrow> Some c)"

definition same_item :: "menu_item \<Rightarrow> menu_item \<Rightarrow> bool" where
  "same_item it it1 \<longleftrightarrow> it\<lparr>mi_position := 0\<rparr> = it1\<lparr>mi_position := 0\<rparr>"

definition menu_sim :: "(nat \<Rightarrow> menu_item) \<Rightarrow> nat \<Rightarrow> menu \<Rightarrow> nat list \<times> (nat \<Rightarrow> nat) \<Rightarrow> bool" where
  "menu_sim its r m s \<longleftrightarrow>
     mn_root m = Some r \<and> (\<forall>a. same_item (mn_items m a) (its a)) \<and>
     snd s = (\<lambda>a. unat (mi_position (mn_items m a))) \<and>
     (\<forall>a. mi_type (its a) = MenuItemTypeMenu \<longrightarrow>
        unat (mi_position (mn_items m a)) < length (mi_data (its a))) \<and>
     mn_current m = first_of (fst s) \<and> menu_path its r (fst s)"

lemma same_item_fields:
  "same_item it it1 \<Longrightarrow>
     mi_type it = mi_type it1 \<and> mi_data it = mi_data it1 \<and> mi_parent it = mi_parent it1 \<and>
     mi_callback it = mi_callback it1 \<and> mi_context it = mi_context it1"
  unfolding same_item_def by (cases it; cases it1) simp

lemma same_item_position [simp]: "same_item (it\<lparr>mi_position := v\<rparr>) it1 = same_item it it1"
  by (simp add: same_item_def)

lemma menu_path_menu:
  "menu_tree its r \<Longrightarrow> menu_path its r (c # st) \<Longrightarrow> mi_type (its c) = MenuItemTypeMenu"
  by (cases st) (auto simp: menu_tree_def)

lemma menu_path_parent:
  assumes "menu_tree its r" and "menu_path its r (c # st)"
  shows "mi_parent (its c) = first_of st" and "menu_path its r st"
proof -
  show "mi_parent (its c) = first_of st"
  proof (cases st)
    case Nil
    then show ?thesis using assms by (simp add: menu_tree_def first_of_def)
  next
    case (Cons p st1)
    with assms(2) have c: "c \<in> set (mi_data (its p))" and "menu_path its r (p # st1)" by auto
    from this(2) menu_path_menu [OF assms(1)] have "mi_type (its p) = MenuItemTypeMenu" by blast
    with c assms(1) Cons show ?thesis by (simp add: menu_tree_def first_of_def)
  qed
  show "menu_path its r st" using assms(2) by (cases st) auto
qed

lemma menu_sim_current:
  assumes tree: "menu_tree its r" and sim: "menu_sim its r m (c # st, pos)"
  shows "mn_current m = Some c" and "mi_type (mn_items m c) = MenuItemTypeMenu"
    and "mi_data (mn_items m c) = mi_data (its c)" and "mi_parent (mn_items m c) = first_of st"
    and "pos c < length (mi_data (its c))" and "unat (mi_position (mn_items m c)) = pos c"
    and "length (mi_data (its c)) < 2 ^ 31"
proof -
  have path: "menu_path its r (c # st)" and same: "same_item (mn_items m c) (its c)"
    using sim by (simp_all add: menu_sim_def)
  note menu = menu_path_menu [OF tree path]
  show "mn_current m = Some c" using sim by (simp add: menu_sim_def first_of_def)
  show "mi_type (mn_items m c) = MenuItemTypeMenu" using same_item_fields [OF same] menu by simp
  show "mi_data (mn_items m c) = mi_data (its c)" using same_item_fields [OF same] by simp
  show "mi_parent (mn_items m c) = first_of st"
    using same_item_fields [OF same] menu_path_parent(1) [OF tree path] by simp
  show "pos c < length (mi_data (its c))" using sim menu by (simp add: menu_sim_def)
  show "unat (mi_position (mn_items m c)) = pos c" using sim by (simp add: menu_sim_def)
  show "length (mi_data (its c)) < 2 ^ 31" using tree menu by (simp add: menu_tree_def)
qed

lemma menu_sim_icons: "menu_sim its r (m\<lparr>mn_icon := i, mn_icons := j\<rparr>) s = menu_sim its r m s"
  by (simp add: menu_sim_def)

lemma menu_set_icon_frame: "\<exists>i j. menu_set_icon now ic m = m\<lparr>mn_icon := i, mn_icons := j\<rparr>"
proof -
  have "m = m\<lparr>mn_icon := mn_icon m, mn_icons := mn_icons m\<rparr>" by simp
  then show ?thesis
    by (cases m) (auto simp: menu_set_icon_def Let_def split: option.split)
qed

lemma item_at_Some [simp]: "item_at dbg (Some a) = Inr a"
  by (simp add: item_at_def)

lemmas item_ops =
  menu_item_get_position_def menu_item_get_subitems_def menu_item_get_icon_def menu_item_get_type_def
  menu_item_get_parent_def menu_item_set_position_def menu_item_function_call_def

lemma menu_update_sim:
  assumes tree: "menu_tree its r" and sim: "menu_sim its r m s"
  shows "\<exists>m1. menu_update dbg now m = Inr ([Port_Update], m1) \<and> menu_sim its r m1 s"
proof -
  obtain st pos where s: "s = (st, pos)" by (cases s)
  show ?thesis
  proof (cases st)
    case Nil
    then show ?thesis using sim s by (simp add: menu_update_def menu_sim_def first_of_def)
  next
    case (Cons c st1)
    note cur = menu_sim_current [OF tree sim [unfolded s Cons]]
    let ?ic = "mi_icon (mn_items m (mi_data (its c) ! pos c))"
    obtain i j where "menu_set_icon now ?ic m = m\<lparr>mn_icon := i, mn_icons := j\<rparr>"
      using menu_set_icon_frame by blast
    then show ?thesis
      using cur sim by (auto simp: menu_update_def item_ops menu_sim_icons)
  qed
qed

text \<open>Moving the position of a menu, and opening and closing menus, keep the simulation.\<close>

lemma menu_sim_position:
  assumes "menu_sim its r m (st, pos)" and "mi_type (its c) = MenuItemTypeMenu"
    and "unat v < length (mi_data (its c))"
  shows "menu_sim its r (set_item c ((mn_items m c)\<lparr>mi_position := v\<rparr>) m) (st, pos(c := unat v))"
  using assms by (auto simp: menu_sim_def set_item_def)

lemma menu_sim_stack:
  "menu_sim its r m (st, pos) \<Longrightarrow> menu_path its r st1 \<Longrightarrow>
     menu_sim its r (m\<lparr>mn_current := first_of st1\<rparr>) (st1, pos)"
  by (simp add: menu_sim_def)

lemma menu_go:
  assumes tree: "menu_tree its r" and sim: "menu_sim its r m (st, pos)"
    and path: "menu_path its r (c # st1)" and "unat v < length (mi_data (its c))"
  shows "\<exists>m1. bindE (menu_item_set_position dbg (Some c) v (m\<lparr>mn_current := Some c\<rparr>)) (menu_update dbg now) =
      Inr ([Port_Update], m1) \<and> menu_sim its r m1 (c # st1, pos(c := unat v))"
proof -
  let ?m = "m\<lparr>mn_current := Some c\<rparr>"
  have "menu_sim its r ?m (c # st1, pos)"
    using menu_sim_stack [OF sim path] by (simp add: first_of_def)
  from menu_sim_position [OF this menu_path_menu [OF tree path] assms(4)]
  have "menu_sim its r (set_item c ((mn_items ?m c)\<lparr>mi_position := v\<rparr>) ?m) (c # st1, pos(c := unat v))" .
  from menu_update_sim [OF tree this] show ?thesis by (simp add: item_ops)
qed

lemma menu_stay:
  assumes tree: "menu_tree its r" and sim: "menu_sim its r m (c # st, pos)"
    and "unat v < length (mi_data (its c))"
  shows "\<exists>m1. bindE (menu_item_set_position dbg (Some c) v m) (menu_update dbg now) = Inr ([Port_Update], m1) \<and>
    menu_sim its r m1 (c # st, pos(c := unat v))"
proof -
  have "m\<lparr>mn_current := Some c\<rparr> = m" using menu_sim_current(1) [OF tree sim] by (cases m) simp
  moreover have "menu_path its r (c # st)" using sim by (simp add: menu_sim_def)
  ultimately show ?thesis using menu_go [OF tree sim _ assms(3), of st dbg now] by simp
qed

text \<open>The two steps around the ring of positions, on 32-bit words.\<close>

lemma position_prev:
  assumes "unat (p :: u32) < n" and "n < 2 ^ 31"
  shows "unat ((if p = 0 then of_nat n else p) - 1) = (unat p + n - 1) mod n"
proof -
  have n: "unat (of_nat n :: u32) = n" using assms(2) by (simp add: unat_of_nat_small)
  have "unat ((if p = 0 then of_nat n else p) - 1) = (if unat p > 0 then unat p - 1 else n - 1)"
  proof (cases "p = 0")
    case True
    then show ?thesis using assms(1) n by (subst unat_sub_small) (auto simp: Suc_le_eq)
  next
    case False
    then have "0 < unat p" by (simp add: unat_gt_0)
    then show ?thesis using False by (subst unat_sub_small) (auto simp: Suc_le_eq)
  qed
  then show ?thesis using ring_prev [OF assms(1)] by simp
qed

lemma position_next:
  assumes "unat (p :: u32) < n" and "n < 2 ^ 31"
  shows "unat ((p + 1) mod of_nat n) = (unat p + 1) mod n"
proof -
  have "unat (p + 1) = unat p + 1" using assms by (subst unat_plus_if_fits) simp_all
  moreover have "unat (of_nat n :: u32) = n" using assms(2) by (simp add: unat_of_nat_small)
  ultimately show ?thesis by (simp add: unat_mod_distrib)
qed

definition seen :: "menu_call list \<Rightarrow> menu_call list" where
  "seen cs = filter (\<lambda>call. call \<noteq> Port_Update) cs"

lemma seen_item_calls [simp]: "seen (item_calls it) = item_calls it"
  by (simp add: seen_def item_calls_def split: option.split)

lemma seen_simps [simp]:
  "seen [] = []" "seen (cs @ cs1) = seen cs @ seen cs1" "seen [Port_Update] = []"
  "seen [Port_Enabled b] = [Port_Enabled b]" "seen [Port_To_Back] = [Port_To_Back]"
  "seen [Port_Enabled b, Port_Update] = [Port_Enabled b]" "seen [Item_Callback f x] = [Item_Callback f x]"
  by (simp_all add: seen_def)

lemma menu_ok_sim:
  assumes tree: "menu_tree its r" and sim: "menu_sim its r m (c # st, pos)"
  shows "\<exists>cs m1. menu_ok dbg now m = Inr (cs, m1) \<and>
    (\<exists>s1. menu_spec its r (c # st, pos) MenuMessageTypeOk = (seen cs, s1) \<and> menu_sim its r m1 s1)"
proof -
  note cur = menu_sim_current [OF tree sim]
  let ?sel = "mi_data (its c) ! pos c"
  have same: "same_item (mn_items m ?sel) (its ?sel)" using sim by (simp add: menu_sim_def)
  note fields = same_item_fields [OF this]
  have sel: "?sel \<in> set (mi_data (its c))" using cur(5) by simp
  show ?thesis
  proof (cases "mi_type (its ?sel)")
    case MenuItemTypeMenu
    then have path: "menu_path its r (?sel # c # st)" using sim sel by (simp add: menu_sim_def)
    have "unat (0 :: u32) < length (mi_data (its ?sel))"
      using tree MenuItemTypeMenu by (simp add: menu_tree_def)
    from menu_go [OF tree sim path this, of dbg now] MenuItemTypeMenu cur fields
    show ?thesis by (auto simp: menu_ok_def item_ops Let_def)
  next
    case MenuItemTypeFunction
    then show ?thesis using cur fields sim
      by (auto simp: menu_ok_def item_ops Let_def item_calls_def split: option.split)
  qed
qed

lemma menu_exit_sim:
  assumes tree: "menu_tree its r" and sim: "menu_sim its r m (st, pos)"
  shows "\<exists>m1. menu_exit dbg now m = Inr ([Port_Enabled False, Port_Update], m1) \<and>
    menu_sim its r m1 ([], pos)"
proof -
  have "menu_sim its r (m\<lparr>mn_current := None\<rparr>) ([], pos)"
    using menu_sim_stack [OF sim, of "[]"] by (simp add: first_of_def)
  from menu_update_sim [OF tree this, of dbg now] show ?thesis by (auto simp: menu_exit_def)
qed

lemma menu_back_sim:
  assumes tree: "menu_tree its r" and sim: "menu_sim its r m (c # st, pos)"
  shows "\<exists>cs m1. menu_back dbg now m = Inr (cs, m1) \<and>
    seen cs = (if st = [] then [Port_Enabled False] else []) \<and> menu_sim its r m1 (st, pos)"
proof (cases st)
  case Nil
  then show ?thesis
    using menu_exit_sim [OF tree sim, of dbg now] menu_sim_current [OF tree sim]
    by (auto simp: menu_back_def item_ops first_of_def)
next
  case (Cons p st1)
  have "menu_path its r (c # st)" using sim by (simp add: menu_sim_def)
  then have "menu_path its r st" by (rule menu_path_parent(2) [OF tree])
  from menu_update_sim [OF tree menu_sim_stack [OF sim this], of dbg now] Cons
  show ?thesis using menu_sim_current [OF tree sim]
    by (auto simp: menu_back_def item_ops first_of_def)
qed

lemma menu_step_sim:
  assumes tree: "menu_tree its r" and sim: "menu_sim its r m s"
  shows "\<exists>cs m1 s1. menu_task_step dbg now m msg = Inr (cs, m1) \<and>
    menu_spec its r s msg = (seen cs, s1) \<and> menu_sim its r m1 s1"
proof -
  obtain st pos where s: "s = (st, pos)" by (cases s)
  show ?thesis
  proof (cases st)
    case Nil
    have none: "mn_current m = None" "mn_root m = Some r"
      using sim by (simp_all add: s Nil menu_sim_def first_of_def)
    have "unat (0 :: u32) < length (mi_data (its r))" using tree by (simp add: menu_tree_def)
    from menu_go [OF tree sim [unfolded s] _ this, of "[]" dbg now] none sim show ?thesis
      by (auto simp: menu_task_step_def menu_ok_def s Nil bindE_eq_Inr)
  next
    case (Cons c st1)
    note sim1 = sim [unfolded s Cons]
    note cur = menu_sim_current [OF tree sim1]
    have prev: "unat ((if mi_position (mn_items m c) = 0 then of_nat (length (mi_data (its c)))
        else mi_position (mn_items m c)) - 1) =
        (pos c + length (mi_data (its c)) - 1) mod length (mi_data (its c))"
      using position_prev [of "mi_position (mn_items m c)" "length (mi_data (its c))"] cur by simp
    have next_: "unat ((mi_position (mn_items m c) + 1) mod of_nat (length (mi_data (its c)))) =
        (pos c + 1) mod length (mi_data (its c))"
      using position_next [of "mi_position (mn_items m c)" "length (mi_data (its c))"] cur by simp
    have bound: "k mod length (mi_data (its c)) < length (mi_data (its c))" for k
      using cur(5) by (intro mod_less_divisor) auto
    have current: "mn_current m \<noteq> None" using cur(1) by simp
    note stays = menu_stay [OF tree sim1, of _ dbg now]
    show ?thesis
    proof (cases msg)
      case MenuMessageTypeUp
      have "menu_up dbg now m =
          bindE (menu_item_set_position dbg (Some c)
            ((if mi_position (mn_items m c) = 0 then of_nat (length (mi_data (its c)))
              else mi_position (mn_items m c)) - 1) m) (menu_update dbg now)"
        using cur by (simp add: menu_up_def menu_item_get_position_def menu_item_get_subitems_def Let_def)
      with stays [unfolded prev [symmetric], OF bound [of "pos c + length (mi_data (its c)) - 1", folded prev]]
      show ?thesis using current by (auto simp: menu_task_step_def s Cons MenuMessageTypeUp Let_def prev)
    next
      case MenuMessageTypeDown
      have "mi_data (its c) \<noteq> []" using cur(5) by auto
      then have "menu_down dbg now m =
          bindE (menu_item_set_position dbg (Some c)
            ((mi_position (mn_items m c) + 1) mod of_nat (length (mi_data (its c)))) m) (menu_update dbg now)"
        using cur by (simp add: menu_down_def menu_item_get_position_def menu_item_get_subitems_def)
      with stays [OF bound [of "pos c + 1", folded next_]]
      show ?thesis using current by (auto simp: menu_task_step_def s Cons MenuMessageTypeDown Let_def next_)
    next
      case MenuMessageTypeOk
      with menu_ok_sim [OF tree sim1, of dbg now] current show ?thesis
        by (simp add: menu_task_step_def s Cons)
    next
      case MenuMessageTypeRight
      have "menu_spec its r (c # st1, pos) MenuMessageTypeRight = menu_spec its r (c # st1, pos) MenuMessageTypeOk"
        by (simp add: Let_def)
      moreover have "menu_task_step dbg now m MenuMessageTypeRight = menu_ok dbg now m"
        using cur(1) by (simp add: menu_task_step_def)
      ultimately show ?thesis
        using menu_ok_sim [OF tree sim1, of dbg now] unfolding s Cons MenuMessageTypeRight by metis
    next
      case MenuMessageTypeLeft
      with menu_back_sim [OF tree sim1, of dbg now] current show ?thesis
        by (auto simp: menu_task_step_def s Cons)
    next
      case MenuMessageTypeBack
      with menu_back_sim [OF tree sim1, of dbg now] current show ?thesis
        by (auto simp: menu_task_step_def s Cons)
    next
      case MenuMessageTypeIdle
      with menu_exit_sim [OF tree sim1, of dbg now] current show ?thesis
        by (auto simp: menu_task_step_def s Cons)
    next
      case MenuMessageTypeUnknown
      with sim1 current show ?thesis by (simp add: menu_task_step_def s Cons)
    qed
  qed
qed

section \<open>Every sequence of messages\<close>

fun spec_run ::
    "(nat \<Rightarrow> menu_item) \<Rightarrow> nat \<Rightarrow> nat list \<times> (nat \<Rightarrow> nat) \<Rightarrow> menu_message list \<Rightarrow>
       menu_call list \<times> nat list \<times> (nat \<Rightarrow> nat)" where
  "spec_run its r s [] = ([], s)"
| "spec_run its r s (msg # msgs) =
     (case menu_spec its r s msg of (cs, s1) \<Rightarrow>
        case spec_run its r s1 msgs of (cs1, s2) \<Rightarrow> (cs @ cs1, s2))"

lemma menu_run_sim:
  "menu_tree its r \<Longrightarrow> menu_sim its r m s \<Longrightarrow>
     \<exists>css m1. runE (menu_task_step dbg now) m msgs = Inr (css, m1) \<and>
       seen (concat css) = fst (spec_run its r s msgs) \<and> menu_sim its r m1 (snd (spec_run its r s msgs))"
proof (induction msgs arbitrary: m s)
  case (Cons msg msgs)
  from menu_step_sim [OF Cons.prems, of dbg now msg] obtain cs m1 s1 where 1:
    "menu_task_step dbg now m msg = Inr (cs, m1)" "menu_spec its r s msg = (seen cs, s1)"
    "menu_sim its r m1 s1" by blast
  from Cons.IH [OF Cons.prems(1) 1(3)] obtain css m2 where
    "runE (menu_task_step dbg now) m1 msgs = Inr (css, m2)"
    "seen (concat css) = fst (spec_run its r s1 msgs)"
    "menu_sim its r m2 (snd (spec_run its r s1 msgs))" by blast
  with 1 show ?case by (simp add: case_prod_beta)
qed simp

text \<open>
  C35. The menu is a stack of menus. If the clients have built a tree in which every menu has items,
  then from a closed menu no sequence of messages faults, and what the rest of the system sees of
  it (showing and hiding the view port, callbacks of items, sending the port to the back) is what
  the specification says: Ok opens the root at its first item; up and down go around the items;
  Ok or right enters a menu at its first item or calls the item and sends the port to the back;
  left or back returns to the menu before, at the item that was selected there, and from the root
  closes; everything but Ok is ignored while it is closed.
\<close>

theorem menu_refines_stack:
  assumes "menu_tree (mn_items m) r" and "mn_root m = Some r" and "mn_current m = None"
    and "\<And>a. mi_position (mn_items m a) = 0"
  shows "\<exists>css m1. runE (menu_task_step dbg now) m msgs = Inr (css, m1) \<and>
    (case spec_run (mn_items m) r ([], \<lambda>_. 0) msgs of
       (cs, st, pos) \<Rightarrow> seen (concat css) = cs \<and> mn_current m1 = first_of st \<and>
         (\<forall>a. unat (mi_position (mn_items m1 a)) = pos a))"
proof -
  have "menu_sim (mn_items m) r m ([], \<lambda>_. 0)"
    using assms by (simp add: menu_sim_def first_of_def same_item_def menu_tree_def)
  from menu_run_sim [OF assms(1) this, of dbg now msgs] show ?thesis
    by (auto simp: menu_sim_def case_prod_beta)
qed

text \<open>A root with a function and a menu that holds another function.\<close>

definition demo_items :: "nat \<Rightarrow> menu_item" where
  "demo_items a =
     (if a = 0 then (menu_item_alloc_menu None None)\<lparr>mi_data := [1, 2]\<rparr>
      else if a = 1 then (menu_item_alloc_function (Some ''run'') None (Some 7) None)\<lparr>mi_parent := Some 0\<rparr>
      else if a = 2 then (menu_item_alloc_menu (Some ''more'') None)\<lparr>mi_parent := Some 0, mi_data := [3]\<rparr>
      else (menu_item_alloc_function (Some ''deep'') None (Some 8) None)\<lparr>mi_parent := Some 2\<rparr>)"

definition demo_menu :: menu where
  "demo_menu = \<lparr>mn_icon = None, mn_root = Some 0, mn_settings = None, mn_current = None,
     mn_items = demo_items, mn_icons = (\<lambda>_. icon_alloc \<lparr>icon_width = 1, icon_height = 1,
       frame_count = 1, frame_rate = 1, frames = [0]\<rparr>)\<rparr>"

theorem menu_refines_stack_witness:
  "\<exists>css m1. runE (menu_task_step True 5) demo_menu
      [MenuMessageTypeUp, MenuMessageTypeOk, MenuMessageTypeOk, MenuMessageTypeDown, MenuMessageTypeOk,
       MenuMessageTypeOk, MenuMessageTypeBack, MenuMessageTypeBack] = Inr (css, m1) \<and>
    seen (concat css) =
      [Port_Enabled True, Item_Callback 7 None, Port_To_Back, Item_Callback 8 None, Port_To_Back,
       Port_Enabled False]"
proof -
  have "menu_tree (mn_items demo_menu) 0"
    by (auto simp: menu_tree_def demo_menu_def demo_items_def menu_item_alloc_menu_def
        menu_item_alloc_function_def)
  moreover have "mn_root demo_menu = Some 0" "mn_current demo_menu = None"
    by (simp_all add: demo_menu_def)
  moreover have "mi_position (mn_items demo_menu a) = 0" for a
    by (simp add: demo_menu_def demo_items_def menu_item_alloc_menu_def menu_item_alloc_function_def)
  moreover have "fst (spec_run (mn_items demo_menu) 0 ([], \<lambda>_. 0)
      [MenuMessageTypeUp, MenuMessageTypeOk, MenuMessageTypeOk, MenuMessageTypeDown, MenuMessageTypeOk,
       MenuMessageTypeOk, MenuMessageTypeBack, MenuMessageTypeBack]) =
      [Port_Enabled True, Item_Callback 7 None, Port_To_Back, Item_Callback 8 None, Port_To_Back,
       Port_Enabled False]"
    by (simp add: demo_menu_def demo_items_def menu_item_alloc_menu_def menu_item_alloc_function_def
        item_calls_def Let_def)
  ultimately show ?thesis
    using menu_refines_stack [of demo_menu 0 True 5
      "[MenuMessageTypeUp, MenuMessageTypeOk, MenuMessageTypeOk, MenuMessageTypeDown, MenuMessageTypeOk,
        MenuMessageTypeOk, MenuMessageTypeBack, MenuMessageTypeBack]"]
    by (auto simp: case_prod_beta)
qed

text \<open>
  An empty menu is entered like any other, but then the down key divides by zero; and the settings
  menu is a null pointer that nothing ever sets, so adding an item to it fails an assertion.
\<close>

lemma menu_down_empty:
  assumes "mn_current m = Some c" and "mi_type (mn_items m c) = MenuItemTypeMenu"
  shows "menu_down dbg now m = Inl Div_Zero \<longleftrightarrow> mi_data (mn_items m c) = []"
proof (cases "mi_data (mn_items m c) = []")
  case False
  have "bindE (menu_update dbg now m1) f \<noteq> Inl Div_Zero \<and> menu_update dbg now m1 \<noteq> Inl Div_Zero"
    if "\<And>x. f x = Inr x" for m1 f
    using that
    by (auto simp: menu_update_def item_ops item_at_def furi_assert_def furi_check_def arr_get_def
        bindE_def split: option.splits if_splits)
  then show ?thesis using False assms
    by (simp add: menu_down_def item_ops)
qed (use assms in \<open>simp add: menu_down_def item_ops\<close>)

lemma menu_settings_null:
  "mn_settings m = None \<Longrightarrow> menu_settings_item_add True it m = Inl Assert_Failed"
  by (simp add: menu_settings_item_add_def menu_item_subitem_add_def item_at_def)

end
