(* ===== verification/EmvDecoder.thy ===== *)
theory EmvDecoder
  imports Prelude
begin

text \<open>
  The commands and answers of a payment card, \<^verbatim>\<open>lib/nfc_protocols/emv_decoder.c\<close>. Buffers are
  lists of bytes; every read and every copy checks both arrays, so a length byte that does not
  fit is a fault. Indices are naturals with the wrap of \<^verbatim>\<open>uint16_t\<close> written out. The scanning
  loops need not end when an index wraps, so they carry fuel: \<open>None\<close> is a loop that has run
  longer.
\<close>

section \<open>State\<close>

record apdu =
  apdu_size :: u8
  apdu_data :: "u8 list"

record emv_app =
  app_priority :: u8
  app_aid :: "u8 list"
  app_aid_len :: u8
  app_name :: "u8 list"
  app_card_number :: "u8 list"
  app_pdol :: apdu
  app_afl :: apdu

definition MAX_APDU_LEN :: nat where "MAX_APDU_LEN = 255"
definition EMV_TAG_APP_TEMPLATE :: u8 where "EMV_TAG_APP_TEMPLATE = 0x61"
definition EMV_TAG_AID :: u8 where "EMV_TAG_AID = 0x4F"
definition EMV_TAG_PRIORITY :: u8 where "EMV_TAG_PRIORITY = 0x87"
definition EMV_TAG_PDOL :: u16 where "EMV_TAG_PDOL = 0x9F38"
definition EMV_TAG_CARD_NAME :: u8 where "EMV_TAG_CARD_NAME = 0x50"
definition EMV_TAG_CARD_NUM :: u8 where "EMV_TAG_CARD_NUM = 0x57"
definition EMV_TAG_PAN :: u8 where "EMV_TAG_PAN = 0x5A"
definition EMV_TAG_AFL :: u8 where "EMV_TAG_AFL = 0x94"

lemmas emv_tags =
  EMV_TAG_APP_TEMPLATE_def EMV_TAG_AID_def EMV_TAG_PRIORITY_def EMV_TAG_PDOL_def
  EMV_TAG_CARD_NAME_def EMV_TAG_CARD_NUM_def EMV_TAG_PAN_def EMV_TAG_AFL_def

definition pdol_values :: "(u16 \<times> u8 list) list" where
  "pdol_values =
     [(0x9F59, [0xC8, 0x80, 0x00]),
      (0x9F5A, [0x00]),
      (0x9F58, [0x01]),
      (0x9F66, [0x79, 0x00, 0x40, 0x80]),
      (0x9F02, [0x00, 0x00, 0x00, 0x10, 0x00, 0x00]),
      (0x9F03, [0x00, 0x00, 0x00, 0x00, 0x00, 0x00]),
      (0x9F1A, [0x01, 0x24]),
      (0x5F2A, [0x01, 0x24]),
      (0x95, [0x00, 0x00, 0x00, 0x00, 0x00]),
      (0x9A, [0x19, 0x01, 0x01]),
      (0x9C, [0x00]),
      (0x98, [0, 0, 0, 0, 0, 0, 0, 0, 0, 0, 0, 0, 0, 0, 0, 0, 0, 0, 0, 0]),
      (0x9F37, [0x82, 0x3D, 0xDE, 0x7A])]"

definition select_ppse_ans :: "u8 list" where
  "select_ppse_ans =
     [0x6F, 0x29, 0x84, 0x0E, 0x32, 0x50, 0x41, 0x59, 0x2E,
      0x53, 0x59, 0x53, 0x2E, 0x44, 0x44, 0x46, 0x30, 0x31,
      0xA5, 0x17, 0xBF, 0x0C, 0x14, 0x61, 0x12, 0x4F, 0x07,
      0xA0, 0x00, 0x00, 0x00, 0x03, 0x10, 0x10, 0x50, 0x04,
      0x56, 0x49, 0x53, 0x41, 0x87, 0x01, 0x01, 0x90, 0x00]"

definition select_app_ans :: "u8 list" where
  "select_app_ans =
     [0x6F, 0x20, 0x84, 0x07, 0xA0, 0x00, 0x00, 0x00, 0x03,
      0x10, 0x10, 0xA5, 0x15, 0x50, 0x04, 0x56, 0x49, 0x53,
      0x41, 0x9F, 0x38, 0x0C, 0x9F, 0x66, 0x04, 0x9F, 0x02,
      0x06, 0x9F, 0x37, 0x04, 0x5F, 0x2A, 0x02, 0x90, 0x00]"

definition pdol_ans :: "u8 list" where
  "pdol_ans =
     [0x77, 0x40, 0x82, 0x02, 0x20, 0x00, 0x57, 0x13, 0x55, 0x70, 0x73, 0x83,
      0x85, 0x87, 0x73, 0x31, 0xD1, 0x80, 0x22, 0x01, 0x38, 0x84, 0x77, 0x94,
      0x00, 0x00, 0x1F, 0x5F, 0x34, 0x01, 0x00, 0x9F, 0x10, 0x07, 0x06, 0x01,
      0x11, 0x03, 0x80, 0x00, 0x00, 0x9F, 0x26, 0x08, 0x7A, 0x65, 0x7F, 0xD3,
      0x52, 0x96, 0xC9, 0x85, 0x9F, 0x27, 0x01, 0x00, 0x9F, 0x36, 0x02, 0x06,
      0x0C, 0x9F, 0x6C, 0x02, 0x10, 0x00, 0x90, 0x00]"

section \<open>Bytes in arrays\<close>

definition w16 :: "nat \<Rightarrow> nat" where "w16 n = n mod 2 ^ 16"

definition read_bytes :: "u8 list \<Rightarrow> nat \<Rightarrow> nat \<Rightarrow> u8 list res" where
  "read_bytes src i n = (if i + n \<le> length src then Inr (take n (drop i src)) else Inl Out_Of_Bounds)"

definition copy_into :: "u8 list \<Rightarrow> nat \<Rightarrow> u8 list \<Rightarrow> u8 list res" where
  "copy_into dest i bs =
     (if i + length bs \<le> length dest
      then Inr (take i dest @ bs @ drop (i + length bs) dest) else Inl Out_Of_Bounds)"

text \<open>The new destination, the length, and the index, now at the last byte of the value.\<close>

definition emv_parse_TLV :: "u8 list \<Rightarrow> u8 list \<Rightarrow> nat \<Rightarrow> (u8 list \<times> u8 \<times> nat) res" where
  "emv_parse_TLV dest src idx =
     bindE (arr_get src (idx + 1)) (\<lambda>len.
     bindE (read_bytes src (idx + 2) (unat len)) (\<lambda>v.
     bindE (copy_into dest 0 v) (\<lambda>dest1. Inr (dest1, len, w16 (idx + unat len + 1)))))"

definition bytes_16 :: "u8 \<Rightarrow> u8 \<Rightarrow> u16" where
  "bytes_16 hi lo = push_bit 8 (ucast hi) OR ucast lo"

definition then_loop :: "'a res \<Rightarrow> ('a \<Rightarrow> 'b res option) \<Rightarrow> 'b res option" where
  "then_loop m k = (case m of Inl e \<Rightarrow> Some (Inl e) | Inr x \<Rightarrow> k x)"

lemma then_loop_simps [simp]: "then_loop (Inl e) k = Some (Inl e)" "then_loop (Inr x) k = k x"
  by (simp_all add: then_loop_def)

section \<open>Terminal\<close>

definition emv_prepare_select_ppse :: "u8 list \<Rightarrow> (u8 list \<times> nat) res" where
  "emv_prepare_select_ppse dest =
     bindE (copy_into dest 0
       [0x00, 0xA4, 0x04, 0x00, 0x0e, 0x32, 0x50, 0x41, 0x59, 0x2e, 0x53, 0x59, 0x53, 0x2e, 0x44, 0x44,
        0x46, 0x30, 0x31, 0x00]) (\<lambda>d. Inr (d, 20))"

text \<open>The loop over the bytes of a template, \<open>bound\<close> the index behind its last turn.\<close>

fun ppse_inner ::
    "nat \<Rightarrow> u8 list \<Rightarrow> nat \<Rightarrow> nat \<Rightarrow> bool \<Rightarrow> emv_app \<Rightarrow> (bool \<times> emv_app) res option" where
  "ppse_inner 0 buff j bound found app = None"
| "ppse_inner (Suc fuel) buff j bound found app =
     (if j < bound then
        then_loop (arr_get buff j) (\<lambda>b.
          if b = EMV_TAG_AID then
            then_loop (bindE (arr_get buff (j + 1)) (\<lambda>l.
                bindE (emv_parse_TLV (app_aid app) buff j) (\<lambda>(d, _, j1). Inr (l, d, j1))))
              (\<lambda>(l, d, j1). ppse_inner fuel buff (w16 (j1 + 1)) bound True
                 (app\<lparr>app_aid_len := l, app_aid := d\<rparr>))
          else if b = EMV_TAG_PRIORITY then
            then_loop (emv_parse_TLV [app_priority app] buff j) (\<lambda>(d, _, j1).
              ppse_inner fuel buff (w16 (j1 + 1)) bound found (app\<lparr>app_priority := hd d\<rparr>))
          else ppse_inner fuel buff (w16 (j + 1)) bound found app)
      else Some (Inr (found, app)))"

fun ppse_loop ::
    "nat \<Rightarrow> u8 list \<Rightarrow> nat \<Rightarrow> nat \<Rightarrow> bool \<Rightarrow> emv_app \<Rightarrow> (bool \<times> emv_app) res option" where
  "ppse_loop 0 buff i len found app = None"
| "ppse_loop (Suc fuel) buff i len found app =
     (if i < len then
        then_loop (arr_get buff i) (\<lambda>b.
          if b = EMV_TAG_APP_TEMPLATE then
            (let i1 = w16 (i + 1) in
             then_loop (arr_get buff i1) (\<lambda>app_len.
               case ppse_inner fuel buff i1 (i1 + unat app_len) found app of
                 None \<Rightarrow> None
               | Some (Inl e) \<Rightarrow> Some (Inl e)
               | Some (Inr (found1, app1)) \<Rightarrow>
                   ppse_loop fuel buff (w16 (w16 (i1 + unat app_len) + 1)) len found1 app1))
          else ppse_loop fuel buff (w16 (i + 1)) len found app)
      else Some (Inr (found, app)))"

definition emv_decode_ppse_response ::
    "nat \<Rightarrow> u8 list \<Rightarrow> u16 \<Rightarrow> emv_app \<Rightarrow> (bool \<times> emv_app) res option" where
  "emv_decode_ppse_response fuel buff len app = ppse_loop fuel buff 0 (unat len) False app"

definition emv_prepare_select_app :: "u8 list \<Rightarrow> emv_app \<Rightarrow> (u8 list \<times> nat) res" where
  "emv_prepare_select_app dest app =
     bindE (copy_into dest 0 [0x00, 0xA4, 0x04, 0x00]) (\<lambda>d.
     bindE (arr_set d 4 (app_aid_len app)) (\<lambda>d1.
     bindE (read_bytes (app_aid app) 0 (unat (app_aid_len app))) (\<lambda>aid.
     bindE (copy_into d1 5 aid) (\<lambda>d2.
     bindE (arr_set d2 (5 + unat (app_aid_len app)) 0) (\<lambda>d3.
       Inr (d3, 5 + unat (app_aid_len app) + 1))))))"

fun select_app_loop ::
    "nat \<Rightarrow> u8 list \<Rightarrow> nat \<Rightarrow> nat \<Rightarrow> bool \<Rightarrow> emv_app \<Rightarrow> (bool \<times> emv_app) res option" where
  "select_app_loop 0 buff i len found app = None"
| "select_app_loop (Suc fuel) buff i len found app =
     (if i < len then
        then_loop (arr_get buff i) (\<lambda>b.
          if b = EMV_TAG_CARD_NAME then
            then_loop (bindE (arr_get buff (i + 1)) (\<lambda>name_len.
                bindE (emv_parse_TLV (app_name app) buff i) (\<lambda>(d, _, i1).
                bindE (arr_set d (unat name_len) 0) (\<lambda>d1. Inr (d1, i1)))))
              (\<lambda>(d, i1). select_app_loop fuel buff (w16 (i1 + 1)) len True (app\<lparr>app_name := d\<rparr>))
          else
            then_loop (arr_get buff (i + 1)) (\<lambda>b1.
              if bytes_16 b b1 = EMV_TAG_PDOL then
                then_loop (emv_parse_TLV (apdu_data (app_pdol app)) buff (w16 (i + 1))) (\<lambda>(d, l, i1).
                  select_app_loop fuel buff (w16 (i1 + 1)) len found
                    (app\<lparr>app_pdol := \<lparr>apdu_size = l, apdu_data = d\<rparr>\<rparr>))
              else select_app_loop fuel buff (w16 (i + 1)) len found app))
      else Some (Inr (found, app)))"

definition emv_decode_select_app_response ::
    "nat \<Rightarrow> u8 list \<Rightarrow> u16 \<Rightarrow> emv_app \<Rightarrow> (bool \<times> emv_app) res option" where
  "emv_decode_select_app_response fuel buff len app = select_app_loop fuel buff 0 (unat len) False app"

text \<open>
  The search for a tag at an index: how many bytes it takes, and its value. The second byte is
  read only when the first is not a tag of its own.
\<close>

fun pdol_find :: "(u16 \<times> u8 list) list \<Rightarrow> u8 list \<Rightarrow> nat \<Rightarrow> (nat \<times> u8 list) option res" where
  "pdol_find [] src i = Inr None"
| "pdol_find ((tag, v) # vs) src i =
     bindE (arr_get src i) (\<lambda>b.
       if ucast b = tag then Inr (Some (1, v))
       else bindE (arr_get src (i + 1)) (\<lambda>b1.
         if bytes_16 b b1 = tag then Inr (Some (2, v)) else pdol_find vs src i))"

text \<open>
  The index stays below 258, so it does not wrap and the loop ends.
\<close>

function pdol_loop :: "apdu \<Rightarrow> apdu \<Rightarrow> nat \<Rightarrow> apdu res" where
  "pdol_loop src dest i =
     (if i < unat (apdu_size src) then
        bindE (pdol_find pdol_values (apdu_data src) i) (\<lambda>hit.
          let i1 = (case hit of None \<Rightarrow> i + 2 | Some (k, _) \<Rightarrow> i + k) in
          bindE (arr_get (apdu_data src) i1) (\<lambda>len.
          bindE (case hit of None \<Rightarrow> Inr (replicate (unat len) 0) | Some (_, v) \<Rightarrow> read_bytes v 0 (unat len)) (\<lambda>v.
          bindE (copy_into (apdu_data dest) (unat (apdu_size dest)) v) (\<lambda>d.
            pdol_loop src \<lparr>apdu_size = apdu_size dest + len, apdu_data = d\<rparr> (i1 + 1)))))
      else Inr dest)"
  by pat_completeness auto

termination
  by (relation "measure (\<lambda>(src, _, i). unat (apdu_size src) - i)")
     (auto split: option.splits)

declare pdol_loop.simps [simp del]

definition emv_prepare_pdol :: "apdu \<Rightarrow> apdu \<Rightarrow> apdu res" where
  "emv_prepare_pdol dest src = pdol_loop src dest 0"

definition emv_prepare_get_proc_opt :: "u8 list \<Rightarrow> emv_app \<Rightarrow> (u8 list \<times> nat) res" where
  "emv_prepare_get_proc_opt dest app =
     bindE (copy_into dest 0 [0x80, 0xA8, 0x00, 0x00]) (\<lambda>d.
     bindE (emv_prepare_pdol \<lparr>apdu_size = 0, apdu_data = replicate MAX_APDU_LEN 0\<rparr> (app_pdol app)) (\<lambda>p.
     bindE (arr_set d 4 (0x02 + apdu_size p)) (\<lambda>d1.
     bindE (arr_set d1 5 0x83) (\<lambda>d2.
     bindE (arr_set d2 6 (apdu_size p)) (\<lambda>d3.
     bindE (read_bytes (apdu_data p) 0 (unat (apdu_size p))) (\<lambda>v.
     bindE (copy_into d3 7 v) (\<lambda>d4.
     bindE (arr_set d4 (7 + unat (apdu_size p)) 0) (\<lambda>d5.
       Inr (d5, 7 + unat (apdu_size p) + 1)))))))))"

fun gpo_loop :: "nat \<Rightarrow> u8 list \<Rightarrow> nat \<Rightarrow> nat \<Rightarrow> emv_app \<Rightarrow> (bool \<times> emv_app) res option" where
  "gpo_loop 0 buff i len app = None"
| "gpo_loop (Suc fuel) buff i len app =
     (if i < len then
        then_loop (arr_get buff i) (\<lambda>b.
          if b = EMV_TAG_CARD_NUM then
            then_loop (bindE (read_bytes buff (i + 2) 8) (copy_into (app_card_number app) 0)) (\<lambda>d.
              Some (Inr (True, app\<lparr>app_card_number := d\<rparr>)))
          else if b = EMV_TAG_AFL then
            then_loop (emv_parse_TLV (apdu_data (app_afl app)) buff i) (\<lambda>(d, l, i1).
              gpo_loop fuel buff (w16 (i1 + 1)) len (app\<lparr>app_afl := \<lparr>apdu_size = l, apdu_data = d\<rparr>\<rparr>))
          else gpo_loop fuel buff (w16 (i + 1)) len app)
      else Some (Inr (False, app)))"

definition emv_decode_get_proc_opt ::
    "nat \<Rightarrow> u8 list \<Rightarrow> u16 \<Rightarrow> emv_app \<Rightarrow> (bool \<times> emv_app) res option" where
  "emv_decode_get_proc_opt fuel buff len app = gpo_loop fuel buff 0 (unat len) app"

definition emv_prepare_read_sfi_record :: "u8 list \<Rightarrow> u8 \<Rightarrow> u8 \<Rightarrow> (u8 list \<times> nat) res" where
  "emv_prepare_read_sfi_record dest sfi record_num =
     (let sfi_param = push_bit 3 sfi OR push_bit 2 1 in
      bindE (copy_into dest 0 [0x00, 0xB2, record_num, sfi_param, 0x00]) (\<lambda>d. Inr (d, 5)))"

text \<open>The index goes up by one to the length, which has 16 bits: it does not wrap.\<close>

function sfi_loop :: "u8 list \<Rightarrow> nat \<Rightarrow> nat \<Rightarrow> emv_app \<Rightarrow> (bool \<times> emv_app) res" where
  "sfi_loop buff i len app =
     (if i < len then
        bindE (arr_get buff i) (\<lambda>b.
          if b = EMV_TAG_PAN then
            bindE (bindE (read_bytes buff (i + 2) 8) (copy_into (app_card_number app) 0)) (\<lambda>d.
              Inr (True, app\<lparr>app_card_number := d\<rparr>))
          else sfi_loop buff (i + 1) len app)
      else Inr (False, app))"
  by pat_completeness auto

termination
  by (relation "measure (\<lambda>(_, i, len, _). len - i)") auto

declare sfi_loop.simps [simp del]

definition emv_decode_read_sfi_record :: "u8 list \<Rightarrow> u16 \<Rightarrow> emv_app \<Rightarrow> (bool \<times> emv_app) res" where
  "emv_decode_read_sfi_record buff len app = sfi_loop buff 0 (unat len) app"

section \<open>Card emulation\<close>

definition emv_select_ppse_ans :: "u8 list \<Rightarrow> (u8 list \<times> nat) res" where
  "emv_select_ppse_ans buff = bindE (copy_into buff 0 select_ppse_ans) (\<lambda>d. Inr (d, length select_ppse_ans))"

definition emv_select_app_ans :: "u8 list \<Rightarrow> (u8 list \<times> nat) res" where
  "emv_select_app_ans buff = bindE (copy_into buff 0 select_app_ans) (\<lambda>d. Inr (d, length select_app_ans))"

definition emv_get_proc_opt_ans :: "u8 list \<Rightarrow> (u8 list \<times> nat) res" where
  "emv_get_proc_opt_ans buff = bindE (copy_into buff 0 pdol_ans) (\<lambda>d. Inr (d, length pdol_ans))"

section \<open>Reading a well-formed template\<close>

lemma w16_small [simp]: "n < 65536 \<Longrightarrow> w16 n = n"
  by (simp add: w16_def)

lemma drop_Cons_get:
  "drop j buff = x # ys \<Longrightarrow> arr_get buff j = Inr x \<and> drop (j + 1) buff = ys \<and> j < length buff"
proof -
  assume d: "drop j buff = x # ys"
  then have j: "j < length buff" by (metis drop_all list.distinct(1) not_le)
  with d have "buff ! j = x" by (metis hd_drop_conv_nth list.sel(1))
  moreover have "drop (j + 1) buff = ys" using d by (metis Suc_eq_plus1 drop_Suc list.sel(3) tl_drop)
  ultimately show ?thesis using j by simp
qed

lemma drop_append_more: "drop j buff = xs @ ys \<Longrightarrow> drop (j + length xs) buff = ys"
  by (metis add.commute append_eq_conv_conj drop_drop)

lemma parse_TLV_ok:
  assumes d: "drop j buff = t # l # v @ ys" and "length v = unat l" and "length v \<le> length dest"
  shows "emv_parse_TLV dest buff j = Inr (v @ drop (length v) dest, l, w16 (j + length v + 1))"
proof -
  have d1: "drop (j + 1) buff = l # v @ ys" using drop_Cons_get [OF d] by simp
  have d2: "drop (j + 2) buff = v @ ys" using drop_Cons_get [OF d1] by (simp add: eval_nat_numeral)
  then have "j + 2 + length v \<le> length buff \<or> v = []"
    by (metis add.commute append_Nil2 append_eq_conv_conj diff_diff_cancel drop_all le_add2 le_diff_conv2
        length_append length_drop nat_le_linear append_is_Nil_conv)
  moreover have "j + 2 \<le> length buff" using drop_Cons_get [OF d1] by simp
  ultimately have "read_bytes buff (j + 2) (unat l) = Inr v"
    using d2 assms(2) by (auto simp: read_bytes_def)
  then show ?thesis
    using drop_Cons_get [OF d1] assms(2,3) by (simp add: emv_parse_TLV_def copy_into_def)
qed

text \<open>A data object: its tag, the length of its value, and the value.\<close>

definition tlv :: "u8 \<times> u8 list \<Rightarrow> u8 list" where
  "tlv = (\<lambda>(t, v). t # of_nat (length v) # v)"

definition known :: "u8 \<Rightarrow> bool" where
  "known b \<longleftrightarrow> b = EMV_TAG_AID \<or> b = EMV_TAG_PRIORITY"

text \<open>
  What the scan can read: values of the two known tags that fit, and other objects in which
  neither of the two bytes occurs.
\<close>

definition readable :: "u8 \<times> u8 list \<Rightarrow> bool" where
  "readable = (\<lambda>(t, v).
     length v \<le> 255 \<and>
     (if t = EMV_TAG_AID then length v \<le> 16
      else if t = EMV_TAG_PRIORITY then length v \<le> 1
      else list_all (\<lambda>b. \<not> known b) (tlv (t, v))))"

fun put_object :: "emv_app \<Rightarrow> u8 \<times> u8 list \<Rightarrow> emv_app" where
  "put_object app (t, v) =
     (if t = EMV_TAG_AID then
        app\<lparr>app_aid_len := of_nat (length v), app_aid := v @ drop (length v) (app_aid app)\<rparr>
      else if t = EMV_TAG_PRIORITY then app\<lparr>app_priority := hd (v @ [app_priority app])\<rparr>
      else app)"

lemma inner_end: "0 < f \<Longrightarrow> bound \<le> j \<Longrightarrow> ppse_inner f buff j bound found app = Some (Inr (found, app))"
  by (cases f) auto

lemma inner_skip:
  "drop j buff = xs @ ys \<Longrightarrow> list_all (\<lambda>b. \<not> known b) xs \<Longrightarrow> j + length xs \<le> bound \<Longrightarrow> bound < 65536 \<Longrightarrow>
     ppse_inner (length xs + f) buff j bound found app = ppse_inner f buff (j + length xs) bound found app"
proof (induction xs arbitrary: j)
  case (Cons x xs)
  from Cons.prems(1) have d: "drop j buff = x # (xs @ ys)" by simp
  note get = drop_Cons_get [OF d]
  have "ppse_inner (length (x # xs) + f) buff j bound found app =
        ppse_inner (length xs + f) buff (j + 1) bound found app"
    using get Cons.prems by (simp add: known_def)
  also have "\<dots> = ppse_inner f buff (j + 1 + length xs) bound found app"
    using get Cons.prems by (intro Cons.IH) auto
  finally show ?case by simp
qed simp

lemma inner_skip_all:
  assumes "drop j buff = xs @ ys" and "list_all (\<lambda>b. \<not> known b) xs" and "bound < j + length xs"
    and "j \<le> bound" and "bound < 65536" and "bound - j < f"
  shows "ppse_inner f buff j bound found app = Some (Inr (found, app))"
proof -
  let ?n = "bound - j"
  have "drop j buff = take ?n xs @ (drop ?n xs @ ys)" using assms(1) by simp
  moreover have "list_all (\<lambda>b. \<not> known b) (take ?n xs)"
    using assms(2) by (auto simp: list_all_iff dest: in_set_takeD)
  moreover have len: "length (take ?n xs) = ?n" using assms(3,4) by simp
  ultimately have "ppse_inner (?n + (f - ?n)) buff j bound found app =
      ppse_inner (f - ?n) buff (j + ?n) bound found app"
    using inner_skip [of j buff "take ?n xs" "drop ?n xs @ ys" bound "f - ?n"] assms by simp
  then show ?thesis using assms by (simp add: inner_end)
qed

lemma inner_known:
  assumes d: "drop j buff = tlv (t, v) @ ys" and "readable (t, v)" and "known t" and "j < bound"
    and "length (app_aid app) = 16" and "j + length (tlv (t, v)) < 65536"
  shows "ppse_inner (Suc f) buff j bound found app =
    ppse_inner f buff (j + length (tlv (t, v))) bound (found \<or> t = EMV_TAG_AID) (put_object app (t, v))"
proof -
  have d1: "drop j buff = t # of_nat (length v) # v @ ys" using d by (simp add: tlv_def)
  note get = drop_Cons_get [OF d1]
  have get1: "arr_get buff (j + 1) = Inr (of_nat (length v))"
    using drop_Cons_get [of "j + 1" buff] get by blast
  have l: "length v = unat (of_nat (length v) :: u8)"
    using assms(2) by (simp add: readable_def unat_of_nat_small)
  have ne: "EMV_TAG_PRIORITY \<noteq> EMV_TAG_AID" by (simp add: emv_tags)
  have next_: "w16 (w16 (j + length v + 1) + 1) = j + length (tlv (t, v))"
    using assms(6) by (simp add: tlv_def)
  consider "t = EMV_TAG_AID" | "t = EMV_TAG_PRIORITY" using assms(3) by (auto simp: known_def)
  then show ?thesis
  proof cases
    case 1
    then have "length v \<le> length (app_aid app)" using assms(2,5) by (simp add: readable_def)
    from parse_TLV_ok [OF d1 l this] show ?thesis
      using 1 get get1 assms(4) next_ by simp
  next
    case 2
    then have "length v \<le> length [app_priority app]" using assms(2) ne by (simp add: readable_def)
    from parse_TLV_ok [OF d1 l this] show ?thesis
      using 2 get assms(4) next_ ne \<open>length v \<le> length [app_priority app]\<close>
      by (cases v) simp_all
  qed
qed

lemma tlv_length: "2 \<le> length (tlv x)"
  by (cases x) (simp add: tlv_def)

lemma put_object_aid:
  "readable x \<Longrightarrow> length (app_aid app) = 16 \<Longrightarrow> length (app_aid (put_object app x)) = 16"
  by (cases x) (auto simp: readable_def)

lemma inner_prefix:
  "drop j buff = concat (map tlv ts) @ ys \<Longrightarrow> j + length (concat (map tlv ts)) \<le> bound \<Longrightarrow>
     bound < 65000 \<Longrightarrow> bound - j < f \<Longrightarrow> list_all readable ts \<Longrightarrow> length (app_aid app) = 16 \<Longrightarrow>
     \<exists>f1. bound - (j + length (concat (map tlv ts))) < f1 \<and>
       ppse_inner f buff j bound found app =
         ppse_inner f1 buff (j + length (concat (map tlv ts))) bound
           (found \<or> EMV_TAG_AID \<in> fst ` set ts) (foldl put_object app ts)"
proof (induction ts arbitrary: j f found app)
  case Nil
  then show ?case by auto
next
  case (Cons x ts)
  obtain t v where x: "x = (t, v)" by (cases x)
  let ?l = "length (tlv x)" and ?r = "length (concat (map tlv ts))"
  have d: "drop j buff = tlv x @ (concat (map tlv ts) @ ys)" using Cons.prems(1) by simp
  have d1: "drop (j + ?l) buff = concat (map tlv ts) @ ys" by (rule drop_append_more [OF d])
  have b: "j + ?l + ?r \<le> bound" using Cons.prems(2) by simp
  have l: "2 \<le> ?l" by (rule tlv_length)
  have ok: "readable x" "list_all readable ts" using Cons.prems(5) by simp_all
  have put: "length (app_aid (put_object app x)) = 16" by (rule put_object_aid [OF ok(1) Cons.prems(6)])
  have "\<exists>f2. bound - (j + ?l) < f2 \<and> ppse_inner f buff j bound found app =
      ppse_inner f2 buff (j + ?l) bound (found \<or> t = EMV_TAG_AID) (put_object app x)"
  proof (cases "known t")
    case True
    have j: "j < bound" using b l by simp
    obtain f1 where f1: "f = Suc f1" using Cons.prems(4) by (cases f) auto
    have "ppse_inner f buff j bound found app =
        ppse_inner f1 buff (j + ?l) bound (found \<or> t = EMV_TAG_AID) (put_object app x)"
      using inner_known [OF d [unfolded x] ok(1) [unfolded x] True j, of app f1 found] Cons.prems b
      unfolding x f1 by simp
    moreover have "bound - (j + ?l) < f1" using Cons.prems(4) f1 l j by simp
    ultimately show ?thesis by blast
  next
    case False
    have clean: "list_all (\<lambda>b. \<not> known b) (tlv x)"
      using ok(1) False by (auto simp: x readable_def known_def)
    have "ppse_inner (?l + (f - ?l)) buff j bound found app =
        ppse_inner (f - ?l) buff (j + ?l) bound found app"
      using b Cons.prems(3) by (intro inner_skip [OF d clean]) auto
    moreover have "?l + (f - ?l) = f" "bound - (j + ?l) < f - ?l" using Cons.prems(4) b l by simp_all
    moreover have "t \<noteq> EMV_TAG_AID" "put_object app x = app" using False by (simp_all add: x known_def)
    ultimately show ?thesis by auto
  qed
  then obtain f2 where f2: "bound - (j + ?l) < f2" "ppse_inner f buff j bound found app =
      ppse_inner f2 buff (j + ?l) bound (found \<or> t = EMV_TAG_AID) (put_object app x)" by blast
  from Cons.IH [OF d1 b Cons.prems(3) f2(1) ok(2) put, of "found \<or> t = EMV_TAG_AID"] f2(2)
  show ?case by (auto simp: x add.assoc)
qed

text \<open>The last turn of the loop is for the byte before the last of the template.\<close>

lemma inner_template:
  assumes "drop j buff = concat (map tlv ts) @ ys" and "bound + 1 = j + length (concat (map tlv ts))"
    and "bound < 65000" and "bound - j < f" and "list_all readable ts" and "length (app_aid app) = 16"
  shows "ppse_inner f buff j bound found app =
    Some (Inr (found \<or> EMV_TAG_AID \<in> fst ` set ts, foldl put_object app ts))"
proof (cases ts rule: rev_cases)
  case Nil
  then show ?thesis using assms by (simp add: inner_end)
next
  case (snoc ts1 x)
  obtain t v where x: "x = (t, v)" by (cases x)
  let ?j = "j + length (concat (map tlv ts1))" and ?app = "foldl put_object app ts1"
  have l: "2 \<le> length (tlv x)" by (rule tlv_length)
  have b: "bound + 1 = ?j + length (tlv x)" using assms(2) by (simp add: snoc)
  have d: "drop j buff = concat (map tlv ts1) @ (tlv x @ ys)" using assms(1) by (simp add: snoc)
  have d1: "drop ?j buff = tlv x @ ys" by (rule drop_append_more [OF d])
  have ok: "list_all readable ts1" "readable x" using assms(5) by (simp_all add: snoc)
  have aid: "length (app_aid ?app) = 16"
    using ok(1) assms(6) by (induction ts1 arbitrary: app) (auto simp: put_object_aid)
  from inner_prefix [OF d _ assms(3,4) ok(1) assms(6), of found] b l obtain f1 where f1:
    "bound - ?j < f1" "ppse_inner f buff j bound found app =
       ppse_inner f1 buff ?j bound (found \<or> EMV_TAG_AID \<in> fst ` set ts1) ?app" by auto
  show ?thesis
  proof (cases "known t")
    case True
    have j: "?j < bound" using b l by simp
    obtain f2 where f2: "f1 = Suc f2" "0 < f2" using f1(1) j by (cases f1) auto
    from inner_known [OF d1 [unfolded x] ok(2) [unfolded x] True j aid, of f2] b assms(3)
    show ?thesis unfolding f1(2) f2(1) using f2(2) b
      by (simp add: snoc x inner_end) blast
  next
    case False
    have "list_all (\<lambda>b. \<not> known b) (tlv x)"
      using ok(2) False by (auto simp: x readable_def known_def)
    from inner_skip_all [OF d1 this, of bound f1] b l assms(3) f1 False
    show ?thesis by (auto simp: snoc x known_def)
  qed
qed

text \<open>The scan for templates.\<close>

lemma loop_skip:
  "drop i buff = xs @ ys \<Longrightarrow> EMV_TAG_APP_TEMPLATE \<notin> set xs \<Longrightarrow> i + length xs \<le> len \<Longrightarrow> len < 65536 \<Longrightarrow>
     ppse_loop (length xs + f) buff i len found app = ppse_loop f buff (i + length xs) len found app"
proof (induction xs arbitrary: i)
  case (Cons x xs)
  from Cons.prems(1) have d: "drop i buff = x # (xs @ ys)" by simp
  note get = drop_Cons_get [OF d]
  have "ppse_loop (length (x # xs) + f) buff i len found app =
        ppse_loop (length xs + f) buff (i + 1) len found app"
    using get Cons.prems by auto
  also have "\<dots> = ppse_loop f buff (i + 1 + length xs) len found app"
    using get Cons.prems by (intro Cons.IH) auto
  finally show ?case by simp
qed simp

lemma loop_end: "0 < f \<Longrightarrow> len \<le> i \<Longrightarrow> ppse_loop f buff i len found app = Some (Inr (found, app))"
  by (cases f) auto

text \<open>
  C39. The answer to SELECT PPSE is decoded if it is one that the scan can read. It takes every byte of
  a template for a possible tag, from the byte of its length on. So the answer must hold one
  application template, no other byte of it before or after being the tag of a template; the length of
  the template must not be one of the two numbers 79 and 135 that are the tags looked for; its known
  objects must fit where they go, and in the other ones neither of those two bytes may occur. Then the
  decoder returns, without a read or a copy outside its array, with the application identifier, its
  length and the priority of the template in the application, and it reports exactly whether there
  was an identifier. What happens to answers that are excluded is in the lemmas below.
\<close>

theorem emv_ppse_reads_template:
  fixes pre ts post
  defines "body \<equiv> concat (map tlv ts)"
  defines "buff \<equiv> pre @ [EMV_TAG_APP_TEMPLATE, of_nat (length body)] @ body @ post"
  assumes "list_all readable ts" and "length body \<le> 255" and "\<not> known (of_nat (length body))"
    and "EMV_TAG_APP_TEMPLATE \<notin> set pre \<union> set post" and "length buff < 65000"
    and "length (app_aid app) = 16" and "length buff < fuel"
  shows "emv_decode_ppse_response fuel buff (of_nat (length buff)) app =
    Some (Inr (EMV_TAG_AID \<in> fst ` set ts, foldl put_object app ts))"
proof -
  let ?p = "length pre" and ?L = "length body" and ?len = "length buff"
  have len: "?len = ?p + 2 + ?L + length post" by (simp add: buff_def)
  have u: "unat (of_nat ?len :: u16) = ?len" using assms(7) by (simp add: unat_of_nat_small)
  have uL: "unat (of_nat ?L :: u8) = ?L" using assms(4) by (simp add: unat_of_nat_small)
  obtain f where f: "fuel = ?p + Suc f" "?L + length post + 2 \<le> f"
    using assms(9) len by (intro that [of "fuel - ?p - 1"]) simp_all
  have d0: "drop 0 buff = pre @ (EMV_TAG_APP_TEMPLATE # of_nat ?L # body @ post)" by (simp add: buff_def)
  have dp: "drop ?p buff = EMV_TAG_APP_TEMPLATE # of_nat ?L # body @ post" by (simp add: buff_def)
  have dp1: "drop (?p + 1) buff = of_nat ?L # body @ post" using drop_Cons_get [OF dp] by simp
  have dp2: "drop (?p + 2) buff = body @ post" using drop_Cons_get [OF dp1] by (simp add: eval_nat_numeral)
  have dpost: "drop (?p + 2 + ?L) buff = post @ []" using drop_append_more [OF dp2] by simp
  have inner: "ppse_inner f buff (?p + 1) (?p + 1 + ?L) False app =
      Some (Inr (EMV_TAG_AID \<in> fst ` set ts, foldl put_object app ts))"
  proof (cases "?L = 0")
    case True
    then have "ts = []" using tlv_length [of "hd ts"] by (cases ts) (auto simp: body_def)
    with True f show ?thesis by (simp add: inner_end)
  next
    case False
    obtain f1 where f1: "f = 1 + f1" "?L + length post + 1 \<le> f1" using f(2) by (cases f) auto
    have "ppse_inner (length [of_nat ?L :: u8] + f1) buff (?p + 1) (?p + 1 + ?L) False app =
        ppse_inner f1 buff (?p + 1 + length [of_nat ?L :: u8]) (?p + 1 + ?L) False app"
      using dp1 assms(5,7) False len
      by (intro inner_skip [where xs = "[of_nat ?L]" and ys = "body @ post"]) (auto simp: Suc_le_eq)
    moreover have "ppse_inner f1 buff (?p + 2) (?p + 1 + ?L) False app =
        Some (Inr (False \<or> EMV_TAG_AID \<in> fst ` set ts, foldl put_object app ts))"
      using f1 assms(3,7,8) len by (intro inner_template [OF dp2 [unfolded body_def]]) (auto simp: body_def)
    ultimately show ?thesis using f1 by (simp add: eval_nat_numeral)
  qed
  have "emv_decode_ppse_response fuel buff (of_nat ?len) app = ppse_loop (Suc f) buff ?p ?len False app"
    unfolding emv_decode_ppse_response_def u f(1)
    using loop_skip [OF d0, of ?len "Suc f" False app] assms(6,7) len by simp
  also have "\<dots> = ppse_loop f buff (?p + 2 + ?L) ?len (EMV_TAG_AID \<in> fst ` set ts) (foldl put_object app ts)"
    using drop_Cons_get [OF dp] drop_Cons_get [OF dp1] inner uL assms(7) len
    by (simp add: Let_def)
  also have "\<dots> = Some (Inr (EMV_TAG_AID \<in> fst ` set ts, foldl put_object app ts))"
  proof -
    have "ppse_loop (length post + (f - length post)) buff (?p + 2 + ?L) ?len
        (EMV_TAG_AID \<in> fst ` set ts) (foldl put_object app ts) =
      ppse_loop (f - length post) buff (?p + 2 + ?L + length post) ?len
        (EMV_TAG_AID \<in> fst ` set ts) (foldl put_object app ts)"
      using assms(6,7) len by (intro loop_skip [OF dpost]) auto
    then show ?thesis using f(2) len by (simp add: loop_end)
  qed
  finally show ?thesis .
qed

definition empty_app :: emv_app where
  "empty_app =
     \<lparr>app_priority = 0, app_aid = replicate 16 0, app_aid_len = 0, app_name = replicate 32 0,
      app_card_number = replicate 8 0,
      app_pdol = \<lparr>apdu_size = 0, apdu_data = replicate 255 0\<rparr>,
      app_afl = \<lparr>apdu_size = 0, apdu_data = replicate 255 0\<rparr>\<rparr>"

text \<open>The answer of the card emulation, a card with the label VISA.\<close>

theorem emv_ppse_reads_template_witness:
  "emv_decode_ppse_response 46 select_ppse_ans 45 empty_app =
     Some (Inr (True, empty_app\<lparr>app_aid_len := 7,
       app_aid := [0xA0, 0x00, 0x00, 0x00, 0x03, 0x10, 0x10, 0, 0, 0, 0, 0, 0, 0, 0, 0],
       app_priority := 1\<rparr>))"
proof -
  let ?pre = "[0x6F, 0x29, 0x84, 0x0E, 0x32, 0x50, 0x41, 0x59, 0x2E, 0x53, 0x59, 0x53, 0x2E, 0x44, 0x44,
    0x46, 0x30, 0x31, 0xA5, 0x17, 0xBF, 0x0C, 0x14] :: u8 list"
  let ?ts = "[(0x4F, [0xA0, 0x00, 0x00, 0x00, 0x03, 0x10, 0x10]), (0x50, [0x56, 0x49, 0x53, 0x41]),
    (0x87, [0x01])] :: (u8 \<times> u8 list) list"
  let ?post = "[0x90, 0x00] :: u8 list"
  have "emv_decode_ppse_response 46
      (?pre @ [EMV_TAG_APP_TEMPLATE, of_nat (length (concat (map tlv ?ts)))] @ concat (map tlv ?ts) @ ?post)
      (of_nat (length (?pre @ [EMV_TAG_APP_TEMPLATE, of_nat (length (concat (map tlv ?ts)))] @
         concat (map tlv ?ts) @ ?post))) empty_app =
    Some (Inr (EMV_TAG_AID \<in> fst ` set ?ts, foldl put_object empty_app ?ts))"
    by (rule emv_ppse_reads_template)
      (simp_all add: readable_def known_def tlv_def emv_tags empty_app_def)
  moreover have "replicate 9 (0 :: u8) = [0, 0, 0, 0, 0, 0, 0, 0, 0]" by (simp add: numeral_eq_Suc)
  ultimately show ?thesis
    by (simp add: tlv_def emv_tags select_ppse_ans_def empty_app_def)
qed

text \<open>
  A template of 79 bytes breaks the decoder: its length is taken for the tag of the identifier, and the
  tag of its first object for the length to copy into the 16 bytes of the identifier. Whatever follows,
  a first tag above 16, as every tag of this file is, makes the copy leave the array.
\<close>

lemma emv_length_overflows:
  assumes "buff = EMV_TAG_APP_TEMPLATE # 79 # t # ys" and "16 < unat t"
    and "length buff < 65000" and "length (app_aid app) = 16"
  shows "emv_decode_ppse_response (Suc (Suc fuel)) buff (of_nat (length buff)) app = Some (Inl Out_Of_Bounds)"
proof -
  have u: "unat (of_nat (length buff) :: u16) = length buff" using assms(3) by (simp add: unat_of_nat_small)
  have g: "arr_get buff 0 = Inr EMV_TAG_APP_TEMPLATE" "arr_get buff (Suc 0) = Inr 79"
    "arr_get buff (Suc (Suc 0)) = Inr t"
    by (simp_all add: assms(1) arr_get_def)
  then have "emv_parse_TLV (app_aid app) buff (Suc 0) = Inl Out_Of_Bounds"
    using assms(2,4) by (auto simp: emv_parse_TLV_def read_bytes_def copy_into_def)
  moreover have "0 < length buff" by (simp add: assms(1))
  ultimately show ?thesis
    using g by (simp add: emv_decode_ppse_response_def u Let_def) (simp add: emv_tags)
qed

text \<open>
  A label with the letter O breaks the decoder. The scan takes every byte of a template for a
  possible tag, also those inside values, and the code of the letter is the tag of the application
  identifier. If a label ends in O and the priority follows, as in MAESTRO, the tag of the priority
  is taken for a length of 135 bytes, which are read and copied into the 16 bytes of the
  identifier.
\<close>

theorem emv_label_overflows:
  fixes pre ts label post prio
  defines "body \<equiv> concat (map tlv ts) @ tlv (EMV_TAG_CARD_NAME, label @ [0x4F]) @ tlv (EMV_TAG_PRIORITY, [prio])"
  defines "buff \<equiv> pre @ [EMV_TAG_APP_TEMPLATE, of_nat (length body)] @ body @ post"
  assumes "list_all readable ts" and "length body \<le> 255" and "\<not> known (of_nat (length body))"
    and "list_all (\<lambda>b. \<not> known b) (of_nat (length label + 1) # label)"
    and "EMV_TAG_APP_TEMPLATE \<notin> set pre" and "length buff < 65000"
    and "length (app_aid app) = 16" and "length buff < fuel"
  shows "emv_decode_ppse_response fuel buff (of_nat (length buff)) app = Some (Inl Out_Of_Bounds)"
proof -
  let ?p = "length pre" and ?L = "length body" and ?len = "length buff"
  let ?c = "concat (map tlv ts)" and ?lab = "EMV_TAG_CARD_NAME # of_nat (length label + 1) # label"
  let ?bad = "[0x4F, EMV_TAG_PRIORITY, 1, prio] @ post"
  have body: "body = ?c @ ?lab @ [0x4F, EMV_TAG_PRIORITY, 1, prio]" by (simp add: body_def tlv_def)
  have len: "?len = ?p + 2 + ?L + length post" by (simp add: buff_def)
  have L: "?L = length ?c + length label + 6" by (simp add: body)
  have u: "unat (of_nat ?len :: u16) = ?len" using assms(8) by (simp add: unat_of_nat_small)
  have uL: "unat (of_nat ?L :: u8) = ?L" using assms(4) by (simp add: unat_of_nat_small)
  obtain f where f: "fuel = ?p + Suc (Suc f)" "?L + length post + 1 \<le> f"
    using assms(10) len by (intro that [of "fuel - ?p - 2"]) simp_all
  have d0: "drop 0 buff = pre @ (EMV_TAG_APP_TEMPLATE # of_nat ?L # body @ post)" by (simp add: buff_def)
  have dp: "drop ?p buff = EMV_TAG_APP_TEMPLATE # of_nat ?L # body @ post" by (simp add: buff_def)
  have dp1: "drop (?p + 1) buff = of_nat ?L # body @ post" using drop_Cons_get [OF dp] by simp
  have dp2: "drop (?p + 2) buff = ?c @ (?lab @ ?bad)"
    using drop_Cons_get [OF dp1] by (simp add: eval_nat_numeral body)
  have clean: "list_all (\<lambda>b. \<not> known b) ?lab" using assms(6) by (simp add: known_def emv_tags)
  let ?bound = "?p + 1 + ?L" and ?j = "?p + 2 + length ?c" and ?k = "?p + 2 + length ?c + length ?lab"
  have start: "ppse_inner (Suc f) buff (?p + 1) ?bound False app =
      ppse_inner f buff (?p + 2) ?bound False app"
    using drop_Cons_get [OF dp1] assms(5,8) len L by (simp add: known_def)
  have "?p + 2 + length ?c \<le> ?bound" "?bound < 65000" "?bound - (?p + 2) < f"
    using L len assms(8) f(2) by simp_all
  from inner_prefix [OF dp2 this assms(3,9), of False] obtain f1 found app1 where f1:
    "?bound - ?j < f1" "ppse_inner f buff (?p + 2) ?bound False app = ppse_inner f1 buff ?j ?bound found app1"
    and app1: "app1 = foldl put_object app ts" by blast
  have aid: "length (app_aid app1) = 16"
    unfolding app1 using assms(3,9) by (induction ts arbitrary: app) (auto simp: put_object_aid)
  have dj: "drop ?j buff = ?lab @ ?bad" by (rule drop_append_more [OF dp2])
  have dk: "drop ?k buff = ?bad" using drop_append_more [OF dj] by (simp add: add.assoc)
  obtain f2 where f2: "f1 = length ?lab + Suc f2"
    using f1(1) L by (intro that [of "f1 - length ?lab - 1"]) simp
  have "ppse_inner f1 buff ?j ?bound found app1 = ppse_inner (Suc f2) buff (?j + length ?lab) ?bound found app1"
    unfolding f2 using L len assms(8) by (intro inner_skip [OF dj clean]) simp_all
  also have "ppse_inner (Suc f2) buff ?k ?bound found app1 = Some (Inl Out_Of_Bounds)"
  proof -
    have dk0: "drop ?k buff = 0x4F # EMV_TAG_PRIORITY # 1 # prio # post" using dk by simp
    have g: "arr_get buff (?k + 1) = Inr 0x87"
      using drop_Cons_get [of "?k + 1" buff] drop_Cons_get [OF dk0] by (auto simp: emv_tags)
    then have "emv_parse_TLV (app_aid app1) buff ?k = Inl Out_Of_Bounds"
      using aid by (auto simp: emv_parse_TLV_def read_bytes_def copy_into_def)
    then show ?thesis using drop_Cons_get [OF dk0] g L by (simp add: emv_tags)
  qed
  finally obtain g where g: "g = Suc f"
    and inner: "ppse_inner g buff (?p + 1) ?bound False app = Some (Inl Out_Of_Bounds)"
    using start f1(2) by simp
  have "emv_decode_ppse_response fuel buff (of_nat ?len) app = ppse_loop (Suc g) buff ?p ?len False app"
    unfolding emv_decode_ppse_response_def u f(1) g
    using loop_skip [OF d0, of ?len "Suc (Suc f)" False app] assms(7,8) len by simp
  then show ?thesis
    using drop_Cons_get [OF dp] drop_Cons_get [OF dp1] inner uL assms(8) len
    by (simp add: Let_def)
qed

theorem emv_label_overflows_witness:
  "emv_decode_ppse_response 100
     ([0x6F, 0x20, 0x61, 0x15] @ [0x4F, 0x07, 0xA0, 0x00, 0x00, 0x00, 0x04, 0x30, 0x60] @
      [0x50, 0x07, 0x4D, 0x41, 0x45, 0x53, 0x54, 0x52, 0x4F] @ [0x87, 0x01, 0x01] @ [0x90, 0x00])
     27 empty_app = Some (Inl Out_Of_Bounds)"
proof -
  let ?ts = "[(0x4F, [0xA0, 0x00, 0x00, 0x00, 0x04, 0x30, 0x60])] :: (u8 \<times> u8 list) list"
  let ?l = "[0x4D, 0x41, 0x45, 0x53, 0x54, 0x52] :: u8 list"
  show ?thesis
    using emv_label_overflows [of ?ts ?l 1 "[0x6F, 0x20]" "[0x90, 0x00]" empty_app 100]
    by (simp add: readable_def known_def tlv_def emv_tags empty_app_def)
qed

section \<open>Answering a list of data objects\<close>

lemma bytes_16_eq: "bytes_16 hi lo = w \<longleftrightarrow> lo = ucast w \<and> hi = ucast (drop_bit 8 w)"
  using u16_of_bytes_eq_iff [of lo hi w] by (simp add: bytes_16_def u16_of_bytes_def or.commute)

text \<open>An entry of the list: a tag of one or two bytes, and the length that is asked for.\<close>

definition tag_bytes :: "u16 \<Rightarrow> u8 list" where
  "tag_bytes tag = (if tag < 256 then [ucast tag] else [ucast (drop_bit 8 tag), ucast tag])"

definition pdol_entry :: "u16 \<times> u8 \<Rightarrow> u8 list" where
  "pdol_entry = (\<lambda>(tag, len). tag_bytes tag @ [len])"

text \<open>What is answered: the first bytes of the value the terminal has.\<close>

definition pdol_value :: "u16 \<times> u8 \<Rightarrow> u8 list" where
  "pdol_value = (\<lambda>(tag, len). take (unat len) (the (map_of pdol_values tag)))"

definition answerable :: "u16 \<times> u8 \<Rightarrow> bool" where
  "answerable = (\<lambda>(tag, len).
     case map_of pdol_values tag of None \<Rightarrow> False | Some v \<Rightarrow> unat len \<le> length v)"

text \<open>The search on two bytes that are there.\<close>

fun pdol_hit :: "(u16 \<times> u8 list) list \<Rightarrow> u8 \<Rightarrow> u8 \<Rightarrow> (nat \<times> u8 list) option" where
  "pdol_hit [] b b1 = None"
| "pdol_hit ((tag, v) # vs) b b1 =
     (if ucast b = tag then Some (1, v) else if bytes_16 b b1 = tag then Some (2, v) else pdol_hit vs b b1)"

lemma pdol_find_hit:
  "arr_get src i = Inr b \<Longrightarrow> arr_get src (i + 1) = Inr b1 \<Longrightarrow> pdol_find vs src i = Inr (pdol_hit vs b b1)"
  by (induction vs b b1 rule: pdol_hit.induct) auto

lemma pdol_hits_two:
  "list_all (\<lambda>(tag, v). tag < 256 \<or>
     pdol_hit pdol_values (ucast (drop_bit 8 tag)) (ucast tag) = Some (2, v)) pdol_values"
  by code_simp

lemma pdol_hits_one:
  "list_all (\<lambda>(tag, v). \<not> tag < 256 \<or>
     list_all (\<lambda>n. pdol_hit pdol_values (ucast tag) (of_nat n) = Some (1, v)) [0..<21]) pdol_values"
  by code_simp

lemma pdol_find_known:
  assumes "map_of pdol_values tag = Some v" and "drop i src = pdol_entry (tag, len) @ ys"
    and "unat len \<le> 20"
  shows "pdol_find pdol_values src i = Inr (Some (length (tag_bytes tag), v))"
proof -
  have v: "(tag, v) \<in> set pdol_values" using assms(1) by (rule map_of_SomeD)
  show ?thesis
  proof (cases "tag < 256")
    case True
    then have d: "drop i src = ucast tag # len # ys"
      using assms(2) by (simp add: pdol_entry_def tag_bytes_def)
    have "arr_get src i = Inr (ucast tag)" "arr_get src (i + 1) = Inr len"
      using drop_Cons_get [OF d] drop_Cons_get [of "i + 1" src] by auto
    moreover have "list_all (\<lambda>n. pdol_hit pdol_values (ucast tag) (of_nat n) = Some (1, v)) [0..<21]"
      using pdol_hits_one v True unfolding list_all_iff [of _ pdol_values] by blast
    then have "pdol_hit pdol_values (ucast tag) (of_nat (unat len)) = Some (1, v)"
      unfolding list_all_iff using assms(3) by (auto simp del: of_nat_unat)
    ultimately show ?thesis using True by (simp add: pdol_find_hit tag_bytes_def)
  next
    case False
    then have d: "drop i src = ucast (drop_bit 8 tag) # ucast tag # len # ys"
      using assms(2) by (simp add: pdol_entry_def tag_bytes_def)
    have "arr_get src i = Inr (ucast (drop_bit 8 tag))" "arr_get src (i + 1) = Inr (ucast tag)"
      using drop_Cons_get [OF d] drop_Cons_get [of "i + 1" src] by auto
    moreover have "pdol_hit pdol_values (ucast (drop_bit 8 tag)) (ucast tag) = Some (2, v)"
      using pdol_hits_two v False by (fastforce simp: list_all_iff)
    ultimately show ?thesis using False by (simp add: pdol_find_hit tag_bytes_def)
  qed
qed

lemma pdol_values_short: "list_all (\<lambda>(tag, v). length v \<le> 20) pdol_values"
  by code_simp

lemma answerable_value:
  assumes "answerable (tag, len)"
  obtains v where "map_of pdol_values tag = Some v" and "unat len \<le> length v" and "unat len \<le> 20"
    and "pdol_value (tag, len) = take (unat len) v"
proof -
  obtain v where v: "map_of pdol_values tag = Some v" "unat len \<le> length v"
    using assms by (auto simp: answerable_def split: option.splits)
  from map_of_SomeD [OF v(1)] pdol_values_short have "length v \<le> 20" by (auto simp: list_all_iff)
  with v that show ?thesis by (simp add: pdol_value_def)
qed

lemma pdol_loop_entries:
  "drop i (apdu_data src) = concat (map pdol_entry es) @ ys \<Longrightarrow>
     unat (apdu_size src) = i + length (concat (map pdol_entry es)) \<Longrightarrow> list_all answerable es \<Longrightarrow>
     unat (apdu_size dest) + length (concat (map pdol_value es)) \<le> 255 \<Longrightarrow> length (apdu_data dest) = 255 \<Longrightarrow>
     pdol_loop src dest i = Inr
       \<lparr>apdu_size = apdu_size dest + of_nat (length (concat (map pdol_value es))),
        apdu_data = take (unat (apdu_size dest)) (apdu_data dest) @ concat (map pdol_value es) @
          drop (unat (apdu_size dest) + length (concat (map pdol_value es))) (apdu_data dest)\<rparr>"
proof (induction es arbitrary: i dest)
  case Nil
  then show ?case by (subst pdol_loop.simps) simp
next
  case (Cons e es)
  obtain tag len where e: "e = (tag, len)" by (cases e)
  obtain v where v: "map_of pdol_values tag = Some v" "unat len \<le> length v" "unat len \<le> 20"
    "pdol_value e = take (unat len) v"
    using Cons.prems(3) answerable_value [of tag len] unfolding e by auto
  let ?r = "concat (map pdol_value es)" and ?n = "unat (apdu_size dest)"
  have d: "drop i (apdu_data src) = pdol_entry (tag, len) @ (concat (map pdol_entry es) @ ys)"
    using Cons.prems(1) e by simp
  have find: "pdol_find pdol_values (apdu_data src) i = Inr (Some (length (tag_bytes tag), v))"
    by (rule pdol_find_known [OF v(1) d v(3)])
  have d1: "drop (i + length (tag_bytes tag)) (apdu_data src) = len # concat (map pdol_entry es) @ ys"
    using drop_append_more [of i _ "tag_bytes tag"] d by (simp add: pdol_entry_def)
  note get = drop_Cons_get [OF d1]
  have lt: "i < unat (apdu_size src)" using Cons.prems(2) by (simp add: e pdol_entry_def)
  have lv: "length (pdol_value e) = unat len" using v(2,4) by simp
  have sum: "?n + unat len + length ?r \<le> 255" using Cons.prems(4) lv by simp
  have size1: "unat (apdu_size dest + len) = ?n + unat len"
    using sum by (intro unat_plus_if_fits) simp
  let ?d1 = "take ?n (apdu_data dest) @ pdol_value e @ drop (?n + unat len) (apdu_data dest)"
  have "pdol_loop src dest i =
      pdol_loop src \<lparr>apdu_size = apdu_size dest + len, apdu_data = ?d1\<rparr> (i + length (tag_bytes tag) + 1)"
    using lt find get v sum Cons.prems(5) lv
    by (subst pdol_loop.simps) (simp add: read_bytes_def copy_into_def Let_def)
  also have "\<dots> = Inr
       \<lparr>apdu_size = apdu_size dest + len + of_nat (length ?r),
        apdu_data = take (?n + unat len) ?d1 @ ?r @ drop (?n + unat len + length ?r) ?d1\<rparr>"
    using get Cons.prems sum size1 lv
    by (subst Cons.IH) (auto simp: e pdol_entry_def)
  also have "\<dots> = Inr
       \<lparr>apdu_size = apdu_size dest + of_nat (length (concat (map pdol_value (e # es)))),
        apdu_data = take ?n (apdu_data dest) @ concat (map pdol_value (e # es)) @
          drop (?n + length (concat (map pdol_value (e # es)))) (apdu_data dest)\<rparr>"
    using sum Cons.prems(5) lv by (simp add: ac_simps)
  finally show ?case .
qed

text \<open>
  The answer to the card's list of data objects. If the list asks for values the terminal has,
  none longer than that value and together at most 252 bytes, the command GET PROCESSING OPTIONS
  is built without leaving any array: the header, the two length bytes that count what follows, and
  for each entry in order the first bytes of its value, as many as were asked for.
\<close>

theorem emv_answers_pdol:
  fixes es rest
  defines "entries \<equiv> concat (map pdol_entry es)" and "answer \<equiv> concat (map pdol_value es)"
  assumes "app_pdol app = \<lparr>apdu_size = of_nat (length entries), apdu_data = entries @ rest\<rparr>"
    and "length entries \<le> 255" and "list_all answerable es" and "length answer \<le> 252"
    and "length answer + 8 \<le> length dest"
  shows "\<exists>d. emv_prepare_get_proc_opt dest app = Inr (d, length answer + 8) \<and>
    take (length answer + 8) d =
      [0x80, 0xA8, 0x00, 0x00, of_nat (length answer + 2), 0x83, of_nat (length answer)] @ answer @ [0]"
proof -
  let ?n = "length answer"
  have "unat (of_nat (length entries) :: u8) = length entries" using assms(4) by (simp add: unat_of_nat_small)
  then have pdol: "emv_prepare_pdol \<lparr>apdu_size = 0, apdu_data = replicate MAX_APDU_LEN 0\<rparr> (app_pdol app) =
      Inr \<lparr>apdu_size = of_nat ?n, apdu_data = answer @ replicate (255 - ?n) 0\<rparr>"
    using assms
    by (simp add: emv_prepare_pdol_def MAX_APDU_LEN_def pdol_loop_entries [where es = es and ys = rest])
  have n: "unat (of_nat ?n :: u8) = ?n" using assms(6) by (simp add: unat_of_nat_small)
  obtain a b c e f g h x y where dest: "dest = a # b # c # e # f # g # h # x @ y" "length x = ?n + 1"
  proof -
    have "dest = take 7 dest @ take (?n + 1) (drop 7 dest) @ drop (?n + 1) (drop 7 dest)"
      by (simp only: append_take_drop_id)
    moreover obtain a b c e f g h where "take 7 dest = [a, b, c, e, f, g, h]"
      using assms(7) by (auto simp: eval_nat_numeral Suc_le_length_iff)
    ultimately have "dest = a # b # c # e # f # g # h # take (?n + 1) (drop 7 dest) @ drop (?n + 1) (drop 7 dest)"
      by (metis append_Cons append_Nil)
    moreover have "length (take (?n + 1) (drop 7 dest)) = ?n + 1" using assms(7) by simp
    ultimately show ?thesis using that by blast
  qed
  obtain p q where x: "x = p @ [q]" "length p = ?n" using dest(2) by (cases x rule: rev_cases) auto
  have "drop (7 + ?n) (k1 # k2 # k3 # k4 # k5 # k6 # k7 # p @ q # y) = q # y" for k1 k2 k3 k4 k5 k6 k7
    using x(2) by (simp add: eval_nat_numeral)
  moreover have "take (?n + 8) (k1 # k2 # k3 # k4 # k5 # k6 # k7 # answer @ k8 # y) =
      k1 # k2 # k3 # k4 # k5 # k6 # k7 # answer @ [k8]" for k1 k2 k3 k4 k5 k6 k7 k8
    by (simp add: eval_nat_numeral)
  ultimately show ?thesis
    using pdol n dest(1) x
    by (simp add: emv_prepare_get_proc_opt_def copy_into_def read_bytes_def arr_set_def)
qed

theorem emv_answers_pdol_witness:
  "\<exists>d. emv_prepare_get_proc_opt (replicate 64 0)
       (empty_app\<lparr>app_pdol := \<lparr>apdu_size = 12, apdu_data =
          [0x9F, 0x66, 0x04, 0x9F, 0x02, 0x06, 0x9F, 0x37, 0x04, 0x5F, 0x2A, 0x02] @ replicate 243 0\<rparr>\<rparr>) =
       Inr (d, 24) \<and>
     take 24 d = [0x80, 0xA8, 0x00, 0x00, 18, 0x83, 16, 0x79, 0x00, 0x40, 0x80, 0x00, 0x00, 0x00, 0x10,
       0x00, 0x00, 0x82, 0x3D, 0xDE, 0x7A, 0x01, 0x24, 0]"
proof -
  let ?es = "[(0x9F66, 4), (0x9F02, 6), (0x9F37, 4), (0x5F2A, 2)] :: (u16 \<times> u8) list"
  have e: "concat (map pdol_entry ?es) =
      [0x9F, 0x66, 0x04, 0x9F, 0x02, 0x06, 0x9F, 0x37, 0x04, 0x5F, 0x2A, 0x02]"
    by code_simp
  have a: "concat (map pdol_value ?es) =
      [0x79, 0x00, 0x40, 0x80, 0x00, 0x00, 0x00, 0x10, 0x00, 0x00, 0x82, 0x3D, 0xDE, 0x7A, 0x01, 0x24]"
    by code_simp
  have "list_all answerable ?es" by code_simp
  then show ?thesis
    using emv_answers_pdol [of _ ?es "replicate 243 0" "replicate 64 0", unfolded e a] by simp
qed

section \<open>The name of the card\<close>

lemma select_skip:
  "drop i buff = xs @ y # ys \<Longrightarrow> set xs \<inter> {EMV_TAG_CARD_NAME, 0x9F} = {} \<Longrightarrow> i + length xs \<le> len \<Longrightarrow>
     len < 65536 \<Longrightarrow>
     select_app_loop (length xs + f) buff i len found app = select_app_loop f buff (i + length xs) len found app"
proof (induction xs arbitrary: i)
  case (Cons x xs)
  from Cons.prems(1) have d: "drop i buff = x # (xs @ y # ys)" by simp
  note get = drop_Cons_get [OF d]
  obtain z where z: "arr_get buff (i + 1) = Inr z"
    using get drop_Cons_get [of "i + 1" buff] by (cases xs) auto
  have "bytes_16 x z \<noteq> EMV_TAG_PDOL" using Cons.prems(2) by (auto simp: bytes_16_eq emv_tags)
  then have "select_app_loop (length (x # xs) + f) buff i len found app =
        select_app_loop (length xs + f) buff (i + 1) len found app"
    using get z Cons.prems by auto
  also have "\<dots> = select_app_loop f buff (i + 1 + length xs) len found app"
    using get Cons.prems by (intro Cons.IH) auto
  finally show ?case by simp
qed simp

lemma select_end: "0 < f \<Longrightarrow> len \<le> i \<Longrightarrow> select_app_loop f buff i len found app = Some (Inr (found, app))"
  by (cases f) auto

lemma parse_TLV_long:
  "drop j buff = t # l # ys \<Longrightarrow> length dest < unat l \<Longrightarrow> emv_parse_TLV dest buff j = Inl Out_Of_Bounds"
proof -
  assume d: "drop j buff = t # l # ys" and l: "length dest < unat l"
  have "arr_get buff (j + 1) = Inr l" using drop_Cons_get [OF d] drop_Cons_get [of "j + 1" buff] by blast
  then show ?thesis using l by (auto simp: emv_parse_TLV_def read_bytes_def copy_into_def)
qed

text \<open>
  The name of the card is copied with no regard to the 32 characters that are kept for it: the
  answer to SELECT is decoded without a fault exactly if the name has at most 31 characters, and
  then the name is kept with its terminator. (The answer has one name and no list of data objects,
  and at least one byte of the buffer follows it.)
\<close>

theorem emv_card_name_fits:
  fixes pre name post
  defines "ans \<equiv> pre @ [EMV_TAG_CARD_NAME, of_nat (length name)] @ name @ post"
  assumes "set pre \<inter> {EMV_TAG_CARD_NAME, 0x9F} = {}" and "set post \<inter> {EMV_TAG_CARD_NAME, 0x9F} = {}"
    and "length name \<le> 255" and "length ans < 65000" and "length (app_name app) = 32" and "length ans < fuel"
  shows "emv_decode_select_app_response fuel (ans @ x # xs) (of_nat (length ans)) app =
    Some (if length name \<le> 31
          then Inr (True, app\<lparr>app_name := name @ 0 # drop (length name + 1) (app_name app)\<rparr>)
          else Inl Out_Of_Bounds)"
proof -
  let ?p = "length pre" and ?n = "length name" and ?len = "length ans" and ?buff = "ans @ x # xs"
  have len: "?len = ?p + 2 + ?n + length post" by (simp add: ans_def)
  have u: "unat (of_nat ?len :: u16) = ?len" using assms(5) by (simp add: unat_of_nat_small)
  have un: "unat (of_nat ?n :: u8) = ?n" using assms(4) by (simp add: unat_of_nat_small)
  obtain f where f: "fuel = ?p + Suc f" "length post < f"
    using assms(7) len by (intro that [of "fuel - ?p - 1"]) simp_all
  have d0: "drop 0 ?buff = pre @ EMV_TAG_CARD_NAME # (of_nat ?n # name @ post @ x # xs)" by (simp add: ans_def)
  have dp: "drop ?p ?buff = EMV_TAG_CARD_NAME # of_nat ?n # name @ (post @ x # xs)" by (simp add: ans_def)
  have dpost: "drop (?p + 2 + ?n) ?buff = post @ x # xs" by (simp add: ans_def)
  have get: "arr_get ?buff ?p = Inr EMV_TAG_CARD_NAME" "arr_get ?buff (?p + 1) = Inr (of_nat ?n)"
    using drop_Cons_get [OF dp] drop_Cons_get [of "?p + 1" ?buff] by auto
  have start: "emv_decode_select_app_response fuel ?buff (of_nat ?len) app =
      select_app_loop (Suc f) ?buff ?p ?len False app"
    unfolding emv_decode_select_app_response_def u f(1)
    using select_skip [OF d0 assms(2), of ?len "Suc f" False app] assms(5) len by simp
  consider "?n \<le> 31" | "?n = 32" | "32 < ?n" by linarith
  then show ?thesis
  proof cases
    case 1
    have "?n \<le> length (app_name app)" using 1 assms(6) by simp
    note parse = parse_TLV_ok [OF dp un [symmetric] this]
    have set: "(name @ drop ?n (app_name app))[?n := 0] = name @ 0 # drop (?n + 1) (app_name app)"
      using 1 assms(6) by (simp add: list_update_append Cons_nth_drop_Suc [symmetric])
    have "select_app_loop (Suc f) ?buff ?p ?len False app =
        select_app_loop f ?buff (?p + 2 + ?n) ?len True
          (app\<lparr>app_name := name @ 0 # drop (?n + 1) (app_name app)\<rparr>)"
      using get parse set un 1 assms(5,6) len by simp
    also have "\<dots> = Some (Inr (True, app\<lparr>app_name := name @ 0 # drop (?n + 1) (app_name app)\<rparr>))"
      using select_skip [OF dpost assms(3), of ?len "f - length post" True
          "app\<lparr>app_name := name @ 0 # drop (?n + 1) (app_name app)\<rparr>"] f(2) assms(5) len
      by (simp add: select_end)
    finally show ?thesis using start 1 by simp
  next
    case 2
    then have "?n \<le> length (app_name app)" using assms(6) by simp
    note parse = parse_TLV_ok [OF dp un [symmetric] this]
    then show ?thesis using start get 2 un assms(5,6) len by simp
  next
    case 3
    then have "length (app_name app) < unat (of_nat ?n :: u8)" using assms(6) un by simp
    from parse_TLV_long [OF dp this] show ?thesis using start get 3 len by simp
  qed
qed

theorem emv_card_name_fits_witness:
  "emv_decode_select_app_response 100 ([0x6F, 0x06, 0x50, 0x04, 0x56, 0x49, 0x53, 0x41, 0x90, 0x00] @ [0])
     10 empty_app =
     Some (Inr (True, empty_app\<lparr>app_name := [0x56, 0x49, 0x53, 0x41] @ replicate 28 0\<rparr>)) \<and>
   emv_decode_select_app_response 100 ([0x50, 0x20] @ replicate 32 0x41 @ [0]) 34 empty_app =
     Some (Inl Out_Of_Bounds)"
proof
  have "0 # replicate 27 (0 :: u8) = replicate 28 0" by (simp add: numeral_eq_Suc)
  then show "emv_decode_select_app_response 100 ([0x6F, 0x06, 0x50, 0x04, 0x56, 0x49, 0x53, 0x41, 0x90, 0x00] @ [0])
     10 empty_app =
     Some (Inr (True, empty_app\<lparr>app_name := [0x56, 0x49, 0x53, 0x41] @ replicate 28 0\<rparr>))"
    using emv_card_name_fits [of "[0x6F, 0x06]" "[0x90, 0x00]" "[0x56, 0x49, 0x53, 0x41]" empty_app 100 0 "[]"]
    by (simp add: emv_tags empty_app_def)
  show "emv_decode_select_app_response 100 ([0x50, 0x20] @ replicate 32 0x41 @ [0]) 34 empty_app =
     Some (Inl Out_Of_Bounds)"
    using emv_card_name_fits [of "[]" "[]" "replicate 32 0x41" empty_app 100 0 "[]"]
    by (simp add: emv_tags empty_app_def)
qed

end
