(* ===== verification/Notification.thy ===== *)
theory Notification
  imports Float32
begin

text \<open>
  The notification service: \<^verbatim>\<open>applications/notification/notification-app.c\<close>, its API
  \<^verbatim>\<open>notification-app-api.c\<close> and the messages and sequences of \<^verbatim>\<open>notification-messages.c\<close>.

  A sequence, an array of message pointers that ends with \<^verbatim>\<open>NULL\<close>, is the list of its messages.
  What the service does to the hardware, to the display timer and to the event flags of the
  callers is a trace of calls. The timer is one-shot; \<open>na_timer\<close> says whether it runs. \<open>freq\<close> is
  the tick frequency of the kernel. The asserts of the source on a layer (the pointer is not null,
  the index is below \<^verbatim>\<open>LayerMAX\<close>) hold by the types of the model.
\<close>

unbundle bit_operations_syntax

section \<open>Data\<close>

datatype light = LightRed | LightGreen | LightBlue | LightBacklight

datatype notification_message =
    MessageTypeVibro bool
  | MessageTypeSoundOn rat rat  \<comment> \<open>frequency, pwm\<close>
  | MessageTypeSoundOff
  | MessageTypeLedRed u8
  | MessageTypeLedGreen u8
  | MessageTypeLedBlue u8
  | MessageTypeDelay u32
  | MessageTypeLedDisplay u8
  | MessageTypeDoNotReset

datatype app_message_type = NotificationLayerMessage | InternalLayerMessage

record app_message =
  am_sequence :: "notification_message list"
  am_type :: app_message_type
  am_back_event :: "nat option"

datatype layer_index = LayerInternal | LayerNotification

record led_layer =
  ll_value :: "layer_index \<Rightarrow> u8"
  ll_index :: layer_index
  ll_light :: light

record notification_settings =
  display_brightness :: rat
  led_brightness :: rat
  display_off_delay_ms :: u32

record notification_app =
  na_queue :: "app_message list"
  na_timer :: bool
  na_display :: led_layer
  na_led :: "led_layer list"
  na_settings :: notification_settings

datatype notification_call =
    Light_Set light u8
  | Vibro_On bool
  | Pwm_Set rat rat
  | Pwm_Stop
  | Timer_Start u32
  | Timer_Stop
  | Delay_Ms u32
  | Event_Set nat

definition minimal_delay :: u8 where "minimal_delay = 100"

definition led_off_values :: "u8 list" where "led_off_values = [0, 0, 0]"

definition reset_red_mask :: u8 where "reset_red_mask = push_bit 0 1"
definition reset_green_mask :: u8 where "reset_green_mask = push_bit 1 1"
definition reset_blue_mask :: u8 where "reset_blue_mask = push_bit 2 1"
definition reset_vibro_mask :: u8 where "reset_vibro_mask = push_bit 3 1"
definition reset_sound_mask :: u8 where "reset_sound_mask = push_bit 4 1"
definition reset_display_mask :: u8 where "reset_display_mask = push_bit 5 1"

section \<open>Settings\<close>

definition notification_settings_get_display_brightness :: "notification_app \<Rightarrow> u8 \<Rightarrow> u8" where
  "notification_settings_get_display_brightness app v =
     word_of_int \<lfloor>f32 (of_nat (unat v) * display_brightness (na_settings app))\<rfloor>"

definition notification_settings_get_rgb_led_brightness :: "notification_app \<Rightarrow> u8 \<Rightarrow> u8" where
  "notification_settings_get_rgb_led_brightness app v =
     word_of_int \<lfloor>f32 (of_nat (unat v) * led_brightness (na_settings app))\<rfloor>"

definition notification_settings_display_off_delay_ticks :: "u32 \<Rightarrow> notification_app \<Rightarrow> u32" where
  "notification_settings_display_off_delay_ticks freq app =
     word_of_int
       \<lfloor>f32 (f32 (of_nat (unat (display_off_delay_ms (na_settings app)))) /
             f32 (1000 / f32 (of_nat (unat freq))))\<rfloor>"

section \<open>Layers\<close>

definition notification_apply_internal_led_layer ::
    "led_layer \<Rightarrow> u8 \<Rightarrow> notification_call list \<times> led_layer" where
  "notification_apply_internal_led_layer l v =
     (let l1 = l\<lparr>ll_value := (ll_value l)(LayerInternal := v)\<rparr>
      in (if ll_index l1 = LayerInternal
          then [Light_Set (ll_light l1) (ll_value l1 LayerInternal)] else [], l1))"

definition notification_is_any_led_layer_internal_and_not_empty :: "notification_app \<Rightarrow> bool" where
  "notification_is_any_led_layer_internal_and_not_empty app \<longleftrightarrow>
     (ll_index (na_led app ! 0) = LayerInternal \<or> ll_index (na_led app ! 1) = LayerInternal \<or>
      ll_index (na_led app ! 2) = LayerInternal) \<and>
     (ll_value (na_led app ! 0) LayerInternal \<noteq> 0 \<or> ll_value (na_led app ! 1) LayerInternal \<noteq> 0 \<or>
      ll_value (na_led app ! 2) LayerInternal \<noteq> 0)"

definition notification_apply_notification_led_layer ::
    "led_layer \<Rightarrow> u8 \<Rightarrow> notification_call list \<times> led_layer" where
  "notification_apply_notification_led_layer l v =
     (let l1 = l\<lparr>ll_index := LayerNotification,
                 ll_value := (ll_value l)(LayerNotification := v)\<rparr>
      in ([Light_Set (ll_light l1) (ll_value l1 LayerNotification)], l1))"

definition notification_reset_notification_led_layer ::
    "led_layer \<Rightarrow> notification_call list \<times> led_layer" where
  "notification_reset_notification_led_layer l =
     (let l1 = l\<lparr>ll_value := (ll_value l)(LayerNotification := 0), ll_index := LayerInternal\<rparr>
      in ([Light_Set (ll_light l1) (ll_value l1 LayerInternal)], l1))"

text \<open>An operation on the layer of one LED, or of the display, within the service.\<close>

definition on_led ::
    "nat \<Rightarrow> (led_layer \<Rightarrow> notification_call list \<times> led_layer) \<Rightarrow> notification_app \<Rightarrow>
     notification_call list \<times> notification_app" where
  "on_led i f app =
     (let r = f (na_led app ! i) in (fst r, app\<lparr>na_led := (na_led app)[i := snd r]\<rparr>))"

definition on_display ::
    "(led_layer \<Rightarrow> notification_call list \<times> led_layer) \<Rightarrow> notification_app \<Rightarrow>
     notification_call list \<times> notification_app" where
  "on_display f app = (let r = f (na_display app) in (fst r, app\<lparr>na_display := snd r\<rparr>))"

text \<open>Two steps one after the other, and a step that is made only if a condition holds.\<close>

definition then_do ::
    "(notification_app \<Rightarrow> notification_call list \<times> notification_app) \<Rightarrow>
     (notification_app \<Rightarrow> notification_call list \<times> notification_app) \<Rightarrow>
     notification_app \<Rightarrow> notification_call list \<times> notification_app" where
  "then_do f g app =
     (let r = f app; r1 = g (snd r) in (fst r @ fst r1, snd r1))"

definition do_if ::
    "bool \<Rightarrow> (notification_app \<Rightarrow> notification_call list \<times> notification_app) \<Rightarrow>
     notification_app \<Rightarrow> notification_call list \<times> notification_app" where
  "do_if c f app = (if c then f app else ([], app))"

definition do_call ::
    "notification_call \<Rightarrow> notification_app \<Rightarrow> notification_call list \<times> notification_app" where
  "do_call c app = ([c], app)"

definition start_timer ::
    "u32 \<Rightarrow> notification_app \<Rightarrow> notification_call list \<times> notification_app" where
  "start_timer freq app =
     ([Timer_Start (notification_settings_display_off_delay_ticks freq app)],
      app\<lparr>na_timer := True\<rparr>)"

definition stop_timer :: "notification_app \<Rightarrow> notification_call list \<times> notification_app" where
  "stop_timer app = (if na_timer app then ([Timer_Stop], app\<lparr>na_timer := False\<rparr>) else ([], app))"

definition notification_reset_notification_layer ::
    "u32 \<Rightarrow> u8 \<Rightarrow> notification_app \<Rightarrow> notification_call list \<times> notification_app" where
  "notification_reset_notification_layer freq msk =
     then_do (do_if (msk AND reset_red_mask \<noteq> 0)
                (on_led 0 notification_reset_notification_led_layer))
     (then_do (do_if (msk AND reset_green_mask \<noteq> 0)
                (on_led 1 notification_reset_notification_led_layer))
     (then_do (do_if (msk AND reset_blue_mask \<noteq> 0)
                (on_led 2 notification_reset_notification_led_layer))
     (then_do (do_if (msk AND reset_vibro_mask \<noteq> 0) (do_call (Vibro_On False)))
     (then_do (do_if (msk AND reset_sound_mask \<noteq> 0) (do_call Pwm_Stop))
              (do_if (msk AND reset_display_mask \<noteq> 0) (start_timer freq))))))"

definition apply_led ::
    "u8 list \<Rightarrow> nat \<Rightarrow> notification_app \<Rightarrow> notification_call list \<times> notification_app" where
  "apply_led values i app =
     on_led i (\<lambda>l. notification_apply_notification_led_layer l
                 (notification_settings_get_display_brightness app (values ! i))) app"

definition notification_apply_notification_leds ::
    "u8 list \<Rightarrow> notification_app \<Rightarrow> notification_call list \<times> notification_app" where
  "notification_apply_notification_leds values =
     then_do (apply_led values 0) (then_do (apply_led values 1) (apply_led values 2))"

section \<open>Sequences\<close>

text \<open>
  The variables of the loop of \<^verbatim>\<open>notification_process_notification_message\<close>.
\<close>

record sequence_state =
  led_active :: bool
  led_values :: "u8 list"
  reset_notifications :: bool
  reset_mask :: u8

definition sequence_start :: sequence_state where
  "sequence_start =
     \<lparr>led_active = False, led_values = [0, 0, 0], reset_notifications = True, reset_mask = 0\<rparr>"

definition rgb_masks :: "u8 \<Rightarrow> u8" where
  "rgb_masks msk = msk OR reset_red_mask OR reset_green_mask OR reset_blue_mask"

definition set_led :: "nat \<Rightarrow> u8 \<Rightarrow> u8 \<Rightarrow> sequence_state \<Rightarrow> sequence_state" where
  "set_led i v msk st =
     st\<lparr>led_active := True, led_values := (led_values st)[i := v],
        reset_mask := reset_mask st OR msk\<rparr>"

definition add_mask :: "u8 \<Rightarrow> sequence_state \<Rightarrow> sequence_state" where
  "add_mask msk st = st\<lparr>reset_mask := reset_mask st OR msk\<rparr>"

definition sequence_step ::
    "notification_message \<Rightarrow> sequence_state \<Rightarrow> notification_app \<Rightarrow>
     notification_call list \<times> sequence_state \<times> notification_app" where
  "sequence_step msg st app =
     (case msg of
        MessageTypeLedDisplay v \<Rightarrow>
          (let r = (if 0 < v
                    then on_display (\<lambda>l. notification_apply_notification_led_layer l
                           (notification_settings_get_display_brightness app v)) app
                    else then_do (on_display notification_reset_notification_led_layer)
                           stop_timer app)
           in (fst r, add_mask reset_display_mask st, snd r))
      | MessageTypeLedRed v \<Rightarrow> ([], set_led 0 v reset_red_mask st, app)
      | MessageTypeLedGreen v \<Rightarrow> ([], set_led 1 v reset_green_mask st, app)
      | MessageTypeLedBlue v \<Rightarrow> ([], set_led 2 v reset_blue_mask st, app)
      | MessageTypeVibro on \<Rightarrow> ([Vibro_On on], add_mask reset_vibro_mask st, app)
      | MessageTypeSoundOn f p \<Rightarrow> ([Pwm_Set p f], add_mask reset_sound_mask st, app)
      | MessageTypeSoundOff \<Rightarrow> ([Pwm_Stop], add_mask reset_sound_mask st, app)
      | MessageTypeDelay ms \<Rightarrow>
          (let r = (if led_active st
                    then then_do
                           (do_if (notification_is_any_led_layer_internal_and_not_empty app)
                              (then_do (notification_apply_notification_leds led_off_values)
                                 (do_call (Delay_Ms (ucast minimal_delay)))))
                           (notification_apply_notification_leds (led_values st)) app
                    else ([], app))
           in (fst r @ [Delay_Ms ms],
               if led_active st
               then st\<lparr>led_active := False, reset_mask := rgb_masks (reset_mask st)\<rparr> else st,
               snd r))
      | MessageTypeDoNotReset \<Rightarrow> ([], st\<lparr>reset_notifications := False\<rparr>, app))"

fun sequence_loop ::
    "notification_message list \<Rightarrow> sequence_state \<Rightarrow> notification_app \<Rightarrow>
     notification_call list \<times> sequence_state \<times> notification_app" where
  "sequence_loop [] st app = ([], st, app)"
| "sequence_loop (msg # msgs) st app =
     (let r = sequence_step msg st app;
          r1 = sequence_loop msgs (fst (snd r)) (snd (snd r))
      in (fst r @ fst r1, snd r1))"

definition signal_event ::
    "nat option \<Rightarrow> notification_app \<Rightarrow> notification_call list \<times> notification_app" where
  "signal_event back = (case back of None \<Rightarrow> Pair [] | Some e \<Rightarrow> do_call (Event_Set e))"

text \<open>What follows the loop: the LEDs that no delay has shown yet, the reset, the event.\<close>

definition sequence_end ::
    "u32 \<Rightarrow> nat option \<Rightarrow> sequence_state \<Rightarrow> notification_app \<Rightarrow>
     notification_call list \<times> notification_app" where
  "sequence_end freq back st app =
     then_do
       (do_if (led_active st)
          (then_do (notification_apply_notification_leds (led_values st))
             (do_if (notification_is_any_led_layer_internal_and_not_empty app)
                (then_do (notification_apply_notification_leds led_off_values)
                   (do_call (Delay_Ms (ucast minimal_delay)))))))
     (then_do
       (do_if (reset_notifications st)
          (notification_reset_notification_layer freq
             (if led_active st then rgb_masks (reset_mask st) else reset_mask st)))
       (signal_event back)) app"

definition notification_process_notification_message ::
    "u32 \<Rightarrow> app_message \<Rightarrow> notification_app \<Rightarrow> notification_call list \<times> notification_app" where
  "notification_process_notification_message freq m app =
     (let r = sequence_loop (am_sequence m) sequence_start app;
          r1 = sequence_end freq (am_back_event m) (fst (snd r)) (snd (snd r))
      in (fst r @ fst r1, snd r1))"

definition internal_step ::
    "notification_message \<Rightarrow> notification_app \<Rightarrow> notification_call list \<times> notification_app" where
  "internal_step msg app =
     (case msg of
        MessageTypeLedDisplay v \<Rightarrow>
          on_display (\<lambda>l. notification_apply_internal_led_layer l
            (notification_settings_get_display_brightness app v)) app
      | MessageTypeLedRed v \<Rightarrow>
          on_led 0 (\<lambda>l. notification_apply_internal_led_layer l
            (notification_settings_get_rgb_led_brightness app v)) app
      | MessageTypeLedGreen v \<Rightarrow>
          on_led 1 (\<lambda>l. notification_apply_internal_led_layer l
            (notification_settings_get_rgb_led_brightness app v)) app
      | MessageTypeLedBlue v \<Rightarrow>
          on_led 2 (\<lambda>l. notification_apply_internal_led_layer l
            (notification_settings_get_rgb_led_brightness app v)) app
      | _ \<Rightarrow> ([], app))"

fun internal_loop ::
    "notification_message list \<Rightarrow> notification_app \<Rightarrow> notification_call list \<times> notification_app"
where
  "internal_loop [] app = ([], app)"
| "internal_loop (msg # msgs) app = then_do (internal_step msg) (internal_loop msgs) app"

definition notification_process_internal_message ::
    "app_message \<Rightarrow> notification_app \<Rightarrow> notification_call list \<times> notification_app" where
  "notification_process_internal_message m =
     then_do (internal_loop (am_sequence m))
       (signal_event (am_back_event m))"

section \<open>The application\<close>

definition empty_layer :: "light \<Rightarrow> led_layer" where
  "empty_layer li = \<lparr>ll_value = (\<lambda>_. 0), ll_index = LayerInternal, ll_light = li\<rparr>"

definition notification_app_alloc :: notification_app where
  "notification_app_alloc =
     \<lparr>na_queue = [], na_timer = False, na_display = empty_layer LightBacklight,
      na_led = [empty_layer LightRed, empty_layer LightGreen, empty_layer LightBlue],
      na_settings = \<lparr>display_brightness = 1, led_brightness = 1, display_off_delay_ms = 30000\<rparr>\<rparr>"

definition notification_app_start :: "notification_call list \<times> notification_app" where
  "notification_app_start =
     then_do (do_call (Vibro_On False))
     (then_do (do_call Pwm_Stop)
     (then_do (on_display (\<lambda>l. notification_apply_internal_led_layer l 0))
     (then_do (on_led 0 (\<lambda>l. notification_apply_internal_led_layer l 0))
     (then_do (on_led 1 (\<lambda>l. notification_apply_internal_led_layer l 0))
              (on_led 2 (\<lambda>l. notification_apply_internal_led_layer l 0)))))) notification_app_alloc"

definition notification_app_step ::
    "u32 \<Rightarrow> app_message \<Rightarrow> notification_app \<Rightarrow> notification_call list \<times> notification_app" where
  "notification_app_step freq m app =
     (case am_type m of
        NotificationLayerMessage \<Rightarrow> notification_process_notification_message freq m app
      | InternalLayerMessage \<Rightarrow> notification_process_internal_message m app)"

section \<open>Messages and sequences\<close>

definition message_display_on :: notification_message where
  "message_display_on = MessageTypeLedDisplay 255"

definition message_display_off :: notification_message where
  "message_display_off = MessageTypeLedDisplay 0"

definition message_red_255 :: notification_message where
  "message_red_255 = MessageTypeLedRed 255"

definition message_green_255 :: notification_message where
  "message_green_255 = MessageTypeLedGreen 255"

definition message_blue_255 :: notification_message where
  "message_blue_255 = MessageTypeLedBlue 255"

definition message_red_0 :: notification_message where
  "message_red_0 = MessageTypeLedRed 0"

definition message_green_0 :: notification_message where
  "message_green_0 = MessageTypeLedGreen 0"

definition message_blue_0 :: notification_message where
  "message_blue_0 = MessageTypeLedBlue 0"

definition message_delay_10 :: notification_message where
  "message_delay_10 = MessageTypeDelay 10"

definition message_delay_25 :: notification_message where
  "message_delay_25 = MessageTypeDelay 25"

definition message_delay_50 :: notification_message where
  "message_delay_50 = MessageTypeDelay 50"

definition message_delay_100 :: notification_message where
  "message_delay_100 = MessageTypeDelay 100"

definition message_delay_250 :: notification_message where
  "message_delay_250 = MessageTypeDelay 250"

definition message_delay_500 :: notification_message where
  "message_delay_500 = MessageTypeDelay 500"

definition message_delay_1000 :: notification_message where
  "message_delay_1000 = MessageTypeDelay 1000"

definition message_sound_off :: notification_message where
  "message_sound_off = MessageTypeSoundOff"

definition message_vibro_on :: notification_message where
  "message_vibro_on = MessageTypeVibro True"

definition message_vibro_off :: notification_message where
  "message_vibro_off = MessageTypeVibro False"

definition message_do_not_reset :: notification_message where
  "message_do_not_reset = MessageTypeDoNotReset"

definition message_note_c5 :: notification_message where
  "message_note_c5 = MessageTypeSoundOn (f32 (52325 / 100)) (1 / 2)"

definition message_note_e5 :: notification_message where
  "message_note_e5 = MessageTypeSoundOn (f32 (65926 / 100)) (1 / 2)"

definition message_note_g5 :: notification_message where
  "message_note_g5 = MessageTypeSoundOn (f32 (78399 / 100)) (1 / 2)"

definition message_note_c6 :: notification_message where
  "message_note_c6 = MessageTypeSoundOn (f32 (10465 / 10)) (1 / 2)"

definition sequence_reset_red :: "notification_message list" where
  "sequence_reset_red = [message_red_0]"

definition sequence_reset_green :: "notification_message list" where
  "sequence_reset_green = [message_blue_0]"

definition sequence_reset_blue :: "notification_message list" where
  "sequence_reset_blue = [message_green_0]"

definition sequence_reset_rgb :: "notification_message list" where
  "sequence_reset_rgb = [message_red_0, message_blue_0, message_green_0]"

definition sequence_reset_display :: "notification_message list" where
  "sequence_reset_display = [message_display_off]"

definition sequence_reset_sound :: "notification_message list" where
  "sequence_reset_sound = [message_sound_off]"

definition sequence_reset_vibro :: "notification_message list" where
  "sequence_reset_vibro = [message_vibro_off]"

definition sequence_set_vibro_on :: "notification_message list" where
  "sequence_set_vibro_on = [message_vibro_on, message_do_not_reset]"

definition sequence_display_on :: "notification_message list" where
  "sequence_display_on = [message_display_on]"

definition sequence_display_off :: "notification_message list" where
  "sequence_display_off = [message_display_off]"

definition sequence_charging :: "notification_message list" where
  "sequence_charging = [message_red_255, message_green_0]"

definition sequence_charged :: "notification_message list" where
  "sequence_charged = [message_green_255, message_red_0]"

definition sequence_not_charging :: "notification_message list" where
  "sequence_not_charging = [message_red_0, message_green_0]"

definition sequence_set_only_red_255 :: "notification_message list" where
  "sequence_set_only_red_255 =
     [message_red_255, message_green_0, message_blue_0, message_do_not_reset]"

definition sequence_set_only_green_255 :: "notification_message list" where
  "sequence_set_only_green_255 =
     [message_red_0, message_green_255, message_blue_0, message_do_not_reset]"

definition sequence_set_only_blue_255 :: "notification_message list" where
  "sequence_set_only_blue_255 =
     [message_red_0, message_green_0, message_blue_255, message_do_not_reset]"

definition sequence_set_red_255 :: "notification_message list" where
  "sequence_set_red_255 = [message_red_255, message_do_not_reset]"

definition sequence_set_green_255 :: "notification_message list" where
  "sequence_set_green_255 = [message_green_255, message_do_not_reset]"

definition sequence_set_blue_255 :: "notification_message list" where
  "sequence_set_blue_255 = [message_blue_255, message_do_not_reset]"

definition sequence_blink_red_10 :: "notification_message list" where
  "sequence_blink_red_10 = [message_red_255, message_delay_10]"

definition sequence_blink_green_10 :: "notification_message list" where
  "sequence_blink_green_10 = [message_green_255, message_delay_10]"

definition sequence_blink_yellow_10 :: "notification_message list" where
  "sequence_blink_yellow_10 = [message_red_255, message_green_255, message_delay_10]"

definition sequence_blink_red_100 :: "notification_message list" where
  "sequence_blink_red_100 = [message_red_255, message_delay_100]"

definition sequence_blink_green_100 :: "notification_message list" where
  "sequence_blink_green_100 = [message_green_255, message_delay_100]"

definition sequence_blink_blue_100 :: "notification_message list" where
  "sequence_blink_blue_100 = [message_blue_255, message_delay_100]"

definition sequence_blink_yellow_100 :: "notification_message list" where
  "sequence_blink_yellow_100 = [message_red_255, message_green_255, message_delay_100]"

definition sequence_blink_cyan_100 :: "notification_message list" where
  "sequence_blink_cyan_100 = [message_green_255, message_blue_255, message_delay_100]"

definition sequence_blink_magenta_100 :: "notification_message list" where
  "sequence_blink_magenta_100 = [message_red_255, message_blue_255, message_delay_100]"

definition sequence_blink_white_100 :: "notification_message list" where
  "sequence_blink_white_100 =
     [message_red_255, message_green_255, message_blue_255, message_delay_100]"

definition sequence_success :: "notification_message list" where
  "sequence_success =
     [message_display_on, message_green_255, message_vibro_on, message_note_c5,
     message_delay_50, message_vibro_off, message_note_e5, message_delay_50, message_note_g5,
     message_delay_50, message_note_c6, message_delay_50, message_sound_off]"

definition sequence_error :: "notification_message list" where
  "sequence_error =
     [message_display_on, message_red_255, message_vibro_on, message_note_c5,
     message_delay_100, message_vibro_off, message_sound_off, message_delay_100,
     message_vibro_on, message_note_c5, message_delay_100, message_vibro_off,
     message_sound_off]"

section \<open>Clients and the timer\<close>

text \<open>
  The four functions of the API put a message into the queue; the blocking ones name an event
  that they then wait for. The queue has 8 places and a put waits until one is free.
\<close>

definition notification_message_of :: "notification_message list \<Rightarrow> app_message" where
  "notification_message_of s =
     \<lparr>am_sequence = s, am_type = NotificationLayerMessage, am_back_event = None\<rparr>"

definition notification_internal_message :: "notification_message list \<Rightarrow> app_message" where
  "notification_internal_message s =
     \<lparr>am_sequence = s, am_type = InternalLayerMessage, am_back_event = None\<rparr>"

definition notification_message_block :: "nat \<Rightarrow> notification_message list \<Rightarrow> app_message" where
  "notification_message_block e s =
     \<lparr>am_sequence = s, am_type = NotificationLayerMessage, am_back_event = Some e\<rparr>"

definition notification_internal_message_block ::
    "nat \<Rightarrow> notification_message list \<Rightarrow> app_message" where
  "notification_internal_message_block e s =
     \<lparr>am_sequence = s, am_type = InternalLayerMessage, am_back_event = Some e\<rparr>"

definition queue_room :: nat where "queue_room = 8"

definition put_message :: "app_message \<Rightarrow> notification_app \<Rightarrow> notification_app" where
  "put_message m app = app\<lparr>na_queue := na_queue app @ [m]\<rparr>"

definition notification_display_timer :: "notification_app \<Rightarrow> notification_app" where
  "notification_display_timer app =
     put_message (notification_message_of sequence_display_off) (app\<lparr>na_timer := False\<rparr>)"

text \<open>
  The steps of the system: a client (any of the four functions) puts a message, the display timer
  expires and its callback puts one, the service takes the first message and processes it.
  \<open>notification_run freq tr sent app\<close>: from the start of the application, with the calls \<open>tr\<close> made
  and the messages \<open>sent\<close> put, \<open>app\<close> is reached.
\<close>

inductive notification_run ::
    "u32 \<Rightarrow> notification_call list \<Rightarrow> app_message list \<Rightarrow> notification_app \<Rightarrow> bool"
  for freq :: u32 where
  start: "notification_app_start = (cs, app) \<Longrightarrow> notification_run freq cs [] app"
| client: "notification_run freq tr sent app \<Longrightarrow> length (na_queue app) < queue_room \<Longrightarrow>
     notification_run freq tr (sent @ [m]) (put_message m app)"
| timer: "notification_run freq tr sent app \<Longrightarrow> na_timer app \<Longrightarrow>
     length (na_queue app) < queue_room \<Longrightarrow>
     notification_run freq tr (sent @ [notification_message_of sequence_display_off])
       (notification_display_timer app)"
| serve: "notification_run freq tr sent app \<Longrightarrow> na_queue app = m # ms \<Longrightarrow>
     notification_app_step freq m (app\<lparr>na_queue := ms\<rparr>) = (cs, app1) \<Longrightarrow>
     notification_run freq (tr @ cs) sent app1"

section \<open>The lights of the hardware\<close>

text \<open>
  The hardware keeps what it was last told: \<open>lit\<close> the value of each light, \<open>vibrating\<close> the
  vibration motor, \<open>sounding\<close> the speaker, after a trace of calls.
\<close>

fun lit :: "(light \<Rightarrow> u8) \<Rightarrow> notification_call list \<Rightarrow> light \<Rightarrow> u8" where
  "lit hw [] = hw"
| "lit hw (c # cs) = lit (case c of Light_Set li v \<Rightarrow> hw(li := v) | _ \<Rightarrow> hw) cs"

fun vibrating :: "bool \<Rightarrow> notification_call list \<Rightarrow> bool" where
  "vibrating v [] = v"
| "vibrating v (c # cs) = vibrating (case c of Vibro_On b \<Rightarrow> b | _ \<Rightarrow> v) cs"

fun sounding :: "bool \<Rightarrow> notification_call list \<Rightarrow> bool" where
  "sounding s [] = s"
| "sounding s (c # cs) =
     sounding (case c of Pwm_Set _ _ \<Rightarrow> True | Pwm_Stop \<Rightarrow> False | _ \<Rightarrow> s) cs"

lemma lit_append: "lit hw (xs @ ys) = lit (lit hw xs) ys"
  by (induction xs arbitrary: hw) simp_all

lemma vibrating_append: "vibrating v (xs @ ys) = vibrating (vibrating v xs) ys"
  by (induction xs arbitrary: v) simp_all

lemma sounding_append: "sounding s (xs @ ys) = sounding (sounding s xs) ys"
  by (induction xs arbitrary: s) simp_all

text \<open>
  The invariant: three LEDs and the backlight on their own lights, each light of the hardware
  showing the value of the current layer.
\<close>

definition current_value :: "led_layer \<Rightarrow> u8" where
  "current_value l = ll_value l (ll_index l)"

definition layers_shown :: "(light \<Rightarrow> u8) \<Rightarrow> notification_app \<Rightarrow> bool" where
  "layers_shown hw app \<longleftrightarrow>
     map ll_light (na_led app) = [LightRed, LightGreen, LightBlue] \<and>
     ll_light (na_display app) = LightBacklight \<and>
     (\<forall>l \<in> set (na_display app # na_led app). hw (ll_light l) = current_value l)"

lemma layers_shown_iff:
  "layers_shown hw app \<longleftrightarrow>
     (\<exists>r g b. na_led app = [r, g, b] \<and> ll_light r = LightRed \<and> ll_light g = LightGreen \<and>
        ll_light b = LightBlue \<and> ll_light (na_display app) = LightBacklight \<and>
        hw LightRed = current_value r \<and> hw LightGreen = current_value g \<and>
        hw LightBlue = current_value b \<and> hw LightBacklight = current_value (na_display app))"
  by (auto simp: layers_shown_def map_eq_Cons_conv)

text \<open>A step preserves the relation of hardware and layers, the queue and the settings.\<close>

definition keeps_shown ::
    "(notification_app \<Rightarrow> notification_call list \<times> notification_app) \<Rightarrow> bool" where
  "keeps_shown f \<longleftrightarrow>
     (\<forall>hw app. (layers_shown hw app \<longrightarrow> layers_shown (lit hw (fst (f app))) (snd (f app))) \<and>
        na_queue (snd (f app)) = na_queue app \<and> na_settings (snd (f app)) = na_settings app)"

definition layer_op :: "(led_layer \<Rightarrow> notification_call list \<times> led_layer) \<Rightarrow> bool" where
  "layer_op f \<longleftrightarrow>
     (\<forall>l. ll_light (snd (f l)) = ll_light l \<and>
        (\<forall>hw. hw (ll_light l) = current_value l \<longrightarrow>
           lit hw (fst (f l)) = hw(ll_light l := current_value (snd (f l)))))"

named_theorems shown_intros \<open>steps that keep hardware and layers in agreement\<close>

lemma layer_op_internal [shown_intros]:
  "layer_op (\<lambda>l. notification_apply_internal_led_layer l v)"
  by (auto simp: layer_op_def notification_apply_internal_led_layer_def Let_def current_value_def)

lemma layer_op_apply [shown_intros]:
  "layer_op (\<lambda>l. notification_apply_notification_led_layer l v)"
  by (simp add: layer_op_def notification_apply_notification_led_layer_def Let_def
      current_value_def)

lemma layer_op_reset [shown_intros]: "layer_op notification_reset_notification_led_layer"
  by (simp add: layer_op_def notification_reset_notification_led_layer_def Let_def
      current_value_def)

lemma keeps_on_display [shown_intros]: "layer_op f \<Longrightarrow> keeps_shown (on_display f)"
  by (force simp: keeps_shown_def layer_op_def layers_shown_iff on_display_def Let_def)

lemma keeps_on_led [shown_intros]:
  assumes "layer_op f" and "i < 3"
  shows "keeps_shown (on_led i f)"
proof -
  from assms(2) have "i = 0 \<or> i = 1 \<or> i = 2" by arith
  with assms(1) show ?thesis
    by (elim disjE) (force simp: keeps_shown_def layer_op_def layers_shown_iff on_led_def Let_def)+
qed

lemma keeps_then [shown_intros]: "keeps_shown f \<Longrightarrow> keeps_shown g \<Longrightarrow> keeps_shown (then_do f g)"
  by (simp add: keeps_shown_def then_do_def Let_def lit_append)

lemma keeps_if [shown_intros]: "keeps_shown f \<Longrightarrow> keeps_shown (do_if c f)"
  by (simp add: keeps_shown_def do_if_def)

lemma keeps_Pair [shown_intros]: "keeps_shown (Pair [])"
  by (simp add: keeps_shown_def)

lemma keeps_call [shown_intros]:
  "(\<forall>li v. c \<noteq> Light_Set li v) \<Longrightarrow> keeps_shown (do_call c)"
  by (cases c) (simp_all add: keeps_shown_def do_call_def)

lemma keeps_start_timer [shown_intros]: "keeps_shown (start_timer freq)"
  by (auto simp: keeps_shown_def start_timer_def layers_shown_def)

lemma keeps_stop_timer [shown_intros]: "keeps_shown stop_timer"
  by (auto simp: keeps_shown_def stop_timer_def layers_shown_def)

lemma keeps_apply_led [shown_intros]: "i < 3 \<Longrightarrow> keeps_shown (apply_led vs i)"
  using keeps_on_led [OF layer_op_apply]
  by (simp add: keeps_shown_def apply_led_def)

lemma keeps_leds [shown_intros]: "keeps_shown (notification_apply_notification_leds vs)"
  by (auto simp: notification_apply_notification_leds_def intro!: shown_intros)

lemma keeps_reset [shown_intros]: "keeps_shown (notification_reset_notification_layer freq msk)"
  by (auto simp: notification_reset_notification_layer_def intro!: shown_intros)

lemma keeps_signal [shown_intros]: "keeps_shown (signal_event e)"
  by (auto simp: signal_event_def split: option.split intro!: shown_intros)

lemma keeps_end [shown_intros]: "keeps_shown (sequence_end freq e st)"
proof -
  have "keeps_shown (\<lambda>app. sequence_end freq e st app)"
    unfolding keeps_shown_def sequence_end_def
    by (intro allI keeps_shown_def [THEN iffD1, rule_format]) (auto intro!: shown_intros)
  then show ?thesis .
qed

lemma keeps_diag: "(\<And>a. keeps_shown (f a)) \<Longrightarrow> keeps_shown (\<lambda>app. f app app)"
  unfolding keeps_shown_def by blast

lemma keeps_internal_step: "keeps_shown (internal_step msg)"
proof -
  have "internal_step msg = (\<lambda>app. (case msg of
        MessageTypeLedDisplay v \<Rightarrow> on_display (\<lambda>l. notification_apply_internal_led_layer l
            (notification_settings_get_display_brightness app v))
      | MessageTypeLedRed v \<Rightarrow> on_led 0 (\<lambda>l. notification_apply_internal_led_layer l
            (notification_settings_get_rgb_led_brightness app v))
      | MessageTypeLedGreen v \<Rightarrow> on_led 1 (\<lambda>l. notification_apply_internal_led_layer l
            (notification_settings_get_rgb_led_brightness app v))
      | MessageTypeLedBlue v \<Rightarrow> on_led 2 (\<lambda>l. notification_apply_internal_led_layer l
            (notification_settings_get_rgb_led_brightness app v))
      | _ \<Rightarrow> Pair []) app)"
    by (rule ext) (simp add: internal_step_def split: notification_message.split)
  then show ?thesis
    by (simp only:) (rule keeps_diag, auto split: notification_message.split intro!: shown_intros)
qed

lemma keeps_internal_loop [shown_intros]: "keeps_shown (internal_loop msgs)"
proof (induction msgs)
  case Nil
  then show ?case by (simp add: keeps_shown_def)
next
  case (Cons msg msgs)
  then show ?case
    using keeps_then [OF keeps_internal_step Cons.IH] by (simp add: keeps_shown_def)
qed

lemma keeps_internal: "keeps_shown (notification_process_internal_message m)"
  unfolding notification_process_internal_message_def by (intro shown_intros)

text \<open>A message of a notification sequence, and the whole sequence.\<close>

lemma keeps_sequence_step:
  "keeps_shown (\<lambda>app. (fst (sequence_step msg st app), snd (snd (sequence_step msg st app))))"
proof -
  have "(\<lambda>app. (fst (sequence_step msg st app), snd (snd (sequence_step msg st app)))) =
    (\<lambda>app. (case msg of
        MessageTypeLedDisplay v \<Rightarrow>
          if 0 < v then on_display (\<lambda>l. notification_apply_notification_led_layer l
                 (notification_settings_get_display_brightness app v))
          else then_do (on_display notification_reset_notification_led_layer) stop_timer
      | MessageTypeVibro on \<Rightarrow> do_call (Vibro_On on)
      | MessageTypeSoundOn f p \<Rightarrow> do_call (Pwm_Set p f)
      | MessageTypeSoundOff \<Rightarrow> do_call Pwm_Stop
      | MessageTypeDelay ms \<Rightarrow>
          then_do (do_if (led_active st) (then_do
             (do_if (notification_is_any_led_layer_internal_and_not_empty app)
                (then_do (notification_apply_notification_leds led_off_values)
                   (do_call (Delay_Ms (ucast minimal_delay)))))
             (notification_apply_notification_leds (led_values st))))
          (do_call (Delay_Ms ms))
      | _ \<Rightarrow> Pair []) app)"
    by (rule ext)
      (simp add: sequence_step_def do_call_def do_if_def then_do_def Let_def
        split: notification_message.split)
  then show ?thesis
    by (simp only:) (rule keeps_diag, auto split: notification_message.split intro!: shown_intros)
qed

lemma keeps_sequence_loop:
  "keeps_shown (\<lambda>app. (fst (sequence_loop msgs st app), snd (snd (sequence_loop msgs st app))))"
proof (induction msgs arbitrary: st)
  case Nil
  show ?case by (simp add: keeps_shown_def)
next
  case (Cons msg msgs)
  show ?case
    using keeps_sequence_step [of msg st] Cons.IH
    by (simp add: keeps_shown_def Let_def lit_append)
qed

lemma keeps_notification: "keeps_shown (notification_process_notification_message freq m)"
  using keeps_sequence_loop [of "am_sequence m" sequence_start] keeps_end
  by (simp add: keeps_shown_def notification_process_notification_message_def Let_def lit_append)

lemma keeps_app_step: "keeps_shown (notification_app_step freq m)"
  using keeps_notification keeps_internal
  by (cases "am_type m") (simp_all add: keeps_shown_def notification_app_step_def)

text \<open>What a sequence does to the event flags of the callers: nothing but the signal at its end.\<close>

definition events_set :: "notification_call list \<Rightarrow> nat list" where
  "events_set cs = concat (map (\<lambda>c. case c of Event_Set e \<Rightarrow> [e] | _ \<Rightarrow> []) cs)"

definition event_of_message :: "app_message \<Rightarrow> nat list" where
  "event_of_message m = (case am_back_event m of None \<Rightarrow> [] | Some e \<Rightarrow> [e])"

lemma events_set_simps [simp]:
  "events_set [] = []"
  "events_set (c # cs) = (case c of Event_Set e \<Rightarrow> [e] | _ \<Rightarrow> []) @ events_set cs"
  "events_set (xs @ ys) = events_set xs @ events_set ys"
  by (simp_all add: events_set_def)

lemmas step_defs =
  then_do_def do_if_def do_call_def on_led_def on_display_def Let_def start_timer_def stop_timer_def
  apply_led_def notification_apply_notification_leds_def
  notification_apply_notification_led_layer_def notification_apply_internal_led_layer_def
  notification_reset_notification_led_layer_def notification_reset_notification_layer_def

lemma events_sequence_step: "events_set (fst (sequence_step msg st app)) = []"
  by (cases msg) (simp_all add: sequence_step_def step_defs)

lemma events_sequence_loop: "events_set (fst (sequence_loop msgs st app)) = []"
  by (induction msgs arbitrary: st app) (simp_all add: events_sequence_step Let_def)

lemma events_internal_loop: "events_set (fst (internal_loop msgs app)) = []"
  by (induction msgs arbitrary: app)
    (auto simp: internal_step_def step_defs split: notification_message.split)

lemma events_then: "events_set (fst (then_do f g app)) =
    events_set (fst (f app)) @ events_set (fst (g (snd (f app))))"
  by (simp add: then_do_def Let_def)

lemma events_leds: "events_set (fst (notification_apply_notification_leds vs app)) = []"
  by (simp add: step_defs)

lemma events_reset: "events_set (fst (notification_reset_notification_layer freq msk app)) = []"
  unfolding notification_reset_notification_layer_def events_then
  by (simp add: do_if_def do_call_def on_led_def start_timer_def Let_def
      notification_reset_notification_led_layer_def)

lemma events_do_if: "events_set (fst (do_if c f app)) = (if c then events_set (fst (f app)) else [])"
  by (simp add: do_if_def)

lemma events_end:
  "events_set (fst (sequence_end freq e st app)) = (case e of None \<Rightarrow> [] | Some x \<Rightarrow> [x])"
  unfolding sequence_end_def events_then events_do_if
  by (simp add: events_leds events_reset signal_event_def do_call_def split: option.split)

lemma events_app_step: "events_set (fst (notification_app_step freq m app)) = event_of_message m"
  by (cases "am_type m")
    (simp_all add: notification_app_step_def notification_process_notification_message_def Let_def
      notification_process_internal_message_def events_then events_internal_loop
      events_sequence_loop events_end event_of_message_def signal_event_def do_call_def
      split: option.split)

section \<open>Properties of the service\<close>

lemma run_start:
  "layers_shown (lit hw (fst notification_app_start)) (snd notification_app_start)"
  "events_set (fst notification_app_start) = []"
  "na_queue (snd notification_app_start) = []"
  by (simp_all add: notification_app_start_def step_defs notification_app_alloc_def empty_layer_def
      layers_shown_def current_value_def)

lemma layers_shown_frame [simp]:
  "layers_shown hw (app\<lparr>na_queue := q\<rparr>) = layers_shown hw app"
  "layers_shown hw (app\<lparr>na_timer := t\<rparr>) = layers_shown hw app"
  by (simp_all add: layers_shown_def)

lemma run_invariant:
  assumes "notification_run freq tr sent app"
  shows "layers_shown (lit hw tr) app"
    and "length (na_queue app) \<le> queue_room"
    and "concat (map event_of_message sent) =
           events_set tr @ concat (map event_of_message (na_queue app))"
proof -
  from assms have "layers_shown (lit hw tr) app \<and> length (na_queue app) \<le> queue_room \<and>
    concat (map event_of_message sent) =
      events_set tr @ concat (map event_of_message (na_queue app))"
  proof (induction rule: notification_run.induct)
    case (start cs app)
    then show ?case using run_start by (metis append_self_conv2 concat.simps(1) fst_conv le0
          list.map(1) list.size(3) snd_conv)
  next
    case (client tr sent app m)
    then show ?case by (simp add: put_message_def)
  next
    case (timer tr sent app)
    then show ?case by (simp add: notification_display_timer_def put_message_def)
  next
    case (serve tr sent app m ms cs app1)
    have "layers_shown (lit hw tr) (app\<lparr>na_queue := ms\<rparr>)"
      using serve.IH by simp
    with keeps_app_step [of freq m] serve.hyps
    have "layers_shown (lit (lit hw tr) cs) app1" and q: "na_queue app1 = ms"
      unfolding keeps_shown_def by (metis fst_conv snd_conv, metis snd_conv notification_app.simps(1)
          notification_app.select_convs(1) notification_app.surjective
          notification_app.update_convs(1))
    moreover have "events_set cs = event_of_message m"
      using events_app_step [of freq m "app\<lparr>na_queue := ms\<rparr>"] serve.hyps by simp
    ultimately show ?case using serve.IH serve.hyps(2) by (simp add: lit_append)
  qed
  then show "layers_shown (lit hw tr) app" "length (na_queue app) \<le> queue_room"
    "concat (map event_of_message sent) =
       events_set tr @ concat (map event_of_message (na_queue app))" by simp_all
qed

text \<open>
  C33. Whatever the clients send and whenever the display timer expires, from the start of the
  service on: every LED and the backlight show the value of their current layer, and the queue
  never holds more than its 8 messages.
\<close>

theorem notification_lights_shown:
  assumes "notification_run freq tr sent app"
  shows "map ll_light (na_display app # na_led app) =
      [LightBacklight, LightRed, LightGreen, LightBlue] \<and>
    (\<forall>l \<in> set (na_display app # na_led app). lit hw tr (ll_light l) = ll_value l (ll_index l)) \<and>
    length (na_queue app) \<le> 8"
  using run_invariant(1) [OF assms, of hw] run_invariant(2) [OF assms]
  by (auto simp: layers_shown_iff current_value_def queue_room_def)

subsection \<open>The reset at the end of a sequence\<close>

definition is_rgb :: "notification_message \<Rightarrow> bool" where
  "is_rgb msg = (case msg of MessageTypeLedRed _ \<Rightarrow> True | MessageTypeLedGreen _ \<Rightarrow> True
     | MessageTypeLedBlue _ \<Rightarrow> True | _ \<Rightarrow> False)"

definition is_vibro :: "notification_message \<Rightarrow> bool" where
  "is_vibro msg = (case msg of MessageTypeVibro _ \<Rightarrow> True | _ \<Rightarrow> False)"

definition is_sound :: "notification_message \<Rightarrow> bool" where
  "is_sound msg = (case msg of MessageTypeSoundOn _ _ \<Rightarrow> True | MessageTypeSoundOff \<Rightarrow> True
     | _ \<Rightarrow> False)"

definition is_display :: "notification_message \<Rightarrow> bool" where
  "is_display msg = (case msg of MessageTypeLedDisplay _ \<Rightarrow> True | _ \<Rightarrow> False)"

definition rgb_full :: "u8 \<Rightarrow> bool" where
  "rgb_full m \<longleftrightarrow> bit m 0 \<and> bit m 1 \<and> bit m 2"

lemmas mask_defs =
  reset_red_mask_def reset_green_mask_def reset_blue_mask_def reset_vibro_mask_def
  reset_sound_mask_def reset_display_mask_def

lemma bit_masks [simp]:
  "bit reset_red_mask n \<longleftrightarrow> n = 0" "bit reset_green_mask n \<longleftrightarrow> n = 1"
  "bit reset_blue_mask n \<longleftrightarrow> n = 2" "bit reset_vibro_mask n \<longleftrightarrow> n = 3"
  "bit reset_sound_mask n \<longleftrightarrow> n = 4" "bit reset_display_mask n \<longleftrightarrow> n = 5"
  unfolding mask_defs bit_push_bit_iff bit_1_iff by auto

lemma and_nonzero: "a AND b \<noteq> 0 \<longleftrightarrow> (\<exists>n. bit a n \<and> bit b n)" for a b :: u8
  unfolding bit_eq_iff [of "a AND b" 0]
  using bit_imp_le_length [of a] by (fastforce simp: bit_and_iff)

lemma mask_test [simp]:
  fixes m :: u8
  shows "m AND reset_red_mask \<noteq> 0 \<longleftrightarrow> bit m 0" "m AND reset_green_mask \<noteq> 0 \<longleftrightarrow> bit m 1"
    "m AND reset_blue_mask \<noteq> 0 \<longleftrightarrow> bit m 2" "m AND reset_vibro_mask \<noteq> 0 \<longleftrightarrow> bit m 3"
    "m AND reset_sound_mask \<noteq> 0 \<longleftrightarrow> bit m 4" "m AND reset_display_mask \<noteq> 0 \<longleftrightarrow> bit m 5"
  unfolding and_nonzero bit_masks by simp_all

lemma bit_rgb_masks [simp]: "bit (rgb_masks m) n \<longleftrightarrow> bit m n \<or> n < 3"
  by (auto simp: rgb_masks_def bit_or_iff)

text \<open>
  The layer after a reset depends on its internal value only; \<open>loop_inv\<close> relates the state of
  the loop to the LEDs before the sequence: they have lost nothing that the reset needs, and
  when some LED has changed, the mask asks for the reset of all three.
\<close>

definition restored :: "led_layer \<Rightarrow> led_layer" where
  "restored l = snd (notification_reset_notification_led_layer l)"

lemma restored_apply [simp]:
  "restored (snd (notification_apply_notification_led_layer l v)) = restored l"
  by (simp add: restored_def step_defs fun_upd_twist)

definition loop_inv :: "notification_app \<Rightarrow> bool \<Rightarrow> sequence_state \<Rightarrow> notification_app \<Rightarrow> bool" where
  "loop_inv app0 seen st app \<longleftrightarrow>
     length (na_led app) = 3 \<and> map restored (na_led app) = map restored (na_led app0) \<and>
     (if seen then led_active st \<or> rgb_full (reset_mask st)
      else \<not> led_active st \<and> (\<forall>n<3. \<not> bit (reset_mask st) n)) \<and>
     (na_led app = na_led app0 \<or> rgb_full (reset_mask st))"

lemma leds_after_apply:
  assumes "length (na_led app) = 3"
  shows "map restored (na_led (snd (notification_apply_notification_leds vs app))) =
           map restored (na_led app)"
    and "length (na_led (snd (notification_apply_notification_leds vs app))) = 3"
  using assms
  by (auto simp: notification_apply_notification_leds_def then_do_def apply_led_def on_led_def
      Let_def length_Suc_conv numeral_3_eq_3)

lemma loop_inv_step:
  assumes "loop_inv app0 seen st app"
  shows "loop_inv app0 (seen \<or> is_rgb msg) (fst (snd (sequence_step msg st app)))
           (snd (snd (sequence_step msg st app)))"
proof (cases "\<exists>ms. msg = MessageTypeDelay ms \<and> led_active st")
  case True
  then obtain ms where msg: "msg = MessageTypeDelay ms" and act: "led_active st" by blast
  have seen: seen using assms act by (auto simp: loop_inv_def split: if_splits)
  let ?app = "snd (snd (sequence_step msg st app))"
  have "length (na_led ?app) = 3 \<and> map restored (na_led ?app) = map restored (na_led app)"
    using assms
    by (simp add: sequence_step_def msg act loop_inv_def then_do_def do_if_def do_call_def Let_def
        leds_after_apply)
  moreover have "rgb_full (reset_mask (fst (snd (sequence_step msg st app))))"
    by (simp add: sequence_step_def msg act rgb_full_def Let_def)
  ultimately show ?thesis using assms seen by (simp add: loop_inv_def)
next
  case False
  then have "na_led (snd (snd (sequence_step msg st app))) = na_led app"
    by (cases msg) (auto simp: sequence_step_def Let_def then_do_def on_display_def stop_timer_def)
  with assms False show ?thesis
    by (cases msg)
      (auto simp: loop_inv_def sequence_step_def Let_def is_rgb_def set_led_def add_mask_def
        rgb_full_def bit_or_iff split: if_splits)
qed

lemma loop_inv_loop:
  "loop_inv app0 seen st app \<Longrightarrow>
     loop_inv app0 (seen \<or> (\<exists>msg \<in> set msgs. is_rgb msg))
       (fst (snd (sequence_loop msgs st app))) (snd (snd (sequence_loop msgs st app)))"
proof (induction msgs arbitrary: seen st app)
  case Nil
  then show ?case by simp
next
  case (Cons msg msgs)
  show ?case using Cons.IH [OF loop_inv_step [OF Cons.prems, of msg]] by (simp add: Let_def disj_assoc)
qed

text \<open>The other masks record what the sequence has touched; what is not touched is not called.\<close>

lemma loop_masks:
  "bit (reset_mask (fst (snd (sequence_loop msgs st app)))) 3 \<longleftrightarrow>
     bit (reset_mask st) 3 \<or> (\<exists>msg \<in> set msgs. is_vibro msg)"
  "bit (reset_mask (fst (snd (sequence_loop msgs st app)))) 4 \<longleftrightarrow>
     bit (reset_mask st) 4 \<or> (\<exists>msg \<in> set msgs. is_sound msg)"
  "bit (reset_mask (fst (snd (sequence_loop msgs st app)))) 5 \<longleftrightarrow>
     bit (reset_mask st) 5 \<or> (\<exists>msg \<in> set msgs. is_display msg)"
  "reset_notifications (fst (snd (sequence_loop msgs st app))) \<longleftrightarrow>
     reset_notifications st \<and> MessageTypeDoNotReset \<notin> set msgs"
  by (induction msgs arbitrary: st app)
    (auto simp: sequence_step_def Let_def set_led_def add_mask_def is_vibro_def is_sound_def is_display_def bit_or_iff split: notification_message.splits)

text \<open>
  What the calls of a sequence leave alone: the motor and the speaker unless it has messages for
  them, the timer unless it has one for the display, and the internal value of the display.
\<close>

lemma leds_quiet [simp]:
  "vibrating v (fst (notification_apply_notification_leds vs app)) = v"
  "sounding v (fst (notification_apply_notification_leds vs app)) = v"
  "na_timer (snd (notification_apply_notification_leds vs app)) = na_timer app"
  "na_display (snd (notification_apply_notification_leds vs app)) = na_display app"
  by (simp_all add: step_defs)

definition display_internal :: "notification_app \<Rightarrow> u8" where
  "display_internal app = ll_value (na_display app) LayerInternal"

lemma step_quiet:
  "\<not> is_vibro msg \<Longrightarrow> vibrating v (fst (sequence_step msg st app)) = v"
  "\<not> is_sound msg \<Longrightarrow> sounding v (fst (sequence_step msg st app)) = v"
  "\<not> is_display msg \<Longrightarrow> na_timer (snd (snd (sequence_step msg st app))) = na_timer app"
  "display_internal (snd (snd (sequence_step msg st app))) = display_internal app"
  by (cases msg; simp add: sequence_step_def is_vibro_def is_sound_def is_display_def then_do_def
      do_if_def do_call_def Let_def on_display_def stop_timer_def vibrating_append sounding_append
      notification_apply_notification_led_layer_def notification_reset_notification_led_layer_def
      display_internal_def)+

lemma loop_quiet:
  "\<forall>msg \<in> set msgs. \<not> is_vibro msg \<Longrightarrow> vibrating v (fst (sequence_loop msgs st app)) = v"
  "\<forall>msg \<in> set msgs. \<not> is_sound msg \<Longrightarrow> sounding v (fst (sequence_loop msgs st app)) = v"
  "\<forall>msg \<in> set msgs. \<not> is_display msg \<Longrightarrow>
     na_timer (snd (snd (sequence_loop msgs st app))) = na_timer app"
  "display_internal (snd (snd (sequence_loop msgs st app))) = display_internal app"
  by (induction msgs arbitrary: st app)
    (simp_all add: Let_def vibrating_append sounding_append step_quiet)

text \<open>The reset of the layers that a mask asks for.\<close>

lemma reset_leds:
  assumes "length (na_led app) = 3"
  shows "rgb_full msk \<Longrightarrow>
      na_led (snd (notification_reset_notification_layer freq msk app)) = map restored (na_led app)"
    and "\<forall>n<3. \<not> bit msk n \<Longrightarrow>
      na_led (snd (notification_reset_notification_layer freq msk app)) = na_led app"
  using assms
  by (auto simp: notification_reset_notification_layer_def then_do_def do_if_def do_call_def
      on_led_def Let_def start_timer_def rgb_full_def restored_def length_Suc_conv
      numeral_3_eq_3)

lemma reset_others:
  "vibrating v (fst (notification_reset_notification_layer freq msk app)) \<longleftrightarrow> v \<and> \<not> bit msk 3"
  "sounding v (fst (notification_reset_notification_layer freq msk app)) \<longleftrightarrow> v \<and> \<not> bit msk 4"
  "na_timer (snd (notification_reset_notification_layer freq msk app)) \<longleftrightarrow>
     na_timer app \<or> bit msk 5"
  "na_display (snd (notification_reset_notification_layer freq msk app)) = na_display app"
  by (simp_all add: notification_reset_notification_layer_def then_do_def do_if_def do_call_def
      on_led_def Let_def start_timer_def notification_reset_notification_led_layer_def)

text \<open>The LEDs that no delay has shown yet.\<close>

definition show_pending ::
    "sequence_state \<Rightarrow> notification_app \<Rightarrow> notification_call list \<times> notification_app" where
  "show_pending st app =
     do_if (led_active st)
       (then_do (notification_apply_notification_leds (led_values st))
          (do_if (notification_is_any_led_layer_internal_and_not_empty app)
             (then_do (notification_apply_notification_leds led_off_values)
                (do_call (Delay_Ms (ucast minimal_delay)))))) app"

lemma pending_others [simp]:
  "vibrating v (fst (show_pending st app)) = v"
  "sounding v (fst (show_pending st app)) = v"
  "na_timer (snd (show_pending st app)) = na_timer app"
  "na_display (snd (show_pending st app)) = na_display app"
  by (simp_all add: show_pending_def then_do_def do_if_def do_call_def Let_def vibrating_append
      sounding_append)

lemma pending_leds:
  assumes "length (na_led app) = 3"
  shows "map restored (na_led (snd (show_pending st app))) = map restored (na_led app)"
    and "length (na_led (snd (show_pending st app))) = 3"
    and "\<not> led_active st \<Longrightarrow> na_led (snd (show_pending st app)) = na_led app"
  using assms
  by (simp_all add: show_pending_def then_do_def do_if_def do_call_def Let_def leds_after_apply)

lemma sequence_end_pending:
  "sequence_end freq back st app =
     (let r = show_pending st app;
          r1 = do_if (reset_notifications st)
                 (notification_reset_notification_layer freq
                    (if led_active st then rgb_masks (reset_mask st) else reset_mask st)) (snd r);
          r2 = signal_event back (snd r1)
      in (fst r @ fst r1 @ fst r2, snd r2))"
  by (simp add: sequence_end_def show_pending_def then_do_def Let_def)

lemma signal_quiet [simp]:
  "snd (signal_event e app) = app"
  "vibrating v (fst (signal_event e app)) = v"
  "sounding v (fst (signal_event e app)) = v"
  by (simp_all add: signal_event_def do_call_def split: option.split)

lemma sequence_restores:
  assumes "notification_process_notification_message freq m app = (cs, app')"
    and "length (na_led app) = 3"
    and "MessageTypeDoNotReset \<notin> set (am_sequence m)"
  shows "na_led app' =
      (if \<exists>msg \<in> set (am_sequence m). is_rgb msg
       then map (\<lambda>l. l\<lparr>ll_value := (ll_value l)(LayerNotification := 0),
                       ll_index := LayerInternal\<rparr>) (na_led app)
       else na_led app)"
    and "vibrating v cs = (if \<exists>msg \<in> set (am_sequence m). is_vibro msg then False else v)"
    and "sounding s cs = (if \<exists>msg \<in> set (am_sequence m). is_sound msg then False else s)"
    and "na_timer app' =
      (if \<exists>msg \<in> set (am_sequence m). is_display msg then True else na_timer app)"
    and "ll_value (na_display app') LayerInternal = ll_value (na_display app) LayerInternal"
proof -
  define msgs where "msgs = am_sequence m"
  define l where "l = sequence_loop msgs sequence_start app"
  define st app1 where "st = fst (snd l)" and "app1 = snd (snd l)"
  define msk where "msk = (if led_active st then rgb_masks (reset_mask st) else reset_mask st)"
  define app2 where "app2 = snd (show_pending st app1)"
  note loop = st_def l_def app1_def
  have resets: "reset_notifications st"
    using assms(3) by (simp add: loop loop_masks sequence_start_def msgs_def)
  have app': "app' = snd (notification_reset_notification_layer freq msk app2)"
    and cs: "cs = fst l @ fst (show_pending st app1) @
      fst (notification_reset_notification_layer freq msk app2) @
      fst (signal_event (am_back_event m) app')"
    using assms(1) resets
    by (auto simp: notification_process_notification_message_def sequence_end_pending Let_def
        do_if_def msk_def app2_def loop msgs_def)
  have inv: "loop_inv app (\<exists>msg \<in> set msgs. is_rgb msg) st app1"
    using loop_inv_loop [of app False sequence_start app msgs] assms(2)
    by (simp add: loop loop_inv_def sequence_start_def)
  have bits: "bit msk 3 \<longleftrightarrow> (\<exists>msg \<in> set msgs. is_vibro msg)"
    "bit msk 4 \<longleftrightarrow> (\<exists>msg \<in> set msgs. is_sound msg)"
    "bit msk 5 \<longleftrightarrow> (\<exists>msg \<in> set msgs. is_display msg)"
    by (simp_all add: msk_def loop loop_masks sequence_start_def)
  show "na_led app' =
      (if \<exists>msg \<in> set (am_sequence m). is_rgb msg
       then map (\<lambda>l. l\<lparr>ll_value := (ll_value l)(LayerNotification := 0),
                       ll_index := LayerInternal\<rparr>) (na_led app)
       else na_led app)"
  proof (cases "\<exists>msg \<in> set msgs. is_rgb msg")
    case True
    with inv have "rgb_full msk" by (auto simp: loop_inv_def msk_def rgb_full_def)
    then have "na_led app' = map restored (na_led app)"
      using inv pending_leds [of app1 st] by (simp add: app' reset_leds app2_def loop_inv_def)
    with True show ?thesis
      by (simp add: msgs_def restored_def [abs_def] notification_reset_notification_led_layer_def Let_def)
  next
    case False
    with inv have "\<not> led_active st" "\<forall>n<3. \<not> bit msk n" "na_led app1 = na_led app"
      by (auto simp: loop_inv_def msk_def rgb_full_def)
    then have "na_led app' = na_led app"
      using inv pending_leds [of app1 st] by (simp add: app' reset_leds app2_def loop_inv_def)
    with False show ?thesis by (simp add: msgs_def)
  qed
  show "vibrating v cs = (if \<exists>msg \<in> set (am_sequence m). is_vibro msg then False else v)"
    using bits(1) loop_quiet(1) [of msgs v sequence_start app]
    by (auto simp: cs vibrating_append reset_others l_def msgs_def)
  show "sounding s cs = (if \<exists>msg \<in> set (am_sequence m). is_sound msg then False else s)"
    using bits(2) loop_quiet(2) [of msgs s sequence_start app]
    by (auto simp: cs sounding_append reset_others l_def msgs_def)
  show "na_timer app' =
      (if \<exists>msg \<in> set (am_sequence m). is_display msg then True else na_timer app)"
    using bits(3) loop_quiet(3) [of msgs sequence_start app]
    by (auto simp: app' reset_others app2_def loop msgs_def)
  show "ll_value (na_display app') LayerInternal = ll_value (na_display app) LayerInternal"
    using loop_quiet(4) [of msgs sequence_start app]
    by (simp add: app' reset_others app2_def loop display_internal_def)
qed

text \<open>
  A sequence that does not say \<open>DoNotReset\<close> leaves nothing behind: if it has a message for
  any of the three LEDs, all three fall back to their internal layer with its value untouched,
  else no LED changes; the motor and the speaker are off if it has touched them and as before
  otherwise; the timer of the display runs if it has a message for the display.
\<close>

theorem notification_sequence_restores:
  assumes "notification_process_notification_message freq m app = (cs, app')"
    and "length (na_led app) = 3"
    and "MessageTypeDoNotReset \<notin> set (am_sequence m)"
  shows "(na_led app' =
      (if \<exists>msg \<in> set (am_sequence m). is_rgb msg
       then map (\<lambda>l. l\<lparr>ll_value := (ll_value l)(LayerNotification := 0),
                       ll_index := LayerInternal\<rparr>) (na_led app)
       else na_led app)) \<and>
    (vibrating v cs = (if \<exists>msg \<in> set (am_sequence m). is_vibro msg then False else v)) \<and>
    (sounding s cs = (if \<exists>msg \<in> set (am_sequence m). is_sound msg then False else s)) \<and>
    (na_timer app' =
      (if \<exists>msg \<in> set (am_sequence m). is_display msg then True else na_timer app)) \<and>
    (ll_value (na_display app') LayerInternal = ll_value (na_display app) LayerInternal)"
  using sequence_restores [OF assms] by blast

lemma notification_lights_shown_witness:
  "map ll_light (na_display (snd notification_app_start) # na_led (snd notification_app_start)) =
     [LightBacklight, LightRed, LightGreen, LightBlue]"
  using notification_lights_shown [OF notification_run.start [OF prod.collapse [symmetric],
      of 1000]] by blast

lemma notification_sequence_restores_witness:
  "na_led (snd (notification_process_notification_message 1000
     (notification_message_of sequence_blink_red_10) notification_app_alloc)) =
   map (\<lambda>l. l\<lparr>ll_value := (ll_value l)(LayerNotification := 0), ll_index := LayerInternal\<rparr>)
     (na_led notification_app_alloc)"
  using notification_sequence_restores [OF prod.collapse [symmetric], of notification_app_alloc
      "notification_message_of sequence_blink_red_10" 1000]
  by (simp add: notification_app_alloc_def notification_message_of_def sequence_blink_red_10_def
      message_red_255_def message_delay_10_def is_rgb_def)

subsection \<open>Who waits is woken\<close>

text \<open>
  Every message sent by a blocking function sets its event exactly once and in the order of
  the messages: what has been signalled, followed by what the queue still holds, is what was sent;
  once the queue is empty no caller is left waiting.
\<close>

theorem notification_wakes_callers:
  assumes "notification_run freq tr sent app"
  shows "concat (map event_of_message sent) =
      events_set tr @ concat (map event_of_message (na_queue app))"
    and "na_queue app = [] \<longrightarrow> events_set tr = concat (map event_of_message sent)"
  using run_invariant(3) [OF assms] by simp_all

lemma notification_wakes_callers_witness:
  "concat (map event_of_message [notification_message_block 7 sequence_success]) = [7] \<and>
   (let app = put_message (notification_message_block 7 sequence_success) (snd notification_app_start)
    in [7] = events_set (fst notification_app_start) @ concat (map event_of_message (na_queue app)))"
proof -
  have start: "notification_run 1000 (fst notification_app_start) [] (snd notification_app_start)"
    by (rule notification_run.start) (rule prod.collapse [symmetric])
  have "length (na_queue (snd notification_app_start)) < queue_room"
    by (simp add: run_start queue_room_def)
  from notification_wakes_callers(1) [OF notification_run.client [OF start this,
      of "notification_message_block 7 sequence_success"]]
  show ?thesis by (simp add: event_of_message_def notification_message_block_def Let_def)
qed

section \<open>Two consequences\<close>

text \<open>
  The message that the timer sends switches the display off and, being a message for the display
  without \<open>DoNotReset\<close>, starts the timer again: once started it never rests.
\<close>

lemma display_timer_restarts:
  assumes "notification_run freq tr sent app" and "na_timer app" and "na_queue app = []"
  shows "\<exists>cs app'. notification_run freq (tr @ cs)
      (sent @ [notification_message_of sequence_display_off]) app' \<and>
      na_timer app' \<and> na_queue app' = []"
proof -
  let ?m = "notification_message_of sequence_display_off"
  let ?app = "notification_display_timer app"
  let ?r = "notification_app_step freq ?m (?app\<lparr>na_queue := []\<rparr>)"
  have run: "notification_run freq tr (sent @ [?m]) ?app"
    by (rule notification_run.timer [OF assms(1,2)]) (simp add: assms(3) queue_room_def)
  have q: "na_queue ?app = [?m]"
    by (simp add: notification_display_timer_def put_message_def assms(3))
  have "notification_run freq (tr @ fst ?r) (sent @ [?m]) (snd ?r)"
    by (rule notification_run.serve [OF run q]) simp
  moreover have "na_queue (snd ?r) = []"
    using keeps_app_step [of freq ?m] by (simp add: keeps_shown_def)
  moreover have "na_timer (snd ?r)"
    by (simp add: notification_app_step_def notification_message_of_def
        notification_process_notification_message_def sequence_display_off_def
        message_display_off_def sequence_step_def sequence_start_def sequence_end_pending Let_def
        do_if_def add_mask_def reset_others bit_or_iff)
  ultimately show ?thesis by blast
qed

text \<open>
  A colour without a delay, meant to stay (\<open>DoNotReset\<close>), is put out again at the end of its own
  sequence if the internal layer of some LED is lit and an LED still shows its internal layer.
\<close>

lemma sequence_set_goes_out:
  assumes leds: "na_led app = [r, g, b]" "ll_light r = LightRed" "ll_light g = LightGreen"
      "ll_light b = LightBlue"
    and lit: "notification_is_any_led_layer_internal_and_not_empty app"
  shows "lit hw (fst (notification_process_notification_message freq
      (notification_message_of sequence_set_red_255) app)) LightRed = 0"
proof -
  have "notification_settings_get_display_brightness a 0 = 0" for a
    by (simp add: notification_settings_get_display_brightness_def
        f32_of_nat [of 0, simplified])
  with assms show ?thesis
    by (simp add: notification_message_of_def notification_process_notification_message_def
        sequence_set_red_255_def message_red_255_def message_do_not_reset_def sequence_step_def
        sequence_start_def sequence_end_pending show_pending_def do_if_def do_call_def then_do_def
        set_led_def signal_event_def Let_def lit_append notification_apply_notification_leds_def
        apply_led_def on_led_def notification_apply_notification_led_layer_def led_off_values_def)
qed

end
