(* ===== verification/SdFilesystem.thy ===== *)
theory SdFilesystem
  imports Prelude
begin

text \<open>
  The file API of the SD card: \<^verbatim>\<open>applications/sd-filesystem/sd-filesystem-api.c\<close> with the types of
  \<^verbatim>\<open>sd-filesystem.h\<close> and \<^verbatim>\<open>lib/common-api/filesystem-api.h\<close>.

  FatFs (\<^verbatim>\<open>lib/fatfs\<close>, third-party) is a parameter: a record of the functions that the API calls,
  over a type \<open>'d\<close> of file and directory objects (the union \<^verbatim>\<open>SDFileDirStorage\<close>) and a type \<open>'w\<close>
  of volumes. Nothing is assumed about them. A thread is a number, \<open>t\<close> is the calling one
  (\<^verbatim>\<open>osThreadGetId\<close>). A call of the API is one step: the mutex protects the table of slots while
  a slot is found or released, and a slot is used by its owner only, which is proved below. The
  constructor \<open>FR_NOT_READY\<close> is the answer 3 of FatFs, which the enumeration \<^verbatim>\<open>SDError\<close> does not name.
  \<^verbatim>\<open>_fs_on_client_app_exit\<close> (its branches are empty) is left out.
\<close>

unbundle bit_operations_syntax

section \<open>Data\<close>

datatype sd_error =
    SD_OK | SD_DISK_ERR | SD_INT_ERR | FR_NOT_READY | SD_NO_FILE | SD_NO_PATH | SD_INVALID_NAME
  | SD_DENIED | SD_EXIST | SD_INVALID_OBJECT | SD_WRITE_PROTECTED | SD_INVALID_DRIVE
  | SD_NOT_ENABLED | SD_NO_FILESYSTEM | SD_MKFS_ABORTED | SD_TIMEOUT | SD_LOCKED
  | SD_NOT_ENOUGH_CORE | SD_TOO_MANY_OPEN_FILES | SD_INVALID_PARAMETER | SD_NO_CARD
  | SD_NOT_A_FILE | SD_NOT_A_DIR | SD_OTHER_APP | SD_LOW_LEVEL_ERR

datatype fs_error =
    FSE_OK | FSE_NOT_READY | FSE_EXIST | FSE_NOT_EXIST | FSE_INVALID_PARAMETER | FSE_DENIED
  | FSE_INVALID_NAME | FSE_INTERNAL | FSE_NOT_IMPLEMENTED

datatype filedata_filter = FDF_DIR | FDF_FILE | FDF_ANY

record 'd file_data =
  fd_thread :: "nat option"
  fd_is_dir :: bool
  fd_data :: 'd

record ('d, 'w) sd_fs =
  sd_files :: "'d file_data list"
  sd_status :: sd_error
  sd_volume :: 'w

record fs_file =
  file_id :: u32
  error_id :: fs_error
  internal_error_id :: sd_error

record file_info =
  fi_flags :: u8
  fi_size :: u64
  fi_date :: u16
  fi_time :: u16

record fil_info =
  fl_size :: u64
  fl_date :: u16
  fl_time :: u16
  fl_attrib :: u8
  fl_name :: string

text \<open>
  What the API calls of FatFs. \<open>ff_zero\<close> is an object filled with zeros; \<open>ff_getfree\<close> returns
  the free clusters and, of the volume, the number of FAT entries and the cluster size.
\<close>

record ('d, 'w) fatfs =
  ff_zero :: 'd
  ff_open :: "string \<Rightarrow> u8 \<Rightarrow> 'd \<Rightarrow> 'w \<Rightarrow> sd_error \<times> 'd \<times> 'w"
  ff_close :: "'d \<Rightarrow> 'w \<Rightarrow> sd_error \<times> 'd \<times> 'w"
  ff_read :: "u16 \<Rightarrow> 'd \<Rightarrow> 'w \<Rightarrow> sd_error \<times> u8 list \<times> u16 \<times> 'd \<times> 'w"
  ff_write :: "u8 list \<Rightarrow> u16 \<Rightarrow> 'd \<Rightarrow> 'w \<Rightarrow> sd_error \<times> u16 \<times> 'd \<times> 'w"
  ff_lseek :: "u64 \<Rightarrow> 'd \<Rightarrow> 'w \<Rightarrow> sd_error \<times> 'd \<times> 'w"
  ff_tell :: "'d \<Rightarrow> u64"
  ff_size :: "'d \<Rightarrow> u64"
  ff_eof :: "'d \<Rightarrow> bool"
  ff_truncate :: "'d \<Rightarrow> 'w \<Rightarrow> sd_error \<times> 'd \<times> 'w"
  ff_sync :: "'d \<Rightarrow> 'w \<Rightarrow> sd_error \<times> 'd \<times> 'w"
  ff_opendir :: "string \<Rightarrow> 'd \<Rightarrow> 'w \<Rightarrow> sd_error \<times> 'd \<times> 'w"
  ff_closedir :: "'d \<Rightarrow> 'w \<Rightarrow> sd_error \<times> 'd \<times> 'w"
  ff_readdir :: "'d \<Rightarrow> 'w \<Rightarrow> sd_error \<times> fil_info \<times> 'd \<times> 'w"
  ff_rewinddir :: "'d \<Rightarrow> 'w \<Rightarrow> sd_error \<times> 'd \<times> 'w"
  ff_stat :: "string \<Rightarrow> 'w \<Rightarrow> sd_error \<times> fil_info"
  ff_unlink :: "string \<Rightarrow> 'w \<Rightarrow> sd_error \<times> 'w"
  ff_rename :: "string \<Rightarrow> string \<Rightarrow> 'w \<Rightarrow> sd_error \<times> 'w"
  ff_chmod :: "string \<Rightarrow> u8 \<Rightarrow> u8 \<Rightarrow> 'w \<Rightarrow> sd_error \<times> 'w"
  ff_utime :: "string \<Rightarrow> u16 \<Rightarrow> u16 \<Rightarrow> 'w \<Rightarrow> sd_error \<times> 'w"
  ff_mkdir :: "string \<Rightarrow> 'w \<Rightarrow> sd_error \<times> 'w"
  ff_getfree :: "'w \<Rightarrow> sd_error \<times> u32 \<times> u32 \<times> u16"

abbreviation SD_FS_MAX_FILES :: nat where "SD_FS_MAX_FILES \<equiv> 2"

definition FSAM_READ :: u8 where "FSAM_READ = push_bit 0 1"
definition FSAM_WRITE :: u8 where "FSAM_WRITE = push_bit 1 1"
definition FSOM_OPEN_EXISTING :: u8 where "FSOM_OPEN_EXISTING = 1"
definition FSOM_OPEN_ALWAYS :: u8 where "FSOM_OPEN_ALWAYS = 2"
definition FSOM_OPEN_APPEND :: u8 where "FSOM_OPEN_APPEND = 4"
definition FSOM_CREATE_NEW :: u8 where "FSOM_CREATE_NEW = 8"
definition FSOM_CREATE_ALWAYS :: u8 where "FSOM_CREATE_ALWAYS = 16"

definition FSF_READ_ONLY :: u8 where "FSF_READ_ONLY = push_bit 0 1"
definition FSF_HIDDEN :: u8 where "FSF_HIDDEN = push_bit 1 1"
definition FSF_SYSTEM :: u8 where "FSF_SYSTEM = push_bit 2 1"
definition FSF_DIRECTORY :: u8 where "FSF_DIRECTORY = push_bit 3 1"
definition FSF_ARCHIVE :: u8 where "FSF_ARCHIVE = push_bit 4 1"

text \<open>The flags of FatFs that the code names.\<close>

definition FA_READ :: u8 where "FA_READ = 1"
definition FA_WRITE :: u8 where "FA_WRITE = 2"
definition FA_OPEN_EXISTING :: u8 where "FA_OPEN_EXISTING = 0"
definition FA_CREATE_NEW :: u8 where "FA_CREATE_NEW = 4"
definition FA_CREATE_ALWAYS :: u8 where "FA_CREATE_ALWAYS = 8"
definition FA_OPEN_ALWAYS :: u8 where "FA_OPEN_ALWAYS = 16"
definition FA_OPEN_APPEND :: u8 where "FA_OPEN_APPEND = 48"
definition AM_RDO :: u8 where "AM_RDO = 1"
definition AM_HID :: u8 where "AM_HID = 2"
definition AM_SYS :: u8 where "AM_SYS = 4"
definition AM_DIR :: u8 where "AM_DIR = 16"
definition AM_ARC :: u8 where "AM_ARC = 32"

section \<open>Core functions\<close>

definition fs_init :: "('d, 'w) fatfs \<Rightarrow> 'w \<Rightarrow> ('d, 'w) sd_fs" where
  "fs_init ff w =
     \<lparr>sd_files = replicate SD_FS_MAX_FILES \<lparr>fd_thread = None, fd_is_dir = False, fd_data = ff_zero ff\<rparr>,
      sd_status = SD_NO_CARD, sd_volume = w\<rparr>"

definition get_filedata ::
    "nat \<Rightarrow> filedata_filter \<Rightarrow> fs_file option \<Rightarrow> ('d, 'w) sd_fs \<Rightarrow> sd_error \<times> nat option" where
  "get_filedata t flt file st =
     (if sd_status st = SD_OK
      then case file of
             Some f \<Rightarrow>
               if unat (file_id f) < SD_FS_MAX_FILES
               then let i = unat (file_id f); fd = sd_files st ! i
                    in if fd_thread fd = Some t
                       then case flt of
                              FDF_ANY \<Rightarrow> (SD_OK, Some i)
                            | FDF_FILE \<Rightarrow>
                                if \<not> fd_is_dir fd then (SD_OK, Some i) else (SD_NOT_A_FILE, None)
                            | FDF_DIR \<Rightarrow>
                                if fd_is_dir fd then (SD_OK, Some i) else (SD_NOT_A_DIR, None)
                       else (SD_OTHER_APP, None)
               else (SD_INVALID_PARAMETER, None)
           | None \<Rightarrow> (SD_INVALID_PARAMETER, None)
      else (SD_NO_CARD, None))"

definition get_file ::
    "nat \<Rightarrow> fs_file option \<Rightarrow> ('d, 'w) sd_fs \<Rightarrow> sd_error \<times> nat option" where
  "get_file t file st = get_filedata t FDF_FILE file st"

definition get_dir ::
    "nat \<Rightarrow> fs_file option \<Rightarrow> ('d, 'w) sd_fs \<Rightarrow> sd_error \<times> nat option" where
  "get_dir t file st = get_filedata t FDF_DIR file st"

definition get_any ::
    "nat \<Rightarrow> fs_file option \<Rightarrow> ('d, 'w) sd_fs \<Rightarrow> sd_error \<times> nat option" where
  "get_any t file st = get_filedata t FDF_ANY file st"

definition fs_status :: "('d, 'w) sd_fs \<Rightarrow> sd_error" where
  "fs_status st = sd_status st"

fun fs_parse_error :: "sd_error \<Rightarrow> fs_error" where
  "fs_parse_error SD_OK = FSE_OK"
| "fs_parse_error SD_INT_ERR = FSE_INTERNAL"
| "fs_parse_error SD_NO_FILE = FSE_NOT_EXIST"
| "fs_parse_error SD_NO_PATH = FSE_NOT_EXIST"
| "fs_parse_error SD_INVALID_NAME = FSE_INVALID_NAME"
| "fs_parse_error SD_DENIED = FSE_DENIED"
| "fs_parse_error SD_EXIST = FSE_EXIST"
| "fs_parse_error SD_INVALID_OBJECT = FSE_INTERNAL"
| "fs_parse_error SD_WRITE_PROTECTED = FSE_INTERNAL"
| "fs_parse_error SD_INVALID_DRIVE = FSE_INTERNAL"
| "fs_parse_error SD_NOT_ENABLED = FSE_INTERNAL"
| "fs_parse_error SD_NO_FILESYSTEM = FSE_NOT_READY"
| "fs_parse_error SD_MKFS_ABORTED = FSE_INTERNAL"
| "fs_parse_error SD_TIMEOUT = FSE_INTERNAL"
| "fs_parse_error SD_LOCKED = FSE_INTERNAL"
| "fs_parse_error SD_NOT_ENOUGH_CORE = FSE_INTERNAL"
| "fs_parse_error SD_TOO_MANY_OPEN_FILES = FSE_INTERNAL"
| "fs_parse_error SD_INVALID_PARAMETER = FSE_INVALID_PARAMETER"
| "fs_parse_error SD_NO_CARD = FSE_NOT_READY"
| "fs_parse_error SD_NOT_A_FILE = FSE_INVALID_PARAMETER"
| "fs_parse_error SD_NOT_A_DIR = FSE_INVALID_PARAMETER"
| "fs_parse_error SD_OTHER_APP = FSE_INTERNAL"
| "fs_parse_error _ = FSE_INTERNAL"

text \<open>The end of every operation: both error fields of the handle.\<close>

definition set_error :: "sd_error \<Rightarrow> fs_file \<Rightarrow> fs_file" where
  "set_error e f = f\<lparr>internal_error_id := e, error_id := fs_parse_error e\<rparr>"

text \<open>
  The shape of an operation on an open file or directory: find the slot, call FatFs on its
  object, keep the error; without a slot the result is the initial value of the variable.
\<close>

definition on_slot ::
    "sd_error \<times> nat option \<Rightarrow> ('d \<Rightarrow> 'w \<Rightarrow> sd_error \<times> 'r \<times> 'd \<times> 'w) \<Rightarrow> 'r \<Rightarrow> fs_file \<Rightarrow>
     ('d, 'w) sd_fs \<Rightarrow> 'r \<times> fs_file \<times> ('d, 'w) sd_fs" where
  "on_slot got k r0 f st =
     (case got of
        (SD_OK, Some i) \<Rightarrow>
          (let fd = sd_files st ! i; (e, r, d, w) = k (fd_data fd) (sd_volume st)
           in (r, set_error e f,
               st\<lparr>sd_files := (sd_files st)[i := fd\<lparr>fd_data := d\<rparr>], sd_volume := w\<rparr>))
      | (e, _) \<Rightarrow> (r0, set_error e f, st))"

definition succeeds ::
    "'r \<times> fs_file \<times> ('d, 'w) sd_fs \<Rightarrow> bool \<times> fs_file \<times> ('d, 'w) sd_fs" where
  "succeeds x = (case x of (_, f, st) \<Rightarrow> (internal_error_id f = SD_OK, f, st))"

section \<open>Files\<close>

text \<open>The first slot without an owner, from index \<open>i\<close> on.\<close>

fun free_slot :: "nat \<Rightarrow> 'd file_data list \<Rightarrow> nat option" where
  "free_slot i [] = None"
| "free_slot i (fd # fds) = (if fd_thread fd = None then Some i else free_slot (Suc i) fds)"

definition flag :: "u8 \<Rightarrow> u8 \<Rightarrow> u8 \<Rightarrow> u8" where
  "flag v m r = (if v AND m \<noteq> 0 then r else 0)"

definition open_mode_bits :: "u8 \<Rightarrow> u8 \<Rightarrow> u8" where
  "open_mode_bits access_mode open_mode =
     flag access_mode FSAM_READ FA_READ OR
     flag access_mode FSAM_WRITE FA_WRITE OR
     flag open_mode FSOM_OPEN_EXISTING FA_OPEN_EXISTING OR
     flag open_mode FSOM_OPEN_ALWAYS FA_OPEN_ALWAYS OR
     flag open_mode FSOM_OPEN_APPEND FA_OPEN_APPEND OR
     flag open_mode FSOM_CREATE_NEW FA_CREATE_NEW OR
     flag open_mode FSOM_CREATE_ALWAYS FA_CREATE_ALWAYS"

definition open_slot ::
    "('d, 'w) fatfs \<Rightarrow> nat \<Rightarrow> bool \<Rightarrow> ('d \<Rightarrow> 'w \<Rightarrow> sd_error \<times> 'd \<times> 'w) \<Rightarrow> fs_file \<Rightarrow>
     ('d, 'w) sd_fs \<Rightarrow> bool \<times> fs_file \<times> ('d, 'w) sd_fs" where
  "open_slot ff t dir opn f st =
     (case free_slot 0 (sd_files st) of
        None \<Rightarrow> (False, set_error SD_TOO_MANY_OPEN_FILES f, st)
      | Some i \<Rightarrow>
          (let (e, d, w) = opn (ff_zero ff) (sd_volume st)
           in (e = SD_OK, set_error e (f\<lparr>file_id := of_nat i\<rparr>),
               st\<lparr>sd_files := (sd_files st)[i := \<lparr>fd_thread = Some t, fd_is_dir = dir, fd_data = d\<rparr>],
                  sd_volume := w\<rparr>)))"

definition fs_file_open ::
    "('d, 'w) fatfs \<Rightarrow> nat \<Rightarrow> string \<Rightarrow> u8 \<Rightarrow> u8 \<Rightarrow> fs_file \<Rightarrow> ('d, 'w) sd_fs \<Rightarrow>
     bool \<times> fs_file \<times> ('d, 'w) sd_fs" where
  "fs_file_open ff t path access_mode open_mode f st =
     open_slot ff t False (ff_open ff path (open_mode_bits access_mode open_mode)) f st"

text \<open>Closing releases the slot whatever FatFs answers.\<close>

definition close_slot ::
    "sd_error \<times> nat option \<Rightarrow> ('d \<Rightarrow> 'w \<Rightarrow> sd_error \<times> 'd \<times> 'w) \<Rightarrow> fs_file \<Rightarrow>
     ('d, 'w) sd_fs \<Rightarrow> bool \<times> fs_file \<times> ('d, 'w) sd_fs" where
  "close_slot got cls f st =
     (case got of
        (SD_OK, Some i) \<Rightarrow>
          (let fd = sd_files st ! i; (e, d, w) = cls (fd_data fd) (sd_volume st)
           in (e = SD_OK, set_error e f,
               st\<lparr>sd_files := (sd_files st)[i := fd\<lparr>fd_data := d, fd_thread := None\<rparr>],
                  sd_volume := w\<rparr>))
      | (e, _) \<Rightarrow> (False, set_error e f, st))"

definition fs_file_close ::
    "('d, 'w) fatfs \<Rightarrow> nat \<Rightarrow> fs_file \<Rightarrow> ('d, 'w) sd_fs \<Rightarrow> bool \<times> fs_file \<times> ('d, 'w) sd_fs" where
  "fs_file_close ff t f st = close_slot (get_file t (Some f) st) (ff_close ff) f st"

text \<open>The bytes that arrive in the buffer of the caller, and their number.\<close>

definition fs_file_read ::
    "('d, 'w) fatfs \<Rightarrow> nat \<Rightarrow> u16 \<Rightarrow> fs_file \<Rightarrow> ('d, 'w) sd_fs \<Rightarrow>
     (u8 list \<times> u16) \<times> fs_file \<times> ('d, 'w) sd_fs" where
  "fs_file_read ff t n f st =
     on_slot (get_file t (Some f) st)
       (\<lambda>d w. case ff_read ff n d w of (e, bs, k, d1, w1) \<Rightarrow> (e, (bs, k), d1, w1)) ([], 0) f st"

definition fs_file_write ::
    "('d, 'w) fatfs \<Rightarrow> nat \<Rightarrow> u8 list \<Rightarrow> u16 \<Rightarrow> fs_file \<Rightarrow> ('d, 'w) sd_fs \<Rightarrow>
     u16 \<times> fs_file \<times> ('d, 'w) sd_fs" where
  "fs_file_write ff t bs n f st = on_slot (get_file t (Some f) st) (ff_write ff bs n) 0 f st"

definition no_result :: "('d \<Rightarrow> 'w \<Rightarrow> sd_error \<times> 'd \<times> 'w) \<Rightarrow> 'd \<Rightarrow> 'w \<Rightarrow> sd_error \<times> unit \<times> 'd \<times> 'w"
where
  "no_result k d w = (case k d w of (e, d1, w1) \<Rightarrow> (e, (), d1, w1))"

definition fs_file_seek ::
    "('d, 'w) fatfs \<Rightarrow> nat \<Rightarrow> u32 \<Rightarrow> bool \<Rightarrow> fs_file \<Rightarrow> ('d, 'w) sd_fs \<Rightarrow>
     bool \<times> fs_file \<times> ('d, 'w) sd_fs" where
  "fs_file_seek ff t offset from_start f st =
     succeeds (on_slot (get_file t (Some f) st)
       (if from_start then no_result (ff_lseek ff (ucast offset))
        else no_result (\<lambda>d. ff_lseek ff (ff_tell ff d + ucast offset) d)) () f st)"

definition fs_file_tell ::
    "('d, 'w) fatfs \<Rightarrow> nat \<Rightarrow> fs_file \<Rightarrow> ('d, 'w) sd_fs \<Rightarrow> u64 \<times> fs_file \<times> ('d, 'w) sd_fs" where
  "fs_file_tell ff t f st =
     on_slot (get_file t (Some f) st) (\<lambda>d w. (SD_OK, ff_tell ff d, d, w)) 0 f st"

definition fs_file_truncate ::
    "('d, 'w) fatfs \<Rightarrow> nat \<Rightarrow> fs_file \<Rightarrow> ('d, 'w) sd_fs \<Rightarrow> bool \<times> fs_file \<times> ('d, 'w) sd_fs" where
  "fs_file_truncate ff t f st =
     succeeds (on_slot (get_file t (Some f) st) (no_result (ff_truncate ff)) () f st)"

definition fs_file_sync ::
    "('d, 'w) fatfs \<Rightarrow> nat \<Rightarrow> fs_file \<Rightarrow> ('d, 'w) sd_fs \<Rightarrow> bool \<times> fs_file \<times> ('d, 'w) sd_fs" where
  "fs_file_sync ff t f st =
     succeeds (on_slot (get_file t (Some f) st) (no_result (ff_sync ff)) () f st)"

definition fs_file_size ::
    "('d, 'w) fatfs \<Rightarrow> nat \<Rightarrow> fs_file \<Rightarrow> ('d, 'w) sd_fs \<Rightarrow> u64 \<times> fs_file \<times> ('d, 'w) sd_fs" where
  "fs_file_size ff t f st =
     on_slot (get_file t (Some f) st) (\<lambda>d w. (SD_OK, ff_size ff d, d, w)) 0 f st"

definition fs_file_eof ::
    "('d, 'w) fatfs \<Rightarrow> nat \<Rightarrow> fs_file \<Rightarrow> ('d, 'w) sd_fs \<Rightarrow> bool \<times> fs_file \<times> ('d, 'w) sd_fs" where
  "fs_file_eof ff t f st =
     on_slot (get_file t (Some f) st) (\<lambda>d w. (SD_OK, ff_eof ff d, d, w)) True f st"

section \<open>Directories\<close>

definition fs_dir_open ::
    "('d, 'w) fatfs \<Rightarrow> nat \<Rightarrow> string \<Rightarrow> fs_file \<Rightarrow> ('d, 'w) sd_fs \<Rightarrow>
     bool \<times> fs_file \<times> ('d, 'w) sd_fs" where
  "fs_dir_open ff t path f st = open_slot ff t True (ff_opendir ff path) f st"

definition fs_dir_close ::
    "('d, 'w) fatfs \<Rightarrow> nat \<Rightarrow> fs_file \<Rightarrow> ('d, 'w) sd_fs \<Rightarrow> bool \<times> fs_file \<times> ('d, 'w) sd_fs" where
  "fs_dir_close ff t f st = close_slot (get_dir t (Some f) st) (ff_closedir ff) f st"

definition file_flags :: "u8 \<Rightarrow> u8" where
  "file_flags attrib =
     flag attrib AM_RDO FSF_READ_ONLY OR flag attrib AM_HID FSF_HIDDEN OR
     flag attrib AM_SYS FSF_SYSTEM OR flag attrib AM_DIR FSF_DIRECTORY OR
     flag attrib AM_ARC FSF_ARCHIVE"

definition info_of :: "fil_info \<Rightarrow> file_info" where
  "info_of fl =
     \<lparr>fi_flags = file_flags (fl_attrib fl), fi_size = fl_size fl, fi_date = fl_date fl,
      fi_time = fl_time fl\<rparr>"

text \<open>
  What the caller receives: the information if it gave a place for it, and the name cut to the
  place it gave (the terminator takes one character of \<^verbatim>\<open>name_length\<close>).
\<close>

definition give_info ::
    "bool \<Rightarrow> u16 option \<Rightarrow> fil_info \<Rightarrow> file_info option \<times> string option" where
  "give_info want_info name_room fl =
     (if want_info then Some (info_of fl) else None,
      case name_room of
        None \<Rightarrow> None
      | Some n \<Rightarrow> if 0 < n then Some (take (unat n - 1) (fl_name fl)) else None)"

definition fs_dir_read ::
    "('d, 'w) fatfs \<Rightarrow> nat \<Rightarrow> bool \<Rightarrow> u16 option \<Rightarrow> fs_file \<Rightarrow> ('d, 'w) sd_fs \<Rightarrow>
     (bool \<times> file_info option \<times> string option) \<times> fs_file \<times> ('d, 'w) sd_fs" where
  "fs_dir_read ff t want_info name_room f st =
     (case on_slot (get_dir t (Some f) st)
             (\<lambda>d w. case ff_readdir ff d w of
                (e, fl, d1, w1) \<Rightarrow> (e, give_info want_info name_room fl, d1, w1)) (None, None) f st of
        (r, f1, st1) \<Rightarrow> ((internal_error_id f1 = SD_OK, r), f1, st1))"

definition fs_dir_rewind ::
    "('d, 'w) fatfs \<Rightarrow> nat \<Rightarrow> fs_file \<Rightarrow> ('d, 'w) sd_fs \<Rightarrow> bool \<times> fs_file \<times> ('d, 'w) sd_fs" where
  "fs_dir_rewind ff t f st =
     succeeds (on_slot (get_dir t (Some f) st) (no_result (ff_rewinddir ff)) () f st)"

section \<open>Common functions\<close>

definition if_ready ::
    "('w \<Rightarrow> sd_error \<times> 'w) \<Rightarrow> ('d, 'w) sd_fs \<Rightarrow> fs_error \<times> ('d, 'w) sd_fs" where
  "if_ready k st =
     (if fs_status st = SD_OK
      then case k (sd_volume st) of (e, w) \<Rightarrow> (fs_parse_error e, st\<lparr>sd_volume := w\<rparr>)
      else (fs_parse_error (fs_status st), st))"

definition fs_common_info ::
    "('d, 'w) fatfs \<Rightarrow> string \<Rightarrow> bool \<Rightarrow> u16 option \<Rightarrow> ('d, 'w) sd_fs \<Rightarrow>
     fs_error \<times> file_info option \<times> string option" where
  "fs_common_info ff path want_info name_room st =
     (if fs_status st = SD_OK
      then case ff_stat ff path (sd_volume st) of
             (e, fl) \<Rightarrow>
               (fs_parse_error e,
                if e = SD_OK then give_info want_info name_room fl else (None, None))
      else (fs_parse_error (fs_status st), None, None))"

definition fs_common_remove ::
    "('d, 'w) fatfs \<Rightarrow> string \<Rightarrow> ('d, 'w) sd_fs \<Rightarrow> fs_error \<times> ('d, 'w) sd_fs" where
  "fs_common_remove ff path st = if_ready (ff_unlink ff path) st"

definition fs_common_rename ::
    "('d, 'w) fatfs \<Rightarrow> string \<Rightarrow> string \<Rightarrow> ('d, 'w) sd_fs \<Rightarrow> fs_error \<times> ('d, 'w) sd_fs" where
  "fs_common_rename ff old_path new_path st = if_ready (ff_rename ff old_path new_path) st"

text \<open>
  The attributes and the mask in the encoding of FatFs are computed and not used: \<^verbatim>\<open>f_chmod\<close> is
  called with the arguments as they came.
\<close>

definition attr_bits :: "u8 \<Rightarrow> u8" where
  "attr_bits v =
     flag v FSF_READ_ONLY AM_RDO OR flag v FSF_HIDDEN AM_HID OR flag v FSF_SYSTEM AM_SYS OR
     flag v FSF_DIRECTORY AM_DIR OR flag v FSF_ARCHIVE AM_ARC"

definition fs_common_set_attr ::
    "('d, 'w) fatfs \<Rightarrow> string \<Rightarrow> u8 \<Rightarrow> u8 \<Rightarrow> ('d, 'w) sd_fs \<Rightarrow> fs_error \<times> ('d, 'w) sd_fs" where
  "fs_common_set_attr ff path attr msk st =
     if_ready
       (let m1 = attr_bits msk; a1 = attr_bits attr
        in ff_chmod ff path attr msk) st"

definition fs_common_set_time ::
    "('d, 'w) fatfs \<Rightarrow> string \<Rightarrow> u16 \<Rightarrow> u16 \<Rightarrow> ('d, 'w) sd_fs \<Rightarrow> fs_error \<times> ('d, 'w) sd_fs" where
  "fs_common_set_time ff path date time st = if_ready (ff_utime ff path date time) st"

definition fs_common_mkdir ::
    "('d, 'w) fatfs \<Rightarrow> string \<Rightarrow> ('d, 'w) sd_fs \<Rightarrow> fs_error \<times> ('d, 'w) sd_fs" where
  "fs_common_mkdir ff path st = if_ready (ff_mkdir ff path) st"

abbreviation MAX_SS :: u16 where "MAX_SS \<equiv> 512"

definition fs_get_fs_info ::
    "('d, 'w) fatfs \<Rightarrow> ('d, 'w) sd_fs \<Rightarrow> fs_error \<times> (u64 \<times> u64) option" where
  "fs_get_fs_info ff st =
     (if fs_status st = SD_OK
      then case ff_getfree ff (sd_volume st) of
             (e, free_clusters, n_fatent, csize) \<Rightarrow>
               (fs_parse_error e,
                if e = SD_OK
                then let total_sectors = (n_fatent - 2) * ucast csize;
                         free_sectors = free_clusters * ucast csize
                     in Some (ucast total_sectors * ucast MAX_SS, ucast free_sectors * ucast MAX_SS)
                else None)
      else (fs_parse_error (fs_status st), None))"

section \<open>Descriptions of errors\<close>

fun fs_error_get_desc :: "fs_error \<Rightarrow> string" where
  "fs_error_get_desc FSE_OK = ''OK''"
| "fs_error_get_desc FSE_NOT_READY = ''filesystem not ready''"
| "fs_error_get_desc FSE_EXIST = ''file/dir already exist''"
| "fs_error_get_desc FSE_NOT_EXIST = ''file/dir not exist''"
| "fs_error_get_desc FSE_INVALID_PARAMETER = ''invalid parameter''"
| "fs_error_get_desc FSE_DENIED = ''access denied''"
| "fs_error_get_desc FSE_INVALID_NAME = ''invalid name/path''"
| "fs_error_get_desc FSE_INTERNAL = ''internal error''"
| "fs_error_get_desc FSE_NOT_IMPLEMENTED = ''function not implemented''"

fun fs_error_get_internal_desc :: "sd_error \<Rightarrow> string" where
  "fs_error_get_internal_desc SD_OK = ''OK''"
| "fs_error_get_internal_desc SD_DISK_ERR = ''disk error''"
| "fs_error_get_internal_desc SD_INT_ERR = ''internal error''"
| "fs_error_get_internal_desc SD_NO_FILE = ''no file''"
| "fs_error_get_internal_desc SD_NO_PATH = ''no path''"
| "fs_error_get_internal_desc SD_INVALID_NAME = ''invalid name''"
| "fs_error_get_internal_desc SD_DENIED = ''access denied''"
| "fs_error_get_internal_desc SD_EXIST = ''file/dir exist''"
| "fs_error_get_internal_desc SD_INVALID_OBJECT = ''invalid object''"
| "fs_error_get_internal_desc SD_WRITE_PROTECTED = ''write protected''"
| "fs_error_get_internal_desc SD_INVALID_DRIVE = ''invalid drive''"
| "fs_error_get_internal_desc SD_NOT_ENABLED = ''not enabled''"
| "fs_error_get_internal_desc SD_NO_FILESYSTEM = ''no filesystem''"
| "fs_error_get_internal_desc SD_MKFS_ABORTED = ''aborted''"
| "fs_error_get_internal_desc SD_TIMEOUT = ''timeout''"
| "fs_error_get_internal_desc SD_LOCKED = ''file locked''"
| "fs_error_get_internal_desc SD_NOT_ENOUGH_CORE = ''not enough memory''"
| "fs_error_get_internal_desc SD_TOO_MANY_OPEN_FILES = ''too many open files''"
| "fs_error_get_internal_desc SD_INVALID_PARAMETER = ''invalid parameter''"
| "fs_error_get_internal_desc SD_NO_CARD = ''no SD Card''"
| "fs_error_get_internal_desc SD_NOT_A_FILE = ''not a file''"
| "fs_error_get_internal_desc SD_NOT_A_DIR = ''not a directory''"
| "fs_error_get_internal_desc SD_OTHER_APP = ''opened by other app''"
| "fs_error_get_internal_desc SD_LOW_LEVEL_ERR = ''low level error''"
| "fs_error_get_internal_desc _ = ''unknown error''"

section \<open>Sequences of calls\<close>

text \<open>The calls of the API that take a handle; \<open>sd_exec\<close> makes one, \<open>sd_run\<close> a sequence of them by
  any threads with any handles, valid or not.\<close>

datatype sd_call =
    File_Open string u8 u8
  | File_Close
  | File_Read u16
  | File_Write "u8 list" u16
  | File_Seek u32 bool
  | File_Tell
  | File_Truncate
  | File_Sync
  | File_Size
  | File_Eof
  | Dir_Open string
  | Dir_Close
  | Dir_Read bool "u16 option"
  | Dir_Rewind

definition sd_exec ::
    "('d, 'w) fatfs \<Rightarrow> nat \<Rightarrow> fs_file \<Rightarrow> sd_call \<Rightarrow> ('d, 'w) sd_fs \<Rightarrow> fs_file \<times> ('d, 'w) sd_fs" where
  "sd_exec ff t f c st =
     (case c of
        File_Open p a m \<Rightarrow> snd (fs_file_open ff t p a m f st)
      | File_Close \<Rightarrow> snd (fs_file_close ff t f st)
      | File_Read n \<Rightarrow> snd (fs_file_read ff t n f st)
      | File_Write bs n \<Rightarrow> snd (fs_file_write ff t bs n f st)
      | File_Seek n b \<Rightarrow> snd (fs_file_seek ff t n b f st)
      | File_Tell \<Rightarrow> snd (fs_file_tell ff t f st)
      | File_Truncate \<Rightarrow> snd (fs_file_truncate ff t f st)
      | File_Sync \<Rightarrow> snd (fs_file_sync ff t f st)
      | File_Size \<Rightarrow> snd (fs_file_size ff t f st)
      | File_Eof \<Rightarrow> snd (fs_file_eof ff t f st)
      | Dir_Open p \<Rightarrow> snd (fs_dir_open ff t p f st)
      | Dir_Close \<Rightarrow> snd (fs_dir_close ff t f st)
      | Dir_Read b n \<Rightarrow> snd (fs_dir_read ff t b n f st)
      | Dir_Rewind \<Rightarrow> snd (fs_dir_rewind ff t f st))"

fun sd_run ::
    "('d, 'w) fatfs \<Rightarrow> (nat \<times> fs_file \<times> sd_call) list \<Rightarrow> ('d, 'w) sd_fs \<Rightarrow> ('d, 'w) sd_fs" where
  "sd_run ff [] st = st"
| "sd_run ff ((t, f, c) # cs) st = sd_run ff cs (snd (sd_exec ff t f c st))"

text \<open>What a slot found for a thread is.\<close>

lemma get_filedata_found:
  "get_filedata t flt file st = (SD_OK, Some i) \<Longrightarrow>
     sd_status st = SD_OK \<and> i < SD_FS_MAX_FILES \<and> fd_thread (sd_files st ! i) = Some t"
  by (auto simp: get_filedata_def Let_def split: if_splits option.splits filedata_filter.splits)

lemma free_slot_some:
  "free_slot k fds = Some i \<Longrightarrow>
     k \<le> i \<and> i < k + length fds \<and> fd_thread (fds ! (i - k)) = None \<and>
     (\<forall>j<i - k. fd_thread (fds ! j) \<noteq> None)"
proof (induction fds arbitrary: k)
  case Nil
  then show ?case by simp
next
  case (Cons fd fds)
  show ?case
  proof (cases "fd_thread fd = None")
    case True
    with Cons.prems show ?thesis by simp
  next
    case False
    with Cons.prems Cons.IH [of "Suc k"] have "Suc k \<le> i \<and> i < Suc k + length fds \<and> fd_thread (fds ! (i - Suc k)) = None \<and>
      (\<forall>j<i - Suc k. fd_thread (fds ! j) \<noteq> None)"
      by (simp del: add_Suc add_Suc_right add_Suc_shift)
    moreover from this have "i - k = Suc (i - Suc k)" by arith
    ultimately show ?thesis using False by (auto simp: less_Suc_eq_0_disj)
  qed
qed

lemma free_slot_none: "free_slot k fds = None \<longleftrightarrow> (\<forall>fd \<in> set fds. fd_thread fd \<noteq> None)"
  by (induction fds arbitrary: k) auto

text \<open>
  Every call is one of three: it opens a slot, closes one, or works on one, the last two on a slot
  of the calling thread.
\<close>

definition works_on ::
    "nat \<Rightarrow> ('d, 'w) sd_fs \<Rightarrow> ('d, 'w) sd_fs \<Rightarrow> nat \<Rightarrow> 'd file_data \<Rightarrow> bool" where
  "works_on t st st1 i fd \<longleftrightarrow>
     i < SD_FS_MAX_FILES \<and> sd_files st1 = (sd_files st)[i := fd] \<and> sd_status st1 = sd_status st \<and>
     (fd_thread (sd_files st ! i) = Some t \<and> sd_status st = SD_OK \<or>
      fd_thread (sd_files st ! i) = None \<and> fd_thread fd = Some t)"

definition call_effect :: "nat \<Rightarrow> ('d, 'w) sd_fs \<Rightarrow> fs_file \<times> ('d, 'w) sd_fs \<Rightarrow> bool" where
  "call_effect t st r \<longleftrightarrow>
     error_id (fst r) = fs_parse_error (internal_error_id (fst r)) \<and>
     (snd r = st \<or> (\<exists>i fd. works_on t st (snd r) i fd))"

lemma set_error_ids [simp]:
  "internal_error_id (set_error e f) = e" "error_id (set_error e f) = fs_parse_error e"
  "file_id (set_error e f) = file_id f"
  by (simp_all add: set_error_def)

lemma effect_on_slot:
  assumes "\<And>i. got = (SD_OK, Some i) \<Longrightarrow> sd_status st = SD_OK \<and> i < SD_FS_MAX_FILES \<and>
    fd_thread (sd_files st ! i) = Some t"
  shows "call_effect t st (snd (on_slot got k r0 f st))"
  using assms
  by (auto simp: on_slot_def call_effect_def works_on_def Let_def
      split: prod.splits sd_error.splits option.splits)

lemma effect_close_slot:
  assumes "\<And>i. got = (SD_OK, Some i) \<Longrightarrow> sd_status st = SD_OK \<and> i < SD_FS_MAX_FILES \<and>
    fd_thread (sd_files st ! i) = Some t"
  shows "call_effect t st (snd (close_slot got k f st))"
  using assms
  by (auto simp: close_slot_def call_effect_def works_on_def Let_def
      split: prod.splits sd_error.splits option.splits)

lemma effect_open_slot:
  assumes "length (sd_files st) = SD_FS_MAX_FILES"
  shows "call_effect t st (snd (open_slot ff t dir opn f st))"
proof (cases "free_slot 0 (sd_files st)")
  case None
  then show ?thesis by (simp add: open_slot_def call_effect_def)
next
  case (Some i)
  obtain e d w where o: "opn (ff_zero ff) (sd_volume st) = (e, d, w)"
    by (cases "opn (ff_zero ff) (sd_volume st)")
  have "i < SD_FS_MAX_FILES" "fd_thread (sd_files st ! i) = None"
    using free_slot_some [OF Some] assms by simp_all
  then have "works_on t st (snd (snd (open_slot ff t dir opn f st))) i
      \<lparr>fd_thread = Some t, fd_is_dir = dir, fd_data = d\<rparr>"
    using o by (simp add: open_slot_def Some works_on_def)
  moreover have "error_id (fst (snd (open_slot ff t dir opn f st))) =
      fs_parse_error (internal_error_id (fst (snd (open_slot ff t dir opn f st))))"
    using o by (simp add: open_slot_def Some)
  ultimately show ?thesis unfolding call_effect_def by blast
qed

lemma snd_succeeds [simp]: "snd (succeeds x) = snd x"
  by (cases x) (simp add: succeeds_def)

lemma snd_dir_read [simp]:
  "snd (fs_dir_read ff t b n f st) =
     snd (on_slot (get_dir t (Some f) st)
       (\<lambda>d w. case ff_readdir ff d w of
          (e, fl, d1, w1) \<Rightarrow> (e, give_info b n fl, d1, w1)) (None, None) f st)"
  by (simp add: fs_dir_read_def split: prod.split)

lemma sd_exec_effect:
  assumes "length (sd_files st) = SD_FS_MAX_FILES"
  shows "call_effect t st (sd_exec ff t f c st)"
proof -
  note found = get_filedata_found [of t _ "Some f" st]
  show ?thesis
    by (cases c)
      (simp_all add: sd_exec_def fs_file_open_def fs_file_close_def fs_file_read_def
        fs_file_write_def fs_file_seek_def fs_file_tell_def fs_file_truncate_def fs_file_sync_def
        fs_file_size_def fs_file_eof_def fs_dir_open_def fs_dir_close_def fs_dir_rewind_def
        get_file_def get_dir_def effect_open_slot [OF assms] effect_close_slot [OF found]
        effect_on_slot [OF found])
qed

lemma effect_status: "call_effect t st r \<Longrightarrow> sd_status (snd r) = sd_status st"
  by (auto simp: call_effect_def works_on_def)

lemma effect_length: "call_effect t st r \<Longrightarrow> length (sd_files (snd r)) = length (sd_files st)"
  by (auto simp: call_effect_def works_on_def)

lemma effect_other:
  "call_effect t st r \<Longrightarrow> fd_thread (sd_files st ! i) = Some u \<Longrightarrow> t \<noteq> u \<Longrightarrow>
     sd_files (snd r) ! i = sd_files st ! i"
  unfolding call_effect_def works_on_def by (metis nth_list_update_neq option.distinct(1) option.inject)

lemma effect_owned:
  "call_effect t st r \<Longrightarrow> sd_status st \<noteq> SD_OK \<Longrightarrow> fd_thread (sd_files st ! i) \<noteq> None \<Longrightarrow>
     i < length (sd_files st) \<Longrightarrow> fd_thread (sd_files (snd r) ! i) \<noteq> None"
  unfolding call_effect_def works_on_def by (metis nth_list_update_neq)

lemma sd_run_status:
  "length (sd_files st) = SD_FS_MAX_FILES \<Longrightarrow>
     sd_status (sd_run ff cs st) = sd_status st \<and>
     length (sd_files (sd_run ff cs st)) = SD_FS_MAX_FILES"
proof (induction cs arbitrary: st)
  case (Cons c cs)
  obtain t f op where c: "c = (t, f, op)" by (cases c)
  have eff: "call_effect t st (sd_exec ff t f op st)" by (rule sd_exec_effect [OF Cons.prems])
  show ?case
    using Cons.IH [of "snd (sd_exec ff t f op st)"] Cons.prems effect_status [OF eff]
      effect_length [OF eff] by (simp add: c)
qed simp

lemma sd_run_other:
  assumes "length (sd_files st) = SD_FS_MAX_FILES"
    and "\<forall>c \<in> set cs. fst c \<noteq> u" and "fd_thread (sd_files st ! i) = Some u"
  shows "sd_files (sd_run ff cs st) ! i = sd_files st ! i"
  using assms
proof (induction cs arbitrary: st)
  case (Cons c cs)
  obtain t f op where c: "c = (t, f, op)" by (cases c)
  let ?st = "snd (sd_exec ff t f op st)"
  have eff: "call_effect t st (sd_exec ff t f op st)" by (rule sd_exec_effect [OF Cons.prems(1)])
  have same: "sd_files ?st ! i = sd_files st ! i"
    using effect_other [OF eff Cons.prems(3)] Cons.prems(2) c by simp
  have "sd_files (sd_run ff cs ?st) ! i = sd_files ?st ! i"
    using Cons.prems effect_length [OF eff] same by (intro Cons.IH) simp_all
  with same show ?case by (simp add: c)
qed simp

lemma sd_run_owned:
  assumes "length (sd_files st) = SD_FS_MAX_FILES" and "sd_status st \<noteq> SD_OK"
    and "\<forall>fd \<in> set (sd_files st). fd_thread fd \<noteq> None"
  shows "\<forall>fd \<in> set (sd_files (sd_run ff cs st)). fd_thread fd \<noteq> None"
  using assms
proof (induction cs arbitrary: st)
  case (Cons c cs)
  obtain t f op where c: "c = (t, f, op)" by (cases c)
  let ?st = "snd (sd_exec ff t f op st)"
  have eff: "call_effect t st (sd_exec ff t f op st)" by (rule sd_exec_effect [OF Cons.prems(1)])
  have "\<forall>fd \<in> set (sd_files (sd_run ff cs ?st)). fd_thread fd \<noteq> None"
    using Cons.prems effect_length [OF eff] effect_status [OF eff] effect_owned [OF eff]
    by (intro Cons.IH) (simp_all add: all_set_conv_all_nth)
  then show ?case by (simp add: c)
qed simp

section \<open>Properties\<close>

text \<open>
  C10. A slot belongs to the thread that opened it: whatever calls other threads make, with whatever
  handles, the object of a slot of thread \<open>u\<close> is not touched.
\<close>

theorem sd_slot_isolated:
  assumes "length (sd_files st) = SD_FS_MAX_FILES"
    and "\<forall>c \<in> set cs. fst c \<noteq> u" and "fd_thread (sd_files st ! i) = Some u"
  shows "sd_files (sd_run ff cs st) ! i = sd_files st ! i"
  using assms by (rule sd_run_other)

text \<open>
  What a thread has opened is what it reads: after a successful open, and any calls of other
  threads in between, a read hands \<open>n\<close> and the object that \<^verbatim>\<open>f_open\<close> filled to \<^verbatim>\<open>f_read\<close>, and the
  caller receives its bytes, its count and its error.
\<close>

theorem sd_reads_what_it_opened:
  assumes "length (sd_files st) = SD_FS_MAX_FILES" and "sd_status st = SD_OK"
    and "fs_file_open ff t path a m f st = (True, f1, st1)"
    and "\<forall>c \<in> set cs. fst c \<noteq> t"
    and "ff_open ff path (open_mode_bits a m) (ff_zero ff) (sd_volume st) = (e0, d, w)"
    and "ff_read ff n d (sd_volume (sd_run ff cs st1)) = (e, bs, k, d1, w1)"
  shows "fst (fs_file_read ff t n f1 (sd_run ff cs st1)) = (bs, k) \<and>
    internal_error_id (fst (snd (fs_file_read ff t n f1 (sd_run ff cs st1)))) = e"
proof -
  obtain i where i: "free_slot 0 (sd_files st) = Some i"
    using assms(3) by (auto simp: fs_file_open_def open_slot_def split: option.splits)
  then have lt: "i < SD_FS_MAX_FILES" using free_slot_some assms(1) by fastforce
  from i assms(3,5) have st1: "sd_files st1 ! i = \<lparr>fd_thread = Some t, fd_is_dir = False, fd_data = d\<rparr>"
      "length (sd_files st1) = SD_FS_MAX_FILES" "sd_status st1 = SD_OK"
    and f1: "unat (file_id f1) = i"
    using lt assms(1,2)
    by (auto simp: fs_file_open_def open_slot_def unat_of_nat)
  let ?st = "sd_run ff cs st1"
  have "sd_files ?st ! i = sd_files st1 ! i"
    by (rule sd_run_other) (use st1 assms(4) in simp_all)
  with st1 f1 lt sd_run_status [OF st1(2)]
  have "get_file t (Some f1) ?st = (SD_OK, Some i)" and "fd_data (sd_files ?st ! i) = d"
    by (simp_all add: get_file_def get_filedata_def Let_def)
  then show "fst (fs_file_read ff t n f1 ?st) = (bs, k) \<and>
    internal_error_id (fst (snd (fs_file_read ff t n f1 ?st))) = e"
    using assms(6) by (simp_all add: fs_file_read_def on_slot_def Let_def)
qed

lemma open_fills:
  assumes "length (sd_files st) = SD_FS_MAX_FILES"
    and "fs_file_open ff t p a m f st = (b, f1, st1)"
  shows "sd_status st1 = sd_status st" and "length (sd_files st1) = SD_FS_MAX_FILES"
    and "fd_thread (sd_files st1 ! 0) \<noteq> None"
    and "fd_thread (sd_files st ! 0) \<noteq> None \<Longrightarrow> fd_thread (sd_files st1 ! 1) \<noteq> None"
proof -
  obtain x y where xs: "sd_files st = [x, y]"
    using assms(1) by (metis One_nat_def Suc_1 length_0_conv length_Suc_conv)
  show "sd_status st1 = sd_status st" "length (sd_files st1) = SD_FS_MAX_FILES"
    "fd_thread (sd_files st1 ! 0) \<noteq> None"
    "fd_thread (sd_files st ! 0) \<noteq> None \<Longrightarrow> fd_thread (sd_files st1 ! 1) \<noteq> None"
    using assms(2) xs
    by (auto simp: fs_file_open_def open_slot_def split: prod.splits if_splits)
qed

text \<open>
  The table fills up without a card: an open does not look at the status and keeps its slot
  when it fails, and closing does look at it. After two opens with no card no sequence of calls,
  of any threads, releases a slot, and every further open fails for every thread.
\<close>

theorem sd_open_without_card_exhausts:
  assumes "length (sd_files st) = SD_FS_MAX_FILES" and "sd_status st \<noteq> SD_OK"
    and "fs_file_open ff t p a m f st = (b1, f1, st1)"
    and "fs_file_open ff t' p' a' m' f' st1 = (b2, f2, st2)"
  shows "fs_file_open ff u q acc md g (sd_run ff cs st2) =
    (False, set_error SD_TOO_MANY_OPEN_FILES g, sd_run ff cs st2)"
proof -
  note one = open_fills [OF assms(1) assms(3)]
  note two = open_fills [OF one(2) assms(4)]
  have "sd_files st2 = [sd_files st2 ! 0, sd_files st2 ! 1]"
    using two(2) by (intro nth_equalityI) (auto simp: less_Suc_eq numeral_2_eq_2)
  then have "\<forall>fd \<in> set (sd_files st2). fd_thread fd \<noteq> None"
    using two(3) two(4) [OF one(3)] by (metis empty_iff empty_set set_ConsD)
  then have "\<forall>fd \<in> set (sd_files (sd_run ff cs st2)). fd_thread fd \<noteq> None"
    using sd_run_owned [OF two(2)] one(1) two(1) assms(2) by simp
  then have "free_slot 0 (sd_files (sd_run ff cs st2)) = None" by (simp only: free_slot_none)
  then show ?thesis by (simp add: fs_file_open_def open_slot_def)
qed

text \<open>
  Every call leaves the handle and the table well-formed: the two error fields of the handle
  agree, and the table keeps its two slots.
\<close>

theorem sd_call_well_formed:
  assumes "length (sd_files st) = SD_FS_MAX_FILES"
  shows "error_id (fst (sd_exec ff t f c st)) =
      fs_parse_error (internal_error_id (fst (sd_exec ff t f c st))) \<and>
    length (sd_files (snd (sd_exec ff t f c st))) = SD_FS_MAX_FILES \<and>
    (error_id (fst (sd_exec ff t f c st)) = FSE_OK \<longleftrightarrow>
      internal_error_id (fst (sd_exec ff t f c st)) = SD_OK)"
proof (intro conjI)
  have eff: "call_effect t st (sd_exec ff t f c st)" by (rule sd_exec_effect [OF assms])
  show err: "error_id (fst (sd_exec ff t f c st)) =
      fs_parse_error (internal_error_id (fst (sd_exec ff t f c st)))"
    using eff by (simp add: call_effect_def)
  show "length (sd_files (snd (sd_exec ff t f c st))) = SD_FS_MAX_FILES"
    using effect_length [OF eff] assms by simp
  have "fs_parse_error e = FSE_OK \<longleftrightarrow> e = SD_OK" for e by (cases e) simp_all
  with err show "error_id (fst (sd_exec ff t f c st)) = FSE_OK \<longleftrightarrow>
      internal_error_id (fst (sd_exec ff t f c st)) = SD_OK" by simp
qed

section \<open>Examples\<close>

text \<open>
  A file system for the examples: an object is the bytes that are left to read, every file holds
  the same three bytes, every call succeeds.
\<close>

definition three_bytes :: "(u8 list, unit) fatfs" where
  "three_bytes =
     \<lparr>ff_zero = [], ff_open = (\<lambda>_ _ _ w. (SD_OK, [1, 2, 3], w)), ff_close = (\<lambda>d w. (SD_OK, [], w)),
      ff_read = (\<lambda>n d w. (SD_OK, take (unat n) d, of_nat (length (take (unat n) d)), drop (unat n) d, w)),
      ff_write = (\<lambda>_ n d w. (SD_OK, n, d, w)), ff_lseek = (\<lambda>_ d w. (SD_OK, d, w)),
      ff_tell = (\<lambda>_. 0), ff_size = (\<lambda>_. 3), ff_eof = (\<lambda>d. d = []),
      ff_truncate = (\<lambda>d w. (SD_OK, d, w)), ff_sync = (\<lambda>d w. (SD_OK, d, w)),
      ff_opendir = (\<lambda>_ d w. (SD_OK, d, w)), ff_closedir = (\<lambda>d w. (SD_OK, d, w)),
      ff_readdir = (\<lambda>d w. (SD_OK, \<lparr>fl_size = 0, fl_date = 0, fl_time = 0, fl_attrib = 0, fl_name = []\<rparr>,
        d, w)),
      ff_rewinddir = (\<lambda>d w. (SD_OK, d, w)),
      ff_stat = (\<lambda>_ _. (SD_OK, \<lparr>fl_size = 0, fl_date = 0, fl_time = 0, fl_attrib = 0, fl_name = []\<rparr>)),
      ff_unlink = (\<lambda>_ w. (SD_OK, w)), ff_rename = (\<lambda>_ _ w. (SD_OK, w)),
      ff_chmod = (\<lambda>_ _ _ w. (SD_OK, w)), ff_utime = (\<lambda>_ _ _ w. (SD_OK, w)),
      ff_mkdir = (\<lambda>_ w. (SD_OK, w)), ff_getfree = (\<lambda>_. (SD_OK, 0, 2, 1))\<rparr>"

definition a_handle :: fs_file where
  "a_handle = \<lparr>file_id = 0, error_id = FSE_OK, internal_error_id = SD_OK\<rparr>"

definition card_in :: "(u8 list, unit) sd_fs" where
  "card_in = (fs_init three_bytes ())\<lparr>sd_status := SD_OK\<rparr>"

definition card_opened :: "(u8 list, unit) sd_fs" where
  "card_opened = snd (snd (fs_file_open three_bytes 1 ''a'' 1 1 a_handle card_in))"

lemmas example_defs =
  three_bytes_def a_handle_def card_in_def card_opened_def fs_init_def fs_file_open_def
  open_slot_def numeral_2_eq_2

lemma sd_slot_isolated_witness:
  "sd_files (sd_run three_bytes [(2, a_handle, File_Read 2), (3, a_handle, File_Close)] card_opened) ! 0 =
   \<lparr>fd_thread = Some 1, fd_is_dir = False, fd_data = [1, 2, 3]\<rparr>"
proof -
  have opened: "sd_files card_opened ! 0 = \<lparr>fd_thread = Some 1, fd_is_dir = False, fd_data = [1, 2, 3]\<rparr>"
    "length (sd_files card_opened) = SD_FS_MAX_FILES"
    by (simp_all add: example_defs)
  show ?thesis
    by (subst sd_slot_isolated [where u = 1]) (simp_all add: opened)
qed

lemma sd_reads_what_it_opened_witness:
  "fst (fs_file_read three_bytes 1 2 (a_handle\<lparr>file_id := 0\<rparr>)
     (sd_run three_bytes [(2, a_handle, File_Close)] card_opened)) = ([1, 2], 2)"
proof -
  have o: "fs_file_open three_bytes 1 ''a'' 1 1 a_handle card_in =
    (True, a_handle\<lparr>file_id := 0\<rparr>, card_opened)"
    by (simp add: example_defs set_error_def)
  have len: "length (sd_files card_in) = SD_FS_MAX_FILES" "sd_status card_in = SD_OK"
    by (simp_all add: card_in_def fs_init_def)
  show ?thesis
    by (rule sd_reads_what_it_opened [OF len o, where d = "[1, 2, 3]", THEN conjunct1])
      (simp_all add: three_bytes_def)
qed

lemma triple: "x = (fst x, fst (snd x), snd (snd x))"
  by simp

lemma sd_open_without_card_exhausts_witness:
  "fst (fs_file_open three_bytes 3 ''c'' 1 1 a_handle
     (sd_run three_bytes [(1, a_handle, File_Close), (2, a_handle, File_Close)]
       (snd (snd (fs_file_open three_bytes 2 ''b'' 1 1 a_handle
         (snd (snd (fs_file_open three_bytes 1 ''a'' 1 1 a_handle (fs_init three_bytes ()))))))))) = False"
proof -
  have len: "length (sd_files (fs_init three_bytes ())) = SD_FS_MAX_FILES"
    and out: "sd_status (fs_init three_bytes ()) \<noteq> SD_OK"
    by (simp_all add: fs_init_def)
  show ?thesis
    by (simp only: fst_conv sd_open_without_card_exhausts [where ff = three_bytes and u = 3 and q = "''c''"
          and acc = 1 and md = 1 and g = a_handle, OF len out
          triple [of "fs_file_open three_bytes 1 ''a'' 1 1 a_handle (fs_init three_bytes ())"] triple])
qed


lemma sd_call_well_formed_witness:
  "error_id (fst (sd_exec three_bytes 2 a_handle (File_Read 1) card_opened)) = FSE_INTERNAL"
proof -
  have len: "length (sd_files card_opened) = SD_FS_MAX_FILES" by (simp add: example_defs)
  have "internal_error_id (fst (sd_exec three_bytes 2 a_handle (File_Read 1) card_opened)) = SD_OTHER_APP"
    by (simp add: sd_exec_def fs_file_read_def get_file_def get_filedata_def on_slot_def example_defs
        set_error_def)
  with sd_call_well_formed [OF len] show ?thesis by simp
qed

section \<open>Two consequences\<close>

text \<open>The conversion of attributes that \<^verbatim>\<open>fs_common_set_attr\<close> computes would be right: reading the
  attributes back gives the flags. It passes the flags themselves, and the archive flag of FatFs
  is then never in the mask.\<close>

lemma flag_bits: "bit (flag v m r) n \<longleftrightarrow> v AND m \<noteq> 0 \<and> bit r n"
  by (simp add: flag_def)

lemma set_attr_unconverted:
  "fs_common_set_attr ff path FSF_ARCHIVE FSF_ARCHIVE st = if_ready (ff_chmod ff path 16 16) st"
  "attr_bits FSF_ARCHIVE = AM_ARC" "AM_ARC AND 16 = 0"
  by (simp_all add: fs_common_set_attr_def FSF_ARCHIVE_def AM_ARC_def attr_bits_def flag_def
      FSF_READ_ONLY_def FSF_HIDDEN_def FSF_SYSTEM_def FSF_DIRECTORY_def)

lemma not_ready_is_internal:
  "fs_parse_error FR_NOT_READY = FSE_INTERNAL" "fs_error_get_internal_desc FR_NOT_READY = ''unknown error''"
  by simp_all

end
