(* ===== verification/FileSelect.thy ===== *)
theory FileSelect
  imports Submenu SdFilesystem
begin

text \<open>
  The list of files, \<^verbatim>\<open>applications/gui/modules/file_select.c\<close>: the directory is read through the
  file API of the SD card (\<^verbatim>\<open>SdFilesystem\<close>), once to count the files and again for every window of
  four names. The control and the model of its view are one record; that the model is committed is
  not modelled. The loops over the directory end only when the API says so: they are partial
  functions, \<open>None\<close> is a loop that never ends.

  The context of a call: FatFs, the calling thread, the file handle on the stack before it is
  opened, and whether the buffer for a name (\<^verbatim>\<open>calloc\<close>) could be allocated.
\<close>

unbundle bit_operations_syntax

section \<open>Strings of the C library and of M*LIB\<close>

text \<open>\<^verbatim>\<open>strstr(s, t) != NULL\<close>.\<close>

fun strstr :: "string \<Rightarrow> string \<Rightarrow> bool" where
  "strstr s t \<longleftrightarrow> take (length t) s = t \<or> (case s of [] \<Rightarrow> False | _ # s1 \<Rightarrow> strstr s1 t)"

declare strstr.simps [simp del]

text \<open>\<^verbatim>\<open>strlcpy(dst, src, n)\<close>: what \<^verbatim>\<open>dst\<close> holds afterwards.\<close>

definition strlcpy :: "string \<Rightarrow> string \<Rightarrow> nat \<Rightarrow> string" where
  "strlcpy dst s n = (if n = 0 then dst else take (n - 1) s)"

text \<open>
  \<^verbatim>\<open>string_replace_all_str(s, t, "")\<close>: every occurrence of \<^verbatim>\<open>t\<close> is removed, from left to right; an
  empty \<^verbatim>\<open>t\<close> is outside the contract of the library.
\<close>

function string_remove_all :: "string \<Rightarrow> string \<Rightarrow> string" where
  "string_remove_all t [] = []"
| "string_remove_all t (c # s) =
     (if t \<noteq> [] \<and> take (length t) (c # s) = t then string_remove_all t (drop (length t) (c # s))
      else c # string_remove_all t s)"
  by pat_completeness auto
termination
  by (relation "measure (length \<circ> snd)") auto

section \<open>State\<close>

abbreviation FILENAME_COUNT :: nat where "FILENAME_COUNT \<equiv> 4"

record file_select =
  fs_api :: bool
  fs_path :: "string option"
  fs_extension :: "string option"
  fs_init_completed :: bool
  fs_callback :: "nat option"
  fs_context :: nat
  fs_buffer :: "string option"
  fs_buffer_size :: u8
  fs_filename :: "string list"
  fs_position :: u8
  fs_first :: u16
  fs_count :: u16

datatype file_select_call = File_Select_Callback nat bool nat

record ('d, 'w) fs_env =
  env_fatfs :: "('d, 'w) fatfs"
  env_thread :: nat
  env_handle :: fs_file
  env_alloc :: bool

text \<open>A step that may fault and may never return.\<close>

definition bindO :: "'a res option \<Rightarrow> ('a \<Rightarrow> 'b res option) \<Rightarrow> 'b res option" where
  "bindO m f = (case m of None \<Rightarrow> None | Some (Inl e) \<Rightarrow> Some (Inl e) | Some (Inr x) \<Rightarrow> f x)"

lemma bindO_simps [simp]:
  "bindO None f = None" "bindO (Some (Inl e)) f = Some (Inl e)" "bindO (Some (Inr x)) f = f x"
  by (simp_all add: bindO_def)

definition file_select_alloc :: file_select where
  "file_select_alloc =
     \<lparr>fs_api = False, fs_path = None, fs_extension = None, fs_init_completed = False,
      fs_callback = None, fs_context = 0, fs_buffer = None, fs_buffer_size = 0,
      fs_filename = replicate FILENAME_COUNT [], fs_position = 0, fs_first = 0, fs_count = 0\<rparr>"

definition file_select_set_api :: "bool \<Rightarrow> file_select \<Rightarrow> file_select" where
  "file_select_set_api api s = s\<lparr>fs_api := api\<rparr>"

definition file_select_set_callback :: "nat option \<Rightarrow> nat \<Rightarrow> file_select \<Rightarrow> file_select" where
  "file_select_set_callback cb ctx s = s\<lparr>fs_context := ctx, fs_callback := cb\<rparr>"

definition file_select_set_filter ::
    "string option \<Rightarrow> string option \<Rightarrow> file_select \<Rightarrow> file_select" where
  "file_select_set_filter path ext s = s\<lparr>fs_path := path, fs_extension := ext\<rparr>"

definition file_select_set_result_buffer :: "string option \<Rightarrow> u8 \<Rightarrow> file_select \<Rightarrow> file_select" where
  "file_select_set_result_buffer buf n s =
     s\<lparr>fs_buffer := map_option (\<lambda>b. strlcpy b [] (unat n)) buf, fs_buffer_size := n\<rparr>"

text \<open>A call of the callback, which some places make without looking at the pointer.\<close>

definition call_back :: "bool \<Rightarrow> file_select \<Rightarrow> file_select_call list res" where
  "call_back b s =
     (case fs_callback s of
        None \<Rightarrow> Inl Null_Pointer
      | Some cb \<Rightarrow> Inr [File_Select_Callback cb b (fs_context s)])"

section \<open>Reading the directory\<close>

definition filter_file :: "string \<Rightarrow> file_info \<Rightarrow> string \<Rightarrow> bool" where
  "filter_file ext info name \<longleftrightarrow>
     fi_flags info AND FSF_DIRECTORY = 0 \<and> (ext = ''*'' \<or> strstr name ext)"

definition strip_extension :: "string \<Rightarrow> string \<Rightarrow> string" where
  "strip_extension ext name = (if ext \<noteq> ''*'' then string_remove_all ext name else name)"

text \<open>
  One iteration of the three loops: read an entry into the buffers. \<open>Stop\<close> is the break, \<open>Entry\<close>
  an entry to look at, \<open>Again\<close> a failed read, after which the loop goes on, \<open>Fail\<close> the branch
  that closes the directory and gives up.
\<close>

datatype reading = Stop | Again | Fail | Entry file_info

definition read_entry ::
    "('d, 'w) fs_env \<Rightarrow> fs_file \<Rightarrow> string \<Rightarrow> ('d, 'w) sd_fs \<Rightarrow>
     reading \<times> fs_file \<times> string \<times> ('d, 'w) sd_fs" where
  "read_entry env f name st =
     (case fs_dir_read (env_fatfs env) (env_thread env) True (Some 100) f st of
        ((result, info, nm), f1, st1) \<Rightarrow>
          (let name1 = (case nm of None \<Rightarrow> name | Some s \<Rightarrow> s)
           in (if error_id f1 = FSE_NOT_EXIST \<or> name1 = [] then Stop
               else if result
                    then if error_id f1 = FSE_OK
                         then (case info of None \<Rightarrow> Fail | Some i \<Rightarrow> Entry i)
                         else Fail
                    else Again,
               f1, name1, st1)))"

partial_function (option) count_loop ::
    "('d, 'w) fs_env \<Rightarrow> string \<Rightarrow> fs_file \<Rightarrow> string \<Rightarrow> u16 \<Rightarrow> ('d, 'w) sd_fs \<Rightarrow>
     (u16 option \<times> fs_file \<times> ('d, 'w) sd_fs) option" where
  "count_loop env ext f name k st =
     (case read_entry env f name st of
        (r, f1, name1, st1) \<Rightarrow>
          (case r of
             Stop \<Rightarrow> Some (Some k, f1, st1)
           | Fail \<Rightarrow> Some (None, f1, st1)
           | Again \<Rightarrow> count_loop env ext f1 name1 k st1
           | Entry i \<Rightarrow>
               count_loop env ext f1 name1 (if filter_file ext i name1 then k + 1 else k) st1))"

text \<open>Opening and closing around the loops; a failed open is closed as well.\<close>

definition close_dir ::
    "('d, 'w) fs_env \<Rightarrow> fs_file \<Rightarrow> ('d, 'w) sd_fs \<Rightarrow> ('d, 'w) sd_fs" where
  "close_dir env f st = snd (snd (fs_dir_close (env_fatfs env) (env_thread env) f st))"

text \<open>The asserts at the start of the functions, and the directory and extension they follow.\<close>

definition filter_set ::
    "bool \<Rightarrow> file_select \<Rightarrow> (string \<Rightarrow> string \<Rightarrow> 'a res option) \<Rightarrow> 'a res option" where
  "filter_set dbg s k =
     (case (fs_path s, fs_extension s) of
        (Some path, Some ext) \<Rightarrow>
          if fs_api s then k path ext else Some (Inl (if dbg then Assert_Failed else Null_Pointer))
      | _ \<Rightarrow> Some (Inl (if dbg then Assert_Failed else Null_Pointer)))"

definition file_select_fill_count ::
    "bool \<Rightarrow> ('d, 'w) fs_env \<Rightarrow> file_select \<Rightarrow> ('d, 'w) sd_fs \<Rightarrow>
     (bool \<times> file_select \<times> ('d, 'w) sd_fs) res option" where
  "file_select_fill_count dbg env s st =
     filter_set dbg s (\<lambda>path ext.
       if \<not> env_alloc env then Some (Inr (False, s, st))
       else
         (case fs_dir_open (env_fatfs env) (env_thread env) path (env_handle env) st of
            (result, f, st1) \<Rightarrow>
              if \<not> result then Some (Inr (False, s, close_dir env f st1))
              else
                map_option (\<lambda>(k, f1, st2).
                  Inr (case k of
                         None \<Rightarrow> (False, s, close_dir env f1 st2)
                       | Some n \<Rightarrow> (True, s\<lparr>fs_count := n\<rparr>, close_dir env f1 st2)))
                  (count_loop env ext f [] 0 st1)))"

partial_function (option) strings_loop ::
    "('d, 'w) fs_env \<Rightarrow> string \<Rightarrow> u16 \<Rightarrow> fs_file \<Rightarrow> string \<Rightarrow> u8 \<Rightarrow> u16 \<Rightarrow> string list \<Rightarrow>
     ('d, 'w) sd_fs \<Rightarrow> (bool \<times> string list \<times> fs_file \<times> ('d, 'w) sd_fs) option" where
  "strings_loop env ext first f name sc fc names st =
     (case read_entry env f name st of
        (r, f1, name1, st1) \<Rightarrow>
          (case r of
             Stop \<Rightarrow> Some (True, names, f1, st1)
           | Fail \<Rightarrow> Some (False, names, f1, st1)
           | Again \<Rightarrow> strings_loop env ext first f1 name1 sc fc names st1
           | Entry i \<Rightarrow>
               if filter_file ext i name1
               then if fc \<ge> first
                    then let names1 = names[unat sc := strip_extension ext name1]
                         in if unat (sc + 1) \<ge> FILENAME_COUNT then Some (True, names1, f1, st1)
                            else strings_loop env ext first f1 name1 (sc + 1) (fc + 1) names1 st1
                    else strings_loop env ext first f1 name1 sc (fc + 1) names st1
               else strings_loop env ext first f1 name1 sc fc names st1))"

definition file_select_fill_strings ::
    "bool \<Rightarrow> ('d, 'w) fs_env \<Rightarrow> file_select \<Rightarrow> ('d, 'w) sd_fs \<Rightarrow>
     (bool \<times> file_select \<times> ('d, 'w) sd_fs) res option" where
  "file_select_fill_strings dbg env s st =
     filter_set dbg s (\<lambda>path ext.
       if \<not> env_alloc env then Some (Inr (False, s, st))
       else
         (case fs_dir_open (env_fatfs env) (env_thread env) path (env_handle env) st of
            (result, f, st1) \<Rightarrow>
              if \<not> result then Some (Inr (False, s, close_dir env f st1))
              else
                map_option (\<lambda>(ok, names, f1, st2).
                  Inr (ok, s\<lparr>fs_filename := names\<rparr>, close_dir env f1 st2))
                  (strings_loop env ext (fs_first s) f [] 0 0 (fs_filename s) st1)))"

definition file_select_init_inner ::
    "bool \<Rightarrow> ('d, 'w) fs_env \<Rightarrow> file_select \<Rightarrow> ('d, 'w) sd_fs \<Rightarrow>
     (bool \<times> file_select \<times> ('d, 'w) sd_fs) res option" where
  "file_select_init_inner dbg env s st =
     (if fs_path s \<noteq> None \<and> fs_extension s \<noteq> None \<and> fs_api s
      then bindO (file_select_fill_count dbg env s st) (\<lambda>(ok, s1, st1).
           if ok
           then bindO (file_select_fill_strings dbg env s1 st1) (\<lambda>(ok1, s2, st2).
                Some (Inr (ok1, if ok1 then s2\<lparr>fs_init_completed := True\<rparr> else s2, st2)))
           else Some (Inr (False, s1, st1)))
      else Some (Inr (False, s, st)))"

definition file_select_init ::
    "bool \<Rightarrow> ('d, 'w) fs_env \<Rightarrow> file_select \<Rightarrow> ('d, 'w) sd_fs \<Rightarrow>
     (bool \<times> file_select_call list \<times> file_select \<times> ('d, 'w) sd_fs) res option" where
  "file_select_init dbg env s st =
     bindO (file_select_init_inner dbg env s st) (\<lambda>(ok, s1, st1).
       if ok then Some (Inr (True, [], s1, st1))
       else Some (bindE (call_back False s1) (\<lambda>cs. Inr (False, cs, s1, st1))))"

section \<open>Input\<close>

text \<open>The arithmetic of the handlers is in \<^verbatim>\<open>int\<close>, cut to the width of the variable it is stored in.\<close>

definition file_select_up :: "file_select \<Rightarrow> file_select" where
  "file_select_up s =
     (if fs_position s = 0 then
        (if fs_first s = 0 then
           (let max_first = word_of_int (uint (fs_count s) - 4) :: u16
            in s\<lparr>fs_position := word_of_int (min 3 (uint (fs_count s) - 1)),
                 fs_first := (if sint max_first < 0 then 0 else max_first)\<rparr>)
         else s\<lparr>fs_first := fs_first s - 1\<rparr>)
      else if fs_position s = 1 then
        (if fs_first s = 0 then s\<lparr>fs_position := fs_position s - 1\<rparr>
         else s\<lparr>fs_first := fs_first s - 1\<rparr>)
      else s\<lparr>fs_position := fs_position s - 1\<rparr>)"

definition max_first_file_index :: "file_select \<Rightarrow> u16" where
  "max_first_file_index s = (if uint (fs_count s) > 4 then fs_count s - 4 else 0)"

definition file_select_down :: "file_select \<Rightarrow> file_select" where
  "file_select_down s =
     (if uint (fs_position s) \<ge> min 3 (uint (fs_count s) - 1) then
        (if fs_first s \<ge> max_first_file_index s then s\<lparr>fs_position := 0, fs_first := 0\<rparr>
         else s\<lparr>fs_first := fs_first s + 1\<rparr>)
      else if uint (fs_position s) \<ge> 2 then
        (if fs_first s \<ge> max_first_file_index s then s\<lparr>fs_position := fs_position s + 1\<rparr>
         else s\<lparr>fs_first := fs_first s + 1\<rparr>)
      else s\<lparr>fs_position := fs_position s + 1\<rparr>)"

text \<open>After a move the window is read again; a failure is reported to the callback.\<close>

definition file_select_refill ::
    "bool \<Rightarrow> ('d, 'w) fs_env \<Rightarrow> file_select \<Rightarrow> ('d, 'w) sd_fs \<Rightarrow>
     (bool \<times> file_select_call list \<times> file_select \<times> ('d, 'w) sd_fs) res option" where
  "file_select_refill dbg env s st =
     bindO (file_select_fill_strings dbg env s st) (\<lambda>(ok, s1, st1).
       if ok then Some (Inr (True, [], s1, st1))
       else Some (bindE (call_back False s1) (\<lambda>cs. Inr (True, cs, s1, st1))))"

definition file_select_ok :: "file_select \<Rightarrow> (file_select_call list \<times> file_select) res" where
  "file_select_ok s =
     (case fs_callback s of
        None \<Rightarrow> Inr ([], s)
      | Some cb \<Rightarrow>
          bindE (case fs_buffer s of
                   None \<Rightarrow> Inr s
                 | Some b \<Rightarrow>
                     bindE (arr_get (fs_filename s) (unat (fs_position s))) (\<lambda>name.
                       Inr (s\<lparr>fs_buffer := Some (strlcpy b name (unat (fs_buffer_size s)))\<rparr>)))
            (\<lambda>s1. bindE (call_back True s1) (\<lambda>cs. Inr (cs, s1))))"

text \<open>The result starts with whether the event was consumed.\<close>

definition file_select_input_callback ::
    "bool \<Rightarrow> ('d, 'w) fs_env \<Rightarrow> input_event \<Rightarrow> file_select \<Rightarrow> ('d, 'w) sd_fs \<Rightarrow>
     (bool \<times> file_select_call list \<times> file_select \<times> ('d, 'w) sd_fs) res option" where
  "file_select_input_callback dbg env e s st =
     (if ev_type e = InputTypeShort then
        (if \<not> fs_init_completed s then
           bindO (file_select_init_inner dbg env s st) (\<lambda>(ok, s1, st1).
             if ok then Some (Inr (False, [], s1, st1))
             else Some (bindE (call_back False s1) (\<lambda>cs. Inr (False, cs, s1, st1))))
         else
           (case ev_key e of
              InputKeyUp \<Rightarrow> file_select_refill dbg env (file_select_up s) st
            | InputKeyDown \<Rightarrow> file_select_refill dbg env (file_select_down s) st
            | InputKeyOk \<Rightarrow> Some (bindE (file_select_ok s) (\<lambda>(cs, s1). Inr (True, cs, s1, st)))
            | _ \<Rightarrow> Some (Inr (False, [], s, st))))
      else Some (Inr (False, [], s, st)))"

section \<open>Selecting a file by name\<close>

partial_function (option) position_loop ::
    "('d, 'w) fs_env \<Rightarrow> string \<Rightarrow> string \<Rightarrow> fs_file \<Rightarrow> string \<Rightarrow> u16 \<Rightarrow> ('d, 'w) sd_fs \<Rightarrow>
     ((u16 \<times> bool) option \<times> fs_file \<times> ('d, 'w) sd_fs) option" where
  "position_loop env ext wanted f name pos st =
     (case read_entry env f name st of
        (r, f1, name1, st1) \<Rightarrow>
          (case r of
             Stop \<Rightarrow> Some (Some (pos, False), f1, st1)
           | Fail \<Rightarrow> Some (None, f1, st1)
           | Again \<Rightarrow> position_loop env ext wanted f1 name1 pos st1
           | Entry i \<Rightarrow>
               if filter_file ext i name1
               then if wanted = name1 then Some (Some (pos, True), f1, st1)
                    else position_loop env ext wanted f1 name1 (pos + 1) st1
               else position_loop env ext wanted f1 name1 pos st1))"

definition file_select_place :: "u16 \<Rightarrow> file_select \<Rightarrow> file_select" where
  "file_select_place pos s =
     (let first = (if pos > 0 then pos - 1 else pos);
          first1 = (if first \<ge> max_first_file_index s then max_first_file_index s else first)
      in s\<lparr>fs_first := first1, fs_position := word_of_int (uint pos - uint first1)\<rparr>)"

definition file_select_set_selected_file_internal ::
    "bool \<Rightarrow> ('d, 'w) fs_env \<Rightarrow> string \<Rightarrow> file_select \<Rightarrow> ('d, 'w) sd_fs \<Rightarrow>
     (file_select \<times> ('d, 'w) sd_fs) res option" where
  "file_select_set_selected_file_internal dbg env filename s st =
     filter_set dbg s (\<lambda>path ext.
       if filename = [] \<or> \<not> env_alloc env then Some (Inr (s, st))
       else
         (case fs_dir_open (env_fatfs env) (env_thread env) path (env_handle env) st of
            (result, f, st1) \<Rightarrow>
              if \<not> result then Some (Inr (s, close_dir env f st1))
              else
                map_option (\<lambda>(k, f1, st2).
                  Inr (case k of
                         Some (pos, True) \<Rightarrow> file_select_place pos s
                       | _ \<Rightarrow> s, close_dir env f1 st2))
                  (position_loop env ext (if ext \<noteq> ''*'' then filename @ ext else filename)
                     f [] 0 st1)))"

definition file_select_set_selected_file ::
    "bool \<Rightarrow> ('d, 'w) fs_env \<Rightarrow> string \<Rightarrow> file_select \<Rightarrow> ('d, 'w) sd_fs \<Rightarrow>
     (file_select_call list \<times> file_select \<times> ('d, 'w) sd_fs) res option" where
  "file_select_set_selected_file dbg env filename s st =
     bindO (file_select_set_selected_file_internal dbg env filename s st) (\<lambda>(s1, st1).
       bindO (file_select_refill dbg env s1 st1) (\<lambda>(_, cs, s2, st2). Some (Inr (cs, s2, st2))))"

section \<open>Drawing\<close>

definition file_select_draw_row ::
    "gfx \<Rightarrow> file_select \<Rightarrow> nat \<Rightarrow> canvas \<Rightarrow> (u8g2_call list \<times> canvas) res" where
  "file_select_draw_row g s k c =
     (let i = of_nat k :: u8; y = i * 16 in
      case draws (if i = fs_position s then
                [canvas_set_color ColorBlack, canvas_draw_box 0 (y + 1) 123 (16 - 2),
                 canvas_set_color ColorWhite, canvas_draw_dot 0 (y + 1),
                 canvas_draw_dot 0 (y + 16 - 2), canvas_draw_dot (123 - 1) (y + 1),
                 canvas_draw_dot (123 - 1) (y + 16 - 2)]
              else [canvas_set_color ColorBlack]) c of
        Inl e \<Rightarrow> Inl e
      | Inr (cs, c1) \<Rightarrow>
          bindE (arr_get (fs_filename s) k) (\<lambda>name.
          bindE (elements_string_fit_width g name 100 c1) (\<lambda>txt.
          bindE (canvas_draw_str 6 (y + 16 - 4) txt c1) (\<lambda>(cs1, c2). Inr (cs @ cs1, c2)))))"

text \<open>Position and number of files are cut to 8 bits by the scrollbar.\<close>

definition file_select_draw_callback ::
    "gfx \<Rightarrow> file_select \<Rightarrow> canvas \<Rightarrow> (u8g2_call list \<times> canvas) res option" where
  "file_select_draw_callback g s c =
     (case draws ([canvas_clear, canvas_set_font FontSecondary] @
              (if fs_count s \<noteq> 0
               then map (file_select_draw_row g s) [0..<min FILENAME_COUNT (unat (fs_count s))]
               else [canvas_draw_str 6 16 ''Empty folder''])) c of
        Inl e \<Rightarrow> Some (Inl e)
      | Inr (cs, c1) \<Rightarrow>
          map_option (\<lambda>r. bindE r (\<lambda>(cs1, c2). Inr (cs @ cs1, c2)))
            (elements_scrollbar (ucast (fs_first s + ucast (fs_position s))) (ucast (fs_count s)) c1))"

section \<open>Directories as FatFs reads them\<close>

text \<open>
  The documented behaviour of \<^verbatim>\<open>f_opendir\<close>, \<^verbatim>\<open>f_readdir\<close> and \<^verbatim>\<open>f_closedir\<close>: in the volume \<open>w\<close> the
  directory holds the entries \<open>ents\<close>, delivered in order; behind the last, an entry with an empty
  name is delivered; closing at any point leaves the volume as it was.
\<close>

definition dir_reads :: "('d, 'w) fatfs \<Rightarrow> 'w \<Rightarrow> string \<Rightarrow> fil_info list \<Rightarrow> (nat \<Rightarrow> 'd) \<Rightarrow> bool" where
  "dir_reads ff w path ents obj \<longleftrightarrow>
     (\<forall>e \<in> set ents. fl_name e \<noteq> []) \<and>
     ff_opendir ff path (ff_zero ff) w = (SD_OK, obj 0, w) \<and>
     (\<forall>i < length ents. ff_readdir ff (obj i) w = (SD_OK, ents ! i, obj (Suc i), w)) \<and>
     (\<exists>e. ff_readdir ff (obj (length ents)) w = (SD_OK, e, obj (Suc (length ents)), w) \<and>
        fl_name e = []) \<and>
     (\<forall>i. snd (snd (ff_closedir ff (obj i) w)) = w)"

text \<open>The card is there, a slot is free, and the volume is \<open>w\<close>.\<close>

definition card_ready :: "'w \<Rightarrow> ('d, 'w) sd_fs \<Rightarrow> bool" where
  "card_ready w st \<longleftrightarrow>
     sd_status st = SD_OK \<and> sd_volume st = w \<and> length (sd_files st) = SD_FS_MAX_FILES \<and>
     free_slot 0 (sd_files st) \<noteq> None"

text \<open>The handle \<open>f\<close> is a directory that thread \<open>t\<close> has open with the object \<open>d\<close>.\<close>

definition dir_open :: "nat \<Rightarrow> fs_file \<Rightarrow> 'd \<Rightarrow> 'w \<Rightarrow> ('d, 'w) sd_fs \<Rightarrow> bool" where
  "dir_open t f d w st \<longleftrightarrow>
     sd_status st = SD_OK \<and> sd_volume st = w \<and> length (sd_files st) = SD_FS_MAX_FILES \<and>
     unat (file_id f) < SD_FS_MAX_FILES \<and>
     sd_files st ! unat (file_id f) = \<lparr>fd_thread = Some t, fd_is_dir = True, fd_data = d\<rparr>"

lemma opendir_opens:
  assumes "card_ready w st" and "ff_opendir ff path (ff_zero ff) w = (SD_OK, d, w)"
  obtains f st1 where "fs_dir_open ff t path h st = (True, f, st1)" and "dir_open t f d w st1"
proof -
  obtain i where i: "free_slot 0 (sd_files st) = Some i"
    using assms(1) by (auto simp: card_ready_def)
  then have "i < SD_FS_MAX_FILES"
    using free_slot_some [OF i] assms(1) by (simp add: card_ready_def)
  then show thesis
    using assms i
    by (intro that)
      (auto simp: fs_dir_open_def open_slot_def card_ready_def dir_open_def unat_of_nat)
qed

lemma dir_slot:
  "dir_open t f d w st \<Longrightarrow> get_dir t (Some f) st = (SD_OK, Some (unat (file_id f)))"
  by (simp add: dir_open_def get_dir_def get_filedata_def Let_def)

lemma close_ready:
  assumes "dir_open t f d w st" and "snd (snd (ff_closedir ff d w)) = w"
    and "env_fatfs env = ff" and "env_thread env = t"
  shows "card_ready w (close_dir env f st)"
proof -
  have "\<exists>i. free_slot 0 ((sd_files st)[unat (file_id f) :=
      \<lparr>fd_thread = None, fd_is_dir = b, fd_data = x\<rparr>]) = Some i" for b x
    unfolding not_None_eq [symmetric] free_slot_none
    using assms(1) by (metis dir_open_def file_data.select_convs(1) set_update_memI)
  with assms show ?thesis
    by (auto simp: close_dir_def fs_dir_close_def close_slot_def dir_slot [OF assms(1)] Let_def
        card_ready_def dir_open_def split: prod.split)
qed

lemma read_next:
  assumes "dir_open t f d w st" and "ff_readdir ff d w = (SD_OK, e, d1, w)"
    and "env_fatfs env = ff" and "env_thread env = t"
  obtains f1 st1 where
    "read_entry env f name st =
       (if fl_name e = [] then Stop else Entry (info_of e), f1, take 99 (fl_name e), st1)"
    and "dir_open t f1 d1 w st1"
proof -
  define st1 where
    "st1 = st\<lparr>sd_files := (sd_files st)[unat (file_id f) :=
       (sd_files st ! unat (file_id f))\<lparr>fd_data := d1\<rparr>], sd_volume := w\<rparr>"
  have "fs_dir_read ff t True (Some 100) f st =
      ((True, Some (info_of e), Some (take 99 (fl_name e))), set_error SD_OK f, st1)"
    using assms
    by (simp add: fs_dir_read_def on_slot_def dir_slot [OF assms(1)] Let_def give_info_def st1_def
        dir_open_def)
  then show thesis
    using assms
    by (intro that [of "set_error SD_OK f" st1])
      (auto simp: read_entry_def Let_def st1_def dir_open_def)
qed

text \<open>The files that pass the filter, by the name the code sees.\<close>

definition passes :: "string \<Rightarrow> fil_info \<Rightarrow> bool" where
  "passes ext e \<longleftrightarrow> filter_file ext (info_of e) (take 99 (fl_name e))"

definition names_of :: "string \<Rightarrow> fil_info list \<Rightarrow> string list" where
  "names_of ext ents = map (\<lambda>e. take 99 (fl_name e)) (filter (passes ext) ents)"

lemma names_of_simps [simp]:
  "names_of ext [] = []"
  "names_of ext (e # es) =
     (if passes ext e then take 99 (fl_name e) # names_of ext es else names_of ext es)"
  by (simp_all add: names_of_def)

text \<open>A loop over a directory as a loop over the list of its entries from number \<open>i\<close> on.\<close>

lemma count_loop_counts:
  assumes "dir_reads ff w path ents obj" and "env_fatfs env = ff" and "env_thread env = t"
    and "dir_open t f (obj i) w st" and "i \<le> length ents"
  shows "\<exists>f1 j st1. count_loop env ext f name k st =
      Some (Some (k + of_nat (length (names_of ext (drop i ents)))), f1, st1) \<and>
    dir_open t f1 (obj j) w st1"
  using assms(4,5)
proof (induction "length ents - i" arbitrary: i f name k st)
  case 0
  then have i: "i = length ents" by simp
  then obtain e where "ff_readdir ff (obj i) w = (SD_OK, e, obj (Suc i), w)" "fl_name e = []"
    using assms(1) by (auto simp: dir_reads_def)
  with read_next [OF 0(2) this(1) assms(2,3), of name] obtain f1 st1 where
    "read_entry env f name st = (Stop, f1, take 99 (fl_name e), st1)"
    and "dir_open t f1 (obj (Suc i)) w st1" by auto
  then show ?case using i by (subst count_loop.simps) (auto intro: exI [of _ "Suc i"])
next
  case (Suc m)
  then have i: "i < length ents" by simp
  then have e: "ff_readdir ff (obj i) w = (SD_OK, ents ! i, obj (Suc i), w)" "fl_name (ents ! i) \<noteq> []"
    using assms(1) by (auto simp: dir_reads_def)
  with read_next [OF Suc(3) this(1) assms(2,3), of name] obtain f1 st1 where
    r: "read_entry env f name st = (Entry (info_of (ents ! i)), f1, take 99 (fl_name (ents ! i)), st1)"
    and o: "dir_open t f1 (obj (Suc i)) w st1" by auto
  from i have d: "drop i ents = ents ! i # drop (Suc i) ents" by (simp add: Cons_nth_drop_Suc)
  have "m = length ents - Suc i" using Suc(2) by simp
  from Suc(1) [OF this o, of "take 99 (fl_name (ents ! i))" "if passes ext (ents ! i) then k + 1 else k"] i
  show ?case
    by (subst count_loop.simps) (auto simp: r d passes_def algebra_simps)
qed

text \<open>The window that \<open>strings_loop\<close> fills, as a loop over the names.\<close>

fun fill_window :: "string \<Rightarrow> nat \<Rightarrow> nat \<Rightarrow> nat \<Rightarrow> string list \<Rightarrow> string list \<Rightarrow> string list" where
  "fill_window ext first fc sc shown [] = shown"
| "fill_window ext first fc sc shown (n # ns) =
     (if first \<le> fc
      then if FILENAME_COUNT \<le> sc + 1 then shown[sc := strip_extension ext n]
           else fill_window ext first (fc + 1) (sc + 1) (shown[sc := strip_extension ext n]) ns
      else fill_window ext first (fc + 1) sc shown ns)"

lemma fill_window_nth:
  assumes "length shown = FILENAME_COUNT" and "sc = fc - first" and "sc < FILENAME_COUNT"
    and "j < FILENAME_COUNT"
  shows "fill_window ext first fc sc shown ns ! j =
    (if j < sc then shown ! j
     else if first + j < fc + length ns then strip_extension ext (ns ! (first + j - fc))
     else shown ! j)"
  using assms
proof (induction ns arbitrary: fc sc shown)
  case Nil
  then show ?case by (auto simp: nth_append)
next
  case (Cons n ns)
  show ?case
  proof (cases "first \<le> fc")
    case True
    show ?thesis
    proof (cases "FILENAME_COUNT \<le> sc + 1")
      case full: True
      then have "sc = 3" using Cons.prems by simp
      with True Cons.prems show ?thesis
        by (auto simp: nth_list_update less_Suc_eq numeral_eq_Suc nth_Cons')
    next
      case False
      have "fill_window ext first (fc + 1) (sc + 1) (shown[sc := strip_extension ext n]) ns ! j =
        (if j < sc + 1 then (shown[sc := strip_extension ext n]) ! j
         else if first + j < fc + 1 + length ns then strip_extension ext (ns ! (first + j - (fc + 1)))
         else (shown[sc := strip_extension ext n]) ! j)"
        using Cons.prems True False by (intro Cons.IH) auto
      with True False Cons.prems show ?thesis
        by (auto simp: nth_list_update nth_Cons')
    qed
  next
    case False
    have "fill_window ext first (fc + 1) sc shown ns ! j =
        (if j < sc then shown ! j
         else if first + j < fc + 1 + length ns then strip_extension ext (ns ! (first + j - (fc + 1)))
         else shown ! j)"
      using Cons.prems False by (intro Cons.IH) auto
    with False Cons.prems show ?thesis by (auto simp: nth_Cons')
  qed
qed

lemma length_fill_window [simp]:
  "length (fill_window ext first fc sc shown ns) = length shown"
  by (induction ns arbitrary: fc sc shown) simp_all

lemma strings_loop_fills:
  assumes "dir_reads ff w path ents obj" and "env_fatfs env = ff" and "env_thread env = t"
    and "dir_open t f (obj i) w st" and "i \<le> length ents"
    and "unat fc + length (names_of ext (drop i ents)) < 2 ^ 16" and "unat sc < FILENAME_COUNT"
  shows "\<exists>f1 j st1. strings_loop env ext first f name sc fc shown st =
      Some (True, fill_window ext (unat first) (unat fc) (unat sc) shown (names_of ext (drop i ents)),
        f1, st1) \<and> dir_open t f1 (obj j) w st1"
  using assms(4-7)
proof (induction "length ents - i" arbitrary: i f name sc fc shown st)
  case 0
  then have i: "i = length ents" by simp
  then obtain e where "ff_readdir ff (obj i) w = (SD_OK, e, obj (Suc i), w)" "fl_name e = []"
    using assms(1) by (auto simp: dir_reads_def)
  with read_next [OF 0(2) this(1) assms(2,3), of name] obtain f1 st1 where
    "read_entry env f name st = (Stop, f1, take 99 (fl_name e), st1)"
    and "dir_open t f1 (obj (Suc i)) w st1" by auto
  then show ?case using i by (subst strings_loop.simps) (auto intro: exI [of _ "Suc i"])
next
  case (Suc m)
  then have i: "i < length ents" by simp
  define n where "n = take 99 (fl_name (ents ! i))"
  have e: "ff_readdir ff (obj i) w = (SD_OK, ents ! i, obj (Suc i), w)" "fl_name (ents ! i) \<noteq> []"
    using assms(1) i by (auto simp: dir_reads_def)
  with read_next [OF Suc(3) this(1) assms(2,3), of name] obtain f1 st1 where
    r: "read_entry env f name st = (Entry (info_of (ents ! i)), f1, n, st1)"
    and o: "dir_open t f1 (obj (Suc i)) w st1" by (auto simp: n_def)
  from i have d: "drop i ents = ents ! i # drop (Suc i) ents" by (simp add: Cons_nth_drop_Suc)
  have m: "m = length ents - Suc i" and i1: "Suc i \<le> length ents" using Suc(2) i by simp_all
  have filt: "filter_file ext (info_of (ents ! i)) n \<longleftrightarrow> passes ext (ents ! i)"
    by (simp add: passes_def n_def)
  have sc1: "unat (sc + 1) = unat sc + 1" using Suc.prems(4) by (intro inc_unat) simp
  show ?case
  proof (cases "passes ext (ents ! i)")
    case True
    have fits: "unat fc + (1 + length (names_of ext (drop (Suc i) ents))) < 2 ^ 16"
      using Suc.prems(3) True by (simp add: d)
    then have fc1: "unat (fc + 1) = unat fc + 1"
      by (subst unat_plus_if_fits) simp_all
    note IH = Suc(1) [OF m o i1, of "fc + 1"]
    show ?thesis
    proof (cases "first \<le> fc")
      case ge: True
      then have nge: "unat first \<le> unat fc" by (simp add: word_le_nat_alt)
      show ?thesis
      proof (cases "FILENAME_COUNT \<le> unat sc + 1")
        case full: True
        then show ?thesis using True ge nge o
          by (subst strings_loop.simps) (auto simp: r filt d Let_def sc1 n_def [symmetric])
      next
        case False
        with IH [of "sc + 1" n "shown[unat sc := strip_extension ext n]"] fits
        show ?thesis using True ge nge
          by (subst strings_loop.simps) (auto simp: r filt d Let_def sc1 fc1 n_def [symmetric])
      qed
    next
      case False
      then have nge: "\<not> unat first \<le> unat fc" by (simp add: word_le_nat_alt)
      with IH [of sc n shown] fits Suc.prems(4) False True
      show ?thesis by (subst strings_loop.simps) (auto simp: r filt d fc1 n_def [symmetric])
    qed
  next
    case False
    with Suc(1) [OF m o i1, of fc sc n shown] Suc.prems(3,4)
    show ?thesis by (subst strings_loop.simps) (auto simp: r filt d n_def [symmetric])
  qed
qed

text \<open>The two readings, as functions of the names.\<close>

lemma filter_set_Some:
  "fs_path s = Some path \<Longrightarrow> fs_extension s = Some ext \<Longrightarrow> fs_api s \<Longrightarrow>
     filter_set dbg s k = k path ext"
  by (simp add: filter_set_def)

lemma fill_count_counts:
  assumes "dir_reads ff w path ents obj" and "env_fatfs env = ff" and "env_alloc env"
    and "fs_path s = Some path" "fs_extension s = Some ext" "fs_api s" and "card_ready w st"
  shows "\<exists>st1. file_select_fill_count dbg env s st =
      Some (Inr (True, s\<lparr>fs_count := of_nat (length (names_of ext ents))\<rparr>, st1)) \<and> card_ready w st1"
proof -
  have op: "ff_opendir ff path (ff_zero ff) w = (SD_OK, obj 0, w)"
    and cl: "\<And>j. snd (snd (ff_closedir ff (obj j) w)) = w"
    using assms(1) by (auto simp: dir_reads_def)
  obtain f st1 where o: "fs_dir_open ff (env_thread env) path (env_handle env) st = (True, f, st1)"
      "dir_open (env_thread env) f (obj 0) w st1"
    using opendir_opens [OF assms(7) op] by blast
  obtain f1 j st2 where c: "count_loop env ext f [] 0 st1 =
      Some (Some (0 + of_nat (length (names_of ext (drop 0 ents)))), f1, st2)"
      "dir_open (env_thread env) f1 (obj j) w st2"
    using count_loop_counts [OF assms(1,2) refl o(2), of ext "[]" 0] by blast
  from c o show ?thesis
    using close_ready [OF c(2) cl assms(2) refl] assms
    by (simp add: file_select_fill_count_def filter_set_Some)
qed

lemma fill_strings_fills:
  assumes "dir_reads ff w path ents obj" and "env_fatfs env = ff" and "env_alloc env"
    and "fs_path s = Some path" "fs_extension s = Some ext" "fs_api s" and "card_ready w st"
    and "length (names_of ext ents) < 2 ^ 16"
  shows "\<exists>st1. file_select_fill_strings dbg env s st =
      Some (Inr (True, s\<lparr>fs_filename :=
        fill_window ext (unat (fs_first s)) 0 0 (fs_filename s) (names_of ext ents)\<rparr>, st1)) \<and>
    card_ready w st1"
proof -
  have op: "ff_opendir ff path (ff_zero ff) w = (SD_OK, obj 0, w)"
    and cl: "\<And>j. snd (snd (ff_closedir ff (obj j) w)) = w"
    using assms(1) by (auto simp: dir_reads_def)
  obtain f st1 where o: "fs_dir_open ff (env_thread env) path (env_handle env) st = (True, f, st1)"
      "dir_open (env_thread env) f (obj 0) w st1"
    using opendir_opens [OF assms(7) op] by blast
  obtain f1 j st2 where c: "strings_loop env ext (fs_first s) f [] 0 0 (fs_filename s) st1 =
      Some (True, fill_window ext (unat (fs_first s)) 0 0 (fs_filename s) (names_of ext ents), f1, st2)"
      "dir_open (env_thread env) f1 (obj j) w st2"
    using strings_loop_fills [OF assms(1,2) refl o(2), of 0 ext 0 "fs_first s" "[]" "fs_filename s"]
      assms(8) by auto
  from c o show ?thesis
    using close_ready [OF c(2) cl assms(2) refl] assms
    by (simp add: file_select_fill_strings_def filter_set_Some)
qed

section \<open>The list as its user sees it\<close>

text \<open>
  The specification: the files that pass the filter, each shown without its extension, and the
  number of the selected one. \<open>shows\<close> relates it to the control: the window has the selected file
  and is filled with the names, and the control is set up to answer.
\<close>

definition shown_names :: "string \<Rightarrow> fil_info list \<Rightarrow> string list" where
  "shown_names ext ents = map (strip_extension ext) (names_of ext ents)"

definition selected :: "file_select \<Rightarrow> nat" where
  "selected s = unat (fs_first s) + unat (fs_position s)"

definition window_ok :: "nat \<Rightarrow> nat \<Rightarrow> nat \<Rightarrow> bool" where
  "window_ok n first pos \<longleftrightarrow>
     pos < FILENAME_COUNT \<and> first + pos < n \<and> (first = 0 \<or> first + FILENAME_COUNT \<le> n)"

definition set_up :: "string \<Rightarrow> string \<Rightarrow> file_select \<Rightarrow> bool" where
  "set_up path ext s \<longleftrightarrow>
     fs_path s = Some path \<and> fs_extension s = Some ext \<and> fs_api s \<and> fs_callback s \<noteq> None \<and>
     length (fs_filename s) = FILENAME_COUNT"

definition shows_window :: "string \<Rightarrow> string \<Rightarrow> string list \<Rightarrow> file_select \<Rightarrow> bool" where
  "shows_window path ext ns s \<longleftrightarrow>
     set_up path ext s \<and>
     unat (fs_count s) = length ns \<and> 0 < length ns \<and> length ns < 2 ^ 15 \<and>
     window_ok (length ns) (unat (fs_first s)) (unat (fs_position s)) \<and>
     (\<forall>j < min FILENAME_COUNT (length ns). fs_filename s ! j = ns ! (unat (fs_first s) + j))"

definition shows_files :: "string \<Rightarrow> string \<Rightarrow> string list \<Rightarrow> file_select \<Rightarrow> bool" where
  "shows_files path ext ns s \<longleftrightarrow> shows_window path ext ns s \<and> fs_init_completed s"

text \<open>What the keys do to the window, in natural numbers.\<close>

lemma signed_small: "k < 2 ^ 15 \<Longrightarrow> sint (word_of_int (int k) :: u16) = int k"
  unfolding signed_of_int by (simp add: signed_take_bit_int_eq_self)

lemma signed_cut:
  assumes "n < 2 ^ 15"
  shows "unat (if sint (word_of_int (int n - 4) :: u16) < 0 then 0
      else word_of_int (int n - 4) :: u16) = n - FILENAME_COUNT"
proof (cases "4 \<le> n")
  case True
  then have k: "int n - 4 = int (n - 4)" by simp
  have "n - 4 < 2 ^ 15" using assms by simp
  from signed_small [OF this] show ?thesis
    unfolding k using assms by (simp add: unat_of_nat)
next
  case False
  then have "n = 0 \<or> n = 1 \<or> n = 2 \<or> n = 3" by arith
  then show ?thesis by (elim disjE) simp_all
qed

lemma up_window:
  fixes s :: file_select
  defines "n \<equiv> unat (fs_count s)" and "f \<equiv> unat (fs_first s)" and "p \<equiv> unat (fs_position s)"
  assumes w: "window_ok n f p" and n: "n < 2 ^ 15"
  shows "unat (fs_first (file_select_up s)) =
      (if p = 0 \<and> f = 0 then n - FILENAME_COUNT else if p \<le> 1 \<and> f > 0 then f - 1 else f)"
    and "unat (fs_position (file_select_up s)) =
      (if p = 0 \<and> f = 0 then min 3 (n - 1) else if p \<le> 1 \<and> f > 0 then p else p - 1)"
proof -
  have n1: "0 < n" using w by (auto simp: window_ok_def)
  have c: "uint (fs_count s) = int n" unfolding n_def by (rule uint_nat)
  have m3: "min 3 (int n - 1) = int (min 3 (n - 1))" using n1 by linarith
  have pos: "unat (word_of_int (min 3 (int n - 1)) :: u8) = min 3 (n - 1)"
    unfolding m3 by (simp add: unat_of_nat)
  note first = signed_cut [OF n]
  have p0: "fs_position s = 0 \<longleftrightarrow> p = 0" "fs_position s = 1 \<longleftrightarrow> p = 1"
    unfolding p_def by (simp_all add: word_unat_eq_iff)
  have f0: "fs_first s = 0 \<longleftrightarrow> f = 0" by (simp add: f_def unat_eq_0)
  have fm: "0 < f \<Longrightarrow> unat (fs_first s - 1) = f - 1"
    unfolding f_def by (intro unat_minus_one) auto
  have pm: "0 < p \<Longrightarrow> unat (fs_position s - 1) = p - 1"
    unfolding p_def by (intro unat_minus_one) auto
  show "unat (fs_first (file_select_up s)) =
      (if p = 0 \<and> f = 0 then n - FILENAME_COUNT else if p \<le> 1 \<and> f > 0 then f - 1 else f)"
    using first fm unfolding file_select_up_def Let_def p0 f0 c
    by (auto simp: f_def [symmetric])
  show "unat (fs_position (file_select_up s)) =
      (if p = 0 \<and> f = 0 then min 3 (n - 1) else if p \<le> 1 \<and> f > 0 then p else p - 1)"
    using pos pm unfolding file_select_up_def Let_def p0 f0 c
    by (auto simp: p_def [symmetric])
qed

lemma down_window:
  fixes s :: file_select
  defines "n \<equiv> unat (fs_count s)" and "f \<equiv> unat (fs_first s)" and "p \<equiv> unat (fs_position s)"
  assumes w: "window_ok n f p" and n: "n < 2 ^ 15"
  shows "unat (fs_first (file_select_down s)) =
      (if min 3 (n - 1) \<le> p then (if n - FILENAME_COUNT \<le> f then 0 else f + 1)
       else if 2 \<le> p then (if n - FILENAME_COUNT \<le> f then f else f + 1) else f)"
    and "unat (fs_position (file_select_down s)) =
      (if min 3 (n - 1) \<le> p then (if n - FILENAME_COUNT \<le> f then 0 else p)
       else if 2 \<le> p then (if n - FILENAME_COUNT \<le> f then p + 1 else p) else p + 1)"
proof -
  have n1: "0 < n" using w by (auto simp: window_ok_def)
  have c: "uint (fs_count s) = int n" unfolding n_def by (rule uint_nat)
  have u: "uint (fs_position s) = int p" unfolding p_def by (rule uint_nat)
  have c1: "int p \<ge> min 3 (int n - 1) \<longleftrightarrow> min 3 (n - 1) \<le> p" using n1 by linarith
  have c2: "int p \<ge> 2 \<longleftrightarrow> 2 \<le> p" by simp
  have "max_first_file_index s = (if 4 < n then fs_count s - 4 else 0)"
    unfolding max_first_file_index_def c by simp
  moreover have "4 < n \<Longrightarrow> unat (fs_count s - 4) = n - 4"
    unfolding n_def by (subst unat_sub_small) simp_all
  ultimately have "unat (max_first_file_index s) = n - FILENAME_COUNT" by simp
  then have c3: "fs_first s \<ge> max_first_file_index s \<longleftrightarrow> n - FILENAME_COUNT \<le> f"
    by (simp add: word_le_nat_alt f_def)
  have fp: "unat (fs_first s + 1) = f + 1"
    using w n by (subst unat_plus_if_fits) (auto simp: window_ok_def f_def)
  have pp: "unat (fs_position s + 1) = p + 1"
    using w by (subst unat_plus_if_fits) (auto simp: window_ok_def p_def)
  show "unat (fs_first (file_select_down s)) =
      (if min 3 (n - 1) \<le> p then (if n - FILENAME_COUNT \<le> f then 0 else f + 1)
       else if 2 \<le> p then (if n - FILENAME_COUNT \<le> f then f else f + 1) else f)"
    using fp unfolding file_select_down_def c u c1 c2 c3 by (simp add: f_def)
  show "unat (fs_position (file_select_down s)) =
      (if min 3 (n - 1) \<le> p then (if n - FILENAME_COUNT \<le> f then 0 else p)
       else if 2 \<le> p then (if n - FILENAME_COUNT \<le> f then p + 1 else p) else p + 1)"
    using pp unfolding file_select_down_def c u c1 c2 c3 by (simp add: p_def)
qed

lemma up_fields:
  "file_select_up s = s\<lparr>fs_position := fs_position (file_select_up s), fs_first := fs_first (file_select_up s)\<rparr>"
  by (simp add: file_select_up_def Let_def)

lemma down_fields:
  "file_select_down s = s\<lparr>fs_position := fs_position (file_select_down s), fs_first := fs_first (file_select_down s)\<rparr>"
  by (simp add: file_select_down_def)

lemma window_prev:
  assumes "window_ok n f p"
  defines "f1 \<equiv> if p = 0 \<and> f = 0 then n - FILENAME_COUNT else if p \<le> 1 \<and> f > 0 then f - 1 else f"
    and "p1 \<equiv> if p = 0 \<and> f = 0 then min 3 (n - 1) else if p \<le> 1 \<and> f > 0 then p else p - 1"
  shows "window_ok n f1 p1" and "f1 + p1 = (if f + p > 0 then f + p - 1 else n - 1)"
  using assms(1) unfolding f1_def p1_def window_ok_def by auto

lemma window_next:
  assumes "window_ok n f p"
  defines "f1 \<equiv> if min 3 (n - 1) \<le> p then (if n - FILENAME_COUNT \<le> f then 0 else f + 1)
       else if 2 \<le> p then (if n - FILENAME_COUNT \<le> f then f else f + 1) else f"
    and "p1 \<equiv> if min 3 (n - 1) \<le> p then (if n - FILENAME_COUNT \<le> f then 0 else p)
       else if 2 \<le> p then (if n - FILENAME_COUNT \<le> f then p + 1 else p) else p + 1"
  shows "window_ok n f1 p1" and "f1 + p1 = (if f + p + 1 < n then f + p + 1 else 0)"
  using assms(1) unfolding f1_def p1_def window_ok_def by (auto simp: min_def split: if_splits)

text \<open>Filling the window makes it show the files.\<close>

lemma refill_shows:
  assumes dir: "dir_reads ff w path ents obj" "env_fatfs env = ff" "env_alloc env" "card_ready w st"
    and up: "set_up path ext s"
    and n: "unat (fs_count s) = length (shown_names ext ents)" "0 < length (shown_names ext ents)"
      "length (shown_names ext ents) < 2 ^ 15"
    and win: "window_ok (length (shown_names ext ents)) (unat (fs_first s)) (unat (fs_position s))"
  shows "\<exists>s1 st1. file_select_fill_strings dbg env s st = Some (Inr (True, s1, st1)) \<and>
    card_ready w st1 \<and> shows_window path ext (shown_names ext ents) s1 \<and> selected s1 = selected s \<and>
    s1 = s\<lparr>fs_filename := fs_filename s1\<rparr>"
proof -
  have len: "length (names_of ext ents) = length (shown_names ext ents)"
    by (simp add: shown_names_def)
  have ctl: "fs_path s = Some path" "fs_extension s = Some ext" "fs_api s"
    "length (fs_filename s) = FILENAME_COUNT"
    using up by (simp_all add: set_up_def)
  define names where "names =
    fill_window ext (unat (fs_first s)) 0 0 (fs_filename s) (names_of ext ents)"
  obtain st1 where st1: "file_select_fill_strings dbg env s st =
      Some (Inr (True, s\<lparr>fs_filename := names\<rparr>, st1))" "card_ready w st1"
    using fill_strings_fills [OF dir(1-3) ctl(1-3) dir(4)] n(3) len unfolding names_def by auto
  have "names ! j = shown_names ext ents ! (unat (fs_first s) + j)"
    if "j < min FILENAME_COUNT (length (shown_names ext ents))" for j
  proof -
    have "unat (fs_first s) + j < length (names_of ext ents)"
      using that win len by (auto simp: window_ok_def)
    then show ?thesis
      using that ctl(4) unfolding names_def
      by (subst fill_window_nth) (simp_all add: shown_names_def)
  qed
  then have "shows_window path ext (shown_names ext ents) (s\<lparr>fs_filename := names\<rparr>)"
    using up n win ctl by (simp add: shows_window_def set_up_def names_def)
  with st1 show ?thesis by (auto simp: selected_def)
qed

text \<open>After the initialisation the list shows the files and selects the first.\<close>

lemma init_shows:
  assumes dir: "dir_reads ff w path ents obj" "env_fatfs env = ff" "env_alloc env" "card_ready w st"
    and up: "set_up path ext s" and start: "fs_first s = 0" "fs_position s = 0"
    and n: "0 < length (shown_names ext ents)" "length (shown_names ext ents) < 2 ^ 15"
  shows "\<exists>s1 st1. file_select_init dbg env s st = Some (Inr (True, [], s1, st1)) \<and>
    card_ready w st1 \<and> shows_files path ext (shown_names ext ents) s1 \<and> selected s1 = 0 \<and>
    fs_buffer_size s1 = fs_buffer_size s \<and> fs_callback s1 = fs_callback s \<and>
    fs_context s1 = fs_context s \<and> fs_buffer s1 = fs_buffer s"
proof -
  have len: "length (names_of ext ents) = length (shown_names ext ents)"
    by (simp add: shown_names_def)
  have ctl: "fs_path s = Some path" "fs_extension s = Some ext" "fs_api s"
    using up by (simp_all add: set_up_def)
  define s0 where "s0 = s\<lparr>fs_count := of_nat (length (names_of ext ents))\<rparr>"
  obtain st1 where c: "file_select_fill_count dbg env s st = Some (Inr (True, s0, st1))"
      "card_ready w st1"
    using fill_count_counts [OF dir(1-3) ctl dir(4)] unfolding s0_def by blast
  have cnt: "unat (fs_count s0) = length (shown_names ext ents)"
    using n len by (simp add: s0_def unat_of_nat)
  obtain s1 st2 where f: "file_select_fill_strings dbg env s0 st1 = Some (Inr (True, s1, st2))"
      "card_ready w st2" "shows_window path ext (shown_names ext ents) s1" "selected s1 = selected s0"
      "s1 = s0\<lparr>fs_filename := fs_filename s1\<rparr>"
    using refill_shows [OF dir(1-3) c(2), of ext s0 dbg] up n cnt start
    by (auto simp: s0_def set_up_def window_ok_def)
  have keep: "fs_buffer_size s1 = fs_buffer_size s \<and> fs_callback s1 = fs_callback s \<and>
    fs_context s1 = fs_context s \<and> fs_buffer s1 = fs_buffer s"
    by (subst (1 2 3 4) f(5)) (simp add: s0_def)
  have "file_select_init_inner dbg env s st =
      Some (Inr (True, s1\<lparr>fs_init_completed := True\<rparr>, st2))"
    using c f(1) ctl by (simp add: file_select_init_inner_def)
  moreover have "shows_files path ext (shown_names ext ents) (s1\<lparr>fs_init_completed := True\<rparr>)"
    using f(3) by (simp add: shows_files_def shows_window_def set_up_def)
  ultimately show ?thesis
    using f(2,4) start keep by (auto simp: file_select_init_def selected_def s0_def)
qed

text \<open>One key. The specification of the list is \<open>ring_step\<close> of the submenu.\<close>

definition ok_result :: "file_select \<Rightarrow> string \<Rightarrow> string option" where
  "ok_result s name = map_option (\<lambda>b. strlcpy b name (unat (fs_buffer_size s))) (fs_buffer s)"

definition ok_key :: "input_event \<Rightarrow> bool" where
  "ok_key e \<longleftrightarrow> ev_type e = InputTypeShort \<and> ev_key e = InputKeyOk"

lemma key_refines:
  assumes dir: "dir_reads ff w path ents obj" "env_fatfs env = ff" "env_alloc env" "card_ready w st"
    and sh: "shows_files path ext (shown_names ext ents) s"
  defines "ns \<equiv> shown_names ext ents"
  shows "\<exists>c s1 st1. file_select_input_callback dbg env e s st =
      Some (Inr (c, if ok_key e then [File_Select_Callback (the (fs_callback s)) True (fs_context s)] else [],
        s1, st1)) \<and>
    card_ready w st1 \<and> shows_files path ext ns s1 \<and>
    selected s1 = ring_step (length ns) e (selected s) \<and>
    fs_buffer s1 = (if ok_key e then ok_result s (ns ! selected s) else fs_buffer s) \<and>
    fs_buffer_size s1 = fs_buffer_size s \<and> fs_callback s1 = fs_callback s \<and>
    fs_context s1 = fs_context s"
proof -
  have w: "window_ok (length ns) (unat (fs_first s)) (unat (fs_position s))"
    and n: "unat (fs_count s) = length ns" "0 < length ns" "length ns < 2 ^ 15"
    and up: "set_up path ext s" and init: "fs_init_completed s"
    using sh by (simp_all add: shows_files_def shows_window_def ns_def)
  have sel: "selected s < length ns" using w by (simp add: window_ok_def selected_def)
  have move: "\<exists>s1 st1. file_select_refill dbg env t st = Some (Inr (True, [], s1, st1)) \<and>
      card_ready w st1 \<and> shows_files path ext ns s1 \<and> selected s1 = selected t \<and>
      fs_buffer s1 = fs_buffer s \<and> fs_buffer_size s1 = fs_buffer_size s \<and>
      fs_callback s1 = fs_callback s \<and> fs_context s1 = fs_context s"
    if t: "t = s\<lparr>fs_position := fs_position t, fs_first := fs_first t\<rparr>"
      and wt: "window_ok (length ns) (unat (fs_first t)) (unat (fs_position t))" for t
  proof -
    have same: "set_up path ext t" "unat (fs_count t) = length ns" "fs_init_completed t"
      using up n(1) init by (subst t; simp add: set_up_def)+
    obtain s1 st1 where f: "file_select_fill_strings dbg env t st = Some (Inr (True, s1, st1))"
      "card_ready w st1" "shows_window path ext ns s1" "selected s1 = selected t"
      "s1 = t\<lparr>fs_filename := fs_filename s1\<rparr>"
      using refill_shows [OF dir same(1), of dbg] same(2) n wt unfolding ns_def by blast
    have "fs_init_completed s1 \<and> fs_buffer s1 = fs_buffer s \<and> fs_buffer_size s1 = fs_buffer_size s \<and>
      fs_callback s1 = fs_callback s \<and> fs_context s1 = fs_context s"
      using init by (subst (1 2 3 4 5) f(5), subst (1 2 3 4 5) t, simp)
    with f show ?thesis by (auto simp: file_select_refill_def shows_files_def)
  qed
  note up_w = up_window [of s, unfolded n, OF w n(3)] and down_w = down_window [of s, unfolded n, OF w n(3)]
  have up_ok: "window_ok (length ns) (unat (fs_first (file_select_up s)))
      (unat (fs_position (file_select_up s)))"
    "selected (file_select_up s) = (selected s + length ns - 1) mod length ns"
    unfolding selected_def up_w using window_prev [OF w] ring_prev [OF sel, unfolded selected_def]
    by simp_all
  have down_ok: "window_ok (length ns) (unat (fs_first (file_select_down s)))
      (unat (fs_position (file_select_down s)))"
    "selected (file_select_down s) = (selected s + 1) mod length ns"
    unfolding selected_def down_w using window_next [OF w] ring_next [OF sel, unfolded selected_def]
    by simp_all
  have chosen: "arr_get (fs_filename s) (unat (fs_position s)) = Inr (ns ! selected s)"
    using sh w unfolding shows_files_def shows_window_def set_up_def ns_def [symmetric]
    by (simp add: window_ok_def selected_def)
  obtain cb where cb: "fs_callback s = Some cb" using up by (auto simp: set_up_def)
  show ?thesis
  proof (cases "ev_type e = InputTypeShort")
    case True
    show ?thesis
    proof (cases "ev_key e")
      case InputKeyUp
      with True init move [OF up_fields up_ok(1)] up_ok(2) show ?thesis
        by (auto simp: file_select_input_callback_def ok_key_def ring_step_def)
    next
      case InputKeyDown
      with True init move [OF down_fields down_ok(1)] down_ok(2) show ?thesis
        by (auto simp: file_select_input_callback_def ok_key_def ring_step_def)
    next
      case InputKeyOk
      have sh1: "shows_files path ext ns (s\<lparr>fs_buffer := b\<rparr>)" "selected (s\<lparr>fs_buffer := b\<rparr>) = selected s" for b
        using sh by (simp_all add: shows_files_def shows_window_def set_up_def ns_def selected_def)
      show ?thesis
        using True init InputKeyOk cb chosen sh sh1 dir(4)
        by (cases "fs_buffer s")
          (auto simp: file_select_input_callback_def file_select_ok_def call_back_def ok_key_def
            ring_step_def ok_result_def ns_def)
    qed (use True init sh dir(4) in \<open>auto simp: file_select_input_callback_def ok_key_def ring_step_def
        ns_def\<close>)
  next
    case False
    with sh dir(4) show ?thesis
      by (auto simp: file_select_input_callback_def ok_key_def ring_step_def ns_def)
  qed
qed

section \<open>A whole session\<close>

fun file_select_keys ::
    "bool \<Rightarrow> ('d, 'w) fs_env \<Rightarrow> input_event list \<Rightarrow> file_select \<Rightarrow> ('d, 'w) sd_fs \<Rightarrow>
     (file_select_call list list \<times> file_select \<times> ('d, 'w) sd_fs) res option" where
  "file_select_keys dbg env [] s st = Some (Inr ([], s, st))"
| "file_select_keys dbg env (e # es) s st =
     bindO (file_select_input_callback dbg env e s st) (\<lambda>(_, cs, s1, st1).
     bindO (file_select_keys dbg env es s1 st1) (\<lambda>(css, s2, st2). Some (Inr (cs # css, s2, st2))))"

definition file_select_session ::
    "bool \<Rightarrow> ('d, 'w) fs_env \<Rightarrow> input_event list \<Rightarrow> file_select \<Rightarrow> ('d, 'w) sd_fs \<Rightarrow>
     (file_select_call list list \<times> file_select \<times> ('d, 'w) sd_fs) res option" where
  "file_select_session dbg env es s st =
     bindO (file_select_init dbg env s st) (\<lambda>(_, _, s1, st1). file_select_keys dbg env es s1 st1)"

fun ring_run :: "nat \<Rightarrow> input_event list \<Rightarrow> nat \<Rightarrow> nat" where
  "ring_run n [] p = p"
| "ring_run n (e # es) p = ring_run n es (ring_step n e p)"

lemma ring_run_append: "ring_run n (es @ fs) p = ring_run n fs (ring_run n es p)"
  by (induction es arbitrary: p) simp_all

definition ok_call :: "file_select \<Rightarrow> input_event \<Rightarrow> file_select_call list" where
  "ok_call s e =
     (if ok_key e then [File_Select_Callback (the (fs_callback s)) True (fs_context s)] else [])"

definition same_client :: "file_select \<Rightarrow> file_select \<Rightarrow> bool" where
  "same_client s s1 \<longleftrightarrow> fs_buffer_size s1 = fs_buffer_size s \<and> fs_callback s1 = fs_callback s \<and>
     fs_context s1 = fs_context s"

text \<open>What the buffer of the client holds: the name at the last Ok.\<close>

fun buffer_after :: "string list \<Rightarrow> nat \<Rightarrow> input_event list \<Rightarrow> nat \<Rightarrow> string option \<Rightarrow> string option" where
  "buffer_after ns room [] p b = b"
| "buffer_after ns room (e # es) p b =
     buffer_after ns room es (ring_step (length ns) e p)
       (if ok_key e then map_option (\<lambda>b. strlcpy b (ns ! p) room) b else b)"

lemma keys_refine:
  assumes dir: "dir_reads ff w path ents obj" "env_fatfs env = ff" "env_alloc env"
    and "card_ready w st" and "shows_files path ext (shown_names ext ents) s"
  shows "\<exists>s1 st1. file_select_keys dbg env es s st = Some (Inr (map (ok_call s) es, s1, st1)) \<and>
    card_ready w st1 \<and> shows_files path ext (shown_names ext ents) s1 \<and>
    selected s1 = ring_run (length (shown_names ext ents)) es (selected s) \<and>
    fs_buffer s1 = buffer_after (shown_names ext ents) (unat (fs_buffer_size s)) es (selected s)
      (fs_buffer s)"
  using assms(4,5)
proof (induction es arbitrary: s st)
  case Nil
  then show ?case by simp
next
  case (Cons e es)
  obtain c s1 st1 where key: "file_select_input_callback dbg env e s st =
      Some (Inr (c, ok_call s e, s1, st1))" "card_ready w st1"
      "shows_files path ext (shown_names ext ents) s1"
      "selected s1 = ring_step (length (shown_names ext ents)) e (selected s)"
      "fs_buffer s1 = (if ok_key e then ok_result s (shown_names ext ents ! selected s) else fs_buffer s)"
      "same_client s s1"
    using key_refines [OF dir Cons.prems, of dbg e] unfolding ok_call_def same_client_def by blast
  have "ok_call s1 = ok_call s"
    using key(6) by (auto simp: ok_call_def same_client_def)
  with Cons.IH [OF key(2,3)] key show ?case
    by (auto simp: ok_result_def same_client_def)
qed

text \<open>
  C22. The file list is a ring over the files of the directory, if at least one file passes the
  filter (and fewer than 2^15 do), and FatFs lists the directory without an error while the card
  stays in: from the first initialisation on, with the API, the path, the filter and a callback set and
  a slot of the file system free, every key is answered and ends; Up and Down move the selection around the ring of the files that
  pass the filter; each Ok calls the client, and the buffer of the client then holds the name of the
  selected file, cut to its room, without the extension. A directory with no such file is excluded:
  there Up and then Ok read outside the names, as the lemma on the empty folder below shows.
\<close>

theorem file_select_refines_ring:
  assumes "dir_reads (env_fatfs env) w path ents obj" and "env_alloc env" and "card_ready w st"
    and "set_up path ext s" and "fs_first s = 0" and "fs_position s = 0"
    and "0 < length (shown_names ext ents)" and "length (shown_names ext ents) < 2 ^ 15"
  shows "\<exists>s1 st1. file_select_session dbg env es s st = Some (Inr (map (ok_call s) es, s1, st1)) \<and>
    card_ready w st1 \<and> selected s1 = ring_run (length (shown_names ext ents)) es 0 \<and>
    fs_buffer s1 = buffer_after (shown_names ext ents) (unat (fs_buffer_size s)) es 0 (fs_buffer s)"
proof -
  obtain s1 st1 where i: "file_select_init dbg env s st = Some (Inr (True, [], s1, st1))"
      "card_ready w st1" "shows_files path ext (shown_names ext ents) s1" "selected s1 = 0"
      "same_client s s1" "fs_buffer s1 = fs_buffer s"
    using init_shows [OF assms(1) refl assms(2-8), of dbg] unfolding same_client_def by blast
  have "ok_call s1 = ok_call s"
    using i(5) by (auto simp: ok_call_def same_client_def)
  with keys_refine [OF assms(1) refl assms(2) i(2,3), of dbg es] i show ?thesis
    by (auto simp: file_select_session_def same_client_def)
qed

lemma stuck_read:
  assumes "sd_status st \<noteq> SD_OK" and "name \<noteq> []"
  obtains f1 where "read_entry env f name st = (Again, f1, name, st)"
  using assms
  by (auto simp: read_entry_def fs_dir_read_def get_dir_def get_filedata_def on_slot_def)

lemma count_loop_stuck:
  "count_loop env ext f name k st = Some r \<Longrightarrow> sd_status st \<noteq> SD_OK \<longrightarrow> name = []"
proof (erule count_loop.raw_induct [rotated], intro impI, rule ccontr, goal_cases)
  case (1 lp env ext f name k st r)
  from 1(3,4) obtain f1 where "read_entry env f name st = (Again, f1, name, st)" by (rule stuck_read)
  with 1 show ?case by auto
qed

lemma strings_loop_stuck:
  "strings_loop env ext first f name sc fc shown st = Some r \<Longrightarrow> sd_status st \<noteq> SD_OK \<longrightarrow> name = []"
proof (erule strings_loop.raw_induct [rotated], intro impI, rule ccontr, goal_cases)
  case (1 lp env ext first f name sc fc shown st r)
  from 1(3,4) obtain f1 where "read_entry env f name st = (Again, f1, name, st)" by (rule stuck_read)
  with 1 show ?case by auto
qed

lemma position_loop_stuck:
  "position_loop env ext wanted f name pos st = Some r \<Longrightarrow> sd_status st \<noteq> SD_OK \<longrightarrow> name = []"
proof (erule position_loop.raw_induct [rotated], intro impI, rule ccontr, goal_cases)
  case (1 lp env ext wanted f name pos st r)
  from 1(3,4) obtain f1 where "read_entry env f name st = (Again, f1, name, st)" by (rule stuck_read)
  with 1 show ?case by auto
qed

text \<open>
  Without the card the loops do not end: a read that fails with anything but \<^verbatim>\<open>FSE_NOT_EXIST\<close>
  is simply repeated. When the card is taken out while a directory is being read (some entry has
  been read, so the name is not empty), none of the three loops ever returns.
\<close>

theorem file_select_never_returns:
  assumes "sd_status st \<noteq> SD_OK" and "name \<noteq> []"
  shows "count_loop env ext f name k st = None \<and>
    strings_loop env ext first f name sc fc shown st = None \<and>
    position_loop env ext wanted f name pos st = None"
  using count_loop_stuck [of env ext f name k st] strings_loop_stuck [of env ext first f name sc fc shown st]
    position_loop_stuck [of env ext wanted f name pos st] assms by (metis not_Some_eq)

text \<open>In an empty folder Up puts the selection on row 255, and Ok then reads outside the names.\<close>

lemma file_select_empty_up_ok:
  assumes "fs_count s = 0" and "fs_first s = 0" and "fs_position s = 0"
    and "fs_callback s = Some cb" and "fs_buffer s = Some b" and "length (fs_filename s) = FILENAME_COUNT"
  shows "fs_position (file_select_up s) = 255" and "file_select_ok (file_select_up s) = Inl Out_Of_Bounds"
proof -
  show p: "fs_position (file_select_up s) = 255" using assms by (simp add: file_select_up_def Let_def)
  have "fs_callback (file_select_up s) = Some cb" "fs_buffer (file_select_up s) = Some b"
    "length (fs_filename (file_select_up s)) = FILENAME_COUNT"
    using assms by (simp_all add: file_select_up_def Let_def)
  with p show "file_select_ok (file_select_up s) = Inl Out_Of_Bounds"
    by (simp add: file_select_ok_def)
qed

section \<open>Selecting by name\<close>

lemma position_loop_finds:
  fixes ext :: string
  assumes "dir_reads ff w path ents obj" and "env_fatfs env = ff" and "env_thread env = t"
    and "dir_open t f (obj i) w st" and "i \<le> length ents"
  defines "ns \<equiv> \<lambda>i. names_of ext (drop i ents)"
  shows "\<exists>f1 j st1. position_loop env ext wanted f name pos st =
      Some (Some (pos + of_nat (length (takeWhile (\<lambda>n. n \<noteq> wanted) (ns i))), wanted \<in> set (ns i)), f1, st1) \<and>
    dir_open t f1 (obj j) w st1"
  using assms(4,5)
proof (induction "length ents - i" arbitrary: i f name pos st)
  case 0
  then have i: "i = length ents" by simp
  then obtain e where "ff_readdir ff (obj i) w = (SD_OK, e, obj (Suc i), w)" "fl_name e = []"
    using assms(1) by (auto simp: dir_reads_def)
  with read_next [OF 0(2) this(1) assms(2,3), of name] obtain f1 st1 where
    "read_entry env f name st = (Stop, f1, take 99 (fl_name e), st1)"
    and "dir_open t f1 (obj (Suc i)) w st1" by auto
  then show ?case using i by (subst position_loop.simps) (auto simp: ns_def intro: exI [of _ "Suc i"])
next
  case (Suc m)
  then have i: "i < length ents" by simp
  define n where "n = take 99 (fl_name (ents ! i))"
  have e: "ff_readdir ff (obj i) w = (SD_OK, ents ! i, obj (Suc i), w)" "fl_name (ents ! i) \<noteq> []"
    using assms(1) i by (auto simp: dir_reads_def)
  with read_next [OF Suc(3) this(1) assms(2,3), of name] obtain f1 st1 where
    r: "read_entry env f name st = (Entry (info_of (ents ! i)), f1, n, st1)"
    and o: "dir_open t f1 (obj (Suc i)) w st1" by (auto simp: n_def)
  from i have d: "drop i ents = ents ! i # drop (Suc i) ents" by (simp add: Cons_nth_drop_Suc)
  have m: "m = length ents - Suc i" and i1: "Suc i \<le> length ents" using Suc(2) i by simp_all
  have filt: "filter_file ext (info_of (ents ! i)) n \<longleftrightarrow> passes ext (ents ! i)"
    by (simp add: passes_def n_def)
  have ns: "ns i = (if passes ext (ents ! i) then n # ns (Suc i) else ns (Suc i))"
    by (simp add: ns_def d n_def)
  show ?case
  proof (cases "passes ext (ents ! i) \<and> wanted = n")
    case True
    then show ?thesis using o by (subst position_loop.simps) (auto simp: r filt ns)
  next
    case False
    with Suc(1) [OF m o i1, of n "if passes ext (ents ! i) then pos + 1 else pos"]
    show ?thesis by (subst position_loop.simps) (auto simp: r filt ns algebra_simps)
  qed
qed

lemma takeWhile_stops: "x \<in> set xs \<Longrightarrow> length (takeWhile (\<lambda>n. n \<noteq> x) xs) < length xs"
  by (induction xs) auto

lemma place_window:
  assumes "unat pos = k" and "unat (fs_count s) = n" and "k < n" and "n < 2 ^ 15"
  shows "window_ok n (unat (fs_first (file_select_place pos s))) (unat (fs_position (file_select_place pos s)))"
    and "selected (file_select_place pos s) = k"
proof -
  define first where "first = (if pos > 0 then pos - 1 else pos)"
  define first1 where "first1 = (if first \<ge> max_first_file_index s then max_first_file_index s else first)"
  have f: "unat first = k - 1"
    using assms(1) unfolding first_def by (auto simp: word_gt_0 unat_minus_one)
  have "uint (fs_count s) = int n" using assms(2) uint_nat [of "fs_count s"] by simp
  then have "max_first_file_index s = (if 4 < n then fs_count s - 4 else 0)"
    unfolding max_first_file_index_def by simp
  moreover have "4 < n \<Longrightarrow> unat (fs_count s - 4) = n - 4"
    using assms(2) by (subst unat_sub_small) simp_all
  ultimately have mx: "unat (max_first_file_index s) = n - 4" by simp
  have f1: "unat first1 = min (k - 1) (n - 4)"
    using f mx unfolding first1_def by (auto simp: word_le_nat_alt)
  define q where "q = k - min (k - 1) (n - 4)"
  have "q < 4" using assms(3) unfolding q_def by (simp add: min_def) arith
  then have "unat (word_of_int (int q) :: u8) = q" by (simp add: unat_of_nat)
  moreover have "uint pos - uint first1 = int q"
    using assms(1) f1 uint_nat [of pos] uint_nat [of first1] unfolding q_def by linarith
  ultimately have p: "unat (word_of_int (uint pos - uint first1) :: u8) = k - min (k - 1) (n - 4)"
    by (simp only: q_def)
  have pl: "unat (fs_first (file_select_place pos s)) = min (k - 1) (n - 4)"
    "unat (fs_position (file_select_place pos s)) = k - min (k - 1) (n - 4)"
    using f1 p unfolding file_select_place_def Let_def first_def [symmetric] first1_def [symmetric]
    by simp_all
  show "window_ok n (unat (fs_first (file_select_place pos s))) (unat (fs_position (file_select_place pos s)))"
    unfolding pl window_ok_def using assms(3) by (auto simp: min_def)
  show "selected (file_select_place pos s) = k"
    unfolding selected_def pl using assms(3) by (auto simp: min_def)
qed

text \<open>
  A file is selected by its name: if the directory has the file, the extension included, the
  list then selects it and its window shows it; if not, the selection does not move. Neither
  call reaches the client.
\<close>

theorem file_select_selects_named:
  assumes "dir_reads (env_fatfs env) w path ents obj" and "env_alloc env" and "card_ready w st"
    and "shows_files path ext (shown_names ext ents) s" and "filename \<noteq> []"
  defines "wanted \<equiv> if ext \<noteq> ''*'' then filename @ ext else filename"
  shows "\<exists>s1 st1. file_select_set_selected_file dbg env filename s st = Some (Inr ([], s1, st1)) \<and>
    card_ready w st1 \<and> shows_files path ext (shown_names ext ents) s1 \<and>
    selected s1 =
      (if wanted \<in> set (names_of ext ents)
       then length (takeWhile (\<lambda>n. n \<noteq> wanted) (names_of ext ents)) else selected s)"
proof -
  define ns where "ns = names_of ext ents"
  define k where "k = length (takeWhile (\<lambda>n. n \<noteq> wanted) ns)"
  define pos :: u16 where "pos = of_nat k"
  define s0 where "s0 = (if wanted \<in> set ns then file_select_place pos s else s)"
  have len: "length (shown_names ext ents) = length ns" by (simp add: shown_names_def ns_def)
  have ctl: "fs_path s = Some path" "fs_extension s = Some ext" "fs_api s" "fs_init_completed s"
    and cnt: "unat (fs_count s) = length ns" "length ns < 2 ^ 15" "0 < length ns"
    and win: "window_ok (length ns) (unat (fs_first s)) (unat (fs_position s))"
    and up: "set_up path ext s"
    using assms(4) len by (simp_all add: shows_files_def shows_window_def set_up_def)
  have kl: "k \<le> length ns" unfolding k_def by (rule length_takeWhile_le)
  then have pos: "unat pos = k" using cnt(2) by (simp add: pos_def unat_of_nat)
  have kn: "wanted \<in> set ns \<Longrightarrow> k < length ns"
    unfolding k_def by (rule takeWhile_stops)
  have op: "ff_opendir (env_fatfs env) path (ff_zero (env_fatfs env)) w = (SD_OK, obj 0, w)"
    and cl: "\<And>j. snd (snd (ff_closedir (env_fatfs env) (obj j) w)) = w"
    using assms(1) by (auto simp: dir_reads_def)
  obtain f st1 where o: "fs_dir_open (env_fatfs env) (env_thread env) path (env_handle env) st = (True, f, st1)"
      "dir_open (env_thread env) f (obj 0) w st1"
    using opendir_opens [OF assms(3) op] by blast
  obtain f1 j st2 where c: "position_loop env ext wanted f [] 0 st1 =
      Some (Some (pos, wanted \<in> set ns), f1, st2)" "dir_open (env_thread env) f1 (obj j) w st2"
    using position_loop_finds [OF assms(1) refl refl o(2), of ext wanted "[]" 0]
    unfolding pos_def k_def ns_def by auto
  have inner: "file_select_set_selected_file_internal dbg env filename s st =
      Some (Inr (s0, close_dir env f1 st2))"
    using o c(1) ctl assms(2,5)
    by (auto simp: file_select_set_selected_file_internal_def filter_set_Some wanted_def s0_def)
  have rd: "card_ready w (close_dir env f1 st2)" by (rule close_ready [OF c(2) cl refl refl])
  have s0: "set_up path ext s0" "unat (fs_count s0) = length ns" "fs_init_completed s0"
    "window_ok (length ns) (unat (fs_first s0)) (unat (fs_position s0))"
    "selected s0 = (if wanted \<in> set ns then k else selected s)"
    using up ctl cnt win place_window [OF pos cnt(1) kn cnt(2)]
    by (auto simp: s0_def file_select_place_def Let_def set_up_def)
  obtain s1 st3 where r: "file_select_fill_strings dbg env s0 (close_dir env f1 st2) = Some (Inr (True, s1, st3))"
    "card_ready w st3" "shows_window path ext (shown_names ext ents) s1" "selected s1 = selected s0"
    "s1 = s0\<lparr>fs_filename := fs_filename s1\<rparr>"
    using refill_shows [OF assms(1) refl assms(2) rd s0(1)] s0 cnt len by metis
  have "fs_init_completed s1" using s0(3) by (subst r(5)) simp
  with r s0(5) inner show ?thesis
    by (auto simp: file_select_set_selected_file_def file_select_refill_def shows_files_def k_def ns_def)
qed

section \<open>Examples\<close>

definition file_entry :: "string \<Rightarrow> fil_info" where
  "file_entry n = \<lparr>fl_size = 0, fl_date = 0, fl_time = 0, fl_attrib = 0, fl_name = n\<rparr>"

text \<open>A directory of two files; the object counts the entries that have been read.\<close>

definition two_files :: "(u8 list, unit) fatfs" where
  "two_files = three_bytes\<lparr>ff_opendir := (\<lambda>_ _ w. (SD_OK, [], w)),
     ff_readdir := (\<lambda>d w. (SD_OK, file_entry
       (if length d = 0 then ''a.x'' else if length d = 1 then ''b.x'' else []), 0 # d, w))\<rparr>"

definition two_files_env :: "(u8 list, unit) fs_env" where
  "two_files_env = \<lparr>env_fatfs = two_files, env_thread = 1, env_handle = a_handle, env_alloc = True\<rparr>"

definition a_list :: file_select where
  "a_list =
     file_select_set_result_buffer (Some ''?'') 10
      (file_select_set_callback (Some 5) 9
        (file_select_set_filter (Some ''dir'') (Some ''.x'') (file_select_set_api True file_select_alloc)))"

lemma two_files_reads:
  "dir_reads two_files () ''dir'' [file_entry ''a.x'', file_entry ''b.x''] (\<lambda>i. replicate i 0)"
  by (auto simp: dir_reads_def two_files_def three_bytes_def file_entry_def less_Suc_eq numeral_2_eq_2)

lemma two_files_names: "shown_names ''.x'' [file_entry ''a.x'', file_entry ''b.x''] = [''a'', ''b'']"
  by (simp add: shown_names_def names_of_def passes_def filter_file_def info_of_def file_entry_def
      file_flags_def flag_def strstr.simps strip_extension_def)

lemma file_select_refines_ring_witness:
  "\<exists>s1 st1. file_select_session True two_files_env
      [\<lparr>ev_key = InputKeyDown, ev_type = InputTypeShort\<rparr>, \<lparr>ev_key = InputKeyOk, ev_type = InputTypeShort\<rparr>]
      a_list card_in = Some (Inr ([[], [File_Select_Callback 5 True 9]], s1, st1)) \<and>
    fs_buffer s1 = Some ''b''"
proof -
  have dir: "dir_reads (env_fatfs two_files_env) () ''dir'' [file_entry ''a.x'', file_entry ''b.x'']
      (\<lambda>i. replicate i 0)"
    using two_files_reads by (simp add: two_files_env_def)
  have alloc: "env_alloc two_files_env" by (simp add: two_files_env_def)
  have card: "card_ready () card_in"
    by (simp add: card_ready_def card_in_def fs_init_def numeral_2_eq_2)
  have up: "set_up ''dir'' ''.x'' a_list" "fs_first a_list = 0" "fs_position a_list = 0"
    by (simp_all add: a_list_def set_up_def file_select_set_result_buffer_def
        file_select_set_callback_def file_select_set_filter_def file_select_set_api_def
        file_select_alloc_def)
  have "fs_buffer a_list = Some []" "fs_buffer_size a_list = 10" "fs_callback a_list = Some 5"
    "fs_context a_list = 9"
    by (simp_all add: a_list_def file_select_set_result_buffer_def strlcpy_def
        file_select_set_callback_def file_select_set_filter_def file_select_set_api_def)
  then show ?thesis
    using file_select_refines_ring [OF dir alloc card up, of True
        "[\<lparr>ev_key = InputKeyDown, ev_type = InputTypeShort\<rparr>, \<lparr>ev_key = InputKeyOk, ev_type = InputTypeShort\<rparr>]"]
    by (auto simp: two_files_names ok_call_def ok_key_def ring_step_def strlcpy_def)
qed

lemma file_select_never_returns_witness:
  "count_loop two_files_env ''.x'' a_handle ''a.x'' 1 (fs_init two_files ()) = None"
proof -
  have "sd_status (fs_init two_files ()) \<noteq> SD_OK" by (simp add: fs_init_def)
  then show ?thesis using file_select_never_returns [of "fs_init two_files ()" "''a.x''"] by simp
qed

lemma file_select_selects_named_witness:
  "\<exists>s st s1 st1. file_select_init True two_files_env a_list card_in = Some (Inr (True, [], s, st)) \<and>
    file_select_set_selected_file True two_files_env ''b'' s st = Some (Inr ([], s1, st1)) \<and>
    selected s1 = 1"
proof -
  have dir: "dir_reads (env_fatfs two_files_env) () ''dir'' [file_entry ''a.x'', file_entry ''b.x'']
      (\<lambda>i. replicate i 0)"
    using two_files_reads by (simp add: two_files_env_def)
  have alloc: "env_alloc two_files_env" by (simp add: two_files_env_def)
  have card: "card_ready () card_in"
    by (simp add: card_ready_def card_in_def fs_init_def numeral_2_eq_2)
  have up: "set_up ''dir'' ''.x'' a_list" "fs_first a_list = 0" "fs_position a_list = 0"
    by (simp_all add: a_list_def set_up_def file_select_set_result_buffer_def
        file_select_set_callback_def file_select_set_filter_def file_select_set_api_def
        file_select_alloc_def)
  have ns: "names_of ''.x'' [file_entry ''a.x'', file_entry ''b.x''] = [''a.x'', ''b.x'']"
    by (simp add: names_of_def passes_def filter_file_def info_of_def file_entry_def
        file_flags_def flag_def strstr.simps)
  obtain s st where i: "file_select_init True two_files_env a_list card_in = Some (Inr (True, [], s, st))"
      "card_ready () st" "shows_files ''dir'' ''.x'' (shown_names ''.x'' [file_entry ''a.x'', file_entry ''b.x'']) s"
    using init_shows [OF dir refl alloc card up, of True] by (auto simp: two_files_names)
  show ?thesis
    using file_select_selects_named [OF dir alloc i(2,3), of "''b''" True] i(1)
    by (auto simp: ns simp del: names_of_simps)
qed

end
