(* ===== verification/Dialogs.thy ===== *)
theory Dialogs
  imports Canvas Input
begin

text \<open>
  The message screens of the GUI: \<^verbatim>\<open>applications/gui/modules/dialog_ex.c\<close>, \<^verbatim>\<open>popup.c\<close> and
  \<^verbatim>\<open>dialog.c\<close>. A control and the model of its view are one record, a text that is not set is
  \<open>None\<close>, the calls of the client's callback are recorded. Drawing is \<open>None\<close> where the count of
  the lines of a text never ends (see \<open>newline_count\<close>).
\<close>

section \<open>Elements\<close>

record text_element =
  te_text :: "string option"
  te_x :: u8
  te_y :: u8
  te_horizontal :: align
  te_vertical :: align

record icon_element =
  ie_x :: u8
  ie_y :: u8
  ie_name :: string

definition no_text :: text_element where
  "no_text = \<lparr>te_text = None, te_x = 0, te_y = 0, te_horizontal = AlignLeft, te_vertical = AlignBottom\<rparr>"

definition no_icon :: icon_element where
  "no_icon = \<lparr>ie_x = - 1, ie_y = - 1, ie_name = ''I_ButtonCenter_7x7''\<rparr>"

text \<open>Drawing steps one after the other, some of which may never end.\<close>

fun draws_opt :: "draw option list \<Rightarrow> canvas \<Rightarrow> (u8g2_call list \<times> canvas) res option" where
  "draws_opt [] c = Some (Inr ([], c))"
| "draws_opt (d # ds) c =
     (case d of
        None \<Rightarrow> None
      | Some f \<Rightarrow>
          (case f c of
             Inl e \<Rightarrow> Some (Inl e)
           | Inr (cs, c1) \<Rightarrow>
               map_option (\<lambda>r. bindE r (\<lambda>(cs1, c2). Inr (cs @ cs1, c2))) (draws_opt ds c1)))"

definition draw_icon_element :: "gfx \<Rightarrow> icon_element \<Rightarrow> draw option list" where
  "draw_icon_element g ic =
     (if sint (ie_x ic) \<ge> 0 \<and> sint (ie_y ic) \<ge> 0
      then [Some (canvas_draw_icon_name g (ie_x ic) (ie_y ic) (ie_name ic))] else [])"

definition draw_text_element :: "gfx \<Rightarrow> font \<Rightarrow> text_element \<Rightarrow> draw option list" where
  "draw_text_element g fo te =
     (case te_text te of
        None \<Rightarrow> []
      | Some s \<Rightarrow>
          [Some (canvas_set_font fo),
           elements_multiline_text_aligned g (te_x te) (te_y te) (te_horizontal te) (te_vertical te) s])"

section \<open>Dialog with up to three buttons\<close>

datatype dialog_ex_result = DialogExResultLeft | DialogExResultCenter | DialogExResultRight

record dialog_ex =
  dx_callback :: "nat option"
  dx_context :: nat
  dx_header :: text_element
  dx_text :: text_element
  dx_icon :: icon_element
  dx_left :: "string option"
  dx_center :: "string option"
  dx_right :: "string option"

datatype dialog_ex_call = Dialog_Ex_Callback nat dialog_ex_result nat

definition dialog_ex_alloc :: dialog_ex where
  "dialog_ex_alloc =
     \<lparr>dx_callback = None, dx_context = 0, dx_header = no_text, dx_text = no_text, dx_icon = no_icon,
      dx_left = None, dx_center = None, dx_right = None\<rparr>"

definition dialog_ex_set_result_callback :: "nat option \<Rightarrow> dialog_ex \<Rightarrow> dialog_ex" where
  "dialog_ex_set_result_callback cb d = d\<lparr>dx_callback := cb\<rparr>"

definition dialog_ex_set_context :: "nat \<Rightarrow> dialog_ex \<Rightarrow> dialog_ex" where
  "dialog_ex_set_context ctx d = d\<lparr>dx_context := ctx\<rparr>"

definition dialog_ex_set_header ::
    "string option \<Rightarrow> u8 \<Rightarrow> u8 \<Rightarrow> align \<Rightarrow> align \<Rightarrow> dialog_ex \<Rightarrow> dialog_ex" where
  "dialog_ex_set_header s x y h v d =
     d\<lparr>dx_header := \<lparr>te_text = s, te_x = x, te_y = y, te_horizontal = h, te_vertical = v\<rparr>\<rparr>"

definition dialog_ex_set_text ::
    "string option \<Rightarrow> u8 \<Rightarrow> u8 \<Rightarrow> align \<Rightarrow> align \<Rightarrow> dialog_ex \<Rightarrow> dialog_ex" where
  "dialog_ex_set_text s x y h v d =
     d\<lparr>dx_text := \<lparr>te_text = s, te_x = x, te_y = y, te_horizontal = h, te_vertical = v\<rparr>\<rparr>"

definition dialog_ex_set_icon :: "u8 \<Rightarrow> u8 \<Rightarrow> string \<Rightarrow> dialog_ex \<Rightarrow> dialog_ex" where
  "dialog_ex_set_icon x y n d = d\<lparr>dx_icon := \<lparr>ie_x = x, ie_y = y, ie_name = n\<rparr>\<rparr>"

definition dialog_ex_set_left_button_text :: "string option \<Rightarrow> dialog_ex \<Rightarrow> dialog_ex" where
  "dialog_ex_set_left_button_text s d = d\<lparr>dx_left := s\<rparr>"

definition dialog_ex_set_center_button_text :: "string option \<Rightarrow> dialog_ex \<Rightarrow> dialog_ex" where
  "dialog_ex_set_center_button_text s d = d\<lparr>dx_center := s\<rparr>"

definition dialog_ex_set_right_button_text :: "string option \<Rightarrow> dialog_ex \<Rightarrow> dialog_ex" where
  "dialog_ex_set_right_button_text s d = d\<lparr>dx_right := s\<rparr>"

definition dialog_ex_view_input_callback :: "input_event \<Rightarrow> dialog_ex \<Rightarrow> bool \<times> dialog_ex_call list" where
  "dialog_ex_view_input_callback e d =
     (case dx_callback d of
        None \<Rightarrow> (False, [])
      | Some cb \<Rightarrow>
          if ev_type e = InputTypeShort
          then if ev_key e = InputKeyLeft \<and> dx_left d \<noteq> None
               then (True, [Dialog_Ex_Callback cb DialogExResultLeft (dx_context d)])
               else if ev_key e = InputKeyOk \<and> dx_center d \<noteq> None
               then (True, [Dialog_Ex_Callback cb DialogExResultCenter (dx_context d)])
               else if ev_key e = InputKeyRight \<and> dx_right d \<noteq> None
               then (True, [Dialog_Ex_Callback cb DialogExResultRight (dx_context d)])
               else (False, [])
          else (False, []))"

definition dialog_ex_view_draw_callback ::
    "gfx \<Rightarrow> dialog_ex \<Rightarrow> canvas \<Rightarrow> (u8g2_call list \<times> canvas) res option" where
  "dialog_ex_view_draw_callback g d =
     draws_opt
       ([Some canvas_clear, Some (canvas_set_color ColorBlack)] @
        draw_icon_element g (dx_icon d) @
        draw_text_element g FontPrimary (dx_header d) @
        draw_text_element g FontSecondary (dx_text d) @
        (case dx_left d of None \<Rightarrow> [] | Some s \<Rightarrow> [Some (elements_button_left g s)]) @
        (case dx_center d of None \<Rightarrow> [] | Some s \<Rightarrow> [Some (elements_button_center g s)]) @
        (case dx_right d of None \<Rightarrow> [] | Some s \<Rightarrow> [Some (elements_button_right g s)]))"

section \<open>Popup\<close>

record popup =
  pu_callback :: "nat option"
  pu_context :: nat
  pu_period :: u32
  pu_enabled :: bool
  pu_header :: text_element
  pu_text :: text_element
  pu_icon :: icon_element

datatype popup_call = Popup_Callback nat nat | Popup_Timer_Start u32 | Popup_Timer_Stop

definition popup_alloc :: popup where
  "popup_alloc =
     \<lparr>pu_callback = None, pu_context = 0, pu_period = 1000, pu_enabled = False, pu_header = no_text,
      pu_text = no_text, pu_icon = no_icon\<rparr>"

definition popup_set_callback :: "nat option \<Rightarrow> popup \<Rightarrow> popup" where
  "popup_set_callback cb p = p\<lparr>pu_callback := cb\<rparr>"

definition popup_set_context :: "nat \<Rightarrow> popup \<Rightarrow> popup" where
  "popup_set_context ctx p = p\<lparr>pu_context := ctx\<rparr>"

definition popup_set_header ::
    "string option \<Rightarrow> u8 \<Rightarrow> u8 \<Rightarrow> align \<Rightarrow> align \<Rightarrow> popup \<Rightarrow> popup" where
  "popup_set_header s x y h v p =
     p\<lparr>pu_header := \<lparr>te_text = s, te_x = x, te_y = y, te_horizontal = h, te_vertical = v\<rparr>\<rparr>"

definition popup_set_text ::
    "string option \<Rightarrow> u8 \<Rightarrow> u8 \<Rightarrow> align \<Rightarrow> align \<Rightarrow> popup \<Rightarrow> popup" where
  "popup_set_text s x y h v p =
     p\<lparr>pu_text := \<lparr>te_text = s, te_x = x, te_y = y, te_horizontal = h, te_vertical = v\<rparr>\<rparr>"

definition popup_set_icon :: "u8 \<Rightarrow> u8 \<Rightarrow> string \<Rightarrow> popup \<Rightarrow> popup" where
  "popup_set_icon x y n p = p\<lparr>pu_icon := \<lparr>ie_x = x, ie_y = y, ie_name = n\<rparr>\<rparr>"

definition popup_set_timeout :: "u32 \<Rightarrow> popup \<Rightarrow> popup" where
  "popup_set_timeout ms p = p\<lparr>pu_period := ms\<rparr>"

definition popup_enable_timeout :: "popup \<Rightarrow> popup" where
  "popup_enable_timeout p = p\<lparr>pu_enabled := True\<rparr>"

definition popup_disable_timeout :: "popup \<Rightarrow> popup" where
  "popup_disable_timeout p = p\<lparr>pu_enabled := False\<rparr>"

definition popup_timer_callback :: "popup \<Rightarrow> popup_call list" where
  "popup_timer_callback p =
     (case pu_callback p of None \<Rightarrow> [] | Some cb \<Rightarrow> [Popup_Callback cb (pu_context p)])"

definition popup_view_input_callback :: "input_event \<Rightarrow> popup \<Rightarrow> bool \<times> popup_call list" where
  "popup_view_input_callback e p =
     (case pu_callback p of
        None \<Rightarrow> (False, [])
      | Some cb \<Rightarrow>
          if ev_type e = InputTypeShort then (True, [Popup_Callback cb (pu_context p)])
          else (False, []))"

text \<open>\<open>ok\<close> is the answer of the kernel to the start of the timer, \<open>freq\<close> its tick frequency.\<close>

definition popup_ticks :: "u32 \<Rightarrow> popup \<Rightarrow> u32" where
  "popup_ticks freq p =
     (let period = word_of_int
            \<lfloor>f32 (f32 (of_nat (unat (pu_period p))) / f32 (1000 / f32 (of_nat (unat freq))))\<rfloor>
      in if period = 0 then 1 else period)"

definition popup_start_timer :: "bool \<Rightarrow> u32 \<Rightarrow> bool \<Rightarrow> popup \<Rightarrow> popup_call list res" where
  "popup_start_timer dbg freq ok p =
     (if pu_enabled p
      then furi_assert dbg ok (Inr [Popup_Timer_Start (popup_ticks freq p)])
      else Inr [])"

definition popup_stop_timer :: "popup \<Rightarrow> popup_call list" where
  "popup_stop_timer p = [Popup_Timer_Stop]"

definition popup_view_draw_callback ::
    "gfx \<Rightarrow> popup \<Rightarrow> canvas \<Rightarrow> (u8g2_call list \<times> canvas) res option" where
  "popup_view_draw_callback g p =
     draws_opt
       ([Some canvas_clear, Some (canvas_set_color ColorBlack)] @
        draw_icon_element g (pu_icon p) @
        draw_text_element g FontPrimary (pu_header p) @
        draw_text_element g FontSecondary (pu_text p))"

section \<open>Dialog with two buttons\<close>

datatype dialog_result = DialogResultLeft | DialogResultRight | DialogResultBack

record dialog =
  dl_callback :: "nat option"
  dl_context :: nat
  dl_header :: "string option"
  dl_text :: "string option"
  dl_left :: "string option"
  dl_right :: "string option"

datatype dialog_call = Dialog_Callback nat dialog_result nat

definition dialog_alloc :: dialog where
  "dialog_alloc =
     \<lparr>dl_callback = None, dl_context = 0, dl_header = None, dl_text = None, dl_left = None,
      dl_right = None\<rparr>"

definition dialog_set_result_callback :: "nat option \<Rightarrow> dialog \<Rightarrow> dialog" where
  "dialog_set_result_callback cb d = d\<lparr>dl_callback := cb\<rparr>"

definition dialog_set_context :: "nat \<Rightarrow> dialog \<Rightarrow> dialog" where
  "dialog_set_context ctx d = d\<lparr>dl_context := ctx\<rparr>"

definition dialog_set_header_text :: "bool \<Rightarrow> string option \<Rightarrow> dialog \<Rightarrow> dialog res" where
  "dialog_set_header_text dbg s d = furi_assert dbg (s \<noteq> None) (Inr (d\<lparr>dl_header := s\<rparr>))"

definition dialog_set_text :: "bool \<Rightarrow> string option \<Rightarrow> dialog \<Rightarrow> dialog res" where
  "dialog_set_text dbg s d = furi_assert dbg (s \<noteq> None) (Inr (d\<lparr>dl_text := s\<rparr>))"

definition dialog_set_left_button_text :: "bool \<Rightarrow> string option \<Rightarrow> dialog \<Rightarrow> dialog res" where
  "dialog_set_left_button_text dbg s d = furi_assert dbg (s \<noteq> None) (Inr (d\<lparr>dl_left := s\<rparr>))"

definition dialog_set_right_button_text :: "bool \<Rightarrow> string option \<Rightarrow> dialog \<Rightarrow> dialog res" where
  "dialog_set_right_button_text dbg s d = furi_assert dbg (s \<noteq> None) (Inr (d\<lparr>dl_right := s\<rparr>))"

definition dialog_view_input_callback :: "input_event \<Rightarrow> dialog \<Rightarrow> bool \<times> dialog_call list" where
  "dialog_view_input_callback e d =
     (case dl_callback d of
        None \<Rightarrow> (False, [])
      | Some cb \<Rightarrow>
          if ev_type e = InputTypeShort
          then (case ev_key e of
                  InputKeyLeft \<Rightarrow> (True, [Dialog_Callback cb DialogResultLeft (dl_context d)])
                | InputKeyRight \<Rightarrow> (True, [Dialog_Callback cb DialogResultRight (dl_context d)])
                | InputKeyBack \<Rightarrow> (True, [Dialog_Callback cb DialogResultBack (dl_context d)])
                | _ \<Rightarrow> (False, []))
          else (False, []))"

text \<open>A text that is needed and not set is read through a null pointer.\<close>

definition needed :: "string option \<Rightarrow> (string \<Rightarrow> draw option) \<Rightarrow> draw option" where
  "needed s f = (case s of None \<Rightarrow> Some (\<lambda>_. Inl Null_Pointer) | Some t \<Rightarrow> f t)"

definition dialog_view_draw_callback ::
    "gfx \<Rightarrow> dialog \<Rightarrow> canvas \<Rightarrow> (u8g2_call list \<times> canvas) res option" where
  "dialog_view_draw_callback g d c =
     (let center = canvas_width c div 2 in
      draws_opt
        [Some canvas_clear, Some (canvas_set_color ColorBlack), Some (canvas_set_font FontPrimary),
         needed (dl_header d)
           (\<lambda>s. Some (canvas_draw_str_aligned g center 17 AlignCenter AlignBottom s)),
         Some (canvas_set_font FontSecondary),
         needed (dl_text d)
           (elements_multiline_text_aligned g center 32 AlignCenter AlignCenter),
         needed (dl_left d) (\<lambda>s. Some (elements_button_left g s)),
         needed (dl_right d) (\<lambda>s. Some (elements_button_right g s))] c)"

section \<open>Lemmas\<close>

text \<open>A button answers exactly when it is shown and there is a client.\<close>

lemma dialog_ex_answers:
  "snd (dialog_ex_view_input_callback e d) =
     (case dx_callback d of
        None \<Rightarrow> []
      | Some cb \<Rightarrow>
          concat (map (\<lambda>(key, txt, r).
              if ev_type e = InputTypeShort \<and> ev_key e = key \<and> txt \<noteq> None
              then [Dialog_Ex_Callback cb r (dx_context d)] else [])
            [(InputKeyLeft, dx_left d, DialogExResultLeft), (InputKeyOk, dx_center d, DialogExResultCenter),
             (InputKeyRight, dx_right d, DialogExResultRight)]))"
  by (cases "ev_key e") (auto simp: dialog_ex_view_input_callback_def split: option.split)

text \<open>A timer is never started with no ticks.\<close>

lemma popup_ticks_positive: "popup_ticks freq p \<noteq> 0"
  by (simp add: popup_ticks_def Let_def)

text \<open>A screen is drawn in finite time exactly if its texts have fewer than 256 characters.\<close>

lemma draws_opt_ends:
  "(\<forall>d \<in> set ds. d \<noteq> None) \<Longrightarrow> draws_opt ds c \<noteq> None"
  by (induction ds arbitrary: c) (auto split: sum.split)

end
