(* ===== verification/SdApp.thy ===== *)
theory SdApp
  imports FileSelect Dialogs Views Notification
begin

text \<open>
  The application of the SD card, \<^verbatim>\<open>applications/sd-filesystem/sd-filesystem.c\<close>, and the view it
  shows, \<^verbatim>\<open>view_holder.c\<close>. It watches the card, mounts and unmounts it, and shows one screen at a
  time: a message or the list of files, on request of other applications, which wait for the answer.

  The volume \<open>'w\<close> of the file API is here all of the hardware: the card, the pins and the time.
  Detection, the initialisation of the card (\<^verbatim>\<open>BSP_SD_Init\<close>) and the functions of FatFs that work
  on the whole volume are parameters, the record \<open>sd_hal\<close>. The two message queues are lists. A
  put that has to wait for room is made at once: the list then holds what waits as well, and the
  order is the same. The callbacks that the application registers are numbers; they are translated
  to the functions where they are called. Logging is left out.
\<close>

section \<open>View holder\<close>

text \<open>
  A view holder shows one view through a view port. \<open>'c\<close> is the context of the free callback, the
  control that owns the view.
\<close>

record 'c view_holder =
  vh_view :: "nat option"
  vh_port :: view_port
  vh_gui :: bool
  vh_free_callback :: "nat option"
  vh_free_context :: "'c option"
  vh_back_callback :: "nat option"
  vh_back_context :: nat

datatype holder_call =
    Holder_View_Callback nat "nat option"  \<comment> \<open>the update callback of a view\<close>
  | Holder_Port_Added
  | Holder_Port_Removed
  | Holder_Update
  | Holder_Free nat
  | Holder_Draw nat
  | Holder_Back nat nat

abbreviation HOLDER_DRAW :: nat where "HOLDER_DRAW \<equiv> 0"
abbreviation HOLDER_INPUT :: nat where "HOLDER_INPUT \<equiv> 1"
abbreviation HOLDER_UPDATE :: nat where "HOLDER_UPDATE \<equiv> 2"

text \<open>The update of a view port, a call of the GUI.\<close>

definition updates :: "view_call list \<Rightarrow> holder_call list" where
  "updates cs = map (\<lambda>_. Holder_Update) cs"

text \<open>A use of a holder, with the assert of most functions or without it.\<close>

definition holder_at ::
    "bool \<Rightarrow> 'c view_holder option \<Rightarrow> ('c view_holder \<Rightarrow> 'a res) \<Rightarrow> 'a res" where
  "holder_at dbg h k =
     (case h of None \<Rightarrow> Inl (if dbg then Assert_Failed else Null_Pointer) | Some v \<Rightarrow> k v)"

text \<open>\<open>me\<close> is the number of the holder, the context of the callbacks of its view port.\<close>

definition view_holder_alloc :: "nat \<Rightarrow> 'c view_holder" where
  "view_holder_alloc me =
     (let p = view_port_alloc;
          p1 = view_port_draw_callback_set (Some (HOLDER_DRAW, me)) p;
          p2 = view_port_input_callback_set (Some (HOLDER_INPUT, me)) p1;
          p3 = snd (view_port_enabled_set False p2)
      in \<lparr>vh_view = None, vh_port = p3, vh_gui = False, vh_free_callback = None,
          vh_free_context = None, vh_back_callback = None, vh_back_context = 0\<rparr>)"

definition view_holder_free :: "bool \<Rightarrow> 'c view_holder option \<Rightarrow> holder_call list res" where
  "view_holder_free dbg h =
     holder_at dbg h (\<lambda>v.
       let (cs, p) = (if vh_gui v then ([Holder_Port_Removed], view_port_gui_set False (vh_port v))
                      else ([], vh_port v))
       in bindE (view_port_free p) (\<lambda>_.
            Inr (cs @ (case vh_free_callback v of None \<Rightarrow> [] | Some cb \<Rightarrow> [Holder_Free cb]))))"

definition view_holder_set_view ::
    "bool \<Rightarrow> nat option \<Rightarrow> 'c view_holder option \<Rightarrow> (holder_call list \<times> 'c view_holder) res" where
  "view_holder_set_view dbg view h =
     holder_at dbg h (\<lambda>v.
       Inr ((case vh_view v of None \<Rightarrow> [] | Some w \<Rightarrow> [Holder_View_Callback w None]) @
            (case view of None \<Rightarrow> [] | Some w \<Rightarrow> [Holder_View_Callback w (Some HOLDER_UPDATE)]),
            v\<lparr>vh_view := view\<rparr>))"

definition view_holder_set_free_callback ::
    "bool \<Rightarrow> nat option \<Rightarrow> 'c option \<Rightarrow> 'c view_holder option \<Rightarrow> 'c view_holder res" where
  "view_holder_set_free_callback dbg cb ctx h =
     holder_at dbg h (\<lambda>v. Inr (v\<lparr>vh_free_callback := cb, vh_free_context := ctx\<rparr>))"

definition view_holder_get_free_context :: "'c view_holder option \<Rightarrow> 'c option res" where
  "view_holder_get_free_context h = holder_at False h (\<lambda>v. Inr (vh_free_context v))"

definition view_holder_set_back_callback ::
    "bool \<Rightarrow> nat option \<Rightarrow> nat \<Rightarrow> 'c view_holder option \<Rightarrow> 'c view_holder res" where
  "view_holder_set_back_callback dbg cb ctx h =
     holder_at dbg h (\<lambda>v. Inr (v\<lparr>vh_back_callback := cb, vh_back_context := ctx\<rparr>))"

definition view_holder_attach_to_gui ::
    "bool \<Rightarrow> 'c view_holder option \<Rightarrow> (holder_call list \<times> 'c view_holder) res" where
  "view_holder_attach_to_gui dbg h =
     holder_at dbg h (\<lambda>v.
       Inr ([Holder_Port_Added], v\<lparr>vh_gui := True, vh_port := view_port_gui_set True (vh_port v)\<rparr>))"

definition view_holder_enable ::
    "bool \<Rightarrow> 'c view_holder option \<Rightarrow> (holder_call list \<times> 'c view_holder) res" where
  "view_holder_enable b h =
     holder_at False h (\<lambda>v.
       let (cs, p) = view_port_enabled_set b (vh_port v) in Inr (updates cs, v\<lparr>vh_port := p\<rparr>))"

definition view_holder_start ::
    "'c view_holder option \<Rightarrow> (holder_call list \<times> 'c view_holder) res" where
  "view_holder_start h = view_holder_enable True h"

definition view_holder_stop ::
    "'c view_holder option \<Rightarrow> (holder_call list \<times> 'c view_holder) res" where
  "view_holder_stop h = view_holder_enable False h"

definition view_holder_update ::
    "bool \<Rightarrow> nat \<Rightarrow> 'c view_holder option \<Rightarrow> holder_call list res" where
  "view_holder_update dbg view h =
     holder_at dbg h (\<lambda>v.
       Inr (if vh_view v = Some view then updates (view_port_update (vh_port v)) else []))"

definition view_holder_draw_callback :: "'c view_holder \<Rightarrow> holder_call list" where
  "view_holder_draw_callback v = (case vh_view v of None \<Rightarrow> [] | Some w \<Rightarrow> [Holder_Draw w])"

text \<open>\<open>is_consumed\<close> is the answer of the view, false without one.\<close>

definition view_holder_input_callback ::
    "bool \<Rightarrow> input_event \<Rightarrow> 'c view_holder \<Rightarrow> holder_call list" where
  "view_holder_input_callback is_consumed e v =
     (if \<not> is_consumed \<and> ev_type e = InputTypeShort
      then if ev_key e = InputKeyBack
           then (case vh_back_callback v of
                   None \<Rightarrow> []
                 | Some cb \<Rightarrow> [Holder_Back cb (vh_back_context v)])
           else []
      else [])"

section \<open>State of the application\<close>

datatype sd_app_state =
    SdAppStateBackground | SdAppStateFormat | SdAppStateFormatInProgress
  | SdAppStateFormatCompleted | SdAppStateInfo | SdAppStateEject | SdAppStateEjected
  | SdAppStateFileSelect | SdAppStateCheckError | SdAppStateShowError

record sd_info =
  si_fs_type :: u8
  si_kb_total :: u32
  si_kb_free :: u32
  si_cluster_size :: u16
  si_sector_size :: u16
  si_label :: string
  si_error :: sd_error

record file_select_data =
  fsd_path :: "string option"
  fsd_extension :: "string option"
  fsd_result :: "string option"
  fsd_result_size :: u8
  fsd_selected_filename :: "string option"

datatype sd_app_event =
    SdAppEventTypeBack
  | SdAppEventTypeOK
  | SdAppEventTypeFormat
  | SdAppEventTypeInfo
  | SdAppEventTypeEject
  | SdAppEventTypeFileSelect file_select_data
  | SdAppEventTypeCheckError
  | SdAppEventTypeShowError "string option"

text \<open>The controls whose view a holder can show.\<close>

datatype control = Control_Dialog dialog_ex | Control_File_Select file_select

text \<open>
  \<open>sa_present\<close> is the variable \<^verbatim>\<open>sd_was_present\<close> of the main loop: true while the next thing to
  happen is that a card comes. \<open>sa_icon\<close> says whether the icon in the status bar is shown.
\<close>

record ('d, 'w) sd_app =
  sa_info :: "('d, 'w) sd_fs"
  sa_icon :: bool
  sa_state :: sd_app_state
  sa_holder :: "control view_holder option"
  sa_text :: string
  sa_events :: "sd_app_event list"
  sa_results :: "bool list"
  sa_present :: bool

record 'w sd_hal =
  hal_detect :: "'w \<Rightarrow> bool \<times> 'w"
  hal_init :: "bool \<Rightarrow> 'w \<Rightarrow> u8 \<times> 'w"
  hal_delay :: "u32 \<Rightarrow> 'w \<Rightarrow> 'w"
  vol_mount :: "'w \<Rightarrow> sd_error \<times> 'w"
  vol_unmount :: "'w \<Rightarrow> 'w"
  vol_mkfs :: "'w \<Rightarrow> sd_error \<times> 'w"
  vol_setlabel :: "string \<Rightarrow> 'w \<Rightarrow> 'w"
  vol_getlabel :: "'w \<Rightarrow> sd_error \<times> string"
  vol_fs_type :: "'w \<Rightarrow> u8"

datatype sd_app_call =
    Sd_Notify "notification_message list"
  | Sd_Holder holder_call
  | Sd_Icon bool
  | Sd_Set_Text  \<comment> \<open>a change of the shown dialog\<close>

text \<open>The environment of a step: build, file API, hardware.\<close>

record ('d, 'w) sd_env =
  se_dbg :: bool
  se_fs :: "('d, 'w) fs_env"
  se_hal :: "'w sd_hal"

abbreviation se_ff :: "('d, 'w) sd_env \<Rightarrow> ('d, 'w) fatfs" where
  "se_ff env \<equiv> env_fatfs (se_fs env)"

abbreviation SD_DIALOG :: nat where "SD_DIALOG \<equiv> 0"
abbreviation SD_FILES :: nat where "SD_FILES \<equiv> 1"
abbreviation SD_BACK :: nat where "SD_BACK \<equiv> 2"

definition sd_app_alloc :: "('d, 'w) fatfs \<Rightarrow> 'w \<Rightarrow> ('d, 'w) sd_app" where
  "sd_app_alloc ff w =
     \<lparr>sa_info = fs_init ff w, sa_icon = False, sa_state = SdAppStateBackground, sa_holder = None,
      sa_text = [], sa_events = [], sa_results = [], sa_present = True\<rparr>"

section \<open>The card\<close>

definition with_volume :: "'w \<Rightarrow> ('d, 'w) sd_fs \<Rightarrow> ('d, 'w) sd_fs" where
  "with_volume w st = st\<lparr>sd_volume := w\<rparr>"

definition no_info :: sd_info where
  "no_info = \<lparr>si_fs_type = 0, si_kb_total = 0, si_kb_free = 0, si_cluster_size = 0,
     si_sector_size = 0, si_label = [], si_error = SD_OK\<rparr>"

definition get_sd_info :: "('d, 'w) sd_env \<Rightarrow> ('d, 'w) sd_fs \<Rightarrow> sd_info" where
  "get_sd_info env st =
     (let (e, label) = vol_getlabel (se_hal env) (sd_volume st) in
      if e \<noteq> SD_OK then no_info\<lparr>si_label := label, si_error := e\<rparr>
      else
        (let (e1, free_clusters, n_fatent, csize) = ff_getfree (se_ff env) (sd_volume st) in
         if e1 \<noteq> SD_OK then no_info\<lparr>si_label := label, si_error := e1\<rparr>
         else
           (let total_sectors = (n_fatent - 2) * ucast csize;
                free_sectors = free_clusters * ucast csize
            in \<lparr>si_fs_type = vol_fs_type (se_hal env) (sd_volume st),
                si_kb_total = total_sectors div 1024 * ucast MAX_SS,
                si_kb_free = free_sectors div 1024 * ucast MAX_SS,
                si_cluster_size = csize, si_sector_size = MAX_SS, si_label = label,
                si_error = SD_OK\<rparr>)))"

definition get_fs_type_text :: "u8 \<Rightarrow> string" where
  "get_fs_type_text t =
     (if t = 1 then ''FAT12'' else if t = 2 then ''FAT16'' else if t = 3 then ''FAT32''
      else if t = 4 then ''EXFAT'' else ''UNKNOWN'')"

definition app_sd_format_internal :: "('d, 'w) sd_env \<Rightarrow> ('d, 'w) sd_fs \<Rightarrow> ('d, 'w) sd_fs" where
  "app_sd_format_internal env st =
     (if \<not> env_alloc (se_fs env) then st\<lparr>sd_status := SD_NOT_ENOUGH_CORE\<rparr>
      else
        (let (e, w) = vol_mkfs (se_hal env) (sd_volume st) in
         if e = SD_OK
         then (let (e1, w1) = vol_mount (se_hal env) (vol_setlabel (se_hal env) ''Flipper SD'' w)
               in st\<lparr>sd_status := e1, sd_volume := w1\<rparr>)
         else st\<lparr>sd_status := e, sd_volume := w\<rparr>))"

definition blink :: "notification_message \<Rightarrow> notification_message \<Rightarrow> notification_message list" where
  "blink on off = concat (replicate 3 [on, message_delay_50, off, message_delay_50])"

definition sd_sequence_success :: "notification_message list" where
  "sd_sequence_success = blink message_green_255 message_green_0"

definition sd_sequence_error :: "notification_message list" where
  "sd_sequence_error = blink message_red_255 message_red_0"

definition sd_sequence_eject :: "notification_message list" where
  "sd_sequence_eject = blink message_blue_255 message_blue_0"

definition sd_sequence_wait :: "notification_message list" where
  "sd_sequence_wait = [message_red_255, message_blue_255, message_do_not_reset]"

definition sd_sequence_wait_off :: "notification_message list" where
  "sd_sequence_wait_off = [message_red_0, message_blue_0]"

text \<open>
  The loop of \<^verbatim>\<open>app_sd_mount_card\<close>, by its counter: the card is reset by power on the tenth
  attempt from the end, which is the first.
\<close>

definition mount_attempt :: "('d, 'w) sd_env \<Rightarrow> nat \<Rightarrow> 'w \<Rightarrow> sd_error \<times> 'w" where
  "mount_attempt env counter w =
     (let (bsp_result, w1) = hal_init (se_hal env) (counter mod 10 = 0) w in
      if bsp_result \<noteq> 0 then (SD_LOW_LEVEL_ERR, w1)
      else
        (let (e, w2) = vol_mount (se_hal env) w1 in
         if e = SD_OK \<or> e = SD_NO_FILESYSTEM then (fst (ff_getfree (se_ff env) w2), w2)
         else (e, w2)))"

definition mounted :: "sd_error \<Rightarrow> bool" where
  "mounted e \<longleftrightarrow> e = SD_OK \<or> e = SD_NO_FILESYSTEM"

text \<open>
  The result is true only if \<^verbatim>\<open>f_getfree\<close> was reached; as it is not reached with a failed
  initialisation or mount, this is the test of the status at the end of the attempt.
\<close>

fun mount_loop ::
    "('d, 'w) sd_env \<Rightarrow> nat \<Rightarrow> ('d, 'w) sd_fs \<Rightarrow> sd_app_call list \<times> bool \<times> ('d, 'w) sd_fs" where
  "mount_loop env 0 st = ([], False, st)"
| "mount_loop env (Suc n) st =
     (let (present, w) = hal_detect (se_hal env) (sd_volume st) in
      if \<not> present then ([], False, with_volume w st)
      else
        (let (e, w1) = mount_attempt env (Suc n) w;
             st1 = st\<lparr>sd_status := e, sd_volume := w1\<rparr>;
             cs = [Sd_Notify sd_sequence_wait, Sd_Notify sd_sequence_wait_off]
         in if mounted e then (cs, True, st1)
            else (case mount_loop env n (with_volume (hal_delay (se_hal env) 1000 w1) st1) of
                    (cs1, r, st2) \<Rightarrow> (cs @ cs1, r, st2))))"

definition app_sd_mount_card ::
    "('d, 'w) sd_env \<Rightarrow> ('d, 'w) sd_fs \<Rightarrow> sd_app_call list \<times> bool \<times> ('d, 'w) sd_fs" where
  "app_sd_mount_card env st = mount_loop env 10 st"

fun close_files ::
    "('d, 'w) fatfs \<Rightarrow> 'd file_data list \<Rightarrow> 'w \<Rightarrow> 'd file_data list \<times> 'w" where
  "close_files ff [] w = ([], w)"
| "close_files ff (fd # fds) w =
     (case fd_thread fd of
        None \<Rightarrow> (case close_files ff fds w of (fds1, w1) \<Rightarrow> (fd # fds1, w1))
      | Some _ \<Rightarrow>
          (let (e, d, w1) = (if fd_is_dir fd then ff_closedir ff (fd_data fd) w
                             else ff_close ff (fd_data fd) w)
           in case close_files ff fds w1 of
                (fds1, w2) \<Rightarrow> (fd\<lparr>fd_data := d, fd_thread := None\<rparr> # fds1, w2)))"

definition app_sd_unmount_card ::
    "('d, 'w) sd_env \<Rightarrow> ('d, 'w) sd_app \<Rightarrow> sd_app_call list \<times> ('d, 'w) sd_app" where
  "app_sd_unmount_card env a =
     (let st = sa_info a; (fds, w) = close_files (se_ff env) (sd_files st) (sd_volume st)
      in ([Sd_Icon False],
          a\<lparr>sa_icon := False,
            sa_info := \<lparr>sd_files = fds, sd_status = SD_NO_CARD,
              sd_volume = vol_unmount (se_hal env) w\<rparr>\<rparr>))"

text \<open>The directories of a path: what stands before each slash that is not the first character, and
  the path itself.\<close>

definition path_prefixes :: "string \<Rightarrow> string list" where
  "path_prefixes path =
     map (\<lambda>i. take i path) (filter (\<lambda>i. path ! i = CHR ''/'') [1..<length path]) @ [path]"

fun make_dirs :: "('d, 'w) fatfs \<Rightarrow> string list \<Rightarrow> 'w \<Rightarrow> bool \<times> 'w" where
  "make_dirs ff [] w = (True, w)"
| "make_dirs ff (p # ps) w =
     (let (e, w1) = ff_mkdir ff p w in
      if e \<noteq> SD_OK \<and> e \<noteq> SD_EXIST then (False, w1) else make_dirs ff ps w1)"

definition app_sd_make_path ::
    "bool \<Rightarrow> ('d, 'w) fatfs \<Rightarrow> string option \<Rightarrow> 'w \<Rightarrow> (bool \<times> 'w) res" where
  "app_sd_make_path dbg ff path w =
     (case path of
        None \<Rightarrow> Inl (if dbg then Assert_Failed else Null_Pointer)
      | Some p \<Rightarrow> Inr (if p = [] then (True, w) else make_dirs ff (path_prefixes p) w))"

text \<open>The icon of the status bar: nothing without a card.\<close>

definition sd_icon_draw_callback ::
    "u32 \<Rightarrow> u32 \<Rightarrow> icon \<Rightarrow> icon \<Rightarrow> sd_error \<Rightarrow> canvas \<Rightarrow> (u8g2_call list \<times> canvas) res" where
  "sd_icon_draw_callback now freq mounted_icon fail_icon status c =
     (if status = SD_NO_CARD then Inr ([], c)
      else bindE (canvas_draw_icon now freq 0 0 (if status = SD_OK then mounted_icon else fail_icon) c)
             (\<lambda>(cs, _, c1). Inr (cs, c1)))"

section \<open>Events\<close>

definition put_event :: "sd_app_event \<Rightarrow> ('d, 'w) sd_app \<Rightarrow> ('d, 'w) sd_app" where
  "put_event e a = a\<lparr>sa_events := sa_events a @ [e]\<rparr>"

definition put_result :: "bool \<Rightarrow> ('d, 'w) sd_app \<Rightarrow> ('d, 'w) sd_app" where
  "put_result r a = a\<lparr>sa_results := sa_results a @ [r]\<rparr>"

text \<open>The two halves of \<^verbatim>\<open>sd_api_file_select\<close>: the request, and the answer when there is one.\<close>

definition sd_api_check_error :: "('d, 'w) sd_app \<Rightarrow> ('d, 'w) sd_app" where
  "sd_api_check_error a = put_event SdAppEventTypeCheckError a"

definition sd_api_show_error :: "string option \<Rightarrow> ('d, 'w) sd_app \<Rightarrow> ('d, 'w) sd_app" where
  "sd_api_show_error s a = put_event (SdAppEventTypeShowError s) a"

definition sd_api_file_select_ask :: "file_select_data \<Rightarrow> ('d, 'w) sd_app \<Rightarrow> ('d, 'w) sd_app" where
  "sd_api_file_select_ask d a = put_event (SdAppEventTypeFileSelect d) a"

definition sd_api_file_select_answer ::
    "('d, 'w) sd_app \<Rightarrow> (bool \<times> ('d, 'w) sd_app) option" where
  "sd_api_file_select_answer a =
     (case sa_results a of
        [] \<Rightarrow> None
      | r # rs \<Rightarrow>
          Some (r, let a1 = a\<lparr>sa_results := rs\<rparr> in if \<not> r then sd_api_check_error a1 else a1))"

definition app_view_back_callback :: "('d, 'w) sd_app \<Rightarrow> ('d, 'w) sd_app" where
  "app_view_back_callback a = put_event SdAppEventTypeBack a"

definition app_view_dialog_callback :: "dialog_ex_result \<Rightarrow> ('d, 'w) sd_app \<Rightarrow> ('d, 'w) sd_app" where
  "app_view_dialog_callback r a =
     (case r of
        DialogExResultLeft \<Rightarrow> put_event SdAppEventTypeBack a
      | DialogExResultRight \<Rightarrow> put_event SdAppEventTypeOK a
      | DialogExResultCenter \<Rightarrow> a)"

definition app_view_file_select_callback :: "bool \<Rightarrow> ('d, 'w) sd_app \<Rightarrow> ('d, 'w) sd_app" where
  "app_view_file_select_callback r a =
     put_event (if r then SdAppEventTypeOK else SdAppEventTypeBack) a"

definition app_sd_info_callback :: "('d, 'w) sd_app \<Rightarrow> ('d, 'w) sd_app" where
  "app_sd_info_callback a = put_event SdAppEventTypeInfo a"

definition app_sd_format_callback :: "('d, 'w) sd_app \<Rightarrow> ('d, 'w) sd_app" where
  "app_sd_format_callback a = put_event SdAppEventTypeFormat a"

definition app_sd_eject_callback :: "('d, 'w) sd_app \<Rightarrow> ('d, 'w) sd_app" where
  "app_sd_eject_callback a = put_event SdAppEventTypeEject a"

text \<open>What the callbacks that a control calls do here.\<close>

fun dialog_calls :: "dialog_ex_call list \<Rightarrow> ('d, 'w) sd_app \<Rightarrow> ('d, 'w) sd_app" where
  "dialog_calls [] a = a"
| "dialog_calls (Dialog_Ex_Callback _ r _ # cs) a = dialog_calls cs (app_view_dialog_callback r a)"

fun file_calls :: "file_select_call list \<Rightarrow> ('d, 'w) sd_app \<Rightarrow> ('d, 'w) sd_app" where
  "file_calls [] a = a"
| "file_calls (File_Select_Callback _ r _ # cs) a = file_calls cs (app_view_file_select_callback r a)"

fun holder_calls :: "holder_call list \<Rightarrow> ('d, 'w) sd_app \<Rightarrow> ('d, 'w) sd_app" where
  "holder_calls [] a = a"
| "holder_calls (c # cs) a =
     holder_calls cs (case c of Holder_Back _ _ \<Rightarrow> app_view_back_callback a | _ \<Rightarrow> a)"

section \<open>Command line\<close>

abbreviation crlf :: string where "crlf \<equiv> [CHR 0x0D, CHR 0x0A]"
abbreviation lf :: string where "lf \<equiv> [CHR 0x0A]"

text \<open>\<open>c\<close> is the character that \<^verbatim>\<open>cli_getc\<close> returns.\<close>

definition cli_sd_format ::
    "('d, 'w) sd_env \<Rightarrow> char \<Rightarrow> ('d, 'w) sd_fs \<Rightarrow> string \<times> ('d, 'w) sd_fs" where
  "cli_sd_format env c st =
     (let ask = ''Formatting SD card, all data will be lost. Are you sure (y/n)?'' @ crlf in
      if c = CHR ''y'' \<or> c = CHR ''Y''
      then (let st1 = app_sd_format_internal env st in
            (ask @ ''Formatting, please wait...'' @ crlf @
              (if sd_status st1 \<noteq> SD_OK
               then ''SD card format error: '' @ fs_error_get_internal_desc (sd_status st1) @ crlf
               else ''SD card was successfully formatted.'' @ crlf), st1))
      else (ask @ ''Cancelled.'' @ crlf, st))"

definition cli_sd_info :: "('d, 'w) sd_env \<Rightarrow> ('d, 'w) sd_fs \<Rightarrow> string" where
  "cli_sd_info env st =
     (let i = get_sd_info env st in
      ''SD Status: '' @ fs_error_get_internal_desc (sd_status st) @ crlf @
      (if si_error i = SD_OK
       then ''Label: '' @ si_label i @ crlf @
            ''Filesystem: '' @ get_fs_type_text (si_fs_type i) @ crlf @
            ''Cluster: '' @ decimal (unat (si_cluster_size i)) @ '' sectors'' @ crlf @
            ''Sector: '' @ decimal (unat (si_sector_size i)) @ '' bytes'' @ crlf @
            decimal (unat (si_kb_total i)) @ '' KB total'' @ crlf @
            decimal (unat (si_kb_free i)) @ '' KB free'' @ crlf
       else ''SD Info error: '' @ fs_error_get_internal_desc (si_error i) @ crlf))"

section \<open>Screens\<close>

definition holder_trace :: "holder_call list \<Rightarrow> sd_app_call list" where
  "holder_trace cs = map Sd_Holder cs"

definition try_to_alloc_view_holder ::
    "bool \<Rightarrow> ('d, 'w) sd_app \<Rightarrow> (bool \<times> sd_app_call list \<times> ('d, 'w) sd_app) res" where
  "try_to_alloc_view_holder dbg a =
     (case sa_holder a of
        None \<Rightarrow>
          bindE (view_holder_attach_to_gui dbg (Some (view_holder_alloc 0))) (\<lambda>(cs, h).
          bindE (view_holder_set_back_callback dbg (Some SD_BACK) 0 (Some h)) (\<lambda>h1.
            Inr (True, holder_trace cs, a\<lparr>sa_holder := Some h1\<rparr>)))
      | Some _ \<Rightarrow> Inr (False, [], a))"

text \<open>A control becomes what the holder shows and frees.\<close>

definition attach ::
    "bool \<Rightarrow> nat \<Rightarrow> control \<Rightarrow> ('d, 'w) sd_app \<Rightarrow> (sd_app_call list \<times> ('d, 'w) sd_app) res" where
  "attach dbg view c a =
     bindE (view_holder_set_view dbg (Some view) (sa_holder a)) (\<lambda>(cs, h).
     bindE (view_holder_set_free_callback dbg (Some view) (Some c) (Some h)) (\<lambda>h1.
       Inr (holder_trace cs, a\<lparr>sa_holder := Some h1\<rparr>)))"

definition new_dialog :: dialog_ex where
  "new_dialog = dialog_ex_set_result_callback (Some SD_DIALOG) (dialog_ex_set_context 0 dialog_ex_alloc)"

definition alloc_and_attach_dialog ::
    "bool \<Rightarrow> ('d, 'w) sd_app \<Rightarrow> (sd_app_call list \<times> ('d, 'w) sd_app) res" where
  "alloc_and_attach_dialog dbg a = attach dbg SD_DIALOG (Control_Dialog new_dialog) a"

definition new_file_select :: file_select where
  "new_file_select = file_select_set_callback (Some SD_FILES) 0 file_select_alloc"

definition alloc_and_attach_file_select ::
    "bool \<Rightarrow> ('d, 'w) sd_app \<Rightarrow> (sd_app_call list \<times> ('d, 'w) sd_app) res" where
  "alloc_and_attach_file_select dbg a = attach dbg SD_FILES (Control_File_Select new_file_select) a"

definition free_view_holder ::
    "bool \<Rightarrow> ('d, 'w) sd_app \<Rightarrow> (sd_app_call list \<times> ('d, 'w) sd_app) res" where
  "free_view_holder dbg a =
     (case sa_holder a of
        None \<Rightarrow> Inr ([], a)
      | Some h \<Rightarrow>
          bindE (view_holder_free dbg (Some h)) (\<lambda>cs. Inr (holder_trace cs, a\<lparr>sa_holder := None\<rparr>)))"

definition app_reset_state ::
    "bool \<Rightarrow> ('d, 'w) sd_app \<Rightarrow> (sd_app_call list \<times> ('d, 'w) sd_app) res" where
  "app_reset_state dbg a =
     bindE (view_holder_stop (sa_holder a)) (\<lambda>(cs, h).
     bindE (free_view_holder dbg (a\<lparr>sa_holder := Some h\<rparr>)) (\<lambda>(cs1, a1).
       Inr (holder_trace cs @ cs1, a1\<lparr>sa_text := [], sa_state := SdAppStateBackground\<rparr>)))"

definition start_holder :: "('d, 'w) sd_app \<Rightarrow> (sd_app_call list \<times> ('d, 'w) sd_app) res" where
  "start_holder a =
     bindE (view_holder_start (sa_holder a)) (\<lambda>(cs, h).
       Inr (holder_trace cs, a\<lparr>sa_holder := Some h\<rparr>))"

text \<open>
  The dialog that the holder's free context points to. Reading a control of another kind through
  this pointer is not a behaviour of the source; it is a fault here, and it is shown not to happen.
\<close>

definition change_dialog ::
    "(dialog_ex \<Rightarrow> dialog_ex) \<Rightarrow> ('d, 'w) sd_app \<Rightarrow> ('d, 'w) sd_app res" where
  "change_dialog f a =
     bindE (view_holder_get_free_context (sa_holder a)) (\<lambda>ctx.
       case (ctx, sa_holder a) of
         (Some (Control_Dialog d), Some h) \<Rightarrow>
           Inr (a\<lparr>sa_holder := Some (h\<lparr>vh_free_context := Some (Control_Dialog (f d))\<rparr>)\<rparr>)
       | _ \<Rightarrow> Inl Null_Pointer)"

text \<open>A new message screen: allocate it if the place is free, set it up, show it.\<close>

definition show_dialog ::
    "bool \<Rightarrow> (dialog_ex \<Rightarrow> dialog_ex) \<Rightarrow> string \<Rightarrow> sd_app_state \<Rightarrow> ('d, 'w) sd_app \<Rightarrow>
     (sd_app_call list \<times> ('d, 'w) sd_app) res" where
  "show_dialog dbg f text_holder state a =
     bindE (try_to_alloc_view_holder dbg a) (\<lambda>(ok, cs, a1).
       if ok
       then bindE (alloc_and_attach_dialog dbg a1) (\<lambda>(cs1, a2).
            bindE (change_dialog f (a2\<lparr>sa_text := text_holder\<rparr>)) (\<lambda>a3.
            bindE (start_holder (a3\<lparr>sa_state := state\<rparr>)) (\<lambda>(cs2, a4).
              Inr (cs @ cs1 @ Sd_Set_Text # cs2, a4))))
       else Inr (cs, a1))"

section \<open>Main loop\<close>

text \<open>The first half of an iteration: a card that came or went.\<close>

definition app_card_removed ::
    "('d, 'w) sd_env \<Rightarrow> ('d, 'w) sd_app \<Rightarrow> sd_app_call list \<times> ('d, 'w) sd_app" where
  "app_card_removed env a =
     (case app_sd_unmount_card env (a\<lparr>sa_icon := False\<rparr>) of
        (cs, a1) \<Rightarrow> (Sd_Icon False # cs, a1\<lparr>sa_present := True\<rparr>))"

definition app_detect ::
    "('d, 'w) sd_env \<Rightarrow> ('d, 'w) sd_app \<Rightarrow> bool \<times> ('d, 'w) sd_app" where
  "app_detect env a =
     (case hal_detect (se_hal env) (sd_volume (sa_info a)) of
        (p, w) \<Rightarrow> (p, a\<lparr>sa_info := with_volume w (sa_info a)\<rparr>))"

definition app_card_check ::
    "('d, 'w) sd_env \<Rightarrow> ('d, 'w) sd_app \<Rightarrow> sd_app_call list \<times> ('d, 'w) sd_app" where
  "app_card_check env a =
     (let (p, a1) = app_detect env a in
      if sa_present a
      then if p
           then (let (cs, r, st) = app_sd_mount_card env (sa_info a1);
                     cs1 = [Sd_Notify (if sd_status st \<noteq> SD_OK then sd_sequence_error
                                       else sd_sequence_success), Sd_Icon True];
                     a2 = a1\<lparr>sa_info := st, sa_icon := True, sa_present := False\<rparr>;
                     (p1, a3) = app_detect env a2
                 in if \<not> p1
                    then (case app_card_removed env a3 of (cs2, a4) \<Rightarrow> (cs @ cs1 @ cs2, a4))
                    else (cs @ cs1, a3))
           else ([], a1)
      else if \<not> p
           then (case app_card_removed env a1 of
                   (cs, a2) \<Rightarrow> (cs @ [Sd_Notify sd_sequence_eject], a2))
           else ([], a1))"

definition y_1_line :: u8 where "y_1_line = 32"
definition y_2_line :: u8 where "y_2_line = 32"
definition y_4_line :: u8 where "y_4_line = 26"

abbreviation centred ::
    "(string option \<Rightarrow> u8 \<Rightarrow> u8 \<Rightarrow> align \<Rightarrow> align \<Rightarrow> dialog_ex \<Rightarrow> dialog_ex) \<Rightarrow> string \<Rightarrow> u8 \<Rightarrow> u8 \<Rightarrow>
     dialog_ex \<Rightarrow> dialog_ex" where
  "centred f s x y \<equiv> f (Some s) x y AlignCenter AlignCenter"

text \<open>OK in the dialogs of formatting and ejecting.\<close>

definition app_format ::
    "('d, 'w) sd_env \<Rightarrow> ('d, 'w) sd_app \<Rightarrow> (sd_app_call list \<times> ('d, 'w) sd_app) res" where
  "app_format env a =
     bindE (change_dialog
              (dialog_ex_set_text None 0 0 AlignCenter AlignCenter \<circ>
               centred dialog_ex_set_header ''Formatting...'' 64 y_1_line \<circ>
               dialog_ex_set_right_button_text None \<circ> dialog_ex_set_left_button_text None) a)
       (\<lambda>a1.
         let a2 = a1\<lparr>sa_state := SdAppStateFormatInProgress,
               sa_info := with_volume (hal_delay (se_hal env) 100 (sd_volume (sa_info a1))) (sa_info a1)\<rparr>;
             a3 = a2\<lparr>sa_info := app_sd_format_internal env (sa_info a2)\<rparr>
         in bindE (change_dialog
              (centred dialog_ex_set_text ''Press back to return'' 64 y_1_line \<circ>
               centred dialog_ex_set_header ''SD card formatted'' 64 10 \<circ>
               dialog_ex_set_left_button_text (Some ''Back'')) a3)
              (\<lambda>a4. Inr ([Sd_Set_Text, Sd_Notify sd_sequence_success, Sd_Set_Text],
                 a4\<lparr>sa_state := SdAppStateFormatCompleted\<rparr>)))"

definition app_eject ::
    "('d, 'w) sd_env \<Rightarrow> ('d, 'w) sd_app \<Rightarrow> (sd_app_call list \<times> ('d, 'w) sd_app) res" where
  "app_eject env a =
     bindE (change_dialog
              (centred dialog_ex_set_text (''Now the SD card'' @ lf @ ''can be removed.'') 64 y_2_line \<circ>
               centred dialog_ex_set_header ''SD card ejected'' 64 10 \<circ>
               dialog_ex_set_right_button_text None) a)
       (\<lambda>a1. case app_sd_unmount_card env (a1\<lparr>sa_state := SdAppStateEjected\<rparr>) of
               (cs, a2) \<Rightarrow> Inr (Sd_Set_Text # cs @ [Sd_Notify sd_sequence_eject], a2))"

definition app_answer ::
    "bool \<Rightarrow> bool \<Rightarrow> ('d, 'w) sd_app \<Rightarrow> (sd_app_call list \<times> ('d, 'w) sd_app) res" where
  "app_answer dbg r a = app_reset_state dbg (put_result r a)"

definition app_ok ::
    "('d, 'w) sd_env \<Rightarrow> ('d, 'w) sd_app \<Rightarrow> (sd_app_call list \<times> ('d, 'w) sd_app) res" where
  "app_ok env a =
     (case sa_state a of
        SdAppStateFormat \<Rightarrow> app_format env a
      | SdAppStateEject \<Rightarrow> app_eject env a
      | SdAppStateFileSelect \<Rightarrow> app_answer (se_dbg env) True a
      | _ \<Rightarrow> Inr ([], a))"

definition app_back ::
    "('d, 'w) sd_env \<Rightarrow> ('d, 'w) sd_app \<Rightarrow> (sd_app_call list \<times> ('d, 'w) sd_app) res" where
  "app_back env a =
     (case sa_state a of
        SdAppStateFormatInProgress \<Rightarrow> Inr ([], a)
      | SdAppStateFileSelect \<Rightarrow> app_answer (se_dbg env) False a
      | _ \<Rightarrow> app_reset_state (se_dbg env) a)"

definition app_show_format ::
    "('d, 'w) sd_env \<Rightarrow> ('d, 'w) sd_app \<Rightarrow> (sd_app_call list \<times> ('d, 'w) sd_app) res" where
  "app_show_format env a =
     show_dialog (se_dbg env)
       (centred dialog_ex_set_text ''All data will be lost.'' 64 y_1_line \<circ>
        centred dialog_ex_set_header ''Format SD card?'' 64 10 \<circ>
        dialog_ex_set_right_button_text (Some ''Format'') \<circ> dialog_ex_set_left_button_text (Some ''Back''))
       (sa_text a) SdAppStateFormat a"

definition info_text :: "sd_info \<Rightarrow> string" where
  "info_text i =
     ''Label: '' @ si_label i @ lf @ ''Type: '' @ get_fs_type_text (si_fs_type i) @ lf @
     decimal (unat (si_kb_total i)) @ '' KB total'' @ lf @
     decimal (unat (si_kb_free i)) @ '' KB free''"

definition info_error_text :: "sd_error \<Rightarrow> sd_info \<Rightarrow> string" where
  "info_error_text status i =
     ''SD status: '' @ fs_error_get_internal_desc status @ lf @ '' SD info: '' @
     fs_error_get_internal_desc (si_error i)"

definition app_show_info ::
    "('d, 'w) sd_env \<Rightarrow> ('d, 'w) sd_app \<Rightarrow> (sd_app_call list \<times> ('d, 'w) sd_app) res" where
  "app_show_info env a =
     (let i = get_sd_info env (sa_info a);
          s = (if si_error i = SD_OK then info_text i else info_error_text (fs_status (sa_info a)) i)
      in show_dialog (se_dbg env)
           ((if si_error i = SD_OK
             then dialog_ex_set_text (Some s) 4 y_4_line AlignLeft AlignCenter
             else centred dialog_ex_set_text s 64 y_2_line \<circ>
                  centred dialog_ex_set_header ''Error'' 64 10) \<circ>
            dialog_ex_set_left_button_text (Some ''Back''))
           s SdAppStateInfo a)"

definition app_show_eject ::
    "('d, 'w) sd_env \<Rightarrow> ('d, 'w) sd_app \<Rightarrow> (sd_app_call list \<times> ('d, 'w) sd_app) res" where
  "app_show_eject env a =
     show_dialog (se_dbg env)
       (centred dialog_ex_set_text (''SD card will be'' @ lf @ ''unavailable'') 64 y_2_line \<circ>
        centred dialog_ex_set_header ''Eject SD card?'' 64 10 \<circ>
        dialog_ex_set_right_button_text (Some ''Eject'') \<circ> dialog_ex_set_left_button_text (Some ''Back''))
       (sa_text a) SdAppStateEject a"

definition app_check_error ::
    "('d, 'w) sd_env \<Rightarrow> ('d, 'w) sd_app \<Rightarrow> (sd_app_call list \<times> ('d, 'w) sd_app) res" where
  "app_check_error env a =
     (if sd_status (sa_info a) \<noteq> SD_OK
      then show_dialog (se_dbg env)
             ((if sd_status (sa_info a) = SD_NO_CARD
               then dialog_ex_set_icon 5 6 ''I_SDQuestion_35x43'' \<circ>
                    centred dialog_ex_set_text (''SD card'' @ lf @ ''not found'') 88 y_1_line
               else dialog_ex_set_icon 5 10 ''I_SDError_43x35'' \<circ>
                    centred dialog_ex_set_text (''SD card'' @ lf @ ''error'') 88 y_1_line) \<circ>
              dialog_ex_set_left_button_text (Some ''Back''))
             (sa_text a) SdAppStateCheckError a
      else Inr ([], a))"

definition app_show_error ::
    "('d, 'w) sd_env \<Rightarrow> string option \<Rightarrow> ('d, 'w) sd_app \<Rightarrow>
     (sd_app_call list \<times> ('d, 'w) sd_app) res" where
  "app_show_error env s a =
     show_dialog (se_dbg env)
       (dialog_ex_set_icon 5 6 ''I_SDQuestion_35x43'' \<circ>
        dialog_ex_set_text s 88 y_1_line AlignCenter AlignCenter \<circ>
        dialog_ex_set_left_button_text (Some ''Back''))
       (sa_text a) SdAppStateShowError a"

text \<open>A change of the file list that the holder shows, with the state of the file API.\<close>

definition set_files :: "file_select \<Rightarrow> ('d, 'w) sd_fs \<Rightarrow> ('d, 'w) sd_app \<Rightarrow> ('d, 'w) sd_app" where
  "set_files s st a =
     a\<lparr>sa_info := st,
       sa_holder := map_option (\<lambda>h. h\<lparr>vh_free_context := Some (Control_File_Select s)\<rparr>) (sa_holder a)\<rparr>"

definition configured :: "file_select_data \<Rightarrow> file_select" where
  "configured d =
     file_select_set_result_buffer (fsd_result d) (fsd_result_size d)
       (file_select_set_filter (fsd_path d) (fsd_extension d)
         (file_select_set_api True new_file_select))"

text \<open>The screen of the files, when the place is free; \<open>a\<close> already holds the new control.\<close>

definition app_open_files ::
    "('d, 'w) sd_env \<Rightarrow> file_select_data \<Rightarrow> ('d, 'w) sd_app \<Rightarrow>
     (sd_app_call list \<times> ('d, 'w) sd_app) res option" where
  "app_open_files env d a =
     bindO (file_select_init (se_dbg env) (se_fs env) (configured d) (sa_info a))
       (\<lambda>(ok, calls, s, st).
         let a1 = file_calls calls (set_files s st a) in
         if \<not> ok then Some (app_answer (se_dbg env) False a1)
         else
           (let a2 = a1\<lparr>sa_state := SdAppStateFileSelect\<rparr> in
            bindO (case fsd_selected_filename d of
                     None \<Rightarrow> Some (Inr a2)
                   | Some name \<Rightarrow>
                       bindO (file_select_set_selected_file (se_dbg env) (se_fs env) name s st)
                         (\<lambda>(calls1, s1, st1). Some (Inr (file_calls calls1 (set_files s1 st1 a2)))))
              (\<lambda>a3. Some (start_holder a3))))"

definition app_file_select ::
    "('d, 'w) sd_env \<Rightarrow> file_select_data \<Rightarrow> ('d, 'w) sd_app \<Rightarrow>
     (sd_app_call list \<times> ('d, 'w) sd_app) res option" where
  "app_file_select env d a =
     bindO (Some (app_sd_make_path (se_dbg env) (se_ff env) (fsd_path d) (sd_volume (sa_info a))))
       (\<lambda>(made, w).
         let a1 = a\<lparr>sa_info := with_volume w (sa_info a)\<rparr> in
         if \<not> made then Some (Inr ([], put_result False a1))
         else
           bindO (Some (try_to_alloc_view_holder (se_dbg env) a1)) (\<lambda>(ok, cs, a2).
             if \<not> ok then Some (Inr (cs, put_result False a2))
             else
               bindO (Some (alloc_and_attach_file_select (se_dbg env) a2)) (\<lambda>(cs1, a3).
               bindO (app_open_files env d a3) (\<lambda>(cs2, a4).
                 Some (Inr (cs @ cs1 @ cs2, a4))))))"

definition app_handle ::
    "('d, 'w) sd_env \<Rightarrow> sd_app_event \<Rightarrow> ('d, 'w) sd_app \<Rightarrow>
     (sd_app_call list \<times> ('d, 'w) sd_app) res option" where
  "app_handle env e a =
     (case e of
        SdAppEventTypeOK \<Rightarrow> Some (app_ok env a)
      | SdAppEventTypeBack \<Rightarrow> Some (app_back env a)
      | SdAppEventTypeFormat \<Rightarrow> Some (app_show_format env a)
      | SdAppEventTypeInfo \<Rightarrow> Some (app_show_info env a)
      | SdAppEventTypeEject \<Rightarrow> Some (app_show_eject env a)
      | SdAppEventTypeFileSelect d \<Rightarrow> app_file_select env d a
      | SdAppEventTypeCheckError \<Rightarrow> Some (app_check_error env a)
      | SdAppEventTypeShowError s \<Rightarrow> Some (app_show_error env s a))"

text \<open>One iteration of \<^verbatim>\<open>sd_filesystem\<close>: without an event within a second the loop goes round.\<close>

definition sd_filesystem_iteration ::
    "('d, 'w) sd_env \<Rightarrow> ('d, 'w) sd_app \<Rightarrow> (sd_app_call list \<times> ('d, 'w) sd_app) res option" where
  "sd_filesystem_iteration env a =
     (case app_card_check env a of
        (cs, a1) \<Rightarrow>
          (case sa_events a1 of
             [] \<Rightarrow> Some (Inr (cs, a1))
           | e # es \<Rightarrow>
               bindO (app_handle env e (a1\<lparr>sa_events := es\<rparr>))
                 (\<lambda>(cs1, a2). Some (Inr (cs @ cs1, a2)))))"

section \<open>Keys\<close>

text \<open>
  A key that the GUI hands to the view port of the holder, in the thread of the GUI: the control
  gets it first, then the holder. Without a holder, or with its port disabled, no key arrives.
\<close>

definition control_input ::
    "('d, 'w) sd_env \<Rightarrow> input_event \<Rightarrow> control \<Rightarrow> ('d, 'w) sd_app \<Rightarrow>
     (bool \<times> ('d, 'w) sd_app) res option" where
  "control_input env e c a =
     (case c of
        Control_Dialog d \<Rightarrow>
          (case dialog_ex_view_input_callback e d of
             (consumed, cs) \<Rightarrow> Some (Inr (consumed, dialog_calls cs a)))
      | Control_File_Select s \<Rightarrow>
          bindO (file_select_input_callback (se_dbg env) (se_fs env) e s (sa_info a))
            (\<lambda>(consumed, cs, s1, st). Some (Inr (consumed, file_calls cs (set_files s1 st a)))))"

definition app_key ::
    "('d, 'w) sd_env \<Rightarrow> input_event \<Rightarrow> ('d, 'w) sd_app \<Rightarrow> ('d, 'w) sd_app res option" where
  "app_key env e a =
     (case sa_holder a of
        Some h \<Rightarrow>
          if is_enabled (vh_port h) \<and> vh_gui h
          then bindO (case (vh_view h, vh_free_context h) of
                        (Some _, Some c) \<Rightarrow> control_input env e c a
                      | _ \<Rightarrow> Some (Inr (False, a)))
                 (\<lambda>(consumed, a1).
                   Some (Inr (holder_calls (view_holder_input_callback consumed e h) a1)))
          else Some (Inr a)
      | None \<Rightarrow> Some (Inr a))"

section \<open>Screens, step by step\<close>

text \<open>The holder that shows a control, before and after it is started.\<close>

definition holder_of :: "bool \<Rightarrow> control \<Rightarrow> control view_holder" where
  "holder_of started c =
     \<lparr>vh_view = Some (case c of Control_Dialog _ \<Rightarrow> SD_DIALOG | Control_File_Select _ \<Rightarrow> SD_FILES),
      vh_port = \<lparr>port_gui = True, is_enabled = started, port_orientation = ViewPortOrientationHorizontal,
        port_width = 0, port_height = 0, port_draw = Some (HOLDER_DRAW, 0),
        port_input = Some (HOLDER_INPUT, 0)\<rparr>,
      vh_gui = True,
      vh_free_callback = Some (case c of Control_Dialog _ \<Rightarrow> SD_DIALOG | Control_File_Select _ \<Rightarrow> SD_FILES),
      vh_free_context = Some c, vh_back_callback = Some SD_BACK, vh_back_context = 0\<rparr>"

lemmas holder_defs =
  holder_at_def holder_trace_def view_holder_attach_to_gui_def view_holder_set_back_callback_def
  view_holder_alloc_def view_port_alloc_def view_port_draw_callback_set_def
  view_port_input_callback_set_def view_port_enabled_set_def view_port_gui_set_def Let_def
  view_holder_set_view_def view_holder_set_free_callback_def view_holder_enable_def
  view_holder_start_def view_holder_stop_def updates_def view_holder_get_free_context_def

lemma try_to_alloc_cases:
  "try_to_alloc_view_holder dbg a =
     (case sa_holder a of
        Some _ \<Rightarrow> Inr (False, [], a)
      | None \<Rightarrow> Inr (True, [Sd_Holder Holder_Port_Added],
          a\<lparr>sa_holder := Some ((holder_of False (Control_Dialog new_dialog))
             \<lparr>vh_view := None, vh_free_callback := None, vh_free_context := None\<rparr>)\<rparr>))"
  by (simp add: try_to_alloc_view_holder_def holder_defs holder_of_def split: option.split)

lemma show_dialog_cases:
  "\<exists>cs. show_dialog dbg f t s a =
     (case sa_holder a of
        Some _ \<Rightarrow> Inr ([], a)
      | None \<Rightarrow> Inr (cs, a\<lparr>sa_text := t, sa_state := s,
          sa_holder := Some (holder_of True (Control_Dialog (f new_dialog)))\<rparr>))"
  by (cases "sa_holder a")
    (simp_all add: show_dialog_def try_to_alloc_cases alloc_and_attach_dialog_def attach_def
      change_dialog_def start_holder_def holder_defs holder_of_def)

lemma change_dialog_shown:
  "sa_holder a = Some (holder_of b (Control_Dialog d)) \<Longrightarrow>
   change_dialog f a = Inr (a\<lparr>sa_holder := Some (holder_of b (Control_Dialog (f d)))\<rparr>)"
  by (simp add: change_dialog_def holder_defs holder_of_def)

lemma reset_without_holder:
  "sa_holder a = None \<Longrightarrow> app_reset_state dbg a = Inl Null_Pointer"
  by (simp add: app_reset_state_def holder_defs)

lemma reset_with_holder:
  "sa_holder a = Some (holder_of b c) \<Longrightarrow>
   \<exists>cs. app_reset_state dbg a =
     Inr (cs, a\<lparr>sa_holder := None, sa_text := [], sa_state := SdAppStateBackground\<rparr>)"
  by (simp add: app_reset_state_def free_view_holder_def view_holder_free_def view_port_free_def
      furi_check_def holder_defs holder_of_def)

lemma start_shown:
  "sa_holder a = Some (holder_of b c) \<Longrightarrow>
   \<exists>cs. start_holder a = Inr (cs, a\<lparr>sa_holder := Some (holder_of True c)\<rparr>)"
  by (simp add: start_holder_def holder_defs holder_of_def)

lemma attach_files:
  "sa_holder a = Some ((holder_of False (Control_Dialog new_dialog))
     \<lparr>vh_view := None, vh_free_callback := None, vh_free_context := None\<rparr>) \<Longrightarrow>
   \<exists>cs. alloc_and_attach_file_select dbg a =
     Inr (cs, a\<lparr>sa_holder := Some (holder_of False (Control_File_Select new_file_select))\<rparr>)"
  by (simp add: alloc_and_attach_file_select_def attach_def holder_defs holder_of_def)

lemma set_files_shown [simp]:
  "sa_holder a = Some (holder_of b (Control_File_Select s0)) \<Longrightarrow>
   set_files s st a = a\<lparr>sa_info := st, sa_holder := Some (holder_of b (Control_File_Select s))\<rparr>"
  by (simp add: set_files_def holder_of_def)

section \<open>Reachable states\<close>

text \<open>
  The application and the rest of the system as a step relation; the numbers are the requests
  for a file that were made and the answers that were taken. A step has its own environment: memory
  and threads differ from step to step.
\<close>

inductive sd_reaches :: "nat \<Rightarrow> nat \<Rightarrow> ('d, 'w) sd_app \<Rightarrow> bool" where
  start: "sd_reaches 0 0 (sd_app_alloc ff w)"
| iteration: "sd_reaches n m a \<Longrightarrow> sd_filesystem_iteration env a = Some (Inr (cs, a1)) \<Longrightarrow>
    sd_reaches n m a1"
| key: "sd_reaches n m a \<Longrightarrow> app_key env e a = Some (Inr a1) \<Longrightarrow> sd_reaches n m a1"
| info: "sd_reaches n m a \<Longrightarrow> sd_reaches n m (app_sd_info_callback a)"
| format: "sd_reaches n m a \<Longrightarrow> sd_reaches n m (app_sd_format_callback a)"
| eject: "sd_reaches n m a \<Longrightarrow> sd_reaches n m (app_sd_eject_callback a)"
| check_error: "sd_reaches n m a \<Longrightarrow> sd_reaches n m (sd_api_check_error a)"
| show_error: "sd_reaches n m a \<Longrightarrow> sd_reaches n m (sd_api_show_error s a)"
| ask: "sd_reaches n m a \<Longrightarrow> sd_reaches (Suc n) m (sd_api_file_select_ask d a)"
| answer: "sd_reaches n m a \<Longrightarrow> sd_api_file_select_answer a = Some (r, a1) \<Longrightarrow>
    sd_reaches n (Suc m) a1"
| file_api: "sd_reaches n m a \<Longrightarrow>
    sd_reaches n m (a\<lparr>sa_info := snd (sd_exec ff t f c (sa_info a))\<rparr>)"
| cli_format: "sd_reaches n m a \<Longrightarrow>
    sd_reaches n m (a\<lparr>sa_info := snd (cli_sd_format env ch (sa_info a))\<rparr>)"

text \<open>A file list that can be used: the folder, the extension and the callback are set.\<close>

definition files_usable :: "file_select \<Rightarrow> bool" where
  "files_usable s \<longleftrightarrow> fs_api s \<and> fs_path s \<noteq> None \<and> fs_extension s \<noteq> None \<and> fs_callback s \<noteq> None"

definition screen_ok :: "('d, 'w) sd_app \<Rightarrow> bool" where
  "screen_ok a \<longleftrightarrow>
     (case sa_state a of
        SdAppStateBackground \<Rightarrow> sa_holder a = None
      | SdAppStateFormatInProgress \<Rightarrow> False
      | SdAppStateFileSelect \<Rightarrow>
          (\<exists>s. sa_holder a = Some (holder_of True (Control_File_Select s)) \<and> files_usable s)
      | _ \<Rightarrow> (\<exists>d. sa_holder a = Some (holder_of True (Control_Dialog d))))"

text \<open>The requests that wait for an answer.\<close>

definition is_request :: "sd_app_event \<Rightarrow> bool" where
  "is_request e = (case e of SdAppEventTypeFileSelect _ \<Rightarrow> True | _ \<Rightarrow> False)"

definition owed :: "('d, 'w) sd_app \<Rightarrow> nat" where
  "owed a = length (filter is_request (sa_events a)) + (if sa_state a = SdAppStateFileSelect then 1 else 0)"

text \<open>What a step of the application keeps.\<close>

definition keeps :: "nat \<Rightarrow> ('d, 'w) sd_app \<Rightarrow> ('d, 'w) sd_app \<Rightarrow> bool" where
  "keeps k a a1 \<longleftrightarrow> screen_ok a1 \<and> length (sa_results a1) + owed a1 = length (sa_results a) + owed a + k"

lemma screen_ok_info [simp]:
  "screen_ok (a\<lparr>sa_info := st\<rparr>) = screen_ok a" "screen_ok (a\<lparr>sa_icon := b\<rparr>) = screen_ok a"
  "screen_ok (a\<lparr>sa_present := b\<rparr>) = screen_ok a" "screen_ok (a\<lparr>sa_events := es\<rparr>) = screen_ok a"
  "screen_ok (a\<lparr>sa_results := rs\<rparr>) = screen_ok a"
  by (simp_all add: screen_ok_def split: sd_app_state.split)

lemma owed_info [simp]:
  "owed (a\<lparr>sa_info := st\<rparr>) = owed a" "owed (a\<lparr>sa_icon := b\<rparr>) = owed a"
  "owed (a\<lparr>sa_present := b\<rparr>) = owed a" "owed (a\<lparr>sa_results := rs\<rparr>) = owed a"
  by (simp_all add: owed_def)

lemma dialogs_only_put:
  "\<exists>es. dialog_calls cs a = a\<lparr>sa_events := sa_events a @ es\<rparr> \<and> filter is_request es = []"
proof (induction cs arbitrary: a)
  case Nil
  then show ?case by (auto intro: exI [of _ "[]"])
next
  case (Cons c cs)
  obtain cb r ctx where c: "c = Dialog_Ex_Callback cb r ctx" by (cases c)
  obtain es0 where e0: "app_view_dialog_callback r a = a\<lparr>sa_events := sa_events a @ es0\<rparr>"
    "filter is_request es0 = []"
    by (cases r) (auto simp: app_view_dialog_callback_def put_event_def is_request_def intro: that [of "[]"])
  from Cons [of "app_view_dialog_callback r a"] obtain es where
    "dialog_calls cs (app_view_dialog_callback r a) =
       (app_view_dialog_callback r a)\<lparr>sa_events := sa_events (app_view_dialog_callback r a) @ es\<rparr>"
    "filter is_request es = []" by auto
  then show ?case using e0 by (auto simp: c intro: exI [of _ "es0 @ es"])
qed

lemma files_only_put:
  "\<exists>es. file_calls cs a = a\<lparr>sa_events := sa_events a @ es\<rparr> \<and> filter is_request es = []"
proof (induction cs arbitrary: a)
  case Nil
  then show ?case by (auto intro: exI [of _ "[]"])
next
  case (Cons c cs)
  obtain cb r ctx where c: "c = File_Select_Callback cb r ctx" by (cases c)
  obtain e0 where e0: "app_view_file_select_callback r a = a\<lparr>sa_events := sa_events a @ [e0]\<rparr>"
    "\<not> is_request e0"
    by (cases r) (auto simp: app_view_file_select_callback_def put_event_def is_request_def)
  from Cons [of "app_view_file_select_callback r a"] obtain es where
    "file_calls cs (app_view_file_select_callback r a) =
       (app_view_file_select_callback r a)\<lparr>sa_events := sa_events (app_view_file_select_callback r a) @ es\<rparr>"
    "filter is_request es = []" by auto
  then show ?case using e0 by (auto simp: c intro: exI [of _ "e0 # es"])
qed

lemma holder_only_puts:
  "\<exists>es. holder_calls (view_holder_input_callback b e h) a = a\<lparr>sa_events := sa_events a @ es\<rparr> \<and>
     filter is_request es = []"
  by (auto simp: view_holder_input_callback_def app_view_back_callback_def put_event_def
      is_request_def intro: exI [of _ "[]"] split: option.split)

section \<open>The file list of a request\<close>

text \<open>The fields of the list that no operation on the directory changes.\<close>

definition same_setup :: "file_select \<Rightarrow> file_select \<Rightarrow> bool" where
  "same_setup s s1 \<longleftrightarrow>
     fs_api s1 = fs_api s \<and> fs_path s1 = fs_path s \<and> fs_extension s1 = fs_extension s \<and>
     fs_callback s1 = fs_callback s"

lemma same_setup_usable: "same_setup s s1 \<Longrightarrow> files_usable s1 = files_usable s"
  by (simp add: same_setup_def files_usable_def)

lemma same_setup_trans: "same_setup s s1 \<Longrightarrow> same_setup s1 s2 \<Longrightarrow> same_setup s s2"
  by (simp add: same_setup_def)

text \<open>An operation that does not fault on \<open>s\<close> and keeps its set-up.\<close>

definition harmless :: "file_select \<Rightarrow> ('b \<Rightarrow> file_select) \<Rightarrow> 'b res option \<Rightarrow> bool" where
  "harmless s sel r \<longleftrightarrow> (case r of None \<Rightarrow> True | Some (Inl _) \<Rightarrow> False | Some (Inr x) \<Rightarrow> same_setup s (sel x))"

lemma fill_count_harmless:
  "files_usable s \<Longrightarrow> harmless s (fst \<circ> snd) (file_select_fill_count dbg env s st)"
  by (auto simp: harmless_def file_select_fill_count_def filter_set_def files_usable_def
      same_setup_def split: option.split prod.split)

lemma fill_strings_harmless:
  "files_usable s \<Longrightarrow> harmless s (fst \<circ> snd) (file_select_fill_strings dbg env s st)"
  by (auto simp: harmless_def file_select_fill_strings_def filter_set_def files_usable_def
      same_setup_def split: option.split prod.split)

lemma harmless_bind:
  assumes "harmless s sel m" and "\<And>x. m = Some (Inr x) \<Longrightarrow> same_setup s (sel x) \<Longrightarrow> harmless (sel x) sel1 (f x)"
  shows "harmless s sel1 (bindO m f)"
  using assms
  by (auto simp: harmless_def bindO_def intro: same_setup_trans split: option.splits sum.splits)

lemma harmless_done [simp]: "harmless s sel (Some (Inr x)) = same_setup s (sel x)"
  by (simp add: harmless_def)

lemma same_setup_simps [simp]:
  "same_setup s s" "same_setup s (s\<lparr>fs_init_completed := b\<rparr>)" "same_setup s (s\<lparr>fs_count := n\<rparr>)"
  by (simp_all add: same_setup_def)

lemma call_back_usable: "files_usable s \<Longrightarrow> \<exists>cb. call_back b s = Inr [cb]"
  by (auto simp: files_usable_def call_back_def)

lemma init_inner_harmless:
  assumes "files_usable s"
  shows "harmless s (fst \<circ> snd) (file_select_init_inner dbg env s st)"
proof -
  have "harmless s (fst \<circ> snd) (bindO (file_select_fill_count dbg env s st) (\<lambda>(ok, s1, st1).
      if ok
      then bindO (file_select_fill_strings dbg env s1 st1) (\<lambda>(ok1, s2, st2).
           Some (Inr (ok1, if ok1 then s2\<lparr>fs_init_completed := True\<rparr> else s2, st2)))
      else Some (Inr (False, s1, st1))))"
    using assms
    by (intro harmless_bind [where sel = "fst \<circ> snd"] fill_count_harmless)
      (auto intro!: harmless_bind [where sel = "fst \<circ> snd"] fill_strings_harmless
        simp: same_setup_usable)
  then show ?thesis using assms by (simp add: file_select_init_inner_def files_usable_def)
qed

lemma report_harmless:
  "files_usable s \<Longrightarrow> sel (b, [File_Select_Callback (the (fs_callback s)) False (fs_context s)], s, st) = s \<Longrightarrow>
   harmless s sel (Some (bindE (call_back False s) (\<lambda>cs. Inr (b, cs, s, st))))"
  by (auto simp: files_usable_def call_back_def)

lemma file_select_refill_harmless:
  fixes st :: "('d, 'w) sd_fs"
  assumes "files_usable s"
  shows "harmless s (fst \<circ> snd \<circ> snd) (file_select_refill dbg env s st)"
  unfolding file_select_refill_def
proof (rule harmless_bind [where sel = "fst \<circ> snd"])
  show "harmless s (fst \<circ> snd) (file_select_fill_strings dbg env s st)"
    using assms by (rule fill_strings_harmless)
next
  fix x :: "bool \<times> file_select \<times> ('d, 'w) sd_fs"
  assume "same_setup s ((fst \<circ> snd) x)"
  moreover obtain ok s1 st1 where "x = (ok, s1, st1)" by (cases x)
  ultimately show "harmless ((fst \<circ> snd) x) (fst \<circ> snd \<circ> snd)
      (case x of (ok, s1, st1) \<Rightarrow> if ok then Some (Inr (True, [], s1, st1))
         else Some (bindE (call_back False s1) (\<lambda>cs. Inr (True, cs, s1, st1))))"
    using assms same_setup_usable [of s s1] by (auto intro!: report_harmless)
qed

lemma harmless_map:
  "harmless s sel (map_option g m) =
     (\<forall>x. m = Some x \<longrightarrow> (case g x of Inl _ \<Rightarrow> False | Inr y \<Rightarrow> same_setup s (sel y)))"
  by (cases m) (simp_all add: harmless_def)

lemma set_selected_internal_harmless:
  assumes "files_usable s"
  shows "harmless s fst (file_select_set_selected_file_internal dbg env name s st)"
proof -
  have p: "same_setup s (file_select_place pos s)" for pos
    by (simp add: same_setup_def file_select_place_def Let_def)
  from assms obtain path ext where "fs_api s" "fs_path s = Some path" "fs_extension s = Some ext"
    by (auto simp: files_usable_def)
  then show ?thesis
    unfolding file_select_set_selected_file_internal_def filter_set_def
    by (auto simp: harmless_map p split: prod.split option.split bool.split)
qed

lemma set_selected_harmless:
  fixes st :: "('d, 'w) sd_fs"
  assumes "files_usable s"
  shows "harmless s (fst \<circ> snd) (file_select_set_selected_file dbg env name s st)"
  unfolding file_select_set_selected_file_def
proof (rule harmless_bind [where sel = fst])
  show "harmless s fst (file_select_set_selected_file_internal dbg env name s st)"
    using assms by (rule set_selected_internal_harmless)
next
  fix x :: "file_select \<times> ('d, 'w) sd_fs"
  assume k: "same_setup s (fst x)"
  obtain s1 st1 where x: "x = (s1, st1)" by (cases x)
  have "harmless s1 (fst \<circ> snd) (bindO (file_select_refill dbg env s1 st1)
      (\<lambda>(_, cs, s2, st2). Some (Inr (cs, s2, st2))))"
    using assms k same_setup_usable [of s s1]
    by (intro harmless_bind [where sel = "fst \<circ> snd \<circ> snd"] file_select_refill_harmless)
      (auto simp: x)
  then show "harmless (fst x) (fst \<circ> snd) (case x of (s1, st1) \<Rightarrow>
      bindO (file_select_refill dbg env s1 st1) (\<lambda>(_, cs, s2, st2). Some (Inr (cs, s2, st2))))"
    by (simp add: x)
qed

text \<open>A new list either shows files and reports nothing, or reports once that it cannot.\<close>

lemma init_reports:
  assumes "fs_callback s = Some cb"
    and "file_select_init dbg env s st = Some r"
  shows "\<exists>s1 st1. r = Inr (True, [], s1, st1) \<and> files_usable s1 \<or>
    r = Inr (False, [File_Select_Callback cb False (fs_context s1)], s1, st1)"
proof (cases "files_usable s")
  case True
  from init_inner_harmless [OF this, of dbg env st] assms obtain ok s1 st1 where
    i: "file_select_init_inner dbg env s st = Some (Inr (ok, s1, st1))" and k: "same_setup s s1"
    by (cases "file_select_init_inner dbg env s st")
      (auto simp: harmless_def file_select_init_def bindO_def split: sum.splits)
  from k assms have "fs_callback s1 = Some cb" by (simp add: same_setup_def)
  with i k True assms show ?thesis
    by (cases ok) (auto simp: file_select_init_def call_back_def same_setup_usable)
next
  case False
  then have "file_select_init_inner dbg env s st = Some (Inr (False, s, st))"
    using assms(1) by (auto simp: file_select_init_inner_def files_usable_def)
  with assms show ?thesis by (auto simp: file_select_init_def call_back_def)
qed

lemma set_selected_usable:
  assumes "files_usable s"
    and "file_select_set_selected_file dbg env name s st = Some r"
  shows "\<exists>cs s1 st1. r = Inr (cs, s1, st1) \<and> files_usable s1"
  using set_selected_harmless [OF assms(1), of dbg env name st] assms same_setup_usable
  by (cases r) (auto simp: harmless_def)

lemma ok_key_keeps:
  "file_select_ok s = Inr (cs, s1) \<Longrightarrow> same_setup s s1"
  by (auto simp: file_select_ok_def same_setup_def bindE_def split: option.splits sum.splits)

lemma refill_keeps:
  "files_usable s \<Longrightarrow> file_select_refill dbg env s st = Some (Inr (c, cs, s1, st1)) \<Longrightarrow> files_usable s1"
  using file_select_refill_harmless [of s dbg env st] by (auto simp: harmless_def same_setup_usable)

lemma init_inner_keeps:
  "files_usable s \<Longrightarrow> file_select_init_inner dbg env s st = Some (Inr (c, s1, st1)) \<Longrightarrow> files_usable s1"
  using init_inner_harmless [of s dbg env st] by (auto simp: harmless_def same_setup_usable)

lemma moves_keep:
  "files_usable s \<Longrightarrow> files_usable (file_select_up s)"
  "files_usable s \<Longrightarrow> files_usable (file_select_down s)"
  by (simp_all add: files_usable_def file_select_up_def file_select_down_def Let_def)

lemma input_keeps_setup:
  assumes u: "files_usable s"
    and r: "file_select_input_callback dbg env e s st = Some (Inr (c, cs, s1, st1))"
  shows "files_usable s1"
proof -
  consider (other) "ev_type e \<noteq> InputTypeShort" | (first) "ev_type e = InputTypeShort" "\<not> fs_init_completed s"
    | (key) "ev_type e = InputTypeShort" "fs_init_completed s" by blast
  then show ?thesis
  proof cases
    case other
    with u r show ?thesis by (simp add: file_select_input_callback_def)
  next
    case first
    with r obtain ok st2 where "file_select_init_inner dbg env s st = Some (Inr (ok, s1, st2))"
      by (auto simp: file_select_input_callback_def bindO_def bindE_def
          split: option.splits sum.splits if_splits)
    with u show ?thesis by (rule init_inner_keeps)
  next
    case key
    with u r show ?thesis
      using moves_keep [OF u] ok_key_keeps [of s] same_setup_usable
      by (cases "ev_key e")
        (auto simp: file_select_input_callback_def bindE_def dest: refill_keeps split: sum.splits)
  qed
qed

section \<open>Every handler keeps the screen and the account of requests\<close>

lemma holder_of_eq [simp]: "holder_of b c = holder_of b1 c1 \<longleftrightarrow> b = b1 \<and> c = c1"
  by (auto simp: holder_of_def)

definition goes ::
    "nat \<Rightarrow> ('d, 'w) sd_app \<Rightarrow> (sd_app_call list \<times> ('d, 'w) sd_app) res \<Rightarrow> bool" where
  "goes k a r \<longleftrightarrow> (\<exists>cs a1. r = Inr (cs, a1) \<and> keeps k a a1)"

lemma goes_simps [simp]: "goes k a (Inr (cs, a1)) = keeps k a a1" "\<not> goes k a (Inl f)"
  by (simp_all add: goes_def)

lemma dialog_keeps:
  assumes "screen_ok a" and "s \<notin> {SdAppStateBackground, SdAppStateFormatInProgress, SdAppStateFileSelect}"
  shows "goes 0 a (show_dialog dbg f t s a)"
proof -
  obtain cs where "show_dialog dbg f t s a =
     (case sa_holder a of
        Some _ \<Rightarrow> Inr ([], a)
      | None \<Rightarrow> Inr (cs, a\<lparr>sa_text := t, sa_state := s,
          sa_holder := Some (holder_of True (Control_Dialog (f new_dialog)))\<rparr>))"
    using show_dialog_cases by blast
  with assms show ?thesis
    by (cases s; cases "sa_holder a"; cases "sa_state a")
      (auto simp: keeps_def screen_ok_def owed_def)
qed

lemma reset_keeps:
  assumes "screen_ok a" and "sa_state a \<noteq> SdAppStateBackground" and "sa_state a \<noteq> SdAppStateFileSelect"
  shows "goes 0 a (app_reset_state dbg a)"
proof -
  from assms obtain c where "sa_holder a = Some (holder_of True c)"
    by (auto simp: screen_ok_def split: sd_app_state.splits)
  with reset_with_holder [OF this, of dbg] assms show ?thesis
    by (auto simp: keeps_def screen_ok_def owed_def)
qed

lemma answer_keeps:
  assumes "screen_ok a" and "sa_state a = SdAppStateFileSelect"
  shows "goes 0 a (app_answer dbg r a)"
proof -
  from assms obtain s where "sa_holder a = Some (holder_of True (Control_File_Select s))"
    by (auto simp: screen_ok_def)
  then have "sa_holder (put_result r a) = Some (holder_of True (Control_File_Select s))"
    by (simp add: put_result_def)
  with reset_with_holder [OF this, of dbg] assms show ?thesis
    by (auto simp: app_answer_def keeps_def screen_ok_def owed_def put_result_def)
qed

lemma unmount_fields:
  "\<exists>cs st. app_sd_unmount_card env a = (cs, a\<lparr>sa_icon := False, sa_info := st\<rparr>)"
  by (auto simp: app_sd_unmount_card_def Let_def split: prod.split)

lemma format_keeps:
  assumes "screen_ok a" and "sa_state a = SdAppStateFormat"
  shows "goes 0 a (app_format env a)"
proof -
  from assms obtain d where "sa_holder a = Some (holder_of True (Control_Dialog d))"
    by (auto simp: screen_ok_def)
  with assms show ?thesis
    by (simp add: app_format_def change_dialog_shown Let_def keeps_def screen_ok_def owed_def)
qed

lemma eject_keeps:
  assumes "screen_ok a" and "sa_state a = SdAppStateEject"
  shows "goes 0 a (app_eject env a)"
proof -
  from assms obtain d where d: "sa_holder a = Some (holder_of True (Control_Dialog d))"
    by (auto simp: screen_ok_def)
  obtain d1 where d1: "change_dialog
      (centred dialog_ex_set_text (''Now the SD card'' @ lf @ ''can be removed.'') 64 y_2_line \<circ>
       centred dialog_ex_set_header ''SD card ejected'' 64 10 \<circ> dialog_ex_set_right_button_text None) a =
      Inr (a\<lparr>sa_holder := Some (holder_of True (Control_Dialog d1))\<rparr>)"
    unfolding change_dialog_shown [OF d] by blast
  define b where "b = a\<lparr>sa_holder := Some (holder_of True (Control_Dialog d1)), sa_state := SdAppStateEjected\<rparr>"
  obtain cs st where "app_sd_unmount_card env b = (cs, b\<lparr>sa_icon := False, sa_info := st\<rparr>)"
    using unmount_fields by blast
  with d1 assms show ?thesis
    by (simp add: app_eject_def b_def keeps_def screen_ok_def owed_def)
qed

lemma ok_keeps: "screen_ok a \<Longrightarrow> goes 0 a (app_ok env a)"
  using format_keeps [of a env] eject_keeps [of a env] answer_keeps [of a "se_dbg env" True]
  by (cases "sa_state a") (auto simp: app_ok_def keeps_def)

lemma back_keeps:
  "screen_ok a \<Longrightarrow> sa_state a \<noteq> SdAppStateBackground \<Longrightarrow>
   goes 0 a (app_back env a)"
  using reset_keeps [of a "se_dbg env"] answer_keeps [of a "se_dbg env" False]
  by (cases "sa_state a") (auto simp: app_back_def screen_ok_def)

lemma back_in_background:
  "screen_ok a \<Longrightarrow> sa_state a = SdAppStateBackground \<Longrightarrow> app_back env a = Inl Null_Pointer"
  by (simp add: app_back_def screen_ok_def reset_without_holder)

section \<open>The file list keeps them as well\<close>

lemma put_events_keep:
  assumes "screen_ok a" and "filter is_request es = []"
  shows "keeps 0 a (a\<lparr>sa_events := sa_events a @ es\<rparr>)"
  using assms by (auto simp: keeps_def owed_def)

lemma answer_unstarted:
  assumes "sa_state a = SdAppStateBackground"
    and "sa_holder a = Some (holder_of b c)"
  shows "\<exists>cs. app_answer dbg r a =
    Inr (cs, a\<lparr>sa_results := sa_results a @ [r], sa_holder := None, sa_text := []\<rparr>)"
proof -
  have "sa_holder (put_result r a) = Some (holder_of b c)" using assms by (simp add: put_result_def)
  from reset_with_holder [OF this, of dbg] assms show ?thesis
    by (auto simp: app_answer_def put_result_def)
qed

lemma configured_callback: "fs_callback (configured d) = Some SD_FILES"
  by (simp add: configured_def new_file_select_def file_select_set_callback_def
      file_select_set_result_buffer_def file_select_set_filter_def file_select_set_api_def)

lemma open_files_keeps:
  assumes bg: "sa_state a = SdAppStateBackground"
    and h: "sa_holder a = Some (holder_of False (Control_File_Select s0))"
    and r: "app_open_files env d a = Some r"
  shows "goes 1 a (r)"
proof -
  from r obtain i where i: "file_select_init (se_dbg env) (se_fs env) (configured d) (sa_info a) = Some i"
    by (auto simp: app_open_files_def bindO_def split: option.splits)
  from init_reports [OF configured_callback i] obtain s st where
    "i = Inr (True, [], s, st) \<and> files_usable s \<or>
     i = Inr (False, [File_Select_Callback SD_FILES False (fs_context s)], s, st)" by blast
  then show ?thesis
  proof (elim disjE conjE)
    assume f: "i = Inr (False, [File_Select_Callback SD_FILES False (fs_context s)], s, st)"
    define a1 where "a1 = file_calls [File_Select_Callback SD_FILES False (fs_context s)] (set_files s st a)"
    have a1: "a1 = a\<lparr>sa_info := st, sa_holder := Some (holder_of False (Control_File_Select s)),
        sa_events := sa_events a @ [SdAppEventTypeBack]\<rparr>"
      by (simp add: a1_def app_view_file_select_callback_def put_event_def set_files_shown [OF h])
    then have "\<exists>cs. app_answer (se_dbg env) False a1 =
      Inr (cs, a1\<lparr>sa_results := sa_results a1 @ [False], sa_holder := None, sa_text := []\<rparr>)"
      using bg by (intro answer_unstarted) auto
    moreover have "r = app_answer (se_dbg env) False a1"
      using r i f by (simp add: app_open_files_def a1_def)
    ultimately show ?thesis
      using bg by (auto simp: a1 keeps_def screen_ok_def owed_def is_request_def)
  next
    assume f: "i = Inr (True, [], s, st)" and u: "files_usable s"
    define a2 where "a2 = a\<lparr>sa_info := st, sa_holder := Some (holder_of False (Control_File_Select s)),
      sa_state := SdAppStateFileSelect\<rparr>"
    define m where "m = (case fsd_selected_filename d of
        None \<Rightarrow> Some (Inr a2)
      | Some name \<Rightarrow>
          bindO (file_select_set_selected_file (se_dbg env) (se_fs env) name s st)
            (\<lambda>(calls1, s1, st1). Some (Inr (file_calls calls1 (set_files s1 st1 a2)))))"
    have r2: "Some r = bindO m (\<lambda>a3. Some (start_holder a3))"
      using r i f
      by (cases "fsd_selected_filename d")
        (simp_all add: app_open_files_def m_def a2_def Let_def set_files_shown [OF h])
    then obtain m1 where m1: "m = Some m1" by (cases m) auto
    have h2: "sa_holder a2 = Some (holder_of False (Control_File_Select s))" by (simp add: a2_def)
    have "\<exists>s1 st1 es. m1 = Inr (a2\<lparr>sa_info := st1, sa_holder := Some (holder_of False (Control_File_Select s1)),
        sa_events := sa_events a2 @ es\<rparr>) \<and> files_usable s1 \<and> filter is_request es = []"
    proof (cases "fsd_selected_filename d")
      case None
      with m1 have "m1 = Inr (a2\<lparr>sa_info := st, sa_holder := Some (holder_of False (Control_File_Select s)),
          sa_events := sa_events a2 @ []\<rparr>)" by (cases a) (simp add: m_def a2_def)
      with u show ?thesis using filter.simps(1) by blast
    next
      case (Some name)
      with m1 obtain q where q: "file_select_set_selected_file (se_dbg env) (se_fs env) name s st = Some q"
        by (auto simp: m_def bindO_def split: option.splits)
      from set_selected_usable [OF u q] obtain cs1 s1 st1 where
        q1: "q = Inr (cs1, s1, st1)" "files_usable s1" by blast
      obtain es where "file_calls cs1 (set_files s1 st1 a2) =
          (set_files s1 st1 a2)\<lparr>sa_events := sa_events (set_files s1 st1 a2) @ es\<rparr>"
        "filter is_request es = []" using files_only_put by blast
      moreover have "m1 = Inr (file_calls cs1 (set_files s1 st1 a2))"
        using m1 Some q q1 by (simp add: m_def)
      moreover have "(set_files s1 st1 a2)\<lparr>sa_events := sa_events (set_files s1 st1 a2) @ es\<rparr> =
          a2\<lparr>sa_info := st1, sa_holder := Some (holder_of False (Control_File_Select s1)),
            sa_events := sa_events a2 @ es\<rparr>"
        by (simp add: set_files_shown [OF h2])
      ultimately show ?thesis using q1(2) by metis
    qed
    then obtain s1 st1 es where m2: "m1 = Inr (a2\<lparr>sa_info := st1,
        sa_holder := Some (holder_of False (Control_File_Select s1)), sa_events := sa_events a2 @ es\<rparr>)"
      and u1: "files_usable s1" and es: "filter is_request es = []" by blast
    define a3 where "a3 = a2\<lparr>sa_info := st1, sa_holder := Some (holder_of False (Control_File_Select s1)),
      sa_events := sa_events a2 @ es\<rparr>"
    have "sa_holder a3 = Some (holder_of False (Control_File_Select s1))" by (simp add: a3_def)
    from start_shown [OF this] obtain cs where
      "start_holder a3 = Inr (cs, a3\<lparr>sa_holder := Some (holder_of True (Control_File_Select s1))\<rparr>)" by blast
    then have "r = Inr (cs, a3\<lparr>sa_holder := Some (holder_of True (Control_File_Select s1))\<rparr>)"
      using r2 by (simp add: m1 m2 flip: a3_def)
    then show ?thesis
      using u1 es bg by (auto simp: a3_def a2_def keeps_def screen_ok_def owed_def)
  qed
qed

lemma file_select_keeps:
  assumes ok: "screen_ok a" and p: "fsd_path d = Some p"
    and r: "app_file_select env d a = Some r"
  shows "goes 1 a r"
proof -
  obtain made w where mk: "app_sd_make_path (se_dbg env) (se_ff env) (fsd_path d)
      (sd_volume (sa_info a)) = Inr (made, w)"
    using p by (cases "p = []"; cases "make_dirs (se_ff env) (path_prefixes p) (sd_volume (sa_info a))")
      (auto simp: app_sd_make_path_def)
  define a1 where "a1 = a\<lparr>sa_info := with_volume w (sa_info a)\<rparr>"
  have refused: "goes 1 a (Inr (cs, put_result False a1))" for cs
    using ok by (simp add: keeps_def put_result_def a1_def)
  show ?thesis
  proof (cases "made \<and> sa_holder a = None")
    case False
    then have "\<exists>cs. r = Inr (cs, put_result False a1)"
      using r mk by (cases made) (auto simp: app_file_select_def Let_def try_to_alloc_cases a1_def split: option.splits)
    with refused show ?thesis by auto
  next
    case True
    with ok have bg: "sa_state a = SdAppStateBackground"
      by (auto simp: screen_ok_def split: sd_app_state.splits)
    define a2 where "a2 = a1\<lparr>sa_holder := Some ((holder_of False (Control_Dialog new_dialog))
       \<lparr>vh_view := None, vh_free_callback := None, vh_free_context := None\<rparr>)\<rparr>"
    have al: "try_to_alloc_view_holder (se_dbg env) a1 = Inr (True, [Sd_Holder Holder_Port_Added], a2)"
      using True by (simp add: try_to_alloc_cases a2_def a1_def)
    define a3 where "a3 = a2\<lparr>sa_holder := Some (holder_of False (Control_File_Select new_file_select))\<rparr>"
    have "sa_holder a2 = Some ((holder_of False (Control_Dialog new_dialog))
       \<lparr>vh_view := None, vh_free_callback := None, vh_free_context := None\<rparr>)" by (simp add: a2_def)
    from attach_files [OF this] obtain cs1 where
      at: "alloc_and_attach_file_select (se_dbg env) a2 = Inr (cs1, a3)"
      unfolding a3_def by blast
    from r mk al at True obtain q where q: "app_open_files env d a3 = Some q"
      by (auto simp: app_file_select_def Let_def bindO_def simp flip: a1_def split: option.splits)
    have "goes 1 a3 q"
      using q by (intro open_files_keeps) (auto simp: a3_def a2_def a1_def bg)
    then obtain cs2 a4 where q1: "q = Inr (cs2, a4)" and k: "keeps 1 a3 a4" by (auto simp: goes_def)
    have "keeps 1 a a4" using k by (simp add: keeps_def a3_def a2_def a1_def owed_def)
    with r mk al at True q q1 show ?thesis
      by (simp add: app_file_select_def Let_def bindO_def flip: a1_def)
        (metis goes_simps(1))
  qed
qed

text \<open>The handlers together: the request that is handled is no longer in the queue.\<close>

lemma handle_goes:
  assumes "screen_ok a" and "app_handle env e a = Some r"
    and "\<not> (e = SdAppEventTypeBack \<and> sa_state a = SdAppStateBackground)"
    and "\<And>d. e = SdAppEventTypeFileSelect d \<Longrightarrow> fsd_path d \<noteq> None"
  shows "goes (if is_request e then 1 else 0) a r"
  using assms dialog_keeps [OF assms(1)] ok_keeps [OF assms(1), of env] back_keeps [OF assms(1), of env]
    file_select_keeps [OF assms(1)]
  by (cases e)
    (auto simp: app_handle_def is_request_def app_show_format_def app_show_info_def Let_def
      app_show_eject_def app_check_error_def app_show_error_def keeps_def)

lemma handle_faults:
  assumes "screen_ok a"
  shows "(\<exists>f. app_handle env e a = Some (Inl f)) \<longleftrightarrow>
    e = SdAppEventTypeBack \<and> sa_state a = SdAppStateBackground \<or>
    (\<exists>d. e = SdAppEventTypeFileSelect d \<and> fsd_path d = None)"
proof
  assume "\<exists>f. app_handle env e a = Some (Inl f)"
  then show "e = SdAppEventTypeBack \<and> sa_state a = SdAppStateBackground \<or>
    (\<exists>d. e = SdAppEventTypeFileSelect d \<and> fsd_path d = None)"
    using handle_goes [OF assms] goes_simps(2) by metis
next
  assume "e = SdAppEventTypeBack \<and> sa_state a = SdAppStateBackground \<or>
    (\<exists>d. e = SdAppEventTypeFileSelect d \<and> fsd_path d = None)"
  then show "\<exists>f. app_handle env e a = Some (Inl f)"
    using assms
    by (auto simp: app_handle_def back_in_background app_file_select_def app_sd_make_path_def)
qed

text \<open>The check of the card touches neither the screen nor the requests.\<close>

definition same_screen :: "('d, 'w) sd_app \<Rightarrow> ('d, 'w) sd_app \<Rightarrow> bool" where
  "same_screen a a1 \<longleftrightarrow>
     sa_state a1 = sa_state a \<and> sa_holder a1 = sa_holder a \<and> sa_events a1 = sa_events a \<and>
     sa_results a1 = sa_results a"

lemma same_screen_ok: "same_screen a a1 \<Longrightarrow> screen_ok a1 = screen_ok a"
  by (simp add: same_screen_def screen_ok_def split: sd_app_state.split)

lemma same_screen_owed: "same_screen a a1 \<Longrightarrow> owed a1 = owed a"
  by (simp add: same_screen_def owed_def)

lemma same_screen_refl [simp]: "same_screen a a"
  by (simp add: same_screen_def)

lemma same_screen_trans: "same_screen a b \<Longrightarrow> same_screen b c \<Longrightarrow> same_screen a c"
  by (simp add: same_screen_def)

lemma detect_same: "same_screen a (snd (app_detect env a))"
  by (simp add: app_detect_def same_screen_def split: prod.split)

lemma removed_same: "same_screen a (snd (app_card_removed env a))"
  by (simp add: app_card_removed_def app_sd_unmount_card_def same_screen_def Let_def split: prod.split)

lemma card_check_same: "same_screen a (snd (app_card_check env a))"
proof -
  define p where "p = fst (app_detect env a)"
  define a1 where "a1 = snd (app_detect env a)"
  obtain cs r st where m: "app_sd_mount_card env (sa_info a1) = (cs, r, st)" by (metis prod_cases3)
  define a2 where "a2 = a1\<lparr>sa_info := st, sa_icon := True, sa_present := False\<rparr>"
  define p1 where "p1 = fst (app_detect env a2)"
  define a3 where "a3 = snd (app_detect env a2)"
  have e: "app_detect env a = (p, a1)" "app_detect env a2 = (p1, a3)"
    by (simp_all add: p_def a1_def p1_def a3_def)
  have s1: "same_screen a a1" unfolding a1_def by (rule detect_same)
  then have "same_screen a a2" by (simp add: a2_def same_screen_def)
  then have s3: "same_screen a a3" unfolding a3_def using detect_same same_screen_trans by blast
  have "same_screen a (snd (app_card_removed env a1))" "same_screen a (snd (app_card_removed env a3))"
    using s1 s3 removed_same same_screen_trans by blast+
  then show ?thesis
    using s1 s3 e m
    by (cases "sa_present a"; cases p; cases p1)
      (simp_all add: app_card_check_def Let_def split_beta flip: a2_def)
qed

section \<open>The properties\<close>

lemma screen_alloc: "screen_ok (sd_app_alloc ff w)"
  by (simp add: screen_ok_def sd_app_alloc_def)

lemma owed_alloc: "owed (sd_app_alloc ff w) = 0" "sa_results (sd_app_alloc ff w) = []"
  by (simp_all add: owed_def sd_app_alloc_def)

lemma put_keeps:
  "screen_ok a \<Longrightarrow> keeps (if is_request e then 1 else 0) a (put_event e a)"
  by (simp add: keeps_def put_event_def owed_def)

lemma keeps_trans: "keeps k a b \<Longrightarrow> keeps l b c \<Longrightarrow> keeps (k + l) a c"
  by (simp add: keeps_def)

lemma iteration_keeps:
  assumes ok: "screen_ok a" and r: "sd_filesystem_iteration env a = Some (Inr (cs, a1))"
  shows "keeps 0 a a1"
proof -
  define b where "b = snd (app_card_check env a)"
  obtain cs0 where c: "app_card_check env a = (cs0, b)" by (metis b_def prod.collapse)
  have same: "same_screen a b" unfolding b_def by (rule card_check_same)
  then have b: "screen_ok b" "owed b = owed a" "sa_results b = sa_results a"
    using ok by (simp_all add: same_screen_ok same_screen_owed) (simp add: same_screen_def)
  show ?thesis
  proof (cases "sa_events b")
    case Nil
    with r c b show ?thesis by (simp add: sd_filesystem_iteration_def keeps_def)
  next
    case (Cons e es)
    define b1 where "b1 = b\<lparr>sa_events := es\<rparr>"
    obtain cs1 where h: "app_handle env e b1 = Some (Inr (cs1, a1))"
      using r c Cons by (auto simp: sd_filesystem_iteration_def bindO_def simp flip: b1_def split: option.splits sum.splits)
    have ok1: "screen_ok b1" using b by (simp add: b1_def)
    have "goes (if is_request e then 1 else 0) b1 (Inr (cs1, a1))"
      using handle_faults [OF ok1, of env e] h by (intro handle_goes [OF ok1 h]) auto
    moreover have "owed b = owed b1 + (if is_request e then 1 else 0)"
      using Cons by (simp add: owed_def b1_def)
    ultimately show ?thesis using b by (simp add: keeps_def b1_def split: if_splits)
  qed
qed

lemma key_keeps:
  assumes ok: "screen_ok a" and r: "app_key env e a = Some (Inr a1)"
  shows "keeps 0 a a1"
proof (cases "sa_holder a")
  case None
  with r ok show ?thesis by (simp add: app_key_def keeps_def)
next
  case (Some h)
  with ok obtain c where h: "h = holder_of True c"
    by (auto simp: screen_ok_def split: sd_app_state.splits)
  with Some r obtain b a2 where ci: "control_input env e c a = Some (Inr (b, a2))"
    and a1: "a1 = holder_calls (view_holder_input_callback b e h) a2"
    by (auto simp: app_key_def holder_of_def bindO_def split: option.splits sum.splits)
  have "keeps 0 a a2"
  proof (cases c)
    case (Control_Dialog d)
    with ci obtain cs where "a2 = dialog_calls cs a" by (auto simp: control_input_def split: prod.splits)
    with dialogs_only_put [of cs a] ok put_events_keep show ?thesis by metis
  next
    case (Control_File_Select s)
    with ok Some h have u: "files_usable s" "sa_state a = SdAppStateFileSelect"
      by (auto simp: screen_ok_def split: sd_app_state.splits)
    from ci Control_File_Select obtain cs s1 st where
      f: "file_select_input_callback (se_dbg env) (se_fs env) e s (sa_info a) = Some (Inr (b, cs, s1, st))"
      and a2: "a2 = file_calls cs (set_files s1 st a)"
      by (auto simp: control_input_def bindO_def split: option.splits sum.splits)
    have u1: "files_usable s1" using input_keeps_setup [OF u(1) f] .
    have sh: "sa_holder a = Some (holder_of True (Control_File_Select s))"
      using Some h Control_File_Select by simp
    have ok1: "screen_ok (set_files s1 st a)" and o1: "owed (set_files s1 st a) = owed a"
      "sa_results (set_files s1 st a) = sa_results a"
      using u u1 by (simp_all add: set_files_shown [OF sh] screen_ok_def owed_def)
    with files_only_put [of cs "set_files s1 st a"] put_events_keep [OF ok1] a2
    have "keeps 0 (set_files s1 st a) a2" by metis
    with o1 show ?thesis by (simp add: keeps_def)
  qed
  moreover have "keeps 0 a2 a1" if "screen_ok a2"
    using holder_only_puts [of b e h a2] put_events_keep [OF that] a1 by metis
  ultimately show ?thesis using keeps_trans [of 0 a a2 0 a1] by (simp add: keeps_def)
qed

lemma reaches_account:
  "sd_reaches n m a \<Longrightarrow> screen_ok a \<and> n = m + length (sa_results a) + owed a"
proof (induction rule: sd_reaches.induct)
  case (start ff w)
  then show ?case by (simp add: screen_alloc owed_alloc)
next
  case (iteration n m a env cs a1)
  with iteration_keeps [of a env cs a1] show ?case by (simp add: keeps_def)
next
  case (key n m a env e a1)
  with key_keeps [of a env e a1] show ?case by (simp add: keeps_def)
next
  case (answer n m a r a1)
  then show ?case
    by (auto simp: sd_api_file_select_answer_def sd_api_check_error_def put_event_def owed_def
        is_request_def Let_def split: list.splits if_splits)
qed (simp_all add: app_sd_info_callback_def app_sd_format_callback_def app_sd_eject_callback_def
    sd_api_check_error_def sd_api_show_error_def sd_api_file_select_ask_def put_event_def owed_def
    is_request_def)

text \<open>
  C34. The application owns a screen exactly while its state is not the background, and the state
  says which: the list of files while it waits for a choice, a dialog otherwise. In particular
  the state \<^verbatim>\<open>SdAppStateFormatInProgress\<close> is never seen by an event. This holds in every state the
  application can reach, with keys, menu entries, requests, calls of the file API and commands in
  any order.
\<close>

theorem sd_app_screen:
  assumes "sd_reaches n m a"
  shows "(sa_holder a = None \<longleftrightarrow> sa_state a = SdAppStateBackground) \<and>
    (sa_state a = SdAppStateFileSelect \<longleftrightarrow>
      (\<exists>s. sa_holder a = Some (holder_of True (Control_File_Select s)))) \<and>
    (sa_state a \<notin> {SdAppStateBackground, SdAppStateFileSelect} \<longleftrightarrow>
      (\<exists>d. sa_holder a = Some (holder_of True (Control_Dialog d)))) \<and>
    sa_state a \<noteq> SdAppStateFormatInProgress"
  using reaches_account [OF assms]
  by (cases "sa_state a") (auto simp: screen_ok_def)

text \<open>
  C11. Every request for a file is answered exactly once. In every reachable state the requests made
  are the answers taken, the answers ready, the requests in the queue, and the one whose list is
  shown; so when the queue is empty and no list is shown, no client waits in vain.
\<close>

theorem sd_requests_answered:
  assumes "sd_reaches n m a"
  shows "n = m + length (sa_results a) + length (filter is_request (sa_events a)) +
    (if \<exists>s. sa_holder a = Some (holder_of True (Control_File_Select s)) then 1 else 0)"
  using reaches_account [OF assms]
  by (cases "sa_state a") (auto simp: screen_ok_def owed_def)

text \<open>
  The handler of an event faults in exactly two cases: Back arrives while no screen is shown,
  where \<^verbatim>\<open>view_holder_stop\<close> is called with the null pointer, or a request has no folder.
\<close>

theorem sd_event_faults:
  assumes "sd_reaches n m a"
  shows "(\<exists>f. app_handle env e a = Some (Inl f)) \<longleftrightarrow>
    e = SdAppEventTypeBack \<and> sa_state a = SdAppStateBackground \<or>
    (\<exists>d. e = SdAppEventTypeFileSelect d \<and> fsd_path d = None)"
  using reaches_account [OF assms] handle_faults by blast

text \<open>
  A folder that cannot be opened crashes the application. The list reports the failure to its
  callback, which queues Back, and the application also answers the client and closes the screen
  itself; the queued Back then arrives without a screen and dereferences the null pointer. Two
  open files of other applications are enough, as the table has two slots.
\<close>

theorem sd_unopened_folder_crashes:
  assumes "sd_reaches n m a" and "sa_state a = SdAppStateBackground"
    and "app_sd_make_path (se_dbg env) (se_ff env) (fsd_path d) (sd_volume (sa_info a)) = Inr (True, w)"
    and "\<And>p f. fst (fs_dir_open (se_ff env) (env_thread (se_fs env)) p f
      (with_volume w (sa_info a))) = False"
  shows "\<exists>cs a1. app_handle env (SdAppEventTypeFileSelect d) a = Some (Inr (cs, a1)) \<and>
    sa_results a1 = sa_results a @ [False] \<and> sa_events a1 = sa_events a @ [SdAppEventTypeBack] \<and>
    app_handle env SdAppEventTypeBack a1 = Some (Inl Null_Pointer)"
proof -
  have ok: "screen_ok a" using reaches_account [OF assms(1)] by simp
  then have none: "sa_holder a = None" using assms(2) by (simp add: screen_ok_def)
  define a2 where "a2 = a\<lparr>sa_info := with_volume w (sa_info a),
    sa_holder := Some ((holder_of False (Control_Dialog new_dialog))
      \<lparr>vh_view := None, vh_free_callback := None, vh_free_context := None\<rparr>)\<rparr>"
  define a3 where "a3 = a2\<lparr>sa_holder := Some (holder_of False (Control_File_Select new_file_select))\<rparr>"
  have al: "try_to_alloc_view_holder (se_dbg env) (a\<lparr>sa_info := with_volume w (sa_info a)\<rparr>) =
      Inr (True, [Sd_Holder Holder_Port_Added], a2)"
    using none by (simp add: try_to_alloc_cases a2_def)
  have "sa_holder a2 = Some ((holder_of False (Control_Dialog new_dialog))
      \<lparr>vh_view := None, vh_free_callback := None, vh_free_context := None\<rparr>)" by (simp add: a2_def)
  from attach_files [OF this] obtain cs1 where
    at: "alloc_and_attach_file_select (se_dbg env) a2 = Inr (cs1, a3)" unfolding a3_def by blast
  have "\<exists>st. file_select_init_inner (se_dbg env) (se_fs env) (configured d) (sa_info a3) =
      Some (Inr (False, configured d, st))"
  proof (cases "files_usable (configured d)")
    case False
    then show ?thesis by (auto simp: file_select_init_inner_def files_usable_def configured_callback)
  next
    case True
    then obtain p x where "fs_api (configured d)" "fs_path (configured d) = Some p"
      "fs_extension (configured d) = Some x" by (auto simp: files_usable_def)
    moreover have "\<exists>st. file_select_fill_count (se_dbg env) (se_fs env) (configured d) (sa_info a3) =
        Some (Inr (False, configured d, st))"
      using assms(4) [of p "env_handle (se_fs env)"] calculation
      by (auto simp: file_select_fill_count_def filter_set_def a3_def a2_def split: prod.split)
    ultimately show ?thesis by (auto simp: file_select_init_inner_def)
  qed
  then obtain st where i: "file_select_init (se_dbg env) (se_fs env) (configured d) (sa_info a3) =
      Some (Inr (False, [File_Select_Callback SD_FILES False (fs_context (configured d))], configured d, st))"
    by (auto simp: file_select_init_def call_back_def configured_callback)
  define a4 where "a4 = a3\<lparr>sa_info := st, sa_holder := Some (holder_of False (Control_File_Select (configured d))),
    sa_events := sa_events a3 @ [SdAppEventTypeBack]\<rparr>"
  have h3: "sa_holder a3 = Some (holder_of False (Control_File_Select new_file_select))"
    by (simp add: a3_def)
  have "app_open_files env d a3 = Some (app_answer (se_dbg env) False a4)"
    by (simp add: app_open_files_def i a4_def app_view_file_select_callback_def put_event_def
        set_files_shown [OF h3])
  moreover have "sa_state a4 = SdAppStateBackground"
    "sa_holder a4 = Some (holder_of False (Control_File_Select (configured d)))"
    using assms(2) by (simp_all add: a4_def a3_def a2_def)
  then obtain cs2 where "app_answer (se_dbg env) False a4 =
      Inr (cs2, a4\<lparr>sa_results := sa_results a4 @ [False], sa_holder := None, sa_text := []\<rparr>)"
    using answer_unstarted by blast
  ultimately show ?thesis
    using assms(2,3) al at
    by (auto simp: app_handle_def app_file_select_def Let_def a4_def a3_def a2_def app_back_def
        reset_without_holder)
qed

text \<open>The calls that open a slot.\<close>

definition opens :: "sd_call \<Rightarrow> bool" where
  "opens c = (case c of File_Open _ _ _ \<Rightarrow> True | Dir_Open _ \<Rightarrow> True | _ \<Rightarrow> False)"

lemma close_files_free:
  "close_files ff fds w = (fds1, w1) \<Longrightarrow>
   length fds1 = length fds \<and> (\<forall>fd \<in> set fds1. fd_thread fd = None)"
  by (induction fds arbitrary: w fds1 w1)
    (auto simp: Let_def split: option.splits prod.splits if_splits)

lemma no_card_refuses:
  assumes "sd_status st \<noteq> SD_OK" and "\<not> opens c"
  shows "sd_exec ff t f c st = (set_error SD_NO_CARD f, st)"
  using assms
  by (cases c)
    (simp_all add: sd_exec_def opens_def fs_file_close_def fs_file_read_def fs_file_write_def
      fs_file_seek_def fs_file_tell_def fs_file_truncate_def fs_file_sync_def fs_file_size_def
      fs_file_eof_def fs_dir_close_def fs_dir_read_def fs_dir_rewind_def get_file_def get_dir_def
      get_filedata_def on_slot_def close_slot_def succeeds_def)

text \<open>
  Unmounting revokes every open file and directory, of every thread: all slots of the table
  are free, and every call on a handle that is not an opening fails as having no card and changes
  nothing.
\<close>

theorem sd_unmount_revokes:
  "sd_status (sa_info (snd (app_sd_unmount_card env a))) = SD_NO_CARD \<and>
   length (sd_files (sa_info (snd (app_sd_unmount_card env a)))) = length (sd_files (sa_info a)) \<and>
   (\<forall>fd \<in> set (sd_files (sa_info (snd (app_sd_unmount_card env a)))). fd_thread fd = None) \<and>
   (\<forall>t f c. opens c \<or>
      sd_exec (se_ff env) t f c (sa_info (snd (app_sd_unmount_card env a))) =
        (set_error SD_NO_CARD f, sa_info (snd (app_sd_unmount_card env a))))"
proof -
  obtain fds w where c: "close_files (se_ff env) (sd_files (sa_info a)) (sd_volume (sa_info a)) = (fds, w)"
    by fastforce
  have u: "sa_info (snd (app_sd_unmount_card env a)) =
      \<lparr>sd_files = fds, sd_status = SD_NO_CARD, sd_volume = vol_unmount (se_hal env) w\<rparr>"
    by (simp add: app_sd_unmount_card_def c)
  show ?thesis
    unfolding u using close_files_free [OF c] by (auto intro!: no_card_refuses)
qed

text \<open>Mounting tries ten times at most, and succeeds exactly if the last status is a mounted one.\<close>

lemma mount_bounded:
  "mount_loop env n st = (cs, r, st1) \<Longrightarrow>
   length cs \<le> 2 * n \<and> (r \<longrightarrow> mounted (sd_status st1)) \<and> sd_files st1 = sd_files st"
proof (induction n arbitrary: st cs r st1)
  case 0
  then show ?case by simp
next
  case (Suc n)
  obtain p w where d: "hal_detect (se_hal env) (sd_volume st) = (p, w)" by fastforce
  obtain e w1 where a: "mount_attempt env (Suc n) w = (e, w1)" by fastforce
  show ?case
  proof (cases "p \<and> \<not> mounted e")
    case False
    with Suc.prems d a show ?thesis by (cases p) (auto simp: Let_def with_volume_def)
  next
    case True
    obtain cs1 r1 st2 where m: "mount_loop env n
        (with_volume (hal_delay (se_hal env) 1000 w1) (st\<lparr>sd_status := e, sd_volume := w1\<rparr>)) = (cs1, r1, st2)"
      by (metis prod_cases3)
    from Suc.IH [OF m] Suc.prems d a True m show ?thesis
      by (auto simp: Let_def with_volume_def)
  qed
qed

text \<open>
  A second request while a list is shown is refused at once, and the answer goes to the queue that
  the first client waits on.
\<close>

lemma sd_second_request_answers_first:
  assumes "sd_reaches n m a" and "sa_state a = SdAppStateFileSelect"
    and "app_sd_make_path (se_dbg env) (se_ff env) (fsd_path d) (sd_volume (sa_info a)) = Inr (True, w)"
  shows "\<exists>a1. app_handle env (SdAppEventTypeFileSelect d) a = Some (Inr ([], a1)) \<and>
    sa_results a1 = sa_results a @ [False] \<and> sa_holder a1 = sa_holder a \<and>
    sa_state a1 = SdAppStateFileSelect"
proof -
  obtain h where "sa_holder a = Some h"
    using reaches_account [OF assms(1)] assms(2) by (auto simp: screen_ok_def)
  with assms(2,3) show ?thesis
    by (simp add: app_handle_def app_file_select_def try_to_alloc_cases put_result_def)
qed

lemma show_dialog_idle:
  "sa_holder a = None \<Longrightarrow> \<exists>cs a1. show_dialog dbg f t s a = Inr (cs, a1) \<and> sa_state a1 = s"
  using show_dialog_cases [of dbg f t s a] by auto

section \<open>Examples\<close>

definition no_card_hal :: "unit sd_hal" where
  "no_card_hal =
     \<lparr>hal_detect = (\<lambda>w. (False, w)), hal_init = (\<lambda>_ w. (1, w)), hal_delay = (\<lambda>_ w. w),
      vol_mount = (\<lambda>w. (SD_NO_CARD, w)), vol_unmount = (\<lambda>w. w), vol_mkfs = (\<lambda>w. (SD_NO_CARD, w)),
      vol_setlabel = (\<lambda>_ w. w), vol_getlabel = (\<lambda>_. (SD_NO_CARD, [])), vol_fs_type = (\<lambda>_. 0)\<rparr>"

definition closed_door :: "(u8 list, unit) fatfs" where
  "closed_door = three_bytes\<lparr>ff_opendir := (\<lambda>_ d w. (SD_NO_PATH, d, w))\<rparr>"

definition closed_env :: "(u8 list, unit) sd_env" where
  "closed_env = \<lparr>se_dbg = True,
     se_fs = \<lparr>env_fatfs = closed_door, env_thread = 1, env_handle = a_handle, env_alloc = True\<rparr>,
     se_hal = no_card_hal\<rparr>"

definition idle_app :: "(u8 list, unit) sd_app" where
  "idle_app = sd_app_alloc closed_door ()"

definition any_file :: file_select_data where
  "any_file = \<lparr>fsd_path = Some [], fsd_extension = Some ''*'', fsd_result = Some ''?'',
     fsd_result_size = 10, fsd_selected_filename = None\<rparr>"

lemma sd_app_screen_witness:
  "\<exists>cs a1. sd_filesystem_iteration closed_env (app_sd_eject_callback idle_app) = Some (Inr (cs, a1)) \<and>
    sa_state a1 = SdAppStateEject \<and> sa_holder a1 \<noteq> None"
proof -
  have r0: "sd_reaches 0 0 (app_sd_eject_callback idle_app)"
    unfolding idle_app_def by (rule sd_reaches.eject [OF sd_reaches.start])
  have c: "app_card_check closed_env (app_sd_eject_callback idle_app) = ([], app_sd_eject_callback idle_app)"
    by (simp add: app_card_check_def app_detect_def closed_env_def no_card_hal_def idle_app_def
        app_sd_eject_callback_def put_event_def sd_app_alloc_def with_volume_def)
  define b where "b = (app_sd_eject_callback idle_app)\<lparr>sa_events := []\<rparr>"
  have ev: "sa_events (app_sd_eject_callback idle_app) = [SdAppEventTypeEject]"
    and b: "sa_holder b = None"
    by (simp_all add: b_def idle_app_def sd_app_alloc_def app_sd_eject_callback_def put_event_def)
  obtain cs a1 where h: "app_show_eject closed_env b = Inr (cs, a1)" and e: "sa_state a1 = SdAppStateEject"
    unfolding app_show_eject_def using show_dialog_idle [OF b] by blast
  have i: "sd_filesystem_iteration closed_env (app_sd_eject_callback idle_app) = Some (Inr (cs, a1))"
    by (simp add: sd_filesystem_iteration_def c ev app_handle_def h flip: b_def)
  from sd_app_screen [OF sd_reaches.iteration [OF r0 i]] i e show ?thesis by simp
qed

lemma sd_requests_answered_witness:
  "length (filter is_request (sa_events (sd_api_file_select_ask any_file idle_app))) = 1"
proof -
  have "sd_reaches 1 0 (sd_api_file_select_ask any_file idle_app)"
    unfolding idle_app_def One_nat_def by (rule sd_reaches.ask [OF sd_reaches.start])
  from sd_requests_answered [OF this] show ?thesis
    by (simp add: idle_app_def sd_app_alloc_def sd_api_file_select_ask_def put_event_def)
qed

lemma sd_event_faults_witness:
  "\<exists>f. app_handle closed_env SdAppEventTypeBack idle_app = Some (Inl f)"
proof -
  have "sd_reaches 0 0 idle_app" unfolding idle_app_def by (rule sd_reaches.start)
  from sd_event_faults [OF this, of closed_env SdAppEventTypeBack] show ?thesis
    by (simp add: idle_app_def sd_app_alloc_def)
qed

lemma sd_unopened_folder_crashes_witness:
  "\<exists>cs a1. app_handle closed_env (SdAppEventTypeFileSelect any_file) idle_app = Some (Inr (cs, a1)) \<and>
    sa_events a1 = [SdAppEventTypeBack] \<and>
    app_handle closed_env SdAppEventTypeBack a1 = Some (Inl Null_Pointer)"
proof -
  have r: "sd_reaches 0 0 idle_app" unfolding idle_app_def by (rule sd_reaches.start)
  have s: "sa_state idle_app = SdAppStateBackground" "sa_events idle_app = []"
    by (simp_all add: idle_app_def sd_app_alloc_def)
  have p: "app_sd_make_path (se_dbg closed_env) (se_ff closed_env) (fsd_path any_file)
      (sd_volume (sa_info idle_app)) = Inr (True, ())"
    by (simp add: app_sd_make_path_def any_file_def)
  have o: "fst (fs_dir_open (se_ff closed_env) (env_thread (se_fs closed_env)) q f
      (with_volume () (sa_info idle_app))) = False" for q f
    by (simp add: fs_dir_open_def open_slot_def closed_env_def closed_door_def idle_app_def
        sd_app_alloc_def with_volume_def three_bytes_def fs_init_def numeral_2_eq_2)
  from sd_unopened_folder_crashes [OF r s(1) p o] s(2) show ?thesis by auto
qed

lemma sd_unmount_revokes_witness:
  "fst (sd_exec closed_door 1 a_handle (File_Read 2)
     (sa_info (snd (app_sd_unmount_card closed_env (idle_app\<lparr>sa_info := card_opened\<rparr>))))) =
   set_error SD_NO_CARD a_handle"
proof -
  have "\<not> opens (File_Read 2)" by (simp add: opens_def)
  moreover have "se_ff closed_env = closed_door" by (simp add: closed_env_def)
  ultimately show ?thesis
    using sd_unmount_revokes [of closed_env "idle_app\<lparr>sa_info := card_opened\<rparr>"] by (metis fst_conv)
qed

end
