(* ===== verification/Archive.thy ===== *)
theory Archive
  imports FileSelect Dialogs
begin

text \<open>
  The browser of the SD card: \<^verbatim>\<open>applications/archive/archive.c\<close> and \<^verbatim>\<open>archive_views.c\<close>, with the
  types of \<^verbatim>\<open>archive_i.h\<close> and \<^verbatim>\<open>archive_views.h\<close>. It lists folders through the file API of the SD
  card; the loop over a folder is a partial function, \<open>None\<close> is a loop that never ends.

  A string of the library is the C string it holds. The list of files is the array of M*LIB, an
  access outside of it is a fault. The enumeration of the tabs has the width of a byte, as the
  compiler of the target makes it, so that one less than the first tab is \<open>-1\<close>. Opening the keyboard,
  switching views, starting applications and leaving are recorded as calls. Building and freeing
  the application are not modelled.
\<close>

unbundle bit_operations_syntax

section \<open>Data\<close>

abbreviation MAX_DEPTH :: nat where "MAX_DEPTH \<equiv> 32"
abbreviation MAX_NAME_LEN :: u16 where "MAX_NAME_LEN \<equiv> 255"
abbreviation MENU_ITEMS :: nat where "MENU_ITEMS \<equiv> 4"
abbreviation ArchiveTabTotal :: nat where "ArchiveTabTotal \<equiv> 7"

datatype archive_file_type =
    ArchiveFileTypeIButton | ArchiveFileTypeNFC | ArchiveFileTypeSubOne | ArchiveFileTypeLFRFID
  | ArchiveFileTypeIrda | ArchiveFileTypeFolder | ArchiveFileTypeUnknown

record archive_file =
  af_name :: string
  af_type :: archive_file_type

record archive_view_model =
  am_tab_idx :: u8
  am_menu_idx :: u8
  am_idx :: u16
  am_list_offset :: u16
  am_files :: "archive_file list"
  am_menu :: bool

record archive_browser =
  ab_tab_id :: u8
  ab_name :: string
  ab_path :: string
  ab_text_input_buffer :: string
  ab_depth :: u8
  ab_last_idx :: "u16 list"
  ab_menu :: bool

record ('d, 'w) archive_app =
  ar_model :: archive_view_model
  ar_browser :: archive_browser
  ar_info :: "('d, 'w) sd_fs"

datatype archive_view = ArchiveViewMain | ArchiveViewTextInput

datatype archive_call =
    Archive_Exit
  | Archive_Start_App string string
  | Archive_Text_Input string u16
  | Archive_Switch_View archive_view

definition flipper_app_name :: "(archive_file_type \<times> string) list" where
  "flipper_app_name =
     [(ArchiveFileTypeIButton, ''iButton''), (ArchiveFileTypeNFC, ''NFC''),
      (ArchiveFileTypeSubOne, ''Sub-1 GHz''), (ArchiveFileTypeLFRFID, ''125 kHz RFID''),
      (ArchiveFileTypeIrda, ''Infrared'')]"

definition known_ext :: "(archive_file_type \<times> string) list" where
  "known_ext =
     [(ArchiveFileTypeIButton, ''.ibtn''), (ArchiveFileTypeNFC, ''.nfc''),
      (ArchiveFileTypeSubOne, ''.sub1''), (ArchiveFileTypeLFRFID, ''.rfid''),
      (ArchiveFileTypeIrda, ''.irda'')]"

definition tab_default_paths :: "string list" where
  "tab_default_paths =
     [''favourites'', ''ibutton'', ''nfc'', ''subone'', ''lfrfid'', ''irda'', ''/'']"

definition get_tab_ext :: "u8 \<Rightarrow> string" where
  "get_tab_ext tab =
     (if 1 \<le> tab \<and> tab \<le> 5 then snd (known_ext ! (unat tab - 1)) else ''*'')"

text \<open>The size of an array less a number, in \<^verbatim>\<open>size_t\<close>.\<close>

definition size_less :: "'a list \<Rightarrow> int \<Rightarrow> int" where
  "size_less xs k = uint (word_of_int (int (length xs) - k) :: u32)"

definition archive_alloc :: "('d, 'w) sd_fs \<Rightarrow> ('d, 'w) archive_app" where
  "archive_alloc st =
     \<lparr>ar_model = \<lparr>am_tab_idx = 0, am_menu_idx = 0, am_idx = 0, am_list_offset = 0, am_files = [],
        am_menu = False\<rparr>,
      ar_browser = \<lparr>ab_tab_id = 0, ab_name = [], ab_path = [], ab_text_input_buffer = [],
        ab_depth = 0, ab_last_idx = replicate MAX_DEPTH 0, ab_menu = False\<rparr>,
      ar_info = st\<rparr>"

abbreviation with_model ::
    "(archive_view_model \<Rightarrow> archive_view_model) \<Rightarrow> ('d, 'w) archive_app \<Rightarrow> ('d, 'w) archive_app" where
  "with_model f a \<equiv> a\<lparr>ar_model := f (ar_model a)\<rparr>"

abbreviation with_browser ::
    "(archive_browser \<Rightarrow> archive_browser) \<Rightarrow> ('d, 'w) archive_app \<Rightarrow> ('d, 'w) archive_app" where
  "with_browser f a \<equiv> a\<lparr>ar_browser := f (ar_browser a)\<rparr>"

section \<open>Listing a folder\<close>

definition filter_by_extension :: "u8 \<Rightarrow> string \<Rightarrow> bool" where
  "filter_by_extension tab name \<longleftrightarrow>
     (let ext = get_tab_ext tab in if ext = ''*'' then True else strstr name ext)"

definition set_file_type :: "string \<Rightarrow> file_info \<Rightarrow> archive_file_type" where
  "set_file_type name info =
     (case find (\<lambda>(_, ext). strstr name ext) known_ext of
        Some (t, _) \<Rightarrow> t
      | None \<Rightarrow>
          if fi_flags info AND FSF_DIRECTORY \<noteq> 0 then ArchiveFileTypeFolder
          else ArchiveFileTypeUnknown)"

text \<open>One iteration of the loop: what was read, and the name buffer.\<close>

definition archive_read ::
    "('d, 'w) fs_env \<Rightarrow> fs_file \<Rightarrow> string \<Rightarrow> ('d, 'w) sd_fs \<Rightarrow>
     reading \<times> fs_file \<times> string \<times> ('d, 'w) sd_fs" where
  "archive_read env f name st =
     (case fs_dir_read (env_fatfs env) (env_thread env) True (Some MAX_NAME_LEN) f st of
        ((result, info, nm), f1, st1) \<Rightarrow>
          (let name1 = (case nm of None \<Rightarrow> name | Some s \<Rightarrow> s)
           in (if error_id f1 = FSE_NOT_EXIST \<or> name1 = [] then Stop
               else if result
                    then if error_id f1 = FSE_OK
                         then (case info of None \<Rightarrow> Fail | Some i \<Rightarrow> Entry i)
                         else Fail
                    else Again,
               f1, name1, st1)))"

partial_function (option) names_loop ::
    "('d, 'w) fs_env \<Rightarrow> u8 \<Rightarrow> fs_file \<Rightarrow> string \<Rightarrow> archive_file list \<Rightarrow> ('d, 'w) sd_fs \<Rightarrow>
     (bool \<times> archive_file list \<times> fs_file \<times> ('d, 'w) sd_fs) option" where
  "names_loop env tab f name files st =
     (case archive_read env f name st of
        (r, f1, name1, st1) \<Rightarrow>
          (case r of
             Stop \<Rightarrow> Some (True, files, f1, st1)
           | Fail \<Rightarrow> Some (False, files, f1, st1)
           | Again \<Rightarrow> names_loop env tab f1 name1 files st1
           | Entry i \<Rightarrow>
               names_loop env tab f1 name1
                 (if filter_by_extension tab name1
                  then files @ [\<lparr>af_name = name1, af_type = set_file_type name1 i\<rparr>] else files) st1))"

definition archive_get_filenames ::
    "('d, 'w) fs_env \<Rightarrow> ('d, 'w) archive_app \<Rightarrow> (bool \<times> ('d, 'w) archive_app) option" where
  "archive_get_filenames env a =
     (let name = replicate 255 (CHR ''0'') @ [CHR 0x0A] in
      case fs_dir_open (env_fatfs env) (env_thread env) (ab_path (ar_browser a)) (env_handle env)
             (ar_info a) of
        (result, f, st1) \<Rightarrow>
          if \<not> result
          then Some (False, (with_model (\<lambda>m. m\<lparr>am_files := []\<rparr>) a)\<lparr>ar_info := close_dir env f st1\<rparr>)
          else
            map_option (\<lambda>(ok, files, f1, st2).
              (ok, (with_model (\<lambda>m. m\<lparr>am_files := files\<rparr>) a)\<lparr>ar_info := close_dir env f1 st2\<rparr>))
              (names_loop env (ab_tab_id (ar_browser a)) f name [] st1))"

section \<open>Moving between folders\<close>

definition update_offset :: "archive_view_model \<Rightarrow> archive_view_model" where
  "update_offset m =
     (let n = length (am_files m);
          bounds = (if n > 3 then 2 else int n);
          idx = uint (am_idx m); off = uint (am_list_offset m)
      in if off < idx - bounds
         then m\<lparr>am_list_offset := word_of_int (clamp (off + 1) (size_less (am_files m) (bounds + 2)) 0)\<rparr>
         else if off > idx - bounds
         then m\<lparr>am_list_offset := word_of_int (clamp (idx - 1) (size_less (am_files m) bounds) 0)\<rparr>
         else m)"

definition archive_update_last_idx :: "('d, 'w) archive_app \<Rightarrow> ('d, 'w) archive_app res" where
  "archive_update_last_idx a =
     (let m = ar_model a in
      bindE (arr_set (ab_last_idx (ar_browser a)) (unat (ab_depth (ar_browser a)))
               (word_of_int (clamp (uint (am_idx m)) (size_less (am_files m) 1) 0)))
        (\<lambda>l. Inr (with_model (\<lambda>m. m\<lparr>am_idx := 0\<rparr>) (with_browser (\<lambda>b. b\<lparr>ab_last_idx := l\<rparr>) a))))"

definition archive_switch_dir ::
    "('d, 'w) fs_env \<Rightarrow> string \<Rightarrow> ('d, 'w) archive_app \<Rightarrow> ('d, 'w) archive_app option" where
  "archive_switch_dir env path a =
     map_option snd (archive_get_filenames env (with_browser (\<lambda>b. b\<lparr>ab_path := path\<rparr>) a))"

definition archive_switch_tab ::
    "('d, 'w) fs_env \<Rightarrow> ('d, 'w) archive_app \<Rightarrow> ('d, 'w) archive_app res option" where
  "archive_switch_tab env a =
     (let a1 = with_model (\<lambda>m. m\<lparr>am_tab_idx := ab_tab_id (ar_browser a), am_idx := 0\<rparr>) a;
          a2 = with_browser (\<lambda>b. b\<lparr>ab_depth := 0\<rparr>) a1
      in bindO (Some (arr_get tab_default_paths (unat (ab_tab_id (ar_browser a2))))) (\<lambda>path.
           map_option (\<lambda>a3. Inr (with_model update_offset a3)) (archive_switch_dir env path a2)))"

text \<open>\<^verbatim>\<open>strrchr(path, '/')\<close>, and the path cut there.\<close>

definition cut_last_slash :: "string \<Rightarrow> string" where
  "cut_last_slash path =
     (if CHR ''/'' \<in> set path then rev (tl (dropWhile (\<lambda>ch. ch \<noteq> CHR ''/'') (rev path))) else path)"

definition archive_leave_dir ::
    "('d, 'w) fs_env \<Rightarrow> ('d, 'w) archive_app \<Rightarrow> ('d, 'w) archive_app res option" where
  "archive_leave_dir env a =
     (let path = cut_last_slash (ab_path (ar_browser a));
          depth = word_of_int (clamp (uint (ab_depth (ar_browser a)) - 1) (int MAX_DEPTH) 0) :: u8;
          a1 = with_browser (\<lambda>b. b\<lparr>ab_path := path, ab_depth := depth\<rparr>) a
      in bindO (Some (arr_get (ab_last_idx (ar_browser a1)) (unat depth))) (\<lambda>idx.
           map_option (\<lambda>a2. Inr (with_model update_offset a2))
             (archive_switch_dir env path (with_model (\<lambda>m. m\<lparr>am_idx := idx\<rparr>) a1))))"

definition archive_enter_dir ::
    "('d, 'w) fs_env \<Rightarrow> ('d, 'w) archive_app \<Rightarrow> ('d, 'w) archive_app res option" where
  "archive_enter_dir env a =
     bindO (Some (archive_update_last_idx a)) (\<lambda>a1.
       let depth = word_of_int (clamp (uint (ab_depth (ar_browser a1)) + 1) (int MAX_DEPTH) 0);
           path = ab_path (ar_browser a1) @ ''/'' @ ab_name (ar_browser a1)
       in map_option (\<lambda>a2. Inr (with_model update_offset a2))
            (archive_switch_dir env path
              (with_browser (\<lambda>b. b\<lparr>ab_depth := depth, ab_path := path\<rparr>) a1)))"

section \<open>File menu\<close>

text \<open>The answer of \<^verbatim>\<open>rename\<close> and \<^verbatim>\<open>remove\<close> is ignored.\<close>

definition archive_rename ::
    "('d, 'w) fs_env \<Rightarrow> string \<Rightarrow> string \<Rightarrow> ('d, 'w) archive_app \<Rightarrow> ('d, 'w) archive_app" where
  "archive_rename env src dst a =
     a\<lparr>ar_info := snd (fs_common_rename (env_fatfs env) src dst (ar_info a))\<rparr>"

definition archive_add_to_favourites ::
    "('d, 'w) fs_env \<Rightarrow> ('d, 'w) archive_app \<Rightarrow> ('d, 'w) archive_app" where
  "archive_add_to_favourites env a =
     (let b = ar_browser a
      in archive_rename env (ab_path b @ ''/'' @ ab_name b) (''/favourites/'' @ ab_name b) a)"

definition archive_text_input_callback ::
    "('d, 'w) fs_env \<Rightarrow> string \<Rightarrow> ('d, 'w) archive_app \<Rightarrow>
     (archive_call list \<times> ('d, 'w) archive_app) option" where
  "archive_text_input_callback env s a =
     (let b = ar_browser a;
          a1 = archive_rename env (ab_path b @ ''/'' @ ab_name b) (ab_path b @ ''/'' @ s) a
      in map_option (\<lambda>(_, a2). ([Archive_Switch_View ArchiveViewMain], a2))
           (archive_get_filenames env a1))"

definition archive_enter_text_input ::
    "('d, 'w) archive_app \<Rightarrow> archive_call list \<times> ('d, 'w) archive_app" where
  "archive_enter_text_input a =
     (let a1 = with_browser (\<lambda>b. b\<lparr>ab_text_input_buffer := ab_name b\<rparr>) a
      in ([Archive_Text_Input (ab_text_input_buffer (ar_browser a1)) MAX_NAME_LEN,
           Archive_Switch_View ArchiveViewTextInput], a1))"

definition archive_show_file_menu :: "('d, 'w) archive_app \<Rightarrow> ('d, 'w) archive_app" where
  "archive_show_file_menu a =
     with_model (\<lambda>m. m\<lparr>am_menu := True, am_menu_idx := 0\<rparr>)
       (with_browser (\<lambda>b. b\<lparr>ab_menu := True\<rparr>) a)"

definition archive_close_file_menu :: "('d, 'w) archive_app \<Rightarrow> ('d, 'w) archive_app" where
  "archive_close_file_menu a =
     with_model (\<lambda>m. m\<lparr>am_menu := False, am_menu_idx := 0\<rparr>)
       (with_browser (\<lambda>b. b\<lparr>ab_menu := False\<rparr>) a)"

definition archive_delete_file ::
    "('d, 'w) fs_env \<Rightarrow> string \<Rightarrow> ('d, 'w) archive_app \<Rightarrow> ('d, 'w) archive_app option" where
  "archive_delete_file env name a =
     (let path = ab_path (ar_browser a) @ ''/'' @ name;
          a1 = a\<lparr>ar_info := snd (fs_common_remove (env_fatfs env) path (ar_info a))\<rparr>
      in map_option (\<lambda>(_, a2).
           with_model (\<lambda>m. m\<lparr>am_idx := word_of_int (clamp (uint (am_idx m)) (size_less (am_files m) 1) 0)\<rparr>)
             (with_model update_offset a2))
           (archive_get_filenames env a1))"

definition is_known_app :: "archive_file_type \<Rightarrow> bool" where
  "is_known_app t \<longleftrightarrow> t \<noteq> ArchiveFileTypeFolder \<and> t \<noteq> ArchiveFileTypeUnknown"

definition archive_file_menu_callback ::
    "('d, 'w) fs_env \<Rightarrow> ('d, 'w) archive_app \<Rightarrow> (archive_call list \<times> ('d, 'w) archive_app) res option"
where
  "archive_file_menu_callback env a =
     bindO (Some (arr_get (am_files (ar_model a)) (unat (am_idx (ar_model a))))) (\<lambda>selected.
       let k = am_menu_idx (ar_model a) in
       if k = 0
       then Some (Inr (if is_known_app (af_type selected)
                       then [Archive_Start_App (the (map_of flipper_app_name (af_type selected)))
                              (af_name selected)]
                       else [], a))
       else if k = 1
       then Some (Inr ([], archive_close_file_menu (archive_add_to_favourites env
              (with_browser (\<lambda>b. b\<lparr>ab_name := af_name selected\<rparr>) a))))
       else if k = 2 then Some (Inr (archive_enter_text_input a))
       else if k = 3
       then map_option (\<lambda>a1. Inr ([], archive_close_file_menu a1))
              (archive_delete_file env (af_name selected) a)
       else Some (Inr ([], archive_close_file_menu a)))"

definition menu_input_handler ::
    "('d, 'w) fs_env \<Rightarrow> input_event \<Rightarrow> ('d, 'w) archive_app \<Rightarrow>
     (archive_call list \<times> ('d, 'w) archive_app) res option" where
  "menu_input_handler env e a =
     (let move = (\<lambda>k. with_model (\<lambda>m. m\<lparr>am_menu_idx :=
            word_of_int (clamp (uint (am_menu_idx m) + k) (int MENU_ITEMS - 1) 0)\<rparr>) a)
      in if ev_type e = InputTypeShort
         then (case ev_key e of
                 InputKeyUp \<Rightarrow> Some (Inr ([], move (- 1)))
               | InputKeyDown \<Rightarrow> Some (Inr ([], move 1))
               | InputKeyOk \<Rightarrow> archive_file_menu_callback env a
               | InputKeyBack \<Rightarrow> Some (Inr ([], archive_close_file_menu a))
               | _ \<Rightarrow> Some (Inr ([], a)))
         else Some (Inr ([], a)))"

section \<open>Keys\<close>

definition archive_exit_callback :: "('d, 'w) archive_app \<Rightarrow> archive_call list \<times> ('d, 'w) archive_app" where
  "archive_exit_callback a = ([Archive_Exit], a)"

definition archive_move :: "int \<Rightarrow> ('d, 'w) archive_app \<Rightarrow> ('d, 'w) archive_app" where
  "archive_move k a =
     with_model (\<lambda>m. update_offset
       (m\<lparr>am_idx := word_of_int (clamp (uint (am_idx m) + k) (size_less (am_files m) 1) 0)\<rparr>)) a"

text \<open>OK on an entry of a list that is not empty.\<close>

definition archive_ok ::
    "('d, 'w) fs_env \<Rightarrow> input_type \<Rightarrow> ('d, 'w) archive_app \<Rightarrow> ('d, 'w) archive_app res option" where
  "archive_ok env ty a =
     bindO (Some (arr_get (am_files (ar_model a)) (unat (am_idx (ar_model a))))) (\<lambda>selected.
       let a1 = with_browser (\<lambda>b. b\<lparr>ab_name := af_name selected\<rparr>) a in
       if af_type selected = ArchiveFileTypeFolder
       then if ty = InputTypeShort then archive_enter_dir env a1
            else if ty = InputTypeLong then Some (Inr (archive_show_file_menu a1))
            else Some (Inr a1)
       else if ty = InputTypeShort then Some (Inr (archive_show_file_menu a1))
       else Some (Inr a1))"

definition quiet :: "'a res option \<Rightarrow> (archive_call list \<times> 'a) res option" where
  "quiet r = bindO r (\<lambda>a. Some (Inr ([], a)))"

definition archive_view_input ::
    "('d, 'w) fs_env \<Rightarrow> input_event \<Rightarrow> ('d, 'w) archive_app \<Rightarrow>
     (archive_call list \<times> ('d, 'w) archive_app) res option" where
  "archive_view_input env e a =
     (let tab = (\<lambda>k upper. with_browser (\<lambda>b. b\<lparr>ab_tab_id :=
            word_of_int (clamp (uint (ab_tab_id b) + k) upper 0)\<rparr>) a)
      in if ab_menu (ar_browser a) then menu_input_handler env e a
         else if ev_type e = InputTypeShort \<and> ev_key e = InputKeyLeft
         then quiet (archive_switch_tab env (tab (- 1) (int ArchiveTabTotal)))
         else if ev_type e = InputTypeShort \<and> ev_key e = InputKeyRight
         then quiet (archive_switch_tab env (tab 1 (int ArchiveTabTotal - 1)))
         else if ev_type e = InputTypeShort \<and> ev_key e = InputKeyBack
         then if ab_depth (ar_browser a) = 0 then Some (Inr (archive_exit_callback a))
              else quiet (archive_leave_dir env a)
         else if (ev_type e = InputTypeShort \<or> ev_type e = InputTypeRepeat) \<and> ev_key e = InputKeyUp
         then Some (Inr ([], archive_move (- 1) a))
         else if (ev_type e = InputTypeShort \<or> ev_type e = InputTypeRepeat) \<and> ev_key e = InputKeyDown
         then Some (Inr ([], archive_move 1 a))
         else if ev_key e = InputKeyOk \<and> am_files (ar_model a) \<noteq> []
         then quiet (archive_ok env (ev_type e) a)
         else Some (Inr ([], a)))"

section \<open>Drawing\<close>

definition ArchiveTabNames :: "string list" where
  "ArchiveTabNames =
     [''Favourites'', ''iButton'', ''NFC'', ''SubOne'', ''Rfid'', ''Infared'', ''Browser'']"

fun ArchiveItemIcons :: "archive_file_type \<Rightarrow> string" where
  "ArchiveItemIcons ArchiveFileTypeIButton = ''I_ibutt_10px''"
| "ArchiveItemIcons ArchiveFileTypeNFC = ''I_Nfc_10px''"
| "ArchiveItemIcons ArchiveFileTypeSubOne = ''I_sub1_10px''"
| "ArchiveItemIcons ArchiveFileTypeLFRFID = ''I_125_10px''"
| "ArchiveItemIcons ArchiveFileTypeIrda = ''I_ir_10px''"
| "ArchiveItemIcons ArchiveFileTypeFolder = ''I_dir_10px''"
| "ArchiveItemIcons ArchiveFileTypeUnknown = ''I_unknown_10px''"

definition render_item_menu :: "gfx \<Rightarrow> archive_view_model \<Rightarrow> draw" where
  "render_item_menu g m c =
     bindE (arr_get (am_files m) (unat (am_idx m))) (\<lambda>selected.
       let menu = (if \<not> is_known_app (af_type selected) then [''---'', ''---'']
                   else [''Open in app'', if am_tab_idx m = 0 then ''Move'' else ''Pin'']) @
                  [''Rename'', ''Delete'']
       in draws ([canvas_set_color ColorWhite, canvas_draw_box 61 17 62 46,
                  canvas_set_color ColorBlack, elements_slightly_rounded_frame 60 16 64 48] @
                 map (\<lambda>i. canvas_draw_str 72 (27 + of_nat i * 11) (menu ! i)) [0..<MENU_ITEMS] @
                 [canvas_draw_icon_name g 64 (20 + am_menu_idx m * 11) ''I_ButtonRight_4x7'']) c)"

text \<open>The last dot or slash of a name that is not its first character, 0 if there is none.\<close>

fun last_mark :: "string \<Rightarrow> nat \<Rightarrow> nat" where
  "last_mark s 0 = 0"
| "last_mark s (Suc k) =
     (if Suc k < length s \<and> s ! Suc k \<in> {CHR ''.'', CHR 0x5C, CHR ''/''} then Suc k else last_mark s k)"

definition trim_file_ext :: "string \<Rightarrow> string" where
  "trim_file_ext s =
     (let e = last_mark s (length s)
      in if 0 < e \<and> s ! e = CHR ''.'' \<and> s ! (e - 1) \<noteq> CHR 0x5C \<and> s ! (e - 1) \<noteq> CHR ''/''
         then take e s else s)"

definition archive_draw_frame :: "u16 \<Rightarrow> bool \<Rightarrow> draw" where
  "archive_draw_frame idx scrollbar =
     (let y = ucast (15 + idx * 12) :: u8; x = (if scrollbar then 121 else 126) in
      draws
        [canvas_set_color ColorBlack,
         canvas_draw_box 0 y (if scrollbar then 122 else 127) 12,
         canvas_set_color ColorWhite,
         canvas_draw_dot 0 y, canvas_draw_dot 1 y, canvas_draw_dot 0 (y + 1),
         canvas_draw_dot 0 (y + 11), canvas_draw_dot x y, canvas_draw_dot x (y + 11)])"

definition draw_list_row :: "gfx \<Rightarrow> archive_view_model \<Rightarrow> nat \<Rightarrow> draw" where
  "draw_list_row g m i c =
     (let n = length (am_files m); scrollbar = n > 4;
          idx = clamp (int i + uint (am_list_offset m)) (int n) 0
      in bindE (arr_get (am_files m) (nat (clamp idx (size_less (am_files m) 1) 0))) (\<lambda>file.
         bindE (elements_string_fit_width g
                 (if is_known_app (af_type file) then trim_file_ext (af_name file) else af_name file) 98 c)
           (\<lambda>s. draws
             [if uint (am_idx m) = idx then archive_draw_frame (of_nat i) scrollbar
              else canvas_set_color ColorBlack,
              canvas_draw_icon_name g 2 (16 + of_nat i * 12) (ArchiveItemIcons (af_type file)),
              canvas_draw_str 15 (24 + of_nat i * 12) s] c)))"

definition draw_list :: "gfx \<Rightarrow> archive_view_model \<Rightarrow> draw option list" where
  "draw_list g m =
     map (\<lambda>i. Some (draw_list_row g m i)) [0..<min MENU_ITEMS (length (am_files m))] @
     (if length (am_files m) > 4
      then [elements_scrollbar_pos 126 16 48 (am_idx m) (of_nat (length (am_files m)))] else []) @
     (if am_menu m then [Some (render_item_menu g m)] else [])"

definition archive_render_status_bar :: "gfx \<Rightarrow> archive_view_model \<Rightarrow> draw" where
  "archive_render_status_bar g m c =
     bindE (arr_get ArchiveTabNames (unat (am_tab_idx m))) (\<lambda>tab_name.
       draws ([canvas_draw_icon_name g 0 0 ''I_Background_128x11'',
          canvas_set_color ColorWhite, canvas_draw_box 0 0 50 13, canvas_draw_box 100 0 28 13,
          canvas_set_color ColorBlack, elements_frame 0 0 50 13,
          canvas_draw_str_aligned g 25 10 AlignCenter AlignBottom tab_name,
          elements_frame 100 0 24 13] @
         (if am_tab_idx m > 0 then [canvas_draw_icon_name g 106 3 ''I_ButtonLeft_4x7''] else []) @
         (if unat (am_tab_idx m) < length ArchiveTabNames - 1
          then [canvas_draw_icon_name g 114 3 ''I_ButtonRight_4x7''] else [])) c)"

definition archive_view_render ::
    "gfx \<Rightarrow> archive_view_model \<Rightarrow> canvas \<Rightarrow> (u8g2_call list \<times> canvas) res option" where
  "archive_view_render g m =
     draws_opt (Some (archive_render_status_bar g m) #
       (if length (am_files m) > 0 then draw_list g m
        else [Some (canvas_draw_str_aligned g 64 40 AlignCenter AlignCenter ''Empty'')]))"

section \<open>What a folder lists\<close>

definition entry_file :: "fil_info \<Rightarrow> archive_file" where
  "entry_file e =
     (let name = take 254 (fl_name e) in \<lparr>af_name = name, af_type = set_file_type name (info_of e)\<rparr>)"

definition listing :: "u8 \<Rightarrow> fil_info list \<Rightarrow> archive_file list" where
  "listing tab ents = map entry_file (filter (\<lambda>e. filter_by_extension tab (take 254 (fl_name e))) ents)"

lemma archive_read_next:
  assumes "dir_open t f d w st" and "ff_readdir ff d w = (SD_OK, e, d1, w)"
    and "env_fatfs env = ff" and "env_thread env = t"
  obtains f1 st1 where
    "archive_read env f name st =
       (if fl_name e = [] then Stop else Entry (info_of e), f1, take 254 (fl_name e), st1)"
    and "dir_open t f1 d1 w st1"
proof -
  define st1 where
    "st1 = st\<lparr>sd_files := (sd_files st)[unat (file_id f) :=
       (sd_files st ! unat (file_id f))\<lparr>fd_data := d1\<rparr>], sd_volume := w\<rparr>"
  have "fs_dir_read ff t True (Some MAX_NAME_LEN) f st =
      ((True, Some (info_of e), Some (take 254 (fl_name e))), set_error SD_OK f, st1)"
    using assms
    by (simp add: fs_dir_read_def on_slot_def dir_slot [OF assms(1)] Let_def give_info_def st1_def
        dir_open_def)
  then show thesis
    using assms
    by (intro that [of "set_error SD_OK f" st1])
      (auto simp: archive_read_def Let_def st1_def dir_open_def)
qed

lemma names_loop_lists:
  assumes "dir_reads ff w path ents obj" and "env_fatfs env = ff" and "env_thread env = t"
    and "dir_open t f (obj i) w st" and "i \<le> length ents"
  shows "\<exists>f1 j st1. names_loop env tab f name files st =
      Some (True, files @ listing tab (drop i ents), f1, st1) \<and> dir_open t f1 (obj j) w st1"
  using assms(4,5)
proof (induction "length ents - i" arbitrary: i f name files st)
  case 0
  then have i: "i = length ents" by simp
  then obtain e where "ff_readdir ff (obj i) w = (SD_OK, e, obj (Suc i), w)" "fl_name e = []"
    using assms(1) by (auto simp: dir_reads_def)
  with archive_read_next [OF 0(2) this(1) assms(2,3), of name] obtain f1 st1 where
    "archive_read env f name st = (Stop, f1, take 254 (fl_name e), st1)"
    and "dir_open t f1 (obj (Suc i)) w st1" by auto
  then show ?case
    using i by (subst names_loop.simps) (auto simp: listing_def intro: exI [of _ "Suc i"])
next
  case (Suc m)
  then have i: "i < length ents" by simp
  then have e: "ff_readdir ff (obj i) w = (SD_OK, ents ! i, obj (Suc i), w)" "fl_name (ents ! i) \<noteq> []"
    using assms(1) by (auto simp: dir_reads_def)
  with archive_read_next [OF Suc(3) this(1) assms(2,3), of name] obtain f1 st1 where
    r: "archive_read env f name st = (Entry (info_of (ents ! i)), f1, take 254 (fl_name (ents ! i)), st1)"
    and o: "dir_open t f1 (obj (Suc i)) w st1" by auto
  define files1 where "files1 = (if filter_by_extension tab (take 254 (fl_name (ents ! i)))
    then files @ [entry_file (ents ! i)] else files)"
  from i have d: "drop i ents = ents ! i # drop (Suc i) ents" by (simp add: Cons_nth_drop_Suc)
  have "m = length ents - Suc i" using Suc(2) by simp
  from Suc(1) [OF this o, of "take 254 (fl_name (ents ! i))" files1] i
  show ?case
    by (subst names_loop.simps)
      (auto simp: r d listing_def files1_def entry_file_def Let_def cong: if_cong)
qed

lemma archive_lists_plain:
  assumes "dir_reads (env_fatfs env) w (ab_path (ar_browser a)) ents obj"
    and "card_ready w (ar_info a)"
  shows "\<exists>st. archive_get_filenames env a =
      Some (True, with_model (\<lambda>m. m\<lparr>am_files := listing (ab_tab_id (ar_browser a)) ents\<rparr>) a\<lparr>ar_info := st\<rparr>) \<and>
    card_ready w st"
proof -
  have "ff_opendir (env_fatfs env) (ab_path (ar_browser a)) (ff_zero (env_fatfs env)) w = (SD_OK, obj 0, w)"
    using assms(1) by (simp add: dir_reads_def)
  from opendir_opens [OF assms(2) this] obtain f st1 where
    o: "fs_dir_open (env_fatfs env) (env_thread env) (ab_path (ar_browser a)) (env_handle env) (ar_info a) =
      (True, f, st1)" and d: "dir_open (env_thread env) f (obj 0) w st1" by metis
  from names_loop_lists [OF assms(1) refl refl d, of "ab_tab_id (ar_browser a)"
      "replicate 255 (CHR ''0'') @ [CHR 0x0A]" "[]"] obtain f1 j st2 where
    l: "names_loop env (ab_tab_id (ar_browser a)) f (replicate 255 (CHR ''0'') @ [CHR 0x0A]) [] st1 =
      Some (True, listing (ab_tab_id (ar_browser a)) ents, f1, st2)"
    and d1: "dir_open (env_thread env) f1 (obj j) w st2" by auto
  have "card_ready w (close_dir env f1 st2)"
    using d1 assms(1) by (intro close_ready [OF d1]) (auto simp: dir_reads_def)
  then show ?thesis by (auto simp: archive_get_filenames_def o l)
qed

text \<open>
  C36. A tab lists its folder: if FatFs reads the folder as it is documented, the list holds the
  entries whose name has the extension of the tab, in order and with the type of the first known
  extension in the name, and the slot that was used is free again.
\<close>

theorem archive_lists_files:
  assumes "dir_reads (env_fatfs env) w (ab_path (ar_browser a)) ents obj"
    and "card_ready w (ar_info a)"
  shows "\<exists>st. archive_get_filenames env a =
      Some (True, with_model (\<lambda>m. m\<lparr>am_files := listing (ab_tab_id (ar_browser a)) ents\<rparr>) a\<lparr>ar_info := st\<rparr>) \<and>
    card_ready w st"
  using assms by (rule archive_lists_plain)

section \<open>Into a folder and back\<close>

lemma cut_joined:
  assumes "CHR ''/'' \<notin> set n"
  shows "cut_last_slash (p @ ''/'' @ n) = p"
proof -
  have "dropWhile (\<lambda>ch. ch \<noteq> CHR ''/'') (rev n @ ''/'' @ rev p) = ''/'' @ rev p"
    using assms by (subst dropWhile_append2) auto
  then show ?thesis by (simp add: cut_last_slash_def)
qed

lemma switch_dir_lists:
  assumes "dir_reads (env_fatfs env) w path ents obj" and "card_ready w (ar_info a)"
  shows "\<exists>st. archive_switch_dir env path a =
      Some (a\<lparr>ar_browser := (ar_browser a)\<lparr>ab_path := path\<rparr>,
        ar_model := (ar_model a)\<lparr>am_files := listing (ab_tab_id (ar_browser a)) ents\<rparr>, ar_info := st\<rparr>) \<and>
    card_ready w st"
proof -
  define b where "b = with_browser (\<lambda>b. b\<lparr>ab_path := path\<rparr>) a"
  have "dir_reads (env_fatfs env) w (ab_path (ar_browser b)) ents obj" "card_ready w (ar_info b)"
    using assms by (simp_all add: b_def)
  from archive_lists_plain [OF this] obtain st where
    "archive_get_filenames env b =
      Some (True, with_model (\<lambda>m. m\<lparr>am_files := listing (ab_tab_id (ar_browser b)) ents\<rparr>) b\<lparr>ar_info := st\<rparr>)"
    "card_ready w st" by auto
  then show ?thesis by (auto simp: archive_switch_dir_def b_def)
qed

lemma size_less_small: "k \<le> int (length xs) \<Longrightarrow> 0 \<le> k \<Longrightarrow> length xs < 2 ^ 32 \<Longrightarrow> size_less xs k = int (length xs) - k"
  unfolding size_less_def uint_word_of_int by (rule mod_pos_pos_trivial) simp_all

lemma uint_less_of_unat: "unat w < n \<Longrightarrow> uint w < int n"
  by (metis of_nat_less_iff uint_nat)

lemma clamp_index:
  fixes i :: u16
  assumes "unat i < length xs" and "length xs < 2 ^ 32"
  shows "word_of_int (clamp (uint i) (size_less xs 1) 0) = i"
proof -
  have "clamp (uint i) (size_less xs 1) 0 = uint i"
    using assms uint_less_of_unat [OF assms(1)] by (simp add: clamp_def size_less_small)
  then show ?thesis by simp
qed

lemma depth_steps:
  fixes d :: u8
  assumes "unat d < 32"
  shows "word_of_int (clamp (uint d + 1) 32 0) = d + 1"
    and "word_of_int (clamp (uint (d + 1) - 1) 32 0) = d"
    and "unat (d + 1) = unat d + 1"
proof -
  have d: "uint d < 32" using uint_less_of_unat [OF assms] by simp
  then show "word_of_int (clamp (uint d + 1) 32 0) = d + 1" by (simp add: clamp_def)
  have u: "uint (d + 1) = uint d + 1" using d by (simp add: uint_word_ariths)
  then show "word_of_int (clamp (uint (d + 1) - 1) 32 0) = d" using d by (simp add: clamp_def)
  show "unat (d + 1) = unat d + 1" using assms by (intro inc_unat) simp
qed

lemma update_offset_keeps [simp]:
  "am_idx (update_offset m) = am_idx m" "am_files (update_offset m) = am_files m"
  "am_menu (update_offset m) = am_menu m" "am_tab_idx (update_offset m) = am_tab_idx m"
  by (simp_all add: update_offset_def Let_def)

text \<open>A key of the short type.\<close>

abbreviation short :: "input_key \<Rightarrow> input_event" where
  "short k \<equiv> \<lparr>ev_key = k, ev_type = InputTypeShort\<rparr>"

text \<open>Entering the folder under the cursor.\<close>

lemma enter_folder:
  assumes a: "ab_menu (ar_browser a) = False" "unat (am_idx (ar_model a)) < length (am_files (ar_model a))"
      "am_files (ar_model a) ! unat (am_idx (ar_model a)) = \<lparr>af_name = n, af_type = ArchiveFileTypeFolder\<rparr>"
      "length (am_files (ar_model a)) < 2 ^ 32"
    and d: "unat (ab_depth (ar_browser a)) < 32" "length (ab_last_idx (ar_browser a)) = 32"
    and r: "dir_reads (env_fatfs env) w (ab_path (ar_browser a) @ ''/'' @ n) ents obj"
    and c: "card_ready w (ar_info a)"
  shows "\<exists>m st. archive_view_input env (short InputKeyOk) a = Some (Inr ([],
      a\<lparr>ar_model := m,
        ar_browser := (ar_browser a)\<lparr>ab_name := n, ab_path := ab_path (ar_browser a) @ ''/'' @ n,
          ab_depth := ab_depth (ar_browser a) + 1,
          ab_last_idx := (ab_last_idx (ar_browser a))[unat (ab_depth (ar_browser a)) := am_idx (ar_model a)]\<rparr>,
        ar_info := st\<rparr>)) \<and>
    am_files m = listing (ab_tab_id (ar_browser a)) ents \<and> am_idx m = 0 \<and> card_ready w st"
proof -
  define a1 where "a1 = with_browser (\<lambda>b. b\<lparr>ab_name := n\<rparr>) a"
  define a2 where "a2 = with_model (\<lambda>m. m\<lparr>am_idx := 0\<rparr>) (with_browser (\<lambda>b. b\<lparr>ab_last_idx :=
    (ab_last_idx (ar_browser a))[unat (ab_depth (ar_browser a)) := am_idx (ar_model a)]\<rparr>) a1)"
  have u: "archive_update_last_idx a1 = Inr a2"
    using a d by (simp add: archive_update_last_idx_def a1_def a2_def clamp_index Let_def)
  define a3 where "a3 = with_browser (\<lambda>b. b\<lparr>ab_depth := ab_depth (ar_browser a) + 1,
    ab_path := ab_path (ar_browser a) @ ''/'' @ n\<rparr>) a2"
  have "card_ready w (ar_info a3)" using c by (simp add: a3_def a2_def a1_def)
  from switch_dir_lists [OF r this] obtain st where
    s: "archive_switch_dir env (ab_path (ar_browser a) @ ''/'' @ n) a3 =
      Some (a3\<lparr>ar_browser := (ar_browser a3)\<lparr>ab_path := ab_path (ar_browser a) @ ''/'' @ n\<rparr>,
        ar_model := (ar_model a3)\<lparr>am_files := listing (ab_tab_id (ar_browser a3)) ents\<rparr>, ar_info := st\<rparr>)"
    and st: "card_ready w st" by blast
  have e: "archive_enter_dir env a1 =
      map_option (\<lambda>a2. Inr (with_model update_offset a2)) (archive_switch_dir env (ab_path (ar_browser a) @ ''/'' @ n) a3)"
    using d depth_steps(1) [OF d(1)]
    by (simp only: archive_enter_dir_def u bindO_simps) (simp add: Let_def a3_def a2_def a1_def)
  have ok: "archive_view_input env (short InputKeyOk) a = quiet (archive_enter_dir env a1)"
    using a by (auto simp: archive_view_input_def Let_def archive_ok_def a1_def)
  show ?thesis
    using st
    by (intro exI [of _ "update_offset ((ar_model a)\<lparr>am_idx := 0,
        am_files := listing (ab_tab_id (ar_browser a)) ents\<rparr>)"] exI [of _ st] conjI)
      (simp_all only: ok quiet_def e s option.map bindO_simps prod.case,
       auto simp: a3_def a2_def a1_def intro!: archive_app.equality)
qed

lemma leave_folder:
  assumes a: "ab_menu (ar_browser a) = False" "CHR ''/'' \<notin> set n" "ab_path (ar_browser a) = p @ ''/'' @ n"
    and d: "ab_depth (ar_browser a) = d + 1" "unat d < 32" "length (ab_last_idx (ar_browser a)) = 32"
    and r: "dir_reads (env_fatfs env) w p ents obj"
    and c: "card_ready w (ar_info a)"
  shows "\<exists>m st. archive_view_input env (short InputKeyBack) a = Some (Inr ([],
      a\<lparr>ar_model := m, ar_browser := (ar_browser a)\<lparr>ab_path := p, ab_depth := d\<rparr>, ar_info := st\<rparr>)) \<and>
    am_files m = listing (ab_tab_id (ar_browser a)) ents \<and>
    am_idx m = ab_last_idx (ar_browser a) ! unat d \<and> card_ready w st"
proof -
  define a1 where "a1 = with_model (\<lambda>m. m\<lparr>am_idx := ab_last_idx (ar_browser a) ! unat d\<rparr>)
    (with_browser (\<lambda>b. b\<lparr>ab_path := p, ab_depth := d\<rparr>) a)"
  have "card_ready w (ar_info a1)" using c by (simp add: a1_def)
  from switch_dir_lists [OF r this] obtain st where
    s: "archive_switch_dir env p a1 =
      Some (a1\<lparr>ar_browser := (ar_browser a1)\<lparr>ab_path := p\<rparr>,
        ar_model := (ar_model a1)\<lparr>am_files := listing (ab_tab_id (ar_browser a1)) ents\<rparr>, ar_info := st\<rparr>)"
    and st: "card_ready w st" by blast
  have cut: "cut_last_slash (ab_path (ar_browser a)) = p"
    unfolding a(3) by (rule cut_joined [OF a(2)])
  have nz: "d + 1 \<noteq> 0" using depth_steps(3) [OF d(2)] by auto
  have l: "archive_leave_dir env a =
      map_option (\<lambda>a2. Inr (with_model update_offset a2)) (archive_switch_dir env p a1)"
    using d depth_steps(2) [OF d(2)] by (simp add: archive_leave_dir_def cut Let_def a1_def)
  have ok: "archive_view_input env (short InputKeyBack) a = quiet (archive_leave_dir env a)"
    using a nz d by (simp add: archive_view_input_def Let_def)
  show ?thesis
    using st
    by (intro exI [of _ "update_offset ((ar_model a)\<lparr>am_idx := ab_last_idx (ar_browser a) ! unat d,
        am_files := listing (ab_tab_id (ar_browser a)) ents\<rparr>)"] exI [of _ st] conjI)
      (simp_all only: ok quiet_def l s option.map bindO_simps prod.case,
       auto simp: a1_def intro!: archive_app.equality)
qed

text \<open>
  C21. Into a folder and back: OK on a folder lists it, and Back returns to the folder it is in,
  with the cursor on it, as long as the nesting is less than 32, the folders are read as FatFs
  documents it and the name of the folder has no slash.
\<close>

theorem archive_enter_leave:
  assumes "ab_menu (ar_browser a) = False"
    and "unat (am_idx (ar_model a)) < length (am_files (ar_model a))"
    and "am_files (ar_model a) ! unat (am_idx (ar_model a)) = \<lparr>af_name = n, af_type = ArchiveFileTypeFolder\<rparr>"
    and "length (am_files (ar_model a)) < 2 ^ 32"
    and "unat (ab_depth (ar_browser a)) < 32" and "length (ab_last_idx (ar_browser a)) = 32"
    and "CHR ''/'' \<notin> set n"
    and "dir_reads (env_fatfs env) w (ab_path (ar_browser a)) ents obj"
    and "dir_reads (env_fatfs env) w (ab_path (ar_browser a) @ ''/'' @ n) ents1 obj1"
    and "card_ready w (ar_info a)"
  shows "\<exists>a1 a2. archive_view_input env (short InputKeyOk) a = Some (Inr ([], a1)) \<and>
    am_files (ar_model a1) = listing (ab_tab_id (ar_browser a)) ents1 \<and> am_idx (ar_model a1) = 0 \<and>
    archive_view_input env (short InputKeyBack) a1 = Some (Inr ([], a2)) \<and>
    am_files (ar_model a2) = listing (ab_tab_id (ar_browser a)) ents \<and>
    am_idx (ar_model a2) = am_idx (ar_model a) \<and>
    ab_path (ar_browser a2) = ab_path (ar_browser a) \<and>
    ab_depth (ar_browser a2) = ab_depth (ar_browser a) \<and> card_ready w (ar_info a2)"
proof -
  from enter_folder [OF assms(1-6,9,10)] obtain m st where
    e: "archive_view_input env (short InputKeyOk) a = Some (Inr ([],
      a\<lparr>ar_model := m,
        ar_browser := (ar_browser a)\<lparr>ab_name := n, ab_path := ab_path (ar_browser a) @ ''/'' @ n,
          ab_depth := ab_depth (ar_browser a) + 1,
          ab_last_idx := (ab_last_idx (ar_browser a))[unat (ab_depth (ar_browser a)) := am_idx (ar_model a)]\<rparr>,
        ar_info := st\<rparr>))"
    and m: "am_files m = listing (ab_tab_id (ar_browser a)) ents1" "am_idx m = 0" "card_ready w st"
    by blast
  define a1 where "a1 = a\<lparr>ar_model := m,
        ar_browser := (ar_browser a)\<lparr>ab_name := n, ab_path := ab_path (ar_browser a) @ ''/'' @ n,
          ab_depth := ab_depth (ar_browser a) + 1,
          ab_last_idx := (ab_last_idx (ar_browser a))[unat (ab_depth (ar_browser a)) := am_idx (ar_model a)]\<rparr>,
        ar_info := st\<rparr>"
  have "ab_menu (ar_browser a1) = False" "ab_path (ar_browser a1) = ab_path (ar_browser a) @ ''/'' @ n"
    "ab_depth (ar_browser a1) = ab_depth (ar_browser a) + 1" "length (ab_last_idx (ar_browser a1)) = 32"
    "card_ready w (ar_info a1)"
    using assms m by (simp_all add: a1_def)
  from leave_folder [OF this(1) assms(7) this(2,3) assms(5) this(4) assms(8) this(5)] obtain m1 st1 where
    l: "archive_view_input env (short InputKeyBack) a1 = Some (Inr ([],
      a1\<lparr>ar_model := m1, ar_browser := (ar_browser a1)\<lparr>ab_path := ab_path (ar_browser a),
        ab_depth := ab_depth (ar_browser a)\<rparr>, ar_info := st1\<rparr>))"
    and m1: "am_files m1 = listing (ab_tab_id (ar_browser a1)) ents"
      "am_idx m1 = ab_last_idx (ar_browser a1) ! unat (ab_depth (ar_browser a))" "card_ready w st1"
    by blast
  show ?thesis
    using e l m m1 assms(5,6)
    by (intro exI [of _ a1] exI [of _ "a1\<lparr>ar_model := m1, ar_browser := (ar_browser a1)\<lparr>ab_path := ab_path (ar_browser a),
        ab_depth := ab_depth (ar_browser a)\<rparr>, ar_info := st1\<rparr>"]) (simp add: a1_def)
qed

section \<open>The cursor\<close>

text \<open>The list shows four entries from its offset on; the cursor is one of them.\<close>

definition in_view :: "archive_view_model \<Rightarrow> bool" where
  "in_view m \<longleftrightarrow>
     (let n = int (length (am_files m)); idx = uint (am_idx m); off = uint (am_list_offset m)
      in idx < n \<and> off \<le> idx \<and> idx < off + 4 \<and> off + min 4 n \<le> n)"

lemma uint_u16: "0 \<le> v \<Longrightarrow> v < 65536 \<Longrightarrow> uint (word_of_int v :: u16) = v"
  unfolding uint_word_of_int by (rule mod_pos_pos_trivial) simp_all

text \<open>What \<^verbatim>\<open>update_offset\<close> does to the offset when the cursor is at most one step outside.\<close>

lemma update_offset_view:
  assumes n: "length (am_files m) \<le> 65536" "uint (am_idx m) < int (length (am_files m))"
    and o: "uint (am_list_offset m) + min 4 (int (length (am_files m))) \<le> int (length (am_files m))"
    and i: "uint (am_list_offset m) \<le> uint (am_idx m) + 1" "uint (am_idx m) \<le> uint (am_list_offset m) + 4"
  shows "in_view (update_offset m)"
proof -
  define N where "N = int (length (am_files m))"
  define x where "x = uint (am_idx m)"
  define y where "y = uint (am_list_offset m)"
  have b: "0 \<le> x" "0 \<le> y" "x < N" "N \<le> 65536" "y + min 4 N \<le> N" "y \<le> x + 1" "x \<le> y + 4"
    using n o i by (simp_all add: N_def x_def y_def)
  have len: "length (am_files m) < 2 ^ 32" using n by simp
  show ?thesis
  proof (cases "3 < length (am_files m)")
    case True
    then have N: "4 \<le> N" by (simp add: N_def)
    have s: "size_less (am_files m) 4 = N - 4" "size_less (am_files m) 2 = N - 2"
      using N len by (simp_all add: size_less_small N_def)
    have v: "uint (word_of_int (clamp (y + 1) (N - 4) 0) :: u16) = min (N - 4) (y + 1)"
      "uint (word_of_int (clamp (x - 1) (N - 2) 0) :: u16) = min (N - 2) (max (x - 1) 0)"
      using b N by (simp_all add: clamp_def uint_u16)
    have "uint (am_list_offset (update_offset m)) =
        (if y < x - 2 then min (N - 4) (y + 1) else if y > x - 2 then min (N - 2) (max (x - 1) 0) else y)"
      using True by (simp add: update_offset_def Let_def s v flip: x_def y_def)
    then show ?thesis
      using b N by (simp add: in_view_def Let_def flip: x_def N_def) linarith
  next
    case False
    then have N: "N \<le> 3" by (simp add: N_def)
    have s: "size_less (am_files m) N = 0" using len by (simp add: size_less_small N_def)
    have z: "uint (am_list_offset (update_offset m)) = 0"
      using False b N s by (simp add: update_offset_def Let_def clamp_def flip: x_def y_def N_def)
    then show ?thesis
      using b N by (simp add: in_view_def Let_def z flip: x_def N_def)
  qed
qed

lemma move_keeps_view:
  assumes "in_view (ar_model a)" and "length (am_files (ar_model a)) \<le> 65536" and "k = 1 \<or> k = - 1"
  shows "in_view (ar_model (archive_move k a)) \<and>
    uint (am_idx (ar_model (archive_move k a))) =
      min (int (length (am_files (ar_model a))) - 1) (max (uint (am_idx (ar_model a)) + k) 0)"
proof -
  define m where "m = ar_model a"
  define N where "N = int (length (am_files m))"
  have v: "uint (am_idx m) < N" "uint (am_list_offset m) \<le> uint (am_idx m)"
    "uint (am_idx m) < uint (am_list_offset m) + 4" "uint (am_list_offset m) + min 4 N \<le> N"
    using assms(1) by (simp_all add: in_view_def Let_def m_def N_def)
  have N: "N \<le> 65536" "1 \<le> N" using assms(2) v(1) uint_ge_0 [of "am_idx m"]
    unfolding N_def m_def by linarith+
  have s: "size_less (am_files m) 1 = N - 1"
    using N assms(2) by (simp add: size_less_small N_def m_def)
  define m1 where "m1 = m\<lparr>am_idx := word_of_int (clamp (uint (am_idx m) + k) (N - 1) 0)\<rparr>"
  have i: "uint (am_idx m1) = min (N - 1) (max (uint (am_idx m) + k) 0)"
    using N by (simp add: m1_def clamp_def uint_u16)
  have f: "am_files m1 = am_files m" "am_list_offset m1 = am_list_offset m" by (simp_all add: m1_def)
  have "in_view (update_offset m1)"
  proof (rule update_offset_view)
    show "length (am_files m1) \<le> 65536" using assms(2) f by (simp add: m_def)
    show "uint (am_idx m1) < int (length (am_files m1))" using N i f by (simp add: N_def)
    show "uint (am_list_offset m1) + min 4 (int (length (am_files m1))) \<le> int (length (am_files m1))"
      using v f by (simp add: N_def)
    show "uint (am_list_offset m1) \<le> uint (am_idx m1) + 1"
      using v(1,2) N assms(3) unfolding i f(2) by linarith
    show "uint (am_idx m1) \<le> uint (am_list_offset m1) + 4"
      using v(3) N assms(3) uint_ge_0 [of "am_list_offset m"] unfolding i f(2) by linarith
  qed
  moreover have "ar_model (archive_move k a) = update_offset m1"
    by (simp add: archive_move_def m1_def m_def [symmetric] s)
  ultimately show ?thesis using i by (simp add: N_def m_def)
qed

fun archive_run ::
    "('d, 'w) fs_env \<Rightarrow> input_event list \<Rightarrow> ('d, 'w) archive_app \<Rightarrow>
     (archive_call list \<times> ('d, 'w) archive_app) res option" where
  "archive_run env [] a = Some (Inr ([], a))"
| "archive_run env (e # es) a =
     bindO (archive_view_input env e a) (\<lambda>(cs, a1).
     bindO (archive_run env es a1) (\<lambda>(cs1, a2). Some (Inr (cs @ cs1, a2))))"

text \<open>The specification of the cursor: it stops at both ends.\<close>

fun cursor_run :: "nat \<Rightarrow> input_key list \<Rightarrow> nat \<Rightarrow> nat" where
  "cursor_run n [] i = i"
| "cursor_run n (k # ks) i =
     cursor_run n ks (if k = InputKeyUp then i - 1 else min (n - 1) (i + 1))"

definition moves :: "input_event \<Rightarrow> bool" where
  "moves e \<longleftrightarrow> ev_key e \<in> {InputKeyUp, InputKeyDown} \<and> ev_type e \<in> {InputTypeShort, InputTypeRepeat}"

lemma move_fields [simp]:
  "ar_browser (archive_move k a) = ar_browser a" "ar_info (archive_move k a) = ar_info a"
  "am_files (ar_model (archive_move k a)) = am_files (ar_model a)"
  by (simp_all add: archive_move_def)

lemma cursor_step:
  assumes "uint x < int n" and "uint y = min (int n - 1) (max (uint x + k) 0)"
    and "k = (if up then - 1 else 1)"
  shows "unat y = (if up then unat x - 1 else min (n - 1) (unat x + 1))"
proof -
  define i where "i = unat x"
  define j where "j = unat y"
  have "uint x = int i" "uint y = int j" unfolding i_def j_def by (rule uint_nat)+
  with assms have "int i < int n" "int j = min (int n - 1) (max (int i + k) 0)" by metis+
  with assms(3) have "j = (if up then i - 1 else min (n - 1) (i + 1))" by (cases up) auto
  then show ?thesis by (simp add: i_def j_def)
qed

text \<open>
  C20. The cursor stays in view: whatever sequence of Up and Down keys is pressed, repeats included,
  in a list that shows its cursor, the cursor is where the specification says, is an entry of the
  list and one of the four that are shown, and the shown window lies inside the list; nothing else
  changes.
\<close>

theorem archive_cursor_in_view:
  assumes "ab_menu (ar_browser a) = False" and "in_view (ar_model a)"
    and "length (am_files (ar_model a)) \<le> 65536" and "\<forall>e \<in> set es. moves e"
  shows "\<exists>a1. archive_run env es a = Some (Inr ([], a1)) \<and> in_view (ar_model a1) \<and>
    unat (am_idx (ar_model a1)) =
      cursor_run (length (am_files (ar_model a))) (map ev_key es) (unat (am_idx (ar_model a))) \<and>
    am_files (ar_model a1) = am_files (ar_model a) \<and> ar_browser a1 = ar_browser a \<and>
    ar_info a1 = ar_info a"
  using assms
proof (induction es arbitrary: a)
  case Nil
  then show ?case by simp
next
  case (Cons e es)
  define k :: int where "k = (if ev_key e = InputKeyUp then - 1 else 1)"
  have in1: "archive_view_input env e a = Some (Inr ([], archive_move k a))"
    using Cons.prems(1,4) by (auto simp: archive_view_input_def Let_def moves_def k_def)
  from move_keeps_view [OF Cons.prems(2,3), of k]
  have v: "in_view (ar_model (archive_move k a))"
    and i: "uint (am_idx (ar_model (archive_move k a))) =
      min (int (length (am_files (ar_model a))) - 1) (max (uint (am_idx (ar_model a)) + k) 0)"
    by (simp_all add: k_def)
  have "uint (am_idx (ar_model a)) < int (length (am_files (ar_model a)))"
    using Cons.prems(2) by (simp add: in_view_def Let_def)
  then have "unat (am_idx (ar_model (archive_move k a))) =
      (if ev_key e = InputKeyUp then unat (am_idx (ar_model a)) - 1
       else min (length (am_files (ar_model a)) - 1) (unat (am_idx (ar_model a)) + 1))"
    by (intro cursor_step [OF _ i]) (simp_all add: k_def)
  moreover from Cons.IH [of "archive_move k a"] Cons.prems v obtain a1 where
    "archive_run env es (archive_move k a) = Some (Inr ([], a1))" "in_view (ar_model a1)"
    "unat (am_idx (ar_model a1)) = cursor_run (length (am_files (ar_model a))) (map ev_key es)
      (unat (am_idx (ar_model (archive_move k a))))"
    "am_files (ar_model a1) = am_files (ar_model a)" "ar_browser a1 = ar_browser a" "ar_info a1 = ar_info a"
    by auto
  ultimately show ?case by (simp add: in1)
qed

section \<open>Two ways out of the arrays\<close>

lemma get_filenames_keeps:
  assumes "archive_get_filenames env a = Some (b, a1)"
  shows "ar_browser a1 = ar_browser a \<and> am_idx (ar_model a1) = am_idx (ar_model a) \<and>
    am_menu_idx (ar_model a1) = am_menu_idx (ar_model a)"
  using assms by (auto simp: archive_get_filenames_def Let_def split: prod.splits if_splits)

text \<open>
  The array of remembered positions has 32 places and the depth goes up to 32: OK on a folder is
  an access outside of an array exactly when 32 folders have been entered already.
\<close>

theorem archive_enter_faults_iff:
  assumes "ab_menu (ar_browser a) = False"
    and "unat (am_idx (ar_model a)) < length (am_files (ar_model a))"
    and "af_type (am_files (ar_model a) ! unat (am_idx (ar_model a))) = ArchiveFileTypeFolder"
    and "length (ab_last_idx (ar_browser a)) = MAX_DEPTH"
  shows "(\<exists>f. archive_view_input env (short InputKeyOk) a = Some (Inl f)) \<longleftrightarrow>
    MAX_DEPTH \<le> unat (ab_depth (ar_browser a))"
proof -
  define a1 where "a1 = with_browser (\<lambda>b. b\<lparr>ab_name := af_name (am_files (ar_model a) ! unat (am_idx (ar_model a)))\<rparr>) a"
  have ok: "archive_view_input env (short InputKeyOk) a = quiet (archive_enter_dir env a1)"
    using assms by (auto simp: archive_view_input_def Let_def archive_ok_def a1_def)
  have u: "archive_update_last_idx a1 = (if unat (ab_depth (ar_browser a)) < MAX_DEPTH
      then archive_update_last_idx a1 else Inl Out_Of_Bounds)"
    "unat (ab_depth (ar_browser a)) < MAX_DEPTH \<Longrightarrow> \<exists>b. archive_update_last_idx a1 = Inr b"
    using assms(4) by (simp_all add: archive_update_last_idx_def a1_def arr_set_def Let_def)
  show ?thesis
  proof (cases "unat (ab_depth (ar_browser a)) < MAX_DEPTH")
    case True
    with u(2) obtain b where "archive_update_last_idx a1 = Inr b" by blast
    then have "\<exists>r. archive_enter_dir env a1 = map_option (\<lambda>a2. Inr (f a2)) r" if "f = with_model update_offset" for f
      using that by (auto simp: archive_enter_dir_def Let_def)
    then obtain r where "archive_enter_dir env a1 = map_option (\<lambda>a2. Inr (with_model update_offset a2)) r"
      by blast
    with True show ?thesis by (cases r) (auto simp: ok quiet_def)
  next
    case False
    with u(1) show ?thesis by (simp add: ok quiet_def archive_enter_dir_def)
  qed
qed

text \<open>
  Renaming leaves the menu open and the cursor where it was. If the list is then shorter than
  the cursor, because the new name has not the extension of the tab, OK in the menu takes an entry
  outside of the list.
\<close>

theorem archive_rename_out_crashes:
  assumes "ab_menu (ar_browser a) = True" and "sd_status (ar_info a) = SD_OK"
    and "ff_rename (env_fatfs env) (ab_path (ar_browser a) @ ''/'' @ ab_name (ar_browser a))
      (ab_path (ar_browser a) @ ''/'' @ s) (sd_volume (ar_info a)) = (e, w)"
    and "dir_reads (env_fatfs env) w (ab_path (ar_browser a)) ents obj"
    and "card_ready w ((ar_info a)\<lparr>sd_volume := w\<rparr>)"
    and "length (listing (ab_tab_id (ar_browser a)) ents) \<le> unat (am_idx (ar_model a))"
  shows "\<exists>a1. archive_text_input_callback env s a = Some ([Archive_Switch_View ArchiveViewMain], a1) \<and>
    archive_view_input env (short InputKeyOk) a1 = Some (Inl Out_Of_Bounds)"
proof -
  define b where "b = archive_rename env (ab_path (ar_browser a) @ ''/'' @ ab_name (ar_browser a))
    (ab_path (ar_browser a) @ ''/'' @ s) a"
  have b: "ar_info b = (ar_info a)\<lparr>sd_volume := w\<rparr>" "ar_browser b = ar_browser a" "ar_model b = ar_model a"
    using assms(2,3)
    by (simp_all add: b_def archive_rename_def fs_common_rename_def if_ready_def fs_status_def)
  from archive_lists_plain [of env w b ents obj] assms(4,5) b obtain st where
    l: "archive_get_filenames env b =
      Some (True, with_model (\<lambda>m. m\<lparr>am_files := listing (ab_tab_id (ar_browser a)) ents\<rparr>) b\<lparr>ar_info := st\<rparr>)"
    by auto
  have "archive_text_input_callback env s a = Some ([Archive_Switch_View ArchiveViewMain],
      with_model (\<lambda>m. m\<lparr>am_files := listing (ab_tab_id (ar_browser a)) ents\<rparr>) b\<lparr>ar_info := st\<rparr>)"
    using l by (simp add: archive_text_input_callback_def Let_def b_def)
  moreover have "archive_view_input env (short InputKeyOk)
      (with_model (\<lambda>m. m\<lparr>am_files := listing (ab_tab_id (ar_browser a)) ents\<rparr>) b\<lparr>ar_info := st\<rparr>) =
      Some (Inl Out_Of_Bounds)"
    using assms(1,6) b
    by (simp add: archive_view_input_def menu_input_handler_def archive_file_menu_callback_def Let_def)
  ultimately show ?thesis by blast
qed

text \<open>Back restores the position but moves the window by one entry only: behind the fifth entry the
  cursor is not shown after Back.\<close>

lemma archive_leave_hides_cursor:
  assumes "uint (am_list_offset m) = 0" and "5 \<le> uint (am_idx m)"
    and "uint (am_idx m) < int (length (am_files m))" and "length (am_files m) \<le> 65536"
  shows "\<not> in_view (update_offset m)"
proof -
  have s: "size_less (am_files m) 4 = int (length (am_files m)) - 4"
    using assms by (intro size_less_small) (linarith | simp)+
  have "3 < length (am_files m)" using assms by linarith
  then have "uint (am_list_offset (update_offset m)) = 1"
    using assms by (simp add: update_offset_def Let_def clamp_def s uint_u16)
  then show ?thesis using assms(2) by (simp add: in_view_def Let_def)
qed

section \<open>Examples\<close>

definition in_dir :: "(u8 list, unit) archive_app" where
  "in_dir = with_browser (\<lambda>b. b\<lparr>ab_path := ''dir''\<rparr>)
     (with_model (\<lambda>m. m\<lparr>am_files := [\<lparr>af_name = ''sub'', af_type = ArchiveFileTypeFolder\<rparr>,
        \<lparr>af_name = ''b'', af_type = ArchiveFileTypeUnknown\<rparr>]\<rparr>) (archive_alloc card_in))"

lemma two_files_any_path:
  "dir_reads (env_fatfs two_files_env) () path [file_entry ''a.x'', file_entry ''b.x''] (\<lambda>i. replicate i 0)"
  by (auto simp: two_files_env_def dir_reads_def two_files_def three_bytes_def file_entry_def
      less_Suc_eq numeral_2_eq_2)

lemma card_in_ready: "card_ready () card_in"
  by (simp add: card_ready_def card_in_def fs_init_def numeral_2_eq_2)

lemma archive_lists_files_witness:
  "\<exists>a1. archive_get_filenames two_files_env in_dir = Some (True, a1) \<and>
    map af_name (am_files (ar_model a1)) = [''a.x'', ''b.x'']"
proof -
  have "card_ready () (ar_info in_dir)" using card_in_ready by (simp add: in_dir_def archive_alloc_def)
  from archive_lists_files [OF two_files_any_path this] obtain st where
    "archive_get_filenames two_files_env in_dir = Some (True, with_model (\<lambda>m. m\<lparr>am_files :=
      listing (ab_tab_id (ar_browser in_dir)) [file_entry ''a.x'', file_entry ''b.x'']\<rparr>) in_dir\<lparr>ar_info := st\<rparr>)"
    by blast
  moreover have "ab_tab_id (ar_browser in_dir) = 0" by (simp add: in_dir_def archive_alloc_def)
  ultimately show ?thesis
    by (simp add: listing_def filter_by_extension_def get_tab_ext_def entry_file_def file_entry_def Let_def)
qed

lemma archive_enter_leave_witness:
  "\<exists>a1 a2. archive_view_input two_files_env (short InputKeyOk) in_dir = Some (Inr ([], a1)) \<and>
    archive_view_input two_files_env (short InputKeyBack) a1 = Some (Inr ([], a2)) \<and>
    ab_path (ar_browser a2) = ''dir''"
proof -
  have p: "ab_menu (ar_browser in_dir) = False"
    "unat (am_idx (ar_model in_dir)) < length (am_files (ar_model in_dir))"
    "am_files (ar_model in_dir) ! unat (am_idx (ar_model in_dir)) = \<lparr>af_name = ''sub'', af_type = ArchiveFileTypeFolder\<rparr>"
    "length (am_files (ar_model in_dir)) < 2 ^ 32"
    "unat (ab_depth (ar_browser in_dir)) < 32" "length (ab_last_idx (ar_browser in_dir)) = 32"
    "CHR ''/'' \<notin> set ''sub''" "ab_path (ar_browser in_dir) = ''dir''"
    by (simp_all add: in_dir_def archive_alloc_def)
  have c: "card_ready () (ar_info in_dir)" using card_in_ready by (simp add: in_dir_def archive_alloc_def)
  from archive_enter_leave [OF p(1-7) two_files_any_path two_files_any_path c] p(8) show ?thesis by auto
qed

lemma archive_cursor_in_view_witness:
  "\<exists>a1. archive_run two_files_env [short InputKeyDown, short InputKeyDown, short InputKeyUp] in_dir =
    Some (Inr ([], a1)) \<and> unat (am_idx (ar_model a1)) = 0"
proof -
  have p: "ab_menu (ar_browser in_dir) = False" "in_view (ar_model in_dir)"
    "length (am_files (ar_model in_dir)) \<le> 65536" "length (am_files (ar_model in_dir)) = 2"
    "unat (am_idx (ar_model in_dir)) = 0"
    by (simp_all add: in_dir_def archive_alloc_def in_view_def)
  have "\<forall>e \<in> set [short InputKeyDown, short InputKeyDown, short InputKeyUp]. moves e"
    by (simp add: moves_def)
  from archive_cursor_in_view [OF p(1-3) this, of two_files_env] p(4,5) show ?thesis by auto
qed

lemma archive_enter_faults_iff_witness:
  "\<exists>f. archive_view_input two_files_env (short InputKeyOk)
    (with_browser (\<lambda>b. b\<lparr>ab_depth := 32\<rparr>) in_dir) = Some (Inl f)"
proof -
  define a where "a = with_browser (\<lambda>b. b\<lparr>ab_depth := 32\<rparr>) in_dir"
  have p: "ab_menu (ar_browser a) = False"
    "unat (am_idx (ar_model a)) < length (am_files (ar_model a))"
    "af_type (am_files (ar_model a) ! unat (am_idx (ar_model a))) = ArchiveFileTypeFolder"
    "length (ab_last_idx (ar_browser a)) = MAX_DEPTH" "unat (ab_depth (ar_browser a)) = 32"
    by (simp_all add: a_def in_dir_def archive_alloc_def)
  from archive_enter_faults_iff [OF p(1-4), of two_files_env] p(5) show ?thesis by (simp add: a_def)
qed

lemma archive_rename_out_crashes_witness:
  "\<exists>a1. archive_text_input_callback two_files_env ''c''
      (with_browser (\<lambda>b. b\<lparr>ab_menu := True, ab_tab_id := 2\<rparr>) in_dir) =
      Some ([Archive_Switch_View ArchiveViewMain], a1) \<and>
    archive_view_input two_files_env (short InputKeyOk) a1 = Some (Inl Out_Of_Bounds)"
proof -
  define a where "a = with_browser (\<lambda>b. b\<lparr>ab_menu := True, ab_tab_id := 2\<rparr>) in_dir"
  have p: "ab_menu (ar_browser a) = True" "sd_status (ar_info a) = SD_OK" "ab_tab_id (ar_browser a) = 2"
    by (simp_all add: a_def in_dir_def archive_alloc_def card_in_def)
  have r: "ff_rename (env_fatfs two_files_env) x y v = (SD_OK, ())" for x y v
    by (simp add: two_files_env_def two_files_def three_bytes_def)
  have c: "card_ready () ((ar_info a)\<lparr>sd_volume := ()\<rparr>)"
    using card_in_ready by (simp add: a_def in_dir_def archive_alloc_def card_ready_def)
  have "listing 2 [file_entry ''a.x'', file_entry ''b.x''] = []"
    by (simp add: listing_def filter_by_extension_def get_tab_ext_def known_ext_def file_entry_def
        Let_def strstr.simps)
  then have l: "length (listing (ab_tab_id (ar_browser a)) [file_entry ''a.x'', file_entry ''b.x'']) \<le>
      unat (am_idx (ar_model a))"
    by (simp add: p(3))
  from archive_rename_out_crashes [OF p(1,2) r two_files_any_path c l] show ?thesis by (simp add: a_def)
qed

end
