(* ===== verification/I2c.thy ===== *)
theory I2c
  imports Prelude
begin

text \<open>
  Transfers over the I2C bus of the power chips, \<^verbatim>\<open>api-hal/api-hal-i2c.c\<close> of target f6.

  The peripheral is what the loops see of it: the answers to the busy flag, one per poll, then for
  each round of the transfer loop a record of the flags that round reads. A list of rounds that is
  used up stands for a transfer that is still going on (\<open>None\<close>). The counters keep their C width;
  reading or writing past the buffer is a fault.
\<close>

section \<open>Transfers\<close>

text \<open>
  One round of a transfer loop: the stop flag, the flag that asks for a byte (\<^verbatim>\<open>TXIS\<close>) or offers
  one (\<^verbatim>\<open>RXNE\<close>), the byte offered, and the system tick's counter flag.
\<close>

record i2c_poll =
  poll_stop :: bool
  poll_ready :: bool
  poll_byte :: u8
  poll_tick :: bool

type_synonym i2c_polls = "bool list \<times> i2c_poll list"

text \<open>\<^verbatim>\<open>while(LL_I2C_IsActiveFlag_BUSY(instance));\<close>\<close>

fun i2c_wait :: "bool list \<Rightarrow> unit option" where
  "i2c_wait [] = None"
| "i2c_wait (busy # bs) = (if busy then i2c_wait bs else Some ())"

text \<open>
  The loop that transmits. \<open>i\<close> is how far \<open>data\<close> has moved, \<open>left\<close> is \<^verbatim>\<open>time_left\<close>. The result
  is the return value and the bytes given to the peripheral.
\<close>

fun i2c_tx_loop ::
    "u8 list \<Rightarrow> u32 \<Rightarrow> i2c_poll list \<Rightarrow> nat \<Rightarrow> u8 \<Rightarrow> u32 \<Rightarrow> (bool \<times> u8 list) res option" where
  "i2c_tx_loop data timeout [] i sz left = None"
| "i2c_tx_loop data timeout (p # ps) i sz left =
     (if \<not> poll_stop p \<or> sz > 0 then
        (if poll_ready p \<and> length data \<le> i then Some (Inl Out_Of_Bounds)
         else
           (let i1 = (if poll_ready p then i + 1 else i);
                sz1 = (if poll_ready p then sz - 1 else sz);
                left1 = (if poll_ready p then timeout else left);
                left2 = (if poll_tick p then left1 - 1 else left1)
            in if poll_tick p \<and> left2 = 0 then Some (Inr (False, take i1 data))
               else i2c_tx_loop data timeout ps i1 sz1 left2))
      else Some (Inr (True, take i data)))"

definition api_hal_i2c_tx :: "i2c_polls \<Rightarrow> u8 list \<Rightarrow> u8 \<Rightarrow> u32 \<Rightarrow> (bool \<times> u8 list) res option" where
  "api_hal_i2c_tx hw data sz timeout =
     (case i2c_wait (fst hw) of
        None \<Rightarrow> None
      | Some _ \<Rightarrow> i2c_tx_loop data timeout (snd hw) 0 sz timeout)"

text \<open>The loop that receives into \<open>buf\<close>; the result is the return value and the buffer.\<close>

fun i2c_rx_loop ::
    "u8 list \<Rightarrow> u32 \<Rightarrow> i2c_poll list \<Rightarrow> nat \<Rightarrow> u8 \<Rightarrow> u32 \<Rightarrow> (bool \<times> u8 list) res option" where
  "i2c_rx_loop buf timeout [] i sz left = None"
| "i2c_rx_loop buf timeout (p # ps) i sz left =
     (if \<not> poll_stop p \<or> sz > 0 then
        (if poll_ready p \<and> length buf \<le> i then Some (Inl Out_Of_Bounds)
         else
           (let buf1 = (if poll_ready p then buf[i := poll_byte p] else buf);
                i1 = (if poll_ready p then i + 1 else i);
                sz1 = (if poll_ready p then sz - 1 else sz);
                left1 = (if poll_ready p then timeout else left);
                left2 = (if poll_tick p then left1 - 1 else left1)
            in if poll_tick p \<and> left2 = 0 then Some (Inr (False, buf1))
               else i2c_rx_loop buf1 timeout ps i1 sz1 left2))
      else Some (Inr (True, buf)))"

definition api_hal_i2c_rx :: "i2c_polls \<Rightarrow> u8 list \<Rightarrow> u8 \<Rightarrow> u32 \<Rightarrow> (bool \<times> u8 list) res option" where
  "api_hal_i2c_rx hw buf sz timeout =
     (case i2c_wait (fst hw) of
        None \<Rightarrow> None
      | Some _ \<Rightarrow> i2c_rx_loop buf timeout (snd hw) 0 sz timeout)"

text \<open>
  \<^verbatim>\<open>api_hal_i2c_trx\<close>: the receive part runs only after a successful transmit; the result is the
  return value, the bytes sent and the receive buffer.
\<close>

definition api_hal_i2c_trx ::
    "i2c_polls \<Rightarrow> i2c_polls \<Rightarrow> u8 list \<Rightarrow> u8 \<Rightarrow> u8 list \<Rightarrow> u8 \<Rightarrow> u32 \<Rightarrow>
       (bool \<times> u8 list \<times> u8 list) res option" where
  "api_hal_i2c_trx hw_tx hw_rx tx_data tx_size rx_data rx_size timeout =
     (case api_hal_i2c_tx hw_tx tx_data tx_size timeout of
        None \<Rightarrow> None
      | Some (Inl e) \<Rightarrow> Some (Inl e)
      | Some (Inr (ok, sent)) \<Rightarrow>
          (if ok then
             (case api_hal_i2c_rx hw_rx rx_data rx_size timeout of
                None \<Rightarrow> None
              | Some (Inl e) \<Rightarrow> Some (Inl e)
              | Some (Inr (ok2, buf)) \<Rightarrow> Some (Inr (ok2, sent, buf)))
           else Some (Inr (False, sent, rx_data))))"

section \<open>What a finished transfer has done\<close>

lemma take_step: "i < length xs \<Longrightarrow> take (i + 1) xs = take i xs @ [xs ! i]"
  by (simp add: take_Suc_conv_app_nth)

lemma word_pos_unat: "(0 < w) = (0 < unat (w :: 'a :: len word))"
  by (simp add: word_greater_zero_iff unat_gt_0)

text \<open>Success means that the whole buffer went out, not a byte more.\<close>

lemma i2c_tx_loop_sends:
  "i2c_tx_loop data timeout ps i sz left = Some (Inr (True, sent)) \<Longrightarrow>
     i + unat sz = length data \<Longrightarrow> sent = data"
proof (induction ps arbitrary: i sz left)
  case (Cons p ps)
  show ?case
  proof (cases "\<not> poll_stop p \<or> sz > 0")
    case True
    show ?thesis
    proof (cases "poll_ready p")
      case ready: True
      with True Cons.prems obtain l where
        l: "i2c_tx_loop data timeout ps (i + 1) (sz - 1) l = Some (Inr (True, sent))"
        and i: "i < length data"
        by (auto simp: Let_def split: if_splits)
      with Cons.prems(2) have "i + 1 + unat (sz - 1) = length data"
        by (simp add: dec_unat unat_gt_0 [symmetric])
      with l show ?thesis by (rule Cons.IH)
    next
      case False
      with True Cons show ?thesis by (auto simp: Let_def split: if_splits)
    qed
  next
    case False
    with Cons.prems show ?thesis by (simp add: word_pos_unat)
  qed
qed simp

lemma i2c_tx_loop_prefix:
  "i2c_tx_loop data timeout ps i sz left = Some (Inr (ok, sent)) \<Longrightarrow> \<exists>n. sent = take n data"
proof (induction data timeout ps i sz left rule: i2c_tx_loop.induct)
  case (2 data timeout p ps i sz left)
  then show ?case by (auto simp: Let_def split: if_splits)
qed simp

lemma i2c_rx_loop_length:
  "i2c_rx_loop buf timeout ps i sz left = Some (Inr (ok, buf')) \<Longrightarrow> length buf' = length buf"
proof (induction buf timeout ps i sz left rule: i2c_rx_loop.induct)
  case (2 buf timeout p ps i sz left)
  then show ?case by (auto simp: Let_def split: if_splits)
qed simp

text \<open>
  The bytes offered, in their order. A successful receive has put as many of them into the buffer
  as were asked for.
\<close>

definition offered :: "i2c_poll list \<Rightarrow> u8 list" where
  "offered ps = map poll_byte (filter poll_ready ps)"

lemma offered_Cons: "offered (p # ps) = (if poll_ready p then poll_byte p # offered ps else offered ps)"
  by (simp add: offered_def)

lemma i2c_rx_loop_reads:
  "i2c_rx_loop buf timeout ps i sz left = Some (Inr (True, buf')) \<Longrightarrow>
     i + unat sz = length buf \<Longrightarrow>
     buf' = take i buf @ take (unat sz) (offered ps) \<and> unat sz \<le> length (offered ps)"
proof (induction ps arbitrary: buf i sz left)
  case (Cons p ps)
  show ?case
  proof (cases "\<not> poll_stop p \<or> sz > 0")
    case True
    show ?thesis
    proof (cases "poll_ready p")
      case ready: True
      with True Cons.prems obtain l where
        l: "i2c_rx_loop (buf[i := poll_byte p]) timeout ps (i + 1) (sz - 1) l = Some (Inr (True, buf'))"
        and i: "i < length buf"
        by (auto simp: Let_def split: if_splits)
      with Cons.prems(2) have s: "unat sz = Suc (unat (sz - 1))"
        by (simp add: dec_unat unat_gt_0 [symmetric])
      with Cons.prems(2) have "i + 1 + unat (sz - 1) = length (buf[i := poll_byte p])" by simp
      from Cons.IH [OF l this] i s ready show ?thesis
        by (simp add: offered_Cons take_Suc_conv_app_nth)
    next
      case False
      with True Cons show ?thesis by (auto simp: Let_def offered_Cons split: if_splits)
    qed
  next
    case False
    with Cons.prems show ?thesis by (simp add: word_pos_unat)
  qed
qed simp

section \<open>The transfer ends\<close>

text \<open>
  Ticks that the loop may still count: what is left for this byte, and a full timeout for every
  byte to come.
\<close>

definition tick_count :: "i2c_poll list \<Rightarrow> nat" where
  "tick_count ps = length (filter poll_tick ps)"

lemma tick_count_Cons: "tick_count (p # ps) = (if poll_tick p then 1 else 0) + tick_count ps"
  by (simp add: tick_count_def)

lemma i2c_tx_loop_ends:
  assumes "0 < unat timeout"
  shows "0 < unat left \<Longrightarrow> unat left \<le> unat timeout \<Longrightarrow>
     unat left + (length data - i) * unat timeout \<le> tick_count ps \<Longrightarrow>
     i2c_tx_loop data timeout ps i sz left \<noteq> None"
proof (induction ps arbitrary: i sz left)
  case Nil
  then show ?case by (simp add: tick_count_def)
next
  case (Cons p ps)
  let ?left1 = "if poll_ready p then timeout else left"
  let ?left2 = "if poll_tick p then ?left1 - 1 else ?left1"
  show ?case
  proof (cases "(\<not> poll_stop p \<or> sz > 0) \<and> \<not> (poll_ready p \<and> length data \<le> i) \<and>
      \<not> (poll_tick p \<and> ?left2 = 0)")
    case True
    have l1: "0 < unat ?left1" using Cons.prems assms by simp
    then have l2: "unat ?left2 = unat ?left1 - (if poll_tick p then 1 else 0)"
      by (auto simp: dec_unat unat_gt_0 unat_minus_one)
    have pos: "0 < unat ?left2" using True l1 by (auto simp: unat_gt_0)
    have le: "unat ?left2 \<le> unat timeout" using Cons.prems(2) l2 by (auto split: if_splits)
    have ticks: "unat ?left2 + (length data - (if poll_ready p then i + 1 else i)) * unat timeout
        \<le> tick_count ps"
    proof (cases "poll_ready p")
      case ready: True
      with True have "length data - i = Suc (length data - (i + 1))" by auto
      with ready Cons.prems(1,3) l2 show ?thesis
        by (cases "poll_tick p") (simp_all add: tick_count_Cons)
    next
      case False
      with Cons.prems(1,3) l2 show ?thesis
        by (cases "poll_tick p") (simp_all add: tick_count_Cons)
    qed
    from Cons.IH [OF pos le ticks] True show ?thesis
      by (auto simp: Let_def)
  next
    case False
    then show ?thesis by (auto simp: Let_def)
  qed
qed

text \<open>
  The peripheral is started with the number of bytes and in the mode that ends the transfer by itself:
  as its manual says, it asks for no more bytes than that.
\<close>

definition asked_bytes :: "i2c_poll list \<Rightarrow> nat" where
  "asked_bytes ps = length (filter poll_ready ps)"

lemma i2c_tx_loop_no_fault:
  "i + asked_bytes ps \<le> length data \<Longrightarrow> i2c_tx_loop data timeout ps i sz left = Some r \<Longrightarrow>
     \<exists>ok k. r = Inr (ok, take k data)"
proof (induction ps arbitrary: i sz left)
  case (Cons p ps)
  let ?i = "if poll_ready p then i + 1 else i"
  have "(\<exists>ok k. r = Inr (ok, take k data)) \<or>
      (\<exists>sz1 left1. i2c_tx_loop data timeout ps ?i sz1 left1 = Some r)"
    using Cons.prems by (auto simp: asked_bytes_def Let_def split: if_splits)
  moreover have "?i + asked_bytes ps \<le> length data" using Cons.prems(1) by (auto simp: asked_bytes_def)
  ultimately show ?case using Cons.IH by blast
qed simp

section \<open>Properties\<close>

text \<open>
  C38. A transmission returns once the bus is free: with a timeout of at least one tick, and with a
  peripheral that asks for no more bytes than it was started for, the call has returned when the
  system tick has come once per timeout tick for every byte and one more time round, whatever the
  peripheral does otherwise and in whatever order; it has handed over a beginning of the buffer, and
  all of it if it reports success. (The wait for a free bus before it has no bound; and a peripheral
  that went on asking would be given what lies behind the buffer, with the time renewed each time.)
\<close>

theorem i2c_tx_returns:
  assumes "i2c_wait busy = Some ()" and "0 < timeout" and "unat sz = length data"
    and "asked_bytes ps \<le> length data" and "(length data + 1) * unat timeout \<le> tick_count ps"
  shows "\<exists>ok sent. api_hal_i2c_tx (busy, ps) data sz timeout = Some (Inr (ok, sent)) \<and>
    (\<exists>k. sent = take k data) \<and> (sent = data \<or> ok = False)"
proof -
  have tx: "api_hal_i2c_tx (busy, ps) data sz timeout = i2c_tx_loop data timeout ps 0 sz timeout"
    using assms(1) by (simp add: api_hal_i2c_tx_def)
  have "i2c_tx_loop data timeout ps 0 sz timeout \<noteq> None"
    using i2c_tx_loop_ends [of timeout timeout data 0 ps sz] assms(2,5) by (simp add: word_pos_unat add.commute)
  then obtain r where r: "i2c_tx_loop data timeout ps 0 sz timeout = Some r" by blast
  from i2c_tx_loop_no_fault [OF _ this] assms(4) obtain ok k where "r = Inr (ok, take k data)" by auto
  with r have s: "i2c_tx_loop data timeout ps 0 sz timeout = Some (Inr (ok, take k data))" by simp
  moreover have "take k data = data \<or> ok = False"
    using s i2c_tx_loop_sends [of data timeout ps 0 sz timeout "take k data"] assms(3) by (cases ok) auto
  ultimately show ?thesis unfolding tx by blast
qed

definition silent_ticks :: "nat \<Rightarrow> i2c_poll list" where
  "silent_ticks n = replicate n \<lparr>poll_stop = True, poll_ready = False, poll_byte = 0, poll_tick = True\<rparr>"

theorem i2c_tx_returns_witness:
  "\<exists>ok sent. api_hal_i2c_tx ([True, False], silent_ticks 8) [0x3A] 1 4 = Some (Inr (ok, sent)) \<and>
     (\<exists>k. sent = take k [0x3A]) \<and> (sent = [0x3A] \<or> ok = False)"
  by (rule i2c_tx_returns) (simp_all add: silent_ticks_def tick_count_def asked_bytes_def)

text \<open>
  A peripheral that asks once more than it was started for is given the byte behind the buffer: the size
  wraps around, and the loop goes on.
\<close>

lemma i2c_tx_overruns:
  "api_hal_i2c_tx ([False], replicate 2 \<lparr>poll_stop = False, poll_ready = True, poll_byte = 0, poll_tick = False\<rparr>)
     [0x3A] 1 4 = Some (Inl Out_Of_Bounds)"
  by (simp add: api_hal_i2c_tx_def numeral_2_eq_2)

text \<open>
  A write and read that reports success has sent the whole command and filled the whole buffer
  with the bytes that the peripheral offered, in their order.
\<close>

lemma i2c_trx_exchanges:
  assumes "api_hal_i2c_trx hw_tx hw_rx data (of_nat (length data)) buf (of_nat (length buf)) timeout =
      Some (Inr (True, sent, buf'))"
    and "length data < 256" and "length buf < 256"
  shows "sent = data \<and> buf' = take (length buf) (offered (snd hw_rx))"
proof -
  from assms(2,3) have l: "unat (of_nat (length data) :: u8) = length data"
    "unat (of_nat (length buf) :: u8) = length buf"
    by (simp_all add: unat_of_nat_small)
  from assms(1) have
    tx: "i2c_tx_loop data timeout (snd hw_tx) 0 (of_nat (length data)) timeout = Some (Inr (True, sent))"
    and rx: "i2c_rx_loop buf timeout (snd hw_rx) 0 (of_nat (length buf)) timeout = Some (Inr (True, buf'))"
    by (auto simp: api_hal_i2c_trx_def api_hal_i2c_tx_def api_hal_i2c_rx_def
        split: option.splits sum.splits if_splits)
  from i2c_tx_loop_sends [OF tx] i2c_rx_loop_reads [OF rx] l show ?thesis by simp
qed

section \<open>The bus, as the drivers of the chips see it\<close>

text \<open>
  \<open>bus_tx\<close>: chip address and bytes to the return value; \<open>bus_trx\<close>: chip address, bytes to send
  and the receive buffer to the return value and the buffer after; \<open>bus_wait\<close> is
  \<^verbatim>\<open>delay_us\<close>.
\<close>

record 'd i2c_bus =
  bus_tx :: "u8 \<Rightarrow> u8 list \<Rightarrow> 'd \<Rightarrow> bool \<times> 'd"
  bus_trx :: "u8 \<Rightarrow> u8 list \<Rightarrow> u8 list \<Rightarrow> 'd \<Rightarrow> (bool \<times> u8 list) \<times> 'd"
  bus_wait :: "u32 \<Rightarrow> 'd \<Rightarrow> 'd"

text \<open>
  The interface between the drivers and the transfers: a receive keeps the length of the buffer, and
  a transmission that reports success has put the whole message on the wire. \<open>log\<close> is what went
  over it.
\<close>

locale i2c_link =
  fixes bus :: "'d i2c_bus"
    and log :: "'d \<Rightarrow> (u8 \<times> u8 list) list"
  assumes keeps_length:
      "bus_trx bus a msg buf d = ((ok, buf1), d1) \<Longrightarrow> length buf1 = length buf"
    and sends_all:
      "bus_tx bus a msg d = (True, d1) \<Longrightarrow> length msg < 256 \<Longrightarrow> log d1 = log d @ [(a, msg)]"

text \<open>
  The transfers of this file as such a bus: each consumes the polls of one transfer. A transfer that
  faults or never ends leaves the bus \<open>hung\<close>; from then on nothing is sent.
\<close>

record polled_i2c =
  pending_polls :: "i2c_polls list"
  wire :: "(u8 \<times> u8 list) list"
  hung :: bool

definition polled_tx :: "u8 \<Rightarrow> u8 list \<Rightarrow> polled_i2c \<Rightarrow> bool \<times> polled_i2c" where
  "polled_tx a msg d =
     (case pending_polls d of
        [] \<Rightarrow> (False, d\<lparr>hung := True\<rparr>)
      | p # ps \<Rightarrow>
          (case api_hal_i2c_tx p msg (of_nat (length msg)) 50 of
             Some (Inr (ok, sent)) \<Rightarrow>
               (ok \<and> \<not> hung d, d\<lparr>pending_polls := ps, wire := wire d @ (if hung d then [] else [(a, sent)])\<rparr>)
           | _ \<Rightarrow> (False, d\<lparr>hung := True\<rparr>)))"

definition polled_trx :: "u8 \<Rightarrow> u8 list \<Rightarrow> u8 list \<Rightarrow> polled_i2c \<Rightarrow> (bool \<times> u8 list) \<times> polled_i2c" where
  "polled_trx a msg buf d =
     (case pending_polls d of
        p # q # ps \<Rightarrow>
          (case api_hal_i2c_trx p q msg (of_nat (length msg)) buf (of_nat (length buf)) 50 of
             Some (Inr (ok, sent, buf1)) \<Rightarrow>
               ((ok \<and> \<not> hung d, if hung d then buf else buf1),
                d\<lparr>pending_polls := ps, wire := wire d @ (if hung d then [] else [(a, sent)])\<rparr>)
           | _ \<Rightarrow> ((False, buf), d\<lparr>hung := True\<rparr>))
      | _ \<Rightarrow> ((False, buf), d\<lparr>hung := True\<rparr>))"

definition polled_bus :: "polled_i2c i2c_bus" where
  "polled_bus = \<lparr>bus_tx = polled_tx, bus_trx = polled_trx, bus_wait = \<lambda>_ d. d\<rparr>"

lemma i2c_tx_sends:
  "api_hal_i2c_tx p msg (of_nat (length msg)) timeout = Some (Inr (True, sent)) \<Longrightarrow>
     length msg < 256 \<Longrightarrow> sent = msg"
  by (auto simp: api_hal_i2c_tx_def unat_of_nat_small split: option.splits dest: i2c_tx_loop_sends)

lemma i2c_trx_length:
  "api_hal_i2c_trx p q msg m buf n timeout = Some (Inr (ok, sent, buf1)) \<Longrightarrow> length buf1 = length buf"
  by (auto simp: api_hal_i2c_trx_def api_hal_i2c_rx_def split: option.splits sum.splits if_splits
      dest: i2c_rx_loop_length)

interpretation polled: i2c_link polled_bus wire
proof
  fix a msg buf d ok buf1 d1
  assume "bus_trx polled_bus a msg buf d = ((ok, buf1), d1)"
  then show "length buf1 = length buf"
    by (auto simp: polled_bus_def polled_trx_def split: list.splits option.splits sum.splits if_splits
        dest: i2c_trx_length)
next
  fix a msg d d1
  assume "bus_tx polled_bus a msg d = (True, d1)" and "length msg < 256"
  then show "wire d1 = wire d @ [(a, msg)]"
    by (auto simp: polled_bus_def polled_tx_def split: list.splits option.splits sum.splits if_splits
        dest: i2c_tx_sends)
qed

end
