(* ===== verification/PowerChips.thy ===== *)
theory PowerChips
  imports I2c Notification
begin

text \<open>
  The chips on the power bus: the charger, \<^verbatim>\<open>lib/drivers/bq25896.c\<close>, the fuel gauge,
  \<^verbatim>\<open>lib/drivers/bq27220.c\<close>, and the LED driver, \<^verbatim>\<open>lib/drivers/lp5562.c\<close> with its user
  \<^verbatim>\<open>api-hal/api-hal-light.c\<close>.

  The drivers reach the chips through the bus: a record of the functions they call, over a state
  \<open>'d\<close> of everything behind it. A register with bit fields is the byte that the drivers
  transfer, its fields bits of that byte, lowest first as the headers declare them. Each transfer
  runs under the mutex of the bus (\<^verbatim>\<open>with_api_hal_i2c\<close>), so it is one step.
\<close>

unbundle bit_operations_syntax

section \<open>The charger\<close>

definition bit_reverse :: "u8 \<Rightarrow> u8" where
  "bit_reverse b0 =
     (let b1 = drop_bit 4 (b0 AND 0xF0) OR push_bit 4 (b0 AND 0x0F);
          b2 = drop_bit 2 (b1 AND 0xCC) OR push_bit 2 (b1 AND 0x33);
          b3 = drop_bit 1 (b2 AND 0xAA) OR push_bit 1 (b2 AND 0x55)
      in b3)"

definition bq25896_address :: u8 where "bq25896_address = 0xD6"

text \<open>\<^verbatim>\<open>bq25896_regs\<close>, the driver's copy of the 21 registers, is a list of bytes.\<close>

type_synonym bq25896_regs = "u8 list"

definition bq25896_read :: "'d i2c_bus \<Rightarrow> u8 \<Rightarrow> u8 list \<Rightarrow> 'd \<Rightarrow> (bool \<times> u8 list) \<times> 'd" where
  "bq25896_read bus address buf d = bus_trx bus bq25896_address [address] buf d"

text \<open>The whole copy, and one register of it.\<close>

definition bq25896_read_all :: "'d i2c_bus \<Rightarrow> bq25896_regs \<Rightarrow> 'd \<Rightarrow> bq25896_regs \<times> 'd" where
  "bq25896_read_all bus regs d = (case bq25896_read bus 0 regs d of ((_, buf), d1) \<Rightarrow> (buf, d1))"

definition bq25896_read_reg :: "'d i2c_bus \<Rightarrow> nat \<Rightarrow> bq25896_regs \<Rightarrow> 'd \<Rightarrow> (bool \<times> bq25896_regs) \<times> 'd" where
  "bq25896_read_reg bus r regs d =
     (case bq25896_read bus (of_nat r) [regs ! r] d of
        ((_, buf), d1) \<Rightarrow> ((True, regs[r := buf ! 0]), d1))"

definition bq25896_write_reg :: "'d i2c_bus \<Rightarrow> nat \<Rightarrow> bq25896_regs \<Rightarrow> 'd \<Rightarrow> bool \<times> 'd" where
  "bq25896_write_reg bus r regs d = bus_tx bus bq25896_address [of_nat r, regs ! r] d"

definition bq25896_init :: "'d i2c_bus \<Rightarrow> bq25896_regs \<Rightarrow> 'd \<Rightarrow> bq25896_regs \<times> 'd" where
  "bq25896_init bus regs0 d0 =
     (let regs1 = regs0[0x14 := set_bit 7 (regs0 ! 0x14)];
          (_, d1) = bq25896_write_reg bus 0x14 regs1 d0;
          (regs2, d2) = bq25896_read_all bus regs1 d1;
          regs3 = regs2[0x02 := set_bit 6 (set_bit 7 (regs2 ! 0x02))];
          (_, d3) = bq25896_write_reg bus 0x02 regs3 d2;
          regs4 = regs3[0x07 := unset_bit 4 (unset_bit 5 (regs3 ! 0x07))];
          (_, d4) = bq25896_write_reg bus 0x07 regs4 d3
      in bq25896_read_all bus regs4 d4)"

definition bq25896_poweroff :: "'d i2c_bus \<Rightarrow> bq25896_regs \<Rightarrow> 'd \<Rightarrow> bq25896_regs \<times> 'd" where
  "bq25896_poweroff bus regs d =
     (let regs1 = regs[0x09 := set_bit 5 (regs ! 0x09)]
      in (regs1, snd (bq25896_write_reg bus 0x09 regs1 d)))"

definition chrg_stat :: "u8 \<Rightarrow> u8" where "chrg_stat r = take_bit 2 (drop_bit 3 r)"

definition bq25896_is_charging :: "'d i2c_bus \<Rightarrow> bq25896_regs \<Rightarrow> 'd \<Rightarrow> (bool \<times> bq25896_regs) \<times> 'd" where
  "bq25896_is_charging bus regs d =
     (let (regs1, d1) = bq25896_read_all bus regs d;
          ((_, regs2), d2) = bq25896_read_reg bus 0x0B regs1 d1
      in ((chrg_stat (regs2 ! 0x0B) \<noteq> 0, regs2), d2))"

definition bq25896_enable_otg :: "'d i2c_bus \<Rightarrow> bq25896_regs \<Rightarrow> 'd \<Rightarrow> bq25896_regs \<times> 'd" where
  "bq25896_enable_otg bus regs d =
     (let regs1 = regs[0x03 := set_bit 5 (regs ! 0x03)]
      in (regs1, snd (bq25896_write_reg bus 0x03 regs1 d)))"

definition bq25896_disable_otg :: "'d i2c_bus \<Rightarrow> bq25896_regs \<Rightarrow> 'd \<Rightarrow> bq25896_regs \<times> 'd" where
  "bq25896_disable_otg bus regs d =
     (let regs1 = regs[0x03 := unset_bit 5 (regs ! 0x03)]
      in (regs1, snd (bq25896_write_reg bus 0x03 regs1 d)))"

text \<open>The conversions; all but the first are of a seven-bit field.\<close>

definition bq25896_get_vbus_voltage :: "'d i2c_bus \<Rightarrow> bq25896_regs \<Rightarrow> 'd \<Rightarrow> (u16 \<times> bq25896_regs) \<times> 'd" where
  "bq25896_get_vbus_voltage bus regs d =
     (let ((_, regs1), d1) = bq25896_read_reg bus 0x11 regs d; r = regs1 ! 0x11
      in ((if bit r 7 then ucast (take_bit 7 r) * 100 + 2600 else 0, regs1), d1))"

definition bq25896_get_vsys_voltage :: "'d i2c_bus \<Rightarrow> bq25896_regs \<Rightarrow> 'd \<Rightarrow> (u16 \<times> bq25896_regs) \<times> 'd" where
  "bq25896_get_vsys_voltage bus regs d =
     (let ((_, regs1), d1) = bq25896_read_reg bus 0x0F regs d
      in ((ucast (take_bit 7 (regs1 ! 0x0F)) * 20 + 2304, regs1), d1))"

definition bq25896_get_vbat_voltage :: "'d i2c_bus \<Rightarrow> bq25896_regs \<Rightarrow> 'd \<Rightarrow> (u16 \<times> bq25896_regs) \<times> 'd" where
  "bq25896_get_vbat_voltage bus regs d =
     (let ((_, regs1), d1) = bq25896_read_reg bus 0x0E regs d
      in ((ucast (take_bit 7 (regs1 ! 0x0E)) * 20 + 2304, regs1), d1))"

definition bq25896_get_vbat_current :: "'d i2c_bus \<Rightarrow> bq25896_regs \<Rightarrow> 'd \<Rightarrow> (u16 \<times> bq25896_regs) \<times> 'd" where
  "bq25896_get_vbat_current bus regs d =
     (let ((_, regs1), d1) = bq25896_read_reg bus 0x12 regs d
      in ((ucast (take_bit 7 (regs1 ! 0x12)) * 50, regs1), d1))"

definition bq25896_get_ntc_mpct :: "'d i2c_bus \<Rightarrow> bq25896_regs \<Rightarrow> 'd \<Rightarrow> (u32 \<times> bq25896_regs) \<times> 'd" where
  "bq25896_get_ntc_mpct bus regs d =
     (let ((_, regs1), d1) = bq25896_read_reg bus 0x10 regs d
      in ((ucast (take_bit 7 (regs1 ! 0x10)) * 465 + 21000, regs1), d1))"

section \<open>The fuel gauge\<close>

definition bq27220_address :: u8 where "bq27220_address = 0xAA"

datatype bq27220_command =
    CommandControl | CommandTemperature | CommandVoltage | CommandBatteryStatus | CommandCurrent
  | CommandRemainingCapacity | CommandFullChargeCapacity | CommandStateOfCharge
  | CommandStateOfHealth | CommandOperationStatus | CommandDesignCapacity | CommandSelectSubclass
  | CommandMACDataSum

fun command_code :: "bq27220_command \<Rightarrow> u8" where
  "command_code CommandControl = 0x00"
| "command_code CommandTemperature = 0x06"
| "command_code CommandVoltage = 0x08"
| "command_code CommandBatteryStatus = 0x0A"
| "command_code CommandCurrent = 0x0C"
| "command_code CommandRemainingCapacity = 0x10"
| "command_code CommandFullChargeCapacity = 0x12"
| "command_code CommandStateOfCharge = 0x2C"
| "command_code CommandStateOfHealth = 0x2E"
| "command_code CommandOperationStatus = 0x3A"
| "command_code CommandDesignCapacity = 0x3C"
| "command_code CommandSelectSubclass = 0x3E"
| "command_code CommandMACDataSum = 0x60"

definition control_enter_cfg_update :: u16 where "control_enter_cfg_update = 0x0090"
definition control_exit_cfg_update :: u16 where "control_exit_cfg_update = 0x0092"

record gauging_config =
  gc_CCT :: bool
  gc_CSYNC :: bool
  gc_EDV_CMP :: bool
  gc_SC :: bool
  gc_FIXED_EDV0 :: bool
  gc_FCC_LIM :: bool
  gc_FC_FOR_VDQ :: bool
  gc_IGNORE_SD :: bool
  gc_SME0 :: bool

text \<open>\<^verbatim>\<open>gauge_conf_raw\<close>, the other member of the union; the reserved fields are zero.\<close>

definition gauge_conf_raw :: "gauging_config \<Rightarrow> u16" where
  "gauge_conf_raw g =
     of_bool (gc_CCT g) OR push_bit 1 (of_bool (gc_CSYNC g)) OR push_bit 3 (of_bool (gc_EDV_CMP g)) OR
     push_bit 4 (of_bool (gc_SC g)) OR push_bit 5 (of_bool (gc_FIXED_EDV0 g)) OR
     push_bit 8 (of_bool (gc_FCC_LIM g)) OR push_bit 10 (of_bool (gc_FC_FOR_VDQ g)) OR
     push_bit 11 (of_bool (gc_IGNORE_SD g)) OR push_bit 12 (of_bool (gc_SME0 g))"

record param_cedv =
  cedv_conf :: gauging_config
  full_charge_cap :: u16
  design_cap :: u16
  cedv_EDV0 :: u16
  cedv_EDV1 :: u16
  cedv_EDV2 :: u16
  cedv_EMF :: u16
  cedv_C0 :: u16
  cedv_R0 :: u16
  cedv_T0 :: u16
  cedv_R1 :: u16
  cedv_TC :: u8
  cedv_C1 :: u8
  DOD0 :: u16
  DOD10 :: u16
  DOD20 :: u16
  DOD30 :: u16
  DOD40 :: u16
  DOD50 :: u16
  DOD60 :: u16
  DOD70 :: u16
  DOD80 :: u16
  DOD90 :: u16
  DOD100 :: u16

text \<open>The profile of the device, from \<^verbatim>\<open>api-hal/api-hal-power.c\<close>.\<close>

definition device_cedv :: param_cedv where
  "device_cedv =
     \<lparr>cedv_conf = \<lparr>gc_CCT = True, gc_CSYNC = False, gc_EDV_CMP = False, gc_SC = True,
        gc_FIXED_EDV0 = True, gc_FCC_LIM = True, gc_FC_FOR_VDQ = True, gc_IGNORE_SD = True,
        gc_SME0 = False\<rparr>,
      full_charge_cap = 2100, design_cap = 2100, cedv_EDV0 = 3300, cedv_EDV1 = 3321,
      cedv_EDV2 = 3355, cedv_EMF = 3679, cedv_C0 = 430, cedv_R0 = 334, cedv_T0 = 4626,
      cedv_R1 = 408, cedv_TC = 11, cedv_C1 = 0, DOD0 = 4044, DOD10 = 3905, DOD20 = 3807,
      DOD30 = 3718, DOD40 = 3642, DOD50 = 3585, DOD60 = 3546, DOD70 = 3514, DOD80 = 3477,
      DOD90 = 3411, DOD100 = 3299\<rparr>"

text \<open>
  The operation status is kept as the 16-bit value it is overwritten with; \<^verbatim>\<open>CFGUPDATE\<close> is
  its bit 10.
\<close>

definition bq27220_read_word :: "'d i2c_bus \<Rightarrow> bq27220_command \<Rightarrow> 'd \<Rightarrow> u16 \<times> 'd" where
  "bq27220_read_word bus c d =
     (case bus_trx bus bq27220_address [command_code c] [command_code c, 0] d of
        ((ok, buf), d1) \<Rightarrow> (if ok then u16_of_bytes (buf ! 0) (buf ! 1) else 0, d1))"

definition bq27220_control :: "'d i2c_bus \<Rightarrow> u16 \<Rightarrow> 'd \<Rightarrow> bool \<times> 'd" where
  "bq27220_control bus control d =
     bus_tx bus bq27220_address
       [command_code CommandControl, ucast (control AND 0xFF), ucast (drop_bit 8 control AND 0xFF)] d"

fun checksum_loop :: "u8 list \<Rightarrow> u8 \<Rightarrow> u8" where
  "checksum_loop [] ret = ret"
| "checksum_loop (b # bs) ret = checksum_loop bs (ret + b)"

definition bq27220_get_checksum :: "u8 list \<Rightarrow> u8" where
  "bq27220_get_checksum data = 0xFF - checksum_loop data 0"

definition bq27220_set_parameter_u16 :: "'d i2c_bus \<Rightarrow> u16 \<Rightarrow> u16 \<Rightarrow> 'd \<Rightarrow> bool \<times> 'd" where
  "bq27220_set_parameter_u16 bus address val d0 =
     (let buffer = [command_code CommandSelectSubclass,
                    ucast (address AND 0xFF), ucast (drop_bit 8 address AND 0xFF),
                    ucast (drop_bit 8 val AND 0xFF), ucast (val AND 0xFF)];
          (_, d1) = bus_tx bus bq27220_address buffer d0;
          d2 = bus_wait bus 10000 d1;
          checksum = bq27220_get_checksum (tl buffer);
          (ret, d3) = bus_tx bus bq27220_address [command_code CommandMACDataSum, checksum, 6] d2
      in (ret, bus_wait bus 10000 d3))"

definition bq27220_get_battery_status :: "'d i2c_bus \<Rightarrow> u16 \<Rightarrow> 'd \<Rightarrow> (u8 \<times> u16) \<times> 'd" where
  "bq27220_get_battery_status bus st d =
     (case bq27220_read_word bus CommandBatteryStatus d of
        (data, d1) \<Rightarrow> (if data = 0 then (0, st) else (1, data), d1))"

definition bq27220_get_operation_status :: "'d i2c_bus \<Rightarrow> u16 \<Rightarrow> 'd \<Rightarrow> (u8 \<times> u16) \<times> 'd" where
  "bq27220_get_operation_status bus st d =
     (case bq27220_read_word bus CommandOperationStatus d of
        (data, d1) \<Rightarrow> (if data = 0 then (0, st) else (1, data), d1))"

text \<open>\<^verbatim>\<open>while((status.CFGUPDATE != 1) && (timeout-- > 0))\<close>\<close>

fun cfg_update_loop :: "'d i2c_bus \<Rightarrow> nat \<Rightarrow> u16 \<Rightarrow> 'd \<Rightarrow> 'd" where
  "cfg_update_loop bus 0 st d = d"
| "cfg_update_loop bus (Suc n) st d =
     (if bit st 10 then d
      else (case bq27220_get_operation_status bus st d of
              ((_, st1), d1) \<Rightarrow> cfg_update_loop bus n st1 d1))"

text \<open>The parameters in the order in which they are written.\<close>

definition cedv_writes :: "param_cedv \<Rightarrow> (u16 \<times> u16) list" where
  "cedv_writes cedv =
     [(0x929B, gauge_conf_raw (cedv_conf cedv)),
      (0x929D, full_charge_cap cedv), (0x929F, design_cap cedv), (0x92A3, cedv_EMF cedv),
      (0x92A9, cedv_C0 cedv), (0x92AB, cedv_R0 cedv), (0x92AD, cedv_T0 cedv), (0x92AF, cedv_R1 cedv),
      (0x92B1, push_bit 8 (ucast (cedv_TC cedv)) OR ucast (cedv_C1 cedv)),
      (0x92BD, DOD0 cedv), (0x92BF, DOD10 cedv), (0x92C1, DOD20 cedv), (0x92C3, DOD30 cedv),
      (0x92C5, DOD40 cedv), (0x92C7, DOD40 cedv), (0x92C9, DOD60 cedv), (0x92CB, DOD70 cedv),
      (0x92CD, DOD80 cedv), (0x92CF, DOD90 cedv), (0x92D1, DOD100 cedv),
      (0x92B4, cedv_EDV0 cedv), (0x92B7, cedv_EDV1 cedv), (0x92BA, cedv_EDV2 cedv)]"

fun set_parameters :: "'d i2c_bus \<Rightarrow> (u16 \<times> u16) list \<Rightarrow> 'd \<Rightarrow> 'd" where
  "set_parameters bus [] d = d"
| "set_parameters bus ((a, v) # ps) d =
     set_parameters bus ps (snd (bq27220_set_parameter_u16 bus a v d))"

definition bq27220_init :: "'d i2c_bus \<Rightarrow> param_cedv \<Rightarrow> 'd \<Rightarrow> bool \<times> 'd" where
  "bq27220_init bus cedv d0 =
     (let (cap, d1) = bq27220_read_word bus CommandDesignCapacity d0
      in if design_cap cedv = cap then (True, d1)
         else
           (let (ok, d2) = bq27220_control bus control_enter_cfg_update d1
            in if \<not> ok then (False, d2)
               else
                 (let d3 = cfg_update_loop bus 100 0 d2;
                      d4 = set_parameters bus (cedv_writes cedv) d3;
                      (_, d5) = bq27220_control bus control_exit_cfg_update d4;
                      d6 = bus_wait bus 10000 d5;
                      (cap2, d7) = bq27220_read_word bus CommandDesignCapacity d6
                  in (design_cap cedv = cap2, d7))))"

text \<open>The single readings.\<close>

definition bq27220_get_voltage :: "'d i2c_bus \<Rightarrow> 'd \<Rightarrow> u16 \<times> 'd" where
  "bq27220_get_voltage bus = bq27220_read_word bus CommandVoltage"

text \<open>\<^verbatim>\<open>int16_t\<close>: the same bits, read as a signed number.\<close>

definition bq27220_get_current :: "'d i2c_bus \<Rightarrow> 'd \<Rightarrow> int \<times> 'd" where
  "bq27220_get_current bus d =
     (case bq27220_read_word bus CommandCurrent d of (w, d1) \<Rightarrow> (sint w, d1))"

definition bq27220_get_temperature :: "'d i2c_bus \<Rightarrow> 'd \<Rightarrow> u16 \<times> 'd" where
  "bq27220_get_temperature bus = bq27220_read_word bus CommandTemperature"

definition bq27220_get_full_charge_capacity :: "'d i2c_bus \<Rightarrow> 'd \<Rightarrow> u16 \<times> 'd" where
  "bq27220_get_full_charge_capacity bus = bq27220_read_word bus CommandFullChargeCapacity"

definition bq27220_get_design_capacity :: "'d i2c_bus \<Rightarrow> 'd \<Rightarrow> u16 \<times> 'd" where
  "bq27220_get_design_capacity bus = bq27220_read_word bus CommandDesignCapacity"

definition bq27220_get_remaining_capacity :: "'d i2c_bus \<Rightarrow> 'd \<Rightarrow> u16 \<times> 'd" where
  "bq27220_get_remaining_capacity bus = bq27220_read_word bus CommandRemainingCapacity"

definition bq27220_get_state_of_charge :: "'d i2c_bus \<Rightarrow> 'd \<Rightarrow> u16 \<times> 'd" where
  "bq27220_get_state_of_charge bus = bq27220_read_word bus CommandStateOfCharge"

definition bq27220_get_state_of_health :: "'d i2c_bus \<Rightarrow> 'd \<Rightarrow> u16 \<times> 'd" where
  "bq27220_get_state_of_health bus = bq27220_read_word bus CommandStateOfHealth"

section \<open>Over any link\<close>

text \<open>
  Whatever the chips answer, over a link that keeps its laws the driver's copy of the charger's
  registers stays 21 bytes long, so every register it names is there; and a command that reports
  success has gone out as a whole.
\<close>

context i2c_link
begin

lemma bq25896_read_all_length:
  "bq25896_read_all bus regs d = (regs1, d1) \<Longrightarrow> length regs1 = length regs"
  by (auto simp: bq25896_read_all_def bq25896_read_def split: prod.splits dest: keeps_length)

lemma bq25896_read_reg_length:
  "bq25896_read_reg bus r regs d = ((ok, regs1), d1) \<Longrightarrow> length regs1 = length regs"
  by (auto simp: bq25896_read_reg_def split: prod.splits)

lemma bq25896_read_all_length_fst: "length (fst (bq25896_read_all bus regs d)) = length regs"
  by (metis bq25896_read_all_length prod.collapse)

lemma bq25896_init_length: "length (fst (bq25896_init bus regs d)) = length regs"
  by (auto simp: bq25896_init_def Let_def bq25896_read_all_length_fst
      split: prod.splits dest!: bq25896_read_all_length)

lemma bq25896_is_charging_length:
  "length (snd (fst (bq25896_is_charging bus regs d))) = length regs"
  by (auto simp: bq25896_is_charging_def Let_def split: prod.splits
      dest!: bq25896_read_all_length bq25896_read_reg_length)

lemma bq25896_writes_length:
  "length (fst (bq25896_poweroff bus regs d)) = length regs"
  "length (fst (bq25896_enable_otg bus regs d)) = length regs"
  "length (fst (bq25896_disable_otg bus regs d)) = length regs"
  by (simp_all add: bq25896_poweroff_def bq25896_enable_otg_def bq25896_disable_otg_def Let_def)

lemma bq27220_control_sent:
  "bq27220_control bus c d = (True, d1) \<Longrightarrow>
     log d1 = log d @ [(bq27220_address, [0, ucast (c AND 0xFF), ucast (drop_bit 8 c AND 0xFF)])]"
  by (auto simp: bq27220_control_def dest: sends_all)

end

text \<open>The transfer loops of the firmware are such a link.\<close>

lemmas polled_charger_length = polled.bq25896_init_length polled.bq25896_is_charging_length
  polled.bq25896_writes_length

section \<open>The LED driver\<close>

definition lp5562_address :: u8 where "lp5562_address = 0x60"

datatype lp5562_channel = LP5562ChannelRed | LP5562ChannelGreen | LP5562ChannelBlue | LP5562ChannelWhite

definition lp5562_write_reg :: "'d i2c_bus \<Rightarrow> u8 \<Rightarrow> u8 \<Rightarrow> 'd \<Rightarrow> bool \<times> 'd" where
  "lp5562_write_reg bus address v d = bus_tx bus lp5562_address [address, v] d"

definition lp5562_reset :: "'d i2c_bus \<Rightarrow> 'd \<Rightarrow> 'd" where
  "lp5562_reset bus d = snd (lp5562_write_reg bus 0x0D 0xFF d)"

text \<open>The internal clock, power save and the high PWM frequency; all LEDs driven over I2C.\<close>

definition lp5562_configure :: "'d i2c_bus \<Rightarrow> 'd \<Rightarrow> 'd" where
  "lp5562_configure bus d =
     (let config = set_bit 0 (set_bit 5 (set_bit 6 0));
          (_, d1) = lp5562_write_reg bus 0x08 config d
      in snd (lp5562_write_reg bus 0x70 0 d1))"

definition lp5562_enable :: "'d i2c_bus \<Rightarrow> 'd \<Rightarrow> 'd" where
  "lp5562_enable bus d = snd (lp5562_write_reg bus 0x00 (set_bit 6 (set_bit 7 0)) d)"

fun channel_current_reg :: "lp5562_channel \<Rightarrow> u8" where
  "channel_current_reg LP5562ChannelRed = 0x07"
| "channel_current_reg LP5562ChannelGreen = 0x06"
| "channel_current_reg LP5562ChannelBlue = 0x05"
| "channel_current_reg LP5562ChannelWhite = 0x0F"

definition lp5562_set_channel_current :: "'d i2c_bus \<Rightarrow> lp5562_channel \<Rightarrow> u8 \<Rightarrow> 'd \<Rightarrow> 'd" where
  "lp5562_set_channel_current bus ch v d = snd (lp5562_write_reg bus (channel_current_reg ch) v d)"

fun channel_value_reg :: "lp5562_channel \<Rightarrow> u8" where
  "channel_value_reg LP5562ChannelRed = 0x04"
| "channel_value_reg LP5562ChannelGreen = 0x03"
| "channel_value_reg LP5562ChannelBlue = 0x02"
| "channel_value_reg LP5562ChannelWhite = 0x0E"

definition lp5562_set_channel_value :: "'d i2c_bus \<Rightarrow> lp5562_channel \<Rightarrow> u8 \<Rightarrow> 'd \<Rightarrow> 'd" where
  "lp5562_set_channel_value bus ch v d = snd (lp5562_write_reg bus (channel_value_reg ch) v d)"

definition api_hal_light_init :: "'d i2c_bus \<Rightarrow> 'd \<Rightarrow> 'd" where
  "api_hal_light_init bus d0 =
     (let d1 = lp5562_reset bus d0;
          d2 = lp5562_set_channel_current bus LP5562ChannelRed 50 d1;
          d3 = lp5562_set_channel_current bus LP5562ChannelGreen 50 d2;
          d4 = lp5562_set_channel_current bus LP5562ChannelBlue 50 d3;
          d5 = lp5562_set_channel_current bus LP5562ChannelWhite 150 d4;
          d6 = lp5562_set_channel_value bus LP5562ChannelRed 0 d5;
          d7 = lp5562_set_channel_value bus LP5562ChannelGreen 0 d6;
          d8 = lp5562_set_channel_value bus LP5562ChannelBlue 0 d7;
          d9 = lp5562_set_channel_value bus LP5562ChannelWhite 0 d8;
          d10 = lp5562_enable bus d9
      in lp5562_configure bus d10)"

fun api_hal_light_set :: "'d i2c_bus \<Rightarrow> light \<Rightarrow> u8 \<Rightarrow> 'd \<Rightarrow> 'd" where
  "api_hal_light_set bus LightRed v d = lp5562_set_channel_value bus LP5562ChannelRed v d"
| "api_hal_light_set bus LightGreen v d = lp5562_set_channel_value bus LP5562ChannelGreen v d"
| "api_hal_light_set bus LightBlue v d = lp5562_set_channel_value bus LP5562ChannelBlue v d"
| "api_hal_light_set bus LightBacklight v d = lp5562_set_channel_value bus LP5562ChannelWhite v d"

section \<open>The gauge as its manual describes it\<close>

text \<open>
  What the manual of the gauge says of the transfers that \<^verbatim>\<open>bq27220_init\<close> makes, as a
  predicate over the bus. Of the gauge we see: \<open>mode\<close>, \<open>None\<close> in normal operation, \<open>Some n\<close> when
  the update of the configuration was asked for and will be open after \<open>n\<close> more readings of the
  operation status, so open at \<open>Some 0\<close>; \<open>pend\<close>, the address and bytes given with the last
  subclass selection; \<open>mem\<close>, the data memory. A block of two bytes is committed by its checksum
  and its length (the bytes, the address, the checksum and the length itself) while the update
  is open. \<open>entry\<close> is how long the gauge takes to open it.
\<close>

definition gauge_word :: "(u16 \<Rightarrow> u8) \<Rightarrow> u16 \<Rightarrow> u16" where
  "gauge_word m a = u16_of_bytes (m (a + 1)) (m a)"

definition put_word :: "u16 \<Rightarrow> u16 \<Rightarrow> (u16 \<Rightarrow> u8) \<Rightarrow> u16 \<Rightarrow> u8" where
  "put_word a v m = m(a := ucast (drop_bit 8 v), a + 1 := ucast v)"

definition block_sum :: "u16 \<Rightarrow> u8 \<Rightarrow> u8 \<Rightarrow> u8" where
  "block_sum a b0 b1 = 0xFF - (ucast a + ucast (drop_bit 8 a) + b0 + b1)"

definition gauge_manual ::
    "'d i2c_bus \<Rightarrow> nat \<Rightarrow> ('d \<Rightarrow> nat option) \<Rightarrow> ('d \<Rightarrow> (u16 \<times> u8 \<times> u8) option) \<Rightarrow> ('d \<Rightarrow> u16 \<Rightarrow> u8) \<Rightarrow> bool"
  where
  "gauge_manual bus entry mode pend mem \<longleftrightarrow>
     (\<forall>d ok d1. bus_tx bus bq27220_address [0x00, 0x90, 0x00] d = (ok, d1) \<longrightarrow>
        ok \<and> mode d1 = Some entry \<and> mem d1 = mem d) \<and>
     (\<forall>d ok d1. bus_tx bus bq27220_address [0x00, 0x92, 0x00] d = (ok, d1) \<longrightarrow>
        ok \<and> mode d1 = None \<and> mem d1 = mem d) \<and>
     (\<forall>d a b0 b1 ok d1.
        bus_tx bus bq27220_address [0x3E, ucast a, ucast (drop_bit 8 a), b0, b1] d = (ok, d1) \<longrightarrow>
        ok \<and> mode d1 = mode d \<and> mem d1 = mem d \<and> pend d1 = Some (a, b0, b1)) \<and>
     (\<forall>d a b0 b1 ok d1. mode d = Some 0 \<longrightarrow> pend d = Some (a, b0, b1) \<longrightarrow>
        bus_tx bus bq27220_address [0x60, block_sum a b0 b1, 6] d = (ok, d1) \<longrightarrow>
        ok \<and> mode d1 = Some 0 \<and> mem d1 = (mem d)(a := b0, a + 1 := b1)) \<and>
     (\<forall>d x y ok buf d1. bus_trx bus bq27220_address [0x3A] [x, y] d = ((ok, buf), d1) \<longrightarrow>
        ok \<and> bit (buf ! 1) 2 = (mode d = Some 0) \<and>
        mode d1 = map_option (\<lambda>n. n - 1) (mode d) \<and> mem d1 = mem d) \<and>
     (\<forall>d x y ok buf d1. bus_trx bus bq27220_address [0x3C] [x, y] d = ((ok, buf), d1) \<longrightarrow>
        ok \<and> buf = [mem d 0x92A0, mem d 0x929F] \<and> mode d1 = mode d \<and> mem d1 = mem d) \<and>
     (\<forall>d t. mode (bus_wait bus t d) = mode d \<and> pend (bus_wait bus t d) = pend d \<and>
        mem (bus_wait bus t d) = mem d)"

text \<open>The profile in the memory of the gauge: every parameter at its documented address.\<close>

definition gauge_layout :: "param_cedv \<Rightarrow> (u16 \<times> u16) list" where
  "gauge_layout cedv =
     [(0x929B, gauge_conf_raw (cedv_conf cedv)),
      (0x929D, full_charge_cap cedv), (0x929F, design_cap cedv), (0x92A3, cedv_EMF cedv),
      (0x92A9, cedv_C0 cedv), (0x92AB, cedv_R0 cedv), (0x92AD, cedv_T0 cedv), (0x92AF, cedv_R1 cedv),
      (0x92B1, u16_of_bytes (cedv_C1 cedv) (cedv_TC cedv)),
      (0x92BD, DOD0 cedv), (0x92BF, DOD10 cedv), (0x92C1, DOD20 cedv), (0x92C3, DOD30 cedv),
      (0x92C5, DOD40 cedv), (0x92C7, DOD50 cedv), (0x92C9, DOD60 cedv), (0x92CB, DOD70 cedv),
      (0x92CD, DOD80 cedv), (0x92CF, DOD90 cedv), (0x92D1, DOD100 cedv),
      (0x92B4, cedv_EDV0 cedv), (0x92B7, cedv_EDV1 cedv), (0x92BA, cedv_EDV2 cedv)]"

definition gauge_image :: "param_cedv \<Rightarrow> (u16 \<Rightarrow> u8) \<Rightarrow> u16 \<Rightarrow> u8" where
  "gauge_image cedv m = fold (\<lambda>(a, v). put_word a v) (gauge_layout cedv) m"

section \<open>Lemmas\<close>

lemma u16_low_byte: "(ucast (w AND 0xFF :: u16) :: u8) = ucast w"
proof -
  have "(0xFF :: u16) = mask 8" by (simp add: mask_eq_exp_minus_1)
  then have "(ucast (w AND 0xFF :: u16) :: u8) = ucast (w AND mask 8)" by (simp only:)
  also have "\<dots> = ucast w" by (rule bit_word_eqI) (auto simp: bit_simps)
  finally show ?thesis .
qed

lemma checksum_loop_eq: "checksum_loop bs r = r + sum_list bs"
  by (induction bs arbitrary: r) (simp_all add: add.assoc)

lemma cedv_writes_layout: "cedv_writes cedv = gauge_layout (cedv\<lparr>DOD50 := DOD40 cedv\<rparr>)"
  by (simp add: cedv_writes_def gauge_layout_def u16_of_bytes_def or.commute)

lemma gauge_selects:
  "gauge_manual bus entry mode pend mem \<Longrightarrow>
     bus_tx bus bq27220_address [0x3E, ucast a, ucast (drop_bit 8 a), b0, b1] d = (ok, d1) \<Longrightarrow>
     ok \<and> mode d1 = mode d \<and> mem d1 = mem d \<and> pend d1 = Some (a, b0, b1)"
  unfolding gauge_manual_def by (elim conjE) meson

lemma gauge_commits:
  "gauge_manual bus entry mode pend mem \<Longrightarrow> mode d = Some 0 \<Longrightarrow> pend d = Some (a, b0, b1) \<Longrightarrow>
     bus_tx bus bq27220_address [0x60, block_sum a b0 b1, 6] d = (ok, d1) \<Longrightarrow>
     ok \<and> mode d1 = Some 0 \<and> mem d1 = (mem d)(a := b0, a + 1 := b1)"
  unfolding gauge_manual_def by (elim conjE) meson

lemma gauge_enters:
  "gauge_manual bus entry mode pend mem \<Longrightarrow>
     bus_tx bus bq27220_address [0x00, 0x90, 0x00] d = (ok, d1) \<Longrightarrow>
     ok \<and> mode d1 = Some entry \<and> mem d1 = mem d"
  unfolding gauge_manual_def by (elim conjE) meson

lemma gauge_leaves:
  "gauge_manual bus entry mode pend mem \<Longrightarrow>
     bus_tx bus bq27220_address [0x00, 0x92, 0x00] d = (ok, d1) \<Longrightarrow>
     ok \<and> mode d1 = None \<and> mem d1 = mem d"
  unfolding gauge_manual_def by (elim conjE) meson

lemma gauge_tells:
  "gauge_manual bus entry mode pend mem \<Longrightarrow>
     bus_trx bus bq27220_address [0x3A] [x, y] d = ((ok, buf), d1) \<Longrightarrow>
     ok \<and> bit (buf ! 1) 2 = (mode d = Some 0) \<and>
     mode d1 = map_option (\<lambda>n. n - 1) (mode d) \<and> mem d1 = mem d"
  unfolding gauge_manual_def by (elim conjE) meson

lemma gauge_capacity:
  "gauge_manual bus entry mode pend mem \<Longrightarrow>
     bus_trx bus bq27220_address [0x3C] [x, y] d = ((ok, buf), d1) \<Longrightarrow>
     ok \<and> buf = [mem d 0x92A0, mem d 0x929F] \<and> mode d1 = mode d \<and> mem d1 = mem d"
  unfolding gauge_manual_def by (elim conjE) meson

lemma gauge_waits:
  "gauge_manual bus entry mode pend mem \<Longrightarrow> mode (bus_wait bus t d) = mode d \<and>
     pend (bus_wait bus t d) = pend d \<and> mem (bus_wait bus t d) = mem d"
  unfolding gauge_manual_def by (elim conjE) meson

lemma bq27220_set_parameter_commits:
  assumes g: "gauge_manual bus entry mode pend mem" and "mode d = Some 0"
  shows "\<exists>d1. bq27220_set_parameter_u16 bus a v d = (True, d1) \<and> mode d1 = Some 0 \<and>
     mem d1 = put_word a v (mem d)"
proof -
  let ?b0 = "ucast (drop_bit 8 v) :: u8" and ?b1 = "ucast v :: u8"
  obtain ok1 d1 where 1: "bus_tx bus bq27220_address [0x3E, ucast a, ucast (drop_bit 8 a), ?b0, ?b1] d = (ok1, d1)"
    by (cases "bus_tx bus bq27220_address [0x3E, ucast a, ucast (drop_bit 8 a), ?b0, ?b1] d")
  let ?d2 = "bus_wait bus 10000 d1"
  from gauge_selects [OF g 1] gauge_waits [OF g, of 10000 d1] assms(2)
  have d2: "mode ?d2 = Some 0" "pend ?d2 = Some (a, ?b0, ?b1)" "mem ?d2 = mem d" by auto
  obtain ok3 d3 where 3: "bus_tx bus bq27220_address [0x60, block_sum a ?b0 ?b1, 6] ?d2 = (ok3, d3)"
    by (cases "bus_tx bus bq27220_address [0x60, block_sum a ?b0 ?b1, 6] ?d2")
  have sum: "bq27220_get_checksum [ucast a, ucast (drop_bit 8 a), ?b0, ?b1] = block_sum a ?b0 ?b1"
    by (simp add: bq27220_get_checksum_def checksum_loop_eq block_sum_def add.assoc)
  have "bq27220_set_parameter_u16 bus a v d = (ok3, bus_wait bus 10000 d3)"
    using 1 3 by (simp add: bq27220_set_parameter_u16_def u16_low_byte sum)
  with gauge_commits [OF g d2(1,2) 3] gauge_waits [OF g, of 10000 d3] d2(3) show ?thesis
    by (simp add: put_word_def)
qed

lemma set_parameters_fold:
  assumes "gauge_manual bus entry mode pend mem"
  shows "mode d = Some 0 \<Longrightarrow>
     mode (set_parameters bus ps d) = Some 0 \<and>
     mem (set_parameters bus ps d) = fold (\<lambda>(a, v). put_word a v) ps (mem d)"
proof (induction ps arbitrary: d)
  case (Cons p ps)
  obtain a v where p: "p = (a, v)" by (cases p)
  from bq27220_set_parameter_commits [OF assms Cons.prems, of a v] obtain d1 where
    "bq27220_set_parameter_u16 bus a v d = (True, d1)" "mode d1 = Some 0"
    "mem d1 = put_word a v (mem d)" by blast
  with Cons.IH [of d1] p show ?case by simp
qed simp

text \<open>The loop waits until the update is open, if that takes at most as many readings.\<close>

lemma gauge_status:
  assumes "gauge_manual bus entry mode pend mem" and "mode d = Some k"
  shows "\<exists>r st1 d1. bq27220_get_operation_status bus st d = ((r, st1), d1) \<and>
     mode d1 = Some (k - 1) \<and> mem d1 = mem d \<and> (bit st1 10 \<longrightarrow> k = 0 \<or> st1 = st)"
proof -
  obtain ok buf d1 where t: "bus_trx bus bq27220_address [0x3A] [0x3A, 0] d = ((ok, buf), d1)"
    by (metis prod.collapse)
  from gauge_tells [OF assms(1) t] assms(2) have ok: "ok" and b: "bit (buf ! 1) 2 = (k = 0)"
    and m: "mode d1 = Some (k - 1)" "mem d1 = mem d" by auto
  have bit10: "bit (u16_of_bytes (buf ! 0) (buf ! 1)) 10 = bit (buf ! 1) 2"
    by (auto simp: u16_of_bytes_def bit_simps dest: bit_imp_le_length)
  let ?w = "u16_of_bytes (buf ! 0) (buf ! 1)"
  have word: "bq27220_read_word bus CommandOperationStatus d = (?w, d1)"
    using t ok by (simp add: bq27220_read_word_def)
  show ?thesis
  proof (cases "?w = 0")
    case True
    with bit10 b have "k \<noteq> 0" by auto
    with True word m show ?thesis by (simp add: bq27220_get_operation_status_def)
  next
    case False
    with word m bit10 b show ?thesis by (simp add: bq27220_get_operation_status_def)
  qed
qed

lemma cfg_update_loop_opens:
  assumes "gauge_manual bus entry mode pend mem"
  shows "mode d = Some k \<Longrightarrow> k \<le> n \<Longrightarrow> (bit st 10 \<longrightarrow> k = 0) \<Longrightarrow>
     mode (cfg_update_loop bus n st d) = Some 0 \<and> mem (cfg_update_loop bus n st d) = mem d"
proof (induction n arbitrary: k st d)
  case (Suc n)
  show ?case
  proof (cases "bit st 10")
    case False
    from gauge_status [OF assms Suc.prems(1), of st] obtain r st1 d1 where
      s: "bq27220_get_operation_status bus st d = ((r, st1), d1)" "mode d1 = Some (k - 1)"
        "mem d1 = mem d" "bit st1 10 \<longrightarrow> k = 0 \<or> st1 = st" by blast
    have "k - 1 \<le> n" "bit st1 10 \<longrightarrow> k - 1 = 0" using s(4) False Suc.prems(2) by auto
    from Suc.IH [OF s(2) this] s False show ?thesis by simp
  qed (use Suc.prems in simp)
qed simp

lemma design_capacity_word:
  assumes "gauge_manual bus entry mode pend mem"
  shows "\<exists>d1. bq27220_read_word bus CommandDesignCapacity d = (gauge_word (mem d) 0x929F, d1) \<and>
     mode d1 = mode d \<and> mem d1 = mem d"
proof -
  obtain ok buf d1 where t: "bus_trx bus bq27220_address [0x3C] [0x3C, 0] d = ((ok, buf), d1)"
    by (metis prod.collapse)
  from gauge_capacity [OF assms t] t show ?thesis
    by (simp add: bq27220_read_word_def gauge_word_def)
qed

text \<open>Words at different places of the layout do not touch each other.\<close>

lemma gauge_word_put: "gauge_word (put_word a v m) a = v"
  by (simp add: gauge_word_def put_word_def)

lemma gauge_word_put_other:
  "a \<noteq> b \<Longrightarrow> a \<noteq> b + 1 \<Longrightarrow> b \<noteq> a + 1 \<Longrightarrow> gauge_word (put_word b v m) a = gauge_word m a"
  by (auto simp: gauge_word_def put_word_def)

lemma gauge_image_design_cap: "gauge_word (gauge_image cedv m) 0x929F = design_cap cedv"
  by (simp add: gauge_image_def gauge_layout_def gauge_word_put gauge_word_put_other)

lemma gauge_image_DOD50: "gauge_word (gauge_image cedv m) 0x92C7 = DOD50 cedv"
  by (simp add: gauge_image_def gauge_layout_def gauge_word_put gauge_word_put_other)

section \<open>Properties\<close>

text \<open>
  C12. On a gauge that works as its manual says and opens the update within a hundred readings,
  \<^verbatim>\<open>bq27220_init\<close> with a profile of another design capacity reports success, and leaves the
  data memory of the gauge as it was except for the profile, every parameter at its documented
  address - with one exception: the table point at 50 percent gets the voltage of the point at
  40 percent. The checksum, the length and the byte order of every block are thereby shown right.
\<close>

theorem bq27220_init_writes_profile:
  assumes "gauge_manual bus entry mode pend mem" and "entry \<le> 100"
    and "gauge_word (mem d) 0x929F \<noteq> design_cap cedv"
  shows "\<exists>d'. bq27220_init bus cedv d = (True, d') \<and>
     mem d' = gauge_image (cedv\<lparr>DOD50 := DOD40 cedv\<rparr>) (mem d)"
proof -
  note g = assms(1)
  from design_capacity_word [OF g, of d] obtain d1 where
    1: "bq27220_read_word bus CommandDesignCapacity d = (gauge_word (mem d) 0x929F, d1)"
      "mem d1 = mem d" by blast
  obtain ok d2 where 2: "bus_tx bus bq27220_address [0x00, 0x90, 0x00] d1 = (ok, d2)"
    by (cases "bus_tx bus bq27220_address [0x00, 0x90, 0x00] d1")
  from gauge_enters [OF g 2] have e: "ok" "mode d2 = Some entry" "mem d2 = mem d1" by auto
  let ?d4 = "set_parameters bus (cedv_writes cedv) (cfg_update_loop bus 100 0 d2)"
  from cfg_update_loop_opens [OF g e(2) assms(2), of 0]
  have l: "mode (cfg_update_loop bus 100 0 d2) = Some 0" "mem (cfg_update_loop bus 100 0 d2) = mem d"
    using e(3) 1(2) by simp_all
  have m4: "mem ?d4 = gauge_image (cedv\<lparr>DOD50 := DOD40 cedv\<rparr>) (mem d)"
    using set_parameters_fold [OF g l(1)] l(2) by (simp add: gauge_image_def cedv_writes_layout)
  obtain ok5 d5 where 5: "bus_tx bus bq27220_address [0x00, 0x92, 0x00] ?d4 = (ok5, d5)"
    by (cases "bus_tx bus bq27220_address [0x00, 0x92, 0x00] ?d4")
  let ?d6 = "bus_wait bus 10000 d5"
  from gauge_leaves [OF g 5] gauge_waits [OF g, of 10000 d5] have m6: "mem ?d6 = mem ?d4" by simp
  from design_capacity_word [OF g, of ?d6] obtain d7 where
    7: "bq27220_read_word bus CommandDesignCapacity ?d6 = (gauge_word (mem ?d6) 0x929F, d7)"
      "mem d7 = mem ?d6" by blast
  have "gauge_word (mem ?d6) 0x929F = design_cap cedv"
    by (simp add: m6 m4 gauge_image_design_cap)
  with 1 2 5 7 e m4 m6 assms(3) show ?thesis
    by (simp add: bq27220_init_def bq27220_control_def control_enter_cfg_update_def
        control_exit_cfg_update_def)
qed

text \<open>A gauge by the manual, for the witness.\<close>

record demo_gauge =
  dg_mode :: "nat option"
  dg_pend :: "(u16 \<times> u8 \<times> u8) option"
  dg_mem :: "u16 \<Rightarrow> u8"

definition demo_gauge_tx :: "u8 \<Rightarrow> u8 list \<Rightarrow> demo_gauge \<Rightarrow> bool \<times> demo_gauge" where
  "demo_gauge_tx address msg g =
     (if msg ! 0 = 0 then
        (True, g\<lparr>dg_mode := (if msg ! 1 = 0x90 then Some 3 else None)\<rparr>)
      else if msg ! 0 = 0x3E then
        (True, g\<lparr>dg_pend := Some (u16_of_bytes (msg ! 1) (msg ! 2), msg ! 3, msg ! 4)\<rparr>)
      else
        (True, (case dg_pend g of
                  Some (a, b0, b1) \<Rightarrow>
                    (if dg_mode g = Some 0 \<and> msg ! 1 = block_sum a b0 b1
                     then g\<lparr>dg_mem := (dg_mem g)(a := b0, a + 1 := b1)\<rparr> else g)
                | None \<Rightarrow> g)))"

definition demo_gauge_trx :: "u8 \<Rightarrow> u8 list \<Rightarrow> u8 list \<Rightarrow> demo_gauge \<Rightarrow> (bool \<times> u8 list) \<times> demo_gauge" where
  "demo_gauge_trx address msg buf g =
     (if msg ! 0 = 0x3A then
        ((True, [0, if dg_mode g = Some 0 then 4 else 0]),
         g\<lparr>dg_mode := map_option (\<lambda>n. n - 1) (dg_mode g)\<rparr>)
      else ((True, [dg_mem g 0x92A0, dg_mem g 0x929F]), g))"

definition demo_gauge_bus :: "demo_gauge i2c_bus" where
  "demo_gauge_bus = \<lparr>bus_tx = demo_gauge_tx, bus_trx = demo_gauge_trx, bus_wait = \<lambda>t g. g\<rparr>"

lemma demo_gauge_manual: "gauge_manual demo_gauge_bus 3 dg_mode dg_pend dg_mem"
  unfolding gauge_manual_def
  by (auto simp: demo_gauge_bus_def demo_gauge_tx_def demo_gauge_trx_def bit_simps)

theorem bq27220_init_writes_profile_witness:
  "\<exists>d'. bq27220_init demo_gauge_bus device_cedv \<lparr>dg_mode = None, dg_pend = None, dg_mem = \<lambda>a. 0\<rparr> =
       (True, d') \<and>
     dg_mem d' = gauge_image (device_cedv\<lparr>DOD50 := 3642\<rparr>) (\<lambda>a. 0)"
  using bq27220_init_writes_profile [OF demo_gauge_manual, of
      "\<lparr>dg_mode = None, dg_pend = None, dg_mem = \<lambda>a. 0\<rparr>" device_cedv]
  by (simp add: gauge_word_def u16_of_bytes_def device_cedv_def)

text \<open>
  So with the profile of the device the gauge holds the point of 40 percent twice.
\<close>

lemma bq27220_init_DOD50:
  "gauge_word (gauge_image (device_cedv\<lparr>DOD50 := DOD40 device_cedv\<rparr>) m) 0x92C7 = 3642 \<and> DOD50 device_cedv = 3585"
  by (simp add: gauge_image_DOD50) (simp add: device_cedv_def)

section \<open>The charger as a file of registers\<close>

lemma bit_u8_times_2: "bit (x * 2 :: u8) n \<longleftrightarrow> 0 < n \<and> n < 8 \<and> bit x (n - 1)"
proof -
  have "x * 2 = push_bit 1 x" by (simp add: push_bit_eq_mult)
  then show ?thesis by (simp only: bit_simps) auto
qed

lemma bit_reverse_bit: "n < 8 \<Longrightarrow> bit (bit_reverse b) n = bit b (7 - n)"
proof -
  assume "n < 8"
  then have "n = 0 \<or> n = 1 \<or> n = 2 \<or> n = 3 \<or> n = 4 \<or> n = 5 \<or> n = 6 \<or> n = 7" by auto
  then show ?thesis
    by (elim disjE) (simp_all add: bit_reverse_def Let_def bit_simps bit_u8_times_2)
qed

lemma bit_reverse_involution: "bit_reverse (bit_reverse b) = b"
  by (rule bit_word_eqI) (simp add: bit_reverse_bit)

text \<open>
  What the manual of the charger says of its registers: a read gives them from the address on, a
  write sets one, and setting the reset bit of the last register gives all their reset values.
\<close>

definition charger_manual :: "'d i2c_bus \<Rightarrow> u8 list \<Rightarrow> ('d \<Rightarrow> u8 list) \<Rightarrow> bool" where
  "charger_manual bus por regs \<longleftrightarrow>
     length por = 21 \<and> (\<forall>d. length (regs d) = 21) \<and>
     (\<forall>d r v ok d1. r < 21 \<longrightarrow> bus_tx bus bq25896_address [of_nat r, v] d = (ok, d1) \<longrightarrow>
        ok \<and> regs d1 = (if r = 0x14 \<and> bit v 7 then por else (regs d)[r := v])) \<and>
     (\<forall>d r buf ok buf1 d1. r + length buf \<le> 21 \<longrightarrow>
        bus_trx bus bq25896_address [of_nat r] buf d = ((ok, buf1), d1) \<longrightarrow>
        ok \<and> buf1 = take (length buf) (drop r (regs d)) \<and> regs d1 = regs d)"

lemma charger_lengths:
  "charger_manual bus por regs \<Longrightarrow> length por = 21 \<and> length (regs d) = 21"
  unfolding charger_manual_def by (elim conjE) meson

lemma charger_writes:
  "charger_manual bus por regs \<Longrightarrow> r < 21 \<Longrightarrow>
     bus_tx bus bq25896_address [of_nat r, v] d = (ok, d1) \<Longrightarrow>
     ok \<and> regs d1 = (if r = 0x14 \<and> bit v 7 then por else (regs d)[r := v])"
  unfolding charger_manual_def by (elim conjE) meson

lemma charger_reads:
  "charger_manual bus por regs \<Longrightarrow> r + length buf \<le> 21 \<Longrightarrow>
     bus_trx bus bq25896_address [of_nat r] buf d = ((ok, buf1), d1) \<Longrightarrow>
     ok \<and> buf1 = take (length buf) (drop r (regs d)) \<and> regs d1 = regs d"
  unfolding charger_manual_def by (elim conjE) meson

lemma charger_read_all:
  assumes "charger_manual bus por regs" and "length cache = 21"
  shows "\<exists>d1. bq25896_read_all bus cache d = (regs d, d1) \<and> regs d1 = regs d"
proof -
  obtain ok buf1 d1 where t: "bus_trx bus bq25896_address [0] cache d = ((ok, buf1), d1)"
    by (metis prod.collapse)
  have "length (regs d) = 21" using charger_lengths [OF assms(1)] by blast
  then have "take 21 (regs d) = regs d" by simp
  with charger_reads [OF assms(1), of 0 cache] t assms(2)
  show ?thesis by (simp add: bq25896_read_all_def bq25896_read_def)
qed

lemma charger_write_reg:
  assumes "charger_manual bus por regs" and "r < 21"
  shows "\<exists>d1. bq25896_write_reg bus r cache d = (True, d1) \<and>
     regs d1 = (if r = 0x14 \<and> bit (cache ! r) 7 then por else (regs d)[r := cache ! r])"
proof -
  obtain ok d1 where t: "bus_tx bus bq25896_address [of_nat r, cache ! r] d = (ok, d1)"
    by (cases "bus_tx bus bq25896_address [of_nat r, cache ! r] d")
  from charger_writes [OF assms t] t show ?thesis by (simp add: bq25896_write_reg_def)
qed

text \<open>The configuration: conversion on and continuous, no watchdog.\<close>

definition charger_configured :: "u8 list \<Rightarrow> u8 list" where
  "charger_configured por =
     por[0x02 := set_bit 6 (set_bit 7 (por ! 0x02)), 0x07 := unset_bit 4 (unset_bit 5 (por ! 0x07))]"

text \<open>
  On a charger that works as its manual says, \<^verbatim>\<open>bq25896_init\<close> leaves every register at its reset
  value but the three fields it configures, and the driver's copy equal to the registers.
\<close>

lemma bq25896_init_configures:
  assumes g: "charger_manual bus por regs" and l: "length cache = 21"
  shows "\<exists>d'. bq25896_init bus cache d = (charger_configured por, d') \<and> regs d' = charger_configured por"
proof -
  let ?c1 = "cache[0x14 := set_bit 7 (cache ! 0x14)]"
  from charger_write_reg [OF g, of "0x14" ?c1 d] l obtain d1 where
    1: "bq25896_write_reg bus 0x14 ?c1 d = (True, d1)" "regs d1 = por"
    by (auto simp: bit_simps)
  from charger_read_all [OF g, of ?c1 d1] l 1(2) obtain d2 where
    2: "bq25896_read_all bus ?c1 d1 = (por, d2)" "regs d2 = por" by auto
  let ?c3 = "por[0x02 := set_bit 6 (set_bit 7 (por ! 0x02))]"
  have lp: "length por = 21" using charger_lengths [OF g] by blast
  from charger_write_reg [OF g, of "0x02" ?c3 d2] 2(2) lp obtain d3 where
    3: "bq25896_write_reg bus 0x02 ?c3 d2 = (True, d3)" "regs d3 = ?c3" by auto
  from charger_write_reg [OF g, of "0x07" "charger_configured por" d3] 3(2) lp obtain d4 where
    4: "bq25896_write_reg bus 0x07 (charger_configured por) d3 = (True, d4)"
      "regs d4 = charger_configured por" by (auto simp: charger_configured_def)
  from charger_read_all [OF g, of "charger_configured por" d4] 4(2) lp obtain d5 where
    "bq25896_read_all bus (charger_configured por) d4 = (charger_configured por, d5)"
    "regs d5 = charger_configured por" by (auto simp: charger_configured_def)
  with 1 2 3 4 lp show ?thesis
    by (simp add: bq25896_init_def charger_configured_def Let_def)
qed

text \<open>
  With the copy in step with the registers, switching the boost converter on and off again leaves
  every register as it was, and powering off changes the one bit.
\<close>

lemma bq25896_otg_toggles:
  assumes g: "charger_manual bus por regs" and "\<not> bit (regs d ! 3) 5"
  shows "\<exists>c1 d1 d2. bq25896_enable_otg bus (regs d) d = (c1, d1) \<and> c1 = regs d1 \<and>
     regs d1 = (regs d)[3 := set_bit 5 (regs d ! 3)] \<and>
     bq25896_disable_otg bus c1 d1 = (regs d, d2) \<and> regs d2 = regs d"
proof -
  have l: "length (regs d) = 21" using charger_lengths [OF g] by blast
  let ?c1 = "(regs d)[3 := set_bit 5 (regs d ! 3)]"
  from charger_write_reg [OF g, of 3 ?c1 d] l obtain d1 where
    1: "bq25896_write_reg bus 3 ?c1 d = (True, d1)" "regs d1 = ?c1" by auto
  have u: "unset_bit 5 (set_bit 5 (regs d ! 3)) = regs d ! 3"
    using assms(2) by (intro bit_word_eqI) (auto simp: bit_simps)
  from charger_write_reg [OF g, of 3 "regs d" d1] l 1(2) obtain d2 where
    "bq25896_write_reg bus 3 (regs d) d1 = (True, d2)" "regs d2 = regs d" by auto
  with 1 l u show ?thesis
    by (simp add: bq25896_enable_otg_def bq25896_disable_otg_def Let_def)
qed

lemma bq25896_poweroff_disconnects:
  assumes g: "charger_manual bus por regs"
  shows "\<exists>d1. bq25896_poweroff bus (regs d) d = (regs d1, d1) \<and>
     regs d1 = (regs d)[9 := set_bit 5 (regs d ! 9)]"
proof -
  have l: "length (regs d) = 21" using charger_lengths [OF g] by blast
  from charger_write_reg [OF g, of 9 "(regs d)[9 := set_bit 5 (regs d ! 9)]" d] l obtain d1 where
    "bq25896_write_reg bus 9 ((regs d)[9 := set_bit 5 (regs d ! 9)]) d = (True, d1)"
    "regs d1 = (regs d)[9 := set_bit 5 (regs d ! 9)]" by auto
  then show ?thesis by (simp add: bq25896_poweroff_def Let_def)
qed

text \<open>
  A failed transfer is not reported: \<^verbatim>\<open>bq25896_read_reg\<close> says true and leaves the copy as it was, so
  the readings repeat the last known value.
\<close>

lemma bq25896_read_reg_failed:
  assumes "bus_trx bus bq25896_address [of_nat r] [cache ! r] d = ((False, [cache ! r]), d1)"
  shows "bq25896_read_reg bus r cache d = ((True, cache), d1)"
  using assms by (simp add: bq25896_read_reg_def bq25896_read_def)

text \<open>A word of zero counts as a failed reading, so zero is never reported as a status.\<close>

lemma bq27220_status_zero:
  "bq27220_read_word bus CommandBatteryStatus d = (0, d1) \<Longrightarrow>
     bq27220_get_battery_status bus st d = ((0, st), d1)"
  by (simp add: bq27220_get_battery_status_def)

text \<open>Each LED has its own registers.\<close>

lemma channel_regs_distinct:
  "channel_value_reg a = channel_value_reg b \<longleftrightarrow> a = b"
  "channel_current_reg a = channel_current_reg b \<longleftrightarrow> a = b"
  "channel_value_reg a \<noteq> channel_current_reg b"
  by (cases a; cases b; simp)+

end
