(* ===== verification/PowerApp.thy ===== *)
theory PowerApp
  imports PowerChips Dialogs Float32
begin

text \<open>
  The power application, \<^verbatim>\<open>applications/power/power.c\<close>, \<^verbatim>\<open>power_cli.c\<close>, on top of the readings of
  \<^verbatim>\<open>api-hal/api-hal-power.c\<close> and the chips below them.

  The hardware is a pair: the charger driver's copy of the registers and whatever is behind the
  bus. What the application does to others (notifications, view switches, redraws, reboots) is a
  trace of calls. A float is the rational it denotes. The kernel's tick count is an argument: each
  round of the task reads it at most once.
\<close>

unbundle bit_operations_syntax

section \<open>Readings\<close>

type_synonym 'd power_hw = "bq25896_regs \<times> 'd"

text \<open>Rounding of a value of either sign.\<close>

definition f32_signed :: "rat \<Rightarrow> rat" where
  "f32_signed x = (if x < 0 then - f32 (- x) else f32 x)"

datatype power_ic = ApiHalPowerICCharger | ApiHalPowerICFuelGauge

text \<open>A reading of the gauge leaves the copy of the charger's registers alone.\<close>

definition gauge_reading :: "('d \<Rightarrow> 'a \<times> 'd) \<Rightarrow> 'd power_hw \<Rightarrow> 'a \<times> 'd power_hw" where
  "gauge_reading f hw = (case f (snd hw) of (v, d1) \<Rightarrow> (v, fst hw, d1))"

definition charger_reading :: "(bq25896_regs \<Rightarrow> 'd \<Rightarrow> ('a \<times> bq25896_regs) \<times> 'd) \<Rightarrow> 'd power_hw \<Rightarrow> 'a \<times> 'd power_hw"
  where
  "charger_reading f hw = (case f (fst hw) (snd hw) of ((v, regs1), d1) \<Rightarrow> (v, regs1, d1))"

definition api_hal_power_get_pct :: "'d i2c_bus \<Rightarrow> 'd power_hw \<Rightarrow> u8 \<times> 'd power_hw" where
  "api_hal_power_get_pct bus hw =
     (case gauge_reading (bq27220_get_state_of_charge bus) hw of (w, hw1) \<Rightarrow> (ucast w, hw1))"

definition api_hal_power_get_bat_health_pct :: "'d i2c_bus \<Rightarrow> 'd power_hw \<Rightarrow> u8 \<times> 'd power_hw" where
  "api_hal_power_get_bat_health_pct bus hw =
     (case gauge_reading (bq27220_get_state_of_health bus) hw of (w, hw1) \<Rightarrow> (ucast w, hw1))"

definition api_hal_power_is_charging :: "'d i2c_bus \<Rightarrow> 'd power_hw \<Rightarrow> bool \<times> 'd power_hw" where
  "api_hal_power_is_charging bus = charger_reading (bq25896_is_charging bus)"

definition api_hal_power_off :: "'d i2c_bus \<Rightarrow> 'd power_hw \<Rightarrow> 'd power_hw" where
  "api_hal_power_off bus hw = bq25896_poweroff bus (fst hw) (snd hw)"

definition api_hal_power_enable_otg :: "'d i2c_bus \<Rightarrow> 'd power_hw \<Rightarrow> 'd power_hw" where
  "api_hal_power_enable_otg bus hw = bq25896_enable_otg bus (fst hw) (snd hw)"

definition api_hal_power_disable_otg :: "'d i2c_bus \<Rightarrow> 'd power_hw \<Rightarrow> 'd power_hw" where
  "api_hal_power_disable_otg bus hw = bq25896_disable_otg bus (fst hw) (snd hw)"

definition api_hal_power_get_battery_remaining_capacity :: "'d i2c_bus \<Rightarrow> 'd power_hw \<Rightarrow> u32 \<times> 'd power_hw"
  where
  "api_hal_power_get_battery_remaining_capacity bus hw =
     (case gauge_reading (bq27220_get_remaining_capacity bus) hw of (w, hw1) \<Rightarrow> (ucast w, hw1))"

definition api_hal_power_get_battery_full_capacity :: "'d i2c_bus \<Rightarrow> 'd power_hw \<Rightarrow> u32 \<times> 'd power_hw"
  where
  "api_hal_power_get_battery_full_capacity bus hw =
     (case gauge_reading (bq27220_get_full_charge_capacity bus) hw of (w, hw1) \<Rightarrow> (ucast w, hw1))"

text \<open>A 16-bit reading divided by \<^verbatim>\<open>1000.0f\<close>; its conversion to float is exact.\<close>

definition thousandth :: "int \<Rightarrow> rat" where "thousandth n = f32_signed (of_int n / 1000)"

fun api_hal_power_get_battery_voltage :: "'d i2c_bus \<Rightarrow> power_ic \<Rightarrow> 'd power_hw \<Rightarrow> rat \<times> 'd power_hw" where
  "api_hal_power_get_battery_voltage bus ApiHalPowerICCharger hw =
     (case charger_reading (bq25896_get_vbat_voltage bus) hw of (w, hw1) \<Rightarrow> (thousandth (uint w), hw1))"
| "api_hal_power_get_battery_voltage bus ApiHalPowerICFuelGauge hw =
     (case gauge_reading (bq27220_get_voltage bus) hw of (w, hw1) \<Rightarrow> (thousandth (uint w), hw1))"

fun api_hal_power_get_battery_current :: "'d i2c_bus \<Rightarrow> power_ic \<Rightarrow> 'd power_hw \<Rightarrow> rat \<times> 'd power_hw" where
  "api_hal_power_get_battery_current bus ApiHalPowerICCharger hw =
     (case charger_reading (bq25896_get_vbat_current bus) hw of (w, hw1) \<Rightarrow> (thousandth (uint w), hw1))"
| "api_hal_power_get_battery_current bus ApiHalPowerICFuelGauge hw =
     (case gauge_reading (bq27220_get_current bus) hw of (n, hw1) \<Rightarrow> (thousandth n, hw1))"

fun api_hal_power_get_battery_temperature :: "'d i2c_bus \<Rightarrow> power_ic \<Rightarrow> 'd power_hw \<Rightarrow> rat \<times> 'd power_hw"
  where
  "api_hal_power_get_battery_temperature bus ApiHalPowerICCharger hw =
     (case charger_reading (bq25896_get_ntc_mpct bus) hw of (w, hw1) \<Rightarrow>
        (f32_signed (f32_signed (71 - thousandth (uint w)) / f32 (6 / 10)), hw1))"
| "api_hal_power_get_battery_temperature bus ApiHalPowerICFuelGauge hw =
     (case gauge_reading (bq27220_get_temperature bus) hw of (w, hw1) \<Rightarrow>
        (f32_signed (of_int (uint w - 2731) / 10), hw1))"

definition api_hal_power_get_usb_voltage :: "'d i2c_bus \<Rightarrow> 'd power_hw \<Rightarrow> rat \<times> 'd power_hw" where
  "api_hal_power_get_usb_voltage bus hw =
     (case charger_reading (bq25896_get_vbus_voltage bus) hw of (w, hw1) \<Rightarrow> (thousandth (uint w), hw1))"

section \<open>State\<close>

datatype power_state = PowerStateNotCharging | PowerStateCharging | PowerStateCharged

datatype power_view = PowerViewInfo | PowerViewDialog | PowerViewOff | PowerViewDisconnect

record power_info_model =
  current_charger :: rat
  current_gauge :: rat
  voltage_charger :: rat
  voltage_gauge :: rat
  voltage_vbus :: rat
  capacity_remaining :: u32
  capacity_full :: u32
  temperature_charger :: rat
  temperature_gauge :: rat
  info_charge :: u8
  info_health :: u8

record power_off_model =
  poweroff_tick :: u32
  low_shown :: bool  \<comment> \<open>\<^verbatim>\<open>battery_low\<close>\<close>

record power_app =
  power_info :: power_info_model
  power_off_view :: power_off_model
  power_dialog :: dialog
  power_state_of :: power_state

datatype boot_mode = PowerBootModeNormal | PowerBootModeDfu

datatype power_call =
    Hal_Power_Off
  | Switch_To_View "power_view option"  \<comment> \<open>\<open>None\<close> is \<^verbatim>\<open>VIEW_NONE\<close>\<close>
  | Notify "notification_message list"
  | Redraw_Battery
  | Backup_Register nat u32  \<comment> \<open>of the clock: it survives a reset\<close>
  | System_Reset
  | Otg bool
  | Print string

definition POWER_OFF_TIMEOUT :: u32 where "POWER_OFF_TIMEOUT = 30"

section \<open>Powering off and rebooting\<close>

definition power_off :: "'d i2c_bus \<Rightarrow> 'd power_hw \<Rightarrow> power_call list \<times> 'd power_hw" where
  "power_off bus hw =
     ([Hal_Power_Off, Switch_To_View (Some PowerViewDisconnect)], api_hal_power_off bus hw)"

definition api_hal_boot_set_mode :: "boot_mode \<Rightarrow> power_call list" where
  "api_hal_boot_set_mode mode =
     (case mode of
        PowerBootModeNormal \<Rightarrow> [Backup_Register 0 0]
      | PowerBootModeDfu \<Rightarrow> [Backup_Register 0 0xDF00B000])"

definition api_hal_boot_set_flags :: "u32 \<Rightarrow> power_call list" where
  "api_hal_boot_set_flags flags = [Backup_Register 2 flags]"

definition power_reset :: "boot_mode \<Rightarrow> power_call list" where
  "power_reset mode = api_hal_boot_set_mode mode @ [System_Reset]"

section \<open>Menu and dialog\<close>

fun power_menu_reset_dialog_result :: "dialog_result \<Rightarrow> power_call list" where
  "power_menu_reset_dialog_result DialogResultLeft = power_reset PowerBootModeDfu"
| "power_menu_reset_dialog_result DialogResultRight = power_reset PowerBootModeNormal"
| "power_menu_reset_dialog_result DialogResultBack = [Switch_To_View None]"

text \<open>\<open>cb\<close> is the address of the result callback.\<close>

definition power_menu_reset_callback :: "bool \<Rightarrow> nat \<Rightarrow> power_app \<Rightarrow> (power_call list \<times> power_app) res" where
  "power_menu_reset_callback dbg cb a =
     bindE (dialog_set_header_text dbg (Some ''Reboot type'')
              (dialog_set_result_callback (Some cb) (power_dialog a))) (\<lambda>d1.
     bindE (dialog_set_text dbg (Some ''Reboot where?'') d1) (\<lambda>d2.
     bindE (dialog_set_left_button_text dbg (Some ''DFU'') d2) (\<lambda>d3.
     bindE (dialog_set_right_button_text dbg (Some ''OS'') d3) (\<lambda>d4.
       Inr ([Switch_To_View (Some PowerViewDialog)], a\<lparr>power_dialog := d4\<rparr>)))))"

definition power_menu_enable_otg_callback :: "'d i2c_bus \<Rightarrow> 'd power_hw \<Rightarrow> power_call list \<times> 'd power_hw" where
  "power_menu_enable_otg_callback bus hw = ([Otg True], api_hal_power_enable_otg bus hw)"

definition power_menu_disable_otg_callback :: "'d i2c_bus \<Rightarrow> 'd power_hw \<Rightarrow> power_call list \<times> 'd power_hw" where
  "power_menu_disable_otg_callback bus hw = ([Otg False], api_hal_power_disable_otg bus hw)"

definition power_menu_info_callback :: "power_call list" where
  "power_menu_info_callback = [Switch_To_View (Some PowerViewInfo)]"

section \<open>Commands\<close>

text \<open>\<open>c\<close> is the character that \<^verbatim>\<open>cli_getc\<close> returns.\<close>

definition power_cli_factory_reset :: "char \<Rightarrow> power_call list" where
  "power_cli_factory_reset c =
     Print ''All data will be lost. Are you sure (y/n)?'' #
     (if c = CHR ''y'' \<or> c = CHR ''Y'' then
        Print ''Data will be wiped after reboot.'' #
        api_hal_boot_set_flags 1 @ power_reset PowerBootModeNormal
      else [Print ''Safe choice.''])"

definition power_cli_otg :: "'d i2c_bus \<Rightarrow> string \<Rightarrow> 'd power_hw \<Rightarrow> power_call list \<times> 'd power_hw" where
  "power_cli_otg bus args hw =
     (if args = ''0'' then power_menu_disable_otg_callback bus hw
      else if args = ''1'' then power_menu_enable_otg_callback bus hw
      else ([Print ''power_otg <1|0>''], hw))"

section \<open>The task\<close>

definition power_charging_indication_handler ::
    "'d i2c_bus \<Rightarrow> power_state \<Rightarrow> 'd power_hw \<Rightarrow> power_call list \<times> power_state \<times> 'd power_hw" where
  "power_charging_indication_handler bus st hw0 =
     (let (c1, hw1) = api_hal_power_is_charging bus hw0;
          (cs1, st1, hw2) =
            (if c1 then
               (let (pct, hw) = api_hal_power_get_pct bus hw1
                in if pct = 100 then
                     (if st \<noteq> PowerStateCharged then ([Notify sequence_charged], PowerStateCharged, hw)
                      else ([], st, hw))
                   else
                     (if st \<noteq> PowerStateCharging then ([Notify sequence_charging], PowerStateCharging, hw)
                      else ([], st, hw)))
             else ([], st, hw1));
          (c2, hw3) = api_hal_power_is_charging bus hw2
      in if \<not> c2 \<and> st1 \<noteq> PowerStateNotCharging
         then (cs1 @ [Notify sequence_not_charging], PowerStateNotCharging, hw3)
         else (cs1, st1, hw3))"

definition power_read_info :: "'d i2c_bus \<Rightarrow> 'd power_hw \<Rightarrow> power_info_model \<times> 'd power_hw" where
  "power_read_info bus hw0 =
     (let (charge, hw1) = api_hal_power_get_pct bus hw0;
          (health, hw2) = api_hal_power_get_bat_health_pct bus hw1;
          (remaining, hw3) = api_hal_power_get_battery_remaining_capacity bus hw2;
          (full, hw4) = api_hal_power_get_battery_full_capacity bus hw3;
          (cc, hw5) = api_hal_power_get_battery_current bus ApiHalPowerICCharger hw4;
          (cg, hw6) = api_hal_power_get_battery_current bus ApiHalPowerICFuelGauge hw5;
          (vc, hw7) = api_hal_power_get_battery_voltage bus ApiHalPowerICCharger hw6;
          (vg, hw8) = api_hal_power_get_battery_voltage bus ApiHalPowerICFuelGauge hw7;
          (vbus, hw9) = api_hal_power_get_usb_voltage bus hw8;
          (tc, hw10) = api_hal_power_get_battery_temperature bus ApiHalPowerICCharger hw9;
          (tg, hw11) = api_hal_power_get_battery_temperature bus ApiHalPowerICFuelGauge hw10
      in (\<lparr>current_charger = cc, current_gauge = cg, voltage_charger = vc, voltage_gauge = vg,
           voltage_vbus = vbus, capacity_remaining = remaining, capacity_full = full,
           temperature_charger = tc, temperature_gauge = tg, info_charge = charge,
           info_health = health\<rparr>, hw11))"

definition battery_is_low :: "power_info_model \<Rightarrow> bool" where
  "battery_is_low model = (info_charge model = 0 \<and> voltage_vbus model < 4)"

text \<open>The update of the model of the off view.\<close>

definition power_off_update ::
    "'d i2c_bus \<Rightarrow> bool \<Rightarrow> u32 \<Rightarrow> u32 \<Rightarrow> power_off_model \<Rightarrow> 'd power_hw \<Rightarrow>
       power_call list \<times> power_off_model \<times> 'd power_hw" where
  "power_off_update bus battery_low now freq m hw =
     (let (cs1, m1, hw1) =
        (if battery_low then
           (if poweroff_tick m = 0 then ([], m\<lparr>poweroff_tick := now + freq * POWER_OFF_TIMEOUT\<rparr>, hw)
            else if now > poweroff_tick m
              then (case power_off bus hw of (cs, hw1) \<Rightarrow> (cs, m, hw1))
              else ([], m, hw))
         else ([], m\<lparr>poweroff_tick := 0\<rparr>, hw))
      in if low_shown m1 \<noteq> battery_low
         then (cs1 @ [Switch_To_View (if battery_low then Some PowerViewOff else None)],
               m1\<lparr>low_shown := battery_low\<rparr>, hw1)
         else (cs1, m1, hw1))"

definition power_iteration ::
    "'d i2c_bus \<Rightarrow> u32 \<Rightarrow> u32 \<Rightarrow> power_app \<Rightarrow> 'd power_hw \<Rightarrow> power_call list \<times> power_app \<times> 'd power_hw" where
  "power_iteration bus freq now a hw0 =
     (let (info, hw1) = power_read_info bus hw0;
          (cs1, off, hw2) =
            power_off_update bus (battery_is_low info) now freq (power_off_view a) hw1;
          (cs2, st, hw3) = power_charging_indication_handler bus (power_state_of a) hw2
      in (cs1 @ cs2 @ [Redraw_Battery],
          a\<lparr>power_info := info, power_off_view := off, power_state_of := st\<rparr>, hw3))"

text \<open>\<^verbatim>\<open>power_alloc\<close>: what it sets of this state; the allocator clears the models.\<close>

definition power_alloc :: power_app where
  "power_alloc =
     \<lparr>power_info = \<lparr>current_charger = 0, current_gauge = 0, voltage_charger = 0, voltage_gauge = 0,
        voltage_vbus = 0, capacity_remaining = 0, capacity_full = 0, temperature_charger = 0,
        temperature_gauge = 0, info_charge = 0, info_health = 0\<rparr>,
      power_off_view = \<lparr>poweroff_tick = 0, low_shown = False\<rparr>, power_dialog = dialog_alloc,
      power_state_of = PowerStateNotCharging\<rparr>"

section \<open>The countdown to power-off\<close>

text \<open>
  What the rounds of the task see: whether the battery is low, and the tick count, as an unbounded
  time. \<open>low_since\<close> is the reference: the time of the first round of the present run of low
  rounds. \<open>off_run\<close> is the model after the rounds.
\<close>

fun low_since :: "(bool \<times> nat) list \<Rightarrow> nat option" where
  "low_since [] = None"
| "low_since ((low, t) # earlier) =
     (if low then (case low_since earlier of None \<Rightarrow> Some t | Some s \<Rightarrow> Some s) else None)"

text \<open>The rounds are listed last first.\<close>

fun off_run :: "'d i2c_bus \<Rightarrow> u32 \<Rightarrow> (bool \<times> nat) list \<Rightarrow> 'd power_hw \<Rightarrow> power_call list \<times> power_off_model \<times> 'd power_hw"
  where
  "off_run bus freq [] hw = ([], power_off_view power_alloc, hw)"
| "off_run bus freq ((low, t) # earlier) hw =
     (case off_run bus freq earlier hw of (_, m, hw1) \<Rightarrow>
        power_off_update bus low (of_nat t) freq m hw1)"

definition deadline :: "u32 \<Rightarrow> nat \<Rightarrow> nat" where "deadline freq s = s + unat freq * 30"

text \<open>No deadline comes near the end of the 32-bit tick count.\<close>

definition ticks_fit :: "u32 \<Rightarrow> (bool \<times> nat) list \<Rightarrow> bool" where
  "ticks_fit freq obs = list_all (\<lambda>(_, t). deadline freq t < 2 ^ 32) obs"

lemma low_since_time: "ticks_fit freq obs \<Longrightarrow> low_since obs = Some s \<Longrightarrow> deadline freq s < 2 ^ 32"
  by (induction obs arbitrary: s rule: low_since.induct)
    (auto simp: ticks_fit_def split: if_splits option.splits)

lemma deadline_word:
  assumes "deadline freq t < 2 ^ 32"
  shows "unat (of_nat t + freq * POWER_OFF_TIMEOUT) = deadline freq t"
proof -
  have t: "t < 2 ^ 32" using assms by (simp add: deadline_def)
  have "unat (freq * POWER_OFF_TIMEOUT) = unat freq * 30"
    using assms by (simp add: POWER_OFF_TIMEOUT_def unat_word_ariths deadline_def)
  with assms t show ?thesis
    by (simp add: unat_word_ariths deadline_def unat_of_nat_small)
qed

lemma power_off_update_tick:
  "snd (power_off_update bus low now freq m hw) = (m1, hw1) \<Longrightarrow>
   poweroff_tick m1 =
     (if low then if poweroff_tick m = 0 then now + freq * POWER_OFF_TIMEOUT else poweroff_tick m else 0)"
  by (auto simp: power_off_update_def Let_def power_off_def split: if_splits)

lemma off_run_tick:
  assumes "0 < freq"
  shows "ticks_fit freq obs \<Longrightarrow>
     unat (poweroff_tick (fst (snd (off_run bus freq obs hw)))) =
       (case low_since obs of None \<Rightarrow> 0 | Some s \<Rightarrow> deadline freq s)"
proof (induction obs)
  case Nil
  then show ?case by (simp add: power_alloc_def)
next
  case (Cons o1 obs)
  obtain low t where o1: "o1 = (low, t)" by (cases o1)
  obtain cs m hw1 where run: "off_run bus freq obs hw = (cs, m, hw1)" by (cases "off_run bus freq obs hw")
  obtain m1 hw2 where upd: "snd (power_off_update bus low (of_nat t) freq m hw1) = (m1, hw2)"
    by (cases "snd (power_off_update bus low (of_nat t) freq m hw1)")
  have fit: "ticks_fit freq obs" "deadline freq t < 2 ^ 32"
    using Cons.prems o1 by (auto simp: ticks_fit_def)
  have IH: "unat (poweroff_tick m) = (case low_since obs of None \<Rightarrow> 0 | Some s \<Rightarrow> deadline freq s)"
    using Cons.IH [OF fit(1)] run by simp
  have pos: "0 < deadline freq s" for s using assms by (simp add: deadline_def word_pos_unat)
  have tick0: "poweroff_tick m = 0 \<longleftrightarrow> low_since obs = None"
    using IH pos by (metis less_irrefl option.case_eq_if option.distinct(1) unat_eq_0 option.exhaust_sel)
  show ?case
    using power_off_update_tick [OF upd] upd run o1 IH tick0 deadline_word [OF fit(2)]
    by (auto split: option.splits)
qed

lemma power_off_update_off:
  "Hal_Power_Off \<in> set (fst (power_off_update bus low now freq m hw)) \<longleftrightarrow>
     low \<and> poweroff_tick m \<noteq> 0 \<and> poweroff_tick m < now"
  by (auto simp: power_off_update_def Let_def power_off_def split: if_splits)

text \<open>
  C13. The device powers off when and only when the battery has been low for more than thirty
  seconds without a break: a round of the power task powers off exactly if it finds the battery
  low and the present run of low rounds began more than thirty times the tick frequency before it.
  This holds as long as no deadline passes the end of the 32-bit tick count.
\<close>

theorem power_off_exactly:
  assumes "0 < freq" and "ticks_fit freq ((low, t) # earlier)"
  shows "Hal_Power_Off \<in> set (fst (off_run bus freq ((low, t) # earlier) hw)) \<longleftrightarrow>
     low \<and> (case low_since earlier of None \<Rightarrow> False | Some s \<Rightarrow> deadline freq s < t)"
proof -
  obtain cs m hw1 where run: "off_run bus freq earlier hw = (cs, m, hw1)"
    by (cases "off_run bus freq earlier hw")
  have fit: "ticks_fit freq earlier" and t: "t < 2 ^ 32"
    using assms(2) by (auto simp: ticks_fit_def deadline_def)
  have tick: "unat (poweroff_tick m) = (case low_since earlier of None \<Rightarrow> 0 | Some s \<Rightarrow> deadline freq s)"
    using off_run_tick [OF assms(1) fit, of bus hw] run by simp
  have pos: "0 < deadline freq s" for s using assms(1) by (simp add: deadline_def word_pos_unat)
  have "Hal_Power_Off \<in> set (fst (off_run bus freq ((low, t) # earlier) hw)) \<longleftrightarrow>
      low \<and> poweroff_tick m \<noteq> 0 \<and> poweroff_tick m < of_nat t"
    using run by (simp add: power_off_update_off)
  also have "\<dots> \<longleftrightarrow> low \<and> 0 < unat (poweroff_tick m) \<and> unat (poweroff_tick m) < t"
    using t by (simp add: word_less_nat_alt unat_of_nat_small unat_gt_0)
  also have "\<dots> \<longleftrightarrow> low \<and> (case low_since earlier of None \<Rightarrow> False | Some s \<Rightarrow> deadline freq s < t)"
    using tick pos by (auto split: option.splits)
  finally show ?thesis .
qed

theorem power_off_exactly_witness:
  "Hal_Power_Off \<in> set (fst (off_run demo_gauge_bus 1000
     [(True, 31024), (True, 2000), (True, 1000), (False, 0)]
     ([], \<lparr>dg_mode = None, dg_pend = None, dg_mem = \<lambda>a. 0\<rparr>)))"
  using power_off_exactly [of 1000 True 31024 "[(True, 2000), (True, 1000), (False, 0)]" demo_gauge_bus
      "([], \<lparr>dg_mode = None, dg_pend = None, dg_mem = \<lambda>a. 0\<rparr>)"]
  by (simp add: ticks_fit_def deadline_def)

text \<open>
  Near the end of the tick count the deadline wraps around to a small number, and the next round
  powers off: 10 seconds before the end, the warning lasts one second.
\<close>

lemma power_off_wraps:
  "let m0 = \<lparr>poweroff_tick = 0, low_shown = False\<rparr>;
       (cs1, m1, hw1) = power_off_update bus True (- 10000) 1000 m0 hw
   in Hal_Power_Off \<in> set (fst (power_off_update bus True (- 9000) 1000 m1 hw1))"
  by (simp add: power_off_update_def POWER_OFF_TIMEOUT_def power_off_def)

section \<open>The charging indication\<close>

text \<open>
  The sequences shown are the changes of the state: the last of them belongs to the new state, and
  with no sequence the state is the old one.
\<close>

definition sequence_of :: "power_state \<Rightarrow> notification_message list" where
  "sequence_of st =
     (case st of PowerStateNotCharging \<Rightarrow> sequence_not_charging
      | PowerStateCharging \<Rightarrow> sequence_charging | PowerStateCharged \<Rightarrow> sequence_charged)"

lemma charging_indication_shows:
  assumes "power_charging_indication_handler bus st hw = (cs, st', hw')"
  shows "(cs = [] \<and> st' = st) \<or> (cs \<noteq> [] \<and> last cs = Notify (sequence_of st'))"
  using assms
  by (auto simp: power_charging_indication_handler_def sequence_of_def Let_def
      split: prod.splits if_splits)

text \<open>A charger that says at both readings that it does not charge ends in that state.\<close>

lemma charging_indication_stops:
  assumes "api_hal_power_is_charging bus hw = (False, hw1)"
    and "api_hal_power_is_charging bus hw1 = (False, hw2)"
  shows "fst (snd (power_charging_indication_handler bus st hw)) = PowerStateNotCharging"
  using assms by (simp add: power_charging_indication_handler_def Let_def)

section \<open>Factory reset\<close>

text \<open>Only a confirmed request wipes: anything but y or Y leaves the boot flags alone.\<close>

lemma factory_reset_confirmed:
  "Backup_Register 2 1 \<in> set (power_cli_factory_reset c) \<longleftrightarrow> c = CHR ''y'' \<or> c = CHR ''Y''"
  by (auto simp: power_cli_factory_reset_def api_hal_boot_set_flags_def power_reset_def
      api_hal_boot_set_mode_def)

end
