(* ===== verification/Hal.thy ===== *)
theory Hal
  imports Prelude
begin

text \<open>
  Parts of the hardware access layer of target f6 with logic of their own: the sleep counters of
  \<^verbatim>\<open>api-hal/api-hal-power.c\<close>, tickless sleep in \<^verbatim>\<open>api-hal-os.c\<close> and \<^verbatim>\<open>api-hal-os-timer.h\<close>, the
  wait for the second core in \<^verbatim>\<open>api-hal-bt.c\<close>, and the virtual serial port \<^verbatim>\<open>api-hal-vcp.c\<close>.

  What the code reads from the hardware is an argument; loops that poll consume a list of answers
  and are \<open>None\<close> while they still wait.
\<close>

section \<open>May the device sleep?\<close>

record api_hal_power =
  insomnia :: u32
  deep_insomnia :: u32

definition api_hal_power_state :: api_hal_power where
  "api_hal_power_state = \<lparr>insomnia = 0, deep_insomnia = 1\<rparr>"

definition api_hal_power_insomnia_level :: "api_hal_power \<Rightarrow> u16" where
  "api_hal_power_insomnia_level p = ucast (insomnia p)"

definition api_hal_power_insomnia_enter :: "api_hal_power \<Rightarrow> api_hal_power" where
  "api_hal_power_insomnia_enter p = p\<lparr>insomnia := insomnia p + 1\<rparr>"

definition api_hal_power_insomnia_exit :: "api_hal_power \<Rightarrow> api_hal_power" where
  "api_hal_power_insomnia_exit p = p\<lparr>insomnia := insomnia p - 1\<rparr>"

definition api_hal_power_sleep_available :: "api_hal_power \<Rightarrow> bool" where
  "api_hal_power_sleep_available p = (insomnia p = 0)"

definition api_hal_power_deep_sleep_available :: "bool \<Rightarrow> api_hal_power \<Rightarrow> bool" where
  "api_hal_power_deep_sleep_available bt_alive p = (bt_alive \<and> deep_insomnia p = 0)"

datatype sleep_kind = Light_Sleep | Deep_Sleep

definition api_hal_power_sleep :: "bool \<Rightarrow> api_hal_power \<Rightarrow> sleep_kind" where
  "api_hal_power_sleep bt_alive p =
     (if api_hal_power_deep_sleep_available bt_alive p then Deep_Sleep else Light_Sleep)"

lemma insomnia_balanced: "api_hal_power_insomnia_exit (api_hal_power_insomnia_enter p) = p"
  by (simp add: api_hal_power_insomnia_exit_def api_hal_power_insomnia_enter_def)

text \<open>Nothing ever clears \<^verbatim>\<open>deep_insomnia\<close>: deep sleep is never chosen.\<close>

lemma deep_sleep_off:
  "api_hal_power_sleep bt (((api_hal_power_insomnia_enter ^^ n) api_hal_power_state)) = Light_Sleep"
proof -
  have "deep_insomnia ((api_hal_power_insomnia_enter ^^ n) api_hal_power_state) = 1"
    by (induction n) (simp_all add: api_hal_power_insomnia_enter_def api_hal_power_state_def)
  then show ?thesis
    by (simp add: api_hal_power_sleep_def api_hal_power_deep_sleep_available_def)
qed

section \<open>Tickless sleep\<close>

definition API_HAL_OS_TIMER_MAX :: nat where "API_HAL_OS_TIMER_MAX = 0xFFFF"
definition API_HAL_OS_CLK_PER_TICK :: nat where "API_HAL_OS_CLK_PER_TICK = 32768 div 1024"
definition API_HAL_OS_TICK_PER_EPOCH :: nat where
  "API_HAL_OS_TICK_PER_EPOCH = API_HAL_OS_TIMER_MAX div API_HAL_OS_CLK_PER_TICK"
definition API_HAL_OS_MAX_SLEEP :: nat where "API_HAL_OS_MAX_SLEEP = API_HAL_OS_TICK_PER_EPOCH - 1"

lemmas os_consts = API_HAL_OS_TIMER_MAX_def API_HAL_OS_CLK_PER_TICK_def
  API_HAL_OS_TICK_PER_EPOCH_def API_HAL_OS_MAX_SLEEP_def

text \<open>
  \<^verbatim>\<open>api_hal_os_timer_get_cnt\<close> reads the counter, which runs on another clock, until two readings
  agree.
\<close>

fun timer_read_again :: "u32 \<Rightarrow> u32 list \<Rightarrow> u32 option" where
  "timer_read_again counter [] = None"
| "timer_read_again counter (shadow # rs) =
     (if counter = shadow then Some counter else timer_read_again shadow rs)"

fun api_hal_os_timer_get_cnt :: "u32 list \<Rightarrow> u32 option" where
  "api_hal_os_timer_get_cnt [] = None"
| "api_hal_os_timer_get_cnt (r # rs) = timer_read_again r rs"

text \<open>The compare and the reload value of the wake-up timer.\<close>

definition api_hal_os_timer_single :: "u32 \<Rightarrow> u32 \<times> u32" where
  "api_hal_os_timer_single n = (n - 3, n)"

text \<open>
  What the timer shows after the sleep: the counter, and the flags of the compare and of the
  reload match.
\<close>

record timer_flags =
  timer_cnt :: u32
  timer_cmpm :: bool
  timer_arrm :: bool

definition api_hal_os_sleep :: "u32 \<Rightarrow> timer_flags \<Rightarrow> u32 \<Rightarrow> u32 \<times> u32" where
  "api_hal_os_sleep expected_idle_ticks hw skew =
     (let after_cnt = timer_cnt hw + skew;
          after_tick = after_cnt div of_nat API_HAL_OS_CLK_PER_TICK;
          skew1 = after_cnt mod of_nat API_HAL_OS_CLK_PER_TICK
      in (if timer_cmpm hw \<and> timer_arrm hw then after_tick + expected_idle_ticks else after_tick, skew1))"

datatype sleep_call =
    Wait_For_Interrupt
  | Timer_Single u32 u32
  | Step_Tick u32

text \<open>
  \<^verbatim>\<open>vPortSuppressTicksAndSleep\<close>: \<open>abort\<close> is the answer of the kernel to whether the sleep is
  still possible, \<open>hw\<close> the timer after the sleep, as a function of the compare and reload values.
\<close>

definition vPortSuppressTicksAndSleep ::
    "api_hal_power \<Rightarrow> bool \<Rightarrow> (u32 \<times> u32 \<Rightarrow> timer_flags) \<Rightarrow> u32 \<Rightarrow> u32 \<Rightarrow> sleep_call list \<times> u32" where
  "vPortSuppressTicksAndSleep p abort hw expected skew =
     (if \<not> api_hal_power_sleep_available p then ([Wait_For_Interrupt], skew)
      else
        (let expected1 = (if expected > of_nat API_HAL_OS_MAX_SLEEP then of_nat API_HAL_OS_MAX_SLEEP
                          else expected)
         in if abort then ([], skew)
            else
              (let timer = api_hal_os_timer_single (expected1 * of_nat API_HAL_OS_CLK_PER_TICK);
                   (completed, skew1) = api_hal_os_sleep expected1 (hw timer) skew
               in ([Timer_Single (fst timer) (snd timer), Wait_For_Interrupt] @
                   (if completed > 0 then
                      [Step_Tick (if completed > expected1 then expected1 else completed)]
                    else []),
                   skew1))))"

text \<open>
  The one-shot timer as its manual describes it, when the processor wakes after \<open>slept\<close> counts:
  before the reload value the counter shows them and the compare flag tells whether it was
  passed; at the reload value the timer stops at zero with both flags set.
\<close>

definition one_shot :: "nat \<Rightarrow> u32 \<times> u32 \<Rightarrow> timer_flags" where
  "one_shot slept timer =
     (if slept < unat (snd timer)
      then \<lparr>timer_cnt = of_nat slept, timer_cmpm = (unat (fst timer) \<le> slept), timer_arrm = False\<rparr>
      else \<lparr>timer_cnt = 0, timer_cmpm = True, timer_arrm = True\<rparr>)"

text \<open>
  A run of sleeps, each given by the expected idle ticks and the counts after which the processor
  wakes. \<open>stepped\<close> adds up the ticks the kernel is told, \<open>time_slept\<close> the counts that went by: no
  more than the reload value of each sleep.
\<close>

definition capped :: "u32 \<Rightarrow> nat" where
  "capped expected = min (unat expected) API_HAL_OS_MAX_SLEEP"

fun stepped :: "sleep_call list \<Rightarrow> nat" where
  "stepped [] = 0"
| "stepped (Step_Tick n # cs) = unat n + stepped cs"
| "stepped (_ # cs) = stepped cs"

fun sleep_run :: "api_hal_power \<Rightarrow> (u32 \<times> nat) list \<Rightarrow> u32 \<Rightarrow> sleep_call list \<times> u32" where
  "sleep_run p [] skew = ([], skew)"
| "sleep_run p ((expected, slept) # ss) skew =
     (let (cs1, skew1) = vPortSuppressTicksAndSleep p False (one_shot slept) expected skew;
          (cs2, skew2) = sleep_run p ss skew1
      in (cs1 @ cs2, skew2))"

fun time_slept :: "(u32 \<times> nat) list \<Rightarrow> nat" where
  "time_slept [] = 0"
| "time_slept ((expected, slept) # ss) = min slept (capped expected * 32) + time_slept ss"

lemma stepped_append [simp]: "stepped (cs @ ds) = stepped cs + stepped ds"
  by (induction cs rule: stepped.induct) auto

lemma word_div_mod_32:
  "unat (w div 32 :: u32) = unat w div 32" "unat (w mod 32 :: u32) = unat w mod 32"
  by (simp_all add: unat_div unat_mod)

lemma one_sleep:
  assumes p: "api_hal_power_sleep_available p" and s: "unat skew < 32"
    and r: "vPortSuppressTicksAndSleep p False (one_shot slept) expected skew = (cs, skew1)"
  shows "unat skew1 < 32 \<and> stepped cs \<le> capped expected \<and>
     32 * stepped cs + unat skew1 = min slept (capped expected * 32) + unat skew"
proof -
  define e where "e = (if expected > of_nat API_HAL_OS_MAX_SLEEP then of_nat API_HAL_OS_MAX_SLEEP
                       else expected)"
  have e: "unat e = capped expected" and small: "unat e \<le> 2046"
    by (auto simp: e_def capped_def os_consts word_less_nat_alt min_def)
  have reload: "unat (e * 32) = unat e * 32"
    using small by (simp add: unat_word_ariths)
  let ?hw = "one_shot slept (e * 32 - 3, e * 32)"
  obtain completed sk where cs: "api_hal_os_sleep e ?hw skew = (completed, sk)"
    by (cases "api_hal_os_sleep e ?hw skew")
  have "skew1 = sk" and calls: "stepped cs =
      (if completed > 0 then (if completed > e then unat e else unat completed) else 0)"
    using r p cs by (auto simp: vPortSuppressTicksAndSleep_def e_def [symmetric] Let_def
        api_hal_os_timer_single_def API_HAL_OS_CLK_PER_TICK_def)
  have main: "unat sk < 32 \<and> unat completed \<le> unat e \<and>
      32 * unat completed + unat sk = min slept (unat e * 32) + unat skew"
  proof (cases "slept < unat e * 32")
    case True
    have cnt: "unat (of_nat slept + skew :: u32) = slept + unat skew"
      using True small s by (simp add: unat_word_ariths unat_of_nat_small)
    have "completed = (of_nat slept + skew) div 32" "sk = (of_nat slept + skew) mod 32"
      using cs True reload
      by (auto simp: api_hal_os_sleep_def one_shot_def Let_def API_HAL_OS_CLK_PER_TICK_def)
    then have "unat completed = (slept + unat skew) div 32" "unat sk = (slept + unat skew) mod 32"
      by (simp_all add: word_div_mod_32 cnt)
    with True s show ?thesis by auto
  next
    case False
    have "completed = skew div 32 + e" "sk = skew mod 32"
      using cs False reload
      by (auto simp: api_hal_os_sleep_def one_shot_def Let_def API_HAL_OS_CLK_PER_TICK_def)
    moreover have "skew div 32 = 0" using s by (intro word_unat_eq_iff [THEN iffD2]) (simp add: word_div_mod_32)
    ultimately have "completed = e" "unat sk = unat skew" using s by (simp_all add: word_div_mod_32)
    with False s show ?thesis by auto
  qed
  have "stepped cs = unat completed"
    using calls main by (auto simp: word_less_nat_alt)
  with main e \<open>skew1 = sk\<close> show ?thesis by simp
qed



section \<open>Waiting for the second core\<close>

datatype ble_glue_status =
    BleGlueStatusUninitialized | BleGlueStatusStartup | BleGlueStatusBroken | BleGlueStatusStarted

definition api_hal_bt_is_alive :: "ble_glue_status \<Rightarrow> bool" where
  "api_hal_bt_is_alive st = (st = BleGlueStatusStarted)"

text \<open>The counter is a \<^verbatim>\<open>uint8_t\<close>; the comparison with 1000 is one of \<^verbatim>\<open>int\<close>s.\<close>

fun bt_wait_loop :: "ble_glue_status list \<Rightarrow> u8 \<Rightarrow> bool option" where
  "bt_wait_loop [] counter = None"
| "bt_wait_loop (st # sts) counter =
     (if st = BleGlueStatusStartup then
        (let counter1 = counter + 1
         in if uint counter1 > 1000 then Some False else bt_wait_loop sts counter1)
      else Some True)"

definition api_hal_bt_wait_transition :: "ble_glue_status list \<Rightarrow> bool option" where
  "api_hal_bt_wait_transition sts = bt_wait_loop sts 0"

lemma bt_wait_loop_startup: "list_all (\<lambda>st. st = BleGlueStatusStartup) sts \<Longrightarrow> bt_wait_loop sts c = None"
proof (induction sts arbitrary: c)
  case (Cons st sts)
  have "uint (c + 1 :: u8) < 2 ^ LENGTH(8)" by (rule unsigned_less)
  then have "\<not> uint (c + 1) > 1000" by simp
  with Cons show ?case by (simp add: Let_def)
qed simp

text \<open>
  \<^verbatim>\<open>api_hal_bt_wait_transition\<close> means to give up after a thousand rounds, about ten seconds; its
  counter has eight bits. However often a core that does not come up is asked, the wait goes on, and
  with it every erase and write of the flash, which begins with it.
\<close>

lemma bt_wait_never_gives_up:
  "api_hal_bt_wait_transition (replicate n BleGlueStatusStartup) = None"
  by (simp add: api_hal_bt_wait_transition_def bt_wait_loop_startup list_all_iff)

lemma bt_wait_transition_true: "api_hal_bt_wait_transition sts \<noteq> Some False"
proof -
  have "bt_wait_loop sts c \<noteq> Some False" for c
  proof (induction sts arbitrary: c)
    case (Cons st sts)
    have "uint (c + 1 :: u8) < 2 ^ LENGTH(8)" by (rule unsigned_less)
    then have "\<not> uint (c + 1) > 1000" by simp
    with Cons.IH show ?case by (simp add: Let_def)
  qed simp
  then show ?thesis by (simp add: api_hal_bt_wait_transition_def)
qed

end
