(* ===== verification/Vcp.thy ===== *)
theory Vcp
  imports Prelude
begin

text \<open>
  The virtual serial port, \<^verbatim>\<open>api-hal/api-hal-vcp.c\<close>: what the USB stack calls (from interrupts) and
  what the command line and the standard output call.

  The stream buffer of the kernel is the list of the bytes in it; as its manual says, a send stores as
  many of the bytes as there is room for and a receive takes at most the bytes asked for, oldest
  first. The binary semaphore is a flag. A call that waits is resumed with the state it needs.
\<close>

section \<open>State and callbacks\<close>

record vcp =
  rx_stream :: "u8 list"
  tx_semaphore :: bool
  vcp_alive :: bool
  vcp_underrun :: bool

definition API_HAL_VCP_RX_BUFFER_SIZE :: nat where "API_HAL_VCP_RX_BUFFER_SIZE = 600"
definition ascii_soh :: u8 where "ascii_soh = 0x01"
definition ascii_eot :: u8 where "ascii_eot = 0x04"

definition api_hal_vcp_init :: vcp where
  "api_hal_vcp_init = \<lparr>rx_stream = [], tx_semaphore = True, vcp_alive = False, vcp_underrun = False\<rparr>"

definition vcp_usb_init :: "vcp \<Rightarrow> vcp" where  \<comment> \<open>\<^verbatim>\<open>_api_hal_vcp_init\<close>\<close>
  "vcp_usb_init v = v\<lparr>tx_semaphore := True\<rparr>"

definition vcp_usb_deinit :: "vcp \<Rightarrow> vcp" where
  "vcp_usb_deinit v = v\<lparr>vcp_alive := False, tx_semaphore := True\<rparr>"

text \<open>\<^verbatim>\<open>xStreamBufferSendFromISR\<close>: the bytes stored, and their number.\<close>

definition stream_send :: "u8 list \<Rightarrow> u8 list \<Rightarrow> nat \<times> u8 list" where
  "stream_send st xs =
     (let ys = take (API_HAL_VCP_RX_BUFFER_SIZE - length st) xs in (length ys, st @ ys))"

definition vcp_rx_callback :: "u8 list \<Rightarrow> vcp \<Rightarrow> vcp" where
  "vcp_rx_callback buffer v =
     (case stream_send (rx_stream v) buffer of
        (ret, st) \<Rightarrow>
          (if ret \<noteq> length buffer then v\<lparr>rx_stream := st, vcp_underrun := True\<rparr>
           else v\<lparr>rx_stream := st\<rparr>))"

definition vcp_control_line :: "u8 \<Rightarrow> vcp \<Rightarrow> vcp" where
  "vcp_control_line state v =
     (let rts = bit state 1;
          v1 =
            (if rts then
               (if \<not> vcp_alive v then vcp_rx_callback [ascii_soh] (v\<lparr>vcp_alive := True\<rparr>) else v)
             else
               (if vcp_alive v then (vcp_rx_callback [ascii_eot] v)\<lparr>vcp_alive := False\<rparr> else v))
      in v1\<lparr>tx_semaphore := True\<rparr>)"

definition vcp_tx_complete :: "vcp \<Rightarrow> vcp" where
  "vcp_tx_complete v = v\<lparr>tx_semaphore := True\<rparr>"

section \<open>Receiving and transmitting\<close>

text \<open>
  \<^verbatim>\<open>xStreamBufferReceive\<close> once there is something in the buffer or the timeout has passed; with
  \<^verbatim>\<open>portMAX_DELAY\<close> only the former ends the wait.
\<close>

definition api_hal_vcp_rx_with_timeout :: "nat \<Rightarrow> vcp \<Rightarrow> u8 list \<times> vcp" where
  "api_hal_vcp_rx_with_timeout n v = (take n (rx_stream v), v\<lparr>rx_stream := drop n (rx_stream v)\<rparr>)"

definition api_hal_vcp_rx :: "nat \<Rightarrow> vcp \<Rightarrow> (u8 list \<times> vcp) option" where
  "api_hal_vcp_rx n v = (if rx_stream v = [] then None else Some (api_hal_vcp_rx_with_timeout n v))"

text \<open>
  \<^verbatim>\<open>api_hal_vcp_tx\<close>. Each round sees whether the port is alive and, after the semaphore was given, what
  \<^verbatim>\<open>CDC_Transmit_FS\<close> answers; \<open>packet\<close> is \<^verbatim>\<open>APP_TX_DATA_SIZE\<close>, a constant of the USB library. The
  result is the list of transmitted batches; \<open>None\<close> is a call that still waits.
\<close>

fun api_hal_vcp_tx :: "nat \<Rightarrow> (bool \<times> bool) list \<Rightarrow> u8 list \<Rightarrow> u8 list list option" where
  "api_hal_vcp_tx packet [] buffer = (if buffer = [] then Some [] else None)"
| "api_hal_vcp_tx packet ((is_alive, ok) # rounds) buffer =
     (if 0 < length buffer \<and> is_alive then
        (let batch_size = (if length buffer > packet then packet else length buffer)
         in if ok then map_option (Cons (take batch_size buffer))
                         (api_hal_vcp_tx packet rounds (drop batch_size buffer))
            else api_hal_vcp_tx packet rounds buffer)
      else Some [])"

section \<open>Lemmas\<close>

text \<open>What happens to the port, and the run over it: what was read, and the port after.\<close>

datatype vcp_event = Host_Line u8 | Host_Data "u8 list" | Host_Gone | Sent | Read nat

fun vcp_step :: "vcp_event \<Rightarrow> vcp \<Rightarrow> u8 list \<times> vcp" where
  "vcp_step (Host_Line s) v = ([], vcp_control_line s v)"
| "vcp_step (Host_Data xs) v = ([], vcp_rx_callback xs v)"
| "vcp_step Host_Gone v = ([], vcp_usb_deinit v)"
| "vcp_step Sent v = ([], vcp_tx_complete v)"
| "vcp_step (Read n) v = api_hal_vcp_rx_with_timeout n v"

fun vcp_run :: "vcp_event list \<Rightarrow> vcp \<Rightarrow> u8 list \<times> vcp" where
  "vcp_run [] v = ([], v)"
| "vcp_run (e # es) v =
     (case vcp_step e v of (xs, v1) \<Rightarrow> case vcp_run es v1 of (ys, v2) \<Rightarrow> (xs @ ys, v2))"

text \<open>
  The session that the reader gets: the host's bytes, with a start mark when the host raises the line
  and an end mark when it lowers it; \<open>up\<close> is whether the line is up. Unplugging the cable takes the line
  down too, but the port has no mark for that.
\<close>

fun session :: "bool \<Rightarrow> vcp_event list \<Rightarrow> u8 list" where
  "session up [] = []"
| "session up (Host_Line s # es) =
     (if bit s 1 then (if up then [] else [ascii_soh]) @ session True es
      else (if up then [ascii_eot] else []) @ session False es)"
| "session up (Host_Data xs # es) = xs @ session up es"
| "session up (Host_Gone # es) = session False es"
| "session up (Sent # es) = session up es"
| "session up (Read n # es) = session up es"

text \<open>A send either stores everything or raises the flag, which nothing lowers.\<close>

lemma vcp_rx_callback_stores:
  "vcp_underrun (vcp_rx_callback xs v) \<or>
   rx_stream (vcp_rx_callback xs v) = rx_stream v @ xs \<and> \<not> vcp_underrun v \<or> vcp_underrun v"
  by (auto simp: vcp_rx_callback_def stream_send_def Let_def min_def split: if_splits)

lemma vcp_rx_callback_simps [simp]:
  "vcp_alive (vcp_rx_callback xs v) = vcp_alive v"
  "vcp_underrun v \<Longrightarrow> vcp_underrun (vcp_rx_callback xs v)"
  by (auto simp: vcp_rx_callback_def stream_send_def Let_def)

lemma vcp_step_underrun: "vcp_step e v = (xs, v1) \<Longrightarrow> vcp_underrun v \<Longrightarrow> vcp_underrun v1"
  by (cases e) (auto simp: vcp_control_line_def Let_def vcp_usb_deinit_def vcp_tx_complete_def
      api_hal_vcp_rx_with_timeout_def)

lemma vcp_run_underrun: "vcp_run es v = (xs, v1) \<Longrightarrow> vcp_underrun v \<Longrightarrow> vcp_underrun v1"
  by (induction es arbitrary: v xs) (auto split: prod.splits dest: vcp_step_underrun)

lemma vcp_rx_callback_appends:
  "\<not> vcp_underrun (vcp_rx_callback xs v) \<Longrightarrow> rx_stream (vcp_rx_callback xs v) = rx_stream v @ xs"
  using vcp_rx_callback_stores [of xs v] vcp_rx_callback_simps(2) [of v xs] by blast

lemma vcp_run_session:
  "vcp_run es v = (got, v1) \<Longrightarrow> \<not> vcp_underrun v1 \<Longrightarrow>
     got @ rx_stream v1 = rx_stream v @ session (vcp_alive v) es"
proof (induction es arbitrary: v got)
  case (Cons e es)
  obtain xs v0 where step: "vcp_step e v = (xs, v0)" by (cases "vcp_step e v")
  obtain ys where run: "vcp_run es v0 = (ys, v1)" and got: "got = xs @ ys"
    using Cons.prems(1) step by (auto split: prod.splits)
  have u: "\<not> vcp_underrun v0" using vcp_run_underrun [OF run] Cons.prems(2) by blast
  from Cons.IH [OF run Cons.prems(2)] have IH: "ys @ rx_stream v1 = rx_stream v0 @ session (vcp_alive v0) es" .
  show ?case
  proof (cases e)
    case (Host_Line s)
    with step u IH got show ?thesis
      by (auto simp: vcp_control_line_def Let_def vcp_rx_callback_appends split: if_splits)
  next
    case (Host_Data zs)
    with step u IH got show ?thesis by (auto simp: vcp_rx_callback_appends)
  next
    case Host_Gone
    with step IH got show ?thesis by (auto simp: vcp_usb_deinit_def)
  next
    case Sent
    with step IH got show ?thesis by (auto simp: vcp_tx_complete_def)
  next
    case (Read n)
    with step IH got show ?thesis by (auto simp: api_hal_vcp_rx_with_timeout_def)
  qed
qed simp

text \<open>Transmission.\<close>

lemma vcp_tx_prefix:
  "api_hal_vcp_tx packet rounds buffer = Some bs \<Longrightarrow> \<exists>rest. concat bs @ rest = buffer"
proof (induction packet rounds buffer arbitrary: bs rule: api_hal_vcp_tx.induct)
  case (2 packet is_alive ok rounds buffer)
  show ?case
  proof (cases "0 < length buffer \<and> is_alive \<and> ok")
    case True
    define n where "n = (if length buffer > packet then packet else length buffer)"
    from True 2(3) obtain cs where cs: "api_hal_vcp_tx packet rounds (drop n buffer) = Some cs"
      and bs: "bs = take n buffer # cs" by (auto simp: Let_def n_def)
    from 2(1) [OF _ n_def _ cs] True obtain rest where "concat cs @ rest = drop n buffer" by auto
    with bs have "concat bs @ rest = take n buffer @ drop n buffer" by simp
    then show ?thesis by (simp only: append_take_drop_id) blast
  next
    case False
    with 2 show ?thesis by (auto simp: Let_def split: if_splits)
  qed
qed (auto split: if_splits)

lemma vcp_tx_complete_if_alive:
  "api_hal_vcp_tx packet rounds buffer = Some bs \<Longrightarrow> list_all fst rounds \<Longrightarrow> concat bs = buffer"
proof (induction packet rounds buffer arbitrary: bs rule: api_hal_vcp_tx.induct)
  case (2 packet is_alive ok rounds buffer)
  show ?case
  proof (cases "0 < length buffer \<and> ok")
    case True
    define n where "n = (if length buffer > packet then packet else length buffer)"
    from True 2(3,4) obtain cs where cs: "api_hal_vcp_tx packet rounds (drop n buffer) = Some cs"
      and bs: "bs = take n buffer # cs" by (auto simp: Let_def n_def)
    from 2(1) [OF _ n_def _ cs] True 2(4) have "concat cs = drop n buffer" by auto
    with bs show ?thesis by simp
  next
    case False
    with 2 show ?thesis by (auto simp: Let_def split: if_splits)
  qed
qed (auto split: if_splits)

text \<open>While the port lives and enough transmissions succeed, the call returns.\<close>

lemma vcp_tx_returns:
  assumes "0 < packet"
  shows "list_all fst rounds \<Longrightarrow> length buffer \<le> length (filter snd rounds) \<Longrightarrow>
     \<exists>bs. api_hal_vcp_tx packet rounds buffer = Some bs"
proof (induction rounds arbitrary: buffer)
  case (Cons r rounds)
  obtain is_alive ok where r: "r = (is_alive, ok)" by (cases r)
  show ?case
  proof (cases "buffer = [] \<or> \<not> ok")
    case True
    with Cons r show ?thesis by (auto simp: Let_def)
  next
    case False
    define n where "n = (if length buffer > packet then packet else length buffer)"
    have "length (drop n buffer) \<le> length (filter snd rounds)"
      using False Cons.prems(2) r assms by (auto simp: n_def)
    moreover have "list_all fst rounds" using Cons.prems(1) by simp
    ultimately obtain bs where "api_hal_vcp_tx packet rounds (drop n buffer) = Some bs"
      using Cons.IH by blast
    with False Cons.prems(1) r show ?thesis by (auto simp: Let_def n_def)
  qed
qed simp

section \<open>Properties\<close>

text \<open>
  C30. The reader of the serial port gets the host's bytes, all of them and in their order, with a start
  mark wherever the line goes up, an end mark wherever the host lowers the line, and nothing else; a
  period that ends because the cable is unplugged has no end mark, and the next one begins with a
  start mark again. This holds for every interleaving of host and reader, as long as the port has not
  flagged an underrun; what was read and what is still in the buffer together are the session.
\<close>

theorem vcp_reads_session:
  assumes "vcp_run es api_hal_vcp_init = (got, v)" and "\<not> vcp_underrun v"
  shows "got @ rx_stream v = session False es"
  using vcp_run_session [OF assms] by (simp add: api_hal_vcp_init_def)

theorem vcp_reads_session_witness:
  "[1, 97] @ [98, 4] = session False [Host_Line 3, Host_Data [97, 98], Read 2, Host_Line 0]"
proof -
  have "vcp_run [Host_Line 3, Host_Data [97, 98], Read 2, Host_Line 0] api_hal_vcp_init =
      ([1, 97], \<lparr>rx_stream = [98, 4], tx_semaphore = True, vcp_alive = False, vcp_underrun = False\<rparr>)"
    by (simp add: api_hal_vcp_init_def vcp_control_line_def vcp_rx_callback_def stream_send_def
        API_HAL_VCP_RX_BUFFER_SIZE_def ascii_soh_def ascii_eot_def api_hal_vcp_rx_with_timeout_def
        Let_def)
  from vcp_reads_session [OF this] show ?thesis by simp
qed

text \<open>
  Unplugging puts no mark into the stream: the reader of a session that was open is not told.
\<close>

lemma unplug_leaves_session_open:
  assumes "vcp_run es api_hal_vcp_init = (got, v)" and "\<not> vcp_underrun v"
  shows "vcp_run (es @ [Host_Gone]) api_hal_vcp_init = (got, vcp_usb_deinit v) \<and>
     session False (es @ [Host_Gone]) = session False es"
proof -
  have "vcp_run (es @ [Host_Gone]) u = (got, vcp_usb_deinit v)" if "vcp_run es u = (got, v)" for u
    using that by (induction es arbitrary: u got) (auto split: prod.splits)
  moreover have "session up (es @ [Host_Gone]) = session up es" for up
    by (induction up es rule: session.induct) simp_all
  ultimately show ?thesis using assms by blast
qed

text \<open>
  With the buffer full the marks are lost like any byte: the host hangs up and the reader of the
  session is not told.
\<close>

lemma vcp_end_mark_lost:
  assumes "length (rx_stream v) = API_HAL_VCP_RX_BUFFER_SIZE" and "vcp_alive v"
  shows "rx_stream (vcp_control_line 0 v) = rx_stream v \<and> \<not> vcp_alive (vcp_control_line 0 v)"
  using assms
  by (simp add: vcp_control_line_def vcp_rx_callback_def stream_send_def Let_def)

end
