(* ===== verification/AppLoader.thy ===== *)
theory AppLoader
  imports FuriThread Hal MString
begin

text \<open>
  The application loader, \<^verbatim>\<open>applications/app-loader/app-loader.c\<close>: one thread instance for all
  applications, started from the menu, from the command line or by \<^verbatim>\<open>app_loader_start\<close>, and the sleep
  counter that is to keep the device awake while an application runs.

  The source has no lock (\<^verbatim>\<open>TODO add mutex for contex\<close>), so requests are modelled in the pieces between
  which other threads may run: the test of the state, the counter, the set-up of the thread, the two
  ends of \<^verbatim>\<open>furi_thread_start\<close>; and several kernel threads may run on the one instance. A change of
  the counter, and an assertion together with the write that follows it, are taken as one step.
  Functions and strings that are passed by pointer are addresses.
\<close>

section \<open>State\<close>

record flipper_application =
  app_callback :: "nat option"
  app_name :: "string option"
  app_stack_size :: nat

text \<open>
  \<^verbatim>\<open>AppLoaderState\<close>, with the thread instance it points to, and the sleep counter that the loader
  shares with the rest of the firmware.
\<close>

record app_loader =
  loader_instance :: furi_thread
  current_app :: "flipper_application option"
  loader_args :: string
  loader_power :: api_hal_power

text \<open>Addresses: the state callback, the loader's state, the characters of \<^verbatim>\<open>state.args\<close>.\<close>

definition loader_callback_addr :: nat where "loader_callback_addr = 1"
definition loader_state_addr :: nat where "loader_state_addr = 2"
definition loader_args_addr :: nat where "loader_args_addr = 3"

section \<open>Operations\<close>

text \<open>What the three ways to start share.\<close>

definition loader_set_up :: "bool \<Rightarrow> flipper_application \<Rightarrow> furi_thread \<Rightarrow> furi_thread res" where
  "loader_set_up dbg app th =
     bindE (furi_thread_set_name dbg (app_name app) th) (furi_thread_set_stack_size dbg (app_stack_size app))"

text \<open>
  The callback of the menu: the test comes first, and gives the application to go on with; then the
  counter; then the set-up. The call of \<^verbatim>\<open>furi_thread_start\<close> follows below.
\<close>

definition app_loader_menu_test ::
    "bool \<Rightarrow> flipper_application option \<Rightarrow> app_loader \<Rightarrow> flipper_application option res" where
  "app_loader_menu_test dbg ctx al =
     furi_assert dbg (ctx \<noteq> None)
       (case ctx of
          None \<Rightarrow> Inl Null_Pointer
        | Some app \<Rightarrow>
            furi_assert dbg (app_callback app \<noteq> None)
              (furi_assert dbg (app_name app \<noteq> None)
                (Inr (if furi_thread_get_state (loader_instance al) \<noteq> FuriThreadStateStopped
                      then None else Some app))))"

definition app_loader_menu_set_up :: "bool \<Rightarrow> flipper_application \<Rightarrow> app_loader \<Rightarrow> app_loader res" where
  "app_loader_menu_set_up dbg app al0 =
     (let al = al0\<lparr>current_app := Some app\<rparr>
      in bindE (loader_set_up dbg app (loader_instance al)) (\<lambda>th1.
         bindE (furi_thread_set_callback dbg (app_callback app) th1) (\<lambda>th2.
           Inr (al\<lparr>loader_instance := th2\<rparr>))))"

text \<open>The command does the same, apart from where its messages go.\<close>

definition app_loader_cli_test ::
    "bool \<Rightarrow> flipper_application option \<Rightarrow> app_loader \<Rightarrow> flipper_application option res" where
  "app_loader_cli_test = app_loader_menu_test"

definition app_loader_cli_set_up :: "bool \<Rightarrow> flipper_application \<Rightarrow> app_loader \<Rightarrow> app_loader res" where
  "app_loader_cli_set_up = app_loader_menu_set_up"

text \<open>
  \<^verbatim>\<open>app_loader_start\<close> looks the application up by its name, and does not touch the counter. \<open>apps\<close>
  is the table \<^verbatim>\<open>FLIPPER_APPS\<close>, made by the build.
\<close>

definition app_loader_start_test ::
    "flipper_application list \<Rightarrow> string \<Rightarrow> app_loader \<Rightarrow> flipper_application option res" where
  "app_loader_start_test apps name al =
     (case find (\<lambda>app. app_name app = Some name) apps of
        None \<Rightarrow> Inr None
      | Some app \<Rightarrow>
          Inr (if furi_thread_get_state (loader_instance al) \<noteq> FuriThreadStateStopped
               then None else Some app))"

definition app_loader_start_set_up ::
    "bool \<Rightarrow> flipper_application \<Rightarrow> string option \<Rightarrow> app_loader \<Rightarrow> app_loader res" where
  "app_loader_start_set_up dbg app args al0 =
     (let al = al0\<lparr>current_app := Some app,
                   loader_args := (case args of None \<Rightarrow> [] | Some s \<Rightarrow> string_strim s)\<rparr>
      in bindE (loader_set_up dbg app (loader_instance al)) (\<lambda>th1.
         bindE (furi_thread_set_context dbg (Some loader_args_addr) th1) (\<lambda>th2.
         bindE (furi_thread_set_callback dbg (app_callback app) th2) (\<lambda>th3.
           Inr (al\<lparr>loader_instance := th3\<rparr>)))))"

definition app_loader_thread_state_callback ::
    "furi_thread_state \<Rightarrow> api_hal_power \<Rightarrow> api_hal_power" where
  "app_loader_thread_state_callback st p =
     (if st = FuriThreadStateStopped then api_hal_power_insomnia_exit p else p)"

text \<open>The start of the task: the instance, its state callback and that callback's context.\<close>

definition app_loader_init :: "bool \<Rightarrow> api_hal_power \<Rightarrow> app_loader res" where
  "app_loader_init dbg p =
     bindE (furi_thread_set_state_context dbg (Some loader_state_addr) furi_thread_alloc) (\<lambda>th1.
     bindE (furi_thread_set_state_callback dbg (Some loader_callback_addr) th1) (\<lambda>th2.
       Inr \<lparr>loader_instance = th2, current_app = None, loader_args = [], loader_power = p\<rparr>))"

text \<open>The command names that the task registers, in the order of the tables.\<close>

definition loader_cli_names :: "string list \<Rightarrow> string list" where
  "loader_cli_names names = map (\<lambda>n. ''app_'' @ n) names"

section \<open>Requesters, kernel threads and their interleavings\<close>

datatype loader_request =
    From_Menu flipper_application
  | From_Cli flipper_application
  | By_Name string "string option"

definition request_test ::
    "bool \<Rightarrow> flipper_application list \<Rightarrow> loader_request \<Rightarrow> app_loader \<Rightarrow> flipper_application option res" where
  "request_test dbg apps req al =
     (case req of
        From_Menu app \<Rightarrow> app_loader_menu_test dbg (Some app) al
      | From_Cli app \<Rightarrow> app_loader_cli_test dbg (Some app) al
      | By_Name name args \<Rightarrow> app_loader_start_test apps name al)"

definition request_enter :: "loader_request \<Rightarrow> app_loader \<Rightarrow> app_loader" where
  "request_enter req al =
     (case req of
        By_Name name args \<Rightarrow> al
      | _ \<Rightarrow> al\<lparr>loader_power := api_hal_power_insomnia_enter (loader_power al)\<rparr>)"

definition request_set_up :: "bool \<Rightarrow> loader_request \<Rightarrow> flipper_application \<Rightarrow> app_loader \<Rightarrow> app_loader res" where
  "request_set_up dbg req app al =
     (case req of
        From_Menu _ \<Rightarrow> app_loader_menu_set_up dbg app al
      | From_Cli _ \<Rightarrow> app_loader_cli_set_up dbg app al
      | By_Name name args \<Rightarrow> app_loader_start_set_up dbg app args al)"

text \<open>
  A thread that asks is idle, or somewhere in its request: past the test, past the counter, with the
  thread set up, or inside \<^verbatim>\<open>osThreadNew\<close>, before or after the kernel has made the thread.
\<close>

datatype request_phase =
    Idle
  | Tested loader_request flipper_application
  | Entered loader_request flipper_application
  | Ready loader_request
  | Creating
  | Created_Thread

text \<open>
  The loader with the threads that ask, and the kernel threads of the instance: those whose body has
  not begun, and those that run their application. \<open>named_starts\<close> counts, for the statements only,
  the starts by name.
\<close>

record loader_world =
  the_loader :: app_loader
  requesters :: "request_phase list"
  fresh :: nat
  bodies :: nat
  named_starts :: nat

definition loader_world_init :: "app_loader \<Rightarrow> nat \<Rightarrow> loader_world" where
  "loader_world_init al k =
     \<lparr>the_loader = al, requesters = replicate k Idle, fresh = 0, bodies = 0, named_starts = 0\<rparr>"

text \<open>Every report of the thread's state reaches the callback.\<close>

definition report :: "state_call list \<Rightarrow> furi_thread \<Rightarrow> app_loader \<Rightarrow> app_loader" where
  "report cs th al =
     al\<lparr>loader_instance := th,
        loader_power := fold (\<lambda>(_, st, _). app_loader_thread_state_callback st) cs (loader_power al)\<rparr>"

datatype loader_event =
    Ask nat loader_request
  | Enter nat
  | Set_Up nat
  | Launch nat
  | Spawn nat
  | Start_Returns nat nat
  | No_Thread nat
  | Body_Begins
  | Body_Ends "32 word"

definition phase_of :: "loader_world \<Rightarrow> nat \<Rightarrow> request_phase option" where
  "phase_of w i = (if i < length (requesters w) then Some (requesters w ! i) else None)"

definition put_phase :: "nat \<Rightarrow> request_phase \<Rightarrow> loader_world \<Rightarrow> loader_world" where
  "put_phase i ph w = w\<lparr>requesters := (requesters w)[i := ph]\<rparr>"

definition by_name :: "loader_request \<Rightarrow> nat" where
  "by_name req = (case req of By_Name _ _ \<Rightarrow> 1 | _ \<Rightarrow> 0)"

text \<open>
  One step. An event that is not possible where it comes changes nothing; a failed assertion ends
  the run.
\<close>

definition loader_step ::
    "bool \<Rightarrow> flipper_application list \<Rightarrow> loader_world \<Rightarrow> loader_event \<Rightarrow> (unit \<times> loader_world) res" where
  "loader_step dbg apps w e =
     (let al = the_loader w; th = loader_instance al in
      case e of
        Ask i req \<Rightarrow>
          (case phase_of w i of
             Some Idle \<Rightarrow>
               bindE (request_test dbg apps req al) (\<lambda>r.
                 (case r of
                    None \<Rightarrow> Inr ((), w)
                  | Some app \<Rightarrow> Inr ((), put_phase i (Tested req app) w)))
           | _ \<Rightarrow> Inr ((), w))
      | Enter i \<Rightarrow>
          (case phase_of w i of
             Some (Tested req app) \<Rightarrow>
               Inr ((), put_phase i (Entered req app) (w\<lparr>the_loader := request_enter req al\<rparr>))
           | _ \<Rightarrow> Inr ((), w))
      | Set_Up i \<Rightarrow>
          (case phase_of w i of
             Some (Entered req app) \<Rightarrow>
               bindE (request_set_up dbg req app al) (\<lambda>al1.
                 Inr ((), put_phase i (Ready req) (w\<lparr>the_loader := al1\<rparr>)))
           | _ \<Rightarrow> Inr ((), w))
      | Launch i \<Rightarrow>
          (case phase_of w i of
             Some (Ready req) \<Rightarrow>
               bindE (thread_start_begin dbg th) (\<lambda>(cs, th1).
                 Inr ((), put_phase i Creating
                   (w\<lparr>the_loader := report cs th1 al, named_starts := named_starts w + by_name req\<rparr>)))
           | _ \<Rightarrow> Inr ((), w))
      | Spawn i \<Rightarrow>
          (case phase_of w i of
             Some Creating \<Rightarrow> Inr ((), put_phase i Created_Thread (w\<lparr>fresh := fresh w + 1\<rparr>))
           | _ \<Rightarrow> Inr ((), w))
      | Start_Returns i k \<Rightarrow>
          (case phase_of w i of
             Some Created_Thread \<Rightarrow>
               bindE (thread_start_end dbg (Some k) th) (\<lambda>((b, cs), th1).
                 Inr ((), put_phase i Idle (w\<lparr>the_loader := report cs th1 al\<rparr>)))
           | _ \<Rightarrow> Inr ((), w))
      | No_Thread i \<Rightarrow>
          (case phase_of w i of
             Some Creating \<Rightarrow>
               bindE (thread_start_end dbg None th) (\<lambda>((b, cs), th1).
                 Inr ((), put_phase i Idle (w\<lparr>the_loader := report cs th1 al\<rparr>)))
           | _ \<Rightarrow> Inr ((), w))
      | Body_Begins \<Rightarrow>
          (if fresh w = 0 then Inr ((), w)
           else bindE (thread_body_begin dbg th) (\<lambda>(cs, th1).
             Inr ((), w\<lparr>the_loader := report cs th1 al, fresh := fresh w - 1, bodies := bodies w + 1\<rparr>)))
      | Body_Ends r \<Rightarrow>
          (if bodies w = 0 then Inr ((), w)
           else bindE (thread_body_end dbg r th) (\<lambda>(cs, th1).
             Inr ((), w\<lparr>the_loader := report cs th1 al, bodies := bodies w - 1\<rparr>))))"

text \<open>Requests that have entered the counter and whose thread the kernel has not made yet.\<close>

fun phase_weight :: "request_phase \<Rightarrow> u32" where
  "phase_weight (Entered req app) = 1 - of_nat (by_name req)"
| "phase_weight (Ready req) = 1 - of_nat (by_name req)"
| "phase_weight Creating = 1"
| "phase_weight _ = 0"

definition on_the_way :: "loader_world \<Rightarrow> u32" where
  "on_the_way w = (\<Sum>ph\<leftarrow>requesters w. phase_weight ph)"

definition loader_inv :: "u32 \<Rightarrow> loader_world \<Rightarrow> bool" where
  "loader_inv base w \<longleftrightarrow>
     thread_state_callback (loader_instance (the_loader w)) = Some loader_callback_addr \<and>
     insomnia (loader_power (the_loader w)) =
       base + on_the_way w + of_nat (fresh w + bodies w) - of_nat (named_starts w)"

section \<open>Lemmas\<close>

lemmas loader_op_defs =
  app_loader_menu_test_def app_loader_menu_set_up_def app_loader_cli_test_def app_loader_cli_set_up_def
  app_loader_start_test_def app_loader_start_set_up_def loader_set_up_def
  furi_thread_set_name_def furi_thread_set_stack_size_def furi_thread_get_state_def
  furi_thread_set_callback_def furi_thread_set_context_def

lemma sum_list_replaced:
  "i < length xs \<Longrightarrow> sum_list (map f (xs[i := x])) = sum_list (map f xs) + f x - (f (xs ! i) :: 'a::ab_group_add)"
proof (induction xs arbitrary: i)
  case (Cons y ys)
  then show ?case by (cases i) (auto simp: algebra_simps)
qed simp

lemma on_the_way_put_phase:
  assumes "phase_of w i = Some ph0"
  shows "on_the_way (put_phase i ph w) = on_the_way w + phase_weight ph - phase_weight ph0"
  using assms by (auto simp: on_the_way_def put_phase_def phase_of_def sum_list_replaced split: if_splits)

lemma put_phase_simps [simp]:
  "the_loader (put_phase i ph w) = the_loader w"
  "fresh (put_phase i ph w) = fresh w"
  "bodies (put_phase i ph w) = bodies w"
  "named_starts (put_phase i ph w) = named_starts w"
  by (simp_all add: put_phase_def)

lemma on_the_way_update [simp]:
  "on_the_way (w\<lparr>the_loader := al\<rparr>) = on_the_way w"
  "on_the_way (w\<lparr>fresh := n\<rparr>) = on_the_way w"
  "on_the_way (w\<lparr>bodies := n\<rparr>) = on_the_way w"
  "on_the_way (w\<lparr>named_starts := n\<rparr>) = on_the_way w"
  by (simp_all add: on_the_way_def)

lemma phase_of_update [simp]:
  "phase_of (w\<lparr>the_loader := al\<rparr>) i = phase_of w i"
  "phase_of (w\<lparr>fresh := n\<rparr>) i = phase_of w i"
  "phase_of (w\<lparr>named_starts := n\<rparr>) i = phase_of w i"
  by (simp_all add: phase_of_def)

lemma report_simps [simp]:
  "loader_instance (report cs th al) = th"
  "loader_power (report [] th al) = loader_power al"
  "insomnia (loader_power (report [(f, st, c)] th al)) =
     insomnia (loader_power al) - (if st = FuriThreadStateStopped then 1 else 0)"
  by (simp_all add: report_def app_loader_thread_state_callback_def api_hal_power_insomnia_exit_def)

text \<open>What the pieces do to the counter and to the state callback.\<close>

lemma request_enter_counts:
  "insomnia (loader_power (request_enter req al)) = insomnia (loader_power al) + 1 - of_nat (by_name req)"
  "loader_instance (request_enter req al) = loader_instance al"
  by (auto simp: request_enter_def by_name_def api_hal_power_insomnia_enter_def split: loader_request.splits)

lemma request_set_up_keeps:
  assumes "request_set_up dbg req app al = Inr al1"
  shows "loader_power al1 = loader_power al \<and>
     thread_state (loader_instance al1) = thread_state (loader_instance al) \<and>
     thread_state_callback (loader_instance al1) = thread_state_callback (loader_instance al)"
  using assms
  by (cases req)
    (auto simp: request_set_up_def loader_op_defs furi_assert_eq_Inr bindE_eq_Inr Let_def)

lemma request_test_stopped:
  "request_test dbg apps req al = Inr (Some app) \<Longrightarrow> thread_state (loader_instance al) = FuriThreadStateStopped"
  by (cases req)
    (auto simp: request_test_def loader_op_defs furi_assert_eq_Inr split: option.splits if_splits)

lemma start_begin_reports:
  assumes "thread_start_begin dbg th = Inr (cs, th1)" and "thread_state_callback th = Some f"
  shows "cs = [(f, FuriThreadStateStarting, thread_state_context th)] \<and>
     thread_state th1 = FuriThreadStateStarting \<and> thread_state_callback th1 = Some f"
  using assms by (auto simp: thread_op_defs furi_assert_eq_Inr)

lemma start_end_reports:
  assumes "thread_start_end dbg new th = Inr ((b, cs), th1)" and "thread_state_callback th = Some f"
  shows "cs = (if new = None then [(f, FuriThreadStateStopped, thread_state_context th)] else []) \<and>
     thread_state th1 = (if new = None then FuriThreadStateStopped else thread_state th) \<and>
     thread_state_callback th1 = Some f"
  using assms by (auto simp: thread_op_defs furi_assert_eq_Inr Let_def split: if_splits)

lemma body_begin_reports:
  assumes "thread_body_begin dbg th = Inr (cs, th1)" and "thread_state_callback th = Some f"
  shows "cs = [(f, FuriThreadStateRunning, thread_state_context th)] \<and>
     thread_state th1 = FuriThreadStateRunning \<and> thread_state_callback th1 = Some f"
  using assms by (auto simp: thread_op_defs furi_assert_eq_Inr)

lemma body_end_reports:
  assumes "thread_body_end dbg r th = Inr (cs, th1)" and "thread_state_callback th = Some f"
  shows "cs = [(f, FuriThreadStateStopped, thread_state_context th)] \<and>
     thread_state th1 = FuriThreadStateStopped \<and> thread_state_callback th1 = Some f"
  using assms by (auto simp: thread_op_defs furi_assert_eq_Inr Let_def)

lemmas reports = start_begin_reports start_end_reports body_begin_reports body_end_reports

lemma loader_inv_step:
  assumes "loader_inv base w" and "loader_step dbg apps w e = Inr (u, w')"
  shows "loader_inv base w'"
proof -
  note cb = conjunct1 [OF assms(1) [unfolded loader_inv_def]]
  show ?thesis
    using assms
    by (cases e)
      (auto simp: loader_step_def loader_inv_def Let_def bindE_eq_Inr on_the_way_put_phase
        request_enter_counts algebra_simps
        split: option.splits request_phase.splits if_splits
        dest!: request_set_up_keeps start_begin_reports [OF _ cb] start_end_reports [OF _ cb]
          body_begin_reports [OF _ cb] body_end_reports [OF _ cb])
qed

lemma app_loader_init_inv: "app_loader_init dbg p = Inr al \<Longrightarrow> loader_inv (insomnia p) (loader_world_init al k)"
  by (auto simp: app_loader_init_def furi_thread_set_state_context_def on_the_way_def
      furi_thread_set_state_callback_def furi_thread_alloc_def loader_inv_def loader_world_init_def
      map_replicate_const sum_list_replicate)

lemma loader_inv_run:
  assumes "app_loader_init dbg p = Inr al" and "runE (loader_step dbg apps) (loader_world_init al k) es = Inr (us, w)"
  shows "loader_inv (insomnia p) w"
  by (rule runE_invariant [where I = "loader_inv (insomnia p)", OF _ app_loader_init_inv [OF assms(1)] assms(2)])
    (rule loader_inv_step)

text \<open>Requests that come from one thread only. The applications have a callback and a name.\<close>

definition application_ok :: "flipper_application \<Rightarrow> bool" where
  "application_ok app \<longleftrightarrow> app_callback app \<noteq> None \<and> app_name app \<noteq> None"

definition event_ok :: "loader_event \<Rightarrow> bool" where
  "event_ok e =
     (case e of Ask i (From_Menu app) \<Rightarrow> application_ok app | Ask i (From_Cli app) \<Rightarrow> application_ok app | _ \<Rightarrow> True)"

fun single_inv :: "request_phase list \<Rightarrow> furi_thread \<Rightarrow> nat \<Rightarrow> nat \<Rightarrow> bool" where
  "single_inv [Tested req app] th n m \<longleftrightarrow>
     n = 0 \<and> m = 0 \<and> thread_state th = FuriThreadStateStopped \<and> app_callback app \<noteq> None"
| "single_inv [Entered req app] th n m \<longleftrightarrow>
     n = 0 \<and> m = 0 \<and> thread_state th = FuriThreadStateStopped \<and> app_callback app \<noteq> None"
| "single_inv [Ready req] th n m \<longleftrightarrow>
     n = 0 \<and> m = 0 \<and> thread_state th = FuriThreadStateStopped \<and> thread_callback th \<noteq> None"
| "single_inv [Creating] th n m \<longleftrightarrow> n = 0 \<and> m = 0 \<and> thread_state th = FuriThreadStateStarting"
| "single_inv [_] th n m \<longleftrightarrow>
     n = 0 \<and> m = 0 \<and> thread_state th = FuriThreadStateStopped \<or>
     n = 1 \<and> m = 0 \<and> thread_state th = FuriThreadStateStarting \<or>
     n = 0 \<and> m = 1 \<and> thread_state th = FuriThreadStateRunning"
| "single_inv _ th n m \<longleftrightarrow> False"

abbreviation world_single :: "loader_world \<Rightarrow> bool" where
  "world_single w \<equiv> single_inv (requesters w) (loader_instance (the_loader w)) (fresh w) (bodies w)"

lemma single_inv_one:
  assumes "single_inv xs th n m"
  obtains ph where "xs = [ph]"
  using assms by (cases "(xs, th, n, m)" rule: single_inv.cases) auto

lemma request_test_ok:
  assumes "event_ok (Ask i req)" and "\<forall>app\<in>set apps. application_ok app"
  shows "(thread_state (loader_instance al) \<noteq> FuriThreadStateStopped \<longrightarrow> request_test dbg apps req al = Inr None) \<and>
     (\<exists>r. request_test dbg apps req al = Inr r \<and> (\<forall>app. r = Some app \<longrightarrow> app_callback app \<noteq> None))"
  using assms
  by (cases req)
    (auto simp: event_ok_def application_ok_def request_test_def loader_op_defs furi_assert_def
      split: option.splits dest!: find_Some_iff [THEN iffD1] intro: nth_mem)

lemma request_set_up_ok:
  assumes "thread_state (loader_instance al) = FuriThreadStateStopped" and "app_callback app \<noteq> None"
  shows "\<exists>al1. request_set_up dbg req app al = Inr al1 \<and>
     thread_state (loader_instance al1) = FuriThreadStateStopped \<and> thread_callback (loader_instance al1) \<noteq> None"
  using assms
  by (cases req) (auto simp: request_set_up_def loader_op_defs furi_assert_def Let_def)

lemma single_step:
  assumes "world_single w" and "event_ok e" and "\<forall>app\<in>set apps. application_ok app"
  shows "\<exists>w'. loader_step dbg apps w e = Inr ((), w') \<and> world_single w'"
proof -
  from single_inv_one [OF assms(1)] obtain ph where ph: "requesters w = [ph]" by blast
  show ?thesis
  proof (cases e)
    case (Ask i req)
    with request_test_ok [OF assms(2)[unfolded Ask] assms(3), of "the_loader w" dbg] assms(1) ph show ?thesis
      by (cases ph)
        (auto simp: loader_step_def Let_def phase_of_def put_phase_def split: option.splits)
  next
    case (Set_Up i)
    with assms(1) ph show ?thesis
      by (cases ph)
        (auto simp: loader_step_def Let_def phase_of_def put_phase_def
          dest: request_set_up_ok [where dbg = dbg and req = "case ph of Entered req app \<Rightarrow> req"])
  next
    case (Start_Returns i k)
    with assms(1) ph show ?thesis
      by (cases ph) (auto simp: loader_step_def Let_def phase_of_def put_phase_def thread_op_defs split: option.splits)
  qed (use assms(1) ph in \<open>cases ph; auto simp: loader_step_def Let_def phase_of_def put_phase_def thread_op_defs
      furi_assert_def request_enter_counts split: option.splits\<close>)+
qed

lemma single_run:
  assumes "world_single w" and "list_all event_ok es" and "list_all application_ok apps"
  shows "\<exists>us w'. runE (loader_step dbg apps) w es = Inr (us, w') \<and> world_single w'"
  using assms(1,2)
proof (induction es arbitrary: w)
  case (Cons e es)
  then obtain w1 where 1: "loader_step dbg apps w e = Inr ((), w1)" "world_single w1"
    using single_step [OF Cons.prems(1), of e apps dbg] assms(3) by (auto simp: list_all_iff)
  with Cons.IH [OF 1(2)] Cons.prems(2) show ?case by auto
qed simp

section \<open>Properties\<close>


text \<open>
  Two requests that overlap, in a build without assertions: both pass the test before one of them
  has started its thread, and two applications run at once.
\<close>

definition demo_app :: flipper_application where
  "demo_app = \<lparr>app_callback = Some 9, app_name = Some ''irda'', app_stack_size = 1024\<rparr>"

definition demo_instance :: furi_thread where
  "demo_instance = furi_thread_alloc\<lparr>thread_state_context := Some loader_state_addr,
     thread_state_callback := Some loader_callback_addr\<rparr>"

definition demo_loader :: app_loader where
  "demo_loader = \<lparr>loader_instance = demo_instance, current_app = None, loader_args = [],
     loader_power = api_hal_power_state\<rparr>"

definition overlap_events :: "loader_event list" where
  "overlap_events =
     [Ask 0 (From_Menu demo_app), Ask 1 (From_Cli demo_app), Enter 0, Enter 1, Set_Up 0, Set_Up 1,
      Launch 0, Spawn 0, Body_Begins, Launch 1, Spawn 1, Body_Begins]"

lemma demo_init: "app_loader_init True api_hal_power_state = Inr demo_loader"
  by code_simp

lemma overlapping_requests_start_two:
  "case runE (loader_step False [demo_app]) (loader_world_init demo_loader 2) overlap_events of
     Inr (us, w) \<Rightarrow> bodies w = 2 \<and> insomnia (loader_power (the_loader w)) = 2
   | Inl _ \<Rightarrow> False"
  by code_simp

text \<open>With assertions, the same requests stop the firmware.\<close>

lemma overlapping_requests_assert:
  "runE (loader_step True [demo_app]) (loader_world_init demo_loader 2) overlap_events = Inl Assert_Failed"
  by code_simp

definition named_events :: "loader_event list" where
  "named_events =
     [Ask 0 (By_Name ''irda'' None), Enter 0, Set_Up 0, Launch 0, Spawn 0, Body_Begins,
      Start_Returns 0 5, Body_Ends 7]"


text \<open>
  C40. Requests that come one at a time: as long as one thread at most is in a request, whatever the
  kernel and the applications do meanwhile, no assertion fails, at most one application is live, and
  the instance says Running exactly while one runs. (Nothing in the loader makes requests come one at
  a time: where two overlap, two applications run at once.) The applications asked for have a callback
  and a name, as every entry of the tables does.
\<close>

theorem loader_serial_requests:
  assumes "app_loader_init dbg p = Inr al"
    and "list_all event_ok es" and "list_all application_ok apps"
  shows "\<exists>us w. runE (loader_step dbg apps) (loader_world_init al 1) es = Inr (us, w) \<and>
     fresh w + bodies w \<le> 1 \<and>
     (thread_state (loader_instance (the_loader w)) = FuriThreadStateRunning \<longleftrightarrow> bodies w = 1)"
proof -
  have "world_single (loader_world_init al 1)"
    using assms(1)
    by (auto simp: app_loader_init_def furi_thread_set_state_context_def furi_thread_alloc_def
        furi_thread_set_state_callback_def loader_world_init_def)
  from single_run [OF this assms(2,3), of dbg] obtain us w where
    r: "runE (loader_step dbg apps) (loader_world_init al 1) es = Inr (us, w)" and s: "world_single w"
    by blast
  obtain ph where "requesters w = [ph]" using single_inv_one [OF s] by blast
  with s have "fresh w + bodies w \<le> 1 \<and>
      (thread_state (loader_instance (the_loader w)) = FuriThreadStateRunning \<longleftrightarrow> bodies w = 1)"
    by (cases ph) auto
  with r show ?thesis by blast
qed

theorem loader_serial_requests_witness:
  "\<exists>us w. runE (loader_step True [demo_app]) (loader_world_init demo_loader 1)
       (named_events @ [Ask 0 (From_Menu demo_app), Enter 0, Set_Up 0, Launch 0, Spawn 0,
          Ask 0 (From_Cli demo_app), Start_Returns 0 6, Ask 0 (From_Cli demo_app), Body_Begins]) = Inr (us, w) \<and>
     fresh w + bodies w \<le> 1 \<and>
     (thread_state (loader_instance (the_loader w)) = FuriThreadStateRunning \<longleftrightarrow> bodies w = 1)"
  by (rule loader_serial_requests [OF demo_init])
    (simp_all add: named_events_def event_ok_def application_ok_def demo_app_def)

text \<open>
  Once an application was started by name and nothing lives or is on its way, a device that could
  sleep before cannot any more: the counter has wrapped around below zero.
\<close>

lemma no_sleep_after_named_start:
  assumes "app_loader_init dbg p = Inr al" and "insomnia p = 0"
    and "runE (loader_step dbg apps) (loader_world_init al k) es = Inr (us, w)"
    and "named_starts w = 1" and "on_the_way w = 0" and "fresh w + bodies w = 0"
  shows "insomnia (loader_power (the_loader w)) = - 1 \<and>
     \<not> api_hal_power_sleep_available (loader_power (the_loader w))"
  using loader_inv_run [OF assms(1,3)] assms(2,4-6)
  by (simp add: loader_inv_def api_hal_power_sleep_available_def)

text \<open>
  The context of the thread is set by \<^verbatim>\<open>app_loader_start\<close> only: an application from the menu gets the
  arguments of the last application started by name.
\<close>

lemma menu_keeps_arguments:
  assumes "app_loader_menu_set_up dbg app al = Inr al1"
  shows "thread_context (loader_instance al1) = thread_context (loader_instance al) \<and>
     loader_args al1 = loader_args al"
  using assms by (auto simp: loader_op_defs furi_assert_eq_Inr bindE_eq_Inr Let_def)

lemma start_sets_arguments:
  assumes "app_loader_start_set_up dbg app args al = Inr al1"
  shows "thread_context (loader_instance al1) = Some loader_args_addr \<and>
     loader_args al1 = (case args of None \<Rightarrow> [] | Some s \<Rightarrow> string_strim s)"
  using assms
  by (auto simp: loader_op_defs furi_assert_eq_Inr bindE_eq_Inr Let_def split: option.splits)

end
