(* ===== verification/Radio.thy ===== *)
theory Radio
  imports Complex_Main Prelude
begin

text \<open>
  The sub-gigahertz radio: the driver of the CC1101, \<^verbatim>\<open>lib/drivers/cc1101.c\<close>, and its user
  \<^verbatim>\<open>api-hal/api-hal-subghz.c\<close>.

  The chip is reached through functions over a state \<open>'d\<close>: the chip-select line, the wait for the
  data line to go low, a transfer in both directions, a transfer out, a delay. A status byte is
  the byte received; \<^verbatim>\<open>CHIP_RDYn\<close> is its bit 7. The C library's \<^verbatim>\<open>assert\<close> is, like \<^verbatim>\<open>furi_assert\<close>,
  compiled into the debug build (\<open>dbg\<close>).
\<close>

unbundle bit_operations_syntax

section \<open>The chip\<close>

record 'd spi_device =
  spi_select :: "bool \<Rightarrow> 'd \<Rightarrow> 'd"  \<comment> \<open>the level of the chip-select line\<close>
  spi_wait_ready :: "'d \<Rightarrow> 'd"
  spi_trx :: "u8 list \<Rightarrow> 'd \<Rightarrow> u8 list \<times> 'd"
  spi_tx :: "u8 list \<Rightarrow> 'd \<Rightarrow> 'd"
  spi_delay :: "u32 \<Rightarrow> 'd \<Rightarrow> 'd"
  spi_antenna :: "bool \<Rightarrow> 'd \<Rightarrow> 'd"  \<comment> \<open>the level of the antenna switch\<close>

definition CC1101_QUARTZ :: nat where "CC1101_QUARTZ = 26000000"
definition CC1101_READ :: u8 where "CC1101_READ = push_bit 7 1"
definition CC1101_BURST :: u8 where "CC1101_BURST = push_bit 6 1"
definition CC1101_IOCFG2 :: u8 where "CC1101_IOCFG2 = 0x00"
definition CC1101_FSCTRL0 :: u8 where "CC1101_FSCTRL0 = 0x0C"
definition CC1101_FREQ2 :: u8 where "CC1101_FREQ2 = 0x0D"
definition CC1101_FREQ1 :: u8 where "CC1101_FREQ1 = 0x0E"
definition CC1101_FREQ0 :: u8 where "CC1101_FREQ0 = 0x0F"
definition CC1101_PATABLE :: u8 where "CC1101_PATABLE = 0x3E"
definition CC1101_FIFO :: u8 where "CC1101_FIFO = 0x3F"
definition CC1101_IOCFG_INV :: u8 where "CC1101_IOCFG_INV = push_bit 6 1"
definition CC1101IocfgHW :: u8 where "CC1101IocfgHW = 0x2F"

datatype cc1101_strobes = SRES | SCAL | SRX | STX | SIDLE | SPWD | SFRX | SFTX

fun strobe_code :: "cc1101_strobes \<Rightarrow> u8" where
  "strobe_code SRES = 0x30"
| "strobe_code SCAL = 0x33"
| "strobe_code SRX = 0x34"
| "strobe_code STX = 0x35"
| "strobe_code SIDLE = 0x36"
| "strobe_code SPWD = 0x39"
| "strobe_code SFRX = 0x3A"
| "strobe_code SFTX = 0x3B"

definition chip_rdyn :: "u8 \<Rightarrow> bool" where "chip_rdyn status = bit status 7"

text \<open>One transaction: select, wait, transfer, release. What was not transferred of the answer is 0.\<close>

definition cc1101_transaction :: "'d spi_device \<Rightarrow> u8 list \<Rightarrow> 'd \<Rightarrow> u8 list \<times> 'd" where
  "cc1101_transaction dev tx d0 =
     (let d1 = spi_wait_ready dev (spi_select dev False d0);
          (rx, d2) = spi_trx dev tx d1
      in (rx, spi_select dev True d2))"

section \<open>Registers and commands\<close>

definition cc1101_strobe :: "bool \<Rightarrow> 'd spi_device \<Rightarrow> u8 \<Rightarrow> 'd \<Rightarrow> (u8 \<times> 'd) res" where
  "cc1101_strobe dbg dev strobe d =
     (case cc1101_transaction dev [strobe] d of
        (rx, d1) \<Rightarrow> furi_assert dbg (\<not> chip_rdyn (rx ! 0)) (Inr (rx ! 0, d1)))"

definition cc1101_write_reg :: "bool \<Rightarrow> 'd spi_device \<Rightarrow> u8 \<Rightarrow> u8 \<Rightarrow> 'd \<Rightarrow> (u8 \<times> 'd) res" where
  "cc1101_write_reg dbg dev reg data d =
     (case cc1101_transaction dev [reg, data] d of
        (rx, d1) \<Rightarrow>
          furi_assert dbg (\<not> chip_rdyn (rx ! 0) \<and> \<not> chip_rdyn (rx ! 1)) (Inr (rx ! 1, d1)))"

definition cc1101_read_reg :: "bool \<Rightarrow> 'd spi_device \<Rightarrow> u8 \<Rightarrow> 'd \<Rightarrow> ((u8 \<times> u8) \<times> 'd) res" where
  "cc1101_read_reg dbg dev reg d =
     (case cc1101_transaction dev [reg OR CC1101_READ, 0] d of
        (rx, d1) \<Rightarrow> furi_assert dbg (\<not> chip_rdyn (rx ! 0)) (Inr ((rx ! 0, rx ! 1), d1)))"

definition cc1101_get_status :: "bool \<Rightarrow> 'd spi_device \<Rightarrow> u8 \<Rightarrow> 'd \<Rightarrow> (u8 \<times> 'd) res" where
  "cc1101_get_status dbg dev reg d =
     bindE (cc1101_read_reg dbg dev (reg OR CC1101_BURST) d) (\<lambda>((_, data), d1). Inr (data, d1))"

definition cc1101_get_partnumber :: "bool \<Rightarrow> 'd spi_device \<Rightarrow> 'd \<Rightarrow> (u8 \<times> 'd) res" where
  "cc1101_get_partnumber dbg dev = cc1101_get_status dbg dev 0x30"

definition cc1101_get_version :: "bool \<Rightarrow> 'd spi_device \<Rightarrow> 'd \<Rightarrow> (u8 \<times> 'd) res" where
  "cc1101_get_version dbg dev = cc1101_get_status dbg dev 0x31"

definition cc1101_get_rssi :: "bool \<Rightarrow> 'd spi_device \<Rightarrow> 'd \<Rightarrow> (u8 \<times> 'd) res" where
  "cc1101_get_rssi dbg dev = cc1101_get_status dbg dev 0x34"

definition cc1101_command :: "bool \<Rightarrow> 'd spi_device \<Rightarrow> cc1101_strobes \<Rightarrow> 'd \<Rightarrow> 'd res" where
  "cc1101_command dbg dev c d =
     bindE (cc1101_strobe dbg dev (strobe_code c) d) (\<lambda>(_, d1). Inr d1)"

definition cc1101_reset :: "bool \<Rightarrow> 'd spi_device \<Rightarrow> 'd \<Rightarrow> 'd res" where
  "cc1101_reset dbg dev d0 =
     (let d1 = spi_delay dev 1000 (spi_select dev False d0);
          d2 = spi_delay dev 1000 (spi_select dev True d1)
      in cc1101_command dbg dev SRES d2)"

section \<open>Frequency\<close>

definition cc1101_set_frequency :: "bool \<Rightarrow> 'd spi_device \<Rightarrow> u32 \<Rightarrow> 'd \<Rightarrow> (u32 \<times> 'd) res" where
  "cc1101_set_frequency dbg dev val d0 =
     (let real_value = ucast val * 0xFFFF div (of_nat CC1101_QUARTZ :: u64)
      in furi_assert dbg (real_value AND 0xFFFFFF = real_value)
           (bindE (cc1101_write_reg dbg dev CC1101_FREQ2 (ucast (drop_bit 16 real_value AND 0xFF)) d0) (\<lambda>(_, d1).
            bindE (cc1101_write_reg dbg dev CC1101_FREQ1 (ucast (drop_bit 8 real_value AND 0xFF)) d1) (\<lambda>(_, d2).
            bindE (cc1101_write_reg dbg dev CC1101_FREQ0 (ucast (real_value AND 0xFF)) d2) (\<lambda>(_, d3).
              Inr (ucast (real_value * of_nat CC1101_QUARTZ div 0xFFFF), d3))))))"

definition cc1101_get_frequency_step :: u32 where
  "cc1101_get_frequency_step = of_nat (CC1101_QUARTZ div 0xFFFF)"

text \<open>Here the product is computed in 32 bits, and widened after the division.\<close>

definition cc1101_set_frequency_offset :: "bool \<Rightarrow> 'd spi_device \<Rightarrow> u32 \<Rightarrow> 'd \<Rightarrow> (u32 \<times> 'd) res" where
  "cc1101_set_frequency_offset dbg dev val d0 =
     (let real_value = ucast (val * 0x4000 div of_nat CC1101_QUARTZ) :: u64
      in furi_assert dbg (real_value AND 0xFF = real_value)
           (bindE (cc1101_write_reg dbg dev CC1101_FSCTRL0 (ucast (real_value AND 0xFF)) d0) (\<lambda>(_, d1).
              Inr (ucast (real_value * of_nat CC1101_QUARTZ div 0x4000), d1))))"

definition cc1101_get_frequency_offset_step :: u32 where
  "cc1101_get_frequency_offset_step = of_nat (CC1101_QUARTZ div 0x4000)"

section \<open>Power table and packets\<close>

text \<open>The size passed to the transfer is 2, the header and one value; \<open>rx[8]\<close> keeps its zero.\<close>

definition cc1101_set_pa_table :: "bool \<Rightarrow> 'd spi_device \<Rightarrow> u8 list \<Rightarrow> 'd \<Rightarrow> 'd res" where
  "cc1101_set_pa_table dbg dev vals d =
     (let tx = (CC1101_PATABLE OR CC1101_BURST) # take 8 vals;
          (rx2, d1) = cc1101_transaction dev (take 2 tx) d;
          rx = rx2 @ replicate 7 0
      in furi_assert dbg (\<not> chip_rdyn (rx ! 0) \<and> \<not> chip_rdyn (rx ! 8)) (Inr d1))"

definition cc1101_write_fifo :: "bool \<Rightarrow> 'd spi_device \<Rightarrow> u8 list \<Rightarrow> 'd \<Rightarrow> (nat \<times> 'd) res" where
  "cc1101_write_fifo dbg dev data d0 =
     (let d1 = spi_wait_ready dev (spi_select dev False d0);
          (rx, d2) = spi_trx dev [CC1101_FIFO OR CC1101_BURST] d1
      in furi_assert dbg (\<not> chip_rdyn (rx ! 0))
           (Inr (length data, spi_select dev True (spi_tx dev data d2))))"

definition cc1101_read_fifo :: "u8 list \<Rightarrow> u8 \<Rightarrow> 'd \<Rightarrow> (u8 \<times> u8 list) \<times> 'd" where
  "cc1101_read_fifo data n d = ((n, data), d)"

section \<open>The radio of the device\<close>

datatype subghz_preset = ApiHalSubGhzPresetOokAsync | ApiHalSubGhzPreset2FskPacket

datatype subghz_path =
    ApiHalSubGhzPathIsolate | ApiHalSubGhzPath433 | ApiHalSubGhzPath315 | ApiHalSubGhzPath868

definition ook_async_regs :: "(u8 \<times> u8) list" where
  "ook_async_regs =
     [(0x02, 0x0D), (0x0B, 0x06), (0x18, 0x18), (0x12, 0x30), (0x08, 0x32), (0x22, 0x01), (0, 0)]"

definition ook_async_patable :: "u8 list" where "ook_async_patable = [0xC0, 0, 0, 0, 0, 0, 0, 0]"

definition fsk_packet_regs :: "(u8 \<times> u8) list" where
  "fsk_packet_regs = [(0x02, 0x06), (0x0B, 0x06), (0x18, 0x18), (0, 0)]"

definition fsk_packet_patable :: "u8 list" where "fsk_packet_patable = [0xC0, 0, 0, 0, 0, 0, 0, 0]"

text \<open>\<^verbatim>\<open>while(data[i][0])\<close>: a table without its end mark is read past its end.\<close>

fun load_registers_loop :: "bool \<Rightarrow> 'd spi_device \<Rightarrow> (u8 \<times> u8) list \<Rightarrow> 'd \<Rightarrow> 'd res" where
  "load_registers_loop dbg dev [] d = Inl Out_Of_Bounds"
| "load_registers_loop dbg dev ((reg, val) # data) d =
     (if reg = 0 then Inr d
      else bindE (cc1101_write_reg dbg dev reg val d) (\<lambda>(_, d1). load_registers_loop dbg dev data d1))"

definition api_hal_subghz_load_registers :: "bool \<Rightarrow> 'd spi_device \<Rightarrow> (u8 \<times> u8) list \<Rightarrow> 'd \<Rightarrow> 'd res" where
  "api_hal_subghz_load_registers dbg dev data d =
     bindE (cc1101_reset dbg dev d) (load_registers_loop dbg dev data)"

definition api_hal_subghz_load_patable :: "bool \<Rightarrow> 'd spi_device \<Rightarrow> u8 list \<Rightarrow> 'd \<Rightarrow> 'd res" where
  "api_hal_subghz_load_patable = cc1101_set_pa_table"

fun api_hal_subghz_load_preset :: "bool \<Rightarrow> 'd spi_device \<Rightarrow> subghz_preset \<Rightarrow> 'd \<Rightarrow> 'd res" where
  "api_hal_subghz_load_preset dbg dev ApiHalSubGhzPresetOokAsync d =
     bindE (api_hal_subghz_load_registers dbg dev ook_async_regs d)
       (api_hal_subghz_load_patable dbg dev ook_async_patable)"
| "api_hal_subghz_load_preset dbg dev ApiHalSubGhzPreset2FskPacket d =
     bindE (api_hal_subghz_load_registers dbg dev fsk_packet_regs d)
       (api_hal_subghz_load_patable dbg dev fsk_packet_patable)"

definition api_hal_subghz_write_packet :: "bool \<Rightarrow> 'd spi_device \<Rightarrow> u8 list \<Rightarrow> 'd \<Rightarrow> 'd res" where
  "api_hal_subghz_write_packet dbg dev data d =
     bindE (cc1101_command dbg dev SFTX d) (\<lambda>d1.
     bindE (cc1101_write_fifo dbg dev data d1) (\<lambda>(_, d2). Inr d2))"

definition api_hal_subghz_shutdown :: "bool \<Rightarrow> 'd spi_device \<Rightarrow> 'd \<Rightarrow> 'd res" where
  "api_hal_subghz_shutdown dbg dev = cc1101_command dbg dev SPWD"

definition api_hal_subghz_reset :: "bool \<Rightarrow> 'd spi_device \<Rightarrow> 'd \<Rightarrow> 'd res" where
  "api_hal_subghz_reset = cc1101_reset"

definition api_hal_subghz_idle :: "bool \<Rightarrow> 'd spi_device \<Rightarrow> 'd \<Rightarrow> 'd res" where
  "api_hal_subghz_idle dbg dev = cc1101_command dbg dev SIDLE"

definition api_hal_subghz_rx :: "bool \<Rightarrow> 'd spi_device \<Rightarrow> 'd \<Rightarrow> 'd res" where
  "api_hal_subghz_rx dbg dev = cc1101_command dbg dev SRX"

definition api_hal_subghz_tx :: "bool \<Rightarrow> 'd spi_device \<Rightarrow> 'd \<Rightarrow> 'd res" where
  "api_hal_subghz_tx dbg dev = cc1101_command dbg dev STX"

text \<open>The strength in half decibels below -74 dBm; every step is exact in a float.\<close>

definition api_hal_subghz_get_rssi :: "bool \<Rightarrow> 'd spi_device \<Rightarrow> 'd \<Rightarrow> (rat \<times> 'd) res" where
  "api_hal_subghz_get_rssi dbg dev d =
     bindE (cc1101_get_rssi dbg dev d) (\<lambda>(rssi, d1).
       Inr (if unat rssi \<ge> 128 then (of_nat (unat rssi) - 256) / 2 - 74
            else of_nat (unat rssi) / 2 - 74, d1))"

definition api_hal_subghz_set_frequency :: "bool \<Rightarrow> 'd spi_device \<Rightarrow> u32 \<Rightarrow> 'd \<Rightarrow> (u32 \<times> 'd) res" where
  "api_hal_subghz_set_frequency dbg dev val d =
     (let val1 =
        (if val mod cc1101_get_frequency_step > cc1101_get_frequency_step div 2
         then val + cc1101_get_frequency_step else val)
      in bindE (cc1101_set_frequency dbg dev val1 d) (\<lambda>(real_frequency, d1).
         bindE (cc1101_command dbg dev SCAL d1) (\<lambda>d2. Inr (real_frequency, d2))))"

fun api_hal_subghz_set_path :: "bool \<Rightarrow> 'd spi_device \<Rightarrow> subghz_path \<Rightarrow> 'd \<Rightarrow> 'd res" where
  "api_hal_subghz_set_path dbg dev ApiHalSubGhzPath433 d =
     bindE (cc1101_write_reg dbg dev CC1101_IOCFG2 (CC1101IocfgHW OR CC1101_IOCFG_INV)
              (spi_antenna dev False d)) (\<lambda>(_, d1). Inr d1)"
| "api_hal_subghz_set_path dbg dev ApiHalSubGhzPath315 d =
     bindE (cc1101_write_reg dbg dev CC1101_IOCFG2 CC1101IocfgHW (spi_antenna dev True d))
       (\<lambda>(_, d1). Inr d1)"
| "api_hal_subghz_set_path dbg dev ApiHalSubGhzPath868 d =
     bindE (cc1101_write_reg dbg dev CC1101_IOCFG2 (CC1101IocfgHW OR CC1101_IOCFG_INV)
              (spi_antenna dev True d)) (\<lambda>(_, d1). Inr d1)"
| "api_hal_subghz_set_path dbg dev ApiHalSubGhzPathIsolate d =
     bindE (cc1101_write_reg dbg dev CC1101_IOCFG2 CC1101IocfgHW (spi_antenna dev False d))
       (\<lambda>(_, d1). Inr d1)"

section \<open>Lemmas\<close>

text \<open>A chip that is always ready: its first answer byte and its second have \<^verbatim>\<open>CHIP_RDYn\<close> clear.\<close>

definition always_ready :: "'d spi_device \<Rightarrow> bool" where
  "always_ready dev \<longleftrightarrow>
     (\<forall>tx d rx d1. spi_trx dev tx d = (rx, d1) \<longrightarrow> \<not> chip_rdyn (rx ! 0) \<and> \<not> chip_rdyn (rx ! 1))"

lemma ready_write_reg:
  assumes "always_ready dev"
  shows "\<exists>st. cc1101_write_reg dbg dev reg v d = Inr (st, snd (cc1101_transaction dev [reg, v] d))"
  using assms
  by (auto simp: cc1101_write_reg_def cc1101_transaction_def always_ready_def Let_def furi_assert_def
      split: prod.splits)

text \<open>The arithmetic of the frequency does not overflow for any 32-bit value.\<close>

lemma uint_u64_fits: "0 \<le> k \<Longrightarrow> k < 2 ^ 64 \<Longrightarrow> uint (word_of_int k :: u64) = k"
  by (simp add: uint_word_of_int)

definition freq_word :: "u32 \<Rightarrow> int" where "freq_word val = uint val * 0xFFFF div 26000000"

lemma div_bracket:
  "0 < k \<Longrightarrow> k * (n div k) \<le> n \<and> n < k * (n div k) + (k :: int)"
proof -
  assume "0 < k"
  then have "0 \<le> n mod k" "n mod k < k" by simp_all
  moreover have "k * (n div k) + n mod k = n" by (rule mult_div_mod_eq)
  ultimately show ?thesis by linarith
qed

lemma uint_u32: "0 \<le> uint (w :: u32)" "uint (w :: u32) < 4294967296"
proof -
  have "uint w < 2 ^ LENGTH(32)" by (rule unsigned_less)
  then show "uint w < 4294967296" by simp
qed (rule unsigned_greater_eq)

lemma freq_word_bounds: "0 \<le> freq_word v" "freq_word v < 0xFFFFFF"
  using div_bracket [of 26000000 "uint v * 0xFFFF"] uint_u32 [of v]
  unfolding freq_word_def by linarith+

lemma freq_word_u64: "(ucast val * 0xFFFF div (of_nat CC1101_QUARTZ :: u64)) = word_of_int (freq_word val)"
proof -
  have v: "uint val < 4294967296" "0 \<le> uint val" by (rule uint_u32)+
  have u: "uint (ucast val :: u64) = uint val"
    using v by (simp add: unsigned_ucast_eq take_bit_int_eq_self)
  have m: "uint (ucast val * 0xFFFF :: u64) = uint val * 0xFFFF"
    using v by (simp add: uint_mult_lem [THEN iffD1] u uint_word_ariths)
  have "uint (ucast val * 0xFFFF div (of_nat CC1101_QUARTZ :: u64)) = freq_word val"
    by (simp add: uint_div m freq_word_def CC1101_QUARTZ_def)
  then show ?thesis by (metis word_of_int_uint)
qed

text \<open>The frequency that a word of the registers stands for, by the driver's formula.\<close>

definition freq_of_word :: "int \<Rightarrow> int" where "freq_of_word q = q * 26000000 div 0xFFFF"

lemma freq_of_word_close:
  "freq_of_word (freq_word v) \<le> uint v \<and> uint v \<le> freq_of_word (freq_word v) + 397"
  using div_bracket [of 26000000 "uint v * 0xFFFF"] div_bracket [of "0xFFFF" "freq_word v * 26000000"]
  unfolding freq_of_word_def freq_word_def by linarith

lemma freq_of_word_nonneg: "0 \<le> freq_of_word (freq_word v)"
  using div_bracket [of "0xFFFF" "freq_word v * 26000000"] freq_word_bounds(1) [of v]
  unfolding freq_of_word_def by linarith

lemma freq_word_fits_24: "(word_of_int (freq_word v) :: u64) AND 0xFFFFFF = word_of_int (freq_word v)"
proof -
  have m: "(0xFFFFFF :: u64) = mask 24" by (simp add: mask_eq_exp_minus_1)
  have "take_bit 24 (freq_word v) = freq_word v"
    using freq_word_bounds [of v] by (simp add: take_bit_int_eq_self)
  then have "take_bit 24 (word_of_int (freq_word v) :: u64) = word_of_int (freq_word v)"
    by (metis (no_types, lifting) of_int_take_bit take_bit_of_int)
  then show ?thesis by (simp only: m take_bit_eq_mask)
qed

lemma freq_back_u32:
  "(ucast (word_of_int (freq_word v) * of_nat CC1101_QUARTZ div 0xFFFF :: u64) :: u32) =
     word_of_int (freq_of_word (freq_word v))"
proof -
  have b: "0 \<le> freq_word v" "freq_word v < 16777215" using freq_word_bounds [of v] by simp_all
  have m: "uint (word_of_int (freq_word v) * of_nat CC1101_QUARTZ :: u64) = freq_word v * 26000000"
    using b by (simp add: uint_word_ariths uint_word_of_int CC1101_QUARTZ_def)
  have "uint (word_of_int (freq_word v) * of_nat CC1101_QUARTZ div 0xFFFF :: u64) =
      freq_of_word (freq_word v)"
    by (simp add: uint_div m freq_of_word_def)
  then show ?thesis by (metis ucast_eq)
qed

text \<open>
  Setting the frequency of a ready chip never fails the assertion, writes the 24-bit word into the
  three registers, high byte first, and returns a frequency at most 397 Hz below the one asked for.
\<close>

lemma cc1101_set_frequency_sets:
  assumes "always_ready dev"
  shows "let w = word_of_int (freq_word v) :: u64;
             d1 = snd (cc1101_transaction dev [CC1101_FREQ2, ucast (drop_bit 16 w AND 0xFF)] d);
             d2 = snd (cc1101_transaction dev [CC1101_FREQ1, ucast (drop_bit 8 w AND 0xFF)] d1);
             d3 = snd (cc1101_transaction dev [CC1101_FREQ0, ucast (w AND 0xFF)] d2)
         in cc1101_set_frequency dbg dev v d = Inr (word_of_int (freq_of_word (freq_word v)), d3)"
proof -
  let ?w = "word_of_int (freq_word v) :: u64"
  let ?d1 = "snd (cc1101_transaction dev [CC1101_FREQ2, ucast (drop_bit 16 ?w AND 0xFF)] d)"
  let ?d2 = "snd (cc1101_transaction dev [CC1101_FREQ1, ucast (drop_bit 8 ?w AND 0xFF)] ?d1)"
  obtain s1 where 1: "cc1101_write_reg dbg dev CC1101_FREQ2 (ucast (drop_bit 16 ?w AND 0xFF)) d = Inr (s1, ?d1)"
    using ready_write_reg [OF assms] by blast
  obtain s2 where 2: "cc1101_write_reg dbg dev CC1101_FREQ1 (ucast (drop_bit 8 ?w AND 0xFF)) ?d1 = Inr (s2, ?d2)"
    using ready_write_reg [OF assms] by blast
  obtain s3 where 3: "cc1101_write_reg dbg dev CC1101_FREQ0 (ucast (?w AND 0xFF)) ?d2 =
      Inr (s3, snd (cc1101_transaction dev [CC1101_FREQ0, ucast (?w AND 0xFF)] ?d2))"
    using ready_write_reg [OF assms] by blast
  show ?thesis
    unfolding cc1101_set_frequency_def Let_def freq_word_u64 freq_word_fits_24
    by (simp only: 1 2 3 bindE_Inr prod.case furi_assert_True freq_back_u32 refl)
qed

lemma ready_command:
  assumes "always_ready dev"
  shows "\<exists>d1. cc1101_command dbg dev c d = Inr d1"
  using assms
  by (auto simp: cc1101_command_def cc1101_strobe_def cc1101_transaction_def always_ready_def Let_def
      furi_assert_def split: prod.splits)

lemma uint_freq_of_word: "uint (word_of_int (freq_of_word (freq_word v)) :: u32) = freq_of_word (freq_word v)"
  using freq_of_word_close [of v] freq_of_word_nonneg [of v] uint_u32 [of v]
  by (simp add: uint_word_of_int)

text \<open>
  The chip as its manual has it, for what tuning needs: a write of two bytes puts the second into the
  register that the first names, and the calibration leaves the three registers of the frequency.
  \<open>regs\<close> reads a register off the state.
\<close>

definition register_chip :: "'d spi_device \<Rightarrow> ('d \<Rightarrow> u8 \<Rightarrow> u8) \<Rightarrow> bool" where
  "register_chip dev regs \<longleftrightarrow>
     (\<forall>d reg v. reg < 0x2F \<longrightarrow> regs (snd (cc1101_transaction dev [reg, v] d)) = (regs d)(reg := v)) \<and>
     (\<forall>d. \<forall>r \<in> {CC1101_FREQ2, CC1101_FREQ1, CC1101_FREQ0}.
        regs (snd (cc1101_transaction dev [strobe_code SCAL] d)) r = regs d r)"

text \<open>The 24-bit word in the registers.\<close>

definition tuned_word :: "(u8 \<Rightarrow> u8) \<Rightarrow> int" where
  "tuned_word rs = uint (rs CC1101_FREQ2) * 65536 + uint (rs CC1101_FREQ1) * 256 + uint (rs CC1101_FREQ0)"

lemma byte_of_word:
  assumes "0 \<le> q" and "q < 2 ^ 24"
  shows "uint (ucast (drop_bit k (word_of_int q :: u64) AND 0xFF) :: u8) = q div 2 ^ k mod 256"
proof -
  have m: "(0xFF :: u64) = mask 8" by (simp add: mask_eq_exp_minus_1)
  have q: "uint (word_of_int q :: u64) = q" using assms by (intro uint_u64_fits) simp_all
  have "uint (drop_bit k (word_of_int q :: u64)) = q div 2 ^ k"
    using assms by (simp only: unsigned_drop_bit_eq q) (simp add: drop_bit_eq_div take_bit_int_eq_self)
  moreover have "uint (ucast (x AND mask 8) :: u8) = uint x mod 256" for x :: u64
    by (simp only: take_bit_eq_mask [symmetric] unsigned_ucast_eq unsigned_take_bit_eq)
      (simp add: take_bit_eq_mod)
  ultimately show ?thesis by (simp only: m)
qed

lemma three_bytes:
  fixes q :: int
  assumes "0 \<le> q" and "q < 2 ^ 24"
  shows "q div 2 ^ 16 mod 256 * 65536 + q div 2 ^ 8 mod 256 * 256 + q mod 256 = q"
proof -
  have "q div 65536 mod 256 = q div 65536" using assms by (intro mod_pos_pos_trivial) simp_all
  moreover have "q div 256 = q div 65536 * 256 + q div 256 mod 256"
    using div_mult_mod_eq [of "q div 256" 256] by (simp add: zdiv_zmult2_eq [symmetric])
  moreover have "q = q div 256 * 256 + q mod 256" by (rule div_mult_mod_eq [symmetric])
  ultimately have "q div 65536 mod 256 * 65536 + q div 256 mod 256 * 256 + q mod 256 = q" by linarith
  moreover have "(2 :: int) ^ 16 = 65536" "(2 :: int) ^ 8 = 256" by simp_all
  ultimately show ?thesis by (simp only:)
qed

lemma registers_hold_word:
  assumes "register_chip dev regs" and "always_ready dev"
    and "cc1101_set_frequency dbg dev v d = Inr (f, d1)" and "cc1101_command dbg dev SCAL d1 = Inr d2"
  shows "tuned_word (regs d2) = freq_word v"
proof -
  let ?w = "word_of_int (freq_word v) :: u64"
  let ?b = "\<lambda>k. ucast (drop_bit k ?w AND 0xFF) :: u8"
  let ?t = "\<lambda>r k d. snd (cc1101_transaction dev [r, ?b k] d)"
  have "d1 = ?t CC1101_FREQ0 0 (?t CC1101_FREQ1 8 (?t CC1101_FREQ2 16 d))"
    using cc1101_set_frequency_sets [OF assms(2), of v d dbg] assms(3) by (auto simp: Let_def)
  then have d1: "regs d1 = (regs d)(CC1101_FREQ2 := ?b 16, CC1101_FREQ1 := ?b 8, CC1101_FREQ0 := ?b 0)"
    using assms(1) by (simp add: register_chip_def CC1101_FREQ2_def CC1101_FREQ1_def CC1101_FREQ0_def)
  have "d2 = snd (cc1101_transaction dev [strobe_code SCAL] d1)"
    using assms(4) by (auto simp: cc1101_command_def cc1101_strobe_def bindE_eq_Inr furi_assert_eq_Inr split: prod.splits)
  then have "tuned_word (regs d2) = tuned_word (regs d1)"
    using assms(1) by (simp add: register_chip_def tuned_word_def)
  moreover have "uint (?b k) = freq_word v div 2 ^ k mod 256" for k
    by (rule byte_of_word) (use freq_word_bounds [of v] in simp_all)
  from this [of 16] this [of 8] this [of 0] have "tuned_word (regs d1) = freq_word v"
    using three_bytes [of "freq_word v"] freq_word_bounds [of v]
    by (simp add: d1 tuned_word_def CC1101_FREQ2_def CC1101_FREQ1_def CC1101_FREQ0_def)
  ultimately show ?thesis by simp
qed

section \<open>Properties\<close>

text \<open>
  C37. Tuning the radio: on a chip that is ready and keeps its registers,
  \<^verbatim>\<open>api_hal_subghz_set_frequency\<close> never fails the driver's assertion; afterwards the three registers of
  the chip hold, high byte first, a word whose frequency by the driver's formula is the one that is
  reported, and that differs from the request by at most 397 Hz, the width of one step. This is for
  every request but the last 396 of the 32-bit range, where adding the compensation wraps around. (The
  formula has 65535 where the chip divides by 65536; a lemma below says what that costs.)
\<close>

theorem subghz_frequency_close:
  assumes "always_ready dev" and "register_chip dev regs" and "uint v < 4294966900"
  shows "\<exists>f d'. api_hal_subghz_set_frequency dbg dev v d = Inr (f, d') \<and>
    uint f = tuned_word (regs d') * 26000000 div 65535 \<and> \<bar>uint f - uint v\<bar> \<le> 397"
proof -
  define w where "w = (if v mod cc1101_get_frequency_step > cc1101_get_frequency_step div 2
      then v + cc1101_get_frequency_step else v)"
  have step: "cc1101_get_frequency_step = (396 :: u32)"
    by (simp add: cc1101_get_frequency_step_def CC1101_QUARTZ_def)
  have plus: "uint (v + 396) = uint v + 396"
    using assms(3) uint_u32 [of v] by (simp add: uint_word_ariths)
  have w: "uint w = uint v \<or> uint w = uint v + 396" by (simp add: w_def step plus)
  let ?f = "freq_of_word (freq_word w)"
  obtain d1 where set: "cc1101_set_frequency dbg dev w d = Inr (word_of_int ?f, d1)"
    using cc1101_set_frequency_sets [OF assms(1), of w d dbg] by (auto simp: Let_def)
  obtain d2 where cal: "cc1101_command dbg dev SCAL d1 = Inr d2" using ready_command [OF assms(1)] by blast
  with set have "api_hal_subghz_set_frequency dbg dev v d = Inr (word_of_int ?f, d2)"
    by (simp add: api_hal_subghz_set_frequency_def Let_def w_def)
  moreover have "uint (word_of_int ?f :: u32) = tuned_word (regs d2) * 26000000 div 65535"
    by (simp only: uint_freq_of_word registers_hold_word [OF assms(2,1) set cal]) (simp only: freq_of_word_def)
  moreover have "\<bar>uint (word_of_int ?f :: u32) - uint v\<bar> \<le> 397"
    using freq_of_word_close [of w] w by (auto simp: uint_freq_of_word)
  ultimately show ?thesis by blast
qed

text \<open>A chip that is a file of registers.\<close>

definition demo_radio :: "(u8 \<Rightarrow> u8) spi_device" where
  "demo_radio =
     \<lparr>spi_select = \<lambda>_ d. d, spi_wait_ready = \<lambda>d. d,
      spi_trx = \<lambda>tx d. ([15, 15], case tx of [reg, v] \<Rightarrow> d(reg := v) | _ \<Rightarrow> d),
      spi_tx = \<lambda>_ d. d, spi_delay = \<lambda>_ d. d, spi_antenna = \<lambda>_ d. d\<rparr>"

theorem subghz_frequency_close_witness:
  "\<exists>f d'. api_hal_subghz_set_frequency True demo_radio 433920000 (\<lambda>_. 0) = Inr (f, d') \<and>
     uint f = tuned_word d' * 26000000 div 65535 \<and> \<bar>uint f - uint (433920000 :: u32)\<bar> \<le> 397"
proof (rule subghz_frequency_close [where regs = "\<lambda>d. d"])
  show "always_ready demo_radio"
    by (simp add: always_ready_def demo_radio_def chip_rdyn_def)
  show "register_chip demo_radio (\<lambda>d. d)"
    by (simp add: register_chip_def demo_radio_def cc1101_transaction_def)
qed simp

text \<open>In the last 396 of the range the compensation wraps: the radio is tuned to the bottom.\<close>

lemma near_limit_wraps:
  assumes "always_ready dev"
  shows "\<exists>d'. api_hal_subghz_set_frequency dbg dev 4294967100 d = Inr (0, d')"
proof -
  have w: "(if (4294967100 :: u32) mod cc1101_get_frequency_step > cc1101_get_frequency_step div 2
      then 4294967100 + cc1101_get_frequency_step else 4294967100) = 200"
    by (simp add: cc1101_get_frequency_step_def CC1101_QUARTZ_def)
  have "freq_of_word (freq_word 200) = 0" by (simp add: freq_of_word_def freq_word_def)
  then obtain d1 where set: "cc1101_set_frequency dbg dev 200 d = Inr (0, d1)"
    using cc1101_set_frequency_sets [OF assms, of 200 d dbg] by (auto simp: Let_def)
  obtain d2 where "cc1101_command dbg dev SCAL d1 = Inr d2" using ready_command [OF assms] by blast
  with set show ?thesis by (simp add: api_hal_subghz_set_frequency_def Let_def w)
qed

text \<open>
  The carrier that the chip makes of its word is the quartz times the word over 65536. At 433.92 MHz
  it lies more than 6 kHz below the frequency that the driver reports.
\<close>

lemma synthesizer_divisor:
  "freq_of_word (freq_word 433920000) \<ge> 433919604 \<and> freq_word 433920000 * 26000000 div 65536 \<le> 433913400"
  by (simp add: freq_of_word_def freq_word_def)

text \<open>
  The compensation for rounding makes some requests worse: 433.920502 MHz would be met within 2 Hz,
  and is set 395 Hz too high.
\<close>

lemma compensation_overshoots:
  "freq_of_word (freq_word 433920502) = 433920500 \<and>
   (433920502 :: u32) mod cc1101_get_frequency_step > cc1101_get_frequency_step div 2 \<and>
   freq_of_word (freq_word (433920502 + cc1101_get_frequency_step)) = 433920897"
  by (simp add: freq_of_word_def freq_word_def cc1101_get_frequency_step_def CC1101_QUARTZ_def)

text \<open>
  Of the power table only the first value reaches the chip: the transfer is two bytes long.
\<close>

lemma pa_table_first_only:
  "vals \<noteq> [] \<Longrightarrow> vals' \<noteq> [] \<Longrightarrow> hd vals = hd vals' \<Longrightarrow>
     cc1101_set_pa_table dbg dev vals d = cc1101_set_pa_table dbg dev vals' d"
  by (cases vals; cases vals') (simp_all add: cc1101_set_pa_table_def)

text \<open>
  The assertion on the offset cannot fail: the 32-bit product wraps before it could.
\<close>

lemma offset_assert_vacuous:
  "(ucast (v * 0x4000 div of_nat CC1101_QUARTZ :: u32) :: u64) AND 0xFF =
     ucast (v * 0x4000 div of_nat CC1101_QUARTZ)"
proof -
  let ?r = "v * 0x4000 div of_nat CC1101_QUARTZ :: u32"
  have "uint ?r = uint (v * 0x4000) div 26000000" by (simp add: uint_div CC1101_QUARTZ_def)
  with div_bracket [of 26000000 "uint (v * 0x4000)"] uint_u32 [of "v * 0x4000"]
  have r: "0 \<le> uint ?r" "uint ?r < 256" by linarith+
  have "(0xFF :: u64) = mask 8" by (simp add: mask_eq_exp_minus_1)
  moreover have "take_bit 8 (ucast ?r :: u64) = ucast ?r"
    using r by (simp add: word_uint_eq_iff unsigned_take_bit_eq unsigned_ucast_eq take_bit_int_eq_self)
  ultimately show ?thesis by (simp only: take_bit_eq_mask)
qed

lemma offset_wraps: "(500000 :: u32) * 0x4000 div of_nat CC1101_QUARTZ = 149"
  by (simp add: CC1101_QUARTZ_def)

text \<open>\<^verbatim>\<open>cc1101_read_fifo\<close> reports the size asked for and reads nothing.\<close>

lemma read_fifo_nothing: "cc1101_read_fifo data n d = ((n, data), d)"
  by (simp add: cc1101_read_fifo_def)

end
