(* ===== verification/DolphinApp.thy ===== *)
theory DolphinApp
  imports DolphinState ViewDispatcher AppLoader Canvas "HOL-Library.Sublist"
begin

text \<open>
  The home screen, \<^verbatim>\<open>applications/dolphin/dolphin.c\<close> and \<^verbatim>\<open>dolphin_views.c\<close>: the first start pages,
  the animation, the lock and its menu, the statistics, and the task that keeps the dolphin's
  state. It composes the view dispatcher, the dolphin's saved state and the model of threads.

  The views' models are fields of one record. Requests to redraw are not modelled: they change
  nothing here. \<open>rnd\<close> is \<^verbatim>\<open>random()\<close>, with its state in the application's.
\<close>

section \<open>State\<close>

datatype dolphin_event =
    DolphinEventTypeDeed dolphin_deed
  | DolphinEventTypeSave
  | DolphinEventTypeTick

definition UNLOCK_RST_TIMEOUT :: u32 where "UNLOCK_RST_TIMEOUT = 500"
definition HINT_TIMEOUT_L :: u8 where "HINT_TIMEOUT_L = 3"
definition HINT_TIMEOUT_H :: u8 where "HINT_TIMEOUT_H = 40"

definition DolphinViewIdleMain :: u32 where "DolphinViewIdleMain = 0"
definition DolphinViewFirstStart :: u32 where "DolphinViewFirstStart = 1"
definition DolphinViewStats :: u32 where "DolphinViewStats = 2"
definition DolphinViewHwMismatch :: u32 where "DolphinViewHwMismatch = 3"
definition DolphinViewLockMenu :: u32 where "DolphinViewLockMenu = 4"

lemmas idle_views = DolphinViewIdleMain_def DolphinViewFirstStart_def DolphinViewStats_def
  DolphinViewHwMismatch_def DolphinViewLockMenu_def

definition DolphinViewStatsFw :: u8 where "DolphinViewStatsFw = 0"
definition DolphinViewStatsBoot :: u8 where "DolphinViewStatsBoot = 1"
definition DolphinViewStatsMeta :: u8 where "DolphinViewStatsMeta = 2"
definition DolphinViewStatsTotalCount :: u8 where "DolphinViewStatsTotalCount = 3"

lemmas stats_screens = DolphinViewStatsFw_def DolphinViewStatsBoot_def DolphinViewStatsMeta_def
  DolphinViewStatsTotalCount_def

record dolphin_view_main_model =
  animation :: icon
  scene_num :: u8
  hint_timeout :: u8
  main_locked :: bool

record dolphin_view_lock_menu_model =
  lm_idx :: u8
  door_left_x :: int
  door_right_x :: int
  exit_timeout :: u8
  lm_locked :: bool

record dolphin_view_stats_model =
  st_icounter :: u32
  st_butthurt :: u32
  st_screen :: u8

record 'r dolphin =
  dl_queue :: "dolphin_event list"
  dl_state :: dolphin_store_data
  dl_disp :: dispatcher
  dl_scene_thread :: furi_thread
  dl_main :: dolphin_view_main_model
  dl_first_page :: u32
  dl_lockmenu :: dolphin_view_lock_menu_model
  dl_stats :: dolphin_view_stats_model
  lock_viewport_enabled :: bool
  dl_locked :: bool
  lock_count :: u8
  lock_lastpress :: u32
  timer_running :: bool
  dl_rnd :: 'r

text \<open>
  What the application does to others: calls of the dispatcher, the menu opened, a thread started.
\<close>

datatype dolphin_call =
    Dol_View view_call
  | Dol_Menu_Ok
  | Dol_Thread state_call

type_synonym ('r, 'a) dol_res = "('a \<times> dolphin_call list \<times> 'r dolphin) res"

definition idle_scenes :: "string list" where
  "idle_scenes = [''A_Wink_128x64'', ''A_WatchingTV_128x64'']"

definition dol_random :: "('r \<Rightarrow> nat \<times> 'r) \<Rightarrow> 'r dolphin \<Rightarrow> nat \<times> 'r dolphin" where
  "dol_random rnd d = (case rnd (dl_rnd d) of (v, r) \<Rightarrow> (v, d\<lparr>dl_rnd := r\<rparr>))"

section \<open>Operations\<close>

text \<open>\<open>new\<close> is the answer of \<^verbatim>\<open>osThreadNew\<close>.\<close>

definition dolphin_switch_to_app ::
    "bool \<Rightarrow> nat option \<Rightarrow> flipper_application \<Rightarrow> 'r dolphin \<Rightarrow> (dolphin_call list \<times> 'r dolphin) res" where
  "dolphin_switch_to_app dbg new app d =
     furi_assert dbg (app_callback app \<noteq> None)
       (furi_assert dbg (app_name app \<noteq> None)
         (bindE (loader_set_up dbg app (dl_scene_thread d)) (\<lambda>th1.
          bindE (furi_thread_set_callback dbg (app_callback app) th1) (\<lambda>th2.
          bindE (thread_start_begin dbg th2) (\<lambda>(cs, th3).
          bindE (thread_start_end dbg new th3) (\<lambda>((_, cs1), th4).
            Inr (map Dol_Thread (cs @ cs1), d\<lparr>dl_scene_thread := th4\<rparr>)))))))"

definition idle_switch_to_view ::
    "bool \<Rightarrow> u32 \<Rightarrow> 'r dolphin \<Rightarrow> (dolphin_call list \<times> 'r dolphin) res" where
  "idle_switch_to_view dbg i d =
     bindE (view_dispatcher_switch_to_view dbg True i (dl_disp d)) (\<lambda>(cs, disp).
       Inr (map Dol_View cs, d\<lparr>dl_disp := disp\<rparr>))"

text \<open>
  \<open>icons\<close> is the table of icons that the build generates, \<open>now\<close> the tick count of the kernel.
  Getting an icon allocates it; the one shown before is not released.
\<close>

definition start_scene :: "(string \<Rightarrow> icon_data) \<Rightarrow> u32 \<Rightarrow> string \<Rightarrow> 'r dolphin \<Rightarrow> 'r dolphin" where
  "start_scene icons now name d =
     d\<lparr>dl_main := (dl_main d)\<lparr>animation := icon_start_animation now (icon_alloc (icons name))\<rparr>\<rparr>"

definition dolphin_scene_handler_set_scene ::
    "(string \<Rightarrow> icon_data) \<Rightarrow> u32 \<Rightarrow> string \<Rightarrow> 'r dolphin \<Rightarrow> 'r dolphin" where
  "dolphin_scene_handler_set_scene icons now name d = start_scene icons now name d"

text \<open>
  \<open>bytes\<close> is \<^verbatim>\<open>sizeof(idle_scenes)\<close>: two when an icon's name takes one byte, as the compiler of the
  firmware makes it for up to 256 icons; more when it takes more.
\<close>

definition dolphin_scene_handler_switch_scene ::
    "(string \<Rightarrow> icon_data) \<Rightarrow> nat \<Rightarrow> ('r \<Rightarrow> nat \<times> 'r) \<Rightarrow> u32 \<Rightarrow> 'r dolphin \<Rightarrow> 'r dolphin res" where
  "dolphin_scene_handler_switch_scene icons bytes rnd now d =
     (if icon_is_last_frame (animation (dl_main d)) then
        bindE (arr_get idle_scenes (unat (scene_num (dl_main d)))) (\<lambda>name.
          case dol_random rnd (start_scene icons now name d) of
            (v, d1) \<Rightarrow> Inr (d1\<lparr>dl_main := (dl_main d1)\<lparr>scene_num := of_nat (v mod bytes)\<rparr>\<rparr>))
      else Inr d)"

text \<open>Messages wait for room in the queue of the task.\<close>

definition dolphin_save :: "'r dolphin \<Rightarrow> 'r dolphin" where
  "dolphin_save d = d\<lparr>dl_queue := dl_queue d @ [DolphinEventTypeSave]\<rparr>"

definition send_deed :: "dolphin_deed \<Rightarrow> 'r dolphin \<Rightarrow> 'r dolphin" where
  "send_deed deed d = d\<lparr>dl_queue := dl_queue d @ [DolphinEventTypeDeed deed]\<rparr>"

definition dolphin_view_first_start_input ::
    "bool \<Rightarrow> input_event \<Rightarrow> 'r dolphin \<Rightarrow> ('r, bool) dol_res" where
  "dolphin_view_first_start_input dbg ev d =
     (if ev_type ev = InputTypeShort then
        (if ev_key ev = InputKeyLeft then
           Inr (True, [], if dl_first_page d > 0 then d\<lparr>dl_first_page := dl_first_page d - 1\<rparr> else d)
         else if ev_key ev = InputKeyRight then
           (let page = dl_first_page d + 1; d1 = d\<lparr>dl_first_page := page\<rparr> in
            if page > 8 then
              bindE (idle_switch_to_view dbg DolphinViewIdleMain (dolphin_save d1)) (\<lambda>(cs, d2). Inr (True, cs, d2))
            else Inr (True, [], d1))
         else Inr (True, [], d))
      else Inr (True, [], d))"

text \<open>\<open>t\<close> is the time that \<^verbatim>\<open>HAL_GetTick\<close> gives.\<close>

definition dolphin_lock_handler :: "u32 \<Rightarrow> input_event \<Rightarrow> 'r dolphin \<Rightarrow> 'r dolphin" where
  "dolphin_lock_handler t ev d0 =
     (let d1 = d0\<lparr>dl_main := (dl_main d0)\<lparr>hint_timeout := HINT_TIMEOUT_L\<rparr>\<rparr> in
      if ev_key ev = InputKeyBack \<and> ev_type ev = InputTypeShort then
        (let d2 = (if t - lock_lastpress d1 > UNLOCK_RST_TIMEOUT
                   then d1\<lparr>lock_lastpress := t, lock_count := 0\<rparr>
                   else if t - lock_lastpress d1 < UNLOCK_RST_TIMEOUT
                   then d1\<lparr>lock_lastpress := t, lock_count := lock_count d1 + 1\<rparr>
                   else d1)
         in if lock_count d2 = 2 then
              d2\<lparr>dl_locked := False, lock_count := 0,
                 dl_lockmenu := (dl_lockmenu d2)\<lparr>lm_locked := False, door_left_x := - 57, door_right_x := 115\<rparr>,
                 dl_main := (dl_main d2)\<lparr>hint_timeout := HINT_TIMEOUT_L, main_locked := False\<rparr>,
                 lock_viewport_enabled := False\<rparr>
            else d2)
      else d1)"

text \<open>
  \<open>env\<close> gathers what the input handlers take from outside: the icons, the size above, the two
  applications that the build names, and the kernel's answers.
\<close>

record 'r dolphin_env =
  e_dbg :: bool
  e_icons :: "string \<Rightarrow> icon_data"
  e_bytes :: nat
  e_random :: "'r \<Rightarrow> nat \<times> 'r"
  e_scene :: flipper_application
  e_archive :: flipper_application

definition dolphin_view_idle_main_input ::
    "'r dolphin_env \<Rightarrow> nat option \<Rightarrow> u32 \<Rightarrow> u32 \<Rightarrow> input_event \<Rightarrow> 'r dolphin \<Rightarrow> ('r, bool) dol_res" where
  "dolphin_view_idle_main_input env new now t ev d =
     (let k = ev_key ev; ty = ev_type ev; dbg = e_dbg env;
          done = map_sum id (\<lambda>(cs, d1). (True, cs, d1))
      in if \<not> dl_locked d then
           (if k = InputKeyOk \<and> ty = InputTypeShort then Inr (True, [Dol_Menu_Ok], d)
            else if k = InputKeyUp \<and> ty = InputTypeShort then
              done (idle_switch_to_view dbg DolphinViewLockMenu (d\<lparr>timer_running := True\<rparr>))
            else if k = InputKeyRight \<and> ty = InputTypeShort then
              done (dolphin_switch_to_app dbg new (e_scene env) d)
            else if k = InputKeyDown \<and> ty = InputTypeShort then
              done (dolphin_switch_to_app dbg new (e_archive env) d)
            else if k = InputKeyDown \<and> ty = InputTypeLong then
              done (idle_switch_to_view dbg DolphinViewStats d)
            else if k = InputKeyBack \<and> ty = InputTypeShort then
              done (idle_switch_to_view dbg DolphinViewIdleMain d)
            else Inr (True, [], d))
         else
           bindE (dolphin_scene_handler_switch_scene (e_icons env) (e_bytes env) (e_random env) now
                    (dolphin_lock_handler t ev d)) (\<lambda>d1. Inr (True, [], d1)))"

text \<open>The timer's tick is dropped when the queue, of eight messages, is full.\<close>

definition lock_menu_refresh_handler :: "'r dolphin \<Rightarrow> 'r dolphin" where
  "lock_menu_refresh_handler d =
     (if length (dl_queue d) < 8 then d\<lparr>dl_queue := dl_queue d @ [DolphinEventTypeTick]\<rparr> else d)"

definition lock_menu_callback :: "u8 \<Rightarrow> 'r dolphin \<Rightarrow> 'r dolphin" where
  "lock_menu_callback index d =
     (if index = 0 then
        d\<lparr>dl_locked := True,
          dl_lockmenu := (dl_lockmenu d)\<lparr>lm_locked := True, exit_timeout := HINT_TIMEOUT_H\<rparr>,
          dl_main := (dl_main d)\<lparr>main_locked := True\<rparr>\<rparr>
      else d)"

definition dolphin_view_lockmenu_input ::
    "'r dolphin_env \<Rightarrow> u32 \<Rightarrow> input_event \<Rightarrow> 'r dolphin \<Rightarrow> ('r, bool) dol_res" where
  "dolphin_view_lockmenu_input env now ev d =
     (let idx = uint (lm_idx (dl_lockmenu d));
          set_idx = (\<lambda>i d. d\<lparr>dl_lockmenu := (dl_lockmenu d)\<lparr>lm_idx := word_of_int i\<rparr>\<rparr>)
      in if ev_type ev \<noteq> InputTypeShort then Inr (False, [], d)
         else if ev_key ev = InputKeyUp then Inr (True, [], set_idx (clamp (idx - 1) 2 0) d)
         else if ev_key ev = InputKeyDown then Inr (True, [], set_idx (clamp (idx + 1) 2 0) d)
         else if ev_key ev = InputKeyOk then Inr (True, [], lock_menu_callback (lm_idx (dl_lockmenu d)) d)
         else if ev_key ev = InputKeyBack then
           bindE (idle_switch_to_view (e_dbg env) DolphinViewIdleMain (set_idx 0 d)) (\<lambda>(cs, d1).
             case dol_random (e_random env) d1 of (v, d2) \<Rightarrow>
               if v mod 100 > 50 then
                 (case dol_random (e_random env) d2 of (w, d3) \<Rightarrow>
                    bindE (arr_get idle_scenes (w mod e_bytes env)) (\<lambda>name.
                      Inr (True, cs, dolphin_scene_handler_set_scene (e_icons env) now name d3)))
               else Inr (True, cs, d2))
         else Inr (True, [], d))"

definition dolphin_view_idle_down_input ::
    "bool \<Rightarrow> input_event \<Rightarrow> 'r dolphin \<Rightarrow> ('r, bool) dol_res" where
  "dolphin_view_idle_down_input dbg ev d =
     (if ev_type ev \<noteq> InputTypeShort then Inr (False, [], d)
      else
        (let current = st_screen (dl_stats d);
             set_screen = (\<lambda>sc. d\<lparr>dl_stats := (dl_stats d)\<lparr>st_screen := sc\<rparr>\<rparr>);
             d1 = (if ev_key ev = InputKeyDown
                   then set_screen ((current + 1) mod DolphinViewStatsTotalCount)
                   else if ev_key ev = InputKeyUp
                   then set_screen ((current - 1 + DolphinViewStatsTotalCount) mod DolphinViewStatsTotalCount)
                   else d)
         in if current = DolphinViewStatsMeta then
              (if ev_key ev = InputKeyLeft then Inr (True, [], send_deed DolphinDeedWrong d1)
               else if ev_key ev = InputKeyRight then Inr (True, [], send_deed DolphinDeedIButtonRead d1)
               else if ev_key ev = InputKeyOk then Inr (True, [], dolphin_save d1)
               else Inr (False, [], d1))
            else if ev_key ev = InputKeyBack then
              bindE (idle_switch_to_view dbg DolphinViewIdleMain d1) (\<lambda>(cs, d2). Inr (True, cs, d2))
            else Inr (True, [], d1)))"

definition dolphin_view_idle_back :: u32 where
  "dolphin_view_idle_back = DolphinViewIdleMain"

section \<open>Setup\<close>

text \<open>
  The views by their addresses. Drawing callbacks are addresses of their own; the input callbacks
  are the handlers above, which need the whole state: \<open>idle_input\<close> below calls them.
\<close>

definition view_addr :: "u32 \<Rightarrow> nat" where
  "view_addr i = unat i + 1"

definition back_to_main :: "nat option \<Rightarrow> u32" where
  "back_to_main ctx = dolphin_view_idle_back"

definition idle_view :: "u32 \<Rightarrow> view" where
  "idle_view i =
     (let v = view_alloc\<lparr>draw_callback := Some (10 + unat i), context_of := Some 0\<rparr>;
          with_model = v\<lparr>model_type := ViewModelTypeLockFree, model := Some (20 + unat i)\<rparr>
      in if i = DolphinViewFirstStart \<or> i = DolphinViewIdleMain then with_model
         else if i = DolphinViewHwMismatch
         then view_set_previous_callback (Some back_to_main) (v\<lparr>context_of := None\<rparr>)
         else view_set_previous_callback (Some back_to_main) with_model)"

definition idle_store :: "nat \<Rightarrow> view" where
  "idle_store a = idle_view (of_nat (a - 1))"

definition add_idle_views :: "u32 list \<Rightarrow> dispatcher \<Rightarrow> dispatcher res" where
  "add_idle_views is d0 =
     foldl (\<lambda>m i. bindE m (\<lambda>d. bindE (view_dispatcher_add_view i (view_addr i) d) (\<lambda>(_, d1). Inr d1)))
       (Inr d0) is"

text \<open>The views are added in this order.\<close>

definition dolphin_dispatcher :: "bool \<Rightarrow> dispatcher res" where
  "dolphin_dispatcher dbg =
     bindE (add_idle_views
              [DolphinViewFirstStart, DolphinViewIdleMain, DolphinViewLockMenu, DolphinViewStats,
               DolphinViewHwMismatch]
              (view_dispatcher_alloc 30 31 32 33 idle_store)) (\<lambda>d.
     bindE (view_dispatcher_attach_to_gui dbg ViewDispatcherTypeWindow d) (\<lambda>(_, d1). Inr d1))"

text \<open>The instance is zeros apart from what is set here; \<open>st\<close> is what \<^verbatim>\<open>dolphin_state_alloc\<close> returns.\<close>

definition dolphin_alloc ::
    "'r dolphin_env \<Rightarrow> u32 \<Rightarrow> dolphin_store_data \<Rightarrow> 'r \<Rightarrow> 'r dolphin res" where
  "dolphin_alloc env now st r =
     bindE (dolphin_dispatcher (e_dbg env)) (\<lambda>disp.
       case e_random env r of (v, r1) \<Rightarrow>
       bindE (arr_get idle_scenes (v mod e_bytes env)) (\<lambda>name.
         Inr \<lparr>dl_queue = [], dl_state = st, dl_disp = disp, dl_scene_thread = furi_thread_alloc,
              dl_main = \<lparr>animation = icon_start_animation now (icon_alloc (e_icons env name)),
                         scene_num = 0, hint_timeout = 0, main_locked = False\<rparr>,
              dl_first_page = 0,
              dl_lockmenu = \<lparr>lm_idx = 0, door_left_x = - 57, door_right_x = 115, exit_timeout = 0, lm_locked = False\<rparr>,
              dl_stats = \<lparr>st_icounter = 0, st_butthurt = 0, st_screen = 0\<rparr>,
              lock_viewport_enabled = False, dl_locked = False, lock_count = 0, lock_lastpress = 0,
              timer_running = False, dl_rnd = r1\<rparr>))"

text \<open>
  Input comes through the dispatcher (\<^verbatim>\<open>view_dispatcher_handle_input\<close>): to the handler of the
  current view, and, if it does not consume it, to the navigation callbacks of the view.
\<close>

definition idle_handler ::
    "'r dolphin_env \<Rightarrow> nat option \<Rightarrow> u32 \<Rightarrow> u32 \<Rightarrow> input_event \<Rightarrow> nat \<Rightarrow> 'r dolphin \<Rightarrow> ('r, bool) dol_res" where
  "idle_handler env new now t ev a d =
     (if a = view_addr DolphinViewIdleMain then dolphin_view_idle_main_input env new now t ev d
      else if a = view_addr DolphinViewFirstStart then dolphin_view_first_start_input (e_dbg env) ev d
      else if a = view_addr DolphinViewStats then dolphin_view_idle_down_input (e_dbg env) ev d
      else if a = view_addr DolphinViewLockMenu then dolphin_view_lockmenu_input env now ev d
      else Inr (False, [], d))"

definition idle_input ::
    "'r dolphin_env \<Rightarrow> nat option \<Rightarrow> u32 \<Rightarrow> u32 \<Rightarrow> input_event \<Rightarrow> 'r dolphin \<Rightarrow> (dolphin_call list \<times> 'r dolphin) res" where
  "idle_input env new now t ev d =
     bindE (case disp_current (dl_disp d) of
              None \<Rightarrow> Inr (False, [], d)
            | Some a \<Rightarrow> idle_handler env new now t ev a d) (\<lambda>(consumed, cs, d1).
       if \<not> consumed \<and> ev_type ev = InputTypeShort then
         bindE (if ev_key ev = InputKeyBack then on_current (e_dbg env) view_previous (dl_disp d1)
                else if ev_key ev = InputKeyOk then on_current (e_dbg env) view_next (dl_disp d1)
                else Inr VIEW_IGNORE) (\<lambda>i.
         bindE (idle_switch_to_view (e_dbg env) i d1) (\<lambda>(cs1, d2). Inr (cs @ cs1, d2)))
       else Inr (cs, d1))"

section \<open>The task\<close>

text \<open>\<open>mine\<close>: whether the firmware belongs on this hardware. \<open>api\<close>, \<open>caller\<close>, \<open>junk\<close> and \<open>l\<close> (the internal storage) are those of the dolphin's state.\<close>

definition show_stats :: "'r dolphin \<Rightarrow> 'r dolphin" where
  "show_stats d =
     d\<lparr>dl_stats := (dl_stats d)\<lparr>st_icounter := dolphin_state_get_icounter (dl_state d),
                                st_butthurt := dolphin_state_get_butthurt (dl_state d)\<rparr>\<rparr>"

definition dolphin_task_start ::
    "'r dolphin_env \<Rightarrow> ('l, 'f) lfs_api \<Rightarrow> nat option \<Rightarrow> u8 list \<Rightarrow> u32 \<Rightarrow> dolphin_store_data \<Rightarrow> 'r \<Rightarrow> bool \<Rightarrow> 'l storage_system \<Rightarrow>
       ('r dolphin \<times> 'l storage_system) res" where
  "dolphin_task_start env api caller junk now st r mine l =
     bindE (dolphin_alloc env now st r) (\<lambda>d.
     bindE (dolphin_state_load api caller junk (dl_state d) l) (\<lambda>((loaded, st1), l1).
       let d1 = d\<lparr>dl_state := st1\<rparr> in
       bindE (idle_switch_to_view (e_dbg env)
                (if loaded then DolphinViewIdleMain else DolphinViewFirstStart) d1) (\<lambda>(_, d2).
       let d3 = show_stats d2 in
       bindE (if \<not> mine then idle_switch_to_view (e_dbg env) DolphinViewHwMismatch d3 else Inr ([], d3)) (\<lambda>(_, d4).
         Inr (d4, l1)))))"

text \<open>One round of the loop; nothing happens while the queue is empty.\<close>

definition dolphin_task_round ::
    "'r dolphin_env \<Rightarrow> ('l, 'f) lfs_api \<Rightarrow> nat option \<Rightarrow> 'r dolphin \<times> 'l storage_system \<Rightarrow>
       (dolphin_call list \<times> 'r dolphin \<times> 'l storage_system) res" where
  "dolphin_task_round env api caller = (\<lambda>(d0, l).
     case dl_queue d0 of
       [] \<Rightarrow> Inr ([], d0, l)
     | e # q \<Rightarrow>
         (let d1 = d0\<lparr>dl_queue := q\<rparr>; lock_model = dl_lockmenu d1 in
          bindE (if lm_locked lock_model \<and> exit_timeout lock_model = 0 \<and> timer_running d1
                 then idle_switch_to_view (e_dbg env) DolphinViewIdleMain (d1\<lparr>timer_running := False\<rparr>)
                 else Inr ([], d1)) (\<lambda>(cs, d2).
            case e of
              DolphinEventTypeTick \<Rightarrow> Inr (cs, d2, l)
            | DolphinEventTypeDeed deed \<Rightarrow>
                Inr (cs, show_stats (d2\<lparr>dl_state := dolphin_state_on_deed deed (dl_state d2)\<rparr>), l)
            | DolphinEventTypeSave \<Rightarrow>
                bindE (dolphin_state_save api caller (dl_state d2) l) (\<lambda>(_, l1). Inr (cs, d2, l1)))))"

section \<open>Drawing\<close>

definition dolphin_view_idle_main_draw ::
    "gfx \<Rightarrow> u32 \<Rightarrow> u32 \<Rightarrow> dolphin_view_main_model \<Rightarrow> canvas \<Rightarrow>
       (u8g2_call list \<times> dolphin_view_main_model \<times> canvas) res" where
  "dolphin_view_idle_main_draw g now freq m c =
     bindE (canvas_clear c) (\<lambda>(cs0, c0).
     bindE (canvas_draw_icon now freq 0 (- 3) (animation m) c0) (\<lambda>(cs1, i, c1).
       let m1 = m\<lparr>animation := i\<rparr> in
       if hint_timeout m1 > 0 then
         (let m2 = m1\<lparr>hint_timeout := hint_timeout m1 - 1\<rparr> in
          bindE (draws (if main_locked m2
                        then [canvas_draw_icon_name g 13 5 ''I_LockPopup_100x49'',
                              elements_multiline_text g 65 20 (''To unlock'' @ [newline] @ ''press:'')]
                        else [canvas_set_font FontPrimary, elements_multiline_text_framed g 42 30 ''Unlocked'']) c1) (\<lambda>(cs2, c2).
            Inr (cs0 @ cs1 @ cs2, m2, c2)))
       else Inr (cs0 @ cs1, m1, c1)))"

definition Lockmenu_Items :: "string list" where
  "Lockmenu_Items = [''Lock'', ''Set PIN'', ''DUMB mode'']"

definition lockmenu_item :: "gfx \<Rightarrow> u8 \<Rightarrow> nat \<Rightarrow> draw" where
  "lockmenu_item g idx i c =
     bindE (arr_get Lockmenu_Items i) (\<lambda>s.
       draws
         ([canvas_draw_str_aligned g 64 (13 + of_nat i * 17) AlignCenter AlignCenter s] @
          (if idx = of_nat i then [elements_frame 15 (5 + of_nat i * 17) 98 15] else [])) c)"

definition move_doors :: "dolphin_view_lock_menu_model \<Rightarrow> dolphin_view_lock_menu_model" where
  "move_doors m =
     m\<lparr>exit_timeout := exit_timeout m - 1, door_left_x := clamp (door_left_x m + 5) 0 (- 57),
       door_right_x := clamp (door_right_x m - 5) 115 60\<rparr>"

definition dolphin_view_lockmenu_draw ::
    "gfx \<Rightarrow> dolphin_view_lock_menu_model \<Rightarrow> canvas \<Rightarrow>
       (u8g2_call list \<times> dolphin_view_lock_menu_model \<times> canvas) res" where
  "dolphin_view_lockmenu_draw g m c =
     (let m1 = (if lm_locked m then move_doors m else m);
          rest = (if lm_locked m then
                    (if door_left_x m1 > - 10
                     then [canvas_set_font FontPrimary, elements_multiline_text_framed g 42 30 ''Locked'']
                     else [])
                  else
                    (if door_left_x m = - 57 then map (lockmenu_item g (lm_idx m)) [0..<3] else []))
      in bindE (draws
           ([canvas_clear, canvas_set_color ColorBlack,
             canvas_draw_icon_name g (word_of_int (door_left_x m)) 0 ''I_DoorLeft_70x55'',
             canvas_draw_icon_name g (word_of_int (door_right_x m)) 0 ''I_DoorRight_70x55'',
             canvas_set_font FontSecondary] @ rest) c) (\<lambda>(cs, c1). Inr (cs, m1, c1)))"

text \<open>\<open>name\<close> is the device's name. \<^verbatim>\<open>snprintf\<close> keeps 63 characters.\<close>

definition dolphin_view_first_start_draw :: "gfx \<Rightarrow> string \<Rightarrow> u32 \<Rightarrow> draw" where
  "dolphin_view_first_start_draw g name page c =
     (let w = canvas_width c; h = canvas_height c;
          nl = [newline];
          picture = (\<lambda>x y icon tx ty text.
            [canvas_draw_icon_name g x y icon, elements_multiline_text_framed g tx ty text]);
          rest =
            (if page = 0 then picture 0 (h - 48) ''I_DolphinFirstStart0_70x53'' 75 20
               (''Hey m8,'' @ nl @ ''press > to'' @ nl @ ''continue'')
             else if page = 1 then picture 0 (h - 48) ''I_DolphinFirstStart1_59x53'' 64 20
               (''First Of All,'' @ nl @ ''...      >'')
             else if page = 2 then picture 0 (h - 48) ''I_DolphinFirstStart2_59x51'' 64 20
               (''Thank you'' @ nl @ ''for your'' @ nl @ ''support! >'')
             else if page = 3 then picture (w - 57) (h - 48) ''I_DolphinFirstStart3_57x48'' 0 20
               (''Kickstarter'' @ nl @ ''campaign'' @ nl @ ''was INSANE! >'')
             else if page = 4 then picture (w - 67) (h - 50) ''I_DolphinFirstStart4_67x53'' 0 17
               (''Now'' @ nl @ ''allow me'' @ nl @ ''to introduce'' @ nl @ ''myself >'')
             else if page = 5 then picture 0 (h - 48) ''I_DolphinFirstStart5_45x53'' 60 17
               (take 63 (''I am '' @ name @ '','' @ nl @ ''cyberdolphin'' @ nl @ ''living in your'' @ nl @ ''pocket >''))
             else if page = 6 then picture 0 (h - 48) ''I_DolphinFirstStart6_58x54'' 63 17
               (''I can grow'' @ nl @ ''smart'' @ [CHR 0x27] @ ''n'' @ [CHR 0x27] @ ''cool'' @ nl @
                ''if you use me'' @ nl @ ''often >'')
             else if page = 7 then picture (w - 61) (h - 48) ''I_DolphinFirstStart7_61x51'' 0 17
               (''As long as'' @ nl @ ''you read, write'' @ nl @ ''and emulate >'')
             else if page = 8 then picture (w - 56) (h - 48) ''I_DolphinFirstStart8_56x51'' 0 17
               (''You can check'' @ nl @ ''my level and'' @ nl @ ''mood in the'' @ nl @ ''Passport menu'')
             else [])
      in draws ([canvas_clear, canvas_set_color ColorBlack, canvas_set_font FontSecondary] @ rest) c)"

text \<open>What \<^verbatim>\<open>api_hal_version\<close> answers, and the strings of a version.\<close>

record version_strings =
  vs_version :: string
  vs_builddate :: string
  vs_githash :: string
  vs_gitbranchnum :: string
  vs_target :: string
  vs_gitbranch :: string

record hw_version =
  hw_numbers :: "u8 \<times> u8 \<times> u8 \<times> u8"
  hw_name :: string
  boot_version :: "version_strings option"
  fw_version :: "version_strings option"

definition line64 :: "string list \<Rightarrow> string" where
  "line64 parts = take 63 (concat parts)"

definition number :: "u8 \<Rightarrow> string" where
  "number n = decimal (unat n)"

definition decimal32 :: "u32 \<Rightarrow> string" where
  "decimal32 w = (if sint w < 0 then ''-'' @ decimal (nat (- sint w)) else decimal (nat (sint w)))"

definition stats_headers :: "string list" where
  "stats_headers = [''Boot Version info:'', ''FW Version info:'', ''Dolphin info:'']"

definition stats_version :: "hw_version \<Rightarrow> u8 \<Rightarrow> version_strings option" where
  "stats_version hw screen = (if screen = DolphinViewStatsBoot then boot_version hw else fw_version hw)"

definition dolphin_view_idle_down_draw :: "hw_version \<Rightarrow> dolphin_view_stats_model \<Rightarrow> draw" where
  "dolphin_view_idle_down_draw hw m c =
     bindE (arr_get stats_headers (unat (st_screen m))) (\<lambda>header.
       let top = [canvas_set_color ColorBlack, canvas_set_font FontPrimary, canvas_draw_str 2 13 header,
                  canvas_set_font FontSecondary];
           (hv, ht, hb, hc) = hw_numbers hw
       in if st_screen m \<noteq> DolphinViewStatsMeta then
            draws
              (top @
               [canvas_draw_str 5 23 (line64 [''HW: '', number hv, ''.F'', number ht, ''B'', number hb,
                  ''C'', number hc, '' '', hw_name hw])] @
               (case stats_version hw (st_screen m) of
                  None \<Rightarrow> [canvas_draw_str 5 33 ''No info'']
                | Some ver \<Rightarrow>
                    [canvas_draw_str 5 33 (line64 [vs_version ver, '' ['', vs_builddate ver, '']'']),
                     canvas_draw_str 5 43 (line64 [vs_githash ver, '' ['', vs_gitbranchnum ver, '']'']),
                     canvas_draw_str 5 53 (line64 [''['', vs_target ver, ''] '', vs_gitbranch ver])])) c
          else
            draws
              (top @
               [canvas_set_font FontSecondary,
                canvas_draw_str 5 30 (line64 [''Icounter: '', decimal32 (st_icounter m)]),
                canvas_draw_str 5 40 (line64 [''Butthurt: '', decimal32 (st_butthurt m)]),
                canvas_draw_str 0 53 ''[< >] icounter value   [ok] save'']) c)"

text \<open>\<open>target\<close> is the target the firmware is built for.\<close>

definition dolphin_view_hw_mismatch_draw :: "string \<Rightarrow> hw_version \<Rightarrow> draw" where
  "dolphin_view_hw_mismatch_draw target hw =
     draws
       [canvas_clear, canvas_set_color ColorBlack, canvas_set_font FontPrimary,
        canvas_draw_str 2 15 ''!!!! HW Mismatch !!!!'',
        canvas_set_font FontSecondary,
        canvas_draw_str 5 27 (line64 [''HW target: F'', number (fst (snd (hw_numbers hw)))]),
        canvas_draw_str 5 37 (''FW target: '' @ target)]"

section \<open>The passport\<close>

text \<open>
  \<^verbatim>\<open>passport/passport.c\<close>: level and mood, drawn from a copy of the saved state. The fifth entry of the
  table of moods is a null pointer, which the C library prints as \<^verbatim>\<open>(null)\<close>.
\<close>

definition mood_strings :: "string option list" where
  "mood_strings = [Some ''Normal'', Some ''Ok'', Some ''Sad'', Some ''Angry'', None]"

definition passport_exp :: "(rat \<Rightarrow> rat) \<Rightarrow> dolphin_store_data \<Rightarrow> u32 res" where
  "passport_exp sqrtf st =
     (let level = dolphin_state_get_level sqrtf st in
      case (dolphin_state_xp_to_levelup (level - 1) False st, dolphin_state_xp_to_levelup level True st,
            dolphin_state_xp_to_levelup level False st) of
        (Some prev_cap, Some left, Some cap) \<Rightarrow>
          if cap - prev_cap = 0 then Inl Div_Zero else Inr ((left * 63) div (cap - prev_cap))
      | _ \<Rightarrow> Inl Out_Of_Bounds)"

definition passport_render ::
    "(rat \<Rightarrow> rat) \<Rightarrow> gfx \<Rightarrow> string \<Rightarrow> bool \<Rightarrow> dolphin_store_data \<Rightarrow> draw" where
  "passport_render sqrtf g name acq st c =
     (if \<not> acq then Inl Null_Pointer
      else bindE (passport_exp sqrtf st) (\<lambda>exp.
        bindE (arr_get mood_strings (unat (dolphin_state_get_butthurt st))) (\<lambda>m.
          draws
            [canvas_clear,
             canvas_draw_icon_name g 0 0 ''I_PassportLeft_6x47'',
             canvas_draw_icon_name g 0 47 ''I_PassportBottom_128x17'',
             canvas_draw_line 6 0 125 0, canvas_draw_line 127 2 127 47, canvas_draw_dot 126 1,
             canvas_draw_line 9 6 9 53, canvas_draw_line 10 5 52 5, canvas_draw_line 55 8 55 53,
             canvas_draw_line 10 54 54 54, canvas_draw_line 53 5 55 7,
             canvas_draw_icon_name g 14 11 ''I_DolphinOkay_41x43'',
             canvas_draw_line 59 18 124 18, canvas_draw_line 59 31 124 31, canvas_draw_line 59 44 124 44,
             canvas_draw_str 59 15 name,
             canvas_draw_str 59 28 (take 19 (''Mood: '' @ (case m of Some s \<Rightarrow> s | None \<Rightarrow> ''(null)''))),
             canvas_draw_str 59 41 (take 19 (''Level: '' @ decimal32 (dolphin_state_get_level sqrtf st))),
             canvas_set_color ColorWhite,
             canvas_draw_box (123 - ucast exp) 48 (ucast (exp + 1)) 6,
             canvas_set_color ColorBlack,
             canvas_draw_line (123 - ucast exp) 48 (123 - ucast exp) 54] c)))"

text \<open>The loop reads events, or none in time, until the back key; the result is how many redraws it asks for.\<close>

fun passport_loop :: "input_event option list \<Rightarrow> nat option" where
  "passport_loop [] = None"
| "passport_loop (Some e # es) =
     (if ev_type e = InputTypeShort \<and> ev_key e = InputKeyBack then Some 0
      else map_option Suc (passport_loop es))"
| "passport_loop (None # es) = map_option Suc (passport_loop es)"

section \<open>The lock\<close>

text \<open>
  Inputs of the locked home screen with their times, up to the one that unlocks it: each with the
  kernel's ticks and the time of \<^verbatim>\<open>HAL_GetTick\<close>.
\<close>

fun locked_inputs ::
    "'r dolphin_env \<Rightarrow> (input_event \<times> u32 \<times> u32) list \<Rightarrow> 'r dolphin \<Rightarrow> 'r dolphin res" where
  "locked_inputs env [] d = Inr d"
| "locked_inputs env ((ev, now, t) # es) d =
     (if dl_locked d then
        bindE (dolphin_view_idle_main_input env None now t ev d) (\<lambda>(_, _, d1). locked_inputs env es d1)
      else Inr d)"

definition is_press :: "input_event \<Rightarrow> bool" where
  "is_press ev \<longleftrightarrow> ev_key ev = InputKeyBack \<and> ev_type ev = InputTypeShort"

definition press_times :: "(input_event \<times> u32 \<times> u32) list \<Rightarrow> u32 list" where
  "press_times es = map (\<lambda>(_, _, t). t) (filter (\<lambda>(ev, _, _). is_press ev) es)"

text \<open>Three times in a row, each less than the timeout after the one before.\<close>

fun has_streak :: "u32 list \<Rightarrow> bool" where
  "has_streak (a # b # c # ts) \<longleftrightarrow>
     b - a < UNLOCK_RST_TIMEOUT \<and> c - b < UNLOCK_RST_TIMEOUT \<or> has_streak (b # c # ts)"
| "has_streak _ \<longleftrightarrow> False"

text \<open>No two times in a row are exactly the timeout apart.\<close>

fun never_exact :: "u32 list \<Rightarrow> bool" where
  "never_exact (a # b # ts) \<longleftrightarrow> b - a \<noteq> UNLOCK_RST_TIMEOUT \<and> never_exact (b # ts)"
| "never_exact _ \<longleftrightarrow> True"

text \<open>The same with the count of the handler: how many of the last two gaps were short.\<close>

fun streak_from :: "bool \<Rightarrow> u32 \<Rightarrow> u32 list \<Rightarrow> bool" where
  "streak_from one p [] \<longleftrightarrow> False"
| "streak_from one p (t # ts) \<longleftrightarrow>
     (if t - p < UNLOCK_RST_TIMEOUT then one \<or> streak_from True t ts else streak_from False t ts)"

lemma streak_from_spec:
  "streak_from one p ts \<longleftrightarrow>
     has_streak (p # ts) \<or> one \<and> ts \<noteq> [] \<and> hd ts - p < UNLOCK_RST_TIMEOUT"
proof (induction ts arbitrary: one p)
  case (Cons t ts)
  then show ?case by (cases ts) auto
qed simp

text \<open>Changing the animation always succeeds and does not touch the lock.\<close>

lemma switch_scene_locked:
  assumes "unat (scene_num (dl_main d)) < 2" and "0 < e_bytes env" and "e_bytes env \<le> 2"
  shows "\<exists>d1. dolphin_scene_handler_switch_scene icons (e_bytes env) rnd now d = Inr d1 \<and>
    dl_locked d1 = dl_locked d \<and> lock_count d1 = lock_count d \<and> lock_lastpress d1 = lock_lastpress d \<and>
    unat (scene_num (dl_main d1)) < 2"
proof -
  have n: "unat (of_nat (v mod e_bytes env) :: u8) < 2" for v
  proof -
    have "v mod e_bytes env < e_bytes env" using assms(2) by simp
    with assms(3) show ?thesis by (simp add: unat_of_nat_small)
  qed
  from assms(1) show ?thesis
    by (simp add: dolphin_scene_handler_switch_scene_def dol_random_def start_scene_def idle_scenes_def n
        split: prod.splits)
qed

lemma locked_input_step:
  assumes "dl_locked d" and "unat (scene_num (dl_main d)) < 2" and "0 < e_bytes env" and "e_bytes env \<le> 2"
  shows "\<exists>d1. dolphin_view_idle_main_input env new now t ev d = Inr (True, [], d1) \<and>
    dl_locked d1 = dl_locked (dolphin_lock_handler t ev d) \<and>
    lock_count d1 = lock_count (dolphin_lock_handler t ev d) \<and>
    lock_lastpress d1 = lock_lastpress (dolphin_lock_handler t ev d) \<and> unat (scene_num (dl_main d1)) < 2"
proof -
  have "unat (scene_num (dl_main (dolphin_lock_handler t ev d))) < 2"
    using assms(2) by (simp add: dolphin_lock_handler_def Let_def)
  from switch_scene_locked [OF this assms(3,4), of "e_icons env" "e_random env" now] assms(1)
  show ?thesis by (auto simp: dolphin_view_idle_main_input_def)
qed

lemma handler_other_key:
  "\<not> is_press ev \<Longrightarrow>
     dl_locked (dolphin_lock_handler t ev d) = dl_locked d \<and>
     lock_count (dolphin_lock_handler t ev d) = lock_count d \<and>
     lock_lastpress (dolphin_lock_handler t ev d) = lock_lastpress d"
  by (auto simp: dolphin_lock_handler_def Let_def is_press_def)

lemma handler_press:
  assumes "is_press ev" and "dl_locked d" and "lock_count d = (if one then 1 else 0)"
    and "t - lock_lastpress d \<noteq> UNLOCK_RST_TIMEOUT"
  shows "(dl_locked (dolphin_lock_handler t ev d) \<longleftrightarrow> \<not> (one \<and> t - lock_lastpress d < UNLOCK_RST_TIMEOUT)) \<and>
    (dl_locked (dolphin_lock_handler t ev d) \<longrightarrow>
      lock_lastpress (dolphin_lock_handler t ev d) = t \<and>
      lock_count (dolphin_lock_handler t ev d) = (if t - lock_lastpress d < UNLOCK_RST_TIMEOUT then 1 else 0))"
  using assms by (auto simp: dolphin_lock_handler_def Let_def is_press_def)

lemma locked_inputs_streak:
  assumes "0 < e_bytes env" and "e_bytes env \<le> 2"
    and "dl_locked d" and "lock_count d = (if one then 1 else 0)" and "unat (scene_num (dl_main d)) < 2"
    and "never_exact (lock_lastpress d # press_times es)"
  shows "\<exists>d'. locked_inputs env es d = Inr d' \<and>
    (\<not> dl_locked d' \<longleftrightarrow> streak_from one (lock_lastpress d) (press_times es))"
  using assms(3-)
proof (induction es arbitrary: d one)
  case Nil
  then show ?case by (simp add: press_times_def)
next
  case (Cons e es)
  obtain ev now t where e: "e = (ev, now, t)" by (cases e)
  from locked_input_step [OF Cons.prems(1,3) assms(1,2), of None now t ev] obtain d1
    where step: "dolphin_view_idle_main_input env None now t ev d = Inr (True, [], d1)"
      and d1: "dl_locked d1 = dl_locked (dolphin_lock_handler t ev d)"
        "lock_count d1 = lock_count (dolphin_lock_handler t ev d)"
        "lock_lastpress d1 = lock_lastpress (dolphin_lock_handler t ev d)"
        "unat (scene_num (dl_main d1)) < 2"
    by blast
  show ?case
  proof (cases "is_press ev")
    case False
    then have "press_times (e # es) = press_times es" by (simp add: press_times_def e)
    with Cons.IH [of d1 one] handler_other_key [OF False, of t d] Cons.prems step d1 show ?thesis
      by (simp add: e)
  next
    case True
    have ts: "press_times (e # es) = t # press_times es" using True by (simp add: press_times_def e)
    with Cons.prems(4) have ne: "t - lock_lastpress d \<noteq> UNLOCK_RST_TIMEOUT" "never_exact (t # press_times es)"
      by simp_all
    note h = handler_press [OF True Cons.prems(1,2) ne(1)]
    show ?thesis
    proof (cases "one \<and> t - lock_lastpress d < UNLOCK_RST_TIMEOUT")
      case True
      with h d1(1) have "\<not> dl_locked d1" by simp
      then have "locked_inputs env es d1 = Inr d1" by (cases es) auto
      with True step Cons.prems(1) \<open>\<not> dl_locked d1\<close> show ?thesis by (simp add: e ts[unfolded e])
    next
      case False
      with h d1 have "dl_locked d1" "lock_lastpress d1 = t"
        "lock_count d1 = (if t - lock_lastpress d < UNLOCK_RST_TIMEOUT then 1 else 0)" by simp_all
      with Cons.IH [of d1 "t - lock_lastpress d < UNLOCK_RST_TIMEOUT"] d1(4) ne(2) False step Cons.prems(1)
      show ?thesis by (auto simp: e ts[unfolded e])
    qed
  qed
qed

text \<open>
  C18. When the home screen is locked, whatever is pressed on it, it opens exactly when the back
  key is pressed three times in a row with less than the timeout (half a second) between one press
  and the next, the first of the three being possibly the last press of the time before; no other
  key and no other timing opens it. (No two presses are exactly the timeout apart: see below.)
\<close>

theorem lock_opens_exactly:
  assumes "dl_locked d" and "lock_count d = 0" and "unat (scene_num (dl_main d)) < 2"
    and "0 < e_bytes env" and "e_bytes env \<le> 2"
    and "never_exact (lock_lastpress d # press_times es)"
  shows "\<exists>d'. locked_inputs env es d = Inr d' \<and>
    (\<not> dl_locked d' \<longleftrightarrow> has_streak (lock_lastpress d # press_times es))"
  using locked_inputs_streak [OF assms(4,5,1) _ assms(3,6), of False] assms(2) streak_from_spec [of False]
  by simp

definition demo_icons :: "string \<Rightarrow> icon_data" where
  "demo_icons name = \<lparr>icon_width = 128, icon_height = 64, frame_count = 2, frame_rate = 2, frames = [1, 2]\<rparr>"

definition demo_dolphin_env :: "nat dolphin_env" where
  "demo_dolphin_env =
     (let app = \<lparr>app_callback = Some 1, app_name = Some ''Scenes'', app_stack_size = 1024\<rparr> in
      \<lparr>e_dbg = True, e_icons = demo_icons, e_bytes = 2, e_random = (\<lambda>n. (n, n + 1)), e_scene = app,
       e_archive = app\<rparr>)"

definition demo_locked :: "nat dolphin" where
  "demo_locked =
     lock_menu_callback 0
       \<lparr>dl_queue = [], dl_state = demo_store_data, dl_disp = view_dispatcher_alloc 30 31 32 33 idle_store,
        dl_scene_thread = furi_thread_alloc,
        dl_main = \<lparr>animation = icon_alloc (demo_icons ''A_Wink_128x64''), scene_num = 0, hint_timeout = 0,
                   main_locked = False\<rparr>,
        dl_first_page = 0,
        dl_lockmenu = \<lparr>lm_idx = 0, door_left_x = - 57, door_right_x = 115, exit_timeout = 0, lm_locked = False\<rparr>,
        dl_stats = \<lparr>st_icounter = 0, st_butthurt = 0, st_screen = 0\<rparr>,
        lock_viewport_enabled = False, dl_locked = False, lock_count = 0, lock_lastpress = 0,
        timer_running = True, dl_rnd = 3\<rparr>"

definition demo_presses :: "(input_event \<times> u32 \<times> u32) list" where
  "demo_presses =
     (let back = \<lparr>ev_key = InputKeyBack, ev_type = InputTypeShort\<rparr> in
      [(back, 10, 9000), (\<lparr>ev_key = InputKeyOk, ev_type = InputTypeShort\<rparr>, 20, 9100), (back, 30, 9300),
       (back, 40, 9700)])"

theorem lock_opens_exactly_witness:
  "\<exists>d'. locked_inputs demo_dolphin_env demo_presses demo_locked = Inr d' \<and> \<not> dl_locked d'"
proof -
  have p: "press_times demo_presses = [9000, 9300, 9700]"
    by (simp add: press_times_def demo_presses_def is_press_def Let_def)
  have l: "lock_lastpress demo_locked = 0"
    by (simp add: demo_locked_def lock_menu_callback_def)
  have "has_streak (lock_lastpress demo_locked # press_times demo_presses)"
    by (simp add: p l UNLOCK_RST_TIMEOUT_def)
  moreover have "\<exists>d'. locked_inputs demo_dolphin_env demo_presses demo_locked = Inr d' \<and>
      (\<not> dl_locked d' \<longleftrightarrow> has_streak (lock_lastpress demo_locked # press_times demo_presses))"
  proof (rule lock_opens_exactly)
    show "never_exact (lock_lastpress demo_locked # press_times demo_presses)"
      by (simp add: p l UNLOCK_RST_TIMEOUT_def)
  qed (simp_all add: demo_locked_def lock_menu_callback_def demo_dolphin_env_def Let_def)
  ultimately show ?thesis by blast
qed

text \<open>A press exactly at the timeout is neither counted nor starts a new count.\<close>

lemma exact_press_ignored:
  "t - lock_lastpress d = UNLOCK_RST_TIMEOUT \<Longrightarrow> lock_count d \<noteq> 2 \<Longrightarrow>
     lock_count (dolphin_lock_handler t ev d) = lock_count d \<and>
     lock_lastpress (dolphin_lock_handler t ev d) = lock_lastpress d"
  by (auto simp: dolphin_lock_handler_def Let_def)

section \<open>Starting\<close>

lemma idle_ids_distinct [simp]:
  "DolphinViewFirstStart \<noteq> DolphinViewIdleMain" "DolphinViewIdleMain \<noteq> DolphinViewFirstStart"
  "DolphinViewLockMenu \<noteq> DolphinViewFirstStart" "DolphinViewFirstStart \<noteq> DolphinViewLockMenu"
  "DolphinViewLockMenu \<noteq> DolphinViewIdleMain" "DolphinViewIdleMain \<noteq> DolphinViewLockMenu"
  "DolphinViewStats \<noteq> DolphinViewFirstStart" "DolphinViewFirstStart \<noteq> DolphinViewStats"
  "DolphinViewStats \<noteq> DolphinViewIdleMain" "DolphinViewIdleMain \<noteq> DolphinViewStats"
  "DolphinViewStats \<noteq> DolphinViewLockMenu" "DolphinViewLockMenu \<noteq> DolphinViewStats"
  "DolphinViewHwMismatch \<noteq> DolphinViewFirstStart" "DolphinViewFirstStart \<noteq> DolphinViewHwMismatch"
  "DolphinViewHwMismatch \<noteq> DolphinViewIdleMain" "DolphinViewIdleMain \<noteq> DolphinViewHwMismatch"
  "DolphinViewHwMismatch \<noteq> DolphinViewLockMenu" "DolphinViewLockMenu \<noteq> DolphinViewHwMismatch"
  "DolphinViewHwMismatch \<noteq> DolphinViewStats" "DolphinViewStats \<noteq> DolphinViewHwMismatch"
  by (simp_all add: idle_views)

text \<open>A switch to a view that the dispatcher has makes it the current one.\<close>

lemma set_current_some:
  "\<exists>cs p. view_dispatcher_set_current_view dbg (Some a) d = Inr (cs, set_port p (d\<lparr>disp_current := Some a\<rparr>))"
  by (auto simp: view_dispatcher_set_current_view_def Let_def case_prod_beta)

lemma idle_switch_known:
  assumes "map_of (disp_views (dl_disp d)) i = Some a" and "i \<notin> {VIEW_NONE, VIEW_IGNORE, VIEW_DESTROY}"
  shows "\<exists>cs disp. idle_switch_to_view dbg i d = Inr (cs, d\<lparr>dl_disp := disp\<rparr>) \<and>
    disp_current disp = Some a \<and> disp_views disp = disp_views (dl_disp d)"
proof -
  obtain cs p where "view_dispatcher_set_current_view dbg (Some a) (dl_disp d) =
      Inr (cs, set_port p ((dl_disp d)\<lparr>disp_current := Some a\<rparr>))"
    using set_current_some by blast
  with assms show ?thesis
    by (auto simp: idle_switch_to_view_def view_dispatcher_switch_to_view_def furi_check_def set_port_def)
qed

lemma idle_switch_unknown:
  assumes "map_of (disp_views (dl_disp d)) i = None" and "i \<notin> {VIEW_NONE, VIEW_IGNORE, VIEW_DESTROY}"
  shows "idle_switch_to_view dbg i d = Inl Check_Failed"
  using assms by (simp add: idle_switch_to_view_def view_dispatcher_switch_to_view_def)

definition idle_table :: "(u32 \<times> nat) list" where
  "idle_table =
     map (\<lambda>i. (i, view_addr i))
       [DolphinViewFirstStart, DolphinViewIdleMain, DolphinViewLockMenu, DolphinViewStats, DolphinViewHwMismatch]"

lemma dispatcher_made:
  "\<exists>disp. dolphin_dispatcher dbg = Inr disp \<and>
     disp_views disp =
       idle_table"
  by (simp add: idle_table_def dolphin_dispatcher_def add_idle_views_def view_dispatcher_add_view_def view_dispatcher_alloc_def
      view_dispatcher_attach_to_gui_def Let_def)

lemma ids_not_special [simp]:
  "DolphinViewIdleMain \<notin> {VIEW_NONE, VIEW_IGNORE, VIEW_DESTROY}"
  "DolphinViewFirstStart \<notin> {VIEW_NONE, VIEW_IGNORE, VIEW_DESTROY}"
  "DolphinViewHwMismatch \<notin> {VIEW_NONE, VIEW_IGNORE, VIEW_DESTROY}"
  by (simp_all add: idle_views view_ids)

lemma alloc_succeeds:
  assumes "0 < e_bytes env" and "e_bytes env \<le> 2"
  shows "\<exists>d. dolphin_alloc env now st r = Inr d \<and>
    disp_views (dl_disp d) =
      idle_table \<and>
    dl_state d = st"
proof -
  obtain disp where disp: "dolphin_dispatcher (e_dbg env) = Inr disp"
    "disp_views disp =
       idle_table"
    using dispatcher_made by blast
  have "v mod e_bytes env < length idle_scenes" for v
    using assms mod_less_divisor [OF assms(1), of v] unfolding idle_scenes_def by simp
  with disp show ?thesis by (simp add: dolphin_alloc_def split: prod.splits)
qed

lemma shown_views_known [simp]:
  "map_of idle_table DolphinViewIdleMain = Some (view_addr DolphinViewIdleMain)"
  "map_of idle_table DolphinViewFirstStart = Some (view_addr DolphinViewFirstStart)"
  "map_of idle_table DolphinViewHwMismatch = Some (view_addr DolphinViewHwMismatch)"
  by (simp_all add: idle_table_def idle_views)

lemma switch_to_shown:
  assumes "disp_views (dl_disp d) = idle_table"
    and "i \<in> {DolphinViewIdleMain, DolphinViewFirstStart, DolphinViewHwMismatch}"
  shows "\<exists>cs disp. idle_switch_to_view dbg i d = Inr (cs, d\<lparr>dl_disp := disp\<rparr>) \<and>
    disp_current disp = Some (view_addr i) \<and> disp_views disp = idle_table"
proof -
  have "map_of (disp_views (dl_disp d)) i = Some (view_addr i)"
    unfolding assms(1) using assms(2) shown_views_known by blast
  moreover have "i \<notin> {VIEW_NONE, VIEW_IGNORE, VIEW_DESTROY}"
    using assms(2) ids_not_special by (elim insertE emptyE) simp_all
  moreover note assms(1)
  ultimately show ?thesis using idle_switch_known [of d i "view_addr i" dbg] by simp
qed



text \<open>The start, given what the storage answers.\<close>

lemma starts_at:
  assumes "0 < e_bytes env" and "e_bytes env \<le> 2"
    and load: "dolphin_state_load api caller junk st l = Inr ((loaded, st1), l1)"
  shows "\<exists>d. dolphin_task_start env api caller junk now st r mine l = Inr (d, l1) \<and>
    disp_current (dl_disp d) =
      Some (view_addr (if \<not> mine then DolphinViewHwMismatch
                       else if loaded then DolphinViewIdleMain else DolphinViewFirstStart)) \<and>
    dl_state d = st1 \<and> st_icounter (dl_stats d) = icounter st1 \<and> st_butthurt (dl_stats d) = butthurt st1"
proof -
  obtain d where d: "dolphin_alloc env now st r = Inr d" "dl_state d = st" "disp_views (dl_disp d) = idle_table"
    using alloc_succeeds [OF assms(1,2)] by blast
  let ?i = "if loaded then DolphinViewIdleMain else DolphinViewFirstStart"
  obtain cs disp where
    sw: "idle_switch_to_view (e_dbg env) ?i (d\<lparr>dl_state := st1\<rparr>) = Inr (cs, d\<lparr>dl_state := st1, dl_disp := disp\<rparr>)"
      and disp: "disp_current disp = Some (view_addr ?i)" "disp_views disp = idle_table"
    using switch_to_shown [of "d\<lparr>dl_state := st1\<rparr>" ?i "e_dbg env"] d(3) by (cases loaded) auto
  define d3 where "d3 = show_stats (d\<lparr>dl_state := st1, dl_disp := disp\<rparr>)"
  have d3: "dl_disp d3 = disp" "dl_state d3 = st1" "st_icounter (dl_stats d3) = icounter st1"
    "st_butthurt (dl_stats d3) = butthurt st1"
    by (simp_all add: d3_def show_stats_def dolphin_state_get_icounter_def dolphin_state_get_butthurt_def)
  have start: "dolphin_task_start env api caller junk now st r mine l =
      bindE (if \<not> mine then idle_switch_to_view (e_dbg env) DolphinViewHwMismatch d3 else Inr ([], d3))
        (\<lambda>(_, d4). Inr (d4, l1))"
    by (simp add: dolphin_task_start_def d load sw d3_def Let_def)
  show ?thesis
  proof (cases mine)
    case True
    with start d3 disp show ?thesis by auto
  next
    case False
    from switch_to_shown [of d3 DolphinViewHwMismatch "e_dbg env"] d3(1) disp(2) obtain cs1 disp1 where
      "idle_switch_to_view (e_dbg env) DolphinViewHwMismatch d3 = Inr (cs1, d3\<lparr>dl_disp := disp1\<rparr>)"
      "disp_current disp1 = Some (view_addr DolphinViewHwMismatch)" by auto
    with False start d3 show ?thesis by auto
  qed
qed

lemma load_stored:
  assumes "lfs_contract api files handle" and "files (lfs s) ''dolphin_state'' = Some (stored d)"
    and "service_idle s" and "t \<notin> flags s" and "length junk = store_size"
  shows "\<exists>s1. dolphin_state_load api (Some t) junk d1 s = Inr ((True, d), s1)"
  using dolphin_load_file [OF assms(1-4), of junk d1] assms(5) by (simp add: store_size_def) (simp add: stored_def)

text \<open>
  C32. What the device shows when it starts. The storage holds what a save wrote, except that one byte
  of it (not in the checksum, flags or timestamp of its header) may have been changed to \<open>b\<close>; the file
  system works as documented, the storage service is idle and no completion flag is pending. Then the
  start never fails; on hardware that the firmware was not built for the warning is shown; otherwise
  the home screen, with the saved state and its figures in the statistics, if the byte was not changed,
  and the first start pages, with the state of a new device, if it was.
\<close>

theorem dolphin_starts:
  assumes env: "0 < e_bytes env" "e_bytes env \<le> 2"
    and con: "lfs_contract api files handle"
    and held: "files (lfs s) ''dolphin_state'' = Some ((stored d0)[i := b])"
    and i: "i < store_size" "i \<notin> {2, 3, 4, 5, 6, 7}"
    and idle: "service_idle s" "t \<notin> flags s" and junk: "length junk = store_size"
  shows "\<exists>d s1. dolphin_task_start env api (Some t) junk now st r mine s = Inr (d, s1) \<and>
    disp_current (dl_disp d) =
      Some (view_addr (if \<not> mine then DolphinViewHwMismatch
                       else if b = stored d0 ! i then DolphinViewIdleMain else DolphinViewFirstStart)) \<and>
    dl_state d = (if b = stored d0 ! i then d0 else st) \<and>
    st_icounter (dl_stats d) = icounter (dl_state d) \<and> st_butthurt (dl_stats d) = butthurt (dl_state d)"
proof (cases "b = stored d0 ! i")
  case True
  with held have "files (lfs s) ''dolphin_state'' = Some (stored d0)" by simp
  from load_stored [OF con this idle junk] obtain s1 where
    "dolphin_state_load api (Some t) junk st s = Inr ((True, d0), s1)" by blast
  from starts_at [OF env this, of now r mine] True show ?thesis by auto
next
  case False
  from dolphin_load_detects [OF con junk idle held i False] obtain s1 where
    "dolphin_state_load api (Some t) junk st s = Inr ((False, st), s1)" by blast
  from starts_at [OF env this, of now r mine] False show ?thesis by auto
qed

theorem dolphin_starts_witness:
  "\<exists>d s1. dolphin_task_start demo_dolphin_env (mem_lfs 0) (Some 1) (replicate 36 0xAA) 5
      (dolphin_state_clear demo_store_data) 7 True
      (idle_storage [''dolphin_state'' \<mapsto> (stored demo_store_data)[0 := 0xD0]]) = Inr (d, s1) \<and>
    disp_current (dl_disp d) = Some (view_addr DolphinViewIdleMain) \<and> dl_state d = demo_store_data"
proof -
  let ?s = "idle_storage [''dolphin_state'' \<mapsto> (stored demo_store_data)[0 := 0xD0]]"
  have env: "0 < e_bytes demo_dolphin_env" "e_bytes demo_dolphin_env \<le> 2"
    by (simp_all add: demo_dolphin_env_def Let_def)
  have held: "(lfs ?s) ''dolphin_state'' = Some ((stored demo_store_data)[0 := 0xD0])" by simp
  have same: "0xD0 = stored demo_store_data ! 0" by (simp add: stored_def)
  from dolphin_starts [where files = "\<lambda>l. l" and handle = "\<lambda>f. f" and t = 1 and junk = "replicate 36 0xAA" and
      now = 5 and st = "dolphin_state_clear demo_store_data" and r = 7 and mine = True,
      OF env mem_lfs_contract [of 0] held]
  show ?thesis unfolding same [symmetric] by (auto simp: store_size_def)
qed

section \<open>Leaving the lock screen\<close>

text \<open>One period of the timer: the doors move as the menu is redrawn, and the tick is handled.\<close>

definition lock_screen_round ::
    "'r dolphin_env \<Rightarrow> ('l, 'f) lfs_api \<Rightarrow> nat option \<Rightarrow> 'r dolphin \<times> 'l storage_system \<Rightarrow>
       ('r dolphin \<times> 'l storage_system) res" where
  "lock_screen_round env api caller = (\<lambda>(d, l).
     bindE (dolphin_task_round env api caller
              (lock_menu_refresh_handler (d\<lparr>dl_lockmenu := move_doors (dl_lockmenu d)\<rparr>), l)) (\<lambda>(_, dl). Inr dl))"

fun lock_screen_rounds ::
    "nat \<Rightarrow> 'r dolphin_env \<Rightarrow> ('l, 'f) lfs_api \<Rightarrow> nat option \<Rightarrow> 'r dolphin \<times> 'l storage_system \<Rightarrow>
       ('r dolphin \<times> 'l storage_system) res" where
  "lock_screen_rounds 0 env api caller dl = Inr dl"
| "lock_screen_rounds (Suc n) env api caller dl =
     bindE (lock_screen_round env api caller dl) (lock_screen_rounds n env api caller)"

lemma lock_round_waits:
  assumes "lm_locked (dl_lockmenu d)" and "dl_queue d = []" and "exit_timeout (dl_lockmenu d) \<noteq> 1"
  shows "lock_screen_round env api caller (d, l) = Inr (d\<lparr>dl_lockmenu := move_doors (dl_lockmenu d)\<rparr>, l)"
  using assms
  by (simp add: lock_screen_round_def dolphin_task_round_def lock_menu_refresh_handler_def move_doors_def)

lemma lock_round_leaves:
  assumes "lm_locked (dl_lockmenu d)" and "dl_queue d = []" and "exit_timeout (dl_lockmenu d) = 1"
    and "timer_running d" and "map_of (disp_views (dl_disp d)) DolphinViewIdleMain = Some a"
  shows "\<exists>d'. lock_screen_round env api caller (d, l) = Inr (d', l) \<and> disp_current (dl_disp d') = Some a \<and>
    \<not> timer_running d' \<and> dl_locked d' = dl_locked d"
proof -
  let ?d = "d\<lparr>dl_lockmenu := move_doors (dl_lockmenu d), dl_queue := [], timer_running := False\<rparr>"
  obtain cs disp where "idle_switch_to_view (e_dbg env) DolphinViewIdleMain ?d = Inr (cs, ?d\<lparr>dl_disp := disp\<rparr>)"
    and "disp_current disp = Some a"
    using idle_switch_known [of ?d DolphinViewIdleMain a "e_dbg env"] assms(5) ids_not_special(1) by auto
  with assms show ?thesis
    by (simp add: lock_screen_round_def dolphin_task_round_def lock_menu_refresh_handler_def move_doors_def)
qed

text \<open>
  After the device is locked from its menu the doors close and, once the time set for it has
  passed (forty periods of the timer, each with one redraw and one tick handled), the task goes back to
  the home screen and stops the timer; the device is still locked.
\<close>

theorem lock_screen_leaves:
  assumes "timer_running d" and "dl_queue d = []"
    and "map_of (disp_views (dl_disp d)) DolphinViewIdleMain = Some a"
  shows "\<exists>d'. lock_screen_rounds 40 env api caller (lock_menu_callback 0 d, l) = Inr (d', l) \<and>
    disp_current (dl_disp d') = Some a \<and> \<not> timer_running d' \<and> dl_locked d'"
proof -
  have rounds: "\<exists>d'. lock_screen_rounds n env api caller (d, l) = Inr (d', l) \<and>
      disp_current (dl_disp d') = Some a \<and> \<not> timer_running d' \<and> dl_locked d'"
    if "unat (exit_timeout (dl_lockmenu d)) = n" "0 < n" "lm_locked (dl_lockmenu d)" "dl_locked d"
      "timer_running d" "dl_queue d = []"
      "map_of (disp_views (dl_disp d)) DolphinViewIdleMain = Some a" for n and d :: "'a dolphin"
    using that
  proof (induction n arbitrary: d)
    case (Suc n)
    show ?case
    proof (cases n)
      case 0
      with Suc.prems(1) have "unat (exit_timeout (dl_lockmenu d)) = unat (1 :: u8)" by simp
      then have "exit_timeout (dl_lockmenu d) = 1" by (simp only: word_unat_eq_iff)
      from lock_round_leaves [OF Suc.prems(3,6) this Suc.prems(5,7), of env api caller l] Suc.prems(4) 0
      show ?thesis by auto
    next
      case (Suc m)
      let ?d = "d\<lparr>dl_lockmenu := move_doors (dl_lockmenu d)\<rparr>"
      from Suc Suc.prems(1) have "exit_timeout (dl_lockmenu d) \<noteq> 1" by auto
      from lock_round_waits [OF Suc.prems(3,6) this, of env api caller l]
      have r: "lock_screen_round env api caller (d, l) = Inr (?d, l)" .
      have nz: "exit_timeout (dl_lockmenu d) \<noteq> 0" using Suc.prems(1) by auto
      have "unat (exit_timeout (dl_lockmenu ?d)) = n"
        using Suc.prems(1) nz by (simp add: move_doors_def dec_unat)
      with Suc.IH [of ?d] Suc Suc.prems(3-7) r show ?thesis by (simp add: move_doors_def)
    qed
  qed simp
  have "unat (exit_timeout (dl_lockmenu (lock_menu_callback 0 d))) = 40"
    by (simp add: lock_menu_callback_def HINT_TIMEOUT_H_def)
  then show ?thesis
    by (rule rounds) (use assms in \<open>simp_all add: lock_menu_callback_def\<close>)
qed

section \<open>What the home screen gets wrong\<close>

text \<open>
  If the lock menu is redrawn twice between two messages at the end of that time, the task misses the
  zero, and the counter starts again from 255.
\<close>

lemma missed_exit: "exit_timeout m = 0 \<Longrightarrow> exit_timeout (move_doors m) = 255"
  by (simp add: move_doors_def)

text \<open>The titles of the two version screens are swapped.\<close>

lemma stats_titles_swapped:
  "arr_get stats_headers (unat DolphinViewStatsFw) = Inr ''Boot Version info:'' \<and>
   stats_version hw DolphinViewStatsFw = fw_version hw \<and>
   arr_get stats_headers (unat DolphinViewStatsBoot) = Inr ''FW Version info:'' \<and>
   stats_version hw DolphinViewStatsBoot = boot_version hw"
  by (simp add: stats_headers_def stats_screens stats_version_def)

text \<open>Starting an application while the last one still runs is a failed assertion in a debug build.\<close>

lemma second_start_asserts:
  assumes "thread_state (dl_scene_thread d) \<noteq> FuriThreadStateStopped"
  shows "dolphin_switch_to_app True new app d = Inl Assert_Failed"
  using assms by (auto simp: dolphin_switch_to_app_def loader_set_up_def furi_thread_set_name_def furi_assert_def)

text \<open>No input shows the icon of the lock in the status bar: it is switched off and never on.\<close>

lemma lock_icon_switch:
  "idle_switch_to_view dbg i d = Inr (cs, d1) \<Longrightarrow> lock_viewport_enabled d1 = lock_viewport_enabled d"
  by (auto simp: idle_switch_to_view_def bindE_eq_Inr)

lemma lock_icon_app:
  "dolphin_switch_to_app dbg new app d = Inr (cs, d1) \<Longrightarrow> lock_viewport_enabled d1 = lock_viewport_enabled d"
  by (auto simp: dolphin_switch_to_app_def bindE_eq_Inr furi_assert_eq_Inr split: prod.splits)

lemma lock_icon_never_on:
  assumes "idle_handler env new now t ev a d = Inr (consumed, cs, d1)" and "\<not> lock_viewport_enabled d"
  shows "\<not> lock_viewport_enabled d1"
proof -
  have main: "\<not> lock_viewport_enabled d1"
    if "dolphin_view_idle_main_input env new now t ev d = Inr (consumed, cs, d1)"
    using that assms(2)
    by (auto simp: dolphin_view_idle_main_input_def Let_def bindE_eq_Inr dolphin_scene_handler_switch_scene_def
        dol_random_def start_scene_def dolphin_lock_handler_def sum.map_id0 map_sum_def[abs_def]
        split: if_splits prod.splits sum.splits dest!: lock_icon_switch lock_icon_app)
  have "\<not> lock_viewport_enabled d1"
    if "dolphin_view_first_start_input (e_dbg env) ev d = Inr (consumed, cs, d1)"
    using that assms(2)
    by (auto simp: dolphin_view_first_start_input_def Let_def bindE_eq_Inr dolphin_save_def
        split: if_splits dest!: lock_icon_switch)
  moreover have "\<not> lock_viewport_enabled d1"
    if "dolphin_view_idle_down_input (e_dbg env) ev d = Inr (consumed, cs, d1)"
    using that assms(2)
    by (auto simp: dolphin_view_idle_down_input_def Let_def bindE_eq_Inr dolphin_save_def send_deed_def
        split: if_splits dest!: lock_icon_switch)
  moreover have "\<not> lock_viewport_enabled d1"
    if "dolphin_view_lockmenu_input env now ev d = Inr (consumed, cs, d1)"
    using that assms(2)
    by (auto simp: dolphin_view_lockmenu_input_def Let_def bindE_eq_Inr lock_menu_callback_def dol_random_def
        dolphin_scene_handler_set_scene_def start_scene_def case_prod_beta
        split: if_splits dest!: lock_icon_switch)
  ultimately show ?thesis
    using assms main by (auto simp: idle_handler_def split: if_splits)
qed

text \<open>A mood out of the saved state that is not one of the five is read from behind the table.\<close>

lemma passport_mood_unchecked:
  assumes "5 \<le> unat (butthurt st)" and "passport_exp sqrtf st = Inr e"
  shows "passport_render sqrtf g name True st c = Inl Out_Of_Bounds"
  using assms by (simp add: passport_render_def mood_strings_def dolphin_state_get_butthurt_def)

end
