(* ===== verification/DolphinScene.thy ===== *)
theory DolphinScene
  imports AppLoader Canvas Input
begin

text \<open>
  The dolphin's room, \<^verbatim>\<open>applications/dolphin/scenes\<close>: a state machine of activities
  (\<^verbatim>\<open>scene_dolphin_state.c\<close>), the movement and the keys (\<^verbatim>\<open>scene_controls.c\<close>), the things in the room
  (\<^verbatim>\<open>assets/items.c\<close>), the drawing (\<^verbatim>\<open>scene_gfx.c\<close>) and the task (\<^verbatim>\<open>scene.c\<close>).

  \<open>rnd\<close> is \<^verbatim>\<open>random()\<close> of the C library: a state of type \<open>'r\<close> that gives a number and a new state.
  The signed coordinates are integers: the properties show that they stay within the world.
\<close>

section \<open>State\<close>

definition SCREEN_WIDTH :: int where "SCREEN_WIDTH = 128"
definition DOLPHIN_WIDTH :: int where "DOLPHIN_WIDTH = 32"
definition DOLPHIN_CENTER :: int where "DOLPHIN_CENTER = SCREEN_WIDTH div 2 - DOLPHIN_WIDTH div 2"
definition SPEED_X :: int where "SPEED_X = 2"
definition ACTIONS_NUM :: nat where "ACTIONS_NUM = 5"
definition DOLPHIN_DEFAULT_Y :: int where "DOLPHIN_DEFAULT_Y = 20"
definition WORLD_WIDTH :: int where "WORLD_WIDTH = 2048"
definition LAYERS :: nat where "LAYERS = 8"
definition SCENE_ZOOM :: int where "SCENE_ZOOM = 9"
definition DOLPHIN_LAYER :: nat where "DOLPHIN_LAYER = 6"
definition PARALLAX_MOD :: int where "PARALLAX_MOD = 7"

text \<open>
  \<^verbatim>\<open>PARALLAX(layer)\<close> is not in brackets: \<^verbatim>\<open>a * PARALLAX(l)\<close> is \<^verbatim>\<open>a * l / 7 - l\<close>.
\<close>

definition times_parallax :: "int \<Rightarrow> u8 \<Rightarrow> int" where
  "times_parallax a l = (a * uint l) sdiv PARALLAX_MOD - uint l"

text \<open>\<^verbatim>\<open>enum Actions\<close>; the state keeps an action in a byte.\<close>

definition SLEEP :: u8 where "SLEEP = 0"
definition IDLE :: u8 where "IDLE = 1"
definition WALK :: u8 where "WALK = 2"
definition EMOTE :: u8 where "EMOTE = 3"
definition INTERACT :: u8 where "INTERACT = 4"
definition MINDCONTROL :: u8 where "MINDCONTROL = 5"

lemmas action_codes = SLEEP_def IDLE_def WALK_def EMOTE_def INTERACT_def MINDCONTROL_def

definition default_timeout :: "u16 list" where
  "default_timeout = [300, 100, 100, 50, 10, 50]"

record scene_state =
  player_x :: int
  player_y :: int
  global_x :: int
  v_x :: int
  screen_x :: int
  screen_y :: int
  dolphin_gfx :: string
  dolphin_gfx_b :: string
  player_flipped :: bool
  use_pending :: bool
  scene_debug :: bool
  player_anim :: u8
  scene_id :: u8
  emote_id :: u8
  previous_emote :: u8
  dialogue_id :: u8
  action_timeout :: u32
  poi :: u8
  action :: u8
  next_action :: u8
  prev_action :: u8
  zoom_v :: int
  scene_zoom :: int
  dialog_progress :: u8
  scene_app_thread :: "furi_thread list"

text \<open>
  \<^verbatim>\<open>scene_app_thread\<close> points to the head of the list; the rest of the list are the instances it
  pointed to before, which nothing releases.
\<close>

section \<open>Keys and movement\<close>

definition dolphin_scene_handle_user_input :: "input_event \<Rightarrow> scene_state \<Rightarrow> scene_state" where
  "dolphin_scene_handle_user_input ev s0 =
     (let k = ev_key ev; t = ev_type ev;
          s1 = (if t = InputTypeShort \<and> k = InputKeyUp then s0\<lparr>scene_debug := \<not> scene_debug s0\<rparr> else s0);
          s2 = (if t = InputTypePress \<and> (k = InputKeyLeft \<or> k = InputKeyRight \<or> k = InputKeyOk)
                then s1\<lparr>action := MINDCONTROL\<rparr> else s1);
          s3 = (if t = InputTypePress then
                  (if k = InputKeyDown then s2\<lparr>zoom_v := SPEED_X\<rparr> else s2)
                else if t = InputTypeRelease then
                  (if k = InputKeyDown then s2\<lparr>zoom_v := - SPEED_X * 2, dialog_progress := 0\<rparr> else s2)
                else s2)
      in if action s3 = MINDCONTROL then
           (if t = InputTypePress then
              (if k = InputKeyRight then s3\<lparr>player_flipped := False, v_x := SPEED_X\<rparr>
               else if k = InputKeyLeft then s3\<lparr>player_flipped := True, v_x := - SPEED_X\<rparr>
               else s3)
            else if t = InputTypeRelease then
              (if k = InputKeyRight \<or> k = InputKeyLeft then s3\<lparr>v_x := 0\<rparr> else s3)
            else if t = InputTypeShort then
              (if k = InputKeyOk
               then s3\<lparr>prev_action := MINDCONTROL, action := INTERACT, use_pending := True,
                       action_timeout := 0\<rparr>
               else s3)
            else s3)
         else s3)"

text \<open>The time since the last tick, \<open>dt\<close>, is not used.\<close>

definition dolphin_scene_coordinates :: "u32 \<Rightarrow> scene_state \<Rightarrow> scene_state" where
  "dolphin_scene_coordinates dt s0 =
     (let s1 = s0\<lparr>global_x := clamp (global_x s0 + v_x s0) WORLD_WIDTH 0\<rparr>;
          s2 = s1\<lparr>scene_zoom := clamp (scene_zoom s1 + zoom_v s1) SCENE_ZOOM 0\<rparr>;
          s3 = s2\<lparr>player_x := clamp (player_x s2 - zoom_v s2 * (SPEED_X * 2)) DOLPHIN_CENTER 0\<rparr>;
          s4 = s3\<lparr>player_y := clamp (player_y s3 - (zoom_v s3 * SPEED_X) sdiv 2) DOLPHIN_DEFAULT_Y 3\<rparr>
      in s4\<lparr>screen_x := global_x s4 - player_x s4,
            player_anim := word_of_int ((global_x s4 sdiv 10) smod 2)\<rparr>)"

section \<open>Activities\<close>

text \<open>The loop of \<^verbatim>\<open>roll_new\<close> has one round, or none when \<open>prev\<close> is 999.\<close>

definition roll_new :: "('r \<Rightarrow> nat \<times> 'r) \<Rightarrow> u16 \<Rightarrow> nat \<Rightarrow> 'r \<Rightarrow> u16 \<times> 'r" where
  "roll_new rnd prev mx r =
     (if 999 \<noteq> prev then (case rnd r of (v, r1) \<Rightarrow> (of_nat (v mod mx), r1)) else (999, r))"

definition scene_proceed_action ::
    "('r \<Rightarrow> nat \<times> 'r) \<Rightarrow> scene_state \<times> 'r \<Rightarrow> (scene_state \<times> 'r) res" where
  "scene_proceed_action rnd = (\<lambda>(s0, r).
     let s1 = s0\<lparr>prev_action := action s0\<rparr>;
         (a, r1) = (if prev_action s1 \<noteq> next_action s1 then (next_action s1, r)
                    else (case roll_new rnd (ucast (next_action s1)) ACTIONS_NUM r of (v, r1) \<Rightarrow> (ucast v, r1)));
         s2 = s1\<lparr>action := a\<rparr>
     in bindE (arr_get default_timeout (unat (action s2))) (\<lambda>t.
          Inr (s2\<lparr>action_timeout := ucast t\<rparr>, r1)))"

definition scene_dolphin_go_to_poi :: "scene_state \<Rightarrow> scene_state" where
  "scene_dolphin_go_to_poi s =
     (if global_x s < uint (poi s) then s\<lparr>player_flipped := False, v_x := SPEED_X div 2\<rparr>
      else if global_x s > uint (poi s) then s\<lparr>player_flipped := True, v_x := (- SPEED_X) sdiv 2\<rparr>
      else s)"

definition scene_action_handler ::
    "('r \<Rightarrow> nat \<times> 'r) \<Rightarrow> scene_state \<times> 'r \<Rightarrow> (scene_state \<times> 'r) res" where
  "scene_action_handler rnd = (\<lambda>(s0, r0).
     bindE (if action s0 = MINDCONTROL \<and> v_x s0 \<noteq> 0
            then bindE (arr_get default_timeout (unat (action s0))) (\<lambda>t.
                   Inr (s0\<lparr>action_timeout := ucast t\<rparr>))
            else Inr s0) (\<lambda>s1.
     if action_timeout s1 > 0 then Inr (s1\<lparr>action_timeout := action_timeout s1 - 1\<rparr>, r0)
     else
       (case rnd r0 of (v, r1) \<Rightarrow>
          if v mod 1000 > 500 then
            (case roll_new rnd (ucast (prev_action s1)) ACTIONS_NUM r1 of (a, r2) \<Rightarrow>
               let s2 = s1\<lparr>next_action := ucast a\<rparr> in
               case roll_new rnd (word_of_int (global_x s2)) (nat (WORLD_WIDTH div 4)) r2 of (p, r3) \<Rightarrow>
                 Inr (s2\<lparr>poi := ucast p\<rparr>, r3))
          else Inr (s1, r1))))"

definition emotes_list :: "string list" where
  "emotes_list =
    [''(O_o)'', ''(!_?)'', ''(^_^)'', ''(*__*)'', ''(@_@)'', ''(X_x)'', ''(>_<)'', ''(^ ^)'',
     ''(^_^)'', ''(-_-)'', ''(~_~)'', ''(#^.^#)'', ''(^ ^)'', ''(^.^)'', ''(-.-)'', ''zZzZ'',
     ''(^_-)'', ''(^_-)'', ''(+_+)'', ''(+o+)'',
     ''('' @ [CHR 0x27] @ '' '' @ [CHR 0x27] @ '')'',
     ''('' @ [CHR 0x27] @ ''-'' @ [CHR 0x27] @ '')'',
     ''('' @ [CHR 0x27] @ ''.'' @ [CHR 0x27] @ '')'',
     ''('' @ [CHR 0x27] @ ''_'' @ [CHR 0x27] @ '')'', ''(* > *)'', ''(o o)'', ''(^_^)'',
     ''(^O^)'', ''(^o^)'', ''(^o^)'', ''(._.)'', ''(_^_)'',
     ''('' @ [CHR 0x27] @ ''_'' @ [CHR 0x27] @ '')'', ''('' @ [CHR 0x27] @ ''_;)'', ''(T_T)'',
     ''(;_;)'',
     ''('' @ [CHR 0xE3] @ [CHR 0x83] @ [CHR 0xBC] @ ''_'' @ [CHR 0xE3] @ [CHR 0x83] @ [CHR 0xBC] @ '')'',
     ''(-.-)'', ''(^o^)'', ''(-_-)'', ''(=_=)'', ''(=^ ^=)'', ''(. .)'', ''(._.)'', ''( ^m^)'',
     ''(?_?)'', ''(*^_^*)'', ''(^<^)'', ''(^.^)'', ''(^'' @ [CHR 0xC2] @ [CHR 0xB7] @ ''^)'',
     ''(^.^)'', ''(^_^.)'', ''(^_^)'', ''(^^)'', ''(^J^)'', ''(*^.^*)'', ''(#^.^#)'',
     ''(~o~)'', ''(^o^)'', ''(-o-)'', ''(^. ^)'', ''(^o^)'', ''(*^0^*)'', ''(*_*)'',
     ''(~ o ~)'', ''(~_~)'', ''(p_-)'', ''d[-_-]b'', ''(^0_0^)'', ''- ^ -'']"

text \<open>
  \<^verbatim>\<open>dolphin_scene_update_state\<close>: one branch per activity. The branches that do not end in a
  \<^verbatim>\<open>break\<close> run into the next: \<open>idle_update\<close> is the default one. The times are not used.
\<close>

definition idle_update :: "('r \<Rightarrow> nat \<times> 'r) \<Rightarrow> scene_state \<times> 'r \<Rightarrow> (scene_state \<times> 'r) res" where
  "idle_update rnd = (\<lambda>(s, r). if action_timeout s = 0 then scene_proceed_action rnd (s, r) else Inr (s, r))"

definition walk_update :: "('r \<Rightarrow> nat \<times> 'r) \<Rightarrow> scene_state \<times> 'r \<Rightarrow> (scene_state \<times> 'r) res" where
  "walk_update rnd = (\<lambda>(s, r).
     if global_x s = uint (poi s) then scene_proceed_action rnd (s\<lparr>v_x := 0\<rparr>, r)
     else Inr (scene_dolphin_go_to_poi s, r))"

definition interact_update :: "('r \<Rightarrow> nat \<times> 'r) \<Rightarrow> scene_state \<times> 'r \<Rightarrow> (scene_state \<times> 'r) res" where
  "interact_update rnd = (\<lambda>(s, r).
     if action_timeout s = 0 then
       (if prev_action s = MINDCONTROL then Inr (s\<lparr>action := MINDCONTROL\<rparr>, r)
        else scene_proceed_action rnd (s, r))
     else Inr (s, r))"

definition emote_update :: "('r \<Rightarrow> nat \<times> 'r) \<Rightarrow> scene_state \<times> 'r \<Rightarrow> (scene_state \<times> 'r) res" where
  "emote_update rnd = (\<lambda>(s0, r0).
     let s = s0\<lparr>player_flipped := False\<rparr> in
     if action_timeout s = 0 then
       bindE (scene_proceed_action rnd (s, r0)) (\<lambda>(s1, r1).
         case roll_new rnd (ucast (previous_emote s1)) (length emotes_list) r1 of
           (e, r2) \<Rightarrow> Inr (s1\<lparr>emote_id := ucast e\<rparr>, r2))
     else interact_update rnd (s, r0))"

definition sleep_update :: "('r \<Rightarrow> nat \<times> 'r) \<Rightarrow> scene_state \<times> 'r \<Rightarrow> (scene_state \<times> 'r) res" where
  "sleep_update rnd = (\<lambda>(s, r).
     if poi s \<noteq> 154 then idle_update rnd (s\<lparr>poi := 154\<rparr>, r)
     else if global_x s \<noteq> uint (poi s) then idle_update rnd (scene_dolphin_go_to_poi s, r)
     else
       (let s1 = s\<lparr>v_x := 0\<rparr> in
        if action_timeout s1 = 0 then
          (case roll_new rnd (word_of_int (global_x s1)) (nat (WORLD_WIDTH div 4)) r of (p, r1) \<Rightarrow>
             scene_proceed_action rnd (s1\<lparr>poi := ucast p\<rparr>, r1))
        else Inr (s1, r)))"

definition dolphin_scene_update_state ::
    "('r \<Rightarrow> nat \<times> 'r) \<Rightarrow> u32 \<Rightarrow> u32 \<Rightarrow> scene_state \<times> 'r \<Rightarrow> (scene_state \<times> 'r) res" where
  "dolphin_scene_update_state rnd t dt sr =
     bindE (scene_action_handler rnd sr) (\<lambda>(s, r).
       if action s = WALK then walk_update rnd (s, r)
       else if action s = EMOTE then emote_update rnd (s, r)
       else if action s = INTERACT then interact_update rnd (s, r)
       else if action s = SLEEP then sleep_update rnd (s, r)
       else idle_update rnd (s, r))"

definition dolphin_scene_tick_handler ::
    "('r \<Rightarrow> nat \<times> 'r) \<Rightarrow> u32 \<Rightarrow> u32 \<Rightarrow> scene_state \<times> 'r \<Rightarrow> (scene_state \<times> 'r) res" where
  "dolphin_scene_tick_handler rnd t dt =
     (\<lambda>(s, r). dolphin_scene_update_state rnd t dt (dolphin_scene_coordinates dt s, r))"

definition dolphin_scene_handle_input :: "input_event \<Rightarrow> scene_state \<Rightarrow> scene_state" where
  "dolphin_scene_handle_input ev s = dolphin_scene_handle_user_input ev s"

section \<open>The things in the room\<close>

datatype item_function = Draw_Tv | Smash_Tv | Sofa_Sit | Inspect_Painting | Pc_Callback

record item =
  item_layer :: u8
  item_timeout :: u16
  item_x :: int
  item_y :: int
  item_icon :: string
  item_action_name :: string
  item_draw :: "item_function option"
  item_callback :: item_function

definition TV :: item where
  "TV = \<lparr>item_layer = 7, item_timeout = 10, item_x = 160, item_y = 34, item_icon = ''I_TV_20x24'',
         item_action_name = ''Use'', item_draw = Some Draw_Tv, item_callback = Smash_Tv\<rparr>"

definition Painting :: item where
  "Painting = \<lparr>item_layer = 3, item_timeout = 20, item_x = 160, item_y = 10,
               item_icon = ''I_Home_painting_17x20'', item_action_name = ''Inspect'',
               item_draw = None, item_callback = Inspect_Painting\<rparr>"

definition Sofa :: item where
  "Sofa = \<lparr>item_layer = 4, item_timeout = 100, item_x = 250, item_y = 34, item_icon = ''I_Sofa_40x13'',
           item_action_name = ''Sit'', item_draw = None, item_callback = Sofa_Sit\<rparr>"

definition PC :: item where
  "PC = \<lparr>item_layer = 4, item_timeout = 100, item_x = 400, item_y = 10, item_icon = ''I_PC_22x29'',
         item_action_name = ''Use'', item_draw = None, item_callback = Pc_Callback\<rparr>"

definition Home :: "item list" where
  "Home = [TV, Sofa, Painting, PC]"

definition get_scene :: "scene_state \<Rightarrow> item list res" where
  "get_scene s = arr_get [Home] (unat (scene_id s))"

text \<open>The first item whose shifted position is within half a dolphin of the screen's middle.\<close>

definition item_rel :: "scene_state \<Rightarrow> item \<Rightarrow> int" where
  "item_rel s i =
     DOLPHIN_CENTER + DOLPHIN_WIDTH div 2
       - ((item_x i - global_x s) * uint (item_layer i)) sdiv PARALLAX_MOD - uint (item_layer i)"

definition is_nearby :: "scene_state \<Rightarrow> item option res" where
  "is_nearby s =
     bindE (get_scene s) (\<lambda>current. Inr (find (\<lambda>i. \<bar>item_rel s i\<bar> \<le> DOLPHIN_WIDTH div 2) current))"

text \<open>
  \<open>new\<close> is the answer of \<^verbatim>\<open>osThreadNew\<close>. A new instance is made each time.
\<close>

definition dolphin_scene_start_app ::
    "bool \<Rightarrow> nat option \<Rightarrow> flipper_application \<Rightarrow> scene_state \<Rightarrow> scene_state res" where
  "dolphin_scene_start_app dbg new app s =
     furi_assert dbg (app_callback app \<noteq> None)
       (furi_assert dbg (app_name app \<noteq> None)
         (bindE (loader_set_up dbg app furi_thread_alloc) (\<lambda>th1.
          bindE (furi_thread_set_callback dbg (app_callback app) th1) (\<lambda>th2.
          bindE (thread_start_begin dbg th2) (\<lambda>(_, th3).
          bindE (thread_start_end dbg new th3) (\<lambda>(_, th4).
            Inr (s\<lparr>scene_app_thread := th4 # scene_app_thread s\<rparr>)))))))"

section \<open>Drawing\<close>

text \<open>
  Drawing reads and changes the state of the scene: a drawing takes both and the canvas. \<open>plain\<close>
  is a drawing that leaves the state alone, \<open>change\<close> one that draws nothing.
\<close>

type_synonym 'r scene_draw =
  "scene_state \<times> 'r \<Rightarrow> canvas \<Rightarrow> (u8g2_call list \<times> (scene_state \<times> 'r) \<times> canvas) res"

definition plain :: "draw \<Rightarrow> 'r scene_draw" where
  "plain d sr c = bindE (d c) (\<lambda>(cs, c1). Inr (cs, sr, c1))"

definition change :: "(scene_state \<Rightarrow> scene_state res) \<Rightarrow> 'r scene_draw" where
  "change f sr c = bindE (f (fst sr)) (\<lambda>s. Inr ([], (s, snd sr), c))"

definition seq_draw :: "'r scene_draw \<Rightarrow> 'r scene_draw \<Rightarrow> 'r scene_draw" where
  "seq_draw a b sr c =
     bindE (a sr c) (\<lambda>(cs, sr1, c1). bindE (b sr1 c1) (\<lambda>(cs1, sr2, c2). Inr (cs @ cs1, sr2, c2)))"

definition seq_draws :: "'r scene_draw list \<Rightarrow> 'r scene_draw" where
  "seq_draws ds = foldr seq_draw ds (plain draw_nothing)"

text \<open>A drawing that is chosen by the state.\<close>

definition looking :: "(scene_state \<Rightarrow> 'r scene_draw) \<Rightarrow> 'r scene_draw" where
  "looking f sr c = f (fst sr) sr c"

definition smash_tv :: "gfx \<Rightarrow> 'r scene_draw" where
  "smash_tv g = seq_draws
     [change (\<lambda>s. Inr (s\<lparr>player_flipped := True\<rparr>)),
      plain (canvas_set_bitmap_mode True),
      looking (\<lambda>s. plain (canvas_draw_icon_name g
        (word_of_int (times_parallax (item_x TV - 5 - global_x s) (item_layer TV)))
        (word_of_int (item_y TV - 2)) ''I_FX_Bang_32x6'')),
      plain (canvas_set_bitmap_mode False),
      looking (\<lambda>s. if action_timeout s < ucast (item_timeout TV) - 2
                   then plain (elements_multiline_text_framed g 80 24 ''Bang!'') else plain draw_nothing)]"

definition draw_tv :: "'r scene_draw" where
  "draw_tv = seq_draws
     [plain (canvas_set_color ColorWhite),
      looking (\<lambda>s. plain (canvas_draw_box
        (word_of_int (times_parallax (item_x TV + 3 - global_x s) (item_layer TV)))
        (word_of_int (item_y TV + 4)) 16 20)),
      plain (canvas_set_color ColorBlack),
      plain (canvas_set_bitmap_mode True)]"

definition sofa_sit :: "'r scene_draw" where
  "sofa_sit = change (\<lambda>s. Inr (s\<lparr>global_x := 154, dolphin_gfx := ''A_FX_Sitting_40x27'',
                                 dolphin_gfx_b := ''I_FX_SittingB_40x27''\<rparr>))"

text \<open>\<open>apps\<close> is \<^verbatim>\<open>FLIPPER_SCENE_APPS\<close>, \<open>new\<close> the kernel's answer to the start of a thread.\<close>

definition inspect_painting :: "bool \<Rightarrow> nat option \<Rightarrow> flipper_application list \<Rightarrow> 'r scene_draw" where
  "inspect_painting dbg new apps = change (\<lambda>s.
     if use_pending s then bindE (arr_get apps 0) (\<lambda>app. dolphin_scene_start_app dbg new app s)
     else Inr s)"

definition pc_callback :: "bool \<Rightarrow> nat option \<Rightarrow> flipper_application list \<Rightarrow> 'r scene_draw" where
  "pc_callback dbg new apps = change (\<lambda>s.
     if use_pending s then bindE (arr_get apps 1) (\<lambda>app. dolphin_scene_start_app dbg new app s)
     else Inr s)"

fun run_item_function ::
    "bool \<Rightarrow> nat option \<Rightarrow> flipper_application list \<Rightarrow> gfx \<Rightarrow> item_function \<Rightarrow> 'r scene_draw" where
  "run_item_function dbg new apps g Draw_Tv = draw_tv"
| "run_item_function dbg new apps g Smash_Tv = smash_tv g"
| "run_item_function dbg new apps g Sofa_Sit = sofa_sit"
| "run_item_function dbg new apps g Inspect_Painting = inspect_painting dbg new apps"
| "run_item_function dbg new apps g Pc_Callback = pc_callback dbg new apps"

definition scene_activate_item_callback ::
    "bool \<Rightarrow> nat option \<Rightarrow> flipper_application list \<Rightarrow> gfx \<Rightarrow> 'r scene_draw" where
  "scene_activate_item_callback dbg new apps g sr c =
     bindE (is_nearby (fst sr)) (\<lambda>near.
       (case near of
          None \<Rightarrow> plain draw_nothing
        | Some i \<Rightarrow>
            if use_pending (fst sr) then
              seq_draws [change (\<lambda>s. Inr (s\<lparr>action_timeout := ucast (item_timeout i)\<rparr>)),
                         run_item_function dbg new apps g (item_callback i),
                         change (\<lambda>s. Inr (s\<lparr>use_pending := False\<rparr>))]
            else run_item_function dbg new apps g (item_callback i)) sr c)"

text \<open>The loop that garbles the hint, from round \<open>k\<close>, with \<open>n\<close> rounds left.\<close>

fun glitch_loop :: "('r \<Rightarrow> nat \<times> 'r) \<Rightarrow> nat \<Rightarrow> nat \<Rightarrow> string \<Rightarrow> 'r \<Rightarrow> (string \<times> 'r) res" where
  "glitch_loop rnd 0 k buf r = Inr (buf, r)"
| "glitch_loop rnd (Suc n) k buf r =
     (case rnd r of (v, r1) \<Rightarrow>
        if k = 0 \<or> buf = [] then Inl Div_Zero
        else bindE (arr_set buf (k * 23 mod length buf) (char_of (32 + (v mod k * 17) mod 90))) (\<lambda>buf1.
               glitch_loop rnd n (k + 1) buf1 r1))"

definition scene_draw_hint :: "('r \<Rightarrow> nat \<times> 'r) \<Rightarrow> bool \<Rightarrow> 'r scene_draw" where
  "scene_draw_hint rnd glitching = (\<lambda>(s, r) c.
     bindE (is_nearby s) (\<lambda>near. case near of
         None \<Rightarrow> Inr ([], (s, r), c)
       | Some i \<Rightarrow>
           (let hint_pos_x = times_parallax (item_x i - global_x s) (item_layer i) + 25;
                hint_pos_y = (if item_y i < 15 then item_y i + 4 else item_y i - 16)
            in bindE (if glitching then glitch_loop rnd (unat (action_timeout s)) 0 (item_action_name i) r
                      else Inr (item_action_name i, r)) (\<lambda>(buf, r1).
               plain (canvas_draw_str (word_of_int hint_pos_x) (word_of_int hint_pos_y) buf) (s, r1) c))))"

definition scene_draw_current_emote :: "gfx \<Rightarrow> 'r scene_draw" where
  "scene_draw_current_emote g sr c =
     bindE (arr_get emotes_list (unat (emote_id (fst sr)))) (\<lambda>e.
       plain (elements_multiline_text_framed g 80 20 e) sr c)"

text \<open>Storing a zero at an index of an array that holds a string, and the string it then holds.\<close>

definition cut_at :: "string \<Rightarrow> nat \<Rightarrow> string res" where
  "cut_at s i =
     bindE (arr_set (s @ [CHR 0x00]) i (CHR 0x00)) (\<lambda>b. Inr (takeWhile (\<lambda>ch. ch \<noteq> CHR 0x00) b))"

definition step_progress :: "u32 \<Rightarrow> scene_state \<Rightarrow> scene_state" where
  "step_progress n s =
     (if action_timeout s mod n = 0 then s\<lparr>dialog_progress := dialog_progress s + 1\<rparr> else s)"

text \<open>The dots that grow, shared by the two emotes.\<close>

definition draw_growing :: "string \<Rightarrow> u8 \<Rightarrow> u8 \<Rightarrow> 'r scene_draw" where
  "draw_growing text x y sr c =
     (if unat (dialog_progress (fst sr)) < length text then
        (let s1 = step_progress 10 (fst sr) in
         bindE (cut_at text (unat (dialog_progress s1) + 1)) (\<lambda>d.
           plain (canvas_draw_str x y d) (s1, snd sr) c))
      else Inr ([], sr, c))"

definition scene_draw_sleep_emote :: "'r scene_draw" where
  "scene_draw_sleep_emote sr c =
     (if global_x (fst sr) = 154 \<and> action_timeout (fst sr) mod 100 < 50
      then draw_growing ''zZzZ..'' 80 20 sr c
      else change (\<lambda>s. Inr (s\<lparr>dialog_progress := 0\<rparr>)) sr c)"

definition draw_idle_emote :: "'r scene_draw" where
  "draw_idle_emote sr c =
     (if action_timeout (fst sr) mod 100 < 50 then draw_growing ''...'' 70 15 sr c
      else change (\<lambda>s. Inr (s\<lparr>dialog_progress := 0\<rparr>)) sr c)"

definition dialogues_list :: "string list" where
  "dialogues_list =
     [''Let'' @ [CHR 0x27] @ ''s hack!'' @ [newline, newline] @ ''bla bla bla'' @ [newline] @ ''bla bla..'']"

text \<open>
  \<open>junk\<close> is the string in the uninitialised buffer. The text has no \<^verbatim>\<open>%\<close>, so printing it is copying;
  \<^verbatim>\<open>snprintf\<close> with the size zero writes nothing. What follows the end of the text in the
  array of 64 does not matter.
\<close>

definition scene_draw_dialog :: "string \<Rightarrow> gfx \<Rightarrow> 'r scene_draw" where
  "scene_draw_dialog junk g sr c =
     bindE (arr_get dialogues_list (unat (dialogue_id (fst sr)))) (\<lambda>text.
       if unat (dialog_progress (fst sr)) \<le> length text then
         (let s1 = step_progress 2 (fst sr); n = unat (dialog_progress s1) in
          bindE (cut_at (text @ replicate (63 - length text) (CHR 0x00)) n) (\<lambda>d.
            plain (elements_multiline_text_framed g 68 16 (if n = 0 then junk else take (n - 1) d))
              (s1, snd sr) c))
       else plain (elements_multiline_text_framed g 68 16 (take 63 text)) sr c)"

definition choose_gfx :: "scene_state \<Rightarrow> scene_state" where
  "choose_gfx s =
     (if scene_zoom s = SCENE_ZOOM then s\<lparr>dolphin_gfx := ''I_DolphinExcited_64x63''\<rparr>
      else if action s = SLEEP \<and> global_x s = 154 then
        s\<lparr>dolphin_gfx := ''A_FX_Sitting_40x27'', dolphin_gfx_b := ''I_FX_SittingB_40x27''\<rparr>
      else if action s \<noteq> INTERACT then
        (if v_x s < 0 \<or> player_flipped s then
           (if player_anim s = 0
            then s\<lparr>dolphin_gfx := ''I_WalkL1_32x32'', dolphin_gfx_b := ''I_WalkLB1_32x32''\<rparr>
            else s\<lparr>dolphin_gfx := ''I_WalkL2_32x32'', dolphin_gfx_b := ''I_WalkLB2_32x32''\<rparr>)
         else if v_x s > 0 \<or> \<not> player_flipped s then
           (if player_anim s = 0
            then s\<lparr>dolphin_gfx := ''I_WalkR1_32x32'', dolphin_gfx_b := ''I_WalkRB1_32x32''\<rparr>
            else s\<lparr>dolphin_gfx := ''I_WalkR2_32x32'', dolphin_gfx_b := ''I_WalkRB2_32x32''\<rparr>)
         else s)
      else s)"

definition dolphin_scene_render_dolphin :: "gfx \<Rightarrow> 'r scene_draw" where
  "dolphin_scene_render_dolphin g = seq_draws
     [change (\<lambda>s. Inr (choose_gfx s)),
      plain (canvas_set_bitmap_mode True),
      plain (canvas_set_color ColorWhite),
      looking (\<lambda>s. plain (canvas_draw_icon_name g (word_of_int (player_x s)) (word_of_int (player_y s)) (dolphin_gfx_b s))),
      plain (canvas_set_color ColorBlack),
      looking (\<lambda>s. plain (canvas_draw_icon_name g (word_of_int (player_x s)) (word_of_int (player_y s)) (dolphin_gfx s))),
      plain (canvas_set_bitmap_mode False)]"

definition item_screen_bounds :: "int \<Rightarrow> bool" where
  "item_screen_bounds pos \<longleftrightarrow> pos > - SCREEN_WIDTH \<and> pos < SCREEN_WIDTH * 2"

definition render_item ::
    "bool \<Rightarrow> nat option \<Rightarrow> flipper_application list \<Rightarrow> gfx \<Rightarrow> nat \<Rightarrow> item \<Rightarrow> 'r scene_draw" where
  "render_item dbg new apps g l i = looking (\<lambda>s.
     let item_pos = item_x i - global_x s in
     if item_screen_bounds item_pos then
       seq_draws
         [(case item_draw i of Some f \<Rightarrow> run_item_function dbg new apps g f | None \<Rightarrow> plain draw_nothing),
          (if l = unat (item_layer i) then
             seq_draws
               [plain (canvas_draw_icon_name g (word_of_int (times_parallax item_pos (of_nat l)))
                         (word_of_int (item_y i)) (item_icon i)),
                plain (canvas_set_bitmap_mode False)]
           else plain draw_nothing)]
     else plain draw_nothing)"

definition render_layer ::
    "bool \<Rightarrow> nat option \<Rightarrow> flipper_application list \<Rightarrow> gfx \<Rightarrow> item list \<Rightarrow> nat \<Rightarrow> 'r scene_draw" where
  "render_layer dbg new apps g current l = seq_draws
     [looking (\<lambda>s.
        if scene_zoom s < SCENE_ZOOM then
          seq_draws (map (render_item dbg new apps g l) current @
                     [if l = 0 then plain (canvas_draw_line 0 42 128 42) else plain draw_nothing])
        else plain draw_nothing),
      (if l = DOLPHIN_LAYER then dolphin_scene_render_dolphin g else plain draw_nothing)]"

definition dolphin_scene_render ::
    "bool \<Rightarrow> nat option \<Rightarrow> flipper_application list \<Rightarrow> gfx \<Rightarrow> 'r scene_draw" where
  "dolphin_scene_render dbg new apps g sr c =
     bindE (get_scene (fst sr)) (\<lambda>current.
       seq_draws ([plain (canvas_set_font FontSecondary), plain (canvas_set_color ColorBlack)] @
                  map (render_layer dbg new apps g current) [0..<LAYERS]) sr c)"

definition action_str :: "string list" where
  "action_str = [''Sleep'', ''Idle'', ''Walk'', ''Emote'', ''Use'', ''MC'']"

definition signed_decimal :: "int \<Rightarrow> string" where
  "signed_decimal i = (if i < 0 then ''-'' @ decimal (nat (- i)) else decimal (nat i))"

definition draw_debug :: "'r scene_draw" where
  "draw_debug sr c =
     (let s = fst sr in
      bindE (arr_get action_str (unat (action s))) (\<lambda>a.
        plain (canvas_draw_str 0 13
                 (''x:'' @ signed_decimal (global_x s) @ ''>'' @ decimal (unat (poi s)) @ '' '' @
                  signed_decimal (sint (action_timeout s)) @ '' '' @ a)) sr c))"

definition dolphin_scene_render_state ::
    "bool \<Rightarrow> nat option \<Rightarrow> flipper_application list \<Rightarrow> ('r \<Rightarrow> nat \<times> 'r) \<Rightarrow> string \<Rightarrow> gfx \<Rightarrow> 'r scene_draw" where
  "dolphin_scene_render_state dbg new apps rnd junk g = seq_draws
     [plain (canvas_set_font FontSecondary),
      plain (canvas_set_color ColorBlack),
      looking (\<lambda>s. if scene_debug s then draw_debug else plain draw_nothing),
      looking (\<lambda>s.
        if scene_zoom s = SCENE_ZOOM then scene_draw_dialog junk g
        else if action s = EMOTE then scene_draw_current_emote g
        else if action s = MINDCONTROL then scene_draw_hint rnd (action_timeout s > 45)
        else if action s = INTERACT then scene_activate_item_callback dbg new apps g
        else if action s = SLEEP then scene_draw_sleep_emote
        else if action s = IDLE then draw_idle_emote
        else plain draw_nothing)]"

text \<open>\<open>acq\<close>: whether the mutex of the state is acquired in time.\<close>

definition dolphin_scene_redraw ::
    "bool \<Rightarrow> bool \<Rightarrow> nat option \<Rightarrow> flipper_application list \<Rightarrow> ('r \<Rightarrow> nat \<times> 'r) \<Rightarrow> string \<Rightarrow> gfx \<Rightarrow> 'r scene_draw" where
  "dolphin_scene_redraw dbg acq new apps rnd junk g sr c =
     (if \<not> acq then Inr ([], sr, c)
      else seq_draws
        [plain canvas_clear, dolphin_scene_render dbg new apps g,
         dolphin_scene_render_state dbg new apps rnd junk g] sr c)"

section \<open>The task\<close>

text \<open>
  The state as \<^verbatim>\<open>scene_alloc\<close> makes it: zeros, apart from the positions. \<open>icon0\<close> is the icon with
  the number zero in the table that the build generates.
\<close>

definition scene_alloc :: "string \<Rightarrow> ('r \<Rightarrow> nat \<times> 'r) \<Rightarrow> 'r \<Rightarrow> scene_state \<times> 'r" where
  "scene_alloc icon0 rnd r =
     (case rnd r of (v, r1) \<Rightarrow>
        (\<lparr>player_x = DOLPHIN_CENTER, player_y = DOLPHIN_DEFAULT_Y,
          global_x = int (v mod nat WORLD_WIDTH div 4), v_x = 0,
          screen_x = DOLPHIN_CENTER, screen_y = DOLPHIN_DEFAULT_Y,
          dolphin_gfx = icon0, dolphin_gfx_b = icon0, player_flipped = False, use_pending = False,
          scene_debug = False, player_anim = 0, scene_id = 0, emote_id = 0, previous_emote = 0,
          dialogue_id = 0, action_timeout = 0, poi = 0, action = 0, next_action = 0, prev_action = 0,
          zoom_v = 0, scene_zoom = 0, dialog_progress = 0, scene_app_thread = []\<rparr>, r1))"

record 'r scene_app =
  sa_state :: "scene_state \<times> 'r"
  sa_prev_t :: u32
  sa_running :: bool
  sa_power :: api_hal_power

text \<open>
  What happens to the scene: a tick or a key read from the queue, in any order, and a redraw by
  the task of the graphics between two of them (the mutex of the state keeps them apart).
\<close>

datatype scene_event =
    Scene_Tick u32
  | Scene_Key input_event
  | Scene_Redraw bool "nat option" string canvas

fun is_redraw :: "scene_event \<Rightarrow> bool" where
  "is_redraw (Scene_Redraw _ _ _ _) = True"
| "is_redraw _ = False"

definition scene_app_start :: "string \<Rightarrow> ('r \<Rightarrow> nat \<times> 'r) \<Rightarrow> 'r \<Rightarrow> api_hal_power \<Rightarrow> 'r scene_app" where
  "scene_app_start icon0 rnd r p =
     \<lparr>sa_state = scene_alloc icon0 rnd r, sa_prev_t = 0, sa_running = True,
      sa_power = api_hal_power_insomnia_enter p\<rparr>"

text \<open>After the back key the loop is left and the scene released: nothing more happens.\<close>

fun scene_app_step ::
    "bool \<Rightarrow> flipper_application list \<Rightarrow> ('r \<Rightarrow> nat \<times> 'r) \<Rightarrow> gfx \<Rightarrow> 'r scene_app \<Rightarrow> scene_event \<Rightarrow>
       (u8g2_call list \<times> 'r scene_app) res" where
  "scene_app_step dbg apps rnd g a (Scene_Tick t) =
     (if sa_running a then
        bindE (dolphin_scene_tick_handler rnd t ((t - sa_prev_t a) mod 1024) (sa_state a)) (\<lambda>sr.
          Inr ([], a\<lparr>sa_state := sr, sa_prev_t := t\<rparr>))
      else Inr ([], a))"
| "scene_app_step dbg apps rnd g a (Scene_Key ev) =
     (if sa_running a then
        (if ev_key ev = InputKeyBack \<and> ev_type ev = InputTypeShort
         then Inr ([], a\<lparr>sa_running := False, sa_power := api_hal_power_insomnia_exit (sa_power a)\<rparr>)
         else Inr ([], a\<lparr>sa_state := (dolphin_scene_handle_input ev (fst (sa_state a)), snd (sa_state a))\<rparr>))
      else Inr ([], a))"
| "scene_app_step dbg apps rnd g a (Scene_Redraw acq new junk c) =
     (if sa_running a then
        bindE (dolphin_scene_redraw dbg acq new apps rnd junk g (sa_state a) c) (\<lambda>(cs, sr, _).
          Inr (cs, a\<lparr>sa_state := sr\<rparr>))
      else Inr ([], a))"

section \<open>The dolphin stays in its world\<close>

text \<open>Everything that bounds a position or is used as an index of a table.\<close>

definition in_world :: "scene_state \<Rightarrow> bool" where
  "in_world s \<longleftrightarrow>
     0 \<le> global_x s \<and> global_x s \<le> WORLD_WIDTH \<and> 0 \<le> player_x s \<and> player_x s \<le> DOLPHIN_CENTER \<and>
     3 \<le> player_y s \<and> player_y s \<le> DOLPHIN_DEFAULT_Y \<and> 0 \<le> scene_zoom s \<and> scene_zoom s \<le> SCENE_ZOOM \<and>
     \<bar>v_x s\<bar> \<le> SPEED_X \<and> \<bar>zoom_v s\<bar> \<le> 2 * SPEED_X \<and>
     unat (action s) < length default_timeout \<and> unat (next_action s) < ACTIONS_NUM \<and>
     unat (emote_id s) < length emotes_list \<and> scene_id s = 0 \<and> dialogue_id s = 0"

lemmas scene_numbers = SCREEN_WIDTH_def DOLPHIN_WIDTH_def DOLPHIN_CENTER_def SPEED_X_def ACTIONS_NUM_def
  DOLPHIN_DEFAULT_Y_def WORLD_WIDTH_def SCENE_ZOOM_def PARALLAX_MOD_def

lemma timeouts_length [simp]: "length default_timeout = 6"
  by (simp add: default_timeout_def)

lemma emotes_length [simp]: "length emotes_list = 70"
  by (simp add: emotes_list_def)

text \<open>A number rolled below a small bound stays below it when it is stored in a byte.\<close>

lemma rolled_small:
  assumes "roll_new rnd prev mx r = (v, r1)" and "0 < mx" and "mx \<le> 256" and "prev \<noteq> 999"
  shows "unat (ucast v :: u8) < mx"
proof -
  from assms(1,4) obtain w where v: "v = of_nat (w mod mx)"
    by (auto simp: roll_new_def split: prod.splits)
  have n: "w mod mx < mx" using assms(2) by simp
  with assms(3) have "ucast (of_nat (w mod mx) :: u16) = (of_nat (w mod mx) :: u8)"
    by (simp add: unsigned_of_nat take_bit_nat_eq_self)
  with v n assms(3) show ?thesis by (simp add: unat_of_nat_small)
qed

lemma byte_not_999 [simp]: "(ucast (w :: u8) :: u16) \<noteq> 999"
proof
  have b: "unat w < 2 ^ LENGTH(8)" by (rule unsigned_less)
  then have "unat (ucast w :: u16) = unat w"
    by (simp add: unsigned_ucast_eq take_bit_nat_eq_self)
  moreover assume "(ucast w :: u16) = 999"
  then have "unat (ucast w :: u16) = 999" by simp
  ultimately show False using b by simp
qed

lemma in_world_keys: "in_world s \<Longrightarrow> in_world (dolphin_scene_handle_user_input ev s)"
  by (simp add: in_world_def dolphin_scene_handle_user_input_def Let_def SPEED_X_def action_codes)

lemma in_world_coordinates:
  assumes "in_world s"
  shows "in_world (dolphin_scene_coordinates dt s)"
proof -
  have "0 \<le> clamp x WORLD_WIDTH 0 \<and> clamp x WORLD_WIDTH 0 \<le> WORLD_WIDTH"
    "0 \<le> clamp x SCENE_ZOOM 0 \<and> clamp x SCENE_ZOOM 0 \<le> SCENE_ZOOM"
    "0 \<le> clamp x DOLPHIN_CENTER 0 \<and> clamp x DOLPHIN_CENTER 0 \<le> DOLPHIN_CENTER"
    "3 \<le> clamp x DOLPHIN_DEFAULT_Y 3 \<and> clamp x DOLPHIN_DEFAULT_Y 3 \<le> DOLPHIN_DEFAULT_Y" for x
    by (simp_all add: clamp_def scene_numbers)
  with assms show ?thesis by (simp add: in_world_def dolphin_scene_coordinates_def Let_def)
qed

lemma proceed_in_world:
  assumes "in_world s"
  shows "\<exists>s' r'. scene_proceed_action rnd (s, r) = Inr (s', r') \<and> in_world s' \<and>
    prev_action s' = action s \<and> global_x s' = global_x s \<and> v_x s' = v_x s \<and> poi s' = poi s"
proof -
  obtain v r1 where v: "roll_new rnd (ucast (next_action s)) ACTIONS_NUM r = (v, r1)"
    by (metis surj_pair)
  have "unat (ucast v :: u8) < 5"
    using rolled_small [OF v] by (simp add: ACTIONS_NUM_def)
  moreover have "unat (next_action s) < 5" using assms by (simp add: in_world_def ACTIONS_NUM_def)
  ultimately show ?thesis
    using assms by (simp add: scene_proceed_action_def Let_def v in_world_def)
qed

text \<open>A step that does not fault and ends in the world.\<close>

definition stays :: "(scene_state \<times> 'r) res \<Rightarrow> bool" where
  "stays m \<longleftrightarrow> (\<exists>s r. m = Inr (s, r) \<and> in_world s)"

lemma stays_Inr [simp]: "stays (Inr (s, r)) \<longleftrightarrow> in_world s"
  by (simp add: stays_def)

lemma stays_bind: "stays m \<Longrightarrow> (\<And>s r. m = Inr (s, r) \<Longrightarrow> in_world s \<Longrightarrow> stays (f (s, r))) \<Longrightarrow> stays (bindE m f)"
  by (auto simp: stays_def)

lemma stays_proceed [simp]: "in_world s \<Longrightarrow> stays (scene_proceed_action rnd (s, r))"
  using proceed_in_world [of s rnd r] by (auto simp: stays_def)

text \<open>Fields that no bound depends on, and speeds within the bound.\<close>

lemma in_world_fields [simp]:
  "in_world (s\<lparr>poi := p\<rparr>) = in_world s" "in_world (s\<lparr>player_flipped := b\<rparr>) = in_world s"
  "in_world (s\<lparr>action_timeout := t\<rparr>) = in_world s" "in_world (s\<lparr>dialog_progress := n\<rparr>) = in_world s"
  "in_world (s\<lparr>dolphin_gfx := g\<rparr>) = in_world s" "in_world (s\<lparr>dolphin_gfx_b := g\<rparr>) = in_world s"
  "in_world (s\<lparr>use_pending := b\<rparr>) = in_world s" "in_world (s\<lparr>scene_app_thread := ts\<rparr>) = in_world s"
  by (simp_all add: in_world_def)

lemma in_world_parts:
  "in_world s \<Longrightarrow> in_world (s\<lparr>v_x := 0\<rparr>)"
  "in_world s \<Longrightarrow> in_world (s\<lparr>action := MINDCONTROL\<rparr>)"
  "in_world s \<Longrightarrow> unat n < 5 \<Longrightarrow> in_world (s\<lparr>next_action := n\<rparr>)"
  "in_world s \<Longrightarrow> unat n < 70 \<Longrightarrow> in_world (s\<lparr>emote_id := n\<rparr>)"
  by (simp_all add: in_world_def scene_numbers action_codes)

lemma in_world_walk: "in_world s \<Longrightarrow> in_world (scene_dolphin_go_to_poi s)"
  by (simp add: in_world_def scene_dolphin_go_to_poi_def SPEED_X_def)

lemma stays_handler:
  assumes "in_world s"
  shows "stays (scene_action_handler rnd (s, r))"
proof -
  have t: "\<exists>t. arr_get default_timeout (unat (action s)) = Inr t" using assms by (simp add: in_world_def)
  have n: "unat (ucast v :: u8) < 5" if "roll_new rnd (ucast (p :: u8)) ACTIONS_NUM r1 = (v, r2)" for v p r1 r2
    using rolled_small [OF that] by (simp add: ACTIONS_NUM_def)
  show ?thesis
    using assms t
    by (auto simp: scene_action_handler_def Let_def split: prod.splits intro!: in_world_parts(3) n)
qed

lemma stays_idle: "in_world s \<Longrightarrow> stays (idle_update rnd (s, r))"
  by (simp add: idle_update_def)

lemma stays_walk: "in_world s \<Longrightarrow> stays (walk_update rnd (s, r))"
  by (simp add: walk_update_def in_world_parts in_world_walk)

lemma stays_interact: "in_world s \<Longrightarrow> stays (interact_update rnd (s, r))"
  by (simp add: interact_update_def in_world_parts)

lemma stays_emote:
  assumes "in_world s"
  shows "stays (emote_update rnd (s, r))"
proof -
  have n: "unat (ucast v :: u8) < 70" if "roll_new rnd (ucast (p :: u8)) (length emotes_list) r1 = (v, r2)" for v p r1 r2
    using rolled_small [OF that] by simp
  show ?thesis
    using assms
    by (auto simp: emote_update_def Let_def stays_interact simp del: emotes_length
        split: prod.splits intro!: stays_bind in_world_parts(4) n)
qed

lemma stays_sleep: "in_world s \<Longrightarrow> stays (sleep_update rnd (s, r))"
  by (auto simp: sleep_update_def Let_def in_world_parts in_world_walk stays_idle split: prod.splits)

lemma stays_tick:
  assumes "in_world s"
  shows "stays (dolphin_scene_tick_handler rnd t dt (s, r))"
proof -
  have "stays (scene_action_handler rnd (dolphin_scene_coordinates dt s, r))"
    by (intro stays_handler in_world_coordinates assms)
  then show ?thesis
    unfolding dolphin_scene_tick_handler_def dolphin_scene_update_state_def
    by (auto intro!: stays_bind stays_idle stays_walk stays_interact stays_emote stays_sleep)
qed

text \<open>Drawing changes the state only in ways that keep it in the world.\<close>

definition keeps :: "'r scene_draw \<Rightarrow> bool" where
  "keeps d \<longleftrightarrow> (\<forall>sr c cs sr' c'. in_world (fst sr) \<longrightarrow> d sr c = Inr (cs, sr', c') \<longrightarrow> in_world (fst sr'))"

lemma keeps_plain [simp]: "keeps (plain d)"
  by (auto simp: keeps_def plain_def bindE_eq_Inr)

lemma keeps_change: "(\<And>s s'. in_world s \<Longrightarrow> f s = Inr s' \<Longrightarrow> in_world s') \<Longrightarrow> keeps (change f)"
  by (auto simp: keeps_def change_def bindE_eq_Inr)

lemma keepsD: "keeps d \<Longrightarrow> in_world (fst sr) \<Longrightarrow> d sr c = Inr (cs, sr', c') \<Longrightarrow> in_world (fst sr')"
  unfolding keeps_def by blast

lemma keeps_pairD:
  "keeps d \<Longrightarrow> d (s, r) c = Inr (cs, (s', r'), c') \<Longrightarrow> in_world s \<Longrightarrow> in_world s'"
  using keepsD [of d "(s, r)" c cs "(s', r')" c'] by simp

lemma keeps_seq_draw:
  assumes "keeps a" and "keeps b"
  shows "keeps (seq_draw a b)"
  unfolding keeps_def
proof (intro allI impI)
  fix sr c cs sr' c'
  assume w: "in_world (fst sr)" and "seq_draw a b sr c = Inr (cs, sr', c')"
  then obtain cs1 sr1 c1 cs2 where 1: "a sr c = Inr (cs1, sr1, c1)" and 2: "b sr1 c1 = Inr (cs2, sr', c')"
    by (auto simp: seq_draw_def bindE_eq_Inr)
  show "in_world (fst sr')"
    by (rule keepsD [OF assms(2) keepsD [OF assms(1) w 1] 2])
qed

lemma keeps_seq_draws: "(\<And>d. d \<in> set ds \<Longrightarrow> keeps d) \<Longrightarrow> keeps (seq_draws ds)"
  unfolding seq_draws_def by (induction ds) (auto intro: keeps_seq_draw)

lemma keeps_looking: "(\<And>s. keeps (f s)) \<Longrightarrow> keeps (looking f)"
  by (auto simp: keeps_def looking_def)

lemma keeps_functions: "keeps (run_item_function dbg new apps g f)"
proof -
  have app: "in_world s'" if "in_world s" "dolphin_scene_start_app dbg new ap s = Inr s'" for s s' ap
    using that by (auto simp: dolphin_scene_start_app_def furi_assert_eq_Inr bindE_eq_Inr split: prod.splits)
  have sofa: "in_world (s\<lparr>global_x := 154\<rparr>)" if "in_world s" for s
    using that by (simp add: in_world_def scene_numbers)
  show ?thesis
    by (cases f)
      (auto simp: draw_tv_def smash_tv_def sofa_sit_def inspect_painting_def pc_callback_def bindE_eq_Inr sofa
        split: if_splits dest: app intro!: keeps_seq_draws keeps_change keeps_looking)
qed

lemma keeps_choice [intro]: "(b \<Longrightarrow> keeps x) \<Longrightarrow> (\<not> b \<Longrightarrow> keeps y) \<Longrightarrow> keeps (if b then x else y)"
  by simp

lemma keeps_growing: "keeps (draw_growing text x y)"
  by (auto simp: keeps_def draw_growing_def Let_def step_progress_def plain_def bindE_eq_Inr split: if_splits)

lemma keeps_item: "keeps (render_item dbg new apps g l i)"
  unfolding render_item_def Let_def
  by (auto intro!: keeps_looking keeps_seq_draws keeps_functions split: option.splits)

lemma keeps_dolphin: "keeps (dolphin_scene_render_dolphin g)"
  unfolding dolphin_scene_render_dolphin_def
  by (auto intro!: keeps_looking keeps_seq_draws keeps_change simp: choose_gfx_def)

lemma keeps_layer: "keeps (render_layer dbg new apps g current l)"
  unfolding render_layer_def
  by (auto intro!: keeps_looking keeps_seq_draws keeps_item keeps_dolphin)

lemma keeps_render: "keeps (dolphin_scene_render dbg new apps g)"
proof -
  have "keeps (seq_draws ([plain (canvas_set_font FontSecondary), plain (canvas_set_color ColorBlack)] @
          map (render_layer dbg new apps g current) [0..<LAYERS]))" for current
    by (auto intro!: keeps_seq_draws keeps_layer)
  then show ?thesis
    unfolding keeps_def dolphin_scene_render_def bindE_eq_Inr by blast
qed

lemma keeps_activate: "keeps (scene_activate_item_callback dbg new apps g)"
proof -
  have "keeps (seq_draws [change (\<lambda>s. Inr (s\<lparr>action_timeout := t\<rparr>)), run_item_function dbg new apps g f,
          change (\<lambda>s. Inr (s\<lparr>use_pending := False\<rparr>))])" for t f
    by (auto intro!: keeps_seq_draws keeps_change keeps_functions)
  then have keeps: "keeps (case near of None \<Rightarrow> plain draw_nothing | Some i \<Rightarrow>
      if b then seq_draws [change (\<lambda>s. Inr (s\<lparr>action_timeout := ucast (item_timeout i)\<rparr>)),
                  run_item_function dbg new apps g (item_callback i), change (\<lambda>s. Inr (s\<lparr>use_pending := False\<rparr>))]
      else run_item_function dbg new apps g (item_callback i))" for near b
    by (auto intro!: keeps_functions split: option.splits)
  show ?thesis
    unfolding keeps_def scene_activate_item_callback_def bindE_eq_Inr
    using keepsD [OF keeps] by blast
qed

lemma keeps_dialog: "keeps (scene_draw_dialog junk g)"
  by (auto simp: keeps_def scene_draw_dialog_def Let_def step_progress_def plain_def bindE_eq_Inr split: if_splits)

lemma keeps_hint: "keeps (scene_draw_hint rnd b)"
  by (auto simp: keeps_def scene_draw_hint_def Let_def plain_def bindE_eq_Inr split: option.splits)

lemma keeps_emotes: "keeps (scene_draw_current_emote g)" "keeps scene_draw_sleep_emote" "keeps draw_idle_emote"
  "keeps draw_debug"
proof -
  show "keeps scene_draw_sleep_emote" "keeps draw_idle_emote"
    unfolding keeps_def scene_draw_sleep_emote_def draw_idle_emote_def
    by (auto split: if_splits dest: keeps_pairD [OF keeps_growing] simp: change_def)
qed (auto simp: keeps_def scene_draw_current_emote_def draw_debug_def Let_def plain_def bindE_eq_Inr)

lemma keeps_state: "keeps (dolphin_scene_render_state dbg new apps rnd junk g)"
  unfolding dolphin_scene_render_state_def
  by (auto intro!: keeps_looking keeps_seq_draws keeps_activate keeps_dialog keeps_hint keeps_emotes)

lemma keeps_redraw: "keeps (dolphin_scene_redraw dbg acq new apps rnd junk g)"
proof -
  have "keeps (seq_draws [plain canvas_clear, dolphin_scene_render dbg new apps g,
          dolphin_scene_render_state dbg new apps rnd junk g])"
    by (auto intro!: keeps_seq_draws keeps_render keeps_state)
  then show ?thesis by (simp add: keeps_def dolphin_scene_redraw_def)
qed

lemma alloc_in_world: "in_world (fst (scene_alloc icon0 rnd r))"
  by (auto simp: scene_alloc_def in_world_def scene_numbers split: prod.splits)

lemma scene_step_in_world:
  assumes "in_world (fst (sa_state a))"
  shows "case scene_app_step dbg apps rnd g a e of
           Inr (_, a1) \<Rightarrow> in_world (fst (sa_state a1)) | Inl _ \<Rightarrow> is_redraw e"
proof (cases e)
  case (Scene_Tick t)
  have "stays (dolphin_scene_tick_handler rnd t dt (sa_state a))" for dt
    using stays_tick [OF assms, of rnd t dt "snd (sa_state a)"] by simp
  then obtain s r where "dolphin_scene_tick_handler rnd t ((t - sa_prev_t a) mod 1024) (sa_state a) = Inr (s, r)"
    and "in_world s"
    unfolding stays_def by blast
  with Scene_Tick assms show ?thesis by simp
next
  case (Scene_Key ev)
  with assms show ?thesis by (simp add: dolphin_scene_handle_input_def in_world_keys)
next
  case (Scene_Redraw acq new junk c)
  with assms show ?thesis
    by (auto split: sum.splits prod.splits simp: bindE_eq_Inr dest: keepsD [OF keeps_redraw assms])
qed

text \<open>
  C19. Whatever keys are pressed, in whatever order ticks and redraws come, and whatever the random
  numbers are, the dolphin stays within its world, the zoom within its steps, and every number
  that indexes a table (the activity, the emote, the dialogue, the room) within that table; the
  ticks and the keys never fault, so that a fault needs a redraw.
\<close>

theorem scene_stays_in_world:
  "case runE (scene_app_step dbg apps rnd g) (scene_app_start icon0 rnd r p) evs of
     Inr (_, a) \<Rightarrow> in_world (fst (sa_state a))
   | Inl _ \<Rightarrow> list_ex is_redraw evs"
proof -
  have "case runE (scene_app_step dbg apps rnd g) a evs of
      Inr (_, a1) \<Rightarrow> in_world (fst (sa_state a1)) | Inl _ \<Rightarrow> list_ex is_redraw evs"
    if "in_world (fst (sa_state a))" for a
    using that
  proof (induction evs arbitrary: a)
    case (Cons e evs)
    then show ?case
      using scene_step_in_world [OF Cons.prems, of e dbg apps rnd g]
      by (auto split: sum.splits simp: bindE_eq_Inl bindE_eq_Inr dest!: Cons.IH)
  qed simp
  from this [of "scene_app_start icon0 rnd r p"] show ?thesis
    by (simp add: scene_app_start_def alloc_in_world)
qed

section \<open>The dolphin arrives\<close>

definition next_x :: "scene_state \<Rightarrow> int" where
  "next_x s = clamp (global_x s + v_x s) WORLD_WIDTH 0"

lemma coordinates_fields [simp]:
  "global_x (dolphin_scene_coordinates dt s) = next_x s"
  "action (dolphin_scene_coordinates dt s) = action s"
  "action_timeout (dolphin_scene_coordinates dt s) = action_timeout s"
  "poi (dolphin_scene_coordinates dt s) = poi s"
  "v_x (dolphin_scene_coordinates dt s) = v_x s"
  "next_action (dolphin_scene_coordinates dt s) = next_action s"
  by (simp_all add: dolphin_scene_coordinates_def Let_def next_x_def)

lemma handler_waits:
  "action s \<noteq> MINDCONTROL \<Longrightarrow> action_timeout s > 0 \<Longrightarrow>
     scene_action_handler rnd (s, r) = Inr (s\<lparr>action_timeout := action_timeout s - 1\<rparr>, r)"
  by (simp add: scene_action_handler_def)

lemma WALK_not_MINDCONTROL [simp]: "WALK \<noteq> MINDCONTROL"
  by (simp add: action_codes)

lemma walk_tick_moves:
  assumes "action s = WALK" and "action_timeout s > 0" and "next_x s \<noteq> uint (poi s)"
  shows "\<exists>s'. dolphin_scene_tick_handler rnd t dt (s, r) = Inr (s', r) \<and> action s' = WALK \<and>
    poi s' = poi s \<and> action_timeout s' = action_timeout s - 1 \<and> global_x s' = next_x s \<and>
    next_action s' = next_action s \<and> v_x s' = (if next_x s < uint (poi s) then 1 else - 1)"
  using assms
  by (simp add: dolphin_scene_tick_handler_def dolphin_scene_update_state_def handler_waits walk_update_def
      scene_dolphin_go_to_poi_def SPEED_X_def)

lemma proceed_next:
  assumes "scene_proceed_action rnd (s, r) = Inr (s', r')"
  shows "next_action s = action s \<or> action s' = next_action s"
  using assms by (auto simp: scene_proceed_action_def Let_def bindE_eq_Inr split: prod.splits if_splits)

lemma walk_tick_stops:
  assumes "in_world s" and "action s = WALK" and "action_timeout s > 0" and "next_x s = uint (poi s)"
  shows "\<exists>s' r'. dolphin_scene_tick_handler rnd t dt (s, r) = Inr (s', r') \<and> prev_action s' = WALK \<and>
    global_x s' = uint (poi s) \<and> v_x s' = 0 \<and> (next_action s = WALK \<or> action s' = next_action s)"
proof -
  define s1 where "s1 = dolphin_scene_coordinates dt s\<lparr>action_timeout := action_timeout s - 1, v_x := 0\<rparr>"
  have "in_world s1" unfolding s1_def
    using in_world_parts(1) [OF in_world_coordinates [OF assms(1), of dt]] by (simp add: in_world_def)
  from proceed_in_world [OF this, of rnd r] assms(2-) show ?thesis
    using proceed_next [of rnd s1 r]
    by (auto simp: s1_def dolphin_scene_tick_handler_def dolphin_scene_update_state_def handler_waits walk_update_def)
qed

lemma step_closer:
  fixes p x :: int
  assumes "0 \<le> p" and "p < 256" and "\<bar>x - p\<bar> = k + 1" and "0 \<le> x \<and> x \<le> 2048" and "0 \<le> k"
  shows "\<bar>clamp (x + (if x < p then 1 else - 1)) 2048 0 - p\<bar> = k"
  using assms by (cases "x < p") (auto simp: clamp_def)

lemma walker_steps:
  assumes "sa_state a = (s, r)" and "sa_running a" and "in_world s" and "action s = WALK"
    and "\<bar>next_x s - uint (poi s)\<bar> = int d" and "d < unat (action_timeout s)" and "length ts = Suc d"
  shows "\<exists>os a'. runE (scene_app_step dbg apps rnd g) a (map Scene_Tick ts) = Inr (os, a') \<and>
    global_x (fst (sa_state a')) = uint (poi s) \<and> v_x (fst (sa_state a')) = 0 \<and>
    prev_action (fst (sa_state a')) = WALK \<and>
    (next_action s = WALK \<or> action (fst (sa_state a')) = next_action s)"
  using assms
proof (induction d arbitrary: a s r ts)
  case 0
  then obtain t where ts: "ts = [t]" by (cases ts) auto
  from 0 have "0 < action_timeout s" by (auto simp: word_greater_zero_iff)
  from walk_tick_stops [OF 0(3,4) this, of rnd t "(t - sa_prev_t a) mod 1024" r] 0 ts show ?case
    by auto
next
  case (Suc d)
  from Suc.prems obtain t ts1 where ts: "ts = t # ts1" "length ts1 = Suc d" by (cases ts) auto
  from Suc.prems have pos: "0 < action_timeout s" by (auto simp: word_greater_zero_iff)
  from Suc.prems have "next_x s \<noteq> uint (poi s)" by auto
  from walk_tick_moves [OF Suc.prems(4) pos this, of rnd t "(t - sa_prev_t a) mod 1024" r]
  obtain s1 where tick: "dolphin_scene_tick_handler rnd t ((t - sa_prev_t a) mod 1024) (s, r) = Inr (s1, r)"
    and s1: "action s1 = WALK" "poi s1 = poi s" "action_timeout s1 = action_timeout s - 1"
      "global_x s1 = next_x s" "next_action s1 = next_action s" "v_x s1 = (if next_x s < uint (poi s) then 1 else - 1)"
    by blast
  have w1: "in_world s1" using stays_tick [OF Suc.prems(3), of rnd t "(t - sa_prev_t a) mod 1024" r] tick by simp
  have "uint (poi s) < 2 ^ LENGTH(8)" by (rule unsigned_less)
  then have small: "uint (poi s) < 256" by simp
  have range: "0 \<le> next_x s \<and> next_x s \<le> 2048" by (simp add: next_x_def clamp_def WORLD_WIDTH_def)
  have far: "\<bar>next_x s - uint (poi s)\<bar> = int d + 1" using Suc.prems(5) by simp
  have dist: "\<bar>next_x s1 - uint (poi s1)\<bar> = int d"
    unfolding next_x_def [of s1] s1 WORLD_WIDTH_def
    by (rule step_closer [OF _ small far range]) simp_all
  have less: "d < unat (action_timeout s1)"
    using Suc.prems(6) pos by (simp add: s1 unat_minus_one word_gt_0)
  show ?case
    using Suc.IH [of "a\<lparr>sa_state := (s1, r), sa_prev_t := t\<rparr>", OF _ _ w1 s1(1) dist less ts(2)] Suc.prems(1,2) ts tick
      s1(2,5) by auto
qed

text \<open>
  C31. A walk ends where it was meant to: if the time left for the activity is more than the distance
  to the place of interest (counted from where the first tick takes the dolphin, which is still
  moving at the speed it had), then after as many ticks as that distance and one more, at
  whatever times they come and with no key in between, it stands still on that place and the walk is over: it has gone on to the
  activity that was chosen to come next, if that was another one than walking. (If walking was to come
  next it rolls, and may roll another walk.)
\<close>

theorem walker_arrives:
  assumes "sa_state a = (s, r)" and "sa_running a" and "in_world s" and "action s = WALK"
    and "\<bar>next_x s - uint (poi s)\<bar> < int (unat (action_timeout s))"
    and "length ts = nat \<bar>next_x s - uint (poi s)\<bar> + 1"
  shows "\<exists>os a'. runE (scene_app_step dbg apps rnd g) a (map Scene_Tick ts) = Inr (os, a') \<and>
    global_x (fst (sa_state a')) = uint (poi s) \<and> v_x (fst (sa_state a')) = 0 \<and>
    prev_action (fst (sa_state a')) = WALK \<and>
    (next_action s = WALK \<or> action (fst (sa_state a')) = next_action s)"
proof (rule walker_steps [OF assms(1-4), where d = "nat \<bar>next_x s - uint (poi s)\<bar>"])
  show "nat \<bar>next_x s - uint (poi s)\<bar> < unat (action_timeout s)"
    using assms(5) by (simp only: nat_less_iff abs_ge_zero)
qed (use assms(6) in simp_all)

text \<open>A walk of three steps to the left of the middle of the room.\<close>

definition demo_walk :: scene_state where
  "demo_walk = fst (scene_alloc ''I_None'' (\<lambda>n. (n, n + 1)) (0 :: nat))
     \<lparr>action := WALK, global_x := 10, poi := 13, action_timeout := 100\<rparr>"

definition demo_walk_app :: "nat scene_app" where
  "demo_walk_app = (scene_app_start ''I_None'' (\<lambda>n. (n, n + 1)) 0 api_hal_power_state)
     \<lparr>sa_state := (demo_walk, 7)\<rparr>"

definition demo_gfx :: gfx where
  "demo_gfx =
     \<lparr>g_str_width = (\<lambda>_ s. of_nat (6 * length s)), g_ascent = (\<lambda>_. 8), g_char_height = (\<lambda>_. 8),
      g_icons = (\<lambda>_. \<lparr>icon_width = 8, icon_height = 8, frame_count = 1, frame_rate = 0, frames = [0]\<rparr>)\<rparr>"

theorem walker_arrives_witness:
  "\<exists>os a'. runE (scene_app_step True [] (\<lambda>n. (n, n + 1)) demo_gfx) demo_walk_app (map Scene_Tick [40, 80, 120, 160])
      = Inr (os, a') \<and>
    global_x (fst (sa_state a')) = uint (poi demo_walk) \<and> v_x (fst (sa_state a')) = 0 \<and>
    prev_action (fst (sa_state a')) = WALK \<and>
    (next_action demo_walk = WALK \<or> action (fst (sa_state a')) = next_action demo_walk)"
proof (rule walker_arrives [where s = demo_walk and r = 7])
  have d: "next_x demo_walk = 10" "poi demo_walk = 13" "action_timeout demo_walk = 100"
    by (simp_all add: demo_walk_def scene_alloc_def next_x_def clamp_def WORLD_WIDTH_def)
  show "\<bar>next_x demo_walk - uint (poi demo_walk)\<bar> < int (unat (action_timeout demo_walk))"
    "length [40, 80, 120, 160 :: u32] = nat \<bar>next_x demo_walk - uint (poi demo_walk)\<bar> + 1"
    by (simp_all add: d)
qed (simp_all add: demo_walk_app_def scene_app_start_def demo_walk_def scene_alloc_def in_world_def scene_numbers action_codes)

section \<open>What the scene gets wrong\<close>

text \<open>
  The loop of \<^verbatim>\<open>roll_new\<close> was to roll until the number differs from the last one; it takes the
  first number, and keeps 999 for ever.
\<close>

lemma roll_new_may_repeat:
  assumes "unat prev < mx" and "mx \<le> 999" and "rnd r = (unat prev, r1)"
  shows "roll_new rnd prev mx r = (prev, r1)"
proof -
  have "999 \<noteq> prev" using assms by auto
  then show ?thesis using assms by (simp add: roll_new_def)
qed

lemma roll_new_999: "roll_new rnd 999 mx r = (999, r)"
  by (simp add: roll_new_def)

text \<open>
  The place of interest is rolled in the first quarter of the world, 512 wide, and stored in a byte:
  the dolphin never walks to the second half of it by itself, where the computer stands.
\<close>

lemma poi_left_of_computer:
  assumes "global_x s \<le> uint (poi s)"
  shows "\<not> \<bar>item_rel s PC\<bar> \<le> DOLPHIN_WIDTH div 2"
proof -
  have "uint (poi s) < 2 ^ LENGTH(8)" by (rule unsigned_less)
  with assms have b: "global_x s \<le> 255" by simp
  define k where "k = (400 - global_x s) * 4"
  have "580 \<le> k" using b by (simp add: k_def)
  then have "82 \<le> k div 7" by simp
  with \<open>580 \<le> k\<close> have "82 \<le> k sdiv 7" by (simp add: signed_divide_int_def sgn_if)
  then show ?thesis
    by (simp add: item_rel_def PC_def scene_numbers k_def)
qed

text \<open>
  The first round of the loop that garbles a hint divides by zero: whenever the hint of a thing
  nearby is drawn within five ticks of the last movement.
\<close>

lemma hint_divides_by_zero:
  assumes "is_nearby s = Inr (Some i)" and "action_timeout s > 45"
  shows "scene_draw_hint rnd (action_timeout s > 45) (s, r) c = Inl Div_Zero"
proof -
  from assms(2) have "0 < unat (action_timeout s)" by (simp add: word_less_nat_alt)
  then obtain n where "unat (action_timeout s) = Suc n" using gr0_implies_Suc by blast
  with assms show ?thesis
    by (simp add: scene_draw_hint_def Let_def split: prod.splits)
qed

text \<open>The last step of the growing dots writes its zero behind the end of the array.\<close>

lemma growing_overflows:
  assumes "action_timeout s mod 10 = 0" and "unat (dialog_progress s) + 1 = length text" and "length text < 256"
  shows "draw_growing text x y (s, r) c = Inl Out_Of_Bounds"
  using assms
  by (simp add: draw_growing_def step_progress_def cut_at_def Let_def inc_unat)

lemma idle_emote_overflows:
  assumes "action_timeout s = 20" and "dialog_progress s = 2"
  shows "draw_idle_emote (s, r) c = Inl Out_Of_Bounds"
  using assms by (simp add: draw_idle_emote_def growing_overflows)

text \<open>
  A thing is near when the middle of the dolphin is within 16 of where the thing would be drawn
  if its layer were added instead of subtracted: the macro is used on both sides of a minus sign.
\<close>

lemma nearby_shifted:
  "item_rel s i =
     DOLPHIN_CENTER + DOLPHIN_WIDTH div 2 - times_parallax (item_x i - global_x s) (item_layer i)
       - 2 * uint (item_layer i)"
  by (simp add: item_rel_def times_parallax_def)

text \<open>Every start of an application from the room adds an instance; none is ever released.\<close>

lemma start_app_adds:
  "dolphin_scene_start_app dbg new app s = Inr s' \<Longrightarrow>
     length (scene_app_thread s') = length (scene_app_thread s) + 1"
  by (auto simp: dolphin_scene_start_app_def furi_assert_eq_Inr bindE_eq_Inr split: prod.splits)

text \<open>Leaving by the back key gives the sleep counter back as it was.\<close>

lemma scene_balances_sleep:
  assumes "sa_running a" and "sa_power a = api_hal_power_insomnia_enter p"
    and "scene_app_step dbg apps rnd g a (Scene_Key \<lparr>ev_key = InputKeyBack, ev_type = InputTypeShort\<rparr>) = Inr (o1, a1)"
  shows "sa_power a1 = p"
  using assms by (auto simp: insomnia_balanced)

end
