(* ===== verification/IrdaApp.thy ===== *)
theory IrdaApp
  imports Irda Canvas Cli Input
begin

text \<open>
  The infrared application, \<^verbatim>\<open>applications/irda/irda_app.c\<close>: a screen that sends a carrier or one
  of eight packets and stores what it receives, and the commands \<^verbatim>\<open>ir_tx\<close> and \<^verbatim>\<open>ir_rx\<close>. It sits on the
  infrared library: pulses reach the decoders in an interrupt, whose messages reach the task
  through a queue.
\<close>

section \<open>State\<close>

definition IRDA_PACKET_COUNT :: nat where "IRDA_PACKET_COUNT = 8"

datatype irda_app_event =
    EventTypeKey input_event
  | EventTypeRX irda_message

record irda_app_state =
  mode_id :: u8
  carrier_freq :: u16
  carrier_duty_cycle_id :: u8
  packet_id :: u8
  packets :: "irda_message list"

text \<open>
  What the task gives back when it ends, in the order in which it does.
\<close>

datatype irda_release =
    Release_View_Port
  | Release_State_Mutex
  | Release_Events
  | Release_Cli_Queue
  | Release_Rx_Command
  | Release_Tx_Command
  | Release_Records
  | Release_Irq
  | Release_Decoder

definition irda_releases :: "irda_release list" where
  "irda_releases =
     [Release_View_Port, Release_State_Mutex, Release_Events, Release_Cli_Queue, Release_Rx_Command,
      Release_Tx_Command, Release_Records, Release_Irq, Release_Decoder]"

text \<open>
  Where the thread of the command line is: it looks a command up under its own lock, and runs it
  without, so the command may be deleted in between.
\<close>

datatype irda_cli_phase = Cli_Idle | Cli_Found_Rx | Cli_In_Rx | Cli_Found_Tx

text \<open>
  The application with its two queues, the decoders that the interrupt uses, what the task still has
  to give back, once it is ending, and the command line.
\<close>

record irda_app =
  ia_state :: irda_app_state
  ia_events :: "irda_app_event list"
  cli_ir_rx_queue :: "irda_message list"
  cli_cmd_is_active :: bool
  ia_handler :: "irda_decoder list"
  ia_exit :: "irda_release list option"
  ia_cli :: irda_cli_phase

definition ia_running :: "irda_app \<Rightarrow> bool" where
  "ia_running a \<longleftrightarrow> ia_exit a = None"

definition released :: "irda_release \<Rightarrow> irda_app \<Rightarrow> bool" where
  "released r a = (case ia_exit a of None \<Rightarrow> False | Some left \<Rightarrow> r \<notin> set left)"

datatype irda_app_out =
    Out_Ir irda_call
  | Out_Notify string
  | Out_Print string
  | Out_Draw u8g2_call

definition duty_cycles :: "rat list" where
  "duty_cycles = [f32 (1 / 10), f32 (1 / 4), f32 (333 / 1000), f32 (1 / 2), 1]"

definition mode_count :: nat where "mode_count = 2"

section \<open>Text\<close>

text \<open>\<^verbatim>\<open>%lX\<close>, \<^verbatim>\<open>%02X\<close>, and \<^verbatim>\<open>sprintf\<close> into a buffer of \<open>n\<close> bytes.\<close>

definition hex_upper :: "nat \<Rightarrow> char" where
  "hex_upper d = char_of (if d < 10 then 48 + d else 55 + d)"

fun hexadecimal :: "nat \<Rightarrow> string" where
  "hexadecimal n = (if n < 16 then [hex_upper n] else hexadecimal (n div 16) @ [hex_upper (n mod 16)])"

declare hexadecimal.simps [simp del]

definition hexadecimal2 :: "nat \<Rightarrow> string" where
  "hexadecimal2 n = (if n < 16 then ''0'' @ hexadecimal n else hexadecimal n)"

definition sprintf_to :: "nat \<Rightarrow> string \<Rightarrow> string res" where
  "sprintf_to n s = (if length s < n then Inr s else Inl Out_Of_Bounds)"

text \<open>\<^verbatim>\<open>strtoul\<close> with base 16, as the C standard has it.\<close>

definition strtoul_base16 :: "string \<Rightarrow> u32" where
  "strtoul_base16 s0 =
     (let s1 = dropWhile is_c_space s0;
          neg = (s1 \<noteq> [] \<and> hd s1 = CHR ''-'');
          s2 = (if s1 \<noteq> [] \<and> (hd s1 = CHR ''-'' \<or> hd s1 = CHR ''+'') then tl s1 else s1);
          hex = (length s2 \<ge> 3 \<and> s2 ! 0 = CHR ''0'' \<and> s2 ! 1 \<in> {CHR ''x'', CHR ''X''} \<and>
                 digit_value (s2 ! 2) < 16);
          v = fst (digits 16 0 (if hex then drop 2 s2 else s2))
      in if v \<ge> 2 ^ 32 then - 1 else if neg then - of_nat v else of_nat v)"

section \<open>The screen\<close>

definition render_carrier :: "irda_app_state \<Rightarrow> draw" where
  "render_carrier st c =
     bindE (arr_get duty_cycles (unat (carrier_duty_cycle_id st))) (\<lambda>duty.
     bindE (sprintf_to 24 (''frequency: '' @ decimal (unat (carrier_freq st)) @ '' Hz'')) (\<lambda>buf1.
     bindE (sprintf_to 24 (''duty cycle: '' @ decimal (nat \<lfloor>f32 (duty * 1000)\<rfloor>) @ ''/1000'')) (\<lambda>buf2.
       draws
         [canvas_set_font FontSecondary, canvas_draw_str 2 25 ''carrier mode >'',
          canvas_draw_str 2 37 (''? /'' @ [CHR 0x5C] @ '' freq | '' @ [CHR 0x5C] @ ''/ duty cycle''),
          canvas_draw_str 2 50 buf1, canvas_draw_str 2 62 buf2] c)))"

definition input_carrier :: "input_event \<Rightarrow> irda_app_state \<Rightarrow> (irda_app_out list \<times> irda_app_state) res" where
  "input_carrier ev st =
     bindE
       (if ev_key ev = InputKeyOk then
          (if ev_type ev = InputTypePress then
             bindE (arr_get duty_cycles (unat (carrier_duty_cycle_id st))) (\<lambda>duty.
               Inr [Out_Ir (Pwm_Set duty (ucast (carrier_freq st)))])
           else if ev_type ev = InputTypeRelease then Inr [Out_Ir Pwm_Stop]
           else Inr [])
        else Inr []) (\<lambda>outs.
       let st1 = (if ev_type ev = InputTypeShort \<and> ev_key ev = InputKeyUp
                  then (if carrier_freq st < 45000 then st\<lparr>carrier_freq := carrier_freq st + 1000\<rparr>
                        else st\<lparr>carrier_freq := 33000\<rparr>)
                  else st);
           st2 = (if ev_type ev = InputTypeShort \<and> ev_key ev = InputKeyDown
                  then (if int (unat (carrier_duty_cycle_id st1)) < int (length duty_cycles) - 1
                        then st1\<lparr>carrier_duty_cycle_id := carrier_duty_cycle_id st1 + 1\<rparr>
                        else st1\<lparr>carrier_duty_cycle_id := 0\<rparr>)
                  else st1)
       in Inr (outs, st2))"

definition packet_line :: "u8 \<Rightarrow> irda_message \<Rightarrow> string" where
  "packet_line i m =
     ''P['' @ decimal (unat i) @ '']: '' @ irda_get_protocol_name (msg_protocol m) @ '' 0x'' @
     hexadecimal (unat (msg_address m)) @ '' 0x'' @ hexadecimal (unat (msg_command m))"

definition render_packet :: "irda_app_state \<Rightarrow> draw" where
  "render_packet st c =
     bindE (arr_get (packets st) (unat (packet_id st))) (\<lambda>m.
     bindE (sprintf_to 30 (packet_line (packet_id st) m)) (\<lambda>buf.
       draws
         [canvas_set_font FontSecondary, canvas_draw_str 2 25 ''< packet mode'',
          canvas_draw_str 2 37 (''? /'' @ [CHR 0x5C] @ '' '' @ [CHR 0x5C] @ ''/ packet''),
          canvas_draw_str 2 50 buf] c))"

definition input_packet :: "input_event \<Rightarrow> irda_app_state \<Rightarrow> (irda_app_out list \<times> irda_app_state) res" where
  "input_packet ev st =
     bindE
       (if ev_key ev = InputKeyOk \<and> ev_type ev = InputTypeShort then
          bindE (arr_get (packets st) (unat (packet_id st))) (\<lambda>p.
            Inr (map Out_Ir (irda_send \<lparr>msg_protocol = msg_protocol p, msg_address = msg_address p,
                                       msg_command = msg_command p, msg_repeat = False\<rparr> 1)))
        else Inr []) (\<lambda>outs.
       let st1 = (if ev_type ev = InputTypeShort \<and> ev_key ev = InputKeyDown
                  then (if int (unat (packet_id st)) < int IRDA_PACKET_COUNT - 1
                        then st\<lparr>packet_id := packet_id st + 1\<rparr> else st)
                  else st);
           st2 = (if ev_type ev = InputTypeShort \<and> ev_key ev = InputKeyUp
                  then (if packet_id st1 > 0 then st1\<lparr>packet_id := packet_id st1 - 1\<rparr> else st1)
                  else st1)
       in Inr (outs, st2))"

text \<open>The table \<^verbatim>\<open>modes\<close>.\<close>

definition mode_render :: "u8 \<Rightarrow> irda_app_state \<Rightarrow> draw" where
  "mode_render i st c = bindE (arr_get [render_carrier, render_packet] (unat i)) (\<lambda>f. f st c)"

definition mode_input :: "u8 \<Rightarrow> input_event \<Rightarrow> irda_app_state \<Rightarrow> (irda_app_out list \<times> irda_app_state) res" where
  "mode_input i ev st = bindE (arr_get [input_carrier, input_packet] (unat i)) (\<lambda>f. f ev st)"

definition irda_render_callback :: "bool \<Rightarrow> irda_app_state \<Rightarrow> draw" where
  "irda_render_callback acq st =
     (if acq then
        draws [canvas_clear, canvas_set_color ColorBlack, canvas_set_font FontPrimary,
               canvas_draw_str 2 12 ''irda test'', mode_render (mode_id st) st]
      else draw_nothing)"

section \<open>Commands\<close>

definition irda_cli_cmd_tx :: "bool \<Rightarrow> string \<Rightarrow> string \<times> irda_call list" where
  "irda_cli_cmd_tx acq args0 =
     (case string_search_char args0 (CHR '' '') of
        None \<Rightarrow> (''Invalid input. Use ir_tx PROTOCOL ADDRESS COMMAND'', [])
      | Some ws \<Rightarrow>
          (let protocol_str = string_left args0 ws; args1 = string_strim (string_right args0 ws);
               protocol = (if protocol_str = ''NEC'' then Some IrdaProtocolNEC
                           else if protocol_str = ''SAMSUNG'' then Some IrdaProtocolSamsung32 else None)
           in case protocol of
                None \<Rightarrow> (''Incorrect protocol. Valid protocols: `NEC`, `SAMSUNG`'', [])
              | Some p \<Rightarrow>
                  (let address = ucast (strtoul_base16 args1) :: u16 in
                   case string_search_char args1 (CHR '' '') of
                     None \<Rightarrow> (''Invalid address format. Use 4 [0-F] hex digits in 0xXXXX or XXXX formats'', [])
                   | Some ws1 \<Rightarrow>
                       if \<not> (ws1 = 4 \<or> ws1 = 6)
                       then (''Invalid address format. Use 4 [0-F] hex digits in 0xXXXX or XXXX formats'', [])
                       else
                         (let args2 = string_strim (string_right args1 ws1);
                              command = ucast (strtoul_base16 args2) :: u16
                          in if \<not> (length args2 = 4 \<or> length args2 = 6)
                             then (''Invalid command format. Use 4 [0-F] hex digits in 0xXXXX or XXXX formats'', [])
                             else if \<not> acq then (''IRDA resources busy'' @ [CHR 0x0D, CHR 0x0A], [])
                             else ([], irda_send \<lparr>msg_protocol = p, msg_address = ucast address,
                                                 msg_command = ucast command, msg_repeat = False\<rparr> 1)))))"

definition rx_line :: "irda_message \<Rightarrow> string" where
  "rx_line m =
     irda_get_protocol_name (msg_protocol m) @ '' Address:0x'' @
     hexadecimal2 (unat (ucast (msg_address m) :: u8)) @ '' Command: 0x'' @
     hexadecimal2 (unat (ucast (msg_command m) :: u8)) @ '' '' @ (if msg_repeat m then ''R'' else '''') @
     [CHR 0x0D, CHR 0x0A]"

section \<open>Events\<close>

text \<open>
  The interrupt: the queue of the task has 32 places, and the message is not waited for. Using a queue
  that was deleted is an access to memory that was given back, like one out of bounds.
\<close>

definition irda_rx_callback :: "bool \<Rightarrow> bool \<times> u32 \<Rightarrow> irda_app \<Rightarrow> irda_app res" where
  "irda_rx_callback dbg x a =
     bindE (irda_decode dbg (ia_handler a) x) (\<lambda>(m, h).
       let a1 = a\<lparr>ia_handler := h\<rparr> in
       case m of
         None \<Rightarrow> Inr a1
       | Some msg \<Rightarrow>
           if released Release_Events a then Inl Out_Of_Bounds
           else
             (let room = length (ia_events a1) < 32 in
              furi_assert dbg room
                (Inr (if room then a1\<lparr>ia_events := ia_events a1 @ [EventTypeRX msg]\<rparr> else a1))))"

definition irda_input_callback :: "input_event \<Rightarrow> irda_app \<Rightarrow> irda_app" where
  "irda_input_callback ev a =
     (if length (ia_events a) < 32 then a\<lparr>ia_events := ia_events a @ [EventTypeKey ev]\<rparr> else a)"

definition init_packet :: "nat \<Rightarrow> irda_protocol_id \<Rightarrow> u32 \<Rightarrow> u32 \<Rightarrow> irda_message list \<Rightarrow> irda_message list" where
  "init_packet i p addr cmd ps =
     (if i \<ge> IRDA_PACKET_COUNT then ps
      else ps[i := (ps ! i)\<lparr>msg_protocol := p, msg_address := addr, msg_command := cmd\<rparr>])"

text \<open>\<open>junk\<close>: the eight packets as the stack has them; their flag of repetition is never set.\<close>

definition initial_packets :: "irda_message list \<Rightarrow> irda_message list" where
  "initial_packets junk =
     fold (\<lambda>(i, p, addr, cmd). init_packet i p addr cmd)
       (map (\<lambda>i. (i, IrdaProtocolSamsung32, 0, 0)) [0..<IRDA_PACKET_COUNT] @
        [(0, IrdaProtocolNEC, 0x00, 0x11), (1, IrdaProtocolNEC, 0x08, 0x59), (2, IrdaProtocolNEC, 0x00, 0x10),
         (3, IrdaProtocolNEC, 0x00, 0x15), (4, IrdaProtocolNEC, 0x00, 0x25),
         (5, IrdaProtocolSamsung32, 0x0E, 0x0C), (6, IrdaProtocolSamsung32, 0x0E, 0x0D),
         (7, IrdaProtocolSamsung32, 0x0E, 0x0E)]) junk"

definition irda_start :: "irda_message list \<Rightarrow> irda_app" where
  "irda_start junk =
     \<lparr>ia_state = \<lparr>mode_id = 0, carrier_freq = 36000, carrier_duty_cycle_id = of_nat (length duty_cycles - 2),
                 packet_id = 0, packets = initial_packets junk\<rparr>,
      ia_events = [], cli_ir_rx_queue = [], cli_cmd_is_active = False,
      ia_handler = irda_alloc_decoder, ia_exit = None, ia_cli = Cli_Idle\<rparr>"

definition irda_key :: "input_event \<Rightarrow> irda_app_state \<Rightarrow> (irda_app_out list \<times> irda_app_state) res" where
  "irda_key ev st =
     (let st1 = (if ev_type ev = InputTypeShort \<and> ev_key ev = InputKeyLeft \<and> mode_id st > 0
                 then st\<lparr>mode_id := mode_id st - 1\<rparr> else st);
          st2 = (if ev_type ev = InputTypeShort \<and> ev_key ev = InputKeyRight \<and>
                    int (unat (mode_id st1)) < int mode_count - 1
                 then st1\<lparr>mode_id := mode_id st1 + 1\<rparr> else st1)
      in mode_input (mode_id st2) ev st2)"

definition irda_rx :: "irda_message \<Rightarrow> irda_app \<Rightarrow> (irda_app_out list \<times> irda_app) res" where
  "irda_rx packet a =
     (let st = ia_state a in
      bindE
        (if mode_id st = 1 then
           bindE (arr_set (packets st) (unat (packet_id st)) packet) (\<lambda>ps.
             Inr ([Out_Print (''P='' @ irda_get_protocol_name (msg_protocol packet) @ '' '' @
                     ''A=0x'' @ hexadecimal2 (unat (msg_address packet)) @ '' '' @
                     ''C=0x'' @ hexadecimal2 (unat (msg_command packet)) @ '' '' @
                     (if msg_repeat packet then ''R'' else '''') @ [CHR 0x0D, CHR 0x0A])],
                  a\<lparr>ia_state := st\<lparr>packets := ps\<rparr>\<rparr>))
         else Inr ([], a)) (\<lambda>(outs, a1).
        let a2 = (if cli_cmd_is_active a1 \<and> cli_ir_rx_queue a1 = []
                  then a1\<lparr>cli_ir_rx_queue := [packet]\<rparr> else a1)
        in Inr (Out_Notify ''sequence_blink_red_10'' # outs @ [Out_Notify ''sequence_blink_green_10''], a2)))"

text \<open>
  One round of the task; an empty queue is a timeout, after which nothing is done. The Back key begins
  the end of the task, which goes on in steps: everything else may run between them.
\<close>

definition irda_round :: "irda_app \<Rightarrow> (irda_app_out list \<times> irda_app) res" where
  "irda_round a =
     (case ia_events a of
        [] \<Rightarrow> Inr ([], a)
      | EventTypeKey ev # es \<Rightarrow>
          (let a1 = a\<lparr>ia_events := es\<rparr> in
           if ev_type ev = InputTypeShort \<and> ev_key ev = InputKeyBack
           then Inr ([], a1\<lparr>ia_exit := Some irda_releases\<rparr>)
           else bindE (irda_key ev (ia_state a1)) (\<lambda>(outs, st). Inr (outs, a1\<lparr>ia_state := st\<rparr>)))
      | EventTypeRX packet # es \<Rightarrow> irda_rx packet (a\<lparr>ia_events := es\<rparr>))"

definition irda_release_next :: "irda_app \<Rightarrow> irda_app" where
  "irda_release_next a = a\<lparr>ia_exit := map_option tl (ia_exit a)\<rparr>"

text \<open>
  One round of the command \<^verbatim>\<open>ir_rx\<close>, which takes a packet if there is one and stops after the round in
  which it was interrupted.
\<close>

definition irda_cli_cmd_rx :: "bool \<Rightarrow> irda_app \<Rightarrow> (irda_app_out list \<times> irda_app) res" where
  "irda_cli_cmd_rx interrupted a =
     (if released Release_Cli_Queue a then Inl Out_Of_Bounds
      else
        (let got = (case cli_ir_rx_queue a of
                      [] \<Rightarrow> ([], a)
                    | m # ms \<Rightarrow> ([Out_Print (rx_line m)], a\<lparr>cli_ir_rx_queue := ms\<rparr>))
         in Inr (if interrupted
                 then (fst got @ [Out_Print ''Interrupt command received''], (snd got)\<lparr>cli_cmd_is_active := False, ia_cli := Cli_Idle\<rparr>)
                 else got)))"

text \<open>The command \<^verbatim>\<open>ir_tx\<close> takes the mutex if its arguments are right.\<close>

definition irda_tx_locks :: "string \<Rightarrow> bool" where
  "irda_tx_locks args \<longleftrightarrow> irda_cli_cmd_tx True args \<noteq> irda_cli_cmd_tx False args"

text \<open>
  What happens to the application, in any order. The interrupt comes until it is switched off; the
  screen calls back until its view port is removed; the commands are found until they are deleted,
  and \<^verbatim>\<open>ir_rx\<close>, once it runs, goes on until it is interrupted. The context of \<^verbatim>\<open>ir_rx\<close> is on the stack
  of the task, and is gone when the task has returned.
\<close>

datatype irda_happening =
    Ia_Pulse "bool \<times> u32"
  | Ia_Key input_event
  | Ia_Round
  | Ia_Release
  | Ia_Render bool canvas
  | Ia_Find_Rx
  | Ia_Find_Tx
  | Ia_Command
  | Ia_Command_Round bool
  | Ia_Tx bool string

fun irda_app_step :: "bool \<Rightarrow> irda_app \<Rightarrow> irda_happening \<Rightarrow> (irda_app_out list \<times> irda_app) res" where
  "irda_app_step dbg a (Ia_Pulse x) =
     (if released Release_Irq a then Inr ([], a)
      else bindE (irda_rx_callback dbg x a) (\<lambda>a1. Inr ([], a1)))"
| "irda_app_step dbg a (Ia_Key ev) =
     Inr ([], if released Release_View_Port a then a else irda_input_callback ev a)"
| "irda_app_step dbg a Ia_Round = (if ia_running a then irda_round a else Inr ([], a))"
| "irda_app_step dbg a Ia_Release = Inr ([], irda_release_next a)"
| "irda_app_step dbg a (Ia_Render acq c) =
     (if released Release_View_Port a then Inr ([], a)
      else bindE (irda_render_callback acq (ia_state a) c) (\<lambda>(cs, _). Inr (map Out_Draw cs, a)))"
| "irda_app_step dbg a Ia_Find_Rx =
     Inr ([], if ia_cli a = Cli_Idle \<and> \<not> released Release_Rx_Command a then a\<lparr>ia_cli := Cli_Found_Rx\<rparr> else a)"
| "irda_app_step dbg a Ia_Find_Tx =
     Inr ([], if ia_cli a = Cli_Idle \<and> \<not> released Release_Tx_Command a then a\<lparr>ia_cli := Cli_Found_Tx\<rparr> else a)"
| "irda_app_step dbg a Ia_Command =
     (if ia_cli a \<noteq> Cli_Found_Rx then Inr ([], a)
      else if released Release_Decoder a then Inl Out_Of_Bounds
      else Inr ([Out_Print (''Reading income packets...'' @ [CHR 0x0D, CHR 0x0A] @ ''Press Ctrl+C to abort'' @
                           [CHR 0x0D, CHR 0x0A])], a\<lparr>cli_cmd_is_active := True, ia_cli := Cli_In_Rx\<rparr>))"
| "irda_app_step dbg a (Ia_Command_Round interrupted) =
     (if ia_cli a = Cli_In_Rx then irda_cli_cmd_rx interrupted a else Inr ([], a))"
| "irda_app_step dbg a (Ia_Tx acq args) =
     (if ia_cli a \<noteq> Cli_Found_Tx then Inr ([], a)
      else if irda_tx_locks args \<and> released Release_State_Mutex a then Inl Out_Of_Bounds
      else (case irda_cli_cmd_tx acq args of
              (msg, cs) \<Rightarrow> Inr (Out_Print msg # map Out_Ir cs, a\<lparr>ia_cli := Cli_Idle\<rparr>)))"

section \<open>Pulses become events\<close>

text \<open>What the decoders hear while the task does not run is queued, in order.\<close>

lemma pulses_queue_messages:
  assumes "hears (irda_decode dbg) (ia_handler a) xs ms h'" and "length (ia_events a) + length ms \<le> 32"
    and "ia_running a"
  shows "\<exists>os. runE (irda_app_step dbg) a (map Ia_Pulse xs) =
    Inr (os, a\<lparr>ia_handler := h', ia_events := ia_events a @ map EventTypeRX ms\<rparr>)"
  using assms
proof (induction xs arbitrary: a ms)
  case Nil
  then show ?case by simp
next
  case (Cons x xs)
  from Cons.prems(1) obtain m h1 os1 where 1: "irda_decode dbg (ia_handler a) x = Inr (m, h1)"
    and 2: "runE (irda_decode dbg) h1 xs = Inr (os1, h')" and ms: "ms = List.map_filter id (m # os1)"
    by (auto simp: hears_def bindE_eq_Inr)
  define a1 where "a1 = a\<lparr>ia_handler := h1, ia_events := ia_events a @ (case m of None \<Rightarrow> [] | Some y \<Rightarrow> [EventTypeRX y])\<rparr>"
  have step: "irda_app_step dbg a (Ia_Pulse x) = Inr ([], a1)"
    using Cons.prems(2,3) 1 ms
    by (auto simp: irda_rx_callback_def ia_running_def released_def a1_def furi_assert_def Let_def List.map_filter_simps split: option.splits)
  have "\<exists>os. runE (irda_app_step dbg) a1 (map Ia_Pulse xs) =
      Inr (os, a1\<lparr>ia_handler := h', ia_events := ia_events a1 @ map EventTypeRX (List.map_filter id os1)\<rparr>)"
  proof (rule Cons.IH)
    show "hears (irda_decode dbg) (ia_handler a1) xs (List.map_filter id os1) h'"
      using 2 by (auto simp: hears_def a1_def)
    show "length (ia_events a1) + length (List.map_filter id os1) \<le> 32"
      using Cons.prems(2) ms by (simp add: a1_def List.map_filter_simps split: option.splits)
    show "ia_running a1" using Cons.prems(3) by (simp add: a1_def ia_running_def)
  qed
  with step show ?case
    by (auto simp: a1_def ms List.map_filter_simps split: option.splits)
qed

section \<open>Typing an address\<close>

definition hex4 :: "u16 \<Rightarrow> string" where
  "hex4 w = map (\<lambda>i. hex_upper (unat w div 16 ^ i mod 16)) [3, 2, 1, 0]"

lemma below_16_cases: "d < 16 \<Longrightarrow> P d" if "\<forall>i \<in> set [0..<16]. P i" for d :: nat
  using that by simp

lemma hex_upper_value: "d < 16 \<Longrightarrow> digit_value (hex_upper d) = d"
  by (erule below_16_cases [rotated]) (simp add: hex_upper_def digit_value_def upt_rec)

lemma hex_upper_plain:
  "d < 16 \<Longrightarrow> \<not> is_c_space (hex_upper d) \<and> \<not> is_blank (hex_upper d) \<and>
     hex_upper d \<notin> {CHR ''-'', CHR ''+'', CHR ''x'', CHR ''X'', CHR '' ''}"
  by (erule below_16_cases [rotated])
    (simp add: hex_upper_def is_c_space_def is_blank_def char_of_def upt_rec)

lemma digits_hex: "d < 16 \<Longrightarrow> digits 16 v (hex_upper d # s) = digits 16 (v * 16 + d) s"
  by (simp add: hex_upper_value)

lemma digits_hex4:
  assumes "s = [] \<or> \<not> digit_value (hd s) < 16"
  shows "fst (digits 16 0 (hex4 w @ s)) = unat w"
proof -
  have stop: "fst (digits 16 v s) = v" for v
    using assms by (cases s) auto
  have "unat w < 2 ^ LENGTH(16)" by (rule unsigned_less)
  then have w: "unat w < 65536" by simp
  have "((unat w div 4096 * 16 + unat w div 256 mod 16) * 16 + unat w div 16 mod 16) * 16 + unat w mod 16 = unat w"
  proof -
    have "unat w div 4096 * 16 + unat w div 256 mod 16 = unat w div 256"
      using div_mult_mod_eq [of "unat w div 256" 16] by (simp add: div_mult2_eq [symmetric])
    moreover have "unat w div 256 * 16 + unat w div 16 mod 16 = unat w div 16"
      using div_mult_mod_eq [of "unat w div 16" 16] by (simp add: div_mult2_eq [symmetric])
    ultimately show ?thesis by simp
  qed
  moreover have "unat w div 4096 mod 16 = unat w div 4096" using w by simp
  ultimately have sum: "((unat w div 16 ^ 3 mod 16 * 16 + unat w div 16 ^ 2 mod 16) * 16 + unat w div 16 ^ 1 mod 16) * 16 +
      unat w div 16 ^ 0 mod 16 = unat w"
    by simp
  have m: "n mod 16 < (16 :: nat)" for n by simp
  show ?thesis
    unfolding hex4_def list.map append_Cons append_Nil digits_hex [OF m] stop mult_0 add_0 by (rule sum)
qed

lemma hex4_shape:
  "\<exists>p q r s. hex4 w = [p, q, r, s] \<and> (\<forall>ch \<in> {p, q, r, s}. \<not> is_c_space ch \<and> \<not> is_blank ch \<and>
     ch \<notin> {CHR ''-'', CHR ''+'', CHR ''x'', CHR ''X'', CHR '' ''})"
proof -
  define e where "e i = hex_upper (unat w div 16 ^ i mod 16)" for i :: nat
  have plain: "\<not> is_c_space (e i)" "\<not> is_blank (e i)"
    "e i \<notin> {CHR ''-'', CHR ''+'', CHR ''x'', CHR ''X'', CHR '' ''}" for i
    using hex_upper_plain [of "unat w div 16 ^ i mod 16"] by (simp_all add: e_def)
  have "hex4 w = [e 3, e 2, e 1, e 0]" by (simp add: hex4_def e_def)
  with plain show ?thesis by simp
qed

lemma strtoul_hex4:
  assumes "s = [] \<or> \<not> digit_value (hd s) < 16"
  shows "strtoul_base16 (hex4 w @ s) = ucast w"
proof -
  from hex4_shape [of w] obtain p q r u where h: "hex4 w = [p, q, r, u]"
    and plain: "\<forall>ch \<in> {p, q, r, u}. \<not> is_c_space ch \<and> \<not> is_blank ch \<and>
      ch \<notin> {CHR ''-'', CHR ''+'', CHR ''x'', CHR ''X'', CHR '' ''}"
    by (elim exE conjE)
  have "unat w < 2 ^ LENGTH(16)" by (rule unsigned_less)
  then have small: "\<not> 2 ^ 32 \<le> unat w" by simp
  have d: "fst (digits 16 0 (p # q # r # u # s)) = unat w"
    using digits_hex4 [OF assms, of w] by (simp only: h append_Cons append_Nil)
  have "dropWhile is_c_space (p # q # r # u # s) = p # q # r # u # s" "p \<noteq> CHR ''-''" "p \<noteq> CHR ''+''"
    "q \<noteq> CHR ''x''" "q \<noteq> CHR ''X''"
    using plain by simp_all
  then have "strtoul_base16 (hex4 w @ s) = (let v = fst (digits 16 0 (p # q # r # u # s)) in
      if v \<ge> 2 ^ 32 then - 1 else of_nat v)"
    by (simp add: strtoul_base16_def h Let_def del: digits.simps dropWhile.simps)
  then show ?thesis by (simp only: d small Let_def if_False unsigned_of_nat) simp
qed

definition protocol_arg :: "irda_protocol_id \<Rightarrow> string" where
  "protocol_arg p = (case p of IrdaProtocolNEC \<Rightarrow> ''NEC'' | IrdaProtocolSamsung32 \<Rightarrow> ''SAMSUNG'')"

definition tx_args :: "irda_protocol_id \<Rightarrow> u16 \<Rightarrow> u16 \<Rightarrow> string" where
  "tx_args p addr cmd = protocol_arg p @ CHR '' '' # hex4 addr @ CHR '' '' # hex4 cmd"

lemma hex4_facts:
  "length (hex4 w) = 4" "CHR '' '' \<notin> set (hex4 w)" "\<not> is_blank (hd (hex4 w))" "\<not> is_blank (last (hex4 w))"
  "hex4 w \<noteq> []"
proof -
  from hex4_shape [of w] obtain p q r u where h: "hex4 w = [p, q, r, u]"
    and plain: "\<forall>ch \<in> {p, q, r, u}. \<not> is_c_space ch \<and> \<not> is_blank ch \<and>
      ch \<notin> {CHR ''-'', CHR ''+'', CHR ''x'', CHR ''X'', CHR '' ''}"
    by (elim exE conjE)
  from plain show "CHR '' '' \<notin> set (hex4 w)" by (auto simp: h)
  from plain show "\<not> is_blank (hd (hex4 w))" "\<not> is_blank (last (hex4 w))" by (simp_all add: h)
qed (simp_all add: hex4_def)

lemma space_no_digit: "\<not> digit_value (CHR '' '') < 16"
  by (simp add: digit_value_def)

lemma tx_parses:
  "irda_cli_cmd_tx True (tx_args p addr cmd) =
     ([], irda_send \<lparr>msg_protocol = p, msg_address = ucast addr, msg_command = ucast cmd, msg_repeat = False\<rparr> 1)"
proof -
  let ?rest = "hex4 addr @ CHR '' '' # hex4 cmd"
  have "CHR '' '' \<notin> set (protocol_arg p)" by (cases p) (simp_all add: protocol_arg_def)
  then have s0: "string_search_char (tx_args p addr cmd) (CHR '' '') = Some (length (protocol_arg p))"
    unfolding tx_args_def by (rule string_search_char_append)
  have s1: "string_search_char ?rest (CHR '' '') = Some 4"
    using string_search_char_append [OF hex4_facts(2), of addr "hex4 cmd"] by (simp only: hex4_facts(1))
  have strim1: "string_strim (CHR '' '' # ?rest) = ?rest"
    by (rule string_strim_word) (simp add: hex4_facts)
  have strim2: "string_strim (CHR '' '' # hex4 cmd) = hex4 cmd"
    by (rule string_strim_word) (simp add: hex4_facts)
  have left: "string_left (tx_args p addr cmd) (length (protocol_arg p)) = protocol_arg p"
    "string_right (tx_args p addr cmd) (length (protocol_arg p)) = CHR '' '' # ?rest"
    by (simp_all add: string_left_def string_right_def tx_args_def)
  have right: "string_right ?rest 4 = CHR '' '' # hex4 cmd"
    by (simp add: string_right_def hex4_facts(1))
  have v1: "strtoul_base16 ?rest = ucast addr"
    by (rule strtoul_hex4) (simp add: space_no_digit)
  have v2: "strtoul_base16 (hex4 cmd) = ucast cmd"
    using strtoul_hex4 [of "[]" cmd] by simp
  have name: "(if protocol_arg p = ''NEC'' then Some IrdaProtocolNEC
      else if protocol_arg p = ''SAMSUNG'' then Some IrdaProtocolSamsung32 else None) = Some p"
    by (cases p) (simp_all add: protocol_arg_def)
  have again: "(ucast (ucast w :: u32) :: u16) = w" for w :: u16
    by (rule bit_word_eqI) (auto simp: bit_simps)
  show ?thesis
    by (simp add: irda_cli_cmd_tx_def Let_def again s0 s1 left strim1 strim2 right v1 v2 name hex4_facts(1)
        del: string_search_char.simps append.simps)
qed

section \<open>From one device to another\<close>

text \<open>What a receiver makes of a command: the address and command of which the protocol carries the low bytes.\<close>

definition heard :: "irda_protocol_id \<Rightarrow> u16 \<Rightarrow> u16 \<Rightarrow> irda_message" where
  "heard p addr cmd =
     (case p of
        IrdaProtocolNEC \<Rightarrow>
          \<lparr>msg_protocol = p, msg_address = (ucast addr AND 0xFF) OR push_bit 8 (NOT (ucast addr) AND 0xFF),
           msg_command = ucast cmd AND 0xFF, msg_repeat = False\<rparr>
      | IrdaProtocolSamsung32 \<Rightarrow>
          \<lparr>msg_protocol = p, msg_address = ucast addr AND 0xFF, msg_command = ucast cmd AND 0xFF,
           msg_repeat = False\<rparr>)"

lemma send_is_heard:
  "\<exists>h. hears (irda_decode dbg) irda_alloc_decoder
      ((True, idle) # demodulated (irda_send
        \<lparr>msg_protocol = p, msg_address = ucast addr, msg_command = ucast cmd, msg_repeat = False\<rparr> 1))
      [heard p addr cmd] h"
proof (cases p)
  case IrdaProtocolNEC
  then show ?thesis
    using nec_roundtrip [of "\<lparr>msg_protocol = p, msg_address = ucast addr, msg_command = ucast cmd, msg_repeat = False\<rparr>" dbg idle 0]
    by (simp add: nec_received_eq heard_def)
next
  case IrdaProtocolSamsung32
  then show ?thesis
    using samsung_roundtrip [of "\<lparr>msg_protocol = p, msg_address = ucast addr, msg_command = ucast cmd, msg_repeat = False\<rparr>" dbg idle 0]
    by (simp add: samsung_received_def heard_def)
qed


definition demo_receiver :: irda_app where
  "demo_receiver =
     (let a = irda_start (replicate 8 \<lparr>msg_protocol = IrdaProtocolNEC, msg_address = 0, msg_command = 0, msg_repeat = False\<rparr>)
      in a\<lparr>ia_state := (ia_state a)\<lparr>mode_id := 1, packet_id := 3\<rparr>\<rparr>)"


section \<open>The messages of the decoders are small\<close>

text \<open>
  The line of a packet is printed into a buffer of thirty bytes. It fits because a decoder never
  reports an address of more than 16 bits or a command of more than eight.
\<close>

definition small :: "irda_message \<Rightarrow> bool" where
  "small m \<longleftrightarrow> unat (msg_address m) < 16 ^ 4 \<and> unat (msg_command m) < 16 ^ 2"

lemma small_fields [simp]:
  "small (m\<lparr>msg_repeat := r\<rparr>) = small m" "small (m\<lparr>msg_protocol := p\<rparr>) = small m"
  by (simp_all add: small_def)

lemma unat_ucast_u8: "unat (ucast (w :: u8) :: u32) < 256"
proof -
  have "unat w < 2 ^ LENGTH(8)" by (rule unsigned_less)
  then show ?thesis by (simp add: unsigned_ucast_eq take_bit_nat_eq_self)
qed

lemma unat_ucast_u16: "unat (ucast (w :: u16) :: u32) < 65536"
proof -
  have "unat w < 2 ^ LENGTH(16)" by (rule unsigned_less)
  then show ?thesis by (simp add: unsigned_ucast_eq take_bit_nat_eq_self)
qed

lemma preamble_loop_message: "irda_preamble_loop tm d = Inr (f, d') \<Longrightarrow> message d' = message d"
proof (induction "timings_cnt d" arbitrary: d rule: less_induct)
  case less
  show ?case
  proof (cases "2 \<le> timings_cnt d")
    case True
    from less.prems True obtain ts where "message d' = message d \<or>
        irda_preamble_loop tm (d\<lparr>timings := ts, timings_cnt := timings_cnt d - 2\<rparr>) = Inr (f, d')"
      by (subst (asm) irda_preamble_loop.simps) (auto simp: Let_def bindE_eq_Inr split: if_splits)
    with less.hyps [of "d\<lparr>timings := ts, timings_cnt := timings_cnt d - 2\<rparr>"] True show ?thesis by auto
  next
    case False
    with less.prems show ?thesis by (subst (asm) irda_preamble_loop.simps) simp
  qed
qed

lemma pdwm_message: "irda_common_decode_pdwm tm len d = Inr (st, d') \<Longrightarrow> message d' = message d"
proof (induction "timings_cnt d" arbitrary: d rule: less_induct)
  case less
  show ?case
  proof (cases "2 \<le> timings_cnt d")
    case True
    from less.prems True obtain ts ds where "message d' = message d \<or>
        irda_common_decode_pdwm tm len
          (d\<lparr>data := ds, databit_cnt := databit_cnt d + 1, timings_cnt := timings_cnt d - 2, timings := ts\<rparr>) = Inr (st, d')"
      by (subst (asm) irda_common_decode_pdwm.simps) (auto simp: bindE_eq_Inr split: if_splits)
    with less.hyps [of "d\<lparr>data := ds, databit_cnt := databit_cnt d + 1, timings_cnt := timings_cnt d - 2, timings := ts\<rparr>"] True
    show ?thesis by auto
  next
    case False
    with less.prems show ?thesis by (subst (asm) irda_common_decode_pdwm.simps) (auto split: if_splits)
  qed
qed

text \<open>What the two protocols have in common here.\<close>

definition small_protocol :: "irda_protocol_spec \<Rightarrow> bool" where
  "small_protocol spec \<longleftrightarrow>
     (\<forall>d st d'. decode spec d = Inr (st, d') \<longrightarrow> message d' = message d) \<and>
     (\<forall>d ok d'. interpret_msg spec d = Inr (ok, d') \<longrightarrow> small (message d) \<longrightarrow> small (message d')) \<and>
     (\<forall>f d. decode_repeat spec = Some f \<longrightarrow> message (snd (f d)) = message d)"

lemma small_protocols: "small_protocol protocol_samsung32" "small_protocol protocol_nec"
proof -
  have s: "small (m\<lparr>msg_command := ucast (c :: u8), msg_address := ucast (a :: u8)\<rparr>)"
    "small (m\<lparr>msg_command := ucast (c :: u8), msg_address := ucast (w :: u16)\<rparr>)" for m c a w
    using unat_ucast_u8 [of a] unat_ucast_u8 [of c] unat_ucast_u16 [of w] by (simp_all add: small_def)
  show "small_protocol protocol_samsung32"
    unfolding small_protocol_def protocol_samsung32_def interpret_samsung32_def decode_repeat_samsung32_def
    by (auto dest: pdwm_message simp: bindE_eq_Inr s split: if_splits)
  show "small_protocol protocol_nec"
    unfolding small_protocol_def protocol_nec_def interpret_nec_def decode_repeat_nec_def Let_def
    by (auto dest: pdwm_message simp: bindE_eq_Inr s split: if_splits)
qed

lemma loop_wait_small:
  "irda_common_loop spec d = Inr (m, d') \<Longrightarrow> state d = WaitPreamble \<Longrightarrow> m = None \<and> message d' = message d"
  by (subst (asm) irda_common_loop.simps)
    (auto simp: bindE_eq_Inr irda_check_preamble_def Let_def dest!: preamble_loop_message split: if_splits)

lemma loop_small:
  assumes "small_protocol spec" and "small (message d)" and run: "irda_common_loop spec d = Inr (m, d')"
  shows "small (message d') \<and> (\<forall>x. m = Some x \<longrightarrow> small x)"
proof (cases "state d")
  case WaitPreamble
  from loop_wait_small [OF run this] assms(2) show ?thesis by simp
next
  case Decode
  from run Decode obtain st d1 where dec: "decode spec d = Inr (st, d1)"
    by (subst (asm) irda_common_loop.simps) (auto simp: bindE_eq_Inr)
  with assms(1,2) have s1: "small (message d1)" unfolding small_protocol_def by metis
  show ?thesis
  proof (cases st)
    case DecodeStatusError
    with run Decode dec have "irda_common_loop spec (d1\<lparr>state := WaitPreamble\<rparr>) = Inr (m, d')"
      by (subst (asm) irda_common_loop.simps) simp
    from loop_wait_small [OF this] s1 show ?thesis by simp
  next
    case DecodeStatusOk
    with run Decode dec have "m = None" "d' = d1" by (subst (asm) irda_common_loop.simps, simp)+
    with s1 show ?thesis by simp
  next
    case DecodeStatusReady
    with run Decode dec obtain ok d2 where i: "interpret_msg spec d1 = Inr (ok, d2)"
      and r: "(if ok then Inr (Some (message d2), d2\<lparr>state := ProcessRepeat\<rparr>)
               else Inr (None, d2\<lparr>state := WaitPreamble\<rparr>)) = (Inr (m, d') :: (irda_message option \<times> irda_decoder) res)"
      by (subst (asm) irda_common_loop.simps) (auto simp: bindE_eq_Inr)
    from i s1 assms(1) have "small (message d2)" unfolding small_protocol_def by blast
    with r show ?thesis by (auto split: if_splits)
  qed
next
  case ProcessRepeat
  show ?thesis
  proof (cases "decode_repeat spec")
    case None
    with run ProcessRepeat have "irda_common_loop spec (d\<lparr>state := WaitPreamble\<rparr>) = Inr (m, d')"
      by (subst (asm) irda_common_loop.simps) simp
    from loop_wait_small [OF this] assms(2) show ?thesis by simp
  next
    case (Some f)
    obtain st d1 where f: "f d = (st, d1)" by fastforce
    with assms(1,2) Some have s1: "small (message d1)" unfolding small_protocol_def by (metis snd_conv)
    show ?thesis
    proof (cases st)
      case DecodeStatusError
      with run ProcessRepeat Some f have "irda_common_loop spec (d1\<lparr>state := WaitPreamble\<rparr>) = Inr (m, d')"
        by (subst (asm) irda_common_loop.simps) simp
      from loop_wait_small [OF this] s1 show ?thesis by simp
    next
      case DecodeStatusOk
      with run ProcessRepeat Some f have "m = None" "d' = d1" by (subst (asm) irda_common_loop.simps, simp)+
      with s1 show ?thesis by simp
    next
      case DecodeStatusReady
      with run ProcessRepeat Some f have "m = Some (message d')" "message d' = (message d1)\<lparr>msg_repeat := True\<rparr>"
        by (subst (asm) irda_common_loop.simps, auto simp: Let_def)+
      with s1 show ?thesis by simp
    qed
  qed
qed

lemma common_decode_small:
  assumes "small_protocol spec" and "small (message d)" and "irda_common_decode False spec d x = Inr (m, d')"
  shows "small (message d') \<and> (\<forall>y. m = Some y \<longrightarrow> small y)"
proof -
  obtain lvl duration where x: "x = (lvl, duration)" by fastforce
  define d1 where "d1 = (if level d = lvl then d\<lparr>timings_cnt := 0\<rparr> else d)"
  from assms(3) obtain t where
    "irda_common_loop spec (d1\<lparr>level := lvl, timings := t, timings_cnt := timings_cnt d1 + 1\<rparr>) = Inr (m, d')"
    by (auto simp: x d1_def irda_common_decode_def bindE_eq_Inr furi_check_eq_Inr Let_def split: if_splits)
  from loop_small [OF assms(1) _ this] assms(2) show ?thesis by (simp add: d1_def)
qed

lemma decode_small:
  assumes "irda_decode False [ds, dn] x = Inr (m, h)" and "small (message ds)" and "small (message dn)"
  shows "(\<forall>y. m = Some y \<longrightarrow> small y) \<and> (\<forall>d \<in> set h. small (message d))"
proof -
  from assms(1) obtain m1 ds1 m2 dn1 where 1: "irda_common_decode False protocol_samsung32 ds x = Inr (m1, ds1)"
    and 2: "irda_common_decode False protocol_nec dn x = Inr (m2, dn1)"
    by (auto simp: irda_decode_def irda_protocols_def bindE_eq_Inr split: option.splits)
  from common_decode_small [OF small_protocols(1) assms(2) 1] common_decode_small [OF small_protocols(2) assms(3) 2]
    assms(1) 1 2
  show ?thesis
    by (cases m1; cases m2) (auto simp: irda_decode_def irda_protocols_def Let_def)
qed

section \<open>No fault in a release build\<close>

definition state_ok :: "irda_app_state \<Rightarrow> bool" where
  "state_ok st \<longleftrightarrow> unat (mode_id st) < 2 \<and> unat (carrier_duty_cycle_id st) < length duty_cycles \<and>
     unat (packet_id st) < 8 \<and> length (packets st) = 8 \<and> (\<forall>m \<in> set (packets st). small m)"

definition irda_ok :: "irda_app \<Rightarrow> bool" where
  "irda_ok a \<longleftrightarrow> (\<exists>l. handler_inv l (ia_handler a)) \<and> (\<forall>d \<in> set (ia_handler a). small (message d)) \<and>
     (\<forall>m. EventTypeRX m \<in> set (ia_events a) \<longrightarrow> small m) \<and> state_ok (ia_state a)"

lemma duty_length [simp]: "length duty_cycles = 5"
  by (simp add: duty_cycles_def)

lemma length_decimal: "n < 10 ^ Suc k \<Longrightarrow> length (decimal n) \<le> Suc k"
proof (induction k arbitrary: n)
  case 0
  then show ?case by (subst decimal.simps) simp
next
  case (Suc k)
  have "n div 10 < 10 ^ Suc k" using Suc.prems by (simp add: div_less_iff_less_mult mult.commute)
  with Suc.IH [of "n div 10"] show ?case by (subst decimal.simps) simp
qed

lemma length_hexadecimal: "n < 16 ^ Suc k \<Longrightarrow> length (hexadecimal n) \<le> Suc k"
proof (induction k arbitrary: n)
  case 0
  then show ?case by (subst hexadecimal.simps) simp
next
  case (Suc k)
  have "n div 16 < 16 ^ Suc k" using Suc.prems by (simp add: div_less_iff_less_mult mult.commute)
  with Suc.IH [of "n div 16"] show ?case by (subst hexadecimal.simps) simp
qed

lemma packet_line_fits:
  assumes "small m" and "unat i < 8"
  shows "length (packet_line i m) < 30"
proof -
  have "length (decimal (unat i)) \<le> 1" using length_decimal [of "unat i" 0] assms(2) by simp
  moreover have "length (hexadecimal (unat (msg_address m))) \<le> 4" "length (hexadecimal (unat (msg_command m))) \<le> 2"
    using assms(1) length_hexadecimal [of _ 3] length_hexadecimal [of "unat (msg_command m)" 1] by (simp_all add: small_def numeral_2_eq_2)
  moreover have "length (irda_get_protocol_name (msg_protocol m)) \<le> 9"
    by (cases "msg_protocol m") (simp_all add: irda_get_protocol_name_def irda_protocols_def)
  ultimately show ?thesis by (simp add: packet_line_def)
qed

text \<open>Drawing that always succeeds.\<close>

definition drawable :: "draw \<Rightarrow> bool" where
  "drawable d \<longleftrightarrow> (\<forall>c. \<exists>cs c1. d c = Inr (cs, c1))"

lemma drawable_draws: "(\<forall>d \<in> set ds. drawable d) \<Longrightarrow> drawable (draws ds)"
proof (induction ds)
  case Nil
  then show ?case by (simp add: draws_def draw_nothing_def drawable_def)
next
  case (Cons d ds)
  then have a: "drawable d" and b: "drawable (draws ds)" by simp_all
  show ?case
    unfolding drawable_def
  proof
    fix c
    obtain cs c1 where 1: "d c = Inr (cs, c1)" using a unfolding drawable_def by blast
    obtain cs1 c2 where 2: "draws ds c1 = Inr (cs1, c2)" using b unfolding drawable_def by blast
    from 1 2 show "\<exists>cs c1. draws (d # ds) c = Inr (cs, c1)" by (simp add: draws_def draw_seq_def)
  qed
qed

lemma drawable_primitives [simp]:
  "drawable canvas_clear" "drawable (canvas_set_color col)" "drawable (canvas_set_font f)"
  "drawable (canvas_draw_str x y s)" "drawable draw_nothing"
  by (simp_all add: drawable_def canvas_clear_def canvas_set_color_def canvas_set_font_def canvas_draw_str_def
      draw_nothing_def)

lemma f32_scaled_le: "0 \<le> x \<Longrightarrow> x < 2 ^ 24 \<Longrightarrow> f32_scaled k x \<le> x + 1"
proof (induction k arbitrary: x)
  case 0
  have "round_half_even x \<le> \<lfloor>x\<rfloor> + 1" by (simp add: round_half_even_def Let_def)
  then have "(of_int (round_half_even x) :: rat) \<le> of_int (\<lfloor>x\<rfloor> + 1)" by (simp only: of_int_le_iff)
  also have "\<dots> \<le> x + 1" by simp
  finally show ?case by simp
next
  case (Suc k)
  have "round_half_even x \<le> \<lfloor>x\<rfloor> + 1" by (simp add: round_half_even_def Let_def)
  then have "(of_int (round_half_even x) :: rat) \<le> of_int (\<lfloor>x\<rfloor> + 1)" by (simp only: of_int_le_iff)
  also have "\<dots> \<le> x + 1" by simp
  finally have r: "of_int (round_half_even x) \<le> x + 1" .
  from Suc.IH [of "2 * x"] Suc.prems have "x < 2 ^ 23 \<Longrightarrow> f32_scaled k (2 * x) \<le> 2 * x + 1" by simp
  with r Suc.prems show ?case by auto
qed

lemma f32_le: "0 \<le> x \<Longrightarrow> x < 2 ^ 24 \<Longrightarrow> f32 x \<le> x + 1"
  by (simp only: f32_def f32_scaled_le)

lemma f32_nonneg: "0 \<le> x \<Longrightarrow> 0 \<le> f32 x"
proof -
  have "0 \<le> x \<Longrightarrow> 0 \<le> f32_scaled k x" for k
  proof (induction k arbitrary: x)
    case 0
    then have "0 \<le> round_half_even x" by (intro round_half_even_ge) simp
    then show ?case by simp
  next
    case (Suc k)
    then have "0 \<le> round_half_even x" by (intro round_half_even_ge) simp
    with Suc show ?case by simp
  qed
  then show "0 \<le> x \<Longrightarrow> 0 \<le> f32 x" by (simp add: f32_def)
qed

lemma duty_small: "d \<in> set duty_cycles \<Longrightarrow> 0 \<le> d \<and> d \<le> 2"
  using f32_le [of "1 / 10"] f32_le [of "1 / 4"] f32_le [of "333 / 1000"] f32_le [of "1 / 2"]
    f32_nonneg [of "1 / 10"] f32_nonneg [of "1 / 4"] f32_nonneg [of "333 / 1000"] f32_nonneg [of "1 / 2"]
  by (auto simp: duty_cycles_def)

lemma duty_texts: "\<forall>d \<in> set duty_cycles. nat \<lfloor>f32 (d * 1000)\<rfloor> < 10 ^ 4"
proof
  fix d assume "d \<in> set duty_cycles"
  then have "0 \<le> d * 1000" "d * 1000 \<le> 2000" using duty_small by force+
  then have "f32 (d * 1000) \<le> 2001" using f32_le [of "d * 1000"] by simp
  then have "\<lfloor>f32 (d * 1000)\<rfloor> \<le> 2001" by (simp add: floor_le_iff)
  then have "nat \<lfloor>f32 (d * 1000)\<rfloor> \<le> nat 2001" by (rule nat_mono)
  also have "\<dots> < 10 ^ 4" by simp
  finally show "nat \<lfloor>f32 (d * 1000)\<rfloor> < 10 ^ 4" .
qed

lemma carrier_drawable:
  assumes "state_ok st"
  shows "drawable (render_carrier st)"
proof -
  have i: "unat (carrier_duty_cycle_id st) < length duty_cycles" using assms by (simp add: state_ok_def)
  have "unat (carrier_freq st) < 2 ^ LENGTH(16)" by (rule unsigned_less)
  then have f: "length (decimal (unat (carrier_freq st))) \<le> 5" using length_decimal [of _ 4] by simp
  have d: "length (decimal (nat \<lfloor>f32 (duty_cycles ! unat (carrier_duty_cycle_id st) * 1000)\<rfloor>)) \<le> 4"
    using length_decimal [of _ 3] duty_texts nth_mem [OF i] by simp
  have "drawable (draws
         [canvas_set_font FontSecondary, canvas_draw_str 2 25 ''carrier mode >'', canvas_draw_str 2 37 a,
          canvas_draw_str 2 50 b, canvas_draw_str 2 62 e])" for a b e
    by (rule drawable_draws) simp
  with i f d show ?thesis
    by (simp add: drawable_def render_carrier_def sprintf_to_def)
qed

lemma packet_drawable:
  assumes "state_ok st"
  shows "drawable (render_packet st)"
proof -
  have i: "unat (packet_id st) < length (packets st)" "unat (packet_id st) < 8"
    "small (packets st ! unat (packet_id st))"
    using assms by (simp_all add: state_ok_def)
  have "drawable (draws
         [canvas_set_font FontSecondary, canvas_draw_str 2 25 ''< packet mode'', canvas_draw_str 2 37 a,
          canvas_draw_str 2 50 b])" for a b
    by (rule drawable_draws) simp
  with i packet_line_fits [OF i(3,2)] show ?thesis
    by (simp add: drawable_def render_packet_def sprintf_to_def)
qed

lemma mode_cases: "unat (w :: u8) < 2 \<Longrightarrow> w = 0 \<or> w = 1"
proof -
  assume "unat w < 2"
  then have "unat w = unat (0 :: u8) \<or> unat w = unat (1 :: u8)" by auto
  then show ?thesis by (simp only: word_unat_eq_iff)
qed

lemma render_total: "state_ok st \<Longrightarrow> drawable (irda_render_callback acq st)"
proof -
  assume ok: "state_ok st"
  then have "mode_id st = 0 \<or> mode_id st = 1" by (intro mode_cases) (simp add: state_ok_def)
  with carrier_drawable [OF ok] packet_drawable [OF ok] have "drawable (mode_render (mode_id st) st)"
    by (auto simp: drawable_def mode_render_def)
  then have "drawable (draws [canvas_clear, canvas_set_color ColorBlack, canvas_set_font FontPrimary,
               canvas_draw_str 2 12 ''irda test'', mode_render (mode_id st) st])"
    by (intro drawable_draws) simp
  then show ?thesis by (cases acq) (simp_all add: irda_render_callback_def drawable_def draw_nothing_def)
qed

lemma below_last: "int (unat (w :: u8)) < int n - 1 \<Longrightarrow> n \<le> 255 \<Longrightarrow> unat (w + 1) < n"
proof -
  assume "int (unat w) < int n - 1" and n: "n \<le> 255"
  then have "unat w + 1 < n" by linarith
  with n show ?thesis by (simp add: inc_unat)
qed

lemma carrier_ok:
  assumes "state_ok st"
  shows "\<exists>outs st'. input_carrier ev st = Inr (outs, st') \<and> state_ok st'"
proof -
  have i: "unat (carrier_duty_cycle_id st) < 5" using assms by (simp add: state_ok_def)
  have up: "unat (carrier_duty_cycle_id st + 1) < 5" if "int (unat (carrier_duty_cycle_id st)) < int (length duty_cycles) - 1"
    using below_last [OF that] by simp
  from assms i show ?thesis
    by (auto simp: input_carrier_def Let_def state_ok_def up)
qed

lemma packet_ok:
  assumes "state_ok st"
  shows "\<exists>outs st'. input_packet ev st = Inr (outs, st') \<and> state_ok st'"
proof -
  have i: "unat (packet_id st) < length (packets st)" "unat (packet_id st) < 8" using assms by (simp_all add: state_ok_def)
  have up: "unat (packet_id st + 1) < 8" if "int (unat (packet_id st)) < int IRDA_PACKET_COUNT - 1"
    using below_last [OF that] by (simp add: IRDA_PACKET_COUNT_def)
  have down: "unat (packet_id st - 1) < 8" if "packet_id st > 0"
    using that i(2) by (simp add: dec_unat word_neq_0_conv)
  from assms i show ?thesis
    by (auto simp: input_packet_def Let_def state_ok_def up down)
qed

lemma key_ok:
  assumes "state_ok st"
  shows "\<exists>outs st'. irda_key ev st = Inr (outs, st') \<and> state_ok st'"
proof -
  define st1 where "st1 = (if ev_type ev = InputTypeShort \<and> ev_key ev = InputKeyLeft \<and> mode_id st > 0
                 then st\<lparr>mode_id := mode_id st - 1\<rparr> else st)"
  define st2 where "st2 = (if ev_type ev = InputTypeShort \<and> ev_key ev = InputKeyRight \<and>
                    int (unat (mode_id st1)) < int mode_count - 1
                 then st1\<lparr>mode_id := mode_id st1 + 1\<rparr> else st1)"
  have "state_ok st1" using assms by (auto simp: st1_def state_ok_def dec_unat word_neq_0_conv)
  moreover have "unat (mode_id st1 + 1) < 2" if "int (unat (mode_id st1)) < int mode_count - 1"
    using below_last [OF that] by (simp add: mode_count_def)
  ultimately have ok: "state_ok st2" by (simp add: st2_def state_ok_def)
  then have "mode_id st2 = 0 \<or> mode_id st2 = 1" by (intro mode_cases) (simp add: state_ok_def)
  with carrier_ok [OF ok] packet_ok [OF ok] have "\<exists>outs st'. mode_input (mode_id st2) ev st2 = Inr (outs, st') \<and> state_ok st'"
    by (auto simp: mode_input_def)
  moreover have "irda_key ev st = mode_input (mode_id st2) ev st2"
    unfolding irda_key_def Let_def st2_def st1_def by (rule refl)
  ultimately show ?thesis by simp
qed

lemma rx_ok:
  assumes "irda_ok a" and "small m"
  shows "\<exists>outs a'. irda_rx m a = Inr (outs, a') \<and> irda_ok a'"
proof -
  have "state_ok ((ia_state a)\<lparr>packets := (packets (ia_state a))[unat (packet_id (ia_state a)) := m]\<rparr>)"
    using assms by (auto simp: irda_ok_def state_ok_def dest!: subsetD [OF set_update_subset_insert])
  moreover have "unat (packet_id (ia_state a)) < length (packets (ia_state a))"
    using assms(1) by (simp add: irda_ok_def state_ok_def)
  ultimately show ?thesis using assms(1) by (auto simp: irda_rx_def irda_ok_def Let_def)
qed

lemma pulse_ok:
  assumes "irda_ok a" and "\<not> released Release_Events a"
  shows "\<exists>a'. irda_rx_callback False x a = Inr a' \<and> irda_ok a'"
proof -
  obtain lvl t where x: "x = (lvl, t)" by fastforce
  from assms(1) obtain l where l: "handler_inv l (ia_handler a)" by (auto simp: irda_ok_def)
  from irda_decode_total [OF this, of False lvl t] obtain m h
    where d: "irda_decode False (ia_handler a) x = Inr (m, h)" "handler_inv lvl h" by (auto simp: x)
  from l obtain ds dn where h: "ia_handler a = [ds, dn]" by (auto simp: handler_inv_def)
  with assms(1) have "small (message ds)" "small (message dn)" by (simp_all add: irda_ok_def)
  from decode_small [OF d(1) [unfolded h] this] d assms show ?thesis
    by (cases m) (auto simp: irda_rx_callback_def irda_ok_def Let_def)
qed

lemma round_ok:
  assumes "irda_ok a"
  shows "\<exists>outs a'. irda_round a = Inr (outs, a') \<and> irda_ok a'"
proof (cases "ia_events a")
  case Nil
  with assms show ?thesis by (simp add: irda_round_def)
next
  case (Cons e es)
  have rest: "irda_ok (a\<lparr>ia_events := es\<rparr>)" using assms Cons by (auto simp: irda_ok_def)
  show ?thesis
  proof (cases e)
    case (EventTypeKey ev)
    from rest key_ok [of "ia_state a" ev] obtain outs st
      where "irda_key ev (ia_state a) = Inr (outs, st)" "state_ok st" by (auto simp: irda_ok_def)
    with rest EventTypeKey Cons show ?thesis by (auto simp: irda_round_def irda_ok_def Let_def)
  next
    case (EventTypeRX m)
    with assms Cons have "small m" by (auto simp: irda_ok_def)
    from rx_ok [OF rest this] EventTypeRX Cons show ?thesis by (simp add: irda_round_def)
  qed
qed

text \<open>
  The races at the end of the task: a pulse after the queue of events is gone and before the interrupt
  is off; \<^verbatim>\<open>ir_rx\<close> beginning when the task has returned, or going on after its queue is gone; \<^verbatim>\<open>ir_tx\<close>
  after the mutex is gone.
\<close>

definition exit_race :: "irda_app \<Rightarrow> irda_happening \<Rightarrow> bool" where
  "exit_race a e =
     (case e of
        Ia_Pulse x \<Rightarrow> released Release_Events a \<and> \<not> released Release_Irq a
      | Ia_Command \<Rightarrow> ia_cli a = Cli_Found_Rx \<and> released Release_Decoder a
      | Ia_Command_Round i \<Rightarrow> ia_cli a = Cli_In_Rx \<and> released Release_Cli_Queue a
      | Ia_Tx acq args \<Rightarrow> ia_cli a = Cli_Found_Tx \<and> released Release_State_Mutex a
      | _ \<Rightarrow> False)"

lemma step_ok:
  assumes "irda_ok a" and "\<not> exit_race a e"
  shows "\<exists>outs a'. irda_app_step False a e = Inr (outs, a') \<and> irda_ok a'"
proof (cases e)
  case (Ia_Pulse x)
  with pulse_ok [OF assms(1), of x] assms show ?thesis by (auto simp: exit_race_def)
next
  case Ia_Round
  with round_ok [OF assms(1)] assms(1) show ?thesis by auto
next
  case (Ia_Render acq c)
  have "drawable (irda_render_callback acq (ia_state a))"
    by (rule render_total) (use assms(1) in \<open>simp add: irda_ok_def\<close>)
  then obtain cs c1 where "irda_render_callback acq (ia_state a) c = Inr (cs, c1)"
    unfolding drawable_def by blast
  with Ia_Render assms(1) show ?thesis by simp
next
  case (Ia_Command_Round i)
  with assms show ?thesis
    by (auto simp: irda_cli_cmd_rx_def irda_ok_def exit_race_def Let_def split: list.splits)
next
  case Ia_Command
  with assms show ?thesis by (auto simp: exit_race_def irda_ok_def)
next
  case (Ia_Tx acq args)
  with assms show ?thesis by (auto simp: exit_race_def irda_ok_def split: prod.splits)
qed (use assms(1) in \<open>auto simp: irda_ok_def irda_input_callback_def irda_release_next_def\<close>)

lemma run_ok:
  assumes "irda_ok a"
  shows "(\<exists>os a'. runE (irda_app_step False) a es = Inr (os, a') \<and> irda_ok a') \<or>
     (\<exists>es1 e es2 os a'. es = es1 @ e # es2 \<and> runE (irda_app_step False) a es1 = Inr (os, a') \<and> exit_race a' e)"
  using assms
proof (induction es arbitrary: a)
  case (Cons e es)
  show ?case
  proof (cases "exit_race a e")
    case True
    then have "e # es = [] @ e # es \<and> runE (irda_app_step False) a [] = Inr ([], a) \<and> exit_race a e" by simp
    then show ?thesis by blast
  next
    case False
    from step_ok [OF Cons.prems False] obtain outs a1
      where 1: "irda_app_step False a e = Inr (outs, a1)" "irda_ok a1" by blast
    from Cons.IH [OF 1(2)] show ?thesis
    proof (elim disjE exE conjE)
      fix os a' assume "runE (irda_app_step False) a1 es = Inr (os, a')" "irda_ok a'"
      with 1 show ?thesis by simp
    next
      fix es1 e1 es2 os a'
      assume "es = es1 @ e1 # es2" "runE (irda_app_step False) a1 es1 = Inr (os, a')" "exit_race a' e1"
      with 1 have "e # es = (e # es1) @ e1 # es2 \<and>
          runE (irda_app_step False) a (e # es1) = Inr (outs # os, a') \<and> exit_race a' e1" by simp
      then show ?thesis by blast
    qed
  qed
qed simp

lemma start_ok: "length junk = 8 \<Longrightarrow> irda_ok (irda_start junk)"
proof -
  assume n: "length junk = 8"
  have init: "length (init_packet i p addr cmd ps) = length ps" for i p addr cmd ps
    by (simp add: init_packet_def)
  obtain a b c d e f g h where "junk = [a, b, c, d, e, f, g, h]"
    using n by (auto simp: numeral_eq_Suc length_Suc_conv)
  then have "length (initial_packets junk) = 8 \<and> (\<forall>m \<in> set (initial_packets junk). small m)"
    by (simp add: initial_packets_def init_packet_def IRDA_PACKET_COUNT_def upt_rec small_def)
  then have "state_ok (ia_state (irda_start junk))" by (simp add: irda_start_def state_ok_def)
  moreover have "\<forall>d \<in> set irda_alloc_decoder. small (message d)"
    by (simp add: irda_alloc_decoder_def irda_protocols_def irda_common_decoder_alloc_def small_def)
  ultimately show ?thesis using handler_inv_alloc by (auto simp: irda_ok_def irda_start_def)
qed

text \<open>
  C24. The application faults only in a race at its end, in a release build. Whatever pulses arrive, at
  any level and of any length, whatever keys are pressed, and in whatever order the interrupt, the
  task, the screen and the commands \<^verbatim>\<open>ir_rx\<close> and \<^verbatim>\<open>ir_tx\<close> run: every index stays in its table, the
  decoders stay in their buffers, and the lines of the screen fit the 24 and 30 bytes they are printed
  into, from the start through every step in which the task gives back what it had after the Back
  key. Either nothing faults, or the run came to one of the races after the Back key: a pulse between
  the deletion of the queue of events and the interrupt being switched off, a command \<^verbatim>\<open>ir_rx\<close> that
  begins when the task has returned or goes on after its queue was deleted, or an \<^verbatim>\<open>ir_tx\<close> after the
  mutex was deleted.
\<close>

theorem irda_app_faults_in_exit_only:
  assumes "length junk = 8"
  shows "(\<exists>os a. runE (irda_app_step False) (irda_start junk) es = Inr (os, a)) \<or>
     (\<exists>es1 e es2 os a. es = es1 @ e # es2 \<and>
        runE (irda_app_step False) (irda_start junk) es1 = Inr (os, a) \<and> exit_race a e)"
  using run_ok [OF start_ok [OF assms], of es] by blast

text \<open>The races are real: \<^verbatim>\<open>ir_rx\<close> goes on while the task ends, and uses its deleted queue.\<close>

definition demo_junk :: "irda_message list" where
  "demo_junk = replicate 8 \<lparr>msg_protocol = IrdaProtocolNEC, msg_address = - 1, msg_command = - 1, msg_repeat = True\<rparr>"

definition leaving :: "irda_happening list" where
  "leaving = [Ia_Find_Rx, Ia_Command,
     Ia_Key \<lparr>ev_key = InputKeyBack, ev_type = InputTypeShort\<rparr>, Ia_Round,
     Ia_Release, Ia_Release, Ia_Release, Ia_Release, Ia_Command_Round False]"

lemma rx_command_uses_deleted_queue:
  "runE (irda_app_step False) (irda_start demo_junk) leaving = Inl Out_Of_Bounds"
  by (simp add: leaving_def irda_start_def irda_releases_def released_def ia_running_def irda_round_def
      irda_input_callback_def irda_release_next_def irda_cli_cmd_rx_def Let_def)

lemma message_after_queue_deleted:
  assumes "irda_decode dbg (ia_handler a) x = Inr (Some m, h)"
    and "released Release_Events a" and "\<not> released Release_Irq a"
  shows "irda_app_step dbg a (Ia_Pulse x) = Inl Out_Of_Bounds"
  using assms by (simp add: irda_rx_callback_def Let_def)

theorem irda_app_faults_in_exit_only_witness:
  "\<exists>es1 e es2 os a. leaving = es1 @ e # es2 \<and>
     runE (irda_app_step False) (irda_start demo_junk) es1 = Inr (os, a) \<and> exit_race a e"
  using irda_app_faults_in_exit_only [of demo_junk leaving]
  by (simp add: rx_command_uses_deleted_queue) (simp add: demo_junk_def)

text \<open>
  In a debug build the interrupt asserts that its message found room: a task that is behind by 32
  events is stopped by the next message.
\<close>

lemma full_queue_asserts:
  assumes "irda_decode True (ia_handler a) x = Inr (Some m, h)" and "32 \<le> length (ia_events a)"
    and "ia_running a"
  shows "irda_rx_callback True x a = Inl Assert_Failed"
  using assms by (simp add: irda_rx_callback_def ia_running_def released_def Let_def furi_assert_def)

text \<open>Only the length of the two numbers is checked: words that are no numbers are sent as zero.\<close>

lemma tx_accepts_words:
  "irda_cli_cmd_tx True ''NEC zzzz no_way'' =
     ([], irda_send \<lparr>msg_protocol = IrdaProtocolNEC, msg_address = 0, msg_command = 0, msg_repeat = False\<rparr> 1)"
  by (simp add: irda_cli_cmd_tx_def string_left_def string_right_def string_strim_def is_blank_def
      strtoul_base16_def digit_value_def is_c_space_def)

end
