(* ===== verification/Spec2Isabelle.thy ===== *)
theory Spec2Isabelle
  imports Irda PubSub FuriRecord FuriMemory FuriThread FuriStdout Input DolphinState
    InternalStorage ViewDispatcher GuiSafety Cli ByteInput Submenu TextInput Menu EmvDecoder
    Notification SdFilesystem FileSelect Dialogs SdApp Archive PowerChips PowerApp Hal Vcp
    AppLoader Radio DolphinApp DolphinScene IrdaApp
begin

text \<open>
  \<^bold>\<open>Verification of the services and libraries of the Flipper Zero firmware.\<close>

  The firmware is a set of threads on a real-time kernel. A small core (\<^verbatim>\<open>core/furi\<close>) gives them
  records, threads, messages, memory and output; services (\<^verbatim>\<open>applications/\<close>) own a device or a
  resource each and publish an API as a record; libraries (\<^verbatim>\<open>lib/\<close>) and the hardware access layer
  (\<^verbatim>\<open>firmware/targets/f6/api-hal\<close>) are called by both. The theories follow that structure, one per
  part. Each defines the state of its part as a record, its data as datatypes, its operations under
  the names of the C functions, then its invariant or its reference, then the lemmas, then the
  properties with their witnesses.

  \<^bold>\<open>Conventions.\<close> A call that does not return normally (a failed check, an access outside an array,
  a null pointer) is \<open>Inl\<close> of a \<open>fault\<close>; \<open>dbg\<close> tells the debug build, which compiles the asserts,
  from the release build. Integers keep their C width as words. Floats are rationals rounded by
  \<open>f32\<close>. What a component does to the outside (drawing, hardware, callbacks) is the list of
  the calls it makes. What the code calls but does not contain - the kernel, FatFs, LittleFS, u8g2, the
  USB and radio stacks, the chips - is an argument, with its documented behaviour as a named
  hypothesis where a property needs one; each such property has a witness with a concrete instance.

  \<^bold>\<open>Core.\<close>
  \<^item> \<open>Prelude\<close>: faults, arrays, running a fallible step over inputs, dictionaries, rings, words.
    \<open>MString\<close>: the string library. \<open>Float32\<close>: single precision.
  \<^item> \<open>FuriRecord\<close> (\<^verbatim>\<open>core/furi/record.c\<close>): creating, opening, closing and destroying records, as a
    step relation over the threads that wait. Open returns what was published; a record in use is
    never destroyed; a waiting client goes on once its record is there.
  \<^item> \<open>PubSub\<close> (\<^verbatim>\<open>pubsub.c\<close>): the locale \<open>event_bus\<close> states the contract of subscription and delivery.
  \<^item> \<open>FuriMemory\<close> (\<^verbatim>\<open>memmgr.c\<close>, \<^verbatim>\<open>valuemutex.c\<close>), \<open>FuriThread\<close> (\<^verbatim>\<open>thread.c\<close>: the life cycle under
    every interleaving with the kernel), \<open>FuriStdout\<close> (\<^verbatim>\<open>stdglue.c\<close>, \<^verbatim>\<open>log.c\<close>).

  \<^bold>\<open>Libraries.\<close>
  \<^item> \<open>IrdaDecoder\<close>, \<open>IrdaProtocols\<close>, \<open>IrdaStream\<close>, \<open>Irda\<close> (\<^verbatim>\<open>lib/irda\<close>): the common decoder, the NEC
    and Samsung protocols, the encoders. The locales \<open>irda_protocol\<close> and \<open>pdwm_receiver\<close> prove once
    what a stream of pulses does to any pulse-distance protocol; both protocols interpret them. What
    is sent is received, with the repeat codes; no input faults.
  \<^item> \<open>EmvDecoder\<close> (\<^verbatim>\<open>lib/nfc_protocols/emv_decoder.c\<close>): the answers of a payment card.
  \<^item> \<open>Radio\<close> (\<^verbatim>\<open>lib/drivers/cc1101.c\<close>, \<^verbatim>\<open>api-hal-subghz.c\<close>): registers and tuning of the radio.

  \<^bold>\<open>Hardware access.\<close>
  \<^item> \<open>I2c\<close> (\<^verbatim>\<open>api-hal-i2c.c\<close>): the transfer loops over the flags they poll, and the locale \<open>i2c_link\<close>,
    what the drivers rely on, interpreted by these loops.
  \<^item> \<open>PowerChips\<close> (\<^verbatim>\<open>lib/drivers/bq25896.c\<close>, \<^verbatim>\<open>bq27220.c\<close>, \<^verbatim>\<open>lp5562.c\<close>, \<^verbatim>\<open>api-hal-light.c\<close>): charger, gauge
    and LED driver over a bus. The gauge of a manual receives the battery profile.
  \<^item> \<open>Hal\<close> (\<^verbatim>\<open>api-hal-power.c\<close>, \<^verbatim>\<open>api-hal-os.c\<close>, \<^verbatim>\<open>api-hal-bt.c\<close>): the sleep counters, tickless sleep,
    the wait for the second core. \<open>Vcp\<close> (\<^verbatim>\<open>api-hal-vcp.c\<close>): the virtual serial port.
  \<^item> \<open>Flash\<close> (\<^verbatim>\<open>api-hal-flash.c\<close> and the block device of the internal storage).

  \<^bold>\<open>Services.\<close>
  \<^item> \<open>Input\<close> (\<^verbatim>\<open>applications/input\<close>): debounce and the protocol of press, short, long and release.
  \<^item> \<open>InternalStorage\<close>, \<open>DolphinState\<close>: the key-value store, its task, the queue between them and the
    flag a client waits for. A call is made of the same pieces whether it runs with an idle service
    (what is written is read) or interleaved with other clients, as a step relation; a flag left over
    from before ends a call with nothing done. The saved state of the dolphin is on top of it.
  \<^item> \<open>Notification\<close>: sequences, layers of lights, the display timer.
  \<^item> \<open>Views\<close>, \<open>ViewDispatcher\<close>, \<open>Gui\<close>, \<open>GuiSafety\<close>, \<open>Canvas\<close> (\<^verbatim>\<open>applications/gui\<close>): views with their
    models, the dispatcher, the layers of view ports, input routing, redrawing, drawing primitives.
    \<open>GuiSafety\<close> composes them: no sequence of client operations breaks the links.
  \<^item> \<open>ByteInput\<close>, \<open>TextInput\<close>, \<open>Submenu\<close>, \<open>FileSelect\<close>, \<open>Dialogs\<close> (\<^verbatim>\<open>applications/gui/modules\<close>): the
    screens. Each interactive one refines an abstract editor, list or ring.
  \<^item> \<open>Menu\<close>, \<open>Cli\<close>: the main menu refines a stack of levels; the line editor shows what it holds.
  \<^item> \<open>SdFilesystem\<close>, \<open>SdApp\<close>: the file API with its slots, mutex and error mapping over FatFs, and the
    application that serves file selection to other threads.
  \<^item> \<open>AppLoader\<close>: starting applications, composed of \<open>FuriThread\<close> and \<open>Hal\<close>. The code takes no mutex, so
    a request from the menu or from a command line is split where another may come between. The
    insomnia count follows the thread for any order of the pieces; that one application runs at a
    time holds for a single requester, and two requesters that overlap are shown to break it.

  \<^bold>\<open>Applications.\<close> \<open>Archive\<close> (the browser, on \<open>SdFilesystem\<close>), \<open>PowerApp\<close> (on \<open>PowerChips\<close> and
  \<open>Notification\<close>), \<open>DolphinApp\<close> (\<^verbatim>\<open>applications/dolphin\<close>: the home screen, its lock and its task, on
  \<open>ViewDispatcher\<close>, \<open>DolphinState\<close> and \<open>FuriThread\<close>; it starts with one of its own views on the screen,
  and the lock opens exactly for three quick presses),
  \<open>DolphinScene\<close> (\<^verbatim>\<open>dolphin/scenes\<close>: the room as a state machine of activities, on \<open>Canvas\<close> and
  \<open>AppLoader\<close>; whatever happens, the dolphin stays in its world, and a walk arrives), \<open>IrdaApp\<close>
  (\<^verbatim>\<open>applications/irda\<close>: the screen, the interrupt and the commands, on \<open>Irda\<close> and \<open>Canvas\<close>; a command
  typed on one device arrives in another; nothing makes the application fault before it is left, and
  afterwards only what still uses the queue or the decoder that its exit has released).

  \<^bold>\<open>Bounds and fuel.\<close> \<open>f32_scaled\<close> rescales at most 256 times; the smallest number of the format needs 172,
  the largest 104;
  \<open>dot_rows\<close> of the scrollbar runs at most 129 rounds and \<open>newline_count\<close> at most 257, the range of
  their 8-bit counters; \<open>cfg_update_loop\<close> has the 100 rounds of the source. The scan loops of
  \<open>EmvDecoder\<close>, whose 16-bit index may wrap, and the event loop of the dispatcher take fuel: \<open>None\<close>
  means that it ran out, and the properties prove a result for any fuel above the length of the
  answer. The directory loops of \<open>FileSelect\<close> and \<open>Archive\<close> are partial functions, \<open>None\<close> when they do
  not end. The polling loops of \<open>I2c\<close>, \<open>Hal\<close> and \<open>Vcp\<close> consume a list of answers.

  \<^bold>\<open>Not modelled.\<close> Third-party code (FatFs, u8g2, RFAL, the QR code library, the vendor's drivers and
  generated start-up code, LittleFS and M*LIB, which are submodules); C++ applications (iButton,
  RFID, accessor, the SD card test); code that only sets registers (pins, timers, clocks, SPI and
  infrared set-up); set-up functions that allocate and connect objects; demonstrations and
  tests. The manifest lists every such part with its reason.
\<close>

end
